(* ===== verification/Prelude.thy ===== *)
theory Prelude
  imports Main "HOL-Library.AList" "HOL-Library.Product_Lexorder"
    "HOL-Library.Code_Target_Numeral"
begin

text \<open>
  The shared vocabulary of the quicKFS development.

  \<^item> Unsigned machine integers that only take part in range arithmetic are natural numbers
    with the bound written out: \<open>U64_MAX\<close>, Rust's \<open>checked_add\<close>, \<open>saturating_add\<close>,
    \<open>saturating_sub\<close> (which is subtraction on \<open>nat\<close>). Packed words are \<open>word\<close>s where
    they are declared.
  \<^item> A fallible pure function returns \<open>'e + 'a\<close> with \<open>Inl\<close> for the error; \<open>ebind\<close> is the
    \<^verbatim>\<open>?\<close> operator.
  \<^item> A fallible operation on state is a function \<open>'s \<Rightarrow> ('e + 'a) \<times> 's\<close>: an early return
    keeps the state changes made before it, as the Rust code does. \<open>mret\<close>, \<open>mfail\<close>,
    \<open>mbind\<close>, \<open>mget\<close>, \<open>mput\<close> build such operations and \<open>preserves\<close> with its rules carries
    invariants through them.
  \<^item> A \<^verbatim>\<open>HashMap\<close> or \<^verbatim>\<open>BTreeMap\<close> is an association list; the order of the list is the
    iteration order of the hash map, so a theorem about every list is a theorem about every
    iteration order.
\<close>

named_theorems pres_intros "introduction rules for invariants of stateful operations"
named_theorems wire_defs "definitions of the wire protocol's words and constants"

subsection \<open>Bounded unsigned arithmetic\<close>

type_synonym u8 = nat
type_synonym u32 = nat
type_synonym u64 = nat
type_synonym usize = nat
type_synonym uuid = nat
type_synonym byte = nat
type_synonym bytes = "byte list"

definition U64_MAX :: u64 where
  "U64_MAX = 2 ^ 64 - 1"

definition U32_MAX :: u32 where
  "U32_MAX = 2 ^ 32 - 1"

definition saturating_add :: "u64 \<Rightarrow> u64 \<Rightarrow> u64" where
  "saturating_add a b = min (a + b) U64_MAX"

definition checked_add :: "u64 \<Rightarrow> u64 \<Rightarrow> u64 option" where
  "checked_add a b = (if a + b \<le> U64_MAX then Some (a + b) else None)"

definition checked_mul :: "u64 \<Rightarrow> u64 \<Rightarrow> u64 option" where
  "checked_mul a b = (if a * b \<le> U64_MAX then Some (a * b) else None)"

lemma saturating_add_le [simp]: "saturating_add a b \<le> U64_MAX"
  by (simp add: saturating_add_def)

lemma saturating_add_exact: "a + b \<le> U64_MAX \<Longrightarrow> saturating_add a b = a + b"
  by (simp add: saturating_add_def)

lemma saturating_add_le_iff: "x \<le> U64_MAX \<Longrightarrow> x \<le> saturating_add a b \<longleftrightarrow> x \<le> a + b"
  by (simp add: saturating_add_def)

lemma checked_add_Some [simp]: "checked_add a b = Some c \<longleftrightarrow> c = a + b \<and> a + b \<le> U64_MAX"
  by (auto simp: checked_add_def)

lemma checked_add_None [simp]: "checked_add a b = None \<longleftrightarrow> U64_MAX < a + b"
  by (auto simp: checked_add_def)

lemma checked_mul_Some [simp]: "checked_mul a b = Some c \<longleftrightarrow> c = a * b \<and> a * b \<le> U64_MAX"
  by (auto simp: checked_mul_def)

subsection \<open>Errors as sums\<close>

definition ebind :: "'e + 'a \<Rightarrow> ('a \<Rightarrow> 'e + 'b) \<Rightarrow> 'e + 'b" where
  "ebind r f = (case r of Inl e \<Rightarrow> Inl e | Inr x \<Rightarrow> f x)"

lemma ebind_simps [simp]: "ebind (Inl e) f = Inl e" "ebind (Inr x) f = f x"
  by (simp_all add: ebind_def)

lemma ebind_Inr_iff: "ebind r f = Inr y \<longleftrightarrow> (\<exists>x. r = Inr x \<and> f x = Inr y)"
  by (cases r) auto

lemma ebind_Inl_iff: "ebind r f = Inl e \<longleftrightarrow> r = Inl e \<or> (\<exists>x. r = Inr x \<and> f x = Inl e)"
  by (cases r) auto

definition map_err :: "('e \<Rightarrow> 'f) \<Rightarrow> 'e + 'a \<Rightarrow> 'f + 'a" where
  "map_err f r = (case r of Inl e \<Rightarrow> Inl (f e) | Inr x \<Rightarrow> Inr x)"

lemma map_err_simps [simp]: "map_err f (Inl e) = Inl (f e)" "map_err f (Inr x) = Inr x"
  by (simp_all add: map_err_def)

definition isOk :: "'e + 'a \<Rightarrow> bool" where
  "isOk r = (case r of Inl _ \<Rightarrow> False | Inr _ \<Rightarrow> True)"

lemma isOk_simps [simp]: "\<not> isOk (Inl e)" "isOk (Inr x)"
  by (simp_all add: isOk_def)

definition ok_or :: "'e \<Rightarrow> 'a option \<Rightarrow> 'e + 'a" where
  "ok_or e x = (case x of None \<Rightarrow> Inl e | Some y \<Rightarrow> Inr y)"

lemma ok_or_simps [simp]: "ok_or e None = Inl e" "ok_or e (Some y) = Inr y"
  by (simp_all add: ok_or_def)

subsection \<open>Stateful operations with errors\<close>

type_synonym ('s, 'e, 'a) op = "'s \<Rightarrow> ('e + 'a) \<times> 's"

definition mret :: "'a \<Rightarrow> ('s, 'e, 'a) op" where
  "mret x s = (Inr x, s)"

definition mfail :: "'e \<Rightarrow> ('s, 'e, 'a) op" where
  "mfail e s = (Inl e, s)"

definition mbind :: "('s, 'e, 'a) op \<Rightarrow> ('a \<Rightarrow> ('s, 'e, 'b) op) \<Rightarrow> ('s, 'e, 'b) op" where
  "mbind m f s = (case m s of (Inl e, t) \<Rightarrow> (Inl e, t) | (Inr x, t) \<Rightarrow> f x t)"

definition mget :: "('s \<Rightarrow> 'a) \<Rightarrow> ('s, 'e, 'a) op" where
  "mget f s = (Inr (f s), s)"

definition mput :: "('s \<Rightarrow> 's) \<Rightarrow> ('s, 'e, unit) op" where
  "mput f s = (Inr (), f s)"

definition mlift :: "'e + 'a \<Rightarrow> ('s, 'e, 'a) op" where
  "mlift r s = (r, s)"

text \<open>\<open>let _ = m;\<close>: the error is dropped, the state change is kept.\<close>

definition mignore :: "('s, 'e, 'a) op \<Rightarrow> ('s, 'e, unit) op" where
  "mignore m s = (Inr (), snd (m s))"

fun mfor :: "'a list \<Rightarrow> ('a \<Rightarrow> ('s, 'e, unit) op) \<Rightarrow> ('s, 'e, unit) op" where
  "mfor [] f = mret ()"
| "mfor (x # xs) f = mbind (f x) (\<lambda>_. mfor xs f)"

lemmas monad_simps = mret_def mfail_def mbind_def mget_def mput_def mlift_def mignore_def

definition preserves :: "('s \<Rightarrow> bool) \<Rightarrow> ('s, 'e, 'a) op \<Rightarrow> bool" where
  "preserves I m \<longleftrightarrow> (\<forall>s. I s \<longrightarrow> I (snd (m s)))"

lemma preservesI: "(\<And>s. I s \<Longrightarrow> I (snd (m s))) \<Longrightarrow> preserves I m"
  by (simp add: preserves_def)

lemma preservesD: "preserves I m \<Longrightarrow> I s \<Longrightarrow> I (snd (m s))"
  by (simp add: preserves_def)

lemma preserves_result: "preserves I m \<Longrightarrow> I s \<Longrightarrow> m s = (r, t) \<Longrightarrow> I t"
  by (auto dest: preservesD)

lemma preserves_mret [pres_intros]: "preserves I (mret x)"
  by (simp add: preserves_def mret_def)

lemma preserves_mfail [pres_intros]: "preserves I (mfail e)"
  by (simp add: preserves_def mfail_def)

lemma preserves_mget [pres_intros]: "preserves I (mget f)"
  by (simp add: preserves_def mget_def)

lemma preserves_mlift [pres_intros]: "preserves I (mlift r)"
  by (simp add: preserves_def mlift_def)

lemma preserves_mput [pres_intros]: "(\<And>s. I s \<Longrightarrow> I (f s)) \<Longrightarrow> preserves I (mput f)"
  by (simp add: preserves_def mput_def)

lemma preserves_mignore [pres_intros]: "preserves I m \<Longrightarrow> preserves I (mignore m)"
  by (simp add: preserves_def mignore_def)

lemma preserves_mbind [pres_intros]:
  "preserves I m \<Longrightarrow> (\<And>x. preserves I (f x)) \<Longrightarrow> preserves I (mbind m f)"
  by (fastforce simp: preserves_def mbind_def split: prod.splits sum.splits)

lemma preserves_if [pres_intros]:
  "preserves I m \<Longrightarrow> preserves I n \<Longrightarrow> preserves I (if b then m else n)"
  by simp

lemma preserves_mfor [pres_intros]:
  "(\<And>x. preserves I (f x)) \<Longrightarrow> preserves I (mfor xs f)"
  by (induction xs) (auto intro: pres_intros)

subsection \<open>Association lists with distinct keys\<close>

abbreviation distinct_keys :: "('k \<times> 'v) list \<Rightarrow> bool" where
  "distinct_keys m \<equiv> distinct (map fst m)"

definition contains_key :: "('k \<times> 'v) list \<Rightarrow> 'k \<Rightarrow> bool" where
  "contains_key m k = (map_of m k \<noteq> None)"

lemma contains_key_iff: "contains_key m k \<longleftrightarrow> k \<in> fst ` set m"
  by (auto simp: contains_key_def map_of_eq_None_iff)

lemma map_of_Some_key: "map_of m k = Some v \<Longrightarrow> k \<in> fst ` set m"
  by (metis domI dom_map_of_conv_image_fst)

lemma map_of_key_iff: "k \<in> fst ` set m \<longleftrightarrow> (\<exists>v. map_of m k = Some v)"
  by (metis domD domI dom_map_of_conv_image_fst)

lemma length_delete:
  "distinct_keys m \<Longrightarrow> k \<in> fst ` set m \<Longrightarrow> Suc (length (AList.delete k m)) = length m"
  by (induction m) auto

lemma length_update: "length (AList.update k v m) =
    (if k \<in> fst ` set m then length m else Suc (length m))"
  by (induction m) auto

lemma map_of_alist_update [simp]:
  "map_of (AList.update k v m) k' = (if k' = k then Some v else map_of m k')"
  by (simp add: update_conv')

lemma map_of_alist_delete [simp]:
  "map_of (AList.delete k m) k' = (if k' = k then None else map_of m k')"
  by (simp add: delete_conv')

lemma distinct_keys_update [simp]: "distinct_keys m \<Longrightarrow> distinct_keys (AList.update k v m)"
  by (rule distinct_update)

lemma distinct_keys_delete [simp]: "distinct_keys m \<Longrightarrow> distinct_keys (AList.delete k m)"
  by (rule distinct_delete)

lemma distinct_keys_filter [simp]: "distinct_keys m \<Longrightarrow> distinct_keys (filter P m)"
  by (rule distinct_map_filter)

lemma map_of_filter_keys:
  "map_of (filter (\<lambda>(k, v). P k) m) k = (if P k then map_of m k else None)"
  by (induction m) auto

lemma map_of_map_snd: "map_of (map (\<lambda>(k, v). (k, f k v)) m) k = map_option (f k) (map_of m k)"
  by (induction m) auto

lemma fst_map_snd [simp]: "map fst (map (\<lambda>(k, v). (k, f k v)) m) = map fst m"
  by (simp add: case_prod_beta)

subsection \<open>Iterators\<close>

text \<open>\<^verbatim>\<open>Iterator::min_by_key\<close>: the first of the elements with the least key.\<close>

fun min_by_key :: "('a \<Rightarrow> nat) \<Rightarrow> 'a list \<Rightarrow> 'a option" where
  "min_by_key f [] = None"
| "min_by_key f (x # xs) =
     (case min_by_key f xs of None \<Rightarrow> Some x | Some y \<Rightarrow> Some (if f x \<le> f y then x else y))"

lemma min_by_key_None [simp]: "min_by_key f xs = None \<longleftrightarrow> xs = []"
  by (cases xs) (auto split: option.splits)

lemma min_by_key_Some:
  "min_by_key f xs = Some x \<Longrightarrow> x \<in> set xs \<and> (\<forall>y \<in> set xs. f x \<le> f y)"
proof (induction xs arbitrary: x)
  case (Cons a xs)
  then show ?case
    by (cases "min_by_key f xs") (auto split: if_splits dest: order_trans)
qed simp

subsection \<open>More arithmetic\<close>

definition saturating_mul :: "u64 \<Rightarrow> u64 \<Rightarrow> u64" where
  "saturating_mul a b = min (a * b) U64_MAX"

definition wrapping_succ :: "u64 \<Rightarrow> u64" where
  "wrapping_succ a = (a + 1) mod 2 ^ 64"

definition div_ceil :: "u64 \<Rightarrow> u64 \<Rightarrow> u64" where
  "div_ceil a b = (a + (b - 1)) div b"

lemma div_ceil_bounds:
  assumes "0 < b"
  shows "a \<le> div_ceil a b * b" "div_ceil a b * b < a + b" "div_ceil a b * b mod b = 0"
proof -
  define q r where "q = div_ceil a b" and "r = (a + (b - 1)) mod b"
  have "q * b + r = a + (b - 1)"
    unfolding q_def r_def div_ceil_def by simp
  moreover have "r < b" using assms unfolding r_def by simp
  ultimately have "a \<le> q * b" "q * b < a + b" using assms by linarith+
  then show "a \<le> div_ceil a b * b" "div_ceil a b * b < a + b" "div_ceil a b * b mod b = 0"
    by (simp_all add: q_def)
qed

end
