(* ===== verification/Common_Model.thy ===== *)
theory Common_Model
  imports Prelude
begin

text \<open>
  Crate \<^verbatim>\<open>crates/common\<close>: the server limits and the validation of byte ranges, relative
  paths and file names. A \<^verbatim>\<open>Path\<close> is the list of its components, as \<^verbatim>\<open>Path::components\<close>
  yields them; a \<^verbatim>\<open>PathBuf\<close> built from normal components is the list of their names.
\<close>

record limits =
  max_read_size :: u64
  max_write_size :: u64
  max_open_handles :: usize
  max_known_nodes :: usize
  max_total_known_nodes :: usize
  max_directory_entry_tasks :: usize
  request_timeout_ms :: u64

definition DEFAULT_MAX_READ_SIZE :: u64 where
  "DEFAULT_MAX_READ_SIZE = 16 * 1024 * 1024"

definition DEFAULT_MAX_WRITE_SIZE :: u64 where
  "DEFAULT_MAX_WRITE_SIZE = 8 * 1024 * 1024"

definition default_limits :: limits where
  "default_limits = \<lparr>max_read_size = DEFAULT_MAX_READ_SIZE,
     max_write_size = DEFAULT_MAX_WRITE_SIZE, max_open_handles = 1024,
     max_known_nodes = 131072, max_total_known_nodes = 524288,
     max_directory_entry_tasks = 64, request_timeout_ms = 30000\<rparr>"

datatype validation_error = InvalidRange | UnsafePath | InvalidFilename

definition validate_range :: "u64 \<Rightarrow> u64 \<Rightarrow> u64 \<Rightarrow> validation_error + unit" where
  "validate_range offset len maximum =
     (if len > maximum \<or> checked_add offset len = None then Inl InvalidRange else Inr ())"

datatype component = Prefix bytes | RootDir | CurDir | ParentDir | Normal bytes

type_synonym path = "bytes list"

fun normalize_components :: "path \<Rightarrow> component list \<Rightarrow> validation_error + path" where
  "normalize_components out [] = Inr out"
| "normalize_components out (c # cs) =
     (case c of
        Normal v \<Rightarrow> normalize_components (out @ [v]) cs
      | CurDir \<Rightarrow> normalize_components out cs
      | _ \<Rightarrow> Inl UnsafePath)"

definition normalize_relative :: "component list \<Rightarrow> validation_error + path" where
  "normalize_relative p = normalize_components [] p"

definition SLASH :: byte where "SLASH = 47"
definition DOT :: byte where "DOT = 46"

definition validate_filename :: "bytes \<Rightarrow> validation_error + unit" where
  "validate_filename n =
     (if n = [] \<or> n = [DOT] \<or> n = [DOT, DOT] \<or> SLASH \<in> set n \<or> 0 \<in> set n
      then Inl InvalidFilename else Inr ())"

lemma validate_range_iff [simp]:
  "validate_range offset len maximum = Inr () \<longleftrightarrow> len \<le> maximum \<and> offset + len \<le> U64_MAX"
  by (auto simp: validate_range_def)

lemma normalize_components_Inr:
  "normalize_components out cs = Inr p \<longleftrightarrow>
     (\<forall>c \<in> set cs. c = CurDir \<or> (\<exists>v. c = Normal v)) \<and>
     p = out @ [v. Normal v \<leftarrow> cs]"
  by (induction cs arbitrary: out) (auto split: component.splits)

text \<open>
  Paths as component lists: \<^verbatim>\<open>strip_prefix\<close> and \<^verbatim>\<open>join\<close>.
\<close>

fun strip_prefix :: "path \<Rightarrow> path \<Rightarrow> path option" where
  "strip_prefix [] p = Some p"
| "strip_prefix (x # xs) (y # ys) = (if x = y then strip_prefix xs ys else None)"
| "strip_prefix (x # xs) [] = None"

lemma strip_prefix_Some [simp]: "strip_prefix xs p = Some r \<longleftrightarrow> p = xs @ r"
  by (induction xs p rule: strip_prefix.induct) auto

lemma strip_prefix_None: "strip_prefix xs p = None \<longleftrightarrow> (\<forall>r. p \<noteq> xs @ r)"
  by (metis not_Some_eq strip_prefix_Some)

end
