(* ===== verification/Protocol_Types.thy ===== *)
theory Protocol_Types
  imports Common_Model "HOL-Library.Word"
begin

text \<open>
  Crate \<^verbatim>\<open>crates/protocol\<close>, the wire types: every \<^verbatim>\<open>struct\<close> is a record and every \<^verbatim>\<open>enum\<close> a
  datatype with the source's constructors in the source's order (the order is the Postcard
  discriminant). UUIDs are their 128-bit numbers, so \<^verbatim>\<open>ROOT_NODE\<close> is \<open>0\<close>; \<^verbatim>\<open>String\<close>s and
  \<^verbatim>\<open>Vec<u8>\<close>s are byte lists; the secrets' redaction and zeroing on drop have no value-level
  content and are not modelled, except \<open>clear_secrets\<close>, which is an operation.
\<close>

type_synonym request_id = uuid
type_synonym node_id = uuid
type_synonym file_handle = uuid
type_synonym name = bytes

definition ROOT_NODE :: node_id where
  "ROOT_NODE = 0"

definition MAX_METADATA_BATCH :: usize where "MAX_METADATA_BATCH = 4096"
definition MAX_FRAME_SIZE :: usize where "MAX_FRAME_SIZE = 1024 * 1024"
definition FRAME_COMPRESSION_THRESHOLD :: usize where "FRAME_COMPRESSION_THRESHOLD = 1024"
definition MAX_DIRECTORY_INLINE_XATTR_SIZE :: u32 where
  "MAX_DIRECTORY_INLINE_XATTR_SIZE = 4 * 1024"
definition MAX_DIRECTORY_INLINE_XATTR_TOTAL_SIZE :: u32 where
  "MAX_DIRECTORY_INLINE_XATTR_TOTAL_SIZE = 256 * 1024"
definition MAX_DIRECTORY_ENTRIES :: usize where "MAX_DIRECTORY_ENTRIES = 1024 * 1024"
definition DIRECTORY_VIEW_CHUNK_BUDGET :: usize where
  "DIRECTORY_VIEW_CHUNK_BUDGET = MAX_FRAME_SIZE - 16 * 1024"

datatype file_access = ReadOnly | WriteOnly | ReadWrite

fun can_read :: "file_access \<Rightarrow> bool" where
  "can_read ReadOnly = True"
| "can_read ReadWrite = True"
| "can_read WriteOnly = False"

fun can_write :: "file_access \<Rightarrow> bool" where
  "can_write WriteOnly = True"
| "can_write ReadWrite = True"
| "can_write ReadOnly = False"

record file_open_options =
  oo_access :: file_access
  oo_truncate :: bool
  oo_append :: bool

definition READ_ONLY :: file_open_options where
  "READ_ONLY = \<lparr>oo_access = ReadOnly, oo_truncate = False, oo_append = False\<rparr>"

datatype rename_mode = RenameReplace | RenameNoReplace | RenameExchange

datatype lock_kind = ReadLock | WriteLock | Unlock

text \<open>\<open>end\<close> is inclusive; \<open>U64_MAX\<close> stands for a lock through the end of the file.\<close>

record file_lock =
  lk_owner :: u64
  lk_start :: u64
  lk_end :: u64
  lk_kind :: lock_kind
  lk_pid :: u32

record attribute_changes =
  ac_size :: "u64 option"
  ac_mode :: "u32 option"
  ac_accessed_unix_ms :: "u64 option"
  ac_modified_unix_ms :: "u64 option"
  ac_backup_unix_ms :: "u64 option"

datatype special_node_kind = SpNamedPipe | SpCharacterDevice | SpBlockDevice | SpSocket

datatype xattr_set_mode = XUpsert | XCreate | XReplace

datatype seek_whence = SeekData | SeekHole

datatype safe_ioctl = BytesAvailable

record filesystem_capabilities =
  server_epoch :: uuid
  cap_writable :: bool
  supports_locks :: bool
  supports_atomic_rename :: bool
  supports_directory_sync :: bool
  supports_preallocation :: bool
  supports_symlinks :: bool
  supports_xattrs :: bool
  supports_hard_links :: bool
  supports_special_nodes :: bool
  supports_copy_file_range :: bool
  supports_seek_data_hole :: bool
  supports_safe_ioctl :: bool
  supports_poll :: bool
  supports_bmap :: bool
  supports_exchange_data :: bool
  supports_volume_rename :: bool
  supports_backup_time :: bool
  supports_readdirplus :: bool
  persistent_node_ids :: bool
  restart_lock_replay :: bool
  cap_volume_name :: bytes
  cap_max_read_size :: u64
  cap_max_write_size :: u64

record filesystem_stats =
  fs_blocks :: u64
  fs_blocks_free :: u64
  fs_blocks_available :: u64
  fs_files :: u64
  fs_files_free :: u64
  fs_block_size :: u32
  fs_name_length :: u32
  fs_fragment_size :: u32

datatype node_kind = KFile | KDirectory | KSymlink | KNamedPipe | KCharacterDevice
  | KBlockDevice | KSocket

datatype error_code = Unauthenticated | NotFound | PermissionDenied | AlreadyExists
  | NotDirectory | IsDirectory | NotEmpty | NoAttribute | NoData | NotTty | ReadOnlyFs
  | Conflict | WouldBlock | NoSpace | Busy | NotSupported | Offline | InvalidNode
  | InvalidHandle | InvalidRequest | UnsupportedVersion | TooLarge | Timeout | Internal

record protocol_error =
  pe_code :: error_code
  pe_message :: string

record metadata =
  md_node :: node_id
  md_kind :: node_kind
  md_size :: u64
  md_mode :: u32
  md_allocated_blocks :: u64
  md_revision :: u64
  md_accessed_unix_ms :: u64
  md_modified_unix_ms :: u64
  md_created_unix_ms :: "u64 option"
  md_backup_unix_ms :: "u64 option"
  md_link_count :: u32
  md_device_major :: u32
  md_device_minor :: u32

record directory_entry =
  de_node :: node_id
  de_name :: name
  de_kind :: node_kind
  de_metadata :: metadata

record directory_view_options =
  include_xattrs :: bool
  inline_xattr_size :: u32
  inline_xattr_total_size :: u32

definition NATIVE :: directory_view_options where
  "NATIVE = \<lparr>include_xattrs = True, inline_xattr_size = MAX_DIRECTORY_INLINE_XATTR_SIZE,
     inline_xattr_total_size = MAX_DIRECTORY_INLINE_XATTR_TOTAL_SIZE\<rparr>"

definition METADATA_ONLY :: directory_view_options where
  "METADATA_ONLY = \<lparr>include_xattrs = False, inline_xattr_size = 0,
     inline_xattr_total_size = 0\<rparr>"

record inline_xattr =
  ix_name :: name
  ix_value :: bytes

record xattr_snapshot =
  xs_names :: "name list"
  xs_inline_values :: "inline_xattr list"

record directory_view_entry =
  ve_entry :: directory_entry
  ve_xattrs :: "xattr_snapshot option"

record directory_view =
  dv_revision :: u64
  dv_directory :: metadata
  dv_parent :: metadata
  dv_xattrs :: "xattr_snapshot option"
  dv_entries :: "directory_view_entry list"

datatype batched_metadata = Found metadata | Failed error_code

datatype (plugins only: code size) request =
    ReqHello bytes
  | ReqPair uuid bytes bytes
  | ReqAuthenticate bytes bytes
  | ReqGetCapabilities
  | ReqStatFilesystem
  | ReqGetMetadata node_id
  | ReqListDirectory node_id
  | ReqListDirectoryView node_id directory_view_options
  | ReqOpenFile node_id file_open_options
  | ReqCreateFile node_id name u32 file_open_options
  | ReqCreateDirectory node_id name u32
  | ReqCreateSymlink node_id name bytes
  | ReqRemoveNode node_id name bool
  | ReqRenameNode node_id name node_id name rename_mode
  | ReqCreateHardLink node_id node_id name
  | ReqCreateSpecialNode node_id name special_node_kind u32 u32 u32
  | ReqReadLink node_id
  | ReqSetAttributes node_id "file_handle option" attribute_changes
  | ReqReadRange file_handle u64 u64
  | ReqWriteRange file_handle u64 u64
  | ReqFlushFile file_handle "u64 option"
  | ReqSyncFile file_handle bool
  | ReqSyncDirectory node_id
  | ReqAllocateFile file_handle u64 u64
  | ReqGetXattr node_id name u64 u64
  | ReqSetXattr node_id name xattr_set_mode u32 u64
  | ReqListXattrs node_id
  | ReqRemoveXattr node_id name
  | ReqCopyFileRange file_handle u64 file_handle u64 u64
  | ReqSeekFile file_handle u64 seek_whence
  | ReqSafeIoctl file_handle safe_ioctl
  | ReqMapBlock node_id u32 u64
  | ReqExchangeData node_id name node_id name u64
  | ReqSetVolumeName name
  | ReqForgetNodes "node_id list"
  | ReqGetLock file_handle file_lock
  | ReqSetLock file_handle file_lock bool
  | ReqCloseFile file_handle
  | ReqPing u64
  | ReqGetMetadataBatch "node_id list"

text \<open>\<^verbatim>\<open>Request::clear_secrets\<close>: a zeroed proof keeps its 32 bytes, a zeroed string is empty.\<close>

fun clear_secrets :: "request \<Rightarrow> request" where
  "clear_secrets (ReqPair i n p) = ReqPair i n (replicate 32 0)"
| "clear_secrets (ReqAuthenticate u p) = ReqAuthenticate u []"
| "clear_secrets r = r"

datatype (plugins only: code size) response =
    RHelloAck "16 word"
  | RAuthenticateAck
  | RPairingProof bytes bytes
  | RCapabilities filesystem_capabilities
  | RFilesystemStats filesystem_stats
  | RMetadata metadata
  | RDirectoryListing u64 "directory_entry list"
  | RDirectoryView directory_view
  | RDirectoryViewStart u64 metadata metadata "xattr_snapshot option" u64
  | RDirectoryViewChunk "directory_view_entry list"
  | RDirectoryViewEnd
  | RFileOpened file_handle u64 u64
  | RFileCreated metadata file_handle u64 u64
  | RNodeCreated metadata
  | RHardLinkCreated metadata
  | RNodeRemoved
  | RNodeRenamed
  | RLinkTarget bytes
  | RAttributesChanged metadata
  | RReadData u64 u64
  | RWriteComplete u64 u64 u64
  | RFileFlushed
  | RFileSynced
  | RDirectorySynced
  | RFileAllocated u64 u64
  | RXattrData u64 u64
  | RXattrSet
  | RXattrNames "name list"
  | RXattrRemoved
  | RRangeCopied u64 u64 u64
  | RFileSeeked u64
  | RIoctlResult u64
  | RBlockMapped u64
  | RDataExchanged
  | RVolumeNameSet
  | RNodesForgotten
  | RLockStatus "file_lock option"
  | RLockUpdated
  | RFileClosed
  | RPong u64
  | RError protocol_error
  | RMetadataBatch "batched_metadata list"

end
