(* ===== verification/Server_Types.thy ===== *)
theory Server_Types
  imports Protocol_Types
begin

text \<open>
  Crate \<^verbatim>\<open>crates/server-core\<close>: its errors and how they reach the wire, file identities, and the
  request validators that do not touch the host file system. The Unix build is modelled
  (\<^verbatim>\<open>cfg(unix)\<close>, Linux). An errno outside the source's table is \<open>EOTHER\<close> with its number; an
  \<^verbatim>\<open>std::io::Error\<close> is its errno, if it has one, its kind and its message.
\<close>

datatype errno = ENOENT | EACCES | EPERM | ELOOP | EEXIST | ENOTDIR | EISDIR | ENOTEMPTY
  | ENODATA | ENXIO | ENOTTY | EROFS | ENOSPC | EBUSY | ENOTSUP | EAGAIN | EOTHER nat

datatype io_kind = IoNotFound | IoPermissionDenied | IoAlreadyExists | IoInvalidInput | IoOther

record io_error =
  io_errno :: "errno option"
  io_kind_of :: io_kind
  io_message :: string

datatype server_error = SNotFound | SPermissionDenied | SAlreadyExists | SNotDirectory
  | SIsDirectory | SNotEmpty | SNoAttribute | SNoData | SNotTty | SReadOnly | SConflict
  | SWouldBlock | SNoSpace | SBusy | SNotSupported | SInvalidNode | SInvalidHandle
  | SInvalidRequest string | STooManyHandles | STooManyNodes | STooManyLocks
  | SDirectoryTooLarge | SStateUnavailable | STaskFailed | SIo io_error

definition server_error_from_io :: "io_error \<Rightarrow> server_error" where
  "server_error_from_io err = (case io_errno err of
     Some e \<Rightarrow> (case e of
         ENOENT \<Rightarrow> SNotFound
       | EACCES \<Rightarrow> SPermissionDenied | EPERM \<Rightarrow> SPermissionDenied | ELOOP \<Rightarrow> SPermissionDenied
       | EEXIST \<Rightarrow> SAlreadyExists
       | ENOTDIR \<Rightarrow> SNotDirectory
       | EISDIR \<Rightarrow> SIsDirectory
       | ENOTEMPTY \<Rightarrow> SNotEmpty
       | ENODATA \<Rightarrow> SNoAttribute
       | ENXIO \<Rightarrow> SNoData
       | ENOTTY \<Rightarrow> SNotTty
       | EROFS \<Rightarrow> SReadOnly
       | ENOSPC \<Rightarrow> SNoSpace
       | EBUSY \<Rightarrow> SBusy
       | ENOTSUP \<Rightarrow> SNotSupported
       | EAGAIN \<Rightarrow> SWouldBlock
       | EOTHER _ \<Rightarrow> SIo err)
   | None \<Rightarrow> (case io_kind_of err of
         IoNotFound \<Rightarrow> SNotFound
       | IoPermissionDenied \<Rightarrow> SPermissionDenied
       | IoAlreadyExists \<Rightarrow> SAlreadyExists
       | IoInvalidInput \<Rightarrow> SInvalidRequest (io_message err)
       | IoOther \<Rightarrow> SIo err))"

fun server_error_to_string :: "server_error \<Rightarrow> string" where
  "server_error_to_string SNotFound = ''not found''"
| "server_error_to_string SPermissionDenied = ''permission denied''"
| "server_error_to_string SAlreadyExists = ''already exists''"
| "server_error_to_string SNotDirectory = ''not a directory''"
| "server_error_to_string SIsDirectory = ''is a directory''"
| "server_error_to_string SNotEmpty = ''directory is not empty''"
| "server_error_to_string SNoAttribute = ''extended attribute does not exist''"
| "server_error_to_string SNoData = ''no data exists at or after the requested offset''"
| "server_error_to_string SNotTty = ''inappropriate ioctl for this object''"
| "server_error_to_string SReadOnly = ''the export is read-only''"
| "server_error_to_string SConflict = ''the object changed during the operation''"
| "server_error_to_string SWouldBlock = ''the requested lock would block''"
| "server_error_to_string SNoSpace = ''no space is available''"
| "server_error_to_string SBusy = ''resource is busy''"
| "server_error_to_string SNotSupported = ''operation is not supported''"
| "server_error_to_string SInvalidNode = ''invalid node''"
| "server_error_to_string SInvalidHandle = ''invalid handle''"
| "server_error_to_string (SInvalidRequest m) = ''invalid request: '' @ m"
| "server_error_to_string STooManyHandles = ''too many handles''"
| "server_error_to_string STooManyNodes = ''too many known nodes''"
| "server_error_to_string STooManyLocks = ''too many advisory locks''"
| "server_error_to_string SDirectoryTooLarge =
     ''directory listing exceeds the control-frame limit''"
| "server_error_to_string SStateUnavailable = ''server state is unavailable''"
| "server_error_to_string STaskFailed = ''filesystem task failed''"
| "server_error_to_string (SIo e) = ''I/O: '' @ io_message e"

fun server_error_code :: "server_error \<Rightarrow> error_code" where
  "server_error_code SNotFound = NotFound"
| "server_error_code SPermissionDenied = PermissionDenied"
| "server_error_code SAlreadyExists = AlreadyExists"
| "server_error_code SNotDirectory = NotDirectory"
| "server_error_code SIsDirectory = IsDirectory"
| "server_error_code SNotEmpty = NotEmpty"
| "server_error_code SNoAttribute = NoAttribute"
| "server_error_code SNoData = NoData"
| "server_error_code SNotTty = NotTty"
| "server_error_code SReadOnly = ReadOnlyFs"
| "server_error_code SConflict = Conflict"
| "server_error_code SWouldBlock = WouldBlock"
| "server_error_code SNoSpace = NoSpace"
| "server_error_code SBusy = Busy"
| "server_error_code SNotSupported = NotSupported"
| "server_error_code SInvalidNode = InvalidNode"
| "server_error_code SInvalidHandle = InvalidHandle"
| "server_error_code (SInvalidRequest m) = InvalidRequest"
| "server_error_code STooManyHandles = TooLarge"
| "server_error_code STooManyNodes = TooLarge"
| "server_error_code STooManyLocks = TooLarge"
| "server_error_code SDirectoryTooLarge = TooLarge"
| "server_error_code SStateUnavailable = Internal"
| "server_error_code STaskFailed = Internal"
| "server_error_code (SIo e) = Internal"

definition protocol_of :: "server_error \<Rightarrow> protocol_error" where
  "protocol_of e = \<lparr>pe_code = server_error_code e,
     pe_message = (case e of
         SStateUnavailable \<Rightarrow> ''internal server error''
       | STaskFailed \<Rightarrow> ''internal server error''
       | SIo _ \<Rightarrow> ''internal server error''
       | _ \<Rightarrow> server_error_to_string e)\<rparr>"

record file_identity =
  fi_device :: u64
  fi_inode :: u64

subsection \<open>Validators\<close>

text \<open>\<open>max_permits\<close> is \<^verbatim>\<open>Semaphore::MAX_PERMITS\<close> of the runtime.\<close>

definition validate_limits :: "usize \<Rightarrow> limits \<Rightarrow> server_error + unit" where
  "validate_limits max_permits l =
     (if max_read_size l = 0 \<or> max_write_size l = 0
      then Inl (SInvalidRequest ''maximum read and write sizes must be greater than zero'')
      else if max_open_handles l = 0 \<or> max_open_handles l > max_permits
      then Inl (SInvalidRequest ''maximum open handles must fit the runtime semaphore limit'')
      else if max_known_nodes l = 0 \<or> max_known_nodes l > max_permits
      then Inl (SInvalidRequest ''maximum known nodes must fit the runtime semaphore limit'')
      else if max_total_known_nodes l = 0 \<or> max_total_known_nodes l > max_permits
           \<or> max_known_nodes l > max_total_known_nodes l
      then Inl (SInvalidRequest ''total known-node capacity must cover one connection and fit the runtime limit'')
      else if max_directory_entry_tasks l = 0 \<or> max_directory_entry_tasks l > max_permits
      then Inl (SInvalidRequest ''maximum directory entry tasks must fit the runtime semaphore limit'')
      else Inr ())"

definition validate_open_options :: "file_open_options \<Rightarrow> bool \<Rightarrow> server_error + unit" where
  "validate_open_options options writable =
     (if (oo_truncate options \<or> oo_append options) \<and> \<not> can_write (oo_access options)
      then Inl (SInvalidRequest ''truncate and append require write access'')
      else if can_write (oo_access options) \<and> \<not> writable then Inl SReadOnly
      else Inr ())"

definition validate_name :: "bytes \<Rightarrow> server_error + unit" where
  "validate_name n = map_err (\<lambda>_. SInvalidRequest ''invalid filename'') (validate_filename n)"

definition validate_xattr_name :: "name \<Rightarrow> server_error + unit" where
  "validate_xattr_name n =
     (if n = [] \<or> length n > 255 \<or> 0 \<in> set n
      then Inl (SInvalidRequest ''invalid extended-attribute name'') else Inr ())"

definition MAX_SYMLINK_TARGET_SIZE :: usize where "MAX_SYMLINK_TARGET_SIZE = 16 * 1024"

text \<open>\<open>components\<close> is \<^verbatim>\<open>Path::components\<close> of the target's bytes.\<close>

fun symlink_components :: "bool \<Rightarrow> component list \<Rightarrow> server_error + bool" where
  "symlink_components normal [] = Inr normal"
| "symlink_components normal (c # cs) =
     (case c of Normal _ \<Rightarrow> symlink_components True cs
              | CurDir \<Rightarrow> symlink_components normal cs
              | _ \<Rightarrow> Inl SPermissionDenied)"

definition validate_symlink_target ::
  "(bytes \<Rightarrow> component list) \<Rightarrow> bytes \<Rightarrow> server_error + unit" where
  "validate_symlink_target components target =
     (if target = [] \<or> length target > MAX_SYMLINK_TARGET_SIZE \<or> 0 \<in> set target
      then Inl (SInvalidRequest ''invalid symbolic-link target'')
      else ebind (symlink_components False (components target)) (\<lambda>normal.
        if \<not> normal
        then Inl (SInvalidRequest ''symbolic-link target must name an in-export object'')
        else Inr ()))"

definition validate_directory_view_options :: "directory_view_options \<Rightarrow> server_error + unit" where
  "validate_directory_view_options options =
     (if inline_xattr_size options > MAX_DIRECTORY_INLINE_XATTR_SIZE
         \<or> inline_xattr_total_size options > MAX_DIRECTORY_INLINE_XATTR_TOTAL_SIZE
         \<or> (\<not> include_xattrs options
            \<and> (inline_xattr_size options \<noteq> 0 \<or> inline_xattr_total_size options \<noteq> 0))
      then Inl (SInvalidRequest ''directory xattr projection exceeds the protocol budget'')
      else Inr ())"

end
