(* ===== verification/Server_Locks.thy ===== *)
theory Server_Locks
  imports Server_Types
begin

text \<open>
  The advisory byte-range locks of \<^verbatim>\<open>crates/server-core\<close>: \<^verbatim>\<open>LockRecord\<close>, the table kept in
  \<^verbatim>\<open>ExportShared::locks\<close>, and the functions that query and rewrite it. The table is the source's
  vector; \<open>sort_key\<close> is stable, as \<^verbatim>\<open>sort_by_key\<close> is. The abstract view \<open>held\<close> says which
  kinds of lock an owner holds on a byte.
\<close>

record lock_record =
  lr_identity :: file_identity
  lr_session :: uuid
  lr_lock :: file_lock

definition MAX_LOCK_RECORDS :: usize where
  "MAX_LOCK_RECORDS = 65536"

definition ranges_overlap :: "file_lock \<Rightarrow> file_lock \<Rightarrow> bool" where
  "ranges_overlap left right \<longleftrightarrow> lk_start left \<le> lk_end right \<and> lk_start right \<le> lk_end left"

definition validate_lock :: "file_lock \<Rightarrow> bool \<Rightarrow> server_error + unit" where
  "validate_lock lock allow_unlock =
     (if lk_start lock > lk_end lock \<or> (\<not> allow_unlock \<and> lk_kind lock = Unlock)
      then Inl (SInvalidRequest ''invalid advisory lock'') else Inr ())"

definition conflicts :: "file_identity \<Rightarrow> uuid \<Rightarrow> file_lock \<Rightarrow> lock_record \<Rightarrow> bool" where
  "conflicts identity session requested record \<longleftrightarrow>
     lr_identity record = identity
     \<and> \<not> (lr_session record = session \<and> lk_owner (lr_lock record) = lk_owner requested)
     \<and> ranges_overlap (lr_lock record) requested
     \<and> (lk_kind (lr_lock record) = WriteLock \<or> lk_kind requested = WriteLock)"

definition first_conflict ::
  "lock_record list \<Rightarrow> file_identity \<Rightarrow> uuid \<Rightarrow> file_lock \<Rightarrow> lock_record option" where
  "first_conflict locks identity session requested =
     min_by_key (\<lambda>r. lk_start (lr_lock r)) (filter (conflicts identity session requested) locks)"

fun kind_as_u8 :: "lock_kind \<Rightarrow> nat" where
  "kind_as_u8 ReadLock = 0"
| "kind_as_u8 WriteLock = 1"
| "kind_as_u8 Unlock = 2"

definition lock_sort_key :: "lock_record \<Rightarrow> nat \<times> nat \<times> nat \<times> nat \<times> nat \<times> nat" where
  "lock_sort_key r = (fi_device (lr_identity r), fi_inode (lr_identity r), lr_session r,
     lk_owner (lr_lock r), kind_as_u8 (lk_kind (lr_lock r)), lk_start (lr_lock r))"

definition mergeable :: "lock_record \<Rightarrow> lock_record \<Rightarrow> bool" where
  "mergeable previous record \<longleftrightarrow>
     lr_identity previous = lr_identity record
     \<and> lr_session previous = lr_session record
     \<and> lk_owner (lr_lock previous) = lk_owner (lr_lock record)
     \<and> lk_kind (lr_lock previous) = lk_kind (lr_lock record)
     \<and> lk_pid (lr_lock previous) = lk_pid (lr_lock record)
     \<and> saturating_add (lk_end (lr_lock previous)) 1 \<ge> lk_start (lr_lock record)"

definition set_end :: "u64 \<Rightarrow> lock_record \<Rightarrow> lock_record" where
  "set_end e r = r\<lparr>lr_lock := (lr_lock r)\<lparr>lk_end := e\<rparr>\<rparr>"

definition set_start :: "u64 \<Rightarrow> lock_record \<Rightarrow> lock_record" where
  "set_start b r = r\<lparr>lr_lock := (lr_lock r)\<lparr>lk_start := b\<rparr>\<rparr>"

text \<open>The loop of \<^verbatim>\<open>merge_owner_locks\<close>, with the merged vector kept last element first.\<close>

fun merge_loop :: "lock_record list \<Rightarrow> lock_record list \<Rightarrow> lock_record list" where
  "merge_loop merged [] = rev merged"
| "merge_loop [] (record # rest) = merge_loop [record] rest"
| "merge_loop (previous # merged) (record # rest) =
     (if mergeable previous record
      then merge_loop
             (set_end (max (lk_end (lr_lock previous)) (lk_end (lr_lock record))) previous # merged) rest
      else merge_loop (record # previous # merged) rest)"

definition merge_owner_locks :: "lock_record list \<Rightarrow> lock_record list" where
  "merge_owner_locks locks = merge_loop [] (sort_key lock_sort_key locks)"

definition affected :: "file_identity \<Rightarrow> uuid \<Rightarrow> file_lock \<Rightarrow> lock_record \<Rightarrow> bool" where
  "affected identity session requested record \<longleftrightarrow>
     \<not> (lr_identity record \<noteq> identity \<or> lr_session record \<noteq> session
        \<or> lk_owner (lr_lock record) \<noteq> lk_owner requested
        \<or> \<not> ranges_overlap (lr_lock record) requested)"

definition split_record :: "file_lock \<Rightarrow> lock_record \<Rightarrow> lock_record list" where
  "split_record requested record =
     (if lk_start (lr_lock record) < lk_start requested
      then [set_end (lk_start requested - 1) record] else [])
     @ (if lk_end (lr_lock record) > lk_end requested
        then [set_start (saturating_add (lk_end requested) 1) record] else [])"

definition replace_owner_range ::
  "lock_record list \<Rightarrow> file_identity \<Rightarrow> uuid \<Rightarrow> file_lock \<Rightarrow> bool
     \<Rightarrow> server_error + lock_record list" where
  "replace_owner_range locks identity session requested ins =
     (let next = concat (map (\<lambda>record. if affected identity session requested record
                                         then split_record requested record else [record]) locks);
          next = (if ins then next @ [\<lparr>lr_identity = identity, lr_session = session,
                                          lr_lock = requested\<rparr>] else next);
          next = merge_owner_locks next
      in if length next > MAX_LOCK_RECORDS then Inl STooManyLocks else Inr next)"

text \<open>
  One pass of the loop in \<^verbatim>\<open>ExportSession::set_lock\<close>, which runs under the table's mutex:
  either the table is rewritten (and waiters are woken), or the call reports \<open>SWouldBlock\<close>, or it
  waits for a notification and tries again.
\<close>

datatype attempt = Granted "lock_record list" | Refused server_error | Waits

definition set_lock_attempt ::
  "lock_record list \<Rightarrow> file_identity \<Rightarrow> uuid \<Rightarrow> file_lock \<Rightarrow> bool \<Rightarrow> attempt" where
  "set_lock_attempt locks identity session requested wait =
     (if lk_kind requested = Unlock
      then (case replace_owner_range locks identity session requested False of
              Inl e \<Rightarrow> Refused e | Inr next \<Rightarrow> Granted next)
      else if first_conflict locks identity session requested = None
      then (case replace_owner_range locks identity session requested True of
              Inl e \<Rightarrow> Refused e | Inr next \<Rightarrow> Granted next)
      else if \<not> wait then Refused SWouldBlock else Waits)"

definition remove_locks ::
  "(lock_record \<Rightarrow> bool) \<Rightarrow> lock_record list \<Rightarrow> lock_record list" where
  "remove_locks remove locks = filter (\<lambda>r. \<not> remove r) locks"

subsection \<open>The abstract view\<close>

definition covers :: "lock_record \<Rightarrow> file_identity \<Rightarrow> uuid \<Rightarrow> u64 \<Rightarrow> u64 \<Rightarrow> bool" where
  "covers r i s o' b \<longleftrightarrow> lr_identity r = i \<and> lr_session r = s \<and> lk_owner (lr_lock r) = o'
     \<and> lk_start (lr_lock r) \<le> b \<and> b \<le> lk_end (lr_lock r)"

definition mode_of :: "lock_record \<Rightarrow> lock_kind \<times> u32" where
  "mode_of r = (lk_kind (lr_lock r), lk_pid (lr_lock r))"

text \<open>What owner \<open>o'\<close> of session \<open>s\<close> holds on byte \<open>b\<close> of file \<open>i\<close>.\<close>

definition held ::
  "lock_record list \<Rightarrow> file_identity \<Rightarrow> uuid \<Rightarrow> u64 \<Rightarrow> u64 \<Rightarrow> (lock_kind \<times> u32) set" where
  "held locks i s o' b = mode_of ` {r \<in> set locks. covers r i s o' b}"

definition wf_record :: "lock_record \<Rightarrow> bool" where
  "wf_record r \<longleftrightarrow> lk_start (lr_lock r) \<le> lk_end (lr_lock r) \<and> lk_end (lr_lock r) \<le> U64_MAX
     \<and> lk_kind (lr_lock r) \<noteq> Unlock"

definition wf_table :: "lock_record list \<Rightarrow> bool" where
  "wf_table locks \<longleftrightarrow> (\<forall>r \<in> set locks. wf_record r) \<and> length locks \<le> MAX_LOCK_RECORDS"

definition valid_request :: "file_lock \<Rightarrow> bool" where
  "valid_request q \<longleftrightarrow> lk_start q \<le> lk_end q \<and> lk_end q \<le> U64_MAX"

definition in_range :: "file_lock \<Rightarrow> u64 \<Rightarrow> bool" where
  "in_range q b \<longleftrightarrow> lk_start q \<le> b \<and> b \<le> lk_end q"

text \<open>What a request asks for on each byte of its range: its kind, or nothing to unlock.\<close>

definition wanted :: "file_lock \<Rightarrow> (lock_kind \<times> u32) set" where
  "wanted q = (if lk_kind q = Unlock then {} else {(lk_kind q, lk_pid q)})"

text \<open>An owner holds one mode on a byte at most; a write lock excludes every other owner.\<close>

definition exclusive_view ::
  "(file_identity \<Rightarrow> uuid \<Rightarrow> u64 \<Rightarrow> u64 \<Rightarrow> (lock_kind \<times> u32) set) \<Rightarrow> bool" where
  "exclusive_view h \<longleftrightarrow>
     (\<forall>i s o' b m m'. m \<in> h i s o' b \<longrightarrow> m' \<in> h i s o' b \<longrightarrow> m = m') \<and>
     (\<forall>i s o' s' o'' b k p k' p'. (k, p) \<in> h i s o' b \<longrightarrow> (k', p') \<in> h i s' o'' b \<longrightarrow>
        (s, o') \<noteq> (s', o'') \<longrightarrow> k \<noteq> WriteLock)"

lemma exclusive_viewD:
  "exclusive_view h \<Longrightarrow> m \<in> h i s o' b \<Longrightarrow> m' \<in> h i s o' b \<Longrightarrow> m = m'"
  "exclusive_view h \<Longrightarrow> (k, p) \<in> h i s o' b \<Longrightarrow> (k', p') \<in> h i s' o'' b \<Longrightarrow>
     (s, o') \<noteq> (s', o'') \<Longrightarrow> k \<noteq> WriteLock"
  unfolding exclusive_view_def by metis+

lemma exclusive_viewI:
  "(\<And>m i s o' b m'. m \<in> h i s o' b \<Longrightarrow> m' \<in> h i s o' b \<Longrightarrow> m = m') \<Longrightarrow>
   (\<And>k p i s o' b k' p' s' o''. (k, p) \<in> h i s o' b \<Longrightarrow> (k', p') \<in> h i s' o'' b \<Longrightarrow>
      (s, o') \<noteq> (s', o'') \<Longrightarrow> k \<noteq> WriteLock) \<Longrightarrow> exclusive_view h"
  unfolding exclusive_view_def by metis

subsection \<open>The contract of a lock table\<close>

text \<open>
  A lock table is seen through \<open>holds\<close>. Its two promises: assigning a range to an owner changes
  exactly the bytes of that range for that owner, and the conflict test finds exactly the bytes
  that another owner holds in an incompatible way. Mutual exclusion follows for any such table.
\<close>

locale lock_table =
  fixes wf :: "'t \<Rightarrow> bool"
    and holds :: "'t \<Rightarrow> file_identity \<Rightarrow> uuid \<Rightarrow> u64 \<Rightarrow> u64 \<Rightarrow> (lock_kind \<times> u32) set"
    and assign :: "'t \<Rightarrow> file_identity \<Rightarrow> uuid \<Rightarrow> file_lock \<Rightarrow> server_error + 't"
    and blocked :: "'t \<Rightarrow> file_identity \<Rightarrow> uuid \<Rightarrow> file_lock \<Rightarrow> bool"
  assumes assign_wf: "wf t \<Longrightarrow> valid_request q \<Longrightarrow> assign t i s q = Inr t' \<Longrightarrow> wf t'"
    and assign_holds: "wf t \<Longrightarrow> valid_request q \<Longrightarrow> assign t i s q = Inr t' \<Longrightarrow>
      holds t' i' s' o' b =
        (if i' = i \<and> s' = s \<and> o' = lk_owner q \<and> in_range q b then wanted q
         else holds t i' s' o' b)"
    and blocked_iff: "wf t \<Longrightarrow> valid_request q \<Longrightarrow> blocked t i s q \<longleftrightarrow>
      (\<exists>s' o' b k p. (s', o') \<noteq> (s, lk_owner q) \<and> in_range q b \<and> (k, p) \<in> holds t i s' o' b \<and>
         (k = WriteLock \<or> lk_kind q = WriteLock))"
begin

lemma unblocked_compatible:
  assumes "wf t" "valid_request q" "\<not> blocked t i s q"
    and "(s', o') \<noteq> (s, lk_owner q)" "in_range q b" "(k, p) \<in> holds t i s' o' b"
  shows "k \<noteq> WriteLock \<and> lk_kind q \<noteq> WriteLock"
  using assms blocked_iff [of t q i s] by blast

lemma guarded_assign_own:
  assumes wf: "wf t" and q: "valid_request q" and ex: "exclusive_view (holds t)"
    and as: "assign t i s q = Inr t'"
    and "m \<in> holds t' i' s' o' b" and "m' \<in> holds t' i' s' o' b"
  shows "m = m'"
  using assms(5,6) exclusive_viewD(1) [OF ex, of m i' s' o' b m']
  by (auto simp only: assign_holds [OF wf q as] wanted_def split: if_splits)

lemma guarded_assign_other:
  assumes wf: "wf t" and q: "valid_request q" and ex: "exclusive_view (holds t)"
    and guard: "lk_kind q = Unlock \<or> \<not> blocked t i s q" and as: "assign t i s q = Inr t'"
    and m: "(k, p) \<in> holds t' i' s1 o1 b" and m': "(k', p') \<in> holds t' i' s2 o2 b"
    and ne: "(s1, o1) \<noteq> (s2, o2)"
  shows "k \<noteq> WriteLock"
proof -
  note h = assign_holds [OF wf q as]
  consider (first) "i' = i" "in_range q b" "(s1, o1) = (s, lk_owner q)"
    | (second) "i' = i" "in_range q b" "(s2, o2) = (s, lk_owner q)"
    | (old) "(k, p) \<in> holds t i' s1 o1 b" "(k', p') \<in> holds t i' s2 o2 b"
    using m m' unfolding h by (auto split: if_splits)
  then show ?thesis
  proof cases
    case first
    with m have w: "(k, p) \<in> wanted q" by (simp add: h)
    then have "\<not> blocked t i s q" and "k = lk_kind q"
      using guard by (auto simp: wanted_def split: if_splits)
    moreover have h2: "(k', p') \<in> holds t i s2 o2 b" and n2: "(s2, o2) \<noteq> (s, lk_owner q)"
      using m' first ne by (auto simp: h)
    ultimately show ?thesis using unblocked_compatible [OF wf q _ n2 first(2) h2] by simp
  next
    case second
    with m' have "(k', p') \<in> wanted q" by (simp add: h)
    then have "\<not> blocked t i s q" using guard by (auto simp: wanted_def split: if_splits)
    moreover have h1: "(k, p) \<in> holds t i s1 o1 b" and n1: "(s1, o1) \<noteq> (s, lk_owner q)"
      using m second ne by (auto simp: h)
    ultimately show ?thesis using unblocked_compatible [OF wf q _ n1 second(2) h1] by simp
  next
    case old
    from exclusive_viewD(2) [OF ex old ne] show ?thesis .
  qed
qed

lemma guarded_assign_exclusive:
  assumes "wf t" and "valid_request q" and "exclusive_view (holds t)"
    and "lk_kind q = Unlock \<or> \<not> blocked t i s q" and "assign t i s q = Inr t'"
  shows "exclusive_view (holds t')"
  using guarded_assign_own [OF assms(1,2,3,5)] guarded_assign_other [OF assms]
  by (rule exclusive_viewI)

end

subsection \<open>Lemmas\<close>

lemma first_conflict_None:
  "first_conflict locks i s q = None \<longleftrightarrow> (\<forall>r \<in> set locks. \<not> conflicts i s q r)"
  by (auto simp: first_conflict_def filter_empty_conv)

lemma lock_simps [simp]:
  "lr_identity (set_end e r) = lr_identity r" "lr_session (set_end e r) = lr_session r"
  "lr_identity (set_start e r) = lr_identity r" "lr_session (set_start e r) = lr_session r"
  "lr_lock (set_end e r) = (lr_lock r)\<lparr>lk_end := e\<rparr>"
  "lr_lock (set_start e r) = (lr_lock r)\<lparr>lk_start := e\<rparr>"
  "mode_of (set_end e r) = mode_of r" "mode_of (set_start e r) = mode_of r"
  by (simp_all add: set_end_def set_start_def mode_of_def)

lemma held_Nil [simp]: "held [] i s o' b = {}"
  by (simp add: held_def)

lemma held_Cons: "held (r # rs) i s o' b =
    (if covers r i s o' b then {mode_of r} else {}) \<union> held rs i s o' b"
  by (auto simp: held_def)

lemma held_append [simp]: "held (xs @ ys) i s o' b = held xs i s o' b \<union> held ys i s o' b"
  by (auto simp: held_def)

lemma held_set: "set xs = set ys \<Longrightarrow> held xs = held ys"
  by (intro ext) (simp add: held_def)

lemma held_rev [simp]: "held (rev xs) = held xs"
  by (rule held_set) simp

lemma mergeable_held:
  assumes "mergeable p r" and "wf_record p" and "wf_record r"
    and "lk_start (lr_lock p) \<le> lk_start (lr_lock r)"
  shows "covers (set_end (max (lk_end (lr_lock p)) (lk_end (lr_lock r))) p) i s o' b
      \<longleftrightarrow> covers p i s o' b \<or> covers r i s o' b"
    and "mode_of p = mode_of r"
  using assms
  by (auto simp: mergeable_def covers_def wf_record_def mode_of_def saturating_add_def)

lemma mergeable_wf:
  assumes "wf_record p" and "wf_record r"
  shows "wf_record (set_end (max (lk_end (lr_lock p)) (lk_end (lr_lock r))) p)"
  using assms by (auto simp: wf_record_def max_def)

lemma kind_as_u8_inj [simp]: "kind_as_u8 a = kind_as_u8 b \<longleftrightarrow> a = b"
  by (cases a; cases b) auto

lemma mergeable_sorted_start:
  assumes "mergeable p r" and "lock_sort_key p \<le> lock_sort_key r"
  shows "lk_start (lr_lock p) \<le> lk_start (lr_lock r)"
  using assms by (auto simp: mergeable_def lock_sort_key_def)

lemma set_end_key [simp]: "lock_sort_key (set_end e r) = lock_sort_key r"
  by (simp add: lock_sort_key_def)

lemma merge_loop_held:
  assumes "\<forall>r \<in> set merged. wf_record r" and "\<forall>r \<in> set rest. wf_record r"
    and "sorted (map lock_sort_key rest)"
    and "merged \<noteq> [] \<Longrightarrow> \<forall>r \<in> set rest. lock_sort_key (hd merged) \<le> lock_sort_key r"
  shows "held (merge_loop merged rest) i s o' b = held merged i s o' b \<union> held rest i s o' b
    \<and> (\<forall>r \<in> set (merge_loop merged rest). wf_record r)"
  using assms
proof (induction merged rest rule: merge_loop.induct)
  case (3 p merged r rest)
  show ?case
  proof (cases "mergeable p r")
    case True
    from "3.prems" True have start: "lk_start (lr_lock p) \<le> lk_start (lr_lock r)"
      by (intro mergeable_sorted_start) auto
    note mh = mergeable_held [OF True _ _ start]
    from "3.prems" have wf: "wf_record p" "wf_record r" by auto
    from "3.IH"(1) [OF True] "3.prems" mergeable_wf [OF wf]
    show ?thesis by (auto simp: True held_Cons mh [OF wf])
  next
    case False
    from "3.IH"(2) [OF False] "3.prems" show ?thesis
      by (auto simp: False held_Cons)
  qed
qed (auto simp: held_Cons)

lemma merge_owner_locks_held:
  assumes "\<forall>r \<in> set locks. wf_record r"
  shows "held (merge_owner_locks locks) = held locks"
    and "\<forall>r \<in> set (merge_owner_locks locks). wf_record r"
proof -
  have *: "held (merge_loop [] (sort_key lock_sort_key locks)) i s o' b
      = held [] i s o' b \<union> held (sort_key lock_sort_key locks) i s o' b
      \<and> (\<forall>r \<in> set (merge_loop [] (sort_key lock_sort_key locks)). wf_record r)" for i s o' b
    using assms by (intro merge_loop_held) auto
  have "held (sort_key lock_sort_key locks) = held locks" by (rule held_set) simp
  with * show "held (merge_owner_locks locks) = held locks"
    by (intro ext) (simp add: merge_owner_locks_def)
  from * show "\<forall>r \<in> set (merge_owner_locks locks). wf_record r"
    by (simp add: merge_owner_locks_def)
qed

lemma split_record_held:
  assumes "wf_record r" and "affected identity session q r" and "valid_request q"
  shows "held (split_record q r) i s o' b =
      (if covers r i s o' b \<and> \<not> in_range q b then {mode_of r} else {})"
    and "\<forall>x \<in> set (split_record q r). wf_record x"
proof -
  have "lk_end q < lk_end (lr_lock r) \<Longrightarrow> saturating_add (lk_end q) 1 = lk_end q + 1"
    using assms(1) by (intro saturating_add_exact) (simp add: wf_record_def)
  then show "held (split_record q r) i s o' b =
      (if covers r i s o' b \<and> \<not> in_range q b then {mode_of r} else {})"
    and "\<forall>x \<in> set (split_record q r). wf_record x"
    using assms
    by (auto simp: split_record_def held_Cons covers_def in_range_def wf_record_def affected_def
        valid_request_def ranges_overlap_def split: if_splits)
qed

definition cut_owner_range ::
  "file_identity \<Rightarrow> uuid \<Rightarrow> file_lock \<Rightarrow> lock_record \<Rightarrow> lock_record list" where
  "cut_owner_range identity session q r =
     (if affected identity session q r then split_record q r else [r])"

lemma cut_owner_range_held:
  assumes "wf_record r" and "valid_request q"
  shows "held (cut_owner_range identity session q r) i s o' b =
      (if covers r i s o' b \<and>
          \<not> (i = identity \<and> s = session \<and> o' = lk_owner q \<and> in_range q b)
       then {mode_of r} else {})"
    and "\<forall>x \<in> set (cut_owner_range identity session q r). wf_record x"
proof -
  have "covers r i s o' b \<Longrightarrow> affected identity session q r \<longleftrightarrow>
      i = identity \<and> s = session \<and> o' = lk_owner q \<and> ranges_overlap (lr_lock r) q"
    by (auto simp: covers_def affected_def)
  moreover have "covers r i s o' b \<Longrightarrow> in_range q b \<Longrightarrow> ranges_overlap (lr_lock r) q"
    by (auto simp: covers_def in_range_def ranges_overlap_def)
  ultimately show "held (cut_owner_range identity session q r) i s o' b =
      (if covers r i s o' b \<and>
          \<not> (i = identity \<and> s = session \<and> o' = lk_owner q \<and> in_range q b)
       then {mode_of r} else {})"
    using split_record_held(1) [OF assms(1) _ assms(2)]
    by (auto simp: cut_owner_range_def held_Cons)
  show "\<forall>x \<in> set (cut_owner_range identity session q r). wf_record x"
    using split_record_held(2) [OF assms(1) _ assms(2)] assms(1)
    by (auto simp: cut_owner_range_def)
qed

lemma cut_held:
  assumes "\<forall>r \<in> set locks. wf_record r" and "valid_request q"
  shows "held (concat (map (cut_owner_range identity session q) locks)) i s o' b =
      (if i = identity \<and> s = session \<and> o' = lk_owner q \<and> in_range q b then {}
       else held locks i s o' b)"
  using assms
proof (induction locks)
  case (Cons r rs)
  then show ?case
    using cut_owner_range_held(1) [of r q identity session i s o' b]
    by (simp add: held_Cons)
qed simp

lemma cut_wf:
  assumes "\<forall>r \<in> set locks. wf_record r" and "valid_request q"
  shows "\<forall>r \<in> set (concat (map (cut_owner_range identity session q) locks)). wf_record r"
  using assms cut_owner_range_held(2) by fastforce

lemma replace_owner_range_spec:
  assumes "wf_table locks" and "valid_request q" and "ins \<longrightarrow> lk_kind q \<noteq> Unlock"
    and "replace_owner_range locks identity session q ins = Inr locks'"
  shows "held locks' i s o' b =
      (if i = identity \<and> s = session \<and> o' = lk_owner q \<and> in_range q b
       then (if ins then {(lk_kind q, lk_pid q)} else {}) else held locks i s o' b)"
    and "wf_table locks'"
proof -
  define cut where "cut = concat (map (cut_owner_range identity session q) locks)"
  define nxt where "nxt = (if ins then cut @ [\<lparr>lr_identity = identity, lr_session = session,
      lr_lock = q\<rparr>] else cut)"
  have wf0: "\<forall>r \<in> set locks. wf_record r" using assms(1) by (simp add: wf_table_def)
  have wfn: "\<forall>r \<in> set nxt. wf_record r"
    using cut_wf [OF wf0 assms(2), of identity session] assms(2,3)
    by (auto simp: nxt_def cut_def wf_record_def valid_request_def)
  have l': "locks' = merge_owner_locks nxt" and len: "length locks' \<le> MAX_LOCK_RECORDS"
    using assms(4)
    by (auto simp: replace_owner_range_def Let_def nxt_def cut_def cut_owner_range_def
        cong: map_cong split: if_splits)
  note mo = merge_owner_locks_held [OF wfn]
  show "wf_table locks'" using mo(2) len by (simp add: wf_table_def l')
  show "held locks' i s o' b =
      (if i = identity \<and> s = session \<and> o' = lk_owner q \<and> in_range q b
       then (if ins then {(lk_kind q, lk_pid q)} else {}) else held locks i s o' b)"
    unfolding l' mo(1)
    by (simp add: nxt_def cut_def cut_held [OF wf0 assms(2)] held_Cons covers_def
        mode_of_def in_range_def)
qed

lemma first_conflict_held:
  assumes "wf_table locks" and "valid_request q"
  shows "first_conflict locks i s q \<noteq> None \<longleftrightarrow>
    (\<exists>s' o' b k p. (s', o') \<noteq> (s, lk_owner q) \<and> in_range q b \<and> (k, p) \<in> held locks i s' o' b \<and>
       (k = WriteLock \<or> lk_kind q = WriteLock))" (is "?l \<longleftrightarrow> ?r")
proof
  assume ?l
  then obtain r where r: "r \<in> set locks" and c: "conflicts i s q r"
    by (auto simp: first_conflict_None)
  let ?b = "max (lk_start (lr_lock r)) (lk_start q)"
  have "wf_record r" using assms(1) r by (simp add: wf_table_def)
  then have "in_range q ?b" and "covers r i (lr_session r) (lk_owner (lr_lock r)) ?b"
    using c assms(2)
    by (auto simp: conflicts_def ranges_overlap_def in_range_def covers_def valid_request_def wf_record_def)
  moreover have "mode_of r \<in> held locks i (lr_session r) (lk_owner (lr_lock r)) ?b"
    using r calculation(2) by (auto simp: held_def)
  ultimately show ?r using c by (fastforce simp: mode_of_def conflicts_def)
next
  assume ?r
  then obtain s' o' b r where "(s', o') \<noteq> (s, lk_owner q)" "in_range q b" "r \<in> set locks"
    "covers r i s' o' b" "lk_kind (lr_lock r) = WriteLock \<or> lk_kind q = WriteLock"
    by (auto simp: held_def mode_of_def)
  then have "conflicts i s q r"
    by (auto simp: conflicts_def covers_def in_range_def ranges_overlap_def)
  with \<open>r \<in> set locks\<close> show ?l by (auto simp: first_conflict_None)
qed

definition assign_range ::
  "lock_record list \<Rightarrow> file_identity \<Rightarrow> uuid \<Rightarrow> file_lock \<Rightarrow> server_error + lock_record list" where
  "assign_range locks i s q = replace_owner_range locks i s q (lk_kind q \<noteq> Unlock)"

interpretation lt: lock_table wf_table held assign_range
  "\<lambda>locks i s q. first_conflict locks i s q \<noteq> None"
proof unfold_locales
  fix t q i s t' i' s' o' b
  assume *: "wf_table t" "valid_request q" "assign_range t i s q = Inr t'"
  note sp = replace_owner_range_spec [OF *(1,2) _ *(3) [unfolded assign_range_def]]
  show "wf_table t'" using sp(2) by simp
  show "held t' i' s' o' b = (if i' = i \<and> s' = s \<and> o' = lk_owner q \<and> in_range q b
      then wanted q else held t i' s' o' b)"
    using sp(1) [of i' s' o' b] by (simp add: wanted_def)
next
  fix t q i s
  assume *: "wf_table t" "valid_request q"
  show "(first_conflict t i s q \<noteq> None) = (\<exists>s' o' b k p. (s', o') \<noteq> (s, lk_owner q) \<and>
      in_range q b \<and> (k, p) \<in> held t i s' o' b \<and> (k = WriteLock \<or> lk_kind q = WriteLock))"
    by (rule first_conflict_held [OF *])
qed

end
