(* ===== verification/Server_Registry.thy ===== *)
theory Server_Registry
  imports Server_Locks "HOL-Library.List_Lexorder"
begin

text \<open>
  The node registry, the per-connection working set and the handle table of
  \<^verbatim>\<open>crates/server-core\<close> (\<^verbatim>\<open>NodeRegistry\<close>, \<^verbatim>\<open>ExportShared\<close>, \<^verbatim>\<open>ExportSession\<close>).

  \<^item> An operation runs on \<open>srv\<close>: the shared export and the session it is called on. Every
    critical section of the source is one function; mutexes are never poisoned, since no modelled
    section panics, so \<^verbatim>\<open>lock_mutex\<close> is the identity.
  \<^item> A \<^verbatim>\<open>Semaphore\<close> is its number of free permits. Dropping an \<^verbatim>\<open>OwnedSemaphorePermit\<close> adds one
    back: a \<open>known\<close> entry and a registry entry say whether they hold one.
  \<^item> A \<^verbatim>\<open>BTreeSet<PathBuf>\<close> is a strictly sorted list of paths.
  \<^item> SHA-256 is the argument \<open>sha\<close>; a fresh UUID is an argument of the operation that draws it.
\<close>

record known_node =
  kn_identity :: file_identity
  kn_paths :: "path list"
  kn_session_references :: usize
  kn_global_permit :: bool

record node_registry =
  by_node :: "(node_id \<times> known_node) list"
  by_identity :: "(file_identity \<times> node_id) list"

record open_file =
  of_node :: node_id
  of_identity :: file_identity
  of_access :: file_access
  of_append :: bool

record export_shared =
  sh_limits :: limits
  sh_writable :: bool
  sh_node_key :: bytes
  sh_handle_permits :: usize
  sh_node_permits :: usize
  sh_nodes :: node_registry
  sh_locks :: "lock_record list"

record export_session =
  se_id :: uuid
  se_write_authorized :: bool
  se_known_nodes :: "(node_id \<times> bool) list"
  se_node_permits :: usize
  se_handles :: "(file_handle \<times> open_file) list"

record srv =
  sh :: export_shared
  se :: export_session

record node_snapshot_r =
  ns_identity :: file_identity
  ns_paths :: "path list"

type_synonym 'a sop = "(srv, server_error, 'a) op"

definition USIZE_MAX :: usize where "USIZE_MAX = U64_MAX"
definition MAX_FORGET_NODES :: usize where "MAX_FORGET_NODES = 65536"

subsection \<open>Field updates\<close>

definition upd_nodes :: "(node_registry \<Rightarrow> node_registry) \<Rightarrow> srv \<Rightarrow> srv" where
  "upd_nodes f s = s\<lparr>sh := (sh s)\<lparr>sh_nodes := f (sh_nodes (sh s))\<rparr>\<rparr>"

definition upd_known :: "((node_id \<times> bool) list \<Rightarrow> (node_id \<times> bool) list) \<Rightarrow> srv \<Rightarrow> srv" where
  "upd_known f s = s\<lparr>se := (se s)\<lparr>se_known_nodes := f (se_known_nodes (se s))\<rparr>\<rparr>"

definition upd_session_permits :: "(nat \<Rightarrow> nat) \<Rightarrow> srv \<Rightarrow> srv" where
  "upd_session_permits f s = s\<lparr>se := (se s)\<lparr>se_node_permits := f (se_node_permits (se s))\<rparr>\<rparr>"

definition upd_global_permits :: "(nat \<Rightarrow> nat) \<Rightarrow> srv \<Rightarrow> srv" where
  "upd_global_permits f s = s\<lparr>sh := (sh s)\<lparr>sh_node_permits := f (sh_node_permits (sh s))\<rparr>\<rparr>"

definition upd_locks :: "(lock_record list \<Rightarrow> lock_record list) \<Rightarrow> srv \<Rightarrow> srv" where
  "upd_locks f s = s\<lparr>sh := (sh s)\<lparr>sh_locks := f (sh_locks (sh s))\<rparr>\<rparr>"

definition upd_handle_permits :: "(nat \<Rightarrow> nat) \<Rightarrow> srv \<Rightarrow> srv" where
  "upd_handle_permits f s = s\<lparr>sh := (sh s)\<lparr>sh_handle_permits := f (sh_handle_permits (sh s))\<rparr>\<rparr>"

abbreviation nodes_of :: "srv \<Rightarrow> (node_id \<times> known_node) list" where
  "nodes_of s \<equiv> by_node (sh_nodes (sh s))"

abbreviation idents_of :: "srv \<Rightarrow> (file_identity \<times> node_id) list" where
  "idents_of s \<equiv> by_identity (sh_nodes (sh s))"

abbreviation known_of :: "srv \<Rightarrow> (node_id \<times> bool) list" where
  "known_of s \<equiv> se_known_nodes (se s)"

subsection \<open>Construction\<close>

definition export_init :: "limits \<Rightarrow> bool \<Rightarrow> bytes \<Rightarrow> file_identity \<Rightarrow> export_shared" where
  "export_init limits writable node_key root_identity =
     \<lparr>sh_limits = limits, sh_writable = writable, sh_node_key = node_key,
      sh_handle_permits = max_open_handles limits,
      sh_node_permits = max_total_known_nodes limits - 1,
      sh_nodes = \<lparr>by_node = [(ROOT_NODE, \<lparr>kn_identity = root_identity, kn_paths = [[]],
                                 kn_session_references = USIZE_MAX, kn_global_permit = False\<rparr>)],
                  by_identity = [(root_identity, ROOT_NODE)]\<rparr>,
      sh_locks = []\<rparr>"

definition session_with_writes :: "export_shared \<Rightarrow> uuid \<Rightarrow> bool \<Rightarrow> export_session" where
  "session_with_writes shared fresh write_authorized =
     \<lparr>se_id = fresh, se_write_authorized = write_authorized,
      se_known_nodes = [(ROOT_NODE, False)],
      se_node_permits = max_known_nodes (sh_limits shared) - 1,
      se_handles = []\<rparr>"

subsection \<open>Node identifiers\<close>

definition le_bytes8 :: "u64 \<Rightarrow> bytes" where
  "le_bytes8 n = map (\<lambda>k. n div 256 ^ k mod 256) [0..<8]"

definition uuid_from_bytes :: "bytes \<Rightarrow> uuid" where
  "uuid_from_bytes bs = foldl (\<lambda>acc b. acc * 256 + b) 0 bs"

definition stable_node_prefix :: bytes where
  "stable_node_prefix = map of_char ''quickfs stable node v1''"

text \<open>\<^verbatim>\<open>b & 0x0f | 0x50\<close> and \<^verbatim>\<open>b & 0x3f | 0x80\<close> on a byte, as arithmetic on its value.\<close>

definition stable_node_id :: "(bytes \<Rightarrow> bytes) \<Rightarrow> bytes \<Rightarrow> file_identity \<Rightarrow> node_id" where
  "stable_node_id sha key identity =
     (let digest = sha (stable_node_prefix @ key @ le_bytes8 (fi_device identity)
                        @ le_bytes8 (fi_inode identity));
          bytes = take 16 digest;
          bytes = bytes[6 := bytes ! 6 mod 16 + 80];
          bytes = bytes[8 := bytes ! 8 mod 64 + 128]
      in uuid_from_bytes bytes)"

subsection \<open>Session permits and eviction\<close>

definition drop_permit :: "bool \<Rightarrow> nat \<Rightarrow> nat" where
  "drop_permit has n = (if has then Suc n else n)"

definition known_remove :: "node_id \<Rightarrow> srv \<Rightarrow> srv" where
  "known_remove n s = (case map_of (known_of s) n of
     None \<Rightarrow> s
   | Some has \<Rightarrow> upd_session_permits (drop_permit has) (upd_known (AList.delete n) s))"

definition modify_node :: "node_id \<Rightarrow> (known_node \<Rightarrow> known_node) \<Rightarrow> node_registry \<Rightarrow> node_registry" where
  "modify_node n f r = (case map_of (by_node r) n of
     None \<Rightarrow> r | Some k \<Rightarrow> r\<lparr>by_node := AList.update n (f k) (by_node r)\<rparr>)"

definition pinned_nodes :: "srv \<Rightarrow> node_id list" where
  "pinned_nodes s = map (of_node \<circ> snd) (se_handles (se s))"

definition session_victim :: "srv \<Rightarrow> node_id option" where
  "session_victim s =
     find (\<lambda>n. n \<noteq> ROOT_NODE \<and> n \<notin> set (pinned_nodes s)) (map fst (known_of s))"

definition evict_unreferenced_session_node :: "srv \<Rightarrow> bool \<times> srv" where
  "evict_unreferenced_session_node s = (case session_victim s of
     None \<Rightarrow> (False, s)
   | Some n \<Rightarrow> (True, upd_nodes (modify_node n
       (\<lambda>k. k\<lparr>kn_session_references := kn_session_references k - 1\<rparr>)) (known_remove n s)))"

definition global_victim :: "srv \<Rightarrow> (node_id \<times> known_node) option" where
  "global_victim s = find (\<lambda>(n, k). n \<noteq> ROOT_NODE \<and> kn_session_references k = 0) (nodes_of s)"

definition registry_remove :: "node_id \<Rightarrow> file_identity \<Rightarrow> srv \<Rightarrow> srv" where
  "registry_remove n i s = (case map_of (nodes_of s) n of
     None \<Rightarrow> upd_nodes (\<lambda>r. r\<lparr>by_identity := AList.delete i (by_identity r)\<rparr>) s
   | Some k \<Rightarrow> upd_global_permits (drop_permit (kn_global_permit k))
       (upd_nodes (\<lambda>r. \<lparr>by_node = AList.delete n (by_node r),
                        by_identity = AList.delete i (by_identity r)\<rparr>) s))"

definition evict_unreferenced_global_node :: "srv \<Rightarrow> bool \<times> srv" where
  "evict_unreferenced_global_node s = (case global_victim s of
     None \<Rightarrow> (False, s)
   | Some (n, k) \<Rightarrow> (True, registry_remove n (kn_identity k) s))"

lemma session_victim_Some:
  "session_victim s = Some n \<Longrightarrow>
     n \<in> fst ` set (known_of s) \<and> n \<noteq> ROOT_NODE \<and> n \<notin> set (pinned_nodes s)"
  unfolding session_victim_def find_Some_iff by (metis length_map nth_mem set_map)

lemma length_delete_less: "n \<in> fst ` set m \<Longrightarrow> length (AList.delete n m) < length m"
proof (induction m)
  case (Cons a m)
  have "length (AList.delete n m) \<le> length m" by (rule length_delete_le)
  with Cons show ?case by (cases "fst a = n") (simp_all add: less_Suc_eq_le)
qed simp

lemma known_of_known_remove [simp]: "known_of (known_remove n s) = AList.delete n (known_of s)"
  by (auto simp: known_remove_def upd_known_def upd_session_permits_def map_of_eq_None_iff
      split: option.split)

lemma known_of_upd_nodes [simp]: "known_of (upd_nodes f s) = known_of s"
  by (simp add: upd_nodes_def)

lemma evict_session_shrinks:
  "evict_unreferenced_session_node s = (True, t) \<Longrightarrow> length (known_of t) < length (known_of s)"
  by (auto simp: evict_unreferenced_session_node_def simp del: image_iff split: option.splits
      dest!: session_victim_Some intro!: length_delete_less simp: rev_image_eqI)

function acquire_session_permit :: "srv \<Rightarrow> (server_error + unit) \<times> srv" where
  "acquire_session_permit s =
     (if se_node_permits (se s) > 0 then (Inr (), upd_session_permits (\<lambda>n. n - 1) s)
      else if fst (evict_unreferenced_session_node s)
           then acquire_session_permit (snd (evict_unreferenced_session_node s))
           else (Inl STooManyNodes, s))"
  by pat_completeness auto
termination
  by (relation "measure (\<lambda>s. length (known_of s))") (auto intro!: evict_session_shrinks prod_eqI)

declare acquire_session_permit.simps [simp del]

text \<open>
  \<^verbatim>\<open>reserve_node\<close> returns a session and a global permit; on failure the session permit it took is
  dropped again.
\<close>

definition reserve_node :: "unit sop" where
  "reserve_node = mbind acquire_session_permit (\<lambda>_ s.
     if sh_node_permits (sh s) > 0 then (Inr (), upd_global_permits (\<lambda>n. n - 1) s)
     else (case evict_unreferenced_global_node s of
         (False, t) \<Rightarrow> (Inl STooManyNodes, upd_session_permits Suc t)
       | (True, t) \<Rightarrow>
           if sh_node_permits (sh t) > 0 then (Inr (), upd_global_permits (\<lambda>n. n - 1) t)
           else (Inl STooManyNodes, upd_session_permits Suc t)))"

subsection \<open>Tracking nodes\<close>

definition track_node_with_permit :: "node_id \<Rightarrow> unit sop" where
  "track_node_with_permit n s =
     (if contains_key (known_of s) n then (Inr (), upd_session_permits Suc s)
      else (case map_of (nodes_of s) n of
          None \<Rightarrow> (Inl SInvalidNode, upd_session_permits Suc s)
        | Some k \<Rightarrow>
            (if kn_session_references k + 1 > USIZE_MAX
             then (Inl SStateUnavailable, upd_session_permits Suc s)
             else (Inr (), upd_known (AList.update n True) (upd_nodes (modify_node n
                    (\<lambda>k. k\<lparr>kn_session_references := kn_session_references k + 1\<rparr>)) s)))))"

definition track_node :: "node_id \<Rightarrow> unit sop" where
  "track_node n s =
     (if contains_key (known_of s) n then (Inr (), s)
      else mbind acquire_session_permit (\<lambda>_. track_node_with_permit n) s)"

definition btree_insert :: "'a::linorder \<Rightarrow> 'a list \<Rightarrow> 'a list" where
  "btree_insert x xs = (if x \<in> set xs then xs else insort x xs)"

definition add_path :: "path \<Rightarrow> known_node \<Rightarrow> known_node" where
  "add_path p k = k\<lparr>kn_paths := btree_insert p (kn_paths k)\<rparr>"

text \<open>\<^verbatim>\<open>remember_reserved\<close> owns both permits; every path out of it either stores or drops each.\<close>

definition remember_reserved ::
  "(bytes \<Rightarrow> bytes) \<Rightarrow> file_identity \<Rightarrow> path \<Rightarrow> node_id sop" where
  "remember_reserved sha identity path s =
     (case map_of (idents_of s) identity of
        Some n \<Rightarrow>
          mbind (mput (\<lambda>s. upd_global_permits Suc (upd_nodes (modify_node n (add_path path)) s)))
            (\<lambda>_. mbind (track_node_with_permit n) (\<lambda>_. mret n)) s
      | None \<Rightarrow>
          (let n = stable_node_id sha (sh_node_key (sh s)) identity in
           if n = ROOT_NODE \<or> (case map_of (nodes_of s) n of
                                None \<Rightarrow> False | Some k \<Rightarrow> kn_identity k \<noteq> identity)
           then (Inl SStateUnavailable, upd_session_permits Suc (upd_global_permits Suc s))
           else mbind (mput (\<lambda>s. upd_global_permits
                   (case map_of (nodes_of s) n of None \<Rightarrow> id
                      | Some old \<Rightarrow> drop_permit (kn_global_permit old))
                   (upd_nodes (\<lambda>r. r\<lparr>
                      by_identity := AList.update identity n (by_identity r),
                      by_node := AList.update n
                        \<lparr>kn_identity = identity, kn_paths = [path], kn_session_references = 0,
                         kn_global_permit = True\<rparr> (by_node r)\<rparr>) s)))
                 (\<lambda>_. mbind (track_node_with_permit n) (\<lambda>_. mret n)) s))"

definition remember :: "(bytes \<Rightarrow> bytes) \<Rightarrow> file_identity \<Rightarrow> path \<Rightarrow> node_id sop" where
  "remember sha identity path s =
     (case map_of (idents_of s) identity of
        Some n \<Rightarrow>
          mbind (mput (upd_nodes (modify_node n (add_path path))))
            (\<lambda>_. mbind (track_node n) (\<lambda>_. mret n)) s
      | None \<Rightarrow> mbind reserve_node (\<lambda>_. remember_reserved sha identity path) s)"

subsection \<open>Releasing nodes\<close>

definition release_node_reference :: "node_id \<Rightarrow> unit sop" where
  "release_node_reference n s =
     (if n = ROOT_NODE then (Inr (), s)
      else (case map_of (nodes_of s) n of
          None \<Rightarrow> (Inr (), s)
        | Some k \<Rightarrow>
            if kn_session_references k > 0
            then (Inr (), upd_nodes (modify_node n
                    (\<lambda>k. k\<lparr>kn_session_references := kn_session_references k - 1\<rparr>)) s)
            else (Inl SStateUnavailable, s)))"

definition forget_nodes :: "node_id list \<Rightarrow> unit sop" where
  "forget_nodes requested s =
     (if length requested > MAX_FORGET_NODES
      then (Inl (SInvalidRequest ''too many nodes in one forget request''), s)
      else (let released = filter (\<lambda>n. n \<noteq> ROOT_NODE \<and> contains_key (known_of s) n)
                                  (remdups requested)
            in mfor released release_node_reference (foldl (\<lambda>s n. known_remove n s) s released)))"

text \<open>
  \<^verbatim>\<open>Drop for ExportSession\<close>: locks, then the working set with its references; errors are ignored. Then
  the fields are dropped, and with each open file its handle permit.
\<close>

definition drop_session :: "srv \<Rightarrow> srv" where
  "drop_session s =
     (let s1 = upd_locks (remove_locks (\<lambda>r. lr_session r = se_id (se s))) s;
          drained = filter (\<lambda>n. n \<noteq> ROOT_NODE) (map fst (known_of s1));
          s2 = upd_known (\<lambda>_. []) s1;
          s3 = snd (mfor drained (\<lambda>n. mignore (release_node_reference n)) s2)
      in upd_handle_permits (\<lambda>n. n + length (se_handles (se s3))) s3)"

subsection \<open>Paths\<close>

definition is_path_or_descendant :: "path \<Rightarrow> path \<Rightarrow> bool" where
  "is_path_or_descendant candidate prefix \<longleftrightarrow>
     candidate = prefix \<or> strip_prefix prefix candidate \<noteq> None"

definition replace_prefix :: "path \<Rightarrow> path \<Rightarrow> path \<Rightarrow> path" where
  "replace_prefix p old new = (case strip_prefix old p of Some suffix \<Rightarrow> new @ suffix | None \<Rightarrow> p)"

definition drop_empty :: "srv \<Rightarrow> srv" where
  "drop_empty s = foldl (\<lambda>s (n, k). registry_remove n (kn_identity k) s) s
     (filter (\<lambda>(n, k). n \<noteq> ROOT_NODE \<and> kn_paths k = []) (nodes_of s))"

definition remove_registry_path :: "path \<Rightarrow> bool \<Rightarrow> srv \<Rightarrow> srv" where
  "remove_registry_path path descendants s =
     drop_empty (upd_nodes (\<lambda>r. r\<lparr>by_node := map (\<lambda>(n, k). (n,
         if n = ROOT_NODE then k
         else k\<lparr>kn_paths := filter (\<lambda>c. if descendants then \<not> is_path_or_descendant c path
                                        else c \<noteq> path) (kn_paths k)\<rparr>)) (by_node r)\<rparr>) s)"

definition rename_path :: "path \<Rightarrow> path \<Rightarrow> rename_mode \<Rightarrow> path \<Rightarrow> path" where
  "rename_path old new mode p =
     (if mode = RenameExchange \<and> is_path_or_descendant p old then replace_prefix p old new
      else if mode = RenameExchange \<and> is_path_or_descendant p new then replace_prefix p new old
      else if is_path_or_descendant p old then replace_prefix p old new
      else p)"

definition update_registry_after_rename ::
  "path \<Rightarrow> path \<Rightarrow> rename_mode \<Rightarrow> file_identity \<Rightarrow> file_identity option \<Rightarrow> srv \<Rightarrow> srv" where
  "update_registry_after_rename old new mode source_identity destination_identity s =
     (if destination_identity = Some source_identity then s
      else (let s1 = (if mode = RenameReplace
                      then upd_nodes (\<lambda>r. r\<lparr>by_node := map (\<lambda>(n, k). (n,
                             if kn_identity k \<noteq> source_identity
                             then k\<lparr>kn_paths := filter (\<lambda>c. \<not> is_path_or_descendant c new)
                                                     (kn_paths k)\<rparr>
                             else k)) (by_node r)\<rparr>) s
                      else s);
                s2 = upd_nodes (\<lambda>r. r\<lparr>by_node := map (\<lambda>(n, k). (n,
                       k\<lparr>kn_paths := foldl (\<lambda>acc p. btree_insert (rename_path old new mode p) acc) []
                                         (kn_paths k)\<rparr>)) (by_node r)\<rparr>) s1
            in drop_empty s2))"

subsection \<open>Handles and locks of a session\<close>

definition can_write_session :: "srv \<Rightarrow> bool" where
  "can_write_session s = (sh_writable (sh s) \<and> se_write_authorized (se s))"

definition require_writable :: "unit sop" where
  "require_writable s = (if can_write_session s then (Inr (), s) else (Inl SReadOnly, s))"

definition set_write_authorized :: "bool \<Rightarrow> srv \<Rightarrow> srv" where
  "set_write_authorized authorized s = s\<lparr>se := (se s)\<lparr>se_write_authorized := authorized\<rparr>\<rparr>"

definition open_handle :: "file_handle \<Rightarrow> open_file sop" where
  "open_handle h s = (ok_or SInvalidHandle (map_of (se_handles (se s)) h), s)"

definition acquire_handle_permit :: "unit sop" where
  "acquire_handle_permit s = (if sh_handle_permits (sh s) > 0 then (Inr (), upd_handle_permits (\<lambda>n. n - 1) s) else (Inl STooManyHandles, s))"

text \<open>The UUIDs \<^verbatim>\<open>insert_handle\<close> draws are a list; the first one not in use is taken.\<close>

definition insert_handle :: "uuid list \<Rightarrow> open_file \<Rightarrow> srv \<Rightarrow> file_handle option \<times> srv" where
  "insert_handle draws opened s =
     (case find (\<lambda>h. \<not> contains_key (se_handles (se s)) h) draws of
        None \<Rightarrow> (None, s)
      | Some h \<Rightarrow> (Some h, s\<lparr>se := (se s)\<lparr>se_handles := AList.update h opened (se_handles (se s))\<rparr>\<rparr>))"

text \<open>Opening: the permit is taken first; the inserted file owns it.\<close>

definition insert_with_permit :: "uuid list \<Rightarrow> open_file \<Rightarrow> srv \<Rightarrow> srv" where
  "insert_with_permit draws opened s = (case acquire_handle_permit s of
     (Inl _, t) \<Rightarrow> t
   | (Inr _, t) \<Rightarrow> (case insert_handle draws opened t of
         (None, u) \<Rightarrow> upd_handle_permits Suc u
       | (Some _, u) \<Rightarrow> u))"

definition validate_lock_access :: "open_file \<Rightarrow> lock_kind \<Rightarrow> server_error + unit" where
  "validate_lock_access opened kind =
     (if kind = ReadLock \<and> \<not> can_read (of_access opened) then Inl SPermissionDenied
      else if kind = WriteLock \<and> \<not> can_write (of_access opened) then Inl SPermissionDenied
      else Inr ())"

definition get_lock :: "file_handle \<Rightarrow> file_lock \<Rightarrow> file_lock option sop" where
  "get_lock h requested =
     mbind (mlift (validate_lock requested False)) (\<lambda>_.
     mbind (open_handle h) (\<lambda>opened.
     mbind (mlift (validate_lock_access opened (lk_kind requested))) (\<lambda>_.
     mget (\<lambda>s. map_option lr_lock
       (first_conflict (sh_locks (sh s)) (of_identity opened) (se_id (se s)) requested)))))"

text \<open>
  \<^verbatim>\<open>set_lock\<close> up to its first decision: \<open>Inr True\<close> is success, \<open>Inr False\<close> means the call now waits
  for a notification and will run \<open>set_lock_attempt\<close> again.
\<close>

definition set_lock :: "file_handle \<Rightarrow> file_lock \<Rightarrow> bool \<Rightarrow> bool sop" where
  "set_lock h requested wait =
     mbind (mlift (validate_lock requested True)) (\<lambda>_.
     mbind (if lk_kind requested = WriteLock then require_writable else mret ()) (\<lambda>_.
     mbind (open_handle h) (\<lambda>opened.
     mbind (mlift (validate_lock_access opened (lk_kind requested))) (\<lambda>_ s.
       case set_lock_attempt (sh_locks (sh s)) (of_identity opened) (se_id (se s)) requested wait of
         Granted next \<Rightarrow> (Inr True, upd_locks (\<lambda>_. next) s)
       | Refused e \<Rightarrow> (Inl e, s)
       | Waits \<Rightarrow> (Inr False, s)))))"

text \<open>A waiting call woken up: the handle was looked up before the wait and is not looked up again.\<close>

definition resume_lock :: "file_identity \<Rightarrow> file_lock \<Rightarrow> bool sop" where
  "resume_lock identity requested s =
     (case set_lock_attempt (sh_locks (sh s)) identity (se_id (se s)) requested True of
         Granted next \<Rightarrow> (Inr True, upd_locks (\<lambda>_. next) s)
       | Refused e \<Rightarrow> (Inl e, s)
       | Waits \<Rightarrow> (Inr False, s))"

definition flush_locks :: "file_handle \<Rightarrow> u64 option \<Rightarrow> unit sop" where
  "flush_locks h lock_owner =
     mbind (open_handle h) (\<lambda>opened.
       case lock_owner of
         None \<Rightarrow> mret ()
       | Some owner \<Rightarrow> mput (\<lambda>s. upd_locks (remove_locks (\<lambda>r. lr_session r = se_id (se s)
             \<and> lr_identity r = of_identity opened \<and> lk_owner (lr_lock r) = owner)) s))"

text \<open>Removing a handle drops its \<^verbatim>\<open>OpenFile\<close>, and with it its handle permit.\<close>

definition close_handle :: "file_handle \<Rightarrow> unit sop" where
  "close_handle h =
     mbind (open_handle h) (\<lambda>opened.
     mput (\<lambda>s. upd_locks (remove_locks (\<lambda>r. lr_session r = se_id (se s)
                 \<and> lr_identity r = of_identity opened))
       (s\<lparr>se := (se s)\<lparr>se_handles := AList.delete h (se_handles (se s))\<rparr>,
          sh := (sh s)\<lparr>sh_handle_permits := Suc (sh_handle_permits (sh s))\<rparr>\<rparr>)))"

definition cleanup_locks :: "srv \<Rightarrow> srv" where
  "cleanup_locks s = upd_locks (remove_locks (\<lambda>r. lr_session r = se_id (se s))) s"

end
