(* ===== verification/Server_Registry_Props.thy ===== *)
theory Server_Registry_Props
  imports Server_Registry
begin

text \<open>
  Invariants of the node registry: the two indexes are inverse, no semaphore permit is ever lost
  or duplicated, and, as long as no registered path is removed, reference counts count sessions.
  Permits held by a caller in flight are the arguments \<open>fs\<close> and \<open>fg\<close> of the invariant.
\<close>

declare map_of_eq_Some_iff [simp del] Some_eq_map_of_iff [simp del]

lemmas srv_upds = upd_nodes_def upd_known_def upd_session_permits_def upd_global_permits_def
  upd_locks_def

definition index_inv :: "srv \<Rightarrow> bool" where
  "index_inv s \<longleftrightarrow> distinct_keys (nodes_of s) \<and> distinct_keys (idents_of s) \<and>
     (\<forall>i n. map_of (idents_of s) i = Some n \<longleftrightarrow>
        (\<exists>k. map_of (nodes_of s) n = Some k \<and> kn_identity k = i))"

definition session_permit_inv :: "nat \<Rightarrow> srv \<Rightarrow> bool" where
  "session_permit_inv fs s \<longleftrightarrow> distinct_keys (known_of s) \<and>
     (\<forall>n. map_of (known_of s) n = Some False \<longleftrightarrow> n = ROOT_NODE) \<and>
     se_node_permits (se s) + length (known_of s) + fs = max_known_nodes (sh_limits (sh s))"

definition global_permit_inv :: "nat \<Rightarrow> srv \<Rightarrow> bool" where
  "global_permit_inv fg s \<longleftrightarrow>
     (\<forall>n k. map_of (nodes_of s) n = Some k \<longrightarrow> kn_global_permit k = (n \<noteq> ROOT_NODE)) \<and>
     map_of (nodes_of s) ROOT_NODE \<noteq> None \<and>
     sh_node_permits (sh s) + length (nodes_of s) + fg = max_total_known_nodes (sh_limits (sh s))"

definition reg_inv :: "nat \<Rightarrow> nat \<Rightarrow> srv \<Rightarrow> bool" where
  "reg_inv fs fg s \<longleftrightarrow> index_inv s \<and> session_permit_inv fs s \<and> global_permit_inv fg s"

subsection \<open>Building blocks\<close>

lemma modify_node_map_of [simp]:
  "map_of (by_node (modify_node n f r)) m =
     (if m = n then map_option f (map_of (by_node r) n) else map_of (by_node r) m)"
  by (simp add: modify_node_def split: option.split)

lemma modify_node_keys [simp]:
  "by_identity (modify_node n f r) = by_identity r"
  "map fst (by_node (modify_node n f r)) = map fst (by_node r)"
  by (auto simp: modify_node_def update_keys map_of_eq_None_iff split: option.split
      dest: map_of_Some_key)

lemma modify_node_length [simp]:
  "length (by_node (modify_node n f r)) = length (by_node r)"
  by (metis modify_node_keys(2) length_map)

text \<open>Changes to an entry that keep its identity and permit keep the registry invariants.\<close>

definition harmless :: "(known_node \<Rightarrow> known_node) \<Rightarrow> bool" where
  "harmless f \<longleftrightarrow> (\<forall>k. kn_identity (f k) = kn_identity k \<and> kn_global_permit (f k) = kn_global_permit k)"

lemma harmless_intros [simp]:
  "harmless (\<lambda>k. k\<lparr>kn_session_references := g k\<rparr>)"
  "harmless (add_path p)"
  by (simp_all add: harmless_def add_path_def)

lemma index_inv_modify:
  assumes "index_inv s" and "harmless f"
  shows "index_inv (upd_nodes (modify_node n f) s)"
  using assms unfolding index_inv_def harmless_def
  by (auto simp: upd_nodes_def)

lemma global_permit_inv_modify:
  assumes "global_permit_inv fg s" and "harmless f"
  shows "global_permit_inv fg (upd_nodes (modify_node n f) s)"
  using assms unfolding global_permit_inv_def harmless_def by (auto simp: upd_nodes_def)

lemma reg_inv_modify:
  assumes "reg_inv fs fg s" and "harmless f"
  shows "reg_inv fs fg (upd_nodes (modify_node n f) s)"
proof -
  have "global_permit_inv fg (upd_nodes (modify_node n f) s)"
    using assms global_permit_inv_modify by (auto simp: reg_inv_def)
  moreover have "session_permit_inv fs (upd_nodes (modify_node n f) s)"
    using assms by (simp add: reg_inv_def session_permit_inv_def upd_nodes_def)
  ultimately show ?thesis
    using assms index_inv_modify by (auto simp: reg_inv_def)
qed

lemma reg_inv_session_permit:
  "reg_inv fs fg s \<Longrightarrow> 0 < se_node_permits (se s) \<Longrightarrow>
     reg_inv (Suc fs) fg (upd_session_permits (\<lambda>n. n - Suc 0) s)"
  "reg_inv (Suc fs) fg s \<Longrightarrow> reg_inv fs fg (upd_session_permits Suc s)"
  by (auto simp: reg_inv_def index_inv_def session_permit_inv_def global_permit_inv_def
      upd_session_permits_def)

lemma reg_inv_global_permit:
  "reg_inv fs fg s \<Longrightarrow> 0 < sh_node_permits (sh s) \<Longrightarrow>
     reg_inv fs (Suc fg) (upd_global_permits (\<lambda>n. n - Suc 0) s)"
  "reg_inv fs (Suc fg) s \<Longrightarrow> reg_inv fs fg (upd_global_permits Suc s)"
  by (auto simp: reg_inv_def index_inv_def session_permit_inv_def global_permit_inv_def
      upd_global_permits_def)

lemma reg_inv_known_remove:
  assumes "reg_inv fs fg s" and "n \<noteq> ROOT_NODE"
  shows "reg_inv fs fg (known_remove n s)"
proof (cases "map_of (known_of s) n")
  case None
  with assms show ?thesis by (simp add: known_remove_def)
next
  case (Some b)
  have b: "b = True"
    using assms Some unfolding reg_inv_def session_permit_inv_def by (metis (full_types))
  have "Suc (length (AList.delete n (known_of s))) = length (known_of s)"
    using assms(1) map_of_Some_key [OF Some]
    by (intro length_delete) (simp_all add: reg_inv_def session_permit_inv_def)
  then have "session_permit_inv fs (known_remove n s)"
    using assms Some b unfolding reg_inv_def session_permit_inv_def
    by (simp add: known_remove_def srv_upds drop_permit_def)
  moreover have "index_inv (known_remove n s)" and "global_permit_inv fg (known_remove n s)"
    using assms(1) Some
    by (simp_all add: known_remove_def srv_upds reg_inv_def index_inv_def global_permit_inv_def)
  ultimately show ?thesis by (simp add: reg_inv_def)
qed

lemma reg_inv_evict_session:
  "reg_inv fs fg s \<Longrightarrow> reg_inv fs fg (snd (evict_unreferenced_session_node s))"
  by (auto simp: evict_unreferenced_session_node_def intro!: reg_inv_modify reg_inv_known_remove
      split: option.split dest: session_victim_Some)

lemma index_inv_inj:
  assumes "index_inv s" and "map_of (nodes_of s) n = Some k" and "map_of (nodes_of s) n' = Some k'"
    and "kn_identity k = kn_identity k'"
  shows "n = n'"
  using assms unfolding index_inv_def by (metis option.inject)

lemma index_inv_registry_remove:
  assumes inv: "index_inv s" and n: "map_of (nodes_of s) n = Some k"
  shows "index_inv (registry_remove n (kn_identity k) s)"
proof -
  have "(map_of (AList.delete (kn_identity k) (idents_of s)) i = Some m) =
      (\<exists>k'. map_of (AList.delete n (nodes_of s)) m = Some k' \<and> kn_identity k' = i)" for i m
  proof -
    have ix: "map_of (idents_of s) j = Some m \<longleftrightarrow>
        (\<exists>k'. map_of (nodes_of s) m = Some k' \<and> kn_identity k' = j)" for j
      using inv by (simp add: index_inv_def)
    have own: "map_of (idents_of s) (kn_identity k) = Some n"
      using inv n by (auto simp: index_inv_def)
    show ?thesis
    proof (cases "m = n")
      case True
      with n ix [of i] show ?thesis by auto
    next
      case False
      with own ix [of i] show ?thesis by auto
    qed
  qed
  with inv n show ?thesis by (simp add: registry_remove_def index_inv_def srv_upds)
qed

lemma reg_inv_registry_remove:
  assumes "reg_inv fs fg s" and "n \<noteq> ROOT_NODE" and "map_of (nodes_of s) n = Some k"
  shows "reg_inv fs fg (registry_remove n (kn_identity k) s)"
proof -
  have inv: "index_inv s" using assms(1) by (simp add: reg_inv_def)
  have len: "Suc (length (AList.delete n (nodes_of s))) = length (nodes_of s)"
    using assms(1) map_of_Some_key [OF assms(3)]
    by (intro length_delete) (simp_all add: reg_inv_def index_inv_def)
  have perm: "kn_global_permit k" using assms by (auto simp: reg_inv_def global_permit_inv_def)
  have "global_permit_inv fg (registry_remove n (kn_identity k) s)"
    using assms len perm
    by (auto simp: registry_remove_def reg_inv_def global_permit_inv_def srv_upds drop_permit_def)
  moreover have "session_permit_inv fs (registry_remove n (kn_identity k) s)"
    using assms(1,3) by (simp add: registry_remove_def reg_inv_def session_permit_inv_def srv_upds)
  ultimately show ?thesis
    using index_inv_registry_remove [OF inv assms(3)] by (simp add: reg_inv_def)
qed

lemma global_victim_Some:
  assumes "reg_inv fs fg s" and "global_victim s = Some (n, k)"
  shows "n \<noteq> ROOT_NODE" and "map_of (nodes_of s) n = Some k" and "kn_session_references k = 0"
proof -
  from assms(2) obtain i where "i < length (nodes_of s)" "nodes_of s ! i = (n, k)"
    "n \<noteq> ROOT_NODE" "kn_session_references k = 0"
    by (auto simp: global_victim_def find_Some_iff)
  then show "n \<noteq> ROOT_NODE" "map_of (nodes_of s) n = Some k" "kn_session_references k = 0"
    using assms(1) by (auto simp: reg_inv_def index_inv_def map_of_eq_Some_iff in_set_conv_nth)
qed

lemma reg_inv_evict_global:
  assumes "reg_inv fs fg s"
  shows "reg_inv fs fg (snd (evict_unreferenced_global_node s))"
  using assms global_victim_Some [OF assms]
  by (auto simp: evict_unreferenced_global_node_def intro!: reg_inv_registry_remove
      split: option.split)

subsection \<open>Acquiring and storing permits\<close>

lemma reg_inv_acquire:
  "reg_inv fs fg s \<Longrightarrow> acquire_session_permit s = (r, t) \<Longrightarrow>
     reg_inv (if isOk r then Suc fs else fs) fg t"
proof (induction s arbitrary: r t rule: acquire_session_permit.induct)
  case (1 s)
  show ?case
  proof (cases "0 < se_node_permits (se s)")
    case True
    with "1.prems" show ?thesis
      by (auto simp: acquire_session_permit.simps [of s] intro!: reg_inv_session_permit)
  next
    case False
    show ?thesis
    proof (cases "fst (evict_unreferenced_session_node s)")
      case True
      with False "1.prems"(2) have "acquire_session_permit
          (snd (evict_unreferenced_session_node s)) = (r, t)"
        by (simp add: acquire_session_permit.simps [of s])
      with "1.IH" [OF False True reg_inv_evict_session [OF "1.prems"(1)]] show ?thesis by blast
    next
      case False
      with \<open>\<not> 0 < _\<close> "1.prems" show ?thesis
        by (auto simp: acquire_session_permit.simps [of s])
    qed
  qed
qed

lemma reg_inv_reserve:
  assumes "reg_inv fs fg s" and "reserve_node s = (r, t)"
  shows "if isOk r then reg_inv (Suc fs) (Suc fg) t else reg_inv fs fg t"
proof (cases "acquire_session_permit s")
  case (Pair r1 s1)
  note i1 = reg_inv_acquire [OF assms(1) Pair]
  show ?thesis
  proof (cases r1)
    case (Inl e)
    with assms(2) Pair i1 show ?thesis by (auto simp: reserve_node_def mbind_def)
  next
    case (Inr u)
    with i1 have i2: "reg_inv (Suc fs) fg s1" by simp
    show ?thesis
    proof (cases "0 < sh_node_permits (sh s1)")
      case True
      with assms(2) Pair Inr i2 show ?thesis
        by (auto simp: reserve_node_def mbind_def intro!: reg_inv_global_permit)
    next
      case False
      with assms(2) Pair Inr reg_inv_evict_global [OF i2] show ?thesis
        by (auto simp: reserve_node_def mbind_def split: prod.splits bool.splits if_splits
            intro!: reg_inv_global_permit reg_inv_session_permit)
    qed
  qed
qed

lemma reg_inv_known_insert:
  assumes "reg_inv (Suc fs) fg s" and "map_of (known_of s) n = None" and "n \<noteq> ROOT_NODE"
  shows "reg_inv fs fg (upd_known (AList.update n True) s)"
  using assms
  by (auto simp: reg_inv_def index_inv_def session_permit_inv_def global_permit_inv_def
      upd_known_def length_update map_of_key_iff)

lemma reg_inv_track_with_permit:
  assumes "reg_inv (Suc fs) fg s" and "n \<noteq> ROOT_NODE \<or> contains_key (known_of s) n"
  shows "reg_inv fs fg (snd (track_node_with_permit n s))"
  using assms
  by (auto simp: track_node_with_permit_def contains_key_def
      intro!: reg_inv_session_permit reg_inv_known_insert reg_inv_modify split: option.splits)

lemma reg_inv_root_known: "reg_inv fs fg s \<Longrightarrow> map_of (known_of s) ROOT_NODE = Some False"
  by (simp add: reg_inv_def session_permit_inv_def)

lemma root_not_forgotten:
  "reg_inv fs fg s \<Longrightarrow> n \<noteq> ROOT_NODE \<or> contains_key (known_of s) n"
  by (auto simp: contains_key_def dest: reg_inv_root_known)

lemma reg_inv_track:
  assumes "reg_inv fs fg s"
  shows "reg_inv fs fg (snd (track_node n s))"
proof (cases "acquire_session_permit s")
  case (Pair r t)
  from reg_inv_acquire [OF assms Pair] show ?thesis
    using assms Pair reg_inv_track_with_permit [of fs fg t n] root_not_forgotten [of "Suc fs" fg t n]
    by (auto simp: track_node_def mbind_def split: sum.split)
qed

lemma reg_inv_insert_node:
  assumes inv: "reg_inv fs (Suc fg) s" and new: "map_of (idents_of s) i = None"
    and n: "n \<noteq> ROOT_NODE" "map_of (nodes_of s) n = None"
  shows "reg_inv fs fg (upd_nodes (\<lambda>r. r\<lparr>by_identity := AList.update i n (by_identity r),
      by_node := AList.update n \<lparr>kn_identity = i, kn_paths = ps, kn_session_references = c,
        kn_global_permit = True\<rparr> (by_node r)\<rparr>) s)" (is "reg_inv fs fg ?t")
proof -
  have "length (nodes_of ?t) = Suc (length (nodes_of s))"
    using n by (simp add: upd_nodes_def length_update map_of_eq_None_iff)
  then have "global_permit_inv fg ?t"
    using inv n by (auto simp: reg_inv_def global_permit_inv_def upd_nodes_def)
  moreover have "session_permit_inv fs ?t"
    using inv by (simp add: reg_inv_def session_permit_inv_def upd_nodes_def)
  moreover have "index_inv ?t"
  proof -
    have ix: "map_of (idents_of s) j = Some m \<longleftrightarrow>
        (\<exists>k'. map_of (nodes_of s) m = Some k' \<and> kn_identity k' = j)" for j m
      using inv by (simp add: reg_inv_def index_inv_def)
    have "(map_of (idents_of ?t) j = Some m) =
        (\<exists>k'. map_of (nodes_of ?t) m = Some k' \<and> kn_identity k' = j)" for j m
      using ix [of j m] ix [of i] new n by (auto simp: upd_nodes_def)
    with inv show ?thesis by (simp add: reg_inv_def index_inv_def upd_nodes_def)
  qed
  ultimately show ?thesis by (simp add: reg_inv_def)
qed

lemma reg_inv_remember_reserved:
  assumes inv: "reg_inv (Suc fs) (Suc fg) s"
  shows "reg_inv fs fg (snd (remember_reserved sha i p s))"
proof (cases "map_of (idents_of s) i")
  case (Some n)
  let ?s1 = "upd_global_permits Suc (upd_nodes (modify_node n (add_path p)) s)"
  have i1: "reg_inv (Suc fs) fg ?s1"
    using inv by (intro reg_inv_global_permit reg_inv_modify) simp_all
  from reg_inv_track_with_permit [OF i1 root_not_forgotten [OF i1, of n]] Some show ?thesis
    by (auto simp: remember_reserved_def mbind_def mput_def mret_def split: sum.split prod.split)
next
  case None
  let ?n = "stable_node_id sha (sh_node_key (sh s)) i"
  have no: "kn_identity k \<noteq> i" if "map_of (nodes_of s) ?n = Some k" for k
    using inv None that unfolding reg_inv_def index_inv_def by (metis option.distinct(1))
  show ?thesis
  proof (cases "?n = ROOT_NODE \<or> map_of (nodes_of s) ?n \<noteq> None")
    case True
    then show ?thesis
      using None inv no
      by (auto simp: remember_reserved_def Let_def intro!: reg_inv_session_permit
          reg_inv_global_permit split: option.splits)
  next
    case False
    then have n: "?n \<noteq> ROOT_NODE" "map_of (nodes_of s) ?n = None" by auto
    note i1 = reg_inv_insert_node [OF inv None n, of "[p]" 0]
    have key: "sh_node_key (sh (upd_nodes f s)) = sh_node_key (sh s)" for f
      by (simp add: upd_nodes_def)
    from reg_inv_track_with_permit [OF i1 root_not_forgotten [OF i1, of ?n]] None n show ?thesis
      by (auto simp: remember_reserved_def Let_def mbind_def mput_def mret_def upd_global_permits_def
          split: sum.split prod.split)
  qed
qed

lemma reg_inv_remember:
  assumes inv: "reg_inv fs fg s"
  shows "reg_inv fs fg (snd (remember sha i p s))"
proof (cases "map_of (idents_of s) i")
  case (Some n)
  have "reg_inv fs fg (upd_nodes (modify_node n (add_path p)) s)"
    using inv by (intro reg_inv_modify) simp_all
  from reg_inv_track [OF this, of n] Some show ?thesis
    by (auto simp: remember_def mbind_def mput_def mret_def split: sum.split prod.split)
next
  case None
  obtain r t where rt: "reserve_node s = (r, t)" by fastforce
  from reg_inv_reserve [OF inv rt] None rt reg_inv_remember_reserved [of fs fg t sha i p] show ?thesis
    by (auto simp: remember_def mbind_def split: sum.split)
qed

lemma reg_inv_release: "reg_inv fs fg s \<Longrightarrow> reg_inv fs fg (snd (release_node_reference n s))"
  by (auto simp: release_node_reference_def intro!: reg_inv_modify split: option.split)

lemma reg_inv_forget:
  assumes inv: "reg_inv fs fg s"
  shows "reg_inv fs fg (snd (forget_nodes ns s))"
proof -
  have fold: "reg_inv fs fg (foldl (\<lambda>s n. known_remove n s) t xs)"
    if "reg_inv fs fg t" "ROOT_NODE \<notin> set xs" for t xs
    using that by (induction xs arbitrary: t) (simp, metis reg_inv_known_remove foldl_Cons
        list.set_intros)
  have pres: "preserves (reg_inv fs fg) (mfor xs release_node_reference)" for xs
    by (intro preserves_mfor preservesI reg_inv_release)
  show ?thesis
    using inv preservesD [OF pres fold [OF inv]] by (simp add: forget_nodes_def Let_def)
qed

subsection \<open>Path changes\<close>

text \<open>Rewriting every path set keeps the invariants; dropping the entries left without a path too.\<close>

lemma reg_inv_map_nodes:
  assumes inv: "reg_inv fs fg s"
    and f: "\<And>n k. kn_identity (f n k) = kn_identity k" "\<And>n k. kn_global_permit (f n k) = kn_global_permit k"
  shows "reg_inv fs fg (upd_nodes (\<lambda>r. r\<lparr>by_node := map (\<lambda>(n, k). (n, f n k)) (by_node r)\<rparr>) s)"
    (is "reg_inv fs fg ?t")
proof -
  have ix: "map_of (idents_of s) i = Some n \<longleftrightarrow>
      (\<exists>k. map_of (nodes_of s) n = Some k \<and> kn_identity k = i)" for i n
    using inv by (simp add: reg_inv_def index_inv_def)
  have "distinct_keys (nodes_of ?t)"
    using inv by (simp add: reg_inv_def index_inv_def upd_nodes_def del: map_map)
  then have "index_inv ?t"
    using inv ix by (auto simp: reg_inv_def index_inv_def upd_nodes_def map_of_map_snd f)
  moreover have "session_permit_inv fs ?t"
    using inv by (simp add: reg_inv_def session_permit_inv_def upd_nodes_def)
  moreover have "global_permit_inv fg ?t"
    using inv by (auto simp: reg_inv_def global_permit_inv_def upd_nodes_def map_of_map_snd f)
  ultimately show ?thesis by (simp add: reg_inv_def)
qed

lemma reg_inv_drop_list:
  assumes "reg_inv fs fg s" and "distinct (map fst xs)"
    and "\<And>n k. (n, k) \<in> set xs \<Longrightarrow> n \<noteq> ROOT_NODE \<and> map_of (nodes_of s) n = Some k"
  shows "reg_inv fs fg (foldl (\<lambda>s (n, k). registry_remove n (kn_identity k) s) s xs)"
  using assms
proof (induction xs arbitrary: s)
  case (Cons x xs)
  obtain n k where x: "x = (n, k)" by fastforce
  let ?t = "registry_remove n (kn_identity k) s"
  have n: "n \<noteq> ROOT_NODE" "map_of (nodes_of s) n = Some k"
    using Cons.prems(3) [of n k] x by auto
  have t: "nodes_of ?t = AList.delete n (nodes_of s)"
    using n by (simp add: registry_remove_def srv_upds)
  have "m \<noteq> ROOT_NODE \<and> map_of (nodes_of ?t) m = Some l" if "(m, l) \<in> set xs" for m l
    using Cons.prems(2) Cons.prems(3) [of m l] that x t by (auto simp: image_iff)
  with Cons.IH [OF reg_inv_registry_remove [OF Cons.prems(1) n]] Cons.prems(2) x
  show ?case by auto
qed simp

lemma reg_inv_drop_empty:
  assumes "reg_inv fs fg s"
  shows "reg_inv fs fg (drop_empty s)"
  unfolding drop_empty_def
proof (rule reg_inv_drop_list [OF assms])
  show "distinct_keys (filter (\<lambda>(n, k). n \<noteq> ROOT_NODE \<and> kn_paths k = []) (nodes_of s))"
    using assms by (simp add: reg_inv_def index_inv_def)
qed (use assms in \<open>auto simp: reg_inv_def index_inv_def map_of_eq_Some_iff\<close>)

lemma reg_inv_remove_path:
  "reg_inv fs fg s \<Longrightarrow> reg_inv fs fg (remove_registry_path p d s)"
  unfolding remove_registry_path_def by (intro reg_inv_drop_empty reg_inv_map_nodes) simp_all

lemma reg_inv_rename:
  assumes "reg_inv fs fg s"
  shows "reg_inv fs fg (update_registry_after_rename old new mode si di s)"
  unfolding update_registry_after_rename_def Let_def
  using assms by (auto intro!: reg_inv_drop_empty reg_inv_map_nodes split: if_splits)

subsection \<open>Handles, locks and construction\<close>

text \<open>An operation that touches neither the registry nor the working set keeps the invariant.\<close>

lemma reg_inv_frame:
  assumes "reg_inv fs fg s" and "sh_nodes (sh t) = sh_nodes (sh s)" "known_of t = known_of s"
    "se_node_permits (se t) = se_node_permits (se s)" "sh_node_permits (sh t) = sh_node_permits (sh s)"
    "sh_limits (sh t) = sh_limits (sh s)"
  shows "reg_inv fs fg t"
  using assms by (simp add: reg_inv_def index_inv_def session_permit_inv_def global_permit_inv_def)

lemma reg_inv_init:
  assumes "0 < max_known_nodes l" and "0 < max_total_known_nodes l"
  shows "reg_inv 0 0 \<lparr>sh = export_init l w key i, se = session_with_writes (export_init l w key i) u a\<rparr>"
  using assms
  by (auto simp: reg_inv_def index_inv_def session_permit_inv_def global_permit_inv_def
      export_init_def session_with_writes_def)

end
