(* ===== verification/Server_References.thy ===== *)
theory Server_References
  imports Server_Registry_Props
begin

text \<open>
  Reference counting. \<open>ref_inv others s\<close>: a registered node's \<^verbatim>\<open>session_references\<close> is the
  number of sessions whose working set holds it, \<open>others\<close> counting the sessions other than the one
  the operation runs on. It holds as long as no registered path is dropped; then releasing a node
  never finds a reference count of zero.
\<close>

definition knows :: "srv \<Rightarrow> node_id \<Rightarrow> nat" where
  "knows s n = (if contains_key (known_of s) n then 1 else 0)"

definition refs_of :: "srv \<Rightarrow> node_id \<Rightarrow> nat" where
  "refs_of s n = (case map_of (nodes_of s) n of None \<Rightarrow> 0 | Some k \<Rightarrow> kn_session_references k)"

definition ref_inv :: "(node_id \<Rightarrow> nat) \<Rightarrow> srv \<Rightarrow> bool" where
  "ref_inv others s \<longleftrightarrow> (\<forall>n. n \<noteq> ROOT_NODE \<longrightarrow> refs_of s n = others n + knows s n)"

lemma knows_frame [simp]:
  "knows (upd_nodes f s) n = knows s n"
  "knows (upd_session_permits g s) n = knows s n"
  "knows (upd_global_permits g s) n = knows s n"
  by (simp_all add: knows_def srv_upds)

lemma knows_remove [simp]: "knows (known_remove m s) n = (if n = m then 0 else knows s n)"
  by (simp add: knows_def contains_key_def)

lemma knows_insert [simp]: "knows (upd_known (AList.update m b) s) n = (if n = m then 1 else knows s n)"
  by (simp add: knows_def contains_key_def upd_known_def)

lemma nodes_of_frame [simp]:
  "nodes_of (upd_session_permits g s) = nodes_of s"
  "nodes_of (upd_global_permits g s) = nodes_of s"
  "nodes_of (upd_known h s) = nodes_of s"
  "nodes_of (known_remove n s) = nodes_of s"
  "sh_nodes (sh (upd_nodes f s)) = f (sh_nodes (sh s))"
  by (simp_all add: srv_upds known_remove_def split: option.split)

lemma refs_of_frame [simp]:
  "refs_of (upd_session_permits g s) n = refs_of s n"
  "refs_of (upd_global_permits g s) n = refs_of s n"
  "refs_of (upd_known h s) n = refs_of s n"
  "refs_of (known_remove m s) n = refs_of s n"
  by (simp_all add: refs_of_def)

lemma refs_of_modify: "refs_of (upd_nodes (modify_node m f) s) n =
    (if n = m then (case map_of (nodes_of s) m of None \<Rightarrow> 0 | Some k \<Rightarrow> kn_session_references (f k))
     else refs_of s n)"
  by (simp add: refs_of_def split: option.split)

lemma refs_of_registry_remove [simp]:
  "refs_of (registry_remove m i s) n = (if n = m then 0 else refs_of s n)"
  by (simp add: refs_of_def registry_remove_def split: option.split)

lemma knows_registry_remove [simp]: "knows (registry_remove m i s) n = knows s n"
  by (simp add: registry_remove_def split: option.split)

lemma ref_inv_frame [simp]:
  "ref_inv others (upd_session_permits g s) = ref_inv others s"
  "ref_inv others (upd_global_permits g s) = ref_inv others s"
  by (simp_all add: ref_inv_def)

lemma ref_inv_at:
  "ref_inv others s \<Longrightarrow> n \<noteq> ROOT_NODE \<Longrightarrow> refs_of s n = others n + knows s n"
  by (simp add: ref_inv_def)

text \<open>An update of one node that moves its count and the working set together.\<close>

lemma ref_inv_point:
  assumes "ref_inv others s"
    and "\<And>m. m \<noteq> n \<Longrightarrow> refs_of t m = refs_of s m" "\<And>m. m \<noteq> n \<Longrightarrow> knows t m = knows s m"
    and "n \<noteq> ROOT_NODE \<Longrightarrow> refs_of t n = others n + knows t n"
  shows "ref_inv others t"
  using assms unfolding ref_inv_def by metis

lemma ref_inv_paths:
  assumes "ref_inv others s" "\<And>k. kn_session_references (f k) = kn_session_references k"
  shows "ref_inv others (upd_nodes (modify_node n f) s)"
  by (rule ref_inv_point [OF assms(1), of n])
    (use assms(2) ref_inv_at [OF assms(1), of n] in
      \<open>auto simp: refs_of_modify refs_of_def split: option.splits\<close>)

lemma ref_inv_evict_session:
  assumes "ref_inv others s"
  shows "ref_inv others (snd (evict_unreferenced_session_node s))"
proof (cases "session_victim s")
  case None
  with assms show ?thesis by (simp add: evict_unreferenced_session_node_def)
next
  case (Some n)
  then have n: "n \<noteq> ROOT_NODE" "knows s n = 1"
    by (auto simp: knows_def contains_key_iff dest!: session_victim_Some)
  show ?thesis
    using Some n ref_inv_at [OF assms n(1)] unfolding evict_unreferenced_session_node_def
    by (auto intro!: ref_inv_point [OF assms, of n] simp: refs_of_modify refs_of_def
        split: option.splits)
qed

lemma ref_inv_registry_remove:
  assumes "ref_inv others s" and "n \<noteq> ROOT_NODE \<Longrightarrow> others n + knows s n = 0"
  shows "ref_inv others (registry_remove n i s)"
  by (rule ref_inv_point [OF assms(1), of n])
    (use assms(2) in simp_all)

lemma ref_inv_evict_global:
  assumes "ref_inv others s" and "reg_inv fs fg s"
  shows "ref_inv others (snd (evict_unreferenced_global_node s))"
  using global_victim_Some [OF assms(2)] ref_inv_at [OF assms(1)] assms(1)
  by (fastforce simp: refs_of_def evict_unreferenced_global_node_def intro!: ref_inv_registry_remove
      split: option.split)

lemma ref_inv_acquire:
  "ref_inv others s \<Longrightarrow> ref_inv others (snd (acquire_session_permit s))"
proof (induction s rule: acquire_session_permit.induct)
  case (1 s)
  then show ?case
    using ref_inv_evict_session by (simp add: acquire_session_permit.simps [of s])
qed

lemma ref_inv_reserve:
  assumes "ref_inv others s" and "reg_inv fs fg s"
  shows "ref_inv others (snd (reserve_node s))"
proof (cases "acquire_session_permit s")
  case (Pair r t)
  then have t: "ref_inv others t" using ref_inv_acquire [OF assms(1)] by simp
  have "ref_inv others (snd (evict_unreferenced_global_node t))"
    using ref_inv_evict_global [OF t reg_inv_acquire [OF assms(2) Pair]] .
  with Pair t show ?thesis
    by (auto simp: reserve_node_def mbind_def split: sum.split prod.split bool.split)
qed

lemma ref_inv_track_with_permit:
  assumes "ref_inv others s"
  shows "ref_inv others (snd (track_node_with_permit n s))"
proof -
  have "knows s n = 0" if "\<not> contains_key (known_of s) n" using that by (simp add: knows_def)
  then show ?thesis
    using assms ref_inv_at [OF assms, of n] unfolding track_node_with_permit_def
    by (auto intro!: ref_inv_point [OF assms, of n] simp: refs_of_modify refs_of_def
        split: option.splits)
qed

lemma ref_inv_track:
  assumes "ref_inv others s"
  shows "ref_inv others (snd (track_node n s))"
  using ref_inv_acquire [OF assms] ref_inv_track_with_permit [of others _ n] assms
  by (auto simp: track_node_def mbind_def split: sum.split prod.split)

lemma ref_inv_remember_reserved:
  assumes ref: "ref_inv others s" and inv: "reg_inv fs fg s"
  shows "ref_inv others (snd (remember_reserved sha i p s))"
proof (cases "map_of (idents_of s) i")
  case (Some n)
  let ?s1 = "upd_global_permits Suc (upd_nodes (modify_node n (add_path p)) s)"
  have "ref_inv others ?s1" using ref by (simp add: ref_inv_paths add_path_def)
  from ref_inv_track_with_permit [OF this, of n] Some show ?thesis
    by (auto simp: remember_reserved_def mbind_def mput_def mret_def split: sum.split prod.split)
next
  case None
  let ?n = "stable_node_id sha (sh_node_key (sh s)) i"
  have no: "kn_identity k \<noteq> i" if "map_of (nodes_of s) ?n = Some k" for k
    using inv None that unfolding reg_inv_def index_inv_def by (metis option.distinct(1))
  let ?t = "upd_nodes (\<lambda>r. r\<lparr>by_identity := AList.update i ?n (by_identity r),
      by_node := AList.update ?n \<lparr>kn_identity = i, kn_paths = [p], kn_session_references = 0,
        kn_global_permit = True\<rparr> (by_node r)\<rparr>) s"
  show ?thesis
  proof (cases "?n = ROOT_NODE \<or> map_of (nodes_of s) ?n \<noteq> None")
    case True
    then show ?thesis
      using None ref no by (auto simp: remember_reserved_def Let_def split: option.splits)
  next
    case False
    then have n: "?n \<noteq> ROOT_NODE" "map_of (nodes_of s) ?n = None" by auto
    have "ref_inv others ?t"
      by (rule ref_inv_point [OF ref, of ?n])
        (use n ref_inv_at [OF ref n(1)] in \<open>simp_all add: refs_of_def\<close>)
    from ref_inv_track_with_permit [OF this, of ?n] None n show ?thesis
      by (auto simp: remember_reserved_def Let_def mbind_def mput_def mret_def upd_global_permits_def
          split: sum.split prod.split)
  qed
qed

lemma ref_inv_remember:
  assumes ref: "ref_inv others s" and inv: "reg_inv 0 0 s"
  shows "ref_inv others (snd (remember sha i p s))"
proof (cases "map_of (idents_of s) i")
  case (Some n)
  have "ref_inv others (upd_nodes (modify_node n (add_path p)) s)"
    using ref by (simp add: ref_inv_paths add_path_def)
  from ref_inv_track [OF this, of n] Some show ?thesis
    by (auto simp: remember_def mbind_def mput_def mret_def split: sum.split prod.split)
next
  case None
  obtain r t where rt: "reserve_node s = (r, t)" by fastforce
  have t: "ref_inv others t" using ref_inv_reserve [OF ref inv] rt by simp
  from reg_inv_reserve [OF inv rt] None rt t ref_inv_remember_reserved [OF t] show ?thesis
    by (auto simp: remember_def mbind_def split: sum.split)
qed

subsection \<open>Releasing\<close>

lemma release_counts:
  assumes "n \<noteq> ROOT_NODE" and "0 < refs_of s n"
  shows "\<exists>t. release_node_reference n s = (Inr (), t) \<and> known_of t = known_of s \<and>
    (\<forall>m. refs_of t m = (if m = n then refs_of s n - 1 else refs_of s m))"
  using assms
  by (auto simp: release_node_reference_def refs_of_modify refs_of_def split: option.splits)

lemma release_all_counts:
  assumes "distinct ns" and "ROOT_NODE \<notin> set ns" and "\<And>n. n \<in> set ns \<Longrightarrow> 0 < refs_of s n"
  shows "\<exists>t. mfor ns release_node_reference s = (Inr (), t) \<and> known_of t = known_of s \<and>
    (\<forall>m. refs_of t m = (if m \<in> set ns then refs_of s m - 1 else refs_of s m))"
  using assms
proof (induction ns arbitrary: s)
  case (Cons n ns)
  obtain u where u: "release_node_reference n s = (Inr (), u)" "known_of u = known_of s"
    "\<And>m. refs_of u m = (if m = n then refs_of s n - 1 else refs_of s m)"
    using release_counts [of n s] Cons.prems by auto
  have "0 < refs_of u m" if "m \<in> set ns" for m
    using that Cons.prems u(3) [of m] by auto
  with Cons.IH [of u] Cons.prems obtain t where
    "mfor ns release_node_reference u = (Inr (), t)" "known_of t = known_of u"
    "\<And>m. refs_of t m = (if m \<in> set ns then refs_of u m - 1 else refs_of u m)" by auto
  with u Cons.prems show ?case by (auto simp: mbind_def)
qed (simp add: mret_def)

lemma foldl_known_remove:
  "refs_of (foldl (\<lambda>s n. known_remove n s) s ns) m = refs_of s m"
  "map_of (known_of (foldl (\<lambda>s n. known_remove n s) s ns)) m =
     (if m \<in> set ns then None else map_of (known_of s) m)"
  by (induction ns arbitrary: s) auto

lemma forget_nodes_counts:
  assumes ref: "ref_inv others s" and len: "length ns \<le> MAX_FORGET_NODES"
  shows "\<exists>t. forget_nodes ns s = (Inr (), t) \<and> ref_inv others t \<and>
    (\<forall>m. contains_key (known_of t) m \<longleftrightarrow>
       contains_key (known_of s) m \<and> (m = ROOT_NODE \<or> m \<notin> set ns)) \<and>
    (\<forall>m. refs_of t m = (if m \<in> set ns \<and> m \<noteq> ROOT_NODE \<and> contains_key (known_of s) m
                        then refs_of s m - 1 else refs_of s m))"
proof -
  let ?xs = "filter (\<lambda>n. n \<noteq> ROOT_NODE \<and> contains_key (known_of s) n) (remdups ns)"
  let ?u = "foldl (\<lambda>s n. known_remove n s) s ?xs"
  have pos: "0 < refs_of ?u n" if "n \<in> set ?xs" for n
    using that ref_inv_at [OF ref, of n] by (simp add: foldl_known_remove knows_def)
  obtain t where t: "mfor ?xs release_node_reference ?u = (Inr (), t)" "known_of t = known_of ?u"
    "\<And>m. refs_of t m = (if m \<in> set ?xs then refs_of ?u m - 1 else refs_of ?u m)"
    using release_all_counts [of ?xs ?u] pos by fastforce
  have "forget_nodes ns s = (Inr (), t)"
    using len t(1) by (simp add: forget_nodes_def Let_def)
  moreover have known: "contains_key (known_of t) m \<longleftrightarrow>
      contains_key (known_of s) m \<and> (m = ROOT_NODE \<or> m \<notin> set ns)" for m
    using t(2) by (auto simp: contains_key_def foldl_known_remove)
  moreover have refs: "refs_of t m = (if m \<in> set ns \<and> m \<noteq> ROOT_NODE \<and> contains_key (known_of s) m
      then refs_of s m - 1 else refs_of s m)" for m
    using t(3) [of m] by (auto simp: foldl_known_remove)
  moreover have "ref_inv others t"
    using ref known refs by (auto simp: ref_inv_def knows_def)
  ultimately show ?thesis by blast
qed

end
