(* ===== verification/Server_Sessions.thy ===== *)
theory Server_Sessions
  imports Server_References
begin

text \<open>
  Many connections on one export. A step of the export runs one operation of one session, or opens
  or drops a session; each modelled operation is one step, in any order. The invariants of the
  registry and of the lock table hold in every reachable state, and, as long as no step drops a
  registered path, a node's reference count is the number of sessions that know it.
\<close>

datatype session_op =
    Remember file_identity path
  | Track node_id
  | Forget "node_id list"
  | RemovePath path bool
  | RenamePath path path rename_mode file_identity "file_identity option"
  | OpenHandle "uuid list" open_file
  | SetLock file_handle file_lock bool
  | ResumeLock file_identity file_lock
  | FlushLocks file_handle "u64 option"
  | CloseHandle file_handle
  | CleanupLocks
  | SetWriteAuthorized bool

primrec run_op :: "(bytes \<Rightarrow> bytes) \<Rightarrow> session_op \<Rightarrow> srv \<Rightarrow> srv" where
  "run_op sha (Remember i p) s = snd (remember sha i p s)"
| "run_op sha (Track n) s = snd (track_node n s)"
| "run_op sha (Forget ns) s = snd (forget_nodes ns s)"
| "run_op sha (RemovePath p d) s = remove_registry_path p d s"
| "run_op sha (RenamePath old new mode si di) s = update_registry_after_rename old new mode si di s"
| "run_op sha (OpenHandle draws f) s = insert_with_permit draws f s"
| "run_op sha (SetLock h q wait) s = snd (set_lock h q wait s)"
| "run_op sha (ResumeLock i q) s = snd (resume_lock i q s)"
| "run_op sha (FlushLocks h o') s = snd (flush_locks h o' s)"
| "run_op sha (CloseHandle h) s = snd (close_handle h s)"
| "run_op sha CleanupLocks s = cleanup_locks s"
| "run_op sha (SetWriteAuthorized a) s = set_write_authorized a s"

text \<open>Operations that may drop the last known path of a registered node.\<close>

primrec drops_paths :: "session_op \<Rightarrow> bool" where
  "drops_paths (Remember i p) = False"
| "drops_paths (Track n) = False"
| "drops_paths (Forget ns) = False"
| "drops_paths (RemovePath p d) = True"
| "drops_paths (RenamePath old new mode si di) = True"
| "drops_paths (OpenHandle draws f) = False"
| "drops_paths (SetLock h q wait) = False"
| "drops_paths (ResumeLock i q) = False"
| "drops_paths (FlushLocks h o') = False"
| "drops_paths (CloseHandle h) = False"
| "drops_paths CleanupLocks = False"
| "drops_paths (SetWriteAuthorized a) = False"

text \<open>
  The byte offsets of a lock request are \<^verbatim>\<open>u64\<close>s; a request that waits was validated before.
\<close>

primrec op_typed :: "session_op \<Rightarrow> bool" where
  "op_typed (Remember i p) = True"
| "op_typed (Track n) = True"
| "op_typed (Forget ns) = True"
| "op_typed (RemovePath p d) = True"
| "op_typed (RenamePath old new mode si di) = True"
| "op_typed (OpenHandle draws f) = True"
| "op_typed (SetLock h q wait) = (lk_end q \<le> U64_MAX)"
| "op_typed (ResumeLock i q) = (lk_start q \<le> lk_end q \<and> lk_end q \<le> U64_MAX)"
| "op_typed (FlushLocks h o') = True"
| "op_typed (CloseHandle h) = True"
| "op_typed CleanupLocks = True"
| "op_typed (SetWriteAuthorized a) = True"

record world =
  wd_shared :: export_shared
  wd_sessions :: "(uuid \<times> export_session) list"

definition at_session :: "world \<Rightarrow> export_session \<Rightarrow> srv" where
  "at_session w e = \<lparr>sh = wd_shared w, se = e\<rparr>"

definition store_session :: "world \<Rightarrow> uuid \<Rightarrow> srv \<Rightarrow> world" where
  "store_session w u s = \<lparr>wd_shared = sh s, wd_sessions = AList.update u (se s) (wd_sessions w)\<rparr>"

inductive step :: "(bytes \<Rightarrow> bytes) \<Rightarrow> (session_op \<Rightarrow> bool) \<Rightarrow> world \<Rightarrow> world \<Rightarrow> bool"
  for sha :: "bytes \<Rightarrow> bytes" and allowed :: "session_op \<Rightarrow> bool" where
  connect: "map_of (wd_sessions w) u = None \<Longrightarrow>
     step sha allowed w (w\<lparr>wd_sessions := (u, session_with_writes (wd_shared w) u a) # wd_sessions w\<rparr>)"
| run: "map_of (wd_sessions w) u = Some e \<Longrightarrow> allowed op \<Longrightarrow> op_typed op \<Longrightarrow>
     step sha allowed w (store_session w u (run_op sha op (at_session w e)))"
| disconnect: "map_of (wd_sessions w) u = Some e \<Longrightarrow>
     step sha allowed w \<lparr>wd_shared = sh (drop_session (at_session w e)),
       wd_sessions = AList.delete u (wd_sessions w)\<rparr>"

inductive_cases stepE: "step sha allowed w w'"

inductive reachable ::
  "(bytes \<Rightarrow> bytes) \<Rightarrow> (session_op \<Rightarrow> bool) \<Rightarrow> world \<Rightarrow> world \<Rightarrow> bool"
  for sha :: "bytes \<Rightarrow> bytes" and allowed :: "session_op \<Rightarrow> bool" and w0 :: world where
  start: "reachable sha allowed w0 w0"
| more: "reachable sha allowed w0 w \<Longrightarrow> step sha allowed w w' \<Longrightarrow> reachable sha allowed w0 w'"

definition fresh_world :: "limits \<Rightarrow> bool \<Rightarrow> bytes \<Rightarrow> file_identity \<Rightarrow> world" where
  "fresh_world l writable key root =
     \<lparr>wd_shared = export_init l writable key root, wd_sessions = []\<rparr>"

subsection \<open>Invariants of the shared export\<close>

definition locks_inv :: "srv \<Rightarrow> bool" where
  "locks_inv s \<longleftrightarrow> wf_table (sh_locks (sh s)) \<and> exclusive_view (held (sh_locks (sh s)))"

text \<open>Registry operations leave limits, session id, locks and handles alone.\<close>

definition registry_frame :: "srv \<Rightarrow> srv \<Rightarrow> bool" where
  "registry_frame s t \<longleftrightarrow> sh_limits (sh t) = sh_limits (sh s) \<and> se_id (se t) = se_id (se s)
     \<and> sh_locks (sh t) = sh_locks (sh s) \<and> se_handles (se t) = se_handles (se s)
     \<and> sh_handle_permits (sh t) = sh_handle_permits (sh s)"

lemma registry_frame_trans: "registry_frame s t \<Longrightarrow> registry_frame t u \<Longrightarrow> registry_frame s u"
  by (simp add: registry_frame_def)

lemma registry_frame_upd [simp]:
  "registry_frame s (upd_nodes f t) = registry_frame s t"
  "registry_frame s (upd_known g t) = registry_frame s t"
  "registry_frame s (upd_session_permits k t) = registry_frame s t"
  "registry_frame s (upd_global_permits k t) = registry_frame s t"
  "registry_frame s s"
  by (simp_all add: registry_frame_def srv_upds)

lemma registry_frame_parts [simp]:
  "registry_frame s (known_remove n t) = registry_frame s t"
  "registry_frame s (registry_remove n i t) = registry_frame s t"
  by (simp_all add: known_remove_def registry_remove_def split: option.split)

lemma registry_frame_ops [simp]:
  "registry_frame s (snd (evict_unreferenced_session_node t)) = registry_frame s t"
  "registry_frame s (snd (evict_unreferenced_global_node t)) = registry_frame s t"
  "registry_frame s (snd (track_node_with_permit n t)) = registry_frame s t"
  "registry_frame s (snd (release_node_reference n t)) = registry_frame s t"
  by (simp_all add: evict_unreferenced_session_node_def evict_unreferenced_global_node_def
      track_node_with_permit_def release_node_reference_def split: option.split prod.split)

lemma registry_frame_acquire [simp]:
  "registry_frame s (snd (acquire_session_permit t)) = registry_frame s t"
  by (induction t rule: acquire_session_permit.induct)
    (simp add: acquire_session_permit.simps)

lemma registry_frame_preserves:
  "preserves (registry_frame s) m \<Longrightarrow> registry_frame s (snd (m s))"
  by (simp add: preserves_def)

lemma registry_frame_reserve: "preserves (registry_frame s) reserve_node"
  unfolding reserve_node_def
  by (intro preserves_mbind preservesI)
    (auto split: prod.splits bool.splits dest!: arg_cong [where f = snd])

lemma registry_frame_remember_reserved: "preserves (registry_frame s) (remember_reserved sha i p)"
  by (rule preservesI)
    (auto simp: remember_reserved_def Let_def monad_simps split: option.split sum.split prod.split
      dest!: arg_cong [where f = snd])

lemma registry_frame_track: "preserves (registry_frame s) (track_node n)"
proof -
  have "preserves (registry_frame s) (mbind acquire_session_permit (\<lambda>_. track_node_with_permit n))"
    by (intro preserves_mbind preservesI) simp_all
  then show ?thesis by (simp add: preserves_def track_node_def)
qed

lemma registry_frame_remember: "preserves (registry_frame s) (remember sha i p)"
proof (rule preservesI)
  fix t assume "registry_frame s t"
  moreover have "preserves (registry_frame s)
      (mbind (mput (upd_nodes f)) (\<lambda>_. mbind (track_node n) (\<lambda>_. mret n)))" for f n
    by (intro preserves_mbind preserves_mput preserves_mret registry_frame_track) simp
  moreover have "preserves (registry_frame s) (mbind reserve_node (\<lambda>_. remember_reserved sha i p))"
    by (intro preserves_mbind registry_frame_reserve registry_frame_remember_reserved)
  ultimately show "registry_frame s (snd (remember sha i p t))"
    by (simp add: remember_def preserves_def split: option.split)
qed

lemma registry_frame_foldl:
  assumes "\<And>t x. registry_frame s t \<Longrightarrow> registry_frame s (f t x)" and "registry_frame s t"
  shows "registry_frame s (foldl f t xs)"
  using assms(2) by (induction xs arbitrary: t) (simp_all add: assms(1))

lemma registry_frame_forget: "preserves (registry_frame s) (forget_nodes ns)"
proof (rule preservesI)
  fix t assume t: "registry_frame s t"
  have m: "preserves (registry_frame s) (mfor xs release_node_reference)" for xs
    by (intro preserves_mfor preservesI) simp
  have "registry_frame s (foldl (\<lambda>s n. known_remove n s) t xs)" for xs
    using t by (rule registry_frame_foldl [rotated]) simp
  then show "registry_frame s (snd (forget_nodes ns t))"
    using t by (simp add: forget_nodes_def Let_def preservesD [OF m])
qed

lemma registry_frame_drop_empty [simp]: "registry_frame s (drop_empty t) = registry_frame s t"
proof -
  have "registry_frame s (foldl (\<lambda>s (n, k). registry_remove n (kn_identity k) s) t xs)
      = registry_frame s t" for xs
    by (induction xs arbitrary: t) (simp_all add: case_prod_beta)
  then show ?thesis by (simp add: drop_empty_def)
qed

lemma registry_frame_paths [simp]:
  "registry_frame s (remove_registry_path p d t) = registry_frame s t"
  "registry_frame s (update_registry_after_rename old new mode si di t) = registry_frame s t"
  by (simp_all add: remove_registry_path_def update_registry_after_rename_def Let_def)

text \<open>Handle and lock operations leave the registry and the working set alone.\<close>

definition lock_frame :: "srv \<Rightarrow> srv \<Rightarrow> bool" where
  "lock_frame s t \<longleftrightarrow> sh_nodes (sh t) = sh_nodes (sh s) \<and> known_of t = known_of s
     \<and> se_node_permits (se t) = se_node_permits (se s)
     \<and> sh_node_permits (sh t) = sh_node_permits (sh s)
     \<and> sh_limits (sh t) = sh_limits (sh s) \<and> se_id (se t) = se_id (se s)"

lemma lock_frame_refl [simp]: "lock_frame s s" "lock_frame s (upd_locks f s)"
  by (simp_all add: lock_frame_def srv_upds)

lemma lock_frame_set_lock: "lock_frame s (snd (set_lock h q wait s))"
  by (auto simp: set_lock_def monad_simps validate_lock_def require_writable_def open_handle_def
      split: sum.split prod.split attempt.split if_splits)

lemma lock_frame_ops:
  "lock_frame s (snd (resume_lock i q s))"
  "lock_frame s (snd (flush_locks h o' s))"
  "lock_frame s (snd (close_handle h s))"
  "lock_frame s (cleanup_locks s)"
  "lock_frame s (set_write_authorized a s)"
  "lock_frame s (insert_with_permit draws f s)"
  by (auto simp: insert_with_permit_def acquire_handle_permit_def upd_handle_permits_def resume_lock_def flush_locks_def close_handle_def cleanup_locks_def monad_simps
      open_handle_def set_write_authorized_def insert_handle_def lock_frame_def srv_upds
      split: sum.split prod.split attempt.split option.split)

lemma lock_frame_reg_inv: "lock_frame s t \<Longrightarrow> reg_inv fs fg s \<Longrightarrow> reg_inv fs fg t"
  by (rule reg_inv_frame) (simp_all add: lock_frame_def)

lemma lock_frame_ref_inv: "lock_frame s t \<Longrightarrow> ref_inv others t = ref_inv others s"
  by (simp add: lock_frame_def ref_inv_def refs_of_def knows_def)

lemmas registry_frames = registry_frame_preserves [OF registry_frame_track]
  registry_frame_preserves [OF registry_frame_remember]
  registry_frame_preserves [OF registry_frame_forget]

lemma run_op_frame:
  "sh_limits (sh (run_op sha op s)) = sh_limits (sh s) \<and> se_id (se (run_op sha op s)) = se_id (se s)"
proof -
  have "registry_frame s (run_op sha op s) \<or> lock_frame s (run_op sha op s)"
    by (cases op) (simp_all add: registry_frames lock_frame_ops lock_frame_set_lock)
  then show ?thesis by (auto simp: registry_frame_def lock_frame_def)
qed

lemma run_op_reg_inv:
  assumes "reg_inv 0 0 s"
  shows "reg_inv 0 0 (run_op sha op s)"
  using assms
  by (cases op) (simp_all add: reg_inv_remember reg_inv_track reg_inv_forget reg_inv_remove_path
      reg_inv_rename lock_frame_reg_inv [OF lock_frame_set_lock]
      lock_frame_reg_inv [OF lock_frame_ops(1)] lock_frame_reg_inv [OF lock_frame_ops(2)]
      lock_frame_reg_inv [OF lock_frame_ops(3)] lock_frame_reg_inv [OF lock_frame_ops(4)]
      lock_frame_reg_inv [OF lock_frame_ops(5)] lock_frame_reg_inv [OF lock_frame_ops(6)])

lemma ref_inv_forget:
  assumes "ref_inv others s"
  shows "ref_inv others (snd (forget_nodes ns s))"
proof (cases "length ns \<le> MAX_FORGET_NODES")
  case True
  from forget_nodes_counts [OF assms this] show ?thesis by force
next
  case False
  with assms show ?thesis by (simp add: forget_nodes_def)
qed

lemma run_op_ref_inv:
  assumes "ref_inv others s" and "reg_inv 0 0 s" and "\<not> drops_paths op"
  shows "ref_inv others (run_op sha op s)"
  using assms
  by (cases op) (simp_all add: ref_inv_remember ref_inv_track ref_inv_forget
      lock_frame_ref_inv [OF lock_frame_set_lock]
      lock_frame_ref_inv [OF lock_frame_ops(1)] lock_frame_ref_inv [OF lock_frame_ops(2)]
      lock_frame_ref_inv [OF lock_frame_ops(3)] lock_frame_ref_inv [OF lock_frame_ops(4)]
      lock_frame_ref_inv [OF lock_frame_ops(5)] lock_frame_ref_inv [OF lock_frame_ops(6)])

subsection \<open>Locks\<close>

lemma locks_inv_frame: "registry_frame s t \<Longrightarrow> locks_inv s \<Longrightarrow> locks_inv t"
  by (simp add: registry_frame_def locks_inv_def)

lemma held_filter_subset: "held (filter P locks) i s o' b \<subseteq> held locks i s o' b"
  by (auto simp: held_def)

lemma exclusive_view_mono:
  assumes "exclusive_view h" and "\<And>i s o' b. h' i s o' b \<subseteq> h i s o' b"
  shows "exclusive_view h'"
proof (rule exclusive_viewI)
  show "m = m'" if "m \<in> h' i s o' b" "m' \<in> h' i s o' b" for m i s o' b m'
    using that assms(2) [of i s o' b] exclusive_viewD(1) [OF assms(1)] by (meson subsetD)
  show "k \<noteq> WriteLock" if "(k, p) \<in> h' i s o' b" "(k', p') \<in> h' i s' o'' b" "(s, o') \<noteq> (s', o'')"
    for k p i s o' b k' p' s' o''
    using exclusive_viewD(2) [OF assms(1) subsetD [OF assms(2) that(1)] subsetD [OF assms(2) that(2)]]
      that(3) by blast
qed

lemma locks_inv_remove:
  assumes "locks_inv s"
  shows "locks_inv (upd_locks (remove_locks P) s)"
proof -
  have "length (filter Q (sh_locks (sh s))) \<le> MAX_LOCK_RECORDS" for Q
    using assms by (meson le_trans length_filter_le locks_inv_def wf_table_def)
  then show ?thesis
    using assms exclusive_view_mono [of "held (sh_locks (sh s))", OF _ held_filter_subset]
    by (auto simp: locks_inv_def upd_locks_def remove_locks_def wf_table_def)
qed

lemma attempt_as_assign:
  assumes "set_lock_attempt locks i s q wait = Granted next"
  shows "assign_range locks i s q = Inr next" and
    "lk_kind q = Unlock \<or> \<not> first_conflict locks i s q \<noteq> None"
  using assms by (auto simp: set_lock_attempt_def assign_range_def split: if_splits sum.splits)

lemma attempt_locks_inv:
  assumes "locks_inv s" and "valid_request q"
    and "set_lock_attempt (sh_locks (sh s)) i u q wait = Granted next"
  shows "locks_inv (upd_locks (\<lambda>_. next) s)"
  using assms(1) lt.assign_wf [OF _ assms(2) attempt_as_assign(1) [OF assms(3)]]
    lt.guarded_assign_exclusive [OF _ assms(2) _ attempt_as_assign(2,1) [OF assms(3)]]
  by (simp add: locks_inv_def upd_locks_def)

lemma validated_request:
  "validate_lock q True = Inr () \<Longrightarrow> lk_end q \<le> U64_MAX \<Longrightarrow> valid_request q"
  by (auto simp: validate_lock_def valid_request_def split: if_splits)

lemma locks_inv_set_lock:
  assumes "locks_inv s" and "lk_end q \<le> U64_MAX"
  shows "locks_inv (snd (set_lock h q wait s))"
  using assms validated_request [of q] attempt_locks_inv [OF assms(1), of q]
  by (auto simp: set_lock_def monad_simps require_writable_def open_handle_def
      split: sum.split prod.split attempt.split if_splits)

lemma locks_inv_locks: "sh_locks (sh t) = sh_locks (sh s) \<Longrightarrow> locks_inv t = locks_inv s"
  by (simp add: locks_inv_def)

lemma locks_inv_ops:
  assumes "locks_inv s"
  shows "lk_start q \<le> lk_end q \<Longrightarrow> lk_end q \<le> U64_MAX \<Longrightarrow> locks_inv (snd (resume_lock i q s))"
    "locks_inv (snd (flush_locks h o' s))"
    "locks_inv (snd (close_handle h s))"
    "locks_inv (cleanup_locks s)"
    "locks_inv (set_write_authorized a s)"
    "locks_inv (insert_with_permit draws f s)"
proof -
  show "locks_inv (snd (resume_lock i q s))" if "lk_start q \<le> lk_end q" "lk_end q \<le> U64_MAX"
    using that assms attempt_locks_inv [OF assms, of q i "se_id (se s)" True]
    by (auto simp: resume_lock_def valid_request_def split: attempt.split)
  have 1: "locks_inv (upd_locks (remove_locks P) (s\<lparr>se := e, sh := (sh s)\<lparr>sh_handle_permits := c\<rparr>\<rparr>))"
    for P e c by (rule locks_inv_remove) (use assms in \<open>simp add: locks_inv_def\<close>)
  show "locks_inv (snd (flush_locks h o' s))" "locks_inv (snd (close_handle h s))"
    "locks_inv (cleanup_locks s)"
    using assms 1 by (auto simp: flush_locks_def close_handle_def cleanup_locks_def monad_simps
        open_handle_def locks_inv_remove split: sum.split prod.split option.split)
qed (use assms in \<open>auto simp: set_write_authorized_def insert_with_permit_def acquire_handle_permit_def
      upd_handle_permits_def insert_handle_def locks_inv_def split: option.split\<close>)

lemma run_op_locks_inv:
  assumes "locks_inv s" and "op_typed op"
  shows "locks_inv (run_op sha op s)"
proof -
  note fr = locks_inv_frame [OF _ assms(1)]
  show ?thesis
    using assms by (cases op) (simp_all add: locks_inv_ops locks_inv_set_lock fr registry_frames)
qed

subsection \<open>Handle permits\<close>

text \<open>What an operation takes of the handle permits is what it adds to the handle table.\<close>

definition handle_frame :: "srv \<Rightarrow> srv \<Rightarrow> bool" where
  "handle_frame s t \<longleftrightarrow> distinct_keys (se_handles (se t)) \<and>
     sh_handle_permits (sh t) + length (se_handles (se t)) = sh_handle_permits (sh s) + length (se_handles (se s))"

lemma handle_frame_locks:
  "se_handles (se (snd (set_lock h q wait s))) = se_handles (se s) \<and>
   sh_handle_permits (sh (snd (set_lock h q wait s))) = sh_handle_permits (sh s)"
  by (auto simp: set_lock_def monad_simps validate_lock_def require_writable_def open_handle_def upd_locks_def
      split: sum.split prod.split attempt.split if_splits)

lemma handle_frame_open:
  assumes "distinct_keys (se_handles (se s))"
  shows "handle_frame s (insert_with_permit draws f s)"
proof -
  have "length (AList.update h f (se_handles (se s))) = Suc (length (se_handles (se s)))"
    if "\<not> contains_key (se_handles (se s)) h" for h
    using that by (simp add: length_update contains_key_iff)
  then show ?thesis
    using assms
    by (auto simp: handle_frame_def insert_with_permit_def acquire_handle_permit_def upd_handle_permits_def insert_handle_def
        find_Some_iff split: option.split)
qed

lemma handle_frame_close:
  assumes "distinct_keys (se_handles (se s))"
  shows "handle_frame s (snd (close_handle h s))"
proof (cases "map_of (se_handles (se s)) h")
  case (Some f)
  then have "Suc (length (AList.delete h (se_handles (se s)))) = length (se_handles (se s))"
    by (intro length_delete [OF assms]) (force dest: map_of_SomeD)
  with Some assms show ?thesis
    by (simp add: handle_frame_def close_handle_def open_handle_def monad_simps ok_or_def upd_locks_def)
qed (use assms in \<open>simp add: handle_frame_def close_handle_def open_handle_def monad_simps ok_or_def\<close>)

lemma run_op_handles:
  assumes "distinct_keys (se_handles (se s))"
  shows "handle_frame s (run_op sha op s)"
proof -
  have frame: "handle_frame s t" if "registry_frame s t" for t
    using that assms by (simp add: handle_frame_def registry_frame_def)
  have same: "handle_frame s t" if "se_handles (se t) = se_handles (se s)" "sh_handle_permits (sh t) = sh_handle_permits (sh s)" for t
    using that assms by (simp add: handle_frame_def)
  have rest: "handle_frame s (snd (resume_lock i q s))" "handle_frame s (snd (flush_locks h o' s))"
    "handle_frame s (cleanup_locks s)" "handle_frame s (set_write_authorized a s)" for i q h o' a
    by (rule same; simp add: resume_lock_def flush_locks_def cleanup_locks_def set_write_authorized_def monad_simps open_handle_def
        upd_locks_def split: attempt.split sum.split prod.split option.split)+
  show ?thesis
    using assms handle_frame_locks [of _ _ _ s]
    by (cases op) (simp_all add: frame registry_frames rest same handle_frame_open handle_frame_close)
qed

lemma drop_session_handles: "sh_handle_permits (sh (drop_session s)) = sh_handle_permits (sh s) + length (se_handles (se s))"
proof -
  let ?I = "\<lambda>t. sh_handle_permits (sh t) = sh_handle_permits (sh s) \<and> se_handles (se t) = se_handles (se s)"
  have "preserves ?I (mfor xs (\<lambda>n. mignore (release_node_reference n)))" for xs
    by (intro preserves_mfor preserves_mignore preservesI)
      (simp add: release_node_reference_def upd_nodes_def split: option.split)
  from preservesD [OF this] show ?thesis
    by (simp add: drop_session_def Let_def srv_upds upd_handle_permits_def)
qed

subsection \<open>Reachable states\<close>

definition shared_inv :: "export_shared \<Rightarrow> bool" where
  "shared_inv x \<longleftrightarrow> (\<forall>e. index_inv \<lparr>sh = x, se = e\<rparr> \<and> global_permit_inv 0 \<lparr>sh = x, se = e\<rparr>
     \<and> locks_inv \<lparr>sh = x, se = e\<rparr>)"

definition open_handles :: "(uuid \<times> export_session) list \<Rightarrow> nat" where
  "open_handles ss = sum_list (map (\<lambda>(u, e). length (se_handles e)) ss)"

definition world_inv :: "world \<Rightarrow> bool" where
  "world_inv w \<longleftrightarrow> shared_inv (wd_shared w) \<and> distinct_keys (wd_sessions w) \<and>
     (\<forall>u e. map_of (wd_sessions w) u = Some e \<longrightarrow>
        se_id e = u \<and> session_permit_inv 0 (at_session w e) \<and> distinct_keys (se_handles e)) \<and>
     sh_handle_permits (wd_shared w) + open_handles (wd_sessions w) = max_open_handles (sh_limits (wd_shared w))"

lemma shared_inv_iff:
  "shared_inv (sh s) \<longleftrightarrow> index_inv s \<and> global_permit_inv 0 s \<and> locks_inv s"
  by (simp add: shared_inv_def index_inv_def global_permit_inv_def locks_inv_def)

lemma at_session_simps [simp]: "sh (at_session w e) = wd_shared w" "se (at_session w e) = e"
  by (simp_all add: at_session_def)

lemma session_permit_inv_limits:
  "sh_limits (sh t) = sh_limits (sh s) \<Longrightarrow> se t = se s \<Longrightarrow>
     session_permit_inv fs t = session_permit_inv fs s"
  by (simp add: session_permit_inv_def)

lemma open_handles_delete:
  assumes "distinct_keys ss" and "map_of ss u = Some e"
  shows "open_handles ss = open_handles (AList.delete u ss) + length (se_handles e)"
  using assms
proof (induction ss)
  case (Cons x ss)
  have "open_handles (AList.delete u ss) = open_handles ss" if "u \<notin> fst ` set ss" for ss
    using that by (induction ss) (auto simp: open_handles_def)
  with Cons show ?case by (cases x) (auto simp: open_handles_def)
qed simp

lemma open_handles_update:
  assumes "distinct_keys ss"
  shows "open_handles (AList.update u e ss) = open_handles (AList.delete u ss) + length (se_handles e)"
  using assms open_handles_delete [of "AList.update u e ss" u e] by (simp add: delete_update_same)

lemma world_inv_session:
  assumes "world_inv w" and "map_of (wd_sessions w) u = Some e"
  shows "reg_inv 0 0 (at_session w e)" and "locks_inv (at_session w e)" and "se_id e = u"
  using assms shared_inv_iff [of "at_session w e"] by (auto simp: world_inv_def reg_inv_def)

lemma world_inv_run:
  assumes "world_inv w" and "map_of (wd_sessions w) u = Some e" and "op_typed op"
  shows "world_inv (store_session w u (run_op sha op (at_session w e)))"
proof -
  let ?t = "run_op sha op (at_session w e)"
  note ws = world_inv_session [OF assms(1,2)]
  have reg: "reg_inv 0 0 ?t" and lk: "locks_inv ?t"
    using ws assms(3) run_op_reg_inv run_op_locks_inv by blast+
  then have "shared_inv (sh ?t)" by (simp add: shared_inv_iff reg_inv_def)
  moreover have "se_id (se ?t) = u" "sh_limits (sh ?t) = sh_limits (wd_shared w)"
    using run_op_frame [of sha op "at_session w e"] ws by simp_all
  moreover have "session_permit_inv 0 (at_session (store_session w u ?t) (se ?t))"
    using reg by (simp add: reg_inv_def session_permit_inv_def store_session_def)
  moreover have "session_permit_inv 0 (at_session (store_session w u ?t) d) =
      session_permit_inv 0 (at_session w d)" for d
    by (rule session_permit_inv_limits) (use calculation(3) in \<open>simp_all add: store_session_def\<close>)
  moreover have dk: "distinct_keys (wd_sessions w)" "distinct_keys (se_handles e)"
    using assms(1,2) by (simp_all add: world_inv_def)
  then have hf: "handle_frame (at_session w e) ?t" using run_op_handles [of "at_session w e" sha op] by simp
  moreover have "sh_handle_permits (sh ?t) + open_handles (AList.update u (se ?t) (wd_sessions w)) = max_open_handles (sh_limits (wd_shared w))"
    using hf assms(1) open_handles_delete [OF dk(1) assms(2)]
    by (simp add: handle_frame_def world_inv_def open_handles_update [OF dk(1)])
  ultimately show ?thesis
    using assms(1) by (auto simp: world_inv_def store_session_def handle_frame_def)
qed

lemma world_inv_connect:
  assumes "world_inv w" and "map_of (wd_sessions w) u = None"
    and "0 < max_known_nodes (sh_limits (wd_shared w))"
  shows "world_inv (w\<lparr>wd_sessions := (u, session_with_writes (wd_shared w) u a) # wd_sessions w\<rparr>)"
  using assms by (auto simp: world_inv_def session_permit_inv_def session_with_writes_def
      map_of_eq_None_iff open_handles_def)

lemma drop_session_shared:
  assumes "index_inv s" "global_permit_inv 0 s" "locks_inv s"
  shows "shared_inv (sh (drop_session s))" and
    "sh_limits (sh (drop_session s)) = sh_limits (sh s)"
proof -
  let ?I = "\<lambda>t. index_inv t \<and> global_permit_inv 0 t \<and> locks_inv t \<and> sh_limits (sh t) = sh_limits (sh s)"
  have 1: "?I (upd_nodes (modify_node n (\<lambda>k. k\<lparr>kn_session_references := g k\<rparr>)) t)" if "?I t" for n g t
    using that index_inv_modify global_permit_inv_modify
    by (auto simp: locks_inv_def upd_nodes_def)
  have 2: "preserves ?I (mfor xs (\<lambda>n. mignore (release_node_reference n)))" for xs
    by (intro preserves_mfor preserves_mignore preservesI)
      (use 1 in \<open>simp add: release_node_reference_def split: option.split\<close>)
  have 3: "?I (upd_known f (upd_locks (remove_locks P) s))" for f P
    using assms locks_inv_remove [of s P]
    by (simp add: index_inv_def global_permit_inv_def locks_inv_def srv_upds)
  have 4: "?I (upd_handle_permits f t)" if "?I t" for f t
    using that by (simp add: index_inv_def global_permit_inv_def locks_inv_def upd_handle_permits_def)
  show "shared_inv (sh (drop_session s))"
    "sh_limits (sh (drop_session s)) = sh_limits (sh s)"
    using preservesD [OF 2 3] 4 by (simp_all add: shared_inv_iff drop_session_def Let_def)
qed

lemma world_inv_disconnect:
  assumes "world_inv w" and "map_of (wd_sessions w) u = Some e"
  shows "world_inv \<lparr>wd_shared = sh (drop_session (at_session w e)),
    wd_sessions = AList.delete u (wd_sessions w)\<rparr>" (is "world_inv ?v")
proof -
  note ws = world_inv_session [OF assms]
  note d = drop_session_shared [of "at_session w e"]
  have "shared_inv (wd_shared ?v)" "sh_limits (wd_shared ?v) = sh_limits (wd_shared w)"
    using d ws by (simp_all add: reg_inv_def)
  moreover have "session_permit_inv 0 (at_session ?v d) = session_permit_inv 0 (at_session w d)" for d
    by (rule session_permit_inv_limits) (use calculation(2) in simp_all)
  moreover have "sh_handle_permits (wd_shared ?v) + open_handles (wd_sessions ?v) = max_open_handles (sh_limits (wd_shared w))"
    using assms open_handles_delete [of "wd_sessions w" u e] by (simp add: world_inv_def drop_session_handles)
  ultimately show ?thesis using assms by (simp add: world_inv_def)
qed

text \<open>
  The interface between the step relation and an invariant: an invariant that each kind of step
  keeps holds in every reachable state.
\<close>

locale step_invariant =
  fixes sha :: "bytes \<Rightarrow> bytes" and allowed :: "session_op \<Rightarrow> bool" and inv :: "world \<Rightarrow> bool"
  assumes inv_connect: "inv w \<Longrightarrow> map_of (wd_sessions w) u = None \<Longrightarrow>
      inv (w\<lparr>wd_sessions := (u, session_with_writes (wd_shared w) u a) # wd_sessions w\<rparr>)"
    and inv_run: "inv w \<Longrightarrow> map_of (wd_sessions w) u = Some e \<Longrightarrow> allowed op \<Longrightarrow> op_typed op \<Longrightarrow>
      inv (store_session w u (run_op sha op (at_session w e)))"
    and inv_disconnect: "inv w \<Longrightarrow> map_of (wd_sessions w) u = Some e \<Longrightarrow>
      inv \<lparr>wd_shared = sh (drop_session (at_session w e)), wd_sessions = AList.delete u (wd_sessions w)\<rparr>"
begin

lemma inv_step: "step sha allowed w w' \<Longrightarrow> inv w \<Longrightarrow> inv w'"
  by (erule stepE) (auto intro: inv_connect inv_run inv_disconnect)

lemma inv_reachable: "reachable sha allowed w0 w \<Longrightarrow> inv w0 \<Longrightarrow> inv w"
  by (induction rule: reachable.induct) (auto intro: inv_step)

end

definition live_world :: "world \<Rightarrow> bool" where
  "live_world w \<longleftrightarrow> world_inv w \<and> 0 < max_known_nodes (sh_limits (wd_shared w))"

interpretation wi: step_invariant sha "\<lambda>_. True" live_world for sha
proof unfold_locales
  fix w u e a op
  assume w: "live_world w"
  show "map_of (wd_sessions w) u = None \<Longrightarrow>
      live_world (w\<lparr>wd_sessions := (u, session_with_writes (wd_shared w) u a) # wd_sessions w\<rparr>)"
    using w world_inv_connect [of w u a] by (simp add: live_world_def)
  show "map_of (wd_sessions w) u = Some e \<Longrightarrow> True \<Longrightarrow> op_typed op \<Longrightarrow>
      live_world (store_session w u (run_op sha op (at_session w e)))"
    using w world_inv_run [of w u e op sha] run_op_frame [of sha op "at_session w e"]
    by (simp add: live_world_def store_session_def)
  show "map_of (wd_sessions w) u = Some e \<Longrightarrow>
      live_world \<lparr>wd_shared = sh (drop_session (at_session w e)),
        wd_sessions = AList.delete u (wd_sessions w)\<rparr>"
    using w world_inv_disconnect [of w u e] world_inv_session [of w u e]
      drop_session_shared(2) [of "at_session w e"]
    by (simp add: live_world_def reg_inv_def)
qed

lemma held_Nil_exclusive: "exclusive_view (held [])"
  by (simp add: exclusive_view_def)

lemma live_world_fresh:
  assumes "0 < max_known_nodes l" and "0 < max_total_known_nodes l"
  shows "live_world (fresh_world l wr key i)"
  using assms held_Nil_exclusive
  by (auto simp: live_world_def world_inv_def shared_inv_def fresh_world_def export_init_def
      index_inv_def global_permit_inv_def locks_inv_def wf_table_def open_handles_def)

subsection \<open>Reference counts over all sessions\<close>

definition count_known :: "(uuid \<times> export_session) list \<Rightarrow> node_id \<Rightarrow> nat" where
  "count_known ss n = length (filter (\<lambda>(u, e). contains_key (se_known_nodes e) n) ss)"

definition world_refs :: "world \<Rightarrow> bool" where
  "world_refs w \<longleftrightarrow> (\<forall>e n. n \<noteq> ROOT_NODE \<longrightarrow>
     refs_of (at_session w e) n = count_known (wd_sessions w) n)"

lemma refs_of_shared: "sh s = sh t \<Longrightarrow> refs_of s n = refs_of t n"
  by (simp add: refs_of_def)

lemma count_known_delete:
  assumes "distinct_keys ss" and "map_of ss u = Some e"
  shows "count_known ss n = count_known (AList.delete u ss) n
           + (if contains_key (se_known_nodes e) n then 1 else 0)"
  using assms
proof (induction ss)
  case (Cons x ss)
  have "count_known (AList.delete u ss) n = count_known ss n" if "u \<notin> fst ` set ss" for ss
    using that by (induction ss) (auto simp: count_known_def)
  with Cons show ?case by (cases x) (auto simp: count_known_def)
qed simp

lemma count_known_update:
  assumes "distinct_keys ss"
  shows "count_known (AList.update u e ss) n = count_known (AList.delete u ss) n
           + (if contains_key (se_known_nodes e) n then 1 else 0)"
  using assms count_known_delete [of "AList.update u e ss" u e n]
  by (simp add: delete_update_same)

lemma world_refs_session:
  assumes "distinct_keys (wd_sessions w)" and "map_of (wd_sessions w) u = Some e" and "world_refs w"
  shows "ref_inv (count_known (AList.delete u (wd_sessions w))) (at_session w e)"
  using assms count_known_delete [OF assms(1,2)]
  by (simp add: ref_inv_def world_refs_def knows_def)

lemma world_refs_run:
  assumes "world_inv w" and "map_of (wd_sessions w) u = Some e" and "world_refs w"
    and "\<not> drops_paths op"
  shows "world_refs (store_session w u (run_op sha op (at_session w e)))"
proof -
  let ?t = "run_op sha op (at_session w e)"
  have dk: "distinct_keys (wd_sessions w)" using assms(1) by (simp add: world_inv_def)
  have "ref_inv (count_known (AList.delete u (wd_sessions w))) ?t"
    using run_op_ref_inv [OF world_refs_session [OF dk assms(2,3)] world_inv_session(1) [OF assms(1,2)]
        assms(4)] .
  moreover have "refs_of (at_session (store_session w u ?t) d) n = refs_of ?t n" for d n
    by (rule refs_of_shared) (simp add: store_session_def)
  ultimately show ?thesis
    by (simp add: world_refs_def ref_inv_def store_session_def count_known_update [OF dk] knows_def)
qed

lemma refs_of_upd_locks [simp]: "refs_of (upd_locks f s) n = refs_of s n"
  by (simp add: refs_of_def upd_locks_def)

lemma mfor_ignore:
  "mfor xs f s = (Inr (), t) \<Longrightarrow> mfor xs (\<lambda>x. mignore (f x)) s = (Inr (), t)"
  by (induction xs arbitrary: s) (auto simp: mbind_def mignore_def split: prod.splits sum.splits)

lemma drop_session_refs:
  assumes "ref_inv others s" and "distinct_keys (known_of s)" and "n \<noteq> ROOT_NODE"
  shows "refs_of (drop_session s) n = others n"
proof -
  let ?xs = "filter (\<lambda>n. n \<noteq> ROOT_NODE) (map fst (known_of s))"
  let ?u = "upd_known (\<lambda>_. []) (upd_locks (remove_locks (\<lambda>r. lr_session r = se_id (se s))) s)"
  have u: "refs_of ?u m = refs_of s m" for m by simp
  have pos: "0 < refs_of ?u m" if "m \<in> set ?xs" for m
    using that ref_inv_at [OF assms(1), of m] by (simp add: u knows_def contains_key_iff)
  obtain t where t: "mfor ?xs release_node_reference ?u = (Inr (), t)"
    "\<And>m. refs_of t m = (if m \<in> set ?xs then refs_of ?u m - 1 else refs_of ?u m)"
    using release_all_counts [of ?xs ?u] pos assms(2) by fastforce
  have k: "known_of (upd_locks f s) = known_of s" for f by (simp add: upd_locks_def)
  have "refs_of (drop_session s) n = refs_of t n"
    unfolding drop_session_def Let_def k mfor_ignore [OF t(1)] by (simp add: refs_of_def upd_handle_permits_def)
  with t(2) [of n] u [of n] assms(3) ref_inv_at [OF assms(1,3)] show ?thesis
    by (auto simp: knows_def contains_key_iff image_iff)
qed

definition counted_world :: "world \<Rightarrow> bool" where
  "counted_world w \<longleftrightarrow> live_world w \<and> world_refs w"

interpretation wc: step_invariant sha "\<lambda>op. \<not> drops_paths op" counted_world for sha
proof unfold_locales
  fix w u e a op
  assume w: "counted_world w"
  then have lw: "live_world w" and wi: "world_inv w" and dk: "distinct_keys (wd_sessions w)"
    and wr: "world_refs w" by (simp_all add: counted_world_def live_world_def world_inv_def)
  show "counted_world (w\<lparr>wd_sessions := (u, session_with_writes (wd_shared w) u a) # wd_sessions w\<rparr>)"
    if "map_of (wd_sessions w) u = None"
    using wi.inv_connect [OF lw that, of a] wr
    by (simp add: counted_world_def world_refs_def count_known_def session_with_writes_def
        contains_key_def refs_of_def)
  show "counted_world (store_session w u (run_op sha op (at_session w e)))"
    if "map_of (wd_sessions w) u = Some e" "\<not> drops_paths op" "op_typed op"
    using wi.inv_run [OF lw that(1) TrueI that(3), of sha] world_refs_run [OF wi that(1) wr that(2)]
    by (simp add: counted_world_def)
  show "counted_world \<lparr>wd_shared = sh (drop_session (at_session w e)),
      wd_sessions = AList.delete u (wd_sessions w)\<rparr>" (is "counted_world ?v")
    if m: "map_of (wd_sessions w) u = Some e"
  proof -
    have "distinct_keys (known_of (at_session w e))"
      using world_inv_session(1) [OF wi m] by (simp add: reg_inv_def session_permit_inv_def)
    note dr = drop_session_refs [OF world_refs_session [OF dk m wr] this]
    have "refs_of (at_session ?v d) n = refs_of (drop_session (at_session w e)) n" for d n
      by (rule refs_of_shared) simp
    with dr have "world_refs ?v" by (simp add: world_refs_def)
    with wi.inv_disconnect [OF lw m] show ?thesis by (simp add: counted_world_def)
  qed
qed

lemma counted_world_fresh:
  assumes "0 < max_known_nodes l" and "0 < max_total_known_nodes l"
  shows "counted_world (fresh_world l wr key i)"
  using live_world_fresh [OF assms]
  by (simp add: counted_world_def world_refs_def fresh_world_def export_init_def refs_of_def
      count_known_def)
end
