(* ===== verification/Server_Properties.thy ===== *)
theory Server_Properties
  imports Server_Sessions
begin

text \<open>
  The properties of the server core: what holds in every state that any interleaving of sessions
  reaches, the advisory lock contract, eviction, and node identifiers.
\<close>

subsection \<open>A concrete export for the witnesses\<close>

definition demo_sha :: "bytes \<Rightarrow> bytes" where
  "demo_sha _ = replicate 32 7"

definition demo_world :: world where
  "demo_world = fresh_world default_limits True [] \<lparr>fi_device = 1, fi_inode = 2\<rparr>"

definition demo_ident :: file_identity where
  "demo_ident = \<lparr>fi_device = 1, fi_inode = 9\<rparr>"

definition demo_node :: node_id where
  "demo_node = stable_node_id demo_sha [] demo_ident"

definition demo_connected :: world where
  "demo_connected = demo_world\<lparr>wd_sessions :=
     (5, session_with_writes (wd_shared demo_world) 5 True) # wd_sessions demo_world\<rparr>"

definition demo_session :: export_session where
  "demo_session = session_with_writes (wd_shared demo_world) 5 True"

definition demo_remembered :: world where
  "demo_remembered = store_session demo_connected 5
     (run_op demo_sha (Remember demo_ident [[97]]) (at_session demo_connected demo_session))"

lemma demo_limits: "0 < max_known_nodes default_limits" "0 < max_total_known_nodes default_limits"
  by (simp_all add: default_limits_def)

lemma demo_reachable: "allowed (Remember demo_ident [[97]]) \<Longrightarrow>
    reachable demo_sha allowed demo_world demo_remembered"
proof -
  assume a: "allowed (Remember demo_ident [[97]])"
  have "step demo_sha allowed demo_world demo_connected"
    unfolding demo_connected_def
    by (rule step.connect) (simp add: demo_world_def fresh_world_def)
  moreover have "step demo_sha allowed demo_connected demo_remembered"
    unfolding demo_remembered_def
    by (rule step.run) (simp_all add: a demo_connected_def demo_session_def)
  ultimately show ?thesis by (meson reachable.intros)
qed

subsection \<open>Properties of every reachable state\<close>

text \<open>C1. In every state that any interleaving of any number of sessions reaches, the node registry
  and the working sets are consistent: the two indexes of the registry are inverse to each other,
  every entry but the root holds exactly one global permit, every known node exactly one session
  permit and every open file exactly one handle permit, and free permits plus stored permits add up to
  the configured limits, so permits neither leak nor multiply, whatever operations fail on the way.\<close>

theorem registry_sound_reachable:
  assumes "reachable sha (\<lambda>_. True) (fresh_world l writable key root) w"
    and "0 < max_known_nodes l" and "0 < max_total_known_nodes l"
  shows "world_inv w"
  using wi.inv_reachable [OF assms(1) live_world_fresh [OF assms(2,3)]] by (simp add: live_world_def)

theorem registry_sound_reachable_witness: "world_inv demo_remembered"
  using registry_sound_reachable [OF demo_reachable [of "\<lambda>_. True", unfolded demo_world_def] demo_limits]
  by simp

text \<open>C2. Advisory locks exclude: in every reachable state, if one owner holds a write lock on a
  byte of a file, no other owner (another session, or another lock owner of the same session) holds
  any lock on that byte.\<close>

theorem locks_exclude_reachable:
  assumes "reachable sha (\<lambda>_. True) (fresh_world l writable key root) w"
    and "0 < max_known_nodes l" and "0 < max_total_known_nodes l"
    and "(WriteLock, p) \<in> held (sh_locks (wd_shared w)) i s o' b"
    and "(s', o'') \<noteq> (s, o')"
  shows "held (sh_locks (wd_shared w)) i s' o'' b = {}"
proof -
  have "live_world w" using wi.inv_reachable [OF assms(1) live_world_fresh [OF assms(2,3)]] .
  then have ex: "exclusive_view (held (sh_locks (wd_shared w)))"
    by (simp add: live_world_def world_inv_def shared_inv_def locks_inv_def)
  have "(k, p') \<notin> held (sh_locks (wd_shared w)) i s' o'' b" for k p'
    using exclusive_viewD(2) [OF ex assms(4), of k p' s' o''] assms(5) by auto
  then show ?thesis by auto
qed

definition demo_file :: open_file where
  "demo_file = \<lparr>of_node = demo_node, of_identity = demo_ident, of_access = ReadWrite, of_append = False\<rparr>"

definition demo_lock :: file_lock where
  "demo_lock = \<lparr>lk_owner = 1, lk_start = 0, lk_end = 99, lk_kind = WriteLock, lk_pid = 3\<rparr>"

definition demo_opened :: world where
  "demo_opened = store_session demo_connected 5
     (run_op demo_sha (OpenHandle [11] demo_file) (at_session demo_connected demo_session))"

definition demo_locked :: world where
  "demo_locked = store_session demo_opened 5
     (run_op demo_sha (SetLock 11 demo_lock False)
       (at_session demo_opened (the (map_of (wd_sessions demo_opened) 5))))"

lemma demo_locked_reachable: "reachable demo_sha (\<lambda>_. True) demo_world demo_locked"
proof -
  have "step demo_sha (\<lambda>_. True) demo_world demo_connected"
    unfolding demo_connected_def
    by (rule step.connect) (simp add: demo_world_def fresh_world_def)
  moreover have "step demo_sha (\<lambda>_. True) demo_connected demo_opened"
    unfolding demo_opened_def
    by (rule step.run) (simp_all add: demo_connected_def demo_session_def)
  moreover have "map_of (wd_sessions demo_opened) 5 = Some (the (map_of (wd_sessions demo_opened) 5))"
    by (simp add: demo_opened_def store_session_def)
  then have "step demo_sha (\<lambda>_. True) demo_opened demo_locked"
    unfolding demo_locked_def
    by (rule step.run) (simp_all add: demo_lock_def U64_MAX_def)
  ultimately show ?thesis by (meson reachable.intros)
qed

lemma demo_locked_table: "sh_locks (wd_shared demo_locked) =
    [\<lparr>lr_identity = demo_ident, lr_session = 5, lr_lock = demo_lock\<rparr>]"
  by code_simp

theorem locks_exclude_reachable_witness:
  "held (sh_locks (wd_shared demo_locked)) demo_ident 6 1 42 = {}"
  by (rule locks_exclude_reachable [OF demo_locked_reachable [unfolded demo_world_def] demo_limits,
        of 3 _ 5 1])
    (simp_all add: demo_locked_table held_Cons covers_def mode_of_def demo_lock_def)

text \<open>As long as no step drops a registered path, a node's reference count is the number of
  sessions that know it, in every reachable state; so forgetting up to \<^verbatim>\<open>MAX_FORGET_NODES\<close> nodes
  always succeeds, whatever nodes the client names, and afterwards the session knows none of the
  named nodes (the root apart).\<close>

lemma forget_succeeds_reachable:
  assumes "reachable sha (\<lambda>op. \<not> drops_paths op) (fresh_world l writable key root) w"
    and "0 < max_known_nodes l" and "0 < max_total_known_nodes l"
    and "map_of (wd_sessions w) u = Some e" and "length ns \<le> MAX_FORGET_NODES"
  shows "(\<forall>n. n \<noteq> ROOT_NODE \<longrightarrow> refs_of (at_session w e) n = count_known (wd_sessions w) n) \<and>
    (\<exists>t. forget_nodes ns (at_session w e) = (Inr (), t) \<and>
       (\<forall>m. contains_key (known_of t) m \<longleftrightarrow>
          contains_key (se_known_nodes e) m \<and> (m = ROOT_NODE \<or> m \<notin> set ns)))"
proof -
  have cw: "counted_world w"
    using wc.inv_reachable [OF assms(1) counted_world_fresh [OF assms(2,3)]] .
  then have dk: "distinct_keys (wd_sessions w)" and wr: "world_refs w"
    by (simp_all add: counted_world_def live_world_def world_inv_def)
  from forget_nodes_counts [OF world_refs_session [OF dk assms(4) wr] assms(5)] wr
  show ?thesis by (auto simp: world_refs_def)
qed

text \<open>What is left of the registry when a path is removed.\<close>

definition without_path :: "path \<Rightarrow> bool \<Rightarrow> node_id \<Rightarrow> known_node \<Rightarrow> known_node" where
  "without_path p d n k = (if n = ROOT_NODE then k
     else k\<lparr>kn_paths := filter (\<lambda>c. if d then \<not> is_path_or_descendant c p else c \<noteq> p) (kn_paths k)\<rparr>)"

lemma without_path_identity [simp]: "kn_identity (without_path p d n k) = kn_identity k"
  by (simp add: without_path_def)

lemma drop_list_nodes:
  "map_of (nodes_of (foldl (\<lambda>s (n, k). registry_remove n (kn_identity k) s) s xs)) m =
     (if m \<in> fst ` set xs then None else map_of (nodes_of s) m)"
proof (induction xs arbitrary: s)
  case (Cons x xs)
  obtain n k where x: "x = (n, k)" by fastforce
  have "map_of (nodes_of (registry_remove n i s)) m = (if m = n then None else map_of (nodes_of s) m)" for i
    by (simp add: registry_remove_def srv_upds split: option.split)
  with Cons show ?case by (auto simp: x)
qed simp

lemma remove_path_nodes:
  assumes "distinct_keys (nodes_of s)"
  shows "map_of (nodes_of (remove_registry_path p d s)) m = (case map_of (nodes_of s) m of
      None \<Rightarrow> None
    | Some k \<Rightarrow> if m \<noteq> ROOT_NODE \<and> kn_paths (without_path p d m k) = [] then None else Some (without_path p d m k))"
proof -
  let ?m = "map (\<lambda>(n, k). (n, without_path p d n k)) (nodes_of s)"
  let ?t = "upd_nodes (\<lambda>r. r\<lparr>by_node := map (\<lambda>(n, k). (n, without_path p d n k)) (by_node r)\<rparr>) s"
  have t: "remove_registry_path p d s = drop_empty ?t"
    by (simp add: remove_registry_path_def without_path_def)
  have m: "map_of ?m m = map_option (without_path p d m) (map_of (nodes_of s) m)"
    by (induction "nodes_of s" rule: list.induct) (auto simp: map_of_map_snd)
  have "distinct_keys ?m" using assms by (simp add: comp_def split_beta)
  then have "m \<in> fst ` set (filter (\<lambda>(n, k). n \<noteq> ROOT_NODE \<and> kn_paths k = []) ?m) \<longleftrightarrow>
      m \<noteq> ROOT_NODE \<and> (\<exists>k. map_of ?m m = Some k \<and> kn_paths k = [])"
    by (force simp: map_of_eq_Some_iff simp del: set_map)
  then show ?thesis
    unfolding t drop_empty_def drop_list_nodes using m by (auto simp: upd_nodes_def split: option.split)
qed

lemma drop_list_frame:
  "se (foldl (\<lambda>s (n, k). registry_remove n (kn_identity k) s) s xs) = se s"
  "sh_node_key (sh (foldl (\<lambda>s (n, k). registry_remove n (kn_identity k) s) s xs)) = sh_node_key (sh s)"
  by (induction xs arbitrary: s) (auto simp: registry_remove_def srv_upds split: option.split)

lemma remove_path_frame:
  "se (remove_registry_path p d s) = se s" "sh_node_key (sh (remove_registry_path p d s)) = sh_node_key (sh s)"
  unfolding remove_registry_path_def drop_empty_def drop_list_frame by (simp_all add: upd_nodes_def)

text \<open>Removing the last path of a node frees its registry permit.\<close>

lemma lost_node_registry:
  assumes inv: "reg_inv 0 0 s" and k: "map_of (nodes_of s) n = Some k" "n \<noteq> ROOT_NODE"
    and lost: "kn_paths (without_path p d n k) = []"
  defines "t \<equiv> remove_registry_path p d s"
  shows "reg_inv 0 0 t" "map_of (nodes_of t) n = None" "map_of (idents_of t) (kn_identity k) = None"
    and "0 < sh_node_permits (sh t)"
proof -
  have ix: "index_inv s" using inv by (simp add: reg_inv_def)
  then have dk: "distinct_keys (nodes_of s)" by (simp add: index_inv_def)
  note nodes = remove_path_nodes [OF dk, of p d, folded t_def]
  show t: "reg_inv 0 0 t" unfolding t_def by (rule reg_inv_remove_path [OF inv])
  then have dt: "distinct_keys (nodes_of t)" by (simp add: reg_inv_def index_inv_def)
  show n: "map_of (nodes_of t) n = None" using nodes [of n] k lost by simp
  have "m = n" if "map_of (nodes_of s) m = Some k'" "kn_identity k' = kn_identity k" for m k'
    using ix k(1) that unfolding index_inv_def by (metis option.inject)
  then have "\<not> (\<exists>m k'. map_of (nodes_of t) m = Some k' \<and> kn_identity k' = kn_identity k)"
    using nodes n by (auto split: option.splits if_splits)
  moreover have "index_inv t" using t by (simp add: reg_inv_def)
  ultimately show "map_of (idents_of t) (kn_identity k) = None"
    unfolding index_inv_def by (metis not_None_eq)
  have "fst ` set (nodes_of t) \<subset> fst ` set (nodes_of s)"
  proof (rule psubsetI)
    show "fst ` set (nodes_of t) \<subseteq> fst ` set (nodes_of s)"
      using nodes unfolding dom_map_of_conv_image_fst [symmetric] by (auto split: option.splits)
    show "fst ` set (nodes_of t) \<noteq> fst ` set (nodes_of s)"
      using n k(1) unfolding dom_map_of_conv_image_fst [symmetric] by blast
  qed
  then have "length (nodes_of t) < length (nodes_of s)"
    using psubset_card_mono [of "set (map fst (nodes_of s))" "set (map fst (nodes_of t))"]
      distinct_card [OF dk] distinct_card [OF dt] by simp
  moreover have "sh_limits (sh t) = sh_limits (sh s)"
    using registry_frame_paths(1) [of s p d s] by (simp add: registry_frame_def t_def)
  ultimately show "0 < sh_node_permits (sh t)"
    using t inv by (simp add: reg_inv_def global_permit_inv_def)
qed

lemma remember_lost_node:
  assumes t: "map_of (nodes_of t) n = None" "map_of (idents_of t) i = None" "0 < sh_node_permits (sh t)"
    and se: "contains_key (known_of t) n" "0 < se_node_permits (se t)" and n: "n \<noteq> ROOT_NODE"
    and sid: "n = stable_node_id sha (sh_node_key (sh t)) i"
  shows "\<exists>u. remember sha i q t = (Inr n, u) \<and> contains_key (known_of u) n \<and>
    map_of (nodes_of u) n = Some \<lparr>kn_identity = i, kn_paths = [q], kn_session_references = 0, kn_global_permit = True\<rparr>"
proof -
  let ?t = "upd_global_permits (\<lambda>n. n - 1) (upd_session_permits (\<lambda>n. n - 1) t)"
  have "reserve_node t = (Inr (), ?t)"
    using se(2) t(3) by (simp add: reserve_node_def mbind_def acquire_session_permit.simps [of t] srv_upds)
  then show ?thesis
    using t se(1) n sid
    by (simp add: remember_def remember_reserved_def Let_def mbind_def mput_def mret_def track_node_with_permit_def srv_upds)
qed

text \<open>C34. The premise of the previous lemma is needed. In any reachable state, take a node that a
  session knows and whose only registered path is \<open>p\<close>, as for a hard-linked file of which one name
  has been seen. Once \<open>p\<close> is removed, the session with a free node permit can remember the same
  file under any other name \<open>q\<close> and is given the same node; the node is registered with a reference
  count of zero although the session is still counted as knowing it, and forgetting it then fails
  with \<^verbatim>\<open>StateUnavailable\<close>.\<close>

theorem forget_fails_after_path_removal:
  assumes "reachable sha (\<lambda>_. True) (fresh_world l writable key root) w"
    and "0 < max_known_nodes l" and "0 < max_total_known_nodes l"
    and "map_of (wd_sessions w) u = Some e" and "s = at_session w e"
    and "map_of (nodes_of s) n = Some k" and "n \<noteq> ROOT_NODE" and "kn_paths k = [p]"
    and "n = stable_node_id sha (sh_node_key (sh s)) (kn_identity k)"
    and "contains_key (known_of s) n" and "0 < se_node_permits (se s)"
  shows "\<exists>t. remember sha (kn_identity k) q (remove_registry_path p d s) = (Inr n, t) \<and>
    contains_key (known_of t) n \<and> refs_of t n = 0 \<and> fst (forget_nodes [n] t) = Inl SStateUnavailable"
proof -
  have "world_inv w" using wi.inv_reachable [OF assms(1) live_world_fresh [OF assms(2,3)]] by (simp add: live_world_def)
  then have inv: "reg_inv 0 0 s" using world_inv_session(1) assms(4,5) by blast
  have "kn_paths (without_path p d n k) = []"
    using assms(7,8) by (simp add: without_path_def is_path_or_descendant_def)
  note lost = lost_node_registry [OF inv assms(6,7) this]
  let ?r = "remove_registry_path p d s"
  have same: "se ?r = se s" "sh_node_key (sh ?r) = sh_node_key (sh s)"
    by (simp_all add: remove_path_frame)
  obtain t where t: "remember sha (kn_identity k) q ?r = (Inr n, t)" "contains_key (known_of t) n"
      "map_of (nodes_of t) n = Some \<lparr>kn_identity = kn_identity k, kn_paths = [q], kn_session_references = 0, kn_global_permit = True\<rparr>"
    using remember_lost_node [OF lost(2-4), of sha q] assms(7,9-11) same by auto
  have "fst (forget_nodes [n] t) = Inl SStateUnavailable"
    using t(2,3) assms(7)
    by (simp add: forget_nodes_def MAX_FORGET_NODES_def mbind_def release_node_reference_def)
  with t show ?thesis by (auto simp: refs_of_def)
qed

definition demo_knowing :: export_session where
  "demo_knowing = the (map_of (wd_sessions demo_remembered) 5)"

theorem forget_fails_after_path_removal_witness:
  "\<exists>t. remember demo_sha demo_ident [[98]] (remove_registry_path [[97]] False (at_session demo_remembered demo_knowing)) =
     (Inr demo_node, t) \<and>
   contains_key (known_of t) demo_node \<and> refs_of t demo_node = 0 \<and> fst (forget_nodes [demo_node] t) = Inl SStateUnavailable"
proof -
  let ?s = "at_session demo_remembered demo_knowing"
  have s: "map_of (nodes_of ?s) demo_node = Some \<lparr>kn_identity = demo_ident, kn_paths = [[[97]]],
      kn_session_references = 1, kn_global_permit = True\<rparr>"
    "demo_node \<noteq> ROOT_NODE" "contains_key (known_of ?s) demo_node" "0 < se_node_permits (se ?s)"
    "sh_node_key (sh ?s) = []"
    by code_simp+
  have m: "map_of (wd_sessions demo_remembered) 5 = Some demo_knowing" unfolding demo_knowing_def by code_simp
  show ?thesis
    using forget_fails_after_path_removal [OF demo_reachable [of "\<lambda>_. True", unfolded demo_world_def] demo_limits m refl s(1,2),
        of "[[97]]" "[[98]]" False] s(3-5)
    by (simp add: demo_node_def)
qed

subsection \<open>Locks\<close>

text \<open>C5. Setting a lock refines the abstract table: when an attempt on a well-formed table is
  granted, the owner holds exactly the requested kind on every byte of the range (nothing after an
  unlock), every other byte and every other owner holds what it held, and the table stays
  well-formed; splitting, re-inserting and merging records is invisible.\<close>

theorem set_lock_attempt_refines:
  assumes "wf_table locks" and "valid_request q"
    and "set_lock_attempt locks i s q wait = Granted locks'"
  shows "wf_table locks' \<and> (\<forall>i' s' o' b. held locks' i' s' o' b =
     (if i' = i \<and> s' = s \<and> o' = lk_owner q \<and> in_range q b then wanted q else held locks i' s' o' b))"
  using lt.assign_wf [OF assms(1,2) attempt_as_assign(1) [OF assms(3)]]
    lt.assign_holds [OF assms(1,2) attempt_as_assign(1) [OF assms(3)]] by simp

definition demo_table :: "lock_record list" where
  "demo_table = [\<lparr>lr_identity = demo_ident, lr_session = 5, lr_lock = demo_lock\<rparr>]"

definition demo_unlock :: file_lock where
  "demo_unlock = \<lparr>lk_owner = 1, lk_start = 10, lk_end = 19, lk_kind = Unlock, lk_pid = 3\<rparr>"

definition demo_split :: "lock_record list" where
  "demo_split = [\<lparr>lr_identity = demo_ident, lr_session = 5, lr_lock = demo_lock\<lparr>lk_end := 9\<rparr>\<rparr>,
     \<lparr>lr_identity = demo_ident, lr_session = 5, lr_lock = demo_lock\<lparr>lk_start := 20\<rparr>\<rparr>]"

lemma demo_table_wf: "wf_table demo_table" "valid_request demo_unlock"
  "set_lock_attempt demo_table demo_ident 5 demo_unlock False = Granted demo_split"
  by code_simp+

theorem set_lock_attempt_refines_witness:
  "wf_table demo_split \<and> (\<forall>i' s' o' b. held demo_split i' s' o' b =
     (if i' = demo_ident \<and> s' = 5 \<and> o' = lk_owner demo_unlock \<and> in_range demo_unlock b
      then wanted demo_unlock else held demo_table i' s' o' b))"
  by (rule set_lock_attempt_refines [OF demo_table_wf])

text \<open>A lock is denied exactly when it must be: an attempt for a read or write lock that does
  not wait is refused with \<^verbatim>\<open>WouldBlock\<close> if and only if another owner holds an incompatible lock
  on a byte of the requested range; an unlock never is.\<close>

lemma set_lock_attempt_blocks:
  assumes "wf_table locks" and "valid_request q"
  shows "set_lock_attempt locks i s q False = Refused SWouldBlock \<longleftrightarrow>
    lk_kind q \<noteq> Unlock \<and>
    (\<exists>s' o' b k p. (s', o') \<noteq> (s, lk_owner q) \<and> in_range q b \<and> (k, p) \<in> held locks i s' o' b \<and>
       (k = WriteLock \<or> lk_kind q = WriteLock))"
proof -
  have "replace_owner_range locks i s q ins \<noteq> Inl SWouldBlock" for ins
    by (simp add: replace_owner_range_def Let_def)
  then show ?thesis
    unfolding lt.blocked_iff [OF assms, symmetric]
    by (auto simp: set_lock_attempt_def split: sum.split)
qed

definition demo_rival :: file_lock where
  "demo_rival = \<lparr>lk_owner = 8, lk_start = 99, lk_end = 200, lk_kind = ReadLock, lk_pid = 4\<rparr>"

text \<open>Dropping a session releases its advisory locks and no other session's: nothing of it
  remains in the table, and what every other session holds is unchanged.\<close>

lemma drop_session_locks:
  "held (sh_locks (sh (drop_session s))) i u o' b =
     (if u = se_id (se s) then {} else held (sh_locks (sh s)) i u o' b)"
proof -
  let ?I = "\<lambda>t. sh_locks (sh t) = remove_locks (\<lambda>r. lr_session r = se_id (se s)) (sh_locks (sh s))"
  have "preserves ?I (mfor xs (\<lambda>n. mignore (release_node_reference n)))" for xs
    by (intro preserves_mfor preserves_mignore preservesI)
      (simp add: release_node_reference_def upd_nodes_def split: option.split)
  from preservesD [OF this] have "?I (drop_session s)"
    by (simp add: drop_session_def Let_def srv_upds upd_handle_permits_def)
  then show ?thesis
    by (auto simp: held_def remove_locks_def covers_def)
qed

subsection \<open>Eviction\<close>

lemma evict_session_known:
  assumes "n = ROOT_NODE \<or> n \<in> set (pinned_nodes s)"
  shows "map_of (known_of (snd (evict_unreferenced_session_node s))) n = map_of (known_of s) n"
  using assms by (auto simp: evict_unreferenced_session_node_def split: option.split
      dest: session_victim_Some)

lemma evict_session_pinned:
  "pinned_nodes (snd (evict_unreferenced_session_node s)) = pinned_nodes s"
  by (simp add: evict_unreferenced_session_node_def pinned_nodes_def known_remove_def srv_upds
      split: option.split)

lemma evict_session_permits:
  assumes "reg_inv fs fg s" and "fst (evict_unreferenced_session_node s)"
  shows "0 < se_node_permits (se (snd (evict_unreferenced_session_node s)))"
proof (cases "session_victim s")
  case None
  with assms show ?thesis by (simp add: evict_unreferenced_session_node_def)
next
  case (Some n)
  note v = session_victim_Some [OF Some]
  then obtain b where b: "map_of (known_of s) n = Some b" by (auto simp: map_of_key_iff)
  have "b = True"
    using assms(1) v b unfolding reg_inv_def session_permit_inv_def by (metis (full_types))
  with Some b show ?thesis
    by (simp add: evict_unreferenced_session_node_def known_remove_def drop_permit_def srv_upds)
qed

lemma no_victim:
  "\<not> fst (evict_unreferenced_session_node s) \<longleftrightarrow>
     (\<forall>n. contains_key (known_of s) n \<longrightarrow> n = ROOT_NODE \<or> n \<in> set (pinned_nodes s))"
proof -
  have "fst (evict_unreferenced_session_node s) \<longleftrightarrow> session_victim s \<noteq> None"
    by (simp add: evict_unreferenced_session_node_def split: option.split)
  then show ?thesis by (auto simp: session_victim_def find_None_iff contains_key_iff)
qed

text \<open>Making room in a session's working set fails only when it must and never takes a node
  that is in use: a permit is refused exactly when none is free and every known node is the root or
  the node of an open handle; the root and the nodes of open handles stay known in any case.\<close>

lemma acquire_session_permit_evicts:
  assumes "reg_inv fs fg s"
  shows "(isOk (fst (acquire_session_permit s)) \<longleftrightarrow>
     \<not> (se_node_permits (se s) = 0 \<and>
        (\<forall>n. contains_key (known_of s) n \<longrightarrow> n = ROOT_NODE \<or> n \<in> set (pinned_nodes s)))) \<and>
    (\<forall>n. n = ROOT_NODE \<or> n \<in> set (pinned_nodes s) \<longrightarrow>
       map_of (known_of (snd (acquire_session_permit s))) n = map_of (known_of s) n)"
proof (cases "0 < se_node_permits (se s)")
  case True
  then show ?thesis by (simp add: acquire_session_permit.simps [of s] upd_session_permits_def)
next
  case False
  show ?thesis
  proof (cases "fst (evict_unreferenced_session_node s)")
    case True
    let ?t = "snd (evict_unreferenced_session_node s)"
    have "acquire_session_permit s = (Inr (), upd_session_permits (\<lambda>n. n - Suc 0) ?t)"
      using False True evict_session_permits [OF assms True]
      by (simp add: acquire_session_permit.simps [of s] acquire_session_permit.simps [of ?t])
    with True no_victim [of s] show ?thesis
      by (auto simp: upd_session_permits_def evict_session_known)
  next
    case no: False
    with False no_victim [of s] show ?thesis by (simp add: acquire_session_permit.simps [of s])
  qed
qed

subsection \<open>Node identifiers and paths\<close>

lemma uuid_from_bytes_snoc: "uuid_from_bytes (xs @ [y]) = uuid_from_bytes xs * 256 + y"
  by (simp add: uuid_from_bytes_def)

lemma uuid_from_bytes_pos: "i < length bs \<Longrightarrow> 0 < bs ! i \<Longrightarrow> 0 < uuid_from_bytes bs"
  by (induction bs rule: rev_induct)
    (auto simp: uuid_from_bytes_snoc nth_append less_Suc_eq split: if_splits)

text \<open>A derived node identifier is never the reserved root identifier, for any key and any file,
  if the hash returns at least 16 bytes (SHA-256 returns 32).\<close>

lemma stable_node_id_not_root:
  assumes "\<And>m. 16 \<le> length (sha m)"
  shows "stable_node_id sha key identity \<noteq> ROOT_NODE"
proof -
  define m where "m = stable_node_prefix @ key @ le_bytes8 (fi_device identity)
    @ le_bytes8 (fi_inode identity)"
  define bs where "bs = take 16 (sha m)"
  let ?cs = "(bs[6 := bs ! 6 mod 16 + 80])
    [8 := (bs[6 := bs ! 6 mod 16 + 80]) ! 8 mod 64 + 128]"
  have "length bs = 16" using assms [of m] by (simp add: bs_def)
  then have "0 < uuid_from_bytes ?cs" by (intro uuid_from_bytes_pos [of 6]) simp_all
  then show ?thesis
    by (simp add: stable_node_id_def Let_def ROOT_NODE_def bs_def m_def)
qed

lemma descendant_iff: "is_path_or_descendant c p \<longleftrightarrow> (\<exists>r. c = p @ r)"
  by (auto simp: is_path_or_descendant_def)

lemma replace_prefix_append [simp]: "replace_prefix (old @ r) old new = new @ r"
proof -
  have "strip_prefix old (old @ r) = Some r" by simp
  then show ?thesis by (simp only: replace_prefix_def option.case)
qed

text \<open>Renaming rewrites every recorded path as the host's rename moved it. Under a plain rename
  a path in the renamed subtree moves with its suffix and every other path stays. Under an exchange
  of two entries, neither inside the other, the two subtrees swap and exchanging again restores
  every path.\<close>

lemma rename_path_moves:
  "(mode \<noteq> RenameExchange \<longrightarrow> rename_path old new mode (old @ r) = new @ r) \<and>
   (mode \<noteq> RenameExchange \<longrightarrow> \<not> is_path_or_descendant p old \<longrightarrow> rename_path old new mode p = p) \<and>
   (\<not> is_path_or_descendant new old \<longrightarrow> \<not> is_path_or_descendant old new \<longrightarrow>
      rename_path old new RenameExchange (old @ r) = new @ r \<and>
      rename_path old new RenameExchange (new @ r) = old @ r \<and>
      rename_path old new RenameExchange (rename_path old new RenameExchange p) = p)"
proof -
  have no: "\<not> is_path_or_descendant (new @ r) old"
    if "\<not> is_path_or_descendant new old" "\<not> is_path_or_descendant old new" for r
    using that by (auto simp: descendant_iff append_eq_append_conv2)
  have swap: "rename_path old new RenameExchange (old @ r) = new @ r"
    "rename_path old new RenameExchange (new @ r) = old @ r"
    if "\<not> is_path_or_descendant new old" "\<not> is_path_or_descendant old new" for r
    using no [OF that] by (auto simp: rename_path_def descendant_iff)
  have "rename_path old new RenameExchange (rename_path old new RenameExchange p) = p"
    if n: "\<not> is_path_or_descendant new old" "\<not> is_path_or_descendant old new"
  proof -
    consider r where "p = old @ r" | r where "p = new @ r"
      | "\<not> is_path_or_descendant p old" "\<not> is_path_or_descendant p new"
      by (auto simp: descendant_iff)
    then show ?thesis by cases (simp_all add: swap [OF n], simp add: rename_path_def)
  qed
  with swap show ?thesis
    by (auto simp: rename_path_def descendant_iff)
qed

theorem rename_path_moves_witness:
  "rename_path [[1], [2]] [[1], [3]] RenameExchange [[1], [2], [9]] = [[1], [3], [9]] \<and>
   rename_path [[1], [2]] [[1], [3]] RenameReplace [[1], [2], [9]] = [[1], [3], [9]] \<and>
   rename_path [[1], [2]] [[1], [3]] RenameReplace [[1], [4]] = [[1], [4]]"
  using rename_path_moves [of RenameReplace "[[1], [2]]" "[[1], [3]]" "[[9]]" "[[1], [4]]"]
  by (simp add: descendant_iff)
end
