(* ===== verification/Cache_Ranges.thy ===== *)
theory Cache_Ranges
  imports Protocol_Types
begin

text \<open>
  Crate \<^verbatim>\<open>crates/cache\<close>, first part: range keys, the assembly of a requested range from cached
  segments, the in-memory cache \<^verbatim>\<open>MemoryCache\<close> and the bounded \<^verbatim>\<open>HotRangeCache\<close>. On a 64-bit
  target \<^verbatim>\<open>usize::try_from(u64)\<close> never fails and is left out. The iteration order of a
  \<^verbatim>\<open>HashMap\<close> or \<^verbatim>\<open>DashMap\<close> is the order of its association list.
\<close>

record revision_key =
  rk_node :: node_id
  rk_revision :: u64

record range_key =
  rg_file :: revision_key
  rg_offset :: u64
  rg_length :: u64

definition slice_get :: "'a list \<Rightarrow> nat \<Rightarrow> nat \<Rightarrow> 'a list option" where
  "slice_get xs a b = (if a \<le> b \<and> b \<le> length xs then Some (take (b - a) (drop a xs)) else None)"

definition valid_range_payload :: "range_key \<Rightarrow> bytes \<Rightarrow> bool" where
  "valid_range_payload key value \<longleftrightarrow>
     checked_add (rg_offset key) (rg_length key) \<noteq> None \<and> rg_length key = length value"

definition range_keys_overlap :: "range_key \<Rightarrow> range_key \<Rightarrow> bool" where
  "range_keys_overlap left right =
     (case (checked_add (rg_offset left) (rg_length left),
            checked_add (rg_offset right) (rg_length right)) of
        (Some left_end, Some right_end) \<Rightarrow> rg_offset left < right_end \<and> rg_offset right < left_end
      | _ \<Rightarrow> False)"

subsection \<open>Assembling a range\<close>

record 'k segment =
  sg_key :: 'k
  sg_offset :: u64
  sg_data :: bytes

record 'k assembled =
  as_data :: bytes
  as_used_keys :: "'k list"

fun assemble_loop ::
  "u64 \<Rightarrow> u64 \<Rightarrow> bytes \<Rightarrow> 'k list \<Rightarrow> 'k segment list \<Rightarrow> 'k assembled option" where
  "assemble_loop requested_end cursor data used [] = None"
| "assemble_loop requested_end cursor data used (segment # rest) =
     (if sg_offset segment > cursor then None
      else (case checked_add (sg_offset segment) (length (sg_data segment)) of
          None \<Rightarrow> None
        | Some segment_end \<Rightarrow>
            if segment_end \<le> cursor then assemble_loop requested_end cursor data used rest
            else (let copy_end = min segment_end requested_end in
              (case slice_get (sg_data segment) (cursor - sg_offset segment)
                      (copy_end - sg_offset segment) of
                 None \<Rightarrow> None
               | Some part \<Rightarrow>
                   if copy_end = requested_end
                   then Some \<lparr>as_data = data @ part, as_used_keys = used @ [sg_key segment]\<rparr>
                   else assemble_loop requested_end copy_end (data @ part)
                          (used @ [sg_key segment]) rest))))"

definition segment_order :: "'k segment \<Rightarrow> nat \<times> int" where
  "segment_order s = (sg_offset s, - int (length (sg_data s)))"

definition assemble_range :: "range_key \<Rightarrow> 'k segment list \<Rightarrow> 'k assembled option" where
  "assemble_range requested segments =
     (case checked_add (rg_offset requested) (rg_length requested) of
        None \<Rightarrow> None
      | Some requested_end \<Rightarrow>
          assemble_loop requested_end (rg_offset requested) [] []
            (sort_key segment_order (filter (\<lambda>s.
               case checked_add (sg_offset s) (length (sg_data s)) of
                 None \<Rightarrow> False
               | Some e \<Rightarrow> sg_offset s < requested_end \<and> e > rg_offset requested) segments)))"

text \<open>Which bytes a segment offers, and whether they are the bytes of a file.\<close>

definition offers :: "'k segment \<Rightarrow> u64 \<Rightarrow> bool" where
  "offers s p \<longleftrightarrow> sg_offset s + length (sg_data s) \<le> U64_MAX \<and> sg_offset s \<le> p
     \<and> p < sg_offset s + length (sg_data s)"

definition agrees :: "(u64 \<Rightarrow> byte) \<Rightarrow> u64 \<Rightarrow> bytes \<Rightarrow> bool" where
  "agrees F off data \<longleftrightarrow> data = map F [off ..< off + length data]"

definition range_of :: "(u64 \<Rightarrow> byte) \<Rightarrow> u64 \<Rightarrow> u64 \<Rightarrow> bytes" where
  "range_of F off len = map F [off ..< off + len]"

lemma slice_get_Some [simp]:
  "slice_get xs a b = Some ys \<longleftrightarrow> a \<le> b \<and> b \<le> length xs \<and> ys = take (b - a) (drop a xs)"
  by (auto simp: slice_get_def)

lemma slice_get_None [simp]: "slice_get xs a b = None \<longleftrightarrow> \<not> (a \<le> b \<and> b \<le> length xs)"
  by (simp add: slice_get_def)

lemma upt_split: "a \<le> b \<Longrightarrow> b \<le> c \<Longrightarrow> [a ..< b] @ [b ..< c] = [a ..< c]"
  by (metis le_add_diff_inverse upt_add_eq_append)

lemma agrees_slice:
  assumes "agrees F off data" and "a \<le> b" and "b \<le> length data"
  shows "take (b - a) (drop a data) = map F [off + a ..< off + b]"
proof -
  have d: "data = map F [off ..< off + length data]" using assms(1) by (simp add: agrees_def)
  have "take (b - a) (drop a (map F [off ..< off + length data])) = map F [off + a ..< off + b]"
    using assms(2,3) by (simp add: take_map drop_map)
  with d show ?thesis by simp
qed

lemma agrees_range_of [simp]: "agrees F off (range_of F off len)"
  by (simp add: agrees_def range_of_def)

lemma assemble_loop_cases:
  assumes "sg_offset s + length (sg_data s) \<le> U64_MAX"
  shows "c < sg_offset s \<Longrightarrow> assemble_loop e c data used (s # ss) = None"
    and "sg_offset s \<le> c \<Longrightarrow> sg_offset s + length (sg_data s) \<le> c \<Longrightarrow>
      assemble_loop e c data used (s # ss) = assemble_loop e c data used ss"
    and "sg_offset s \<le> c \<Longrightarrow> c < sg_offset s + length (sg_data s) \<Longrightarrow> c < e \<Longrightarrow>
      assemble_loop e c data used (s # ss) =
        (let ce = min (sg_offset s + length (sg_data s)) e;
             part = take (ce - c) (drop (c - sg_offset s) (sg_data s))
         in if ce = e then Some \<lparr>as_data = data @ part, as_used_keys = used @ [sg_key s]\<rparr>
            else assemble_loop e ce (data @ part) (used @ [sg_key s]) ss)"
proof -
  have add: "checked_add (sg_offset s) (length (sg_data s)) = Some (sg_offset s + length (sg_data s))"
    using assms by simp
  show "c < sg_offset s \<Longrightarrow> assemble_loop e c data used (s # ss) = None" by simp
  show "sg_offset s \<le> c \<Longrightarrow> sg_offset s + length (sg_data s) \<le> c \<Longrightarrow>
      assemble_loop e c data used (s # ss) = assemble_loop e c data used ss"
    using add by (simp only: assemble_loop.simps option.case) simp
  assume *: "sg_offset s \<le> c" "c < sg_offset s + length (sg_data s)" "c < e"
  let ?ce = "min (sg_offset s + length (sg_data s)) e"
  have sl: "slice_get (sg_data s) (c - sg_offset s) (?ce - sg_offset s) =
      Some (take (?ce - c) (drop (c - sg_offset s) (sg_data s)))"
    using * by (auto simp: slice_get_def min_def)
  show "assemble_loop e c data used (s # ss) =
      (let ce = ?ce; part = take (ce - c) (drop (c - sg_offset s) (sg_data s))
       in if ce = e then Some \<lparr>as_data = data @ part, as_used_keys = used @ [sg_key s]\<rparr>
          else assemble_loop e ce (data @ part) (used @ [sg_key s]) ss)"
    unfolding assemble_loop.simps add option.case Let_def sl using * by simp
qed

lemma assemble_loop_complete:
  assumes "assemble_loop e c data used ss = None" and "sorted (map sg_offset ss)" and "c < e"
    and "\<And>s. s \<in> set ss \<Longrightarrow> sg_offset s + length (sg_data s) \<le> U64_MAX"
  shows "\<exists>p. c \<le> p \<and> p < e \<and> (\<forall>s \<in> set ss. \<not> offers s p)"
  using assms
proof (induction ss arbitrary: c data used)
  case Nil
  then show ?case by auto
next
  case (Cons s ss)
  let ?fin = "sg_offset s + length (sg_data s)"
  have wf: "?fin \<le> U64_MAX" using Cons.prems(4) by simp
  note step = assemble_loop_cases [OF wf]
  consider (gap) "c < sg_offset s" | (skip) "sg_offset s \<le> c" "?fin \<le> c"
    | (use) "sg_offset s \<le> c" "c < ?fin" by linarith
  then show ?case
  proof cases
    case gap
    have "\<not> offers t c" if "t \<in> set (s # ss)" for t
      using gap Cons.prems(2) that by (auto simp: offers_def)
    with Cons.prems(3) show ?thesis by auto
  next
    case skip
    have "assemble_loop e c data used ss = None" using Cons.prems(1) step(2) [OF skip] by simp
    from Cons.IH [OF this] Cons.prems skip show ?thesis by (auto simp: offers_def)
  next
    case use
    with Cons.prems(1) step(3) [OF use Cons.prems(3)]
    have e: "?fin < e" and l: "assemble_loop e ?fin
        (data @ take (?fin - c) (drop (c - sg_offset s) (sg_data s))) (used @ [sg_key s]) ss = None"
      by (auto simp: Let_def min_def split: if_splits)
    from Cons.IH [OF l] e Cons.prems obtain p where
      "?fin \<le> p" "p < e" "\<forall>s \<in> set ss. \<not> offers s p" by auto
    with use show ?thesis by (intro exI [of _ p]) (auto simp: offers_def)
  qed
qed

lemma assemble_loop_sound:
  assumes "assemble_loop e c data used ss = Some r" and "c < e"
    and "\<And>s. s \<in> set ss \<Longrightarrow> sg_offset s + length (sg_data s) \<le> U64_MAX"
  shows "(\<forall>p. c \<le> p \<and> p < e \<longrightarrow> (\<exists>s \<in> set ss. offers s p)) \<and>
    ((\<forall>s \<in> set ss. agrees F (sg_offset s) (sg_data s)) \<longrightarrow> as_data r = data @ map F [c ..< e])"
  using assms
proof (induction ss arbitrary: c data used)
  case (Cons s ss)
  let ?fin = "sg_offset s + length (sg_data s)"
  have wf: "?fin \<le> U64_MAX" using Cons.prems(3) by simp
  note step = assemble_loop_cases [OF wf]
  have le: "sg_offset s \<le> c" using Cons.prems(1) step(1) by (metis not_less option.distinct(1))
  show ?case
  proof (cases "?fin \<le> c")
    case True
    from Cons.prems(1) step(2) [OF le True] have "assemble_loop e c data used ss = Some r" by simp
    from Cons.IH [OF this Cons.prems(2)] Cons.prems(3) show ?thesis by auto
  next
    case False
    let ?ce = "min ?fin e"
    let ?part = "take (?ce - c) (drop (c - sg_offset s) (sg_data s))"
    have "c < ?fin" using False by simp
    note st = Cons.prems(1) [unfolded step(3) [OF le this Cons.prems(2)] Let_def]
    have lt: "c < ?ce" using False Cons.prems(2) by simp
    have part: "?part = map F [c ..< ?ce]" if "agrees F (sg_offset s) (sg_data s)"
    proof -
      have "?ce - sg_offset s \<le> length (sg_data s)" "c - sg_offset s \<le> ?ce - sg_offset s"
        using lt by (linarith, simp only: diff_le_mono less_imp_le)
      with agrees_slice [OF that, of "c - sg_offset s" "?ce - sg_offset s"] le lt show ?thesis
        by simp
    qed
    have cov: "offers s p" if "c \<le> p" "p < ?ce" for p using that le wf by (simp add: offers_def)
    show ?thesis
    proof (cases "?ce = e")
      case True
      then have "as_data r = data @ ?part"
        using st by (auto simp only: if_True simp_thms option.inject assembled.simps)
      with part True cov show ?thesis by auto
    next
      case ne: False
      have "assemble_loop e ?ce (data @ ?part) (used @ [sg_key s]) ss = Some r"
        using st by (simp only: ne if_False)
      from Cons.IH [OF this] ne Cons.prems(3) have
        ih: "(\<forall>p. ?ce \<le> p \<and> p < e \<longrightarrow> (\<exists>s \<in> set ss. offers s p)) \<and>
          ((\<forall>s \<in> set ss. agrees F (sg_offset s) (sg_data s)) \<longrightarrow>
             as_data r = (data @ ?part) @ map F [?ce ..< e])" by auto
      have app: "map F [c ..< ?ce] @ map F [?ce ..< e] = map F [c ..< e]"
        using upt_split [of c ?ce e] lt by (metis less_imp_le map_append min.cobounded2)
      have "\<exists>t \<in> set (s # ss). offers t p" if "c \<le> p" "p < e" for p
        using ih cov [of p] that by (cases "p < ?ce") (auto simp only: not_less set_simps insert_iff)
      moreover have "as_data r = data @ map F [c ..< e]"
        if "\<forall>t \<in> set (s # ss). agrees F (sg_offset t) (sg_data t)"
      proof -
        have "as_data r = (data @ ?part) @ map F [?ce ..< e]" using ih that by simp
        also have "\<dots> = data @ (map F [c ..< ?ce] @ map F [?ce ..< e])"
          using that by (subst part) simp_all
        finally show ?thesis by (simp only: app)
      qed
      ultimately show ?thesis by blast
    qed
  qed
qed simp

text \<open>The assembly of a range succeeds exactly when its bytes are covered, and returns them.\<close>

lemma assemble_range_iff:
  assumes "0 < rg_length k" and "rg_offset k + rg_length k \<le> U64_MAX"
  shows "assemble_range k segs \<noteq> None \<longleftrightarrow>
    (\<forall>p. rg_offset k \<le> p \<and> p < rg_offset k + rg_length k \<longrightarrow> (\<exists>s \<in> set segs. offers s p))"
proof -
  let ?e = "rg_offset k + rg_length k"
  let ?P = "\<lambda>s. case checked_add (sg_offset s) (length (sg_data s)) of
    None \<Rightarrow> False | Some e \<Rightarrow> sg_offset s < ?e \<and> e > rg_offset k"
  let ?ss = "sort_key segment_order (filter ?P segs)"
  have r: "assemble_range k segs = assemble_loop ?e (rg_offset k) [] [] ?ss"
    using assms(2) by (simp add: assemble_range_def checked_add_def)
  have wf: "sg_offset s + length (sg_data s) \<le> U64_MAX" if "s \<in> set ?ss" for s
    using that by (auto simp: checked_add_def split: if_splits)
  have "sorted (map segment_order ?ss)" by simp
  then have "sorted (map fst (map segment_order ?ss))"
    by (rule sorted_map_mono) (auto intro!: mono_onI simp: less_eq_prod_def)
  then have srt: "sorted (map sg_offset ?ss)"
    by (simp add: segment_order_def comp_def)
  have off: "(\<exists>s \<in> set ?ss. offers s p) = (\<exists>s \<in> set segs. offers s p)"
    if "rg_offset k \<le> p \<and> p < ?e" for p
    using that by (auto simp: offers_def checked_add_def)
  show ?thesis
  proof (cases "assemble_loop ?e (rg_offset k) [] [] ?ss")
    case None
    from assemble_loop_complete [OF None srt _ wf] assms(1) off show ?thesis
      unfolding r None by auto
  next
    case (Some a)
    from assemble_loop_sound [OF Some _ wf] assms(1) off show ?thesis
      unfolding r Some by auto
  qed
qed

lemma assemble_range_agrees:
  assumes "assemble_range k segs = Some r" and "0 < rg_length k"
    and "\<And>s. s \<in> set segs \<Longrightarrow> agrees F (sg_offset s) (sg_data s)"
  shows "as_data r = range_of F (rg_offset k) (rg_length k)"
proof -
  let ?e = "rg_offset k + rg_length k"
  from assms(1) have "?e \<le> U64_MAX" by (auto simp: assemble_range_def split: option.splits)
  let ?ss = "sort_key segment_order (filter (\<lambda>s.
      case checked_add (sg_offset s) (length (sg_data s)) of
        None \<Rightarrow> False | Some e \<Rightarrow> sg_offset s < ?e \<and> e > rg_offset k) segs)"
  have l: "assemble_loop ?e (rg_offset k) [] [] ?ss = Some r"
    using assms(1) \<open>?e \<le> U64_MAX\<close> by (simp add: assemble_range_def checked_add_def)
  have wf: "sg_offset s + length (sg_data s) \<le> U64_MAX" if "s \<in> set ?ss" for s
    using that by (auto simp: checked_add_def split: if_splits)
  from assemble_loop_sound [OF l _ wf, of F] assms(2,3) show ?thesis
    by (auto simp: range_of_def)
qed
end
