(* ===== verification/Cache_Memory.thy ===== *)
theory Cache_Memory
  imports Cache_Ranges
begin

text \<open>
  Crate \<^verbatim>\<open>crates/cache\<close>, the volatile tiers: \<^verbatim>\<open>MemoryCache\<close> with its metadata, directory and range
  maps, and \<^verbatim>\<open>HotRangeCache\<close>, bounded by a byte budget with least-recently-used eviction. The
  contract of a range cache is the locale \<open>range_cache\<close>: a cache that only holds what was stored
  returns only true bytes.
\<close>

subsection \<open>MemoryCache\<close>

record memory_cache =
  mc_metadata :: "(node_id \<times> metadata) list"
  mc_directories :: "(revision_key \<times> directory_entry list) list"
  mc_ranges :: "(range_key \<times> bytes) list"
  mc_statistics :: "filesystem_stats option"

definition mem_empty :: memory_cache where
  "mem_empty = \<lparr>mc_metadata = [], mc_directories = [], mc_ranges = [], mc_statistics = None\<rparr>"

definition mem_get_metadata :: "node_id \<Rightarrow> memory_cache \<Rightarrow> metadata option" where
  "mem_get_metadata node c = map_of (mc_metadata c) node"

definition mem_insert_metadata :: "metadata \<Rightarrow> memory_cache \<Rightarrow> memory_cache" where
  "mem_insert_metadata value c = c\<lparr>mc_metadata := AList.update (md_node value) value (mc_metadata c)\<rparr>"

definition mem_invalidate_metadata :: "node_id \<Rightarrow> memory_cache \<Rightarrow> memory_cache" where
  "mem_invalidate_metadata node c = c\<lparr>mc_metadata := AList.delete node (mc_metadata c)\<rparr>"

definition mem_get_directory :: "revision_key \<Rightarrow> memory_cache \<Rightarrow> directory_entry list option" where
  "mem_get_directory key c = map_of (mc_directories c) key"

definition mem_insert_directory ::
  "revision_key \<Rightarrow> directory_entry list \<Rightarrow> memory_cache \<Rightarrow> memory_cache" where
  "mem_insert_directory key value c = c\<lparr>mc_directories := AList.update key value (mc_directories c)\<rparr>"

definition mem_store_readthrough_snapshot ::
  "revision_key \<Rightarrow> directory_entry list \<Rightarrow> memory_cache \<Rightarrow> memory_cache" where
  "mem_store_readthrough_snapshot key value c =
     mem_insert_directory key value
       (c\<lparr>mc_metadata := foldl (\<lambda>m e. AList.update (de_node e) (de_metadata e) m) (mc_metadata c) value\<rparr>)"

definition mem_invalidate_directories :: "node_id \<Rightarrow> memory_cache \<Rightarrow> memory_cache" where
  "mem_invalidate_directories node c =
     c\<lparr>mc_directories := filter (\<lambda>(key, _). rk_node key \<noteq> node) (mc_directories c)\<rparr>"

definition mem_invalidate_containing :: "node_id \<Rightarrow> memory_cache \<Rightarrow> memory_cache" where
  "mem_invalidate_containing node c = c\<lparr>mc_directories :=
     filter (\<lambda>(_, entries). \<not> (\<exists>e \<in> set entries. de_node e = node)) (mc_directories c)\<rparr>"

definition mem_get_range :: "range_key \<Rightarrow> memory_cache \<Rightarrow> bytes option" where
  "mem_get_range key c =
     (if rg_length key = 0
      then map_option (\<lambda>_. []) (checked_add (rg_offset key) (rg_length key))
      else map_option as_data (assemble_range key
        (map (\<lambda>(k, v). \<lparr>sg_key = k, sg_offset = rg_offset k, sg_data = v\<rparr>)
          (filter (\<lambda>(k, _). rg_file k = rg_file key) (mc_ranges c)))))"

definition mem_insert_range :: "range_key \<Rightarrow> bytes \<Rightarrow> memory_cache \<Rightarrow> memory_cache" where
  "mem_insert_range key value c =
     (if valid_range_payload key value \<and> value \<noteq> []
      then c\<lparr>mc_ranges := AList.update key value (mc_ranges c)\<rparr> else c)"

definition mem_invalidate_ranges :: "node_id \<Rightarrow> memory_cache \<Rightarrow> memory_cache" where
  "mem_invalidate_ranges node c =
     c\<lparr>mc_ranges := filter (\<lambda>(key, _). rk_node (rg_file key) \<noteq> node) (mc_ranges c)\<rparr>"

definition mem_invalidate_node_state :: "node_id \<Rightarrow> memory_cache \<Rightarrow> memory_cache" where
  "mem_invalidate_node_state node c = c\<lparr>
     mc_metadata := AList.delete node (mc_metadata c),
     mc_directories := filter (\<lambda>(key, entries).
        rk_node key \<noteq> node \<and> \<not> (\<exists>e \<in> set entries. de_node e = node)) (mc_directories c),
     mc_ranges := filter (\<lambda>(key, _). rk_node (rg_file key) \<noteq> node) (mc_ranges c)\<rparr>"

definition mem_get_filesystem_stats :: "memory_cache \<Rightarrow> filesystem_stats option" where
  "mem_get_filesystem_stats c = mc_statistics c"

definition mem_insert_filesystem_stats :: "filesystem_stats \<Rightarrow> memory_cache \<Rightarrow> memory_cache" where
  "mem_insert_filesystem_stats value c = c\<lparr>mc_statistics := Some value\<rparr>"

subsection \<open>HotRangeCache\<close>

record hot_cache =
  hc_maximum_bytes :: usize
  hc_entries :: "(range_key \<times> bytes) list"
  hc_lru :: "range_key list"
  hc_bytes :: usize

definition DEFAULT_HOT_RANGE_BYTES :: usize where
  "DEFAULT_HOT_RANGE_BYTES = 256 * 1024 * 1024"

definition hot_new :: "usize \<Rightarrow> hot_cache" where
  "hot_new maximum_bytes =
     \<lparr>hc_maximum_bytes = maximum_bytes, hc_entries = [], hc_lru = [], hc_bytes = 0\<rparr>"

text \<open>\<^verbatim>\<open>Iterator::max_by_key\<close>: the last of the elements with the greatest key.\<close>

fun max_by_key :: "('a \<Rightarrow> nat) \<Rightarrow> 'a list \<Rightarrow> 'a option" where
  "max_by_key f [] = None"
| "max_by_key f (x # xs) =
     (case max_by_key f xs of None \<Rightarrow> Some x | Some y \<Rightarrow> Some (if f x > f y then x else y))"

definition hot_candidate ::
  "range_key \<Rightarrow> u64 \<Rightarrow> (range_key \<times> bytes) list \<Rightarrow> (range_key \<times> u64) option" where
  "hot_candidate key position entries =
     max_by_key snd (List.map_filter (\<lambda>(candidate, _).
       (case checked_add (rg_offset candidate) (rg_length candidate) of
          None \<Rightarrow> None
        | Some e \<Rightarrow>
            if rg_file candidate = rg_file key \<and> rg_offset candidate \<le> position \<and> e > position
            then Some (candidate, e) else None)) entries)"

lemma max_by_key_None [simp]: "max_by_key f xs = None \<longleftrightarrow> xs = []"
  by (cases xs) (auto split: option.splits)

lemma max_by_key_Some:
  "max_by_key f xs = Some x \<Longrightarrow> x \<in> set xs \<and> (\<forall>y \<in> set xs. f y \<le> f x)"
proof (induction xs arbitrary: x)
  case (Cons a xs)
  then show ?case by (cases "max_by_key f xs") (auto split: if_splits dest: max_by_key_None [THEN iffD1])
qed simp

lemma map_filter_set: "y \<in> set (List.map_filter f xs) \<longleftrightarrow> (\<exists>x \<in> set xs. f x = Some y)"
  by (force simp: List.map_filter_def)

lemma hot_candidate_Some:
  assumes "hot_candidate key position entries = Some (c, e)"
  shows "c \<in> fst ` set entries" "rg_file c = rg_file key" "rg_offset c \<le> position" "position < e"
    "e = rg_offset c + rg_length c" "e \<le> U64_MAX"
proof -
  have "(c, e) \<in> set (List.map_filter (\<lambda>(candidate, _).
       (case checked_add (rg_offset candidate) (rg_length candidate) of None \<Rightarrow> None
        | Some e \<Rightarrow> if rg_file candidate = rg_file key \<and> rg_offset candidate \<le> position \<and> e > position
            then Some (candidate, e) else None)) entries)"
    using max_by_key_Some [OF assms [unfolded hot_candidate_def]] by blast
  then show "c \<in> fst ` set entries" "rg_file c = rg_file key" "rg_offset c \<le> position" "position < e"
    "e = rg_offset c + rg_length c" "e \<le> U64_MAX"
    by (force simp: map_filter_set split: option.splits if_splits)+
qed

function hot_loop :: "range_key \<Rightarrow> u64 \<Rightarrow> (range_key \<times> bytes) list \<Rightarrow> u64 \<Rightarrow> bytes \<Rightarrow> range_key list
    \<Rightarrow> (bytes \<times> range_key list) option" where
  "hot_loop key request_end entries position output used =
     (if position < request_end
      then (case hot_candidate key position entries of
          None \<Rightarrow> None
        | Some (candidate, candidate_end) \<Rightarrow>
            (case map_of entries candidate of
               None \<Rightarrow> None
             | Some data \<Rightarrow>
                 (case slice_get data (position - rg_offset candidate)
                         (min candidate_end request_end - rg_offset candidate) of
                    None \<Rightarrow> None
                  | Some part \<Rightarrow> hot_loop key request_end entries (min candidate_end request_end)
                                   (output @ part) (used @ [candidate]))))
      else Some (output, used))"
  by pat_completeness auto
termination
  by (relation "measure (\<lambda>(_, request_end, _, position, _, _). request_end - position)")
    (auto dest: hot_candidate_Some)

declare hot_loop.simps [simp del]

text \<open>
  A \<^verbatim>\<open>HashSet\<close> of keys is visited in some order without repetition; \<open>rank\<close> chooses it, so a theorem
  for every \<open>rank\<close> is a theorem for every order.
\<close>

definition hash_set_iter :: "('a \<Rightarrow> nat) \<Rightarrow> 'a list \<Rightarrow> 'a list" where
  "hash_set_iter rank xs = sort_key rank (remdups xs)"

definition move_to_back :: "'a list \<Rightarrow> 'a \<Rightarrow> 'a list" where
  "move_to_back lru k = filter (\<lambda>c. c \<noteq> k) lru @ [k]"

definition hot_get :: "(range_key \<Rightarrow> nat) \<Rightarrow> range_key \<Rightarrow> hot_cache \<Rightarrow> bytes option \<times> hot_cache" where
  "hot_get rank key c =
     (case checked_add (rg_offset key) (rg_length key) of
        None \<Rightarrow> (None, c)
      | Some request_end \<Rightarrow>
          if rg_length key = 0 then (Some [], c)
          else (case hot_loop key request_end (hc_entries c) (rg_offset key) [] [] of
              None \<Rightarrow> (None, c)
            | Some (output, used) \<Rightarrow>
                (Some output, c\<lparr>hc_lru := foldl move_to_back (hc_lru c) (hash_set_iter rank used)\<rparr>)))"

fun hot_evict :: "usize \<Rightarrow> range_key list \<Rightarrow> (range_key \<times> bytes) list \<Rightarrow> usize
    \<Rightarrow> range_key list \<times> (range_key \<times> bytes) list \<times> usize" where
  "hot_evict maximum [] entries bytes = ([], entries, bytes)"
| "hot_evict maximum (evicted # lru) entries bytes =
     (if bytes > maximum
      then (case map_of entries evicted of
          None \<Rightarrow> hot_evict maximum lru entries bytes
        | Some value \<Rightarrow>
            hot_evict maximum lru (AList.delete evicted entries) (bytes - length value))
      else (evicted # lru, entries, bytes))"

definition hot_insert :: "range_key \<Rightarrow> bytes \<Rightarrow> hot_cache \<Rightarrow> hot_cache" where
  "hot_insert key value c =
     (if \<not> valid_range_payload key value \<or> value = [] \<or> length value > hc_maximum_bytes c then c
      else (let (entries, bytes) =
                  (case map_of (hc_entries c) key of
                     None \<Rightarrow> (hc_entries c, hc_bytes c)
                   | Some previous \<Rightarrow>
                       (AList.delete key (hc_entries c), hc_bytes c - length previous));
                (lru', entries', bytes') =
                  hot_evict (hc_maximum_bytes c) (move_to_back (hc_lru c) key)
                    (AList.update key value entries) (saturating_add bytes (length value))
            in c\<lparr>hc_entries := entries', hc_lru := lru', hc_bytes := bytes'\<rparr>))"

definition hot_invalidate :: "node_id \<Rightarrow> hot_cache \<Rightarrow> hot_cache" where
  "hot_invalidate node c =
     (let removed_bytes = sum_list (map (length \<circ> snd)
            (filter (\<lambda>(key, _). rk_node (rg_file key) = node) (hc_entries c)))
      in c\<lparr>hc_entries := filter (\<lambda>(key, _). rk_node (rg_file key) \<noteq> node) (hc_entries c),
           hc_bytes := hc_bytes c - removed_bytes,
           hc_lru := filter (\<lambda>key. rk_node (rg_file key) \<noteq> node) (hc_lru c)\<rparr>)"

subsection \<open>The contract of a range cache\<close>

definition coherent :: "(revision_key \<Rightarrow> u64 \<Rightarrow> byte) \<Rightarrow> (range_key \<times> bytes) set \<Rightarrow> bool" where
  "coherent T stored \<longleftrightarrow> (\<forall>k v. (k, v) \<in> stored \<longrightarrow> agrees (T (rg_file k)) (rg_offset k) v)"

text \<open>Byte \<open>p\<close> of the file revision of \<open>key\<close> lies in a stored range.\<close>

definition stored_at :: "(range_key \<times> bytes) set \<Rightarrow> revision_key \<Rightarrow> u64 \<Rightarrow> bool" where
  "stored_at stored f p \<longleftrightarrow> (\<exists>k v. (k, v) \<in> stored \<and> rg_file k = f \<and>
     rg_offset k \<le> p \<and> p < rg_offset k + rg_length k)"

datatype cache_op = CGet range_key | CInsert range_key bytes | CInvalidate node_id

primrec cache_step :: "(range_key \<Rightarrow> 'c \<Rightarrow> bytes option \<times> 'c) \<Rightarrow> (range_key \<Rightarrow> bytes \<Rightarrow> 'c \<Rightarrow> 'c)
    \<Rightarrow> (node_id \<Rightarrow> 'c \<Rightarrow> 'c) \<Rightarrow> 'c \<Rightarrow> cache_op \<Rightarrow> 'c" where
  "cache_step get ins inval c (CGet k) = snd (get k c)"
| "cache_step get ins inval c (CInsert k v) = ins k v c"
| "cache_step get ins inval c (CInvalidate n) = inval n c"

text \<open>The operations store only bytes of the file revision they name.\<close>

definition truthful :: "(revision_key \<Rightarrow> u64 \<Rightarrow> byte) \<Rightarrow> cache_op list \<Rightarrow> bool" where
  "truthful T ops \<longleftrightarrow> (\<forall>k v. CInsert k v \<in> set ops \<longrightarrow> agrees (T (rg_file k)) (rg_offset k) v)"

locale range_cache =
  fixes good :: "'c \<Rightarrow> bool"
    and stored :: "'c \<Rightarrow> (range_key \<times> bytes) set"
    and get :: "range_key \<Rightarrow> 'c \<Rightarrow> bytes option \<times> 'c"
    and ins :: "range_key \<Rightarrow> bytes \<Rightarrow> 'c \<Rightarrow> 'c"
    and inval :: "node_id \<Rightarrow> 'c \<Rightarrow> 'c"
  assumes get_good: "good c \<Longrightarrow> good (snd (get k c))"
    and ins_good: "good c \<Longrightarrow> good (ins k v c)"
    and inval_good: "good c \<Longrightarrow> good (inval n c)"
    and get_stored: "stored (snd (get k c)) = stored c"
    and ins_stored: "good c \<Longrightarrow> stored (ins k v c) \<subseteq> insert (k, v) (stored c)"
    and inval_stored: "stored (inval n c) = {(k, v) \<in> stored c. rk_node (rg_file k) \<noteq> n}"
    and get_true: "good c \<Longrightarrow> coherent T (stored c) \<Longrightarrow> fst (get k c) = Some d \<Longrightarrow>
      d = range_of (T (rg_file k)) (rg_offset k) (rg_length k)"
    and get_hits: "good c \<Longrightarrow> rg_offset k + rg_length k \<le> U64_MAX \<Longrightarrow>
      fst (get k c) \<noteq> None \<longleftrightarrow> (\<forall>p. rg_offset k \<le> p \<and> p < rg_offset k + rg_length k \<longrightarrow>
        stored_at (stored c) (rg_file k) p)"
begin

lemma step_good: "good c \<Longrightarrow> good (cache_step get ins inval c op)"
  by (cases op) (simp_all add: get_good ins_good inval_good)

lemma step_coherent:
  "good c \<Longrightarrow> coherent T (stored c) \<Longrightarrow> truthful T [op] \<Longrightarrow> coherent T (stored (cache_step get ins inval c op))"
  using ins_stored
  by (cases op) (fastforce simp: coherent_def truthful_def get_stored inval_stored)+

lemma run_true:
  assumes "good c" and "coherent T (stored c)" and "truthful T ops"
    and "fst (get k (foldl (cache_step get ins inval) c ops)) = Some d"
  shows "d = range_of (T (rg_file k)) (rg_offset k) (rg_length k)"
proof -
  have "good (foldl (cache_step get ins inval) c ops) \<and>
      coherent T (stored (foldl (cache_step get ins inval) c ops))"
    using assms(1-3)
  proof (induction ops arbitrary: c)
    case (Cons op ops)
    then have "truthful T [op]" "truthful T ops" by (auto simp: truthful_def)
    with Cons show ?case by (simp add: step_good step_coherent)
  qed simp
  with assms(4) get_true show ?thesis by blast
qed

lemma miss_after_invalidate:
  assumes "good c" and "0 < rg_length k" and "rg_offset k + rg_length k \<le> U64_MAX"
  shows "fst (get k (inval (rk_node (rg_file k)) c)) = None"
proof -
  have "\<not> stored_at (stored (inval (rk_node (rg_file k)) c)) (rg_file k) (rg_offset k)"
    by (auto simp: stored_at_def inval_stored)
  with get_hits [OF inval_good [OF assms(1)] assms(3)] assms(2) show ?thesis by fastforce
qed

end

subsection \<open>MemoryCache as a range cache\<close>

definition mem_good :: "memory_cache \<Rightarrow> bool" where
  "mem_good c \<longleftrightarrow> (\<forall>k v. (k, v) \<in> set (mc_ranges c) \<longrightarrow> valid_range_payload k v)"

lemma alist_update_subset: "set (AList.update k v m) \<subseteq> insert (k, v) (set m)"
  by (induction m) auto

interpretation mem: range_cache mem_good "\<lambda>c. set (mc_ranges c)" "\<lambda>k c. (mem_get_range k c, c)"
  mem_insert_range mem_invalidate_ranges
proof unfold_locales
  fix c :: memory_cache and k v n T d
  let ?segs = "\<lambda>k. map (\<lambda>(k, v). \<lparr>sg_key = k, sg_offset = rg_offset k, sg_data = v\<rparr>)
    (filter (\<lambda>(k', _). rg_file k' = rg_file k) (mc_ranges c))"
  show "mem_good c \<Longrightarrow> mem_good (snd (mem_get_range k c, c))" by simp
  show "mem_good c \<Longrightarrow> mem_good (mem_insert_range k v c)"
    using alist_update_subset [of k v "mc_ranges c"] by (auto simp: mem_good_def mem_insert_range_def)
  show "mem_good c \<Longrightarrow> mem_good (mem_invalidate_ranges n c)"
    by (auto simp: mem_good_def mem_invalidate_ranges_def)
  show "set (mc_ranges (snd (mem_get_range k c, c))) = set (mc_ranges c)" by simp
  show "set (mc_ranges (mem_insert_range k v c)) \<subseteq> insert (k, v) (set (mc_ranges c))"
    using alist_update_subset [of k v "mc_ranges c"] by (auto simp: mem_insert_range_def)
  show "set (mc_ranges (mem_invalidate_ranges n c)) =
      {(k, v) \<in> set (mc_ranges c). rk_node (rg_file k) \<noteq> n}"
    by (auto simp: mem_invalidate_ranges_def)
  show "d = range_of (T (rg_file k)) (rg_offset k) (rg_length k)"
    if "mem_good c" "coherent T (set (mc_ranges c))" "fst (mem_get_range k c, c) = Some d"
  proof (cases "rg_length k = 0")
    case True
    with that(3) show ?thesis by (simp add: mem_get_range_def range_of_def)
  next
    case False
    with that(3) obtain a where a: "assemble_range k (?segs k) = Some a" "d = as_data a"
      by (auto simp: mem_get_range_def)
    have "agrees (T (rg_file k)) (sg_offset s) (sg_data s)" if "s \<in> set (?segs k)" for s
      using that \<open>coherent T _\<close> by (force simp: coherent_def)
    from assemble_range_agrees [OF a(1) _ this] a(2) False show ?thesis by simp
  qed
  show "fst (mem_get_range k c, c) \<noteq> None \<longleftrightarrow>
      (\<forall>p. rg_offset k \<le> p \<and> p < rg_offset k + rg_length k \<longrightarrow>
        stored_at (set (mc_ranges c)) (rg_file k) p)"
    if "mem_good c" "rg_offset k + rg_length k \<le> U64_MAX"
  proof (cases "rg_length k = 0")
    case True
    with that(2) show ?thesis by (auto simp: mem_get_range_def)
  next
    case False
    have "(\<exists>s \<in> set (?segs k). offers s p) = stored_at (set (mc_ranges c)) (rg_file k) p" for p
      using that(1)
      by (fastforce simp: stored_at_def offers_def mem_good_def valid_range_payload_def)
    with assemble_range_iff [of k "?segs k"] that(2) False show ?thesis
      by (simp add: mem_get_range_def)
  qed
qed

subsection \<open>HotRangeCache as a range cache\<close>

definition entry_bytes :: "(range_key \<times> bytes) list \<Rightarrow> nat" where
  "entry_bytes es = sum_list (map (length \<circ> snd) es)"

definition hot_inv :: "hot_cache \<Rightarrow> bool" where
  "hot_inv c \<longleftrightarrow> distinct_keys (hc_entries c) \<and> distinct (hc_lru c) \<and>
     set (hc_lru c) = fst ` set (hc_entries c) \<and>
     hc_bytes c = entry_bytes (hc_entries c) \<and> hc_bytes c \<le> hc_maximum_bytes c \<and>
     2 * hc_maximum_bytes c \<le> U64_MAX \<and>
     (\<forall>k v. (k, v) \<in> set (hc_entries c) \<longrightarrow> valid_range_payload k v \<and> v \<noteq> [])"

lemma entry_bytes_simps [simp]:
  "entry_bytes [] = 0" "entry_bytes ((k, v) # es) = length v + entry_bytes es"
  by (simp_all add: entry_bytes_def)

lemma entry_bytes_delete:
  "distinct_keys es \<Longrightarrow> map_of es k = Some v \<Longrightarrow>
     entry_bytes (AList.delete k es) + length v = entry_bytes es"
  by (induction es) (auto simp: delete_id)

lemma entry_bytes_update:
  "k \<notin> fst ` set es \<Longrightarrow> entry_bytes (AList.update k v es) = entry_bytes es + length v"
  by (induction es) auto

lemma entry_bytes_filter:
  "entry_bytes (filter P es) + entry_bytes (filter (\<lambda>x. \<not> P x) es) = entry_bytes es"
  by (induction es) auto

lemma move_to_back_simps [simp]:
  "set (move_to_back lru k) = insert k (set lru)"
  "distinct lru \<Longrightarrow> distinct (move_to_back lru k)"
  by (auto simp: move_to_back_def)

lemma foldl_move_to_back:
  "distinct lru \<Longrightarrow> distinct (foldl move_to_back lru ks)"
  "set (foldl move_to_back lru ks) = set ks \<union> set lru"
  by (induction ks arbitrary: lru) auto

lemma hash_set_iter_set [simp]: "set (hash_set_iter rank xs) = set xs"
  by (simp add: hash_set_iter_def)

text \<open>The eviction loop keeps the representation, stops within the budget, and never reaches the
  most recently used entry when that entry alone fits.\<close>

lemma hot_evict_inv:
  assumes "hot_evict m lru es b = (lru', es', b')" and "distinct_keys es" and "distinct lru"
    and "set lru = fst ` set es" and "b = entry_bytes es"
  shows "distinct_keys es' \<and> distinct lru' \<and> set lru' = fst ` set es' \<and> b' = entry_bytes es' \<and>
    b' \<le> m \<and> set es' \<subseteq> set es"
  using assms
proof (induction m lru es b rule: hot_evict.induct)
  case (1 m es b)
  then show ?case by (cases es) auto
next
  case (2 m k lru es b)
  show ?case
  proof (cases "b > m")
    case False
    with "2.prems" show ?thesis by auto
  next
    case True
    from "2.prems"(4) have "k \<in> fst ` set es" by (metis list.set_intros(1))
    then obtain v where v: "map_of es k = Some v" by (auto simp: map_of_key_iff)
    have b: "b - length v = entry_bytes (AList.delete k es)"
      using entry_bytes_delete [OF "2.prems"(2) v] "2.prems"(5) by simp
    have s: "set lru = fst ` set (AList.delete k es)"
    proof -
      have "fst ` set (AList.delete k es) = fst ` set es - {k}"
        by (metis delete_keys list.set_map set_removeAll)
      with "2.prems"(3,4) show ?thesis by auto
    qed
    have d: "set (AList.delete k es) \<subseteq> set es"
      by (simp add: AList.delete_eq)
    have "hot_evict m lru (AList.delete k es) (b - length v) = (lru', es', b')"
      using "2.prems"(1) True v by simp
    from "2.IH"(2) [OF True v this] "2.prems"(2,3) s b d show ?thesis by auto
  qed
qed

definition valid_entries :: "(range_key \<times> bytes) list \<Rightarrow> bool" where
  "valid_entries es \<longleftrightarrow> (\<forall>k v. (k, v) \<in> set es \<longrightarrow> valid_range_payload k v)"

lemma hot_candidate_None:
  assumes "valid_entries es" and "hot_candidate key pos es = None"
  shows "\<not> stored_at (set es) (rg_file key) pos"
proof
  assume "stored_at (set es) (rg_file key) pos"
  then obtain k v where k: "(k, v) \<in> set es" "rg_file k = rg_file key" "rg_offset k \<le> pos"
    "pos < rg_offset k + rg_length k" by (auto simp: stored_at_def)
  with assms(1) have "rg_offset k + rg_length k \<le> U64_MAX"
    by (force simp: valid_entries_def valid_range_payload_def)
  with k have "(k, rg_offset k + rg_length k) \<in> set (List.map_filter (\<lambda>(candidate, _).
       (case checked_add (rg_offset candidate) (rg_length candidate) of None \<Rightarrow> None
        | Some e \<Rightarrow> if rg_file candidate = rg_file key \<and> rg_offset candidate \<le> pos \<and> e > pos
            then Some (candidate, e) else None)) es)"
    by (force simp: map_filter_set checked_add_def)
  with assms(2) show False by (simp add: hot_candidate_def)
qed

text \<open>One turn of the loop, for well-formed entries.\<close>

lemma hot_loop_step:
  assumes "valid_entries es" and "pos < e" and "hot_candidate key pos es = Some (c, ce)"
  obtains v where "(c, v) \<in> set es" and "length v = rg_length c"
    and "hot_loop key e es pos out used =
      hot_loop key e es (min ce e) (out @ take (min ce e - pos) (drop (pos - rg_offset c) v))
        (used @ [c])"
proof -
  note hc = hot_candidate_Some [OF assms(3)]
  obtain v where v: "map_of es c = Some v" using hc(1) by (auto simp: map_of_key_iff)
  then have mem: "(c, v) \<in> set es" by (rule map_of_SomeD)
  with assms(1) have len: "length v = rg_length c"
    by (auto simp: valid_entries_def valid_range_payload_def)
  have "slice_get v (pos - rg_offset c) (min ce e - rg_offset c) =
      Some (take (min ce e - pos) (drop (pos - rg_offset c) v))"
    using hc(3-5) assms(2) len by (auto simp: slice_get_def)
  with v assms(2,3) have "hot_loop key e es pos out used =
      hot_loop key e es (min ce e) (out @ take (min ce e - pos) (drop (pos - rg_offset c) v))
        (used @ [c])" by (simp add: hot_loop.simps [of key e es pos] del: slice_get_Some)
  with mem len that show ?thesis by blast
qed

lemma hot_loop_correct:
  assumes "valid_entries es" and "pos \<le> e"
  shows "case hot_loop key e es pos out used of
      None \<Rightarrow> (\<exists>p. pos \<le> p \<and> p < e \<and> \<not> stored_at (set es) (rg_file key) p)
    | Some (out', used') \<Rightarrow>
        (\<forall>p. pos \<le> p \<and> p < e \<longrightarrow> stored_at (set es) (rg_file key) p) \<and>
        set used' \<subseteq> set used \<union> fst ` set es \<and>
        (\<forall>T. coherent T (set es) \<longrightarrow> out' = out @ map (T (rg_file key)) [pos ..< e])"
  using assms
proof (induction "e - pos" arbitrary: pos used out rule: less_induct)
  case less
  show ?case
  proof (cases "pos < e")
    case False
    then have "hot_loop key e es pos out used = Some (out, used)"
      by (simp add: hot_loop.simps [of key e es pos])
    with False less.prems show ?thesis by auto
  next
    case lt: True
    show ?thesis
    proof (cases "hot_candidate key pos es")
      case None
      with lt hot_candidate_None [OF less.prems(1) None] show ?thesis
        by (auto simp: hot_loop.simps [of key e es pos])
    next
      case (Some x)
      obtain c ce where x: "x = (c, ce)" by fastforce
      note hc = hot_candidate_Some [OF Some [unfolded x]]
      obtain v where v: "(c, v) \<in> set es" "length v = rg_length c" and
        st: "hot_loop key e es pos out used = hot_loop key e es (min ce e)
          (out @ take (min ce e - pos) (drop (pos - rg_offset c) v)) (used @ [c])"
        using hot_loop_step [OF less.prems(1) lt Some [unfolded x]] by blast
      let ?m = "min ce e" and ?part = "take (min ce e - pos) (drop (pos - rg_offset c) v)"
      have m: "pos < ?m" "?m \<le> e" using hc lt by auto
      have "e - ?m < e - pos" using m lt by linarith
      note ih = less.hyps [OF this less.prems(1) m(2), of "used @ [c]" "out @ ?part"]
      have here: "stored_at (set es) (rg_file key) p" if "pos \<le> p" "p < ?m" for p
        using that hc v by (auto simp: stored_at_def)
      have part: "?part = map (T (rg_file key)) [pos ..< ?m]" if "coherent T (set es)" for T
      proof -
        have "agrees (T (rg_file key)) (rg_offset c) v"
          using that v(1) hc(2) unfolding coherent_def by metis
        from agrees_slice [OF this, of "pos - rg_offset c" "?m - rg_offset c"] show ?thesis
          using hc m v by auto
      qed
      show ?thesis
      proof (cases "hot_loop key e es pos out used")
        case N: None
        with st have "hot_loop key e es ?m (out @ ?part) (used @ [c]) = None" by simp
        with ih have "\<exists>p. ?m \<le> p \<and> p < e \<and> \<not> stored_at (set es) (rg_file key) p"
          by (simp only: option.case)
        then have "\<exists>p. pos \<le> p \<and> p < e \<and> \<not> stored_at (set es) (rg_file key) p"
          using m(1) by (meson less_le_trans less_imp_le)
        with N show ?thesis by simp
      next
        case S: (Some y)
        obtain o' u' where y: "y = (o', u')" by fastforce
        have S': "hot_loop key e es ?m (out @ ?part) (used @ [c]) = Some (o', u')"
          using S st y by simp
        have I: "(\<forall>p. ?m \<le> p \<and> p < e \<longrightarrow> stored_at (set es) (rg_file key) p) \<and>
            set u' \<subseteq> set (used @ [c]) \<union> fst ` set es \<and>
            (\<forall>T. coherent T (set es) \<longrightarrow> o' = (out @ ?part) @ map (T (rg_file key)) [?m ..< e])"
          using ih unfolding S' option.case prod.case .
        have "stored_at (set es) (rg_file key) p" if "pos \<le> p" "p < e" for p
          using I here [of p] that by (cases "p < ?m") (auto simp only: not_less)
        moreover have "set u' \<subseteq> set used \<union> fst ` set es"
          using I v(1) by (auto simp: rev_image_eqI)
        moreover have "o' = out @ map (T (rg_file key)) [pos ..< e]" if "coherent T (set es)" for T
        proof -
          have "o' = (out @ ?part) @ map (T (rg_file key)) [?m ..< e]" using I that by blast
          also have "?part = map (T (rg_file key)) [pos ..< ?m]" using that by (rule part)
          finally show ?thesis
            using upt_split [of pos ?m e] m
            by (metis append_assoc less_imp_le map_append)
        qed
        ultimately show ?thesis using S y by simp
      qed
    qed
  qed
qed

lemma hot_inv_valid: "hot_inv c \<Longrightarrow> valid_entries (hc_entries c)"
  by (auto simp: hot_inv_def valid_entries_def)

lemma hot_get_entries [simp]:
  "hc_entries (snd (hot_get rank k c)) = hc_entries c"
  "hc_bytes (snd (hot_get rank k c)) = hc_bytes c"
  "hc_maximum_bytes (snd (hot_get rank k c)) = hc_maximum_bytes c"
  by (simp_all add: hot_get_def split: option.split)

lemma hot_get_cases:
  assumes "hot_inv c" and "rg_offset k + rg_length k \<le> U64_MAX" and "0 < rg_length k"
  shows "(fst (hot_get rank k c) \<noteq> None \<longleftrightarrow>
      (\<forall>p. rg_offset k \<le> p \<and> p < rg_offset k + rg_length k \<longrightarrow>
         stored_at (set (hc_entries c)) (rg_file k) p)) \<and>
    (\<forall>T d. coherent T (set (hc_entries c)) \<longrightarrow> fst (hot_get rank k c) = Some d \<longrightarrow>
       d = range_of (T (rg_file k)) (rg_offset k) (rg_length k)) \<and>
    hot_inv (snd (hot_get rank k c))"
proof -
  let ?l = "hot_loop k (rg_offset k + rg_length k) (hc_entries c) (rg_offset k) [] []"
  have g: "hot_get rank k c = (case ?l of None \<Rightarrow> (None, c) | Some (output, used) \<Rightarrow>
      (Some output, c\<lparr>hc_lru := foldl move_to_back (hc_lru c) (hash_set_iter rank used)\<rparr>))"
    using assms(2,3) by (simp add: hot_get_def checked_add_def)
  note hl = hot_loop_correct [OF hot_inv_valid [OF assms(1)],
      of "rg_offset k" "rg_offset k + rg_length k" k "[]" "[]"]
  show ?thesis
  proof (cases ?l)
    case None
    with hl g assms(1) show ?thesis by auto
  next
    case (Some x)
    obtain out used where x: "x = (out, used)" by fastforce
    with hl Some have "set used \<subseteq> set (hc_lru c)"
      using assms(1) by (simp add: hot_inv_def)
    then have "hot_inv (c\<lparr>hc_lru := foldl move_to_back (hc_lru c) (hash_set_iter rank used)\<rparr>)"
      using assms(1) by (auto simp: hot_inv_def foldl_move_to_back)
    with hl g Some x show ?thesis by (auto simp: range_of_def)
  qed
qed

text \<open>An accepted insertion, with the entry in place and the eviction loop still to run.\<close>

lemma hot_insert_prepare:
  assumes inv: "hot_inv c" and ok: "valid_range_payload k v" "v \<noteq> []" "length v \<le> hc_maximum_bytes c"
  defines "es \<equiv> AList.update k v (AList.delete k (hc_entries c))"
  shows "hot_insert k v c = (case hot_evict (hc_maximum_bytes c) (move_to_back (hc_lru c) k) es (entry_bytes es)
      of (l, e, b) \<Rightarrow> c\<lparr>hc_entries := e, hc_lru := l, hc_bytes := b\<rparr>)"
    and "distinct_keys es" and "distinct (move_to_back (hc_lru c) k)"
    and "set (move_to_back (hc_lru c) k) = fst ` set es"
    and "map_of es k = Some v" and "set es \<subseteq> insert (k, v) (set (hc_entries c))"
proof -
  let ?d = "AList.delete k (hc_entries c)"
  have dk: "distinct_keys (hc_entries c)" and hb: "hc_bytes c = entry_bytes (hc_entries c)"
    using inv by (simp_all add: hot_inv_def)
  have kd: "k \<notin> fst ` set ?d" by (rule delete_notin_dom)
  have eb: "entry_bytes es = entry_bytes ?d + length v"
    using kd by (simp add: es_def entry_bytes_update)
  have sat: "saturating_add b (length v) = b + length v" if "b \<le> hc_bytes c" for b
    using inv ok that by (intro saturating_add_exact) (simp add: hot_inv_def)
  show "hot_insert k v c = (case hot_evict (hc_maximum_bytes c) (move_to_back (hc_lru c) k) es (entry_bytes es)
      of (l, e, b) \<Rightarrow> c\<lparr>hc_entries := e, hc_lru := l, hc_bytes := b\<rparr>)"
  proof (cases "map_of (hc_entries c) k")
    case None
    then have "?d = hc_entries c" by (simp add: delete_id map_of_eq_None_iff)
    with None ok sat [of "hc_bytes c"] eb hb show ?thesis
      by (simp add: hot_insert_def es_def del: map_of_eq_None_iff)
  next
    case (Some p)
    with entry_bytes_delete [OF dk Some] hb have "hc_bytes c - length p = entry_bytes ?d" by simp
    with Some ok sat [of "hc_bytes c - length p"] eb show ?thesis by (simp add: hot_insert_def es_def)
  qed
  show "distinct_keys es" using dk by (simp add: es_def)
  show "distinct (move_to_back (hc_lru c) k)" using inv by (simp add: hot_inv_def)
  have "fst ` set ?d = fst ` set (hc_entries c) - {k}"
    by (metis delete_keys list.set_map set_removeAll)
  with inv show "set (move_to_back (hc_lru c) k) = fst ` set es"
    by (auto simp: hot_inv_def es_def dom_update)
  show "map_of es k = Some v" by (simp add: es_def)
  show "set es \<subseteq> insert (k, v) (set (hc_entries c))"
    using alist_update_subset [of k v ?d] by (auto simp: es_def AList.delete_eq)
qed

lemma hot_inv_insert:
  assumes inv: "hot_inv c"
  shows "hot_inv (hot_insert k v c)" and
    "set (hc_entries (hot_insert k v c)) \<subseteq> insert (k, v) (set (hc_entries c))"
proof -
  have "hot_inv (hot_insert k v c) \<and>
    set (hc_entries (hot_insert k v c)) \<subseteq> insert (k, v) (set (hc_entries c))"
  proof (cases "valid_range_payload k v \<and> v \<noteq> [] \<and> length v \<le> hc_maximum_bytes c")
    case False
    then show ?thesis using inv by (auto simp: hot_insert_def)
  next
    case True
    then have ok: "valid_range_payload k v" "v \<noteq> []" "length v \<le> hc_maximum_bytes c" by auto
    note pr = hot_insert_prepare [OF inv ok]
    let ?es = "AList.update k v (AList.delete k (hc_entries c))"
    obtain l e b where ev: "hot_evict (hc_maximum_bytes c) (move_to_back (hc_lru c) k) ?es
        (entry_bytes ?es) = (l, e, b)" by (metis prod_cases3)
    from hot_evict_inv [OF ev pr(2-4) refl] pr(6) have
      e: "distinct_keys e" "distinct l" "set l = fst ` set e" "b = entry_bytes e"
        "b \<le> hc_maximum_bytes c" "set e \<subseteq> insert (k, v) (set (hc_entries c))" by auto
    have "valid_range_payload k' v' \<and> v' \<noteq> []" if "(k', v') \<in> set e" for k' v'
      using that e(6) ok inv by (auto simp: hot_inv_def)
    with e inv show ?thesis unfolding pr(1) ev by (simp add: hot_inv_def)
  qed
  then show "hot_inv (hot_insert k v c)"
    "set (hc_entries (hot_insert k v c)) \<subseteq> insert (k, v) (set (hc_entries c))" by blast+
qed

lemma hot_inv_invalidate: "hot_inv c \<Longrightarrow> hot_inv (hot_invalidate n c)"
  using entry_bytes_filter [of "\<lambda>(key, _). rk_node (rg_file key) = n" "hc_entries c"]
  unfolding hot_inv_def hot_invalidate_def Let_def entry_bytes_def [symmetric]
  by (auto simp: case_prod_unfold)

text \<open>The most recently inserted entry survives its own insertion.\<close>

lemma hot_evict_last:
  assumes "distinct (lru @ [k])" and "distinct_keys es" and "set (lru @ [k]) = fst ` set es"
    and "b = entry_bytes es" and "map_of es k = Some v" and "length v \<le> m"
    and "hot_evict m (lru @ [k]) es b = (lru', es', b')"
  shows "map_of es' k = Some v"
  using assms
proof (induction lru arbitrary: es b)
  case Nil
  have "es = [(k, v)]"
  proof (cases es)
    case Nil
    with \<open>map_of es k = Some v\<close> show ?thesis by simp
  next
    case (Cons x xs)
    then show ?thesis
      using Nil.prems(2,3,5) by (cases xs; cases x) auto
  qed
  with Nil.prems(4,6,7) show ?case by (auto split: if_splits)
next
  case (Cons a lru)
  show ?case
  proof (cases "b > m")
    case False
    with Cons.prems show ?thesis by auto
  next
    case True
    have "a \<in> fst ` set es" using Cons.prems(3) by (metis append_Cons list.set_intros(1))
    then obtain w where w: "map_of es a = Some w" by (auto simp: map_of_key_iff)
    have ks: "fst ` set (AList.delete a es) = fst ` set es - {a}"
      by (metis delete_keys list.set_map set_removeAll)
    show ?thesis
    proof (rule Cons.IH [of "AList.delete a es" "b - length w"])
      show "set (lru @ [k]) = fst ` set (AList.delete a es)"
        using Cons.prems(1,3) ks by auto
      show "b - length w = entry_bytes (AList.delete a es)"
        using entry_bytes_delete [OF Cons.prems(2) w] Cons.prems(4) by simp
      show "hot_evict m (lru @ [k]) (AList.delete a es) (b - length w) = (lru', es', b')"
        using Cons.prems(7) True w by simp
    qed (use Cons.prems in auto)
  qed
qed

lemma hot_insert_present:
  assumes inv: "hot_inv c" and ok: "valid_range_payload k v" "v \<noteq> []" "length v \<le> hc_maximum_bytes c"
  shows "map_of (hc_entries (hot_insert k v c)) k = Some v"
proof -
  note pr = hot_insert_prepare [OF inv ok]
  let ?es = "AList.update k v (AList.delete k (hc_entries c))"
  obtain l e b where ev: "hot_evict (hc_maximum_bytes c) (move_to_back (hc_lru c) k) ?es
      (entry_bytes ?es) = (l, e, b)" by (metis prod_cases3)
  from hot_evict_last [OF _ pr(2) _ refl pr(5) ok(3), of "filter (\<lambda>c. c \<noteq> k) (hc_lru c)"]
    pr(3,4) ev have "map_of e k = Some v" by (simp add: move_to_back_def)
  then show ?thesis unfolding pr(1) ev by simp
qed

interpretation hot: range_cache hot_inv "\<lambda>c. set (hc_entries c)" "hot_get rank" hot_insert hot_invalidate
  for rank
proof unfold_locales
  fix c :: hot_cache and k v n T d
  show "hot_inv c \<Longrightarrow> set (hc_entries (hot_insert k v c)) \<subseteq> insert (k, v) (set (hc_entries c))"
    by (rule hot_inv_insert(2))
  have trivial: "hot_get rank k c = (if rg_offset k + rg_length k \<le> U64_MAX then (Some [], c) else (None, c))"
    if "\<not> (rg_offset k + rg_length k \<le> U64_MAX \<and> 0 < rg_length k)"
    using that by (auto simp: hot_get_def checked_add_def)
  show "hot_inv c \<Longrightarrow> hot_inv (snd (hot_get rank k c))"
    using hot_get_cases [of c k rank] trivial by fastforce
  show "hot_inv c \<Longrightarrow> hot_inv (hot_insert k v c)" by (rule hot_inv_insert(1))
  show "hot_inv c \<Longrightarrow> hot_inv (hot_invalidate n c)" by (rule hot_inv_invalidate)
  show "set (hc_entries (snd (hot_get rank k c))) = set (hc_entries c)" by simp
  show "set (hc_entries (hot_invalidate n c)) =
      {(k, v) \<in> set (hc_entries c). rk_node (rg_file k) \<noteq> n}"
    by (auto simp: hot_invalidate_def Let_def)
  show "d = range_of (T (rg_file k)) (rg_offset k) (rg_length k)"
    if "hot_inv c" "coherent T (set (hc_entries c))" "fst (hot_get rank k c) = Some d"
    using that hot_get_cases [of c k rank] trivial by (fastforce simp: range_of_def split: if_splits)
  show "fst (hot_get rank k c) \<noteq> None \<longleftrightarrow>
      (\<forall>p. rg_offset k \<le> p \<and> p < rg_offset k + rg_length k \<longrightarrow>
        stored_at (set (hc_entries c)) (rg_file k) p)"
    if "hot_inv c" "rg_offset k + rg_length k \<le> U64_MAX"
    using that hot_get_cases [of c k rank] trivial by (cases "rg_length k = 0") auto
qed
end
