(* ===== verification/Cache_Persistent.thy ===== *)
theory Cache_Persistent
  imports Cache_Memory "HOL-Library.List_Lexorder" "HOL-Library.Char_ord"
begin

text \<open>
  Crate \<^verbatim>\<open>crates/cache\<close>, the durable tier \<^verbatim>\<open>PersistentCache\<close>.

  \<^item> The namespace directory is part of the state: its payload files by name, and the bytes of the
    manifest file. \<^verbatim>\<open>write_private_atomic\<close> replaces a file as a whole.
  \<^item> Every file-system call takes the next outcome from \<open>pc_outcomes\<close> (success when the list is
    empty). A write that fails may have failed before or after the rename, since the directory is
    synced after it. A theorem about every list of outcomes is a theorem about every pattern of
    failures.
  \<^item> SHA-256, \<^verbatim>\<open>hex::encode\<close> and \<^verbatim>\<open>serde_json\<close> are the fields of \<open>cache_env\<close>.
  \<^item> An operation runs as one step. The source releases the state lock while it hashes and
    writes payloads in \<^verbatim>\<open>insert_entries\<close>; what other threads do in between is not modelled.
\<close>

definition CACHE_FORMAT_VERSION :: u32 where "CACHE_FORMAT_VERSION = 2"
definition MAX_MANIFEST_SIZE :: u64 where "MAX_MANIFEST_SIZE = 32 * 1024 * 1024"
definition MAX_MANIFEST_ENTRIES :: usize where "MAX_MANIFEST_ENTRIES = 100000"
definition MAX_NAMESPACE_COMPONENT_LENGTH :: usize where "MAX_NAMESPACE_COMPONENT_LENGTH = 1024"

record cache_namespace =
  cn_server_identity_sha256 :: bytes
  cn_export_id :: bytes
  cn_authorization_scope :: bytes

datatype cache_error = CIo | CSerialization | CInvalidNamespace | CUnsafeStorage | CCacheInUse
  | CInvalidSizeLimit | CInvalidRange | CEntryTooLarge | CInvalidManifest | CNamespaceMismatch
  | CCorruptEntry | CStateUnavailable

definition validate_namespace_component :: "bytes \<Rightarrow> cache_error + unit" where
  "validate_namespace_component value =
     (if value = [] \<or> length value > MAX_NAMESPACE_COMPONENT_LENGTH \<or> 0 \<in> set value
      then Inl CInvalidNamespace else Inr ())"

definition validate_namespace :: "cache_namespace \<Rightarrow> cache_error + unit" where
  "validate_namespace ns = ebind (validate_namespace_component (cn_export_id ns))
     (\<lambda>_. validate_namespace_component (cn_authorization_scope ns))"

datatype entry_key = EMetadata node_id | EDirectory revision_key | ERange range_key | EFilesystemStats

fun entry_key_node :: "entry_key \<Rightarrow> node_id option" where
  "entry_key_node (EMetadata node) = Some node"
| "entry_key_node (EDirectory key) = Some (rk_node key)"
| "entry_key_node (ERange key) = Some (rk_node (rg_file key))"
| "entry_key_node EFilesystemStats = None"

record disk_entry =
  dk_key :: entry_key
  dk_file_name :: string
  dk_stored_length :: u64
  dk_sha256 :: bytes
  dk_last_access :: u64

record manifest =
  mf_format_version :: u32
  mf_namespace :: cache_namespace
  mf_clock :: u64
  mf_entries :: "disk_entry list"

record persistent_state =
  ps_clock :: u64
  ps_payload_bytes :: u64
  ps_entries :: "(entry_key \<times> disk_entry) list"

definition persistent_state_default :: persistent_state where
  "persistent_state_default = \<lparr>ps_clock = 0, ps_payload_bytes = 0, ps_entries = []\<rparr>"

record cache_env =
  ce_sha256 :: "bytes \<Rightarrow> bytes"
  ce_hex :: "bytes \<Rightarrow> string"
  ce_key_json :: "entry_key \<Rightarrow> bytes"
  ce_manifest_json :: "manifest \<Rightarrow> bytes"
  ce_parse_manifest :: "bytes \<Rightarrow> manifest option"
  ce_metadata_json :: "metadata \<Rightarrow> bytes"
  ce_parse_metadata :: "bytes \<Rightarrow> metadata option"
  ce_directory_json :: "directory_entry list \<Rightarrow> bytes"
  ce_parse_directory :: "bytes \<Rightarrow> directory_entry list option"
  ce_stats_json :: "filesystem_stats \<Rightarrow> bytes"
  ce_parse_stats :: "bytes \<Rightarrow> filesystem_stats option"

datatype io_outcome = IoOk | IoFailBefore | IoFailAfter

record pcache =
  pc_namespace :: cache_namespace
  pc_maximum :: u64
  pc_state :: persistent_state
  pc_active :: bool
  pc_dirty :: bool
  pc_pending_removals :: "string list"
  pc_manifest_writes :: u64
  pc_files :: "(string \<times> bytes) list"
  pc_manifest :: "bytes option"
  pc_outcomes :: "io_outcome list"

type_synonym 'a cop = "(pcache, cache_error, 'a) op"

abbreviation entries_of :: "pcache \<Rightarrow> (entry_key \<times> disk_entry) list" where
  "entries_of c \<equiv> ps_entries (pc_state c)"

subsection \<open>File system\<close>

definition next_io :: "io_outcome cop" where
  "next_io c = (case pc_outcomes c of
     [] \<Rightarrow> (Inr IoOk, c) | o' # os \<Rightarrow> (Inr o', c\<lparr>pc_outcomes := os\<rparr>))"

definition write_private_atomic :: "(pcache \<Rightarrow> pcache) \<Rightarrow> unit cop" where
  "write_private_atomic replace = mbind next_io (\<lambda>o'. case o' of
     IoOk \<Rightarrow> mput replace
   | IoFailBefore \<Rightarrow> mfail CIo
   | IoFailAfter \<Rightarrow> mbind (mput replace) (\<lambda>_. mfail CIo))"

definition remove_cache_file :: "string \<Rightarrow> unit cop" where
  "remove_cache_file name = mbind next_io (\<lambda>o'.
     if o' = IoOk then mput (\<lambda>c. c\<lparr>pc_files := AList.delete name (pc_files c)\<rparr>) else mfail CIo)"

definition sync_directory :: "unit cop" where
  "sync_directory = mbind next_io (\<lambda>o'. if o' = IoOk then mret () else mfail CIo)"

definition is_ascii_hexdigit :: "char \<Rightarrow> bool" where
  "is_ascii_hexdigit ch \<longleftrightarrow> (let n = (of_char ch :: nat) in
     (48 \<le> n \<and> n \<le> 57) \<or> (65 \<le> n \<and> n \<le> 70) \<or> (97 \<le> n \<and> n \<le> 102))"

definition valid_cache_file_name :: "string \<Rightarrow> bool" where
  "valid_cache_file_name name \<longleftrightarrow>
     length name = 68 \<and> drop 64 name = ''.bin'' \<and> list_all is_ascii_hexdigit (take 64 name)"

definition read_disk_entry :: "cache_env \<Rightarrow> disk_entry \<Rightarrow> bytes cop" where
  "read_disk_entry E entry =
     (if \<not> valid_cache_file_name (dk_file_name entry) then mfail CInvalidManifest
      else mbind next_io (\<lambda>o' c.
        if o' \<noteq> IoOk then (Inl CIo, c)
        else (case map_of (pc_files c) (dk_file_name entry) of
            None \<Rightarrow> (Inl CCorruptEntry, c)
          | Some bytes \<Rightarrow>
              if length bytes \<noteq> dk_stored_length entry \<or> dk_stored_length entry > pc_maximum c
              then (Inl CCorruptEntry, c)
              else if ce_sha256 E bytes \<noteq> dk_sha256 entry then (Inl CCorruptEntry, c)
              else (Inr bytes, c))))"

subsection \<open>The in-memory manifest\<close>

definition next_clock :: "persistent_state \<Rightarrow> u64 \<times> persistent_state" where
  "next_clock s = (let t = saturating_add (ps_clock s) 1 in (t, s\<lparr>ps_clock := t\<rparr>))"

definition touch_entry :: "entry_key \<Rightarrow> persistent_state \<Rightarrow> persistent_state" where
  "touch_entry key s = (let (tick, s1) = next_clock s in
     case map_of (ps_entries s1) key of
       None \<Rightarrow> s1
     | Some e \<Rightarrow> s1\<lparr>ps_entries := AList.update key (e\<lparr>dk_last_access := tick\<rparr>) (ps_entries s1)\<rparr>)"

definition touch_entries :: "entry_key list \<Rightarrow> persistent_state \<Rightarrow> persistent_state" where
  "touch_entries keys s = foldl (\<lambda>s key. touch_entry key s) s keys"

fun min_by :: "('a \<Rightarrow> 'b::linorder) \<Rightarrow> 'a list \<Rightarrow> 'a option" where
  "min_by f [] = None"
| "min_by f (x # xs) =
     (case min_by f xs of None \<Rightarrow> Some x | Some y \<Rightarrow> Some (if f x \<le> f y then x else y))"

definition eviction_order :: "entry_key \<times> disk_entry \<Rightarrow> nat \<times> string" where
  "eviction_order x = (dk_last_access (snd x), dk_file_name (snd x))"

definition remove_key :: "entry_key \<Rightarrow> persistent_state \<Rightarrow> cache_error + persistent_state" where
  "remove_key key s = (case map_of (ps_entries s) key of
     None \<Rightarrow> Inr s
   | Some entry \<Rightarrow>
       if dk_stored_length entry > ps_payload_bytes s then Inl CInvalidManifest
       else Inr (s\<lparr>ps_entries := AList.delete key (ps_entries s),
                   ps_payload_bytes := ps_payload_bytes s - dk_stored_length entry\<rparr>))"

lemma min_by_None [simp]: "min_by f xs = None \<longleftrightarrow> xs = []"
  by (cases xs) (auto split: option.splits)

lemma min_by_Some: "min_by f xs = Some x \<Longrightarrow> x \<in> set xs \<and> (\<forall>y \<in> set xs. f x \<le> f y)"
proof (induction xs arbitrary: x)
  case (Cons a xs)
  then show ?case by (cases "min_by f xs") (auto split: if_splits dest: min_by_None [THEN iffD1])
qed simp

lemma length_delete_fst: "(k, v) \<in> set m \<Longrightarrow> length (AList.delete k m) < length m"
proof (induction m)
  case (Cons a m)
  have "length (AList.delete k m) \<le> length m" by (rule length_delete_le)
  with Cons show ?case by (cases "fst a = k") (auto simp: less_Suc_eq_le)
qed simp

function evict_to_budget :: "u64 \<Rightarrow> persistent_state \<Rightarrow> cache_error + persistent_state" where
  "evict_to_budget maximum s =
     (if ps_payload_bytes s > maximum
      then (case min_by eviction_order (ps_entries s) of
          None \<Rightarrow> Inl CInvalidManifest
        | Some (key, entry) \<Rightarrow>
            if dk_stored_length entry > ps_payload_bytes s then Inl CInvalidManifest
            else evict_to_budget maximum (s\<lparr>ps_entries := AList.delete key (ps_entries s),
                   ps_payload_bytes := ps_payload_bytes s - dk_stored_length entry\<rparr>))
      else Inr s)"
  by pat_completeness auto
termination
  by (relation "measure (\<lambda>(_, s). length (ps_entries s))")
    (auto dest!: min_by_Some intro: length_delete_fst)

declare evict_to_budget.simps [simp del]

subsection \<open>Committing\<close>

definition file_names :: "persistent_state \<Rightarrow> string set" where
  "file_names s = dk_file_name ` snd ` set (ps_entries s)"

definition remove_unreferenced_files :: "string list \<Rightarrow> unit cop" where
  "remove_unreferenced_files names = mfor names (\<lambda>name c.
     if name \<in> file_names (pc_state c) then (Inr (), c) else remove_cache_file name c)"

definition manifest_of :: "cache_namespace \<Rightarrow> persistent_state \<Rightarrow> manifest" where
  "manifest_of ns s = \<lparr>mf_format_version = CACHE_FORMAT_VERSION, mf_namespace = ns,
     mf_clock = ps_clock s, mf_entries = sort_key dk_file_name (map snd (ps_entries s))\<rparr>"

definition write_manifest :: "cache_env \<Rightarrow> persistent_state \<Rightarrow> unit cop" where
  "write_manifest E s c =
     (let bytes = ce_manifest_json E (manifest_of (pc_namespace c) s) in
      if length bytes > MAX_MANIFEST_SIZE then (Inl CInvalidManifest, c)
      else mbind (write_private_atomic (\<lambda>c. c\<lparr>pc_manifest := Some bytes\<rparr>))
             (\<lambda>_. mput (\<lambda>c. c\<lparr>pc_manifest_writes := pc_manifest_writes c + 1\<rparr>)) c)"

definition obsolete_names :: "persistent_state \<Rightarrow> persistent_state \<Rightarrow> string list" where
  "obsolete_names s proposed =
     filter (\<lambda>name. name \<notin> file_names proposed) (map (dk_file_name \<circ> snd) (ps_entries s))"

definition commit_state :: "cache_env \<Rightarrow> persistent_state \<Rightarrow> unit cop" where
  "commit_state E proposed c =
     (let obsolete = obsolete_names (pc_state c) proposed in
      if pc_active c
      then (Inr (), c\<lparr>pc_state := proposed, pc_dirty := True,
              pc_pending_removals := pc_pending_removals c @ obsolete\<rparr>)
      else mbind (write_manifest E proposed) (\<lambda>_ c1.
             mbind (mput (\<lambda>c. c\<lparr>pc_state := proposed, pc_dirty := False, pc_pending_removals := []\<rparr>))
               (\<lambda>_. mbind (remove_unreferenced_files (pc_pending_removals c1 @ obsolete))
                 (\<lambda>_. sync_directory)) c1) c)"

definition begin_deferred_commits :: "pcache \<Rightarrow> pcache" where
  "begin_deferred_commits c = c\<lparr>pc_active := True\<rparr>"

definition flush_deferred_commits :: "cache_env \<Rightarrow> unit cop" where
  "flush_deferred_commits E c =
     (let c1 = c\<lparr>pc_active := False\<rparr> in
      if \<not> pc_dirty c1 then (Inr (), c1)
      else mbind (write_manifest E (pc_state c1)) (\<lambda>_ c2.
             mbind (mput (\<lambda>c. c\<lparr>pc_dirty := False, pc_pending_removals := []\<rparr>))
               (\<lambda>_. mbind (remove_unreferenced_files (pc_pending_removals c2))
                 (\<lambda>_. sync_directory)) c2) c1)"

definition remove_keys_locked :: "cache_env \<Rightarrow> entry_key list \<Rightarrow> unit cop" where
  "remove_keys_locked E keys c =
     (if keys = [] then (Inr (), c)
      else (case foldl (\<lambda>r key. ebind r (remove_key key)) (Inr (pc_state c)) keys of
          Inl e \<Rightarrow> (Inl e, c)
        | Inr proposed \<Rightarrow> commit_state E proposed c))"

definition remove_matching :: "cache_env \<Rightarrow> (entry_key \<Rightarrow> bool) \<Rightarrow> unit cop" where
  "remove_matching E p c = remove_keys_locked E (filter p (map fst (entries_of c))) c"

definition enforce_budget :: "cache_env \<Rightarrow> unit cop" where
  "enforce_budget E c =
     (if ps_payload_bytes (pc_state c) \<le> pc_maximum c then (Inr (), c)
      else (case evict_to_budget (pc_maximum c) (pc_state c) of
          Inl e \<Rightarrow> (Inl e, c)
        | Inr proposed \<Rightarrow> commit_state E proposed c))"

subsection \<open>Storing\<close>

record prepared_entry =
  pp_key :: entry_key
  pp_bytes :: bytes
  pp_file_name :: string
  pp_sha256 :: bytes
  pp_stored_length :: u64

definition payload_file_name :: "cache_env \<Rightarrow> entry_key \<Rightarrow> bytes \<Rightarrow> string" where
  "payload_file_name E key bytes =
     ce_hex E (ce_sha256 E (ce_key_json E key @ bytes)) @ ''.bin''"

definition prepare_entry :: "cache_env \<Rightarrow> entry_key \<Rightarrow> bytes \<Rightarrow> prepared_entry" where
  "prepare_entry E key bytes = \<lparr>pp_key = key, pp_bytes = bytes,
     pp_file_name = payload_file_name E key bytes, pp_sha256 = ce_sha256 E bytes,
     pp_stored_length = length bytes\<rparr>"

definition already_current :: "persistent_state \<Rightarrow> prepared_entry \<Rightarrow> bool" where
  "already_current s entry = (case map_of (ps_entries s) (pp_key entry) of
     None \<Rightarrow> False
   | Some existing \<Rightarrow> dk_file_name existing = pp_file_name entry
       \<and> dk_stored_length existing = pp_stored_length entry \<and> dk_sha256 existing = pp_sha256 entry)"

text \<open>Phase 3: on a failed write the files written so far are removed again, errors ignored.\<close>

fun write_payloads :: "prepared_entry list \<Rightarrow> string list \<Rightarrow> string list cop" where
  "write_payloads [] written = mret written"
| "write_payloads (entry # rest) written = (\<lambda>c.
     (case write_private_atomic
             (\<lambda>c. c\<lparr>pc_files := AList.update (pp_file_name entry) (pp_bytes entry) (pc_files c)\<rparr>) c of
        (Inr _, c1) \<Rightarrow> write_payloads rest (written @ [pp_file_name entry]) c1
      | (Inl e, c1) \<Rightarrow> mbind (mignore (remove_unreferenced_files written)) (\<lambda>_. mfail e) c1))"

definition splice_entry :: "persistent_state \<Rightarrow> prepared_entry \<Rightarrow> cache_error + persistent_state" where
  "splice_entry s entry =
     (let (last_access, s1) = next_clock s in
      ebind (remove_key (pp_key entry) s1) (\<lambda>s2.
        if ps_payload_bytes s2 + pp_stored_length entry > U64_MAX then Inl CEntryTooLarge
        else Inr (s2\<lparr>ps_payload_bytes := ps_payload_bytes s2 + pp_stored_length entry,
               ps_entries := AList.update (pp_key entry)
                 \<lparr>dk_key = pp_key entry, dk_file_name = pp_file_name entry,
                  dk_stored_length = pp_stored_length entry, dk_sha256 = pp_sha256 entry,
                  dk_last_access = last_access\<rparr> (ps_entries s2)\<rparr>)))"

definition propose :: "u64 \<Rightarrow> prepared_entry list \<Rightarrow> persistent_state \<Rightarrow> cache_error + persistent_state" where
  "propose maximum prepared s =
     ebind (foldl (\<lambda>r entry. ebind r (\<lambda>s. splice_entry s entry)) (Inr s) prepared) (\<lambda>s1.
       if length (ps_entries s1) > MAX_MANIFEST_ENTRIES then Inl CInvalidManifest
       else evict_to_budget maximum s1)"

definition insert_entries :: "cache_env \<Rightarrow> (entry_key \<times> bytes) list \<Rightarrow> unit cop" where
  "insert_entries E entries c =
     (if (\<exists>(_, bytes) \<in> set entries. length bytes > pc_maximum c) then (Inl CEntryTooLarge, c)
      else (let prepared = filter (\<lambda>e. \<not> already_current (pc_state c) e)
                             (map (\<lambda>(key, bytes). prepare_entry E key bytes) entries) in
        if prepared = [] then (Inr (), c)
        else mbind (write_payloads prepared []) (\<lambda>written c1.
          (let (result, c2) = (case propose (pc_maximum c1) prepared (pc_state c1) of
                  Inl e \<Rightarrow> (Inl e, c1)
                | Inr proposed \<Rightarrow> commit_state E proposed c1);
               (cleanup, c3) = remove_unreferenced_files written c2
           in (case result of Inl e \<Rightarrow> (Inl e, c3) | Inr _ \<Rightarrow> (cleanup, c3)))) c))"

definition insert_entry :: "cache_env \<Rightarrow> entry_key \<Rightarrow> bytes \<Rightarrow> unit cop" where
  "insert_entry E key bytes = insert_entries E [(key, bytes)]"

definition insert_metadata_value :: "cache_env \<Rightarrow> metadata \<Rightarrow> unit cop" where
  "insert_metadata_value E value = insert_entry E (EMetadata (md_node value)) (ce_metadata_json E value)"

definition insert_directory_value ::
  "cache_env \<Rightarrow> revision_key \<Rightarrow> directory_entry list \<Rightarrow> unit cop" where
  "insert_directory_value E key value = insert_entry E (EDirectory key) (ce_directory_json E value)"

definition insert_directory_snapshot_value ::
  "cache_env \<Rightarrow> revision_key \<Rightarrow> directory_entry list \<Rightarrow> unit cop" where
  "insert_directory_snapshot_value E key value =
     insert_entries E ((EDirectory key, ce_directory_json E value)
       # map (\<lambda>e. (EMetadata (de_node e), ce_metadata_json E (de_metadata e))) value)"

definition insert_range_value :: "cache_env \<Rightarrow> range_key \<Rightarrow> bytes \<Rightarrow> unit cop" where
  "insert_range_value E key value =
     (if \<not> valid_range_payload key value then mfail CInvalidRange
      else if value = [] then mret ()
      else insert_entry E (ERange key) value)"

definition insert_filesystem_stats_value :: "cache_env \<Rightarrow> filesystem_stats \<Rightarrow> unit cop" where
  "insert_filesystem_stats_value E value = insert_entry E EFilesystemStats (ce_stats_json E value)"

subsection \<open>Reading\<close>

definition touch :: "entry_key list \<Rightarrow> unit cop" where
  "touch ks = mput (\<lambda>c. c\<lparr>pc_state := touch_entries ks (pc_state c)\<rparr>)"

text \<open>A corrupt entry is dropped; a failure to drop it is reported instead.\<close>

definition drop_corrupt :: "cache_env \<Rightarrow> entry_key \<Rightarrow> 'a cop" where
  "drop_corrupt E key = mbind (remove_keys_locked E [key]) (\<lambda>_. mfail CCorruptEntry)"

definition read_key :: "cache_env \<Rightarrow> entry_key \<Rightarrow> bytes option cop" where
  "read_key E key c = (case map_of (entries_of c) key of
     None \<Rightarrow> (Inr None, c)
   | Some entry \<Rightarrow>
       (case read_disk_entry E entry c of
          (Inr bytes, c1) \<Rightarrow> mbind (touch [key]) (\<lambda>_. mret (Some bytes)) c1
        | (Inl e, c1) \<Rightarrow> if e = CCorruptEntry then drop_corrupt E key c1 else (Inl e, c1)))"

definition decode_value :: "cache_env \<Rightarrow> entry_key \<Rightarrow> 'a option \<Rightarrow> 'a cop" where
  "decode_value E key parsed = (case parsed of Some v \<Rightarrow> mret v | None \<Rightarrow> drop_corrupt E key)"

definition get_metadata_value :: "cache_env \<Rightarrow> node_id \<Rightarrow> metadata option cop" where
  "get_metadata_value E node = mbind (read_key E (EMetadata node)) (\<lambda>r. case r of
     None \<Rightarrow> mret None
   | Some bytes \<Rightarrow> mbind (decode_value E (EMetadata node) (ce_parse_metadata E bytes)) (\<lambda>value.
       if md_node value \<noteq> node then drop_corrupt E (EMetadata node) else mret (Some value)))"

definition get_directory_value :: "cache_env \<Rightarrow> revision_key \<Rightarrow> directory_entry list option cop" where
  "get_directory_value E key = mbind (read_key E (EDirectory key)) (\<lambda>r. case r of
     None \<Rightarrow> mret None
   | Some bytes \<Rightarrow> mbind (decode_value E (EDirectory key) (ce_parse_directory E bytes)) (mret \<circ> Some))"

definition get_filesystem_stats_value :: "cache_env \<Rightarrow> filesystem_stats option cop" where
  "get_filesystem_stats_value E = mbind (read_key E EFilesystemStats) (\<lambda>r. case r of
     None \<Rightarrow> mret None
   | Some bytes \<Rightarrow> mbind (decode_value E EFilesystemStats (ce_parse_stats E bytes)) (mret \<circ> Some))"

fun read_segments :: "cache_env \<Rightarrow> (range_key \<times> disk_entry) list \<Rightarrow> entry_key segment list
    \<Rightarrow> entry_key segment list cop" where
  "read_segments E [] segments = mret segments"
| "read_segments E ((rkey, entry) # rest) segments = (\<lambda>c.
     (case read_disk_entry E entry c of
        (Inl e, c1) \<Rightarrow> if e = CCorruptEntry then drop_corrupt E (ERange rkey) c1 else (Inl e, c1)
      | (Inr data, c1) \<Rightarrow>
          if \<not> valid_range_payload rkey data then drop_corrupt E (ERange rkey) c1
          else read_segments E rest
                 (segments @ [\<lparr>sg_key = ERange rkey, sg_offset = rg_offset rkey, sg_data = data\<rparr>]) c1))"

definition range_entries :: "(range_key \<Rightarrow> bool) \<Rightarrow> pcache \<Rightarrow> (range_key \<times> disk_entry) list" where
  "range_entries p c = List.map_filter (\<lambda>(key, entry). case key of
     ERange candidate \<Rightarrow> if p candidate then Some (candidate, entry) else None
   | _ \<Rightarrow> None) (entries_of c)"

definition get_range_value :: "cache_env \<Rightarrow> range_key \<Rightarrow> bytes option cop" where
  "get_range_value E key c =
     (if checked_add (rg_offset key) (rg_length key) = None then (Inl CInvalidRange, c)
      else if rg_length key = 0 then (Inr (Some []), c)
      else if rg_length key > pc_maximum c then (Inr None, c)
      else mbind (read_segments E (range_entries (\<lambda>candidate.
                    rg_file candidate = rg_file key \<and> range_keys_overlap candidate key) c) [])
             (\<lambda>segments. case assemble_range key segments of
                None \<Rightarrow> mret None
              | Some a \<Rightarrow> mbind (touch (as_used_keys a)) (\<lambda>_. mret (Some (as_data a)))) c)"

definition get_covering_range_value :: "cache_env \<Rightarrow> range_key \<Rightarrow> (range_key \<times> bytes) option cop" where
  "get_covering_range_value E key c =
     (case checked_add (rg_offset key) (rg_length key) of
        None \<Rightarrow> (Inl CInvalidRange, c)
      | Some request_end \<Rightarrow>
          if rg_length key = 0 then (Inr (Some (key, [])), c)
          else if rg_length key > pc_maximum c then (Inr None, c)
          else (case min_by (rg_length \<circ> fst) (range_entries (\<lambda>rkey.
                  rg_file rkey = rg_file key \<and> rg_offset rkey \<le> rg_offset key \<and>
                  (case checked_add (rg_offset rkey) (rg_length rkey) of
                     None \<Rightarrow> False | Some range_end \<Rightarrow> range_end \<ge> request_end)) c) of
              None \<Rightarrow> (Inr None, c)
            | Some (rkey, entry) \<Rightarrow>
                (case read_disk_entry E entry c of
                   (Inr data, c1) \<Rightarrow>
                     if valid_range_payload rkey data
                     then mbind (touch [ERange rkey]) (\<lambda>_. mret (Some (rkey, data))) c1
                     else drop_corrupt E (ERange rkey) c1
                 | (Inl e, c1) \<Rightarrow>
                     if e = CCorruptEntry then drop_corrupt E (ERange rkey) c1 else (Inl e, c1))))"

subsection \<open>Invalidating\<close>

text \<open>Directory snapshots that name \<open>node\<close> as a child, or can no longer be read as a snapshot.\<close>

fun stale_directories :: "cache_env \<Rightarrow> node_id \<Rightarrow> (entry_key \<times> disk_entry) list \<Rightarrow> entry_key list
    \<Rightarrow> entry_key list cop" where
  "stale_directories E node [] removed = mret removed"
| "stale_directories E node ((key, entry) # rest) removed = (\<lambda>c.
     (case read_disk_entry E entry c of
        (Inl e, c1) \<Rightarrow> if e = CCorruptEntry
          then stale_directories E node rest (removed @ [key]) c1 else (Inl e, c1)
      | (Inr bytes, c1) \<Rightarrow>
          (case ce_parse_directory E bytes of
             None \<Rightarrow> stale_directories E node rest (removed @ [key]) c1
           | Some entries \<Rightarrow>
               if (\<exists>e \<in> set entries. de_node e = node)
               then stale_directories E node rest (removed @ [key]) c1
               else stale_directories E node rest removed c1)))"

fun is_directory_key :: "entry_key \<Rightarrow> bool" where
  "is_directory_key (EDirectory _) = True"
| "is_directory_key _ = False"

definition invalidate_node :: "cache_env \<Rightarrow> node_id \<Rightarrow> unit cop" where
  "invalidate_node E node c =
     (let removed = filter (\<lambda>key. entry_key_node key = Some node) (map fst (entries_of c));
          candidates = filter (\<lambda>(key, _). is_directory_key key \<and> key \<notin> set removed) (entries_of c)
      in mbind (stale_directories E node candidates removed) (remove_keys_locked E) c)"

definition invalidate_metadata :: "cache_env \<Rightarrow> node_id \<Rightarrow> unit cop" where
  "invalidate_metadata E node = remove_matching E (\<lambda>key. key = EMetadata node)"

definition invalidate_directories :: "cache_env \<Rightarrow> node_id \<Rightarrow> unit cop" where
  "invalidate_directories E node = remove_matching E (\<lambda>key. case key of
     EDirectory candidate \<Rightarrow> rk_node candidate = node | _ \<Rightarrow> False)"

definition invalidate_directories_containing :: "cache_env \<Rightarrow> node_id \<Rightarrow> unit cop" where
  "invalidate_directories_containing E node c =
     mbind (stale_directories E node (filter (\<lambda>(key, _). is_directory_key key) (entries_of c)) [])
       (remove_keys_locked E) c"

definition invalidate_ranges :: "cache_env \<Rightarrow> node_id \<Rightarrow> unit cop" where
  "invalidate_ranges E node = remove_matching E (\<lambda>key. case key of
     ERange candidate \<Rightarrow> rk_node (rg_file candidate) = node | _ \<Rightarrow> False)"

subsection \<open>Opening\<close>

fun load_entries :: "disk_entry list \<Rightarrow> (entry_key \<times> disk_entry) list \<Rightarrow> u64
    \<Rightarrow> cache_error + (entry_key \<times> disk_entry) list \<times> u64" where
  "load_entries [] entries payload = Inr (entries, payload)"
| "load_entries (entry # rest) entries payload =
     (if \<not> valid_cache_file_name (dk_file_name entry) then Inl CInvalidManifest
      else if payload + dk_stored_length entry > U64_MAX then Inl CInvalidManifest
      else if contains_key entries (dk_key entry) then Inl CInvalidManifest
      else load_entries rest (AList.update (dk_key entry) entry entries)
             (payload + dk_stored_length entry))"

definition load_manifest :: "cache_env \<Rightarrow> cache_namespace \<Rightarrow> bytes option
    \<Rightarrow> cache_error + persistent_state" where
  "load_manifest E ns file = (case file of
     None \<Rightarrow> Inr persistent_state_default
   | Some bytes \<Rightarrow>
       if length bytes > MAX_MANIFEST_SIZE then Inl CInvalidManifest
       else (case ce_parse_manifest E bytes of
           None \<Rightarrow> Inl CInvalidManifest
         | Some m \<Rightarrow>
             if mf_format_version m \<noteq> CACHE_FORMAT_VERSION \<or> length (mf_entries m) > MAX_MANIFEST_ENTRIES
             then Inl CInvalidManifest
             else if mf_namespace m \<noteq> ns then Inl CNamespaceMismatch
             else ebind (load_entries (mf_entries m) [] 0) (\<lambda>(entries, payload).
               Inr \<lparr>ps_clock = mf_clock m, ps_payload_bytes = payload, ps_entries = entries\<rparr>)))"

definition temporary_name :: "string \<Rightarrow> bool" where
  "temporary_name name \<longleftrightarrow> take 5 name = ''.tmp-''"

definition remove_orphaned_files :: "unit cop" where
  "remove_orphaned_files c =
     mbind (mfor (filter (\<lambda>name. temporary_name name \<or> valid_cache_file_name name \<and> name \<notin> file_names (pc_state c))
                    (map fst (pc_files c))) remove_cache_file) (\<lambda>_. sync_directory) c"

end
