(* ===== verification/Cache_Persistent_Props.thy ===== *)
theory Cache_Persistent_Props
  imports Cache_Persistent
begin

text \<open>
  Invariants of the durable cache: the manifest's accounting is exact and within the budget
  (\<open>acct\<close>), and every entry of the in-memory manifest has its payload on disk, complete and with the
  recorded digest (\<open>intact\<close>). Both hold after every operation, whatever file-system calls fail.
\<close>

subsection \<open>Accounting\<close>

definition stored_sum :: "(entry_key \<times> disk_entry) list \<Rightarrow> nat" where
  "stored_sum es = sum_list (map (dk_stored_length \<circ> snd) es)"

definition acct :: "persistent_state \<Rightarrow> bool" where
  "acct s \<longleftrightarrow> distinct_keys (ps_entries s) \<and> ps_payload_bytes s = stored_sum (ps_entries s) \<and>
     ps_clock s \<le> U64_MAX \<and>
     (\<forall>k e. (k, e) \<in> set (ps_entries s) \<longrightarrow> dk_key e = k \<and> dk_last_access e \<le> ps_clock s)"

lemma stored_sum_simps [simp]:
  "stored_sum [] = 0" "stored_sum (x # es) = dk_stored_length (snd x) + stored_sum es"
  by (simp_all add: stored_sum_def)

lemma stored_sum_delete:
  "distinct_keys es \<Longrightarrow> (k, e) \<in> set es \<Longrightarrow>
     stored_sum (AList.delete k es) + dk_stored_length e = stored_sum es"
  by (induction es) (auto simp: delete_id rev_image_eqI)

lemma stored_sum_update_new:
  "k \<notin> fst ` set es \<Longrightarrow> stored_sum (AList.update k e es) = stored_sum es + dk_stored_length e"
  by (induction es) auto

lemma stored_sum_ge: "(k, e) \<in> set es \<Longrightarrow> dk_stored_length e \<le> stored_sum es"
  by (induction es) auto

lemma set_delete_subset: "set (AList.delete k es) \<subseteq> set es"
  by (auto simp: AList.delete_eq)

lemma acct_delete:
  assumes "acct s" and "(k, e) \<in> set (ps_entries s)"
  shows "dk_stored_length e \<le> ps_payload_bytes s"
    and "acct (s\<lparr>ps_entries := AList.delete k (ps_entries s),
      ps_payload_bytes := ps_payload_bytes s - dk_stored_length e\<rparr>)"
  using assms stored_sum_ge [OF assms(2)] stored_sum_delete [OF _ assms(2)]
    set_delete_subset [of k "ps_entries s"]
  by (fastforce simp: acct_def)+

lemma remove_key_acct:
  assumes "acct s"
  shows "\<exists>t. remove_key k s = Inr t \<and> acct t \<and> ps_entries t = AList.delete k (ps_entries s) \<and>
    ps_payload_bytes t \<le> ps_payload_bytes s \<and> ps_clock t = ps_clock s"
proof (cases "map_of (ps_entries s) k")
  case None
  then have "AList.delete k (ps_entries s) = ps_entries s" by (simp add: delete_id map_of_eq_None_iff)
  moreover have "remove_key k s = Inr s" by (simp add: remove_key_def None del: map_of_eq_None_iff)
  ultimately show ?thesis using assms by simp
next
  case (Some e)
  note d = acct_delete [OF assms map_of_SomeD [OF Some]]
  with Some show ?thesis by (simp add: remove_key_def)
qed

lemma min_by_entry:
  assumes "min_by f (ps_entries s) = Some (k, e)" shows "(k, e) \<in> set (ps_entries s)"
  using min_by_Some [OF assms] by simp

text \<open>Eviction always reaches the budget and never fails.\<close>

lemma evict_to_budget_acct:
  "acct s \<Longrightarrow> \<exists>t. evict_to_budget m s = Inr t \<and> acct t \<and> ps_payload_bytes t \<le> m \<and>
     set (ps_entries t) \<subseteq> set (ps_entries s) \<and> ps_clock t = ps_clock s"
proof (induction m s rule: evict_to_budget.induct)
  case (1 m s)
  show ?case
  proof (cases "ps_payload_bytes s > m")
    case False
    with "1.prems" show ?thesis by (simp add: evict_to_budget.simps [of m s])
  next
    case True
    have "ps_entries s \<noteq> []" using True "1.prems" by (auto simp: acct_def)
    then obtain k e where m: "min_by eviction_order (ps_entries s) = Some (k, e)"
      by (metis min_by_None not_Some_eq surj_pair)
    note d = acct_delete [OF "1.prems" min_by_entry [OF m]]
    let ?t = "s\<lparr>ps_entries := AList.delete k (ps_entries s),
      ps_payload_bytes := ps_payload_bytes s - dk_stored_length e\<rparr>"
    have "evict_to_budget m s = evict_to_budget m ?t"
      using True m d(1) by (simp add: evict_to_budget.simps [of m s])
    with "1.IH" [OF True m refl _ d(2)] d(1) set_delete_subset [of k "ps_entries s"] show ?thesis
      by fastforce
  qed
qed

text \<open>An entry used strictly later than all others is evicted only if it exceeds the budget alone.\<close>

lemma evict_keeps_newest:
  assumes "acct s" and "(k, e) \<in> set (ps_entries s)" and "dk_stored_length e \<le> m"
    and "\<And>k' e'. (k', e') \<in> set (ps_entries s) \<Longrightarrow> k' \<noteq> k \<Longrightarrow> dk_last_access e' < dk_last_access e"
    and "evict_to_budget m s = Inr t"
  shows "(k, e) \<in> set (ps_entries t)"
  using assms
proof (induction m s rule: evict_to_budget.induct)
  case (1 m s)
  show ?case
  proof (cases "ps_payload_bytes s > m")
    case False
    with "1.prems" show ?thesis by (simp add: evict_to_budget.simps [of m s])
  next
    case True
    have "ps_entries s \<noteq> []" using "1.prems"(2) by auto
    then obtain k1 e1 where m: "min_by eviction_order (ps_entries s) = Some (k1, e1)"
      by (metis min_by_None not_Some_eq surj_pair)
    note mem = min_by_entry [OF m] and d = acct_delete [OF "1.prems"(1) min_by_entry [OF m]]
    have "k1 \<noteq> k"
    proof
      assume k1: "k1 = k"
      have "e1 = e" using "1.prems"(1,2) mem k1 by (auto simp: acct_def dest: eq_key_imp_eq_value)
      then have "stored_sum (AList.delete k (ps_entries s)) \<noteq> 0"
        using True "1.prems"(1,3) stored_sum_delete [OF _ mem] k1 by (auto simp: acct_def)
      then obtain k2 e2 where o: "(k2, e2) \<in> set (AList.delete k (ps_entries s))"
        by (cases "AList.delete k (ps_entries s)") auto
      then have "(k2, e2) \<in> set (ps_entries s)" "k2 \<noteq> k" by (auto simp: AList.delete_eq)
      then have "dk_last_access e2 < dk_last_access e" by (rule "1.prems"(4))
      moreover have "eviction_order (k1, e1) \<le> eviction_order (k2, e2)"
        using min_by_Some [OF m] \<open>(k2, e2) \<in> set (ps_entries s)\<close> by blast
      ultimately show False using \<open>e1 = e\<close> by (auto simp: eviction_order_def less_eq_prod_def)
    qed
    let ?t = "s\<lparr>ps_entries := AList.delete k1 (ps_entries s),
      ps_payload_bytes := ps_payload_bytes s - dk_stored_length e1\<rparr>"
    have "evict_to_budget m ?t = Inr t"
      using "1.prems"(5) True m d(1) by (simp add: evict_to_budget.simps [of m s])
    moreover have "(k, e) \<in> set (ps_entries ?t)"
      using "1.prems"(2) \<open>k1 \<noteq> k\<close> by (auto simp: AList.delete_eq)
    ultimately show ?thesis
      using "1.IH" [OF True m refl _ d(2)] d(1) "1.prems"(3,4) set_delete_subset [of k1 "ps_entries s"]
      by fastforce
  qed
qed

text \<open>A change of one entry that keeps its key and length, with the clock not running backwards.\<close>

lemma stored_sum_update_same:
  "map_of es k = Some e \<Longrightarrow> dk_stored_length e' = dk_stored_length e \<Longrightarrow>
     stored_sum (AList.update k e' es) = stored_sum es"
  by (induction es) auto

lemma acct_update:
  assumes "acct s" and "map_of (ps_entries s) k = Some e" and "ps_clock s \<le> t" "t \<le> U64_MAX"
  shows "acct (s\<lparr>ps_clock := t, ps_entries := AList.update k (e\<lparr>dk_last_access := t\<rparr>) (ps_entries s)\<rparr>)"
proof -
  have "dk_key e' = k' \<and> dk_last_access e' \<le> t"
    if "(k', e') \<in> set (AList.update k (e\<lparr>dk_last_access := t\<rparr>) (ps_entries s))" for k' e'
    using that alist_update_subset [of k "e\<lparr>dk_last_access := t\<rparr>" "ps_entries s"] assms(1,3)
      map_of_SomeD [OF assms(2)] by (fastforce simp: acct_def)
  with assms show ?thesis by (simp add: acct_def stored_sum_update_same)
qed

lemma acct_clock: "acct s \<Longrightarrow> ps_clock s \<le> t \<Longrightarrow> t \<le> U64_MAX \<Longrightarrow> acct (s\<lparr>ps_clock := t\<rparr>)"
  by (fastforce simp: acct_def)

lemma clock_next: "acct s \<Longrightarrow> ps_clock s \<le> saturating_add (ps_clock s) 1"
  by (simp add: acct_def saturating_add_def)

text \<open>What a lookup leaves alone: everything but the access times.\<close>

definition payload_id :: "disk_entry \<Rightarrow> string \<times> bytes \<times> u64" where
  "payload_id e = (dk_file_name e, dk_sha256 e, dk_stored_length e)"

definition same_payloads :: "persistent_state \<Rightarrow> persistent_state \<Rightarrow> bool" where
  "same_payloads s t \<longleftrightarrow> ps_payload_bytes t = ps_payload_bytes s \<and>
     (\<forall>k. map_option payload_id (map_of (ps_entries t) k) = map_option payload_id (map_of (ps_entries s) k))"

lemma same_payloads_refl [simp]: "same_payloads s s"
  by (simp add: same_payloads_def)

lemma same_payloads_trans: "same_payloads s t \<Longrightarrow> same_payloads t u \<Longrightarrow> same_payloads s u"
  by (simp add: same_payloads_def)

lemma touch_entry_acct:
  assumes "acct s"
  shows "acct (touch_entry k s)" and "same_payloads s (touch_entry k s)"
proof -
  let ?t = "saturating_add (ps_clock s) 1"
  show "acct (touch_entry k s)"
    using assms acct_update [OF assms _ clock_next [OF assms] saturating_add_le]
      acct_clock [OF assms clock_next [OF assms] saturating_add_le]
    by (simp add: touch_entry_def next_clock_def Let_def split: option.split)
  show "same_payloads s (touch_entry k s)"
    by (auto simp: touch_entry_def next_clock_def Let_def same_payloads_def payload_id_def
        split: option.split)
qed

lemma touch_entries_acct:
  assumes "acct s"
  shows "acct (touch_entries ks s)" and "same_payloads s (touch_entries ks s)"
proof -
  have "acct (touch_entries ks s) \<and> same_payloads s (touch_entries ks s)"
    using assms unfolding touch_entries_def
  proof (induction ks arbitrary: s)
    case (Cons k ks)
    from Cons.IH [OF touch_entry_acct(1) [OF Cons.prems]] touch_entry_acct(2) [OF Cons.prems]
    show ?case using same_payloads_trans by fastforce
  qed simp
  then show "acct (touch_entries ks s)" "same_payloads s (touch_entries ks s)" by simp_all
qed

definition entry_for :: "prepared_entry \<Rightarrow> u64 \<Rightarrow> disk_entry" where
  "entry_for p t = \<lparr>dk_key = pp_key p, dk_file_name = pp_file_name p,
     dk_stored_length = pp_stored_length p, dk_sha256 = pp_sha256 p, dk_last_access = t\<rparr>"

lemma splice_entry_acct:
  assumes "acct s" and "splice_entry s p = Inr t"
  shows "acct t" and "ps_clock t = saturating_add (ps_clock s) 1"
    and "ps_entries t = AList.update (pp_key p) (entry_for p (saturating_add (ps_clock s) 1))
      (AList.delete (pp_key p) (ps_entries s))"
proof -
  let ?c = "saturating_add (ps_clock s) 1" and ?k = "pp_key p"
  let ?s1 = "s\<lparr>ps_clock := ?c\<rparr>"
  have a1: "acct ?s1" using acct_clock [OF assms(1) clock_next [OF assms(1)] saturating_add_le] .
  obtain s2 where s2: "remove_key ?k ?s1 = Inr s2" "acct s2"
    "ps_entries s2 = AList.delete ?k (ps_entries s)" "ps_clock s2 = ?c"
    using remove_key_acct [OF a1, of ?k] by auto
  have t: "t = s2\<lparr>ps_payload_bytes := ps_payload_bytes s2 + pp_stored_length p,
      ps_entries := AList.update ?k (entry_for p ?c) (ps_entries s2)\<rparr>"
    using assms(2) s2(1) by (auto simp: splice_entry_def next_clock_def Let_def entry_for_def split: if_splits)
  show "ps_clock t = ?c" "ps_entries t = AList.update ?k (entry_for p ?c) (AList.delete ?k (ps_entries s))"
    using t s2 by simp_all
  have new: "?k \<notin> fst ` set (ps_entries s2)" using s2(3) by (simp add: delete_notin_dom)
  have "dk_key e = k' \<and> dk_last_access e \<le> ?c"
    if "(k', e) \<in> set (AList.update ?k (entry_for p ?c) (ps_entries s2))" for k' e
    using that alist_update_subset [of ?k "entry_for p ?c" "ps_entries s2"] s2(2,4)
    by (fastforce simp: acct_def entry_for_def)
  with s2(2,4) new show "acct t"
    by (simp add: t acct_def stored_sum_update_new entry_for_def)
qed

subsection \<open>Payloads on disk\<close>

text \<open>
  \<open>U\<close> is the set of key and payload pairs that are ever stored: their file names are well formed
  and no two of them collide, which is what SHA-256 is trusted for.
\<close>

definition env_ok :: "cache_env \<Rightarrow> (entry_key \<times> bytes) set \<Rightarrow> bool" where
  "env_ok E U \<longleftrightarrow>
     (\<forall>k b k' b'. (k, b) \<in> U \<longrightarrow> (k', b') \<in> U \<longrightarrow>
        payload_file_name E k b = payload_file_name E k' b' \<longrightarrow> k = k' \<and> b = b') \<and>
     (\<forall>k b. (k, b) \<in> U \<longrightarrow> valid_cache_file_name (payload_file_name E k b))"

definition entry_intact :: "cache_env \<Rightarrow> (entry_key \<times> bytes) set \<Rightarrow> (string \<times> bytes) list
    \<Rightarrow> entry_key \<Rightarrow> disk_entry \<Rightarrow> bool" where
  "entry_intact E U files k e \<longleftrightarrow> (\<exists>bs. (k, bs) \<in> U \<and> map_of files (dk_file_name e) = Some bs \<and>
     payload_id e = (payload_file_name E k bs, ce_sha256 E bs, length bs))"

definition state_intact :: "cache_env \<Rightarrow> (entry_key \<times> bytes) set \<Rightarrow> (string \<times> bytes) list
    \<Rightarrow> persistent_state \<Rightarrow> bool" where
  "state_intact E U files s \<longleftrightarrow>
     (\<forall>k e. map_of (ps_entries s) k = Some e \<longrightarrow> entry_intact E U files k e)"

definition cache_inv :: "cache_env \<Rightarrow> (entry_key \<times> bytes) set \<Rightarrow> pcache \<Rightarrow> bool" where
  "cache_inv E U c \<longleftrightarrow> acct (pc_state c) \<and> ps_payload_bytes (pc_state c) \<le> pc_maximum c \<and>
     state_intact E U (pc_files c) (pc_state c)"

lemma file_names_memb: "map_of (ps_entries s) k = Some e \<Longrightarrow> dk_file_name e \<in> file_names s"
  by (force simp: file_names_def dest: map_of_SomeD)

lemma state_intact_delete:
  "state_intact E U files s \<Longrightarrow> n \<notin> file_names s \<Longrightarrow> state_intact E U (AList.delete n files) s"
  unfolding state_intact_def entry_intact_def
  by (metis file_names_memb map_of_alist_delete)

lemma state_intact_write:
  assumes "env_ok E U" and "state_intact E U files s" and "(k, bs) \<in> U"
  shows "state_intact E U (AList.update (payload_file_name E k bs) bs files) s"
  unfolding state_intact_def entry_intact_def
proof (intro allI impI)
  fix k' e assume "map_of (ps_entries s) k' = Some e"
  with assms(2) obtain bs' where b: "(k', bs') \<in> U" "map_of files (dk_file_name e) = Some bs'"
    "payload_id e = (payload_file_name E k' bs', ce_sha256 E bs', length bs')"
    unfolding state_intact_def entry_intact_def by blast
  have "bs' = bs" if "payload_file_name E k' bs' = payload_file_name E k bs"
    using assms(1,3) b(1) that unfolding env_ok_def by blast
  with b show "\<exists>bs'. (k', bs') \<in> U \<and>
      map_of (AList.update (payload_file_name E k bs) bs files) (dk_file_name e) = Some bs' \<and>
      payload_id e = (payload_file_name E k' bs', ce_sha256 E bs', length bs')"
    by (auto simp: payload_id_def)
qed

text \<open>State predicates that file-system housekeeping cannot break.\<close>

definition stable :: "(pcache \<Rightarrow> bool) \<Rightarrow> bool" where
  "stable I \<longleftrightarrow> (\<forall>c os. I c \<longrightarrow> I (c\<lparr>pc_outcomes := os\<rparr>)) \<and>
     (\<forall>c n. n \<notin> file_names (pc_state c) \<longrightarrow> I c \<longrightarrow> I (c\<lparr>pc_files := AList.delete n (pc_files c)\<rparr>)) \<and>
     (\<forall>c m. I c \<longrightarrow> I (c\<lparr>pc_manifest := m\<rparr>)) \<and> (\<forall>c n. I c \<longrightarrow> I (c\<lparr>pc_manifest_writes := n\<rparr>))"

lemma stable_cache_inv [simp]: "stable (cache_inv E U)"
  by (simp add: stable_def cache_inv_def state_intact_delete)

lemma stable_fields [simp]:
  "stable (\<lambda>c. pc_state c = S \<and> pc_maximum c = M \<and> pc_active c = a)"
  by (simp add: stable_def)

lemma stable_conj: "stable I \<Longrightarrow> stable J \<Longrightarrow> stable (\<lambda>c. I c \<and> J c)"
  by (simp add: stable_def)

lemma stable_next_io: "stable I \<Longrightarrow> preserves I next_io"
  by (auto simp: preserves_def stable_def next_io_def split: list.split)

lemma stable_sync: "stable I \<Longrightarrow> preserves I sync_directory"
  unfolding sync_directory_def by (auto intro!: pres_intros stable_next_io)

lemma stable_remove_file:
  assumes "stable I" and "I c" and "n \<notin> file_names (pc_state c)"
  shows "I (snd (remove_cache_file n c))"
proof -
  obtain o' c1 where io: "next_io c = (Inr o', c1)" "pc_state c1 = pc_state c"
    by (cases "pc_outcomes c") (auto simp: next_io_def)
  have "I c1" using preserves_result [OF stable_next_io [OF assms(1)] assms(2) io(1)] .
  then have "I (c1\<lparr>pc_files := AList.delete n (pc_files c1)\<rparr>)"
    using assms(1,3) io(2) by (simp add: stable_def)
  with \<open>I c1\<close> io show ?thesis by (simp add: remove_cache_file_def mbind_def mput_def mfail_def)
qed

lemma stable_remove_unreferenced: "stable I \<Longrightarrow> preserves I (remove_unreferenced_files ns)"
  unfolding remove_unreferenced_files_def
  by (intro preserves_mfor preservesI) (auto intro: stable_remove_file)

lemma stable_write_manifest: "stable I \<Longrightarrow> preserves I (write_manifest E s)"
  by (rule preservesI)
    (auto simp: write_manifest_def write_private_atomic_def next_io_def monad_simps stable_def Let_def
      split: list.split io_outcome.split)

lemma commit_state_inv:
  assumes inv: "cache_inv E U c" and p: "acct p" "ps_payload_bytes p \<le> pc_maximum c"
    "state_intact E U (pc_files c) p"
  shows "cache_inv E U (snd (commit_state E p c))"
    and "isOk (fst (commit_state E p c)) \<Longrightarrow> pc_state (snd (commit_state E p c)) = p"
    and "pc_maximum (snd (commit_state E p c)) = pc_maximum c"
    and "pc_active (snd (commit_state E p c)) = pc_active c"
proof -
  let ?J = "\<lambda>S c'. cache_inv E U c' \<and> pc_state c' = S \<and> pc_maximum c' = pc_maximum c \<and> pc_active c' = pc_active c"
  have "(case commit_state E p c of (r, c') \<Rightarrow>
      cache_inv E U c' \<and> (isOk r \<longrightarrow> pc_state c' = p) \<and> pc_maximum c' = pc_maximum c \<and>
      pc_active c' = pc_active c)"
  proof (cases "pc_active c")
    case True
    with inv p show ?thesis by (simp add: commit_state_def Let_def cache_inv_def)
  next
    case False
    obtain r1 c1 where w: "write_manifest E p c = (r1, c1)" by fastforce
    have files: "pc_files c1 = pc_files c"
      using w by (auto simp: write_manifest_def write_private_atomic_def next_io_def monad_simps Let_def
          split: list.splits io_outcome.splits if_splits)
    have c1: "?J (pc_state c) c1"
      using preserves_result [OF stable_write_manifest [OF stable_conj [OF stable_cache_inv stable_fields]] _ w]
        inv by fast
    let ?c2 = "c1\<lparr>pc_state := p, pc_dirty := False, pc_pending_removals := []\<rparr>"
    let ?rest = "mbind (remove_unreferenced_files (pc_pending_removals c1 @ obsolete_names (pc_state c) p))
      (\<lambda>_. sync_directory)"
    have "?J p ?c2" using c1 p files by (simp add: cache_inv_def)
    moreover have "preserves (?J p) ?rest"
      by (intro preserves_mbind stable_remove_unreferenced stable_sync stable_conj stable_cache_inv
          stable_fields)
    ultimately have c3: "?J p (snd (?rest ?c2))" by (rule preservesD [rotated])
    show ?thesis
    proof (cases r1)
      case (Inl e)
      with False w c1 show ?thesis by (simp add: commit_state_def Let_def mbind_def)
    next
      case (Inr u)
      with False w c3 show ?thesis
        by (simp add: commit_state_def Let_def mbind_def [of "write_manifest E p"]
            mbind_def [of "mput f" for f] mput_def case_prod_unfold)
    qed
  qed
  then show "cache_inv E U (snd (commit_state E p c))"
    "isOk (fst (commit_state E p c)) \<Longrightarrow> pc_state (snd (commit_state E p c)) = p"
    "pc_maximum (snd (commit_state E p c)) = pc_maximum c"
    "pc_active (snd (commit_state E p c)) = pc_active c"
    by (auto simp: case_prod_unfold)
qed

lemma state_intact_subset:
  assumes "state_intact E U files s" and "distinct_keys (ps_entries s)" and "distinct_keys (ps_entries t)"
    and "set (ps_entries t) \<subseteq> set (ps_entries s)"
  shows "state_intact E U files t"
  using assms unfolding state_intact_def by (metis map_of_SomeD map_of_is_SomeI subsetD)

lemma remove_keys_acct:
  assumes "acct s"
  shows "\<exists>t. foldl (\<lambda>r key. ebind r (remove_key key)) (Inr s) ks = Inr t \<and> acct t \<and>
    (\<forall>k. map_of (ps_entries t) k = (if k \<in> set ks then None else map_of (ps_entries s) k)) \<and>
    ps_payload_bytes t \<le> ps_payload_bytes s"
  using assms
proof (induction ks arbitrary: s)
  case (Cons k ks)
  obtain u where u: "remove_key k s = Inr u" "acct u" "ps_entries u = AList.delete k (ps_entries s)"
    "ps_payload_bytes u \<le> ps_payload_bytes s"
    using remove_key_acct [OF Cons.prems] by blast
  from Cons.IH [OF u(2)] u show ?case by fastforce
qed simp

lemma remove_keys_locked_inv:
  assumes "cache_inv E U c"
  shows "cache_inv E U (snd (remove_keys_locked E ks c))"
    and "isOk (fst (remove_keys_locked E ks c)) \<Longrightarrow>
      map_of (entries_of (snd (remove_keys_locked E ks c))) k =
        (if k \<in> set ks then None else map_of (entries_of c) k)"
    and "pc_maximum (snd (remove_keys_locked E ks c)) = pc_maximum c"
proof -
  from assms have "acct (pc_state c)" by (simp add: cache_inv_def)
  then obtain p where p: "foldl (\<lambda>r key. ebind r (remove_key key)) (Inr (pc_state c)) ks = Inr p" "acct p"
    "\<And>k. map_of (ps_entries p) k = (if k \<in> set ks then None else map_of (entries_of c) k)"
    "ps_payload_bytes p \<le> ps_payload_bytes (pc_state c)" using remove_keys_acct by metis
  have "state_intact E U (pc_files c) p"
    using assms p(3) by (auto simp: cache_inv_def state_intact_def)
  note cs = commit_state_inv [OF assms p(2) _ this]
  have b: "ps_payload_bytes p \<le> pc_maximum c" using p(4) assms by (simp add: cache_inv_def)
  show "cache_inv E U (snd (remove_keys_locked E ks c))"
    "isOk (fst (remove_keys_locked E ks c)) \<Longrightarrow>
      map_of (entries_of (snd (remove_keys_locked E ks c))) k =
        (if k \<in> set ks then None else map_of (entries_of c) k)"
    "pc_maximum (snd (remove_keys_locked E ks c)) = pc_maximum c"
    using cs [OF b] assms p(1,3) by (auto simp: remove_keys_locked_def)
qed

subsection \<open>Storing\<close>

definition from_U :: "cache_env \<Rightarrow> (entry_key \<times> bytes) set \<Rightarrow> prepared_entry \<Rightarrow> bool" where
  "from_U E U p \<longleftrightarrow> (pp_key p, pp_bytes p) \<in> U \<and> p = prepare_entry E (pp_key p) (pp_bytes p)"

definition same_control :: "pcache \<Rightarrow> pcache \<Rightarrow> bool" where
  "same_control c c' \<longleftrightarrow> pc_state c' = pc_state c \<and> pc_maximum c' = pc_maximum c \<and> pc_active c' = pc_active c"

lemma from_U_simps:
  "from_U E U p \<Longrightarrow> pp_file_name p = payload_file_name E (pp_key p) (pp_bytes p)"
  "from_U E U p \<Longrightarrow> pp_sha256 p = ce_sha256 E (pp_bytes p)"
  "from_U E U p \<Longrightarrow> pp_stored_length p = length (pp_bytes p)"
  by (simp_all add: from_U_def prepare_entry_def) (metis prepared_entry.select_convs)+

lemma write_payload_inv:
  assumes "env_ok E U" and "cache_inv E U c" and "from_U E U p"
    and "write_private_atomic
      (\<lambda>c. c\<lparr>pc_files := AList.update (pp_file_name p) (pp_bytes p) (pc_files c)\<rparr>) c = (r, c1)"
  shows "cache_inv E U c1 \<and> same_control c c1 \<and>
    (isOk r \<longrightarrow> pc_files c1 = AList.update (pp_file_name p) (pp_bytes p) (pc_files c))"
proof -
  have "state_intact E U (AList.update (pp_file_name p) (pp_bytes p) (pc_files c)) (pc_state c)"
    using state_intact_write [OF assms(1), of "pc_files c" "pc_state c" "pp_key p" "pp_bytes p"] assms(2,3)
    by (simp add: cache_inv_def from_U_simps(1) [OF assms(3)] from_U_def)
  with assms(2,4) show ?thesis
    by (auto simp: write_private_atomic_def next_io_def monad_simps cache_inv_def same_control_def
        split: list.splits io_outcome.splits)
qed

lemma same_control_trans: "same_control c d \<Longrightarrow> same_control d e \<Longrightarrow> same_control c e"
  by (simp add: same_control_def)

lemma same_control_stable: "stable (\<lambda>d. cache_inv E U d \<and> same_control c d)"
  unfolding same_control_def by (intro stable_conj [OF stable_cache_inv stable_fields])

lemma write_payloads_inv:
  assumes "env_ok E U" and "cache_inv E U c" and "\<And>p. p \<in> set ps \<Longrightarrow> from_U E U p"
    and "write_payloads ps written c = (r, c1)"
  shows "cache_inv E U c1 \<and> same_control c c1 \<and> (isOk r \<longrightarrow>
    (\<forall>k b. (k, b) \<in> U \<longrightarrow> (prepare_entry E k b \<in> set ps \<or>
        map_of (pc_files c) (payload_file_name E k b) = Some b) \<longrightarrow>
      map_of (pc_files c1) (payload_file_name E k b) = Some b))"
  using assms(2-)
proof (induction ps arbitrary: c written)
  case Nil
  then show ?case by (simp add: mret_def same_control_def)
next
  case (Cons p ps)
  obtain r2 c2 where w: "write_private_atomic
      (\<lambda>c. c\<lparr>pc_files := AList.update (pp_file_name p) (pp_bytes p) (pc_files c)\<rparr>) c = (r2, c2)" by fastforce
  have U: "from_U E U p" using Cons.prems(2) by simp
  note wi = write_payload_inv [OF assms(1) Cons.prems(1) U w]
  show ?case
  proof (cases r2)
    case (Inl e)
    let ?d = "mbind (mignore (remove_unreferenced_files written)) (\<lambda>_. mfail e)"
    have pd: "preserves (\<lambda>d. cache_inv E U d \<and> same_control c d) ?d"
      by (intro preserves_mbind preserves_mignore preserves_mfail stable_remove_unreferenced same_control_stable)
    have "cache_inv E U c2 \<and> same_control c c2" using wi by (elim conjE) (intro conjI)
    note preservesD [OF pd this]
    moreover have "(r, c1) = ?d c2" using Cons.prems(3) w Inl by simp
    moreover have "\<not> isOk (fst (?d c2))" by (simp add: mbind_def mignore_def mfail_def)
    ultimately show ?thesis by (metis fst_conv snd_conv)
  next
    case (Inr u)
    have "write_payloads ps (written @ [pp_file_name p]) c2 = (r, c1)"
      using Cons.prems(3) w Inr by simp
    note ih = Cons.IH [OF _ _ this]
    have files: "pc_files c2 = AList.update (pp_file_name p) (pp_bytes p) (pc_files c)"
      using wi Inr by simp
    have "map_of (pc_files c2) (payload_file_name E k b) = Some b"
      if "(k, b) \<in> U" "prepare_entry E k b = p \<or> map_of (pc_files c) (payload_file_name E k b) = Some b" for k b
    proof (cases "payload_file_name E k b = pp_file_name p")
      case True
      then have "b = pp_bytes p"
        using assms(1) that(1) U unfolding env_ok_def from_U_simps(1) [OF U]
        by (metis from_U_def)
      with True files show ?thesis by simp
    next
      case False
      with that files show ?thesis by (auto simp: prepare_entry_def)
    qed
    with ih wi Cons.prems(2) same_control_trans show ?thesis by fastforce
  qed
qed

text \<open>What a spliced entry finds on disk.\<close>

definition payload_present :: "cache_env \<Rightarrow> (string \<times> bytes) list \<Rightarrow> prepared_entry \<Rightarrow> bool" where
  "payload_present E files p \<longleftrightarrow> map_of files (pp_file_name p) = Some (pp_bytes p)"

lemma splice_entry_intact:
  assumes "acct s" and "state_intact E U files s" and "from_U E U p" and "payload_present E files p"
    and "splice_entry s p = Inr t"
  shows "state_intact E U files t"
proof -
  note sp = splice_entry_acct [OF assms(1,5)]
  have "entry_intact E U files (pp_key p) (entry_for p c)" for c
    using assms(3,4) from_U_simps [OF assms(3)]
    by (auto simp: entry_intact_def entry_for_def payload_id_def payload_present_def from_U_def)
  with assms(2) show ?thesis unfolding state_intact_def sp(3) by auto
qed

lemma splice_all:
  assumes "acct s" and "state_intact E U files s"
    and "\<And>p. p \<in> set ps \<Longrightarrow> from_U E U p \<and> payload_present E files p"
    and "foldl (\<lambda>r entry. ebind r (\<lambda>s. splice_entry s entry)) (Inr s) ps = Inr t"
  shows "acct t \<and> state_intact E U files t"
  using assms
proof (induction ps arbitrary: s)
  case (Cons p ps)
  have err: "foldl (\<lambda>r entry. ebind r (\<lambda>s. splice_entry s entry)) (Inl e) qs = Inl e" for e qs
    by (induction qs) auto
  from Cons.prems(4) obtain u where u: "splice_entry s p = Inr u"
    by (cases "splice_entry s p") (auto simp: err)
  have p: "from_U E U p" "payload_present E files p" using Cons.prems(3) by auto
  show ?case
    using Cons.IH [OF splice_entry_acct(1) [OF Cons.prems(1) u]
        splice_entry_intact [OF Cons.prems(1,2) p u]] Cons.prems(3,4) u by simp
qed simp

lemma propose_inv:
  assumes "acct s" and "state_intact E U files s"
    and "\<And>p. p \<in> set ps \<Longrightarrow> from_U E U p \<and> payload_present E files p"
    and "propose m ps s = Inr t"
  shows "acct t" "state_intact E U files t" "ps_payload_bytes t \<le> m"
proof -
  from assms(4) obtain u where u: "foldl (\<lambda>r entry. ebind r (\<lambda>s. splice_entry s entry)) (Inr s) ps = Inr u"
    "evict_to_budget m u = Inr t"
    by (auto simp: propose_def ebind_Inr_iff split: if_splits)
  note sa = splice_all [OF assms(1-3) u(1)]
  obtain t' where t: "evict_to_budget m u = Inr t'" "acct t'" "ps_payload_bytes t' \<le> m"
    "set (ps_entries t') \<subseteq> set (ps_entries u)"
    using evict_to_budget_acct sa by blast
  with u(2) have "t' = t" by simp
  with t sa show "acct t" "ps_payload_bytes t \<le> m" by simp_all
  show "state_intact E U files t"
    using state_intact_subset [of E U files u t] sa t \<open>t' = t\<close> by (auto simp: acct_def)
qed

lemma insert_entries_inv:
  assumes "env_ok E U" and inv: "cache_inv E U c" and "set entries \<subseteq> U"
  shows "cache_inv E U (snd (insert_entries E entries c))"
proof -
  define prepared where "prepared = filter (\<lambda>e. \<not> already_current (pc_state c) e)
    (map (\<lambda>(key, bytes). prepare_entry E key bytes) entries)"
  have fromU: "from_U E U p" if "p \<in> set prepared" for p
    using that assms(3) by (auto simp: prepared_def from_U_def prepare_entry_def)
  obtain r1 c1 where w: "write_payloads prepared [] c = (r1, c1)" by fastforce
  note wp = write_payloads_inv [OF assms(1) inv fromU w]
  let ?res = "case propose (pc_maximum c1) prepared (pc_state c1) of
    Inl e \<Rightarrow> (Inl e, c1) | Inr proposed \<Rightarrow> commit_state E proposed c1"
  have "cache_inv E U (snd ?res)" if "isOk r1"
  proof (cases "propose (pc_maximum c1) prepared (pc_state c1)")
    case (Inl e)
    with wp show ?thesis by simp
  next
    case (Inr p)
    have "payload_present E (pc_files c1) q" if "q \<in> set prepared" for q
      using wp \<open>isOk r1\<close> fromU [OF that] that from_U_simps(1) [OF fromU [OF that]]
      by (auto simp: payload_present_def from_U_def)
    with propose_inv [OF _ _ _ Inr, of E U "pc_files c1"] fromU wp
    have "acct p" "state_intact E U (pc_files c1) p" "ps_payload_bytes p \<le> pc_maximum c1"
      by (auto simp: cache_inv_def)
    with commit_state_inv(1) wp Inr show ?thesis by simp
  qed
  moreover have "cache_inv E U (snd (remove_unreferenced_files ws d))" if "cache_inv E U d" for ws d
    using preservesD [OF stable_remove_unreferenced [OF stable_cache_inv] that] .
  ultimately show ?thesis
    using inv wp w unfolding insert_entries_def prepared_def [symmetric] Let_def
    by (auto simp: mbind_def case_prod_unfold split: sum.split)
qed

subsection \<open>Reading and invalidating\<close>

lemma state_intact_same:
  assumes "state_intact E U files s" and "same_payloads s t"
  shows "state_intact E U files t"
  unfolding state_intact_def
proof (intro allI impI)
  fix k e assume e: "map_of (ps_entries t) k = Some e"
  have "map_option payload_id (map_of (ps_entries t) k) = map_option payload_id (map_of (ps_entries s) k)"
    using assms(2) by (simp only: same_payloads_def)
  with e obtain e' where e': "map_of (ps_entries s) k = Some e'" "payload_id e' = payload_id e"
    by (cases "map_of (ps_entries s) k") auto
  with assms(1) have "entry_intact E U files k e'" by (simp add: state_intact_def)
  with e'(2) show "entry_intact E U files k e" by (simp add: entry_intact_def payload_id_def)
qed

lemma touch_inv: "preserves (cache_inv E U) (touch ks)"
  unfolding touch_def
proof (rule preserves_mput)
  fix c assume "cache_inv E U c"
  then show "cache_inv E U (c\<lparr>pc_state := touch_entries ks (pc_state c)\<rparr>)"
    using touch_entries_acct [of "pc_state c" ks]
    by (auto simp: cache_inv_def same_payloads_def intro: state_intact_same)
qed

lemma read_disk_entry_stable: "stable I \<Longrightarrow> preserves I (read_disk_entry E e)"
  unfolding read_disk_entry_def
  by (intro preserves_if preserves_mfail preserves_mbind stable_next_io preservesI)
    (auto split: option.split)

lemma drop_corrupt_inv: "preserves (cache_inv E U) (drop_corrupt E k)"
  unfolding drop_corrupt_def
  by (intro preserves_mbind preserves_mfail preservesI remove_keys_locked_inv(1))

lemma remove_matching_inv: "preserves (cache_inv E U) (remove_matching E P)"
  by (rule preservesI) (simp add: remove_matching_def remove_keys_locked_inv(1))

text \<open>A read followed by a handler for its result.\<close>

lemma read_then_inv:
  assumes "cache_inv E U c" and "read_disk_entry E e c = (r, c1)"
  shows "cache_inv E U c1" "cache_inv E U (snd (drop_corrupt E k c1))"
proof -
  show "cache_inv E U c1"
    using preserves_result [OF read_disk_entry_stable [OF stable_cache_inv] assms] .
  then show "cache_inv E U (snd (drop_corrupt E k c1))" by (rule preservesD [OF drop_corrupt_inv])
qed

lemma read_key_inv: "preserves (cache_inv E U) (read_key E k)"
proof (rule preservesI)
  fix c assume c: "cache_inv E U c"
  have "preserves (cache_inv E U) (mbind (touch [k]) (\<lambda>_. mret (Some bs)))" for bs :: bytes
    by (intro preserves_mbind touch_inv preserves_mret)
  note t = preservesD [OF this]
  show "cache_inv E U (snd (read_key E k c))"
    using c read_then_inv [OF c]
    by (auto simp: read_key_def t split: option.split prod.split sum.split)
qed

lemma decode_value_inv: "preserves (cache_inv E U) (decode_value E k v)"
  by (cases v) (simp_all add: decode_value_def preserves_mret drop_corrupt_inv)

lemma preserves_case_option:
  "preserves I m \<Longrightarrow> (\<And>b. preserves I (f b)) \<Longrightarrow>
     preserves I (case r of None \<Rightarrow> m | Some b \<Rightarrow> f b)"
  by (cases r) simp_all

lemma preserves_mret_comp: "preserves I ((mret \<circ> g) y)"
  by (simp add: preserves_mret)

lemma get_values_inv:
  "preserves (cache_inv E U) (get_metadata_value E n)"
  "preserves (cache_inv E U) (get_directory_value E rk)"
  "preserves (cache_inv E U) (get_filesystem_stats_value E)"
  unfolding get_metadata_value_def get_directory_value_def get_filesystem_stats_value_def
  by (intro preserves_mbind read_key_inv preserves_case_option decode_value_inv preserves_if
      drop_corrupt_inv preserves_mret preserves_mret_comp)+

lemma read_segments_inv:
  "cache_inv E U c \<Longrightarrow> cache_inv E U (snd (read_segments E es segs c))"
proof (induction es arbitrary: segs c)
  case (Cons x es)
  then show ?case
    using read_then_inv [OF Cons.prems] by (cases x) (auto split: prod.split sum.split)
qed (simp add: mret_def)

lemma get_range_inv:
  "preserves (cache_inv E U) (get_range_value E k)"
  "preserves (cache_inv E U) (get_covering_range_value E k)"
proof -
  have opt: "preserves (cache_inv E U) (case a of None \<Rightarrow> mret None
      | Some a \<Rightarrow> mbind (touch (as_used_keys a)) (\<lambda>_. mret (Some (as_data a))))" for a
    by (cases a) (auto intro!: preserves_mbind touch_inv preserves_mret)
  have "preserves (cache_inv E U) (mbind (read_segments E es []) (\<lambda>segments.
      case assemble_range k segments of None \<Rightarrow> mret None
      | Some a \<Rightarrow> mbind (touch (as_used_keys a)) (\<lambda>_. mret (Some (as_data a)))))" for es
    by (intro preserves_mbind opt preservesI read_segments_inv)
  note rs = preservesD [OF this]
  show "preserves (cache_inv E U) (get_range_value E k)"
    by (rule preservesI) (simp add: get_range_value_def rs)
  have "preserves (cache_inv E U) (mbind (touch ks) (\<lambda>_. mret v))" for ks and v :: "(range_key \<times> bytes) option"
    by (intro preserves_mbind touch_inv preserves_mret)
  note t = preservesD [OF this]
  show "preserves (cache_inv E U) (get_covering_range_value E k)"
  proof (rule preservesI)
    fix c assume c: "cache_inv E U c"
    show "cache_inv E U (snd (get_covering_range_value E k c))"
      using c read_then_inv [OF c]
      by (auto simp: get_covering_range_value_def t split: option.split prod.split sum.split)
  qed
qed

lemma stale_directories_inv:
  "cache_inv E U c \<Longrightarrow> cache_inv E U (snd (stale_directories E n es removed c))"
proof (induction es arbitrary: removed c)
  case (Cons x es)
  then show ?case
    using read_then_inv [OF Cons.prems] by (cases x) (auto split: prod.split sum.split option.split)
qed (simp add: mret_def)

lemma invalidate_inv:
  "preserves (cache_inv E U) (invalidate_node E n)"
  "preserves (cache_inv E U) (invalidate_directories_containing E n)"
  "preserves (cache_inv E U) (invalidate_metadata E n)"
  "preserves (cache_inv E U) (invalidate_directories E n)"
  "preserves (cache_inv E U) (invalidate_ranges E n)"
proof -
  have "preserves (cache_inv E U) (mbind (stale_directories E n es rm) (remove_keys_locked E))" for es rm
    by (intro preserves_mbind preservesI stale_directories_inv remove_keys_locked_inv(1))
  note sd = preservesD [OF this]
  show "preserves (cache_inv E U) (invalidate_node E n)"
    "preserves (cache_inv E U) (invalidate_directories_containing E n)"
    by (rule preservesI, simp add: invalidate_node_def invalidate_directories_containing_def Let_def sd)+
qed (simp_all add: invalidate_metadata_def invalidate_directories_def invalidate_ranges_def
    remove_matching_inv)

lemma flush_inv: "preserves (cache_inv E U) (flush_deferred_commits E)"
proof (rule preservesI)
  fix c assume "cache_inv E U c"
  then have c1: "cache_inv E U (c\<lparr>pc_active := False\<rparr>)" by (simp add: cache_inv_def)
  have "preserves (cache_inv E U) (mbind (mput (\<lambda>c. c\<lparr>pc_dirty := False, pc_pending_removals := []\<rparr>))
      (\<lambda>_. mbind (remove_unreferenced_files ns) (\<lambda>_. sync_directory)))" for ns
    by (intro preserves_mbind preserves_mput stable_remove_unreferenced stable_sync stable_cache_inv)
      (simp add: cache_inv_def)
  note rest = preservesD [OF this]
  have "preserves (cache_inv E U) (mbind (write_manifest E s) (\<lambda>_ c2.
      mbind (mput (\<lambda>c. c\<lparr>pc_dirty := False, pc_pending_removals := []\<rparr>))
        (\<lambda>_. mbind (remove_unreferenced_files (pc_pending_removals c2)) (\<lambda>_. sync_directory)) c2))" for s
    by (intro preserves_mbind stable_write_manifest stable_cache_inv preservesI rest)
  from preservesD [OF this c1] c1 show "cache_inv E U (snd (flush_deferred_commits E c))"
    by (simp add: flush_deferred_commits_def Let_def)
qed

subsection \<open>Sequences of operations\<close>

datatype pc_op = PInsert "(entry_key \<times> bytes) list" | PGetMetadata node_id | PGetDirectory revision_key
  | PGetStats | PGetRange range_key | PGetCovering range_key | PInvalidateNode node_id
  | PInvalidateMetadata node_id | PInvalidateDirectories node_id | PInvalidateContaining node_id
  | PInvalidateRanges node_id | PBeginBatch | PFlushBatch

primrec run_pc :: "cache_env \<Rightarrow> pcache \<Rightarrow> pc_op \<Rightarrow> pcache" where
  "run_pc E c (PInsert es) = snd (insert_entries E es c)"
| "run_pc E c (PGetMetadata n) = snd (get_metadata_value E n c)"
| "run_pc E c (PGetDirectory k) = snd (get_directory_value E k c)"
| "run_pc E c PGetStats = snd (get_filesystem_stats_value E c)"
| "run_pc E c (PGetRange k) = snd (get_range_value E k c)"
| "run_pc E c (PGetCovering k) = snd (get_covering_range_value E k c)"
| "run_pc E c (PInvalidateNode n) = snd (invalidate_node E n c)"
| "run_pc E c (PInvalidateMetadata n) = snd (invalidate_metadata E n c)"
| "run_pc E c (PInvalidateDirectories n) = snd (invalidate_directories E n c)"
| "run_pc E c (PInvalidateContaining n) = snd (invalidate_directories_containing E n c)"
| "run_pc E c (PInvalidateRanges n) = snd (invalidate_ranges E n c)"
| "run_pc E c PBeginBatch = begin_deferred_commits c"
| "run_pc E c PFlushBatch = snd (flush_deferred_commits E c)"

definition inserts_within :: "(entry_key \<times> bytes) set \<Rightarrow> pc_op list \<Rightarrow> bool" where
  "inserts_within U ops \<longleftrightarrow> (\<forall>es. PInsert es \<in> set ops \<longrightarrow> set es \<subseteq> U)"

lemma run_pc_inv:
  assumes "env_ok E U" and "cache_inv E U c" and "inserts_within U [op]"
  shows "cache_inv E U (run_pc E c op)"
  using assms
  by (cases op) (simp_all add: insert_entries_inv inserts_within_def begin_deferred_commits_def
      preservesD [OF get_values_inv(1)] preservesD [OF get_values_inv(2)] preservesD [OF get_values_inv(3)]
      preservesD [OF get_range_inv(1)] preservesD [OF get_range_inv(2)] preservesD [OF invalidate_inv(1)]
      preservesD [OF invalidate_inv(2)] preservesD [OF invalidate_inv(3)] preservesD [OF invalidate_inv(4)]
      preservesD [OF invalidate_inv(5)] preservesD [OF flush_inv], simp add: cache_inv_def)

lemma run_pcs_inv:
  "env_ok E U \<Longrightarrow> cache_inv E U c \<Longrightarrow> inserts_within U ops \<Longrightarrow> cache_inv E U (foldl (run_pc E) c ops)"
proof (induction ops arbitrary: c)
  case (Cons op ops)
  then have "inserts_within U [op]" "inserts_within U ops" by (auto simp: inserts_within_def)
  with Cons show ?case by (simp add: run_pc_inv)
qed simp

subsection \<open>Round trips\<close>

lemma propose_single:
  assumes "acct s" and "ps_clock s < U64_MAX" and "pp_stored_length p \<le> m" and "propose m [p] s = Inr t"
  shows "map_of (ps_entries t) (pp_key p) = Some (entry_for p (ps_clock s + 1))"
proof -
  from assms(4) obtain u where u: "splice_entry s p = Inr u" "evict_to_budget m u = Inr t"
    by (auto simp: propose_def ebind_Inr_iff split: if_splits)
  note sp = splice_entry_acct [OF assms(1) u(1)]
  have clk: "saturating_add (ps_clock s) 1 = ps_clock s + 1"
    using assms(2) by (intro saturating_add_exact) simp
  let ?e = "entry_for p (ps_clock s + 1)"
  have mu: "map_of (ps_entries u) (pp_key p) = Some ?e" unfolding sp(3) clk by simp
  have old: "dk_last_access e' < dk_last_access ?e" if "(k', e') \<in> set (ps_entries u)" "k' \<noteq> pp_key p" for k' e'
  proof -
    have "(k', e') \<in> set (ps_entries s)"
      using that alist_update_subset set_delete_subset unfolding sp(3) by fast
    with assms(1) show ?thesis by (fastforce simp: acct_def entry_for_def)
  qed
  have "(pp_key p, ?e) \<in> set (ps_entries t)"
    using evict_keeps_newest [OF sp(1) map_of_SomeD [OF mu] _ old u(2)] assms(3)
    by (simp add: entry_for_def)
  moreover have "distinct_keys (ps_entries t)"
    using evict_to_budget_acct [OF sp(1), of m] u(2) by (auto simp: acct_def)
  ultimately show ?thesis by (simp add: map_of_is_SomeI)
qed

lemma insert_entry_lookup:
  assumes "env_ok E U" and inv: "cache_inv E U c" and "(k, bs) \<in> U"
    and "ps_clock (pc_state c) < U64_MAX" and ok: "insert_entry E k bs c = (Inr (), c')"
  shows "\<exists>e. map_of (entries_of c') k = Some e \<and> dk_file_name e = payload_file_name E k bs"
proof (cases "already_current (pc_state c) (prepare_entry E k bs)")
  case True
  then have "c' = c" using ok by (auto simp: insert_entry_def insert_entries_def Let_def split: if_splits)
  with True show ?thesis by (auto simp: already_current_def prepare_entry_def split: option.splits)
next
  case False
  let ?p = "prepare_entry E k bs"
  have small: "length bs \<le> pc_maximum c"
    using ok by (auto simp: insert_entry_def insert_entries_def split: if_splits)
  obtain r1 c1 where w: "write_payloads [?p] [] c = (r1, c1)" by fastforce
  have U: "from_U E U ?p" using assms(3) by (simp add: from_U_def prepare_entry_def)
  have "from_U E U q" if "q \<in> set [?p]" for q using that U by simp
  note wp = write_payloads_inv [OF assms(1) inv this w]
  have eq: "insert_entry E k bs c = mbind (write_payloads [?p] []) (\<lambda>written c1.
      (let (result, c2) = (case propose (pc_maximum c1) [?p] (pc_state c1) of
              Inl e \<Rightarrow> (Inl e, c1) | Inr proposed \<Rightarrow> commit_state E proposed c1);
           (cleanup, c3) = remove_unreferenced_files written c2
       in (case result of Inl e \<Rightarrow> (Inl e, c3) | Inr _ \<Rightarrow> (cleanup, c3)))) c"
    using False small by (simp add: insert_entry_def insert_entries_def Let_def)
  from ok w obtain ws where r1: "r1 = Inr ws"
    unfolding eq by (cases r1) (simp_all add: mbind_def)
  obtain p c2 where p: "propose (pc_maximum c1) [?p] (pc_state c1) = Inr p"
    "commit_state E p c1 = (Inr (), c2)" "c' = snd (remove_unreferenced_files ws c2)"
    using ok w r1 unfolding eq
    by (auto simp: mbind_def Let_def split: sum.splits prod.splits)
  have c1: "cache_inv E U c1" "pc_state c1 = pc_state c" "pc_maximum c1 = pc_maximum c"
    using wp by (simp_all add: same_control_def)
  have "payload_present E (pc_files c1) ?p"
    using wp r1 assms(3) by (auto simp: payload_present_def prepare_entry_def)
  with propose_inv [OF _ _ _ p(1), of E U "pc_files c1"] U c1
  have "acct p" "state_intact E U (pc_files c1) p" "ps_payload_bytes p \<le> pc_maximum c1"
    by (auto simp: cache_inv_def)
  with commit_state_inv(2) [OF c1(1), of p] p(2) have "pc_state c2 = p" by simp
  moreover have "pc_state c' = pc_state c2"
    using preservesD [OF stable_remove_unreferenced [OF stable_fields
          [of "pc_state c2" "pc_maximum c2" "pc_active c2"]], of c2 ws] p(3) by simp
  moreover have "map_of (ps_entries p) k = Some (entry_for ?p (ps_clock (pc_state c) + 1))"
    using propose_single [OF _ _ _ p(1)] c1 assms(4) small inv
    by (simp add: cache_inv_def prepare_entry_def)
  ultimately show ?thesis by (simp add: entry_for_def prepare_entry_def)
qed

lemma read_key_intact:
  assumes "env_ok E U" and "cache_inv E U c" and "(k, bs) \<in> U" and "pc_outcomes c = []"
    and "map_of (entries_of c) k = Some e" and "dk_file_name e = payload_file_name E k bs"
  shows "fst (read_key E k c) = Inr (Some bs)"
proof -
  from assms(2,5) have "entry_intact E U (pc_files c) k e" by (simp add: cache_inv_def state_intact_def)
  then obtain bs' where b: "(k, bs') \<in> U" "map_of (pc_files c) (dk_file_name e) = Some bs'"
    "payload_id e = (payload_file_name E k bs', ce_sha256 E bs', length bs')"
    by (auto simp: entry_intact_def)
  then have "bs' = bs" using assms(1,3,6) unfolding env_ok_def payload_id_def by (metis prod.inject)
  moreover have "dk_stored_length e \<le> pc_maximum c"
    using assms(2) stored_sum_ge [OF map_of_SomeD [OF assms(5)]]
    by (auto simp: cache_inv_def acct_def)
  moreover have "valid_cache_file_name (dk_file_name e)"
    using assms(1,3,6) by (simp add: env_ok_def)
  ultimately show ?thesis
    using b assms(4,5)
    by (simp add: read_key_def read_disk_entry_def next_io_def monad_simps payload_id_def touch_def)
qed
end
