(* ===== verification/Cache_Properties.thy ===== *)
theory Cache_Properties
  imports Cache_Persistent_Props "HOL-Library.Multiset"
begin

text \<open>
  The properties of the cache: ranges are assembled exactly, every tier returns only true bytes,
  budgets hold, stored entries are read back, and a restarted cache reads the manifest it wrote.
\<close>

subsection \<open>True bytes from the durable tier\<close>

definition truthful_ranges :: "(revision_key \<Rightarrow> u64 \<Rightarrow> byte) \<Rightarrow> (entry_key \<times> bytes) set \<Rightarrow> bool" where
  "truthful_ranges T U \<longleftrightarrow>
     (\<forall>k bs. (ERange k, bs) \<in> U \<longrightarrow> agrees (T (rg_file k)) (rg_offset k) bs)"

lemma read_disk_entry_result:
  assumes "read_disk_entry E e c = (r, c1)"
  shows "pc_files c1 = pc_files c" "pc_state c1 = pc_state c"
    and "r = Inr bs \<Longrightarrow> map_of (pc_files c) (dk_file_name e) = Some bs"
  using assms
  by (auto simp: read_disk_entry_def next_io_def monad_simps split: if_splits list.splits option.splits)

lemma intact_read:
  assumes "read_disk_entry E e c = (Inr bs, c1)" and "entry_intact E U (pc_files c) k e"
  shows "(k, bs) \<in> U"
  using assms(2) read_disk_entry_result(3) [OF assms(1) refl] by (auto simp: entry_intact_def)

lemma drop_corrupt_fails [simp]:
  "fst (drop_corrupt E k c) \<noteq> Inr y" "drop_corrupt E k c \<noteq> (Inr y, d)"
proof -
  show *: "fst (drop_corrupt E k c) \<noteq> Inr y"
    by (auto simp: drop_corrupt_def mbind_def mfail_def split: prod.splits sum.splits)
  show "drop_corrupt E k c \<noteq> (Inr y, d)" using * by (metis fst_conv)
qed

definition segment_true :: "(revision_key \<Rightarrow> u64 \<Rightarrow> byte) \<Rightarrow> revision_key \<Rightarrow> entry_key segment \<Rightarrow> bool" where
  "segment_true T f s \<longleftrightarrow> agrees (T f) (sg_offset s) (sg_data s)"

lemma read_segments_true:
  assumes "truthful_ranges T U"
    and "\<And>k e. (k, e) \<in> set es \<Longrightarrow> rg_file k = f \<and> entry_intact E U (pc_files c) (ERange k) e"
    and "\<And>s. s \<in> set segs \<Longrightarrow> segment_true T f s"
    and "read_segments E es segs c = (Inr segs', c')" and "s \<in> set segs'"
  shows "segment_true T f s"
  using assms(2-)
proof (induction es arbitrary: segs c)
  case Nil
  then show ?case by (simp add: mret_def)
next
  case (Cons x es)
  obtain k e where x: "x = (k, e)" by fastforce
  obtain r c1 where rd: "read_disk_entry E e c = (r, c1)" by fastforce
  have k: "rg_file k = f" "entry_intact E U (pc_files c) (ERange k) e" using Cons.prems(1) x by auto
  show ?case
  proof (cases r)
    case (Inl e')
    with Cons.prems(3) x rd show ?thesis by (auto split: if_splits)
  next
    case (Inr bs)
    have "agrees (T (rg_file k)) (rg_offset k) bs"
      using assms(1) intact_read [OF rd [unfolded Inr] k(2)] by (simp add: truthful_ranges_def)
    with k(1) have new: "segment_true T f \<lparr>sg_key = ERange k, sg_offset = rg_offset k, sg_data = bs\<rparr>"
      by (simp add: segment_true_def)
    have "valid_range_payload k bs"
      using Cons.prems(3) x rd Inr by (auto split: if_splits)
    with Cons.prems(3) x rd Inr have rest: "read_segments E es
        (segs @ [\<lparr>sg_key = ERange k, sg_offset = rg_offset k, sg_data = bs\<rparr>]) c1 = (Inr segs', c')" by simp
    have "rg_file k' = f \<and> entry_intact E U (pc_files c1) (ERange k') e'" if "(k', e') \<in> set es" for k' e'
      unfolding read_disk_entry_result(1) [OF rd] using Cons.prems(1) [of k' e'] that by simp
    moreover have "segment_true T f t"
      if "t \<in> set (segs @ [\<lparr>sg_key = ERange k, sg_offset = rg_offset k, sg_data = bs\<rparr>])" for t
      using that Cons.prems(2) [of t] new by auto
    ultimately show ?thesis using Cons.IH [OF _ _ rest Cons.prems(4)] by blast
  qed
qed

lemma range_entries_memb:
  "(k, e) \<in> set (range_entries P c) \<Longrightarrow> (ERange k, e) \<in> set (entries_of c) \<and> P k"
  by (auto simp: range_entries_def map_filter_set split: entry_key.splits if_splits)

lemma range_entries_intact:
  assumes "cache_inv E U c" and "(k, e) \<in> set (range_entries P c)"
  shows "P k" "entry_intact E U (pc_files c) (ERange k) e"
  using range_entries_memb [OF assms(2)] assms(1)
  by (auto simp: cache_inv_def state_intact_def acct_def)

lemma get_range_value_true:
  assumes "cache_inv E U c" and "truthful_ranges T U" and "fst (get_range_value E k c) = Inr (Some d)"
  shows "d = range_of (T (rg_file k)) (rg_offset k) (rg_length k)"
proof (cases "rg_length k = 0")
  case True
  with assms(3) show ?thesis by (auto simp: get_range_value_def range_of_def split: if_splits)
next
  case False
  let ?P = "\<lambda>candidate. rg_file candidate = rg_file k \<and> range_keys_overlap candidate k"
  obtain r c1 where rs: "read_segments E (range_entries ?P c) [] c = (r, c1)" by fastforce
  from assms(3) False rs obtain segs a where a: "r = Inr segs" "assemble_range k segs = Some a" "d = as_data a"
    by (auto simp: get_range_value_def mbind_def monad_simps touch_def split: if_splits sum.splits option.splits)
  have "segment_true T (rg_file k) s" if "s \<in> set segs" for s
    using read_segments_true [OF assms(2) _ _ rs [unfolded a(1)] that, of "rg_file k"]
      range_entries_intact [OF assms(1)] by fastforce
  with assemble_range_agrees [OF a(2), of "T (rg_file k)"] False a(3) show ?thesis
    by (auto simp: segment_true_def)
qed

text \<open>The stored range \<open>k'\<close> with bytes \<open>d\<close> contains the requested range \<open>k\<close> of the file.\<close>

definition covering_hit :: "(revision_key \<Rightarrow> u64 \<Rightarrow> byte) \<Rightarrow> range_key \<Rightarrow> range_key \<Rightarrow> bytes \<Rightarrow> bool" where
  "covering_hit T k k' d \<longleftrightarrow> rg_file k' = rg_file k \<and> rg_offset k' \<le> rg_offset k \<and>
     rg_offset k + rg_length k \<le> rg_offset k' + rg_length k' \<and>
     d = range_of (T (rg_file k)) (rg_offset k') (rg_length k')"

lemma range_of_sub:
  assumes "a \<le> b" and "b + m \<le> a + n"
  shows "take m (drop (b - a) (range_of F a n)) = range_of F b m"
  using assms by (simp add: range_of_def drop_map take_map)

lemma get_covering_range_value_true:
  assumes "cache_inv E U c" and "truthful_ranges T U"
    and "fst (get_covering_range_value E k c) = Inr (Some (k', d))"
  shows "covering_hit T k k' d"
proof (cases "rg_length k = 0")
  case True
  with assms(3) show ?thesis
    by (auto simp: get_covering_range_value_def covering_hit_def range_of_def split: option.splits if_splits)
next
  case False
  let ?P = "\<lambda>q rkey. rg_file rkey = rg_file k \<and> rg_offset rkey \<le> rg_offset k \<and>
    (case checked_add (rg_offset rkey) (rg_length rkey) of None \<Rightarrow> False | Some re \<Rightarrow> q \<le> re)"
  obtain q where q: "checked_add (rg_offset k) (rg_length k) = Some q"
    using assms(3) by (auto simp: get_covering_range_value_def split: option.splits)
  obtain k1 e where m: "min_by (rg_length \<circ> fst) (range_entries (?P q) c) = Some (k1, e)"
    using assms(3) False q
    by (auto simp: get_covering_range_value_def split: option.splits if_splits)
  obtain r c1 where rd: "read_disk_entry E e c = (r, c1)" by fastforce
  have in_e: "(k1, e) \<in> set (range_entries (?P q) c)" using min_by_Some [OF m] by simp
  note ri = range_entries_intact [OF assms(1) in_e]
  have r: "r = Inr d" "k' = k1" "valid_range_payload k1 d"
    using assms(3) False q m rd
    by (auto simp: get_covering_range_value_def monad_simps touch_def split: sum.splits if_splits)
  have "(ERange k1, d) \<in> U" using intact_read [OF rd [unfolded r(1)] ri(2)] .
  with assms(2) have "agrees (T (rg_file k1)) (rg_offset k1) d"
    unfolding truthful_ranges_def by blast
  with r(3) have "d = range_of (T (rg_file k1)) (rg_offset k1) (rg_length k1)"
    by (simp add: agrees_def range_of_def valid_range_payload_def)
  moreover have "rg_offset k + rg_length k \<le> rg_offset k1 + rg_length k1"
    using ri(1) q by (auto simp: checked_add_def split: option.splits if_splits)
  ultimately show ?thesis using r(2) ri(1) by (simp add: covering_hit_def)
qed

subsection \<open>The manifest on disk\<close>

lemma load_entries_all:
  assumes "distinct (map dk_key es)" and "\<And>e. e \<in> set es \<Longrightarrow> \<not> contains_key acc (dk_key e)"
    and "\<And>e. e \<in> set es \<Longrightarrow> valid_cache_file_name (dk_file_name e)"
    and "p + sum_list (map dk_stored_length es) \<le> U64_MAX" and "distinct_keys acc"
  shows "\<exists>acc'. load_entries es acc p = Inr (acc', p + sum_list (map dk_stored_length es)) \<and>
    distinct_keys acc' \<and>
    (\<forall>k. map_of acc' k = (case find (\<lambda>e. dk_key e = k) es of Some e \<Rightarrow> Some e | None \<Rightarrow> map_of acc k))"
  using assms
proof (induction es arbitrary: acc p)
  case (Cons e es)
  have ne: "dk_key e' \<noteq> dk_key e" if "e' \<in> set es" for e' using Cons.prems(1) that by (auto simp: rev_image_eqI)
  have "find (\<lambda>e'. dk_key e' = dk_key e) es = None" using ne by (auto simp: find_None_iff)
  moreover obtain acc' where "load_entries es (AList.update (dk_key e) e acc) (p + dk_stored_length e) =
      Inr (acc', p + dk_stored_length e + sum_list (map dk_stored_length es))" "distinct_keys acc'"
    "\<And>k. map_of acc' k = (case find (\<lambda>e. dk_key e = k) es of Some e \<Rightarrow> Some e
        | None \<Rightarrow> map_of (AList.update (dk_key e) e acc) k)"
    using Cons.IH [of "AList.update (dk_key e) e acc" "p + dk_stored_length e"] Cons.prems ne
    by (auto simp: contains_key_def)
  ultimately show ?case using Cons.prems(2-4) by (auto split: option.split)
qed simp

lemma manifest_entries_find:
  assumes "acct s"
  shows "find (\<lambda>e. dk_key e = k) (mf_entries (manifest_of ns s)) = map_of (ps_entries s) k"
    and "distinct (map dk_key (mf_entries (manifest_of ns s)))"
    and "sum_list (map dk_stored_length (mf_entries (manifest_of ns s))) = ps_payload_bytes s"
    and "set (mf_entries (manifest_of ns s)) = snd ` set (ps_entries s)"
    and "length (mf_entries (manifest_of ns s)) = length (ps_entries s)"
proof -
  let ?l = "map snd (ps_entries s)"
  have dk: "map dk_key ?l = map fst (ps_entries s)" using assms by (auto simp: acct_def)
  have "mset (map dk_key (sort_key dk_file_name ?l)) = mset (map dk_key ?l)"
    by (metis mset_map mset_sort)
  then have "distinct (map dk_key (sort_key dk_file_name ?l)) = distinct (map fst (ps_entries s))"
    unfolding dk by (rule mset_eq_imp_distinct_iff)
  then show d: "distinct (map dk_key (mf_entries (manifest_of ns s)))"
    using assms by (simp add: manifest_of_def acct_def)
  show st: "set (mf_entries (manifest_of ns s)) = snd ` set (ps_entries s)"
    by (simp add: manifest_of_def)
  show "length (mf_entries (manifest_of ns s)) = length (ps_entries s)" by (simp add: manifest_of_def)
  have "sum_list (map dk_stored_length (sort_key dk_file_name ?l)) = sum_list (map dk_stored_length ?l)"
    by (metis mset_map mset_sort sum_mset_sum_list)
  then show "sum_list (map dk_stored_length (mf_entries (manifest_of ns s))) = ps_payload_bytes s"
    using assms by (simp add: manifest_of_def acct_def stored_sum_def)
  show "find (\<lambda>e. dk_key e = k) (mf_entries (manifest_of ns s)) = map_of (ps_entries s) k"
  proof (cases "map_of (ps_entries s) k")
    case None
    then have "\<not> (\<exists>e. e \<in> set (mf_entries (manifest_of ns s)) \<and> dk_key e = k)"
      using assms st by (force simp: acct_def map_of_eq_None_iff)
    then show ?thesis unfolding None by (auto simp: find_None_iff)
  next
    case (Some e)
    then have e: "e \<in> set (mf_entries (manifest_of ns s))" "dk_key e = k"
      using assms st map_of_SomeD [OF Some] by (force simp: acct_def)+
    then obtain e' where e': "find (\<lambda>e. dk_key e = k) (mf_entries (manifest_of ns s)) = Some e'"
      by (cases "find (\<lambda>e. dk_key e = k) (mf_entries (manifest_of ns s))") (auto simp: find_None_iff)
    then have "e' \<in> set (mf_entries (manifest_of ns s))" "dk_key e' = k"
      by (auto simp: find_Some_iff)
    with e d have "e' = e" by (auto simp: distinct_map dest: inj_onD)
    with e' Some show ?thesis by simp
  qed
qed

subsection \<open>Group commit\<close>

definition in_batch :: "u64 \<Rightarrow> pcache \<Rightarrow> bool" where
  "in_batch n c \<longleftrightarrow> pc_active c \<and> pc_manifest_writes c = n"

lemma in_batch_remove: "preserves (in_batch n) (remove_unreferenced_files ns)"
  unfolding remove_unreferenced_files_def
  by (intro preserves_mfor preservesI)
    (auto simp: remove_cache_file_def next_io_def monad_simps in_batch_def split: list.split)

lemma in_batch_write_payloads: "preserves (in_batch n) (write_payloads ps ws)"
proof (induction ps arbitrary: ws)
  case (Cons p ps)
  show ?case
  proof (rule preservesI)
    fix c assume c: "in_batch n c"
    let ?w = "write_private_atomic
      (\<lambda>c. c\<lparr>pc_files := AList.update (pp_file_name p) (pp_bytes p) (pc_files c)\<rparr>)"
    have w: "in_batch n (snd (?w c))"
      using c by (auto simp: write_private_atomic_def next_io_def monad_simps in_batch_def
          split: list.split io_outcome.split)
    have "preserves (in_batch n) (mbind (mignore (remove_unreferenced_files ws)) (\<lambda>_. mfail e))"
      for e :: cache_error by (intro preserves_mbind preserves_mignore in_batch_remove preserves_mfail)
    note e = preservesD [OF this w]
    show "in_batch n (snd (write_payloads (p # ps) ws c))"
      using w e preservesD [OF Cons.IH w]
      by (cases "?w c"; cases "fst (?w c)") (simp_all add: monad_simps)
  qed
qed (simp add: preserves_mret)

lemma in_batch_insert: "preserves (in_batch n) (insert_entries E es)"
proof (rule preservesI)
  fix c assume c: "in_batch n c"
  have cs: "in_batch n (snd (commit_state E p d))" if "in_batch n d" for p d
    using that by (simp add: commit_state_def in_batch_def Let_def)
  have "preserves (in_batch n) (mbind (write_payloads ps []) (\<lambda>written c1.
      (let (result, c2) = (case propose (pc_maximum c1) ps (pc_state c1) of
              Inl e \<Rightarrow> (Inl e, c1) | Inr proposed \<Rightarrow> commit_state E proposed c1);
           (cleanup, c3) = remove_unreferenced_files written c2
       in (case result of Inl e \<Rightarrow> (Inl e, c3) | Inr _ \<Rightarrow> (cleanup, c3)))))" for ps
    by (intro preserves_mbind in_batch_write_payloads preservesI)
      (auto simp: Let_def case_prod_unfold split: sum.split intro!: preservesD [OF in_batch_remove] cs)
  from preservesD [OF this c] c show "in_batch n (snd (insert_entries E es c))"
    by (simp add: insert_entries_def Let_def)
qed

lemma flush_writes_once:
  assumes "pc_manifest_writes c = n"
  shows "pc_manifest_writes (snd (flush_deferred_commits E c)) \<le> n + 1"
proof -
  have keep: "preserves (\<lambda>d. pc_manifest_writes d \<le> n + 1)
      (mbind (mput (\<lambda>c. c\<lparr>pc_dirty := False, pc_pending_removals := []\<rparr>))
        (\<lambda>_. mbind (remove_unreferenced_files ns) (\<lambda>_. sync_directory)))" for ns
    unfolding remove_unreferenced_files_def
    by (intro preserves_mbind preserves_mput preserves_mfor preservesI)
      (auto simp: remove_cache_file_def sync_directory_def next_io_def monad_simps split: list.split)
  obtain r d where w: "write_manifest E (pc_state c) (c\<lparr>pc_active := False\<rparr>) = (r, d)" by fastforce
  then have "pc_manifest_writes d \<le> n + 1"
    using assms by (auto simp: write_manifest_def write_private_atomic_def next_io_def monad_simps Let_def
        split: list.splits io_outcome.splits if_splits)
  with w assms preservesD [OF keep, of d] show ?thesis
    by (auto simp: flush_deferred_commits_def Let_def mbind_def [of "write_manifest E s" for s] split: sum.split)
qed

subsection \<open>A concrete cache for the witnesses\<close>

definition demo_hex_digit :: "nat \<Rightarrow> char" where
  "demo_hex_digit n = (if n < 10 then char_of (48 + n) else char_of (87 + n))"

definition demo_key_json :: "entry_key \<Rightarrow> bytes" where
  "demo_key_json k = (case k of EMetadata n \<Rightarrow> [1, n] | EDirectory r \<Rightarrow> [2, rk_node r, rk_revision r]
     | ERange r \<Rightarrow> [3, rk_node (rg_file r), rk_revision (rg_file r), rg_offset r, rg_length r]
     | EFilesystemStats \<Rightarrow> [4])"

definition demo_env :: cache_env where
  "demo_env = \<lparr>ce_sha256 = (\<lambda>bs. take 32 (map (\<lambda>b. b mod 256) bs @ replicate 32 0)),
     ce_hex = (\<lambda>bs. concat (map (\<lambda>b. [demo_hex_digit (b div 16), demo_hex_digit (b mod 16)]) bs)),
     ce_key_json = demo_key_json,
     ce_manifest_json = (\<lambda>m. [7]), ce_parse_manifest = (\<lambda>_. None),
     ce_metadata_json = (\<lambda>m. [md_node m]), ce_parse_metadata = (\<lambda>_. None),
     ce_directory_json = (\<lambda>_. []), ce_parse_directory = (\<lambda>_. None),
     ce_stats_json = (\<lambda>_. []), ce_parse_stats = (\<lambda>_. None)\<rparr>"

definition demo_file_key :: revision_key where
  "demo_file_key = \<lparr>rk_node = 9, rk_revision = 1\<rparr>"

definition demo_range :: "u64 \<Rightarrow> u64 \<Rightarrow> range_key" where
  "demo_range off len = \<lparr>rg_file = demo_file_key, rg_offset = off, rg_length = len\<rparr>"

definition demo_content :: "revision_key \<Rightarrow> u64 \<Rightarrow> byte" where
  "demo_content _ p = p mod 256"

definition demo_U :: "(entry_key \<times> bytes) set" where
  "demo_U = {(EMetadata 1, [1, 2, 3, 4]), (EMetadata 2, [5, 5, 5, 5, 5, 5, 5, 5]),
     (ERange (demo_range 0 4), [0, 1, 2, 3]), (ERange (demo_range 2 4), [2, 3, 4, 5])}"

definition demo_cache :: pcache where
  "demo_cache = \<lparr>pc_namespace = \<lparr>cn_server_identity_sha256 = [], cn_export_id = [1], cn_authorization_scope = [2]\<rparr>,
     pc_maximum = 10, pc_state = persistent_state_default, pc_active = False, pc_dirty = False,
     pc_pending_removals = [], pc_manifest_writes = 0, pc_files = [], pc_manifest = None, pc_outcomes = []\<rparr>"

lemma demo_env_ok: "env_ok demo_env demo_U"
proof -
  have "\<forall>x \<in> demo_U. \<forall>y \<in> demo_U. payload_file_name demo_env (fst x) (snd x) =
      payload_file_name demo_env (fst y) (snd y) \<longrightarrow> x = y" by code_simp
  moreover have "\<forall>x \<in> demo_U. valid_cache_file_name (payload_file_name demo_env (fst x) (snd x))"
    by code_simp
  ultimately show ?thesis unfolding env_ok_def by fastforce
qed

lemma demo_cache_inv: "cache_inv demo_env demo_U demo_cache"
  by (simp add: cache_inv_def demo_cache_def persistent_state_default_def acct_def state_intact_def)

subsection \<open>Properties\<close>

text \<open>C22. A requested range is assembled exactly when the cached segments cover every byte of it, in
  whatever order, overlap or adjacency they come; if the segments hold bytes of the file, the result
  is the requested bytes of the file.\<close>

theorem assemble_range_exact:
  assumes "0 < rg_length k" and "rg_offset k + rg_length k \<le> U64_MAX"
    and "\<And>s. s \<in> set segs \<Longrightarrow> agrees F (sg_offset s) (sg_data s)"
  shows "map_option as_data (assemble_range k segs) =
    (if (\<forall>p. rg_offset k \<le> p \<and> p < rg_offset k + rg_length k \<longrightarrow> (\<exists>s \<in> set segs. offers s p))
     then Some (range_of F (rg_offset k) (rg_length k)) else None)"
  using assemble_range_iff [OF assms(1,2), of segs] assemble_range_agrees [OF _ assms(1,3)]
  by (cases "assemble_range k segs") auto

definition demo_segments :: "nat segment list" where
  "demo_segments = [\<lparr>sg_key = 1, sg_offset = 3, sg_data = [3, 4, 5, 6]\<rparr>,
     \<lparr>sg_key = 2, sg_offset = 0, sg_data = [0, 1, 2, 3]\<rparr>]"

theorem assemble_range_exact_witness:
  "map_option as_data (assemble_range (demo_range 1 5) demo_segments) = Some [1, 2, 3, 4, 5]"
proof -
  have ag: "\<forall>s \<in> set demo_segments. agrees (\<lambda>p. p) (sg_offset s) (sg_data s)" by code_simp
  have r: "range_of (\<lambda>p. p) 1 5 = [1, 2, 3, 4, 5]" by code_simp
  have cov: "\<exists>s \<in> set demo_segments. offers s p" if "1 \<le> p \<and> p < 1 + 5" for p
    using that by (auto simp: demo_segments_def offers_def U64_MAX_def)
  show ?thesis
    using assemble_range_exact [of "demo_range 1 5" demo_segments "\<lambda>p. p"] ag cov r
    by (simp add: demo_range_def U64_MAX_def)
qed

text \<open>The in-memory range cache never returns a wrong byte: after any sequence of lookups,
  invalidations and stores of true bytes, a hit is exactly the requested bytes of that revision.\<close>

lemma memory_range_cache_true:
  assumes "truthful T ops"
    and "mem_get_range k (foldl (cache_step (\<lambda>k c. (mem_get_range k c, c)) mem_insert_range
           mem_invalidate_ranges) mem_empty ops) = Some d"
  shows "d = range_of (T (rg_file k)) (rg_offset k) (rg_length k)"
  by (rule mem.run_true [OF _ _ assms(1)])
    (use assms(2) in \<open>simp_all add: mem_good_def mem_empty_def coherent_def\<close>)

definition demo_ops :: "cache_op list" where
  "demo_ops = [CInsert (demo_range 0 4) [0, 1, 2, 3], CInsert (demo_range 2 4) [2, 3, 4, 5], CInvalidate 3]"

lemma demo_ops_truthful: "truthful demo_content demo_ops"
proof -
  have "agrees (demo_content (rg_file (demo_range 0 4))) (rg_offset (demo_range 0 4)) [0, 1, 2, 3]"
    "agrees (demo_content (rg_file (demo_range 2 4))) (rg_offset (demo_range 2 4)) [2, 3, 4, 5]"
    by code_simp+
  then show ?thesis by (auto simp: truthful_def demo_ops_def)
qed

text \<open>C24. The hot range cache never returns a wrong byte either, and a lookup hits exactly when every
  requested byte is in a stored range, whatever order the used entries are moved to the back of the
  eviction queue in.\<close>

theorem hot_range_cache_true:
  assumes "2 * maximum \<le> U64_MAX" and "truthful T ops"
    and "rg_offset k + rg_length k \<le> U64_MAX"
  shows "let c = foldl (cache_step (hot_get rank) hot_insert hot_invalidate) (hot_new maximum) ops in
    (\<forall>d. fst (hot_get rank k c) = Some d \<longrightarrow> d = range_of (T (rg_file k)) (rg_offset k) (rg_length k)) \<and>
    (fst (hot_get rank k c) \<noteq> None \<longleftrightarrow> (\<forall>p. rg_offset k \<le> p \<and> p < rg_offset k + rg_length k \<longrightarrow>
       stored_at (set (hc_entries c)) (rg_file k) p))"
proof -
  have good: "hot_inv (hot_new maximum)" using assms(1) by (simp add: hot_inv_def hot_new_def)
  have coh: "coherent T (set (hc_entries (hot_new maximum)))" by (simp add: coherent_def hot_new_def)
  have "hot_inv (foldl (cache_step (hot_get rank) hot_insert hot_invalidate) c ops)" if "hot_inv c" for c
    using that by (induction ops arbitrary: c) (simp_all add: hot.step_good)
  note run = hot.get_hits [OF this [OF good] assms(3)] and tr = hot.run_true [OF good coh assms(2)]
  show ?thesis unfolding Let_def using run tr by auto
qed

theorem hot_range_cache_true_witness:
  "fst (hot_get rg_offset (demo_range 1 4)
     (foldl (cache_step (hot_get rg_offset) hot_insert hot_invalidate) (hot_new 100) demo_ops)) =
   Some (range_of (demo_content demo_file_key) 1 4)"
proof -
  let ?c = "foldl (cache_step (hot_get rg_offset) hot_insert hot_invalidate) (hot_new 100) demo_ops"
  have h: "fst (hot_get rg_offset (demo_range 1 4) ?c) = Some [1, 2, 3, 4]" by code_simp
  with hot_range_cache_true [of 100 demo_content demo_ops "demo_range 1 4" rg_offset] demo_ops_truthful
  have "[1, 2, 3, 4] = range_of (demo_content (rg_file (demo_range 1 4))) (rg_offset (demo_range 1 4))
      (rg_length (demo_range 1 4))" by (simp add: U64_MAX_def demo_range_def)
  with h show ?thesis by (simp add: demo_range_def)
qed

text \<open>The hot range cache stays within its byte budget under every operation, its byte counter is
  the sum of the stored lengths, its eviction queue lists exactly the stored keys once each, and an
  entry that fits the budget is present right after it was inserted.\<close>

lemma hot_cache_budget:
  assumes "hot_inv c"
  shows "hot_inv (hot_insert k v c) \<and> hot_inv (snd (hot_get rank k c)) \<and> hot_inv (hot_invalidate n c) \<and>
    (valid_range_payload k v \<and> v \<noteq> [] \<and> length v \<le> hc_maximum_bytes c \<longrightarrow>
       map_of (hc_entries (hot_insert k v c)) k = Some v)"
  using assms hot.ins_good hot.get_good hot.inval_good hot_insert_present by blast

text \<open>C9. Whatever file-system calls fail, and in whatever order entries are stored, read,
  invalidated and batches are opened and flushed, the durable cache keeps its in-memory manifest
  exact: the byte count is the sum of the stored lengths and within the budget, and every entry's
  payload is on disk, complete and with the recorded digest.\<close>

theorem persistent_cache_sound:
  assumes "env_ok E U" and "cache_inv E U c" and "inserts_within U ops"
  shows "cache_inv E U (foldl (run_pc E) c ops)"
  using assms by (rule run_pcs_inv)

definition demo_faulty :: pcache where
  "demo_faulty = demo_cache\<lparr>pc_outcomes := [IoOk, IoFailAfter, IoFailBefore, IoOk, IoOk, IoFailBefore]\<rparr>"

theorem persistent_cache_sound_witness:
  "cache_inv demo_env demo_U (foldl (run_pc demo_env) demo_faulty
     [PInsert [(EMetadata 1, [1, 2, 3, 4])], PBeginBatch, PInsert [(EMetadata 1, [1, 2, 3, 4])], PFlushBatch,
      PInvalidateNode 1])"
proof (rule persistent_cache_sound [OF demo_env_ok])
  show "cache_inv demo_env demo_U demo_faulty"
    using demo_cache_inv by (simp add: demo_faulty_def cache_inv_def)
qed (auto simp: inserts_within_def demo_U_def)

text \<open>A stored entry is read back: when a store reports success, the entry was not evicted by its
  own insertion, and reading the key returns the stored bytes.\<close>

lemma insert_then_read:
  assumes "env_ok E U" and "cache_inv E U c" and "(k, bs) \<in> U"
    and "ps_clock (pc_state c) < U64_MAX" and "insert_entry E k bs c = (Inr (), c')"
    and "pc_outcomes c' = []"
  shows "fst (read_key E k c') = Inr (Some bs)"
proof -
  have "cache_inv E U c'"
    using insert_entries_inv [OF assms(1,2), of "[(k, bs)]"] assms(3,5) by (simp add: insert_entry_def)
  with insert_entry_lookup [OF assms(1-5)] read_key_intact [OF assms(1)] assms(3,6) show ?thesis by blast
qed

text \<open>C25. The durable cache never serves a wrong range, if every range ever stored was true of its
  file revision. A range it assembles from several entries is exactly the requested bytes. A
  covering hit is an entry of the requested file that contains the whole requested range and
  whose bytes are the file's over the whole entry, so that cutting the request out of it at its
  offset gives exactly the requested bytes, all of them.\<close>

theorem persistent_ranges_true:
  assumes "env_ok E U" and "cache_inv E U c" and "inserts_within U ops" and "truthful_ranges T U"
  shows "(\<forall>d. fst (get_range_value E k (foldl (run_pc E) c ops)) = Inr (Some d) \<longrightarrow>
      d = range_of (T (rg_file k)) (rg_offset k) (rg_length k)) \<and>
    (\<forall>k' d. fst (get_covering_range_value E k (foldl (run_pc E) c ops)) = Inr (Some (k', d)) \<longrightarrow>
      rg_file k' = rg_file k \<and> rg_offset k' \<le> rg_offset k \<and>
      rg_offset k + rg_length k \<le> rg_offset k' + rg_length k' \<and>
      d = range_of (T (rg_file k)) (rg_offset k') (rg_length k') \<and>
      take (rg_length k) (drop (rg_offset k - rg_offset k') d) =
        range_of (T (rg_file k)) (rg_offset k) (rg_length k))"
proof -
  note inv = run_pcs_inv [OF assms(1-3)]
  have "take (rg_length k) (drop (rg_offset k - rg_offset k') d) = range_of (T (rg_file k)) (rg_offset k) (rg_length k)"
    if "covering_hit T k k' d" for k' d
    using that range_of_sub [of "rg_offset k'" "rg_offset k"] by (simp add: covering_hit_def)
  then show ?thesis
    using get_range_value_true [OF inv assms(4)] get_covering_range_value_true [OF inv assms(4)]
    unfolding covering_hit_def by blast
qed

theorem persistent_ranges_true_witness:
  "(let c = foldl (run_pc demo_env) demo_cache
     [PInsert [(ERange (demo_range 0 4), [0, 1, 2, 3])], PInsert [(ERange (demo_range 2 4), [2, 3, 4, 5])]]
   in fst (get_range_value demo_env (demo_range 1 4) c) = Inr (Some (range_of (demo_content demo_file_key) 1 4)) \<and>
      fst (get_covering_range_value demo_env (demo_range 3 2) c) = Inr (Some (demo_range 2 4, [2, 3, 4, 5])) \<and>
      take 2 (drop (3 - 2) [2, 3, 4, 5]) = range_of (demo_content demo_file_key) 3 2)"
proof -
  let ?ops = "[PInsert [(ERange (demo_range 0 4), [0, 1, 2, 3])], PInsert [(ERange (demo_range 2 4), [2, 3, 4, 5])]]"
  have "agrees (demo_content (rg_file (demo_range 0 4))) (rg_offset (demo_range 0 4)) [0, 1, 2, 3]"
    "agrees (demo_content (rg_file (demo_range 2 4))) (rg_offset (demo_range 2 4)) [2, 3, 4, 5]"
    by code_simp+
  then have t: "truthful_ranges demo_content demo_U" by (auto simp: truthful_ranges_def demo_U_def)
  have "inserts_within demo_U ?ops" by (auto simp: inserts_within_def demo_U_def)
  note pr = persistent_ranges_true [OF demo_env_ok demo_cache_inv this t]
  have h: "fst (get_range_value demo_env (demo_range 1 4) (foldl (run_pc demo_env) demo_cache ?ops)) =
      Inr (Some [1, 2, 3, 4])" by code_simp
  have g: "fst (get_covering_range_value demo_env (demo_range 3 2) (foldl (run_pc demo_env) demo_cache ?ops)) =
      Inr (Some (demo_range 2 4, [2, 3, 4, 5]))" by code_simp
  have rg: "rg_file (demo_range a b) = demo_file_key" "rg_offset (demo_range a b) = a" "rg_length (demo_range a b) = b" for a b
    by (simp_all add: demo_range_def)
  from pr [of "demo_range 1 4"] h have "[1, 2, 3, 4] = range_of (demo_content demo_file_key) 1 4"
    unfolding rg by blast
  moreover from pr [of "demo_range 3 2"] g
  have "take 2 (drop (3 - 2) [2, 3, 4, 5]) = range_of (demo_content demo_file_key) 3 2"
    unfolding rg using rg(2) [of 2 4] by metis
  ultimately show ?thesis unfolding Let_def using h g by metis
qed

text \<open>A restarted cache finds what was saved: loading the manifest written for a consistent state
  gives the same entries, byte count and clock, if the serialiser reads back what it wrote.\<close>

lemma manifest_roundtrip:
  assumes "acct s" and "ps_payload_bytes s \<le> U64_MAX" and "length (ps_entries s) \<le> MAX_MANIFEST_ENTRIES"
    and "\<And>k e. (k, e) \<in> set (ps_entries s) \<Longrightarrow> valid_cache_file_name (dk_file_name e)"
    and "length (ce_manifest_json E (manifest_of ns s)) \<le> MAX_MANIFEST_SIZE"
    and "ce_parse_manifest E (ce_manifest_json E (manifest_of ns s)) = Some (manifest_of ns s)"
  shows "\<exists>t. load_manifest E ns (Some (ce_manifest_json E (manifest_of ns s))) = Inr t \<and>
    map_of (ps_entries t) = map_of (ps_entries s) \<and> ps_payload_bytes t = ps_payload_bytes s \<and>
    ps_clock t = ps_clock s"
proof -
  note me = manifest_entries_find [OF assms(1)]
  have "\<exists>acc. load_entries (mf_entries (manifest_of ns s)) [] 0 =
      Inr (acc, 0 + sum_list (map dk_stored_length (mf_entries (manifest_of ns s)))) \<and> distinct_keys acc \<and>
      (\<forall>k. map_of acc k = (case find (\<lambda>e. dk_key e = k) (mf_entries (manifest_of ns s)) of
         Some e \<Rightarrow> Some e | None \<Rightarrow> map_of [] k))"
    by (rule load_entries_all) (use assms(2,4) me in \<open>auto simp: contains_key_def\<close>)
  then obtain acc where acc: "load_entries (mf_entries (manifest_of ns s)) [] 0 = Inr (acc, ps_payload_bytes s)"
    and look: "\<And>k. map_of acc k = (case map_of (ps_entries s) k of Some e \<Rightarrow> Some e | None \<Rightarrow> map_of [] k)"
    unfolding me(1,3) add_0 by (elim exE conjE) blast
  have "map_of acc k = map_of (ps_entries s) k" for k
    unfolding look by (cases "map_of (ps_entries s) k") (simp_all only: option.case map_of.simps)
  then have same: "map_of acc = map_of (ps_entries s)" by (rule ext)
  have m: "mf_format_version (manifest_of ns s) = CACHE_FORMAT_VERSION" "mf_namespace (manifest_of ns s) = ns"
    "mf_clock (manifest_of ns s) = ps_clock s" by (simp_all add: manifest_of_def)
  show ?thesis using same acc assms(3,5,6) by (simp add: load_manifest_def m me(5))
qed

definition demo_saved :: persistent_state where
  "demo_saved = pc_state (snd (insert_entry demo_env (EMetadata 1) [1, 2, 3, 4] demo_cache))"

definition demo_saved_env :: cache_env where
  "demo_saved_env = demo_env\<lparr>ce_parse_manifest :=
     (\<lambda>_. Some (manifest_of (pc_namespace demo_cache) demo_saved))\<rparr>"

lemma demo_saved_entries: "ps_entries demo_saved = [(EMetadata 1, \<lparr>dk_key = EMetadata 1,
    dk_file_name = payload_file_name demo_env (EMetadata 1) [1, 2, 3, 4], dk_stored_length = 4,
    dk_sha256 = ce_sha256 demo_env [1, 2, 3, 4], dk_last_access = 1\<rparr>)]"
  "ps_payload_bytes demo_saved = 4" "ps_clock demo_saved = 1"
  by code_simp+

text \<open>Group commit: however many stores run between the start of a batch and its flush, the
  manifest is written at most once.\<close>

lemma batch_writes_manifest_once:
  "pc_manifest_writes (snd (flush_deferred_commits E
     (foldl (\<lambda>c es. snd (insert_entries E es c)) (begin_deferred_commits c) stores)))
   \<le> pc_manifest_writes c + 1"
proof -
  have "in_batch n (foldl (\<lambda>c es. snd (insert_entries E es c)) d stores)" if "in_batch n d" for n d
    using that by (induction stores arbitrary: d) (auto intro: preservesD [OF in_batch_insert])
  then have "in_batch (pc_manifest_writes c)
      (foldl (\<lambda>c es. snd (insert_entries E es c)) (begin_deferred_commits c) stores)"
    by (simp add: in_batch_def begin_deferred_commits_def)
  then show ?thesis by (intro flush_writes_once) (simp add: in_batch_def)
qed

text \<open>A batch does not always keep the manifest ahead of file removals: after an entry is
  invalidated and stored again in a batch that evicts it, its payload file is already gone while the
  manifest on disk, written before the batch, still lists it; a crash before the flush leaves an
  entry without a payload.\<close>

lemma batch_removes_payload_early:
  "let name = payload_file_name demo_env (EMetadata 1) [1, 2, 3, 4];
       c1 = snd (insert_entry demo_env (EMetadata 1) [1, 2, 3, 4] demo_cache);
       c2 = snd (invalidate_metadata demo_env 1 (begin_deferred_commits c1));
       c3 = snd (insert_entries demo_env
              [(EMetadata 1, [1, 2, 3, 4]), (EMetadata 2, [5, 5, 5, 5, 5, 5, 5, 5])] c2)
   in name \<in> file_names (pc_state c1) \<and> pc_manifest_writes c1 = 1 \<and>
      map_of (pc_files c2) name \<noteq> None \<and> pc_manifest c3 = pc_manifest c1 \<and>
      pc_manifest_writes c3 = 1 \<and> pc_dirty c3 \<and> map_of (pc_files c3) name = None"
  by code_simp

text \<open>Invalidating a node removes every in-memory projection of it: its metadata, its directory
  snapshots, every snapshot that lists it as a child, and its ranges, and nothing of any other node.\<close>

lemma mem_invalidate_node_complete:
  "let c' = mem_invalidate_node_state n c in
   mem_get_metadata n c' = None \<and>
   (\<forall>m. m \<noteq> n \<longrightarrow> mem_get_metadata m c' = mem_get_metadata m c) \<and>
   (\<forall>k es. (k, es) \<in> set (mc_directories c') \<longleftrightarrow> (k, es) \<in> set (mc_directories c) \<and> rk_node k \<noteq> n \<and>
      n \<notin> de_node ` set es) \<and>
   (\<forall>k v. (k, v) \<in> set (mc_ranges c') \<longleftrightarrow> (k, v) \<in> set (mc_ranges c) \<and> rk_node (rg_file k) \<noteq> n)"
  by (auto simp: mem_invalidate_node_state_def mem_get_metadata_def)

theorem mem_invalidate_node_complete_witness:
  "mem_get_metadata 9 (mem_invalidate_node_state 9 mem_empty) = None"
  using mem_invalidate_node_complete [of 9 mem_empty] by (simp add: Let_def)
end
