(* ===== verification/Client_Resilient.thy ===== *)
theory Client_Resilient
  imports Protocol_Types
begin

text \<open>
  Crate \<^verbatim>\<open>crates/client-core\<close>, file \<^verbatim>\<open>resilient.rs\<close>: \<^verbatim>\<open>ResilientFilesystem\<close>, which keeps node and
  handle identifiers stable while it replaces a failed connection.

  \<^item> The trait \<^verbatim>\<open>RemoteFilesystem\<close> and the connector are the parameter \<open>remote_api\<close>: functions on an
    arbitrary connection \<open>'f\<close> and an arbitrary world \<open>'w\<close> (the servers, the network, the clock).
    A method whose result the code only passes on is one call \<open>rm_call\<close>, named by its request.
  \<^item> Operations are modelled one at a time; the per-handle mutation mutex and the \<^verbatim>\<open>RwLock\<close>s are the
    identity then.
\<close>

datatype client_error = CeTransport string | CeServer error_code string | CeUnexpectedResponse
  | CeReadTooLarge u64 | CeWriteTooLarge u64 | CeStaleRevision | CeOffline | CeOfflineCacheMiss
  | CeAmbiguousMutation

fun is_transport :: "client_error \<Rightarrow> bool" where
  "is_transport (CeTransport _) = True"
| "is_transport _ = False"

record opened_file =
  op_handle :: file_handle
  op_revision :: u64
  op_size :: u64

record range_read =
  rr_revision :: u64
  rr_data :: bytes

record write_result =
  wr_written :: u64
  wr_revision :: u64
  wr_size :: u64

record created_file =
  cr_metadata :: metadata
  cr_opened :: opened_file

datatype fs_value = VUnit | VNumber u64 | VCapabilities filesystem_capabilities
  | VStats filesystem_stats | VMetadata metadata | VSnapshot u64 "directory_entry list"
  | VView directory_view | VBytes bytes | VXattr u64 bytes | VNames "name list"
  | VOpened opened_file | VCreated created_file | VRead range_read | VWritten write_result
  | VLock "file_lock option"

type_synonym ('w, 'a) act = "'w \<Rightarrow> (client_error + 'a) \<times> 'w"

record ('f, 'w) remote_api =
  rm_connect :: "('w, 'f) act"
  rm_now :: "'w \<Rightarrow> nat"
  rm_sleep :: "nat \<Rightarrow> 'w \<Rightarrow> 'w"
  rm_capabilities :: "'f \<Rightarrow> ('w, filesystem_capabilities) act"
  rm_call :: "request \<Rightarrow> bytes \<Rightarrow> 'f \<Rightarrow> ('w, fs_value) act"
  rm_open :: "node_id \<Rightarrow> file_open_options \<Rightarrow> 'f \<Rightarrow> ('w, opened_file) act"
  rm_create :: "node_id \<Rightarrow> name \<Rightarrow> u32 \<Rightarrow> file_open_options \<Rightarrow> 'f \<Rightarrow> ('w, created_file) act"
  rm_close :: "file_handle \<Rightarrow> 'f \<Rightarrow> ('w, unit) act"
  rm_set_attributes :: "node_id \<Rightarrow> file_handle option \<Rightarrow> attribute_changes \<Rightarrow> 'f \<Rightarrow> ('w, metadata) act"
  rm_read :: "file_handle \<Rightarrow> u64 \<Rightarrow> u64 \<Rightarrow> 'f \<Rightarrow> ('w, range_read) act"
  rm_write :: "file_handle \<Rightarrow> u64 \<Rightarrow> bytes \<Rightarrow> 'f \<Rightarrow> ('w, write_result) act"
  rm_flush :: "file_handle \<Rightarrow> u64 option \<Rightarrow> 'f \<Rightarrow> ('w, unit) act"
  rm_sync :: "file_handle \<Rightarrow> bool \<Rightarrow> 'f \<Rightarrow> ('w, unit) act"
  rm_allocate :: "file_handle \<Rightarrow> u64 \<Rightarrow> u64 \<Rightarrow> 'f \<Rightarrow> ('w, write_result) act"
  rm_copy :: "file_handle \<Rightarrow> u64 \<Rightarrow> file_handle \<Rightarrow> u64 \<Rightarrow> u64 \<Rightarrow> 'f \<Rightarrow> ('w, write_result) act"
  rm_seek :: "file_handle \<Rightarrow> u64 \<Rightarrow> seek_whence \<Rightarrow> 'f \<Rightarrow> ('w, u64) act"
  rm_ioctl :: "file_handle \<Rightarrow> safe_ioctl \<Rightarrow> 'f \<Rightarrow> ('w, u64) act"
  rm_get_lock :: "file_handle \<Rightarrow> file_lock \<Rightarrow> 'f \<Rightarrow> ('w, file_lock option) act"
  rm_set_lock :: "file_handle \<Rightarrow> file_lock \<Rightarrow> bool \<Rightarrow> 'f \<Rightarrow> ('w, unit) act"

record reconnect_policy =
  rp_attempts :: usize
  rp_initial_backoff :: nat
  rp_maximum_backoff :: nat

definition default_reconnect_policy :: reconnect_policy where
  "default_reconnect_policy =
     \<lparr>rp_attempts = 3, rp_initial_backoff = 100, rp_maximum_backoff = 2000\<rparr>"

record handle_state =
  hs_node :: node_id
  hs_options :: file_open_options
  hs_remote :: file_handle
  hs_revision :: u64
  hs_size :: u64
  hs_generation :: u64
  hs_lock_history :: "file_lock list"

record 'f connection_slot =
  cs_generation :: u64
  cs_filesystem :: 'f

record ('f, 'w) resilient =
  rf_policy :: reconnect_policy
  rf_connection :: "'f connection_slot"
  rf_last_failure :: "(u64 \<times> nat) option"
  rf_failed_generation :: u64
  rf_server_epoch :: "uuid option"
  rf_handles :: "(file_handle \<times> handle_state) list"
  rf_world :: 'w

type_synonym ('f, 'w, 'a) rop = "(('f, 'w) resilient, client_error, 'a) op"

definition on_world :: "('w, 'a) act \<Rightarrow> ('f, 'w, 'a) rop" where
  "on_world m s = (let (r, w) = m (rf_world s) in (r, s\<lparr>rf_world := w\<rparr>))"

subsection \<open>Connections\<close>

definition capability_epoch :: "('f, 'w) remote_api \<Rightarrow> 'f \<Rightarrow> ('w, uuid option) act" where
  "capability_epoch A f w = (case rm_capabilities A f w of
     (Inr capabilities, w') \<Rightarrow> (Inr (Some (server_epoch capabilities)), w')
   | (Inl (CeServer NotSupported _), w') \<Rightarrow> (Inr None, w')
   | (Inl e, w') \<Rightarrow> (Inl e, w'))"

definition resilient_new :: "('f, 'w) remote_api \<Rightarrow> 'f \<Rightarrow> reconnect_policy \<Rightarrow> ('w, ('f, 'w) resilient) act" where
  "resilient_new A initial policy w =
     (if rp_attempts policy = 0
      then (Inl (CeServer InvalidRequest ''reconnect attempts must be greater than zero''), w)
      else (case capability_epoch A initial w of
          (Inl e, w') \<Rightarrow> (Inl e, w')
        | (Inr epoch, w') \<Rightarrow> (Inr \<lparr>rf_policy = policy,
            rf_connection = \<lparr>cs_generation = 1, cs_filesystem = initial\<rparr>, rf_last_failure = None,
            rf_failed_generation = 0, rf_server_epoch = epoch, rf_handles = [], rf_world = w'\<rparr>, w')))"

definition mark_failed :: "u64 \<Rightarrow> ('f, 'w) resilient \<Rightarrow> ('f, 'w) resilient" where
  "mark_failed generation s = s\<lparr>rf_failed_generation := generation\<rparr>"

definition EPOCH_CHANGED :: client_error where
  "EPOCH_CHANGED = CeServer Conflict ''server epoch changed; existing inode and cache state is stale''"

text \<open>The attempts of \<^verbatim>\<open>reconnect_after\<close> that are left, the first argument counting down.\<close>

fun reconnect_loop :: "('f, 'w) remote_api \<Rightarrow> nat \<Rightarrow> u64 \<Rightarrow> nat \<Rightarrow> ('f, 'w, 'f connection_slot) rop" where
  "reconnect_loop A 0 failed_generation backoff = mfail CeOffline"
| "reconnect_loop A (Suc left) failed_generation backoff = (\<lambda>s.
     case on_world (rm_connect A) s of
       (Inr filesystem, s1) \<Rightarrow>
         mbind (on_world (capability_epoch A filesystem)) (\<lambda>epoch s2.
           if rf_server_epoch s2 \<noteq> None \<and> epoch \<noteq> rf_server_epoch s2 then (Inl EPOCH_CHANGED, s2)
           else (let slot = \<lparr>cs_generation = saturating_add failed_generation 1, cs_filesystem = filesystem\<rparr>
                 in (Inr slot, s2\<lparr>rf_connection := slot, rf_failed_generation := 0, rf_last_failure := None\<rparr>))) s1
     | (Inl _, s1) \<Rightarrow>
         if left > 0
         then reconnect_loop A left failed_generation
                (min (2 * backoff) (rp_maximum_backoff (rf_policy s1)))
                (s1\<lparr>rf_world := rm_sleep A backoff (rf_world s1)\<rparr>)
         else (Inl CeOffline,
               s1\<lparr>rf_last_failure := Some (failed_generation, rm_now A (rf_world s1))\<rparr>))"

definition reconnect_after :: "('f, 'w) remote_api \<Rightarrow> u64 \<Rightarrow> ('f, 'w, 'f connection_slot) rop" where
  "reconnect_after A failed_generation s =
     (if cs_generation (rf_connection s) \<noteq> failed_generation \<or> rf_failed_generation s \<noteq> failed_generation
      then (Inr (rf_connection s), s)
      else if (case rf_last_failure s of
          None \<Rightarrow> False
        | Some (generation, failed_at) \<Rightarrow> generation = failed_generation \<and>
            rm_now A (rf_world s) - failed_at < rp_maximum_backoff (rf_policy s))
      then (Inl CeOffline, s)
      else reconnect_loop A (rp_attempts (rf_policy s)) failed_generation
             (rp_initial_backoff (rf_policy s)) s)"

definition healthy_connection :: "('f, 'w) remote_api \<Rightarrow> ('f, 'w, 'f connection_slot) rop" where
  "healthy_connection A s =
     (if rf_failed_generation s = cs_generation (rf_connection s)
      then reconnect_after A (cs_generation (rf_connection s)) s
      else (Inr (rf_connection s), s))"

subsection \<open>Calls\<close>

definition safe_call :: "('f, 'w) remote_api \<Rightarrow> ('f \<Rightarrow> ('w, 'a) act) \<Rightarrow> ('f, 'w, 'a) rop" where
  "safe_call A operation = mbind (healthy_connection A) (\<lambda>first s.
     case on_world (operation (cs_filesystem first)) s of
       (Inl e, s1) \<Rightarrow>
         if is_transport e
         then mbind (reconnect_after A (cs_generation first)) (\<lambda>replacement s2.
                case on_world (operation (cs_filesystem replacement)) s2 of
                  (Inl e', s3) \<Rightarrow>
                    (Inl e', if is_transport e' then mark_failed (cs_generation replacement) s3 else s3)
                | (Inr v, s3) \<Rightarrow> (Inr v, s3)) (mark_failed (cs_generation first) s1)
         else (Inl e, s1)
     | (Inr v, s1) \<Rightarrow> (Inr v, s1))"

text \<open>One request on a connection whose outcome is unknown when the transport fails.\<close>

definition once :: "'f connection_slot \<Rightarrow> ('f \<Rightarrow> ('w, 'a) act) \<Rightarrow> ('f, 'w, 'a) rop" where
  "once slot operation s = (case on_world (operation (cs_filesystem slot)) s of
     (Inl e, s1) \<Rightarrow> if is_transport e then (Inl CeAmbiguousMutation, mark_failed (cs_generation slot) s1)
                    else (Inl e, s1)
   | (Inr v, s1) \<Rightarrow> (Inr v, s1))"

definition mutation_call :: "('f, 'w) remote_api \<Rightarrow> ('f \<Rightarrow> ('w, 'a) act) \<Rightarrow> ('f, 'w, 'a) rop" where
  "mutation_call A operation = mbind (healthy_connection A) (\<lambda>slot. once slot operation)"

subsection \<open>Handles\<close>

definition open_remote :: "('f, 'w) remote_api \<Rightarrow> node_id \<Rightarrow> file_open_options
    \<Rightarrow> ('f, 'w, 'f connection_slot \<times> opened_file) rop" where
  "open_remote A node options = mbind (healthy_connection A) (\<lambda>slot s.
     case on_world (rm_open A node options (cs_filesystem slot)) s of
       (Inr opened, s1) \<Rightarrow> (Inr (slot, opened), s1)
     | (Inl e, s1) \<Rightarrow>
         if is_transport e \<and> \<not> oo_truncate options
         then mbind (reconnect_after A (cs_generation slot)) (\<lambda>replacement.
                mbind (on_world (rm_open A node options (cs_filesystem replacement))) (\<lambda>opened.
                  mret (replacement, opened))) (mark_failed (cs_generation slot) s1)
         else if is_transport e
         then (Inl CeAmbiguousMutation, mark_failed (cs_generation slot) s1)
         else (Inl e, s1))"

definition remember_open :: "file_handle \<Rightarrow> node_id \<Rightarrow> file_open_options \<Rightarrow> 'f connection_slot
    \<Rightarrow> opened_file \<Rightarrow> ('f, 'w, opened_file) rop" where
  "remember_open logical node options slot opened s =
     (Inr (opened\<lparr>op_handle := logical\<rparr>),
      s\<lparr>rf_handles := AList.update logical
          \<lparr>hs_node = node, hs_options = options, hs_remote = op_handle opened,
           hs_revision = op_revision opened, hs_size = op_size opened,
           hs_generation = cs_generation slot, hs_lock_history = []\<rparr> (rf_handles s)\<rparr>)"

definition invalid_handle :: client_error where
  "invalid_handle = CeServer InvalidHandle ''unknown logical file handle''"

definition get_handle :: "file_handle \<Rightarrow> ('f, 'w, handle_state) rop" where
  "get_handle logical s = (ok_or invalid_handle (map_of (rf_handles s) logical), s)"

definition modify_handle ::
  "file_handle \<Rightarrow> (handle_state \<Rightarrow> handle_state) \<Rightarrow> ('f, 'w) resilient \<Rightarrow> ('f, 'w) resilient" where
  "modify_handle logical f s = (case map_of (rf_handles s) logical of
     None \<Rightarrow> s | Some h \<Rightarrow> s\<lparr>rf_handles := AList.update logical (f h) (rf_handles s)\<rparr>)"

definition reopen_handle :: "('f, 'w) remote_api \<Rightarrow> file_handle \<Rightarrow> handle_state \<Rightarrow> 'f connection_slot
    \<Rightarrow> ('f, 'w, 'f connection_slot \<times> handle_state) rop" where
  "reopen_handle A logical state current =
     mbind (on_world (rm_open A (hs_node state) ((hs_options state)\<lparr>oo_truncate := False\<rparr>)
              (cs_filesystem current))) (\<lambda>reopened.
     mbind (if op_revision reopened \<noteq> hs_revision state
            then (if oo_access (hs_options state) = ReadOnly \<and> hs_lock_history state = []
                  then mput (modify_handle logical (\<lambda>h. h\<lparr>hs_revision := op_revision reopened\<rparr>))
                  else mbind (mignore (on_world (rm_close A (op_handle reopened) (cs_filesystem current))))
                         (\<lambda>_. mfail CeStaleRevision))
            else mret ()) (\<lambda>_.
     mbind (mfor (hs_lock_history state) (\<lambda>lock.
              on_world (rm_set_lock A (op_handle reopened) lock False (cs_filesystem current)))) (\<lambda>_.
     mbind (mput (modify_handle logical (\<lambda>h. h\<lparr>hs_remote := op_handle reopened,
              hs_size := op_size reopened, hs_generation := cs_generation current\<rparr>))) (\<lambda>_.
     mbind (get_handle logical) (\<lambda>state'. mret (current, state'))))))"

definition remote_handle :: "('f, 'w) remote_api \<Rightarrow> file_handle
    \<Rightarrow> ('f, 'w, 'f connection_slot \<times> handle_state) rop" where
  "remote_handle A logical =
     mbind (healthy_connection A) (\<lambda>slot.
     mbind (get_handle logical) (\<lambda>existing.
       if hs_generation existing = cs_generation slot then mret (slot, existing)
       else mbind (get_handle logical) (\<lambda>state.
            mbind (healthy_connection A) (\<lambda>current.
              if hs_generation state = cs_generation current then mret (current, state)
              else reopen_handle A logical state current))))"

definition adopt_revision :: "file_handle \<Rightarrow> u64 \<Rightarrow> ('f, 'w) resilient \<Rightarrow> ('f, 'w) resilient" where
  "adopt_revision logical revision =
     modify_handle logical (\<lambda>h. if revision > hs_revision h then h\<lparr>hs_revision := revision\<rparr> else h)"

definition update_written_handle :: "file_handle \<Rightarrow> file_handle \<Rightarrow> u64 \<Rightarrow> write_result
    \<Rightarrow> ('f, 'w) resilient \<Rightarrow> ('f, 'w) resilient" where
  "update_written_handle logical remote generation result =
     modify_handle logical (\<lambda>h. if hs_remote h = remote \<and> hs_generation h = generation
       then h\<lparr>hs_revision := wr_revision result, hs_size := wr_size result\<rparr> else h)"

subsection \<open>Operations on nodes\<close>

text \<open>Reads that may be repeated on a replacement connection.\<close>

definition res_ping :: "('f, 'w) remote_api \<Rightarrow> u64 \<Rightarrow> ('f, 'w, fs_value) rop" where
  "res_ping A nonce = safe_call A (rm_call A (ReqPing nonce) [])"

definition res_capabilities :: "('f, 'w) remote_api \<Rightarrow> ('f, 'w, filesystem_capabilities) rop" where
  "res_capabilities A = safe_call A (rm_capabilities A)"

definition res_stat_filesystem :: "('f, 'w) remote_api \<Rightarrow> ('f, 'w, fs_value) rop" where
  "res_stat_filesystem A = safe_call A (rm_call A ReqStatFilesystem [])"

definition res_get_metadata :: "('f, 'w) remote_api \<Rightarrow> node_id \<Rightarrow> ('f, 'w, fs_value) rop" where
  "res_get_metadata A node = safe_call A (rm_call A (ReqGetMetadata node) [])"

definition res_list_directory_snapshot :: "('f, 'w) remote_api \<Rightarrow> node_id \<Rightarrow> ('f, 'w, fs_value) rop" where
  "res_list_directory_snapshot A node = safe_call A (rm_call A (ReqListDirectory node) [])"

definition res_list_directory_view ::
  "('f, 'w) remote_api \<Rightarrow> node_id \<Rightarrow> directory_view_options \<Rightarrow> ('f, 'w, fs_value) rop" where
  "res_list_directory_view A node options = safe_call A (rm_call A (ReqListDirectoryView node options) [])"

definition res_read_link :: "('f, 'w) remote_api \<Rightarrow> node_id \<Rightarrow> ('f, 'w, fs_value) rop" where
  "res_read_link A node = safe_call A (rm_call A (ReqReadLink node) [])"

definition res_get_xattr ::
  "('f, 'w) remote_api \<Rightarrow> node_id \<Rightarrow> name \<Rightarrow> u64 \<Rightarrow> u64 \<Rightarrow> ('f, 'w, fs_value) rop" where
  "res_get_xattr A node nm offset len = safe_call A (rm_call A (ReqGetXattr node nm offset len) [])"

definition res_list_xattrs :: "('f, 'w) remote_api \<Rightarrow> node_id \<Rightarrow> ('f, 'w, fs_value) rop" where
  "res_list_xattrs A node = safe_call A (rm_call A (ReqListXattrs node) [])"

definition res_map_block :: "('f, 'w) remote_api \<Rightarrow> node_id \<Rightarrow> u32 \<Rightarrow> u64 \<Rightarrow> ('f, 'w, fs_value) rop" where
  "res_map_block A node block_size block = safe_call A (rm_call A (ReqMapBlock node block_size block) [])"

definition res_forget_nodes :: "('f, 'w) remote_api \<Rightarrow> node_id list \<Rightarrow> ('f, 'w, fs_value) rop" where
  "res_forget_nodes A nodes = safe_call A (rm_call A (ReqForgetNodes nodes) [])"

text \<open>Mutations, sent once.\<close>

definition res_create_directory ::
  "('f, 'w) remote_api \<Rightarrow> node_id \<Rightarrow> name \<Rightarrow> u32 \<Rightarrow> ('f, 'w, fs_value) rop" where
  "res_create_directory A parent nm mode = mutation_call A (rm_call A (ReqCreateDirectory parent nm mode) [])"

definition res_create_symlink ::
  "('f, 'w) remote_api \<Rightarrow> node_id \<Rightarrow> name \<Rightarrow> bytes \<Rightarrow> ('f, 'w, fs_value) rop" where
  "res_create_symlink A parent nm target = mutation_call A (rm_call A (ReqCreateSymlink parent nm target) [])"

definition res_create_hard_link ::
  "('f, 'w) remote_api \<Rightarrow> node_id \<Rightarrow> node_id \<Rightarrow> name \<Rightarrow> ('f, 'w, fs_value) rop" where
  "res_create_hard_link A node new_parent new_name =
     mutation_call A (rm_call A (ReqCreateHardLink node new_parent new_name) [])"

definition res_create_special_node :: "('f, 'w) remote_api \<Rightarrow> node_id \<Rightarrow> name \<Rightarrow> special_node_kind
    \<Rightarrow> u32 \<Rightarrow> u32 \<Rightarrow> u32 \<Rightarrow> ('f, 'w, fs_value) rop" where
  "res_create_special_node A parent nm kind mode major minor =
     mutation_call A (rm_call A (ReqCreateSpecialNode parent nm kind mode major minor) [])"

definition res_remove_node ::
  "('f, 'w) remote_api \<Rightarrow> node_id \<Rightarrow> name \<Rightarrow> bool \<Rightarrow> ('f, 'w, fs_value) rop" where
  "res_remove_node A parent nm directory = mutation_call A (rm_call A (ReqRemoveNode parent nm directory) [])"

definition res_rename_node :: "('f, 'w) remote_api \<Rightarrow> node_id \<Rightarrow> name \<Rightarrow> node_id \<Rightarrow> name
    \<Rightarrow> rename_mode \<Rightarrow> ('f, 'w, fs_value) rop" where
  "res_rename_node A parent nm new_parent new_name mode =
     mutation_call A (rm_call A (ReqRenameNode parent nm new_parent new_name mode) [])"

definition res_sync_directory :: "('f, 'w) remote_api \<Rightarrow> node_id \<Rightarrow> ('f, 'w, fs_value) rop" where
  "res_sync_directory A node = mutation_call A (rm_call A (ReqSyncDirectory node) [])"

definition res_set_xattr :: "('f, 'w) remote_api \<Rightarrow> node_id \<Rightarrow> name \<Rightarrow> bytes \<Rightarrow> xattr_set_mode
    \<Rightarrow> u32 \<Rightarrow> ('f, 'w, fs_value) rop" where
  "res_set_xattr A node nm val mode position =
     mutation_call A (rm_call A (ReqSetXattr node nm mode position (length val)) val)"

definition res_remove_xattr :: "('f, 'w) remote_api \<Rightarrow> node_id \<Rightarrow> name \<Rightarrow> ('f, 'w, fs_value) rop" where
  "res_remove_xattr A node nm = mutation_call A (rm_call A (ReqRemoveXattr node nm) [])"

definition res_exchange_data :: "('f, 'w) remote_api \<Rightarrow> node_id \<Rightarrow> name \<Rightarrow> node_id \<Rightarrow> name
    \<Rightarrow> u64 \<Rightarrow> ('f, 'w, fs_value) rop" where
  "res_exchange_data A parent nm new_parent new_name options =
     mutation_call A (rm_call A (ReqExchangeData parent nm new_parent new_name options) [])"

definition res_set_volume_name :: "('f, 'w) remote_api \<Rightarrow> name \<Rightarrow> ('f, 'w, fs_value) rop" where
  "res_set_volume_name A nm = mutation_call A (rm_call A (ReqSetVolumeName nm) [])"

subsection \<open>Operations on logical handles\<close>

text \<open>
  The fresh logical handle that \<^verbatim>\<open>remember_open\<close> draws is the argument \<open>logical\<close> of the two
  operations that open a file.
\<close>

definition res_open_file_with_options :: "('f, 'w) remote_api \<Rightarrow> file_handle \<Rightarrow> node_id
    \<Rightarrow> file_open_options \<Rightarrow> ('f, 'w, opened_file) rop" where
  "res_open_file_with_options A logical node options =
     mbind (open_remote A node options) (\<lambda>(slot, opened).
       remember_open logical node options slot opened)"

definition res_create_file :: "('f, 'w) remote_api \<Rightarrow> file_handle \<Rightarrow> node_id \<Rightarrow> name \<Rightarrow> u32
    \<Rightarrow> file_open_options \<Rightarrow> ('f, 'w, created_file) rop" where
  "res_create_file A logical parent nm mode options =
     mbind (healthy_connection A) (\<lambda>slot.
     mbind (once slot (rm_create A parent nm mode options)) (\<lambda>created.
     mbind (remember_open logical (md_node (cr_metadata created)) options slot (cr_opened created)) (\<lambda>opened.
       mret \<lparr>cr_metadata = cr_metadata created, cr_opened = opened\<rparr>)))"

definition res_set_attributes :: "('f, 'w) remote_api \<Rightarrow> node_id \<Rightarrow> file_handle option
    \<Rightarrow> attribute_changes \<Rightarrow> ('f, 'w, metadata) rop" where
  "res_set_attributes A node handle changes =
     mbind (case handle of
              Some logical \<Rightarrow> mbind (remote_handle A logical) (\<lambda>(_, state). mret (Some state))
            | None \<Rightarrow> mret None) (\<lambda>mapped.
     mbind (mutation_call A (rm_set_attributes A node (map_option hs_remote mapped) changes)) (\<lambda>metadata.
     mbind (case handle of
              Some logical \<Rightarrow> mput (modify_handle logical (\<lambda>h.
                h\<lparr>hs_revision := md_revision metadata, hs_size := md_size metadata\<rparr>))
            | None \<Rightarrow> mret ()) (\<lambda>_. mret metadata)))"

text \<open>
  A read on a handle: after a transport failure it is repeated on the reopened handle, and the
  second outcome is returned as it is.
\<close>

definition retry_on_handle :: "('f, 'w) remote_api \<Rightarrow> file_handle \<Rightarrow> (file_handle \<Rightarrow> 'f \<Rightarrow> ('w, 'a) act)
    \<Rightarrow> ('f, 'w, handle_state \<times> 'a) rop" where
  "retry_on_handle A logical operation = mbind (remote_handle A logical) (\<lambda>(slot, state) s.
     case on_world (operation (hs_remote state) (cs_filesystem slot)) s of
       (Inr v, s1) \<Rightarrow> (Inr (state, v), s1)
     | (Inl e, s1) \<Rightarrow>
         if is_transport e
         then mbind (remote_handle A logical) (\<lambda>(_, reopened).
              mbind (healthy_connection A) (\<lambda>replacement.
              mbind (on_world (operation (hs_remote reopened) (cs_filesystem replacement))) (\<lambda>v.
                mret (reopened, v)))) (mark_failed (cs_generation slot) s1)
         else (Inl e, s1))"

definition res_read_range_versioned ::
  "('f, 'w) remote_api \<Rightarrow> file_handle \<Rightarrow> u64 \<Rightarrow> u64 \<Rightarrow> ('f, 'w, range_read) rop" where
  "res_read_range_versioned A handle offset len =
     mbind (retry_on_handle A handle (\<lambda>remote. rm_read A remote offset len)) (\<lambda>(state, read).
     mbind (if rr_revision read \<noteq> hs_revision state
            then mput (adopt_revision handle (rr_revision read)) else mret ()) (\<lambda>_.
       mret read))"

definition res_seek_file ::
  "('f, 'w) remote_api \<Rightarrow> file_handle \<Rightarrow> u64 \<Rightarrow> seek_whence \<Rightarrow> ('f, 'w, u64) rop" where
  "res_seek_file A handle offset whence =
     mbind (retry_on_handle A handle (\<lambda>remote. rm_seek A remote offset whence)) (\<lambda>(_, v). mret v)"

definition res_safe_ioctl :: "('f, 'w) remote_api \<Rightarrow> file_handle \<Rightarrow> safe_ioctl \<Rightarrow> ('f, 'w, u64) rop" where
  "res_safe_ioctl A handle operation =
     mbind (retry_on_handle A handle (\<lambda>remote. rm_ioctl A remote operation)) (\<lambda>(_, v). mret v)"

definition res_get_lock ::
  "('f, 'w) remote_api \<Rightarrow> file_handle \<Rightarrow> file_lock \<Rightarrow> ('f, 'w, file_lock option) rop" where
  "res_get_lock A handle lock =
     mbind (retry_on_handle A handle (\<lambda>remote. rm_get_lock A remote lock)) (\<lambda>(_, v). mret v)"

text \<open>A mutation on a handle, sent once; the handle it was sent to is part of the result.\<close>

definition mutate_handle :: "('f, 'w) remote_api \<Rightarrow> file_handle \<Rightarrow> (file_handle \<Rightarrow> 'f \<Rightarrow> ('w, 'a) act)
    \<Rightarrow> ('f, 'w, ('f connection_slot \<times> handle_state) \<times> 'a) rop" where
  "mutate_handle A logical operation = mbind (remote_handle A logical) (\<lambda>(slot, state).
     mbind (once slot (operation (hs_remote state))) (\<lambda>v. mret ((slot, state), v)))"

definition res_write_range ::
  "('f, 'w) remote_api \<Rightarrow> file_handle \<Rightarrow> u64 \<Rightarrow> bytes \<Rightarrow> ('f, 'w, write_result) rop" where
  "res_write_range A handle offset data =
     mbind (mutate_handle A handle (\<lambda>remote. rm_write A remote offset data)) (\<lambda>((slot, state), result).
     mbind (mput (update_written_handle handle (hs_remote state) (cs_generation slot) result)) (\<lambda>_.
       mret result))"

definition res_flush_file :: "('f, 'w) remote_api \<Rightarrow> file_handle \<Rightarrow> u64 option \<Rightarrow> ('f, 'w, unit) rop" where
  "res_flush_file A handle lock_owner =
     mbind (mutate_handle A handle (\<lambda>remote. rm_flush A remote lock_owner)) (\<lambda>_. mret ())"

definition res_sync_file :: "('f, 'w) remote_api \<Rightarrow> file_handle \<Rightarrow> bool \<Rightarrow> ('f, 'w, unit) rop" where
  "res_sync_file A handle data_only =
     mbind (mutate_handle A handle (\<lambda>remote. rm_sync A remote data_only)) (\<lambda>_. mret ())"

definition res_allocate_file ::
  "('f, 'w) remote_api \<Rightarrow> file_handle \<Rightarrow> u64 \<Rightarrow> u64 \<Rightarrow> ('f, 'w, write_result) rop" where
  "res_allocate_file A handle offset len =
     mbind (mutate_handle A handle (\<lambda>remote. rm_allocate A remote offset len)) (\<lambda>((slot, state), result).
     mbind (mput (update_written_handle handle (hs_remote state) (cs_generation slot) result)) (\<lambda>_.
       mret result))"

definition res_copy_file_range :: "('f, 'w) remote_api \<Rightarrow> file_handle \<Rightarrow> u64 \<Rightarrow> file_handle \<Rightarrow> u64 \<Rightarrow> u64
    \<Rightarrow> ('f, 'w, write_result) rop" where
  "res_copy_file_range A input input_offset output output_offset len =
     mbind (remote_handle A input) (\<lambda>(input_slot, input_state).
     mbind (remote_handle A output) (\<lambda>(output_slot, output_state).
       if cs_generation input_slot \<noteq> cs_generation output_slot then mfail CeStaleRevision
       else mbind (once \<lparr>cs_generation = cs_generation output_slot,
                         cs_filesystem = cs_filesystem input_slot\<rparr>
                     (rm_copy A (hs_remote input_state) input_offset (hs_remote output_state)
                        output_offset len)) (\<lambda>result.
            mbind (mput (update_written_handle output (hs_remote output_state)
                           (cs_generation output_slot) result)) (\<lambda>_. mret result))))"

definition LOCK_HISTORY_LIMIT :: usize where
  "LOCK_HISTORY_LIMIT = 4096"

definition record_lock :: "file_lock \<Rightarrow> handle_state \<Rightarrow> handle_state" where
  "record_lock lock h =
     (let history = hs_lock_history h @ [lock]
      in h\<lparr>hs_lock_history :=
             (if lk_kind lock = Unlock \<and> length history > LOCK_HISTORY_LIMIT then [] else history)\<rparr>)"

definition res_set_lock :: "('f, 'w) remote_api \<Rightarrow> file_handle \<Rightarrow> file_lock \<Rightarrow> bool \<Rightarrow> ('f, 'w, unit) rop" where
  "res_set_lock A handle lock wait =
     mbind (mutate_handle A handle (\<lambda>remote. rm_set_lock A remote lock wait)) (\<lambda>_.
       mput (modify_handle handle (record_lock lock)))"

definition res_close_file :: "('f, 'w) remote_api \<Rightarrow> file_handle \<Rightarrow> ('f, 'w, unit) rop" where
  "res_close_file A handle =
     mbind (get_handle handle) (\<lambda>state.
     mbind (mput (\<lambda>s. s\<lparr>rf_handles := AList.delete handle (rf_handles s)\<rparr>)) (\<lambda>_ s.
       let slot = rf_connection s in
       if hs_generation state \<noteq> cs_generation slot then (Inr (), s)
       else (case on_world (rm_close A (hs_remote state) (cs_filesystem slot)) s of
           (Inl e, s1) \<Rightarrow> if is_transport e then (Inr (), mark_failed (cs_generation slot) s1)
                          else (Inl e, s1)
         | (Inr _, s1) \<Rightarrow> (Inr (), s1))))"

end
