(* ===== verification/Triples.thy ===== *)
theory Triples
  imports Prelude
begin

text \<open>
  Triples for stateful operations with errors: \<open>triple P m Q E\<close> says that \<open>m\<close>, started in a
  state with \<open>P\<close>, ends in a state with \<open>Q\<close> of its result or, when it returns early, in a
  state with \<open>E\<close> of its error. The rules follow the combinators of the prelude.
\<close>

named_theorems triple_intros "rules for triples of the operation combinators"

definition triple :: "('s \<Rightarrow> bool) \<Rightarrow> ('s, 'e, 'a) op \<Rightarrow> ('a \<Rightarrow> 's \<Rightarrow> bool) \<Rightarrow> ('e \<Rightarrow> 's \<Rightarrow> bool) \<Rightarrow> bool" where
  "triple P m Q E \<longleftrightarrow> (\<forall>s. P s \<longrightarrow> (case m s of (Inr x, t) \<Rightarrow> Q x t | (Inl e, t) \<Rightarrow> E e t))"

lemma tripleI:
  assumes "\<And>s x t. P s \<Longrightarrow> m s = (Inr x, t) \<Longrightarrow> Q x t"
    and "\<And>s e t. P s \<Longrightarrow> m s = (Inl e, t) \<Longrightarrow> E e t"
  shows "triple P m Q E"
  using assms by (auto simp: triple_def split: prod.splits sum.splits)

lemma triple_Inr: "triple P m Q E \<Longrightarrow> P s \<Longrightarrow> m s = (Inr x, t) \<Longrightarrow> Q x t"
  by (force simp: triple_def)

lemma triple_Inl: "triple P m Q E \<Longrightarrow> P s \<Longrightarrow> m s = (Inl e, t) \<Longrightarrow> E e t"
  by (force simp: triple_def)

lemma tripleD: "triple P m Q E \<Longrightarrow> P s \<Longrightarrow> case m s of (Inr x, t) \<Rightarrow> Q x t | (Inl e, t) \<Rightarrow> E e t"
  by (simp add: triple_def)

lemma triple_snd: "triple I m (\<lambda>_. I) (\<lambda>_. I) \<Longrightarrow> I s \<Longrightarrow> I (snd (m s))"
  by (cases "m s"; cases "fst (m s)") (auto dest: triple_Inr triple_Inl)

lemma triple_conseq:
  assumes "triple P' m Q' E'" "\<And>s. P s \<Longrightarrow> P' s" "\<And>x s. Q' x s \<Longrightarrow> Q x s" "\<And>e s. E' e s \<Longrightarrow> E e s"
  shows "triple P m Q E"
  using assms by (fastforce simp: triple_def split: prod.splits sum.splits)

lemma triple_conj:
  assumes "triple P m Q E" "triple P' m Q' E'"
  shows "triple (\<lambda>s. P s \<and> P' s) m (\<lambda>x s. Q x s \<and> Q' x s) (\<lambda>e s. E e s \<and> E' e s)"
  using assms by (fastforce simp: triple_def split: prod.splits sum.splits)

lemma triple_mret [triple_intros]: "(\<And>s. P s \<Longrightarrow> Q x s) \<Longrightarrow> triple P (mret x) Q E"
  by (simp add: triple_def mret_def)

lemma triple_mfail [triple_intros]: "(\<And>s. P s \<Longrightarrow> E e s) \<Longrightarrow> triple P (mfail e) Q E"
  by (simp add: triple_def mfail_def)

lemma triple_mput [triple_intros]: "(\<And>s. P s \<Longrightarrow> Q () (f s)) \<Longrightarrow> triple P (mput f) Q E"
  by (simp add: triple_def mput_def)

lemma mbind_mret [simp]: "mbind (mret x) f = f x"
  by (simp add: fun_eq_iff mbind_def mret_def)

lemma mbind_mbind: "mbind (mbind m f) g = mbind m (\<lambda>x. mbind (f x) g)"
  by (auto simp: fun_eq_iff mbind_def split: prod.splits sum.splits)

lemma mbind_InrE:
  assumes "mbind m f s = (Inr v, t)"
  obtains x s' where "m s = (Inr x, s')" "f x s' = (Inr v, t)"
  using assms by (auto simp: mbind_def split: prod.splits sum.splits)

lemma triple_mbind:
  assumes "triple P m R E" "\<And>x. triple (R x) (f x) Q E"
  shows "triple P (mbind m f) Q E"
  using assms by (fastforce simp: triple_def mbind_def split: prod.splits sum.splits)

lemma triple_then_put:
  assumes "triple P m (\<lambda>_. I) E" "\<And>x s. I s \<Longrightarrow> I (f x s)"
  shows "triple P (mbind m (\<lambda>x. mbind (mput (f x)) (\<lambda>_. mret (g x)))) (\<lambda>_. I) E"
  using assms by (fastforce simp: triple_def mbind_def mput_def mret_def split: prod.splits sum.splits)

lemma triple_mignore:
  assumes "triple P m (\<lambda>_. Q) (\<lambda>_. Q)"
  shows "triple P (mignore m) (\<lambda>_. Q) E"
  using assms by (auto simp: triple_def mignore_def split_beta split: sum.splits)

lemma triple_mfor:
  assumes "\<And>x. x \<in> set xs \<Longrightarrow> triple I (f x) (\<lambda>_. I) E"
  shows "triple I (mfor xs f) (\<lambda>_. I) E"
  using assms by (induction xs) (auto intro: triple_mret triple_mbind)

lemma triple_if [triple_intros]:
  assumes "b \<Longrightarrow> triple P m Q E" "\<not> b \<Longrightarrow> triple P n Q E"
  shows "triple P (if b then m else n) Q E"
  using assms by simp

lemma triple_pre: "(\<And>s. P s \<Longrightarrow> R) \<Longrightarrow> (R \<Longrightarrow> triple P m Q E) \<Longrightarrow> triple P m Q E"
  by (auto simp: triple_def)

text \<open>Both outcomes handled: the error branch goes on with \<open>h\<close>, the other with \<open>g\<close>.\<close>

lemma triple_cases:
  assumes "triple P m R F" "\<And>x. triple (R x) (g x) Q E" "\<And>e. triple (F e) (h e) Q E"
  shows "triple P (\<lambda>s. case m s of (Inl e, t) \<Rightarrow> h e t | (Inr x, t) \<Rightarrow> g x t) Q E"
  using assms by (fastforce simp: triple_def split: prod.splits sum.splits)

lemma triple_done [triple_intros]: "(\<And>s. P s \<Longrightarrow> Q x (f s)) \<Longrightarrow> triple P (\<lambda>s. (Inr x, f s)) Q E"
  by (simp add: triple_def)

lemma triple_stop [triple_intros]: "(\<And>s. P s \<Longrightarrow> E e (f s)) \<Longrightarrow> triple P (\<lambda>s. (Inl e, f s)) Q E"
  by (simp add: triple_def)

lemma triple_cond [triple_intros]:
  assumes "triple (\<lambda>s. P s \<and> b s) m Q E" "triple (\<lambda>s. P s \<and> \<not> b s) n Q E"
  shows "triple P (\<lambda>s. if b s then m s else n s) Q E"
  using assms by (simp add: triple_def)

lemma triple_after:
  assumes "\<And>s. triple P' (m s) Q E" "\<And>s. P s \<Longrightarrow> P' (f s)"
  shows "triple P (\<lambda>s. m s (f s)) Q E"
  using assms by (simp add: triple_def)

end
