(* ===== verification/Client_Recovery.thy ===== *)
theory Client_Recovery
  imports Client_Resilient Triples
begin

text \<open>
  What \<^verbatim>\<open>ResilientFilesystem\<close> promises while connections fail, over the model of the theory
  \<open>Client_Resilient\<close>. All its operations are one datatype \<open>client_op\<close>, run by \<open>run_client_op\<close>.
  The servers are arbitrary; a property that needs to observe them names a contract on the
  remote interface: \<open>uses_issued\<close> (which handles a connection has issued, and whether every
  request so far was allowed) and \<open>counts_sends\<close> (how many mutations were sent).
\<close>

subsection \<open>All operations\<close>

datatype (plugins only: code size) client_op =
    CoPing u64
  | CoCapabilities
  | CoStatFilesystem
  | CoGetMetadata node_id
  | CoListDirectorySnapshot node_id
  | CoListDirectoryView node_id directory_view_options
  | CoOpenFile file_handle node_id file_open_options
  | CoCreateFile file_handle node_id name u32 file_open_options
  | CoCreateDirectory node_id name u32
  | CoCreateSymlink node_id name bytes
  | CoCreateHardLink node_id node_id name
  | CoCreateSpecialNode node_id name special_node_kind u32 u32 u32
  | CoRemoveNode node_id name bool
  | CoRenameNode node_id name node_id name rename_mode
  | CoReadLink node_id
  | CoSetAttributes node_id "file_handle option" attribute_changes
  | CoReadRange file_handle u64 u64
  | CoWriteRange file_handle u64 bytes
  | CoFlushFile file_handle "u64 option"
  | CoSyncFile file_handle bool
  | CoSyncDirectory node_id
  | CoAllocateFile file_handle u64 u64
  | CoGetXattr node_id name u64 u64
  | CoSetXattr node_id name bytes xattr_set_mode u32
  | CoListXattrs node_id
  | CoRemoveXattr node_id name
  | CoCopyFileRange file_handle u64 file_handle u64 u64
  | CoSeekFile file_handle u64 seek_whence
  | CoSafeIoctl file_handle safe_ioctl
  | CoMapBlock node_id u32 u64
  | CoExchangeData node_id name node_id name u64
  | CoSetVolumeName name
  | CoForgetNodes "node_id list"
  | CoGetLock file_handle file_lock
  | CoSetLock file_handle file_lock bool
  | CoCloseFile file_handle

definition mmap :: "('a \<Rightarrow> 'b) \<Rightarrow> ('s, 'e, 'a) op \<Rightarrow> ('s, 'e, 'b) op" where
  "mmap f m = mbind m (\<lambda>x. mret (f x))"

fun run_client_op :: "('f, 'w) remote_api \<Rightarrow> client_op \<Rightarrow> ('f, 'w, fs_value) rop" where
  "run_client_op A (CoPing n) = res_ping A n"
| "run_client_op A CoCapabilities = mmap VCapabilities (res_capabilities A)"
| "run_client_op A CoStatFilesystem = res_stat_filesystem A"
| "run_client_op A (CoGetMetadata n) = res_get_metadata A n"
| "run_client_op A (CoListDirectorySnapshot n) = res_list_directory_snapshot A n"
| "run_client_op A (CoListDirectoryView n opts) = res_list_directory_view A n opts"
| "run_client_op A (CoOpenFile l n opts) = mmap VOpened (res_open_file_with_options A l n opts)"
| "run_client_op A (CoCreateFile l p n m opts) = mmap VCreated (res_create_file A l p n m opts)"
| "run_client_op A (CoCreateDirectory p n m) = res_create_directory A p n m"
| "run_client_op A (CoCreateSymlink p n t) = res_create_symlink A p n t"
| "run_client_op A (CoCreateHardLink n p m) = res_create_hard_link A n p m"
| "run_client_op A (CoCreateSpecialNode p n k m ma mi) = res_create_special_node A p n k m ma mi"
| "run_client_op A (CoRemoveNode p n d) = res_remove_node A p n d"
| "run_client_op A (CoRenameNode p n p' n' m) = res_rename_node A p n p' n' m"
| "run_client_op A (CoReadLink n) = res_read_link A n"
| "run_client_op A (CoSetAttributes n h c) = mmap VMetadata (res_set_attributes A n h c)"
| "run_client_op A (CoReadRange h off len) = mmap VRead (res_read_range_versioned A h off len)"
| "run_client_op A (CoWriteRange h off d) = mmap VWritten (res_write_range A h off d)"
| "run_client_op A (CoFlushFile h own) = mmap (\<lambda>_. VUnit) (res_flush_file A h own)"
| "run_client_op A (CoSyncFile h d) = mmap (\<lambda>_. VUnit) (res_sync_file A h d)"
| "run_client_op A (CoSyncDirectory n) = res_sync_directory A n"
| "run_client_op A (CoAllocateFile h off len) = mmap VWritten (res_allocate_file A h off len)"
| "run_client_op A (CoGetXattr n x off len) = res_get_xattr A n x off len"
| "run_client_op A (CoSetXattr n x v m pos) = res_set_xattr A n x v m pos"
| "run_client_op A (CoListXattrs n) = res_list_xattrs A n"
| "run_client_op A (CoRemoveXattr n x) = res_remove_xattr A n x"
| "run_client_op A (CoCopyFileRange i io ou oo len) = mmap VWritten (res_copy_file_range A i io ou oo len)"
| "run_client_op A (CoSeekFile h off wh) = mmap VNumber (res_seek_file A h off wh)"
| "run_client_op A (CoSafeIoctl h x) = mmap VNumber (res_safe_ioctl A h x)"
| "run_client_op A (CoMapBlock n bs b) = res_map_block A n bs b"
| "run_client_op A (CoExchangeData p n p' n' opts) = res_exchange_data A p n p' n' opts"
| "run_client_op A (CoSetVolumeName n) = res_set_volume_name A n"
| "run_client_op A (CoForgetNodes ns) = res_forget_nodes A ns"
| "run_client_op A (CoGetLock h l) = mmap VLock (res_get_lock A h l)"
| "run_client_op A (CoSetLock h l wt) = mmap (\<lambda>_. VUnit) (res_set_lock A h l wt)"
| "run_client_op A (CoCloseFile h) = mmap (\<lambda>_. VUnit) (res_close_file A h)"

fun run_client_ops :: "('f, 'w) remote_api \<Rightarrow> client_op list \<Rightarrow> ('f, 'w) resilient \<Rightarrow> ('f, 'w) resilient" where
  "run_client_ops A [] s = s"
| "run_client_ops A (x # xs) s = run_client_ops A xs (snd (run_client_op A x s))"

lemmas safe_ops = res_ping_def res_capabilities_def res_stat_filesystem_def res_get_metadata_def
  res_list_directory_snapshot_def res_list_directory_view_def res_read_link_def res_get_xattr_def
  res_list_xattrs_def res_map_block_def res_forget_nodes_def

lemmas mutation_ops = res_create_directory_def res_create_symlink_def res_create_hard_link_def
  res_create_special_node_def res_remove_node_def res_rename_node_def res_sync_directory_def
  res_set_xattr_def res_remove_xattr_def res_exchange_data_def res_set_volume_name_def

lemma triple_mmap: "triple P m (\<lambda>_. Q) E \<Longrightarrow> triple P (mmap f m) (\<lambda>_. Q) E"
  unfolding mmap_def by (erule triple_mbind) (simp add: triple_mret)

subsection \<open>Handles go to the connection that issued them\<close>

definition step_if :: "('w \<Rightarrow> 'f \<Rightarrow> file_handle \<Rightarrow> bool) \<Rightarrow> ('w \<Rightarrow> bool) \<Rightarrow> bool \<Rightarrow> 'w \<Rightarrow> 'w \<Rightarrow> bool" where
  "step_if issued fine g w w' \<longleftrightarrow>
     (g \<and> fine w \<longrightarrow> fine w') \<and> (\<forall>f h. issued w f h \<longrightarrow> issued w' f h)"

text \<open>
  The contract that observes handles: \<open>issued w f h\<close> says that connection \<open>f\<close> has returned
  handle \<open>h\<close> from an open or a create, and it stays true; \<open>fine\<close> stays true as long as a
  handle is only sent to a connection that has issued it.
\<close>

definition uses_issued ::
  "('f, 'w) remote_api \<Rightarrow> ('w \<Rightarrow> 'f \<Rightarrow> file_handle \<Rightarrow> bool) \<Rightarrow> ('w \<Rightarrow> bool) \<Rightarrow> bool" where
  "uses_issued A issued fine \<longleftrightarrow> (\<forall>w f h h'.
     step_if issued fine True w (snd (rm_connect A w)) \<and>
     (\<forall>d. step_if issued fine True w (rm_sleep A d w)) \<and>
     step_if issued fine True w (snd (rm_capabilities A f w)) \<and>
     (\<forall>r p. step_if issued fine True w (snd (rm_call A r p f w))) \<and>
     (\<forall>n opts. step_if issued fine True w (snd (rm_open A n opts f w)) \<and>
        (\<forall>x. fst (rm_open A n opts f w) = Inr x \<longrightarrow>
           issued (snd (rm_open A n opts f w)) f (op_handle x))) \<and>
     (\<forall>p n m opts. step_if issued fine True w (snd (rm_create A p n m opts f w)) \<and>
        (\<forall>x. fst (rm_create A p n m opts f w) = Inr x \<longrightarrow>
           issued (snd (rm_create A p n m opts f w)) f (op_handle (cr_opened x)))) \<and>
     step_if issued fine (issued w f h) w (snd (rm_close A h f w)) \<and>
     (\<forall>n c. step_if issued fine True w (snd (rm_set_attributes A n None c f w))) \<and>
     (\<forall>n c. step_if issued fine (issued w f h) w (snd (rm_set_attributes A n (Some h) c f w))) \<and>
     (\<forall>off len. step_if issued fine (issued w f h) w (snd (rm_read A h off len f w))) \<and>
     (\<forall>off d. step_if issued fine (issued w f h) w (snd (rm_write A h off d f w))) \<and>
     (\<forall>own. step_if issued fine (issued w f h) w (snd (rm_flush A h own f w))) \<and>
     (\<forall>d. step_if issued fine (issued w f h) w (snd (rm_sync A h d f w))) \<and>
     (\<forall>off len. step_if issued fine (issued w f h) w (snd (rm_allocate A h off len f w))) \<and>
     (\<forall>i off len. step_if issued fine (issued w f h \<and> issued w f h') w
        (snd (rm_copy A h i h' off len f w))) \<and>
     (\<forall>off wh. step_if issued fine (issued w f h) w (snd (rm_seek A h off wh f w))) \<and>
     (\<forall>x. step_if issued fine (issued w f h) w (snd (rm_ioctl A h x f w))) \<and>
     (\<forall>l. step_if issued fine (issued w f h) w (snd (rm_get_lock A h l f w))) \<and>
     (\<forall>l b. step_if issued fine (issued w f h) w (snd (rm_set_lock A h l b f w))))"

definition handles_ok ::
  "('w \<Rightarrow> 'f \<Rightarrow> file_handle \<Rightarrow> bool) \<Rightarrow> ('w \<Rightarrow> bool) \<Rightarrow> ('f, 'w) resilient \<Rightarrow> bool" where
  "handles_ok issued fine s \<longleftrightarrow> (let c = rf_connection s in cs_generation c < U64_MAX \<longrightarrow>
     fine (rf_world s) \<and>
     (\<forall>l h. map_of (rf_handles s) l = Some h \<longrightarrow> hs_generation h \<le> cs_generation c \<and>
        (hs_generation h = cs_generation c \<longrightarrow> issued (rf_world s) (cs_filesystem c) (hs_remote h))))"

text \<open>A handle that may be sent to the current connection.\<close>

definition sendable :: "('w \<Rightarrow> 'f \<Rightarrow> file_handle \<Rightarrow> bool) \<Rightarrow> file_handle \<Rightarrow> ('f, 'w) resilient \<Rightarrow> bool" where
  "sendable issued h s \<longleftrightarrow> (cs_generation (rf_connection s) < U64_MAX \<longrightarrow>
     issued (rf_world s) (cs_filesystem (rf_connection s)) h)"

definition healthy :: "('f, 'w) resilient \<Rightarrow> bool" where
  "healthy s \<longleftrightarrow> rf_failed_generation s \<noteq> cs_generation (rf_connection s)"

text \<open>The connection in hand is the current one and the handles in hand may be sent to it.\<close>

definition linked :: "('w \<Rightarrow> 'f \<Rightarrow> file_handle \<Rightarrow> bool) \<Rightarrow> ('w \<Rightarrow> bool) \<Rightarrow> bool \<Rightarrow> 'f connection_slot
    \<Rightarrow> file_handle list \<Rightarrow> ('f, 'w) resilient \<Rightarrow> bool" where
  "linked issued fine b slot hs s \<longleftrightarrow> handles_ok issued fine s \<and> rf_connection s = slot \<and>
     (b \<longrightarrow> healthy s) \<and> (\<forall>h\<in>set hs. sendable issued h s)"

lemma on_world_eq: "on_world m s = (fst (m (rf_world s)), s\<lparr>rf_world := snd (m (rf_world s))\<rparr>)"
  by (simp add: on_world_def split_beta)

lemma step_if_weaken: "step_if issued fine g w w' \<Longrightarrow> (g' \<Longrightarrow> g) \<Longrightarrow> step_if issued fine g' w w'"
  by (auto simp: step_if_def)

lemma linked_world:
  assumes "linked issued fine b slot hs s"
    and "step_if issued fine (\<forall>h\<in>set hs. issued (rf_world s) (cs_filesystem slot) h) (rf_world s) w'"
  shows "linked issued fine b slot hs (s\<lparr>rf_world := w'\<rparr>)"
  using assms by (auto simp: linked_def step_if_def handles_ok_def sendable_def healthy_def Let_def)

lemma linked_on_world:
  assumes "\<And>w. step_if issued fine (\<forall>h\<in>set hs. issued w (cs_filesystem slot) h) w (snd (m w))"
  shows "triple (linked issued fine b slot hs) (on_world m)
    (\<lambda>_. linked issued fine b slot hs) (\<lambda>_. linked issued fine b slot hs)"
  by (rule tripleI; clarsimp simp: on_world_eq; erule linked_world; rule assms)

lemma linked_handles_ok: "linked issued fine b slot hs s \<Longrightarrow> handles_ok issued fine s"
  by (simp add: linked_def)

lemma handles_ok_linked: "handles_ok issued fine s \<Longrightarrow> linked issued fine False (rf_connection s) [] s"
  by (simp add: linked_def)

lemma handles_ok_on_world:
  assumes "\<And>w. step_if issued fine True w (snd (m w))"
  shows "triple (handles_ok issued fine) (on_world m)
    (\<lambda>_. handles_ok issued fine) (\<lambda>_. handles_ok issued fine)"
  by (rule tripleI; clarsimp simp: on_world_eq; rule linked_handles_ok,
      rule linked_world [OF handles_ok_linked]; simp add: assms)

lemma mark_failed_ok [simp]: "handles_ok issued fine (mark_failed g s) = handles_ok issued fine s"
  by (simp add: handles_ok_def mark_failed_def)

lemma modify_handle_ok:
  assumes "handles_ok issued fine s" "\<And>h. hs_generation (f h) = hs_generation h"
    "\<And>h. hs_remote (f h) = hs_remote h"
  shows "handles_ok issued fine (modify_handle l f s)"
  using assms by (fastforce simp: handles_ok_def modify_handle_def Let_def split: option.splits if_splits)

lemma snd_capability_epoch: "snd (capability_epoch A f w) = snd (rm_capabilities A f w)"
  by (cases "rm_capabilities A f w"; cases "fst (rm_capabilities A f w)")
    (auto simp: capability_epoch_def split: client_error.splits error_code.splits)

lemma capability_epoch_step:
  "uses_issued A issued fine \<Longrightarrow> step_if issued fine True w (snd (capability_epoch A f w))"
  by (simp add: uses_issued_def snd_capability_epoch)

lemma new_connection_ok:
  assumes "linked issued fine b slot hs s" "slot' = \<lparr>cs_generation = saturating_add (cs_generation slot) 1, cs_filesystem = f\<rparr>"
  shows "linked issued fine True slot' []
    (s\<lparr>rf_connection := slot', rf_failed_generation := 0, rf_last_failure := None\<rparr>)"
  using assms
  by (fastforce simp: linked_def healthy_def handles_ok_def saturating_add_def U64_MAX_def Let_def min_def
      split: if_splits)

lemma linked_last_failure [simp]:
  "handles_ok issued fine (s\<lparr>rf_last_failure := x\<rparr>) = handles_ok issued fine s"
  by (simp add: handles_ok_def)

lemma uses_issuedD:
  assumes "uses_issued A issued fine"
  shows "step_if issued fine True w (snd (rm_connect A w))"
    and "step_if issued fine True w (rm_sleep A d w)"
    and "step_if issued fine True w (snd (rm_capabilities A f w))"
    and "step_if issued fine True w (snd (rm_call A r p f w))"
  using assms by (simp_all add: uses_issued_def)

lemma reconnect_loop_ok:
  assumes A: "uses_issued A issued fine"
  shows "triple (linked issued fine False slot []) (reconnect_loop A n (cs_generation slot) backoff)
    (\<lambda>slot. linked issued fine True slot []) (\<lambda>_. handles_ok issued fine)"
proof (induction n arbitrary: backoff)
  case 0
  show ?case by (auto intro: triple_mfail simp: linked_def)
next
  case (Suc n)
  show ?case
    unfolding reconnect_loop.simps
  proof (rule triple_cases [OF linked_on_world], goal_cases)
    case 1
    show ?case by (simp add: uses_issuedD(1) [OF A])
  next
    case (2 f)
    show ?case
    proof (rule triple_mbind [where R = "\<lambda>_. linked issued fine False slot []"], goal_cases)
      case 1
      show ?case
        by (rule triple_conseq [OF linked_on_world])
          (auto simp: capability_epoch_step [OF A] dest: linked_handles_ok)
    next
      case (2 epoch)
      show ?case
        unfolding Let_def
        by (intro triple_intros) (auto dest: linked_handles_ok new_connection_ok [OF _ refl])
    qed
  next
    case (3 e)
    show ?case
      by (intro triple_intros triple_after [OF Suc.IH])
        (auto intro!: linked_world simp: uses_issuedD(2) [OF A] dest: linked_handles_ok)
  qed
qed

lemma reconnect_after_ok:
  assumes A: "uses_issued A issued fine"
  shows "triple (handles_ok issued fine) (reconnect_after A g)
    (\<lambda>slot. linked issued fine False slot []) (\<lambda>_. handles_ok issued fine)"
proof (rule tripleI)
  fix s :: "('a, 'b) resilient" and x t assume "handles_ok issued fine s" "reconnect_after A g s = (Inr x, t)"
  then show "linked issued fine False x [] t"
    using triple_Inr [OF reconnect_loop_ok [OF A, of "rf_connection s"], of s]
    by (auto simp: reconnect_after_def linked_def split: if_splits)
next
  fix s :: "('a, 'b) resilient" and e t assume "handles_ok issued fine s" "reconnect_after A g s = (Inl e, t)"
  then show "handles_ok issued fine t"
    using triple_Inl [OF reconnect_loop_ok [OF A, of "rf_connection s"], of s]
    by (auto simp: reconnect_after_def linked_def split: if_splits)
qed

lemma healthy_connection_ok:
  assumes A: "uses_issued A issued fine"
  shows "triple (handles_ok issued fine) (healthy_connection A)
    (\<lambda>slot. linked issued fine True slot []) (\<lambda>_. handles_ok issued fine)"
proof (rule tripleI)
  fix s :: "('a, 'b) resilient" and x t assume "handles_ok issued fine s" "healthy_connection A s = (Inr x, t)"
  then show "linked issued fine True x [] t"
    using triple_Inr [OF reconnect_loop_ok [OF A, of "rf_connection s"], of s]
    by (auto simp: healthy_connection_def healthy_def reconnect_after_def linked_def split: if_splits)
next
  fix s :: "('a, 'b) resilient" and e t assume "handles_ok issued fine s" "healthy_connection A s = (Inl e, t)"
  then show "handles_ok issued fine t"
    using triple_Inl [OF reconnect_after_ok [OF A], of s]
    by (auto simp: healthy_connection_def split: if_splits)
qed

text \<open>On a healthy connection nothing is replaced.\<close>

lemma healthy_connection_id: "healthy s \<Longrightarrow> healthy_connection A s = (Inr (rf_connection s), s)"
  by (simp add: healthy_connection_def healthy_def)

lemma healthy_connection_linked:
  "triple (linked issued fine True slot hs) (healthy_connection A)
    (\<lambda>slot' s. slot' = slot \<and> linked issued fine True slot hs s) E"
  by (rule tripleI) (auto simp: healthy_connection_id linked_def)

abbreviation ok_triple where
  "ok_triple issued fine P m Q \<equiv> triple P m Q (\<lambda>_. handles_ok issued fine)"

lemma linked_call:
  assumes "\<And>w. step_if issued fine (\<forall>h\<in>set hs. issued w (cs_filesystem slot) h) w (snd (m w))"
  shows "ok_triple issued fine (linked issued fine b slot hs) (on_world m) (\<lambda>_. linked issued fine b slot hs)"
  by (rule triple_conseq [OF linked_on_world]) (auto intro: assms dest: linked_handles_ok)

lemma safe_call_ok:
  assumes A: "uses_issued A issued fine"
    and m: "\<And>f w. step_if issued fine True w (snd (operation f w))"
  shows "ok_triple issued fine (handles_ok issued fine) (safe_call A operation) (\<lambda>_. handles_ok issued fine)"
proof -
  have call: "triple (linked issued fine b slot []) (on_world (operation (cs_filesystem slot)))
      (\<lambda>_. handles_ok issued fine) (\<lambda>_. handles_ok issued fine)" for b slot
    by (rule triple_conseq [OF linked_on_world]) (auto simp: m dest: linked_handles_ok)
  show ?thesis
    unfolding safe_call_def
  proof (rule triple_mbind [OF healthy_connection_ok [OF A]], rule triple_cases [OF call], goal_cases)
    case (2 first e)
    have "ok_triple issued fine (handles_ok issued fine)
      (mbind (reconnect_after A (cs_generation first)) (\<lambda>replacement s2.
         case on_world (operation (cs_filesystem replacement)) s2 of
           (Inl e', s3) \<Rightarrow> (Inl e', if is_transport e' then mark_failed (cs_generation replacement) s3 else s3)
         | (Inr v, s3) \<Rightarrow> (Inr v, s3))) (\<lambda>_. handles_ok issued fine)"
    proof (rule triple_mbind [OF reconnect_after_ok [OF A]], rule triple_cases [OF call], goal_cases)
      case (2 slot e')
      then show ?case by (rule triple_stop) simp
    qed (rule triple_done, simp)
    then show ?case
      by (rule triple_cond [OF triple_after [where f = "mark_failed (cs_generation first)"] triple_stop])
        simp_all
  qed (auto intro: triple_intros)
qed

lemma once_ok:
  assumes "\<And>w. step_if issued fine (\<forall>h\<in>set hs. issued w (cs_filesystem slot) h) w
      (snd (operation (cs_filesystem slot) w))"
  shows "ok_triple issued fine (linked issued fine b slot hs) (once slot operation)
    (\<lambda>_. linked issued fine b slot hs)"
proof -
  have eq: "once slot operation = (\<lambda>s. case on_world (operation (cs_filesystem slot)) s of
     (Inl e, s1) \<Rightarrow> if is_transport e then (Inl CeAmbiguousMutation, mark_failed (cs_generation slot) s1)
                    else (Inl e, s1)
   | (Inr v, s1) \<Rightarrow> (Inr v, s1))"
    by (simp add: once_def fun_eq_iff)
  show ?thesis
    unfolding eq
    by (rule triple_cases [OF linked_on_world [OF assms]]) (auto intro!: triple_intros dest: linked_handles_ok)
qed

lemma mutation_call_ok:
  assumes A: "uses_issued A issued fine"
    and "\<And>f w. step_if issued fine True w (snd (operation f w))"
  shows "ok_triple issued fine (handles_ok issued fine) (mutation_call A operation) (\<lambda>_. handles_ok issued fine)"
  unfolding mutation_call_def
  by (rule triple_mbind [OF healthy_connection_ok [OF A]], rule triple_conseq [OF once_ok])
    (auto intro: assms dest: linked_handles_ok)

lemma open_call_ok:
  assumes "uses_issued A issued fine"
  shows "ok_triple issued fine (linked issued fine b slot hs)
    (on_world (rm_open A n opts (cs_filesystem slot))) (\<lambda>x. linked issued fine b slot (op_handle x # hs))"
proof (rule tripleI; clarsimp simp: on_world_eq)
  fix s :: "('a, 'b) resilient"
  assume s: "linked issued fine b slot hs s"
  let ?w = "snd (rm_open A n opts (cs_filesystem slot) (rf_world s))"
  have "step_if issued fine True (rf_world s) ?w"
    using assms by (simp add: uses_issued_def)
  then have linked: "linked issued fine b slot hs (s\<lparr>rf_world := ?w\<rparr>)"
    by (intro linked_world [OF s]) (auto intro: step_if_weaken)
  show "handles_ok issued fine (s\<lparr>rf_world := ?w\<rparr>)"
    by (rule linked_handles_ok [OF linked])
  show "linked issued fine b slot (op_handle x # hs) (s\<lparr>rf_world := ?w\<rparr>)"
    if "fst (rm_open A n opts (cs_filesystem slot) (rf_world s)) = Inr x" for x
    using linked s that assms by (auto simp: linked_def sendable_def uses_issued_def)
qed

lemma linked_modify:
  assumes "linked issued fine b slot hs s" "\<And>h. hs_generation (f h) = hs_generation h"
    "\<And>h. hs_remote (f h) = hs_remote h"
  shows "linked issued fine b slot hs (modify_handle l f s)"
  using modify_handle_ok [OF linked_handles_ok [OF assms(1)] assms(2,3)] assms(1)
  by (auto simp: linked_def healthy_def sendable_def modify_handle_def split: option.splits)

text \<open>The table entry that \<open>reopen_handle\<close> writes.\<close>

lemma linked_reopened:
  assumes "linked issued fine b slot (h # hs) s" and
    "\<And>x. hs_generation (f x) = cs_generation slot \<and> hs_remote (f x) = h"
  shows "linked issued fine b slot (h # hs) (modify_handle l f s)"
    and "map_of (rf_handles (modify_handle l f s)) l = Some st \<Longrightarrow>
      hs_generation st = cs_generation slot \<and> hs_remote st = h"
  using assms by (fastforce simp: linked_def healthy_def handles_ok_def sendable_def modify_handle_def Let_def
      split: option.splits if_splits)+

lemma issued_step:
  assumes "uses_issued A issued fine"
  shows "step_if issued fine (issued w f h) w (snd (rm_close A h f w))"
    and "step_if issued fine (issued w f h) w (snd (rm_set_attributes A n (Some h) c f w))"
    and "step_if issued fine (issued w f h) w (snd (rm_read A h off len f w))"
    and "step_if issued fine (issued w f h) w (snd (rm_write A h off d f w))"
    and "step_if issued fine (issued w f h) w (snd (rm_flush A h own f w))"
    and "step_if issued fine (issued w f h) w (snd (rm_sync A h data_only f w))"
    and "step_if issued fine (issued w f h) w (snd (rm_allocate A h off len f w))"
    and "step_if issued fine (issued w f h) w (snd (rm_seek A h off wh f w))"
    and "step_if issued fine (issued w f h) w (snd (rm_ioctl A h x f w))"
    and "step_if issued fine (issued w f h) w (snd (rm_get_lock A h l f w))"
    and "step_if issued fine (issued w f h) w (snd (rm_set_lock A h l b f w))"
    and "step_if issued fine (issued w f h \<and> issued w f h') w (snd (rm_copy A h i h' off len f w))"
    and "step_if issued fine True w (snd (rm_set_attributes A n None c f w))"
    and "step_if issued fine True w (snd (rm_create A p nm mode opts f w))"
  using assms by (simp_all add: uses_issued_def)

lemma reopen_handle_ok:
  assumes A: "uses_issued A issued fine"
  shows "ok_triple issued fine (linked issued fine True current hs) (reopen_handle A l st current)
    (\<lambda>(slot, st') s. slot = current \<and> linked issued fine True slot (hs_remote st' # hs) s \<and>
       hs_generation st' = cs_generation slot)"
  unfolding reopen_handle_def
proof (rule triple_mbind [OF open_call_ok [OF A]], goal_cases)
  case (1 reopened)
  let ?P = "linked issued fine True current (op_handle reopened # hs)"
  let ?set = "\<lambda>h. h\<lparr>hs_remote := op_handle reopened, hs_size := op_size reopened, hs_generation := cs_generation current\<rparr>"
  have close: "triple ?P (on_world (rm_close A (op_handle reopened) (cs_filesystem current))) (\<lambda>_. ?P) (\<lambda>_. ?P)"
    by (rule linked_on_world) (rule step_if_weaken [OF issued_step(1) [OF A]], simp)
  have locks: "ok_triple issued fine ?P (mfor (hs_lock_history st) (\<lambda>lock.
      on_world (rm_set_lock A (op_handle reopened) lock False (cs_filesystem current)))) (\<lambda>_. ?P)"
    by (intro triple_mfor linked_call) (rule step_if_weaken [OF issued_step(11) [OF A]], simp)
  have entry: "linked issued fine True current (op_handle reopened # hs) (modify_handle l ?set s)"
    "map_of (rf_handles (modify_handle l ?set s)) l = Some h \<Longrightarrow>
       hs_generation h = cs_generation current \<and> hs_remote h = op_handle reopened"
    if "?P s" for s h
    by (rule linked_reopened [OF that]; simp)+
  have final: "ok_triple issued fine ?P
     (mbind (mput (modify_handle l ?set)) (\<lambda>_. mbind (get_handle l) (\<lambda>state'. mret (current, state'))))
     (\<lambda>(slot, st') s. slot = current \<and> linked issued fine True slot (hs_remote st' # hs) s \<and>
        hs_generation st' = cs_generation slot)"
    by (rule tripleI; clarsimp simp: monad_simps get_handle_def ok_or_def split: option.splits)
      (use entry in \<open>fastforce dest: linked_handles_ok\<close>)+
  show ?case
  proof (rule triple_mbind [where R = "\<lambda>_. ?P"], goal_cases)
    case 1
    show ?case
      by (intro triple_if triple_mput triple_mret triple_mbind [OF triple_mignore [OF close]] triple_mfail)
        (auto intro: linked_modify linked_handles_ok)
  qed (rule triple_mbind [OF locks final])
qed

lemma get_handle_ok:
  "ok_triple issued fine (linked issued fine b slot hs) (get_handle l)
    (\<lambda>st s. linked issued fine b slot hs s \<and> map_of (rf_handles s) l = Some st)"
  by (rule tripleI) (auto simp: get_handle_def ok_or_def dest: linked_handles_ok split: option.splits)

lemma remote_handle_tail_ok:
  assumes A: "uses_issued A issued fine"
  shows "ok_triple issued fine (linked issued fine True slot hs)
    (mbind (get_handle l) (\<lambda>existing.
       if hs_generation existing = cs_generation slot then mret (slot, existing)
       else mbind (get_handle l) (\<lambda>state.
            mbind (healthy_connection A) (\<lambda>current.
              if hs_generation state = cs_generation current then mret (current, state)
              else reopen_handle A l state current))))
    (\<lambda>(slot', st) s. slot' = slot \<and> linked issued fine True slot (hs_remote st # hs) s \<and>
       hs_generation st = cs_generation slot)" (is "ok_triple _ _ _ _ ?Q")
proof -
  let ?P = "\<lambda>st s. linked issued fine True slot hs s \<and> map_of (rf_handles s) l = Some st"
  have here: "ok_triple issued fine (?P st) (mret (slot, st)) ?Q"
    if "hs_generation st = cs_generation slot" for st
    using that by (intro triple_mret) (auto simp: linked_def handles_ok_def sendable_def Let_def)
  have again: "ok_triple issued fine (?P st) (healthy_connection A) (\<lambda>slot' s. slot' = slot \<and> ?P st s)" for st
    by (rule tripleI) (auto simp: healthy_connection_id linked_def)
  have reopen: "ok_triple issued fine (\<lambda>s. slot' = slot \<and> ?P st s)
      (if hs_generation st = cs_generation slot' then mret (slot', st) else reopen_handle A l st slot') ?Q"
    for slot' st
  proof (rule triple_pre [where R = "slot' = slot"], simp)
    assume "slot' = slot"
    then show ?thesis
      by (intro triple_if)
        (auto intro: triple_conseq [OF here] triple_conseq [OF reopen_handle_ok [OF A]])
  qed
  show ?thesis
    by (rule triple_mbind [OF get_handle_ok],
        rule triple_if [OF here], assumption,
        rule triple_mbind [OF triple_conseq [OF get_handle_ok]], erule conjunct1, assumption, assumption,
        rule triple_mbind [OF again reopen])
qed

lemma remote_handle_ok:
  assumes A: "uses_issued A issued fine"
  shows "ok_triple issued fine (handles_ok issued fine) (remote_handle A l)
    (\<lambda>(slot, st) s. linked issued fine True slot [hs_remote st] s \<and> hs_generation st = cs_generation slot)"
  unfolding remote_handle_def
  by (rule triple_mbind [OF healthy_connection_ok [OF A]], rule triple_conseq [OF remote_handle_tail_ok [OF A]]) auto

lemma remote_handle_again:
  assumes A: "uses_issued A issued fine"
  shows "ok_triple issued fine (linked issued fine True slot hs) (remote_handle A l)
    (\<lambda>(slot', st) s. slot' = slot \<and> linked issued fine True slot (hs_remote st # hs) s)"
  unfolding remote_handle_def
  by (rule triple_mbind [OF healthy_connection_linked], rule triple_pre, erule conjunct1,
      rule triple_conseq [OF remote_handle_tail_ok [OF A]]) auto

lemma retry_on_handle_ok:
  assumes A: "uses_issued A issued fine"
    and m: "\<And>h f w. step_if issued fine (issued w f h) w (snd (operation h f w))"
  shows "ok_triple issued fine (handles_ok issued fine) (retry_on_handle A l operation)
    (\<lambda>_. handles_ok issued fine)"
proof -
  have call: "triple (\<lambda>s. linked issued fine True slot [hs_remote st] s \<and> hs_generation st = cs_generation slot)
      (on_world (operation (hs_remote st) (cs_filesystem slot)))
      (\<lambda>_. handles_ok issued fine) (\<lambda>_. handles_ok issued fine)" for slot st
    by (rule triple_conseq [OF linked_on_world]) (auto simp: m dest: linked_handles_ok)
  have again: "ok_triple issued fine (handles_ok issued fine)
      (mbind (remote_handle A l) (\<lambda>(_, reopened). mbind (healthy_connection A) (\<lambda>replacement.
        mbind (on_world (operation (hs_remote reopened) (cs_filesystem replacement))) (\<lambda>v. mret (reopened, v)))))
      (\<lambda>_. handles_ok issued fine)"
  proof (rule triple_mbind [OF remote_handle_ok [OF A]], clarsimp, goal_cases)
    case (1 slot st)
    have "ok_triple issued fine (linked issued fine True slot [hs_remote st])
        (mbind (healthy_connection A) (\<lambda>replacement.
          mbind (on_world (operation (hs_remote st) (cs_filesystem replacement))) (\<lambda>v. mret (st, v))))
        (\<lambda>_. handles_ok issued fine)"
      by (rule triple_mbind [OF healthy_connection_linked], 
        rule triple_mbind [where R = "\<lambda>_. handles_ok issued fine"], rule triple_conseq [OF linked_call])
        (auto simp: m intro: triple_mret dest: linked_handles_ok)
    then show ?case by (rule triple_conseq) auto
  qed
  show ?thesis
    unfolding retry_on_handle_def
  proof (rule triple_mbind [OF remote_handle_ok [OF A]], clarsimp, rule triple_cases [OF call], goal_cases)
    case (2 slot st e)
    show ?case
      by (rule triple_cond [OF triple_after [where f = "mark_failed (cs_generation slot)", OF again] triple_stop])
        simp_all
  qed (auto intro: triple_intros)
qed

lemma mutate_handle_ok:
  assumes A: "uses_issued A issued fine"
    and m: "\<And>h f w. step_if issued fine (issued w f h) w (snd (operation h f w))"
  shows "ok_triple issued fine (handles_ok issued fine) (mutate_handle A l operation)
    (\<lambda>_. handles_ok issued fine)"
  unfolding mutate_handle_def
  by (rule triple_mbind [OF remote_handle_ok [OF A]], clarsimp,
      rule triple_mbind [where R = "\<lambda>_. handles_ok issued fine"], rule triple_conseq [OF once_ok])
    (auto simp: m intro: triple_mret dest: linked_handles_ok)

lemma remember_open_ok:
  "ok_triple issued fine (linked issued fine b slot [op_handle opened])
    (remember_open l n opts slot opened) (\<lambda>_. handles_ok issued fine)"
  by (rule tripleI) (auto simp: remember_open_def linked_def handles_ok_def sendable_def Let_def split: if_splits)

lemma open_remote_ok:
  assumes A: "uses_issued A issued fine"
  shows "ok_triple issued fine (handles_ok issued fine) (open_remote A n opts)
    (\<lambda>(slot, opened). linked issued fine False slot [op_handle opened])"
proof -
  have second: "ok_triple issued fine (handles_ok issued fine)
      (mbind (reconnect_after A g) (\<lambda>replacement.
        mbind (on_world (rm_open A n opts (cs_filesystem replacement))) (\<lambda>opened. mret (replacement, opened))))
      (\<lambda>(slot, opened). linked issued fine False slot [op_handle opened])" for g
    by (rule triple_mbind [OF reconnect_after_ok [OF A]], rule triple_mbind [OF open_call_ok [OF A]])
      (auto intro: triple_mret)
  show ?thesis
    unfolding open_remote_def
  proof (rule triple_mbind [OF healthy_connection_ok [OF A]], rule triple_cases [OF open_call_ok [OF A]], goal_cases)
    case (2 slot e)
    show ?case
      by (rule triple_cond [OF triple_after [where f = "mark_failed (cs_generation slot)", OF second]
            triple_cond [OF triple_stop triple_stop]]) auto
  qed (auto intro!: triple_done simp: linked_def)
qed

lemma res_open_ok:
  assumes A: "uses_issued A issued fine"
  shows "ok_triple issued fine (handles_ok issued fine) (res_open_file_with_options A l n opts)
    (\<lambda>_. handles_ok issued fine)"
  unfolding res_open_file_with_options_def
  by (rule triple_mbind [OF open_remote_ok [OF A]]) (auto intro: remember_open_ok)

lemma create_call_ok:
  assumes A: "uses_issued A issued fine"
  shows "ok_triple issued fine (linked issued fine True slot []) (once slot (rm_create A p n m opts))
    (\<lambda>x. linked issued fine True slot [op_handle (cr_opened x)])"
proof (rule tripleI, goal_cases)
  case (1 s x t)
  have "linked issued fine True slot [] t"
    using triple_Inr [OF once_ok [where hs = "[]"], of issued fine slot "rm_create A p n m opts" True s x t] 1
    by (simp add: issued_step(14) [OF A])
  moreover have "fst (rm_create A p n m opts (cs_filesystem slot) (rf_world s)) = Inr x"
    "t = s\<lparr>rf_world := snd (rm_create A p n m opts (cs_filesystem slot) (rf_world s))\<rparr>"
    using 1(2) by (auto simp: once_def on_world_eq split: sum.splits if_splits)
  ultimately show ?case
    using A by (auto simp: linked_def sendable_def uses_issued_def)
next
  case (2 s e t)
  then show ?case
    using triple_Inl [OF once_ok [where hs = "[]"], of issued fine slot "rm_create A p n m opts" True s e t]
    by (simp add: issued_step(14) [OF A])
qed

lemma res_create_file_ok:
  assumes A: "uses_issued A issued fine"
  shows "ok_triple issued fine (handles_ok issued fine) (res_create_file A l p n m opts)
    (\<lambda>_. handles_ok issued fine)"
  unfolding res_create_file_def
  by (rule triple_mbind [OF healthy_connection_ok [OF A]], rule triple_mbind [OF create_call_ok [OF A]],
      rule triple_mbind [OF remember_open_ok], rule triple_mret)

lemma res_set_attributes_ok:
  assumes A: "uses_issued A issued fine"
  shows "ok_triple issued fine (handles_ok issued fine) (res_set_attributes A n h c)
    (\<lambda>_. handles_ok issued fine)"
proof -
  let ?K = "\<lambda>_ :: metadata. handles_ok issued fine"
  have none: "ok_triple issued fine (handles_ok issued fine) (mutation_call A (rm_set_attributes A n None c)) ?K"
    by (rule mutation_call_ok [OF A]) (rule issued_step(13) [OF A])
  have sent: "ok_triple issued fine (linked issued fine True slot [hs_remote st])
      (mutation_call A (rm_set_attributes A n (Some (hs_remote st)) c)) ?K" for slot st
    unfolding mutation_call_def
    by (rule triple_mbind [OF healthy_connection_linked], rule triple_pre [where R = "slot' = slot" for slot'],
        erule conjunct1, rule triple_conseq [OF once_ok [where hs = "[hs_remote st]"]])
      (auto simp: issued_step(2) [OF A] dest: linked_handles_ok)
  show ?thesis
  proof (cases h)
    case None
    then show ?thesis
      unfolding res_set_attributes_def
      by (simp, intro triple_mbind [OF none] triple_mret)
  next
    case (Some l)
    have "ok_triple issued fine (\<lambda>s. linked issued fine True slot [hs_remote st] s \<and> hs_generation st = cs_generation slot)
      (mbind (mutation_call A (rm_set_attributes A n (Some (hs_remote st)) c)) (\<lambda>m.
        mbind (mput (modify_handle l (\<lambda>h. h\<lparr>hs_revision := md_revision m, hs_size := md_size m\<rparr>))) (\<lambda>_. mret m)))
      ?K" for slot st
      by (rule triple_conseq [OF triple_then_put [OF sent]]) (auto intro: modify_handle_ok)
    then show ?thesis
      unfolding res_set_attributes_def Some
      by (simp add: mbind_mbind case_prod_beta) (rule triple_mbind [OF remote_handle_ok [OF A]], simp add: case_prod_beta)
  qed
qed

lemma adopt_revision_ok: "handles_ok issued fine s \<Longrightarrow> handles_ok issued fine (adopt_revision l r s)"
  unfolding adopt_revision_def by (rule modify_handle_ok) auto

lemma update_written_handle_ok:
  "handles_ok issued fine s \<Longrightarrow> handles_ok issued fine (update_written_handle l h g r s)"
  unfolding update_written_handle_def by (rule modify_handle_ok) auto

lemma record_lock_ok: "handles_ok issued fine s \<Longrightarrow> handles_ok issued fine (modify_handle l (record_lock k) s)"
  by (rule modify_handle_ok) (auto simp: record_lock_def Let_def)

lemma res_read_range_ok:
  assumes A: "uses_issued A issued fine"
  shows "ok_triple issued fine (handles_ok issued fine) (res_read_range_versioned A h off len)
    (\<lambda>_. handles_ok issued fine)"
proof -
  have "ok_triple issued fine (handles_ok issued fine)
      (retry_on_handle A h (\<lambda>remote. rm_read A remote off len)) (\<lambda>_. handles_ok issued fine)"
    by (rule retry_on_handle_ok [OF A]) (rule issued_step(3) [OF A])
  then show ?thesis
    unfolding res_read_range_versioned_def
    by (rule triple_mbind, clarsimp)
      (intro conjI impI triple_mret triple_mbind [where R = "\<lambda>_. handles_ok issued fine"] triple_mput adopt_revision_ok)
qed

lemma written_ok:
  assumes A: "uses_issued A issued fine"
    and "\<And>h f w. step_if issued fine (issued w f h) w (snd (operation h f w))"
  shows "ok_triple issued fine (handles_ok issued fine)
    (mbind (mutate_handle A l operation) (\<lambda>((slot, state), result).
     mbind (mput (update_written_handle l (hs_remote state) (cs_generation slot) result)) (\<lambda>_. mret result)))
    (\<lambda>_. handles_ok issued fine)"
  unfolding case_prod_beta
  by (rule triple_then_put [OF mutate_handle_ok [OF A]]) (auto intro: assms update_written_handle_ok)

lemma res_copy_ok:
  assumes A: "uses_issued A issued fine"
  shows "ok_triple issued fine (handles_ok issued fine) (res_copy_file_range A i ioff ou ooff len)
    (\<lambda>_. handles_ok issued fine)"
proof -
  have sent: "ok_triple issued fine (linked issued fine True slot [h', h])
      (once slot (rm_copy A h ioff h' ooff len)) (\<lambda>_. handles_ok issued fine)" for slot h h'
    by (rule triple_conseq [OF once_ok [where hs = "[h', h]"]])
      (auto intro: step_if_weaken [OF issued_step(12) [OF A]] dest: linked_handles_ok)
  have slot_eq: "\<lparr>cs_generation = cs_generation slot, cs_filesystem = cs_filesystem slot\<rparr> = slot"
    for slot :: "'a connection_slot" by simp
  have tail: "ok_triple issued fine (linked issued fine True slot [hs_remote st])
    (mbind (remote_handle A ou) (\<lambda>(oslot, ost).
       if cs_generation slot \<noteq> cs_generation oslot then mfail CeStaleRevision
       else mbind (once \<lparr>cs_generation = cs_generation oslot, cs_filesystem = cs_filesystem slot\<rparr>
                     (rm_copy A (hs_remote st) ioff (hs_remote ost) ooff len)) (\<lambda>result.
            mbind (mput (update_written_handle ou (hs_remote ost) (cs_generation oslot) result)) (\<lambda>_. mret result))))
    (\<lambda>_. handles_ok issued fine)" for slot st
  proof (rule triple_mbind [OF remote_handle_again [OF A]], clarsimp, goal_cases)
    case (1 oslot ost)
    have put: "ok_triple issued fine (linked issued fine True slot [hs_remote ost, hs_remote st])
       (mbind (once slot (rm_copy A (hs_remote st) ioff (hs_remote ost) ooff len)) (\<lambda>result.
          mbind (mput (update_written_handle ou (hs_remote ost) (cs_generation slot) result)) (\<lambda>_. mret result)))
       (\<lambda>_. handles_ok issued fine)"
      by (rule triple_then_put [OF sent]) (rule update_written_handle_ok)
    show ?case
      by (cases "oslot = slot") (auto simp: slot_eq put intro: triple_pre [where R = False])
  qed
  show ?thesis
    unfolding res_copy_file_range_def
    by (rule triple_mbind [OF remote_handle_ok [OF A]], clarsimp, rule triple_conseq [OF tail]) auto
qed

lemma delete_handle_ok:
  "handles_ok issued fine s \<Longrightarrow> handles_ok issued fine (s\<lparr>rf_handles := AList.delete l (rf_handles s)\<rparr>)"
  by (auto simp: handles_ok_def Let_def split: if_splits)

lemma res_close_ok:
  assumes A: "uses_issued A issued fine"
  shows "ok_triple issued fine (handles_ok issued fine) (res_close_file A h) (\<lambda>_. handles_ok issued fine)"
proof -
  have "handles_ok issued fine (snd (res_close_file A h s))" if s: "handles_ok issued fine s" for s
  proof (cases "map_of (rf_handles s) h")
    case None
    then show ?thesis using s by (simp add: res_close_file_def monad_simps get_handle_def)
  next
    case (Some st)
    let ?s = "s\<lparr>rf_handles := AList.delete h (rf_handles s)\<rparr>" and ?c = "rf_connection s"
    let ?w = "snd (rm_close A (hs_remote st) (cs_filesystem ?c) (rf_world s))"
    have "handles_ok issued fine (?s\<lparr>rf_world := ?w\<rparr>)" if "hs_generation st = cs_generation ?c"
    proof -
      have "linked issued fine False ?c [hs_remote st] ?s"
        using s Some that delete_handle_ok [OF s, of h]
        by (auto simp: linked_def handles_ok_def sendable_def Let_def)
      from linked_world [OF this, of ?w] show ?thesis
        using issued_step(1) [OF A] by (auto dest: linked_handles_ok)
    qed
    then show ?thesis
      using s Some delete_handle_ok [OF s, of h]
      by (auto simp: res_close_file_def monad_simps get_handle_def Let_def on_world_eq split: sum.splits)
  qed
  then show ?thesis
    by (intro tripleI) (metis snd_conv)+
qed

lemma run_client_op_ok:
  assumes A: "uses_issued A issued fine"
  shows "ok_triple issued fine (handles_ok issued fine) (run_client_op A x) (\<lambda>_. handles_ok issued fine)"
proof -
  note steps = issued_step [OF A] uses_issuedD [OF A]
  note calls = safe_call_ok [OF A] mutation_call_ok [OF A] res_open_ok [OF A] res_create_file_ok [OF A]
    res_set_attributes_ok [OF A] res_read_range_ok [OF A] res_copy_ok [OF A] res_close_ok [OF A] written_ok [OF A]
  note on_handle = triple_mbind [OF retry_on_handle_ok [OF A]] triple_mbind [OF mutate_handle_ok [OF A]]
  show ?thesis
    by (cases x; simp only: run_client_op.simps safe_ops mutation_ops res_seek_file_def res_safe_ioctl_def
        res_get_lock_def res_flush_file_def res_sync_file_def res_write_range_def res_allocate_file_def res_set_lock_def;
        (rule triple_mmap)?; (rule calls on_handle)?; (rule steps)?)
      (auto intro!: triple_mret triple_mput record_lock_ok)
qed

lemma run_client_ops_ok:
  "uses_issued A issued fine \<Longrightarrow> handles_ok issued fine s \<Longrightarrow> handles_ok issued fine (run_client_ops A xs s)"
proof (induction xs arbitrary: s)
  case (Cons x xs)
  have "handles_ok issued fine (snd (run_client_op A x s))"
    by (rule triple_snd [OF run_client_op_ok [OF Cons.prems(1)] Cons.prems(2)])
  then show ?case using Cons by simp
qed simp

lemma resilient_new_ok:
  assumes "uses_issued A issued fine" "fine w" "resilient_new A f policy w = (Inr s, w')"
  shows "handles_ok issued fine s"
proof -
  have "step_if issued fine True w (snd (capability_epoch A f w))"
    by (rule capability_epoch_step [OF assms(1)])
  then show ?thesis
    using assms(2,3) by (auto simp: resilient_new_def step_if_def handles_ok_def Let_def
        split: if_splits prod.splits sum.splits)
qed

subsection \<open>Mutations are sent at most once\<close>

text \<open>
  The contract that observes mutations: \<open>sent\<close> counts the requests that change the server's
  tree or files. An open counts when it truncates; the requests that recovery repeats (connect,
  capabilities, an open that does not truncate, close, and the locks it replays) do not.
\<close>

definition counts_sends :: "('f, 'w) remote_api \<Rightarrow> ('w \<Rightarrow> nat) \<Rightarrow> bool" where
  "counts_sends A sent \<longleftrightarrow> (\<forall>w f h h'.
     sent (snd (rm_connect A w)) = sent w \<and>
     (\<forall>d. sent (rm_sleep A d w) = sent w) \<and>
     sent (snd (rm_capabilities A f w)) = sent w \<and>
     (\<forall>r p. sent (snd (rm_call A r p f w)) = sent w + 1) \<and>
     (\<forall>n opts. sent (snd (rm_open A n opts f w)) = sent w + (if oo_truncate opts then 1 else 0)) \<and>
     (\<forall>p n m opts. sent (snd (rm_create A p n m opts f w)) = sent w + 1) \<and>
     sent (snd (rm_close A h f w)) = sent w \<and>
     (\<forall>n x c. sent (snd (rm_set_attributes A n x c f w)) = sent w + 1) \<and>
     (\<forall>off d. sent (snd (rm_write A h off d f w)) = sent w + 1) \<and>
     (\<forall>own. sent (snd (rm_flush A h own f w)) = sent w + 1) \<and>
     (\<forall>d. sent (snd (rm_sync A h d f w)) = sent w + 1) \<and>
     (\<forall>off len. sent (snd (rm_allocate A h off len f w)) = sent w + 1) \<and>
     (\<forall>i off len. sent (snd (rm_copy A h i h' off len f w)) = sent w + 1) \<and>
     (\<forall>l b. sent (snd (rm_set_lock A h l b f w)) = sent w))"

fun is_mutation :: "client_op \<Rightarrow> bool" where
  "is_mutation (CoOpenFile l n opts) = oo_truncate opts"
| "is_mutation (CoCreateFile l p n m opts) = True"
| "is_mutation (CoCreateDirectory p n m) = True"
| "is_mutation (CoCreateSymlink p n t) = True"
| "is_mutation (CoCreateHardLink n p m) = True"
| "is_mutation (CoCreateSpecialNode p n k m ma mi) = True"
| "is_mutation (CoRemoveNode p n d) = True"
| "is_mutation (CoRenameNode p n p' n' m) = True"
| "is_mutation (CoSetAttributes n h c) = True"
| "is_mutation (CoWriteRange h off d) = True"
| "is_mutation (CoFlushFile h own) = True"
| "is_mutation (CoSyncFile h d) = True"
| "is_mutation (CoSyncDirectory n) = True"
| "is_mutation (CoAllocateFile h off len) = True"
| "is_mutation (CoSetXattr n x v m pos) = True"
| "is_mutation (CoRemoveXattr n x) = True"
| "is_mutation (CoCopyFileRange i io ou oo len) = True"
| "is_mutation (CoExchangeData p n p' n' opts) = True"
| "is_mutation (CoSetVolumeName n) = True"
| "is_mutation _ = False"

definition sent_is :: "('w \<Rightarrow> nat) \<Rightarrow> nat \<Rightarrow> ('f, 'w) resilient \<Rightarrow> bool" where
  "sent_is sent c s \<longleftrightarrow> sent (rf_world s) = c"

text \<open>What an error says: at most one request was sent, and none when it is a transport error.\<close>

definition sent_once :: "('w \<Rightarrow> nat) \<Rightarrow> nat \<Rightarrow> client_error \<Rightarrow> ('f, 'w) resilient \<Rightarrow> bool" where
  "sent_once sent c e s \<longleftrightarrow> sent (rf_world s) \<le> c + 1 \<and> (is_transport e \<longrightarrow> sent (rf_world s) = c)"

lemma sent_is_once: "sent_is sent c s \<Longrightarrow> sent_once sent c e s"
  by (simp add: sent_is_def sent_once_def)

lemma sent_frames [simp]:
  "sent_is sent c (mark_failed g s) = sent_is sent c s"
  "sent_is sent c (modify_handle l f s) = sent_is sent c s"
  "sent_once sent c e (mark_failed g s) = sent_once sent c e s"
  by (simp_all add: sent_is_def sent_once_def mark_failed_def modify_handle_def split: option.split)

lemma quiet_on_world:
  assumes "\<And>w. sent (snd (m w)) = sent w"
  shows "triple (sent_is sent c) (on_world m) (\<lambda>_. sent_is sent c) (\<lambda>_. sent_is sent c)"
  by (rule tripleI) (auto simp: on_world_eq sent_is_def assms)

lemma quiet_errors:
  "triple P m Q (\<lambda>_. sent_is sent c) \<Longrightarrow> triple P m Q (sent_once sent c)"
  by (erule triple_conseq) (auto intro: sent_is_once)

lemma reconnect_loop_quiet:
  assumes A: "counts_sends A sent"
  shows "triple (sent_is sent c) (reconnect_loop A n g backoff) (\<lambda>_. sent_is sent c) (\<lambda>_. sent_is sent c)"
proof (induction n arbitrary: backoff)
  case 0
  show ?case by (auto intro: triple_mfail)
next
  case (Suc n)
  have connect: "triple (sent_is sent c) (on_world (rm_connect A)) (\<lambda>_. sent_is sent c) (\<lambda>_. sent_is sent c)"
    by (rule quiet_on_world) (use A in \<open>simp add: counts_sends_def\<close>)
  have epoch: "triple (sent_is sent c) (on_world (capability_epoch A f)) (\<lambda>_. sent_is sent c) (\<lambda>_. sent_is sent c)" for f
    by (rule quiet_on_world) (use A in \<open>simp add: counts_sends_def snd_capability_epoch\<close>)
  have sleep: "sent (rm_sleep A d w) = sent w" for d w
    using A by (simp add: counts_sends_def)
  show ?case
    unfolding reconnect_loop.simps
  proof (rule triple_cases [OF connect], goal_cases)
    case (1 f)
    show ?case
      unfolding Let_def by (rule triple_mbind [OF epoch], intro triple_intros) (auto simp: sent_is_def)
  next
    case (2 e)
    show ?case
      by (intro triple_cond triple_stop triple_after [OF Suc.IH]) (auto simp: sent_is_def sleep)
  qed
qed

lemma healthy_connection_quiet:
  assumes A: "counts_sends A sent"
  shows "triple (sent_is sent c) (healthy_connection A) (\<lambda>_. sent_is sent c) (\<lambda>_. sent_is sent c)"
proof (rule tripleI)
  fix s :: "('a, 'b) resilient" and x t
  assume "sent_is sent c s" "healthy_connection A s = (Inr x, t)"
  then show "sent_is sent c t"
    using triple_Inr [OF reconnect_loop_quiet [OF A], of c s]
    by (auto simp: healthy_connection_def reconnect_after_def split: if_splits)
next
  fix s :: "('a, 'b) resilient" and e t
  assume "sent_is sent c s" "healthy_connection A s = (Inl e, t)"
  then show "sent_is sent c t"
    using triple_Inl [OF reconnect_loop_quiet [OF A], of c s]
    by (auto simp: healthy_connection_def reconnect_after_def split: if_splits)
qed

lemma get_handle_quiet: "triple (sent_is sent c) (get_handle l) (\<lambda>_. sent_is sent c) (\<lambda>_. sent_is sent c)"
  by (rule tripleI) (auto simp: get_handle_def)

lemma reopen_handle_quiet:
  assumes A: "counts_sends A sent"
  shows "triple (sent_is sent c) (reopen_handle A l st slot) (\<lambda>_. sent_is sent c) (\<lambda>_. sent_is sent c)"
proof -
  have calls:
    "triple (sent_is sent c) (on_world (rm_open A (hs_node st) ((hs_options st)\<lparr>oo_truncate := False\<rparr>) f))
      (\<lambda>_. sent_is sent c) (\<lambda>_. sent_is sent c)"
    "triple (sent_is sent c) (on_world (rm_close A h f)) (\<lambda>_. sent_is sent c) (\<lambda>_. sent_is sent c)"
    "triple (sent_is sent c) (on_world (rm_set_lock A h k False f)) (\<lambda>_. sent_is sent c) (\<lambda>_. sent_is sent c)"
    for f h k
    by (rule quiet_on_world, use A in \<open>simp add: counts_sends_def\<close>)+
  show ?thesis
    unfolding reopen_handle_def
    by (rule triple_mbind [OF calls(1)], rule triple_mbind [where R = "\<lambda>_. sent_is sent c"],
        intro triple_if triple_mput triple_mret triple_mbind [OF triple_mignore [OF calls(2)]] triple_mfail,
        simp_all, rule triple_mbind [OF triple_mfor [OF calls(3)]],
        rule triple_mbind [where R = "\<lambda>_. sent_is sent c"], rule triple_mput, simp,
        rule triple_mbind [OF get_handle_quiet], rule triple_mret)
qed

lemma remote_handle_quiet:
  assumes A: "counts_sends A sent"
  shows "triple (sent_is sent c) (remote_handle A l) (\<lambda>_. sent_is sent c) (\<lambda>_. sent_is sent c)"
  unfolding remote_handle_def
  by (rule triple_mbind [OF healthy_connection_quiet [OF A]], rule triple_mbind [OF get_handle_quiet],
      rule triple_if, rule triple_mret, assumption, rule triple_mbind [OF get_handle_quiet],
      rule triple_mbind [OF healthy_connection_quiet [OF A]],
      rule triple_if, rule triple_mret, assumption, rule reopen_handle_quiet [OF A])

lemma once_sent:
  assumes "\<And>w. sent (snd (operation (cs_filesystem slot) w)) = Suc (sent w)"
  shows "triple (sent_is sent c) (once slot operation) (\<lambda>_. sent_is sent (Suc c)) (sent_once sent c)"
  by (rule tripleI)
    (auto simp: once_def on_world_eq sent_is_def sent_once_def assms mark_failed_def
      split: sum.splits if_splits)

lemma mutation_call_sent:
  assumes A: "counts_sends A sent" and "\<And>f w. sent (snd (operation f w)) = Suc (sent w)"
  shows "triple (sent_is sent c) (mutation_call A operation) (\<lambda>_. sent_is sent (Suc c)) (sent_once sent c)"
  unfolding mutation_call_def
  by (rule triple_mbind [OF quiet_errors [OF healthy_connection_quiet [OF A]]], rule once_sent) (rule assms)

lemma mutate_handle_sent:
  assumes A: "counts_sends A sent" and "\<And>h f w. sent (snd (operation h f w)) = Suc (sent w)"
  shows "triple (sent_is sent c) (mutate_handle A l operation) (\<lambda>_. sent_is sent (Suc c)) (sent_once sent c)"
  unfolding mutate_handle_def
  by (rule triple_mbind [OF quiet_errors [OF remote_handle_quiet [OF A]]], clarsimp,
      rule triple_mbind [OF once_sent]) (auto intro: assms triple_mret)

lemma res_open_sent:
  assumes A: "counts_sends A sent" and "oo_truncate opts"
  shows "triple (sent_is sent c) (res_open_file_with_options A l n opts)
    (\<lambda>_. sent_is sent (Suc c)) (sent_once sent c)"
proof -
  have opened: "triple (sent_is sent c) (on_world (rm_open A n opts f))
      (\<lambda>_. sent_is sent (Suc c)) (\<lambda>_. sent_is sent (Suc c))" for f
    using A assms(2) by (intro tripleI) (auto simp: counts_sends_def on_world_eq sent_is_def)
  have "triple (sent_is sent c) (open_remote A n opts) (\<lambda>_. sent_is sent (Suc c)) (sent_once sent c)"
    unfolding open_remote_def
  proof (rule triple_mbind [OF quiet_errors [OF healthy_connection_quiet [OF A]]],
      rule triple_cases [OF opened], goal_cases)
    case (2 slot e)
    show ?case
      using assms(2)
      by (simp, intro triple_cond triple_stop) (auto simp: sent_is_def sent_once_def mark_failed_def)
  qed (rule triple_done)
  then show ?thesis
    unfolding res_open_file_with_options_def
    by (rule triple_mbind) (auto intro!: tripleI simp: remember_open_def sent_is_def)
qed

lemma res_create_sent:
  assumes A: "counts_sends A sent"
  shows "triple (sent_is sent c) (res_create_file A l p n m opts) (\<lambda>_. sent_is sent (Suc c)) (sent_once sent c)"
  unfolding res_create_file_def
  by (rule triple_mbind [OF quiet_errors [OF healthy_connection_quiet [OF A]]], rule triple_mbind [OF once_sent])
    (use A in \<open>auto intro!: tripleI simp: counts_sends_def remember_open_def sent_is_def monad_simps\<close>)

lemma res_set_attributes_sent:
  assumes A: "counts_sends A sent"
  shows "triple (sent_is sent c) (res_set_attributes A n h k) (\<lambda>_. sent_is sent (Suc c)) (sent_once sent c)"
proof -
  have call: "triple (sent_is sent c) (mutation_call A (rm_set_attributes A n x k))
      (\<lambda>_. sent_is sent (Suc c)) (sent_once sent c)" for x
    by (rule mutation_call_sent [OF A]) (use A in \<open>simp add: counts_sends_def\<close>)
  have map: "triple (sent_is sent c) (case h of
        Some logical \<Rightarrow> mbind (remote_handle A logical) (\<lambda>(_, state). mret (Some state)) | None \<Rightarrow> mret None)
      (\<lambda>_. sent_is sent c) (sent_once sent c)"
    by (auto split: option.split intro!: triple_mret triple_mbind [OF quiet_errors [OF remote_handle_quiet [OF A]]])
  show ?thesis
    unfolding res_set_attributes_def
    by (rule triple_mbind [OF map], rule triple_mbind [OF call], rule triple_mbind [where R = "\<lambda>_. sent_is sent (Suc c)"])
      (auto split: option.split intro: triple_mput triple_mret)
qed

lemma written_sent:
  assumes "triple P m (\<lambda>_. sent_is sent c) E"
  shows "triple P (mbind m (\<lambda>((slot, state), result).
     mbind (mput (update_written_handle l (hs_remote state) (cs_generation slot) result)) (\<lambda>_. mret result)))
    (\<lambda>_. sent_is sent c) E"
  unfolding case_prod_beta by (rule triple_then_put [OF assms]) (simp add: update_written_handle_def)

lemma res_copy_sent:
  assumes A: "counts_sends A sent"
  shows "triple (sent_is sent c) (res_copy_file_range A i ioff ou ooff len)
    (\<lambda>_. sent_is sent (Suc c)) (sent_once sent c)"
proof -
  have sent: "triple (sent_is sent c) (once slot (rm_copy A h ioff h' ooff len))
      (\<lambda>_. sent_is sent (Suc c)) (sent_once sent c)" for slot h h'
    by (rule once_sent) (use A in \<open>simp add: counts_sends_def\<close>)
  show ?thesis
    unfolding res_copy_file_range_def
    by (rule triple_mbind [OF quiet_errors [OF remote_handle_quiet [OF A]]], clarsimp,
        rule triple_mbind [OF quiet_errors [OF remote_handle_quiet [OF A]]], clarsimp,
        rule conjI; intro impI; rule triple_mfail triple_then_put [OF sent])
      (simp_all add: update_written_handle_def sent_is_once)
qed

lemma handle_mutations_sent:
  assumes A: "counts_sends A sent"
  shows "triple (sent_is sent c) (res_write_range A h off d) (\<lambda>_. sent_is sent (Suc c)) (sent_once sent c)"
    and "triple (sent_is sent c) (res_allocate_file A h off len) (\<lambda>_. sent_is sent (Suc c)) (sent_once sent c)"
    and "triple (sent_is sent c) (res_flush_file A h own) (\<lambda>_. sent_is sent (Suc c)) (sent_once sent c)"
    and "triple (sent_is sent c) (res_sync_file A h b) (\<lambda>_. sent_is sent (Suc c)) (sent_once sent c)"
proof -
  have adds: "sent (snd (rm_write A h off d f w)) = Suc (sent w)"
    "sent (snd (rm_allocate A h off len f w)) = Suc (sent w)"
    "sent (snd (rm_flush A h own f w)) = Suc (sent w)" "sent (snd (rm_sync A h b f w)) = Suc (sent w)" for h f w
    using A by (simp_all add: counts_sends_def)
  show "triple (sent_is sent c) (res_write_range A h off d) (\<lambda>_. sent_is sent (Suc c)) (sent_once sent c)"
    unfolding res_write_range_def by (rule written_sent, rule mutate_handle_sent [OF A]) (rule adds)
  show "triple (sent_is sent c) (res_allocate_file A h off len) (\<lambda>_. sent_is sent (Suc c)) (sent_once sent c)"
    unfolding res_allocate_file_def by (rule written_sent, rule mutate_handle_sent [OF A]) (rule adds)
  show "triple (sent_is sent c) (res_flush_file A h own) (\<lambda>_. sent_is sent (Suc c)) (sent_once sent c)"
    unfolding res_flush_file_def
    by (rule triple_mbind, rule mutate_handle_sent [OF A], rule adds) (rule triple_mret)
  show "triple (sent_is sent c) (res_sync_file A h b) (\<lambda>_. sent_is sent (Suc c)) (sent_once sent c)"
    unfolding res_sync_file_def
    by (rule triple_mbind, rule mutate_handle_sent [OF A], rule adds) (rule triple_mret)
qed

lemma run_mutation_sent:
  assumes A: "counts_sends A sent" and "is_mutation x"
  shows "triple (sent_is sent c) (run_client_op A x) (\<lambda>_. sent_is sent (Suc c)) (sent_once sent c)"
proof -
  have call: "triple (sent_is sent c) (mutation_call A (rm_call A r p)) (\<lambda>_. sent_is sent (Suc c)) (sent_once sent c)" for r p
    by (rule mutation_call_sent [OF A]) (use A in \<open>simp add: counts_sends_def\<close>)
  note once = call res_open_sent [OF A] res_create_sent [OF A] res_set_attributes_sent [OF A]
    res_copy_sent [OF A] handle_mutations_sent [OF A]
  show ?thesis
    using assms(2)
    by (cases x; simp only: is_mutation.simps run_client_op.simps mutation_ops)
      ((rule once | rule triple_mmap, rule once), assumption?)+
qed

end
