(* ===== verification/Client_Properties.thy ===== *)
theory Client_Properties
  imports Client_Recovery
begin

text \<open>
  The properties of the resilient client, with a small network as their concrete instance: a
  connection is its number, a handle is valid on the connection that issued it, and a list of
  faults says which requests end in a transport error.
\<close>

subsection \<open>A network to evaluate on\<close>

record demo_net =
  dn_connections :: nat
  dn_issued :: "(nat \<times> file_handle) list"
  dn_fine :: bool
  dn_sent :: nat
  dn_faults :: "bool list"

definition demo_io :: "file_handle list \<Rightarrow> nat \<Rightarrow> 'a \<Rightarrow> nat \<Rightarrow> (demo_net, 'a) act" where
  "demo_io hs n v f w =
     (if take 1 (dn_faults w) = [True] then Inl (CeTransport ''reset'') else Inr v,
      w\<lparr>dn_fine := (dn_fine w \<and> list_all (\<lambda>h. List.member (dn_issued w) (f, h)) hs),
        dn_sent := dn_sent w + n, dn_faults := drop 1 (dn_faults w)\<rparr>)"

definition demo_issue :: "nat \<Rightarrow> (file_handle \<Rightarrow> 'a) \<Rightarrow> nat \<Rightarrow> (demo_net, 'a) act" where
  "demo_issue n v f w = (let h = 100 * f + length (dn_issued w) in
     demo_io [] n (v h) f (w\<lparr>dn_issued := (f, h) # dn_issued w\<rparr>))"

definition demo_capabilities :: filesystem_capabilities where
  "demo_capabilities = \<lparr>server_epoch = 5, cap_writable = True, supports_locks = True,
     supports_atomic_rename = True, supports_directory_sync = True, supports_preallocation = True,
     supports_symlinks = True, supports_xattrs = True, supports_hard_links = True,
     supports_special_nodes = False, supports_copy_file_range = True, supports_seek_data_hole = True,
     supports_safe_ioctl = True, supports_poll = False, supports_bmap = False,
     supports_exchange_data = False, supports_volume_rename = False, supports_backup_time = False,
     supports_readdirplus = True, persistent_node_ids = True, restart_lock_replay = True,
     cap_volume_name = [], cap_max_read_size = 1024, cap_max_write_size = 1024\<rparr>"

definition demo_metadata :: metadata where
  "demo_metadata = \<lparr>md_node = 9, md_kind = KFile, md_size = 0, md_mode = 420, md_allocated_blocks = 0,
     md_revision = 1, md_accessed_unix_ms = 0, md_modified_unix_ms = 0, md_created_unix_ms = None,
     md_backup_unix_ms = None, md_link_count = 1, md_device_major = 0, md_device_minor = 0\<rparr>"

definition demo_api :: "(nat, demo_net) remote_api" where
  "demo_api = \<lparr>
     rm_connect = (\<lambda>w. (Inr (dn_connections w), w\<lparr>dn_connections := dn_connections w + 1\<rparr>)),
     rm_now = (\<lambda>_. 0),
     rm_sleep = (\<lambda>_ w. w),
     rm_capabilities = (\<lambda>_ w. (Inr demo_capabilities, w)),
     rm_call = (\<lambda>_ _. demo_io [] 1 VUnit),
     rm_open = (\<lambda>_ opts. demo_issue (if oo_truncate opts then 1 else 0)
       (\<lambda>h. \<lparr>op_handle = h, op_revision = 1, op_size = 4\<rparr>)),
     rm_create = (\<lambda>_ _ _ _. demo_issue 1
       (\<lambda>h. \<lparr>cr_metadata = demo_metadata, cr_opened = \<lparr>op_handle = h, op_revision = 1, op_size = 0\<rparr>\<rparr>)),
     rm_close = (\<lambda>h. demo_io [h] 0 ()),
     rm_set_attributes = (\<lambda>_ h _. demo_io (case h of None \<Rightarrow> [] | Some x \<Rightarrow> [x]) 1 demo_metadata),
     rm_read = (\<lambda>h _ _. demo_io [h] 0 \<lparr>rr_revision = 1, rr_data = [1, 2]\<rparr>),
     rm_write = (\<lambda>h _ _. demo_io [h] 1 \<lparr>wr_written = 1, wr_revision = 1, wr_size = 4\<rparr>),
     rm_flush = (\<lambda>h _. demo_io [h] 1 ()),
     rm_sync = (\<lambda>h _. demo_io [h] 1 ()),
     rm_allocate = (\<lambda>h _ _. demo_io [h] 1 \<lparr>wr_written = 1, wr_revision = 1, wr_size = 4\<rparr>),
     rm_copy = (\<lambda>h _ h' _ _. demo_io [h, h'] 1 \<lparr>wr_written = 1, wr_revision = 1, wr_size = 4\<rparr>),
     rm_seek = (\<lambda>h _ _. demo_io [h] 0 0),
     rm_ioctl = (\<lambda>h _. demo_io [h] 0 0),
     rm_get_lock = (\<lambda>h _. demo_io [h] 0 None),
     rm_set_lock = (\<lambda>h _ _. demo_io [h] 0 ())\<rparr>"

definition demo_net_issued :: "demo_net \<Rightarrow> nat \<Rightarrow> file_handle \<Rightarrow> bool" where
  "demo_net_issued w f h = List.member (dn_issued w) (f, h)"

lemma demo_io_step:
  "step_if demo_net_issued dn_fine (\<forall>h\<in>set hs. demo_net_issued w f h) w (snd (demo_io hs n v f w))"
  by (auto simp: step_if_def demo_net_issued_def demo_io_def list_all_iff)

lemma demo_issue_step: "step_if demo_net_issued dn_fine True w (snd (demo_issue n v f w))"
  by (auto simp: step_if_def demo_net_issued_def demo_issue_def demo_io_def Let_def)

lemma demo_issue_issued:
  "fst (demo_issue n v f w) = Inr x \<Longrightarrow> \<exists>h. x = v h \<and> demo_net_issued (snd (demo_issue n v f w)) f h"
  by (auto simp: demo_net_issued_def demo_issue_def demo_io_def Let_def split: if_splits)

lemma demo_sent [simp]:
  "dn_sent (snd (demo_io hs n v f w)) = dn_sent w + n" "dn_sent (snd (demo_issue n u f w)) = dn_sent w + n"
  by (simp_all add: demo_io_def demo_issue_def Let_def)

lemma demo_io_steps [simp]:
  "step_if demo_net_issued dn_fine True w (snd (demo_io [] n v f w))"
  "step_if demo_net_issued dn_fine (demo_net_issued w f h) w (snd (demo_io [h] n v f w))"
  "step_if demo_net_issued dn_fine (demo_net_issued w f h \<and> demo_net_issued w f h') w
     (snd (demo_io [h, h'] n v f w))"
  "step_if demo_net_issued dn_fine True w (snd (demo_issue n u f w))"
  "step_if demo_net_issued dn_fine True w (w\<lparr>dn_connections := k\<rparr>)"
  "step_if demo_net_issued dn_fine True w w"
  using demo_io_step [of "[]" w f n v] demo_io_step [of "[h]" w f n v] demo_io_step [of "[h, h']" w f n v]
    demo_issue_step [of w n u f]
  by (simp_all add: step_if_def demo_net_issued_def)

lemma demo_uses_issued: "uses_issued demo_api demo_net_issued dn_fine"
  by (auto simp: uses_issued_def demo_api_def dest!: demo_issue_issued)

lemma demo_counts_sends: "counts_sends demo_api dn_sent"
  by (simp add: counts_sends_def demo_api_def)

definition demo_first :: demo_net where
  "demo_first = \<lparr>dn_connections = 1, dn_issued = [], dn_fine = True, dn_sent = 0,
     dn_faults = [False, True, False, False, True]\<rparr>"

definition demo_start :: "(nat, demo_net) resilient" where
  "demo_start = (case resilient_new demo_api 0 default_reconnect_policy demo_first of
     (Inr s, _) \<Rightarrow> s)"

definition demo_session :: "client_op list" where
  "demo_session = [CoOpenFile 7 9 \<lparr>oo_access = ReadWrite, oo_truncate = False, oo_append = False\<rparr>,
     CoReadRange 7 0 2, CoWriteRange 7 0 [1]]"

subsection \<open>Safety of recovery\<close>

text \<open>C8. Whatever operations the client runs and wherever the network fails, a remote file handle
  is only ever sent to the connection that issued it: with a contract that observes the
  requests (\<open>uses_issued\<close>), every request stays allowed from the first connection on, and
  every table entry of the current generation was issued by the current connection. The only
  hypothesis on the counter is that fewer than \<open>2^64 - 1\<close> connections have been made.\<close>
theorem handles_stay_with_connection:
  assumes "uses_issued A issued fine" "fine w" "resilient_new A f policy w = (Inr s, w')"
    and "s' = run_client_ops A ops s" "cs_generation (rf_connection s') < U64_MAX"
  shows "fine (rf_world s') \<and>
    (\<forall>l h. map_of (rf_handles s') l = Some h \<and> hs_generation h = cs_generation (rf_connection s') \<longrightarrow>
      issued (rf_world s') (cs_filesystem (rf_connection s')) (hs_remote h))"
  using run_client_ops_ok [OF assms(1) resilient_new_ok [OF assms(1-3)], of ops] assms(4,5)
  by (auto simp: handles_ok_def Let_def)

lemma demo_start_new: "resilient_new demo_api 0 default_reconnect_policy demo_first = (Inr demo_start, demo_first)"
  by code_simp

theorem handles_stay_with_connection_witness:
  "dn_fine (rf_world (run_client_ops demo_api demo_session demo_start)) \<and>
   cs_generation (rf_connection (run_client_ops demo_api demo_session demo_start)) = 2 \<and>
   demo_net_issued (rf_world (run_client_ops demo_api demo_session demo_start)) 1 101"
proof -
  let ?s = "run_client_ops demo_api demo_session demo_start"
  have slot: "rf_connection ?s = \<lparr>cs_generation = 2, cs_filesystem = 1\<rparr>"
    and handle: "map_option hs_remote (map_of (rf_handles ?s) 7) = Some 101"
      "map_option hs_generation (map_of (rf_handles ?s) 7) = Some 2"
    by code_simp+
  note stay = handles_stay_with_connection [OF demo_uses_issued _ demo_start_new refl, of demo_session]
  have "dn_fine demo_first" by code_simp
  moreover have "cs_generation (rf_connection ?s) < U64_MAX"
    using slot by (simp add: U64_MAX_def)
  ultimately show ?thesis
    using stay slot handle by (auto dest: spec [of _ 7])
qed

text \<open>C7. A mutation (create, link, remove, rename, attribute change, write, allocation, copy,
  flush, sync, truncating open, extended attribute or volume name change) is sent at most once
  even when the connection fails under it: a returned value means it was sent exactly once, an
  error means at most once, and a transport error means it was never sent, so only those may be
  repeated by the caller.\<close>
theorem mutation_sent_at_most_once:
  assumes "counts_sends A sent" "is_mutation x" "run_client_op A x s = (r, s')"
  shows "case r of Inr _ \<Rightarrow> sent (rf_world s') = sent (rf_world s) + 1
    | Inl e \<Rightarrow> sent (rf_world s') \<le> sent (rf_world s) + 1 \<and>
        (is_transport e \<longrightarrow> sent (rf_world s') = sent (rf_world s))"
proof -
  have "sent_is sent (sent (rf_world s)) s"
    by (simp add: sent_is_def)
  then show ?thesis
    using triple_Inr [OF run_mutation_sent [OF assms(1,2)]] triple_Inl [OF run_mutation_sent [OF assms(1,2)]] assms(3)
    by (cases r) (fastforce simp: sent_is_def sent_once_def)+
qed

theorem mutation_sent_at_most_once_witness:
  "dn_sent (rf_world (snd (run_client_op demo_api (CoCreateDirectory 0 [97] 493) demo_start))) = 1 \<and>
   fst (run_client_op demo_api (CoWriteRange 7 0 [1])
     (run_client_ops demo_api (take 2 demo_session) demo_start)) = Inl CeAmbiguousMutation \<and>
   dn_sent (rf_world (snd (run_client_op demo_api (CoWriteRange 7 0 [1])
     (run_client_ops demo_api (take 2 demo_session) demo_start)))) \<le> 1"
proof -
  let ?t = "run_client_ops demo_api (take 2 demo_session) demo_start"
  have runs: "isOk (fst (run_client_op demo_api (CoCreateDirectory 0 [97] 493) demo_start))"
    "dn_sent (rf_world demo_start) = 0" "dn_sent (rf_world ?t) = 0"
    "fst (run_client_op demo_api (CoWriteRange 7 0 [1]) ?t) = Inl CeAmbiguousMutation"
    by code_simp+
  show ?thesis
    using mutation_sent_at_most_once [OF demo_counts_sends, of "CoCreateDirectory 0 [97] 493" demo_start]
      mutation_sent_at_most_once [OF demo_counts_sends, of "CoWriteRange 7 0 [1]" ?t] runs
    by (auto simp: isOk_def prod_eq_iff split: sum.splits)
qed

subsection \<open>Reconnecting\<close>

definition reconnected :: "('f, 'w) remote_api \<Rightarrow> ('w \<Rightarrow> nat) \<Rightarrow> nat \<Rightarrow> u64 \<Rightarrow> ('f, 'w) resilient
    \<Rightarrow> (client_error + 'f connection_slot) \<Rightarrow> ('f, 'w) resilient \<Rightarrow> bool" where
  "reconnected A tries n g s r s' \<longleftrightarrow> tries (rf_world s') \<le> tries (rf_world s) + n \<and>
    rf_server_epoch s' = rf_server_epoch s \<and> rf_policy s' = rf_policy s \<and> rf_handles s' = rf_handles s \<and>
    (case r of Inl e \<Rightarrow> rf_connection s' = rf_connection s
     | Inr slot \<Rightarrow> rf_connection s' = slot \<and> (slot = rf_connection s \<or>
         cs_generation slot = saturating_add g 1 \<and> rf_failed_generation s' = 0 \<and>
         (rf_server_epoch s = None \<or>
          (\<exists>w. fst (capability_epoch A (cs_filesystem slot) w) = Inr (rf_server_epoch s)))))"

lemma reconnected_step:
  assumes "reconnected A tries n g (s\<lparr>rf_world := w\<rparr>) r s'" "tries w = Suc (tries (rf_world s))"
  shows "reconnected A tries (Suc n) g s r s'"
  using assms by (auto simp: reconnected_def split: sum.splits)

lemma reconnect_loop_reconnected:
  assumes tries: "\<And>w. tries (snd (rm_connect A w)) = Suc (tries w)"
    "\<And>d w. tries (rm_sleep A d w) = tries w" "\<And>f w. tries (snd (rm_capabilities A f w)) = tries w"
    and "reconnect_loop A n g b s = (r, s')"
  shows "reconnected A tries n g s r s'"
  using assms(4)
proof (induction n arbitrary: b s)
  case 0
  then show ?case by (auto simp: mfail_def reconnected_def)
next
  case (Suc n)
  obtain o1 w1 where c: "rm_connect A (rf_world s) = (o1, w1)" by fastforce
  have w1: "tries w1 = Suc (tries (rf_world s))" using tries(1) [of "rf_world s"] c by simp
  show ?case
  proof (cases o1)
    case (Inl e)
    let ?s = "s\<lparr>rf_world := rm_sleep A b w1\<rparr>"
    have more: "reconnect_loop A n g (min (2 * b) (rp_maximum_backoff (rf_policy s))) ?s = (r, s')" if "n > 0"
      using Suc.prems c Inl that by (simp add: on_world_eq)
    have last: "reconnected A tries (Suc n) g s r s'" if "n = 0"
      using Suc.prems c Inl w1 that by (auto simp: on_world_eq reconnected_def)
    show ?thesis
      using reconnected_step [OF Suc.IH [OF more]] last w1 tries(2) by (cases "n = 0") auto
  next
    case (Inr f)
    obtain o2 w2 where e: "capability_epoch A f w1 = (o2, w2)" by fastforce
    have "tries w2 = tries w1"
      using tries(3) [of f w1] e snd_capability_epoch [of A f w1] by simp
    then show ?thesis
      using Suc.prems c e w1 Inr
      by (auto simp: on_world_eq mbind_def reconnected_def Let_def split: sum.splits if_splits)
        (metis fst_conv)+
  qed
qed

text \<open>Replacing a failed connection makes at most \<open>rp_attempts\<close> connection attempts, never
  changes the remembered server epoch, the policy or the handle table, and either keeps the
  slot or installs one of the next generation whose server reported the remembered epoch (or
  there was none to compare with); after an error the old slot is still in place.\<close>
lemma reconnect_bounded:
  assumes "\<And>w. tries (snd (rm_connect A w)) = tries w + (1 :: nat)"
    and "\<And>d w. tries (rm_sleep A d w) = tries w" "\<And>f w. tries (snd (rm_capabilities A f w)) = tries w"
    and "reconnect_after A g s = (r, s')"
  shows "tries (rf_world s') \<le> tries (rf_world s) + rp_attempts (rf_policy s) \<and>
    rf_server_epoch s' = rf_server_epoch s \<and> rf_policy s' = rf_policy s \<and> rf_handles s' = rf_handles s \<and>
    (case r of Inl e \<Rightarrow> rf_connection s' = rf_connection s
     | Inr slot \<Rightarrow> rf_connection s' = slot \<and> (slot = rf_connection s \<or>
         cs_generation slot = saturating_add g 1 \<and> rf_failed_generation s' = 0 \<and>
         (rf_server_epoch s = None \<or>
          (\<exists>w. fst (capability_epoch A (cs_filesystem slot) w) = Inr (rf_server_epoch s)))))"
proof -
  have "reconnected A tries (rp_attempts (rf_policy s)) g s r s'"
    using assms(4) reconnect_loop_reconnected [of tries A "rp_attempts (rf_policy s)" g _ s r s'] assms(1-3)
    by (auto simp: reconnect_after_def reconnected_def split: if_splits)
  then show ?thesis
    by (simp add: reconnected_def)
qed

definition demo_failed :: "(nat, demo_net) resilient" where
  "demo_failed = mark_failed 1 demo_start"

subsection \<open>Recovered handles\<close>

text \<open>The table after recovery: only the entry of \<open>l\<close> may differ, and only in the way recovery allows.\<close>

definition recovered :: "(file_handle \<times> handle_state) list \<Rightarrow> file_handle \<Rightarrow> ('f, 'w) resilient \<Rightarrow> bool" where
  "recovered H l s \<longleftrightarrow> (\<forall>l'. l' \<noteq> l \<longrightarrow> map_of (rf_handles s) l' = map_of H l') \<and>
     (case map_of H l of
        None \<Rightarrow> map_of (rf_handles s) l = None
      | Some old \<Rightarrow> (\<exists>st. map_of (rf_handles s) l = Some st \<and> hs_node st = hs_node old \<and>
          hs_options st = hs_options old \<and> hs_lock_history st = hs_lock_history old \<and>
          (hs_revision st = hs_revision old \<or>
           oo_access (hs_options old) = ReadOnly \<and> hs_lock_history old = [])))"

lemma handles_on_world:
  "triple (\<lambda>s. R (rf_handles s)) (on_world m) (\<lambda>_ s. R (rf_handles s)) (\<lambda>_ s. R (rf_handles s))"
  by (rule tripleI) (auto simp: on_world_eq)

lemma handles_reconnect_loop:
  "triple (\<lambda>s. R (rf_handles s)) (reconnect_loop A n g b) (\<lambda>_ s. R (rf_handles s)) (\<lambda>_ s. R (rf_handles s))"
proof (induction n arbitrary: b)
  case 0
  show ?case by (auto intro: triple_mfail)
next
  case (Suc n)
  show ?case
    unfolding reconnect_loop.simps Let_def
  proof (rule triple_cases [OF handles_on_world], goal_cases)
    case (2 e)
    show ?case by (intro triple_cond triple_stop triple_after [OF Suc.IH]) auto
  qed (rule triple_mbind [OF handles_on_world], intro triple_intros, auto)
qed

lemma handles_healthy_connection:
  "triple (\<lambda>s. R (rf_handles s)) (healthy_connection A) (\<lambda>_ s. R (rf_handles s)) (\<lambda>_ s. R (rf_handles s))"
proof (rule tripleI)
  fix s :: "('a, 'b) resilient" and x t assume "R (rf_handles s)" "healthy_connection A s = (Inr x, t)"
  then show "R (rf_handles t)"
    using triple_Inr [OF handles_reconnect_loop, of R s]
    by (auto simp: healthy_connection_def reconnect_after_def split: if_splits)
next
  fix s :: "('a, 'b) resilient" and e t assume "R (rf_handles s)" "healthy_connection A s = (Inl e, t)"
  then show "R (rf_handles t)"
    using triple_Inl [OF handles_reconnect_loop, of R s]
    by (auto simp: healthy_connection_def reconnect_after_def split: if_splits)
qed

lemma recovered_frame:
  "recovered H l (s\<lparr>rf_world := w\<rparr>) = recovered H l s" "rf_handles s = H \<Longrightarrow> recovered H l s"
  by (auto simp: recovered_def split: option.splits)

lemma recovered_modify:
  assumes "recovered H l s" "\<And>h. hs_node (f h) = hs_node h \<and> hs_options (f h) = hs_options h \<and>
      hs_lock_history (f h) = hs_lock_history h"
    and "\<And>h. hs_revision (f h) = hs_revision h \<or> (\<exists>old. map_of H l = Some old \<and>
      oo_access (hs_options old) = ReadOnly \<and> hs_lock_history old = [])"
  shows "recovered H l (modify_handle l f s)"
proof (cases "map_of H l")
  case None
  then show ?thesis using assms(1) by (auto simp: recovered_def modify_handle_def)
next
  case (Some old)
  then obtain st where st: "map_of (rf_handles s) l = Some st"
    using assms(1) by (auto simp: recovered_def)
  then show ?thesis
    using assms Some by (auto simp: recovered_def modify_handle_def) metis+
qed

lemma recovered_on_world:
  "triple (recovered H l) (on_world m) (\<lambda>_. recovered H l) (\<lambda>_ _. True)"
  "triple (recovered H l) (on_world m) (\<lambda>_. recovered H l) (\<lambda>_. recovered H l)"
  by (rule tripleI; auto simp: on_world_eq recovered_frame)+

lemma reopen_handle_recovered:
  assumes "map_of H l = Some st"
  shows "triple (recovered H l) (reopen_handle A l st slot) (\<lambda>(_, st') s. recovered H l s \<and>
    map_of (rf_handles s) l = Some st') (\<lambda>_ _. True)"
  unfolding reopen_handle_def
proof (rule triple_mbind [OF recovered_on_world(1)], rule triple_mbind [where R = "\<lambda>_. recovered H l"], goal_cases)
  case (1 reopened)
  show ?case
    by (intro triple_if triple_mput triple_mret triple_mbind [OF triple_mignore [OF recovered_on_world(2)]] triple_mfail)
      (auto intro: recovered_modify simp: assms)
next
  case (2 reopened)
  have replay: "triple (recovered H l) (mfor (hs_lock_history st) (\<lambda>lock.
      on_world (rm_set_lock A (op_handle reopened) lock False (cs_filesystem slot)))) (\<lambda>_. recovered H l) (\<lambda>_ _. True)"
    by (rule triple_mfor) (rule recovered_on_world(1))
  show ?case
    by (rule triple_mbind [OF replay], rule triple_mbind [where R = "\<lambda>_. recovered H l"], rule triple_mput,
        erule recovered_modify)
      (auto intro!: tripleI simp: monad_simps get_handle_def ok_or_def split: option.splits)
qed

lemma remote_handle_recovered:
  "triple (\<lambda>s. rf_handles s = H) (remote_handle A l)
    (\<lambda>(_, st) s. recovered H l s \<and> map_of (rf_handles s) l = Some st) (\<lambda>_ _. True)"
proof -
  have healthy: "triple (\<lambda>s. rf_handles s = H) (healthy_connection A) (\<lambda>_ s. rf_handles s = H) (\<lambda>_ _. True)"
    by (rule triple_conseq [OF handles_healthy_connection]) auto
  have get: "triple (\<lambda>s. rf_handles s = H) (get_handle l) (\<lambda>st s. rf_handles s = H \<and> map_of H l = Some st) (\<lambda>_ _. True)"
    by (rule tripleI) (auto simp: get_handle_def ok_or_def split: option.splits)
  have found: "triple (\<lambda>s. rf_handles s = H \<and> map_of H l = Some st) (mret (slot, st))
      (\<lambda>(_, st) s. recovered H l s \<and> map_of (rf_handles s) l = Some st) (\<lambda>_ _. True)"
    for slot :: "'a connection_slot" and st
    by (rule triple_mret) (auto intro: recovered_frame)
  have healthy': "triple (\<lambda>s. rf_handles s = H \<and> map_of H l = Some st) (healthy_connection A)
      (\<lambda>_ s. rf_handles s = H \<and> map_of H l = Some st) (\<lambda>_ _. True)" for st
    by (rule triple_conseq [OF handles_healthy_connection [where R = "\<lambda>h. h = H \<and> map_of H l = Some st"]]) auto
  show ?thesis
    unfolding remote_handle_def
    by (rule triple_mbind [OF healthy], rule triple_mbind [OF get], rule triple_if [OF found],
        rule triple_mbind [OF triple_conseq [OF get]], erule conjunct1, assumption, assumption,
        rule triple_mbind [OF healthy'], rule triple_if [OF found], rule triple_pre, erule conjunct2,
        rule triple_conseq [OF reopen_handle_recovered]) (auto intro: recovered_frame)
qed

text \<open>When a handle is used after its connection was replaced, it is reopened on the current
  connection under the same logical identifier: node, options and lock history are kept, the
  other handles are untouched, and the revision only changes for a handle that is read-only and
  holds no locks; every other handle whose file changed fails instead of being adopted.\<close>
lemma remote_handle_keeps_identity:
  assumes "resilient_new A f policy w = (Inr s0, w')" "s = run_client_ops A ops s0"
    and "remote_handle A l s = (Inr (slot, st), s')"
  shows "map_of (rf_handles s') l = Some st \<and> recovered (rf_handles s) l s' \<and>
    slot = rf_connection s' \<and> hs_generation st = cs_generation slot"
proof -
  have any: "uses_issued A (\<lambda>_ _ _. True) (\<lambda>_. True)"
    by (simp add: uses_issued_def step_if_def)
  have "handles_ok (\<lambda>_ _ _. True) (\<lambda>_. True) s"
    unfolding assms(2) by (rule run_client_ops_ok [OF any resilient_new_ok [OF any _ assms(1)]]) simp
  then show ?thesis
    using triple_Inr [OF remote_handle_recovered refl assms(3)]
      triple_Inr [OF remote_handle_ok [OF any] _ assms(3)]
    by (auto simp: linked_def)
qed

definition demo_reconnected :: "(nat, demo_net) resilient" where
  "demo_reconnected = run_client_ops demo_api [hd demo_session, CoPing 1] demo_start"

text \<open>C26. Recovery succeeds when the replacement does: a read that meets a transport error on a
  healthy connection returns the bytes of the replacement connection, provided the first
  attempt to connect succeeds, the server still reports the same epoch, the file reopens at the
  revision the handle had and the handle holds no locks.\<close>
theorem read_recovers:
  assumes handle: "map_of (rf_handles s) l = Some st" "hs_generation st = cs_generation (rf_connection s)"
      "hs_lock_history st = []"
    and healthy: "rf_failed_generation s \<noteq> cs_generation (rf_connection s)" "rf_last_failure s = None"
      "cs_generation (rf_connection s) < U64_MAX" "rp_attempts (rf_policy s) > 0"
    and failed: "rm_read A (hs_remote st) off len (cs_filesystem (rf_connection s)) (rf_world s) =
      (Inl (CeTransport m), wa)"
    and connect: "rm_connect A wa = (Inr f, wb)" "rm_capabilities A f wb = (Inr caps, wc)"
      "rf_server_epoch s = Some (server_epoch caps)"
    and reopen: "rm_open A (hs_node st) ((hs_options st)\<lparr>oo_truncate := False\<rparr>) f wc = (Inr opened, wd)"
      "op_revision opened = hs_revision st"
    and again: "rm_read A (op_handle opened) off len f wd = (Inr v, we)"
  shows "fst (res_read_range_versioned A l off len s) = Inr v \<and>
    rf_connection (snd (res_read_range_versioned A l off len s)) =
      \<lparr>cs_generation = Suc (cs_generation (rf_connection s)), cs_filesystem = f\<rparr>"
proof -
  obtain n where n: "rp_attempts (rf_policy s) = Suc n"
    using healthy(4) by (cases "rp_attempts (rf_policy s)") auto
  let ?g = "cs_generation (rf_connection s)"
  let ?slot = "\<lparr>cs_generation = Suc ?g, cs_filesystem = f\<rparr>"
  let ?s1 = "mark_failed ?g (s\<lparr>rf_world := wa\<rparr>)"
  let ?s2 = "?s1\<lparr>rf_world := wc, rf_connection := ?slot, rf_failed_generation := 0, rf_last_failure := None\<rparr>"
  let ?st = "st\<lparr>hs_remote := op_handle opened, hs_size := op_size opened, hs_generation := Suc ?g\<rparr>"
  let ?s3 = "?s2\<lparr>rf_world := wd, rf_handles := AList.update l ?st (rf_handles s)\<rparr>"
  have replaced: "healthy_connection A ?s1 = (Inr ?slot, ?s2)"
    using healthy connect n
    by (simp add: healthy_connection_def reconnect_after_def mark_failed_def on_world_def mbind_def
        capability_epoch_def Let_def saturating_add_def min_def)
  have first: "remote_handle A l s = (Inr (rf_connection s, st), s)"
    using healthy(1) handle by (simp add: remote_handle_def mbind_def healthy_connection_def get_handle_def mret_def)
  have same: "healthy_connection A ?s2 = (Inr ?slot, ?s2)" "healthy_connection A ?s3 = (Inr ?slot, ?s3)"
    by (simp_all add: healthy_connection_def)
  have table: "map_of (rf_handles ?s2) l = Some st" "hs_generation st \<noteq> Suc ?g"
    using handle by (simp_all add: mark_failed_def)
  have "reopen_handle A l st ?slot ?s2 = (Inr (?slot, ?st), ?s3)"
    using reopen handle by (simp add: reopen_handle_def mbind_def on_world_def mret_def mput_def modify_handle_def
        get_handle_def mark_failed_def)
  then have second: "remote_handle A l ?s1 = (Inr (?slot, ?st), ?s3)"
    using table by (simp add: remote_handle_def mbind_def replaced same get_handle_def)
  show ?thesis
    using again first failed second same
    by (simp add: res_read_range_versioned_def retry_on_handle_def mbind_def on_world_def mret_def mput_def
        adopt_revision_def modify_handle_def)
qed

definition demo_opened :: "(nat, demo_net) resilient" where
  "demo_opened = snd (run_client_op demo_api (hd demo_session) demo_start)"

definition demo_handle :: handle_state where
  "demo_handle = \<lparr>hs_node = 9, hs_options = \<lparr>oo_access = ReadWrite, oo_truncate = False, oo_append = False\<rparr>,
     hs_remote = 0, hs_revision = 1, hs_size = 4, hs_generation = 1, hs_lock_history = []\<rparr>"

definition demo_failing :: "nat \<Rightarrow> nat \<Rightarrow> (nat \<times> file_handle) list \<Rightarrow> bool list \<Rightarrow> demo_net" where
  "demo_failing k n table faults = \<lparr>dn_connections = k, dn_issued = table, dn_fine = True, dn_sent = n,
     dn_faults = faults\<rparr>"

theorem read_recovers_witness:
  "fst (res_read_range_versioned demo_api 7 0 2 demo_opened) = Inr \<lparr>rr_revision = 1, rr_data = [1, 2]\<rparr> \<and>
   rf_connection (snd (res_read_range_versioned demo_api 7 0 2 demo_opened)) = \<lparr>cs_generation = 2, cs_filesystem = 1\<rparr>"
proof -
  have slot: "rf_connection demo_opened = \<lparr>cs_generation = 1, cs_filesystem = 0\<rparr>"
    by code_simp
  have "fst (res_read_range_versioned demo_api 7 0 2 demo_opened) = Inr \<lparr>rr_revision = 1, rr_data = [1, 2]\<rparr> \<and>
    rf_connection (snd (res_read_range_versioned demo_api 7 0 2 demo_opened)) =
      \<lparr>cs_generation = Suc (cs_generation (rf_connection demo_opened)), cs_filesystem = 1\<rparr>"
    by (rule read_recovers [where st = demo_handle and m = "''reset''" and caps = demo_capabilities
          and wa = "demo_failing 1 0 [(0, 0)] [False, False, True]" and wb = "demo_failing 2 0 [(0, 0)] [False, False, True]"
          and wc = "demo_failing 2 0 [(0, 0)] [False, False, True]" and opened = "\<lparr>op_handle = 101, op_revision = 1, op_size = 4\<rparr>"
          and wd = "demo_failing 2 0 [(1, 101), (0, 0)] [False, True]" and we = "demo_failing 2 0 [(1, 101), (0, 0)] [True]"])
      code_simp+
  then show ?thesis by (simp add: slot)
qed

subsection \<open>Replay of locks\<close>

lemma reopen_without_locks:
  "hs_lock_history st = [] \<Longrightarrow> reopen_handle (A\<lparr>rm_set_lock := answer\<rparr>) l st slot t = reopen_handle A l st slot t"
  by (simp add: reopen_handle_def cong: if_cong)

text \<open>C31. A successful unlock that makes the recorded history longer than 4096 entries empties the
  whole history, also when it holds locks that are not released: reopening the handle after a
  reconnect then never sends a lock request (its result does not depend on how the server would
  answer one), so locks the application still holds are lost without an error.\<close>
theorem unlock_drops_history:
  assumes "map_of (rf_handles s) l = Some st" "hs_generation st = cs_generation (rf_connection s)"
      "rf_failed_generation s \<noteq> cs_generation (rf_connection s)"
    and "length (hs_lock_history st) \<ge> LOCK_HISTORY_LIMIT" "lk_kind lock = Unlock"
    and "rm_set_lock A (hs_remote st) lock wait (cs_filesystem (rf_connection s)) (rf_world s) = (Inr (), w)"
  shows "\<exists>s' st'. res_set_lock A l lock wait s = (Inr (), s') \<and> map_of (rf_handles s') l = Some st' \<and>
    hs_lock_history st' = [] \<and>
    (\<forall>answer slot t. reopen_handle (A\<lparr>rm_set_lock := answer\<rparr>) l st' slot t = reopen_handle A l st' slot t)"
proof -
  let ?st = "st\<lparr>hs_lock_history := []\<rparr>"
  have "remote_handle A l s = (Inr (rf_connection s, st), s)"
    using assms(1-3) by (simp add: remote_handle_def mbind_def healthy_connection_def get_handle_def mret_def)
  then have "res_set_lock A l lock wait s =
      (Inr (), s\<lparr>rf_world := w, rf_handles := AList.update l ?st (rf_handles s)\<rparr>)"
    using assms by (simp add: res_set_lock_def mutate_handle_def mbind_def once_def on_world_def mret_def mput_def
        modify_handle_def record_lock_def)
  then show ?thesis
    by (simp add: reopen_without_locks)
qed

definition demo_lock :: "u64 \<Rightarrow> lock_kind \<Rightarrow> file_lock" where
  "demo_lock own kind = \<lparr>lk_owner = own, lk_start = 0, lk_end = 9, lk_kind = kind, lk_pid = 1\<rparr>"

definition demo_locked :: "(nat, demo_net) resilient" where
  "demo_locked = demo_opened\<lparr>rf_world := (rf_world demo_opened)\<lparr>dn_faults := []\<rparr>,
     rf_handles := [(7, demo_handle\<lparr>hs_lock_history := replicate 4096 (demo_lock 1 WriteLock)\<rparr>)]\<rparr>"

theorem unlock_drops_history_witness:
  "\<exists>s' st'. res_set_lock demo_api 7 (demo_lock 2 Unlock) False demo_locked = (Inr (), s') \<and>
     map_of (rf_handles s') 7 = Some st' \<and> hs_lock_history st' = []"
proof -
  have net: "rf_world demo_opened = demo_failing 1 0 [(0, 0)] [True, False, False, True]"
      "rf_connection demo_opened = \<lparr>cs_generation = 1, cs_filesystem = 0\<rparr>" "rf_failed_generation demo_opened = 0"
      "rm_set_lock demo_api 0 (demo_lock 2 Unlock) False 0 (demo_failing 1 0 [(0, 0)] []) =
        (Inr (), demo_failing 1 0 [(0, 0)] [])"
    by code_simp+
  then show ?thesis
    using unlock_drops_history [of demo_locked 7 "demo_handle\<lparr>hs_lock_history := replicate 4096 (demo_lock 1 WriteLock)\<rparr>"
        "demo_lock 2 Unlock" demo_api False "demo_failing 1 0 [(0, 0)] []"]
    by (simp add: demo_locked_def demo_handle_def demo_failing_def LOCK_HISTORY_LIMIT_def)
      (auto simp: demo_lock_def)
qed

end
