(* ===== verification/Auth_Model.thy ===== *)
theory Auth_Model
  imports Server_Types
begin

text \<open>
  Crate \<^verbatim>\<open>crates/auth\<close>: the server's private state directory (identity, users, pairings).

  \<^item> The directory is a table of entries with owner and permission bits, keyed by the paths the
    crate uses; \<open>fs_faults\<close> says which of the next I/O calls fail.
  \<^item> JSON, PHC strings, Argon2, Base64 and HMAC are external crates: the fields of \<open>auth_env\<close>.
  \<^item> Random bytes, fresh UUIDs and the wall clock are arguments; strings are byte lists.
\<close>

definition PAIRING_SECRET_LENGTH :: usize where "PAIRING_SECRET_LENGTH = 20"
definition MAX_IDENTITY_GENERATIONS :: usize where "MAX_IDENTITY_GENERATIONS = 128"
definition MAX_CERTIFICATE_PEM_SIZE :: usize where "MAX_CERTIFICATE_PEM_SIZE = 4 * 1024 * 1024"
definition MAX_PRIVATE_KEY_PEM_SIZE :: usize where "MAX_PRIVATE_KEY_PEM_SIZE = 64 * 1024"
definition MAX_USER_DATABASE_SIZE :: u64 where "MAX_USER_DATABASE_SIZE = 16 * 1024 * 1024"
definition MAX_PAIRING_RECORD_SIZE :: u64 where "MAX_PAIRING_RECORD_SIZE = 4 * 1024"
definition MAX_USERS :: usize where "MAX_USERS = 65536"
definition MAX_PASSWORD_HASH_LENGTH :: usize where "MAX_PASSWORD_HASH_LENGTH = 256"
definition MIN_PASSWORD_LENGTH :: usize where "MIN_PASSWORD_LENGTH = 12"
definition MAX_PASSWORD_LENGTH :: usize where "MAX_PASSWORD_LENGTH = 1024"
definition MAX_PAIRING_LIFETIME :: u64 where "MAX_PAIRING_LIFETIME = 60 * 60"

definition ascii :: "string \<Rightarrow> bytes" where
  "ascii = map of_char"

definition PAIRING_CLIENT_PROOF_DOMAIN :: bytes where
  "PAIRING_CLIENT_PROOF_DOMAIN = ascii ''quickfs pairing client proof v1'' @ [0]"

definition PAIRING_SERVER_PROOF_DOMAIN :: bytes where
  "PAIRING_SERVER_PROOF_DOMAIN = ascii ''quickfs pairing server proof v1'' @ [0]"

datatype auth_error = AeIo io_kind | AeInvalidData string | AeUserExists bytes
  | AeUserNotFound bytes | AePairingNotFound | AePairingExpired | AeCrypto

subsection \<open>The state directory\<close>

datatype state_path = PRoot | PCert | PKey | PUsers | PUsersLock | PPairings | PPairing uuid
  | PActive | PIdentityLock | PIdentities | PIdentity bytes | PGenerationCert bytes
  | PGenerationKey bytes

datatype fs_node = NFile bytes | NDirectory | NOther

record fs_entry =
  fe_node :: fs_node
  fe_uid :: u32
  fe_mode :: u32

record auth_fs =
  fs_entries :: "(state_path \<times> fs_entry) list"
  fs_euid :: u32
  fs_faults :: "bool list"

type_synonym 'a aop = "(auth_fs, auth_error, 'a) op"

definition state_paths_new :: "state_path \<times> state_path" where
  "state_paths_new = (PCert, PKey)"

definition io_call :: "unit aop" where
  "io_call s = (if take 1 (fs_faults s) = [True] then Inl (AeIo IoOther) else Inr (),
                s\<lparr>fs_faults := drop 1 (fs_faults s)\<rparr>)"

definition symlink_metadata :: "state_path \<Rightarrow> fs_entry aop" where
  "symlink_metadata p s = (ok_or (AeIo IoNotFound) (map_of (fs_entries s) p), s)"

definition path_exists :: "state_path \<Rightarrow> bool aop" where
  "path_exists p s = (case fst (symlink_metadata p s) of
     Inr _ \<Rightarrow> (Inr True, s)
   | Inl e \<Rightarrow> if e = AeIo IoNotFound then (Inr False, s) else (Inl e, s))"

definition read_file :: "state_path \<Rightarrow> bytes aop" where
  "read_file p = mbind io_call (\<lambda>_ s. case map_of (fs_entries s) p of
     Some e \<Rightarrow> (case fe_node e of NFile b \<Rightarrow> (Inr b, s) | _ \<Rightarrow> (Inl (AeIo IoOther), s))
   | None \<Rightarrow> (Inl (AeIo IoNotFound), s))"

definition put_entry :: "state_path \<Rightarrow> fs_node \<Rightarrow> u32 \<Rightarrow> auth_fs \<Rightarrow> auth_fs" where
  "put_entry p n mode s = s\<lparr>fs_entries :=
     AList.update p \<lparr>fe_node = n, fe_uid = fs_euid s, fe_mode = mode\<rparr> (fs_entries s)\<rparr>"

definition remove_file :: "state_path \<Rightarrow> unit aop" where
  "remove_file p = mbind io_call (\<lambda>_ s. case map_of (fs_entries s) p of
     None \<Rightarrow> (Inl (AeIo IoNotFound), s)
   | Some _ \<Rightarrow> (Inr (), s\<lparr>fs_entries := AList.delete p (fs_entries s)\<rparr>))"

text \<open>\<open>write_private\<close>: the temporary file is renamed over the target, or nothing changes.\<close>

definition write_private :: "state_path \<Rightarrow> bytes \<Rightarrow> unit aop" where
  "write_private p b = mbind io_call (\<lambda>_. mput (put_entry p (NFile b) 384))"

definition create_dir_all :: "state_path \<Rightarrow> unit aop" where
  "create_dir_all p = mbind io_call (\<lambda>_ s. case map_of (fs_entries s) p of
     None \<Rightarrow> (Inr (), put_entry p NDirectory 493 s)
   | Some e \<Rightarrow> if fe_node e = NDirectory then (Inr (), s) else (Inl (AeIo IoAlreadyExists), s))"

definition validate_current_owner :: "fs_entry \<Rightarrow> unit aop" where
  "validate_current_owner metadata s =
     (if fe_uid metadata \<noteq> fs_euid s
      then Inl (AeInvalidData ''private state path must be owned by the effective server user'')
      else Inr (), s)"

definition secure_directory :: "state_path \<Rightarrow> unit aop" where
  "secure_directory p = mbind (symlink_metadata p) (\<lambda>metadata.
     if fe_node metadata \<noteq> NDirectory
     then mfail (AeInvalidData ''private state directory is not a real directory'')
     else mbind (validate_current_owner metadata) (\<lambda>_.
          mbind io_call (\<lambda>_. mput (put_entry p NDirectory 448))))"

definition validate_private_directory :: "state_path \<Rightarrow> unit aop" where
  "validate_private_directory p = mbind (symlink_metadata p) (\<lambda>metadata.
     if fe_node metadata \<noteq> NDirectory
     then mfail (AeInvalidData ''private state directory is not a real directory'')
     else mbind (validate_current_owner metadata) (\<lambda>_.
          if fe_mode metadata mod 64 \<noteq> 0
          then mfail (AeInvalidData ''private state directory must not be accessible by group or other users'')
          else mret ()))"

definition is_file :: "fs_node \<Rightarrow> bool" where
  "is_file n = (case n of NFile _ \<Rightarrow> True | _ \<Rightarrow> False)"

definition validate_private_file :: "state_path \<Rightarrow> unit aop" where
  "validate_private_file p = mbind (symlink_metadata p) (\<lambda>metadata.
     if \<not> is_file (fe_node metadata)
     then mfail (AeInvalidData ''private state file is not a regular file'')
     else mbind (validate_current_owner metadata) (\<lambda>_.
          if fe_mode metadata mod 64 \<noteq> 0
          then mfail (AeInvalidData ''private state file must not be accessible by group or other users'')
          else mret ()))"

definition lock_path :: "state_path \<Rightarrow> string \<Rightarrow> unit aop" where
  "lock_path p busy = mbind io_call (\<lambda>_ s. case map_of (fs_entries s) p of
     Some _ \<Rightarrow> (Inl (AeInvalidData busy), s)
   | None \<Rightarrow> (Inr (), put_entry p (NFile []) 384 s))"

text \<open>
  A section under a lock file: \<^verbatim>\<open>Drop\<close> removes the file on every way out and ignores a failure
  to do so.
\<close>

definition with_lock :: "state_path \<Rightarrow> string \<Rightarrow> 'a aop \<Rightarrow> 'a aop" where
  "with_lock p busy m = mbind (lock_path p busy) (\<lambda>_ s.
     let (r, s') = m s in (r, snd (remove_file p s')))"

definition lock_user_database :: "'a aop \<Rightarrow> 'a aop" where
  "lock_user_database = with_lock PUsersLock ''another user-database administration operation is in progress''"

definition lock_identity :: "'a aop \<Rightarrow> 'a aop" where
  "lock_identity = with_lock PIdentityLock ''another identity installation is in progress''"

subsection \<open>External crates\<close>

record argon2_params =
  ap_m_cost :: u32
  ap_t_cost :: u32
  ap_p_cost :: u32
  ap_output_len :: "usize option"

text \<open>A parsed PHC string; \<open>phc_params\<close> is the result of \<^verbatim>\<open>Params::try_from\<close>.\<close>

record phc =
  phc_algorithm :: string
  phc_version :: "u32 option"
  phc_params :: "argon2_params option"
  phc_has_salt :: bool
  phc_has_hash :: bool

record user_record =
  ur_username :: bytes
  ur_password_hash :: bytes
  ur_enabled :: bool
  ur_writable :: bool

record user_authorization =
  ua_writable :: bool

type_synonym user_database = "user_record list"

record pairing_record =
  pr_id :: uuid
  pr_secret :: bytes
  pr_expires_unix_seconds :: u64

record auth_env =
  ae_users_json :: "user_database \<Rightarrow> string + bytes"
  ae_users_parse :: "bytes \<Rightarrow> string + user_database"
  ae_pairing_json :: "pairing_record \<Rightarrow> string + bytes"
  ae_pairing_parse :: "bytes \<Rightarrow> string + pairing_record"
  ae_phc_parse :: "bytes \<Rightarrow> phc option"
  ae_default_params :: argon2_params
  ae_argon2_hash :: "bytes \<Rightarrow> bytes \<Rightarrow> bytes option"
  ae_argon2_verify :: "bytes \<Rightarrow> bytes \<Rightarrow> bool"
  ae_b64_encode :: "bytes \<Rightarrow> bytes"
  ae_b64_decode :: "bytes \<Rightarrow> bytes option"
  ae_hmac :: "bytes \<Rightarrow> bytes \<Rightarrow> bytes"
  ae_parse_uuid :: "bytes \<Rightarrow> bytes option"

subsection \<open>Users\<close>

definition ascii_alphanumeric :: "byte \<Rightarrow> bool" where
  "ascii_alphanumeric b \<longleftrightarrow> 48 \<le> b \<and> b \<le> 57 \<or> 65 \<le> b \<and> b \<le> 90 \<or> 97 \<le> b \<and> b \<le> 122"

definition validate_username :: "bytes \<Rightarrow> auth_error + unit" where
  "validate_username username =
     (if 1 \<le> length username \<and> length username \<le> 64 \<and>
         list_all (\<lambda>b. ascii_alphanumeric b \<or> b = 95 \<or> b = 45 \<or> b = 46) username
      then Inr ()
      else Inl (AeInvalidData ''username must be 1-64 ASCII letters, digits, dot, underscore or hyphen''))"

definition validate_new_password :: "bytes \<Rightarrow> auth_error + unit" where
  "validate_new_password password =
     (if length password < MIN_PASSWORD_LENGTH
      then Inl (AeInvalidData ''password must contain at least 12 bytes'')
      else if length password > MAX_PASSWORD_LENGTH
      then Inl (AeInvalidData ''password must contain at most 1024 bytes'')
      else Inr ())"

definition hash_password :: "auth_env \<Rightarrow> bytes \<Rightarrow> bytes \<Rightarrow> auth_error + bytes" where
  "hash_password E salt password = ok_or AeCrypto (ae_argon2_hash E password salt)"

definition parse_password_hash :: "auth_env \<Rightarrow> bytes \<Rightarrow> auth_error + unit" where
  "parse_password_hash E v =
     (if length v > MAX_PASSWORD_HASH_LENGTH
      then Inl (AeInvalidData ''password hash exceeds its safety limit'')
      else case ae_phc_parse E v of
        None \<Rightarrow> Inl (AeInvalidData ''password hash is malformed'')
      | Some parsed \<Rightarrow>
          if phc_algorithm parsed \<noteq> ''argon2id'' \<or> phc_version parsed \<noteq> Some 19
          then Inl (AeInvalidData ''password hash uses an unsupported algorithm or version'')
          else (case phc_params parsed of
            None \<Rightarrow> Inl (AeInvalidData ''password hash parameters are invalid'')
          | Some parameters \<Rightarrow>
              if parameters \<noteq> ae_default_params E \<or> \<not> phc_has_salt parsed \<or> \<not> phc_has_hash parsed
              then Inl (AeInvalidData ''password hash parameters exceed the supported policy'')
              else Inr ()))"

definition read_json :: "(bytes \<Rightarrow> string + 'a) \<Rightarrow> state_path \<Rightarrow> u64 \<Rightarrow> 'a aop" where
  "read_json parse p maximum = mbind (read_file p) (\<lambda>b.
     if length b > maximum
     then mfail (AeInvalidData ''private state file is not regular or exceeds its safety limit'')
     else mlift (map_err AeInvalidData (parse b)))"

fun check_users :: "auth_env \<Rightarrow> bytes list \<Rightarrow> user_database \<Rightarrow> auth_error + unit" where
  "check_users E seen [] = Inr ()"
| "check_users E seen (u # us) =
     ebind (validate_username (ur_username u)) (\<lambda>_.
     ebind (parse_password_hash E (ur_password_hash u)) (\<lambda>_.
       if List.member seen (ur_username u)
       then Inl (AeInvalidData ''user database contains a duplicate username'')
       else check_users E (ur_username u # seen) us))"

definition read_user_database :: "auth_env \<Rightarrow> user_database aop" where
  "read_user_database E = mbind (read_json (ae_users_parse E) PUsers MAX_USER_DATABASE_SIZE) (\<lambda>users.
     if length users > MAX_USERS
     then mfail (AeInvalidData ''user database contains too many accounts'')
     else mbind (mlift (check_users E [] users)) (\<lambda>_. mret users))"

definition write_json :: "auth_env \<Rightarrow> user_database \<Rightarrow> unit aop" where
  "write_json E users = mbind (mlift (map_err AeInvalidData (ae_users_json E users))) (\<lambda>b.
     if length b > MAX_USER_DATABASE_SIZE
     then mfail (AeInvalidData ''user database exceeds its safety limit'')
     else write_private PUsers b)"

subsection \<open>Server state and identities\<close>

text \<open>\<^verbatim>\<open>Uuid::parse_str\<close> on a trimmed UTF-8 name is \<open>ae_parse_uuid\<close>; its result is the canonical name.\<close>

definition state_paths_resolve :: "auth_env \<Rightarrow> (state_path \<times> state_path) aop" where
  "state_paths_resolve E = mbind (path_exists PActive) (\<lambda>present.
     if \<not> present then mret state_paths_new
     else mbind (validate_private_file PActive) (\<lambda>_.
          mbind (read_file PActive) (\<lambda>v.
            if length v > 64 then mfail (AeInvalidData ''active identity selector is too large'')
            else case ae_parse_uuid E v of
              None \<Rightarrow> mfail (AeInvalidData ''active identity selector is invalid'')
            | Some generation \<Rightarrow> mret (PGenerationCert generation, PGenerationKey generation))))"

definition generation_names :: "auth_fs \<Rightarrow> bytes list" where
  "generation_names s = List.map_filter (\<lambda>(p, _). case p of PIdentity n \<Rightarrow> Some n | _ \<Rightarrow> None) (fs_entries s)"

definition validate_generation :: "auth_env \<Rightarrow> nat \<times> bytes \<Rightarrow> unit aop" where
  "validate_generation E = (\<lambda>(count, nm).
     if count > MAX_IDENTITY_GENERATIONS
     then mfail (AeInvalidData ''identity generation limit exceeded'')
     else case ae_parse_uuid E nm of
       None \<Rightarrow> mfail (AeInvalidData ''identity generation name is invalid'')
     | Some _ \<Rightarrow>
         mbind (validate_private_directory (PIdentity nm)) (\<lambda>_.
         mbind (validate_private_file (PGenerationCert nm)) (\<lambda>_.
           validate_private_file (PGenerationKey nm))))"

definition validate_identity_generations :: "auth_env \<Rightarrow> unit aop" where
  "validate_identity_generations E = mbind (path_exists PIdentities) (\<lambda>present.
     if \<not> present then mret ()
     else mbind (validate_private_directory PIdentities) (\<lambda>_.
          mbind (mget generation_names) (\<lambda>names.
            mfor (zip [1..<Suc (length names)] names) (validate_generation E))))"

definition validate_server_state :: "auth_env \<Rightarrow> unit aop" where
  "validate_server_state E =
     mbind (validate_private_directory PRoot) (\<lambda>_.
     mbind (validate_private_directory PPairings) (\<lambda>_.
     mbind (validate_private_file PCert) (\<lambda>_.
     mbind (validate_private_file PKey) (\<lambda>_.
     mbind (validate_private_file PUsers) (\<lambda>_.
     mbind (validate_identity_generations E) (\<lambda>_.
     mbind (state_paths_resolve E) (\<lambda>(certificate, private_key).
     mbind (validate_private_file certificate) (\<lambda>_.
     validate_private_file private_key))))))))"

definition validate_identity_pem :: "bytes \<Rightarrow> bytes \<Rightarrow> auth_error + unit" where
  "validate_identity_pem certificate_pem private_key_pem =
     (if certificate_pem = [] \<or> length certificate_pem > MAX_CERTIFICATE_PEM_SIZE
      then Inl (AeInvalidData ''certificate PEM is empty or exceeds the safety limit'')
      else if private_key_pem = [] \<or> length private_key_pem > MAX_PRIVATE_KEY_PEM_SIZE
      then Inl (AeInvalidData ''private-key PEM is empty or exceeds the safety limit'')
      else Inr ())"

definition any_exists :: "state_path list \<Rightarrow> auth_fs \<Rightarrow> bool" where
  "any_exists ps s = list_ex (\<lambda>p. contains_key (fs_entries s) p) ps"

definition pairing_records :: "auth_fs \<Rightarrow> uuid list" where
  "pairing_records s = List.map_filter (\<lambda>(p, _). case p of PPairing i \<Rightarrow> Some i | _ \<Rightarrow> None) (fs_entries s)"

definition initialize_with_identity :: "auth_env \<Rightarrow> bytes \<Rightarrow> bytes \<Rightarrow> (state_path \<times> state_path) aop" where
  "initialize_with_identity E certificate_pem private_key_pem =
     mbind (mlift (validate_identity_pem certificate_pem private_key_pem)) (\<lambda>_.
     mbind (create_dir_all PRoot) (\<lambda>_.
     mbind (secure_directory PRoot) (\<lambda>_.
     mbind (mget (any_exists [PCert, PKey, PUsers])) (\<lambda>present.
       if present then mfail (AeInvalidData ''server state files already exist'')
       else mbind (mget (\<lambda>s. any_exists [PPairings] s \<and> pairing_records s \<noteq> [])) (\<lambda>records.
         if records then mfail (AeInvalidData ''pairing records already exist in the state directory'')
         else mbind (mget (any_exists [PActive, PIdentities])) (\<lambda>generations.
           if generations
           then mfail (AeInvalidData ''identity generations already exist in the state directory'')
           else mbind (create_dir_all PPairings) (\<lambda>_.
                mbind (secure_directory PPairings) (\<lambda>_.
                mbind (write_private PKey private_key_pem) (\<lambda>_.
                mbind (write_private PCert certificate_pem) (\<lambda>_.
                mbind (write_json E []) (\<lambda>_. mret state_paths_new)))))))))))"

definition install_identity ::
  "auth_env \<Rightarrow> bytes \<Rightarrow> bytes \<Rightarrow> bytes \<Rightarrow> (state_path \<times> state_path) aop" where
  "install_identity E generation certificate_pem private_key_pem =
     mbind (mlift (validate_identity_pem certificate_pem private_key_pem)) (\<lambda>_.
     mbind (validate_server_state E) (\<lambda>_.
     lock_identity (
       mbind (create_dir_all PIdentities) (\<lambda>_.
       mbind (secure_directory PIdentities) (\<lambda>_.
       mbind (mget generation_names) (\<lambda>existing.
         if length existing \<ge> MAX_IDENTITY_GENERATIONS
         then mfail (AeInvalidData ''identity generation limit reached'')
         else mbind (create_dir_all (PIdentity generation)) (\<lambda>_.
              mbind (secure_directory (PIdentity generation)) (\<lambda>_ s.
              case mbind (write_private (PGenerationKey generation) private_key_pem) (\<lambda>_.
                   mbind (write_private (PGenerationCert generation) certificate_pem) (\<lambda>_.
                   write_private PActive generation)) s of
                (Inr _, s') \<Rightarrow> (Inr (PGenerationCert generation, PGenerationKey generation), s')
              | (Inl e, s') \<Rightarrow>
                  mbind (mignore (remove_file (PGenerationCert generation))) (\<lambda>_.
                  mbind (mignore (remove_file (PGenerationKey generation))) (\<lambda>_.
                  mbind (mignore (remove_file (PIdentity generation))) (\<lambda>_. mfail e))) s'))))))))"

subsection \<open>User administration\<close>

definition find_user :: "bytes \<Rightarrow> user_database \<Rightarrow> user_record option" where
  "find_user username users = List.find (\<lambda>u. ur_username u = username) users"

fun modify_user :: "bytes \<Rightarrow> (user_record \<Rightarrow> user_record) \<Rightarrow> user_database \<Rightarrow> user_database" where
  "modify_user username f [] = []"
| "modify_user username f (u # us) =
     (if ur_username u = username then f u # us else u # modify_user username f us)"

text \<open>The common frame of the administration commands: checks, lock, read, change, write.\<close>

definition edit_users :: "auth_env \<Rightarrow> (user_database \<Rightarrow> auth_error + user_database) \<Rightarrow> unit aop" where
  "edit_users E change = lock_user_database (
     mbind (read_user_database E) (\<lambda>database.
     mbind (mlift (change database)) (\<lambda>database'. write_json E database')))"

definition add_user :: "auth_env \<Rightarrow> bytes \<Rightarrow> bytes \<Rightarrow> bytes \<Rightarrow> unit aop" where
  "add_user E salt username password =
     mbind (validate_server_state E) (\<lambda>_.
     mbind (mlift (validate_username username)) (\<lambda>_.
     mbind (mlift (validate_new_password password)) (\<lambda>_.
     edit_users E (\<lambda>database.
       if list_ex (\<lambda>u. ur_username u = username) database then Inl (AeUserExists username)
       else if length database \<ge> MAX_USERS
       then Inl (AeInvalidData ''user database has reached its account limit'')
       else ebind (hash_password E salt password) (\<lambda>hash.
         Inr (database @ [\<lparr>ur_username = username, ur_password_hash = hash, ur_enabled = True,
                           ur_writable = False\<rparr>]))))))"

definition update_user ::
  "bytes \<Rightarrow> (user_record \<Rightarrow> auth_error + user_record) \<Rightarrow> user_database \<Rightarrow> auth_error + user_database" where
  "update_user username f database = (case find_user username database of
     None \<Rightarrow> Inl (AeUserNotFound username)
   | Some user \<Rightarrow> ebind (f user) (\<lambda>user'. Inr (modify_user username (\<lambda>_. user') database)))"

definition change_password :: "auth_env \<Rightarrow> bytes \<Rightarrow> bytes \<Rightarrow> bytes \<Rightarrow> unit aop" where
  "change_password E salt username password =
     mbind (validate_server_state E) (\<lambda>_.
     mbind (mlift (validate_username username)) (\<lambda>_.
     mbind (mlift (validate_new_password password)) (\<lambda>_.
     edit_users E (update_user username (\<lambda>user.
       ebind (hash_password E salt password) (\<lambda>hash. Inr (user\<lparr>ur_password_hash := hash\<rparr>)))))))"

definition set_user_enabled :: "auth_env \<Rightarrow> bytes \<Rightarrow> bool \<Rightarrow> unit aop" where
  "set_user_enabled E username enabled =
     mbind (validate_server_state E) (\<lambda>_.
     mbind (mlift (validate_username username)) (\<lambda>_.
     edit_users E (update_user username (\<lambda>user. Inr (user\<lparr>ur_enabled := enabled\<rparr>)))))"

definition set_user_writable :: "auth_env \<Rightarrow> bytes \<Rightarrow> bool \<Rightarrow> unit aop" where
  "set_user_writable E username writable =
     mbind (validate_server_state E) (\<lambda>_.
     mbind (mlift (validate_username username)) (\<lambda>_.
     edit_users E (update_user username (\<lambda>user. Inr (user\<lparr>ur_writable := writable\<rparr>)))))"

definition remove_user :: "auth_env \<Rightarrow> bytes \<Rightarrow> unit aop" where
  "remove_user E username =
     mbind (validate_server_state E) (\<lambda>_.
     mbind (mlift (validate_username username)) (\<lambda>_.
     edit_users E (\<lambda>database.
       let rest = filter (\<lambda>u. ur_username u \<noteq> username) database
       in if length rest = length database then Inl (AeUserNotFound username) else Inr rest)))"

definition verify_user_authorization :: "auth_env \<Rightarrow> bytes \<Rightarrow> bytes \<Rightarrow> user_authorization option aop" where
  "verify_user_authorization E username password =
     (if \<not> isOk (validate_username username) \<or> length password > MAX_PASSWORD_LENGTH
      then mret None
      else mbind (validate_private_file PUsers) (\<lambda>_.
           mbind (read_user_database E) (\<lambda>database.
             case List.find (\<lambda>u. ur_username u = username \<and> ur_enabled u) database of
               None \<Rightarrow> mret None
             | Some user \<Rightarrow>
                 if \<not> isOk (parse_password_hash E (ur_password_hash user))
                 then mfail (AeInvalidData ''invalid password hash for user'')
                 else if ae_argon2_verify E password (ur_password_hash user)
                 then mret (Some \<lparr>ua_writable = ur_writable user\<rparr>)
                 else mret None)))"

definition verify_user :: "auth_env \<Rightarrow> bytes \<Rightarrow> bytes \<Rightarrow> bool aop" where
  "verify_user E username password =
     mbind (verify_user_authorization E username password) (\<lambda>authorization. mret (authorization \<noteq> None))"

subsection \<open>Pairing\<close>

definition uuid_bytes :: "uuid \<Rightarrow> bytes" where
  "uuid_bytes u = map (\<lambda>i. u div 256 ^ (15 - i) mod 256) [0..<16]"

definition proof_message :: "bytes \<Rightarrow> uuid \<Rightarrow> bytes \<Rightarrow> bytes \<Rightarrow> bytes" where
  "proof_message domain pairing_id certificate_fingerprint client_nonce =
     domain @ uuid_bytes pairing_id @ certificate_fingerprint @ client_nonce"

definition pairing_proof :: "auth_env \<Rightarrow> bytes \<Rightarrow> bytes \<Rightarrow> uuid \<Rightarrow> bytes \<Rightarrow> bytes \<Rightarrow> bytes" where
  "pairing_proof E secret domain pairing_id certificate_fingerprint client_nonce =
     ae_hmac E secret (proof_message domain pairing_id certificate_fingerprint client_nonce)"

definition verify_proof :: "auth_env \<Rightarrow> bytes \<Rightarrow> bytes \<Rightarrow> uuid \<Rightarrow> bytes \<Rightarrow> bytes \<Rightarrow> bytes \<Rightarrow> bool" where
  "verify_proof E secret domain pairing_id certificate_fingerprint client_nonce given =
     (ae_hmac E secret (proof_message domain pairing_id certificate_fingerprint client_nonce) = given)"

definition client_proof :: "auth_env \<Rightarrow> bytes \<Rightarrow> uuid \<Rightarrow> bytes \<Rightarrow> bytes \<Rightarrow> bytes" where
  "client_proof E secret = pairing_proof E secret PAIRING_CLIENT_PROOF_DOMAIN"

definition verify_client_proof :: "auth_env \<Rightarrow> bytes \<Rightarrow> uuid \<Rightarrow> bytes \<Rightarrow> bytes \<Rightarrow> bytes \<Rightarrow> bool" where
  "verify_client_proof E secret = verify_proof E secret PAIRING_CLIENT_PROOF_DOMAIN"

definition server_proof :: "auth_env \<Rightarrow> bytes \<Rightarrow> uuid \<Rightarrow> bytes \<Rightarrow> bytes \<Rightarrow> bytes" where
  "server_proof E secret = pairing_proof E secret PAIRING_SERVER_PROOF_DOMAIN"

definition verify_server_proof :: "auth_env \<Rightarrow> bytes \<Rightarrow> uuid \<Rightarrow> bytes \<Rightarrow> bytes \<Rightarrow> bytes \<Rightarrow> bool" where
  "verify_server_proof E secret = verify_proof E secret PAIRING_SERVER_PROOF_DOMAIN"

text \<open>\<^verbatim>\<open>format_code\<close>: groups of four characters with a hyphen between them.\<close>

fun format_code :: "bytes \<Rightarrow> bytes" where
  "format_code (a # b # c # d # e # r) = [a, b, c, d, 45] @ format_code (e # r)"
| "format_code cs = cs"

text \<open>\<^verbatim>\<open>base64::encoded_len\<close> without padding.\<close>

definition encoded_len_b64 :: "usize \<Rightarrow> usize" where
  "encoded_len_b64 n = n div 3 * 4 + (case n mod 3 of 0 \<Rightarrow> 0 | Suc k \<Rightarrow> k + 2)"

definition is_space :: "byte \<Rightarrow> bool" where
  "is_space b \<longleftrightarrow> b = 32 \<or> 9 \<le> b \<and> b \<le> 13"

definition trim :: "bytes \<Rightarrow> bytes" where
  "trim cs = rev (dropWhile is_space (rev (dropWhile is_space cs)))"

fun strip_groups :: "nat \<Rightarrow> bytes \<Rightarrow> auth_error + bytes" where
  "strip_groups index [] = Inr []"
| "strip_groups index (b # bs) =
     (if index mod 5 = 4
      then (if b \<noteq> 45 then Inl (AeInvalidData ''invalid pairing code grouping'')
            else strip_groups (Suc index) bs)
      else ebind (strip_groups (Suc index) bs) (\<lambda>rest. Inr (b # rest)))"

definition normalize_pairing_code :: "bytes \<Rightarrow> auth_error + bytes" where
  "normalize_pairing_code code0 =
     (let code = trim code0; encoded_length = encoded_len_b64 PAIRING_SECRET_LENGTH in
      if length code = encoded_length then Inr code
      else if length code \<noteq> encoded_length + (encoded_length - 1) div 4
      then Inl (AeInvalidData ''invalid pairing code length'')
      else strip_groups 0 code)"

definition decode_secret :: "auth_env \<Rightarrow> string \<Rightarrow> string \<Rightarrow> bytes \<Rightarrow> auth_error + bytes" where
  "decode_secret E bad short encoded = (case ae_b64_decode E encoded of
     None \<Rightarrow> Inl (AeInvalidData bad)
   | Some secret \<Rightarrow> if length secret \<noteq> PAIRING_SECRET_LENGTH then Inl (AeInvalidData short) else Inr secret)"

definition parse_pairing_code :: "auth_env \<Rightarrow> bytes \<Rightarrow> auth_error + bytes" where
  "parse_pairing_code E code = ebind (normalize_pairing_code code)
     (decode_secret E ''invalid pairing code'' ''invalid pairing code length'')"

record new_pairing =
  np_id :: uuid
  np_code :: bytes
  np_expires_unix_seconds :: u64

text \<open>The clock is \<open>now\<close>; it is \<open>None\<close> when the system time is before the Unix epoch.\<close>

definition now_seconds :: "u64 option \<Rightarrow> auth_error + u64" where
  "now_seconds now = ok_or (AeInvalidData ''system clock is before Unix epoch'') now"

definition create_pairing :: "auth_env \<Rightarrow> uuid \<Rightarrow> bytes \<Rightarrow> u64 option \<Rightarrow> u64 \<Rightarrow> new_pairing aop" where
  "create_pairing E i secret now lifetime =
     mbind (validate_server_state E) (\<lambda>_.
       if lifetime = 0 then mfail (AeInvalidData ''pairing lifetime must be at least one second'')
       else if lifetime > MAX_PAIRING_LIFETIME
       then mfail (AeInvalidData ''pairing lifetime must not exceed one hour'')
       else mbind (mlift (now_seconds now)) (\<lambda>seconds.
         let encoded = ae_b64_encode E secret; expires = saturating_add seconds lifetime in
         mbind (create_dir_all PPairings) (\<lambda>_.
         mbind (secure_directory PPairings) (\<lambda>_.
         mbind (mlift (map_err AeInvalidData (ae_pairing_json E
                  \<lparr>pr_id = i, pr_secret = encoded, pr_expires_unix_seconds = expires\<rparr>))) (\<lambda>serialized.
         mbind (write_private (PPairing i) serialized) (\<lambda>_.
           mret \<lparr>np_id = i, np_code = format_code encoded, np_expires_unix_seconds = expires\<rparr>))))))"

text \<open>The missing file of a pairing is reported as \<^verbatim>\<open>PairingNotFound\<close>.\<close>

definition pairing_missing :: "auth_error \<Rightarrow> auth_error" where
  "pairing_missing e = (if e = AeIo IoNotFound then AePairingNotFound else e)"

definition map_error :: "('e \<Rightarrow> 'e) \<Rightarrow> ('s, 'e, 'a) op \<Rightarrow> ('s, 'e, 'a) op" where
  "map_error f m s = (let (r, s') = m s in (map_err f r, s'))"

definition load_pairing :: "auth_env \<Rightarrow> u64 option \<Rightarrow> uuid \<Rightarrow> bytes aop" where
  "load_pairing E now i =
     mbind (map_error pairing_missing (validate_private_file (PPairing i))) (\<lambda>_.
     mbind (map_error pairing_missing (read_json (ae_pairing_parse E) (PPairing i) MAX_PAIRING_RECORD_SIZE)) (\<lambda>record.
       if pr_id record \<noteq> i then mfail (AeInvalidData ''pairing identifier mismatch'')
       else mbind (mlift (now_seconds now)) (\<lambda>seconds.
         if pr_expires_unix_seconds record \<le> seconds
         then mbind (mignore (remove_file (PPairing i))) (\<lambda>_. mfail AePairingExpired)
         else mlift (decode_secret E ''invalid pairing secret'' ''invalid pairing secret length''
                (pr_secret record)))))"

definition consume_pairing :: "uuid \<Rightarrow> unit aop" where
  "consume_pairing i = map_error pairing_missing (remove_file (PPairing i))"

end
