(* ===== verification/Protocol_Frames.thy ===== *)
theory Protocol_Frames
  imports Protocol_Types
begin

unbundle bit_operations_syntax

text \<open>
  Crate \<^verbatim>\<open>crates/protocol\<close>, versions and frames, and the framing of \<^verbatim>\<open>crates/transport-quic\<close>.
  Versions are 16-bit words and frame prefixes 32-bit words, with the source's shifts and masks.
  Postcard (\<open>ser\<close>, \<open>de\<close>) and zstd (\<open>zc\<close>, \<open>zd\<close>) are third-party crates: they are arguments,
  and the round-trip theorem states what it needs of them. A QUIC stream is the list of bytes
  still to be read.
\<close>

type_synonym version = "16 word"

definition make_version :: "version \<Rightarrow> version \<Rightarrow> version" where
  "make_version major minor = (push_bit 8 major) OR (minor AND 0x00ff)"

definition version_major :: "version \<Rightarrow> version" where
  "version_major v = drop_bit 8 v"

definition version_minor :: "version \<Rightarrow> version" where
  "version_minor v = v AND 0x00ff"

definition PROTOCOL_MAJOR :: version where "PROTOCOL_MAJOR = 6"
definition PROTOCOL_MINOR :: version where "PROTOCOL_MINOR = 4"
definition PROTOCOL_VERSION :: version where
  "PROTOCOL_VERSION = make_version PROTOCOL_MAJOR PROTOCOL_MINOR"
definition MINOR_FRAME_COMPRESSION :: version where "MINOR_FRAME_COMPRESSION = 3"
definition MINOR_METADATA_BATCH :: version where "MINOR_METADATA_BATCH = 4"

definition peer_supports_frame_compression :: "version \<Rightarrow> bool" where
  "peer_supports_frame_compression peer_version \<longleftrightarrow>
     version_major peer_version = PROTOCOL_MAJOR \<and>
     version_minor peer_version \<ge> MINOR_FRAME_COMPRESSION"

definition peer_supports_metadata_batch :: "version \<Rightarrow> bool" where
  "peer_supports_metadata_batch peer_version \<longleftrightarrow>
     version_major peer_version = PROTOCOL_MAJOR \<and>
     version_minor peer_version \<ge> MINOR_METADATA_BATCH"

declare make_version_def [wire_defs] version_major_def [wire_defs] version_minor_def [wire_defs]
  PROTOCOL_MAJOR_def [wire_defs] PROTOCOL_MINOR_def [wire_defs] PROTOCOL_VERSION_def [wire_defs]
  MINOR_FRAME_COMPRESSION_def [wire_defs] MINOR_METADATA_BATCH_def [wire_defs]

record 'm envelope =
  env_version :: version
  env_request_id :: request_id
  env_message :: 'm

text \<open>\<^verbatim>\<open>Envelope::new\<close>; the fresh request UUID is the argument.\<close>

definition envelope_new :: "request_id \<Rightarrow> 'm \<Rightarrow> 'm envelope" where
  "envelope_new rid m =
     \<lparr>env_version = PROTOCOL_VERSION, env_request_id = rid, env_message = m\<rparr>"

datatype codec_error = CTooLarge usize | CMalformed string | CUnsupportedVersion version
  | CDecompress

definition encode :: "('a \<Rightarrow> string + bytes) \<Rightarrow> 'a \<Rightarrow> codec_error + bytes" where
  "encode ser v = ebind (map_err CMalformed (ser v)) (\<lambda>out.
     if length out > MAX_FRAME_SIZE then Inl (CTooLarge (length out)) else Inr out)"

definition encoded_len :: "('a \<Rightarrow> string + bytes) \<Rightarrow> 'a \<Rightarrow> codec_error + usize" where
  "encoded_len ser v = ebind (map_err CMalformed (ser v)) (\<lambda>out. Inr (length out))"

definition decode :: "(bytes \<Rightarrow> string + 'a) \<Rightarrow> bytes \<Rightarrow> codec_error + 'a" where
  "decode de b = (if length b > MAX_FRAME_SIZE then Inl (CTooLarge (length b))
                  else map_err CMalformed (de b))"

definition FRAME_COMPRESSED_FLAG :: "32 word" where
  "FRAME_COMPRESSED_FLAG = push_bit 31 1"

definition frame_body :: "(bytes \<Rightarrow> string + bytes) \<Rightarrow> bytes \<Rightarrow> 32 word \<times> bytes" where
  "frame_body zc payload =
     (if length payload \<ge> FRAME_COMPRESSION_THRESHOLD
      then (case zc payload of
              Inr compressed \<Rightarrow>
                if length compressed < length payload
                then (word_of_nat (length compressed) OR FRAME_COMPRESSED_FLAG, compressed)
                else (word_of_nat (length payload), payload)
            | Inl _ \<Rightarrow> (word_of_nat (length payload), payload))
      else (word_of_nat (length payload), payload))"

definition encode_frame ::
  "('a \<Rightarrow> string + bytes) \<Rightarrow> (bytes \<Rightarrow> string + bytes) \<Rightarrow> 'a \<Rightarrow> bool
     \<Rightarrow> codec_error + (32 word \<times> bytes)" where
  "encode_frame ser zc v compress = ebind (encode ser v) (\<lambda>payload.
     if compress then Inr (frame_body zc payload)
     else Inr (word_of_nat (length payload), payload))"

definition parse_frame_header :: "32 word \<Rightarrow> codec_error + (bool \<times> usize)" where
  "parse_frame_header prefix =
     (let compressed = (prefix AND FRAME_COMPRESSED_FLAG \<noteq> 0);
          len = unat (prefix AND NOT FRAME_COMPRESSED_FLAG)
      in if len > MAX_FRAME_SIZE then Inl (CTooLarge len) else Inr (compressed, len))"

definition decode_frame ::
  "(bytes \<Rightarrow> string + 'a) \<Rightarrow> (bytes \<Rightarrow> usize \<Rightarrow> string + bytes) \<Rightarrow> bool \<Rightarrow> bytes
     \<Rightarrow> codec_error + 'a" where
  "decode_frame de zd compressed body =
     (if compressed
      then ebind (map_err (\<lambda>_. CDecompress) (zd body MAX_FRAME_SIZE)) (\<lambda>payload. decode de payload)
      else decode de body)"

definition decode_request ::
  "(bytes \<Rightarrow> string + request envelope) \<Rightarrow> bytes \<Rightarrow> codec_error + request envelope" where
  "decode_request de b = ebind (decode de b) (\<lambda>msg.
     if version_major (env_version msg) \<noteq> PROTOCOL_MAJOR
     then Inl (CUnsupportedVersion (env_version msg)) else Inr msg)"

subsection \<open>Frames on a stream\<close>

text \<open>The answer to one request: the frames and the raw bytes after them.\<close>

record reply_stream =
  rs_frames :: "response envelope list"
  rs_body :: bytes

datatype transport_error = TCodec codec_error | TReadExact

definition to_be_bytes :: "32 word \<Rightarrow> bytes" where
  "to_be_bytes w = (let n = unat w in
     [n div 2 ^ 24 mod 256, n div 2 ^ 16 mod 256, n div 2 ^ 8 mod 256, n mod 256])"

definition from_be_bytes :: "bytes \<Rightarrow> 32 word" where
  "from_be_bytes bs = word_of_nat (foldl (\<lambda>acc b. acc * 256 + b) 0 bs)"

definition read_exact :: "nat \<Rightarrow> bytes \<Rightarrow> transport_error + (bytes \<times> bytes)" where
  "read_exact n recv = (if length recv < n then Inl TReadExact else Inr (take n recv, drop n recv))"

definition write_frame ::
  "('a \<Rightarrow> string + bytes) \<Rightarrow> (bytes \<Rightarrow> string + bytes) \<Rightarrow> 'a \<Rightarrow> bool
     \<Rightarrow> transport_error + bytes" where
  "write_frame ser zc v compress =
     ebind (map_err TCodec (encode_frame ser zc v compress)) (\<lambda>(prefix, body).
       Inr (to_be_bytes prefix @ body))"

definition read_frame ::
  "(bytes \<Rightarrow> string + 'a) \<Rightarrow> (bytes \<Rightarrow> usize \<Rightarrow> string + bytes) \<Rightarrow> bytes
     \<Rightarrow> transport_error + ('a \<times> bytes)" where
  "read_frame de zd recv =
     ebind (read_exact 4 recv) (\<lambda>(prefix, recv).
     ebind (map_err TCodec (parse_frame_header (from_be_bytes prefix))) (\<lambda>(compressed, size).
     ebind (read_exact size recv) (\<lambda>(body, recv).
     ebind (map_err TCodec (decode_frame de zd compressed body)) (\<lambda>v. Inr (v, recv)))))"

subsection \<open>Lemmas\<close>

lemma low_word_bit31: "n < 2 ^ 31 \<Longrightarrow> \<not> bit (word_of_nat n :: 32 word) 31"
proof -
  assume "n < 2 ^ 31"
  then have "take_bit 31 n = n" by (rule take_bit_nat_eq_self)
  then have "\<not> bit n 31" by (metis bit_take_bit_iff less_irrefl_nat)
  then show ?thesis by (simp add: bit_of_nat_iff)
qed

lemma flag_bit: "bit FRAME_COMPRESSED_FLAG n \<longleftrightarrow> n = 31"
proof -
  have "bit (push_bit 31 1 :: 32 word) n \<longleftrightarrow> n = 31"
    by (simp only: bit_push_bit_iff bit_1_iff) (auto simp: possible_bit_def)
  then show ?thesis by (simp only: FRAME_COMPRESSED_FLAG_def)
qed

lemma frame_length_unat: "n \<le> MAX_FRAME_SIZE \<Longrightarrow> unat (word_of_nat n :: 32 word) = n"
  by (simp add: MAX_FRAME_SIZE_def unsigned_of_nat take_bit_nat_eq_self)

lemma frame_length_bit31: "n \<le> MAX_FRAME_SIZE \<Longrightarrow> \<not> bit (word_of_nat n :: 32 word) 31"
  by (rule low_word_bit31) (simp add: MAX_FRAME_SIZE_def)

lemma parse_plain:
  assumes "n \<le> MAX_FRAME_SIZE"
  shows "parse_frame_header (word_of_nat n) = Inr (False, n)"
proof -
  note nb = frame_length_bit31 [OF assms]
  have "(word_of_nat n :: 32 word) AND FRAME_COMPRESSED_FLAG = 0"
    using nb by (intro bit_word_eqI) (auto simp: bit_and_iff flag_bit)
  moreover have "(word_of_nat n :: 32 word) AND NOT FRAME_COMPRESSED_FLAG = word_of_nat n"
    using nb by (intro bit_word_eqI) (auto simp: bit_and_iff bit_not_iff flag_bit)
  ultimately show ?thesis
    using assms frame_length_unat [OF assms] by (simp add: parse_frame_header_def)
qed

lemma parse_flagged:
  assumes "n \<le> MAX_FRAME_SIZE"
  shows "parse_frame_header (word_of_nat n OR FRAME_COMPRESSED_FLAG) = Inr (True, n)"
proof -
  note nb = frame_length_bit31 [OF assms]
  let ?p = "(word_of_nat n :: 32 word) OR FRAME_COMPRESSED_FLAG"
  have "bit (?p AND FRAME_COMPRESSED_FLAG) 31" by (simp add: bit_and_iff bit_or_iff flag_bit)
  then have "?p AND FRAME_COMPRESSED_FLAG \<noteq> 0" by (metis bit_0_eq bot_apply bot_bool_def)
  moreover have "?p AND NOT FRAME_COMPRESSED_FLAG = word_of_nat n"
    using nb by (intro bit_word_eqI) (auto simp: bit_and_iff bit_or_iff bit_not_iff flag_bit)
  ultimately show ?thesis
    using assms frame_length_unat [OF assms] by (simp add: parse_frame_header_def)
qed

lemma frame_body_cases:
  obtains (raw) "frame_body zc payload = (word_of_nat (length payload), payload)"
  | (packed) body where "zc payload = Inr body" and "length body < length payload"
      and "frame_body zc payload = (word_of_nat (length body) OR FRAME_COMPRESSED_FLAG, body)"
proof (cases "FRAME_COMPRESSION_THRESHOLD \<le> length payload \<and>
    (\<exists>b. zc payload = Inr b \<and> length b < length payload)")
  case True
  then obtain b where "zc payload = Inr b" "length b < length payload"
    "FRAME_COMPRESSION_THRESHOLD \<le> length payload" by auto
  then show ?thesis by (intro packed [of b]) (simp_all add: frame_body_def)
next
  case False
  then show ?thesis by (intro raw) (auto simp: frame_body_def split: sum.split)
qed

lemma frame_body_header:
  assumes "length payload \<le> MAX_FRAME_SIZE" and "frame_body zc payload = (prefix, body)"
  shows "\<exists>c. parse_frame_header prefix = Inr (c, length body) \<and> length body \<le> length payload \<and>
    (if c then zc payload = Inr body else body = payload)"
proof (cases zc payload rule: frame_body_cases)
  case raw
  with assms(2) have "prefix = word_of_nat (length payload)" and "body = payload" by auto
  with assms(1) show ?thesis by (intro exI [of _ False]) (simp add: parse_plain)
next
  case (packed b)
  with assms have "parse_frame_header prefix = Inr (True, length body)"
    using parse_flagged [of "length b"] by auto
  with packed assms(2) show ?thesis by (intro exI [of _ True]) simp
qed

lemma encode_Inr: "encode ser v = Inr out \<longleftrightarrow> ser v = Inr out \<and> length out \<le> MAX_FRAME_SIZE"
  by (cases "ser v") (auto simp: encode_def)

lemma encode_frame_header:
  assumes "encode_frame ser zc v compress = Inr (prefix, body)"
  shows "\<exists>c payload. ser v = Inr payload \<and> length payload \<le> MAX_FRAME_SIZE \<and>
    parse_frame_header prefix = Inr (c, length body) \<and> length body \<le> length payload \<and>
    (if c then compress \<and> zc payload = Inr body else body = payload)"
proof -
  from assms obtain payload where enc: "encode ser v = Inr payload"
    by (cases "encode ser v") (auto simp: encode_frame_def)
  note len = enc [unfolded encode_Inr]
  show ?thesis
  proof (cases compress)
    case True
    with assms enc have "frame_body zc payload = (prefix, body)" by (simp add: encode_frame_def)
    from frame_body_header [OF conjunct2 [OF len] this] obtain c where
      "parse_frame_header prefix = Inr (c, length body) \<and> length body \<le> length payload \<and>
       (if c then zc payload = Inr body else body = payload)" ..
    with True len show ?thesis by (intro exI [of _ c] exI [of _ payload]) simp
  next
    case False
    with assms enc have "prefix = word_of_nat (length payload)" and "body = payload"
      by (auto simp: encode_frame_def)
    with len show ?thesis by (intro exI [of _ False] exI [of _ payload]) (simp add: parse_plain)
  qed
qed

lemma be_bytes_inverse: "from_be_bytes (to_be_bytes w) = w"
proof -
  let ?n = "unat w"
  have "?n < 2 ^ 32" using unsigned_less [of w, where 'a = nat] by simp
  then have lt: "?n div 2 ^ 24 < 256" by simp
  have s1: "?n div 2 ^ 24 mod 256 * 256 + ?n div 2 ^ 16 mod 256 = ?n div 2 ^ 16"
    using lt div_mult_mod_eq [of "?n div 2 ^ 16" 256] by (simp add: div_mult2_eq [symmetric])
  have s2: "?n div 2 ^ 16 * 256 + ?n div 2 ^ 8 mod 256 = ?n div 2 ^ 8"
    using div_mult_mod_eq [of "?n div 2 ^ 8" 256] by (simp add: div_mult2_eq [symmetric])
  have s3: "?n div 2 ^ 8 * 256 + ?n mod 256 = ?n"
    using div_mult_mod_eq [of ?n 256] by simp
  have "foldl (\<lambda>acc b. acc * 256 + b) 0 (to_be_bytes w) = ?n"
    using s1 s2 s3 by (simp add: to_be_bytes_def Let_def)
  then show ?thesis by (simp add: from_be_bytes_def)
qed

lemma length_to_be_bytes [simp]: "length (to_be_bytes w) = 4"
  by (simp add: to_be_bytes_def Let_def)

lemma read_exact_append [simp]:
  "length xs = n \<Longrightarrow> read_exact n (xs @ ys) = Inr (xs, ys)"
  by (simp add: read_exact_def)

lemma decode_frame_encoded:
  assumes rt: "\<And>b. ser v = Inr b \<Longrightarrow> de b = Inr v"
    and zrt: "\<And>p c. zc p = Inr c \<Longrightarrow> length p \<le> MAX_FRAME_SIZE \<Longrightarrow> zd c MAX_FRAME_SIZE = Inr p"
    and ser: "ser v = Inr payload" and len: "length payload \<le> MAX_FRAME_SIZE"
    and body: "if c then zc payload = Inr body else body = payload"
  shows "decode_frame de zd c body = Inr v"
  using rt [OF ser] zrt [of payload] len body
  by (auto simp: decode_frame_def decode_def split: if_splits)

subsection \<open>A concrete codec, for the witnesses\<close>

definition demo_run :: nat where "demo_run = 2000"

definition demo_ser :: "nat \<Rightarrow> string + bytes" where
  "demo_ser n = Inr (replicate demo_run n)"

definition demo_de :: "bytes \<Rightarrow> string + nat" where
  "demo_de b = (if length b = demo_run then Inr (hd b) else Inl ''length'')"

definition demo_zc :: "bytes \<Rightarrow> string + bytes" where
  "demo_zc p = (if p = replicate demo_run (hd p) then Inr [hd p] else Inl ''incompressible'')"

definition demo_zd :: "bytes \<Rightarrow> usize \<Rightarrow> string + bytes" where
  "demo_zd c n = (if length c = 1 \<and> demo_run \<le> n then Inr (replicate demo_run (hd c)) else Inl ''bad'')"

lemma demo_postcard: "demo_ser v = Inr b \<Longrightarrow> demo_de b = Inr v"
  by (auto simp: demo_ser_def demo_de_def demo_run_def)

lemma demo_zstd: "demo_zc p = Inr c \<Longrightarrow> length p \<le> MAX_FRAME_SIZE \<Longrightarrow>
    demo_zd c MAX_FRAME_SIZE = Inr p"
  by (auto simp: demo_zc_def demo_zd_def demo_run_def MAX_FRAME_SIZE_def split: if_splits)

lemma demo_frame: "encode_frame demo_ser demo_zc 7 True = Inr (1 OR FRAME_COMPRESSED_FLAG, [7])"
  by (simp add: encode_frame_def encode_def demo_ser_def frame_body_def demo_zc_def demo_run_def
      FRAME_COMPRESSION_THRESHOLD_def MAX_FRAME_SIZE_def)

lemma small_version_bit: "x < 256 \<Longrightarrow> 8 \<le> n \<Longrightarrow> \<not> bit (x :: version) n"
proof -
  assume x: "x < 256" and n: "8 \<le> n"
  from x have "unat x < 2 ^ 8" by (simp add: word_less_nat_alt)
  then have "take_bit 8 (unat x) = unat x" by (rule take_bit_nat_eq_self)
  with n have "\<not> bit (unat x) n" by (metis bit_take_bit_iff leD)
  then show ?thesis by (auto simp: bit_unsigned_iff dest: bit_imp_le_length)
qed

lemma low_byte_mask_bit: "bit (0x00ff :: version) n \<longleftrightarrow> n < 8"
proof -
  have m: "(0x00ff :: version) = mask 8" by (simp add: mask_eq_exp_minus_1)
  show ?thesis by (simp only: m bit_mask_iff) (auto simp: possible_bit_def)
qed

lemma version_parts:
  assumes "major < 256" and "minor < 256"
  shows "version_major (make_version major minor) = major"
    and "version_minor (make_version major minor) = minor"
proof -
  note sb = small_version_bit [OF assms(1)] small_version_bit [OF assms(2)]
  show "version_major (make_version major minor) = major"
    using sb(1) [OF leI]
    by (intro bit_word_eqI) (auto simp: version_major_def make_version_def bit_drop_bit_eq
        bit_or_iff bit_and_iff bit_push_bit_iff low_byte_mask_bit possible_bit_def)
  show "version_minor (make_version major minor) = minor"
    using sb(2) [OF leI]
    by (intro bit_word_eqI, unfold version_minor_def make_version_def bit_or_iff bit_and_iff
        bit_push_bit_iff low_byte_mask_bit) auto
qed

subsection \<open>Properties\<close>

text \<open>C6. A frame written to a stream is read back exactly: whatever the compression decision,
  reading the bytes \<open>write_frame\<close> produced, followed by any further bytes, returns the value and
  leaves exactly those further bytes. Needs of Postcard that it decodes what it encoded and of
  zstd that it decompresses, within the frame bound, what it compressed.\<close>

theorem frame_stream_roundtrip:
  assumes postcard: "\<And>b. ser v = Inr b \<Longrightarrow> de b = Inr v"
    and zstd: "\<And>p c. zc p = Inr c \<Longrightarrow> length p \<le> MAX_FRAME_SIZE \<Longrightarrow> zd c MAX_FRAME_SIZE = Inr p"
    and written: "write_frame ser zc v compress = Inr out"
  shows "read_frame de zd (out @ rest) = Inr (v, rest)"
proof -
  from written obtain prefix body where enc: "encode_frame ser zc v compress = Inr (prefix, body)"
    and out: "out = to_be_bytes prefix @ body"
    by (auto simp: write_frame_def ebind_Inr_iff map_err_def split: sum.splits prod.splits)
  from encode_frame_header [OF enc] obtain c payload where "ser v = Inr payload"
    and "length payload \<le> MAX_FRAME_SIZE"
    and hdr: "parse_frame_header prefix = Inr (c, length body)"
    and "if c then zc payload = Inr body else body = payload"
    by auto
  then have dec: "decode_frame de zd c body = Inr v"
    by (intro decode_frame_encoded [of ser v de zc zd payload c body] postcard zstd) auto
  show ?thesis
    by (simp add: read_frame_def out be_bytes_inverse hdr dec)
qed

theorem frame_stream_roundtrip_witness:
  "read_frame demo_de demo_zd ((to_be_bytes (1 OR FRAME_COMPRESSED_FLAG) @ [7]) @ [1, 2])
     = Inr (7, [1, 2])"
proof (rule frame_stream_roundtrip [where ser = demo_ser and zc = demo_zc and compress = True])
  show "write_frame demo_ser demo_zc 7 True = Inr (to_be_bytes (1 OR FRAME_COMPRESSED_FLAG) @ [7])"
    by (simp add: write_frame_def demo_frame)
qed (fact demo_postcard, fact demo_zstd)

text \<open>Encoding a frame never enlarges it and the prefix is unambiguous: the header parser
  recovers exactly the body length, the compressed flag is set only when the caller asked for
  compression and a payload of at least the threshold really shrank, and the payload never
  exceeds the frame limit.\<close>

lemma encode_frame_sound:
  assumes "encode_frame ser zc v compress = Inr (prefix, body)"
  shows "\<exists>payload c. ser v = Inr payload \<and> length payload \<le> MAX_FRAME_SIZE \<and>
    parse_frame_header prefix = Inr (c, length body) \<and>
    (if c then compress \<and> zc payload = Inr body \<and> length body < length payload \<and>
               FRAME_COMPRESSION_THRESHOLD \<le> length payload
     else body = payload)"
proof -
  from assms obtain payload where enc: "encode ser v = Inr payload"
    by (cases "encode ser v") (auto simp: encode_frame_def)
  then have ser: "ser v = Inr payload" and len: "length payload \<le> MAX_FRAME_SIZE"
    by (simp_all add: encode_Inr)
  show ?thesis
  proof (cases "compress \<and> FRAME_COMPRESSION_THRESHOLD \<le> length payload \<and>
      (\<exists>b. zc payload = Inr b \<and> length b < length payload)")
    case True
    then have "prefix = word_of_nat (length body) OR FRAME_COMPRESSED_FLAG \<and>
        zc payload = Inr body \<and> length body < length payload"
      using assms enc by (auto simp: encode_frame_def frame_body_def)
    with True ser len show ?thesis
      by (intro exI [of _ payload] exI [of _ True]) (simp add: parse_flagged)
  next
    case False
    then have "prefix = word_of_nat (length payload) \<and> body = payload"
      using assms enc by (auto simp: encode_frame_def frame_body_def split: if_splits sum.splits)
    with ser len show ?thesis
      by (intro exI [of _ payload] exI [of _ False]) (simp add: parse_plain)
  qed
qed

text \<open>The version word packs and unpacks: a major and a minor below 256 are recovered from
  the word, the compression and batching gates compare exactly the minor of a same-major peer,
  and a request is accepted exactly when it decodes and carries the same major, whatever its
  minor.\<close>

lemma version_negotiation:
  assumes "major < 256" and "minor < 256"
  shows "version_major (make_version major minor) = major \<and>
    version_minor (make_version major minor) = minor \<and>
    (peer_supports_frame_compression (make_version major minor) \<longleftrightarrow> major = 6 \<and> 3 \<le> minor) \<and>
    (peer_supports_metadata_batch (make_version major minor) \<longleftrightarrow> major = 6 \<and> 4 \<le> minor) \<and>
    (\<forall>de b rid m. de b = Inr \<lparr>env_version = make_version major minor, env_request_id = rid,
         env_message = m\<rparr> \<longrightarrow> isOk (decode_request de b) = (length b \<le> MAX_FRAME_SIZE \<and> major = 6))"
proof -
  note parts = version_parts [OF assms]
  have "isOk (decode_request de b) = (length b \<le> MAX_FRAME_SIZE \<and> major = 6)"
    if "de b = Inr \<lparr>env_version = make_version major minor, env_request_id = rid, env_message = m\<rparr>"
    for de b rid m
    using that parts(1)
    by (cases "length b \<le> MAX_FRAME_SIZE"; cases "major = 6")
       (simp_all add: decode_request_def decode_def PROTOCOL_MAJOR_def)
  with parts show ?thesis
    by (auto simp: peer_supports_frame_compression_def peer_supports_metadata_batch_def
        PROTOCOL_MAJOR_def MINOR_FRAME_COMPRESSION_def MINOR_METADATA_BATCH_def)
qed

end
