(* ===== verification/Client_Network.thy ===== *)
theory Client_Network
  imports Client_Resilient Auth_Model Protocol_Frames
begin

text \<open>
  Crate \<^verbatim>\<open>crates/client-core\<close>, file \<^verbatim>\<open>lib.rs\<close>: \<^verbatim>\<open>NetworkFilesystem\<close>, one request per stream over a
  connection. The QUIC connection is the parameter \<open>quic\<close>: \<open>qc_exchange\<close> sends an envelope
  (compressed or not) with the bytes after it and returns what the peer writes on the stream
  before it ends, or a transport error; \<open>qc_fresh\<close> draws the request identifier. The state of
  \<^verbatim>\<open>QuicClient\<close> that negotiation sets is \<open>network\<close>.
\<close>

record 'w quic =
  qc_fresh :: "'w \<Rightarrow> uuid \<times> 'w"
  qc_exchange :: "request envelope \<Rightarrow> bool \<Rightarrow> bytes \<Rightarrow> 'w \<Rightarrow> (string + reply_stream) \<times> 'w"

record 'w network =
  nw_server_version :: version
  nw_compression :: bool
  nw_world :: 'w

type_synonym ('w, 'a) nop = "('w network, client_error, 'a) op"

definition MAX_CLIENT_READ_SIZE :: u64 where "MAX_CLIENT_READ_SIZE = 16 * 1024 * 1024"
definition MAX_CLIENT_WRITE_SIZE :: u64 where "MAX_CLIENT_WRITE_SIZE = 8 * 1024 * 1024"

definition network_new :: "'w \<Rightarrow> 'w network" where
  "network_new w = \<lparr>nw_server_version = 0, nw_compression = False, nw_world = w\<rparr>"

definition response_error :: "response \<Rightarrow> client_error" where
  "response_error r = (case r of RError e \<Rightarrow> CeServer (pe_code e) (pe_message e) | _ \<Rightarrow> CeUnexpectedResponse)"

subsection \<open>Requests\<close>

definition open_stream :: "'w quic \<Rightarrow> request \<Rightarrow> bytes \<Rightarrow> ('w, request_id \<times> reply_stream) nop" where
  "open_stream Q message data s =
     (let (rid, w1) = qc_fresh Q (nw_world s);
          (r, w2) = qc_exchange Q (envelope_new rid message) (nw_compression s) data w1
      in (case r of Inl e \<Rightarrow> Inl (CeTransport e) | Inr stream \<Rightarrow> Inr (rid, stream), s\<lparr>nw_world := w2\<rparr>))"

definition receive_frame :: "request_id \<Rightarrow> reply_stream \<Rightarrow> client_error + response \<times> reply_stream" where
  "receive_frame rid stream = (case rs_frames stream of
     [] \<Rightarrow> Inl (CeTransport ''stream ended'')
   | frame # frames \<Rightarrow>
       if version_major (env_version frame) \<noteq> PROTOCOL_MAJOR \<or> env_request_id frame \<noteq> rid
       then Inl CeUnexpectedResponse
       else Inr (env_message frame, stream\<lparr>rs_frames := frames\<rparr>))"

text \<open>\<^verbatim>\<open>request_with_data\<close>; \<^verbatim>\<open>request\<close> is the case of an empty body.\<close>

definition request_with_data :: "'w quic \<Rightarrow> request \<Rightarrow> bytes \<Rightarrow> ('w, response \<times> reply_stream) nop" where
  "request_with_data Q message data =
     mbind (open_stream Q message data) (\<lambda>(rid, stream). mlift (receive_frame rid stream))"

definition net_request :: "'w quic \<Rightarrow> request \<Rightarrow> ('w, response \<times> reply_stream) nop" where
  "net_request Q message = request_with_data Q message []"

definition receive_exact :: "nat \<Rightarrow> reply_stream \<Rightarrow> client_error + bytes" where
  "receive_exact n stream = (if length (rs_body stream) < n
     then Inl (CeTransport ''stream ended'') else Inr (take n (rs_body stream)))"

text \<open>One request whose first frame is taken by \<open>f\<close>, or else is an error.\<close>

definition ask :: "'w quic \<Rightarrow> request \<Rightarrow> (response \<Rightarrow> 'a option) \<Rightarrow> ('w, 'a) nop" where
  "ask Q message f = mbind (net_request Q message) (\<lambda>(r, _).
     case f r of Some v \<Rightarrow> mret v | None \<Rightarrow> mfail (response_error r))"

definition negotiate :: "'w quic \<Rightarrow> ('w, unit) nop" where
  "negotiate Q = mbind (net_request Q (ReqHello (ascii ''quickfs-client''))) (\<lambda>(r, _).
     case r of RHelloAck version \<Rightarrow> mput (\<lambda>s. s\<lparr>nw_server_version := version,
                  nw_compression := peer_supports_frame_compression version\<rparr>)
     | _ \<Rightarrow> mfail (response_error r))"

definition authenticate :: "'w quic \<Rightarrow> bytes \<Rightarrow> bytes \<Rightarrow> ('w, unit) nop" where
  "authenticate Q username password = mbind (negotiate Q) (\<lambda>_.
     ask Q (ReqAuthenticate username password) (\<lambda>r. case r of RAuthenticateAck \<Rightarrow> Some () | _ \<Rightarrow> None))"

subsection \<open>Directory views\<close>

text \<open>The frames after \<^verbatim>\<open>DirectoryViewStart\<close>; the list of frames bounds the loop.\<close>

fun collect_chunks :: "request_id \<Rightarrow> directory_view_entry list \<Rightarrow> response envelope list
    \<Rightarrow> client_error + directory_view_entry list" where
  "collect_chunks rid entries [] = Inl (CeTransport ''stream ended'')"
| "collect_chunks rid entries (frame # frames) =
     (if version_major (env_version frame) \<noteq> PROTOCOL_MAJOR \<or> env_request_id frame \<noteq> rid
      then Inl CeUnexpectedResponse
      else case env_message frame of
          RDirectoryViewChunk chunk \<Rightarrow>
            if length entries + length chunk > MAX_DIRECTORY_ENTRIES then Inl CeUnexpectedResponse
            else collect_chunks rid (entries @ chunk) frames
        | RDirectoryViewEnd \<Rightarrow> Inr entries
        | response \<Rightarrow> Inl (response_error response))"

definition list_directory_view_streamed ::
  "'w quic \<Rightarrow> node_id \<Rightarrow> directory_view_options \<Rightarrow> ('w, directory_view) nop" where
  "list_directory_view_streamed Q node options =
     mbind (open_stream Q (ReqListDirectoryView node options) []) (\<lambda>(rid, stream).
     mbind (mlift (receive_frame rid stream)) (\<lambda>(first, rest).
       case first of
         RDirectoryView view \<Rightarrow> mret view
       | RDirectoryViewStart revision directory parent xattrs entry_count \<Rightarrow>
           mbind (mlift (collect_chunks rid [] (rs_frames rest))) (\<lambda>entries.
             mret \<lparr>dv_revision = revision, dv_directory = directory, dv_parent = parent,
                   dv_xattrs = xattrs, dv_entries = entries\<rparr>)
       | response \<Rightarrow> mfail (response_error response)))"

subsection \<open>Metadata\<close>

definition net_get_metadata :: "'w quic \<Rightarrow> node_id \<Rightarrow> ('w, metadata) nop" where
  "net_get_metadata Q node = ask Q (ReqGetMetadata node) (\<lambda>r. case r of RMetadata v \<Rightarrow> Some v | _ \<Rightarrow> None)"

definition mtry :: "('s, 'e, 'a) op \<Rightarrow> ('s, 'e, 'e + 'a) op" where
  "mtry m s = (let (r, s') = m s in (Inr r, s'))"

fun metadata_each :: "'w quic \<Rightarrow> node_id list \<Rightarrow> ('w, (client_error + metadata) list) nop" where
  "metadata_each Q [] = mret []"
| "metadata_each Q (node # nodes) =
     mbind (mtry (net_get_metadata Q node)) (\<lambda>r.
     mbind (metadata_each Q nodes) (\<lambda>rs. mret (r # rs)))"

function chunks :: "nat \<Rightarrow> 'a list \<Rightarrow> 'a list list" where
  "chunks n xs = (if xs = [] \<or> n = 0 then [] else take n xs # chunks n (drop n xs))"
  by pat_completeness auto
termination by (relation "measure (\<lambda>(n, xs). length xs)") auto

declare chunks.simps [simp del]

definition batched_result :: "batched_metadata \<Rightarrow> client_error + metadata" where
  "batched_result entry = (case entry of
     Found metadata \<Rightarrow> Inr metadata | Failed code \<Rightarrow> Inl (CeServer code ''metadata unavailable''))"

definition metadata_chunk :: "'w quic \<Rightarrow> node_id list \<Rightarrow> ('w, (client_error + metadata) list) nop" where
  "metadata_chunk Q chunk = mbind (mtry (net_request Q (ReqGetMetadataBatch chunk))) (\<lambda>reply.
     case reply of
       Inr (RMetadataBatch batch, _) \<Rightarrow>
         if length batch = length chunk then mret (map batched_result batch) else metadata_each Q chunk
     | _ \<Rightarrow> metadata_each Q chunk)"

fun metadata_chunks :: "'w quic \<Rightarrow> node_id list list \<Rightarrow> ('w, (client_error + metadata) list) nop" where
  "metadata_chunks Q [] = mret []"
| "metadata_chunks Q (chunk # rest) =
     mbind (metadata_chunk Q chunk) (\<lambda>rs. mbind (metadata_chunks Q rest) (\<lambda>rs'. mret (rs @ rs')))"

definition get_metadata_batch :: "'w quic \<Rightarrow> node_id list \<Rightarrow> ('w, (client_error + metadata) list) nop" where
  "get_metadata_batch Q nodes s =
     (if nodes = [] then (Inr [], s)
      else if \<not> peer_supports_metadata_batch (nw_server_version s) then metadata_each Q nodes s
      else metadata_chunks Q (chunks MAX_METADATA_BATCH nodes) s)"

subsection \<open>Files\<close>

definition net_open_file_with_options :: "'w quic \<Rightarrow> node_id \<Rightarrow> file_open_options \<Rightarrow> ('w, opened_file) nop" where
  "net_open_file_with_options Q node options = ask Q (ReqOpenFile node options) (\<lambda>r. case r of
     RFileOpened handle revision sz \<Rightarrow> Some \<lparr>op_handle = handle, op_revision = revision, op_size = sz\<rparr>
   | _ \<Rightarrow> None)"

definition net_create_file :: "'w quic \<Rightarrow> node_id \<Rightarrow> name \<Rightarrow> u32 \<Rightarrow> file_open_options \<Rightarrow> ('w, created_file) nop" where
  "net_create_file Q parent nm mode options = ask Q (ReqCreateFile parent nm mode options) (\<lambda>r. case r of
     RFileCreated metadata handle revision sz \<Rightarrow> Some \<lparr>cr_metadata = metadata,
       cr_opened = \<lparr>op_handle = handle, op_revision = revision, op_size = sz\<rparr>\<rparr>
   | _ \<Rightarrow> None)"

definition net_read_range_versioned :: "'w quic \<Rightarrow> file_handle \<Rightarrow> u64 \<Rightarrow> u64 \<Rightarrow> ('w, range_read) nop" where
  "net_read_range_versioned Q handle offset len =
     (if len > MAX_CLIENT_READ_SIZE then mfail (CeReadTooLarge MAX_CLIENT_READ_SIZE)
      else mbind (net_request Q (ReqReadRange handle offset len)) (\<lambda>(response, recv).
        case response of
          RReadData revision response_length \<Rightarrow>
            if response_length > len \<or> response_length > MAX_CLIENT_READ_SIZE then mfail CeUnexpectedResponse
            else mbind (mlift (receive_exact response_length recv)) (\<lambda>data.
                 mret \<lparr>rr_revision = revision, rr_data = data\<rparr>)
        | _ \<Rightarrow> mfail (response_error response)))"

definition net_write_range :: "'w quic \<Rightarrow> file_handle \<Rightarrow> u64 \<Rightarrow> bytes \<Rightarrow> ('w, write_result) nop" where
  "net_write_range Q handle offset data =
     (if length data > MAX_CLIENT_WRITE_SIZE \<or> checked_add offset (length data) = None
      then mfail (CeWriteTooLarge MAX_CLIENT_WRITE_SIZE)
      else mbind (request_with_data Q (ReqWriteRange handle offset (length data)) data) (\<lambda>(response, _).
        case response of
          RWriteComplete written revision sz \<Rightarrow>
            if written \<le> length data then mret \<lparr>wr_written = written, wr_revision = revision, wr_size = sz\<rparr>
            else mfail CeUnexpectedResponse
        | _ \<Rightarrow> mfail (response_error response)))"

definition net_allocate_file :: "'w quic \<Rightarrow> file_handle \<Rightarrow> u64 \<Rightarrow> u64 \<Rightarrow> ('w, write_result) nop" where
  "net_allocate_file Q handle offset len = ask Q (ReqAllocateFile handle offset len) (\<lambda>r. case r of
     RFileAllocated revision sz \<Rightarrow> Some \<lparr>wr_written = 0, wr_revision = revision, wr_size = sz\<rparr> | _ \<Rightarrow> None)"

definition net_copy_file_range ::
  "'w quic \<Rightarrow> file_handle \<Rightarrow> u64 \<Rightarrow> file_handle \<Rightarrow> u64 \<Rightarrow> u64 \<Rightarrow> ('w, write_result) nop" where
  "net_copy_file_range Q input input_offset output output_offset len =
     ask Q (ReqCopyFileRange input input_offset output output_offset len) (\<lambda>r. case r of
       RRangeCopied copied revision sz \<Rightarrow> Some \<lparr>wr_written = copied, wr_revision = revision, wr_size = sz\<rparr>
     | _ \<Rightarrow> None)"

text \<open>The length that the server announces is not compared with the length asked for.\<close>

definition net_get_xattr :: "'w quic \<Rightarrow> node_id \<Rightarrow> name \<Rightarrow> u64 \<Rightarrow> u64 \<Rightarrow> ('w, u64 \<times> bytes) nop" where
  "net_get_xattr Q node nm offset len =
     (if len > MAX_CLIENT_READ_SIZE then mfail (CeReadTooLarge len)
      else mbind (net_request Q (ReqGetXattr node nm offset len)) (\<lambda>(response, recv).
        case response of
          RXattrData response_length total_size \<Rightarrow>
            mbind (mlift (receive_exact response_length recv)) (\<lambda>data. mret (total_size, data))
        | _ \<Rightarrow> mfail (response_error response)))"

definition net_set_xattr :: "'w quic \<Rightarrow> node_id \<Rightarrow> name \<Rightarrow> bytes \<Rightarrow> xattr_set_mode \<Rightarrow> u32 \<Rightarrow> ('w, unit) nop" where
  "net_set_xattr Q node nm val mode position =
     (if length val > MAX_CLIENT_WRITE_SIZE then mfail (CeWriteTooLarge (length val))
      else mbind (request_with_data Q (ReqSetXattr node nm mode position (length val)) val) (\<lambda>(response, _).
        case response of RXattrSet \<Rightarrow> mret () | _ \<Rightarrow> mfail (response_error response)))"

subsection \<open>The other operations\<close>

definition net_ping :: "'w quic \<Rightarrow> u64 \<Rightarrow> ('w, u64) nop" where
  "net_ping Q nonce = ask Q (ReqPing nonce) (\<lambda>r. case r of RPong n \<Rightarrow> Some n | _ \<Rightarrow> None)"

definition net_capabilities :: "'w quic \<Rightarrow> ('w, filesystem_capabilities) nop" where
  "net_capabilities Q = ask Q ReqGetCapabilities (\<lambda>r. case r of RCapabilities v \<Rightarrow> Some v | _ \<Rightarrow> None)"

definition net_stat_filesystem :: "'w quic \<Rightarrow> ('w, filesystem_stats) nop" where
  "net_stat_filesystem Q = ask Q ReqStatFilesystem (\<lambda>r. case r of RFilesystemStats v \<Rightarrow> Some v | _ \<Rightarrow> None)"

definition net_list_directory_snapshot ::
  "'w quic \<Rightarrow> node_id \<Rightarrow> ('w, u64 \<times> directory_entry list) nop" where
  "net_list_directory_snapshot Q node = ask Q (ReqListDirectory node) (\<lambda>r. case r of RDirectoryListing revision entries \<Rightarrow> Some (revision, entries) | _ \<Rightarrow> None)"

definition net_create_directory ::
  "'w quic \<Rightarrow> node_id \<Rightarrow> name \<Rightarrow> u32 \<Rightarrow> ('w, metadata) nop" where
  "net_create_directory Q parent nm mode = ask Q (ReqCreateDirectory parent nm mode) (\<lambda>r. case r of RNodeCreated v \<Rightarrow> Some v | _ \<Rightarrow> None)"

definition net_create_symlink ::
  "'w quic \<Rightarrow> node_id \<Rightarrow> name \<Rightarrow> bytes \<Rightarrow> ('w, metadata) nop" where
  "net_create_symlink Q parent nm target = ask Q (ReqCreateSymlink parent nm target) (\<lambda>r. case r of RNodeCreated v \<Rightarrow> Some v | _ \<Rightarrow> None)"

definition net_remove_node ::
  "'w quic \<Rightarrow> node_id \<Rightarrow> name \<Rightarrow> bool \<Rightarrow> ('w, unit) nop" where
  "net_remove_node Q parent nm directory = ask Q (ReqRemoveNode parent nm directory) (\<lambda>r. case r of RNodeRemoved \<Rightarrow> Some () | _ \<Rightarrow> None)"

definition net_rename_node ::
  "'w quic \<Rightarrow> node_id \<Rightarrow> name \<Rightarrow> node_id \<Rightarrow> name \<Rightarrow> rename_mode \<Rightarrow> ('w, unit) nop" where
  "net_rename_node Q parent nm new_parent new_name mode = ask Q (ReqRenameNode parent nm new_parent new_name mode) (\<lambda>r. case r of RNodeRenamed \<Rightarrow> Some () | _ \<Rightarrow> None)"

definition net_read_link :: "'w quic \<Rightarrow> node_id \<Rightarrow> ('w, bytes) nop" where
  "net_read_link Q node = ask Q (ReqReadLink node) (\<lambda>r. case r of RLinkTarget v \<Rightarrow> Some v | _ \<Rightarrow> None)"

definition net_create_hard_link ::
  "'w quic \<Rightarrow> node_id \<Rightarrow> node_id \<Rightarrow> name \<Rightarrow> ('w, metadata) nop" where
  "net_create_hard_link Q node new_parent new_name = ask Q (ReqCreateHardLink node new_parent new_name) (\<lambda>r. case r of RHardLinkCreated v \<Rightarrow> Some v | _ \<Rightarrow> None)"

definition net_create_special_node ::
  "'w quic \<Rightarrow> node_id \<Rightarrow> name \<Rightarrow> special_node_kind \<Rightarrow> u32 \<Rightarrow> u32 \<Rightarrow> u32 \<Rightarrow> ('w, metadata) nop" where
  "net_create_special_node Q parent nm kind mode major minor = ask Q (ReqCreateSpecialNode parent nm kind mode major minor) (\<lambda>r. case r of RNodeCreated v \<Rightarrow> Some v | _ \<Rightarrow> None)"

definition net_set_attributes ::
  "'w quic \<Rightarrow> node_id \<Rightarrow> file_handle option \<Rightarrow> attribute_changes \<Rightarrow> ('w, metadata) nop" where
  "net_set_attributes Q node handle changes = ask Q (ReqSetAttributes node handle changes) (\<lambda>r. case r of RAttributesChanged v \<Rightarrow> Some v | _ \<Rightarrow> None)"

definition net_flush_file ::
  "'w quic \<Rightarrow> file_handle \<Rightarrow> u64 option \<Rightarrow> ('w, unit) nop" where
  "net_flush_file Q handle own = ask Q (ReqFlushFile handle own) (\<lambda>r. case r of RFileFlushed \<Rightarrow> Some () | _ \<Rightarrow> None)"

definition net_sync_file ::
  "'w quic \<Rightarrow> file_handle \<Rightarrow> bool \<Rightarrow> ('w, unit) nop" where
  "net_sync_file Q handle data_only = ask Q (ReqSyncFile handle data_only) (\<lambda>r. case r of RFileSynced \<Rightarrow> Some () | _ \<Rightarrow> None)"

definition net_sync_directory :: "'w quic \<Rightarrow> node_id \<Rightarrow> ('w, unit) nop" where
  "net_sync_directory Q node = ask Q (ReqSyncDirectory node) (\<lambda>r. case r of RDirectorySynced \<Rightarrow> Some () | _ \<Rightarrow> None)"

definition net_list_xattrs ::
  "'w quic \<Rightarrow> node_id \<Rightarrow> ('w, name list) nop" where
  "net_list_xattrs Q node = ask Q (ReqListXattrs node) (\<lambda>r. case r of RXattrNames v \<Rightarrow> Some v | _ \<Rightarrow> None)"

definition net_remove_xattr ::
  "'w quic \<Rightarrow> node_id \<Rightarrow> name \<Rightarrow> ('w, unit) nop" where
  "net_remove_xattr Q node nm = ask Q (ReqRemoveXattr node nm) (\<lambda>r. case r of RXattrRemoved \<Rightarrow> Some () | _ \<Rightarrow> None)"

definition net_seek_file ::
  "'w quic \<Rightarrow> file_handle \<Rightarrow> u64 \<Rightarrow> seek_whence \<Rightarrow> ('w, u64) nop" where
  "net_seek_file Q handle offset whence = ask Q (ReqSeekFile handle offset whence) (\<lambda>r. case r of RFileSeeked v \<Rightarrow> Some v | _ \<Rightarrow> None)"

definition net_safe_ioctl ::
  "'w quic \<Rightarrow> file_handle \<Rightarrow> safe_ioctl \<Rightarrow> ('w, u64) nop" where
  "net_safe_ioctl Q handle operation = ask Q (ReqSafeIoctl handle operation) (\<lambda>r. case r of RIoctlResult v \<Rightarrow> Some v | _ \<Rightarrow> None)"

definition net_map_block ::
  "'w quic \<Rightarrow> node_id \<Rightarrow> u32 \<Rightarrow> u64 \<Rightarrow> ('w, u64) nop" where
  "net_map_block Q node block_size block = ask Q (ReqMapBlock node block_size block) (\<lambda>r. case r of RBlockMapped v \<Rightarrow> Some v | _ \<Rightarrow> None)"

definition net_exchange_data ::
  "'w quic \<Rightarrow> node_id \<Rightarrow> name \<Rightarrow> node_id \<Rightarrow> name \<Rightarrow> u64 \<Rightarrow> ('w, unit) nop" where
  "net_exchange_data Q parent nm new_parent new_name options = ask Q (ReqExchangeData parent nm new_parent new_name options) (\<lambda>r. case r of RDataExchanged \<Rightarrow> Some () | _ \<Rightarrow> None)"

definition net_set_volume_name :: "'w quic \<Rightarrow> name \<Rightarrow> ('w, unit) nop" where
  "net_set_volume_name Q nm = ask Q (ReqSetVolumeName nm) (\<lambda>r. case r of RVolumeNameSet \<Rightarrow> Some () | _ \<Rightarrow> None)"

definition net_forget_nodes ::
  "'w quic \<Rightarrow> node_id list \<Rightarrow> ('w, unit) nop" where
  "net_forget_nodes Q nodes = ask Q (ReqForgetNodes nodes) (\<lambda>r. case r of RNodesForgotten \<Rightarrow> Some () | _ \<Rightarrow> None)"

definition net_get_lock ::
  "'w quic \<Rightarrow> file_handle \<Rightarrow> file_lock \<Rightarrow> ('w, file_lock option) nop" where
  "net_get_lock Q handle lock = ask Q (ReqGetLock handle lock) (\<lambda>r. case r of RLockStatus v \<Rightarrow> Some v | _ \<Rightarrow> None)"

definition net_set_lock ::
  "'w quic \<Rightarrow> file_handle \<Rightarrow> file_lock \<Rightarrow> bool \<Rightarrow> ('w, unit) nop" where
  "net_set_lock Q handle lock wait = ask Q (ReqSetLock handle lock wait) (\<lambda>r. case r of RLockUpdated \<Rightarrow> Some () | _ \<Rightarrow> None)"

definition net_close_file :: "'w quic \<Rightarrow> file_handle \<Rightarrow> ('w, unit) nop" where
  "net_close_file Q handle = ask Q (ReqCloseFile handle) (\<lambda>r. case r of RFileClosed \<Rightarrow> Some () | _ \<Rightarrow> None)"

subsection \<open>Pairing\<close>

text \<open>
  \<^verbatim>\<open>PairingClient::pair\<close> with \<^verbatim>\<open>verify_pairing\<close>. The certificate fingerprint that the TLS handshake
  presented and the random nonce are arguments; a response of another major version or another
  request is a transport error here.
\<close>

definition pairing_request :: "'w quic \<Rightarrow> uuid \<Rightarrow> bytes \<Rightarrow> bytes \<Rightarrow> ('w, response) nop" where
  "pairing_request Q pairing_id client_nonce given =
     mbind (open_stream Q (ReqPair pairing_id client_nonce given) []) (\<lambda>(rid, stream).
       case rs_frames stream of
         [] \<Rightarrow> mfail (CeTransport ''stream ended'')
       | frame # _ \<Rightarrow>
           if version_major (env_version frame) \<noteq> PROTOCOL_MAJOR
           then mfail (CeTransport ''unsupported response protocol major version'')
           else if env_request_id frame \<noteq> rid
           then mfail (CeTransport ''pairing response request identifier did not match'')
           else mret (env_message frame))"

definition verify_pairing :: "'w quic \<Rightarrow> auth_env \<Rightarrow> bytes \<Rightarrow> bytes \<Rightarrow> uuid \<Rightarrow> bytes \<Rightarrow> ('w, bytes) nop" where
  "verify_pairing Q E presented nonce pairing_id pairing_code =
     (case parse_pairing_code E pairing_code of
        Inl _ \<Rightarrow> mfail (CeServer Unauthenticated ''invalid pairing code'')
      | Inr secret \<Rightarrow>
          mbind (pairing_request Q pairing_id nonce (client_proof E secret pairing_id presented nonce)) (\<lambda>response.
            case response of
              RPairingProof certificate_fingerprint given \<Rightarrow>
                if presented \<noteq> certificate_fingerprint then mfail CeUnexpectedResponse
                else if \<not> verify_server_proof E secret pairing_id certificate_fingerprint nonce given
                then mfail (CeServer Unauthenticated ''pairing code did not authenticate this server'')
                else mret certificate_fingerprint
            | _ \<Rightarrow> mfail (response_error response)))"

end
