(* ===== verification/Daemon_Service.thy ===== *)
theory Daemon_Service
  imports Auth_Model Protocol_Frames
begin

text \<open>
  Crate \<^verbatim>\<open>servers/linux/server-daemon\<close>: one request of one connection, from the decoded envelope
  to the frames of the reply.

  \<^item> \<^verbatim>\<open>ExportSession\<close> is the interface \<open>export_api\<close> on an arbitrary export state; the parts of it
    that do not touch the host file system are modelled in the \<open>Server_\<close> theories.
  \<^item> A reply is the list of envelopes the daemon writes and the raw bytes after them; \<open>None\<close> is a
    stream that is dropped without a reply. A frame is written when its envelope can be
    encoded, so serialisation is a parameter here as in \<open>Protocol_Frames\<close>.
  \<^item> The numbers that the code formats into an error message are left out of it.
  \<^item> Here a request runs as one step: it takes its permits from what the other requests have left,
    runs, and gives them back. \<open>Daemon_Tasks\<close> runs the stages of many requests interleaved, from the
    same guards, reservations and calls.
\<close>

subsection \<open>Authentication rate limit\<close>

type_synonym instant = int
type_synonym peer = nat

definition AUTH_RATE_WINDOW :: instant where "AUTH_RATE_WINDOW = 60"
definition MAX_AUTH_RATE_BUCKETS :: usize where "MAX_AUTH_RATE_BUCKETS = 4096"

record auth_rate_limiter =
  rl_attempts_per_peer :: "(peer \<times> instant list) list"
  rl_maximum_attempts :: usize

definition limiter_new :: "usize \<Rightarrow> auth_rate_limiter" where
  "limiter_new maximum_attempts = \<lparr>rl_attempts_per_peer = [], rl_maximum_attempts = maximum_attempts\<rparr>"

text \<open>\<^verbatim>\<open>now.checked_sub(..).unwrap_or(now)\<close>; \<open>floor\<close> is the smallest instant the platform can represent.\<close>

definition cutoff_at :: "instant \<Rightarrow> instant \<Rightarrow> instant" where
  "cutoff_at floor now = (if now - AUTH_RATE_WINDOW \<ge> floor then now - AUTH_RATE_WINDOW else now)"

definition expire :: "instant \<Rightarrow> instant list \<Rightarrow> instant list" where
  "expire cutoff attempts = dropWhile (\<lambda>attempt. attempt \<le> cutoff) attempts"

definition purge :: "instant \<Rightarrow> (peer \<times> instant list) list \<Rightarrow> (peer \<times> instant list) list" where
  "purge cutoff m = filter (\<lambda>(_, attempts). attempts \<noteq> []) (map (\<lambda>(p, attempts). (p, expire cutoff attempts)) m)"

definition allow :: "instant \<Rightarrow> instant \<Rightarrow> peer \<Rightarrow> auth_rate_limiter \<Rightarrow> bool \<times> auth_rate_limiter" where
  "allow floor now p l =
     (let cutoff = cutoff_at floor now;
          full = (\<not> contains_key (rl_attempts_per_peer l) p \<and>
                  length (rl_attempts_per_peer l) \<ge> MAX_AUTH_RATE_BUCKETS);
          m = (if full then purge cutoff (rl_attempts_per_peer l) else rl_attempts_per_peer l)
      in if full \<and> length m \<ge> MAX_AUTH_RATE_BUCKETS then (False, l\<lparr>rl_attempts_per_peer := m\<rparr>)
         else let attempts = expire cutoff (case map_of m p of None \<Rightarrow> [] | Some a \<Rightarrow> a) in
           if length attempts \<ge> rl_maximum_attempts l
           then (False, l\<lparr>rl_attempts_per_peer := AList.update p attempts m\<rparr>)
           else (True, l\<lparr>rl_attempts_per_peer := AList.update p (attempts @ [now]) m\<rparr>))"

subsection \<open>State\<close>

record connection_auth =
  ca_authenticated :: bool
  ca_failed_attempts :: u8

definition connection_auth_default :: connection_auth where
  "connection_auth_default = \<lparr>ca_authenticated = False, ca_failed_attempts = 0\<rparr>"

type_synonym ('x, 'a) xop = "('x, server_error, 'a) op"

record 'x export_api =
  ex_capabilities :: "'x \<Rightarrow> filesystem_capabilities"
  ex_set_write_authorized :: "bool \<Rightarrow> 'x \<Rightarrow> 'x"
  ex_stat_filesystem :: "('x, filesystem_stats) xop"
  ex_metadata :: "node_id \<Rightarrow> ('x, metadata) xop"
  ex_list_with_revision :: "node_id \<Rightarrow> ('x, u64 \<times> directory_entry list) xop"
  ex_directory_view :: "node_id \<Rightarrow> directory_view_options \<Rightarrow> ('x, directory_view) xop"
  ex_open :: "node_id \<Rightarrow> file_open_options \<Rightarrow> ('x, file_handle \<times> u64 \<times> u64) xop"
  ex_create_file :: "node_id \<Rightarrow> name \<Rightarrow> u32 \<Rightarrow> file_open_options \<Rightarrow> ('x, metadata \<times> file_handle \<times> u64 \<times> u64) xop"
  ex_create_directory :: "node_id \<Rightarrow> name \<Rightarrow> u32 \<Rightarrow> ('x, metadata) xop"
  ex_create_symlink :: "node_id \<Rightarrow> name \<Rightarrow> bytes \<Rightarrow> ('x, metadata) xop"
  ex_remove_node :: "node_id \<Rightarrow> name \<Rightarrow> bool \<Rightarrow> ('x, unit) xop"
  ex_rename_node :: "node_id \<Rightarrow> name \<Rightarrow> node_id \<Rightarrow> name \<Rightarrow> rename_mode \<Rightarrow> ('x, unit) xop"
  ex_create_hard_link :: "node_id \<Rightarrow> node_id \<Rightarrow> name \<Rightarrow> ('x, metadata) xop"
  ex_create_special_node :: "node_id \<Rightarrow> name \<Rightarrow> special_node_kind \<Rightarrow> u32 \<Rightarrow> u32 \<Rightarrow> u32 \<Rightarrow> ('x, metadata) xop"
  ex_read_link :: "node_id \<Rightarrow> ('x, bytes) xop"
  ex_set_attributes :: "node_id \<Rightarrow> file_handle option \<Rightarrow> attribute_changes \<Rightarrow> ('x, metadata) xop"
  ex_read :: "file_handle \<Rightarrow> u64 \<Rightarrow> u64 \<Rightarrow> ('x, u64 \<times> bytes) xop"
  ex_write_owned :: "file_handle \<Rightarrow> u64 \<Rightarrow> bytes \<Rightarrow> ('x, u64 \<times> u64 \<times> u64) xop"
  ex_flush :: "file_handle \<Rightarrow> u64 option \<Rightarrow> ('x, unit) xop"
  ex_sync :: "file_handle \<Rightarrow> bool \<Rightarrow> ('x, unit) xop"
  ex_sync_directory :: "node_id \<Rightarrow> ('x, unit) xop"
  ex_allocate :: "file_handle \<Rightarrow> u64 \<Rightarrow> u64 \<Rightarrow> ('x, u64 \<times> u64) xop"
  ex_get_xattr :: "node_id \<Rightarrow> name \<Rightarrow> u64 \<Rightarrow> u64 \<Rightarrow> ('x, u64 \<times> bytes) xop"
  ex_set_xattr :: "node_id \<Rightarrow> name \<Rightarrow> bytes \<Rightarrow> xattr_set_mode \<Rightarrow> u32 \<Rightarrow> ('x, unit) xop"
  ex_list_xattrs :: "node_id \<Rightarrow> ('x, name list) xop"
  ex_remove_xattr :: "node_id \<Rightarrow> name \<Rightarrow> ('x, unit) xop"
  ex_copy_file_range :: "file_handle \<Rightarrow> u64 \<Rightarrow> file_handle \<Rightarrow> u64 \<Rightarrow> u64 \<Rightarrow> ('x, u64 \<times> u64 \<times> u64) xop"
  ex_seek_file :: "file_handle \<Rightarrow> u64 \<Rightarrow> seek_whence \<Rightarrow> ('x, u64) xop"
  ex_safe_ioctl :: "file_handle \<Rightarrow> safe_ioctl \<Rightarrow> ('x, u64) xop"
  ex_map_block :: "node_id \<Rightarrow> u32 \<Rightarrow> u64 \<Rightarrow> ('x, u64) xop"
  ex_exchange_data :: "node_id \<Rightarrow> name \<Rightarrow> node_id \<Rightarrow> name \<Rightarrow> u64 \<Rightarrow> ('x, unit) xop"
  ex_set_volume_name :: "name \<Rightarrow> ('x, unit) xop"
  ex_forget_nodes :: "node_id list \<Rightarrow> ('x, unit) xop"
  ex_get_lock :: "file_handle \<Rightarrow> file_lock \<Rightarrow> ('x, file_lock option) xop"
  ex_set_lock :: "file_handle \<Rightarrow> file_lock \<Rightarrow> bool \<Rightarrow> ('x, unit) xop"
  ex_close :: "file_handle \<Rightarrow> ('x, unit) xop"

record 'x daemon_env =
  de_export :: "'x export_api"
  de_auth :: auth_env
  de_fingerprint :: bytes
  de_peer :: peer
  de_instant_floor :: instant
  de_ser :: "response envelope \<Rightarrow> string + bytes"
  de_ser_entry :: "directory_view_entry \<Rightarrow> string + bytes"

record 'x daemon =
  dm_export :: 'x
  dm_files :: auth_fs
  dm_auth :: connection_auth
  dm_limiter :: auth_rate_limiter
  dm_auth_permits :: nat
  dm_read_permits :: nat
  dm_write_permits :: nat
  dm_connection_write_permits :: nat

text \<open>The two clocks as a request reads them.\<close>

record clocks =
  ck_instant :: instant
  ck_unix :: "u64 option"

datatype outcome = Respond response | RespondData response bytes | RespondView directory_view | NoReply

subsection \<open>Errors\<close>

definition error_reply :: "error_code \<Rightarrow> string \<Rightarrow> response" where
  "error_reply code message = RError \<lparr>pe_code = code, pe_message = message\<rparr>"

definition authentication_error :: "string \<Rightarrow> response" where
  "authentication_error message = error_reply Unauthenticated message"

definition internal_error :: response where
  "internal_error = error_reply Internal ''internal server error''"

subsection \<open>Permits\<close>

text \<open>
  A semaphore is its number of free permits. \<^verbatim>\<open>try_acquire\<close> fails when they do not suffice, \<^verbatim>\<open>acquire\<close>
  waits; dropping a permit adds it back.
\<close>

definition take_permits :: "nat \<Rightarrow> nat \<Rightarrow> nat option" where
  "take_permits n free = (if n \<le> free then Some (free - n) else None)"

definition acquire_read :: "u64 \<Rightarrow> 'x daemon \<Rightarrow> 'x daemon option" where
  "acquire_read n d = map_option (\<lambda>free. d\<lparr>dm_read_permits := free\<rparr>) (take_permits n (dm_read_permits d))"

definition drop_read :: "u64 \<Rightarrow> 'x daemon \<Rightarrow> 'x daemon" where
  "drop_read n d = d\<lparr>dm_read_permits := dm_read_permits d + n\<rparr>"

text \<open>
  The reservation of a request body: the server's budget first, then the connection's; when the
  second is refused the first permit is dropped.
\<close>

definition reserve_write :: "u64 \<Rightarrow> 'x daemon \<Rightarrow> (response + unit) \<times> 'x daemon" where
  "reserve_write n d = (case take_permits n (dm_write_permits d) of
     None \<Rightarrow> (Inl (error_reply Busy ''server write capacity is busy; retry later''), d)
   | Some free \<Rightarrow>
       let d1 = d\<lparr>dm_write_permits := free\<rparr> in
       (case take_permits n (dm_connection_write_permits d1) of
          None \<Rightarrow> (Inl (error_reply Busy ''connection write capacity is busy; retry later''),
            d1\<lparr>dm_write_permits := dm_write_permits d1 + n\<rparr>)
        | Some left \<Rightarrow> (Inr (), d1\<lparr>dm_connection_write_permits := left\<rparr>)))"

definition drop_write :: "u64 \<Rightarrow> 'x daemon \<Rightarrow> 'x daemon" where
  "drop_write n d = d\<lparr>dm_write_permits := dm_write_permits d + n,
     dm_connection_write_permits := dm_connection_write_permits d + n\<rparr>"

subsection \<open>Pairing and authentication\<close>

text \<open>\<open>dm_files\<close> as the state of an operation of the authentication crate.\<close>

definition on_files :: "'a aop \<Rightarrow> 'x daemon \<Rightarrow> (auth_error + 'a) \<times> 'x daemon" where
  "on_files m d = (let (r, fs) = m (dm_files d) in (r, d\<lparr>dm_files := fs\<rparr>))"

text \<open>HMAC takes keys of every length, so \<^verbatim>\<open>server_proof\<close> has a result and the branch of its error is left out.\<close>

definition handle_pair :: "'x daemon_env \<Rightarrow> clocks \<Rightarrow> uuid \<Rightarrow> bytes \<Rightarrow> bytes \<Rightarrow> 'x daemon \<Rightarrow> response \<times> 'x daemon" where
  "handle_pair D ck pairing_id client_nonce given d =
     (case on_files (load_pairing (de_auth D) (ck_unix ck) pairing_id) d of
        (Inl _, d1) \<Rightarrow> (authentication_error ''pairing session is unavailable'', d1)
      | (Inr secret, d1) \<Rightarrow>
          if verify_client_proof (de_auth D) secret pairing_id (de_fingerprint D) client_nonce given
          then (case on_files (consume_pairing pairing_id) d1 of
              (Inr _, d2) \<Rightarrow> (RPairingProof (de_fingerprint D)
                 (server_proof (de_auth D) secret pairing_id (de_fingerprint D) client_nonce), d2)
            | (Inl _, d2) \<Rightarrow> (authentication_error ''pairing session is unavailable'', d2))
          else (authentication_error ''pairing code was not accepted'', d1))"

definition MAX_FAILED_ATTEMPTS :: u8 where
  "MAX_FAILED_ATTEMPTS = 5"

definition count_failure :: "'x daemon \<Rightarrow> 'x daemon" where
  "count_failure d = d\<lparr>dm_auth := (dm_auth d)\<lparr>ca_failed_attempts := min (ca_failed_attempts (dm_auth d) + 1) 255\<rparr>\<rparr>"

definition verify_login :: "'x daemon_env \<Rightarrow> bytes \<Rightarrow> bytes \<Rightarrow> 'x daemon \<Rightarrow> response \<times> 'x daemon" where
  "verify_login D username password d =
     (case on_files (verify_user_authorization (de_auth D) username password) d of
        (Inr (Some authorization), d1) \<Rightarrow>
          (RAuthenticateAck,
           d1\<lparr>dm_export := ex_set_write_authorized (de_export D) (ua_writable authorization) (dm_export d1),
              dm_auth := (dm_auth d1)\<lparr>ca_authenticated := True\<rparr>\<rparr>)
      | (Inr None, d1) \<Rightarrow> (authentication_error ''invalid username or password'', count_failure d1)
      | (Inl _, d1) \<Rightarrow> (internal_error, d1))"

definition handle_authenticate ::
  "'x daemon_env \<Rightarrow> clocks \<Rightarrow> bytes \<Rightarrow> bytes \<Rightarrow> 'x daemon \<Rightarrow> response \<times> 'x daemon" where
  "handle_authenticate D ck username password d =
     (if ca_authenticated (dm_auth d)
      then (error_reply InvalidRequest ''connection is already authenticated'', d)
      else if ca_failed_attempts (dm_auth d) \<ge> MAX_FAILED_ATTEMPTS
      then (authentication_error ''too many failed authentication attempts; reconnect to try again'', d)
      else if \<not> isOk (validate_username username) \<or> password = [] \<or> length password > MAX_PASSWORD_LENGTH
      then (authentication_error ''invalid username or password'', count_failure d)
      else let (permitted, limiter) = allow (de_instant_floor D) (ck_instant ck) (de_peer D) (dm_limiter d);
               d1 = d\<lparr>dm_limiter := limiter\<rparr> in
        if \<not> permitted
        then (authentication_error ''authentication rate limit exceeded; retry later'', d1)
        else (case take_permits 1 (dm_auth_permits d1) of
            None \<Rightarrow> (error_reply Timeout ''authentication capacity is busy; retry later'', d1)
          | Some free \<Rightarrow>
              let (r, d2) = verify_login D username password (d1\<lparr>dm_auth_permits := free\<rparr>)
              in (r, d2\<lparr>dm_auth_permits := dm_auth_permits d2 + 1\<rparr>)))"

subsection \<open>Reads and writes\<close>

text \<open>
  Each of the four requests that carry file bytes has a guard, which answers a request it refuses,
  and a call, which runs once the bytes are reserved.
\<close>

definition read_range_guard :: "'x daemon_env \<Rightarrow> u64 \<Rightarrow> u64 \<Rightarrow> 'x daemon \<Rightarrow> response option" where
  "read_range_guard D offset len d =
     (if len > cap_max_read_size (ex_capabilities (de_export D) (dm_export d)) \<or> checked_add offset len = None
      then Some (error_reply TooLarge ''read range exceeds the configured limit'')
      else if len > U32_MAX then Some (error_reply TooLarge ''read length exceeds the supported range'')
      else None)"

definition read_range_call ::
  "'x daemon_env \<Rightarrow> file_handle \<Rightarrow> u64 \<Rightarrow> u64 \<Rightarrow> 'x daemon \<Rightarrow> outcome \<times> 'x daemon" where
  "read_range_call D handle offset len d = (case ex_read (de_export D) handle offset len (dm_export d) of
     (Inr (revision, data), x) \<Rightarrow> (RespondData (RReadData revision (length data)) data, d\<lparr>dm_export := x\<rparr>)
   | (Inl e, x) \<Rightarrow> (Respond (RError (protocol_of e)), d\<lparr>dm_export := x\<rparr>))"

definition get_xattr_guard :: "'x daemon_env \<Rightarrow> u64 \<Rightarrow> u64 \<Rightarrow> 'x daemon \<Rightarrow> response option" where
  "get_xattr_guard D offset len d =
     (if len > cap_max_read_size (ex_capabilities (de_export D) (dm_export d)) \<or> checked_add offset len = None
      then Some (error_reply TooLarge ''xattr read exceeds the configured limit'')
      else if len > U32_MAX then Some (error_reply TooLarge ''xattr read exceeds the supported range'')
      else None)"

definition get_xattr_call ::
  "'x daemon_env \<Rightarrow> node_id \<Rightarrow> name \<Rightarrow> u64 \<Rightarrow> u64 \<Rightarrow> 'x daemon \<Rightarrow> outcome \<times> 'x daemon" where
  "get_xattr_call D node nm offset len d = (case ex_get_xattr (de_export D) node nm offset len (dm_export d) of
     (Inr (total_size, data), x) \<Rightarrow> (RespondData (RXattrData (length data) total_size) data, d\<lparr>dm_export := x\<rparr>)
   | (Inl e, x) \<Rightarrow> (Respond (RError (protocol_of e)), d\<lparr>dm_export := x\<rparr>))"

definition write_range_guard :: "'x daemon_env \<Rightarrow> u64 \<Rightarrow> u64 \<Rightarrow> 'x daemon \<Rightarrow> response option" where
  "write_range_guard D offset len d =
     (let capabilities = ex_capabilities (de_export D) (dm_export d) in
      if \<not> cap_writable capabilities then Some (error_reply ReadOnlyFs ''the export is read-only'')
      else if len > cap_max_write_size capabilities \<or> checked_add offset len = None
      then Some (error_reply TooLarge ''write range exceeds the configured limit'')
      else if len > U32_MAX then Some (error_reply TooLarge ''write length exceeds the supported range'')
      else None)"

definition write_range_call ::
  "'x daemon_env \<Rightarrow> file_handle \<Rightarrow> u64 \<Rightarrow> bytes \<Rightarrow> 'x daemon \<Rightarrow> outcome \<times> 'x daemon" where
  "write_range_call D handle offset data d = (case ex_write_owned (de_export D) handle offset data (dm_export d) of
     (Inr (written, revision, sz), x) \<Rightarrow> (Respond (RWriteComplete written revision sz), d\<lparr>dm_export := x\<rparr>)
   | (Inl e, x) \<Rightarrow> (Respond (RError (protocol_of e)), d\<lparr>dm_export := x\<rparr>))"

definition set_xattr_guard :: "'x daemon_env \<Rightarrow> u64 \<Rightarrow> 'x daemon \<Rightarrow> response option" where
  "set_xattr_guard D len d =
     (let capabilities = ex_capabilities (de_export D) (dm_export d) in
      if \<not> cap_writable capabilities then Some (error_reply ReadOnlyFs ''the export is read-only'')
      else if len > cap_max_write_size capabilities
      then Some (error_reply TooLarge ''xattr write exceeds the configured limit'')
      else if len > U32_MAX then Some (error_reply TooLarge ''xattr write exceeds the supported range'')
      else None)"

definition set_xattr_call ::
  "'x daemon_env \<Rightarrow> node_id \<Rightarrow> name \<Rightarrow> xattr_set_mode \<Rightarrow> u32 \<Rightarrow> bytes \<Rightarrow> 'x daemon \<Rightarrow> outcome \<times> 'x daemon" where
  "set_xattr_call D node nm mode position data d =
     (case ex_set_xattr (de_export D) node nm data mode position (dm_export d) of
        (Inr _, x) \<Rightarrow> (Respond RXattrSet, d\<lparr>dm_export := x\<rparr>)
      | (Inl e, x) \<Rightarrow> (Respond (RError (protocol_of e)), d\<lparr>dm_export := x\<rparr>))"

text \<open>
  A read holds its permits until its reply is written. One that has to wait for them is not
  answered within the step, in which nobody gives permits back (\<open>Daemon_Tasks\<close> has the wait).
\<close>

definition reserve_read :: "u64 \<Rightarrow> ('x daemon \<Rightarrow> outcome \<times> 'x daemon) \<Rightarrow> 'x daemon \<Rightarrow> outcome \<times> 'x daemon" where
  "reserve_read len m d = (case acquire_read len d of
     None \<Rightarrow> (NoReply, d)
   | Some d1 \<Rightarrow> let (r, d2) = m d1 in (r, drop_read len d2))"

text \<open>
  A body is only read when both write budgets have room for it. A body that is shorter than
  announced ends the request without a reply.
\<close>

definition receive_body ::
  "u64 \<Rightarrow> bytes \<Rightarrow> (bytes \<Rightarrow> 'x daemon \<Rightarrow> outcome \<times> 'x daemon) \<Rightarrow> 'x daemon \<Rightarrow> outcome \<times> 'x daemon" where
  "receive_body len recv m d = (case reserve_write len d of
     (Inl busy, d1) \<Rightarrow> (Respond busy, d1)
   | (Inr _, d1) \<Rightarrow>
       if length recv < len then (NoReply, drop_write len d1)
       else let (r, d2) = m (take len recv) d1 in (r, drop_write len d2))"

definition handle_read_range ::
  "'x daemon_env \<Rightarrow> file_handle \<Rightarrow> u64 \<Rightarrow> u64 \<Rightarrow> 'x daemon \<Rightarrow> outcome \<times> 'x daemon" where
  "handle_read_range D handle offset len d = (case read_range_guard D offset len d of
     Some refusal \<Rightarrow> (Respond refusal, d)
   | None \<Rightarrow> reserve_read len (read_range_call D handle offset len) d)"

definition handle_get_xattr ::
  "'x daemon_env \<Rightarrow> node_id \<Rightarrow> name \<Rightarrow> u64 \<Rightarrow> u64 \<Rightarrow> 'x daemon \<Rightarrow> outcome \<times> 'x daemon" where
  "handle_get_xattr D node nm offset len d = (case get_xattr_guard D offset len d of
     Some refusal \<Rightarrow> (Respond refusal, d)
   | None \<Rightarrow> reserve_read len (get_xattr_call D node nm offset len) d)"

definition handle_write_range ::
  "'x daemon_env \<Rightarrow> file_handle \<Rightarrow> u64 \<Rightarrow> u64 \<Rightarrow> bytes \<Rightarrow> 'x daemon \<Rightarrow> outcome \<times> 'x daemon" where
  "handle_write_range D handle offset len recv d = (case write_range_guard D offset len d of
     Some refusal \<Rightarrow> (Respond refusal, d)
   | None \<Rightarrow> receive_body len recv (write_range_call D handle offset) d)"

definition handle_set_xattr :: "'x daemon_env \<Rightarrow> node_id \<Rightarrow> name \<Rightarrow> xattr_set_mode \<Rightarrow> u32 \<Rightarrow> u64 \<Rightarrow> bytes
    \<Rightarrow> 'x daemon \<Rightarrow> outcome \<times> 'x daemon" where
  "handle_set_xattr D node nm mode position len recv d = (case set_xattr_guard D len d of
     Some refusal \<Rightarrow> (Respond refusal, d)
   | None \<Rightarrow> receive_body len recv (set_xattr_call D node nm mode position) d)"

subsection \<open>Metadata batches and listings\<close>

fun batch_results :: "'x export_api \<Rightarrow> node_id list \<Rightarrow> 'x \<Rightarrow> batched_metadata list \<times> 'x" where
  "batch_results X [] x = ([], x)"
| "batch_results X (node # nodes) x =
     (let (r, x1) = ex_metadata X node x;
          entry = (case r of Inr metadata \<Rightarrow> Found metadata | Inl e \<Rightarrow> Failed (pe_code (protocol_of e)));
          (rest, x2) = batch_results X nodes x1
      in (entry # rest, x2))"

definition handle_metadata_batch :: "'x daemon_env \<Rightarrow> node_id list \<Rightarrow> 'x daemon \<Rightarrow> response \<times> 'x daemon" where
  "handle_metadata_batch D nodes d =
     (if length nodes > MAX_METADATA_BATCH
      then (error_reply TooLarge ''metadata batch exceeds the limit'', d)
      else let (results, x) = batch_results (de_export D) nodes (dm_export d)
           in (RMetadataBatch results, d\<lparr>dm_export := x\<rparr>))"

definition response_envelope :: "request_id \<Rightarrow> response \<Rightarrow> response envelope" where
  "response_envelope rid message =
     \<lparr>env_version = PROTOCOL_VERSION, env_request_id = rid, env_message = message\<rparr>"

definition directory_listing_response ::
  "'x daemon_env \<Rightarrow> request_id \<Rightarrow> u64 \<Rightarrow> directory_entry list \<Rightarrow> response" where
  "directory_listing_response D rid revision entries =
     (if isOk (encode (de_ser D) (response_envelope rid (RDirectoryListing revision entries)))
      then RDirectoryListing revision entries
      else error_reply TooLarge ''directory listing exceeds the control-frame limit'')"

subsection \<open>Directory views\<close>

definition write_response :: "'x daemon_env \<Rightarrow> request_id \<Rightarrow> response \<Rightarrow> codec_error + response envelope list" where
  "write_response D rid message =
     ebind (encode (de_ser D) (response_envelope rid message)) (\<lambda>_. Inr [response_envelope rid message])"

text \<open>
  An entry that alone exceeds the chunk budget loses its inline values, and then its attribute
  names; the new length is the second component.
\<close>

definition shed_entry :: "'x daemon_env \<Rightarrow> directory_view_entry \<Rightarrow> codec_error + directory_view_entry \<times> usize" where
  "shed_entry D entry =
     ebind (encoded_len (de_ser_entry D) entry) (\<lambda>len.
       if len > DIRECTORY_VIEW_CHUNK_BUDGET
       then let entry1 = entry\<lparr>ve_xattrs := map_option (\<lambda>xs. xs\<lparr>xs_inline_values := []\<rparr>) (ve_xattrs entry)\<rparr> in
         ebind (encoded_len (de_ser_entry D) entry1) (\<lambda>len1.
           if len1 > DIRECTORY_VIEW_CHUNK_BUDGET
           then let entry2 = entry1\<lparr>ve_xattrs := None\<rparr> in
             ebind (encoded_len (de_ser_entry D) entry2) (\<lambda>len2. Inr (entry2, len2))
           else Inr (entry1, len1))
       else Inr (entry, len))"

text \<open>The loop over the entries: the frames it writes, from the open chunk and its size.\<close>

fun stream_chunks :: "'x daemon_env \<Rightarrow> request_id \<Rightarrow> directory_view_entry list \<Rightarrow> usize
    \<Rightarrow> directory_view_entry list \<Rightarrow> codec_error + response envelope list" where
  "stream_chunks D rid chunk chunk_bytes [] =
     (if chunk \<noteq> [] then write_response D rid (RDirectoryViewChunk chunk) else Inr [])"
| "stream_chunks D rid chunk chunk_bytes (entry0 # entries) =
     ebind (shed_entry D entry0) (\<lambda>(entry, len).
       if chunk \<noteq> [] \<and> chunk_bytes + len > DIRECTORY_VIEW_CHUNK_BUDGET
       then ebind (write_response D rid (RDirectoryViewChunk chunk)) (\<lambda>frames.
            ebind (stream_chunks D rid [entry] len entries) (\<lambda>rest. Inr (frames @ rest)))
       else stream_chunks D rid (chunk @ [entry]) (chunk_bytes + len) entries)"

definition stream_directory_view ::
  "'x daemon_env \<Rightarrow> request_id \<Rightarrow> directory_view \<Rightarrow> codec_error + response envelope list" where
  "stream_directory_view D rid view =
     ebind (write_response D rid (RDirectoryViewStart (dv_revision view) (dv_directory view) (dv_parent view)
              (dv_xattrs view) (length (dv_entries view)))) (\<lambda>start.
     ebind (stream_chunks D rid [] 0 (dv_entries view)) (\<lambda>chunks.
     ebind (write_response D rid RDirectoryViewEnd) (\<lambda>last. Inr (start @ chunks @ last))))"

definition write_directory_view ::
  "'x daemon_env \<Rightarrow> request_id \<Rightarrow> directory_view \<Rightarrow> codec_error + response envelope list" where
  "write_directory_view D rid view = (case write_response D rid (RDirectoryView view) of
     Inr frames \<Rightarrow> Inr frames
   | Inl (CTooLarge _) \<Rightarrow> stream_directory_view D rid view
   | Inl e \<Rightarrow> Inl e)"

subsection \<open>The dispatcher\<close>

definition serve :: "('x, 'a) xop \<Rightarrow> ('a \<Rightarrow> response) \<Rightarrow> 'x daemon \<Rightarrow> outcome \<times> 'x daemon" where
  "serve m ok d = (case m (dm_export d) of
     (Inr v, x) \<Rightarrow> (Respond (ok v), d\<lparr>dm_export := x\<rparr>)
   | (Inl e, x) \<Rightarrow> (Respond (RError (protocol_of e)), d\<lparr>dm_export := x\<rparr>))"

definition serve_view ::
  "'x daemon_env \<Rightarrow> node_id \<Rightarrow> directory_view_options \<Rightarrow> 'x daemon \<Rightarrow> outcome \<times> 'x daemon" where
  "serve_view D node options d = (case ex_directory_view (de_export D) node options (dm_export d) of
     (Inr view, x) \<Rightarrow> (RespondView view, d\<lparr>dm_export := x\<rparr>)
   | (Inl e, x) \<Rightarrow> (Respond (RError (protocol_of e)), d\<lparr>dm_export := x\<rparr>))"

definition respond :: "response \<times> 'x daemon \<Rightarrow> outcome \<times> 'x daemon" where
  "respond = map_prod Respond id"

fun dispatch :: "'x daemon_env \<Rightarrow> clocks \<Rightarrow> request_id \<Rightarrow> bytes \<Rightarrow> request \<Rightarrow> 'x daemon \<Rightarrow> outcome \<times> 'x daemon" where
  "dispatch D ck rid recv (ReqHello _) d = (Respond (RHelloAck PROTOCOL_VERSION), d)"
| "dispatch D ck rid recv (ReqPair i nonce given) d = respond (handle_pair D ck i nonce given d)"
| "dispatch D ck rid recv (ReqAuthenticate u p) d = respond (handle_authenticate D ck u p d)"
| "dispatch D ck rid recv ReqGetCapabilities d =
     (Respond (RCapabilities (ex_capabilities (de_export D) (dm_export d))), d)"
| "dispatch D ck rid recv ReqStatFilesystem d = serve (ex_stat_filesystem (de_export D)) RFilesystemStats d"
| "dispatch D ck rid recv (ReqGetMetadata node) d = serve (ex_metadata (de_export D) node) RMetadata d"
| "dispatch D ck rid recv (ReqGetMetadataBatch nodes) d = respond (handle_metadata_batch D nodes d)"
| "dispatch D ck rid recv (ReqListDirectory node) d = serve (ex_list_with_revision (de_export D) node)
     (\<lambda>(revision, entries). directory_listing_response D rid revision entries) d"
| "dispatch D ck rid recv (ReqListDirectoryView node options) d = serve_view D node options d"
| "dispatch D ck rid recv (ReqOpenFile node options) d = serve (ex_open (de_export D) node options)
     (\<lambda>(handle, revision, sz). RFileOpened handle revision sz) d"
| "dispatch D ck rid recv (ReqCreateFile parent nm mode options) d =
     serve (ex_create_file (de_export D) parent nm mode options)
       (\<lambda>(metadata, handle, revision, sz). RFileCreated metadata handle revision sz) d"
| "dispatch D ck rid recv (ReqCreateDirectory parent nm mode) d =
     serve (ex_create_directory (de_export D) parent nm mode) RNodeCreated d"
| "dispatch D ck rid recv (ReqCreateSymlink parent nm target) d =
     serve (ex_create_symlink (de_export D) parent nm target) RNodeCreated d"
| "dispatch D ck rid recv (ReqRemoveNode parent nm directory) d =
     serve (ex_remove_node (de_export D) parent nm directory) (\<lambda>_. RNodeRemoved) d"
| "dispatch D ck rid recv (ReqRenameNode parent nm new_parent new_name mode) d =
     serve (ex_rename_node (de_export D) parent nm new_parent new_name mode) (\<lambda>_. RNodeRenamed) d"
| "dispatch D ck rid recv (ReqCreateHardLink node new_parent new_name) d =
     serve (ex_create_hard_link (de_export D) node new_parent new_name) RHardLinkCreated d"
| "dispatch D ck rid recv (ReqCreateSpecialNode parent nm kind mode major minor) d =
     serve (ex_create_special_node (de_export D) parent nm kind mode major minor) RNodeCreated d"
| "dispatch D ck rid recv (ReqReadLink node) d = serve (ex_read_link (de_export D) node) RLinkTarget d"
| "dispatch D ck rid recv (ReqSetAttributes node handle changes) d =
     serve (ex_set_attributes (de_export D) node handle changes) RAttributesChanged d"
| "dispatch D ck rid recv (ReqReadRange handle offset len) d = handle_read_range D handle offset len d"
| "dispatch D ck rid recv (ReqWriteRange handle offset len) d = handle_write_range D handle offset len recv d"
| "dispatch D ck rid recv (ReqFlushFile handle own) d =
     serve (ex_flush (de_export D) handle own) (\<lambda>_. RFileFlushed) d"
| "dispatch D ck rid recv (ReqSyncFile handle data_only) d =
     serve (ex_sync (de_export D) handle data_only) (\<lambda>_. RFileSynced) d"
| "dispatch D ck rid recv (ReqSyncDirectory node) d =
     serve (ex_sync_directory (de_export D) node) (\<lambda>_. RDirectorySynced) d"
| "dispatch D ck rid recv (ReqAllocateFile handle offset len) d =
     serve (ex_allocate (de_export D) handle offset len) (\<lambda>(revision, sz). RFileAllocated revision sz) d"
| "dispatch D ck rid recv (ReqGetXattr node nm offset len) d = handle_get_xattr D node nm offset len d"
| "dispatch D ck rid recv (ReqSetXattr node nm mode position len) d =
     handle_set_xattr D node nm mode position len recv d"
| "dispatch D ck rid recv (ReqListXattrs node) d = serve (ex_list_xattrs (de_export D) node) RXattrNames d"
| "dispatch D ck rid recv (ReqRemoveXattr node nm) d =
     serve (ex_remove_xattr (de_export D) node nm) (\<lambda>_. RXattrRemoved) d"
| "dispatch D ck rid recv (ReqCopyFileRange input input_offset output output_offset len) d =
     serve (ex_copy_file_range (de_export D) input input_offset output output_offset len)
       (\<lambda>(copied, revision, sz). RRangeCopied copied revision sz) d"
| "dispatch D ck rid recv (ReqSeekFile handle offset whence) d =
     serve (ex_seek_file (de_export D) handle offset whence) RFileSeeked d"
| "dispatch D ck rid recv (ReqSafeIoctl handle operation) d =
     serve (ex_safe_ioctl (de_export D) handle operation) RIoctlResult d"
| "dispatch D ck rid recv (ReqMapBlock node block_size block) d =
     serve (ex_map_block (de_export D) node block_size block) RBlockMapped d"
| "dispatch D ck rid recv (ReqExchangeData parent nm new_parent new_name options) d =
     serve (ex_exchange_data (de_export D) parent nm new_parent new_name options) (\<lambda>_. RDataExchanged) d"
| "dispatch D ck rid recv (ReqSetVolumeName nm) d =
     serve (ex_set_volume_name (de_export D) nm) (\<lambda>_. RVolumeNameSet) d"
| "dispatch D ck rid recv (ReqForgetNodes nodes) d =
     serve (ex_forget_nodes (de_export D) nodes) (\<lambda>_. RNodesForgotten) d"
| "dispatch D ck rid recv (ReqGetLock handle lock) d =
     serve (ex_get_lock (de_export D) handle lock) RLockStatus d"
| "dispatch D ck rid recv (ReqSetLock handle lock wait) d =
     serve (ex_set_lock (de_export D) handle lock wait) (\<lambda>_. RLockUpdated) d"
| "dispatch D ck rid recv (ReqCloseFile handle) d = serve (ex_close (de_export D) handle) (\<lambda>_. RFileClosed) d"
| "dispatch D ck rid recv (ReqPing nonce) d = (Respond (RPong nonce), d)"

fun public_request :: "request \<Rightarrow> bool" where
  "public_request (ReqHello _) = True"
| "public_request (ReqPair _ _ _) = True"
| "public_request (ReqAuthenticate _ _) = True"
| "public_request (ReqPing _) = True"
| "public_request _ = False"

definition finish :: "'x daemon_env \<Rightarrow> request_id \<Rightarrow> outcome \<Rightarrow> reply_stream option" where
  "finish D rid outc = (case outc of
     Respond r \<Rightarrow> (case write_response D rid r of
         Inr frames \<Rightarrow> Some \<lparr>rs_frames = frames, rs_body = []\<rparr> | Inl _ \<Rightarrow> None)
   | RespondData r data \<Rightarrow> (case write_response D rid r of
         Inr frames \<Rightarrow> Some \<lparr>rs_frames = frames, rs_body = data\<rparr> | Inl _ \<Rightarrow> None)
   | RespondView view \<Rightarrow> (case write_directory_view D rid view of
         Inr frames \<Rightarrow> Some \<lparr>rs_frames = frames, rs_body = []\<rparr> | Inl _ \<Rightarrow> None)
   | NoReply \<Rightarrow> None)"

definition handle :: "'x daemon_env \<Rightarrow> clocks \<Rightarrow> request envelope \<Rightarrow> bytes \<Rightarrow> 'x daemon \<Rightarrow> reply_stream option \<times> 'x daemon" where
  "handle D ck req recv d =
     (let rid = env_request_id req in
      if version_major (env_version req) \<noteq> PROTOCOL_MAJOR
      then (finish D rid (Respond (error_reply UnsupportedVersion ''unsupported protocol major version'')), d)
      else if \<not> (public_request (env_message req) \<or> ca_authenticated (dm_auth d))
      then (finish D rid (Respond (error_reply Unauthenticated ''authenticate first'')), d)
      else let (outc, d') = dispatch D ck rid recv (env_message req) d in (finish D rid outc, d'))"

subsection \<open>Configuration\<close>

definition MAX_PERMITS :: usize where
  "MAX_PERMITS = 2 ^ 61 - 1"

record serve_config =
  sc_max_read_size :: u64
  sc_max_write_size :: u64
  sc_max_open_handles :: usize
  sc_max_known_nodes_per_connection :: usize
  sc_max_total_known_nodes :: usize
  sc_request_timeout_ms :: u64
  sc_max_directory_entry_tasks :: usize
  sc_max_concurrent_requests :: usize
  sc_max_concurrent_connections :: usize
  sc_max_concurrent_auth :: usize
  sc_max_in_flight_read_bytes :: usize
  sc_max_in_flight_write_bytes :: usize
  sc_max_in_flight_write_bytes_per_connection :: usize
  sc_auth_attempts_per_minute :: usize

definition ensure :: "bool \<Rightarrow> 'e \<Rightarrow> 'e + unit" where
  "ensure b e = (if b then Inr () else Inl e)"

definition validate_configuration :: "serve_config \<Rightarrow> string + unit" where
  "validate_configuration c =
     ebind (ensure (sc_max_read_size c \<noteq> 0) ''maximum read size must be greater than zero'') (\<lambda>_.
     ebind (ensure (sc_max_write_size c \<noteq> 0) ''maximum write size must be greater than zero'') (\<lambda>_.
     ebind (ensure (sc_max_open_handles c \<noteq> 0) ''maximum open handles must be greater than zero'') (\<lambda>_.
     ebind (ensure (sc_max_known_nodes_per_connection c \<noteq> 0)
       ''maximum known nodes per connection must be greater than zero'') (\<lambda>_.
     ebind (ensure (sc_max_total_known_nodes c \<noteq> 0 \<and>
         sc_max_known_nodes_per_connection c - 1 \<le> sc_max_total_known_nodes c)
       ''total known-node capacity must cover at least one connection'') (\<lambda>_.
     ebind (ensure (sc_request_timeout_ms c \<noteq> 0) ''request timeout must be greater than zero milliseconds'') (\<lambda>_.
     ebind (ensure (sc_max_directory_entry_tasks c \<noteq> 0)
       ''maximum directory entry tasks must be greater than zero'') (\<lambda>_.
     ebind (ensure (sc_max_concurrent_requests c \<noteq> 0)
       ''maximum concurrent requests must be greater than zero'') (\<lambda>_.
     ebind (ensure (sc_max_in_flight_read_bytes c \<noteq> 0)
       ''maximum in-flight read bytes must be greater than zero'') (\<lambda>_.
     ebind (ensure (sc_max_in_flight_write_bytes c \<noteq> 0 \<and> sc_max_in_flight_write_bytes_per_connection c \<noteq> 0)
       ''global and per-connection in-flight write-byte budgets must be greater than zero'') (\<lambda>_.
     ebind (ensure (sc_max_read_size c \<le> U32_MAX \<and> sc_max_read_size c \<le> sc_max_in_flight_read_bytes c)
       ''maximum read size must fit within the configured in-flight read-byte budget and u32'') (\<lambda>_.
     ebind (ensure (sc_max_write_size c \<le> U32_MAX \<and> sc_max_write_size c \<le> sc_max_in_flight_write_bytes c \<and>
         sc_max_write_size c \<le> sc_max_in_flight_write_bytes_per_connection c)
       ''maximum write size must fit within both in-flight write-byte budgets and u32'') (\<lambda>_.
     ebind (ensure (sc_max_in_flight_write_bytes_per_connection c \<le> sc_max_in_flight_write_bytes c)
       ''per-connection write-byte budget must not exceed the global write-byte budget'') (\<lambda>_.
     ebind (ensure (list_all (\<lambda>n. n \<le> MAX_PERMITS) [sc_max_open_handles c, sc_max_known_nodes_per_connection c,
         sc_max_total_known_nodes c, sc_max_directory_entry_tasks c, sc_max_concurrent_requests c,
         sc_max_concurrent_connections c, sc_max_concurrent_auth c, sc_max_in_flight_read_bytes c,
         sc_max_in_flight_write_bytes c, sc_max_in_flight_write_bytes_per_connection c])
       ''configured concurrency exceeds the runtime semaphore limit'') (\<lambda>_.
     ebind (ensure (sc_max_concurrent_connections c \<noteq> 0)
       ''maximum concurrent connections must be greater than zero'') (\<lambda>_.
     ebind (ensure (sc_max_concurrent_auth c \<noteq> 0)
       ''maximum concurrent authentication tasks must be greater than zero'') (\<lambda>_.
     ebind (ensure (sc_auth_attempts_per_minute c \<noteq> 0)
       ''authentication attempts per minute must be greater than zero'') (\<lambda>_.
     ensure (sc_auth_attempts_per_minute c \<le> 1000)
       ''authentication attempts per minute must not exceed 1000'')))))))))))))))))"

text \<open>The state a connection starts with: full budgets, nobody authenticated.\<close>

definition connection_start :: "serve_config \<Rightarrow> 'x \<Rightarrow> auth_fs \<Rightarrow> 'x daemon" where
  "connection_start c export files =
     \<lparr>dm_export = export, dm_files = files, dm_auth = connection_auth_default,
      dm_limiter = limiter_new (sc_auth_attempts_per_minute c),
      dm_auth_permits = sc_max_concurrent_auth c, dm_read_permits = sc_max_in_flight_read_bytes c,
      dm_write_permits = sc_max_in_flight_write_bytes c,
      dm_connection_write_permits = sc_max_in_flight_write_bytes_per_connection c\<rparr>"

end
