(* ===== verification/Daemon_Limits.thy ===== *)
theory Daemon_Limits
  imports Daemon_Service
begin

text \<open>
  The authentication rate limit of the daemon over a sequence of calls: the log of the calls, the
  invariant that ties the buckets to it, and the bound on the attempts of one peer in a window.
\<close>

type_synonym attempt_log = "(instant \<times> peer \<times> bool) list"

fun run_allow :: "instant \<Rightarrow> (instant \<times> peer) list \<Rightarrow> auth_rate_limiter \<Rightarrow> attempt_log \<times> auth_rate_limiter" where
  "run_allow floor [] l = ([], l)"
| "run_allow floor ((now, p) # calls) l =
     (let (ok, l1) = allow floor now p l; (log, l2) = run_allow floor calls l1 in ((now, p, ok) # log, l2))"

definition allowed_times :: "peer \<Rightarrow> attempt_log \<Rightarrow> instant list" where
  "allowed_times p log = map fst (filter (\<lambda>(_, q, ok). q = p \<and> ok) log)"

definition in_window :: "instant \<Rightarrow> peer \<Rightarrow> attempt_log \<Rightarrow> nat" where
  "in_window t p log = length (filter (\<lambda>n. t - AUTH_RATE_WINDOW < n \<and> n \<le> t) (allowed_times p log))"

definition bucket :: "auth_rate_limiter \<Rightarrow> peer \<Rightarrow> instant list" where
  "bucket l p = (case map_of (rl_attempts_per_peer l) p of None \<Rightarrow> [] | Some a \<Rightarrow> a)"

text \<open>After calls up to instant \<open>T\<close> the buckets hold every allowed attempt that may still count.\<close>

definition limiter_inv :: "attempt_log \<Rightarrow> instant \<Rightarrow> auth_rate_limiter \<Rightarrow> bool" where
  "limiter_inv log T l \<longleftrightarrow> distinct_keys (rl_attempts_per_peer l) \<and>
     (\<forall>p. sorted (bucket l p) \<and>
        (\<forall>n\<in>set (allowed_times p log). n \<le> T) \<and>
        (\<forall>c \<ge> T - AUTH_RATE_WINDOW. filter (\<lambda>n. c < n) (allowed_times p log) = filter (\<lambda>n. c < n) (bucket l p)))"

lemma expire_filter: "sorted xs \<Longrightarrow> expire c xs = filter (\<lambda>n. c < n) xs"
proof (induction xs)
  case (Cons x xs)
  then show ?case
    by (auto simp: expire_def filter_id_conv [THEN iffD2] not_le intro!: filter_True [symmetric])
qed (simp add: expire_def)

lemma map_of_filter_values:
  "distinct_keys m \<Longrightarrow> map_of (filter (\<lambda>(_, v). P v) m) k =
     (case map_of m k of None \<Rightarrow> None | Some v \<Rightarrow> if P v then Some v else None)"
proof (induction m)
  case (Cons x m)
  have "map_of (filter (\<lambda>(_, v). P v) m) k = None" if "k \<notin> fst ` set m"
    using that by (force simp: map_of_eq_None_iff)
  then show ?case
    using Cons by (cases x) auto
qed simp

lemma expire_Nil [simp]: "expire c [] = []"
  by (simp add: expire_def)

lemma purge_bucket:
  assumes "distinct_keys m"
  shows "distinct_keys (purge c m)"
    and "(case map_of (purge c m) p of None \<Rightarrow> [] | Some a \<Rightarrow> a) =
      expire c (case map_of m p of None \<Rightarrow> [] | Some a \<Rightarrow> a)"
proof -
  let ?m = "map (\<lambda>(p, attempts). (p, expire c attempts)) m"
  have keys: "distinct_keys ?m"
    using assms by (simp only: fst_map_snd)
  then show "distinct_keys (purge c m)"
    unfolding purge_def by (rule distinct_keys_filter)
  have "map_of ?m p = map_option (expire c) (map_of m p)"
    by (rule map_of_map_snd)
  then show "(case map_of (purge c m) p of None \<Rightarrow> [] | Some a \<Rightarrow> a) =
      expire c (case map_of m p of None \<Rightarrow> [] | Some a \<Rightarrow> a)"
    unfolding purge_def map_of_filter_values [OF keys, of "\<lambda>a. a \<noteq> []"]
    by (auto split: option.splits)
qed

lemma expire_expire [simp]: "expire c (expire c xs) = expire c xs"
  by (induction xs) (auto simp: expire_def)

text \<open>One call in terms of buckets: what it returns and what it leaves.\<close>

lemma allow_effect:
  assumes keys: "distinct_keys (rl_attempts_per_peer l)" and run: "allow floor now p l = (ok, l')"
    and c: "c = cutoff_at floor now"
  shows "distinct_keys (rl_attempts_per_peer l')" "rl_maximum_attempts l' = rl_maximum_attempts l"
    and "\<And>q. ok \<and> q = p \<or> bucket l' q = bucket l q \<or> bucket l' q = expire c (bucket l q)"
    and "ok \<Longrightarrow> bucket l' p = expire c (bucket l p) @ [now] \<and>
      length (expire c (bucket l p)) < rl_maximum_attempts l"
proof -
  let ?m = "rl_attempts_per_peer l"
  note purge = purge_bucket [OF keys, of c]
  show "distinct_keys (rl_attempts_per_peer l')" "rl_maximum_attempts l' = rl_maximum_attempts l"
    using run keys purge(1) by (auto simp: allow_def c Let_def distinct_update split: if_splits)
  show "ok \<and> q = p \<or> bucket l' q = bucket l q \<or> bucket l' q = expire c (bucket l q)" for q
    using run purge(2) [of q] purge(2) [of p] unfolding allow_def c [symmetric] Let_def bucket_def
    by (auto split: if_splits)
  show "bucket l' p = expire c (bucket l p) @ [now] \<and> length (expire c (bucket l p)) < rl_maximum_attempts l" if ok
    using run purge(2) [of p] that unfolding allow_def c [symmetric] Let_def bucket_def
    by (auto split: if_splits)
qed

lemma window_filter: "c \<le> (d :: instant) \<Longrightarrow> filter (\<lambda>x. c < x \<and> d < x) xs = filter ((<) d) xs"
  by (induction xs) auto

lemma length_filter_mono: "(\<And>x. P x \<Longrightarrow> Q x) \<Longrightarrow> length (filter P xs) \<le> length (filter Q xs)"
  by (induction xs) auto

lemma allowed_times_snoc:
  "allowed_times q (log @ [(now, p, ok)]) = allowed_times q log @ (if q = p \<and> ok then [now] else [])"
  by (simp add: allowed_times_def)

lemma limiter_inv_step:
  assumes inv: "limiter_inv log T l" and time: "T \<le> now" "floor \<le> now - AUTH_RATE_WINDOW"
    and run: "allow floor now p l = (ok, l')"
  shows "limiter_inv (log @ [(now, p, ok)]) now l'"
    and "ok \<Longrightarrow> length (filter (\<lambda>n. now - AUTH_RATE_WINDOW < n) (allowed_times p log)) < rl_maximum_attempts l"
proof -
  let ?c = "now - AUTH_RATE_WINDOW"
  have c: "?c = cutoff_at floor now" using time(2) by (simp add: cutoff_at_def)
  have keys: "distinct_keys (rl_attempts_per_peer l)" and sorted: "\<And>q. sorted (bucket l q)"
    and old: "\<And>q n. n \<in> set (allowed_times q log) \<Longrightarrow> n \<le> T"
    and same: "\<And>q d. d \<ge> T - AUTH_RATE_WINDOW \<Longrightarrow>
      filter (\<lambda>n. d < n) (allowed_times q log) = filter (\<lambda>n. d < n) (bucket l q)"
    using inv by (auto simp: limiter_inv_def)
  note eff = allow_effect [OF keys run c]
  have expired: "expire ?c (bucket l q) = filter (\<lambda>n. ?c < n) (bucket l q)" for q
    by (rule expire_filter [OF sorted])
  have live: "expire ?c (bucket l q) = filter (\<lambda>n. ?c < n) (allowed_times q log)" for q
    unfolding expired by (rule same [symmetric]) (use time in simp)
  show "length (filter (\<lambda>n. ?c < n) (allowed_times p log)) < rl_maximum_attempts l" if ok
    using eff(4) [OF that] live by simp
  have kept: "sorted (bucket l' q) \<and> (\<forall>d \<ge> ?c. filter (\<lambda>n. d < n) (bucket l' q) = filter (\<lambda>n. d < n) (bucket l q))"
    if "\<not> (ok \<and> q = p)" for q
    using eff(3) [of q] that sorted [of q] expired [of q] by (auto simp: window_filter sorted_wrt_filter)
  have pushed: "sorted (bucket l' p) \<and>
      (\<forall>d \<ge> ?c. filter (\<lambda>n. d < n) (bucket l' p) = filter (\<lambda>n. d < n) (bucket l p @ [now]))" if ok
  proof -
    have "bucket l' p = filter (\<lambda>n. ?c < n) (bucket l p) @ [now]"
      using eff(4) [OF that] expired by simp
    moreover have "\<forall>n\<in>set (filter (\<lambda>n. ?c < n) (bucket l p)). n \<le> now"
      using live [of p] expired [of p] old [of _ p] time(1) by (metis filter_is_subset order_trans subsetD)
    ultimately show ?thesis
      using sorted [of p] by (auto simp: sorted_append sorted_wrt_filter window_filter)
  qed
  have same': "filter (\<lambda>n. d < n) (allowed_times q log) = filter (\<lambda>n. d < n) (bucket l q)" if "d \<ge> ?c" for q d
    using that time(1) by (intro same) simp
  show "limiter_inv (log @ [(now, p, ok)]) now l'"
    unfolding limiter_inv_def allowed_times_snoc
  proof (intro conjI allI impI eff(1) ballI)
    fix q show "sorted (bucket l' q)" using kept pushed by (cases "ok \<and> q = p") auto
  next
    fix q n assume "n \<in> set (allowed_times q log @ (if q = p \<and> ok then [now] else []))"
    then show "n \<le> now" using old [of n q] time(1) by (auto split: if_splits)
  next
    fix q d assume "?c \<le> d"
    then show "filter (\<lambda>n. d < n) (allowed_times q log @ (if q = p \<and> ok then [now] else [])) =
      filter (\<lambda>n. d < n) (bucket l' q)"
      using kept [of q] pushed same' [of d q] by (cases "ok \<and> q = p") auto
  qed
qed

lemma in_window_step:
  assumes inv: "limiter_inv log T l" and time: "T \<le> now"
    and bound: "\<forall>t p. in_window t p log \<le> k"
    and ok: "ok \<Longrightarrow> length (filter (\<lambda>n. now - AUTH_RATE_WINDOW < n) (allowed_times p log)) < k"
  shows "in_window t q (log @ [(now, p, ok)]) \<le> k"
proof (cases "q = p \<and> ok \<and> t - AUTH_RATE_WINDOW < now \<and> now \<le> t")
  case True
  have "length (filter (\<lambda>n. t - AUTH_RATE_WINDOW < n \<and> n \<le> t) (allowed_times p log)) \<le>
      length (filter (\<lambda>n. now - AUTH_RATE_WINDOW < n) (allowed_times p log))"
    using True by (intro length_filter_mono) auto
  then show ?thesis
    using True ok by (simp add: in_window_def allowed_times_snoc)
next
  case False
  then show ?thesis
    using bound by (auto simp: in_window_def allowed_times_snoc)
qed

lemma run_allow_bound:
  assumes "limiter_inv log T l" "sorted (map fst calls)" "\<forall>(now, p)\<in>set calls. T \<le> now \<and> floor \<le> now - AUTH_RATE_WINDOW"
    and "\<forall>t p. in_window t p log \<le> rl_maximum_attempts l"
  shows "in_window t p (log @ fst (run_allow floor calls l)) \<le> rl_maximum_attempts l"
  using assms
proof (induction calls arbitrary: log T l)
  case (Cons call calls)
  obtain now q where call: "call = (now, q)" by fastforce
  obtain ok l1 where run: "allow floor now q l = (ok, l1)" by fastforce
  obtain log2 l2 where rest: "run_allow floor calls l1 = (log2, l2)" by fastforce
  have time: "T \<le> now" "floor \<le> now - AUTH_RATE_WINDOW"
    using Cons.prems(3) call by auto
  note step = limiter_inv_step [OF Cons.prems(1) time run]
  have keys: "distinct_keys (rl_attempts_per_peer l)"
    using Cons.prems(1) by (simp add: limiter_inv_def)
  have max: "rl_maximum_attempts l1 = rl_maximum_attempts l"
    by (rule allow_effect(2) [OF keys run refl])
  have "in_window t p ((log @ [(now, q, ok)]) @ fst (run_allow floor calls l1)) \<le> rl_maximum_attempts l1"
  proof (rule Cons.IH [OF step(1)])
    show "sorted (map fst calls)" using Cons.prems(2) by simp
    show "\<forall>(n, p)\<in>set calls. now \<le> n \<and> floor \<le> n - AUTH_RATE_WINDOW"
      using Cons.prems(2,3) call by auto
    show "\<forall>t p. in_window t p (log @ [(now, q, ok)]) \<le> rl_maximum_attempts l1"
      unfolding max
      by (intro allI in_window_step [OF Cons.prems(1) time(1) Cons.prems(4)]) (rule step(2))
  qed
  then show ?case
    using call run rest max by simp
qed simp

lemma limiter_inv_new: "limiter_inv [] T (limiter_new k)"
  by (simp add: limiter_inv_def limiter_new_def bucket_def allowed_times_def)

text \<open>C36. The daemon lets no peer start more than \<open>maximum_attempts\<close> password verifications in any
  window of sixty seconds, whatever the order of the calls, the number of peers and the
  purging of full buckets, as long as the clock does not go back and the start of the window is
  a representable instant.\<close>
theorem auth_rate_limited:
  assumes "sorted (map fst calls)" "\<forall>(now, p)\<in>set calls. floor \<le> now - AUTH_RATE_WINDOW"
  shows "in_window t p (fst (run_allow floor calls (limiter_new k))) \<le> k"
proof (cases calls)
  case Nil
  then show ?thesis by (simp add: in_window_def allowed_times_def)
next
  case (Cons c cs)
  have "\<forall>(now, p)\<in>set calls. fst c \<le> now"
    using assms(1) Cons by auto
  then have "\<forall>(now, p)\<in>set calls. fst c \<le> now \<and> floor \<le> now - AUTH_RATE_WINDOW"
    using assms(2) by auto
  from run_allow_bound [OF limiter_inv_new [of "fst c" k] assms(1) this, of t p]
  show ?thesis by (simp add: in_window_def allowed_times_def limiter_new_def)
qed

theorem auth_rate_limited_witness:
  "map (\<lambda>(_, _, ok). ok) (fst (run_allow 0 [(100, 7), (101, 7), (102, 7), (103, 8), (161, 7)] (limiter_new 2))) =
     [True, True, False, True, True] \<and>
   in_window 103 7 (fst (run_allow 0 [(100, 7), (101, 7), (102, 7), (103, 8), (161, 7)] (limiter_new 2))) \<le> 2"
proof
  show "map (\<lambda>(_, _, ok). ok) (fst (run_allow 0 [(100, 7), (101, 7), (102, 7), (103, 8), (161, 7)] (limiter_new 2))) =
     [True, True, False, True, True]"
    by code_simp
  show "in_window 103 7 (fst (run_allow 0 [(100, 7), (101, 7), (102, 7), (103, 8), (161, 7)] (limiter_new 2))) \<le> 2"
    by (rule auth_rate_limited) (simp_all add: AUTH_RATE_WINDOW_def)
qed

end
