(* ===== verification/Auth_Props.thy ===== *)
theory Auth_Props
  imports Auth_Model Triples
begin

text \<open>
  What the authentication state promises: pairing codes survive formatting, and the
  administration commands act on the accounts as an abstract map and leave them alone when they
  fail.
\<close>

subsection \<open>Pairing codes\<close>

lemma length_format_code: "length (format_code cs) = length cs + (length cs - 1) div 4"
  by (induction cs rule: format_code.induct) auto

lemma set_format_code: "set (format_code cs) \<subseteq> insert 45 (set cs)"
  by (induction cs rule: format_code.induct) auto

lemma hd_format_code: "cs \<noteq> [] \<Longrightarrow> format_code cs \<noteq> [] \<and> hd (format_code cs) = hd cs"
  by (induction cs rule: format_code.induct) auto

lemma last_format_code: "cs \<noteq> [] \<Longrightarrow> format_code cs \<noteq> [] \<and> last (format_code cs) = last cs"
  by (induction cs rule: format_code.induct) auto

lemma strip_format_code: "index mod 5 = 0 \<Longrightarrow> strip_groups index (format_code cs) = Inr cs"
proof (induction cs arbitrary: index rule: format_code.induct)
  case (1 a b c d e r)
  have "Suc index mod 5 = 1" "Suc (Suc index) mod 5 = 2" "Suc (Suc (Suc index)) mod 5 = 3"
    "Suc (Suc (Suc (Suc index))) mod 5 = 4" "Suc (Suc (Suc (Suc (Suc index)))) mod 5 = 0"
    using 1(2) by presburger+
  then show ?case using 1 by simp
qed (simp_all, (presburger | simp)+)

lemma trim_solid:
  assumes "cs \<noteq> []" "\<not> is_space (hd cs)" "\<not> is_space (last cs)"
  shows "trim cs = cs"
proof -
  have "dropWhile is_space cs = cs" "dropWhile is_space (rev cs) = rev cs"
    using assms by (simp_all add: dropWhile_eq_self_iff hd_rev)
  then show ?thesis by (simp add: trim_def)
qed

text \<open>What the code relies on of unpadded URL-safe Base64 for secrets.\<close>

definition b64_laws :: "auth_env \<Rightarrow> bool" where
  "b64_laws E \<longleftrightarrow> (\<forall>secret. length secret = PAIRING_SECRET_LENGTH \<longrightarrow>
     ae_b64_decode E (ae_b64_encode E secret) = Some secret \<and>
     length (ae_b64_encode E secret) = encoded_len_b64 PAIRING_SECRET_LENGTH \<and>
     list_all (\<lambda>b. \<not> is_space b) (ae_b64_encode E secret))"

lemma encoded_secret_len: "encoded_len_b64 PAIRING_SECRET_LENGTH = 27"
  by code_simp

lemma normalize_format_code:
  assumes "length cs = 27" "list_all (\<lambda>b. \<not> is_space b) cs"
  shows "normalize_pairing_code (format_code cs) = Inr cs" "normalize_pairing_code cs = Inr cs"
proof -
  have "cs \<noteq> []" using assms(1) by auto
  then have solid: "\<not> is_space (hd cs)" "\<not> is_space (last cs)"
    using assms(2) by (auto simp: list_all_iff)
  have "trim (format_code cs) = format_code cs" "trim cs = cs"
    using trim_solid \<open>cs \<noteq> []\<close> solid hd_format_code last_format_code by auto
  then show "normalize_pairing_code (format_code cs) = Inr cs" "normalize_pairing_code cs = Inr cs"
    using assms(1) strip_format_code [of 0 cs]
    by (simp_all add: normalize_pairing_code_def encoded_secret_len length_format_code)
qed

subsection \<open>Accounts\<close>

text \<open>The database that the users file holds, and the accounts in it.\<close>

definition valid_database :: "auth_env \<Rightarrow> user_database \<Rightarrow> bool" where
  "valid_database E db \<longleftrightarrow> length db \<le> MAX_USERS \<and> isOk (check_users E [] db)"

definition database_at :: "auth_env \<Rightarrow> auth_fs \<Rightarrow> user_database option" where
  "database_at E s = (case map_of (fs_entries s) PUsers of
     None \<Rightarrow> None
   | Some e \<Rightarrow> (case fe_node e of
         NFile b \<Rightarrow> if length b > MAX_USER_DATABASE_SIZE then None
           else (case ae_users_parse E b of
               Inl _ \<Rightarrow> None
             | Inr db \<Rightarrow> if valid_database E db then Some db else None)
       | _ \<Rightarrow> None))"

definition accounts :: "auth_env \<Rightarrow> auth_fs \<Rightarrow> bytes \<Rightarrow> user_record option" where
  "accounts E s username = (case database_at E s of None \<Rightarrow> None | Some db \<Rightarrow> find_user username db)"

datatype user_edit = AddUser bytes bytes bytes | ChangePassword bytes bytes bytes
  | SetUserEnabled bytes bool | SetUserWritable bytes bool | RemoveUser bytes

fun run_user_edit :: "auth_env \<Rightarrow> user_edit \<Rightarrow> unit aop" where
  "run_user_edit E (AddUser salt u p) = add_user E salt u p"
| "run_user_edit E (ChangePassword salt u p) = change_password E salt u p"
| "run_user_edit E (SetUserEnabled u b) = set_user_enabled E u b"
| "run_user_edit E (SetUserWritable u b) = set_user_writable E u b"
| "run_user_edit E (RemoveUser u) = remove_user E u"

fun edit_accounts :: "auth_env \<Rightarrow> user_edit \<Rightarrow> (bytes \<Rightarrow> user_record option) \<Rightarrow> bytes \<Rightarrow> user_record option" where
  "edit_accounts E (AddUser salt u p) m = m(u \<mapsto> \<lparr>ur_username = u,
     ur_password_hash = the (ae_argon2_hash E p salt), ur_enabled = True, ur_writable = False\<rparr>)"
| "edit_accounts E (ChangePassword salt u p) m =
     m(u := map_option (\<lambda>r. r\<lparr>ur_password_hash := the (ae_argon2_hash E p salt)\<rparr>) (m u))"
| "edit_accounts E (SetUserEnabled u b) m = m(u := map_option (\<lambda>r. r\<lparr>ur_enabled := b\<rparr>) (m u))"
| "edit_accounts E (SetUserWritable u b) m = m(u := map_option (\<lambda>r. r\<lparr>ur_writable := b\<rparr>) (m u))"
| "edit_accounts E (RemoveUser u) m = m(u := None)"

text \<open>What the code relies on: JSON reads back what it wrote, and a fresh hash is in policy.\<close>

definition user_laws :: "auth_env \<Rightarrow> bool" where
  "user_laws E \<longleftrightarrow> (\<forall>db b. ae_users_json E db = Inr b \<longrightarrow> ae_users_parse E b = Inr db) \<and>
     (\<forall>p salt h. ae_argon2_hash E p salt = Some h \<longrightarrow> isOk (parse_password_hash E h))"

lemma check_users_iff: "isOk (check_users E seen db) \<longleftrightarrow>
  (\<forall>u\<in>set db. isOk (validate_username (ur_username u)) \<and> isOk (parse_password_hash E (ur_password_hash u))) \<and>
  distinct (map ur_username db) \<and> set (map ur_username db) \<inter> set seen = {}"
proof (induction db arbitrary: seen)
  case (Cons u us)
  show ?case
    by (cases "validate_username (ur_username u)"; cases "parse_password_hash E (ur_password_hash u)")
      (auto simp: Cons.IH)
qed simp

lemma find_user_Some: "find_user u db = Some r \<Longrightarrow> r \<in> set db \<and> ur_username r = u"
  by (auto simp: find_user_def find_Some_iff)

lemma find_user_None: "find_user u db = None \<longleftrightarrow> u \<notin> ur_username ` set db"
  by (auto simp: find_user_def find_None_iff)

lemma find_user_append: "find_user u (db @ [r]) =
    (case find_user u db of Some x \<Rightarrow> Some x | None \<Rightarrow> if ur_username r = u then Some r else None)"
  by (induction db) (auto simp: find_user_def)

lemma find_user_filter: "find_user v (filter (\<lambda>r. ur_username r \<noteq> u) db) = (if v = u then None else find_user v db)"
  by (induction db) (auto simp: find_user_def)

lemma find_modify_user:
  "ur_username r' = u \<Longrightarrow> find_user v (modify_user u (\<lambda>_. r') db) =
    (if v = u then map_option (\<lambda>_. r') (find_user u db) else find_user v db)"
  by (induction db) (auto simp: find_user_def)

lemma set_modify_user: "set (modify_user u (\<lambda>_. r') db) \<subseteq> insert r' (set db)"
  by (induction db) auto

lemma names_modify_user: "ur_username r' = u \<Longrightarrow> map ur_username (modify_user u (\<lambda>_. r') db) = map ur_username db"
  by (induction db) auto

fun change_of :: "auth_env \<Rightarrow> user_edit \<Rightarrow> user_database \<Rightarrow> auth_error + user_database" where
  "change_of E (AddUser salt u p) db =
     (if list_ex (\<lambda>r. ur_username r = u) db then Inl (AeUserExists u)
      else if length db \<ge> MAX_USERS then Inl (AeInvalidData ''user database has reached its account limit'')
      else ebind (hash_password E salt p) (\<lambda>h. Inr (db @ [\<lparr>ur_username = u, ur_password_hash = h,
             ur_enabled = True, ur_writable = False\<rparr>])))"
| "change_of E (ChangePassword salt u p) db = update_user u (\<lambda>r.
     ebind (hash_password E salt p) (\<lambda>h. Inr (r\<lparr>ur_password_hash := h\<rparr>))) db"
| "change_of E (SetUserEnabled u b) db = update_user u (\<lambda>r. Inr (r\<lparr>ur_enabled := b\<rparr>)) db"
| "change_of E (SetUserWritable u b) db = update_user u (\<lambda>r. Inr (r\<lparr>ur_writable := b\<rparr>)) db"
| "change_of E (RemoveUser u) db = (let rest = filter (\<lambda>r. ur_username r \<noteq> u) db
     in if length rest = length db then Inl (AeUserNotFound u) else Inr rest)"

lemma update_user_effect:
  assumes "update_user u f db = Inr db'" "valid_database E db"
    and f: "\<And>r r'. f r = Inr r' \<Longrightarrow> ur_username r' = ur_username r \<and>
      (isOk (parse_password_hash E (ur_password_hash r)) \<longrightarrow> isOk (parse_password_hash E (ur_password_hash r')))"
  obtains r r' where "find_user u db = Some r" "f r = Inr r'" "valid_database E db'"
    "\<And>v. find_user v db' = (if v = u then Some r' else find_user v db)"
proof -
  obtain r r' where r: "find_user u db = Some r" "f r = Inr r'" "db' = modify_user u (\<lambda>_. r') db"
    using assms(1) by (auto simp: update_user_def ebind_Inr_iff split: option.splits)
  have name: "ur_username r' = u" "r \<in> set db"
    using f [OF r(2)] find_user_Some [OF r(1)] by auto
  have names: "map ur_username db' = map ur_username db"
    unfolding r(3) by (rule names_modify_user) (rule name(1))
  have "isOk (validate_username (ur_username x)) \<and> isOk (parse_password_hash E (ur_password_hash x))"
    if "x \<in> set db'" for x
    using that set_modify_user [of u r' db] r(3) assms(2) name f [OF r(2)]
    by (auto simp: valid_database_def check_users_iff)
  moreover have "length db' = length db"
    using names by (metis length_map)
  ultimately have "valid_database E db'"
    using assms(2) names by (simp add: valid_database_def check_users_iff)
  then show ?thesis
    using that [OF r(1,2)] find_modify_user [OF name(1)] r by simp
qed

lemma change_of_effect:
  assumes laws: "user_laws E" and valid: "valid_database E db" and change: "change_of E x db = Inr db'"
    and name: "\<And>salt u p. x = AddUser salt u p \<Longrightarrow> isOk (validate_username u)"
  shows "valid_database E db' \<and> (\<lambda>v. find_user v db') = edit_accounts E x (\<lambda>v. find_user v db)"
proof (cases x)
  case (AddUser salt u p)
  then obtain h where h: "ae_argon2_hash E p salt = Some h" "length db < MAX_USERS" "u \<notin> ur_username ` set db"
    "db' = db @ [\<lparr>ur_username = u, ur_password_hash = h, ur_enabled = True, ur_writable = False\<rparr>]"
    using change by (auto simp: ebind_Inr_iff hash_password_def ok_or_def list_ex_iff
        split: if_splits option.splits)
  have "isOk (parse_password_hash E h)" using laws h(1) by (auto simp: user_laws_def)
  moreover have "find_user u db = None" using h(3) by (simp add: find_user_None)
  ultimately show ?thesis
    using valid h AddUser name [OF AddUser]
    by (auto simp: valid_database_def check_users_iff find_user_append fun_eq_iff split: option.splits)
next
  case (ChangePassword salt u p)
  have policy: "ebind (hash_password E salt p) (\<lambda>h. Inr (r\<lparr>ur_password_hash := h\<rparr>)) = Inr r' \<Longrightarrow>
    ur_username r' = ur_username r \<and> isOk (parse_password_hash E (ur_password_hash r')) \<and>
    r' = r\<lparr>ur_password_hash := the (ae_argon2_hash E p salt)\<rparr>" for r r'
    using laws by (auto simp: ebind_Inr_iff hash_password_def ok_or_def user_laws_def split: option.splits)
  show ?thesis
    by (rule update_user_effect [OF change [unfolded ChangePassword change_of.simps] valid])
      (use policy in \<open>auto simp: ChangePassword fun_eq_iff\<close>)
next
  case (SetUserEnabled u b)
  show ?thesis
    by (rule update_user_effect [OF change [unfolded SetUserEnabled change_of.simps] valid])
      (auto simp: SetUserEnabled fun_eq_iff)
next
  case (SetUserWritable u b)
  show ?thesis
    by (rule update_user_effect [OF change [unfolded SetUserWritable change_of.simps] valid])
      (auto simp: SetUserWritable fun_eq_iff)
next
  case (RemoveUser u)
  have "distinct (map ur_username (filter (\<lambda>r. ur_username r \<noteq> u) db))" if "distinct (map ur_username db)"
    using that by (rule distinct_map_filter)
  then show ?thesis
    using change valid le_trans [OF length_filter_le [of "\<lambda>r. ur_username r \<noteq> u" db]]
    by (auto simp: RemoveUser Let_def valid_database_def check_users_iff find_user_filter fun_eq_iff split: if_splits)
qed

subsection \<open>The users file under the commands\<close>

definition same_users :: "auth_fs \<Rightarrow> auth_fs \<Rightarrow> bool" where
  "same_users s t \<longleftrightarrow> map_of (fs_entries t) PUsers = map_of (fs_entries s) PUsers"

lemma same_users_database: "same_users s t \<Longrightarrow> database_at E t = database_at E s"
  by (simp add: same_users_def database_at_def)

abbreviation users_kept :: "auth_fs \<Rightarrow> 'a aop \<Rightarrow> bool" where
  "users_kept s m \<equiv> preserves (same_users s) m"

lemma kept_io_call [pres_intros]: "users_kept s io_call"
  by (auto simp: preserves_def io_call_def same_users_def)

lemma kept_symlink_metadata [pres_intros]: "users_kept s (symlink_metadata p)"
  by (auto simp: preserves_def symlink_metadata_def)

lemma kept_path_exists [pres_intros]: "users_kept s (path_exists p)"
  by (auto simp: preserves_def path_exists_def split: sum.splits)

lemma kept_read_file [pres_intros]: "users_kept s (read_file p)"
proof -
  have "users_kept s (\<lambda>t. case map_of (fs_entries t) p of
     Some e \<Rightarrow> (case fe_node e of NFile b \<Rightarrow> (Inr b, t) | _ \<Rightarrow> (Inl (AeIo IoOther), t))
   | None \<Rightarrow> (Inl (AeIo IoNotFound), t))"
    by (auto simp: preserves_def split: option.splits fs_node.splits)
  then show ?thesis unfolding read_file_def by (intro pres_intros)
qed

lemma kept_validate_current_owner [pres_intros]: "users_kept s (validate_current_owner e)"
  by (auto simp: preserves_def validate_current_owner_def)

lemma kept_validate_private_directory [pres_intros]: "users_kept s (validate_private_directory p)"
  unfolding validate_private_directory_def by (intro pres_intros)

lemma kept_validate_private_file [pres_intros]: "users_kept s (validate_private_file p)"
  unfolding validate_private_file_def by (intro pres_intros)

lemma kept_validate_generation [pres_intros]: "users_kept s (validate_generation E x)"
  unfolding validate_generation_def by (cases x) (auto intro!: pres_intros split: option.split)

lemma kept_state_paths_resolve [pres_intros]: "users_kept s (state_paths_resolve E)"
  unfolding state_paths_resolve_def by (auto intro!: pres_intros split: option.split)

lemma kept_validate_server_state [pres_intros]: "users_kept s (validate_server_state E)"
  unfolding validate_server_state_def validate_identity_generations_def
  by (auto intro!: pres_intros simp: split_beta)

lemma kept_lock_path: "users_kept s (lock_path PUsersLock busy)"
proof -
  have "users_kept s (\<lambda>t. case map_of (fs_entries t) PUsersLock of
     Some _ \<Rightarrow> (Inl (AeInvalidData busy), t) | None \<Rightarrow> (Inr (), put_entry PUsersLock (NFile []) 384 t))"
    by (auto simp: preserves_def put_entry_def same_users_def split: option.splits)
  then show ?thesis unfolding lock_path_def by (intro pres_intros)
qed

lemma kept_remove_lock: "users_kept s (remove_file PUsersLock)"
proof -
  have "users_kept s (\<lambda>t. case map_of (fs_entries t) PUsersLock of
     None \<Rightarrow> (Inl (AeIo IoNotFound), t)
   | Some _ \<Rightarrow> (Inr (), t\<lparr>fs_entries := AList.delete PUsersLock (fs_entries t)\<rparr>))"
    by (auto simp: preserves_def same_users_def split: option.splits)
  then show ?thesis unfolding remove_file_def by (intro pres_intros)
qed

text \<open>Reading gives the database of the file.\<close>

lemma read_user_database_result:
  assumes "read_user_database E s = (Inr db, t)"
  shows "database_at E s = Some db"
  using assms
  by (auto simp: read_user_database_def read_json_def read_file_def io_call_def monad_simps map_err_def
      database_at_def valid_database_def isOk_def split: prod.splits sum.splits option.splits fs_node.splits if_splits)

lemma kept_read_user_database: "users_kept s (read_user_database E)"
  unfolding read_user_database_def read_json_def by (auto intro!: pres_intros)

lemma write_json_effect:
  assumes laws: "user_laws E" and "write_json E db s = (r, t)"
  shows "case r of Inl _ \<Rightarrow> same_users s t
    | Inr _ \<Rightarrow> valid_database E db \<longrightarrow> database_at E t = Some db"
  using assms
  by (auto simp: write_json_def write_private_def io_call_def put_entry_def monad_simps map_err_def same_users_def
      database_at_def user_laws_def split: prod.splits sum.splits if_splits)

lemma edit_body_effect:
  assumes laws: "user_laws E"
    and run: "mbind (read_user_database E) (\<lambda>db. mbind (mlift (change db)) (\<lambda>db'. write_json E db')) s = (r, t)"
  shows "case r of Inl _ \<Rightarrow> same_users s t
    | Inr _ \<Rightarrow> (\<exists>db db'. database_at E s = Some db \<and> change db = Inr db' \<and>
        (valid_database E db' \<longrightarrow> database_at E t = Some db'))"
proof -
  obtain r1 s1 where read: "read_user_database E s = (r1, s1)" by fastforce
  have kept: "same_users s s1"
    using preservesD [OF kept_read_user_database [of s E], of s] read by (simp add: same_users_def)
  show ?thesis
  proof (cases r1)
    case (Inl e)
    then show ?thesis using run read kept by (auto simp: mbind_def)
  next
    case (Inr db)
    show ?thesis
    proof (cases "change db")
      case (Inl e)
      then show ?thesis using run read kept \<open>r1 = Inr db\<close> by (auto simp: mbind_def mlift_def)
    next
      case (Inr db')
      then have "write_json E db' s1 = (r, t)"
        using run read \<open>r1 = Inr db\<close> by (auto simp: mbind_def mlift_def)
      from write_json_effect [OF laws this] show ?thesis
        using kept read_user_database_result [of E s db s1] read \<open>r1 = Inr db\<close> Inr
        by (auto simp: same_users_def split: sum.splits)
    qed
  qed
qed

lemma edit_users_effect:
  assumes laws: "user_laws E" and run: "edit_users E change s = (r, t)"
  shows "case r of Inl _ \<Rightarrow> same_users s t
    | Inr _ \<Rightarrow> (\<exists>db db'. database_at E s = Some db \<and> change db = Inr db' \<and>
        (valid_database E db' \<longrightarrow> database_at E t = Some db'))"
proof -
  let ?m = "mbind (read_user_database E) (\<lambda>db. mbind (mlift (change db)) (\<lambda>db'. write_json E db'))"
  let ?busy = "''another user-database administration operation is in progress''"
  obtain r1 s1 where lock: "lock_path PUsersLock ?busy s = (r1, s1)" by fastforce
  have s1: "same_users s s1"
    using preservesD [OF kept_lock_path, of s s ?busy] lock by (simp add: same_users_def)
  show ?thesis
  proof (cases r1)
    case (Inl e)
    then show ?thesis
      using run lock s1 by (auto simp: edit_users_def lock_user_database_def with_lock_def mbind_def)
  next
    case (Inr _)
    obtain r2 s2 where body: "?m s1 = (r2, s2)" by fastforce
    have t: "r = r2" "t = snd (remove_file PUsersLock s2)"
      using run lock body Inr
      by (auto simp: edit_users_def lock_user_database_def with_lock_def mbind_def [of "lock_path PUsersLock ?busy"] split_beta)
    have "same_users s2 t"
      using preservesD [OF kept_remove_lock, of s2 s2] t by (simp add: same_users_def)
    then show ?thesis
      using edit_body_effect [OF laws body] s1 t(1) same_users_database [of s s1 E] same_users_database [of s2 t E]
      by (auto simp: same_users_def split: sum.splits)
  qed
qed

fun edit_checks :: "user_edit \<Rightarrow> auth_error + unit" where
  "edit_checks (AddUser salt u p) = ebind (validate_username u) (\<lambda>_. validate_new_password p)"
| "edit_checks (ChangePassword salt u p) = ebind (validate_username u) (\<lambda>_. validate_new_password p)"
| "edit_checks (SetUserEnabled u b) = validate_username u"
| "edit_checks (SetUserWritable u b) = validate_username u"
| "edit_checks (RemoveUser u) = validate_username u"

lemma mlift_bind: "mbind (mlift r) (\<lambda>x. mbind (mlift (f x)) g) = mbind (mlift (ebind r f)) g"
  by (cases r) (simp_all add: fun_eq_iff mbind_def mlift_def)

lemma run_user_edit_eq: "run_user_edit E x =
  mbind (validate_server_state E) (\<lambda>_. mbind (mlift (edit_checks x)) (\<lambda>_. edit_users E (change_of E x)))"
proof -
  have fold: "(\<lambda>db. change_of E x db) = change_of E x" by simp
  show ?thesis
    by (cases x)
      (simp_all only: run_user_edit.simps edit_checks.simps add_user_def change_password_def set_user_enabled_def
        set_user_writable_def remove_user_def mlift_bind, simp_all only: change_of.simps [abs_def])
qed

lemma run_user_edit_cases:
  assumes run: "run_user_edit E x s = (r, t)"
  obtains (refused) e where "r = Inl e" "same_users s t"
  | (edited) s1 where "same_users s s1" "edit_users E (change_of E x) s1 = (r, t)" "isOk (edit_checks x)"
proof -
  obtain r1 s1 where state: "validate_server_state E s = (r1, s1)" by fastforce
  have s1: "same_users s s1"
    using preservesD [OF kept_validate_server_state, of s s E] state by (simp add: same_users_def)
  show thesis
    using run state s1 refused edited [OF s1]
    by (cases r1; cases "edit_checks x") (auto simp: run_user_edit_eq mbind_def mlift_def, metis)
qed

lemma run_user_edit_effect:
  assumes laws: "user_laws E" and run: "run_user_edit E x s = (r, t)"
  shows "case r of Inl _ \<Rightarrow> same_users s t
    | Inr _ \<Rightarrow> database_at E s \<noteq> None \<and> database_at E t \<noteq> None \<and> accounts E t = edit_accounts E x (accounts E s)"
  using run
proof (cases rule: run_user_edit_cases)
  case (edited s1)
  have name: "isOk (validate_username u)" if "x = AddUser salt u p" for salt u p
    using edited(3) that by (auto simp: isOk_def ebind_def split: sum.splits)
  have db: "valid_database E db" if "database_at E s1 = Some db" for db
    using that by (auto simp: database_at_def split: option.splits fs_node.splits sum.splits if_splits)
  show ?thesis
    using edit_users_effect [OF laws edited(2)] edited(1) db change_of_effect [OF laws, of _ x]
      name
      same_users_database [OF edited(1), of E]
    by (auto simp: same_users_def accounts_def [abs_def] split: sum.splits)
qed auto

end
