(* ===== verification/Demo_Daemon.thy ===== *)
theory Demo_Daemon
  imports Daemon_Service Auth_Props
begin

text \<open>
  A concrete daemon on which the properties are evaluated: small stand-ins for the external
  crates that satisfy the laws the code relies on, one user, one pairing, and an export with a
  few nodes.
\<close>

subsection \<open>External crates\<close>

definition demo_put_user :: "user_record \<Rightarrow> bytes" where
  "demo_put_user u = [length (ur_username u)] @ ur_username u @ [length (ur_password_hash u)] @
     ur_password_hash u @ [if ur_enabled u then 1 else 0, if ur_writable u then 1 else 0]"

fun demo_get_user :: "bytes \<Rightarrow> (user_record \<times> bytes) option" where
  "demo_get_user [] = None"
| "demo_get_user (n # r) = (case drop n r of
     [] \<Rightarrow> None
   | m # r' \<Rightarrow> (case drop m r' of
         e # w # rest \<Rightarrow> Some (\<lparr>ur_username = take n r, ur_password_hash = take m r',
             ur_enabled = (e = 1), ur_writable = (w = 1)\<rparr>, rest)
       | _ \<Rightarrow> None))"

lemma demo_get_put: "demo_get_user (demo_put_user u @ rest) = Some (u, rest)"
  by (simp add: demo_put_user_def)

lemma demo_get_shorter: "demo_get_user b = Some (u, rest) \<Longrightarrow> length rest < length b"
  by (cases b) (auto split: list.splits dest!: arg_cong [where f = length])

function demo_get_users :: "bytes \<Rightarrow> string + user_database" where
  "demo_get_users b = (if b = [] then Inr [] else case demo_get_user b of
     None \<Rightarrow> Inl ''bad'' | Some (u, rest) \<Rightarrow> ebind (demo_get_users rest) (\<lambda>us. Inr (u # us)))"
  by pat_completeness auto
termination by (relation "measure length") (auto dest: demo_get_shorter)

declare demo_get_users.simps [simp del]

lemma demo_users_roundtrip: "demo_get_users (concat (map demo_put_user db)) = Inr db"
proof (induction db)
  case (Cons u db)
  have "demo_put_user u @ concat (map demo_put_user db) \<noteq> []"
    by (simp add: demo_put_user_def)
  then show ?case
    using Cons demo_get_put [of u "concat (map demo_put_user db)"]
    by (subst demo_get_users.simps) simp
qed (simp add: demo_get_users.simps)

definition demo_crates :: auth_env where
  "demo_crates = \<lparr>
     ae_users_json = (\<lambda>db. Inr (concat (map demo_put_user db))),
     ae_users_parse = demo_get_users,
     ae_pairing_json = (\<lambda>r. Inr (pr_id r # pr_expires_unix_seconds r # pr_secret r)),
     ae_pairing_parse = (\<lambda>b. case b of i # e # s \<Rightarrow>
        Inr \<lparr>pr_id = i, pr_secret = s, pr_expires_unix_seconds = e\<rparr> | _ \<Rightarrow> Inl ''bad''),
     ae_phc_parse = (\<lambda>_. Some \<lparr>phc_algorithm = ''argon2id'', phc_version = Some 19,
        phc_params = Some \<lparr>ap_m_cost = 19456, ap_t_cost = 2, ap_p_cost = 1, ap_output_len = Some 32\<rparr>,
        phc_has_salt = True, phc_has_hash = True\<rparr>),
     ae_default_params = \<lparr>ap_m_cost = 19456, ap_t_cost = 2, ap_p_cost = 1, ap_output_len = Some 32\<rparr>,
     ae_argon2_hash = (\<lambda>p salt. Some (take 20 p)),
     ae_argon2_verify = (\<lambda>p h. h = take 20 p),
     ae_b64_encode = (\<lambda>s. map (\<lambda>b. b + 33) s @ replicate 7 65),
     ae_b64_decode = (\<lambda>c. Some (map (\<lambda>b. b - 33) (take 20 c))),
     ae_hmac = (\<lambda>key m. length key # key @ m),
     ae_parse_uuid = (\<lambda>b. Some b)\<rparr>"

lemma demo_user_laws: "user_laws demo_crates"
  by (auto simp: user_laws_def demo_crates_def demo_users_roundtrip parse_password_hash_def
      MAX_PASSWORD_HASH_LENGTH_def)

lemma demo_b64_laws: "b64_laws demo_crates"
  unfolding b64_laws_def encoded_secret_len
  by (simp add: demo_crates_def PAIRING_SECRET_LENGTH_def list_all_iff is_space_def comp_def)

subsection \<open>State\<close>

definition demo_alice :: bytes where "demo_alice = [97, 108]"
definition demo_password :: bytes where "demo_password = replicate 12 7"
definition demo_secret :: bytes where "demo_secret = replicate 20 3"

definition demo_record :: user_record where
  "demo_record = \<lparr>ur_username = demo_alice, ur_password_hash = demo_password, ur_enabled = True, ur_writable = True\<rparr>"

definition demo_dir :: fs_entry where
  "demo_dir = \<lparr>fe_node = NDirectory, fe_uid = 1, fe_mode = 448\<rparr>"

definition demo_file :: "bytes \<Rightarrow> fs_entry" where
  "demo_file b = \<lparr>fe_node = NFile b, fe_uid = 1, fe_mode = 384\<rparr>"

text \<open>A state directory with the given users and one pairing, which expires at 1060.\<close>

definition demo_state :: "user_database \<Rightarrow> auth_fs" where
  "demo_state db = \<lparr>fs_entries = [(PRoot, demo_dir), (PPairings, demo_dir), (PCert, demo_file [1]), (PKey, demo_file [2]),
      (PUsers, demo_file (concat (map demo_put_user db))),
      (PPairing 77, demo_file (77 # 1060 # ae_b64_encode demo_crates demo_secret))],
     fs_euid = 1, fs_faults = []\<rparr>"

text \<open>Unfolding the operations on a concrete state directory.\<close>

lemmas op_eval = mbind_def mret_def mfail_def mlift_def mput_def mget_def mignore_def Let_def

lemmas files_eval = io_call_def symlink_metadata_def path_exists_def read_file_def put_entry_def remove_file_def
  write_private_def create_dir_all_def validate_current_owner_def secure_directory_def
  validate_private_directory_def is_file_def validate_private_file_def lock_path_def with_lock_def
  lock_user_database_def state_paths_new_def demo_state_def demo_dir_def demo_file_def

lemma demo_server_state: "validate_server_state demo_crates (demo_state db) = (Inr (), demo_state db)"
  by (simp add: op_eval files_eval validate_server_state_def validate_identity_generations_def
      state_paths_resolve_def)

lemma demo_parses: "ae_users_parse demo_crates (concat (map demo_put_user db)) = Inr db"
  by (simp add: demo_crates_def demo_users_roundtrip)

lemma demo_check_users: "check_users demo_crates [] [] = Inr ()" "check_users demo_crates [] [demo_record] = Inr ()"
  by (simp_all add: demo_record_def validate_username_def ascii_alphanumeric_def parse_password_hash_def
      demo_alice_def demo_password_def demo_crates_def MAX_PASSWORD_HASH_LENGTH_def)

lemma demo_database:
  assumes "check_users demo_crates [] db = Inr ()" "length (concat (map demo_put_user db)) \<le> MAX_USER_DATABASE_SIZE"
    and "length db \<le> MAX_USERS"
  shows "read_user_database demo_crates (demo_state db) = (Inr db, demo_state db)"
  using assms by (simp add: read_user_database_def read_json_def op_eval files_eval demo_parses)

lemma demo_database_one: "read_user_database demo_crates (demo_state [demo_record]) = (Inr [demo_record], demo_state [demo_record])"
  by (rule demo_database [OF demo_check_users(2)])
    (simp_all add: demo_put_user_def demo_record_def demo_alice_def demo_password_def MAX_USER_DATABASE_SIZE_def
      MAX_USERS_def)

lemma demo_login:
  "verify_user_authorization demo_crates demo_alice demo_password (demo_state [demo_record]) =
     (Inr (Some \<lparr>ua_writable = True\<rparr>), demo_state [demo_record])"
proof -
  have priv: "validate_private_file PUsers (demo_state [demo_record]) = (Inr (), demo_state [demo_record])"
    by (simp add: op_eval files_eval)
  have hash: "isOk (parse_password_hash demo_crates demo_password)" "ae_argon2_verify demo_crates demo_password demo_password"
    by (simp_all add: parse_password_hash_def demo_password_def demo_crates_def MAX_PASSWORD_HASH_LENGTH_def)
  have user: "isOk (validate_username demo_alice)" "length demo_password \<le> MAX_PASSWORD_LENGTH"
    by (simp_all add: validate_username_def ascii_alphanumeric_def demo_alice_def demo_password_def MAX_PASSWORD_LENGTH_def)
  show ?thesis
    by (simp add: verify_user_authorization_def user not_less mbind_def priv demo_database_one mret_def hash, simp add: demo_record_def hash)
qed

subsection \<open>Export and connection\<close>

definition demo_entry :: "nat \<Rightarrow> metadata" where
  "demo_entry n = \<lparr>md_node = n, md_kind = KFile, md_size = 4, md_mode = 420, md_allocated_blocks = 8,
     md_revision = 1, md_accessed_unix_ms = 0, md_modified_unix_ms = 0, md_created_unix_ms = None,
     md_backup_unix_ms = None, md_link_count = 1, md_device_major = 0, md_device_minor = 0\<rparr>"

definition demo_caps :: "bool \<Rightarrow> filesystem_capabilities" where
  "demo_caps writable = \<lparr>server_epoch = 5, cap_writable = writable, supports_locks = True,
     supports_atomic_rename = True, supports_directory_sync = True, supports_preallocation = True,
     supports_symlinks = True, supports_xattrs = True, supports_hard_links = True,
     supports_special_nodes = False, supports_copy_file_range = True, supports_seek_data_hole = True,
     supports_safe_ioctl = True, supports_poll = False, supports_bmap = False,
     supports_exchange_data = False, supports_volume_rename = False, supports_backup_time = False,
     supports_readdirplus = True, persistent_node_ids = True, restart_lock_replay = True,
     cap_volume_name = [], cap_max_read_size = 1024, cap_max_write_size = 1024\<rparr>"

text \<open>The export's state is its write permission and the number of operations so far.\<close>

type_synonym demo_export_state = "bool \<times> nat"

definition demo_do :: "'a \<Rightarrow> (demo_export_state, 'a) xop" where
  "demo_do v x = (Inr v, (fst x, Suc (snd x)))"

definition demo_stats :: filesystem_stats where
  "demo_stats = \<lparr>fs_blocks = 1, fs_blocks_free = 1, fs_blocks_available = 1, fs_files = 1, fs_files_free = 1,
     fs_block_size = 512, fs_name_length = 255, fs_fragment_size = 512\<rparr>"

definition demo_view_entry :: "nat \<Rightarrow> directory_view_entry" where
  "demo_view_entry n = \<lparr>ve_entry = \<lparr>de_node = n, de_name = [97, n], de_kind = KFile, de_metadata = demo_entry n\<rparr>,
     ve_xattrs = Some \<lparr>xs_names = [[120]], xs_inline_values = [\<lparr>ix_name = [120], ix_value = [n]\<rparr>]\<rparr>\<rparr>"

definition demo_view :: directory_view where
  "demo_view = \<lparr>dv_revision = 3, dv_directory = demo_entry 1, dv_parent = demo_entry 0, dv_xattrs = None,
     dv_entries = [demo_view_entry 2, demo_view_entry 3, demo_view_entry 4]\<rparr>"

definition demo_export :: "demo_export_state export_api" where
  "demo_export = \<lparr>
     ex_capabilities = (\<lambda>x. demo_caps (fst x)),
     ex_set_write_authorized = (\<lambda>b x. (b, snd x)),
     ex_stat_filesystem = demo_do demo_stats,
     ex_metadata = (\<lambda>n x. if n < 10 then demo_do (demo_entry n) x else (Inl SNotFound, x)),
     ex_list_with_revision = (\<lambda>_. demo_do (1, [])),
     ex_directory_view = (\<lambda>_ _. demo_do demo_view),
     ex_open = (\<lambda>_ _. demo_do (50, 1, 4)),
     ex_create_file = (\<lambda>_ _ _ _. demo_do (demo_entry 6, 51, 1, 0)),
     ex_create_directory = (\<lambda>_ _ _. demo_do (demo_entry 7)),
     ex_create_symlink = (\<lambda>_ _ _. demo_do (demo_entry 7)),
     ex_remove_node = (\<lambda>_ _ _. demo_do ()),
     ex_rename_node = (\<lambda>_ _ _ _ _. demo_do ()),
     ex_create_hard_link = (\<lambda>_ _ _. demo_do (demo_entry 7)),
     ex_create_special_node = (\<lambda>_ _ _ _ _ _. demo_do (demo_entry 7)),
     ex_read_link = (\<lambda>_. demo_do [1]),
     ex_set_attributes = (\<lambda>_ _ _. demo_do (demo_entry 7)),
     ex_read = (\<lambda>_ _ len. demo_do (1, take len [1, 2, 3, 4])),
     ex_write_owned = (\<lambda>_ _ d. demo_do (length d, 2, 4)),
     ex_flush = (\<lambda>_ _. demo_do ()),
     ex_sync = (\<lambda>_ _. demo_do ()),
     ex_sync_directory = (\<lambda>_. demo_do ()),
     ex_allocate = (\<lambda>_ _ _. demo_do (2, 4)),
     ex_get_xattr = (\<lambda>_ _ _ _. demo_do (1, [9])),
     ex_set_xattr = (\<lambda>_ _ _ _ _. demo_do ()),
     ex_list_xattrs = (\<lambda>_. demo_do [[120]]),
     ex_remove_xattr = (\<lambda>_ _. demo_do ()),
     ex_copy_file_range = (\<lambda>_ _ _ _ _. demo_do (1, 2, 4)),
     ex_seek_file = (\<lambda>_ _ _. demo_do 0),
     ex_safe_ioctl = (\<lambda>_ _. demo_do 0),
     ex_map_block = (\<lambda>_ _ _. demo_do 0),
     ex_exchange_data = (\<lambda>_ _ _ _ _. demo_do ()),
     ex_set_volume_name = (\<lambda>_. demo_do ()),
     ex_forget_nodes = (\<lambda>_. demo_do ()),
     ex_get_lock = (\<lambda>_ _. demo_do None),
     ex_set_lock = (\<lambda>_ _ _. demo_do ()),
     ex_close = (\<lambda>_. demo_do ())\<rparr>"

definition demo_entry_size :: nat where
  "demo_entry_size = 600000"

text \<open>Sizes of frames: an entry is large, so that a view does not fit one frame.\<close>

definition demo_frame_size :: "response envelope \<Rightarrow> nat" where
  "demo_frame_size e = (case env_message e of
     RDirectoryView view \<Rightarrow> 100 + demo_entry_size * length (dv_entries view)
   | RDirectoryViewChunk chunk \<Rightarrow> 100 + demo_entry_size * length chunk
   | _ \<Rightarrow> 100)"

definition demo_daemon_env :: "demo_export_state daemon_env" where
  "demo_daemon_env = \<lparr>de_export = demo_export, de_auth = demo_crates, de_fingerprint = replicate 32 8,
     de_peer = 1, de_instant_floor = 0, de_ser = (\<lambda>e. Inr (replicate (demo_frame_size e) 0)),
     de_ser_entry = (\<lambda>_. Inr (replicate demo_entry_size 0))\<rparr>"

definition demo_config :: serve_config where
  "demo_config = \<lparr>sc_max_read_size = 1024, sc_max_write_size = 1024, sc_max_open_handles = 16,
     sc_max_known_nodes_per_connection = 16, sc_max_total_known_nodes = 64, sc_request_timeout_ms = 1000,
     sc_max_directory_entry_tasks = 4, sc_max_concurrent_requests = 4, sc_max_concurrent_connections = 4,
     sc_max_concurrent_auth = 2, sc_max_in_flight_read_bytes = 4096, sc_max_in_flight_write_bytes = 4096,
     sc_max_in_flight_write_bytes_per_connection = 2048, sc_auth_attempts_per_minute = 10\<rparr>"

definition demo_daemon :: "demo_export_state daemon" where
  "demo_daemon = connection_start demo_config (False, 0) (demo_state [demo_record])"

definition demo_clock :: clocks where
  "demo_clock = \<lparr>ck_instant = 100, ck_unix = Some 1010\<rparr>"

definition demo_request :: "nat \<Rightarrow> request \<Rightarrow> request envelope" where
  "demo_request rid message = envelope_new rid message"

lemma version_major_PROTOCOL_VERSION [simp]: "version_major PROTOCOL_VERSION = PROTOCOL_MAJOR"
  by (simp add: wire_defs)

end
