(* ===== verification/Daemon_Properties.thy ===== *)
theory Daemon_Properties
  imports Daemon_Limits Demo_Daemon
begin

text \<open>
  What the daemon guarantees of a connection: nothing of the export is reached before a login that
  the user database confirms, failed logins close the connection for further ones, and a request
  gives back every permit it takes.
\<close>

subsection \<open>What a verified login means\<close>

lemma find_enabled:
  "distinct (map ur_username db) \<Longrightarrow> List.find (\<lambda>u. ur_username u = n \<and> ur_enabled u) db = Some r \<longleftrightarrow>
     find_user n db = Some r \<and> ur_enabled r"
proof (induction db)
  case (Cons x db)
  have "List.find (\<lambda>u. ur_username u = n \<and> ur_enabled u) db \<noteq> Some r" if "n \<notin> ur_username ` set db"
    using that by (auto simp: find_Some_iff)
  then show ?case
    using Cons by (auto simp: find_user_def)
qed (simp add: find_user_def)

lemma verified_login:
  assumes "verify_user_authorization E u p s = (Inr (Some a), t)"
  obtains r where "accounts E s u = Some r" "ur_enabled r" "ae_argon2_verify E p (ur_password_hash r)"
    "a = \<lparr>ua_writable = ur_writable r\<rparr>"
proof -
  obtain s1 where s1: "validate_private_file PUsers s = (Inr (), s1)"
    and read: "mbind (read_user_database E) (\<lambda>database.
      case List.find (\<lambda>r. ur_username r = u \<and> ur_enabled r) database of
        None \<Rightarrow> mret None
      | Some user \<Rightarrow> if \<not> isOk (parse_password_hash E (ur_password_hash user))
          then mfail (AeInvalidData ''invalid password hash for user'')
          else if ae_argon2_verify E p (ur_password_hash user)
          then mret (Some \<lparr>ua_writable = ur_writable user\<rparr>) else mret None) s1 = (Inr (Some a), t)"
    using assms
    by (auto simp: verify_user_authorization_def mret_def
        mbind_def [of "validate_private_file PUsers"] split: if_splits prod.splits sum.splits)
  obtain db s2 where db: "read_user_database E s1 = (Inr db, s2)"
    using read by (auto simp: mbind_def split: prod.splits sum.splits)
  have "same_users s s1"
    using preservesD [OF kept_validate_private_file, of s s PUsers] s1 by (simp add: same_users_def)
  then have at: "database_at E s = Some db"
    using read_user_database_result [OF db] same_users_database by metis
  then have "distinct (map ur_username db)"
    by (auto simp: database_at_def valid_database_def check_users_iff
        split: option.splits fs_node.splits sum.splits if_splits)
  then show thesis
    using read db at that find_enabled [of db u]
    by (auto simp: mbind_def mret_def mfail_def accounts_def split: option.splits if_splits)
qed

subsection \<open>Frames\<close>

lemmas data_request_defs = handle_read_range_def handle_get_xattr_def handle_write_range_def handle_set_xattr_def
  read_range_call_def get_xattr_call_def write_range_call_def set_xattr_call_def reserve_read_def receive_body_def
  acquire_read_def drop_read_def reserve_write_def drop_write_def take_permits_def

lemma serve_frame:
  "dm_auth (snd (serve m ok d)) = dm_auth d" "dm_auth (snd (serve_view D n opts d)) = dm_auth d"
  "dm_auth (snd (handle_read_range D h off len d)) = dm_auth d"
  "dm_auth (snd (handle_get_xattr D n nm off len d)) = dm_auth d"
  "dm_auth (snd (handle_write_range D h off len recv d)) = dm_auth d"
  "dm_auth (snd (handle_set_xattr D n nm mode pos len recv d)) = dm_auth d"
  "dm_auth (snd (handle_metadata_batch D nodes d)) = dm_auth d"
  "dm_auth (snd (handle_pair D ck i nonce given d)) = dm_auth d"
  "dm_export (snd (handle_pair D ck i nonce given d)) = dm_export d"
  by (auto simp: serve_def serve_view_def handle_metadata_batch_def handle_pair_def on_files_def data_request_defs
      Let_def split: prod.splits sum.splits option.splits)

lemma respond_snd [simp]: "snd (respond x) = snd x"
  by (simp add: respond_def)

lemma handle_authenticate_cases:
  assumes run: "handle_authenticate D ck u p d = (r, d')"
  obtains (refused) "ca_authenticated (dm_auth d') = ca_authenticated (dm_auth d)" "dm_export d' = dm_export d"
      "ca_failed_attempts (dm_auth d) \<le> ca_failed_attempts (dm_auth d')"
  | (accepted) a fs where "\<not> ca_authenticated (dm_auth d)" "ca_failed_attempts (dm_auth d) < MAX_FAILED_ATTEMPTS"
      "p \<noteq> []" "verify_user_authorization (de_auth D) u p (dm_files d) = (Inr (Some a), fs)"
      "dm_export d' = ex_set_write_authorized (de_export D) (ua_writable a) (dm_export d)"
      "ca_authenticated (dm_auth d')"
proof -
  obtain ok l where lim: "allow (de_instant_floor D) (ck_instant ck) (de_peer D) (dm_limiter d) = (ok, l)"
    by fastforce
  obtain v fs where ver: "verify_user_authorization (de_auth D) u p (dm_files d) = (v, fs)" by fastforce
  show thesis
    using run lim ver refused accepted
    by (cases v; cases "projr v")
      (auto simp: handle_authenticate_def verify_login_def on_files_def count_failure_def Let_def
        MAX_FAILED_ATTEMPTS_def min_def split: if_splits sum.splits option.splits)
qed

text \<open>One request on a connection, seen from the login state and the export.\<close>

lemma dispatch_auth:
  assumes "\<And>u p. message \<noteq> ReqAuthenticate u p"
  shows "dm_auth (snd (dispatch D ck rid recv message d)) = dm_auth d"
    and "public_request message \<Longrightarrow> dm_export (snd (dispatch D ck rid recv message d)) = dm_export d"
  using assms by (cases message; simp add: serve_frame)+

lemma handle_cases:
  assumes run: "handle D ck req recv d = (reply, d')"
  obtains (kept) "dm_auth d' = dm_auth d" "\<not> ca_authenticated (dm_auth d) \<Longrightarrow> dm_export d' = dm_export d"
  | (login) u p r where "env_message req = ReqAuthenticate u p" "handle_authenticate D ck u p d = (r, d')"
proof (cases "version_major (env_version req) \<noteq> PROTOCOL_MAJOR \<or>
    \<not> (public_request (env_message req) \<or> ca_authenticated (dm_auth d))")
  case True
  then show thesis using run kept by (auto simp: handle_def Let_def split: if_splits)
next
  case False
  then have d': "d' = snd (dispatch D ck (env_request_id req) recv (env_message req) d)"
    using run by (auto simp: handle_def Let_def split: prod.splits if_splits)
  show thesis
  proof (cases "\<exists>u p. env_message req = ReqAuthenticate u p")
    case True
    then obtain u p where m: "env_message req = ReqAuthenticate u p" by blast
    then show thesis
      using d' login [OF m, of "fst (handle_authenticate D ck u p d)"] by simp
  next
    case other: False
    then show thesis
      using False d' dispatch_auth [of "env_message req" D ck "env_request_id req" recv d] by (intro kept) auto
  qed
qed

subsection \<open>Login\<close>

text \<open>C17. A request on a connection that is not logged in changes nothing of the export, and the
  connection stays logged out, unless the request is an authentication whose user exists in
  the database, is enabled, whose password the stored hash accepts, and fewer than five logins
  have failed on the connection; then the export's write permission is that user's.\<close>
theorem login_required:
  assumes "handle D ck req recv d = (reply, d')" "\<not> ca_authenticated (dm_auth d)"
  shows "\<not> ca_authenticated (dm_auth d') \<and> dm_export d' = dm_export d \<or>
    (\<exists>u p r. env_message req = ReqAuthenticate u p \<and> accounts (de_auth D) (dm_files d) u = Some r \<and>
       ur_enabled r \<and> ae_argon2_verify (de_auth D) p (ur_password_hash r) \<and> p \<noteq> [] \<and>
       ca_failed_attempts (dm_auth d) < MAX_FAILED_ATTEMPTS \<and>
       dm_export d' = ex_set_write_authorized (de_export D) (ur_writable r) (dm_export d))"
  using assms(1)
proof (cases rule: handle_cases)
  case kept
  then show ?thesis using assms(2) by simp
next
  case (login u p r)
  from login(2) show ?thesis
  proof (cases rule: handle_authenticate_cases)
    case refused
    then show ?thesis using assms(2) by simp
  next
    case (accepted a fs)
    from accepted(4) show ?thesis
      by (rule verified_login) (use login accepted in auto)
  qed
qed

definition demo_login_request :: "request envelope" where
  "demo_login_request = demo_request 9 (ReqAuthenticate demo_alice demo_password)"

definition demo_logged_in :: "demo_export_state daemon" where
  "demo_logged_in = demo_daemon\<lparr>dm_export := (True, 0), dm_auth := \<lparr>ca_authenticated = True, ca_failed_attempts = 0\<rparr>,
     dm_limiter := \<lparr>rl_attempts_per_peer = [(1, [100])], rl_maximum_attempts = 10\<rparr>\<rparr>"

lemma demo_authenticate:
  "handle demo_daemon_env demo_clock demo_login_request [] demo_daemon =
     (finish demo_daemon_env 9 (Respond RAuthenticateAck), demo_logged_in)"
proof -
  have user: "isOk (validate_username demo_alice)" "demo_password \<noteq> []" "length demo_password \<le> MAX_PASSWORD_LENGTH"
    by (simp_all add: validate_username_def ascii_alphanumeric_def demo_alice_def demo_password_def MAX_PASSWORD_LENGTH_def)
  have limit: "allow 0 100 1 (limiter_new 10) = (True, \<lparr>rl_attempts_per_peer = [(1, [100])], rl_maximum_attempts = 10\<rparr>)"
    by code_simp
  have "handle_authenticate demo_daemon_env demo_clock demo_alice demo_password demo_daemon =
      (RAuthenticateAck, demo_logged_in)"
    using limit demo_login user
    by (simp add: handle_authenticate_def demo_daemon_def connection_start_def connection_auth_default_def
        MAX_FAILED_ATTEMPTS_def demo_daemon_env_def demo_clock_def demo_config_def verify_login_def on_files_def
        demo_export_def demo_logged_in_def Let_def take_permits_def)
  then show ?thesis
    by (simp add: handle_def demo_login_request_def demo_request_def envelope_new_def respond_def
        version_major_PROTOCOL_VERSION)
qed

theorem login_required_witness:
  "\<not> ca_authenticated (dm_auth demo_daemon) \<and> ca_authenticated (dm_auth demo_logged_in) \<and>
   handle demo_daemon_env demo_clock demo_login_request [] demo_daemon =
     (finish demo_daemon_env 9 (Respond RAuthenticateAck), demo_logged_in) \<and>
   (\<exists>u p r. env_message demo_login_request = ReqAuthenticate u p \<and>
      accounts (de_auth demo_daemon_env) (dm_files demo_daemon) u = Some r \<and> ur_enabled r \<and>
      dm_export demo_logged_in = ex_set_write_authorized (de_export demo_daemon_env) (ur_writable r) (dm_export demo_daemon))"
proof -
  have "\<not> ca_authenticated (dm_auth demo_daemon)" "ca_authenticated (dm_auth demo_logged_in)"
    by (simp_all add: demo_daemon_def connection_start_def connection_auth_default_def demo_logged_in_def)
  then show ?thesis
    using login_required [OF demo_authenticate] demo_authenticate by auto
qed

fun run_requests :: "'x daemon_env \<Rightarrow> (clocks \<times> request envelope \<times> bytes) list \<Rightarrow> 'x daemon
    \<Rightarrow> reply_stream option list \<times> 'x daemon" where
  "run_requests D [] d = ([], d)"
| "run_requests D ((ck, req, recv) # rest) d =
     (let (reply, d1) = handle D ck req recv d; (replies, d2) = run_requests D rest d1
      in (reply # replies, d2))"

lemma handle_monotone:
  assumes "handle D ck req recv d = (reply, d')"
  shows "ca_authenticated (dm_auth d) \<Longrightarrow> ca_authenticated (dm_auth d')"
    and "ca_failed_attempts (dm_auth d) \<ge> MAX_FAILED_ATTEMPTS \<Longrightarrow> \<not> ca_authenticated (dm_auth d) \<Longrightarrow>
      ca_failed_attempts (dm_auth d') \<ge> MAX_FAILED_ATTEMPTS \<and> \<not> ca_authenticated (dm_auth d')"
  using assms by (cases rule: handle_cases; auto elim!: handle_authenticate_cases)+

lemma run_requests_monotone:
  "ca_authenticated (dm_auth d) \<Longrightarrow> ca_authenticated (dm_auth (snd (run_requests D rs d)))"
  by (induction rs arbitrary: d) (auto simp: split_beta handle_monotone(1) [OF surjective_pairing])

text \<open>Over any sequence of requests, a connection that is still logged out at the end has not
  changed the export, and one on which five logins have failed stays logged out.\<close>
lemma logged_out_export_untouched:
  assumes "\<not> ca_authenticated (dm_auth d)" "d' = snd (run_requests D rs d)"
    and "ca_failed_attempts (dm_auth d) \<ge> MAX_FAILED_ATTEMPTS \<or> \<not> ca_authenticated (dm_auth d')"
  shows "\<not> ca_authenticated (dm_auth d') \<and> dm_export d' = dm_export d"
  using assms
proof (induction rs arbitrary: d)
  case (Cons x rs)
  obtain ck req recv where x: "x = (ck, req, recv)" by (cases x)
  obtain reply d1 where run: "handle D ck req recv d = (reply, d1)" by fastforce
  have d': "d' = snd (run_requests D rs d1)"
    using Cons.prems(2) x run by (simp add: split_beta)
  have out: "\<not> ca_authenticated (dm_auth d1)"
    using Cons.prems(1,3) handle_monotone(2) [OF run] run_requests_monotone d' by metis
  have "dm_export d1 = dm_export d"
    using run out Cons.prems(1) by (cases rule: handle_cases) (auto elim!: handle_authenticate_cases)
  moreover have "\<not> ca_authenticated (dm_auth d') \<and> dm_export d' = dm_export d1"
    using Cons.IH [OF out d'] Cons.prems(1,3) handle_monotone(2) [OF run] by metis
  ultimately show ?case by simp
qed simp

subsection \<open>Permits\<close>

text \<open>A request gives back every permit it takes, on every path: the free permits of all four
  semaphores are the same before and after it.\<close>

definition free_permits :: "'x daemon \<Rightarrow> nat \<times> nat \<times> nat \<times> nat" where
  "free_permits d = (dm_auth_permits d, dm_read_permits d, dm_write_permits d, dm_connection_write_permits d)"

lemma free_permits_serve:
  "free_permits (snd (serve m ok d)) = free_permits d" "free_permits (snd (serve_view D n opts d)) = free_permits d"
  "free_permits (snd (handle_read_range D h off len d)) = free_permits d"
  "free_permits (snd (handle_get_xattr D n nm off len d)) = free_permits d"
  "free_permits (snd (handle_write_range D h off len recv d)) = free_permits d"
  "free_permits (snd (handle_set_xattr D n nm mode pos len recv d)) = free_permits d"
  "free_permits (snd (handle_metadata_batch D nodes d)) = free_permits d"
  "free_permits (snd (handle_pair D ck i nonce given d)) = free_permits d"
  by (auto simp: free_permits_def serve_def serve_view_def handle_metadata_batch_def handle_pair_def on_files_def
      data_request_defs Let_def split: prod.splits sum.splits option.splits)

lemma free_permits_authenticate: "free_permits (snd (handle_authenticate D ck u p d)) = free_permits d"
proof -
  have "free_permits (snd (verify_login D u p e)) = free_permits e" for e
    by (auto simp: free_permits_def verify_login_def on_files_def count_failure_def Let_def
        split: prod.splits sum.splits option.splits)
  then show ?thesis
    by (simp add: free_permits_def handle_authenticate_def count_failure_def take_permits_def Let_def split_beta)
qed

lemma free_permits_dispatch: "free_permits (snd (dispatch D ck rid recv message d)) = free_permits d"
  by (cases message) (simp_all add: free_permits_serve free_permits_authenticate)

lemma free_permits_handle: "free_permits (snd (handle D ck req recv d)) = free_permits d"
  using free_permits_dispatch [of D ck "env_request_id req" recv "env_message req" d]
  by (simp add: handle_def Let_def split_beta)

lemma validated_limits:
  assumes "validate_configuration c = Inr ()"
  shows "sc_max_read_size c \<le> U32_MAX" "sc_max_read_size c \<le> sc_max_in_flight_read_bytes c"
    "sc_max_write_size c \<le> U32_MAX" "sc_max_write_size c \<le> sc_max_in_flight_write_bytes c"
    "sc_max_write_size c \<le> sc_max_in_flight_write_bytes_per_connection c"
  using assms by (auto simp: validate_configuration_def ensure_def ebind_def split: if_splits sum.splits)

end
