(* ===== verification/Auth_Properties.thy ===== *)
theory Auth_Properties
  imports Demo_Daemon
begin

text \<open>
  The properties of the authentication crate: administration refines a map of accounts, and a
  pairing code stands for the secret of its record until the record expires.
\<close>

subsection \<open>Administration\<close>

fun run_user_edits :: "auth_env \<Rightarrow> user_edit list \<Rightarrow> auth_fs \<Rightarrow> (auth_error + unit) list \<times> auth_fs" where
  "run_user_edits E [] s = ([], s)"
| "run_user_edits E (x # xs) s =
     (let (r, s1) = run_user_edit E x s; (rs, s2) = run_user_edits E xs s1 in (r # rs, s2))"

fun edit_all :: "auth_env \<Rightarrow> (user_edit \<times> (auth_error + unit)) list \<Rightarrow> (bytes \<Rightarrow> user_record option)
    \<Rightarrow> bytes \<Rightarrow> user_record option" where
  "edit_all E [] m = m"
| "edit_all E ((x, r) # rest) m = edit_all E rest (if isOk r then edit_accounts E x m else m)"

text \<open>C20. Administration refines a map from user names to accounts: over any sequence of
  commands, with I/O failing at any point, the accounts the users file holds at the end are
  those of the map on which exactly the commands that returned success have acted; a command
  that returned an error has left every account as it was.\<close>
theorem user_edit_refines:
  assumes "user_laws E" "run_user_edits E xs s = (rs, t)"
  shows "length rs = length xs \<and> accounts E t = edit_all E (zip xs rs) (accounts E s)"
  using assms(2)
proof (induction xs arbitrary: s rs)
  case (Cons x xs)
  obtain r s1 where run: "run_user_edit E x s = (r, s1)" by fastforce
  obtain rest where rest: "run_user_edits E xs s1 = (rest, t)" "rs = r # rest"
    using Cons.prems run by (auto split: prod.splits)
  have "accounts E s1 = (if isOk r then edit_accounts E x (accounts E s) else accounts E s)"
    using run_user_edit_effect [OF assms(1) run] same_users_database [of s s1 E]
    by (auto simp: accounts_def [abs_def] isOk_def split: sum.splits)
  then show ?case
    using Cons.IH [OF rest(1)] rest(2) by simp
qed simp

lemma demo_parse_one: "ae_users_parse demo_crates (demo_put_user r) = Inr [r]" "ae_users_json demo_crates [r] = Inr (demo_put_user r)"
  using demo_parses [of "[r]"] by (simp_all add: demo_crates_def)

lemma demo_set_writable:
  "run_user_edit demo_crates (SetUserWritable demo_alice False) (demo_state [demo_record]) =
     (Inr (), demo_state [demo_record\<lparr>ur_writable := False\<rparr>])"
proof -
  have name: "validate_username demo_alice = Inr ()"
    by (simp add: validate_username_def ascii_alphanumeric_def demo_alice_def)
  have size: "length (demo_put_user demo_record) \<le> MAX_USER_DATABASE_SIZE"
     "length (demo_put_user (demo_record\<lparr>ur_writable := False\<rparr>)) \<le> MAX_USER_DATABASE_SIZE" "0 < MAX_USERS"
    by (simp_all add: demo_put_user_def demo_record_def demo_alice_def demo_password_def MAX_USER_DATABASE_SIZE_def
      MAX_USERS_def)
  have found: "update_user demo_alice f [demo_record] = ebind (f demo_record) (\<lambda>r. Inr [r])" for f
    by (simp add: update_user_def find_user_def demo_record_def)
  let ?db = "[demo_record\<lparr>ur_writable := False\<rparr>]" and ?lock = "[(PUsersLock, demo_file [])]"
  define locked where "locked db = demo_state db\<lparr>fs_entries := fs_entries (demo_state db) @ ?lock\<rparr>" for db
  have lock: "lock_path PUsersLock busy (demo_state [demo_record]) = (Inr (), locked [demo_record])" for busy
    by (simp add: locked_def op_eval files_eval)
  have read: "read_user_database demo_crates (locked [demo_record]) = (Inr [demo_record], locked [demo_record])"
    by (simp add: locked_def op_eval files_eval read_user_database_def read_json_def demo_parse_one size not_less
        demo_check_users del: check_users.simps)
  have stored: "write_json demo_crates ?db (locked [demo_record]) = (Inr (), locked ?db)"
    by (simp add: locked_def op_eval files_eval write_json_def demo_parse_one size not_less)
  have unlock: "snd (remove_file PUsersLock (locked ?db)) = demo_state ?db"
    by (simp add: locked_def op_eval files_eval)
  show ?thesis
    by (simp add: set_user_writable_def mbind_def mlift_def demo_server_state name edit_users_def lock_user_database_def
        with_lock_def lock read found stored unlock)
qed
theorem user_edit_refines_witness:
  "run_user_edits demo_crates [SetUserWritable demo_alice False] (demo_state [demo_record]) =
     ([Inr ()], demo_state [demo_record\<lparr>ur_writable := False\<rparr>]) \<and>
   accounts demo_crates (demo_state [demo_record\<lparr>ur_writable := False\<rparr>]) =
     edit_accounts demo_crates (SetUserWritable demo_alice False) (accounts demo_crates (demo_state [demo_record]))"
proof -
  have run: "run_user_edits demo_crates [SetUserWritable demo_alice False] (demo_state [demo_record]) =
     ([Inr ()], demo_state [demo_record\<lparr>ur_writable := False\<rparr>])"
    using demo_set_writable by simp
  show ?thesis
    using user_edit_refines [OF demo_user_laws run] run by simp
qed

subsection \<open>Pairing\<close>

text \<open>What the code relies on of the JSON of a pairing record: it reads back, and is small.\<close>

definition pairing_laws :: "auth_env \<Rightarrow> bool" where
  "pairing_laws E \<longleftrightarrow> b64_laws E \<and> (\<forall>r b. ae_pairing_json E r = Inr b \<longrightarrow>
     ae_pairing_parse E b = Inr r \<and>
     (length (pr_secret r) = encoded_len_b64 PAIRING_SECRET_LENGTH \<longrightarrow> length b \<le> MAX_PAIRING_RECORD_SIZE))"

lemma create_pairing_result:
  assumes "create_pairing E i secret (Some now) lifetime s = (Inr p, t)"
  obtains b where "ae_pairing_json E \<lparr>pr_id = i, pr_secret = ae_b64_encode E secret,
      pr_expires_unix_seconds = np_expires_unix_seconds p\<rparr> = Inr b"
    "map_of (fs_entries t) (PPairing i) = Some \<lparr>fe_node = NFile b, fe_uid = fs_euid t, fe_mode = 384\<rparr>"
    "p = \<lparr>np_id = i, np_code = format_code (ae_b64_encode E secret),
      np_expires_unix_seconds = saturating_add now lifetime\<rparr>"
  using assms
  by (auto simp: create_pairing_def Let_def mfail_def mlift_def now_seconds_def mret_def write_private_def mput_def
      put_entry_def update_Some_unfold map_err_def elim!: mbind_InrE split: if_splits sum.splits)

lemma load_pairing_at:
  assumes entry: "map_of (fs_entries t) (PPairing i) = Some \<lparr>fe_node = NFile b, fe_uid = fs_euid t, fe_mode = 384\<rparr>"
    and ok: "ae_pairing_parse E b = Inr r" "length b \<le> MAX_PAIRING_RECORD_SIZE" "pr_id r = i" "fs_faults t = []"
  shows "load_pairing E (Some later) i t = (if later < pr_expires_unix_seconds r
    then (decode_secret E ''invalid pairing secret'' ''invalid pairing secret length'' (pr_secret r), t)
    else (Inl AePairingExpired, t\<lparr>fs_entries := AList.delete (PPairing i) (fs_entries t)\<rparr>))"
proof -
  have priv: "validate_private_file (PPairing i) t = (Inr (), t)"
    using entry by (simp add: validate_private_file_def symlink_metadata_def validate_current_owner_def is_file_def
        mbind_def mret_def)
  have "io_call t = (Inr (), t)"
    using ok by (simp add: io_call_def)
  then have "read_json (ae_pairing_parse E) (PPairing i) MAX_PAIRING_RECORD_SIZE t = (Inr r, t)"
    "remove_file (PPairing i) t = (Inr (), t\<lparr>fs_entries := AList.delete (PPairing i) (fs_entries t)\<rparr>)"
    using entry ok by (simp_all add: read_json_def read_file_def remove_file_def mbind_def mlift_def)
  then show ?thesis
    using priv ok(3)
    by (simp add: load_pairing_def map_error_def mbind_def mlift_def now_seconds_def mignore_def mfail_def not_less)
qed

lemma created_pairing_loads:
  assumes "pairing_laws E" "length secret = PAIRING_SECRET_LENGTH"
    and "create_pairing E i secret (Some now) lifetime s = (Inr p, t)" "fs_faults t = []"
  shows "parse_pairing_code E (np_code p) = Inr secret \<and>
    np_expires_unix_seconds p = min (now + lifetime) U64_MAX \<and>
    load_pairing E (Some later) i t = (if later < np_expires_unix_seconds p then (Inr secret, t)
      else (Inl AePairingExpired, t\<lparr>fs_entries := AList.delete (PPairing i) (fs_entries t)\<rparr>))"
proof -
  from assms(3) obtain b where json: "ae_pairing_json E \<lparr>pr_id = i, pr_secret = ae_b64_encode E secret,
      pr_expires_unix_seconds = np_expires_unix_seconds p\<rparr> = Inr b"
    and entry: "map_of (fs_entries t) (PPairing i) = Some \<lparr>fe_node = NFile b, fe_uid = fs_euid t, fe_mode = 384\<rparr>"
    and p: "p = \<lparr>np_id = i, np_code = format_code (ae_b64_encode E secret),
      np_expires_unix_seconds = saturating_add now lifetime\<rparr>"
    by (rule create_pairing_result)
  have b64: "ae_b64_decode E (ae_b64_encode E secret) = Some secret"
    "length (ae_b64_encode E secret) = encoded_len_b64 PAIRING_SECRET_LENGTH"
    "list_all (\<lambda>b. \<not> is_space b) (ae_b64_encode E secret)"
    using assms(1,2) by (auto simp: pairing_laws_def b64_laws_def)
  then have decode: "decode_secret E bad short (ae_b64_encode E secret) = Inr secret" for bad short
    using assms(2) by (simp add: decode_secret_def)
  have "parse_pairing_code E (np_code p) = Inr secret"
    using b64 decode p by (simp add: parse_pairing_code_def normalize_format_code encoded_secret_len)
  moreover have "ae_pairing_parse E b = Inr \<lparr>pr_id = i, pr_secret = ae_b64_encode E secret,
      pr_expires_unix_seconds = np_expires_unix_seconds p\<rparr>" "length b \<le> MAX_PAIRING_RECORD_SIZE"
    using assms(1) json b64(2) by (auto simp: pairing_laws_def)
  ultimately show ?thesis
    using load_pairing_at [OF entry _ _ _ assms(4), of E _ later] p decode by (simp add: saturating_add_def)
qed

text \<open>The code that \<^verbatim>\<open>create_pairing\<close> hands to the administrator parses back to the secret of
  the record it stored, and so does the record: until the record's expiry loading it yields
  that secret and leaves the directory as it was, and from then on it reports the expiry and
  the record is gone.\<close>
lemma pairing_code_roundtrip:
  assumes "pairing_laws E" "length secret = PAIRING_SECRET_LENGTH"
    and "create_pairing E i secret (Some now) lifetime s = (Inr p, t)" "fs_faults t = []"
  shows "parse_pairing_code E (np_code p) = Inr secret \<and>
    np_expires_unix_seconds p = min (now + lifetime) U64_MAX \<and>
    load_pairing E (Some later) i t = (if later < np_expires_unix_seconds p then (Inr secret, t)
      else (Inl AePairingExpired, t\<lparr>fs_entries := AList.delete (PPairing i) (fs_entries t)\<rparr>))"
  by (rule created_pairing_loads [OF assms])

lemma demo_pairing_laws: "pairing_laws demo_crates"
  unfolding pairing_laws_def encoded_secret_len
  using demo_b64_laws by (auto simp: demo_crates_def MAX_PAIRING_RECORD_SIZE_def)

definition demo_paired_twice :: auth_fs where
  "demo_paired_twice = demo_state [demo_record]\<lparr>fs_entries := fs_entries (demo_state [demo_record]) @
     [(PPairing 78, demo_file (78 # 1060 # ae_b64_encode demo_crates demo_secret))]\<rparr>"

definition demo_new_pairing :: new_pairing where
  "demo_new_pairing = \<lparr>np_id = 78, np_code = format_code (ae_b64_encode demo_crates demo_secret),
     np_expires_unix_seconds = 1060\<rparr>"

lemma demo_create_pairing:
  "create_pairing demo_crates 78 demo_secret (Some 1000) 60 (demo_state [demo_record]) =
     (Inr demo_new_pairing, demo_paired_twice)"
proof -
  have dirs: "create_dir_all PPairings (demo_state [demo_record]) = (Inr (), demo_state [demo_record])"
    "secure_directory PPairings (demo_state [demo_record]) = (Inr (), demo_state [demo_record])"
    by (simp_all add: op_eval files_eval)
  have put: "write_private (PPairing 78) (78 # 1060 # ae_b64_encode demo_crates demo_secret) (demo_state [demo_record]) =
      (Inr (), demo_paired_twice)"
    by (simp add: demo_paired_twice_def op_eval files_eval)
  have clock: "saturating_add 1000 60 = 1060"
    by (simp add: saturating_add_def U64_MAX_def)
  have json: "ae_pairing_json demo_crates r = Inr (pr_id r # pr_expires_unix_seconds r # pr_secret r)" for r
    by (simp add: demo_crates_def)
  show ?thesis
    by (simp add: create_pairing_def mbind_def demo_server_state dirs put clock json MAX_PAIRING_LIFETIME_def mlift_def
        now_seconds_def mret_def demo_new_pairing_def Let_def)
qed

end
