(* ===== verification/System_Wire.thy ===== *)
theory System_Wire
  imports Client_Network Daemon_Properties Auth_Properties
begin

text \<open>
  The client and the daemon together. What the client's network layer relies on of its peer is
  the locale \<open>answering_peer\<close>: a request gets at most one reply, whose frames carry its identifier
  and the protocol version. The daemon behind an in-order stream provides it.
\<close>

subsection \<open>What the client relies on\<close>

locale answering_peer =
  fixes Q :: "'w quic" and answer :: "request \<Rightarrow> bytes \<Rightarrow> 'w \<Rightarrow> (response list \<times> bytes) option \<times> 'w"
    and dropped :: string
  assumes answers: "qc_exchange Q (envelope_new (fst (qc_fresh Q w)) m) c data (snd (qc_fresh Q w)) =
    (case answer m data w of
       (None, w') \<Rightarrow> (Inl dropped, w')
     | (Some (rs, body), w') \<Rightarrow>
         (Inr \<lparr>rs_frames = map (response_envelope (fst (qc_fresh Q w))) rs, rs_body = body\<rparr>, w'))"
begin

lemma open_stream_answer:
  assumes "answer m data (nw_world s) = (Some (rs, body), w)"
  shows "open_stream Q m data s = (Inr (fst (qc_fresh Q (nw_world s)),
    \<lparr>rs_frames = map (response_envelope (fst (qc_fresh Q (nw_world s)))) rs, rs_body = body\<rparr>), s\<lparr>nw_world := w\<rparr>)"
  using answers [of "nw_world s" m "nw_compression s" data] assms
  by (simp add: open_stream_def split_beta Let_def)

lemma open_stream_dropped:
  assumes "answer m data (nw_world s) = (None, w)"
  shows "open_stream Q m data s = (Inl (CeTransport dropped), s\<lparr>nw_world := w\<rparr>)"
  using answers [of "nw_world s" m "nw_compression s" data] assms
  by (simp add: open_stream_def split_beta Let_def)

lemma receive_own_frame:
  "receive_frame rid \<lparr>rs_frames = response_envelope rid r # frames, rs_body = body\<rparr> =
     Inr (r, \<lparr>rs_frames = frames, rs_body = body\<rparr>)"
  by (simp add: receive_frame_def response_envelope_def)

lemma request_answer:
  assumes "answer m data (nw_world s) = (Some (r # rs, body), w)"
  obtains frames where "request_with_data Q m data s =
    (Inr (r, \<lparr>rs_frames = frames, rs_body = body\<rparr>), s\<lparr>nw_world := w\<rparr>)"
  using open_stream_answer [OF assms] receive_own_frame
  by (simp add: request_with_data_def mbind_def mlift_def)

lemma ask_answer:
  assumes "answer m [] (nw_world s) = (Some (r # rs, body), w)"
  shows "ask Q m f s = (case f r of Some v \<Rightarrow> Inr v | None \<Rightarrow> Inl (response_error r), s\<lparr>nw_world := w\<rparr>)"
proof -
  from assms obtain frames where "request_with_data Q m [] s =
    (Inr (r, \<lparr>rs_frames = frames, rs_body = body\<rparr>), s\<lparr>nw_world := w\<rparr>)"
    by (rule request_answer)
  then show ?thesis
    by (cases "f r") (simp_all add: ask_def net_request_def mbind_def mret_def mfail_def)
qed

lemma collect_own_chunks:
  assumes "length acc + length (concat cs) \<le> MAX_DIRECTORY_ENTRIES"
  shows "collect_chunks rid acc (map (response_envelope rid) (map RDirectoryViewChunk cs @ [RDirectoryViewEnd])) =
    Inr (acc @ concat cs)"
  using assms by (induction cs arbitrary: acc) (simp_all add: response_envelope_def)

lemma view_answer_whole:
  assumes "answer (ReqListDirectoryView node options) [] (nw_world s) = (Some ([RDirectoryView view], body), w)"
  shows "list_directory_view_streamed Q node options s = (Inr view, s\<lparr>nw_world := w\<rparr>)"
  using open_stream_answer [OF assms]
  by (simp add: list_directory_view_streamed_def mbind_def mlift_def receive_own_frame mret_def)

lemma view_answer_chunks:
  assumes "answer (ReqListDirectoryView node options) [] (nw_world s) =
      (Some (RDirectoryViewStart revision directory parent xattrs count #
         map RDirectoryViewChunk cs @ [RDirectoryViewEnd], body), w)"
    and "length (concat cs) \<le> MAX_DIRECTORY_ENTRIES"
  shows "list_directory_view_streamed Q node options s = (Inr \<lparr>dv_revision = revision, dv_directory = directory,
      dv_parent = parent, dv_xattrs = xattrs, dv_entries = concat cs\<rparr>, s\<lparr>nw_world := w\<rparr>)"
  using open_stream_answer [OF assms(1)] collect_own_chunks [of "[]" cs] assms(2)
  by (simp add: list_directory_view_streamed_def mbind_def mlift_def receive_own_frame mret_def)

end

subsection \<open>The daemon as a peer\<close>

text \<open>
  The world of the wire: the number of the next request, which is its identifier, and the
  daemon. \<open>ck\<close> gives the clocks at a request.
\<close>

type_synonym 'x wire = "nat \<times> 'x daemon"

definition daemon_quic :: "'x daemon_env \<Rightarrow> (nat \<Rightarrow> clocks) \<Rightarrow> 'x wire quic" where
  "daemon_quic D ck = \<lparr>
     qc_fresh = (\<lambda>(n, d). (n, (Suc n, d))),
     qc_exchange = (\<lambda>req compressed data (n, d).
       let (reply, d') = handle D (ck n) req data d
       in (case reply of None \<Rightarrow> Inl ''stream ended'' | Some stream \<Rightarrow> Inr stream, (n, d')))\<rparr>"

definition daemon_answer ::
  "'x daemon_env \<Rightarrow> (nat \<Rightarrow> clocks) \<Rightarrow> request \<Rightarrow> bytes \<Rightarrow> 'x wire \<Rightarrow> (response list \<times> bytes) option \<times> 'x wire" where
  "daemon_answer D ck m data = (\<lambda>(n, d).
     let (reply, d') = handle D (ck (Suc n)) (envelope_new n m) data d
     in (map_option (\<lambda>stream. (map env_message (rs_frames stream), rs_body stream)) reply, (Suc n, d')))"

text \<open>Every frame the daemon writes belongs to the request it answers.\<close>

definition own_frames :: "request_id \<Rightarrow> response envelope list \<Rightarrow> bool" where
  "own_frames rid frames \<longleftrightarrow> frames = map (response_envelope rid) (map env_message frames)"

lemma own_frames_append [simp]: "own_frames rid (xs @ ys) \<longleftrightarrow> own_frames rid xs \<and> own_frames rid ys"
  by (auto simp: own_frames_def)

lemma own_frames_Nil [simp]: "own_frames rid []"
  by (simp add: own_frames_def)

lemma own_write_response: "write_response D rid r = Inr frames \<Longrightarrow> own_frames rid frames"
  by (auto simp: write_response_def own_frames_def response_envelope_def ebind_def split: sum.splits)

lemma own_stream_chunks: "stream_chunks D rid chunk n entries = Inr frames \<Longrightarrow> own_frames rid frames"
proof (induction entries arbitrary: chunk n frames)
  case Nil
  then show ?case by (auto split: if_splits dest: own_write_response)
next
  case (Cons e entries)
  then show ?case by (auto simp: ebind_Inr_iff split: if_splits dest!: own_write_response)
qed

lemma own_write_directory_view: "write_directory_view D rid view = Inr frames \<Longrightarrow> own_frames rid frames"
  by (auto simp: write_directory_view_def stream_directory_view_def ebind_Inr_iff
      dest!: own_write_response own_stream_chunks split: sum.splits codec_error.splits)

lemma own_finish: "finish D rid outc = Some stream \<Longrightarrow> own_frames rid (rs_frames stream)"
  by (auto simp: finish_def dest!: own_write_response own_write_directory_view
      split: outcome.splits sum.splits)

lemma own_handle: "handle D ck req data d = (Some stream, d') \<Longrightarrow> own_frames (env_request_id req) (rs_frames stream)"
  by (auto simp: handle_def Let_def split: if_splits prod.splits dest!: own_finish [OF sym] own_finish)

interpretation daemon_peer: answering_peer "daemon_quic D ck" "daemon_answer D ck" "''stream ended''" for D ck
proof
  fix w :: "'a wire" and m c data
  obtain n d where w: "w = (n, d)" by fastforce
  obtain reply d' where run: "handle D (ck (Suc n)) (envelope_new n m) data d = (reply, d')" by fastforce
  have frames: "rs_frames stream = map (response_envelope n) (map env_message (rs_frames stream))"
    if "reply = Some stream" for stream
    using own_handle [of D "ck (Suc n)" "envelope_new n m" data d stream d'] run that
    by (simp add: envelope_new_def own_frames_def)
  show "qc_exchange (daemon_quic D ck) (envelope_new (fst (qc_fresh (daemon_quic D ck) w)) m) c data
      (snd (qc_fresh (daemon_quic D ck) w)) =
    (case daemon_answer D ck m data w of
       (None, w') \<Rightarrow> (Inl ''stream ended'', w')
     | (Some (rs, body), w') \<Rightarrow> (Inr \<lparr>rs_frames = map (response_envelope (fst (qc_fresh (daemon_quic D ck) w))) rs,
         rs_body = body\<rparr>, w'))"
    using run frames w
    by (cases reply) (simp_all add: daemon_quic_def daemon_answer_def split_beta)
qed

subsection \<open>Answers of the daemon\<close>

definition fits :: "'x daemon_env \<Rightarrow> request_id \<Rightarrow> response \<Rightarrow> bool" where
  "fits D rid r \<longleftrightarrow> isOk (encode (de_ser D) (response_envelope rid r))"

lemma write_response_fits: "fits D rid r \<Longrightarrow> write_response D rid r = Inr [response_envelope rid r]"
  by (auto simp: fits_def write_response_def isOk_def ebind_def split: sum.splits)

lemma env_message_response [simp]: "env_message (response_envelope rid r) = r"
  by (simp add: response_envelope_def)

lemma handle_admitted:
  assumes "public_request m \<or> ca_authenticated (dm_auth d)" "dispatch D ck rid data m d = (outc, d')"
  shows "handle D ck (envelope_new rid m) data d = (finish D rid outc, d')"
  using assms by (simp add: handle_def envelope_new_def)

lemma daemon_answer_respond:
  assumes "public_request m \<or> ca_authenticated (dm_auth d)" "dispatch D (ck (Suc n)) n data m d = (Respond r, d')"
    and "fits D n r"
  shows "daemon_answer D ck m data (n, d) = (Some ([r], []), (Suc n, d'))"
  using handle_admitted [OF assms(1,2)] write_response_fits [OF assms(3)]
  by (simp add: daemon_answer_def finish_def)

end
