(* ===== verification/System_Properties.thy ===== *)
theory System_Properties
  imports System_Wire
begin

text \<open>
  Properties of the client's network layer talking to the daemon: streamed directory views
  arrive whole, and batched metadata agrees with single requests.
\<close>

subsection \<open>Directory views\<close>

definition entry_size :: "'x daemon_env \<Rightarrow> directory_view_entry \<Rightarrow> nat" where
  "entry_size D e = (case de_ser_entry D e of Inr b \<Rightarrow> length b | Inl _ \<Rightarrow> 0)"

definition entries_size :: "'x daemon_env \<Rightarrow> directory_view_entry list \<Rightarrow> nat" where
  "entries_size D es = sum_list (map (entry_size D) es)"

text \<open>
  What the daemon relies on of the serialiser: it does not fail, and a chunk is its entries plus
  an envelope that fits the reserve of the budget.
\<close>

definition view_laws :: "'x daemon_env \<Rightarrow> bool" where
  "view_laws D \<longleftrightarrow> (\<forall>e. \<exists>b. de_ser_entry D e = Inr b) \<and>
     (\<forall>e. \<exists>b. de_ser D e = Inr b) \<and>
     (\<forall>rid chunk. \<exists>b. de_ser D (response_envelope rid (RDirectoryViewChunk chunk)) = Inr b \<and>
        length b \<le> 16 * 1024 + entries_size D chunk)"

definition shed :: "'x daemon_env \<Rightarrow> directory_view_entry \<Rightarrow> directory_view_entry" where
  "shed D e = (case shed_entry D e of Inr (e', _) \<Rightarrow> e' | Inl _ \<Rightarrow> e)"

lemma shed_entry_result:
  assumes "view_laws D" "entry_size D (e\<lparr>ve_xattrs := None\<rparr>) \<le> DIRECTORY_VIEW_CHUNK_BUDGET"
  shows "shed_entry D e = Inr (shed D e, entry_size D (shed D e)) \<and>
    entry_size D (shed D e) \<le> DIRECTORY_VIEW_CHUNK_BUDGET \<and> ve_entry (shed D e) = ve_entry e \<and>
    (entry_size D e \<le> DIRECTORY_VIEW_CHUNK_BUDGET \<longrightarrow> shed D e = e)"
proof -
  have len: "encoded_len (de_ser_entry D) x = Inr (entry_size D x)" for x
    using assms(1) unfolding view_laws_def encoded_len_def entry_size_def
    by (metis ebind_simps(2) map_err_simps(2) sum.case(2))
  show ?thesis
    using assms(2) by (auto simp: shed_def shed_entry_def len Let_def)
qed

lemma chunk_fits:
  assumes "view_laws D" "entries_size D chunk \<le> DIRECTORY_VIEW_CHUNK_BUDGET"
  shows "fits D rid (RDirectoryViewChunk chunk)"
proof -
  obtain b where "de_ser D (response_envelope rid (RDirectoryViewChunk chunk)) = Inr b"
    "length b \<le> 16 * 1024 + entries_size D chunk"
    using assms(1) unfolding view_laws_def by blast
  then show ?thesis
    using assms(2) by (simp add: fits_def encode_def DIRECTORY_VIEW_CHUNK_BUDGET_def MAX_FRAME_SIZE_def)
qed

text \<open>The chunks of a view: frames that hold the entries in order.\<close>

definition chunk_frames :: "request_id \<Rightarrow> directory_view_entry list list \<Rightarrow> response envelope list" where
  "chunk_frames rid cs = map (\<lambda>c. response_envelope rid (RDirectoryViewChunk c)) cs"

lemma stream_chunks_result:
  assumes laws: "view_laws D"
    and small: "\<forall>e\<in>set entries. entry_size D (e\<lparr>ve_xattrs := None\<rparr>) \<le> DIRECTORY_VIEW_CHUNK_BUDGET"
    and size: "n = entries_size D chunk" "n \<le> DIRECTORY_VIEW_CHUNK_BUDGET"
  shows "\<exists>cs. stream_chunks D rid chunk n entries = Inr (chunk_frames rid cs) \<and>
    concat cs = chunk @ map (shed D) entries"
  using small size
proof (induction entries arbitrary: chunk n)
  case Nil
  then have "fits D rid (RDirectoryViewChunk chunk)" using chunk_fits [OF laws] by simp
  from write_response_fits [OF this] show ?case
    by (intro exI [of _ "if chunk = [] then [] else [chunk]"]) (simp add: chunk_frames_def)
next
  case (Cons e entries)
  have "fits D rid (RDirectoryViewChunk chunk)" using chunk_fits [OF laws] Cons.prems by simp
  note frame = write_response_fits [OF this]
  have shed: "shed_entry D e = Inr (shed D e, entry_size D (shed D e))"
    "entry_size D (shed D e) \<le> DIRECTORY_VIEW_CHUNK_BUDGET"
    using shed_entry_result [OF laws, of e] Cons.prems(1) by auto
  have small: "\<forall>e\<in>set entries. entry_size D (e\<lparr>ve_xattrs := None\<rparr>) \<le> DIRECTORY_VIEW_CHUNK_BUDGET"
    using Cons.prems(1) by simp
  show ?case
  proof (cases "chunk \<noteq> [] \<and> n + entry_size D (shed D e) > DIRECTORY_VIEW_CHUNK_BUDGET")
    case True
    obtain cs where "stream_chunks D rid [shed D e] (entry_size D (shed D e)) entries = Inr (chunk_frames rid cs)"
      "concat cs = [shed D e] @ map (shed D) entries"
      using Cons.IH [OF small, of _ "[shed D e]"] shed(2) by (auto simp: entries_size_def)
    then show ?thesis
      using True frame shed(1) by (intro exI [of _ "chunk # cs"]) (simp add: chunk_frames_def)
  next
    case False
    then have "n + entry_size D (shed D e) \<le> DIRECTORY_VIEW_CHUNK_BUDGET"
      using shed(2) Cons.prems(2) by (auto simp: entries_size_def)
    then obtain cs where "stream_chunks D rid (chunk @ [shed D e]) (n + entry_size D (shed D e)) entries =
        Inr (chunk_frames rid cs)" "concat cs = (chunk @ [shed D e]) @ map (shed D) entries"
      using Cons.IH [OF small, of _ "chunk @ [shed D e]"] Cons.prems(2) by (auto simp: entries_size_def)
    then show ?thesis
      using False shed(1) by (intro exI [of _ cs]) auto
  qed
qed

lemma view_frames:
  assumes laws: "view_laws D"
    and small: "\<forall>e\<in>set (dv_entries view). entry_size D (e\<lparr>ve_xattrs := None\<rparr>) \<le> DIRECTORY_VIEW_CHUNK_BUDGET"
    and ends: "fits D rid (RDirectoryViewStart (dv_revision view) (dv_directory view) (dv_parent view) (dv_xattrs view)
        (length (dv_entries view)))" "fits D rid RDirectoryViewEnd"
  obtains (whole) "write_directory_view D rid view = Inr [response_envelope rid (RDirectoryView view)]"
  | (chunks) cs where "write_directory_view D rid view = Inr (response_envelope rid (RDirectoryViewStart (dv_revision view)
        (dv_directory view) (dv_parent view) (dv_xattrs view) (length (dv_entries view))) #
        chunk_frames rid cs @ [response_envelope rid RDirectoryViewEnd])"
      "concat cs = map (shed D) (dv_entries view)"
proof (cases "fits D rid (RDirectoryView view)")
  case True
  from write_response_fits [OF this] show thesis
    by (intro whole) (simp add: write_directory_view_def)
next
  case False
  obtain b where b: "de_ser D (response_envelope rid (RDirectoryView view)) = Inr b"
    using laws unfolding view_laws_def by blast
  then have large: "write_response D rid (RDirectoryView view) = Inl (CTooLarge (length b))"
    using False by (auto simp: fits_def write_response_def encode_def split: if_splits)
  obtain cs where "stream_chunks D rid [] 0 (dv_entries view) = Inr (chunk_frames rid cs)"
    "concat cs = map (shed D) (dv_entries view)"
    using stream_chunks_result [OF laws small, of 0 "[]"] by (auto simp: entries_size_def)
  then show thesis
    using ends [THEN write_response_fits] large
    by (intro chunks [of cs]) (simp_all add: write_directory_view_def stream_directory_view_def)
qed

text \<open>C18. What the daemon streams is what the client assembles: when the export answers a
  directory view of at most the allowed number of entries, the client returns a view with the
  same revision, directory, parent and attributes and with every entry in order, whether the
  view fitted one frame or was cut into chunks; an entry loses extended attributes only when it
  is larger than a chunk by itself.\<close>
theorem directory_view_roundtrip:
  assumes "view_laws D" "ca_authenticated (dm_auth d)" "nw_world s = (n, d)"
    and "ex_directory_view (de_export D) node options (dm_export d) = (Inr view, x)"
    and "length (dv_entries view) \<le> MAX_DIRECTORY_ENTRIES"
    and "\<forall>e\<in>set (dv_entries view). entry_size D (e\<lparr>ve_xattrs := None\<rparr>) \<le> DIRECTORY_VIEW_CHUNK_BUDGET"
    and "fits D n (RDirectoryViewStart (dv_revision view) (dv_directory view) (dv_parent view) (dv_xattrs view)
        (length (dv_entries view)))" "fits D n RDirectoryViewEnd"
  shows "\<exists>view'. list_directory_view_streamed (daemon_quic D ck) node options s =
      (Inr view', s\<lparr>nw_world := (Suc n, d\<lparr>dm_export := x\<rparr>)\<rparr>) \<and>
    view'\<lparr>dv_entries := dv_entries view\<rparr> = view \<and>
    list_all2 (\<lambda>e e'. ve_entry e' = ve_entry e \<and>
      (entry_size D e \<le> DIRECTORY_VIEW_CHUNK_BUDGET \<longrightarrow> e' = e)) (dv_entries view) (dv_entries view')"
proof -
  let ?m = "ReqListDirectoryView node options"
  have "dispatch D (ck (Suc n)) n [] ?m d = (RespondView view, d\<lparr>dm_export := x\<rparr>)"
    using assms(4) by (simp add: serve_view_def)
  from handle_admitted [OF disjI2 [OF assms(2)] this]
  have answer: "daemon_answer D ck ?m [] (nw_world s) = (case write_directory_view D n view of
      Inr frames \<Rightarrow> Some (map env_message frames, []) | Inl _ \<Rightarrow> None, (Suc n, d\<lparr>dm_export := x\<rparr>))"
    using assms(3) by (simp add: daemon_answer_def finish_def split: sum.splits)
  from assms(1,6-8) show ?thesis
  proof (cases rule: view_frames)
    case whole
    then show ?thesis
      using daemon_peer.view_answer_whole [of D ck node options s view] answer
      by (auto simp: list_all2_same)
  next
    case (chunks cs)
    have entries: "length (concat cs) \<le> MAX_DIRECTORY_ENTRIES"
      using chunks(2) assms(5) by simp
    have "list_all2 (\<lambda>e e'. ve_entry e' = ve_entry e \<and> (entry_size D e \<le> DIRECTORY_VIEW_CHUNK_BUDGET \<longrightarrow> e' = e))
        (dv_entries view) (concat cs)"
      using shed_entry_result [OF assms(1)] assms(6) unfolding chunks(2)
      by (auto simp: list_all2_conv_all_nth)
    then show ?thesis
      using daemon_peer.view_answer_chunks [OF _ entries, of D ck node options s] answer chunks(1)
      by (simp add: chunk_frames_def comp_def)
  qed
qed

text \<open>The client connected to the concrete daemon.\<close>

definition demo_network :: "demo_export_state daemon \<Rightarrow> demo_export_state wire network" where
  "demo_network d = \<lparr>nw_server_version = PROTOCOL_VERSION, nw_compression = True, nw_world = (3, d)\<rparr>"

lemma demo_sizes:
  "entry_size demo_daemon_env e = demo_entry_size"
  "entries_size demo_daemon_env es = demo_entry_size * length es"
proof -
  show "entry_size demo_daemon_env e = demo_entry_size" for e
    by (simp add: entry_size_def demo_daemon_env_def)
  then show "entries_size demo_daemon_env es = demo_entry_size * length es"
    by (induction es) (simp_all add: entries_size_def)
qed

lemma demo_view_laws: "view_laws demo_daemon_env"
  unfolding view_laws_def demo_sizes by (simp add: demo_daemon_env_def demo_frame_size_def)

lemma demo_fits:
  "demo_frame_size (response_envelope rid r) \<le> MAX_FRAME_SIZE \<Longrightarrow> fits demo_daemon_env rid r"
  by (simp add: fits_def encode_def demo_daemon_env_def)

theorem directory_view_roundtrip_witness:
  "\<not> fits demo_daemon_env 3 (RDirectoryView demo_view) \<and> length (dv_entries demo_view) = 3 \<and>
   (\<exists>view'. list_directory_view_streamed (daemon_quic demo_daemon_env (\<lambda>_. demo_clock)) 1 NATIVE
        (demo_network demo_logged_in) =
      (Inr view', (demo_network demo_logged_in)\<lparr>nw_world := (4, demo_logged_in\<lparr>dm_export := (True, 1)\<rparr>)\<rparr>) \<and>
    map (de_name \<circ> ve_entry) (dv_entries view') = [[97, 2], [97, 3], [97, 4]])"
proof -
  have large: "\<not> fits demo_daemon_env 3 (RDirectoryView demo_view)"
    by (simp add: fits_def encode_def demo_daemon_env_def demo_frame_size_def demo_view_def MAX_FRAME_SIZE_def
        demo_entry_size_def)
  have ends: "fits demo_daemon_env 3 (RDirectoryViewStart a b c e f)" "fits demo_daemon_env 3 RDirectoryViewEnd" for a b c e f
    by (simp_all add: demo_fits demo_frame_size_def MAX_FRAME_SIZE_def)
  have state: "ca_authenticated (dm_auth demo_logged_in)" "nw_world (demo_network demo_logged_in) = (3, demo_logged_in)"
    "ex_directory_view (de_export demo_daemon_env) 1 NATIVE (dm_export demo_logged_in) = (Inr demo_view, (True, 1))"
    by (simp_all add: demo_logged_in_def demo_network_def demo_daemon_env_def demo_export_def demo_do_def)
  have len: "length (dv_entries demo_view) \<le> MAX_DIRECTORY_ENTRIES" "length (dv_entries demo_view) = 3"
    by (simp_all add: demo_view_def MAX_DIRECTORY_ENTRIES_def)
  obtain view' where view: "list_directory_view_streamed (daemon_quic demo_daemon_env (\<lambda>_. demo_clock)) 1 NATIVE
      (demo_network demo_logged_in) =
      (Inr view', (demo_network demo_logged_in)\<lparr>nw_world := (Suc 3, demo_logged_in\<lparr>dm_export := (True, 1)\<rparr>)\<rparr>)"
    and same: "list_all2 (\<lambda>e e'. ve_entry e' = ve_entry e \<and> e' = e) (dv_entries demo_view) (dv_entries view')"
    using directory_view_roundtrip [OF demo_view_laws state len(1) _ ends, of "\<lambda>_. demo_clock"]
    by (auto simp: demo_sizes DIRECTORY_VIEW_CHUNK_BUDGET_def MAX_FRAME_SIZE_def demo_entry_size_def)
  have "dv_entries view' = dv_entries demo_view"
    using same by (simp add: list_all2_conv_all_nth list_eq_iff_nth_eq)
  then show ?thesis
    using view large len(2) by (simp add: demo_view_def demo_view_entry_def)
qed

subsection \<open>Metadata batches\<close>

text \<open>What the daemon relies on: metadata, a batch of the largest size and errors fit a frame.\<close>

definition metadata_laws :: "'x daemon_env \<Rightarrow> bool" where
  "metadata_laws D \<longleftrightarrow> (\<forall>rid m. fits D rid (RMetadata m)) \<and> (\<forall>rid e. fits D rid (RError (protocol_of e))) \<and>
     (\<forall>rid bs. length bs \<le> MAX_METADATA_BATCH \<longrightarrow> fits D rid (RMetadataBatch bs))"

lemma length_batch_results: "length (fst (batch_results X nodes x)) = length nodes"
  by (induction nodes arbitrary: x) (simp_all add: split_beta Let_def)

lemma batch_results_append:
  "batch_results X (a @ b) x = (let (ra, x1) = batch_results X a x; (rb, x2) = batch_results X b x1 in (ra @ rb, x2))"
  by (induction a arbitrary: x) (simp_all add: split_beta Let_def)

text \<open>A single reply and a batched entry for the same node: the message of an error is dropped.\<close>

fun agrees :: "client_error + metadata \<Rightarrow> client_error + metadata \<Rightarrow> bool" where
  "agrees (Inr m) (Inr m') \<longleftrightarrow> m = m'"
| "agrees (Inl (CeServer code _)) (Inl (CeServer code' _)) \<longleftrightarrow> code = code'"
| "agrees _ _ \<longleftrightarrow> False"

text \<open>The client in state \<open>s\<close> after requests that left the export in state \<open>x\<close>.\<close>

definition served :: "'x wire network \<Rightarrow> nat \<Rightarrow> 'x daemon \<Rightarrow> 'x \<Rightarrow> 'x wire network" where
  "served s n d x = s\<lparr>nw_world := (n, d\<lparr>dm_export := x\<rparr>)\<rparr>"

lemma served_simps [simp]: "nw_world (served s n d x) = (n, d\<lparr>dm_export := x\<rparr>)"
  "served (served s n d x) n' (d\<lparr>dm_export := x\<rparr>) x' = served s n' d x'"
  "nw_server_version (served s n d x) = nw_server_version s"
  by (simp_all add: served_def)

lemma get_metadata_served:
  assumes laws: "metadata_laws D" and auth: "ca_authenticated (dm_auth d)" and world: "nw_world s = (n, d)"
    and run: "batch_results (de_export D) [node] (dm_export d) = ([entry], x)"
  obtains r where "net_get_metadata (daemon_quic D ck) node s = (r, served s (Suc n) d x)" "agrees (batched_result entry) r"
proof -
  obtain v where one: "ex_metadata (de_export D) node (dm_export d) = (v, x)"
    and entry: "entry = (case v of Inr metadata \<Rightarrow> Found metadata | Inl e \<Rightarrow> Failed (pe_code (protocol_of e)))"
    using run by (auto simp: Let_def split: prod.splits)
  define reply where "reply = (case v of Inr m \<Rightarrow> RMetadata m | Inl e \<Rightarrow> RError (protocol_of e))"
  have "dispatch D (ck (Suc n)) n [] (ReqGetMetadata node) d = (Respond reply, d\<lparr>dm_export := x\<rparr>)"
    using one by (auto simp: serve_def reply_def split: sum.splits)
  moreover have "fits D n reply"
    using laws by (auto simp: reply_def metadata_laws_def split: sum.splits)
  ultimately have "daemon_answer D ck (ReqGetMetadata node) [] (nw_world s) =
      (Some ([reply], []), (Suc n, d\<lparr>dm_export := x\<rparr>))"
    using daemon_answer_respond [OF disjI2 [OF auth]] world by simp
  note ask = daemon_peer.ask_answer [OF this]
  let ?f = "\<lambda>r. case r of RMetadata v \<Rightarrow> Some v | _ \<Rightarrow> None"
  show thesis
  proof (rule that)
    show "net_get_metadata (daemon_quic D ck) node s =
        (case ?f reply of Some v \<Rightarrow> Inr v | None \<Rightarrow> Inl (response_error reply), served s (Suc n) d x)"
      using ask by (simp add: net_get_metadata_def served_def)
    show "agrees (batched_result entry) (case ?f reply of Some v \<Rightarrow> Inr v | None \<Rightarrow> Inl (response_error reply))"
      by (cases v) (simp_all add: entry reply_def batched_result_def response_error_def)
  qed
qed

lemma metadata_each_served:
  assumes "metadata_laws D" "ca_authenticated (dm_auth d)" "nw_world s = (n, d)"
    and "batch_results (de_export D) nodes (dm_export d) = (bs, x)"
  shows "\<exists>rs k. metadata_each (daemon_quic D ck) nodes s = (Inr rs, served s k d x) \<and>
    list_all2 (\<lambda>b r. agrees (batched_result b) r) bs rs"
  using assms
proof (induction nodes arbitrary: s n d bs)
  case Nil
  then show ?case by (auto simp: mret_def served_def intro!: exI [of _ n])
next
  case (Cons node nodes)
  obtain b x1 where one: "batch_results (de_export D) [node] (dm_export d) = ([b], x1)"
    by (auto simp: split_beta Let_def)
  obtain rest where rest: "batch_results (de_export D) nodes x1 = (rest, x)" "bs = b # rest"
    using Cons.prems(4) one by (auto simp: Let_def split: prod.splits)
  obtain r where r: "net_get_metadata (daemon_quic D ck) node s = (r, served s (Suc n) d x1)"
    "agrees (batched_result b) r"
    using get_metadata_served [OF Cons.prems(1-3) one] by blast
  obtain rs k where "metadata_each (daemon_quic D ck) nodes (served s (Suc n) d x1) =
      (Inr rs, served (served s (Suc n) d x1) k (d\<lparr>dm_export := x1\<rparr>) x)"
    "list_all2 (\<lambda>b r. agrees (batched_result b) r) rest rs"
    using Cons.IH [OF Cons.prems(1), of "d\<lparr>dm_export := x1\<rparr>" "served s (Suc n) d x1" "Suc n" rest]
      Cons.prems(2) rest(1) by auto
  then show ?case
    using r rest(2) by (auto simp: mbind_def mtry_def mret_def)
qed

lemma metadata_chunk_served:
  assumes "metadata_laws D" "ca_authenticated (dm_auth d)" "nw_world s = (n, d)" "length chunk \<le> MAX_METADATA_BATCH"
    and "batch_results (de_export D) chunk (dm_export d) = (bs, x)"
  shows "metadata_chunk (daemon_quic D ck) chunk s = (Inr (map batched_result bs), served s (Suc n) d x)"
proof -
  have len: "length bs = length chunk"
    using length_batch_results [of "de_export D" chunk "dm_export d"] assms(5) by simp
  have "dispatch D (ck (Suc n)) n [] (ReqGetMetadataBatch chunk) d = (Respond (RMetadataBatch bs), d\<lparr>dm_export := x\<rparr>)"
    using assms(4,5) by (simp add: respond_def handle_metadata_batch_def)
  moreover have "fits D n (RMetadataBatch bs)"
    using assms(1,4) len by (simp add: metadata_laws_def)
  ultimately have "daemon_answer D ck (ReqGetMetadataBatch chunk) [] (nw_world s) =
      (Some ([RMetadataBatch bs], []), (Suc n, d\<lparr>dm_export := x\<rparr>))"
    using daemon_answer_respond [OF disjI2 [OF assms(2)]] assms(3) by simp
  then obtain frames where "request_with_data (daemon_quic D ck) (ReqGetMetadataBatch chunk) [] s =
      (Inr (RMetadataBatch bs, \<lparr>rs_frames = frames, rs_body = []\<rparr>), served s (Suc n) d x)"
    unfolding served_def by (rule daemon_peer.request_answer)
  then show ?thesis
    using len by (simp add: metadata_chunk_def net_request_def mbind_def mtry_def mret_def)
qed

lemma metadata_chunks_served:
  assumes "metadata_laws D" "ca_authenticated (dm_auth d)" "nw_world s = (n, d)"
    and "\<forall>c\<in>set cs. length c \<le> MAX_METADATA_BATCH"
    and "batch_results (de_export D) (concat cs) (dm_export d) = (bs, x)"
  shows "metadata_chunks (daemon_quic D ck) cs s = (Inr (map batched_result bs), served s (n + length cs) d x)"
  using assms
proof (induction cs arbitrary: s n d bs)
  case Nil
  then show ?case by (auto simp: mret_def served_def)
next
  case (Cons c cs)
  obtain b1 x1 where first: "batch_results (de_export D) c (dm_export d) = (b1, x1)" by fastforce
  then obtain b2 where rest: "batch_results (de_export D) (concat cs) x1 = (b2, x)" "bs = b1 @ b2"
    using Cons.prems(5) by (auto simp: batch_results_append split: prod.splits)
  have "metadata_chunk (daemon_quic D ck) c s = (Inr (map batched_result b1), served s (Suc n) d x1)"
    using metadata_chunk_served [OF Cons.prems(1-3) _ first] Cons.prems(4) by simp
  moreover have "metadata_chunks (daemon_quic D ck) cs (served s (Suc n) d x1) =
      (Inr (map batched_result b2), served (served s (Suc n) d x1) (Suc n + length cs) (d\<lparr>dm_export := x1\<rparr>) x)"
    using Cons.prems rest(1) by (intro Cons.IH) auto
  ultimately show ?case
    using rest(2) by (simp add: mbind_def mret_def)
qed

lemma concat_chunks: "n > 0 \<Longrightarrow> concat (chunks n xs) = xs \<and> (\<forall>c\<in>set (chunks n xs). length c \<le> n)"
proof (induction n xs rule: chunks.induct)
  case (1 n xs)
  then show ?case by (subst (1 2) chunks.simps) auto
qed

text \<open>C19. Asking for many nodes at once is the same as asking for each: against a daemon that
  understands batches the two give, for every node in order, the same metadata or an error
  with the same code, and leave the export in the same state, for any number of nodes.\<close>
theorem metadata_batch_equivalent:
  assumes "metadata_laws D" "ca_authenticated (dm_auth d)" "nw_world s = (n, d)"
    and "nw_server_version s = PROTOCOL_VERSION"
  shows "\<exists>batched single x k k'.
    get_metadata_batch (daemon_quic D ck) nodes s = (Inr batched, served s k d x) \<and>
    metadata_each (daemon_quic D ck) nodes s = (Inr single, served s k' d x) \<and>
    length batched = length nodes \<and> list_all2 agrees batched single"
proof -
  obtain bs x where run: "batch_results (de_export D) nodes (dm_export d) = (bs, x)" by fastforce
  obtain rs k' where each: "metadata_each (daemon_quic D ck) nodes s = (Inr rs, served s k' d x)"
    "list_all2 (\<lambda>b r. agrees (batched_result b) r) bs rs"
    using metadata_each_served [OF assms(1-3) run] by blast
  have len: "length bs = length nodes"
    using length_batch_results [of "de_export D" nodes "dm_export d"] run by simp
  have "\<exists>k. get_metadata_batch (daemon_quic D ck) nodes s = (Inr (map batched_result bs), served s k d x)"
  proof (cases "nodes = []")
    case True
    then show ?thesis
      using run assms(3) by (auto simp: get_metadata_batch_def served_def intro!: exI [of _ n])
  next
    case False
    have "peer_supports_metadata_batch PROTOCOL_VERSION"
      by (simp add: peer_supports_metadata_batch_def wire_defs)
    then show ?thesis
      using metadata_chunks_served [OF assms(1-3), of "chunks MAX_METADATA_BATCH nodes" bs x ck] run
        concat_chunks [of MAX_METADATA_BATCH nodes] False assms(4)
      by (auto simp: get_metadata_batch_def MAX_METADATA_BATCH_def)
  qed
  then obtain k where batched: "get_metadata_batch (daemon_quic D ck) nodes s =
      (Inr (map batched_result bs), served s k d x)" by blast
  show ?thesis
    by (intro exI conjI, rule batched, rule each(1)) (use len each(2) in \<open>simp_all add: list_all2_map1\<close>)
qed

theorem metadata_batch_equivalent_witness:
  "\<exists>batched single x k k'.
    get_metadata_batch (daemon_quic demo_daemon_env (\<lambda>_. demo_clock)) [2, 50] (demo_network demo_logged_in) =
      (Inr batched, served (demo_network demo_logged_in) k demo_logged_in x) \<and>
    metadata_each (daemon_quic demo_daemon_env (\<lambda>_. demo_clock)) [2, 50] (demo_network demo_logged_in) =
      (Inr single, served (demo_network demo_logged_in) k' demo_logged_in x) \<and>
    length batched = length [2 :: nat, 50] \<and> list_all2 agrees batched single"
proof -
  have laws: "metadata_laws demo_daemon_env"
    by (simp add: metadata_laws_def demo_fits demo_frame_size_def MAX_FRAME_SIZE_def)
  show ?thesis
    by (rule metadata_batch_equivalent [OF laws, of demo_logged_in "demo_network demo_logged_in" 3])
      (simp_all add: demo_logged_in_def demo_network_def)
qed

end
