(* ===== verification/Pairing_Properties.thy ===== *)
theory Pairing_Properties
  imports System_Properties
begin

text \<open>
  Pairing between the client and the daemon, from the code the administrator created to the
  pinned fingerprint, and the extended-attribute read of the client's network layer.
\<close>

subsection \<open>The daemon's side\<close>

lemma verify_client_proof_iff:
  "verify_client_proof E secret i fp nonce given \<longleftrightarrow> client_proof E secret i fp nonce = given"
  by (simp add: verify_client_proof_def client_proof_def verify_proof_def pairing_proof_def)

lemma verify_own_server_proof [simp]: "verify_server_proof E secret i fp nonce (server_proof E secret i fp nonce)"
  by (simp add: verify_server_proof_def server_proof_def verify_proof_def pairing_proof_def)

definition without_pairing :: "uuid \<Rightarrow> auth_fs \<Rightarrow> auth_fs" where
  "without_pairing i fs = fs\<lparr>fs_entries := AList.delete (PPairing i) (fs_entries fs)\<rparr>"

lemma handle_pair_loaded:
  assumes "load_pairing (de_auth D) (ck_unix ck) i (dm_files d) = (Inr secret, dm_files d)"
    and "map_of (fs_entries (dm_files d)) (PPairing i) = Some entry" "fs_faults (dm_files d) = []"
  shows "handle_pair D ck i nonce given d =
    (if client_proof (de_auth D) secret i (de_fingerprint D) nonce = given
     then (RPairingProof (de_fingerprint D) (server_proof (de_auth D) secret i (de_fingerprint D) nonce),
           d\<lparr>dm_files := without_pairing i (dm_files d)\<rparr>)
     else (authentication_error ''pairing code was not accepted'', d))"
proof -
  have "consume_pairing i (dm_files d) = (Inr (), without_pairing i (dm_files d))"
    using assms(2,3)
    by (simp add: consume_pairing_def map_error_def remove_file_def mbind_def io_call_def without_pairing_def)
  then show ?thesis
    using assms(1) by (simp add: handle_pair_def on_files_def verify_client_proof_iff)
qed

lemma handle_pair_missing:
  assumes "map_of (fs_entries (dm_files d)) (PPairing i) = None"
  shows "handle_pair D ck i nonce given d = (authentication_error ''pairing session is unavailable'', d)"
proof -
  have "load_pairing (de_auth D) (ck_unix ck) i (dm_files d) = (Inl AePairingNotFound, dm_files d)"
    using assms by (simp add: load_pairing_def map_error_def validate_private_file_def symlink_metadata_def mbind_def
        ok_or_def pairing_missing_def)
  then show ?thesis by (simp add: handle_pair_def on_files_def)
qed

subsection \<open>The client's side\<close>

lemma pair_answer:
  assumes "handle_pair D (ck (Suc n)) i nonce given d = (r, d')" "fits D n r" "nw_world s = (n, d)"
  shows "pairing_request (daemon_quic D ck) i nonce given s = (Inr r, s\<lparr>nw_world := (Suc n, d')\<rparr>)"
proof -
  have "dispatch D (ck (Suc n)) n [] (ReqPair i nonce given) d = (Respond r, d')"
    using assms(1) by (simp add: respond_def)
  then have "daemon_answer D ck (ReqPair i nonce given) [] (nw_world s) = (Some ([r], []), (Suc n, d'))"
    using daemon_answer_respond [of "ReqPair i nonce given"] assms(2,3) by simp
  from daemon_peer.open_stream_answer [OF this] show ?thesis
    by (simp add: pairing_request_def mbind_def response_envelope_def mret_def)
qed

lemma verify_pairing_refused:
  assumes "\<And>given. handle_pair D (ck (Suc n)) i nonce given d = (authentication_error message, d')"
    and "fits D n (authentication_error message)" "nw_world s = (n, d)"
  shows "\<exists>msg. fst (verify_pairing (daemon_quic D ck) E presented nonce i pairing_code s) = Inl (CeServer Unauthenticated msg)"
  using pair_answer [where ck = ck, OF assms]
  by (auto simp: verify_pairing_def mfail_def mbind_def authentication_error_def error_reply_def response_error_def
      split: sum.splits)

subsection \<open>Both sides\<close>

text \<open>C21. A client that enters the code of an unexpired pairing and sees the server's own
  certificate ends with that certificate's fingerprint; from then on the pairing is used up,
  and every further attempt under its identifier fails, whatever the code and the proof. A
  client that was shown another certificate, for which its proof differs, is refused, and the
  refusal leaves the pairing and all else of the daemon as it was.\<close>
theorem pairing_completes_once:
  assumes "pairing_laws (de_auth D)" "length secret = PAIRING_SECRET_LENGTH"
    and "create_pairing (de_auth D) i secret (Some now) lifetime fs = (Inr p, dm_files d)" "fs_faults (dm_files d) = []"
    and "nw_world s = (n, d)" "ck_unix (ck (Suc n)) = Some later" "later < np_expires_unix_seconds p"
    and "fits D n (RPairingProof (de_fingerprint D) (server_proof (de_auth D) secret i (de_fingerprint D) nonce))"
    and "fits D n (authentication_error ''pairing code was not accepted'')"
    and "fits D (Suc n) (authentication_error ''pairing session is unavailable'')"
  shows "(\<exists>s'. verify_pairing (daemon_quic D ck) (de_auth D) (de_fingerprint D) nonce i (np_code p) s =
        (Inr (de_fingerprint D), s') \<and>
      (\<forall>presented nonce' code. \<exists>msg. fst (verify_pairing (daemon_quic D ck) (de_auth D) presented nonce' i code s') =
        Inl (CeServer Unauthenticated msg))) \<and>
    (\<forall>presented. client_proof (de_auth D) secret i presented nonce \<noteq>
        client_proof (de_auth D) secret i (de_fingerprint D) nonce \<longrightarrow>
      verify_pairing (daemon_quic D ck) (de_auth D) presented nonce i (np_code p) s =
        (Inl (CeServer Unauthenticated ''pairing code was not accepted''), s\<lparr>nw_world := (Suc n, d)\<rparr>))"
proof (intro conjI allI impI)
  let ?Q = "daemon_quic D ck" and ?E = "de_auth D" and ?fp = "de_fingerprint D"
  note loads = created_pairing_loads [OF assms(1-4), of later]
  have code: "parse_pairing_code ?E (np_code p) = Inr secret" using loads by simp
  obtain entry where entry: "map_of (fs_entries (dm_files d)) (PPairing i) = Some entry"
    using assms(3) by (rule create_pairing_result)
  have pair: "handle_pair D (ck (Suc n)) i nonce given d = (if client_proof ?E secret i ?fp nonce = given
     then (RPairingProof ?fp (server_proof ?E secret i ?fp nonce), d\<lparr>dm_files := without_pairing i (dm_files d)\<rparr>)
     else (authentication_error ''pairing code was not accepted'', d))" for given
    using handle_pair_loaded [OF _ entry assms(4)] loads assms(6,7) by simp
  define s' where "s' = s\<lparr>nw_world := (Suc n, d\<lparr>dm_files := without_pairing i (dm_files d)\<rparr>)\<rparr>"
  have accepted: "verify_pairing ?Q ?E ?fp nonce i (np_code p) s = (Inr ?fp, s')"
    using pair_answer [where ck = ck, OF pair [of "client_proof ?E secret i ?fp nonce", simplified] assms(8,5)] code
    by (simp add: verify_pairing_def mbind_def mret_def s'_def)
  have gone: "handle_pair D ck' i nonce' given (d\<lparr>dm_files := without_pairing i (dm_files d)\<rparr>) =
      (authentication_error ''pairing session is unavailable'', d\<lparr>dm_files := without_pairing i (dm_files d)\<rparr>)"
    for ck' nonce' given
    by (rule handle_pair_missing) (simp add: without_pairing_def delete_conv')
  have refused: "\<exists>msg. fst (verify_pairing ?Q ?E presented nonce' i code s') = Inl (CeServer Unauthenticated msg)"
    for presented nonce' code
    by (rule verify_pairing_refused [where ck = ck, OF gone assms(10)]) (simp add: s'_def)
  show "\<exists>s'. verify_pairing ?Q ?E ?fp nonce i (np_code p) s = (Inr ?fp, s') \<and>
      (\<forall>presented nonce' code. \<exists>msg. fst (verify_pairing ?Q ?E presented nonce' i code s') =
        Inl (CeServer Unauthenticated msg))"
    using accepted refused by blast
  fix presented
  assume "client_proof ?E secret i presented nonce \<noteq> client_proof ?E secret i ?fp nonce"
  then have "handle_pair D (ck (Suc n)) i nonce (client_proof ?E secret i presented nonce) d =
      (authentication_error ''pairing code was not accepted'', d)"
    using pair by simp
  from pair_answer [where ck = ck, OF this assms(9,5)]
  show "verify_pairing ?Q ?E presented nonce i (np_code p) s =
      (Inl (CeServer Unauthenticated ''pairing code was not accepted''), s\<lparr>nw_world := (Suc n, d)\<rparr>)"
    using code by (simp add: verify_pairing_def mbind_def mfail_def authentication_error_def error_reply_def response_error_def)
qed

theorem pairing_completes_once_witness:
  "create_pairing demo_crates 78 demo_secret (Some 1000) 60 (demo_state [demo_record]) =
     (Inr demo_new_pairing, demo_paired_twice) \<and>
   (\<exists>s'. verify_pairing (daemon_quic demo_daemon_env (\<lambda>_. demo_clock)) demo_crates (replicate 32 8) [5] 78
        (np_code demo_new_pairing) (demo_network (demo_daemon\<lparr>dm_files := demo_paired_twice\<rparr>)) =
        (Inr (replicate 32 8), s')) \<and>
   fst (verify_pairing (daemon_quic demo_daemon_env (\<lambda>_. demo_clock)) demo_crates [1] [5] 78
        (np_code demo_new_pairing) (demo_network (demo_daemon\<lparr>dm_files := demo_paired_twice\<rparr>))) =
        Inl (CeServer Unauthenticated ''pairing code was not accepted'')"
proof -
  let ?d = "demo_daemon\<lparr>dm_files := demo_paired_twice\<rparr>"
  have env: "de_auth demo_daemon_env = demo_crates" "de_fingerprint demo_daemon_env = replicate 32 8"
    by (simp_all add: demo_daemon_env_def)
  have create: "create_pairing (de_auth demo_daemon_env) 78 demo_secret (Some 1000) 60 (demo_state [demo_record]) =
      (Inr demo_new_pairing, dm_files ?d)"
    using demo_create_pairing env by simp
  have state: "pairing_laws (de_auth demo_daemon_env)" "length demo_secret = PAIRING_SECRET_LENGTH" "fs_faults (dm_files ?d) = []"
    "nw_world (demo_network ?d) = (3, ?d)" "ck_unix demo_clock = Some 1010" "1010 < np_expires_unix_seconds demo_new_pairing"
    using demo_pairing_laws env
    by (simp_all add: demo_secret_def PAIRING_SECRET_LENGTH_def demo_paired_twice_def demo_state_def demo_network_def
        demo_clock_def demo_new_pairing_def)
  have small: "fits demo_daemon_env rid (RPairingProof f g)" "fits demo_daemon_env rid (authentication_error m)" for rid f g m
    by (simp_all add: demo_fits demo_frame_size_def MAX_FRAME_SIZE_def authentication_error_def error_reply_def)
  have "[1 :: nat] \<noteq> replicate 32 8" by (rule notI, drule arg_cong [where f = length]) simp
  then have other: "client_proof (de_auth demo_daemon_env) demo_secret 78 [1] [5] \<noteq>
      client_proof (de_auth demo_daemon_env) demo_secret 78 (de_fingerprint demo_daemon_env) [5]"
    unfolding env by (simp add: client_proof_def pairing_proof_def proof_message_def demo_crates_def)
  note both = pairing_completes_once [where ck = "\<lambda>_. demo_clock" and nonce = "[5]",
      OF state(1,2) create state(3-6) small(1) small(2) small(2)]
  from conjunct1 [OF both] obtain s' where accepted: "verify_pairing (daemon_quic demo_daemon_env (\<lambda>_. demo_clock)) demo_crates
      (replicate 32 8) [5] 78 (np_code demo_new_pairing) (demo_network ?d) = (Inr (replicate 32 8), s')"
    unfolding env by (elim exE conjE)
  from conjunct2 [OF both, THEN spec [of _ "[1]"], THEN mp, OF other]
  have refused: "fst (verify_pairing (daemon_quic demo_daemon_env (\<lambda>_. demo_clock)) demo_crates [1] [5] 78
      (np_code demo_new_pairing) (demo_network ?d)) = Inl (CeServer Unauthenticated ''pairing code was not accepted'')"
    unfolding env by (simp only: fst_conv)
  show ?thesis
    by (intro conjI exI, rule demo_create_pairing, rule accepted, rule refused)
qed

subsection \<open>Extended attributes\<close>

text \<open>A peer that answers a read with more bytes than were asked for is rejected, but the
  client takes the length it announces for an extended attribute on trust: it reads and returns
  all of it, whatever was asked for and however long it is.\<close>
lemma xattr_length_unchecked:
  assumes "answering_peer Q answer dropped" "len < length data" "len \<le> MAX_CLIENT_READ_SIZE"
    and "answer (ReqReadRange h offset len) [] (nw_world s) = (Some ([RReadData revision (length data)], data), w)"
    and "answer (ReqGetXattr node nm offset len) [] (nw_world s) = (Some ([RXattrData (length data) total_size], data), w)"
  shows "net_read_range_versioned Q h offset len s = (Inl CeUnexpectedResponse, s\<lparr>nw_world := w\<rparr>) \<and>
    net_get_xattr Q node nm offset len s = (Inr (total_size, data), s\<lparr>nw_world := w\<rparr>)"
proof
  obtain frames where "request_with_data Q (ReqReadRange h offset len) [] s =
      (Inr (RReadData revision (length data), \<lparr>rs_frames = frames, rs_body = data\<rparr>), s\<lparr>nw_world := w\<rparr>)"
    by (rule answering_peer.request_answer [OF assms(1,4)])
  then show "net_read_range_versioned Q h offset len s = (Inl CeUnexpectedResponse, s\<lparr>nw_world := w\<rparr>)"
    using assms(2,3) by (simp add: net_read_range_versioned_def net_request_def mbind_def mfail_def)
  obtain frames where "request_with_data Q (ReqGetXattr node nm offset len) [] s =
      (Inr (RXattrData (length data) total_size, \<lparr>rs_frames = frames, rs_body = data\<rparr>), s\<lparr>nw_world := w\<rparr>)"
    by (rule answering_peer.request_answer [OF assms(1,5)])
  then show "net_get_xattr Q node nm offset len s = (Inr (total_size, data), s\<lparr>nw_world := w\<rparr>)"
    using assms(3) by (simp add: net_get_xattr_def net_request_def mbind_def mlift_def receive_exact_def mret_def)
qed

text \<open>A peer that answers every read with three bytes.\<close>

definition long_answer :: "request \<Rightarrow> bytes \<Rightarrow> nat \<Rightarrow> (response list \<times> bytes) option \<times> nat" where
  "long_answer m data w = (case m of
     ReqReadRange _ _ _ \<Rightarrow> (Some ([RReadData 1 3], [7, 8, 9]), Suc w)
   | ReqGetXattr _ _ _ _ \<Rightarrow> (Some ([RXattrData 3 3], [7, 8, 9]), Suc w)
   | _ \<Rightarrow> (None, Suc w))"

definition long_peer :: "nat quic" where
  "long_peer = \<lparr>qc_fresh = (\<lambda>w. (w, w)), qc_exchange = (\<lambda>req c data w.
     case long_answer (env_message req) data w of
       (None, w') \<Rightarrow> (Inl [], w')
     | (Some (rs, body), w') \<Rightarrow> (Inr \<lparr>rs_frames = map (response_envelope (env_request_id req)) rs, rs_body = body\<rparr>, w'))\<rparr>"

lemma long_peer_answers: "answering_peer long_peer long_answer []"
  by unfold_locales (simp add: long_peer_def envelope_new_def split: prod.splits option.splits)

end
