(* ===== verification/Client_Prefetch.thy ===== *)
theory Client_Prefetch
  imports Cache_Ranges
begin

text \<open>
  Crate \<^verbatim>\<open>crates/client-core\<close>, file \<^verbatim>\<open>cached.rs\<close>: the read-ahead controller \<^verbatim>\<open>SequentialPrefetcher\<close> of
  one open file, and the number of permits a speculative fetch takes. Durations are milliseconds.
\<close>

definition SMALL_READ_AHEAD_BLOCK_SIZE :: u64 where "SMALL_READ_AHEAD_BLOCK_SIZE = 1024 * 1024"
definition SMALL_READ_THRESHOLD :: u64 where "SMALL_READ_THRESHOLD = 1024 * 1024"
definition DEFAULT_READ_AHEAD_MAX_BYTES :: u64 where "DEFAULT_READ_AHEAD_MAX_BYTES = 64 * 1024 * 1024"
definition SEQUENTIAL_TRIGGER :: u64 where "SEQUENTIAL_TRIGGER = 2"
definition PRIME_WINDOW_BLOCKS :: u64 where "PRIME_WINDOW_BLOCKS = 2"
definition INITIAL_ACTIVE_WINDOW_BLOCKS :: u64 where "INITIAL_ACTIVE_WINDOW_BLOCKS = 4"
definition SEQUENTIAL_SLACK_BLOCKS :: u64 where "SEQUENTIAL_SLACK_BLOCKS = 1"
definition MAX_PREFETCH_STREAMS :: usize where "MAX_PREFETCH_STREAMS = 4"
definition DEMAND_STALL_FLOOR :: nat where "DEMAND_STALL_FLOOR = 10"
definition PREFETCH_PERMIT_UNIT :: u64 where "PREFETCH_PERMIT_UNIT = 64 * 1024"
definition SCHEDULE_BURST_BLOCKS :: u64 where "SCHEDULE_BURST_BLOCKS = 8"
definition PREFETCH_MAX_INFLIGHT_BYTES :: u64 where "PREFETCH_MAX_INFLIGHT_BYTES = 32 * 1024 * 1024"
definition PREFETCH_MAX_CONCURRENT_FETCHES :: usize where "PREFETCH_MAX_CONCURRENT_FETCHES = 8"
definition STALE_REVISION_RETRIES :: nat where "STALE_REVISION_RETRIES = 3"

record prefetch_stream =
  st_id :: u64
  st_last_touch :: u64
  st_active :: bool
  st_next_expected :: u64
  st_run :: u64
  st_cursor :: u64
  st_window_blocks :: u64
  st_inflight :: u64
  st_bytes_since_growth :: u64

record prefetcher =
  sp_revision :: u64
  sp_next_stream_id :: u64
  sp_touch_counter :: u64
  sp_streams :: "prefetch_stream list"

definition prefetcher_default :: prefetcher where
  "prefetcher_default = \<lparr>sp_revision = 0, sp_next_stream_id = 0, sp_touch_counter = 0, sp_streams = []\<rparr>"

subsection \<open>Scheduling\<close>

definition block_key :: "node_id \<Rightarrow> u64 \<Rightarrow> u64 \<Rightarrow> u64 \<Rightarrow> range_key" where
  "block_key node revision offset len =
     \<lparr>rg_file = \<lparr>rk_node = node, rk_revision = revision\<rparr>, rg_offset = offset, rg_length = len\<rparr>"

text \<open>The loop of \<^verbatim>\<open>schedule\<close>: the budget counts down; the blocks and the cursor after them.\<close>

fun schedule_loop :: "node_id \<Rightarrow> u64 \<Rightarrow> u64 \<Rightarrow> u64 \<Rightarrow> u64 \<Rightarrow> nat \<Rightarrow> u64 \<Rightarrow> range_key list \<times> u64" where
  "schedule_loop node revision sz block_size target 0 cursor = ([], cursor)"
| "schedule_loop node revision sz block_size target (Suc budget) cursor =
     (if cursor < target
      then let len = min block_size (sz - cursor) in
        if len = 0 then ([], cursor)
        else let (blocks, cursor') = schedule_loop node revision sz block_size target budget
                   (saturating_add cursor block_size)
             in (block_key node revision cursor len # blocks, cursor')
      else ([], cursor))"

definition schedule :: "prefetch_stream \<Rightarrow> node_id \<Rightarrow> u64 \<Rightarrow> u64 \<Rightarrow> u64 \<Rightarrow> u64 \<Rightarrow> u64
    \<Rightarrow> range_key list \<times> prefetch_stream" where
  "schedule stream node revision read_end sz block_size cap_blocks =
     (let window = min (st_window_blocks stream) cap_blocks in
      if window = 0 \<or> sz = 0 then ([], stream)
      else let demand_block_end = min (saturating_mul (div_ceil read_end block_size) block_size) sz;
               target = min (saturating_add demand_block_end (saturating_mul window block_size)) sz;
               budget = min (window - st_inflight stream) SCHEDULE_BURST_BLOCKS;
               (blocks, cursor) = schedule_loop node revision sz block_size target budget
                 (max (st_cursor stream) demand_block_end)
           in (blocks, stream\<lparr>st_cursor := cursor,
                 st_inflight := saturating_add (st_inflight stream) (length blocks)\<rparr>))"

subsection \<open>Observing a demand read\<close>

definition continues :: "u64 \<Rightarrow> u64 \<Rightarrow> prefetch_stream \<Rightarrow> bool" where
  "continues slack offset stream \<longleftrightarrow> offset \<le> saturating_add (st_next_expected stream) slack \<and>
     saturating_add offset slack \<ge> st_next_expected stream"

definition abs_diff :: "u64 \<Rightarrow> u64 \<Rightarrow> u64" where
  "abs_diff a b = (if a \<le> b then b - a else a - b)"

definition matching_stream :: "u64 \<Rightarrow> u64 \<Rightarrow> prefetch_stream list \<Rightarrow> nat option" where
  "matching_stream slack offset streams =
     min_by_key (\<lambda>i. abs_diff (st_next_expected (streams ! i)) offset)
       (filter (\<lambda>i. continues slack offset (streams ! i)) [0..<length streams])"

text \<open>\<^verbatim>\<open>Vec::swap_remove\<close> at a valid index.\<close>

definition swap_remove :: "nat \<Rightarrow> 'a list \<Rightarrow> 'a list" where
  "swap_remove i xs = (if i = length xs - 1 then butlast xs else (butlast xs)[i := last xs])"

definition recycle :: "prefetch_stream list \<Rightarrow> prefetch_stream list" where
  "recycle streams =
     (if length streams \<ge> MAX_PREFETCH_STREAMS
      then (case min_by_key (\<lambda>i. st_last_touch (streams ! i)) [0..<length streams] of
          None \<Rightarrow> streams | Some oldest \<Rightarrow> swap_remove oldest streams)
      else streams)"

definition start_stream :: "node_id \<Rightarrow> u64 \<Rightarrow> u64 \<Rightarrow> u64 \<Rightarrow> u64 \<Rightarrow> u64 \<Rightarrow> u64 \<Rightarrow> prefetcher
    \<Rightarrow> (u64 \<times> range_key list) \<times> prefetcher" where
  "start_stream node revision read_end sz block_size cap_blocks touch c =
     (let i = wrapping_succ (sp_next_stream_id c);
          stream = \<lparr>st_id = i, st_last_touch = touch, st_active = False, st_next_expected = read_end, st_run = 1,
            st_cursor = read_end, st_window_blocks = 0, st_inflight = 0, st_bytes_since_growth = 0\<rparr>;
          (prime, stream') = (if sp_streams c = []
            then let (scheduled, primed) = schedule (stream\<lparr>st_window_blocks := min PRIME_WINDOW_BLOCKS cap_blocks\<rparr>)
                       node revision read_end sz block_size cap_blocks
                 in (scheduled, primed\<lparr>st_window_blocks := 0\<rparr>)
            else ([], stream))
      in ((i, prime), c\<lparr>sp_next_stream_id := i, sp_streams := recycle (sp_streams c) @ [stream']\<rparr>))"

definition activate :: "u64 \<Rightarrow> u64 \<Rightarrow> prefetch_stream \<Rightarrow> prefetch_stream" where
  "activate read_end cap_blocks stream =
     (if st_active stream then stream
      else stream\<lparr>st_active := True, st_window_blocks := min INITIAL_ACTIVE_WINDOW_BLOCKS cap_blocks,
             st_cursor := max (st_cursor stream) read_end, st_bytes_since_growth := 0\<rparr>)"

definition grow :: "u64 \<Rightarrow> nat \<Rightarrow> u64 \<Rightarrow> u64 \<Rightarrow> prefetch_stream \<Rightarrow> prefetch_stream" where
  "grow returned elapsed block_size cap_blocks stream0 =
     (let stream = stream0\<lparr>st_bytes_since_growth := saturating_add (st_bytes_since_growth stream0) returned\<rparr> in
      if elapsed \<ge> DEMAND_STALL_FLOOR \<and> st_window_blocks stream < cap_blocks \<and>
         st_bytes_since_growth stream \<ge> saturating_mul (max (st_window_blocks stream) 1) block_size div 2
      then stream\<lparr>st_window_blocks := min (saturating_mul (st_window_blocks stream) 2) cap_blocks,
             st_bytes_since_growth := 0\<rparr>
      else stream)"

definition continue_stream :: "node_id \<Rightarrow> u64 \<Rightarrow> u64 \<Rightarrow> u64 \<Rightarrow> nat \<Rightarrow> u64 \<Rightarrow> u64 \<Rightarrow> u64 \<Rightarrow> nat \<Rightarrow> prefetcher
    \<Rightarrow> (u64 \<times> range_key list) \<times> prefetcher" where
  "continue_stream node read_end returned sz elapsed block_size cap_blocks touch i c =
     (let stream0 = sp_streams c ! i;
          stream = stream0\<lparr>st_last_touch := touch, st_run := saturating_add (st_run stream0) 1,
            st_next_expected := max (st_next_expected stream0) read_end\<rparr> in
      if st_run stream < SEQUENTIAL_TRIGGER
      then ((st_id stream, []), c\<lparr>sp_streams := (sp_streams c)[i := stream]\<rparr>)
      else let (blocks, stream') = schedule (grow returned elapsed block_size cap_blocks (activate read_end cap_blocks stream))
                 node (sp_revision c) read_end sz block_size cap_blocks
           in ((st_id stream, blocks), c\<lparr>sp_streams := (sp_streams c)[i := stream']\<rparr>))"

definition observe :: "node_id \<Rightarrow> u64 \<Rightarrow> u64 \<Rightarrow> u64 \<Rightarrow> u64 \<Rightarrow> nat \<Rightarrow> u64 \<Rightarrow> u64 \<Rightarrow> prefetcher
    \<Rightarrow> (u64 \<times> range_key list) \<times> prefetcher" where
  "observe node offset returned revision sz elapsed block_size cap_blocks c0 =
     (if block_size = 0 \<or> cap_blocks = 0 then ((0, []), c0)
      else let c1 = (if revision \<noteq> sp_revision c0 then prefetcher_default\<lparr>sp_revision := revision\<rparr> else c0);
               read_end = saturating_add offset returned;
               slack = saturating_mul block_size SEQUENTIAL_SLACK_BLOCKS;
               touch = wrapping_succ (sp_touch_counter c1);
               c = c1\<lparr>sp_touch_counter := touch\<rparr>
           in case matching_stream slack offset (sp_streams c) of
                None \<Rightarrow> start_stream node revision read_end sz block_size cap_blocks touch c
              | Some i \<Rightarrow> continue_stream node read_end returned sz elapsed block_size cap_blocks touch i c)"

subsection \<open>Completions\<close>

text \<open>\<^verbatim>\<open>iter_mut().find\<close>: the first stream with the identifier is changed.\<close>

fun modify_stream :: "u64 \<Rightarrow> (prefetch_stream \<Rightarrow> prefetch_stream) \<Rightarrow> prefetch_stream list \<Rightarrow> prefetch_stream list" where
  "modify_stream i f [] = []"
| "modify_stream i f (stream # streams) =
     (if st_id stream = i then f stream # streams else stream # modify_stream i f streams)"

definition unschedule :: "u64 \<Rightarrow> range_key list \<Rightarrow> prefetcher \<Rightarrow> prefetcher" where
  "unschedule stream_id blocks c = (case blocks of
     [] \<Rightarrow> c
   | first # _ \<Rightarrow> c\<lparr>sp_streams := modify_stream stream_id (\<lambda>stream. stream\<lparr>
        st_inflight := st_inflight stream - length blocks,
        st_cursor := min (st_cursor stream) (rg_offset first)\<rparr>) (sp_streams c)\<rparr>)"

definition complete :: "u64 \<Rightarrow> bool \<Rightarrow> prefetcher \<Rightarrow> prefetcher" where
  "complete stream_id ok c = c\<lparr>sp_streams := modify_stream stream_id (\<lambda>stream.
     if ok then stream\<lparr>st_inflight := st_inflight stream - 1\<rparr>
     else stream\<lparr>st_inflight := st_inflight stream - 1, st_active := False, st_window_blocks := 0,
            st_bytes_since_growth := 0\<rparr>) (sp_streams c)\<rparr>"

definition prefetch_permits_for :: "u64 \<Rightarrow> u32 \<Rightarrow> u32" where
  "prefetch_permits_for len permits =
     (let n = div_ceil len PREFETCH_PERMIT_UNIT
      in max 1 (min (if n \<le> U32_MAX then n else U32_MAX) (max permits 1)))"

end
