(* ===== verification/Client_Cached.thy ===== *)
theory Client_Cached
  imports Client_Prefetch Cache_Memory Client_Resilient
begin

text \<open>
  Crate \<^verbatim>\<open>crates/client-core\<close>, file \<^verbatim>\<open>cached.rs\<close>: \<^verbatim>\<open>CachedFilesystem\<close>, the read-through and offline cache
  with adaptive read-ahead over another file system.

  \<^item> The file system below is the parameter \<open>remote_fs\<close> on an arbitrary world; the cache is the
    parameter \<open>fs_cache\<close> on an arbitrary state (the traits of \<^verbatim>\<open>crates/cache\<close>).
  \<^item> An operation is one step; the speculative fetches and directory refreshes it spawns are
    tasks of the state that run later, as steps of their own. The map of fetches in flight is
    empty between steps, and the mutation mutex of a handle is free.
  \<^item> \<^verbatim>\<open>join_all\<close> runs the fetches of one read in their order. Fresh handles count up.
\<close>

record 'w remote_fs =
  in_now :: "'w \<Rightarrow> nat"
  in_ping :: "u64 \<Rightarrow> ('w, u64) act"
  in_capabilities :: "('w, filesystem_capabilities) act"
  in_stat_filesystem :: "('w, filesystem_stats) act"
  in_get_metadata :: "node_id \<Rightarrow> ('w, metadata) act"
  in_list_directory_snapshot :: "node_id \<Rightarrow> ('w, u64 \<times> directory_entry list) act"
  in_list_directory_view :: "node_id \<Rightarrow> directory_view_options \<Rightarrow> ('w, directory_view) act"
  in_open_file_with_options :: "node_id \<Rightarrow> file_open_options \<Rightarrow> ('w, opened_file) act"
  in_create_file :: "node_id \<Rightarrow> name \<Rightarrow> u32 \<Rightarrow> file_open_options \<Rightarrow> ('w, created_file) act"
  in_create_directory :: "node_id \<Rightarrow> name \<Rightarrow> u32 \<Rightarrow> ('w, metadata) act"
  in_create_symlink :: "node_id \<Rightarrow> name \<Rightarrow> bytes \<Rightarrow> ('w, metadata) act"
  in_create_hard_link :: "node_id \<Rightarrow> node_id \<Rightarrow> name \<Rightarrow> ('w, metadata) act"
  in_create_special_node :: "node_id \<Rightarrow> name \<Rightarrow> special_node_kind \<Rightarrow> u32 \<Rightarrow> u32 \<Rightarrow> u32 \<Rightarrow> ('w, metadata) act"
  in_remove_node :: "node_id \<Rightarrow> name \<Rightarrow> bool \<Rightarrow> ('w, unit) act"
  in_rename_node :: "node_id \<Rightarrow> name \<Rightarrow> node_id \<Rightarrow> name \<Rightarrow> rename_mode \<Rightarrow> ('w, unit) act"
  in_read_link :: "node_id \<Rightarrow> ('w, bytes) act"
  in_set_attributes :: "node_id \<Rightarrow> file_handle option \<Rightarrow> attribute_changes \<Rightarrow> ('w, metadata) act"
  in_read_range_versioned :: "file_handle \<Rightarrow> u64 \<Rightarrow> u64 \<Rightarrow> ('w, range_read) act"
  in_write_range :: "file_handle \<Rightarrow> u64 \<Rightarrow> bytes \<Rightarrow> ('w, write_result) act"
  in_flush_file :: "file_handle \<Rightarrow> u64 option \<Rightarrow> ('w, unit) act"
  in_sync_file :: "file_handle \<Rightarrow> bool \<Rightarrow> ('w, unit) act"
  in_sync_directory :: "node_id \<Rightarrow> ('w, unit) act"
  in_allocate_file :: "file_handle \<Rightarrow> u64 \<Rightarrow> u64 \<Rightarrow> ('w, write_result) act"
  in_get_xattr :: "node_id \<Rightarrow> name \<Rightarrow> u64 \<Rightarrow> u64 \<Rightarrow> ('w, u64 \<times> bytes) act"
  in_set_xattr :: "node_id \<Rightarrow> name \<Rightarrow> bytes \<Rightarrow> xattr_set_mode \<Rightarrow> u32 \<Rightarrow> ('w, unit) act"
  in_list_xattrs :: "node_id \<Rightarrow> ('w, name list) act"
  in_remove_xattr :: "node_id \<Rightarrow> name \<Rightarrow> ('w, unit) act"
  in_copy_file_range :: "file_handle \<Rightarrow> u64 \<Rightarrow> file_handle \<Rightarrow> u64 \<Rightarrow> u64 \<Rightarrow> ('w, write_result) act"
  in_seek_file :: "file_handle \<Rightarrow> u64 \<Rightarrow> seek_whence \<Rightarrow> ('w, u64) act"
  in_safe_ioctl :: "file_handle \<Rightarrow> safe_ioctl \<Rightarrow> ('w, u64) act"
  in_map_block :: "node_id \<Rightarrow> u32 \<Rightarrow> u64 \<Rightarrow> ('w, u64) act"
  in_exchange_data :: "node_id \<Rightarrow> name \<Rightarrow> node_id \<Rightarrow> name \<Rightarrow> u64 \<Rightarrow> ('w, unit) act"
  in_set_volume_name :: "name \<Rightarrow> ('w, unit) act"
  in_forget_nodes :: "node_id list \<Rightarrow> ('w, unit) act"
  in_get_lock :: "file_handle \<Rightarrow> file_lock \<Rightarrow> ('w, file_lock option) act"
  in_set_lock :: "file_handle \<Rightarrow> file_lock \<Rightarrow> bool \<Rightarrow> ('w, unit) act"
  in_close_file :: "file_handle \<Rightarrow> ('w, unit) act"

text \<open>\<^verbatim>\<open>FilesystemCache\<close>: the traits of the cache crate, as far as the file system calls them.\<close>

record 'c fs_cache =
  ca_get_metadata :: "node_id \<Rightarrow> 'c \<Rightarrow> metadata option \<times> 'c"
  ca_store_metadata :: "metadata \<Rightarrow> 'c \<Rightarrow> 'c"
  ca_get_directory :: "revision_key \<Rightarrow> 'c \<Rightarrow> directory_entry list option \<times> 'c"
  ca_store_snapshot :: "revision_key \<Rightarrow> directory_entry list \<Rightarrow> 'c \<Rightarrow> 'c"
  ca_get_range :: "range_key \<Rightarrow> 'c \<Rightarrow> bytes option \<times> 'c"
  ca_store_range :: "range_key \<Rightarrow> bytes \<Rightarrow> 'c \<Rightarrow> 'c"
  ca_get_stats :: "'c \<Rightarrow> filesystem_stats option \<times> 'c"
  ca_store_stats :: "filesystem_stats \<Rightarrow> 'c \<Rightarrow> 'c"
  ca_invalidate_node_state :: "node_id \<Rightarrow> 'c \<Rightarrow> 'c"
  ca_invalidate_node_memory :: "node_id \<Rightarrow> 'c \<Rightarrow> 'c"

text \<open>\<^verbatim>\<open>MemoryCache\<close> as a \<^verbatim>\<open>FilesystemCache\<close>: its trait implementations and the default methods.\<close>

definition memory_fs_cache :: "memory_cache fs_cache" where
  "memory_fs_cache = \<lparr>
     ca_get_metadata = (\<lambda>n c. (mem_get_metadata n c, c)), ca_store_metadata = mem_insert_metadata,
     ca_get_directory = (\<lambda>k c. (mem_get_directory k c, c)), ca_store_snapshot = mem_store_readthrough_snapshot,
     ca_get_range = (\<lambda>k c. (mem_get_range k c, c)), ca_store_range = mem_insert_range,
     ca_get_stats = (\<lambda>c. (mem_get_filesystem_stats c, c)), ca_store_stats = mem_insert_filesystem_stats,
     ca_invalidate_node_state = mem_invalidate_node_state,
     ca_invalidate_node_memory = mem_invalidate_node_state\<rparr>"

record cache_policy =
  cp_block_size :: u64
  cp_read_ahead_max_bytes :: u64

definition CLIENT_READ_LIMIT :: u64 where "CLIENT_READ_LIMIT = 16 * 1024 * 1024"

definition default_cache_policy :: cache_policy where
  "default_cache_policy = \<lparr>cp_block_size = CLIENT_READ_LIMIT, cp_read_ahead_max_bytes = DEFAULT_READ_AHEAD_MAX_BYTES\<rparr>"

record cached_handle =
  ch_node :: node_id
  ch_inner :: "file_handle option"
  ch_revision :: u64
  ch_size :: u64
  ch_prefetch :: prefetcher

text \<open>A spawned speculative fetch with the permits it holds.\<close>

record prefetch_task =
  pt_logical :: file_handle
  pt_inner :: file_handle
  pt_revision :: u64
  pt_block :: range_key
  pt_stream :: u64
  pt_units :: u32

record ('c, 'w) cached =
  cd_policy :: cache_policy
  cd_cache :: 'c
  cd_handles :: "(file_handle \<times> cached_handle) list"
  cd_capabilities :: "filesystem_capabilities option"
  cd_refreshing :: "node_id list"
  cd_permits :: u32
  cd_permit_total :: u32
  cd_slots :: usize
  cd_parents :: "(node_id \<times> node_id) list"
  cd_tasks :: "prefetch_task list"
  cd_fresh :: uuid
  cd_world :: 'w

type_synonym ('c, 'w, 'a) cdop = "(('c, 'w) cached, client_error, 'a) op"

definition on_inner :: "('w, 'a) act \<Rightarrow> ('c, 'w, 'a) cdop" where
  "on_inner m s = (let (r, w) = m (cd_world s) in (r, s\<lparr>cd_world := w\<rparr>))"

definition on_cache :: "('c \<Rightarrow> 'c) \<Rightarrow> ('c, 'w, unit) cdop" where
  "on_cache f s = (Inr (), s\<lparr>cd_cache := f (cd_cache s)\<rparr>)"

definition ask_cache :: "('c \<Rightarrow> 'a option \<times> 'c) \<Rightarrow> ('c, 'w, 'a option) cdop" where
  "ask_cache f s = (let (r, c) = f (cd_cache s) in (Inr r, s\<lparr>cd_cache := c\<rparr>))"

fun is_offline :: "client_error \<Rightarrow> bool" where
  "is_offline (CeTransport _) = True"
| "is_offline CeOffline = True"
| "is_offline _ = False"

text \<open>\<^verbatim>\<open>match m { Ok(v) => f(v), Err(e) if is_offline(e) => g, Err(e) => Err(e) }\<close>\<close>

definition or_offline :: "('c, 'w, 'a) cdop \<Rightarrow> ('a \<Rightarrow> ('c, 'w, 'b) cdop) \<Rightarrow> ('c, 'w, 'b) cdop \<Rightarrow> ('c, 'w, 'b) cdop" where
  "or_offline m f g s = (case m s of
     (Inr v, t) \<Rightarrow> f v t
   | (Inl e, t) \<Rightarrow> if is_offline e then g t else (Inl e, t))"

definition INVALID_CACHED_HANDLE :: client_error where
  "INVALID_CACHED_HANDLE = CeServer InvalidHandle ''unknown cached handle''"

definition READ_OVERFLOWS :: client_error where
  "READ_OVERFLOWS = CeServer InvalidRequest ''read range overflows''"

definition cached_new :: "'c \<Rightarrow> 'w \<Rightarrow> cache_policy \<Rightarrow> client_error + ('c, 'w) cached" where
  "cached_new cache w policy =
     (if cp_block_size policy = 0 \<or> cp_block_size policy > CLIENT_READ_LIMIT
      then Inl (CeServer InvalidRequest ''cache block size must be within the client read limit'')
      else let budget = min (cp_read_ahead_max_bytes policy) PREFETCH_MAX_INFLIGHT_BYTES;
               total_units = max 1 (min (budget div PREFETCH_PERMIT_UNIT) (2 ^ 20))
           in Inr \<lparr>cd_policy = policy, cd_cache = cache, cd_handles = [], cd_capabilities = None,
                cd_refreshing = [], cd_permits = total_units, cd_permit_total = total_units,
                cd_slots = PREFETCH_MAX_CONCURRENT_FETCHES, cd_parents = [(ROOT_NODE, ROOT_NODE)],
                cd_tasks = [], cd_fresh = 1, cd_world = w\<rparr>)"

subsection \<open>Helpers\<close>

definition cache_metadata :: "'c fs_cache \<Rightarrow> metadata \<Rightarrow> ('c, 'w, metadata) cdop" where
  "cache_metadata K metadata = mbind (on_cache (ca_store_metadata K metadata)) (\<lambda>_. mret metadata)"

definition cached_metadata :: "'c fs_cache \<Rightarrow> node_id \<Rightarrow> ('c, 'w, metadata) cdop" where
  "cached_metadata K node = mbind (ask_cache (ca_get_metadata K node)) (\<lambda>r. mlift (ok_or CeOfflineCacheMiss r))"

definition remember_handle :: "node_id \<Rightarrow> file_handle option \<Rightarrow> u64 \<Rightarrow> u64 \<Rightarrow> ('c, 'w, opened_file) cdop" where
  "remember_handle node inner revision sz s =
     (let logical = cd_fresh s in
      (Inr \<lparr>op_handle = logical, op_revision = revision, op_size = sz\<rparr>,
       s\<lparr>cd_fresh := Suc logical, cd_handles := AList.update logical
           \<lparr>ch_node = node, ch_inner = inner, ch_revision = revision, ch_size = sz,
            ch_prefetch = prefetcher_default\<rparr> (cd_handles s)\<rparr>))"

definition get_cached_handle :: "file_handle \<Rightarrow> ('c, 'w, cached_handle) cdop" where
  "get_cached_handle logical s = (ok_or INVALID_CACHED_HANDLE (map_of (cd_handles s) logical), s)"

definition modify_cached_handle :: "file_handle \<Rightarrow> (cached_handle \<Rightarrow> cached_handle) \<Rightarrow> ('c, 'w) cached \<Rightarrow> ('c, 'w) cached" where
  "modify_cached_handle logical f s = (case map_of (cd_handles s) logical of
     None \<Rightarrow> s | Some h \<Rightarrow> s\<lparr>cd_handles := AList.update logical (f h) (cd_handles s)\<rparr>)"

definition update_handle :: "file_handle \<Rightarrow> u64 \<Rightarrow> u64 \<Rightarrow> ('c, 'w, unit) cdop" where
  "update_handle logical revision sz =
     mput (modify_cached_handle logical (\<lambda>h. h\<lparr>ch_revision := revision, ch_size := sz\<rparr>))"

definition invalidate_cached_node :: "'c fs_cache \<Rightarrow> node_id \<Rightarrow> ('c, 'w, unit) cdop" where
  "invalidate_cached_node K node = on_cache (ca_invalidate_node_state K node)"

definition invalidate_cached_node_memory :: "'c fs_cache \<Rightarrow> node_id \<Rightarrow> ('c, 'w, unit) cdop" where
  "invalidate_cached_node_memory K node = on_cache (ca_invalidate_node_memory K node)"

definition offline_directory :: "'c fs_cache \<Rightarrow> node_id \<Rightarrow> ('c, 'w, u64 \<times> directory_entry list) cdop" where
  "offline_directory K node = mbind (cached_metadata K node) (\<lambda>metadata.
     mbind (ask_cache (ca_get_directory K \<lparr>rk_node = node, rk_revision = md_revision metadata\<rparr>)) (\<lambda>entries.
     mlift (ebind (ok_or CeOfflineCacheMiss entries) (\<lambda>es. Inr (md_revision metadata, es)))))"

definition refresh_directory_in_background :: "node_id \<Rightarrow> ('c, 'w, unit) cdop" where
  "refresh_directory_in_background node = mput (\<lambda>s.
     if List.member (cd_refreshing s) node then s else s\<lparr>cd_refreshing := cd_refreshing s @ [node]\<rparr>)"

text \<open>The spawned refresh of a directory.\<close>

definition run_refresh :: "'w remote_fs \<Rightarrow> 'c fs_cache \<Rightarrow> node_id \<Rightarrow> ('c, 'w) cached \<Rightarrow> ('c, 'w) cached" where
  "run_refresh I K node s =
     (let s1 = snd (mbind (on_inner (in_list_directory_snapshot I node)) (\<lambda>(revision, entries).
        mbind (on_cache (ca_store_snapshot K \<lparr>rk_node = node, rk_revision = revision\<rparr> entries)) (\<lambda>_.
        mbind (on_inner (in_get_metadata I node)) (\<lambda>metadata.
          if md_revision metadata = revision then on_cache (ca_store_metadata K metadata) else mret ()))) s)
      in s1\<lparr>cd_refreshing := remove1 node (cd_refreshing s1)\<rparr>)"

definition handle_range :: "cached_handle \<Rightarrow> u64 \<Rightarrow> u64 \<Rightarrow> range_key" where
  "handle_range h offset len = block_key (ch_node h) (ch_revision h) offset len"

definition cached_range :: "'c fs_cache \<Rightarrow> cached_handle \<Rightarrow> u64 \<Rightarrow> u64 \<Rightarrow> ('c, 'w, bytes option) cdop" where
  "cached_range K h offset len = ask_cache (ca_get_range K (handle_range h offset (min len (ch_size h - offset))))"

definition demand_block_size :: "cache_policy \<Rightarrow> u64 \<Rightarrow> u64" where
  "demand_block_size policy len =
     (if len \<le> SMALL_READ_THRESHOLD then min (cp_block_size policy) SMALL_READ_AHEAD_BLOCK_SIZE
      else cp_block_size policy)"

text \<open>The loop of \<^verbatim>\<open>blocks_for\<close>; the block size is not zero in a file system that \<open>cached_new\<close> made.\<close>

function blocks_loop :: "cached_handle \<Rightarrow> u64 \<Rightarrow> u64 \<Rightarrow> u64 \<Rightarrow> u64 \<Rightarrow> client_error + range_key list" where
  "blocks_loop h policy_size block_size requested_end block_offset =
     (if block_offset < requested_end \<and> 0 < block_size
      then let key = handle_range h block_offset (min (min policy_size block_size) (ch_size h - block_offset)) in
        (case checked_add block_offset block_size of
           None \<Rightarrow> Inl CeUnexpectedResponse
         | Some next_offset \<Rightarrow>
             ebind (blocks_loop h policy_size block_size requested_end next_offset) (\<lambda>keys. Inr (key # keys)))
      else Inr [])"
  by pat_completeness auto
termination by (relation "measure (\<lambda>(_, _, _, requested_end, block_offset). requested_end - block_offset)") auto

declare blocks_loop.simps [simp del]

definition blocks_for :: "cache_policy \<Rightarrow> cached_handle \<Rightarrow> u64 \<Rightarrow> u64 \<Rightarrow> client_error + range_key list" where
  "blocks_for policy h offset len =
     (if checked_add offset len = None then Inl READ_OVERFLOWS
      else let requested = min len (ch_size h - offset) in
        if requested = 0 then Inr []
        else (case checked_add offset requested of
            None \<Rightarrow> Inl CeUnexpectedResponse
          | Some requested_end \<Rightarrow>
              let block_size = demand_block_size policy len
              in blocks_loop h (cp_block_size policy) block_size requested_end (offset div block_size * block_size)))"

subsection \<open>Fetching\<close>

datatype shared_fetch_error = ShServer error_code string | ShUnexpectedResponse | ShReadTooLarge u64
  | ShWriteTooLarge u64 | ShStaleRevision | ShOffline | ShOfflineCacheMiss | ShAmbiguousMutation

fun shared_of :: "client_error \<Rightarrow> shared_fetch_error" where
  "shared_of (CeTransport _) = ShOffline"
| "shared_of CeOffline = ShOffline"
| "shared_of (CeServer code message) = ShServer code message"
| "shared_of CeUnexpectedResponse = ShUnexpectedResponse"
| "shared_of (CeReadTooLarge limit) = ShReadTooLarge limit"
| "shared_of (CeWriteTooLarge limit) = ShWriteTooLarge limit"
| "shared_of CeStaleRevision = ShStaleRevision"
| "shared_of CeOfflineCacheMiss = ShOfflineCacheMiss"
| "shared_of CeAmbiguousMutation = ShAmbiguousMutation"

fun client_of :: "shared_fetch_error \<Rightarrow> client_error" where
  "client_of (ShServer code message) = CeServer code message"
| "client_of ShUnexpectedResponse = CeUnexpectedResponse"
| "client_of (ShReadTooLarge limit) = CeReadTooLarge limit"
| "client_of (ShWriteTooLarge limit) = CeWriteTooLarge limit"
| "client_of ShStaleRevision = CeStaleRevision"
| "client_of ShOffline = CeOffline"
| "client_of ShOfflineCacheMiss = CeOfflineCacheMiss"
| "client_of ShAmbiguousMutation = CeAmbiguousMutation"

definition load_block :: "'w remote_fs \<Rightarrow> 'c fs_cache \<Rightarrow> file_handle \<Rightarrow> u64 \<Rightarrow> range_key \<Rightarrow> ('c, 'w, bytes) cdop" where
  "load_block I K inner_handle expected_revision block =
     mbind (ask_cache (ca_get_range K block)) (\<lambda>hit. case hit of
       Some data \<Rightarrow> mret data
     | None \<Rightarrow>
         mbind (on_inner (in_read_range_versioned I inner_handle (rg_offset block) (rg_length block))) (\<lambda>read.
           if rr_revision read \<noteq> expected_revision then mfail CeStaleRevision
           else if length (rr_data read) > rg_length block then mfail CeUnexpectedResponse
           else mbind (if length (rr_data read) > 0
                  then on_cache (ca_store_range K (block\<lparr>rg_length := length (rr_data read)\<rparr>) (rr_data read))
                  else mret ()) (\<lambda>_. mret (rr_data read))))"

definition fetch_block :: "'w remote_fs \<Rightarrow> 'c fs_cache \<Rightarrow> file_handle \<Rightarrow> u64 \<Rightarrow> range_key \<Rightarrow> ('c, 'w, bytes) cdop" where
  "fetch_block I K inner_handle expected_revision block s =
     (let (r, t) = load_block I K inner_handle expected_revision block s in (map_err (client_of \<circ> shared_of) r, t))"

subsection \<open>Read-ahead\<close>

text \<open>Slots and permits are taken block by block until one is refused; the rest is denied.\<close>

fun grant_permits :: "u32 \<Rightarrow> range_key list \<Rightarrow> usize \<Rightarrow> u32
    \<Rightarrow> (range_key \<times> u32) list \<times> range_key list \<times> usize \<times> u32" where
  "grant_permits permit_total [] slots permits = ([], [], slots, permits)"
| "grant_permits permit_total (block # blocks) slots permits =
     (let units = prefetch_permits_for (rg_length block) permit_total in
      if slots = 0 \<or> permits < units then ([], block # blocks, slots, permits)
      else let (granted, denied, slots', permits') = grant_permits permit_total blocks (slots - 1) (permits - units)
           in ((block, units) # granted, denied, slots', permits'))"

definition maybe_prefetch :: "file_handle \<Rightarrow> cached_handle \<Rightarrow> file_handle \<Rightarrow> u64 \<Rightarrow> u64 \<Rightarrow> nat \<Rightarrow> u64 \<Rightarrow> ('c, 'w, unit) cdop" where
  "maybe_prefetch logical h inner_handle offset returned elapsed granularity = mput (\<lambda>s.
     if granularity = 0 \<or> cp_read_ahead_max_bytes (cd_policy s) div granularity = 0 then s
     else let cap_blocks = cp_read_ahead_max_bytes (cd_policy s) div granularity;
              ((stream_id, scheduled), controller) = observe (ch_node h) offset returned (ch_revision h) (ch_size h)
                elapsed granularity cap_blocks (ch_prefetch h);
              (granted, denied, slots, permits) = grant_permits (cd_permit_total s) scheduled (cd_slots s) (cd_permits s);
              controller' = unschedule stream_id denied controller;
              tasks = map (\<lambda>(block, units). \<lparr>pt_logical = logical, pt_inner = inner_handle,
                pt_revision = ch_revision h, pt_block = block, pt_stream = stream_id, pt_units = units\<rparr>) granted
          in (modify_cached_handle logical (\<lambda>h. h\<lparr>ch_prefetch := controller'\<rparr>) s)
               \<lparr>cd_slots := slots, cd_permits := permits, cd_tasks := cd_tasks s @ tasks\<rparr>)"

text \<open>
  A speculative fetch that ends: it has run, or its deadline has passed and it is dropped before
  it stored anything. Its slot and permits are free again.
\<close>

definition run_prefetch_task :: "'w remote_fs \<Rightarrow> 'c fs_cache \<Rightarrow> prefetch_task \<Rightarrow> bool \<Rightarrow> ('c, 'w) cached \<Rightarrow> ('c, 'w) cached" where
  "run_prefetch_task I K task timed_out s =
     (let (ok, s1) = (if timed_out then (False, s)
            else let (r, t) = fetch_block I K (pt_inner task) (pt_revision task) (pt_block task) s in (isOk r, t))
      in (modify_cached_handle (pt_logical task)
            (\<lambda>h. h\<lparr>ch_prefetch := complete (pt_stream task) ok (ch_prefetch h)\<rparr>) s1)
           \<lparr>cd_slots := cd_slots s1 + 1, cd_permits := cd_permits s1 + pt_units task,
            cd_tasks := remove1 task (cd_tasks s1)\<rparr>)"

subsection \<open>Reading\<close>

fun fetch_all :: "'w remote_fs \<Rightarrow> 'c fs_cache \<Rightarrow> file_handle \<Rightarrow> u64 \<Rightarrow> range_key list
    \<Rightarrow> ('c, 'w) cached \<Rightarrow> (range_key \<times> (client_error + bytes)) list \<times> ('c, 'w) cached" where
  "fetch_all I K inner_handle revision [] s = ([], s)"
| "fetch_all I K inner_handle revision (block # blocks) s =
     (let (r, s1) = fetch_block I K inner_handle revision block s;
          (rest, s2) = fetch_all I K inner_handle revision blocks s1
      in ((block, r) # rest, s2))"

text \<open>The results of a read's blocks: the cache that assembles them, and whether one was offline.\<close>

fun gather :: "(range_key \<times> (client_error + bytes)) list \<Rightarrow> memory_cache \<Rightarrow> bool \<Rightarrow> client_error + memory_cache \<times> bool" where
  "gather [] assembled offline_error = Inr (assembled, offline_error)"
| "gather ((block, Inr data) # rest) assembled offline_error =
     (if length data > rg_length block then Inl CeUnexpectedResponse
      else gather rest (if length data > 0
        then mem_insert_range (block\<lparr>rg_length := length data\<rparr>) data assembled else assembled) offline_error)"
| "gather ((block, Inl e) # rest) assembled offline_error =
     (if is_offline e then gather rest assembled True else Inl e)"

definition read_online :: "'w remote_fs \<Rightarrow> 'c fs_cache \<Rightarrow> file_handle \<Rightarrow> cached_handle \<Rightarrow> file_handle
    \<Rightarrow> u64 \<Rightarrow> u64 \<Rightarrow> ('c, 'w, range_read) cdop" where
  "read_online I K logical h inner_handle offset len s =
     (case blocks_for (cd_policy s) h offset len of
        Inl e \<Rightarrow> (Inl e, s)
      | Inr blocks \<Rightarrow>
          if blocks = [] then (Inr \<lparr>rr_revision = ch_revision h, rr_data = []\<rparr>, s)
          else let (results, s1) = fetch_all I K inner_handle (ch_revision h) blocks s;
                   elapsed = in_now I (cd_world s1) - in_now I (cd_world s) in
            (case gather results mem_empty False of
               Inl e \<Rightarrow> (Inl e, s1)
             | Inr (assembled, offline_error) \<Rightarrow>
                 (case mem_get_range (handle_range h offset (min len (ch_size h - offset))) assembled of
                    Some data \<Rightarrow>
                      mbind (maybe_prefetch logical h inner_handle offset (length data) elapsed
                               (demand_block_size (cd_policy s) len))
                        (\<lambda>_. mret \<lparr>rr_revision = ch_revision h, rr_data = data\<rparr>) s1
                  | None \<Rightarrow>
                      mbind (cached_range K h offset len) (\<lambda>hit. case hit of
                          Some data \<Rightarrow> mret \<lparr>rr_revision = ch_revision h, rr_data = data\<rparr>
                        | None \<Rightarrow> mfail (if offline_error then CeOfflineCacheMiss else CeUnexpectedResponse)) s1)))"

text \<open>The loop of \<^verbatim>\<open>read_range_versioned\<close>; the first argument counts the retries that are left.\<close>

fun read_retry :: "nat \<Rightarrow> 'w remote_fs \<Rightarrow> 'c fs_cache \<Rightarrow> file_handle \<Rightarrow> cached_handle \<Rightarrow> file_handle
    \<Rightarrow> u64 \<Rightarrow> u64 \<Rightarrow> ('c, 'w, range_read) cdop" where
  "read_retry 0 I K logical h inner_handle offset len = read_online I K logical h inner_handle offset len"
| "read_retry (Suc left) I K logical h inner_handle offset len = (\<lambda>s.
     case read_online I K logical h inner_handle offset len s of
       (Inl CeStaleRevision, s1) \<Rightarrow>
         mbind (on_inner (in_get_metadata I (ch_node h))) (\<lambda>metadata.
         mbind (on_cache (ca_store_metadata K metadata)) (\<lambda>_.
         mbind (update_handle logical (md_revision metadata) (md_size metadata)) (\<lambda>_.
           read_retry left I K logical (h\<lparr>ch_revision := md_revision metadata, ch_size := md_size metadata\<rparr>)
             inner_handle offset len))) s1
     | result \<Rightarrow> result)"

definition cfs_read_range_versioned :: "'w remote_fs \<Rightarrow> 'c fs_cache \<Rightarrow> file_handle \<Rightarrow> u64 \<Rightarrow> u64 \<Rightarrow> ('c, 'w, range_read) cdop" where
  "cfs_read_range_versioned I K logical offset len = mbind (get_cached_handle logical) (\<lambda>h.
     if checked_add offset len = None then mfail READ_OVERFLOWS
     else (case ch_inner h of
         None \<Rightarrow> mbind (cached_range K h offset len) (\<lambda>hit.
           mlift (ebind (ok_or CeOfflineCacheMiss hit) (\<lambda>data. Inr \<lparr>rr_revision = ch_revision h, rr_data = data\<rparr>)))
       | Some inner_handle \<Rightarrow> read_retry STALE_REVISION_RETRIES I K logical h inner_handle offset len))"

subsection \<open>Nodes and directories\<close>

definition cfs_ping :: "'w remote_fs \<Rightarrow> u64 \<Rightarrow> ('c, 'w, u64) cdop" where
  "cfs_ping I nonce = on_inner (in_ping I nonce)"

definition cfs_capabilities :: "'w remote_fs \<Rightarrow> ('c, 'w, filesystem_capabilities) cdop" where
  "cfs_capabilities I = or_offline (on_inner (in_capabilities I))
     (\<lambda>v. mbind (mput (\<lambda>s. s\<lparr>cd_capabilities := Some v\<rparr>)) (\<lambda>_. mret v))
     (\<lambda>s. (ok_or CeOffline (cd_capabilities s), s))"

definition cfs_stat_filesystem :: "'w remote_fs \<Rightarrow> 'c fs_cache \<Rightarrow> ('c, 'w, filesystem_stats) cdop" where
  "cfs_stat_filesystem I K = or_offline (on_inner (in_stat_filesystem I))
     (\<lambda>v. mbind (on_cache (ca_store_stats K v)) (\<lambda>_. mret v))
     (mbind (ask_cache (ca_get_stats K)) (\<lambda>r. mlift (ok_or CeOfflineCacheMiss r)))"

definition cfs_get_metadata :: "'w remote_fs \<Rightarrow> 'c fs_cache \<Rightarrow> node_id \<Rightarrow> ('c, 'w, metadata) cdop" where
  "cfs_get_metadata I K node = or_offline (on_inner (in_get_metadata I node)) (cache_metadata K) (cached_metadata K node)"

definition cfs_list_directory_snapshot ::
  "'w remote_fs \<Rightarrow> 'c fs_cache \<Rightarrow> node_id \<Rightarrow> ('c, 'w, u64 \<times> directory_entry list) cdop" where
  "cfs_list_directory_snapshot I K node s = (case offline_directory K node s of
     (Inr snapshot, s1) \<Rightarrow> mbind (refresh_directory_in_background node) (\<lambda>_. mret snapshot) s1
   | (Inl _, s1) \<Rightarrow> or_offline (on_inner (in_list_directory_snapshot I node))
       (\<lambda>(revision, entries). mbind (on_cache (ca_store_snapshot K \<lparr>rk_node = node, rk_revision = revision\<rparr> entries))
          (\<lambda>_. mret (revision, entries)))
       (offline_directory K node) s1)"

definition cfs_list_directory_view ::
  "'w remote_fs \<Rightarrow> 'c fs_cache \<Rightarrow> node_id \<Rightarrow> directory_view_options \<Rightarrow> ('c, 'w, directory_view) cdop" where
  "cfs_list_directory_view I K node options = or_offline (on_inner (in_list_directory_view I node options))
     (\<lambda>view. mbind (on_cache (ca_store_snapshot K \<lparr>rk_node = node, rk_revision = dv_revision view\<rparr>
                    (map ve_entry (dv_entries view)))) (\<lambda>_.
       mbind (cache_metadata K (dv_directory view)) (\<lambda>_.
       mbind (cache_metadata K (dv_parent view)) (\<lambda>_.
       mbind (mput (\<lambda>s. s\<lparr>cd_parents := AList.update node (md_node (dv_parent view)) (cd_parents s)\<rparr>)) (\<lambda>_.
       mret view)))))
     (mbind (offline_directory K node) (\<lambda>(revision, entries).
      mbind (cached_metadata K node) (\<lambda>directory.
      mbind (\<lambda>s. (ok_or CeOfflineCacheMiss (map_of (cd_parents s) node), s)) (\<lambda>parent_node.
      mbind (cached_metadata K parent_node) (\<lambda>parent.
        mret \<lparr>dv_revision = revision, dv_directory = directory, dv_parent = parent, dv_xattrs = None,
              dv_entries = map (\<lambda>entry. \<lparr>ve_entry = entry, ve_xattrs = None\<rparr>) entries\<rparr>)))))"

definition cfs_open_file_with_options ::
  "'w remote_fs \<Rightarrow> 'c fs_cache \<Rightarrow> node_id \<Rightarrow> file_open_options \<Rightarrow> ('c, 'w, opened_file) cdop" where
  "cfs_open_file_with_options I K node options s = (case on_inner (in_open_file_with_options I node options) s of
     (Inr opened, s1) \<Rightarrow> remember_handle node (Some (op_handle opened)) (op_revision opened) (op_size opened) s1
   | (Inl e, s1) \<Rightarrow>
       if is_offline e \<and> oo_access options = ReadOnly \<and> \<not> oo_truncate options \<and> \<not> oo_append options
       then mbind (cached_metadata K node) (\<lambda>metadata.
              remember_handle node None (md_revision metadata) (md_size metadata)) s1
       else (Inl e, s1))"

definition cfs_create_file ::
  "'w remote_fs \<Rightarrow> 'c fs_cache \<Rightarrow> node_id \<Rightarrow> name \<Rightarrow> u32 \<Rightarrow> file_open_options \<Rightarrow> ('c, 'w, created_file) cdop" where
  "cfs_create_file I K parent nm mode options =
     mbind (on_inner (in_create_file I parent nm mode options)) (\<lambda>created.
     mbind (invalidate_cached_node K parent) (\<lambda>_.
     mbind (on_cache (ca_store_metadata K (cr_metadata created))) (\<lambda>_.
     mbind (remember_handle (md_node (cr_metadata created)) (Some (op_handle (cr_opened created)))
              (op_revision (cr_opened created)) (op_size (cr_opened created))) (\<lambda>opened.
     mret \<lparr>cr_metadata = cr_metadata created, cr_opened = opened\<rparr>))))"

definition set_parent :: "node_id \<Rightarrow> node_id \<Rightarrow> ('c, 'w, unit) cdop" where
  "set_parent node parent = mput (\<lambda>s. s\<lparr>cd_parents := AList.update node parent (cd_parents s)\<rparr>)"

definition drop_parent :: "node_id \<Rightarrow> ('c, 'w, unit) cdop" where
  "drop_parent node = mput (\<lambda>s. s\<lparr>cd_parents := AList.delete node (cd_parents s)\<rparr>)"

definition cfs_create_directory :: "'w remote_fs \<Rightarrow> 'c fs_cache \<Rightarrow> node_id \<Rightarrow> name \<Rightarrow> u32 \<Rightarrow> ('c, 'w, metadata) cdop" where
  "cfs_create_directory I K parent nm mode =
     mbind (on_inner (in_create_directory I parent nm mode)) (\<lambda>metadata.
     mbind (invalidate_cached_node K parent) (\<lambda>_.
     mbind (on_cache (ca_store_metadata K metadata)) (\<lambda>_.
     mbind (set_parent (md_node metadata) parent) (\<lambda>_. mret metadata))))"

text \<open>The target of a link is cached as the bytes of the node when its length is the node's size.\<close>

definition store_target :: "'c fs_cache \<Rightarrow> metadata \<Rightarrow> node_id \<Rightarrow> bytes \<Rightarrow> ('c, 'w, unit) cdop" where
  "store_target K metadata node target =
     (if length target = md_size metadata
      then on_cache (ca_store_range K (block_key node (md_revision metadata) 0 (md_size metadata)) target)
      else mret ())"

definition cfs_create_symlink :: "'w remote_fs \<Rightarrow> 'c fs_cache \<Rightarrow> node_id \<Rightarrow> name \<Rightarrow> bytes \<Rightarrow> ('c, 'w, metadata) cdop" where
  "cfs_create_symlink I K parent nm target =
     mbind (on_inner (in_create_symlink I parent nm target)) (\<lambda>metadata.
     mbind (invalidate_cached_node K parent) (\<lambda>_.
     mbind (on_cache (ca_store_metadata K metadata)) (\<lambda>_.
     mbind (store_target K metadata (md_node metadata) target) (\<lambda>_. mret metadata))))"

definition cfs_create_hard_link :: "'w remote_fs \<Rightarrow> 'c fs_cache \<Rightarrow> node_id \<Rightarrow> node_id \<Rightarrow> name \<Rightarrow> ('c, 'w, metadata) cdop" where
  "cfs_create_hard_link I K node new_parent new_name =
     mbind (on_inner (in_create_hard_link I node new_parent new_name)) (\<lambda>metadata.
     mbind (invalidate_cached_node K node) (\<lambda>_.
     mbind (invalidate_cached_node K new_parent) (\<lambda>_.
     mbind (on_cache (ca_store_metadata K metadata)) (\<lambda>_. mret metadata))))"

definition cfs_create_special_node :: "'w remote_fs \<Rightarrow> 'c fs_cache \<Rightarrow> node_id \<Rightarrow> name \<Rightarrow> special_node_kind \<Rightarrow> u32 \<Rightarrow> u32
    \<Rightarrow> u32 \<Rightarrow> ('c, 'w, metadata) cdop" where
  "cfs_create_special_node I K parent nm kind mode device_major device_minor =
     mbind (on_inner (in_create_special_node I parent nm kind mode device_major device_minor)) (\<lambda>metadata.
     mbind (invalidate_cached_node K parent) (\<lambda>_.
     mbind (on_cache (ca_store_metadata K metadata)) (\<lambda>_. mret metadata)))"

text \<open>The node that a cached listing of \<open>parent\<close> has under a name, if there is one.\<close>

definition cached_child :: "'c fs_cache \<Rightarrow> node_id \<Rightarrow> name \<Rightarrow> ('c, 'w, node_id option) cdop" where
  "cached_child K parent nm s = (case offline_directory K parent s of
     (Inr (_, entries), s1) \<Rightarrow> (Inr (map_option de_node (List.find (\<lambda>e. de_name e = nm) entries)), s1)
   | (Inl _, s1) \<Rightarrow> (Inr None, s1))"

definition cfs_remove_node :: "'w remote_fs \<Rightarrow> 'c fs_cache \<Rightarrow> node_id \<Rightarrow> name \<Rightarrow> bool \<Rightarrow> ('c, 'w, unit) cdop" where
  "cfs_remove_node I K parent nm directory =
     mbind (cached_child K parent nm) (\<lambda>child.
     mbind (on_inner (in_remove_node I parent nm directory)) (\<lambda>_.
     mbind (invalidate_cached_node K parent) (\<lambda>_.
     case child of
       None \<Rightarrow> mret ()
     | Some node \<Rightarrow> mbind (invalidate_cached_node K node) (\<lambda>_. drop_parent node))))"

definition cfs_rename_node ::
  "'w remote_fs \<Rightarrow> 'c fs_cache \<Rightarrow> node_id \<Rightarrow> name \<Rightarrow> node_id \<Rightarrow> name \<Rightarrow> rename_mode \<Rightarrow> ('c, 'w, unit) cdop" where
  "cfs_rename_node I K parent nm new_parent new_name mode =
     mbind (cached_child K parent nm) (\<lambda>source.
     mbind (cached_child K new_parent new_name) (\<lambda>destination.
     mbind (on_inner (in_rename_node I parent nm new_parent new_name mode)) (\<lambda>_.
     mbind (invalidate_cached_node K parent) (\<lambda>_.
     mbind (invalidate_cached_node K new_parent) (\<lambda>_.
     mbind (case source of None \<Rightarrow> mret () | Some node \<Rightarrow> set_parent node new_parent) (\<lambda>_.
     case destination of
       None \<Rightarrow> mret ()
     | Some node \<Rightarrow> if mode = RenameExchange then set_parent node parent else drop_parent node))))))"

definition cfs_read_link :: "'w remote_fs \<Rightarrow> 'c fs_cache \<Rightarrow> node_id \<Rightarrow> ('c, 'w, bytes) cdop" where
  "cfs_read_link I K node = or_offline (on_inner (in_read_link I node))
     (\<lambda>target s. case on_inner (in_get_metadata I node) s of
        (Inl _, s1) \<Rightarrow> (Inr target, s1)
      | (Inr metadata, s1) \<Rightarrow> mbind (cache_metadata K metadata) (\<lambda>metadata.
          mbind (store_target K metadata node target) (\<lambda>_. mret target)) s1)
     (mbind (cached_metadata K node) (\<lambda>metadata.
      mbind (ask_cache (ca_get_range K (block_key node (md_revision metadata) 0 (md_size metadata)))) (\<lambda>r.
      mlift (ok_or CeOfflineCacheMiss r))))"

subsection \<open>Handles\<close>

definition require_online_handle :: "cached_handle \<Rightarrow> client_error + file_handle" where
  "require_online_handle h = ok_or CeOffline (ch_inner h)"

text \<open>A call on the inner handle of a logical handle.\<close>

definition online_call :: "file_handle \<Rightarrow> (cached_handle \<Rightarrow> file_handle \<Rightarrow> ('c, 'w, 'a) cdop) \<Rightarrow> ('c, 'w, 'a) cdop" where
  "online_call logical f = mbind (get_cached_handle logical) (\<lambda>h.
     mbind (mlift (require_online_handle h)) (\<lambda>inner. f h inner))"

definition cfs_set_attributes ::
  "'w remote_fs \<Rightarrow> 'c fs_cache \<Rightarrow> node_id \<Rightarrow> file_handle option \<Rightarrow> attribute_changes \<Rightarrow> ('c, 'w, metadata) cdop" where
  "cfs_set_attributes I K node handle changes =
     mbind (case handle of
         None \<Rightarrow> mret None
       | Some logical \<Rightarrow> online_call logical (\<lambda>_ inner. mret (Some inner))) (\<lambda>mapped.
     mbind (on_inner (in_set_attributes I node mapped changes)) (\<lambda>metadata.
     mbind (invalidate_cached_node K node) (\<lambda>_.
     mbind (on_cache (ca_store_metadata K metadata)) (\<lambda>_.
     mbind (case handle of None \<Rightarrow> mret () | Some logical \<Rightarrow> update_handle logical (md_revision metadata) (md_size metadata))
       (\<lambda>_. mret metadata)))))"

definition cfs_write_range :: "'w remote_fs \<Rightarrow> 'c fs_cache \<Rightarrow> file_handle \<Rightarrow> u64 \<Rightarrow> bytes \<Rightarrow> ('c, 'w, write_result) cdop" where
  "cfs_write_range I K logical offset data = online_call logical (\<lambda>h inner.
     mbind (on_inner (in_write_range I inner offset data)) (\<lambda>result.
     mbind (invalidate_cached_node_memory K (ch_node h)) (\<lambda>_.
     mbind (update_handle logical (wr_revision result) (wr_size result)) (\<lambda>_. mret result))))"

definition cfs_flush_file :: "'w remote_fs \<Rightarrow> file_handle \<Rightarrow> u64 option \<Rightarrow> ('c, 'w, unit) cdop" where
  "cfs_flush_file I logical lock_owner = mbind (get_cached_handle logical) (\<lambda>h.
     case ch_inner h of Some inner \<Rightarrow> on_inner (in_flush_file I inner lock_owner) | None \<Rightarrow> mret ())"

definition cfs_sync_file :: "'w remote_fs \<Rightarrow> file_handle \<Rightarrow> bool \<Rightarrow> ('c, 'w, unit) cdop" where
  "cfs_sync_file I logical data_only = mbind (get_cached_handle logical) (\<lambda>h.
     case ch_inner h of Some inner \<Rightarrow> on_inner (in_sync_file I inner data_only) | None \<Rightarrow> mret ())"

definition cfs_sync_directory :: "'w remote_fs \<Rightarrow> node_id \<Rightarrow> ('c, 'w, unit) cdop" where
  "cfs_sync_directory I node = on_inner (in_sync_directory I node)"

definition cfs_allocate_file :: "'w remote_fs \<Rightarrow> 'c fs_cache \<Rightarrow> file_handle \<Rightarrow> u64 \<Rightarrow> u64 \<Rightarrow> ('c, 'w, write_result) cdop" where
  "cfs_allocate_file I K logical offset len = online_call logical (\<lambda>h inner.
     mbind (on_inner (in_allocate_file I inner offset len)) (\<lambda>result.
     mbind (invalidate_cached_node K (ch_node h)) (\<lambda>_.
     mbind (update_handle logical (wr_revision result) (wr_size result)) (\<lambda>_. mret result))))"

definition cfs_get_xattr :: "'w remote_fs \<Rightarrow> node_id \<Rightarrow> name \<Rightarrow> u64 \<Rightarrow> u64 \<Rightarrow> ('c, 'w, u64 \<times> bytes) cdop" where
  "cfs_get_xattr I node nm offset len = on_inner (in_get_xattr I node nm offset len)"

definition cfs_set_xattr ::
  "'w remote_fs \<Rightarrow> 'c fs_cache \<Rightarrow> node_id \<Rightarrow> name \<Rightarrow> bytes \<Rightarrow> xattr_set_mode \<Rightarrow> u32 \<Rightarrow> ('c, 'w, unit) cdop" where
  "cfs_set_xattr I K node nm val mode position =
     mbind (on_inner (in_set_xattr I node nm val mode position)) (\<lambda>_. invalidate_cached_node K node)"

definition cfs_list_xattrs :: "'w remote_fs \<Rightarrow> node_id \<Rightarrow> ('c, 'w, name list) cdop" where
  "cfs_list_xattrs I node = on_inner (in_list_xattrs I node)"

definition cfs_remove_xattr :: "'w remote_fs \<Rightarrow> 'c fs_cache \<Rightarrow> node_id \<Rightarrow> name \<Rightarrow> ('c, 'w, unit) cdop" where
  "cfs_remove_xattr I K node nm = mbind (on_inner (in_remove_xattr I node nm)) (\<lambda>_. invalidate_cached_node K node)"

definition cfs_copy_file_range ::
  "'w remote_fs \<Rightarrow> 'c fs_cache \<Rightarrow> file_handle \<Rightarrow> u64 \<Rightarrow> file_handle \<Rightarrow> u64 \<Rightarrow> u64 \<Rightarrow> ('c, 'w, write_result) cdop" where
  "cfs_copy_file_range I K input input_offset output output_offset len =
     mbind (get_cached_handle input) (\<lambda>input_state.
     mbind (get_cached_handle output) (\<lambda>output_state.
     mbind (mlift (require_online_handle input_state)) (\<lambda>input_handle.
     mbind (mlift (require_online_handle output_state)) (\<lambda>output_handle.
     mbind (on_inner (in_copy_file_range I input_handle input_offset output_handle output_offset len)) (\<lambda>result.
     mbind (invalidate_cached_node K (ch_node output_state)) (\<lambda>_.
     mbind (update_handle output (wr_revision result) (wr_size result)) (\<lambda>_. mret result)))))))"

definition cfs_seek_file :: "'w remote_fs \<Rightarrow> file_handle \<Rightarrow> u64 \<Rightarrow> seek_whence \<Rightarrow> ('c, 'w, u64) cdop" where
  "cfs_seek_file I logical offset whence = online_call logical (\<lambda>_ inner. on_inner (in_seek_file I inner offset whence))"

definition cfs_safe_ioctl :: "'w remote_fs \<Rightarrow> file_handle \<Rightarrow> safe_ioctl \<Rightarrow> ('c, 'w, u64) cdop" where
  "cfs_safe_ioctl I logical operation = online_call logical (\<lambda>_ inner. on_inner (in_safe_ioctl I inner operation))"

definition cfs_map_block :: "'w remote_fs \<Rightarrow> node_id \<Rightarrow> u32 \<Rightarrow> u64 \<Rightarrow> ('c, 'w, u64) cdop" where
  "cfs_map_block I node block_size block = on_inner (in_map_block I node block_size block)"

definition cfs_exchange_data ::
  "'w remote_fs \<Rightarrow> 'c fs_cache \<Rightarrow> node_id \<Rightarrow> name \<Rightarrow> node_id \<Rightarrow> name \<Rightarrow> u64 \<Rightarrow> ('c, 'w, unit) cdop" where
  "cfs_exchange_data I K parent nm new_parent new_name options =
     mbind (on_inner (in_exchange_data I parent nm new_parent new_name options)) (\<lambda>_.
     mbind (invalidate_cached_node K parent) (\<lambda>_. invalidate_cached_node K new_parent))"

definition cfs_set_volume_name :: "'w remote_fs \<Rightarrow> name \<Rightarrow> ('c, 'w, unit) cdop" where
  "cfs_set_volume_name I nm = on_inner (in_set_volume_name I nm)"

definition cfs_forget_nodes :: "'w remote_fs \<Rightarrow> node_id list \<Rightarrow> ('c, 'w, unit) cdop" where
  "cfs_forget_nodes I nodes = on_inner (in_forget_nodes I nodes)"

definition cfs_get_lock :: "'w remote_fs \<Rightarrow> file_handle \<Rightarrow> file_lock \<Rightarrow> ('c, 'w, file_lock option) cdop" where
  "cfs_get_lock I logical lock = online_call logical (\<lambda>_ inner. on_inner (in_get_lock I inner lock))"

definition cfs_set_lock :: "'w remote_fs \<Rightarrow> file_handle \<Rightarrow> file_lock \<Rightarrow> bool \<Rightarrow> ('c, 'w, unit) cdop" where
  "cfs_set_lock I logical lock wait = online_call logical (\<lambda>_ inner. on_inner (in_set_lock I inner lock wait))"

definition cfs_close_file :: "'w remote_fs \<Rightarrow> file_handle \<Rightarrow> ('c, 'w, unit) cdop" where
  "cfs_close_file I logical = mbind (get_cached_handle logical) (\<lambda>h.
     mbind (mput (\<lambda>s. s\<lparr>cd_handles := AList.delete logical (cd_handles s)\<rparr>)) (\<lambda>_.
     case ch_inner h of Some inner \<Rightarrow> on_inner (in_close_file I inner) | None \<Rightarrow> mret ()))"

end
