(* ===== verification/Client_Prefetch_Props.thy ===== *)
theory Client_Prefetch_Props
  imports Client_Cached
begin

text \<open>
  What the read-ahead controller schedules: blocks inside the file, behind the demand read, in
  order and without overlap, and never more than the window allows; and when the keys it
  schedules are the keys a demand read of the same bytes would use.
\<close>

subsection \<open>One pass of the scheduler\<close>

text \<open>Consecutive blocks of a file from a cursor on.\<close>

definition block_run :: "node_id \<Rightarrow> u64 \<Rightarrow> u64 \<Rightarrow> u64 \<Rightarrow> u64 \<Rightarrow> nat \<Rightarrow> range_key list" where
  "block_run node revision sz block_size cursor n =
     map (\<lambda>k. block_key node revision (cursor + k * block_size) (min block_size (sz - (cursor + k * block_size)))) [0..<n]"

lemma block_run_Cons:
  "block_run node revision sz block_size cursor (Suc n) =
     block_key node revision cursor (min block_size (sz - cursor)) # block_run node revision sz block_size (cursor + block_size) n"
  unfolding block_run_def upt_conv_Cons [OF zero_less_Suc] map_Suc_upt [symmetric] by (simp add: algebra_simps)

lemma schedule_loop_done: "target \<le> cursor \<Longrightarrow> schedule_loop node revision sz block_size target budget cursor = ([], cursor)"
  by (cases budget) simp_all

lemma schedule_loop_spec:
  assumes "sz \<le> U64_MAX" "target \<le> sz" "0 < block_size"
    and "schedule_loop node revision sz block_size target budget cursor = (blocks, cursor')"
  shows "blocks = block_run node revision sz block_size cursor (length blocks) \<and> length blocks \<le> budget \<and>
    (\<forall>b\<in>set blocks. cursor \<le> rg_offset b \<and> rg_offset b < target) \<and>
    (block_size dvd cursor \<longrightarrow> block_size dvd cursor' \<or> sz \<le> cursor')"
  using assms(4)
proof (induction budget arbitrary: cursor blocks)
  case 0
  then show ?case by (auto simp: block_run_def)
next
  case (Suc budget)
  show ?case
  proof (cases "cursor < target")
    case False
    then show ?thesis using Suc.prems by (auto simp: block_run_def)
  next
    case True
    obtain rest where rest: "schedule_loop node revision sz block_size target budget (saturating_add cursor block_size) =
        (rest, cursor')" and blocks: "blocks = block_key node revision cursor (min block_size (sz - cursor)) # rest"
      using Suc.prems True assms(2,3) by (auto simp: Let_def split: if_splits prod.splits)
    show ?thesis
    proof (cases "cursor + block_size \<le> U64_MAX")
      case True
      then have "saturating_add cursor block_size = cursor + block_size" by (rule saturating_add_exact)
      then show ?thesis
        using Suc.IH [OF rest] blocks \<open>cursor < target\<close> by (auto simp: block_run_Cons block_key_def)
    next
      case False
      then have "saturating_add cursor block_size = U64_MAX" by (simp add: saturating_add_def)
      then have "rest = [] \<and> cursor' = U64_MAX"
        using rest schedule_loop_done [of target U64_MAX] assms(1,2) by auto
      then show ?thesis
        using blocks \<open>cursor < target\<close> assms(1) by (auto simp: block_run_def block_key_def)
    qed
  qed
qed

definition demand_end :: "u64 \<Rightarrow> u64 \<Rightarrow> u64 \<Rightarrow> u64" where
  "demand_end read_end block_size sz = min (saturating_mul (div_ceil read_end block_size) block_size) sz"

lemma demand_end_cases:
  assumes "0 < block_size" "sz \<le> U64_MAX"
  shows "demand_end read_end block_size sz = sz \<or>
    block_size dvd demand_end read_end block_size sz \<and> read_end \<le> demand_end read_end block_size sz"
proof (cases "div_ceil read_end block_size * block_size \<le> sz")
  case True
  then have "demand_end read_end block_size sz = div_ceil read_end block_size * block_size"
    using assms(2) by (simp add: demand_end_def saturating_mul_def)
  then show ?thesis using div_ceil_bounds(1) [OF assms(1), of read_end] by simp
next
  case False
  then show ?thesis using assms(2) by (auto simp: demand_end_def saturating_mul_def)
qed

lemma demand_end_reaches: "0 < block_size \<Longrightarrow> sz \<le> U64_MAX \<Longrightarrow> min read_end sz \<le> demand_end read_end block_size sz"
  using demand_end_cases [of block_size sz read_end] by auto

text \<open>What one call of \<^verbatim>\<open>schedule\<close> returns and does to its stream.\<close>

lemma schedule_spec:
  assumes "sz \<le> U64_MAX" "0 < block_size"
    and run: "schedule stream node revision read_end sz block_size cap_blocks = (blocks, stream')"
  shows "\<exists>cursor. blocks = block_run node revision sz block_size cursor (length blocks) \<and>
      cursor = max (st_cursor stream) (demand_end read_end block_size sz) \<and>
      (\<forall>b\<in>set blocks. cursor \<le> rg_offset b \<and> rg_offset b < sz) \<and>
      length blocks \<le> min (min (st_window_blocks stream) cap_blocks - st_inflight stream) SCHEDULE_BURST_BLOCKS \<and>
      stream' = stream\<lparr>st_cursor := st_cursor stream', st_inflight := st_inflight stream'\<rparr> \<and>
      st_inflight stream' \<le> st_inflight stream + length blocks \<and>
      (st_cursor stream' = st_cursor stream \<and> blocks = [] \<or>
       (block_size dvd cursor \<longrightarrow> block_size dvd st_cursor stream' \<or> sz \<le> st_cursor stream') \<and>
       (sz \<le> cursor \<longrightarrow> sz \<le> st_cursor stream'))"
proof (cases "min (st_window_blocks stream) cap_blocks = 0 \<or> sz = 0")
  case True
  then show ?thesis using run by (auto simp: schedule_def Let_def block_run_def)
next
  case False
  let ?cursor = "max (st_cursor stream) (demand_end read_end block_size sz)"
  define target where "target = min (saturating_add (demand_end read_end block_size sz)
    (saturating_mul (min (st_window_blocks stream) cap_blocks) block_size)) sz"
  obtain cursor' where loop: "schedule_loop node revision sz block_size target
      (min (min (st_window_blocks stream) cap_blocks - st_inflight stream) SCHEDULE_BURST_BLOCKS) ?cursor = (blocks, cursor')"
    and stream': "stream' = stream\<lparr>st_cursor := cursor', st_inflight := saturating_add (st_inflight stream) (length blocks)\<rparr>"
    using run False by (auto simp: schedule_def Let_def demand_end_def target_def split: prod.splits)
  have target: "target \<le> sz" by (simp add: target_def)
  have stays: "sz \<le> ?cursor \<longrightarrow> cursor' = ?cursor"
    using loop schedule_loop_done [of target ?cursor] target by auto
  show ?thesis
    using schedule_loop_spec [OF assms(1) target assms(2) loop] stream' target stays
    by (intro exI [of _ ?cursor]) (auto simp: saturating_add_def)
qed

subsection \<open>Alignment\<close>

text \<open>
  A cursor is at a block boundary, past the end of the file, or has not been scheduled from:
  then it is not past the offset its stream expects.
\<close>

definition aligned :: "u64 \<Rightarrow> u64 \<Rightarrow> prefetch_stream \<Rightarrow> bool" where
  "aligned block_size sz st \<longleftrightarrow> block_size dvd st_cursor st \<or> sz \<le> st_cursor st \<or> st_cursor st \<le> st_next_expected st"

definition on_grid :: "u64 \<Rightarrow> u64 \<Rightarrow> node_id \<Rightarrow> u64 \<Rightarrow> range_key \<Rightarrow> bool" where
  "on_grid block_size sz node revision b \<longleftrightarrow> block_size dvd rg_offset b \<and> rg_offset b < sz \<and>
     b = block_key node revision (rg_offset b) (min block_size (sz - rg_offset b))"

lemma block_run_grid:
  assumes "block_size dvd cursor" "\<forall>b\<in>set (block_run node revision sz block_size cursor n). rg_offset b < sz"
  shows "\<forall>b\<in>set (block_run node revision sz block_size cursor n). on_grid block_size sz node revision b"
  using assms by (auto simp: block_run_def on_grid_def block_key_def)

lemma schedule_aligned:
  assumes "sz \<le> U64_MAX" "0 < block_size" "aligned block_size sz stream" "st_next_expected stream \<le> read_end"
    and "schedule (stream\<lparr>st_cursor := c\<rparr>) node revision read_end sz block_size cap_blocks = (blocks, stream')"
    and "c = st_cursor stream \<or> c = max (st_cursor stream) read_end" "read_end \<le> e"
  shows "(\<forall>b\<in>set blocks. on_grid block_size sz node revision b) \<and>
    aligned block_size sz (stream'\<lparr>st_next_expected := e\<rparr>)"
proof -
  let ?d = "demand_end read_end block_size sz"
  note cases = demand_end_cases [OF assms(2,1), of read_end]
  have start: "block_size dvd max c ?d \<or> sz \<le> max c ?d"
    using cases assms(3,4,6) by (auto simp: aligned_def max_def split: if_splits)
  obtain cursor where spec: "blocks = block_run node revision sz block_size cursor (length blocks)"
    "cursor = max c ?d" "\<forall>b\<in>set blocks. cursor \<le> rg_offset b \<and> rg_offset b < sz"
    "st_cursor stream' = c \<and> blocks = [] \<or>
       (block_size dvd cursor \<longrightarrow> block_size dvd st_cursor stream' \<or> sz \<le> st_cursor stream') \<and>
       (sz \<le> cursor \<longrightarrow> sz \<le> st_cursor stream')"
    using schedule_spec [OF assms(1,2,5)] by auto
  have "\<forall>b\<in>set blocks. on_grid block_size sz node revision b"
  proof (cases "sz \<le> cursor")
    case True
    then have "blocks = []" using spec(3) by (cases blocks) auto
    then show ?thesis by simp
  next
    case False
    then show ?thesis
      using start spec(2,3) block_run_grid [of block_size cursor node revision sz "length blocks"] spec(1) by auto
  qed
  moreover have "aligned block_size sz (stream'\<lparr>st_next_expected := e\<rparr>)"
    using spec(4) start spec(2) assms(3,4,6,7) by (auto simp: aligned_def max_def split: if_splits)
  ultimately show ?thesis by blast
qed

definition aligned_all :: "u64 \<Rightarrow> u64 \<Rightarrow> prefetcher \<Rightarrow> bool" where
  "aligned_all block_size sz c \<longleftrightarrow> (\<forall>st\<in>set (sp_streams c). aligned block_size sz st)"

lemma set_swap_remove: "set (swap_remove i xs) \<subseteq> set xs"
proof (cases "xs = []")
  case False
  have "set (butlast xs) \<subseteq> set xs" by (auto dest: in_set_butlastD)
  then show ?thesis
    using False set_update_subset_insert [of "butlast xs" i "last xs"] by (auto simp: swap_remove_def)
qed (simp add: swap_remove_def)

lemma set_recycle: "set (recycle streams) \<subseteq> set streams"
  by (auto simp: recycle_def dest: set_swap_remove [THEN subsetD] split: option.splits)

lemma start_stream_aligned:
  assumes "sz \<le> U64_MAX" "0 < block_size" "aligned_all block_size sz c"
    and "start_stream node revision read_end sz block_size cap_blocks touch c = ((i, blocks), c')"
  shows "(\<forall>b\<in>set blocks. on_grid block_size sz node revision b) \<and> aligned_all block_size sz c'"
proof -
  define stream where "stream = \<lparr>st_id = wrapping_succ (sp_next_stream_id c), st_last_touch = touch, st_active = False,
    st_next_expected = read_end, st_run = 1, st_cursor = read_end, st_window_blocks = min PRIME_WINDOW_BLOCKS cap_blocks,
    st_inflight = 0, st_bytes_since_growth = 0\<rparr>"
  obtain primed stream' where run: "schedule (stream\<lparr>st_cursor := st_cursor stream\<rparr>) node revision read_end sz block_size
      cap_blocks = (primed, stream')"
    by fastforce
  have new: "aligned block_size sz stream" "st_next_expected stream \<le> read_end"
    by (simp_all add: stream_def aligned_def)
  have expected: "st_next_expected stream' = read_end"
    using schedule_spec [OF assms(1,2) run] by (auto simp: stream_def dest: arg_cong [where f = st_next_expected])
  have sched: "(\<forall>b\<in>set primed. on_grid block_size sz node revision b) \<and> aligned block_size sz (stream'\<lparr>st_next_expected := read_end\<rparr>)"
    by (rule schedule_aligned [OF assms(1,2) new run]) simp_all
  then have "aligned block_size sz (stream'\<lparr>st_window_blocks := 0\<rparr>)"
    using expected by (simp add: aligned_def)
  then show ?thesis
    using assms(3,4) sched run
    by (auto simp: start_stream_def Let_def aligned_all_def stream_def aligned_def dest!: set_recycle [THEN subsetD]
        split: if_splits prod.splits)
qed

end
