(* ===== verification/Prefetch_Properties.thy ===== *)
theory Prefetch_Properties
  imports Client_Prefetch_Props
begin

text \<open>
  The read-ahead controller over a sequence of reads and completions: on reads that never end
  before what their stream already expects, every key it schedules is the key of a demand read
  of the same bytes, so the two share one fetch; a read that goes back can break this.
\<close>

lemma continue_stream_aligned:
  assumes "sz \<le> U64_MAX" "0 < block_size" "aligned_all block_size sz c" "i < length (sp_streams c)"
    and order: "st_next_expected (sp_streams c ! i) \<le> read_end"
    and run: "continue_stream node read_end returned sz elapsed block_size cap_blocks touch i c = ((j, blocks), c')"
  shows "(\<forall>b\<in>set blocks. on_grid block_size sz node (sp_revision c) b) \<and> aligned_all block_size sz c'"
proof -
  define old where "old = sp_streams c ! i"
  define stream where "stream = old\<lparr>st_last_touch := touch, st_run := saturating_add (st_run old) 1,
    st_next_expected := max (st_next_expected old) read_end\<rparr>"
  define ready where "ready = grow returned elapsed block_size cap_blocks (activate read_end cap_blocks stream)"
  have old: "aligned block_size sz old"
    using assms(3,4) by (auto simp: aligned_all_def old_def)
  have expected: "st_next_expected stream = read_end" "st_next_expected ready = read_end"
    using order by (auto simp: stream_def ready_def grow_def activate_def Let_def old_def)
  have cursor: "st_cursor ready = st_cursor old \<or> st_cursor ready = max (st_cursor old) read_end"
    by (auto simp: ready_def grow_def activate_def Let_def stream_def)
  have idle: "aligned block_size sz stream"
    using old expected(1) order by (auto simp: aligned_def stream_def old_def)
  obtain bs stream' where sched: "schedule ready node (sp_revision c) read_end sz block_size cap_blocks = (bs, stream')"
    by fastforce
  have kept: "st_next_expected stream' = read_end"
    using schedule_spec [OF assms(1,2) sched] expected(2) by (auto dest: arg_cong [where f = st_next_expected])
  have "(ready\<lparr>st_cursor := st_cursor old\<rparr>)\<lparr>st_cursor := st_cursor ready\<rparr> = ready" by simp
  moreover have "aligned block_size sz (ready\<lparr>st_cursor := st_cursor old\<rparr>)"
    using old expected(2) order by (auto simp: aligned_def old_def)
  ultimately have "(\<forall>b\<in>set bs. on_grid block_size sz node (sp_revision c) b) \<and>
      aligned block_size sz (stream'\<lparr>st_next_expected := read_end\<rparr>)"
    using schedule_aligned [OF assms(1,2), of "ready\<lparr>st_cursor := st_cursor old\<rparr>" read_end "st_cursor ready" node
        "sp_revision c" cap_blocks bs stream' read_end] sched cursor expected(2) by simp
  then have "\<forall>b\<in>set bs. on_grid block_size sz node (sp_revision c) b" "aligned block_size sz stream'"
    using kept by (simp_all add: aligned_def)
  moreover have "(if st_run stream < SEQUENTIAL_TRIGGER
      then ((st_id stream, []), c\<lparr>sp_streams := (sp_streams c)[i := stream]\<rparr>)
      else ((st_id stream, bs), c\<lparr>sp_streams := (sp_streams c)[i := stream']\<rparr>)) = ((j, blocks), c')"
    using run sched unfolding continue_stream_def Let_def old_def [symmetric] stream_def [symmetric]
      ready_def [symmetric] by (simp cong: if_cong)
  ultimately show ?thesis
    using idle assms(3)
    by (auto simp: aligned_all_def split: if_splits dest!: set_update_subset_insert [THEN subsetD])
qed

subsection \<open>Sequences of reads\<close>

datatype prefetch_op = PRead u64 u64 nat nat | PDone u64 bool

text \<open>
  A read is observed, and the blocks beyond the granted ones are given back, as \<open>maybe_prefetch\<close>
  does; a completion reports its stream. The result is what is fetched.
\<close>

fun prefetch_step :: "node_id \<Rightarrow> u64 \<Rightarrow> u64 \<Rightarrow> u64 \<Rightarrow> u64 \<Rightarrow> prefetch_op \<Rightarrow> prefetcher \<Rightarrow> range_key list \<times> prefetcher" where
  "prefetch_step node revision sz block_size cap_blocks (PRead offset returned elapsed granted) c =
     (let ((i, blocks), c1) = observe node offset returned revision sz elapsed block_size cap_blocks c
      in (take granted blocks, unschedule i (drop granted blocks) c1))"
| "prefetch_step node revision sz block_size cap_blocks (PDone i ok) c = ([], complete i ok c)"

fun run_prefetch :: "node_id \<Rightarrow> u64 \<Rightarrow> u64 \<Rightarrow> u64 \<Rightarrow> u64 \<Rightarrow> prefetch_op list \<Rightarrow> prefetcher \<Rightarrow> range_key list \<times> prefetcher" where
  "run_prefetch node revision sz block_size cap_blocks [] c = ([], c)"
| "run_prefetch node revision sz block_size cap_blocks (op # ops) c =
     (let (blocks, c1) = prefetch_step node revision sz block_size cap_blocks op c;
          (rest, c2) = run_prefetch node revision sz block_size cap_blocks ops c1
      in (blocks @ rest, c2))"

text \<open>A read that does not end before the offset that the stream it continues expects.\<close>

fun goes_on :: "u64 \<Rightarrow> prefetch_op \<Rightarrow> prefetcher \<Rightarrow> bool" where
  "goes_on block_size (PRead offset returned elapsed granted) c =
     (case matching_stream (saturating_mul block_size SEQUENTIAL_SLACK_BLOCKS) offset (sp_streams c) of
        None \<Rightarrow> True
      | Some i \<Rightarrow> st_next_expected (sp_streams c ! i) \<le> saturating_add offset returned)"
| "goes_on block_size (PDone i ok) c = True"

fun orderly :: "node_id \<Rightarrow> u64 \<Rightarrow> u64 \<Rightarrow> u64 \<Rightarrow> u64 \<Rightarrow> prefetch_op list \<Rightarrow> prefetcher \<Rightarrow> bool" where
  "orderly node revision sz block_size cap_blocks [] c = True"
| "orderly node revision sz block_size cap_blocks (op # ops) c = (goes_on block_size op c \<and>
     orderly node revision sz block_size cap_blocks ops (snd (prefetch_step node revision sz block_size cap_blocks op c)))"

lemma matching_stream_index: "matching_stream slack offset streams = Some i \<Longrightarrow> i < length streams"
  unfolding matching_stream_def by (drule min_by_key_Some) auto

text \<open>Before its first read a controller tracks nothing; later it tracks the revision of its reads.\<close>

definition tracks :: "u64 \<Rightarrow> prefetcher \<Rightarrow> bool" where
  "tracks revision c \<longleftrightarrow> sp_revision c = revision \<or> sp_streams c = []"

lemma observe_aligned:
  assumes "sz \<le> U64_MAX" "aligned_all block_size sz c" "tracks revision c"
    and order: "goes_on block_size (PRead offset returned elapsed granted) c"
    and run: "observe node offset returned revision sz elapsed block_size cap_blocks c = ((j, blocks), c')"
  shows "(\<forall>b\<in>set blocks. on_grid block_size sz node revision b) \<and> aligned_all block_size sz c' \<and> tracks revision c'"
proof (cases "block_size = 0 \<or> cap_blocks = 0")
  case True
  then show ?thesis using run assms(2,3) by (auto simp: observe_def)
next
  case False
  then have pos: "0 < block_size" by simp
  define c0 where "c0 = (if revision \<noteq> sp_revision c then prefetcher_default\<lparr>sp_revision := revision\<rparr> else c)"
  define c1 where "c1 = c0\<lparr>sp_touch_counter := wrapping_succ (sp_touch_counter c0)\<rparr>"
  have streams: "sp_streams c1 = sp_streams c" "sp_revision c1 = revision"
    using assms(3) by (auto simp: c1_def c0_def tracks_def prefetcher_default_def)
  then have all: "aligned_all block_size sz c1" using assms(2) by (simp add: aligned_all_def)
  let ?slack = "saturating_mul block_size SEQUENTIAL_SLACK_BLOCKS" and ?fin = "saturating_add offset returned"
  have step: "(case matching_stream ?slack offset (sp_streams c1) of
      None \<Rightarrow> start_stream node revision ?fin sz block_size cap_blocks (sp_touch_counter c1) c1
    | Some i \<Rightarrow> continue_stream node ?fin returned sz elapsed block_size cap_blocks (sp_touch_counter c1) i c1) =
      ((j, blocks), c')"
    using run False unfolding observe_def Let_def c0_def [symmetric] by (simp add: c1_def split: option.splits)
  show ?thesis
  proof (cases "matching_stream ?slack offset (sp_streams c1)")
    case None
    then have start: "start_stream node revision ?fin sz block_size cap_blocks (sp_touch_counter c1) c1 = ((j, blocks), c')"
      using step by simp
    then have "sp_revision c' = revision"
      using streams(2) by (auto simp: start_stream_def Let_def split: prod.splits if_splits)
    then show ?thesis
      using start_stream_aligned [OF assms(1) pos all start] by (simp add: tracks_def)
  next
    case (Some i)
    then have go: "continue_stream node ?fin returned sz elapsed block_size cap_blocks (sp_touch_counter c1) i c1 =
        ((j, blocks), c')"
      using step by simp
    have "st_next_expected (sp_streams c1 ! i) \<le> ?fin"
      using order Some streams by simp
    from continue_stream_aligned [OF assms(1) pos all matching_stream_index [OF Some] this go]
    have "(\<forall>b\<in>set blocks. on_grid block_size sz node revision b) \<and> aligned_all block_size sz c'"
      using streams by simp
    moreover have "sp_revision c' = revision"
      using go streams(2) by (auto simp: continue_stream_def Let_def split: prod.splits if_splits)
    ultimately show ?thesis by (simp add: tracks_def)
  qed
qed

lemma set_modify_stream: "st \<in> set (modify_stream i f streams) \<Longrightarrow> st \<in> set streams \<or> (\<exists>x\<in>set streams. st = f x)"
  by (induction streams) (auto split: if_splits)

lemma unschedule_aligned:
  assumes "aligned_all block_size sz c" "\<forall>b\<in>set blocks. on_grid block_size sz node revision b"
  shows "aligned_all block_size sz (unschedule i blocks c)"
proof (cases blocks)
  case (Cons b bs)
  then have b: "block_size dvd rg_offset b" "rg_offset b < sz" using assms(2) by (auto simp: on_grid_def)
  have "aligned block_size sz (st\<lparr>st_inflight := n, st_cursor := min (st_cursor st) (rg_offset b)\<rparr>)"
    if "aligned block_size sz st" for st n
    using that b by (cases "st_cursor st \<le> rg_offset b") (auto simp: aligned_def)
  then show ?thesis
    using assms(1) Cons by (auto simp: unschedule_def aligned_all_def dest!: set_modify_stream)
qed (use assms(1) in \<open>simp add: unschedule_def\<close>)

lemma complete_aligned: "aligned_all block_size sz c \<Longrightarrow> aligned_all block_size sz (complete i ok c)"
  by (cases ok) (auto simp: complete_def aligned_all_def aligned_def dest!: set_modify_stream)

lemma tracks_kept [simp]: "tracks revision (unschedule i blocks c) \<longleftrightarrow> tracks revision c"
  "tracks revision (complete i ok c) \<longleftrightarrow> tracks revision c"
proof -
  have "modify_stream i f streams = [] \<longleftrightarrow> streams = []" for f streams by (cases streams) auto
  then show "tracks revision (unschedule i blocks c) \<longleftrightarrow> tracks revision c"
    "tracks revision (complete i ok c) \<longleftrightarrow> tracks revision c"
    by (auto simp: unschedule_def complete_def tracks_def split: list.splits)
qed

lemma prefetch_step_aligned:
  assumes "sz \<le> U64_MAX" "aligned_all block_size sz c" "tracks revision c" "goes_on block_size op c"
    and "prefetch_step node revision sz block_size cap_blocks op c = (blocks, c')"
  shows "(\<forall>b\<in>set blocks. on_grid block_size sz node revision b) \<and> aligned_all block_size sz c' \<and> tracks revision c'"
proof (cases op)
  case (PRead offset returned elapsed granted)
  obtain i bs c1 where run: "observe node offset returned revision sz elapsed block_size cap_blocks c = ((i, bs), c1)"
    by (metis prod.exhaust)
  note obs = observe_aligned [OF assms(1-3) assms(4) [unfolded PRead] run]
  have "\<forall>b\<in>set (drop granted bs). on_grid block_size sz node revision b"
    using obs by (auto dest: in_set_dropD)
  from unschedule_aligned [OF _ this, of c1 i] show ?thesis
    using obs assms(5) run PRead by (auto dest: in_set_takeD)
next
  case (PDone i ok)
  then show ?thesis using assms(2,3,5) complete_aligned by auto
qed

lemma run_prefetch_grid:
  assumes "sz \<le> U64_MAX" "aligned_all block_size sz c" "tracks revision c" "orderly node revision sz block_size cap_blocks ops c"
  shows "\<forall>b\<in>set (fst (run_prefetch node revision sz block_size cap_blocks ops c)). on_grid block_size sz node revision b"
  using assms
proof (induction ops arbitrary: c)
  case (Cons op ops)
  obtain blocks c1 where step: "prefetch_step node revision sz block_size cap_blocks op c = (blocks, c1)" by fastforce
  note one = prefetch_step_aligned [OF Cons.prems(1-3) _ step]
  show ?case
    using one Cons.prems(4) Cons.IH [OF assms(1), of c1] step by (auto simp: split_beta)
qed simp

subsection \<open>Demand keys\<close>

lemma blocks_for_grid:
  assumes b: "on_grid block_size (ch_size h) (ch_node h) (ch_revision h) b"
    and size: "demand_block_size policy len = block_size" "0 < block_size"
    and inside: "rg_offset b \<le> offset" "offset + len \<le> rg_offset b + rg_length b" "0 < len"
    and bound: "rg_offset b + block_size \<le> U64_MAX"
  shows "blocks_for policy h offset len = Inr [b]"
proof -
  have len: "rg_length b = min block_size (ch_size h - rg_offset b)"
    using b by (auto simp: on_grid_def block_key_def dest: arg_cong [where f = rg_length])
  obtain q where q: "rg_offset b = q * block_size" using b by (auto simp: on_grid_def dvd_def mult.commute)
  have "offset < q * block_size + block_size" using inside len q by (simp add: min_def split: if_splits)
  then have "offset div block_size = q"
    using inside(1) q size(2)
    by (metis add.commute div_nat_eqI mult.commute mult_Suc_right)
  then have first: "offset div block_size * block_size = rg_offset b" using q by simp
  have requested: "min len (ch_size h - offset) = len"
    using inside len by (auto simp: min_def split: if_splits)
  have room: "offset + len \<le> U64_MAX" using inside(2) len bound by (auto simp: min_def split: if_splits)
  have small: "min (min (cp_block_size policy) block_size) (ch_size h - rg_offset b) = rg_length b"
    using len size(1) by (auto simp: demand_block_size_def min_def split: if_splits)
  have "handle_range h (rg_offset b) (rg_length b) = b"
    using b len by (simp add: handle_range_def on_grid_def)
  moreover have "blocks_loop h (cp_block_size policy) block_size (offset + len) (rg_offset b + block_size) = Inr []"
    using inside(2) len by (subst blocks_loop.simps) (auto simp: min_def split: if_splits)
  ultimately have "blocks_loop h (cp_block_size policy) block_size (offset + len) (rg_offset b) = Inr [b]"
    using inside(1,3) size(2) bound small by (subst blocks_loop.simps) (simp add: checked_add_def)
  then show ?thesis
    using room inside(3) requested first size(1) by (simp add: blocks_for_def Let_def checked_add_def)
qed

text \<open>C39. Speculative and demand fetches coalesce: over any sequence of reads of a file at one block
  size, completions and refused permits, as long as no read ends before the offset its stream
  already expects, every block the controller fetches is the very key that a demand read of
  bytes inside it looks up, so the read is served by that fetch and sends no second one.\<close>
theorem prefetch_coalesces:
  assumes "ch_size h \<le> U64_MAX" "0 < block_size"
    and "orderly (ch_node h) (ch_revision h) (ch_size h) block_size cap_blocks ops prefetcher_default"
    and "b \<in> set (fst (run_prefetch (ch_node h) (ch_revision h) (ch_size h) block_size cap_blocks ops prefetcher_default))"
    and "demand_block_size policy len = block_size" "0 < len"
    and "rg_offset b \<le> offset" "offset + len \<le> rg_offset b + rg_length b" "rg_offset b + block_size \<le> U64_MAX"
  shows "blocks_for policy h offset len = Inr [b] \<and> rg_offset b + rg_length b \<le> ch_size h"
proof -
  have "aligned_all block_size (ch_size h) prefetcher_default" "tracks (ch_revision h) prefetcher_default"
    by (simp_all add: aligned_all_def tracks_def prefetcher_default_def)
  from run_prefetch_grid [OF assms(1) this assms(3)] assms(4)
  have grid: "on_grid block_size (ch_size h) (ch_node h) (ch_revision h) b" by blast
  then have "rg_offset b + rg_length b \<le> ch_size h"
    by (auto simp: on_grid_def block_key_def dest: arg_cong [where f = rg_length])
  then show ?thesis
    using blocks_for_grid [OF grid assms(5,2,7,8,6,9)] by simp
qed

subsection \<open>Concrete reads\<close>

lemmas controller_eval = saturating_add_def saturating_mul_def U64_MAX_def wrapping_succ_def div_ceil_def abs_diff_def
  continues_def recycle_def SCHEDULE_BURST_BLOCKS_def PRIME_WINDOW_BLOCKS_def SEQUENTIAL_SLACK_BLOCKS_def
  MAX_PREFETCH_STREAMS_def SEQUENTIAL_TRIGGER_def INITIAL_ACTIVE_WINDOW_BLOCKS_def DEMAND_STALL_FLOOR_def

definition demo_stream :: "u64 \<Rightarrow> u64 \<Rightarrow> u64 \<Rightarrow> u64 \<Rightarrow> u64 \<Rightarrow> prefetch_stream" where
  "demo_stream i touch expected cursor inflight = \<lparr>st_id = i, st_last_touch = touch, st_active = False, st_next_expected = expected,
     st_run = 1, st_cursor = cursor, st_window_blocks = 0, st_inflight = inflight, st_bytes_since_growth = 0\<rparr>"

definition demo_controller :: "u64 \<Rightarrow> u64 \<Rightarrow> prefetch_stream list \<Rightarrow> prefetcher" where
  "demo_controller i touch streams = \<lparr>sp_revision = 2, sp_next_stream_id = i, sp_touch_counter = touch, sp_streams = streams\<rparr>"

lemma schedule_loop_Suc: "cursor < target \<Longrightarrow> target \<le> sz \<Longrightarrow> 0 < block_size \<Longrightarrow>
  schedule_loop node revision sz block_size target budget cursor = (if budget = 0 then ([], cursor) else
    (let (blocks, c) = schedule_loop node revision sz block_size target (budget - 1) (saturating_add cursor block_size)
     in (block_key node revision cursor (min block_size (sz - cursor)) # blocks, c)))"
  by (cases budget) (auto simp: Let_def min_def)

lemma demo_prime: "observe 4 0 10 2 95 0 10 6 prefetcher_default =
   ((1, [block_key 4 2 10 10, block_key 4 2 20 10]), demo_controller 1 1 [demo_stream 1 1 10 30 2])"
  by (simp add: observe_def Let_def prefetcher_default_def matching_stream_def start_stream_def schedule_def controller_eval
     schedule_loop_Suc schedule_loop_done demo_controller_def demo_stream_def)

lemma demo_second: "observe 4 10 10 2 95 20 10 6 (demo_controller 1 1 [demo_stream 1 1 10 30 2]) =
   ((1, [block_key 4 2 30 10, block_key 4 2 40 10]), demo_controller 1 2 [(demo_stream 1 2 20 50 4)
      \<lparr>st_active := True, st_run := 2, st_window_blocks := 4, st_bytes_since_growth := 10\<rparr>])"
  by (simp add: observe_def Let_def matching_stream_def continue_stream_def activate_def grow_def schedule_def controller_eval
     schedule_loop_Suc schedule_loop_done demo_controller_def demo_stream_def)

definition demo_file_handle :: "u64 \<Rightarrow> cached_handle" where
  "demo_file_handle sz = \<lparr>ch_node = 4, ch_inner = Some 9, ch_revision = 2, ch_size = sz, ch_prefetch = prefetcher_default\<rparr>"

definition demo_policy :: cache_policy where
  "demo_policy = \<lparr>cp_block_size = 10, cp_read_ahead_max_bytes = 60\<rparr>"

theorem prefetch_coalesces_witness:
  "fst (run_prefetch 4 2 95 10 6 [PRead 0 10 0 2, PRead 10 10 20 1] prefetcher_default) =
     [block_key 4 2 10 10, block_key 4 2 20 10, block_key 4 2 30 10] \<and>
   blocks_for demo_policy (demo_file_handle 95) 33 5 = Inr [block_key 4 2 30 10]"
proof -
  let ?ops = "[PRead 0 10 0 2, PRead 10 10 20 1]" and ?h = "demo_file_handle 95"
  have h: "ch_node ?h = 4" "ch_revision ?h = 2" "ch_size ?h = 95"
    by (simp_all add: demo_file_handle_def)
  have run: "fst (run_prefetch (ch_node ?h) (ch_revision ?h) (ch_size ?h) 10 6 ?ops prefetcher_default) =
      [block_key 4 2 10 10, block_key 4 2 20 10, block_key 4 2 30 10]"
    unfolding h by (simp add: demo_prime demo_second unschedule_def take_Cons' drop_Cons' del: One_nat_def)
  have ordered: "orderly (ch_node ?h) (ch_revision ?h) (ch_size ?h) 10 6 ?ops prefetcher_default"
    unfolding h by (simp add: demo_prime demo_second unschedule_def del: One_nat_def)
      (simp add: matching_stream_def prefetcher_default_def demo_controller_def demo_stream_def controller_eval)
  have "blocks_for demo_policy ?h 33 5 = Inr [block_key 4 2 30 10] \<and>
      rg_offset (block_key 4 2 30 10) + rg_length (block_key 4 2 30 10) \<le> ch_size ?h"
  proof (rule prefetch_coalesces [OF _ _ ordered])
    show "block_key 4 2 30 10 \<in> set (fst (run_prefetch (ch_node ?h) (ch_revision ?h) (ch_size ?h) 10 6 ?ops prefetcher_default))"
      unfolding run by simp
  qed (simp_all add: h U64_MAX_def block_key_def demand_block_size_def SMALL_READ_THRESHOLD_def demo_policy_def
      SMALL_READ_AHEAD_BLOCK_SIZE_def)
  then show ?thesis using run unfolding h by simp
qed

subsection \<open>A read that goes back\<close>

lemma blocks_loop_grid:
  "blocks_loop h policy_size block_size e offset = Inr ks \<Longrightarrow> block_size dvd offset \<Longrightarrow> \<forall>b\<in>set ks. block_size dvd rg_offset b"
proof (induction h policy_size block_size e offset arbitrary: ks rule: blocks_loop.induct)
  case (1 h policy_size block_size e offset)
  show ?case
    using 1(2,3) 1(1) [OF _ refl, of "offset + block_size"]
    by (subst (asm) blocks_loop.simps)
      (auto simp: ebind_Inr_iff handle_range_def block_key_def split: if_splits option.splits)
qed

lemma blocks_for_on_grid:
  assumes "blocks_for policy h offset len = Inr ks" "cp_block_size policy \<le> SMALL_READ_AHEAD_BLOCK_SIZE"
  shows "\<forall>b\<in>set ks. cp_block_size policy dvd rg_offset b"
proof -
  have "demand_block_size policy len = cp_block_size policy" using assms(2) by (simp add: demand_block_size_def)
  then show ?thesis
    using assms(1) blocks_loop_grid [of h "cp_block_size policy" "cp_block_size policy" _ "offset div cp_block_size policy * cp_block_size policy" ks]
    by (auto simp: blocks_for_def Let_def split: if_splits option.splits)
qed

lemma demo_jump: "observe 4 295 10 2 995 0 10 6 (demo_controller 1 1 [demo_stream 1 1 10 30 2]) =
   ((2, []), demo_controller 2 2 [demo_stream 1 1 10 30 2, demo_stream 2 2 305 305 0])"
  by (simp add: observe_def Let_def matching_stream_def start_stream_def controller_eval demo_controller_def demo_stream_def)

lemma demo_back: "fst (observe 4 296 2 2 995 0 10 6 (demo_controller 2 2 [demo_stream 1 1 10 30 2, demo_stream 2 2 305 305 0])) =
   (2, [block_key 4 2 305 10, block_key 4 2 315 10, block_key 4 2 325 10, block_key 4 2 335 10])"
  by (simp add: observe_def Let_def matching_stream_def continue_stream_def activate_def grow_def schedule_def controller_eval
     schedule_loop_Suc schedule_loop_done demo_controller_def demo_stream_def)

text \<open>C40. Not every speculative key is a demand key: after reads at 0 and at 295, a short read that
  ends before what its stream expects makes the controller fetch blocks from 305 on at a block
  size of ten, and no demand read of the file ever looks up the key of such a block.\<close>
theorem prefetch_misaligned:
  "\<exists>c. snd (run_prefetch 4 2 995 10 6 [PRead 0 10 0 2, PRead 295 10 0 0] prefetcher_default) = c \<and>
     fst (prefetch_step 4 2 995 10 6 (PRead 296 2 0 1) c) = [block_key 4 2 305 10] \<and>
     (\<nexists>offset len ks. blocks_for demo_policy (demo_file_handle 995) offset len = Inr ks \<and> block_key 4 2 305 10 \<in> set ks)"
proof -
  have prime: "observe 4 0 10 2 995 0 10 6 prefetcher_default =
      ((1, [block_key 4 2 10 10, block_key 4 2 20 10]), demo_controller 1 1 [demo_stream 1 1 10 30 2])"
    by (simp add: observe_def Let_def prefetcher_default_def matching_stream_def start_stream_def schedule_def controller_eval
     schedule_loop_Suc schedule_loop_done demo_controller_def demo_stream_def)
  have run: "snd (run_prefetch 4 2 995 10 6 [PRead 0 10 0 2, PRead 295 10 0 0] prefetcher_default) =
      demo_controller 2 2 [demo_stream 1 1 10 30 2, demo_stream 2 2 305 305 0]"
    by (simp add: prime demo_jump unschedule_def del: One_nat_def)
  have fetched: "fst (prefetch_step 4 2 995 10 6 (PRead 296 2 0 1)
      (demo_controller 2 2 [demo_stream 1 1 10 30 2, demo_stream 2 2 305 305 0])) = [block_key 4 2 305 10]"
    using demo_back by (auto simp: split_beta)
  have "\<not> (blocks_for demo_policy (demo_file_handle 995) offset len = Inr ks \<and> block_key 4 2 305 10 \<in> set ks)" for offset len ks
    using blocks_for_on_grid [of demo_policy "demo_file_handle 995" offset len ks]
    by (force simp: demo_policy_def SMALL_READ_AHEAD_BLOCK_SIZE_def block_key_def)
  then show ?thesis using run fetched by blast
qed

end
