(* ===== verification/Cached_Laws.thy ===== *)
theory Cached_Laws
  imports Client_Prefetch_Props Triples
begin

text \<open>
  What \<^verbatim>\<open>CachedFilesystem\<close> relies on and the sequences of its operations. The contract of the cache
  is the locale \<open>file_cache\<close>, interpreted on \<^verbatim>\<open>MemoryCache\<close>; the file system below is described by
  \<open>truthful_remote\<close>: a byte and a size are functions of the node and the revision they are read at.
\<close>

subsection \<open>All operations\<close>

datatype (plugins only: code size) cached_op =
    CfPing u64
  | CfCapabilities
  | CfStatFilesystem
  | CfGetMetadata node_id
  | CfListDirectorySnapshot node_id
  | CfListDirectoryView node_id directory_view_options
  | CfOpenFile node_id file_open_options
  | CfCreateFile node_id name u32 file_open_options
  | CfCreateDirectory node_id name u32
  | CfCreateSymlink node_id name bytes
  | CfCreateHardLink node_id node_id name
  | CfCreateSpecialNode node_id name special_node_kind u32 u32 u32
  | CfRemoveNode node_id name bool
  | CfRenameNode node_id name node_id name rename_mode
  | CfReadLink node_id
  | CfSetAttributes node_id "file_handle option" attribute_changes
  | CfReadRange file_handle u64 u64
  | CfWriteRange file_handle u64 bytes
  | CfFlushFile file_handle "u64 option"
  | CfSyncFile file_handle bool
  | CfSyncDirectory node_id
  | CfAllocateFile file_handle u64 u64
  | CfGetXattr node_id name u64 u64
  | CfSetXattr node_id name bytes xattr_set_mode u32
  | CfListXattrs node_id
  | CfRemoveXattr node_id name
  | CfCopyFileRange file_handle u64 file_handle u64 u64
  | CfSeekFile file_handle u64 seek_whence
  | CfSafeIoctl file_handle safe_ioctl
  | CfMapBlock node_id u32 u64
  | CfExchangeData node_id name node_id name u64
  | CfSetVolumeName name
  | CfForgetNodes "node_id list"
  | CfGetLock file_handle file_lock
  | CfSetLock file_handle file_lock bool
  | CfCloseFile file_handle

fun run_cached_op :: "'w remote_fs \<Rightarrow> 'c fs_cache \<Rightarrow> cached_op \<Rightarrow> ('c, 'w) cached \<Rightarrow> ('c, 'w) cached" where
  "run_cached_op I K (CfPing n) s = snd (cfs_ping I n s)"
| "run_cached_op I K CfCapabilities s = snd (cfs_capabilities I s)"
| "run_cached_op I K CfStatFilesystem s = snd (cfs_stat_filesystem I K s)"
| "run_cached_op I K (CfGetMetadata n) s = snd (cfs_get_metadata I K n s)"
| "run_cached_op I K (CfListDirectorySnapshot n) s = snd (cfs_list_directory_snapshot I K n s)"
| "run_cached_op I K (CfListDirectoryView n opts) s = snd (cfs_list_directory_view I K n opts s)"
| "run_cached_op I K (CfOpenFile n opts) s = snd (cfs_open_file_with_options I K n opts s)"
| "run_cached_op I K (CfCreateFile p n m opts) s = snd (cfs_create_file I K p n m opts s)"
| "run_cached_op I K (CfCreateDirectory p n m) s = snd (cfs_create_directory I K p n m s)"
| "run_cached_op I K (CfCreateSymlink p n t) s = snd (cfs_create_symlink I K p n t s)"
| "run_cached_op I K (CfCreateHardLink n p m) s = snd (cfs_create_hard_link I K n p m s)"
| "run_cached_op I K (CfCreateSpecialNode p n k m ma mi) s = snd (cfs_create_special_node I K p n k m ma mi s)"
| "run_cached_op I K (CfRemoveNode p n d) s = snd (cfs_remove_node I K p n d s)"
| "run_cached_op I K (CfRenameNode p n p' n' m) s = snd (cfs_rename_node I K p n p' n' m s)"
| "run_cached_op I K (CfReadLink n) s = snd (cfs_read_link I K n s)"
| "run_cached_op I K (CfSetAttributes n h c) s = snd (cfs_set_attributes I K n h c s)"
| "run_cached_op I K (CfReadRange h off len) s = snd (cfs_read_range_versioned I K h off len s)"
| "run_cached_op I K (CfWriteRange h off d) s = snd (cfs_write_range I K h off d s)"
| "run_cached_op I K (CfFlushFile h own) s = snd (cfs_flush_file I h own s)"
| "run_cached_op I K (CfSyncFile h d) s = snd (cfs_sync_file I h d s)"
| "run_cached_op I K (CfSyncDirectory n) s = snd (cfs_sync_directory I n s)"
| "run_cached_op I K (CfAllocateFile h off len) s = snd (cfs_allocate_file I K h off len s)"
| "run_cached_op I K (CfGetXattr n x off len) s = snd (cfs_get_xattr I n x off len s)"
| "run_cached_op I K (CfSetXattr n x v m pos) s = snd (cfs_set_xattr I K n x v m pos s)"
| "run_cached_op I K (CfListXattrs n) s = snd (cfs_list_xattrs I n s)"
| "run_cached_op I K (CfRemoveXattr n x) s = snd (cfs_remove_xattr I K n x s)"
| "run_cached_op I K (CfCopyFileRange i io ou oo len) s = snd (cfs_copy_file_range I K i io ou oo len s)"
| "run_cached_op I K (CfSeekFile h off wh) s = snd (cfs_seek_file I h off wh s)"
| "run_cached_op I K (CfSafeIoctl h x) s = snd (cfs_safe_ioctl I h x s)"
| "run_cached_op I K (CfMapBlock n bs b) s = snd (cfs_map_block I n bs b s)"
| "run_cached_op I K (CfExchangeData p n p' n' opts) s = snd (cfs_exchange_data I K p n p' n' opts s)"
| "run_cached_op I K (CfSetVolumeName n) s = snd (cfs_set_volume_name I n s)"
| "run_cached_op I K (CfForgetNodes ns) s = snd (cfs_forget_nodes I ns s)"
| "run_cached_op I K (CfGetLock h l) s = snd (cfs_get_lock I h l s)"
| "run_cached_op I K (CfSetLock h l wt) s = snd (cfs_set_lock I h l wt s)"
| "run_cached_op I K (CfCloseFile h) s = snd (cfs_close_file I h s)"

text \<open>
  A caller changes attributes through a handle of the node it names, as the adapter does with
  the handle the kernel passes.
\<close>

fun own_handle :: "cached_op \<Rightarrow> ('c, 'w) cached \<Rightarrow> bool" where
  "own_handle (CfSetAttributes n (Some l) c) s \<longleftrightarrow>
     (case map_of (cd_handles s) l of None \<Rightarrow> True | Some h \<Rightarrow> ch_node h = n)"
| "own_handle _ s \<longleftrightarrow> True"

text \<open>
  One step is an operation, or the end of a spawned task: a speculative fetch that has run or
  whose deadline has passed, or a directory refresh.
\<close>

inductive cached_reach :: "'w remote_fs \<Rightarrow> 'c fs_cache \<Rightarrow> ('c, 'w) cached \<Rightarrow> ('c, 'w) cached \<Rightarrow> bool"
  for I :: "'w remote_fs" and K :: "'c fs_cache" and s0 :: "('c, 'w) cached" where
  reach_start: "cached_reach I K s0 s0"
| reach_op: "cached_reach I K s0 s \<Longrightarrow> own_handle op s \<Longrightarrow> cached_reach I K s0 (run_cached_op I K op s)"
| reach_fetch: "cached_reach I K s0 s \<Longrightarrow> task \<in> set (cd_tasks s) \<Longrightarrow>
    cached_reach I K s0 (run_prefetch_task I K task timed_out s)"
| reach_refresh: "cached_reach I K s0 s \<Longrightarrow> node \<in> set (cd_refreshing s) \<Longrightarrow>
    cached_reach I K s0 (run_refresh I K node s)"

subsection \<open>The file system below\<close>

definition at_revision :: "node_id \<Rightarrow> u64 \<Rightarrow> revision_key" where
  "at_revision n r = \<lparr>rk_node = n, rk_revision = r\<rparr>"

definition meta_true :: "(revision_key \<Rightarrow> u64) \<Rightarrow> node_id \<times> metadata \<Rightarrow> bool" where
  "meta_true Z = (\<lambda>(n, m). md_size m = Z (at_revision n (md_revision m)))"

definition snapshot_metas :: "directory_entry list \<Rightarrow> (node_id \<times> metadata) set" where
  "snapshot_metas es = (\<lambda>e. (de_node e, de_metadata e)) ` set es"

text \<open>
  \<open>T\<close> are the bytes of each revision of each node and \<open>Z\<close> their number; \<open>own\<close> is the node a handle
  was opened on. The target of a symbolic link does not change while the node exists.
\<close>

definition reads_true :: "(revision_key \<Rightarrow> u64 \<Rightarrow> byte) \<Rightarrow> (file_handle \<Rightarrow> node_id) \<Rightarrow> 'w remote_fs \<Rightarrow> bool" where
  "reads_true T own I \<longleftrightarrow> (\<forall>f off len w r w'. in_read_range_versioned I f off len w = (Inr r, w') \<longrightarrow>
     agrees (T (at_revision (own f) (rr_revision r))) off (rr_data r))"

definition opens_true :: "(revision_key \<Rightarrow> u64) \<Rightarrow> (file_handle \<Rightarrow> node_id) \<Rightarrow> 'w remote_fs \<Rightarrow> bool" where
  "opens_true Z own I \<longleftrightarrow>
     (\<forall>n opts w r w'. in_open_file_with_options I n opts w = (Inr r, w') \<longrightarrow>
        own (op_handle r) = n \<and> op_size r = Z (at_revision n (op_revision r))) \<and>
     (\<forall>p nm mode opts w r w'. in_create_file I p nm mode opts w = (Inr r, w') \<longrightarrow>
        own (op_handle (cr_opened r)) = md_node (cr_metadata r) \<and>
        op_size (cr_opened r) = Z (at_revision (md_node (cr_metadata r)) (op_revision (cr_opened r))) \<and>
        meta_true Z (md_node (cr_metadata r), cr_metadata r))"

definition metadata_true :: "(revision_key \<Rightarrow> u64) \<Rightarrow> 'w remote_fs \<Rightarrow> bool" where
  "metadata_true Z I \<longleftrightarrow>
     (\<forall>n w r w'. in_get_metadata I n w = (Inr r, w') \<longrightarrow> md_node r = n \<and> meta_true Z (n, r)) \<and>
     (\<forall>n f ch w r w'. in_set_attributes I n f ch w = (Inr r, w') \<longrightarrow> md_node r = n \<and> meta_true Z (n, r)) \<and>
     (\<forall>p nm mode w r w'. in_create_directory I p nm mode w = (Inr r, w') \<longrightarrow> meta_true Z (md_node r, r)) \<and>
     (\<forall>n p nm w r w'. in_create_hard_link I n p nm w = (Inr r, w') \<longrightarrow> meta_true Z (md_node r, r)) \<and>
     (\<forall>p nm k mode ma mi w r w'. in_create_special_node I p nm k mode ma mi w = (Inr r, w') \<longrightarrow>
        meta_true Z (md_node r, r))"

definition listings_true :: "(revision_key \<Rightarrow> u64) \<Rightarrow> 'w remote_fs \<Rightarrow> bool" where
  "listings_true Z I \<longleftrightarrow>
     (\<forall>n w version es w'. in_list_directory_snapshot I n w = (Inr (version, es), w') \<longrightarrow>
        (\<forall>x \<in> snapshot_metas es. meta_true Z x)) \<and>
     (\<forall>n opts w v w'. in_list_directory_view I n opts w = (Inr v, w') \<longrightarrow>
        (\<forall>x \<in> snapshot_metas (map ve_entry (dv_entries v)). meta_true Z x) \<and>
        meta_true Z (md_node (dv_directory v), dv_directory v) \<and> meta_true Z (md_node (dv_parent v), dv_parent v))"

definition links_true :: "(revision_key \<Rightarrow> u64 \<Rightarrow> byte) \<Rightarrow> (revision_key \<Rightarrow> u64) \<Rightarrow> 'w remote_fs \<Rightarrow> bool" where
  "links_true T Z I \<longleftrightarrow>
     (\<forall>p nm target w r w'. in_create_symlink I p nm target w = (Inr r, w') \<longrightarrow>
        meta_true Z (md_node r, r) \<and>
        (length target = md_size r \<longrightarrow> agrees (T (at_revision (md_node r) (md_revision r))) 0 target)) \<and>
     (\<forall>n w target w' version. in_read_link I n w = (Inr target, w') \<longrightarrow> length target = Z (at_revision n version) \<longrightarrow>
        agrees (T (at_revision n version)) 0 target)"

definition writes_true :: "(revision_key \<Rightarrow> u64) \<Rightarrow> (file_handle \<Rightarrow> node_id) \<Rightarrow> 'w remote_fs \<Rightarrow> bool" where
  "writes_true Z own I \<longleftrightarrow>
     (\<forall>f off d w r w'. in_write_range I f off d w = (Inr r, w') \<longrightarrow> wr_size r = Z (at_revision (own f) (wr_revision r))) \<and>
     (\<forall>f off len w r w'. in_allocate_file I f off len w = (Inr r, w') \<longrightarrow>
        wr_size r = Z (at_revision (own f) (wr_revision r))) \<and>
     (\<forall>f off g goff len w r w'. in_copy_file_range I f off g goff len w = (Inr r, w') \<longrightarrow>
        wr_size r = Z (at_revision (own g) (wr_revision r)))"

definition truthful_remote :: "(revision_key \<Rightarrow> u64 \<Rightarrow> byte) \<Rightarrow> (revision_key \<Rightarrow> u64) \<Rightarrow> (file_handle \<Rightarrow> node_id)
    \<Rightarrow> 'w remote_fs \<Rightarrow> bool" where
  "truthful_remote T Z own I \<longleftrightarrow> reads_true T own I \<and> opens_true Z own I \<and> metadata_true Z I \<and>
     listings_true Z I \<and> links_true T Z I \<and> writes_true Z own I"

lemma truthful_parts:
  assumes "truthful_remote T Z own I"
  shows "reads_true T own I" "opens_true Z own I" "metadata_true Z I" "listings_true Z I" "links_true T Z I" "writes_true Z own I"
  using assms by (simp_all add: truthful_remote_def)

lemma reads_trueD:
  assumes "truthful_remote T Z own I"
  shows "in_read_range_versioned I f off len w = (Inr rd, w') \<Longrightarrow>
      agrees (T (at_revision (own f) (rr_revision rd))) off (rr_data rd)"
  using truthful_parts(1) [OF assms] unfolding reads_true_def by blast

lemma opens_trueD:
  assumes "truthful_remote T Z own I"
  shows "in_open_file_with_options I n opts w = (Inr op, w') \<Longrightarrow>
      own (op_handle op) = n \<and> op_size op = Z (at_revision n (op_revision op))"
    and "in_create_file I n nm mode opts w = (Inr cr, w') \<Longrightarrow>
      own (op_handle (cr_opened cr)) = md_node (cr_metadata cr) \<and>
      op_size (cr_opened cr) = Z (at_revision (md_node (cr_metadata cr)) (op_revision (cr_opened cr))) \<and>
      meta_true Z (md_node (cr_metadata cr), cr_metadata cr)"
  using truthful_parts(2) [OF assms] unfolding opens_true_def by blast+

lemma metadata_trueD:
  assumes "truthful_remote T Z own I"
  shows "in_get_metadata I n w = (Inr m, w') \<Longrightarrow> md_node m = n \<and> meta_true Z (n, m)"
    and "in_set_attributes I n fo ch w = (Inr m, w') \<Longrightarrow> md_node m = n \<and> meta_true Z (n, m)"
    and "in_create_directory I n nm mode w = (Inr m, w') \<Longrightarrow> meta_true Z (md_node m, m)"
    and "in_create_hard_link I n p nm w = (Inr m, w') \<Longrightarrow> meta_true Z (md_node m, m)"
    and "in_create_special_node I n nm k mode ma mi w = (Inr m, w') \<Longrightarrow> meta_true Z (md_node m, m)"
  using truthful_parts(3) [OF assms] unfolding metadata_true_def by metis+

lemma listings_trueD:
  assumes "truthful_remote T Z own I"
  shows "in_list_directory_snapshot I n w = (Inr (version, es), w') \<Longrightarrow> \<forall>x \<in> snapshot_metas es. meta_true Z x"
    and "in_list_directory_view I n vo w = (Inr v, w') \<Longrightarrow>
      (\<forall>x \<in> snapshot_metas (map ve_entry (dv_entries v)). meta_true Z x) \<and>
      meta_true Z (md_node (dv_directory v), dv_directory v) \<and> meta_true Z (md_node (dv_parent v), dv_parent v)"
  using truthful_parts(4) [OF assms] unfolding listings_true_def by blast+

lemma links_trueD:
  assumes "truthful_remote T Z own I"
  shows "in_create_symlink I n nm d w = (Inr m, w') \<Longrightarrow> meta_true Z (md_node m, m) \<and>
      (length d = md_size m \<longrightarrow> agrees (T (at_revision (md_node m) (md_revision m))) 0 d)"
    and "in_read_link I n w = (Inr d, w') \<Longrightarrow> length d = Z (at_revision n version) \<Longrightarrow> agrees (T (at_revision n version)) 0 d"
  using truthful_parts(5) [OF assms] unfolding links_true_def by blast+

lemma writes_trueD:
  assumes "truthful_remote T Z own I"
  shows "in_write_range I f off d w = (Inr wr, w') \<Longrightarrow> wr_size wr = Z (at_revision (own f) (wr_revision wr))"
    and "in_allocate_file I f off len w = (Inr wr, w') \<Longrightarrow> wr_size wr = Z (at_revision (own f) (wr_revision wr))"
    and "in_copy_file_range I g goff f off len w = (Inr wr, w') \<Longrightarrow> wr_size wr = Z (at_revision (own f) (wr_revision wr))"
  using truthful_parts(6) [OF assms] unfolding writes_true_def by blast+

lemmas truthfulD = reads_trueD opens_trueD metadata_trueD listings_trueD links_trueD writes_trueD

subsection \<open>The cache\<close>

locale file_cache =
  range_cache good stored "ca_get_range K" "ca_store_range K" "ca_invalidate_node_state K"
  for good :: "'c \<Rightarrow> bool" and stored :: "'c \<Rightarrow> (range_key \<times> bytes) set" and K :: "'c fs_cache" +
  fixes metas :: "'c \<Rightarrow> (node_id \<times> metadata) set"
  assumes found: "fst (ca_get_metadata K n c) = Some m \<Longrightarrow> (n, m) \<in> metas c"
    and metadata_good: "good c \<Longrightarrow> good (snd (ca_get_metadata K n c)) \<and> good (ca_store_metadata K m c)"
    and directory_good: "good c \<Longrightarrow> good (snd (ca_get_directory K k c)) \<and> good (ca_store_snapshot K k es c)"
    and stats_good: "good c \<Longrightarrow> good (snd (ca_get_stats K c)) \<and> good (ca_store_stats K st c)"
    and memory_good: "good c \<Longrightarrow> good (ca_invalidate_node_memory K n c)"
    and metadata_stored: "stored (snd (ca_get_metadata K n c)) \<subseteq> stored c \<and> stored (ca_store_metadata K m c) \<subseteq> stored c"
    and directory_stored: "stored (snd (ca_get_directory K k c)) \<subseteq> stored c \<and> stored (ca_store_snapshot K k es c) \<subseteq> stored c"
    and stats_stored: "stored (snd (ca_get_stats K c)) \<subseteq> stored c \<and> stored (ca_store_stats K st c) \<subseteq> stored c"
    and memory_stored: "stored (ca_invalidate_node_memory K n c) \<subseteq> stored c"
    and metadata_metas: "metas (snd (ca_get_metadata K n c)) \<subseteq> metas c \<and>
      metas (ca_store_metadata K m c) \<subseteq> insert (md_node m, m) (metas c)"
    and directory_metas: "metas (snd (ca_get_directory K k c)) \<subseteq> metas c \<and>
      metas (ca_store_snapshot K k es c) \<subseteq> metas c \<union> snapshot_metas es"
    and stats_metas: "metas (snd (ca_get_stats K c)) \<subseteq> metas c \<and> metas (ca_store_stats K st c) \<subseteq> metas c"
    and range_metas: "metas (snd (ca_get_range K key c)) \<subseteq> metas c \<and> metas (ca_store_range K key v c) \<subseteq> metas c"
    and invalidate_metas: "metas (ca_invalidate_node_state K n c) \<subseteq> metas c \<and>
      metas (ca_invalidate_node_memory K n c) \<subseteq> metas c"

lemma foldl_entries_subset:
  "set (foldl (\<lambda>m e. AList.update (de_node e) (de_metadata e) m) m es) \<subseteq> set m \<union> snapshot_metas es"
proof (induction es arbitrary: m)
  case (Cons e es)
  then show ?case
    using Cons [of "AList.update (de_node e) (de_metadata e) m"] alist_update_subset [of "de_node e" "de_metadata e" m]
    by (auto simp: snapshot_metas_def)
qed (simp add: snapshot_metas_def)

lemmas memory_ops = memory_fs_cache_def mem_get_metadata_def mem_insert_metadata_def mem_get_directory_def
  mem_store_readthrough_snapshot_def mem_insert_directory_def mem_get_filesystem_stats_def
  mem_insert_filesystem_stats_def mem_invalidate_node_state_def

interpretation memf: file_cache mem_good "\<lambda>c. set (mc_ranges c)" memory_fs_cache "\<lambda>c. set (mc_metadata c)"
proof unfold_locales
  fix c :: memory_cache and k :: range_key and v n T d
  have same: "mem_invalidate_ranges n c = c\<lparr>mc_ranges := mc_ranges (mem_invalidate_node_state n c)\<rparr>"
    by (simp add: mem_invalidate_ranges_def mem_invalidate_node_state_def)
  show "mem_good c \<Longrightarrow> mem_good (snd (ca_get_range memory_fs_cache k c))"
    "set (mc_ranges (snd (ca_get_range memory_fs_cache k c))) = set (mc_ranges c)"
    by (simp_all add: memory_fs_cache_def)
  show "mem_good c \<Longrightarrow> mem_good (ca_store_range memory_fs_cache k v c)"
    "mem_good c \<Longrightarrow> set (mc_ranges (ca_store_range memory_fs_cache k v c)) \<subseteq> insert (k, v) (set (mc_ranges c))"
    by (simp_all add: memory_fs_cache_def mem.ins_good mem.ins_stored)
  show "mem_good c \<Longrightarrow> mem_good (ca_invalidate_node_state memory_fs_cache n c)"
    "set (mc_ranges (ca_invalidate_node_state memory_fs_cache n c)) = {(k, v) \<in> set (mc_ranges c). rk_node (rg_file k) \<noteq> n}"
    by (auto simp: memory_fs_cache_def mem_invalidate_node_state_def mem_good_def)
  show "mem_good c \<Longrightarrow> coherent T (set (mc_ranges c)) \<Longrightarrow> fst (ca_get_range memory_fs_cache k c) = Some d \<Longrightarrow>
      d = range_of (T (rg_file k)) (rg_offset k) (rg_length k)"
    using mem.get_true [of c T k d] by (simp add: memory_fs_cache_def)
  show "mem_good c \<Longrightarrow> rg_offset k + rg_length k \<le> U64_MAX \<Longrightarrow>
      (fst (ca_get_range memory_fs_cache k c) \<noteq> None) =
      (\<forall>p. rg_offset k \<le> p \<and> p < rg_offset k + rg_length k \<longrightarrow> stored_at (set (mc_ranges c)) (rg_file k) p)"
    using mem.get_hits [of c k] by (simp add: memory_fs_cache_def)
next
  fix c :: memory_cache and n m es v st and k :: revision_key and key :: range_key
  show "fst (ca_get_metadata memory_fs_cache n c) = Some m \<Longrightarrow> (n, m) \<in> set (mc_metadata c)"
    by (auto simp: memory_ops dest: map_of_SomeD)
  show "set (mc_metadata (snd (ca_get_metadata memory_fs_cache n c))) \<subseteq> set (mc_metadata c) \<and>
      set (mc_metadata (ca_store_metadata memory_fs_cache m c)) \<subseteq> insert (md_node m, m) (set (mc_metadata c))"
    using alist_update_subset [of "md_node m" m "mc_metadata c"] by (auto simp: memory_ops)
  show "set (mc_metadata (snd (ca_get_directory memory_fs_cache k c))) \<subseteq> set (mc_metadata c) \<and>
      set (mc_metadata (ca_store_snapshot memory_fs_cache k es c)) \<subseteq> set (mc_metadata c) \<union> snapshot_metas es"
    using foldl_entries_subset by (auto simp: memory_ops)
  show "set (mc_metadata (snd (ca_get_range memory_fs_cache key c))) \<subseteq> set (mc_metadata c) \<and>
      set (mc_metadata (ca_store_range memory_fs_cache key v c)) \<subseteq> set (mc_metadata c)"
    by (auto simp: memory_fs_cache_def mem_insert_range_def)
  show "set (mc_metadata (ca_invalidate_node_state memory_fs_cache n c)) \<subseteq> set (mc_metadata c) \<and>
      set (mc_metadata (ca_invalidate_node_memory memory_fs_cache n c)) \<subseteq> set (mc_metadata c)"
    by (auto simp: memory_ops AList.delete_eq)
qed (auto simp: memory_ops mem_good_def)

end
