(* ===== verification/Cached_Reads.thy ===== *)
theory Cached_Reads
  imports Cached_Laws
begin

text \<open>
  The invariant of \<^verbatim>\<open>CachedFilesystem\<close> over a truthful file system: what the cache holds, what the
  handles record and what the spawned fetches will store are true of the revision they name.
  Every operation and every task keeps it, and a read that succeeds returns the bytes of one
  revision.
\<close>

subsection \<open>The invariant\<close>

definition handle_ok :: "(revision_key \<Rightarrow> u64) \<Rightarrow> (file_handle \<Rightarrow> node_id) \<Rightarrow> cached_handle \<Rightarrow> bool" where
  "handle_ok Z own h \<longleftrightarrow> (\<forall>f. ch_inner h = Some f \<longrightarrow> own f = ch_node h) \<and>
     ch_size h = Z (at_revision (ch_node h) (ch_revision h))"

definition task_ok :: "(file_handle \<Rightarrow> node_id) \<Rightarrow> prefetch_task \<Rightarrow> bool" where
  "task_ok own t \<longleftrightarrow> rg_file (pt_block t) = at_revision (own (pt_inner t)) (pt_revision t)"

definition cache_ok :: "('c \<Rightarrow> bool) \<Rightarrow> ('c \<Rightarrow> (range_key \<times> bytes) set) \<Rightarrow> ('c \<Rightarrow> (node_id \<times> metadata) set)
    \<Rightarrow> (revision_key \<Rightarrow> u64 \<Rightarrow> byte) \<Rightarrow> (revision_key \<Rightarrow> u64) \<Rightarrow> 'c \<Rightarrow> bool" where
  "cache_ok good stored metas T Z c \<longleftrightarrow> good c \<and> coherent T (stored c) \<and> (\<forall>x \<in> metas c. meta_true Z x)"

text \<open>\<open>pin\<close> restricts the node of a logical handle while an operation works on it.\<close>

definition cached_ok :: "('c \<Rightarrow> bool) \<Rightarrow> ('c \<Rightarrow> (range_key \<times> bytes) set) \<Rightarrow> ('c \<Rightarrow> (node_id \<times> metadata) set)
    \<Rightarrow> (revision_key \<Rightarrow> u64 \<Rightarrow> byte) \<Rightarrow> (revision_key \<Rightarrow> u64) \<Rightarrow> (file_handle \<Rightarrow> node_id)
    \<Rightarrow> (file_handle \<Rightarrow> node_id \<Rightarrow> bool) \<Rightarrow> ('c, 'w) cached \<Rightarrow> bool" where
  "cached_ok good stored metas T Z own pin s \<longleftrightarrow> cache_ok good stored metas T Z (cd_cache s) \<and>
     (\<forall>l h. map_of (cd_handles s) l = Some h \<longrightarrow> handle_ok Z own h \<and> pin l (ch_node h)) \<and>
     (\<forall>t \<in> set (cd_tasks s). task_ok own t) \<and> 0 < cp_block_size (cd_policy s)"

lemma handle_ok_prefetch [simp]: "handle_ok Z own (h\<lparr>ch_prefetch := c\<rparr>) = handle_ok Z own h"
  by (simp add: handle_ok_def)

subsection \<open>Triples of the file system's building blocks\<close>

lemma inner_bind:
  assumes "\<And>x w w'. m w = (Inr x, w') \<Longrightarrow> triple P (f x) Q E" "\<And>s w. P s \<Longrightarrow> P (s\<lparr>cd_world := w\<rparr>)"
    and "\<And>e s. P s \<Longrightarrow> E e s"
  shows "triple P (mbind (on_inner m) f) Q E"
  unfolding triple_def mbind_def on_inner_def using assms
  by (fastforce simp: triple_def split: prod.splits sum.splits)

lemma inner_last:
  assumes "\<And>x s w. P s \<Longrightarrow> Q x (s\<lparr>cd_world := w\<rparr>)" "\<And>e s w. P s \<Longrightarrow> E e (s\<lparr>cd_world := w\<rparr>)"
  shows "triple P (on_inner m) Q E"
  using assms by (auto simp: triple_def on_inner_def split: prod.splits sum.splits)

lemma cache_bind:
  assumes "\<And>s. P s \<Longrightarrow> P (s\<lparr>cd_cache := g (cd_cache s)\<rparr>)" "triple P (f ()) Q E"
  shows "triple P (mbind (on_cache g) f) Q E"
  using assms by (auto simp: triple_def mbind_def on_cache_def)

lemma cache_last:
  assumes "\<And>s. P s \<Longrightarrow> Q () (s\<lparr>cd_cache := g (cd_cache s)\<rparr>)"
  shows "triple P (on_cache g) Q E"
  using assms by (auto simp: triple_def on_cache_def)

lemma ask_bind:
  assumes "\<And>s. P s \<Longrightarrow> P (s\<lparr>cd_cache := snd (g (cd_cache s))\<rparr>)"
    and "\<And>x s. P s \<Longrightarrow> fst (g (cd_cache s)) = x \<Longrightarrow> R x" "\<And>x. R x \<Longrightarrow> triple P (f x) Q E"
  shows "triple P (mbind (ask_cache g) f) Q E"
  using assms by (fastforce simp: triple_def mbind_def ask_cache_def split: prod.splits)

lemma lift_bind:
  assumes "\<And>x. r = Inr x \<Longrightarrow> triple P (f x) Q E" "\<And>e s. r = Inl e \<Longrightarrow> P s \<Longrightarrow> E e s"
  shows "triple P (mbind (mlift r) f) Q E"
  using assms by (cases r) (auto simp: triple_def mbind_def mlift_def)

lemma lift_last:
  assumes "\<And>x s. r = Inr x \<Longrightarrow> P s \<Longrightarrow> Q x s" "\<And>e s. r = Inl e \<Longrightarrow> P s \<Longrightarrow> E e s"
  shows "triple P (mlift r) Q E"
  using assms by (cases r) (auto simp: triple_def mlift_def)

lemma put_bind:
  assumes "\<And>s. P s \<Longrightarrow> P (g s)" "triple P (f ()) Q E"
  shows "triple P (mbind (mput g) f) Q E"
  using assms by (auto simp: triple_def mbind_def mput_def)

lemma handle_bind:
  assumes "\<And>h s. P s \<Longrightarrow> map_of (cd_handles s) l = Some h \<Longrightarrow> R h" "\<And>h. R h \<Longrightarrow> triple P (f h) Q E"
    and "\<And>e s. P s \<Longrightarrow> E e s"
  shows "triple P (mbind (get_cached_handle l) f) Q E"
  using assms
  by (fastforce simp: triple_def mbind_def get_cached_handle_def ok_or_def split: option.splits)

lemma offline_cases:
  assumes "triple P m R (\<lambda>_. P)" "\<And>x. triple (R x) (f x) Q (\<lambda>_. P)" "triple P g Q (\<lambda>_. P)"
  shows "triple P (or_offline m f g) Q (\<lambda>_. P)"
proof -
  have "triple P (\<lambda>t. if is_offline e then g t else (Inl e, t)) Q (\<lambda>_. P)" for e
    using assms(3) by (cases "is_offline e") (simp_all add: triple_def)
  from triple_cases [OF assms(1,2) this] show ?thesis
    by (simp add: triple_def or_offline_def)
qed

lemma option_cases:
  assumes "x = None \<Longrightarrow> triple P m Q E" "\<And>y. x = Some y \<Longrightarrow> triple P (f y) Q E"
  shows "triple P (case x of None \<Rightarrow> m | Some y \<Rightarrow> f y) Q E"
  using assms by (cases x) auto

lemma pair_cases: "(\<And>a b. x = (a, b) \<Longrightarrow> triple P (f a b) Q E) \<Longrightarrow> triple P (case x of (a, b) \<Rightarrow> f a b) Q E"
  by (cases x) auto

lemma sum_cases:
  assumes "\<And>a. x = Inl a \<Longrightarrow> triple P (f a) Q E" "\<And>b. x = Inr b \<Longrightarrow> triple P (g b) Q E"
  shows "triple P (case x of Inl a \<Rightarrow> f a | Inr b \<Rightarrow> g b) Q E"
  using assms by (cases x) auto

lemma cached_ok_frame:
  assumes "cached_ok good stored metas T Z own pin s"
  shows "cached_ok good stored metas T Z own pin (s\<lparr>cd_world := w\<rparr>)"
    and "cached_ok good stored metas T Z own pin (s\<lparr>cd_capabilities := cp\<rparr>)"
    and "cached_ok good stored metas T Z own pin (s\<lparr>cd_refreshing := rf\<rparr>)"
    and "cached_ok good stored metas T Z own pin (s\<lparr>cd_parents := pa\<rparr>)"
    and "cached_ok good stored metas T Z own pin (s\<lparr>cd_handles := AList.delete l (cd_handles s)\<rparr>)"
    and "cache_ok good stored metas T Z c \<Longrightarrow> cached_ok good stored metas T Z own pin (s\<lparr>cd_cache := c\<rparr>)"
    and "handle_ok Z own h \<Longrightarrow> pin l (ch_node h) \<Longrightarrow> cached_ok good stored metas T Z own pin (s\<lparr>cd_fresh := fr, cd_handles := AList.update l h (cd_handles s)\<rparr>)"
  using assms by (auto simp: cached_ok_def split: if_splits)

lemma cached_ok_cache: "cached_ok good stored metas T Z own pin s \<Longrightarrow> cache_ok good stored metas T Z (cd_cache s)"
  by (simp add: cached_ok_def)

lemma cached_ok_handle:
  "cached_ok good stored metas T Z own pin s \<Longrightarrow> map_of (cd_handles s) l = Some h \<Longrightarrow> handle_ok Z own h"
  by (simp add: cached_ok_def)

lemma modify_ok:
  assumes "cached_ok good stored metas T Z own pin s"
    and "\<And>h. map_of (cd_handles s) l = Some h \<Longrightarrow> handle_ok Z own h \<Longrightarrow> pin l (ch_node h) \<Longrightarrow>
      handle_ok Z own (f h) \<and> ch_node (f h) = ch_node h"
  shows "cached_ok good stored metas T Z own pin (modify_cached_handle l f s)"
  using assms by (auto simp: modify_cached_handle_def cached_ok_def split: option.splits if_splits)

definition any_node :: "file_handle \<Rightarrow> node_id \<Rightarrow> bool" where "any_node l n \<longleftrightarrow> True"

definition pinned :: "file_handle \<Rightarrow> node_id \<Rightarrow> file_handle \<Rightarrow> node_id \<Rightarrow> bool" where
  "pinned l n l' n' \<longleftrightarrow> l' = l \<longrightarrow> n' = n"

lemma unpin: "cached_ok good stored metas T Z own pin s \<Longrightarrow> cached_ok good stored metas T Z own any_node s"
  by (auto simp: cached_ok_def any_node_def)

lemma remember_ok:
  assumes "handle_ok Z own \<lparr>ch_node = n, ch_inner = i, ch_revision = r, ch_size = z, ch_prefetch = prefetcher_default\<rparr>"
  shows "triple (cached_ok good stored metas T Z own any_node) (remember_handle n i r z)
    (\<lambda>_. cached_ok good stored metas T Z own any_node) E"
  using assms by (auto simp: triple_def remember_handle_def Let_def any_node_def intro: cached_ok_frame(7))

lemma update_handle_ok:
  assumes "z = Z (at_revision n r)"
  shows "triple (cached_ok good stored metas T Z own (pinned l n)) (update_handle l r z)
    (\<lambda>_. cached_ok good stored metas T Z own (pinned l n)) E"
  unfolding update_handle_def
  by (rule triple_mput, erule modify_ok) (auto simp: handle_ok_def pinned_def assms)

text \<open>An operation on a handle works with the record it looked up, and leaves its node.\<close>

lemma pinned_bind:
  assumes "\<And>h. handle_ok Z own h \<Longrightarrow> triple (cached_ok good stored metas T Z own (pinned l (ch_node h))) (f h) Q E"
    and "\<And>e s. cached_ok good stored metas T Z own pin s \<Longrightarrow> E e s"
  shows "triple (cached_ok good stored metas T Z own pin) (mbind (get_cached_handle l) f) Q E"
  unfolding triple_def
proof (intro allI impI)
  fix s :: "('a, 'b) cached"
  assume s: "cached_ok good stored metas T Z own pin s"
  show "case mbind (get_cached_handle l) f s of (Inl e, t) \<Rightarrow> E e t | (Inr x, t) \<Rightarrow> Q x t"
  proof (cases "map_of (cd_handles s) l")
    case None
    then show ?thesis using assms(2) [OF s] by (simp add: mbind_def get_cached_handle_def)
  next
    case (Some h)
    then have "handle_ok Z own h" "cached_ok good stored metas T Z own (pinned l (ch_node h)) s"
      using s by (auto simp: cached_ok_def pinned_def)
    then show ?thesis
      using tripleD [OF assms(1)] Some by (simp add: mbind_def get_cached_handle_def)
  qed
qed

subsection \<open>What the controller schedules\<close>

definition of_revision :: "node_id \<Rightarrow> u64 \<Rightarrow> u64 \<Rightarrow> range_key \<Rightarrow> bool" where
  "of_revision n r block_size b \<longleftrightarrow> rg_file b = at_revision n r \<and> rg_length b \<le> block_size"

lemma schedule_loop_revision:
  "b \<in> set (fst (schedule_loop n r sz block_size target budget cursor)) \<Longrightarrow> of_revision n r block_size b"
proof (induction n r sz block_size target budget cursor rule: schedule_loop.induct)
  case (2 n r sz block_size target budget cursor)
  then show ?case
    by (auto simp: Let_def block_key_def of_revision_def at_revision_def split: if_splits prod.splits)
qed simp

lemma schedule_revision:
  "b \<in> set (fst (schedule st n r read_end sz block_size cap)) \<Longrightarrow> of_revision n r block_size b"
  by (auto simp: schedule_def Let_def split_beta dest: schedule_loop_revision split: if_splits)

lemma observe_revision:
  assumes "b \<in> set (snd (fst (observe n offset returned r sz elapsed block_size cap c)))"
  shows "of_revision n r block_size b"
  using assms
  by (auto simp: observe_def Let_def start_stream_def continue_stream_def prefetcher_default_def split_beta
      dest: schedule_revision split: if_splits option.splits)

lemma grant_subset: "b \<in> set (fst (grant_permits pt blocks slots permits)) \<Longrightarrow> fst b \<in> set blocks"
  by (induction pt blocks slots permits rule: grant_permits.induct)
    (auto simp: Let_def split: if_splits prod.splits)

lemma maybe_prefetch_ok:
  assumes "handle_ok Z own h" "ch_inner h = Some f"
  shows "triple (cached_ok good stored metas T Z own pin) (maybe_prefetch l h f offset returned elapsed granularity)
    (\<lambda>_. cached_ok good stored metas T Z own pin) E"
proof -
  have own: "own f = ch_node h" using assms by (simp add: handle_ok_def)
  have "cached_ok good stored metas T Z own pin (snd (maybe_prefetch l h f offset returned elapsed granularity s))"
    if s: "cached_ok good stored metas T Z own pin s" for s :: "('a, 'w) cached"
  proof (cases "granularity = 0 \<or> cp_read_ahead_max_bytes (cd_policy s) div granularity = 0")
    case True
    then show ?thesis using s by (auto simp: maybe_prefetch_def mput_def)
  next
    case False
    obtain i blocks c where o: "observe (ch_node h) offset returned (ch_revision h) (ch_size h) elapsed granularity
        (cp_read_ahead_max_bytes (cd_policy s) div granularity) (ch_prefetch h) = ((i, blocks), c)"
      by (metis prod.exhaust)
    obtain granted denied slots permits where g: "grant_permits (cd_permit_total s) blocks (cd_slots s) (cd_permits s) =
        (granted, denied, slots, permits)" by (metis prod.exhaust)
    have "task_ok own t" if t: "t \<in> set (map (\<lambda>(block, units). \<lparr>pt_logical = l, pt_inner = f, pt_revision = ch_revision h,
        pt_block = block, pt_stream = i, pt_units = units\<rparr>) granted)" for t
    proof -
      obtain b u where b: "(b, u) \<in> set granted" "t = \<lparr>pt_logical = l, pt_inner = f, pt_revision = ch_revision h,
          pt_block = b, pt_stream = i, pt_units = u\<rparr>" using t by auto
      have "b \<in> set blocks" using grant_subset [of "(b, u)"] b(1) g by (metis fst_conv)
      then have "of_revision (ch_node h) (ch_revision h) granularity b"
        using observe_revision [of b "ch_node h" offset returned "ch_revision h" "ch_size h" elapsed granularity
            "cp_read_ahead_max_bytes (cd_policy s) div granularity" "ch_prefetch h"] o by simp
      then show ?thesis using b(2) own by (simp add: task_ok_def of_revision_def)
    qed
    moreover have "cached_ok good stored metas T Z own pin (modify_cached_handle l (\<lambda>h. h\<lparr>ch_prefetch := unschedule i denied c\<rparr>) s)"
      by (rule modify_ok [OF s]) simp
    moreover have "cd_tasks (modify_cached_handle l fh s) = cd_tasks s" for fh
      by (simp add: modify_cached_handle_def split: option.splits)
    ultimately show ?thesis
      using False by (auto simp: maybe_prefetch_def mput_def Let_def o g cached_ok_def)
  qed
  note final = this
  show ?thesis
  proof (rule tripleI)
    show "cached_ok good stored metas T Z own pin t"
      if "cached_ok good stored metas T Z own pin s" "maybe_prefetch l h f offset returned elapsed granularity s = (Inr x, t)"
      for s :: "('a, 'w) cached" and x t
      using final [OF that(1)] that(2) by simp
  qed (simp add: maybe_prefetch_def mput_def)
qed

subsection \<open>Over a lawful cache and a truthful file system\<close>

lemma coherent_subset: "coherent T A \<Longrightarrow> B \<subseteq> A \<Longrightarrow> coherent T B"
  by (auto simp: coherent_def)

text \<open>What a read of a file returns: the bytes of one revision of the node, clipped to its size.\<close>

definition reads_as :: "(revision_key \<Rightarrow> u64 \<Rightarrow> byte) \<Rightarrow> (revision_key \<Rightarrow> u64) \<Rightarrow> node_id \<Rightarrow> u64 \<Rightarrow> u64 \<Rightarrow> range_read \<Rightarrow> bool" where
  "reads_as T Z n offset len r \<longleftrightarrow> rr_data r = range_of (T (at_revision n (rr_revision r))) offset
     (min len (Z (at_revision n (rr_revision r)) - offset))"

definition results_true :: "(revision_key \<Rightarrow> u64 \<Rightarrow> byte) \<Rightarrow> (range_key \<times> (client_error + bytes)) list \<Rightarrow> bool" where
  "results_true T results \<longleftrightarrow> (\<forall>b d. (b, Inr d) \<in> set results \<longrightarrow> agrees (T (rg_file b)) (rg_offset b) d)"

lemma gather_true:
  assumes "gather results a e = Inr (a', e')" "results_true T results" "mem_good a" "coherent T (set (mc_ranges a))"
  shows "mem_good a' \<and> coherent T (set (mc_ranges a'))"
  using assms
proof (induction results a e rule: gather.induct)
  case (2 b d rest a e)
  let ?a = "if length d > 0 then mem_insert_range (b\<lparr>rg_length := length d\<rparr>) d a else a"
  have "agrees (T (rg_file b)) (rg_offset b) d" "results_true T rest"
    using 2(3) by (auto simp: results_true_def)
  then have "mem_good ?a" "coherent T (set (mc_ranges ?a))"
    using 2(4,5) mem.ins_stored [OF 2(4), of "b\<lparr>rg_length := length d\<rparr>" d] by (auto simp: mem.ins_good coherent_def)
  then show ?case using 2(1) [OF _ _ \<open>results_true T rest\<close>] 2(2) by (auto split: if_splits)
next
  case (3 b x rest a e)
  then show ?case by (auto simp: results_true_def split: if_splits)
qed simp

lemma blocks_of_revision:
  "blocks_loop h policy_size block_size e offset = Inr ks \<Longrightarrow> b \<in> set ks \<Longrightarrow> rg_file b = at_revision (ch_node h) (ch_revision h)"
proof (induction h policy_size block_size e offset arbitrary: ks rule: blocks_loop.induct)
  case (1 h policy_size block_size e offset)
  show ?case
    using 1(2,3) 1(1) [OF _ refl]
    by (subst (asm) blocks_loop.simps)
      (fastforce simp: ebind_Inr_iff handle_range_def block_key_def at_revision_def split: if_splits option.splits)
qed

lemma blocks_for_revision:
  "blocks_for policy h offset len = Inr ks \<Longrightarrow> b \<in> set ks \<Longrightarrow> rg_file b = at_revision (ch_node h) (ch_revision h)"
  by (auto simp: blocks_for_def Let_def split: if_splits option.splits dest: blocks_of_revision)

lemma blocks_for_empty:
  assumes "blocks_for policy h offset len = Inr []" "0 < cp_block_size policy"
  shows "min len (ch_size h - offset) = 0"
proof (rule ccontr)
  let ?bs = "demand_block_size policy len" and ?e = "offset + min len (ch_size h - offset)"
  assume some: "min len (ch_size h - offset) \<noteq> 0"
  have bs: "0 < ?bs" using assms(2) by (simp add: demand_block_size_def SMALL_READ_AHEAD_BLOCK_SIZE_def)
  have "offset div ?bs * ?bs < ?e" using some div_times_less_eq_dividend [of offset ?bs] by linarith
  moreover have "blocks_loop h (cp_block_size policy) ?bs ?e (offset div ?bs * ?bs) = Inr []"
    using assms(1) some by (auto simp: blocks_for_def Let_def split: if_splits option.splits)
  ultimately show False
    using bs by (subst (asm) blocks_loop.simps) (auto simp: ebind_Inr_iff split: option.splits)
qed

context file_cache
begin

abbreviation ok :: "(revision_key \<Rightarrow> u64 \<Rightarrow> byte) \<Rightarrow> (revision_key \<Rightarrow> u64) \<Rightarrow> (file_handle \<Rightarrow> node_id)
    \<Rightarrow> (file_handle \<Rightarrow> node_id \<Rightarrow> bool) \<Rightarrow> ('c, 'w) cached \<Rightarrow> bool" where
  "ok T Z own pin \<equiv> cached_ok good stored metas T Z own pin"

lemma cache_ok_grows:
  assumes "cache_ok good stored metas T Z c" "good c'" "stored c' \<subseteq> stored c \<union> R" "metas c' \<subseteq> metas c \<union> M"
    and "coherent T R" "\<forall>x \<in> M. meta_true Z x"
  shows "cache_ok good stored metas T Z c'"
  using assms by (auto simp: cache_ok_def coherent_def)

lemma cache_ops_ok:
  assumes c: "cache_ok good stored metas T Z c"
  shows "cache_ok good stored metas T Z (snd (ca_get_metadata K n c))"
    and "meta_true Z (md_node m, m) \<Longrightarrow> cache_ok good stored metas T Z (ca_store_metadata K m c)"
    and "cache_ok good stored metas T Z (snd (ca_get_directory K d c))"
    and "\<forall>x \<in> snapshot_metas es. meta_true Z x \<Longrightarrow> cache_ok good stored metas T Z (ca_store_snapshot K d es c)"
    and "cache_ok good stored metas T Z (snd (ca_get_range K k c))"
    and "agrees (T (rg_file k)) (rg_offset k) v \<Longrightarrow> cache_ok good stored metas T Z (ca_store_range K k v c)"
    and "cache_ok good stored metas T Z (snd (ca_get_stats K c))"
    and "cache_ok good stored metas T Z (ca_store_stats K st c)"
    and "cache_ok good stored metas T Z (ca_invalidate_node_state K n c)"
    and "cache_ok good stored metas T Z (ca_invalidate_node_memory K n c)"
proof -
  have g: "good c" using c by (simp add: cache_ok_def)
  note grows = cache_ok_grows [OF c, where R = "{}" and M = "{}"]
  show "cache_ok good stored metas T Z (snd (ca_get_metadata K n c))"
    using metadata_good [OF g, of n m] metadata_stored [of n c m] metadata_metas [of n c m] by (intro grows) (auto simp: coherent_def)
  show "cache_ok good stored metas T Z (ca_store_metadata K m c)" if "meta_true Z (md_node m, m)"
    using metadata_good [OF g, of n m] metadata_stored [of n c m] metadata_metas [of n c m] that
    by (intro cache_ok_grows [OF c, where R = "{}" and M = "{(md_node m, m)}"]) (auto simp: coherent_def)
  show "cache_ok good stored metas T Z (snd (ca_get_directory K d c))"
    using directory_good [OF g, of d es] directory_stored [of d c es] directory_metas [of d c es] by (intro grows) (auto simp: coherent_def)
  show "cache_ok good stored metas T Z (ca_store_snapshot K d es c)" if "\<forall>x \<in> snapshot_metas es. meta_true Z x"
    using directory_good [OF g, of d es] directory_stored [of d c es] directory_metas [of d c es] that
    by (intro cache_ok_grows [OF c, where R = "{}" and M = "snapshot_metas es"]) (auto simp: coherent_def)
  show "cache_ok good stored metas T Z (snd (ca_get_range K k c))"
    using get_good [OF g, of k] get_stored [of k c] range_metas [of k c v] by (intro grows) (auto simp: coherent_def)
  show "cache_ok good stored metas T Z (ca_store_range K k v c)" if "agrees (T (rg_file k)) (rg_offset k) v"
    using ins_good [OF g, of k v] ins_stored [OF g, of k v] range_metas [of k c v] that
    by (intro cache_ok_grows [OF c, where R = "{(k, v)}" and M = "{}"]) (auto simp: coherent_def)
  show "cache_ok good stored metas T Z (snd (ca_get_stats K c))" "cache_ok good stored metas T Z (ca_store_stats K st c)"
    using stats_good [OF g, of st] stats_stored [of c st] stats_metas [of c st] by (auto intro!: grows simp: coherent_def)
  show "cache_ok good stored metas T Z (ca_invalidate_node_state K n c)"
    "cache_ok good stored metas T Z (ca_invalidate_node_memory K n c)"
    using inval_good [OF g, of n] inval_stored [of n c] memory_good [OF g, of n] memory_stored [of n c] invalidate_metas [of n c]
    by (auto intro!: grows simp: coherent_def)
qed

lemmas cache_steps = cached_ok_frame(6) [OF _ cache_ops_ok(1)] cached_ok_frame(6) [OF _ cache_ops_ok(2)]
  cached_ok_frame(6) [OF _ cache_ops_ok(3)] cached_ok_frame(6) [OF _ cache_ops_ok(4)]
  cached_ok_frame(6) [OF _ cache_ops_ok(5)] cached_ok_frame(6) [OF _ cache_ops_ok(6)]
  cached_ok_frame(6) [OF _ cache_ops_ok(7)] cached_ok_frame(6) [OF _ cache_ops_ok(8)]
  cached_ok_frame(6) [OF _ cache_ops_ok(9)] cached_ok_frame(6) [OF _ cache_ops_ok(10)]

lemma range_hit:
  "ok T Z own pin s \<Longrightarrow> fst (ca_get_range K k (cd_cache s)) = Some d \<Longrightarrow> d = range_of (T (rg_file k)) (rg_offset k) (rg_length k)"
  by (auto simp: cached_ok_def cache_ok_def intro: get_true)

lemma metadata_hit:
  "ok T Z own pin s \<Longrightarrow> fst (ca_get_metadata K n (cd_cache s)) = Some m \<Longrightarrow> md_size m = Z (at_revision n (md_revision m))"
  using found [of n "cd_cache s" m] by (auto simp: cached_ok_def cache_ok_def meta_true_def)

lemma load_block_ok:
  assumes I: "truthful_remote T Z own I" and b: "rg_file b = at_revision (own f) r"
  shows "triple (ok T Z own pin) (load_block I K f r b)
    (\<lambda>d s. ok T Z own pin s \<and> agrees (T (rg_file b)) (rg_offset b) d) (\<lambda>_. ok T Z own pin)"
  unfolding load_block_def
proof (rule ask_bind [where R = "\<lambda>x. \<forall>d. x = Some d \<longrightarrow> agrees (T (rg_file b)) (rg_offset b) d"], goal_cases)
  case (1 s)
  then show ?case by (intro cache_steps cached_ok_cache)
next
  case (2 x s)
  then show ?case using range_hit [of T Z own pin s b] by auto
next
  case (3 x)
  have true: "agrees (T (rg_file b)) (rg_offset b) (rr_data rd)"
    if "in_read_range_versioned I f (rg_offset b) (rg_length b) w = (Inr rd, w')" "\<not> rr_revision rd \<noteq> r" for rd w w'
    using truthfulD(1) [OF I that(1)] that(2) b by simp
  show ?case
  proof (rule option_cases, goal_cases)
    case 1
    show ?case
    proof (rule inner_bind, goal_cases)
      case (1 rd w w')
      show ?case
        by (intro triple_if triple_mfail triple_mbind [where R = "\<lambda>_. ok T Z own pin"] cache_last triple_mret;
            (intro conjI true [OF 1] cache_steps cached_ok_cache)?; assumption?) (simp_all add: true [OF 1])
    qed (auto intro: cached_ok_frame)
  next
    case (2 d)
    then show ?case using 3 by (intro triple_mret) auto
  qed
qed

lemma fetch_block_ok:
  fixes I :: "'w remote_fs"
  assumes "truthful_remote T Z own I" "rg_file b = at_revision (own f) r"
  shows "triple (ok T Z own pin) (fetch_block I K f r b)
    (\<lambda>d s. ok T Z own pin s \<and> agrees (T (rg_file b)) (rg_offset b) d) (\<lambda>_. ok T Z own pin)"
  unfolding triple_def fetch_block_def
proof (intro allI impI)
  fix s :: "('c, 'w) cached"
  assume s: "ok T Z own pin s"
  show "case let (x, t) = load_block I K f r b s in (map_err (client_of \<circ> shared_of) x, t) of
      (Inl e, t) \<Rightarrow> ok T Z own pin t | (Inr d, t) \<Rightarrow> ok T Z own pin t \<and> agrees (T (rg_file b)) (rg_offset b) d"
    using tripleD [OF load_block_ok [OF assms] s] by (cases "load_block I K f r b s"; cases "fst (load_block I K f r b s)") auto
qed

lemma fetch_all_ok:
  assumes I: "truthful_remote T Z own I" and "\<forall>b \<in> set bs. rg_file b = at_revision (own f) r" "ok T Z own pin s"
    and "fetch_all I K f r bs s = (results, s')"
  shows "ok T Z own pin s' \<and> results_true T results"
  using assms(2-)
proof (induction bs arbitrary: s results)
  case (Cons b bs)
  obtain x s1 where one: "fetch_block I K f r b s = (x, s1)" by (metis prod.exhaust)
  obtain rest where rest: "fetch_all I K f r bs s1 = (rest, s')" "results = (b, x) # rest"
    using Cons.prems(3) one by (auto split: prod.splits)
  have b: "rg_file b = at_revision (own f) r" using Cons.prems(1) by simp
  have "ok T Z own pin s1 \<and> (\<forall>d. x = Inr d \<longrightarrow> agrees (T (rg_file b)) (rg_offset b) d)"
    using tripleD [OF fetch_block_ok [OF I b] Cons.prems(2)] unfolding one by (cases x) simp_all
  moreover from this have "ok T Z own pin s' \<and> results_true T rest"
    by (intro Cons.IH [OF _ _ rest(1)]) (simp_all add: Cons.prems(1))
  ultimately show ?case unfolding rest(2) results_true_def by simp
qed (auto simp: results_true_def)

lemma read_online_ok:
  assumes I: "truthful_remote T Z own I" and h: "handle_ok Z own h" "ch_inner h = Some f"
  shows "triple (ok T Z own pin) (read_online I K l h f offset len)
    (\<lambda>r s. ok T Z own pin s \<and> reads_as T Z (ch_node h) offset len r) (\<lambda>_. ok T Z own pin)"
proof -
  let ?key = "handle_range h offset (min len (ch_size h - offset))"
  let ?Q = "\<lambda>r s. ok T Z own pin s \<and> reads_as T Z (ch_node h) offset len r"
  have sz: "ch_size h = Z (at_revision (ch_node h) (ch_revision h))" and own: "own f = ch_node h"
    using h by (auto simp: handle_ok_def)
  have answer: "reads_as T Z (ch_node h) offset len \<lparr>rr_revision = ch_revision h, rr_data = d\<rparr>"
    if "d = range_of (T (rg_file ?key)) (rg_offset ?key) (rg_length ?key)" for d
    using that sz by (simp add: reads_as_def handle_range_def block_key_def at_revision_def)
  have found: "triple (ok T Z own pin) (mbind (maybe_prefetch l h f offset n e g) (\<lambda>_. mret \<lparr>rr_revision = ch_revision h, rr_data = d\<rparr>))
      ?Q (\<lambda>_. ok T Z own pin)" if "d = range_of (T (rg_file ?key)) (rg_offset ?key) (rg_length ?key)" for n e g d
    using answer [OF that] by (intro triple_mbind [OF maybe_prefetch_ok [OF h]] triple_mret) simp
  have missed: "triple (ok T Z own pin) (mbind (cached_range K h offset len) (\<lambda>hit. case hit of
        Some data \<Rightarrow> mret \<lparr>rr_revision = ch_revision h, rr_data = data\<rparr> | None \<Rightarrow> mfail e)) ?Q (\<lambda>_. ok T Z own pin)" for e
    unfolding cached_range_def
    by (rule ask_bind [where R = "\<lambda>x. \<forall>d. x = Some d \<longrightarrow> d = range_of (T (rg_file ?key)) (rg_offset ?key) (rg_length ?key)"])
      (auto intro!: option_cases triple_mret triple_mfail answer cache_steps cached_ok_cache dest: range_hit)
  have "case read_online I K l h f offset len s of (Inr r, t) \<Rightarrow> ?Q r t | (Inl e, t) \<Rightarrow> ok T Z own pin t"
    if s: "ok T Z own pin s" for s
  proof (cases "blocks_for (cd_policy s) h offset len")
    case (Inl e)
    then show ?thesis using s by (simp add: read_online_def)
  next
    case (Inr blocks)
    show ?thesis
    proof (cases "blocks = []")
      case True
      then have "min len (ch_size h - offset) = 0"
        using blocks_for_empty [of "cd_policy s" h offset len] Inr s by (simp add: cached_ok_def)
      then show ?thesis
        using Inr True s answer [of "[]"] by (simp add: read_online_def range_of_def handle_range_def block_key_def)
    next
      case False
      obtain results s1 where f: "fetch_all I K f (ch_revision h) blocks s = (results, s1)" by (metis prod.exhaust)
      have s1: "ok T Z own pin s1" "results_true T results"
        using fetch_all_ok [OF I _ s f] blocks_for_revision [OF Inr] own by auto
      show ?thesis
      proof (cases "gather results mem_empty False")
        case (Inl e)
        then show ?thesis using s1 f Inr False by (simp add: read_online_def Let_def)
      next
        case g: (Inr p)
        obtain a oe where p: "p = (a, oe)" by (cases p)
        have a: "mem_good a" "coherent T (set (mc_ranges a))"
          using gather_true [OF g [unfolded p] s1(2)] by (auto simp: mem_good_def mem_empty_def coherent_def)
        have hit: "d = range_of (T (rg_file ?key)) (rg_offset ?key) (rg_length ?key)"
          if "mem_get_range ?key a = Some d" for d
          using mem.get_true [OF a, of ?key d] that by simp
        show ?thesis
        proof (cases "mem_get_range ?key a")
          case None
          then show ?thesis using tripleD [OF missed s1(1)] f Inr False g p by (simp add: read_online_def Let_def)
        next
          case (Some d)
          show ?thesis
            using tripleD [OF found [OF hit [OF Some]] s1(1)] Some f Inr False g p
            by (simp add: read_online_def Let_def)
        qed
      qed
    qed
  qed
  then show ?thesis by (simp add: triple_def)
qed

lemma read_retry_ok:
  fixes I :: "'w remote_fs"
  assumes I: "truthful_remote T Z own I" and h: "handle_ok Z own h" "ch_inner h = Some f"
  shows "triple (ok T Z own (pinned l (ch_node h))) (read_retry n I K l h f offset len)
    (\<lambda>r s. ok T Z own (pinned l (ch_node h)) s \<and> reads_as T Z (ch_node h) offset len r)
    (\<lambda>_. ok T Z own (pinned l (ch_node h)))"
  using h
proof (induction n arbitrary: h)
  case 0
  then show ?case by (simp add: read_online_ok [OF I])
next
  case (Suc n)
  let ?P = "ok T Z own (pinned l (ch_node h))" and ?Q = "\<lambda>r s. ok T Z own (pinned l (ch_node h)) s \<and> reads_as T Z (ch_node h) offset len r"
  let ?again = "mbind (on_inner (in_get_metadata I (ch_node h))) (\<lambda>metadata.
         mbind (on_cache (ca_store_metadata K metadata)) (\<lambda>_.
         mbind (update_handle l (md_revision metadata) (md_size metadata)) (\<lambda>_.
           read_retry n I K l (h\<lparr>ch_revision := md_revision metadata, ch_size := md_size metadata\<rparr>) f offset len)))"
  have again: "triple ?P ?again ?Q (\<lambda>_. ?P)"
  proof (rule inner_bind, goal_cases)
    case (1 m w w')
    have m: "md_node m = ch_node h" "md_size m = Z (at_revision (ch_node h) (md_revision m))"
      using truthfulD(4) [OF I 1] by (simp_all add: meta_true_def)
    have "handle_ok Z own (h\<lparr>ch_revision := md_revision m, ch_size := md_size m\<rparr>)"
      using Suc.prems(1) m(2) by (simp add: handle_ok_def)
    from Suc.IH [OF this] Suc.prems(2)
    have "triple ?P (read_retry n I K l (h\<lparr>ch_revision := md_revision m, ch_size := md_size m\<rparr>) f offset len) ?Q (\<lambda>_. ?P)"
      by simp
    then show ?case
      using m by (intro cache_bind triple_mbind [OF update_handle_ok]) (auto intro!: cache_steps cached_ok_cache simp: meta_true_def)
  qed (auto intro: cached_ok_frame)
  show ?case
    unfolding triple_def
  proof (intro allI impI)
    fix s :: "('c, 'w) cached"
    assume s: "?P s"
    obtain x t where x: "read_online I K l h f offset len s = (x, t)" by (metis prod.exhaust)
    have t: "case (x, t) of (Inl e, t) \<Rightarrow> ?P t | (Inr r, t) \<Rightarrow> ?Q r t"
      using tripleD [OF read_online_ok [OF I Suc.prems] s, of offset len l] by (simp only: x)
    then have "x = Inl CeStaleRevision \<Longrightarrow> ?P t" by simp
    then show "case read_retry (Suc n) I K l h f offset len s of (Inl e, t) \<Rightarrow> ?P t | (Inr r, t) \<Rightarrow> ?Q r t"
      using t tripleD [OF again, of t] by (auto simp: x split: sum.splits client_error.splits)
  qed
qed

lemma read_handle_ok:
  assumes I: "truthful_remote T Z own I" and h: "handle_ok Z own h"
  shows "triple (ok T Z own (pinned l (ch_node h)))
    (if checked_add offset len = None then mfail READ_OVERFLOWS
     else (case ch_inner h of
         None \<Rightarrow> mbind (cached_range K h offset len) (\<lambda>hit.
           mlift (ebind (ok_or CeOfflineCacheMiss hit) (\<lambda>data. Inr \<lparr>rr_revision = ch_revision h, rr_data = data\<rparr>)))
       | Some inner_handle \<Rightarrow> read_retry STALE_REVISION_RETRIES I K l h inner_handle offset len))
    (\<lambda>r s. ok T Z own any_node s \<and> reads_as T Z (ch_node h) offset len r) (\<lambda>_. ok T Z own any_node)"
proof (intro triple_if triple_mfail option_cases)
  let ?key = "handle_range h offset (min len (ch_size h - offset))"
  show "triple (ok T Z own (pinned l (ch_node h))) (mbind (cached_range K h offset len) (\<lambda>hit.
        mlift (ebind (ok_or CeOfflineCacheMiss hit) (\<lambda>data. Inr \<lparr>rr_revision = ch_revision h, rr_data = data\<rparr>))))
      (\<lambda>r s. ok T Z own any_node s \<and> reads_as T Z (ch_node h) offset len r) (\<lambda>_. ok T Z own any_node)"
    unfolding cached_range_def
  proof (rule ask_bind [where R = "\<lambda>x. \<forall>d. x = Some d \<longrightarrow> d = range_of (T (rg_file ?key)) (rg_offset ?key) (rg_length ?key)"], goal_cases)
    case (1 s)
    then show ?case by (intro cache_steps cached_ok_cache)
  next
    case (2 x s)
    then show ?case using range_hit [of T Z own "pinned l (ch_node h)" s ?key] by auto
  next
    case (3 x)
    then show ?case
      using h by (intro lift_last) (auto simp: ebind_Inr_iff ok_or_def reads_as_def handle_ok_def handle_range_def block_key_def
          at_revision_def split: option.splits intro: unpin)
  qed
next
  fix f assume f: "ch_inner h = Some f"
  show "triple (ok T Z own (pinned l (ch_node h))) (read_retry STALE_REVISION_RETRIES I K l h f offset len)
      (\<lambda>r s. ok T Z own any_node s \<and> reads_as T Z (ch_node h) offset len r) (\<lambda>_. ok T Z own any_node)"
    by (rule triple_conseq [OF read_retry_ok [OF I h f]]) (auto intro: unpin)
qed (auto intro: unpin)

lemma read_ok:
  assumes I: "truthful_remote T Z own I" and s: "ok T Z own any_node s" "map_of (cd_handles s) l = Some h"
    and "cfs_read_range_versioned I K l offset len s = (Inr r, t)"
  shows "reads_as T Z (ch_node h) offset len r"
proof -
  have "handle_ok Z own h" "ok T Z own (pinned l (ch_node h)) s"
    using s by (auto simp: cached_ok_def pinned_def)
  from triple_Inr [OF read_handle_ok [OF I this(1)] this(2)] show ?thesis
    using assms(4) s(2) by (simp add: cfs_read_range_versioned_def mbind_def get_cached_handle_def)
qed

end

end
