(* ===== verification/Demo_Files.thy ===== *)
theory Demo_Files
  imports Cached_Laws
begin

text \<open>
  A concrete file system below the client's caches: one file, node 4, of twenty bytes, whose
  revision is the state of the world and whose attribute changes make a new revision. It answers
  nothing else.
\<close>

definition offline_remote :: "'w remote_fs" where
  "offline_remote = \<lparr>
     in_now = (\<lambda>_. 0), in_ping = (\<lambda>_ w. (Inl CeOffline, w)), in_capabilities = (\<lambda>w. (Inl CeOffline, w)),
     in_stat_filesystem = (\<lambda>w. (Inl CeOffline, w)), in_get_metadata = (\<lambda>_ w. (Inl CeOffline, w)),
     in_list_directory_snapshot = (\<lambda>_ w. (Inl CeOffline, w)), in_list_directory_view = (\<lambda>_ _ w. (Inl CeOffline, w)),
     in_open_file_with_options = (\<lambda>_ _ w. (Inl CeOffline, w)), in_create_file = (\<lambda>_ _ _ _ w. (Inl CeOffline, w)),
     in_create_directory = (\<lambda>_ _ _ w. (Inl CeOffline, w)), in_create_symlink = (\<lambda>_ _ _ w. (Inl CeOffline, w)),
     in_create_hard_link = (\<lambda>_ _ _ w. (Inl CeOffline, w)),
     in_create_special_node = (\<lambda>_ _ _ _ _ _ w. (Inl CeOffline, w)),
     in_remove_node = (\<lambda>_ _ _ w. (Inl CeOffline, w)), in_rename_node = (\<lambda>_ _ _ _ _ w. (Inl CeOffline, w)),
     in_read_link = (\<lambda>_ w. (Inl CeOffline, w)), in_set_attributes = (\<lambda>_ _ _ w. (Inl CeOffline, w)),
     in_read_range_versioned = (\<lambda>_ _ _ w. (Inl CeOffline, w)), in_write_range = (\<lambda>_ _ _ w. (Inl CeOffline, w)),
     in_flush_file = (\<lambda>_ _ w. (Inl CeOffline, w)), in_sync_file = (\<lambda>_ _ w. (Inl CeOffline, w)),
     in_sync_directory = (\<lambda>_ w. (Inl CeOffline, w)), in_allocate_file = (\<lambda>_ _ _ w. (Inl CeOffline, w)),
     in_get_xattr = (\<lambda>_ _ _ _ w. (Inl CeOffline, w)), in_set_xattr = (\<lambda>_ _ _ _ _ w. (Inl CeOffline, w)),
     in_list_xattrs = (\<lambda>_ w. (Inl CeOffline, w)), in_remove_xattr = (\<lambda>_ _ w. (Inl CeOffline, w)),
     in_copy_file_range = (\<lambda>_ _ _ _ _ w. (Inl CeOffline, w)), in_seek_file = (\<lambda>_ _ _ w. (Inl CeOffline, w)),
     in_safe_ioctl = (\<lambda>_ _ w. (Inl CeOffline, w)), in_map_block = (\<lambda>_ _ _ w. (Inl CeOffline, w)),
     in_exchange_data = (\<lambda>_ _ _ _ _ w. (Inl CeOffline, w)), in_set_volume_name = (\<lambda>_ w. (Inl CeOffline, w)),
     in_forget_nodes = (\<lambda>_ w. (Inl CeOffline, w)), in_get_lock = (\<lambda>_ _ w. (Inl CeOffline, w)),
     in_set_lock = (\<lambda>_ _ _ w. (Inl CeOffline, w)), in_close_file = (\<lambda>_ w. (Inl CeOffline, w))\<rparr>"

definition demo_file_metadata :: "u64 \<Rightarrow> u64 \<Rightarrow> metadata" where
  "demo_file_metadata revision sz = \<lparr>md_node = 4, md_kind = KFile, md_size = sz, md_mode = 420, md_allocated_blocks = 0,
     md_revision = revision, md_accessed_unix_ms = 0, md_modified_unix_ms = 0, md_created_unix_ms = None,
     md_backup_unix_ms = None, md_link_count = 1, md_device_major = 0, md_device_minor = 0\<rparr>"

definition demo_byte :: "revision_key \<Rightarrow> u64 \<Rightarrow> byte" where
  "demo_byte k p = (if rk_revision k = 2 then p else p + 100)"

definition demo_files :: "nat remote_fs" where
  "demo_files = offline_remote\<lparr>
     in_open_file_with_options := (\<lambda>n _ w. if n = 4 then (Inr \<lparr>op_handle = 9, op_revision = w, op_size = 20\<rparr>, w) else (Inl CeOffline, w)),
     in_get_metadata := (\<lambda>n w. if n = 4 then (Inr (demo_file_metadata w 20), w) else (Inl CeOffline, w)),
     in_set_attributes := (\<lambda>n _ _ w. if n = 4 then (Inr (demo_file_metadata (w + 1) 20), w + 1) else (Inl CeOffline, w)),
     in_read_range_versioned := (\<lambda>f off len w. (Inr \<lparr>rr_revision = w,
        rr_data = range_of (demo_byte (at_revision 4 w)) off (min len (20 - off))\<rparr>, w))\<rparr>"

lemma demo_truthful: "truthful_remote demo_byte (\<lambda>_. 20) (\<lambda>_. 4) demo_files"
  by (auto simp: truthful_remote_def reads_true_def opens_true_def metadata_true_def listings_true_def links_true_def
      writes_true_def demo_files_def offline_remote_def meta_true_def demo_file_metadata_def split: if_splits)

subsection \<open>The caching file system over it\<close>

definition demo_cached_policy :: cache_policy where
  "demo_cached_policy = \<lparr>cp_block_size = 8, cp_read_ahead_max_bytes = 0\<rparr>"

definition demo_changes :: attribute_changes where
  "demo_changes = \<lparr>ac_size = None, ac_mode = Some 384, ac_accessed_unix_ms = None, ac_modified_unix_ms = None, ac_backup_unix_ms = None\<rparr>"

definition demo_handle_at :: "u64 \<Rightarrow> cached_handle" where
  "demo_handle_at r = \<lparr>ch_node = 4, ch_inner = Some 9, ch_revision = r, ch_size = 20, ch_prefetch = prefetcher_default\<rparr>"

definition demo_cached :: "(memory_cache, nat) cached" where
  "demo_cached = \<lparr>cd_policy = demo_cached_policy, cd_cache = mem_empty, cd_handles = [], cd_capabilities = None, cd_refreshing = [],
     cd_permits = 1, cd_permit_total = 1, cd_slots = 8, cd_parents = [(ROOT_NODE, ROOT_NODE)], cd_tasks = [], cd_fresh = 1, cd_world = 2\<rparr>"

lemma demo_cached_new: "cached_new mem_empty 2 demo_cached_policy = Inr demo_cached"
  by (simp add: cached_new_def demo_cached_policy_def demo_cached_def CLIENT_READ_LIMIT_def Let_def PREFETCH_MAX_CONCURRENT_FETCHES_def)

lemmas demo_world = demo_files_def offline_remote_def memory_fs_cache_def on_inner_def on_cache_def ask_cache_def monad_simps

lemma demo_open: "run_cached_op demo_files memory_fs_cache (CfOpenFile 4 READ_ONLY) demo_cached =
    demo_cached\<lparr>cd_handles := [(1, demo_handle_at 2)], cd_fresh := 2\<rparr>"
  by (simp add: cfs_open_file_with_options_def demo_world remember_handle_def Let_def demo_handle_at_def demo_cached_def)

lemma demo_touch: "run_cached_op demo_files memory_fs_cache (CfSetAttributes 4 None demo_changes)
    (demo_cached\<lparr>cd_handles := [(1, demo_handle_at 2)], cd_fresh := 2\<rparr>) =
    demo_cached\<lparr>cd_handles := [(1, demo_handle_at 2)], cd_fresh := 2, cd_world := 3,
      cd_cache := mem_empty\<lparr>mc_metadata := [(4, demo_file_metadata 3 20)]\<rparr>\<rparr>"
  by (simp add: cfs_set_attributes_def demo_world invalidate_cached_node_def mem_invalidate_node_state_def mem_insert_metadata_def
     demo_cached_def mem_empty_def demo_file_metadata_def)

lemma demo_blocks: "blocks_for demo_cached_policy (demo_handle_at r) 6 5 = Inr [block_key 4 r 0 8, block_key 4 r 8 8]"
  by (simp add: blocks_for_def demo_cached_policy_def demo_handle_at_def demand_block_size_def SMALL_READ_THRESHOLD_def
    SMALL_READ_AHEAD_BLOCK_SIZE_def U64_MAX_def checked_add_def blocks_loop.simps handle_range_def)

lemma demo_upt: "[0..<8] = [0,1,2,3,4,5,6,7::nat]" "[8..<16] = [8,9,10,11,12,13,14,15::nat]" "[6..<11] = [6,7,8,9,10::nat]"
  by (simp_all add: upt_rec numeral_eq_Suc)

lemma demo_handle_rev: "ch_revision (demo_handle_at r) = r"
  by (simp add: demo_handle_at_def)

lemma demo_stale:
  assumes "cd_world s = 3" "mc_ranges (cd_cache s) = []" "0 < len" "off + len < 100"
  shows "fetch_block demo_files memory_fs_cache 9 2 (block_key 4 2 off len) s = (Inl CeStaleRevision, s)"
  using assms by (simp add: fetch_block_def load_block_def demo_world mem_get_range_def block_key_def assemble_range_def
      checked_add_def U64_MAX_def)

lemma demo_first: "mc_ranges (cd_cache s) = [] \<Longrightarrow> cd_world s = 3 \<Longrightarrow>
  fetch_block demo_files memory_fs_cache 9 3 (block_key 4 3 0 8) s = (Inr [100, 101, 102, 103, 104, 105, 106, 107],
    s\<lparr>cd_cache := (cd_cache s)\<lparr>mc_ranges := [(block_key 4 3 0 8, [100, 101, 102, 103, 104, 105, 106, 107])]\<rparr>\<rparr>)"
  by (simp add: fetch_block_def load_block_def demo_world mem_get_range_def block_key_def assemble_range_def
      checked_add_def U64_MAX_def range_of_def demo_upt demo_byte_def at_revision_def mem_insert_range_def valid_range_payload_def)

lemma demo_next: "mc_ranges (cd_cache s) = [(block_key 4 3 0 8, [100, 101, 102, 103, 104, 105, 106, 107])] \<Longrightarrow> cd_world s = 3 \<Longrightarrow>
  fst (fetch_block demo_files memory_fs_cache 9 3 (block_key 4 3 8 8) s) = Inr [108, 109, 110, 111, 112, 113, 114, 115]"
  by (simp add: fetch_block_def load_block_def demo_world mem_get_range_def block_key_def assemble_range_def
      checked_add_def U64_MAX_def range_of_def demo_upt demo_byte_def at_revision_def)

definition demo_touched :: "(memory_cache, nat) cached" where
  "demo_touched = demo_cached\<lparr>cd_handles := [(1, demo_handle_at 2)], cd_fresh := 2, cd_world := 3,
      cd_cache := mem_empty\<lparr>mc_metadata := [(4, demo_file_metadata 3 20)]\<rparr>\<rparr>"

lemma demo_gather: "gather [(block_key 4 3 0 8, Inr [100, 101, 102, 103, 104, 105, 106, 107]),
     (block_key 4 3 8 8, Inr [108, 109, 110, 111, 112, 113, 114, 115])] mem_empty False =
   Inr (mem_empty\<lparr>mc_ranges := [(block_key 4 3 0 8, [100, 101, 102, 103, 104, 105, 106, 107]),
     (block_key 4 3 8 8, [108, 109, 110, 111, 112, 113, 114, 115])]\<rparr>, False)"
  by (simp add: block_key_def mem_insert_range_def valid_range_payload_def checked_add_def U64_MAX_def mem_empty_def)

lemma demo_assemble: "mem_get_range (block_key 4 3 6 5) (mem_empty\<lparr>mc_ranges := [(block_key 4 3 0 8, [100, 101, 102, 103, 104, 105, 106, 107]),
     (block_key 4 3 8 8, [108, 109, 110, 111, 112, 113, 114, 115])]\<rparr>) = Some [106, 107, 108, 109, 110]"
  by (simp add: mem_get_range_def block_key_def assemble_range_def checked_add_def U64_MAX_def segment_order_def slice_get_def insort_key.simps)

lemma demo_stale_online: "read_online demo_files memory_fs_cache 1 (demo_handle_at 2) 9 6 5 demo_touched =
    (Inl CeStaleRevision, demo_touched)"
proof -
  have "cd_policy demo_touched = demo_cached_policy" "cd_world demo_touched = 3" "mc_ranges (cd_cache demo_touched) = []"
    by (simp_all add: demo_touched_def demo_cached_def mem_empty_def)
  then show ?thesis
    by (simp add: read_online_def demo_blocks demo_stale demo_handle_rev Let_def)
qed

lemma demo_fresh_online:
  assumes "cd_policy s = demo_cached_policy" "cd_world s = 3" "mc_ranges (cd_cache s) = []"
  shows "fst (read_online demo_files memory_fs_cache 1 (demo_handle_at 3) 9 6 5 s) = Inr \<lparr>rr_revision = 3, rr_data = [106, 107, 108, 109, 110]\<rparr>"
proof -
  let ?s1 = "s\<lparr>cd_cache := (cd_cache s)\<lparr>mc_ranges := [(block_key 4 3 0 8, [100, 101, 102, 103, 104, 105, 106, 107])]\<rparr>\<rparr>"
  obtain r s2 where f2: "fetch_block demo_files memory_fs_cache 9 3 (block_key 4 3 8 8) ?s1 = (r, s2)" by (metis prod.exhaust)
  then have r: "r = Inr [108, 109, 110, 111, 112, 113, 114, 115]" using demo_next [of ?s1] assms(2) by simp
  have f: "fetch_all demo_files memory_fs_cache 9 3 [block_key 4 3 0 8, block_key 4 3 8 8] s =
      ([(block_key 4 3 0 8, Inr [100, 101, 102, 103, 104, 105, 106, 107]), (block_key 4 3 8 8, r)], s2)"
    by (simp add: demo_first [OF assms(3,2)] f2)
  have key: "handle_range (demo_handle_at 3) 6 (min 5 (ch_size (demo_handle_at 3) - 6)) = block_key 4 3 6 5"
    by (simp add: handle_range_def demo_handle_at_def)
  have prefetch: "mbind (maybe_prefetch l h f off n e g) (\<lambda>_. mret x) t = (Inr x, snd (maybe_prefetch l h f off n e g t))"
    for l h f off n e g x and t :: "(memory_cache, nat) cached"
    by (simp add: maybe_prefetch_def mbind_def mret_def mput_def)
  show ?thesis
    using assms(1) by (simp add: read_online_def demo_blocks demo_handle_rev f r demo_gather key demo_assemble prefetch Let_def
        del: fetch_all.simps gather.simps)
qed

lemma demo_read: "\<exists>s'. cfs_read_range_versioned demo_files memory_fs_cache 1 6 5 demo_touched =
    (Inr \<lparr>rr_revision = 3, rr_data = [106, 107, 108, 109, 110]\<rparr>, s')"
proof -
  let ?s = "demo_touched\<lparr>cd_handles := [(1, demo_handle_at 3)]\<rparr>"
  have again: "mbind (on_inner (in_get_metadata demo_files 4)) (\<lambda>metadata.
         mbind (on_cache (ca_store_metadata memory_fs_cache metadata)) (\<lambda>_.
         mbind (update_handle 1 (md_revision metadata) (md_size metadata)) (\<lambda>_. f metadata))) demo_touched =
      f (demo_file_metadata 3 20) ?s" for f :: "metadata \<Rightarrow> (memory_cache, nat, range_read) cdop"
    by (simp add: demo_world update_handle_def modify_cached_handle_def mem_insert_metadata_def demo_touched_def demo_handle_at_def
        demo_file_metadata_def mem_empty_def demo_cached_def)
  have h: "(demo_handle_at 2)\<lparr>ch_revision := 3, ch_size := 20\<rparr> = demo_handle_at 3"
    "md_revision (demo_file_metadata 3 20) = 3" "md_size (demo_file_metadata 3 20) = 20" "ch_node (demo_handle_at 2) = 4"
    by (simp_all add: demo_handle_at_def demo_file_metadata_def)
  obtain t where "read_online demo_files memory_fs_cache 1 (demo_handle_at 3) 9 6 5 ?s =
      (Inr \<lparr>rr_revision = 3, rr_data = [106, 107, 108, 109, 110]\<rparr>, t)"
    using demo_fresh_online [of ?s]
    by (cases "read_online demo_files memory_fs_cache 1 (demo_handle_at 3) 9 6 5 ?s") (auto simp: demo_touched_def demo_cached_def mem_empty_def)
  then have "read_retry (Suc (Suc (Suc 0))) demo_files memory_fs_cache 1 (demo_handle_at 2) 9 6 5 demo_touched =
      (Inr \<lparr>rr_revision = 3, rr_data = [106, 107, 108, 109, 110]\<rparr>, t)"
    by (simp add: demo_stale_online again h del: One_nat_def)
  moreover have "map_of (cd_handles demo_touched) 1 = Some (demo_handle_at 2)" "ch_inner (demo_handle_at 2) = Some 9"
    by (simp_all add: demo_touched_def demo_handle_at_def)
  ultimately show ?thesis
    by (simp add: cfs_read_range_versioned_def mbind_def get_cached_handle_def checked_add_def U64_MAX_def STALE_REVISION_RETRIES_def
        numeral_3_eq_3 del: One_nat_def)
qed

subsection \<open>Reading ahead of it\<close>

definition demo_ahead :: cache_policy where
  "demo_ahead = \<lparr>cp_block_size = 8, cp_read_ahead_max_bytes = 32\<rparr>"

definition demo_task :: prefetch_task where
  "demo_task = \<lparr>pt_logical = 1, pt_inner = 9, pt_revision = 2, pt_block = block_key 4 2 8 8, pt_stream = 1, pt_units = 1\<rparr>"

lemma demo_burst: "schedule_loop n r 20 8 20 2 8 = ([block_key n r 8 8, block_key n r 16 4], 24)"
proof -
  have "saturating_add 8 8 = 16" "saturating_add 16 8 = 24" by (simp_all add: saturating_add_def U64_MAX_def)
  then show ?thesis by (simp add: numeral_2_eq_2)
qed

lemma demo_observe: "fst (observe 4 0 5 2 20 0 8 4 prefetcher_default) = (1, [block_key 4 2 8 8, block_key 4 2 16 4])"
  by (simp add: observe_def start_stream_def prefetcher_default_def matching_stream_def  schedule_def Let_def
     saturating_add_def saturating_mul_def U64_MAX_def wrapping_succ_def PRIME_WINDOW_BLOCKS_def SCHEDULE_BURST_BLOCKS_def
    div_ceil_def demo_burst)

lemma demo_ahead_fetch: "mc_ranges (cd_cache s) = [] \<Longrightarrow> cd_world s = 2 \<Longrightarrow>
  fetch_block demo_files memory_fs_cache 9 2 (block_key 4 2 0 8) s = (Inr [0, 1, 2, 3, 4, 5, 6, 7],
    s\<lparr>cd_cache := (cd_cache s)\<lparr>mc_ranges := [(block_key 4 2 0 8, [0, 1, 2, 3, 4, 5, 6, 7])]\<rparr>\<rparr>)"
  by (simp add: fetch_block_def load_block_def demo_world mem_get_range_def block_key_def assemble_range_def
      checked_add_def U64_MAX_def range_of_def demo_upt demo_byte_def at_revision_def mem_insert_range_def valid_range_payload_def del: One_nat_def)

lemma demo_ahead_gather: "gather [(block_key 4 2 0 8, Inr [0, 1, 2, 3, 4, 5, 6, 7])] mem_empty False =
   Inr (mem_empty\<lparr>mc_ranges := [(block_key 4 2 0 8, [0, 1, 2, 3, 4, 5, 6, 7])]\<rparr>, False)"
  by (simp add: block_key_def mem_insert_range_def valid_range_payload_def checked_add_def U64_MAX_def mem_empty_def del: One_nat_def)

lemma demo_ahead_assemble: "mem_get_range (block_key 4 2 0 5) (mem_empty\<lparr>mc_ranges := [(block_key 4 2 0 8, [0, 1, 2, 3, 4, 5, 6, 7])]\<rparr>) =
    Some [0, 1, 2, 3, 4]"
  by (simp add: mem_get_range_def block_key_def assemble_range_def checked_add_def U64_MAX_def segment_order_def slice_get_def insort_key.simps del: One_nat_def)

lemma demo_ahead_blocks: "blocks_for demo_ahead (demo_handle_at r) 0 5 = Inr [block_key 4 r 0 8]"
  by (simp add: blocks_for_def demo_ahead_def demo_handle_at_def demand_block_size_def SMALL_READ_THRESHOLD_def
    SMALL_READ_AHEAD_BLOCK_SIZE_def U64_MAX_def checked_add_def blocks_loop.simps handle_range_def)

definition demo_opened :: "(memory_cache, nat) cached" where
  "demo_opened = demo_cached\<lparr>cd_policy := demo_ahead, cd_handles := [(1, demo_handle_at 2)], cd_fresh := 2\<rparr>"

lemma demo_ahead_new: "cached_new mem_empty 2 demo_ahead = Inr (demo_cached\<lparr>cd_policy := demo_ahead\<rparr>)"
  by (simp add: cached_new_def demo_ahead_def demo_cached_def CLIENT_READ_LIMIT_def Let_def PREFETCH_MAX_CONCURRENT_FETCHES_def
      PREFETCH_MAX_INFLIGHT_BYTES_def PREFETCH_PERMIT_UNIT_def)

lemma demo_ahead_open: "run_cached_op demo_files memory_fs_cache (CfOpenFile 4 READ_ONLY) (demo_cached\<lparr>cd_policy := demo_ahead\<rparr>) = demo_opened"
  by (simp add: cfs_open_file_with_options_def demo_world remember_handle_def Let_def demo_handle_at_def demo_cached_def demo_opened_def)

lemma demo_ahead_prefetch:
  assumes "cd_policy s = demo_ahead" "cd_slots s = 8" "cd_permits s = 1" "cd_permit_total s = 1" "cd_tasks s = []"
  shows "cd_tasks (snd (maybe_prefetch 1 (demo_handle_at 2) 9 0 5 0 8 s)) = [demo_task]"
proof -
  obtain c where "observe 4 0 5 2 20 0 8 4 prefetcher_default = ((1, [block_key 4 2 8 8, block_key 4 2 16 4]), c)"
    using demo_observe by (metis prod.exhaust fst_conv)
  then show ?thesis using assms
    by (simp add: maybe_prefetch_def mput_def demo_handle_at_def demo_ahead_def Let_def demo_task_def prefetch_permits_for_def block_key_def del: One_nat_def)
qed

lemma demo_ahead_read: "cd_tasks (run_cached_op demo_files memory_fs_cache (CfReadRange 1 0 5) demo_opened) = [demo_task]"
proof -
  let ?s = "demo_opened\<lparr>cd_cache := (cd_cache demo_opened)\<lparr>mc_ranges := [(block_key 4 2 0 8, [0, 1, 2, 3, 4, 5, 6, 7])]\<rparr>\<rparr>"
  have "mc_ranges (cd_cache demo_opened) = []" "cd_world demo_opened = 2" by (simp_all add: demo_opened_def demo_cached_def mem_empty_def)
  then have f: "fetch_all demo_files memory_fs_cache 9 2 [block_key 4 2 0 8] demo_opened =
      ([(block_key 4 2 0 8, Inr [0, 1, 2, 3, 4, 5, 6, 7])], ?s)"
    by (simp add: demo_ahead_fetch)
  have key: "handle_range (demo_handle_at 2) 0 (min 5 (ch_size (demo_handle_at 2) - 0)) = block_key 4 2 0 5"
    by (simp add: handle_range_def demo_handle_at_def)
  have five: "Suc (Suc (Suc (Suc (Suc 0)))) = 5" by simp
  have facts: "cd_policy demo_opened = demo_ahead" "demand_block_size demo_ahead 5 = 8" "in_now demo_files w = 0" for w
    by (simp_all add: demo_opened_def demand_block_size_def demo_ahead_def SMALL_READ_THRESHOLD_def SMALL_READ_AHEAD_BLOCK_SIZE_def
       demo_files_def offline_remote_def)
  have prefetch: "mbind (maybe_prefetch l h f off n e g) (\<lambda>_. mret x) t = (Inr x, snd (maybe_prefetch l h f off n e g t))"
    for l h f off n e g x and t :: "(memory_cache, nat) cached"
    by (simp add: maybe_prefetch_def mbind_def mret_def mput_def)
  have "read_online demo_files memory_fs_cache 1 (demo_handle_at 2) 9 0 5 demo_opened =
      (Inr \<lparr>rr_revision = 2, rr_data = [0, 1, 2, 3, 4]\<rparr>, snd (maybe_prefetch 1 (demo_handle_at 2) 9 0 5 0 8 ?s))"
    using key by (simp add: five read_online_def facts demo_ahead_blocks demo_handle_rev f demo_ahead_gather demo_ahead_assemble prefetch Let_def
        del: fetch_all.simps gather.simps One_nat_def)
  then have "read_retry (Suc n) demo_files memory_fs_cache 1 (demo_handle_at 2) 9 0 5 demo_opened =
      (Inr \<lparr>rr_revision = 2, rr_data = [0, 1, 2, 3, 4]\<rparr>, snd (maybe_prefetch 1 (demo_handle_at 2) 9 0 5 0 8 ?s))" for n
    by simp
  moreover have "cd_tasks (snd (maybe_prefetch 1 (demo_handle_at 2) 9 0 5 0 8 ?s)) = [demo_task]"
    by (rule demo_ahead_prefetch) (simp_all add: demo_opened_def demo_cached_def)
  moreover have "map_of (cd_handles demo_opened) 1 = Some (demo_handle_at 2)" "ch_inner (demo_handle_at 2) = Some 9"
    by (simp_all add: demo_opened_def demo_handle_at_def)
  ultimately show ?thesis
    by (simp add: cfs_read_range_versioned_def mbind_def get_cached_handle_def checked_add_def U64_MAX_def STALE_REVISION_RETRIES_def
        numeral_3_eq_3 del: One_nat_def read_retry.simps)
qed

end
