(* ===== verification/Cached_Properties.thy ===== *)
theory Cached_Properties
  imports Cached_Reads Demo_Files
begin

text \<open>
  The invariant of \<open>Cached_Reads\<close> is kept by every operation and task, and what follows: reads are
  never torn, whatever operations, speculative fetches and refreshes came before.
\<close>

subsection \<open>Every operation keeps the invariant\<close>

context file_cache
begin

lemma metadata_bind:
  assumes "\<And>m. md_size m = Z (at_revision n (md_revision m)) \<Longrightarrow> triple (ok T Z own pin) (f m) Q E"
    and "\<And>e s. ok T Z own pin s \<Longrightarrow> E e s"
  shows "triple (ok T Z own pin) (mbind (cached_metadata K n) f) Q E"
  unfolding cached_metadata_def mbind_mbind
proof (rule ask_bind [where R = "\<lambda>x. \<forall>m. x = Some m \<longrightarrow> md_size m = Z (at_revision n (md_revision m))"], goal_cases)
  case (1 s)
  then show ?case by (intro cache_steps cached_ok_cache)
next
  case (2 x s)
  then show ?case using metadata_hit by blast
next
  case (3 x)
  then show ?case using assms by (cases x) (auto intro: lift_bind)
qed

lemma metadata_last:
  "triple (ok T Z own pin) (cached_metadata K n) (\<lambda>_. ok T Z own pin) (\<lambda>_. ok T Z own pin)"
  unfolding cached_metadata_def
  by (rule ask_bind [where R = "\<lambda>_. True"]) (auto intro!: lift_last cache_steps cached_ok_cache)

lemma offline_directory_ok:
  "triple (ok T Z own pin) (offline_directory K n) (\<lambda>_. ok T Z own pin) (\<lambda>_. ok T Z own pin)"
  unfolding offline_directory_def
proof (rule metadata_bind)
  fix m
  show "triple (ok T Z own pin)
      (mbind (ask_cache (ca_get_directory K \<lparr>rk_node = n, rk_revision = md_revision m\<rparr>)) (\<lambda>entries.
         mlift (ebind (ok_or CeOfflineCacheMiss entries) (\<lambda>es. Inr (md_revision m, es)))))
      (\<lambda>_. ok T Z own pin) (\<lambda>_. ok T Z own pin)"
    by (rule ask_bind [where R = "\<lambda>_. True"]) (auto intro!: lift_last cache_steps cached_ok_cache)
qed

lemmas op_rules = inner_bind inner_last cache_bind cache_last put_bind triple_mret triple_mfail triple_mput triple_if option_cases

lemmas op_frames = cached_ok_frame(1-5) cache_steps cached_ok_cache

lemma plain_ops_ok:
  "triple (ok T Z own pin) (cfs_ping I n) (\<lambda>_. ok T Z own pin) (\<lambda>_. ok T Z own pin)"
  "triple (ok T Z own pin) (cfs_sync_directory I node) (\<lambda>_. ok T Z own pin) (\<lambda>_. ok T Z own pin)"
  "triple (ok T Z own pin) (cfs_get_xattr I node x off len) (\<lambda>_. ok T Z own pin) (\<lambda>_. ok T Z own pin)"
  "triple (ok T Z own pin) (cfs_list_xattrs I node) (\<lambda>_. ok T Z own pin) (\<lambda>_. ok T Z own pin)"
  "triple (ok T Z own pin) (cfs_map_block I node bs b) (\<lambda>_. ok T Z own pin) (\<lambda>_. ok T Z own pin)"
  "triple (ok T Z own pin) (cfs_set_volume_name I x) (\<lambda>_. ok T Z own pin) (\<lambda>_. ok T Z own pin)"
  "triple (ok T Z own pin) (cfs_forget_nodes I ns) (\<lambda>_. ok T Z own pin) (\<lambda>_. ok T Z own pin)"
  "triple (ok T Z own pin) (cfs_set_xattr I K node x v m pos) (\<lambda>_. ok T Z own pin) (\<lambda>_. ok T Z own pin)"
  "triple (ok T Z own pin) (cfs_remove_xattr I K node x) (\<lambda>_. ok T Z own pin) (\<lambda>_. ok T Z own pin)"
  "triple (ok T Z own pin) (cfs_exchange_data I K p x q y opts) (\<lambda>_. ok T Z own pin) (\<lambda>_. ok T Z own pin)"
  unfolding cfs_ping_def cfs_sync_directory_def cfs_get_xattr_def cfs_list_xattrs_def cfs_map_block_def cfs_set_volume_name_def
    cfs_forget_nodes_def cfs_set_xattr_def cfs_remove_xattr_def cfs_exchange_data_def invalidate_cached_node_def
  by (intro op_rules op_frames; assumption)+

lemma created_ok:
  assumes I: "truthful_remote T Z own I"
  shows "triple (ok T Z own pin) (cfs_create_directory I K p x m) (\<lambda>_. ok T Z own pin) (\<lambda>_. ok T Z own pin)"
    and "triple (ok T Z own pin) (cfs_create_hard_link I K n p x) (\<lambda>_. ok T Z own pin) (\<lambda>_. ok T Z own pin)"
    and "triple (ok T Z own pin) (cfs_create_special_node I K p x k m ma mi) (\<lambda>_. ok T Z own pin) (\<lambda>_. ok T Z own pin)"
  unfolding cfs_create_directory_def cfs_create_hard_link_def cfs_create_special_node_def invalidate_cached_node_def set_parent_def
  by (intro op_rules op_frames; (assumption | rule truthfulD [OF I], assumption))+

lemma store_target_ok:
  assumes "length d = md_size m \<Longrightarrow> agrees (T (at_revision n (md_revision m))) 0 d"
  shows "triple (ok T Z own pin) (store_target K m n d) (\<lambda>_. ok T Z own pin) (\<lambda>_. ok T Z own pin)"
  unfolding store_target_def
  using assms by (auto intro!: triple_if cache_last triple_mret cache_steps cached_ok_cache simp: block_key_def at_revision_def)

lemma symlink_ok:
  assumes I: "truthful_remote T Z own I"
  shows "triple (ok T Z own pin) (cfs_create_symlink I K p x d) (\<lambda>_. ok T Z own pin) (\<lambda>_. ok T Z own pin)"
  unfolding cfs_create_symlink_def invalidate_cached_node_def
proof (rule inner_bind, goal_cases)
  case (1 m w w')
  note m = truthfulD(11) [OF I 1]
  show ?case
    using m by (intro cache_bind triple_mbind [OF store_target_ok] triple_mret op_frames; assumption?) simp_all
qed (auto intro: op_frames)

lemma read_link_ok:
  assumes I: "truthful_remote T Z own I"
  shows "triple (ok T Z own pin) (cfs_read_link I K n) (\<lambda>_. ok T Z own pin) (\<lambda>_. ok T Z own pin)"
proof -
  have target: "triple (ok T Z own pin) (\<lambda>s. case on_inner (in_get_metadata I n) s of
        (Inl _, s1) \<Rightarrow> (Inr d, s1)
      | (Inr m, s1) \<Rightarrow> mbind (cache_metadata K m) (\<lambda>m. mbind (store_target K m n d) (\<lambda>_. mret d)) s1)
      (\<lambda>_. ok T Z own pin) (\<lambda>_. ok T Z own pin)" if d: "in_read_link I n w = (Inr d, w')" for d w w'
  proof (rule triple_cases [where R = "\<lambda>m s. ok T Z own pin s \<and> md_node m = n \<and> meta_true Z (n, m)" and F = "\<lambda>_. ok T Z own pin"])
    show "triple (ok T Z own pin) (on_inner (in_get_metadata I n)) (\<lambda>m s. ok T Z own pin s \<and> md_node m = n \<and> meta_true Z (n, m))
        (\<lambda>_. ok T Z own pin)"
      using truthfulD(4) [OF I]
      by (intro tripleI) (auto simp: on_inner_def split: prod.splits intro: op_frames)
    show "triple (\<lambda>s. ok T Z own pin s \<and> md_node m = n \<and> meta_true Z (n, m))
        (mbind (cache_metadata K m) (\<lambda>m. mbind (store_target K m n d) (\<lambda>_. mret d))) (\<lambda>_. ok T Z own pin) (\<lambda>_. ok T Z own pin)" for m
    proof (rule triple_pre [where R = "md_node m = n \<and> meta_true Z (n, m)"])
      assume m: "md_node m = n \<and> meta_true Z (n, m)"
      have "triple (ok T Z own pin) (mbind (cache_metadata K m) (\<lambda>m. mbind (store_target K m n d) (\<lambda>_. mret d)))
          (\<lambda>_. ok T Z own pin) (\<lambda>_. ok T Z own pin)"
        unfolding cache_metadata_def mbind_mbind mbind_mret
        using m truthfulD(12) [OF I d, of "md_revision m"]
        by (intro cache_bind triple_mbind [OF store_target_ok] triple_mret op_frames; assumption?) (simp_all add: meta_true_def)
      then show "triple (\<lambda>s. ok T Z own pin s \<and> md_node m = n \<and> meta_true Z (n, m))
          (mbind (cache_metadata K m) (\<lambda>m. mbind (store_target K m n d) (\<lambda>_. mret d))) (\<lambda>_. ok T Z own pin) (\<lambda>_. ok T Z own pin)"
        by (rule triple_conseq) simp_all
    qed simp
  qed (auto intro: triple_done)
  have link: "triple (ok T Z own pin) (on_inner (in_read_link I n))
      (\<lambda>d s. ok T Z own pin s \<and> (\<exists>w w'. in_read_link I n w = (Inr d, w'))) (\<lambda>_. ok T Z own pin)"
    by (intro tripleI) (auto simp: on_inner_def split: prod.splits intro: op_frames)
  show ?thesis
    unfolding cfs_read_link_def
  proof (rule offline_cases [OF link])
    show "triple (\<lambda>s. ok T Z own pin s \<and> (\<exists>w w'. in_read_link I n w = (Inr d, w')))
        (\<lambda>s. case on_inner (in_get_metadata I n) s of (Inl _, s1) \<Rightarrow> (Inr d, s1)
          | (Inr m, s1) \<Rightarrow> mbind (cache_metadata K m) (\<lambda>m. mbind (store_target K m n d) (\<lambda>_. mret d)) s1)
        (\<lambda>_. ok T Z own pin) (\<lambda>_. ok T Z own pin)" for d
      by (rule triple_pre [where R = "\<exists>w w'. in_read_link I n w = (Inr d, w')"])
        (auto intro: triple_conseq [OF target])
  next
    show "triple (ok T Z own pin) (mbind (cached_metadata K n) (\<lambda>m.
        mbind (ask_cache (ca_get_range K (block_key n (md_revision m) 0 (md_size m)))) (\<lambda>r. mlift (ok_or CeOfflineCacheMiss r))))
        (\<lambda>_. ok T Z own pin) (\<lambda>_. ok T Z own pin)"
      by (rule metadata_bind, rule ask_bind [where R = "\<lambda>_. True"]) (auto intro!: lift_last cache_steps cached_ok_cache)
  qed
qed

lemma answered:
  "triple (ok T Z own pin) (on_inner m) (\<lambda>x s. ok T Z own pin s \<and> (\<exists>w w'. m w = (Inr x, w'))) (\<lambda>_. ok T Z own pin)"
  by (intro tripleI) (auto simp: on_inner_def split: prod.splits intro: op_frames)

lemma answered_then:
  assumes "\<And>x w w'. m w = (Inr x, w') \<Longrightarrow> triple (ok T Z own pin) (f x) (\<lambda>_. ok T Z own pin) (\<lambda>_. ok T Z own pin)"
    and "triple (ok T Z own pin) g (\<lambda>_. ok T Z own pin) (\<lambda>_. ok T Z own pin)"
  shows "triple (ok T Z own pin) (or_offline (on_inner m) f g) (\<lambda>_. ok T Z own pin) (\<lambda>_. ok T Z own pin)"
proof (rule offline_cases [OF answered _ assms(2)])
  show "triple (\<lambda>s. ok T Z own pin s \<and> (\<exists>w w'. m w = (Inr x, w'))) (f x) (\<lambda>_. ok T Z own pin) (\<lambda>_. ok T Z own pin)" for x
    by (rule triple_pre [where R = "\<exists>w w'. m w = (Inr x, w')"]) (auto intro: triple_conseq [OF assms(1)])
qed

lemma capabilities_ok:
  "triple (ok T Z own pin) (cfs_capabilities I) (\<lambda>_. ok T Z own pin) (\<lambda>_. ok T Z own pin)"
  unfolding cfs_capabilities_def
proof (rule answered_then)
  show "triple (ok T Z own pin) (\<lambda>s. (ok_or CeOffline (cd_capabilities s), s)) (\<lambda>_. ok T Z own pin) (\<lambda>_. ok T Z own pin)"
    by (auto simp: triple_def ok_or_def split: option.splits)
qed (intro op_rules op_frames; assumption)

lemma stat_ok:
  "triple (ok T Z own pin) (cfs_stat_filesystem I K) (\<lambda>_. ok T Z own pin) (\<lambda>_. ok T Z own pin)"
  unfolding cfs_stat_filesystem_def
proof (rule answered_then)
  show "triple (ok T Z own pin) (mbind (ask_cache (ca_get_stats K)) (\<lambda>r. mlift (ok_or CeOfflineCacheMiss r)))
      (\<lambda>_. ok T Z own pin) (\<lambda>_. ok T Z own pin)"
    by (rule ask_bind [where R = "\<lambda>_. True"]) (auto intro!: lift_last cache_steps cached_ok_cache)
qed (intro op_rules op_frames; assumption)

lemma cache_metadata_ok:
  assumes "meta_true Z (md_node m, m)"
  shows "triple (ok T Z own pin) (cache_metadata K m) (\<lambda>_. ok T Z own pin) (\<lambda>_. ok T Z own pin)"
  unfolding cache_metadata_def by (intro cache_bind triple_mret op_frames assms; assumption)

lemma get_metadata_ok:
  assumes I: "truthful_remote T Z own I"
  shows "triple (ok T Z own pin) (cfs_get_metadata I K n) (\<lambda>_. ok T Z own pin) (\<lambda>_. ok T Z own pin)"
  unfolding cfs_get_metadata_def
  by (rule answered_then [OF cache_metadata_ok metadata_last]) (use truthfulD(4) [OF I] in auto)

lemma snapshot_ok:
  assumes I: "truthful_remote T Z own I"
  shows "triple (ok T Z own pin) (cfs_list_directory_snapshot I K n) (\<lambda>_. ok T Z own pin) (\<lambda>_. ok T Z own pin)"
proof -
  have refresh: "triple (ok T Z own pin) (mbind (refresh_directory_in_background n) (\<lambda>_. mret x))
      (\<lambda>_. ok T Z own pin) (\<lambda>_. ok T Z own pin)" for x
    unfolding refresh_directory_in_background_def by (intro put_bind triple_mret) (auto intro: op_frames)
  have fetch: "triple (ok T Z own pin) (or_offline (on_inner (in_list_directory_snapshot I n))
       (\<lambda>(revision, entries). mbind (on_cache (ca_store_snapshot K \<lparr>rk_node = n, rk_revision = revision\<rparr> entries))
          (\<lambda>_. mret (revision, entries))) (offline_directory K n)) (\<lambda>_. ok T Z own pin) (\<lambda>_. ok T Z own pin)"
    by (rule answered_then [OF _ offline_directory_ok])
      (auto intro!: cache_bind triple_mret cache_steps cached_ok_cache dest: truthfulD(9) [OF I])
  from triple_cases [OF offline_directory_ok refresh fetch] show ?thesis
    by (simp add: triple_def cfs_list_directory_snapshot_def)
qed

lemma view_ok:
  assumes I: "truthful_remote T Z own I"
  shows "triple (ok T Z own pin) (cfs_list_directory_view I K n opts) (\<lambda>_. ok T Z own pin) (\<lambda>_. ok T Z own pin)"
  unfolding cfs_list_directory_view_def
proof (rule answered_then, goal_cases)
  case (1 v w w')
  note v = truthfulD(10) [OF I 1]
  show ?case
    using v by (intro cache_bind triple_mbind [OF cache_metadata_ok] put_bind triple_mret op_frames; assumption?) simp_all
next
  case 2
  have parent: "triple (ok T Z own pin) (mbind (\<lambda>s. (ok_or CeOfflineCacheMiss (map_of (cd_parents s) n), s)) f)
      (\<lambda>_. ok T Z own pin) (\<lambda>_. ok T Z own pin)"
    if "\<And>p. triple (ok T Z own pin) (f p) (\<lambda>_. ok T Z own pin) (\<lambda>_. ok T Z own pin)" for f
    by (rule triple_mbind [OF _ that]) (auto simp: triple_def ok_or_def split: option.splits)
  show ?case
    by (rule triple_mbind [OF offline_directory_ok], rule pair_cases, intro metadata_bind parent triple_mret)
qed

lemma child_ok:
  "triple (ok T Z own pin) (cached_child K p x) (\<lambda>_. ok T Z own pin) (\<lambda>_. ok T Z own pin)"
proof -
  have "triple (ok T Z own pin) (\<lambda>s. case offline_directory K p s of (Inl e, t) \<Rightarrow> (Inr None, t)
      | (Inr y, t) \<Rightarrow> (Inr (map_option de_node (List.find (\<lambda>e. de_name e = x) (snd y))), t)) (\<lambda>_. ok T Z own pin) (\<lambda>_. ok T Z own pin)"
    by (rule triple_cases [OF offline_directory_ok]) (auto intro: triple_done)
  then show ?thesis
    by (simp add: triple_def cached_child_def split_beta cong: sum.case_cong)
qed

lemma remove_rename_ok:
  "triple (ok T Z own pin) (cfs_remove_node I K p x d) (\<lambda>_. ok T Z own pin) (\<lambda>_. ok T Z own pin)"
  "triple (ok T Z own pin) (cfs_rename_node I K p x q y mode) (\<lambda>_. ok T Z own pin) (\<lambda>_. ok T Z own pin)"
  unfolding cfs_remove_node_def cfs_rename_node_def invalidate_cached_node_def set_parent_def drop_parent_def
  by (intro triple_mbind [OF child_ok] inner_bind cache_bind triple_mbind [where R = "\<lambda>_. ok T Z own pin"]
      option_cases triple_mret triple_mput triple_if op_frames; assumption)+

lemma open_ok:
  assumes I: "truthful_remote T Z own I"
  shows "triple (ok T Z own any_node) (cfs_open_file_with_options I K n opts) (\<lambda>_. ok T Z own any_node) (\<lambda>_. ok T Z own any_node)"
proof -
  let ?ok = "\<lambda>_. ok T Z own any_node"
  have opened: "triple (\<lambda>s. ok T Z own any_node s \<and> (\<exists>w w'. in_open_file_with_options I n opts w = (Inr x, w')))
      (remember_handle n (Some (op_handle x)) (op_revision x) (op_size x)) ?ok ?ok" for x
    by (rule triple_pre [where R = "\<exists>w w'. in_open_file_with_options I n opts w = (Inr x, w')"])
      (auto intro!: triple_conseq [OF remember_ok [where good = good and stored = stored and metas = metas and T = T and Z = Z and own = own]]
        simp: handle_ok_def dest: truthfulD(2) [OF I])
  have fallback: "triple (ok T Z own any_node) (\<lambda>s. if is_offline e \<and> oo_access opts = ReadOnly \<and> \<not> oo_truncate opts \<and> \<not> oo_append opts
       then mbind (cached_metadata K n) (\<lambda>m. remember_handle n None (md_revision m) (md_size m)) s else (Inl e, s)) ?ok ?ok" for e
    by (intro triple_cond triple_conseq [OF metadata_bind [OF remember_ok]] triple_stop) (auto simp: handle_ok_def)
  from triple_cases [OF answered opened fallback] show ?thesis
    by (simp add: triple_def cfs_open_file_with_options_def)
qed

lemma create_file_ok:
  assumes I: "truthful_remote T Z own I"
  shows "triple (ok T Z own any_node) (cfs_create_file I K p x m opts) (\<lambda>_. ok T Z own any_node) (\<lambda>_. ok T Z own any_node)"
  unfolding cfs_create_file_def invalidate_cached_node_def
proof (rule inner_bind, goal_cases)
  case (1 c w w')
  note c = truthfulD(3) [OF I 1]
  show ?case
    using c by (intro cache_bind triple_mbind [OF remember_ok] triple_mret op_frames; assumption?) (simp_all add: handle_ok_def)
qed (auto intro: op_frames)

text \<open>An operation on the inner handle of a logical one.\<close>

lemma online_ok:
  assumes "\<And>h f. handle_ok Z own h \<Longrightarrow> own f = ch_node h \<Longrightarrow>
      triple (ok T Z own (pinned l (ch_node h))) (g h f) (\<lambda>_. ok T Z own any_node) (\<lambda>_. ok T Z own any_node)"
  shows "triple (ok T Z own any_node) (online_call l g) (\<lambda>_. ok T Z own any_node) (\<lambda>_. ok T Z own any_node)"
  unfolding online_call_def
proof (rule pinned_bind)
  fix h assume h: "handle_ok Z own h"
  show "triple (ok T Z own (pinned l (ch_node h))) (mbind (mlift (require_online_handle h)) (g h))
      (\<lambda>_. ok T Z own any_node) (\<lambda>_. ok T Z own any_node)"
    using h assms by (intro lift_bind) (auto simp: require_online_handle_def ok_or_def handle_ok_def split: option.splits intro: unpin)
qed

lemma unpinned:
  "triple (ok T Z own pin) m (\<lambda>_. ok T Z own pin') (\<lambda>_. ok T Z own pin'') \<Longrightarrow>
   triple (ok T Z own pin) m (\<lambda>_. ok T Z own any_node) (\<lambda>_. ok T Z own any_node)"
  by (erule triple_conseq) (auto intro: unpin)

lemma handle_queries_ok:
  "triple (ok T Z own any_node) (cfs_seek_file I l off wh) (\<lambda>_. ok T Z own any_node) (\<lambda>_. ok T Z own any_node)"
  "triple (ok T Z own any_node) (cfs_safe_ioctl I l x) (\<lambda>_. ok T Z own any_node) (\<lambda>_. ok T Z own any_node)"
  "triple (ok T Z own any_node) (cfs_get_lock I l k) (\<lambda>_. ok T Z own any_node) (\<lambda>_. ok T Z own any_node)"
  "triple (ok T Z own any_node) (cfs_set_lock I l k wt) (\<lambda>_. ok T Z own any_node) (\<lambda>_. ok T Z own any_node)"
  unfolding cfs_seek_file_def cfs_safe_ioctl_def cfs_get_lock_def cfs_set_lock_def
  by (rule online_ok, rule unpinned, intro inner_last op_frames; assumption)+

lemma flush_sync_ok:
  "triple (ok T Z own any_node) (cfs_flush_file I l ow) (\<lambda>_. ok T Z own any_node) (\<lambda>_. ok T Z own any_node)"
  "triple (ok T Z own any_node) (cfs_sync_file I l d) (\<lambda>_. ok T Z own any_node) (\<lambda>_. ok T Z own any_node)"
  "triple (ok T Z own any_node) (cfs_close_file I l) (\<lambda>_. ok T Z own any_node) (\<lambda>_. ok T Z own any_node)"
  unfolding cfs_flush_file_def cfs_sync_file_def cfs_close_file_def
  by (rule pinned_bind, rule unpinned, intro put_bind option_cases inner_last triple_mret op_frames unpin; assumption)+

lemma write_ops_ok:
  assumes I: "truthful_remote T Z own I"
  shows "triple (ok T Z own any_node) (cfs_write_range I K l off d) (\<lambda>_. ok T Z own any_node) (\<lambda>_. ok T Z own any_node)"
    and "triple (ok T Z own any_node) (cfs_allocate_file I K l off len) (\<lambda>_. ok T Z own any_node) (\<lambda>_. ok T Z own any_node)"
  unfolding cfs_write_range_def cfs_allocate_file_def invalidate_cached_node_def invalidate_cached_node_memory_def
proof -
  have put: "triple (ok T Z own (pinned l (ch_node h))) (mbind (on_cache g) (\<lambda>_. mbind (update_handle l (wr_revision r) (wr_size r)) (\<lambda>_. mret r)))
      (\<lambda>_. ok T Z own (pinned l (ch_node h))) (\<lambda>_. ok T Z own (pinned l (ch_node h)))"
    if "wr_size r = Z (at_revision (own f) (wr_revision r))" "own f = ch_node h"
      "\<And>c. cache_ok good stored metas T Z c \<Longrightarrow> cache_ok good stored metas T Z (g c)" for r f g and h :: cached_handle
    using that by (intro cache_bind triple_mbind [OF update_handle_ok] triple_mret cached_ok_frame(6)) (auto intro: cached_ok_cache)
  show "triple (ok T Z own any_node) (online_call l (\<lambda>h f. mbind (on_inner (in_write_range I f off d)) (\<lambda>r.
       mbind (on_cache (ca_invalidate_node_memory K (ch_node h))) (\<lambda>_. mbind (update_handle l (wr_revision r) (wr_size r)) (\<lambda>_. mret r)))))
      (\<lambda>_. ok T Z own any_node) (\<lambda>_. ok T Z own any_node)"
    by (rule online_ok, rule unpinned, rule inner_bind)
      (auto intro!: put dest: truthfulD(13) [OF I] intro: op_frames cache_ops_ok)
  show "triple (ok T Z own any_node) (online_call l (\<lambda>h f. mbind (on_inner (in_allocate_file I f off len)) (\<lambda>r.
       mbind (on_cache (ca_invalidate_node_state K (ch_node h))) (\<lambda>_. mbind (update_handle l (wr_revision r) (wr_size r)) (\<lambda>_. mret r)))))
      (\<lambda>_. ok T Z own any_node) (\<lambda>_. ok T Z own any_node)"
    by (rule online_ok, rule unpinned, rule inner_bind)
      (auto intro!: put dest: truthfulD(14) [OF I] intro: op_frames cache_ops_ok)
qed

lemma copy_ok:
  assumes I: "truthful_remote T Z own I"
  shows "triple (ok T Z own any_node) (cfs_copy_file_range I K i ioff l off len) (\<lambda>_. ok T Z own any_node) (\<lambda>_. ok T Z own any_node)"
  unfolding cfs_copy_file_range_def
proof (rule pinned_bind, rule pinned_bind)
  fix g h assume h: "handle_ok Z own h"
  have sent: "triple (ok T Z own (pinned l (ch_node h))) (mbind (on_inner (in_copy_file_range I x ioff f off len)) (\<lambda>r.
      mbind (invalidate_cached_node K (ch_node h)) (\<lambda>_. mbind (update_handle l (wr_revision r) (wr_size r)) (\<lambda>_. mret r))))
      (\<lambda>_. ok T Z own any_node) (\<lambda>_. ok T Z own any_node)" if f: "own f = ch_node h" for x f
  proof (rule unpinned [where pin' = "pinned l (ch_node h)" and pin'' = "pinned l (ch_node h)"], rule inner_bind, goal_cases)
    case (1 r w w')
    have sz: "wr_size r = Z (at_revision (ch_node h) (wr_revision r))" using truthfulD(15) [OF I 1] f by simp
    show ?case
      unfolding invalidate_cached_node_def
      by (intro cache_bind triple_mbind [OF update_handle_ok [where Z = Z, OF sz]] triple_mret op_frames; assumption)
  qed (auto intro: op_frames)
  show "triple (ok T Z own (pinned l (ch_node h))) (mbind (mlift (require_online_handle g)) (\<lambda>x.
      mbind (mlift (require_online_handle h)) (\<lambda>f. mbind (on_inner (in_copy_file_range I x ioff f off len)) (\<lambda>r.
      mbind (invalidate_cached_node K (ch_node h)) (\<lambda>_. mbind (update_handle l (wr_revision r) (wr_size r)) (\<lambda>_. mret r))))))
      (\<lambda>_. ok T Z own any_node) (\<lambda>_. ok T Z own any_node)"
    using h by (intro lift_bind sent)
      (auto simp: require_online_handle_def ok_or_def handle_ok_def split: option.splits intro: unpin)
qed (auto intro: unpin)

lemma set_attributes_ok:
  assumes I: "truthful_remote T Z own I" and own: "own_handle (CfSetAttributes n l c) s" and s: "ok T Z own any_node s"
  shows "ok T Z own any_node (snd (cfs_set_attributes I K n l c s))"
proof -
  define pin where "pin = (case l of None \<Rightarrow> any_node | Some x \<Rightarrow> pinned x n)"
  have pinned: "ok T Z own pin s"
    using own s by (cases l) (auto simp: pin_def cached_ok_def pinned_def any_node_def split: option.splits)
  have mapped: "triple (ok T Z own pin) (case l of None \<Rightarrow> mret None | Some x \<Rightarrow> online_call x (\<lambda>_ f. mret (Some f)))
      (\<lambda>_. ok T Z own pin) (\<lambda>_. ok T Z own pin)"
    unfolding online_call_def
    by (intro option_cases triple_mret handle_bind [where R = "\<lambda>_. True"] lift_bind) auto
  have updated: "triple (ok T Z own pin) (case l of None \<Rightarrow> mret () | Some x \<Rightarrow> update_handle x (md_revision m) (md_size m))
      (\<lambda>_. ok T Z own pin) (\<lambda>_. ok T Z own pin)" if "meta_true Z (n, m)" for m
    using that by (cases l) (auto simp: pin_def meta_true_def intro!: triple_mret update_handle_ok)
  have "triple (ok T Z own pin) (cfs_set_attributes I K n l c) (\<lambda>_. ok T Z own pin) (\<lambda>_. ok T Z own pin)"
    unfolding cfs_set_attributes_def invalidate_cached_node_def
  proof (rule triple_mbind [OF mapped], rule inner_bind, goal_cases)
    case (1 f m w w')
    note m = truthfulD(5) [OF I 1]
    show ?case
      using m by (intro cache_bind triple_mbind [OF updated] triple_mret op_frames; assumption?) simp_all
  qed (auto intro: op_frames)
  from triple_snd [OF this pinned] show ?thesis by (rule unpin)
qed

lemma read_keeps:
  assumes "truthful_remote T Z own I"
  shows "triple (ok T Z own any_node) (cfs_read_range_versioned I K l off len) (\<lambda>_. ok T Z own any_node) (\<lambda>_. ok T Z own any_node)"
  unfolding cfs_read_range_versioned_def
  by (rule pinned_bind, rule triple_conseq [OF read_handle_ok [OF assms]]) auto

lemma fetch_task_ok:
  assumes I: "truthful_remote T Z own I" and s: "ok T Z own any_node s" and t: "task \<in> set (cd_tasks s)"
  shows "ok T Z own any_node (run_prefetch_task I K task timed_out s)"
proof -
  define p where "p = (if timed_out then (False, s)
    else let (r, t) = fetch_block I K (pt_inner task) (pt_revision task) (pt_block task) s in (isOk r, t))"
  have of_file: "rg_file (pt_block task) = at_revision (own (pt_inner task)) (pt_revision task)"
    using s t by (auto simp: cached_ok_def task_ok_def)
  obtain fetched s1 where p: "p = (fetched, s1)" by (metis prod.exhaust)
  have "triple (ok T Z own any_node) (fetch_block I K (pt_inner task) (pt_revision task) (pt_block task))
      (\<lambda>_. ok T Z own any_node) (\<lambda>_. ok T Z own any_node)"
    by (rule triple_conseq [OF fetch_block_ok [OF I of_file]]) auto
  from triple_snd [OF this s] have "ok T Z own any_node s1"
    using p s by (auto simp: p_def split: if_splits prod.splits)
  then have "ok T Z own any_node (modify_cached_handle (pt_logical task)
      (\<lambda>h. h\<lparr>ch_prefetch := complete (pt_stream task) fetched (ch_prefetch h)\<rparr>) s1)"
    by (rule modify_ok) simp
  moreover have "cd_tasks (modify_cached_handle l f s1) = cd_tasks s1" for l f
    by (simp add: modify_cached_handle_def split: option.splits)
  ultimately show ?thesis
    using set_remove1_subset [of task "cd_tasks s1"]
    by (auto simp: run_prefetch_task_def p_def [symmetric] p cached_ok_def)
qed

lemma refresh_ok:
  assumes I: "truthful_remote T Z own I" and s: "ok T Z own any_node s"
  shows "ok T Z own any_node (run_refresh I K node s)"
proof -
  have "triple (ok T Z own any_node) (mbind (on_inner (in_list_directory_snapshot I node)) (\<lambda>(revision, entries).
        mbind (on_cache (ca_store_snapshot K \<lparr>rk_node = node, rk_revision = revision\<rparr> entries)) (\<lambda>_.
        mbind (on_inner (in_get_metadata I node)) (\<lambda>metadata.
          if md_revision metadata = revision then on_cache (ca_store_metadata K metadata) else mret ()))))
      (\<lambda>_. ok T Z own any_node) (\<lambda>_. ok T Z own any_node)"
  proof (rule inner_bind, rule pair_cases, goal_cases)
    case (1 x w w' revision entries)
    have entries: "\<forall>x \<in> snapshot_metas entries. meta_true Z x"
      using 1 by (auto dest: truthfulD(9) [OF I])
    show ?case
      by (rule cache_bind, rule cache_steps(4) [OF _ cached_ok_cache entries], assumption, assumption, rule inner_bind)
        (auto intro!: triple_if cache_last triple_mret op_frames dest: truthfulD(4) [OF I])
  qed (auto intro: op_frames)
  from triple_snd [OF this s] show ?thesis by (simp add: run_refresh_def Let_def cached_ok_frame)
qed

lemma run_cached_op_ok:
  assumes I: "truthful_remote T Z own I" and "own_handle op s" and s: "ok T Z own any_node s"
  shows "ok T Z own any_node (run_cached_op I K op s)"
proof -
  note kept = plain_ops_ok created_ok [OF I] symlink_ok [OF I] read_link_ok [OF I] capabilities_ok stat_ok get_metadata_ok [OF I]
    snapshot_ok [OF I] view_ok [OF I] remove_rename_ok open_ok [OF I] create_file_ok [OF I] handle_queries_ok flush_sync_ok
    write_ops_ok [OF I] copy_ok [OF I] read_keeps [OF I]
  show ?thesis
    using assms(2) by (cases op) (simp_all only: run_cached_op.simps kept [THEN triple_snd, OF s] set_attributes_ok [OF I _ s])
qed

lemma reach_ok:
  assumes I: "truthful_remote T Z own I"
  shows "cached_reach I K s0 s \<Longrightarrow> ok T Z own any_node s0 \<Longrightarrow> ok T Z own any_node s"
  by (induction rule: cached_reach.induct)
    (simp_all add: run_cached_op_ok [OF I] fetch_task_ok [OF I] refresh_ok [OF I])

lemma reads_untorn:
  assumes "truthful_remote T Z own I" "good c" "coherent T (stored c)" "\<forall>x \<in> metas c. meta_true Z x"
    and "cached_new c w policy = Inr s0" "cached_reach I K s0 s" "map_of (cd_handles s) l = Some h"
    and "cfs_read_range_versioned I K l offset len s = (Inr r, t)"
  shows "reads_as T Z (ch_node h) offset len r"
proof -
  have "ok T Z own any_node s0"
    using assms(2-5) by (auto simp: cached_new_def Let_def cached_ok_def cache_ok_def split: if_splits)
  from reach_ok [OF assms(1,6) this] show ?thesis
    by (rule read_ok [OF assms(1) _ assms(7,8)])
qed

end

subsection \<open>Reads are never torn\<close>

text \<open>C10. Whatever operations, ended speculative fetches (run or timed out) and directory refreshes came
  before, a read through a handle that succeeds returns exactly the bytes of one revision of
  its node, clipped to the size of that revision, over a file system below that serves true
  bytes and sizes of the revisions it names, and \<^verbatim>\<open>MemoryCache\<close>.\<close>
theorem cached_read_untorn:
  assumes "truthful_remote T Z own I" "cached_new mem_empty w policy = Inr s0" "cached_reach I memory_fs_cache s0 s"
    and "map_of (cd_handles s) l = Some h"
    and "cfs_read_range_versioned I memory_fs_cache l offset len s = (Inr r, s')"
  shows "rr_data r = range_of (T (at_revision (ch_node h) (rr_revision r))) offset
    (min len (Z (at_revision (ch_node h) (rr_revision r)) - offset))"
proof -
  have "mem_good mem_empty" "coherent T (set (mc_ranges mem_empty))" "\<forall>x \<in> set (mc_metadata mem_empty). meta_true Z x"
    by (simp_all add: mem_good_def mem_empty_def coherent_def)
  from memf.reads_untorn [OF assms(1) this assms(2-5)] show ?thesis by (simp add: reads_as_def)
qed

lemma demo_reached: "cached_reach demo_files memory_fs_cache demo_cached demo_touched"
proof -
  let ?s = "demo_cached\<lparr>cd_handles := [(1, demo_handle_at 2)], cd_fresh := 2\<rparr>"
  have "cached_reach demo_files memory_fs_cache demo_cached ?s"
    using reach_op [OF reach_start, of "CfOpenFile 4 READ_ONLY" demo_cached demo_files memory_fs_cache] by (simp only: demo_open own_handle.simps)
  from reach_op [OF this, of "CfSetAttributes 4 None demo_changes"] show ?thesis
    by (simp only: demo_touch own_handle.simps demo_touched_def)
qed

theorem cached_read_untorn_witness:
  "\<exists>r s'. cfs_read_range_versioned demo_files memory_fs_cache 1 6 5 demo_touched = (Inr r, s') \<and>
     rr_revision r = 3 \<and> rr_data r = range_of (demo_byte (at_revision 4 3)) 6 5"
proof -
  obtain s' where s': "cfs_read_range_versioned demo_files memory_fs_cache 1 6 5 demo_touched =
      (Inr \<lparr>rr_revision = 3, rr_data = [106, 107, 108, 109, 110]\<rparr>, s')" using demo_read by blast
  have h: "map_of (cd_handles demo_touched) 1 = Some (demo_handle_at 2)" by (simp add: demo_touched_def)
  from cached_read_untorn [OF demo_truthful demo_cached_new demo_reached h s'] s' show ?thesis
    by (simp add: demo_handle_at_def)
qed

end
