(* ===== verification/Cached_Budget.thy ===== *)
theory Cached_Budget
  imports Demo_Files Cached_Reads
begin

text \<open>
  The read-ahead budget of \<^verbatim>\<open>CachedFilesystem\<close>: slots and permits are neither lost nor multiplied over
  any sequence of operations and ended tasks, and the speculative bytes in flight stay below
  the ceiling of the policy.
\<close>

subsection \<open>Operations that leave the budget alone\<close>

type_synonym budget = "cache_policy \<times> usize \<times> u32 \<times> u32 \<times> prefetch_task list"

definition budget_of :: "('c, 'w) cached \<Rightarrow> budget" where
  "budget_of s = (cd_policy s, cd_slots s, cd_permits s, cd_permit_total s, cd_tasks s)"

lemma budget_frame [simp]:
  "budget_of (s\<lparr>cd_world := w\<rparr>) = budget_of s" "budget_of (s\<lparr>cd_cache := c\<rparr>) = budget_of s"
  "budget_of (s\<lparr>cd_capabilities := cp\<rparr>) = budget_of s" "budget_of (s\<lparr>cd_refreshing := rf\<rparr>) = budget_of s"
  "budget_of (s\<lparr>cd_parents := pa\<rparr>) = budget_of s" "budget_of (s\<lparr>cd_handles := hs\<rparr>) = budget_of s"
  "budget_of (s\<lparr>cd_fresh := fr\<rparr>) = budget_of s" "budget_of (modify_cached_handle l f s) = budget_of s"
  by (simp_all add: budget_of_def modify_cached_handle_def split: option.splits)

abbreviation leaves :: "budget \<Rightarrow> ('c, 'w, 'a) cdop \<Rightarrow> bool" where
  "leaves b m \<equiv> triple (\<lambda>s. budget_of s = b) m (\<lambda>_ s. budget_of s = b) (\<lambda>_ s. budget_of s = b)"

lemma leaves_cases:
  assumes "leaves b m" "\<And>x. leaves b (g x)" "\<And>e. leaves b (h e)"
  shows "leaves b (\<lambda>s. case m s of (Inl e, t) \<Rightarrow> h e t | (Inr x, t) \<Rightarrow> g x t)"
  by (rule triple_cases [OF assms])

lemma leaves_ask: "leaves b (ask_cache g)"
  by (auto simp: triple_def ask_cache_def split: prod.splits)

lemma leaves_handle: "leaves b (get_cached_handle l)"
  by (auto simp: triple_def get_cached_handle_def split: sum.splits)

lemma leaves_remember: "leaves b (remember_handle n i r z)"
  by (auto simp: triple_def remember_handle_def Let_def)

lemma leaves_state: "leaves b (\<lambda>s. (f s, s))"
  by (auto simp: triple_def split: sum.splits)

lemma leaves_bind: "leaves b m \<Longrightarrow> (\<And>x. leaves b (f x)) \<Longrightarrow> leaves b (mbind m f)"
  by (rule triple_mbind)

lemma leaves_basic:
  "leaves b (on_inner a)" "leaves b (on_cache g)" "leaves b (mret x)" "leaves b (mfail e)" "leaves b (mlift r)"
  "leaves b (update_handle l rv z)" "leaves b (set_parent n p)" "leaves b (drop_parent n)"
  by (auto simp: triple_def on_inner_def on_cache_def mret_def mfail_def mlift_def update_handle_def mput_def set_parent_def
      drop_parent_def split: prod.splits sum.splits)

lemma leaves_put: "(\<And>s. budget_of (g s) = budget_of s) \<Longrightarrow> leaves b (mput g)"
  by (simp add: triple_def mput_def)

lemma leaves_offline: "leaves b m \<Longrightarrow> (\<And>x. leaves b (f x)) \<Longrightarrow> leaves b g \<Longrightarrow> leaves b (or_offline m f g)"
  by (rule offline_cases)

lemma leaves_pair: "(\<And>x y. leaves b (f x y)) \<Longrightarrow> leaves b (case p of (x, y) \<Rightarrow> f x y)"
  by (rule pair_cases)

lemmas leaves_rules = leaves_bind leaves_basic leaves_ask leaves_handle leaves_remember leaves_state leaves_offline leaves_pair
  option_cases triple_if

lemma leaves_parts:
  "leaves b (cached_metadata K n)" "leaves b (cache_metadata K m)" "leaves b (offline_directory K n)"
  "leaves b (refresh_directory_in_background n)" "leaves b (store_target K m n d)" "leaves b (cached_range K h off len)"
  unfolding cached_metadata_def cache_metadata_def offline_directory_def refresh_directory_in_background_def store_target_def
    cached_range_def
  by (intro leaves_rules leaves_put; simp?)+

lemma leaves_child: "leaves b (cached_child K p x)"
proof -
  have "leaves b (\<lambda>s. case offline_directory K p s of (Inl e, t) \<Rightarrow> (Inr None, t)
      | (Inr y, t) \<Rightarrow> (Inr (map_option de_node (List.find (\<lambda>e. de_name e = x) (snd y))), t))"
    by (rule leaves_cases) (intro leaves_parts leaves_state)+
  then show ?thesis by (simp add: triple_def cached_child_def split_beta cong: sum.case_cong)
qed

lemma leaves_online: "(\<And>h f. leaves b (g h f)) \<Longrightarrow> leaves b (online_call l g)"
  unfolding online_call_def by (intro leaves_rules)

lemma leaves_read_link: "leaves b (cfs_read_link I K n)"
proof -
  have "leaves b (\<lambda>s. case on_inner (in_get_metadata I n) s of (Inl _, s1) \<Rightarrow> (Inr d, s1)
      | (Inr m, s1) \<Rightarrow> mbind (cache_metadata K m) (\<lambda>m. mbind (store_target K m n d) (\<lambda>_. mret d)) s1)" for d
    by (rule leaves_cases) (intro leaves_rules leaves_parts)+
  then show ?thesis unfolding cfs_read_link_def by (intro leaves_rules leaves_parts)
qed

lemma leaves_open: "leaves b (cfs_open_file_with_options I K n opts)"
proof -
  have "leaves b (\<lambda>s. if is_offline e \<and> oo_access opts = ReadOnly \<and> \<not> oo_truncate opts \<and> \<not> oo_append opts
      then mbind (cached_metadata K n) (\<lambda>m. remember_handle n None (md_revision m) (md_size m)) s else (Inl e, s))" for e
    by (rule triple_cond; rule triple_conseq [where P' = "\<lambda>s. budget_of s = b" and Q' = "\<lambda>_ s. budget_of s = b" and E' = "\<lambda>_ s. budget_of s = b"])
      (auto intro: leaves_rules leaves_parts)
  from leaves_cases [OF leaves_basic(1) leaves_remember this] show ?thesis
    by (simp add: triple_def cfs_open_file_with_options_def)
qed

lemma leaves_snapshot: "leaves b (cfs_list_directory_snapshot I K n)"
proof -
  have "leaves b (\<lambda>s. case offline_directory K n s of
      (Inl _, s1) \<Rightarrow> or_offline (on_inner (in_list_directory_snapshot I n))
        (\<lambda>(revision, entries). mbind (on_cache (ca_store_snapshot K \<lparr>rk_node = n, rk_revision = revision\<rparr> entries))
          (\<lambda>_. mret (revision, entries))) (offline_directory K n) s1
    | (Inr x, s1) \<Rightarrow> mbind (refresh_directory_in_background n) (\<lambda>_. mret x) s1)"
    by (rule leaves_cases) (intro leaves_rules leaves_parts)+
  then show ?thesis by (simp add: triple_def cfs_list_directory_snapshot_def)
qed

lemmas leaves_special = leaves_child leaves_online leaves_read_link leaves_open leaves_snapshot leaves_parts

lemmas other_ops = cfs_ping_def cfs_capabilities_def cfs_stat_filesystem_def cfs_get_metadata_def cfs_list_directory_view_def
  cfs_create_file_def cfs_create_directory_def cfs_create_symlink_def cfs_create_hard_link_def cfs_create_special_node_def
  cfs_remove_node_def cfs_rename_node_def cfs_set_attributes_def cfs_write_range_def cfs_flush_file_def cfs_sync_file_def
  cfs_sync_directory_def cfs_allocate_file_def cfs_get_xattr_def cfs_set_xattr_def cfs_list_xattrs_def cfs_remove_xattr_def
  cfs_copy_file_range_def cfs_seek_file_def cfs_safe_ioctl_def cfs_map_block_def cfs_exchange_data_def cfs_set_volume_name_def
  cfs_forget_nodes_def cfs_get_lock_def cfs_set_lock_def cfs_close_file_def invalidate_cached_node_def invalidate_cached_node_memory_def

lemma leaves_keep: "leaves (budget_of s) m \<Longrightarrow> budget_of (snd (m s)) = budget_of s"
  by (erule triple_snd) simp

lemma leaves_all:
  "leaves b (cfs_ping I n_aa)"
  "leaves b (cfs_capabilities I)"
  "leaves b (cfs_stat_filesystem I K)"
  "leaves b (cfs_get_metadata I K n_ad)"
  "leaves b (cfs_list_directory_view I K n_ae opts_ae)"
  "leaves b (cfs_create_file I K p_af n_af m_af opts_af)"
  "leaves b (cfs_create_directory I K p_ag n_ag m_ag)"
  "leaves b (cfs_create_symlink I K p_ah n_ah t_ah)"
  "leaves b (cfs_create_hard_link I K n_ai p_ai m_ai)"
  "leaves b (cfs_create_special_node I K p_aj n_aj k_aj m_aj ma_aj mi_aj)"
  "leaves b (cfs_remove_node I K p_ak n_ak d_ak)"
  "leaves b (cfs_rename_node I K p_al n_al pq_al nq_al m_al)"
  "leaves b (cfs_set_attributes I K n_am h_am c_am)"
  "leaves b (cfs_write_range I K h_an off_an d_an)"
  "leaves b (cfs_flush_file I h_ao own_ao)"
  "leaves b (cfs_sync_file I h_ap d_ap)"
  "leaves b (cfs_sync_directory I n_aq)"
  "leaves b (cfs_allocate_file I K h_ar off_ar len_ar)"
  "leaves b (cfs_get_xattr I n_as x_as off_as len_as)"
  "leaves b (cfs_set_xattr I K n_at x_at v_at m_at pos_at)"
  "leaves b (cfs_list_xattrs I n_au)"
  "leaves b (cfs_remove_xattr I K n_av x_av)"
  "leaves b (cfs_copy_file_range I K i_aw io_aw ou_aw oo_aw len_aw)"
  "leaves b (cfs_seek_file I h_ax off_ax wh_ax)"
  "leaves b (cfs_safe_ioctl I h_ay x_ay)"
  "leaves b (cfs_map_block I n_az bs_az b_az)"
  "leaves b (cfs_exchange_data I K p_ba n_ba pq_ba nq_ba opts_ba)"
  "leaves b (cfs_set_volume_name I n_bb)"
  "leaves b (cfs_forget_nodes I ns_bc)"
  "leaves b (cfs_get_lock I h_bd l_bd)"
  "leaves b (cfs_set_lock I h_be l_be wt_be)"
  "leaves b (cfs_close_file I h_bf)"
  unfolding other_ops by (intro leaves_rules leaves_special leaves_put; simp)+

lemma op_leaves:
  assumes "\<And>l off len. op \<noteq> CfReadRange l off len"
  shows "budget_of (run_cached_op I K op s) = budget_of s"
  by (cases op) (simp_all only: run_cached_op.simps leaves_all [THEN leaves_keep] leaves_special [THEN leaves_keep] assms)

subsection \<open>The bookkeeping of permits\<close>

definition in_flight_limit :: "cache_policy \<Rightarrow> u64" where
  "in_flight_limit policy = min (cp_read_ahead_max_bytes policy) PREFETCH_MAX_INFLIGHT_BYTES"

definition in_flight_ok :: "budget \<Rightarrow> bool" where
  "in_flight_ok = (\<lambda>(policy, slots, permits, permit_total, tasks).
     slots + length tasks = PREFETCH_MAX_CONCURRENT_FETCHES \<and> permits + sum_list (map pt_units tasks) = permit_total \<and>
     permit_total = max 1 (min (in_flight_limit policy div PREFETCH_PERMIT_UNIT) (2 ^ 20)) \<and>
     cp_block_size policy \<le> CLIENT_READ_LIMIT \<and>
     (\<forall>t \<in> set tasks. pt_units t = prefetch_permits_for (rg_length (pt_block t)) permit_total \<and>
        rg_length (pt_block t) \<le> in_flight_limit policy))"

lemma permits_pos: "1 \<le> prefetch_permits_for len n"
  by (simp add: prefetch_permits_for_def Let_def)

lemma permits_cover:
  assumes "len \<le> PREFETCH_MAX_INFLIGHT_BYTES" "prefetch_permits_for len n < n"
  shows "len \<le> prefetch_permits_for len n * PREFETCH_PERMIT_UNIT"
proof -
  have unit: "0 < PREFETCH_PERMIT_UNIT" by (simp add: PREFETCH_PERMIT_UNIT_def)
  have "div_ceil len PREFETCH_PERMIT_UNIT \<le> U32_MAX"
    using assms(1) by (simp add: div_ceil_def PREFETCH_PERMIT_UNIT_def PREFETCH_MAX_INFLIGHT_BYTES_def U32_MAX_def split: if_splits)
  then have "div_ceil len PREFETCH_PERMIT_UNIT \<le> prefetch_permits_for len n"
    using assms(2) by (auto simp: prefetch_permits_for_def Let_def min_def max_def split: if_splits)
  then have "div_ceil len PREFETCH_PERMIT_UNIT * PREFETCH_PERMIT_UNIT \<le> prefetch_permits_for len n * PREFETCH_PERMIT_UNIT"
    by (rule mult_le_mono1)
  with div_ceil_bounds(1) [OF unit, of len] show ?thesis by linarith
qed

lemma sole_task:
  assumes "t \<in> set tasks" "sum_list (map f tasks) \<le> f t" "\<And>x. x \<in> set tasks \<Longrightarrow> 1 \<le> (f x :: nat)"
  shows "tasks = [t]"
proof -
  obtain xs ys where split: "tasks = xs @ t # ys" using assms(1) by (auto dest: split_list)
  have none: "zs = []" if "sum_list (map f zs) = 0" "set zs \<subseteq> set tasks" for zs
    using that assms(3) by (cases zs) force+
  from assms(2) split have "sum_list (map f xs) = 0" "sum_list (map f ys) = 0" by simp_all
  with none split show ?thesis by (metis append_Nil append_is_Nil_conv set_append set_subset_Cons Un_upper1 Un_upper2 subset_trans)
qed

lemma in_flight_bytes:
  assumes "in_flight_ok (policy, slots, permits, permit_total, tasks)"
  shows "sum_list (map (rg_length \<circ> pt_block) tasks) \<le> in_flight_limit policy"
proof -
  have total_units: "sum_list (map pt_units tasks) \<le> permit_total"
    and total_is: "permit_total = max 1 (min (in_flight_limit policy div PREFETCH_PERMIT_UNIT) (2 ^ 20))"
    and units: "\<And>t. t \<in> set tasks \<Longrightarrow> pt_units t = prefetch_permits_for (rg_length (pt_block t)) permit_total"
    and lengths: "\<And>t. t \<in> set tasks \<Longrightarrow> rg_length (pt_block t) \<le> in_flight_limit policy"
    using assms unfolding in_flight_ok_def by auto
  show ?thesis
  proof (cases "\<exists>t \<in> set tasks. permit_total \<le> pt_units t")
    case True
    then obtain t where t: "t \<in> set tasks" "permit_total \<le> pt_units t" by blast
    have "tasks = [t]"
      by (rule sole_task [where f = pt_units, OF t(1)]) (use total_units t(2) units in \<open>simp_all add: permits_pos [unfolded One_nat_def]\<close>)
    then show ?thesis using lengths by simp
  next
    case False
    have each: "rg_length (pt_block t) \<le> pt_units t * PREFETCH_PERMIT_UNIT" if "t \<in> set tasks" for t
      using permits_cover [of "rg_length (pt_block t)" permit_total] lengths [OF that] units [OF that] False that
      by (auto simp: in_flight_limit_def not_le)
    have "sum_list (map (rg_length \<circ> pt_block) tasks) \<le> sum_list (map (\<lambda>t. pt_units t * PREFETCH_PERMIT_UNIT) tasks)"
      by (rule sum_list_mono) (simp add: each)
    also have "\<dots> = sum_list (map pt_units tasks) * PREFETCH_PERMIT_UNIT" by (simp add: sum_list_mult_const)
    also have "\<dots> \<le> permit_total * PREFETCH_PERMIT_UNIT" using total_units by (rule mult_le_mono1)
    finally have sum: "sum_list (map (rg_length \<circ> pt_block) tasks) \<le> permit_total * PREFETCH_PERMIT_UNIT" .
    show ?thesis
    proof (cases tasks)
      case (Cons t ts)
      then have "1 < permit_total"
        using False units [of t] permits_pos [of "rg_length (pt_block t)" permit_total] by (auto simp: not_le)
      then have "permit_total \<le> in_flight_limit policy div PREFETCH_PERMIT_UNIT" using total_is by linarith
      then have "permit_total * PREFETCH_PERMIT_UNIT \<le> in_flight_limit policy"
        by (meson div_times_less_eq_dividend le_trans mult_le_mono1)
      with sum show ?thesis by linarith
    qed simp
  qed
qed

lemma grant_spec:
  assumes "grant_permits permit_total blocks slots permits = (granted, denied, slots', permits')"
  shows "slots = slots' + length granted \<and> permits = permits' + sum_list (map snd granted) \<and>
    (\<forall>(b, u) \<in> set granted. u = prefetch_permits_for (rg_length b) permit_total)"
  using assms
  by (induction permit_total blocks slots permits arbitrary: granted denied slots' permits' rule: grant_permits.induct)
    (fastforce simp: Let_def split: if_splits prod.splits)+

lemma in_flight_starts:
  assumes "cached_new c w policy = Inr s"
  shows "in_flight_ok (budget_of s)" "cd_policy s = policy"
  using assms by (auto simp: cached_new_def Let_def budget_of_def in_flight_ok_def in_flight_limit_def split: if_splits)

lemma in_flight_grants:
  assumes "in_flight_ok (policy, slots, permits, permit_total, tasks)"
    and "grant_permits permit_total blocks slots permits = (granted, denied, slots', permits')"
    and "\<And>b. b \<in> set (map fst granted) \<Longrightarrow> rg_length b \<le> in_flight_limit policy"
    and "map (\<lambda>t. (pt_block t, pt_units t)) new = granted"
  shows "in_flight_ok (policy, slots', permits', permit_total, tasks @ new)"
  using assms(1,3) grant_spec [OF assms(2)] unfolding in_flight_ok_def assms(4) [symmetric]
  by (force simp: comp_def)

lemma granted_blocks: "set (map fst (fst (grant_permits permit_total blocks slots permits))) \<subseteq> set blocks"
  using grant_subset by auto

lemma in_flight_prefetch:
  assumes "in_flight_ok (budget_of s)" "granularity \<le> cp_block_size (cd_policy s)"
  shows "in_flight_ok (budget_of (snd (maybe_prefetch l h f offset returned elapsed granularity s)))"
proof (cases "granularity = 0 \<or> cp_read_ahead_max_bytes (cd_policy s) div granularity = 0")
  case True
  then show ?thesis using assms(1) by (auto simp: maybe_prefetch_def mput_def)
next
  case False
  let ?cap = "cp_read_ahead_max_bytes (cd_policy s) div granularity"
  obtain i blocks c where observed: "observe (ch_node h) offset returned (ch_revision h) (ch_size h) elapsed granularity ?cap
      (ch_prefetch h) = ((i, blocks), c)" by (metis prod.exhaust)
  obtain granted denied slots permits where grant: "grant_permits (cd_permit_total s) blocks (cd_slots s) (cd_permits s) =
      (granted, denied, slots, permits)" by (metis prod.exhaust)
  have "granularity \<le> cp_read_ahead_max_bytes (cd_policy s)"
    using False by (meson div_less not_le)
  moreover have "granularity \<le> PREFETCH_MAX_INFLIGHT_BYTES"
    using assms by (simp add: in_flight_ok_def budget_of_def CLIENT_READ_LIMIT_def PREFETCH_MAX_INFLIGHT_BYTES_def)
  ultimately have limit: "granularity \<le> in_flight_limit (cd_policy s)" by (simp add: in_flight_limit_def)
  have blocks: "rg_length b \<le> in_flight_limit (cd_policy s)" if "b \<in> set (map fst granted)" for b
    using that granted_blocks [of "cd_permit_total s" blocks "cd_slots s" "cd_permits s"] limit
      observe_revision [of b "ch_node h" offset returned "ch_revision h" "ch_size h" elapsed granularity ?cap "ch_prefetch h"]
    by (auto simp: grant observed of_revision_def)
  let ?new = "map (\<lambda>(block, units). \<lparr>pt_logical = l, pt_inner = f, pt_revision = ch_revision h, pt_block = block,
      pt_stream = i, pt_units = units\<rparr>) granted"
  have frame: "cd_policy (modify_cached_handle l g s) = cd_policy s" "cd_permit_total (modify_cached_handle l g s) = cd_permit_total s" for g
    by (simp_all add: modify_cached_handle_def split: option.splits)
  have "budget_of (snd (maybe_prefetch l h f offset returned elapsed granularity s)) =
      (cd_policy s, slots, permits, cd_permit_total s, cd_tasks s @ ?new)"
    using False by (simp add: maybe_prefetch_def mput_def observed grant budget_of_def frame)
  then show ?thesis
    using in_flight_grants [OF assms(1) [unfolded budget_of_def] grant blocks, where new = ?new]
    by (simp add: comp_def split_beta)
qed

lemma leaves_fetch_block: "leaves b (fetch_block I K f r block)"
proof -
  have "leaves b (load_block I K f r block)" unfolding load_block_def by (intro leaves_rules)
  then show ?thesis by (auto simp: triple_def fetch_block_def split_beta split: prod.splits sum.splits)
qed

lemma fetch_block_budget [simp]: "budget_of (snd (fetch_block I K f r block s)) = budget_of s"
  by (rule leaves_keep [OF leaves_fetch_block])

lemma fetch_all_budget [simp]: "budget_of (snd (fetch_all I K f r blocks s)) = budget_of s"
  by (induction blocks arbitrary: s) (simp_all add: Let_def split_beta)

definition flying :: "cache_policy \<Rightarrow> ('c, 'w) cached \<Rightarrow> bool" where
  "flying policy s \<longleftrightarrow> in_flight_ok (budget_of s) \<and> fst (budget_of s) = policy"

abbreviation keeps_flying :: "cache_policy \<Rightarrow> ('c, 'w, 'a) cdop \<Rightarrow> bool" where
  "keeps_flying policy m \<equiv> triple (flying policy) m (\<lambda>_. flying policy) (\<lambda>_. flying policy)"

lemma flying_budget: "budget_of t = budget_of s \<Longrightarrow> flying policy s \<Longrightarrow> flying policy t"
  by (simp add: flying_def)

lemma flying_policy: "flying policy s \<Longrightarrow> cd_policy s = policy"
  by (simp add: flying_def budget_of_def)

lemma keeps_leaves:
  assumes "\<And>b. leaves b m"
  shows "keeps_flying policy m"
proof (rule tripleI)
  show "flying policy t" if "flying policy s" "m s = (Inr x, t)" for s x t
    using triple_Inr [OF assms refl that(2)] that(1) by (rule flying_budget)
  show "flying policy t" if "flying policy s" "m s = (Inl e, t)" for s e t
    using triple_Inl [OF assms refl that(2)] that(1) by (rule flying_budget)
qed

lemma keeps_prefetch:
  assumes "granularity \<le> cp_block_size policy"
  shows "keeps_flying policy (maybe_prefetch l h f offset returned elapsed granularity :: ('c, 'w, unit) cdop)"
proof -
  obtain g :: "('c, 'w) cached \<Rightarrow> ('c, 'w) cached" where g: "maybe_prefetch l h f offset returned elapsed granularity = mput g"
    by (simp add: maybe_prefetch_def)
  have kept: "cd_policy (snd (maybe_prefetch l h f offset returned elapsed granularity s)) = cd_policy s" for s :: "('c, 'w) cached"
    by (simp add: maybe_prefetch_def mput_def Let_def split_beta modify_cached_handle_def split: option.splits)
  have bounded: "in_flight_ok (budget_of (snd (maybe_prefetch l h f offset returned elapsed granularity s)))"
    if "flying policy s" for s :: "('c, 'w) cached"
    by (rule in_flight_prefetch) (use that assms flying_policy [OF that] in \<open>simp_all add: flying_def\<close>)
  have "flying policy (g s)" if "flying policy s" for s :: "('c, 'w) cached"
    using kept [of s] bounded [OF that] flying_policy [OF that] by (simp add: g flying_def mput_def budget_of_def)
  then show ?thesis unfolding g by (rule triple_mput)
qed

lemma keeps_online:
  fixes I :: "'w remote_fs" and K :: "'c fs_cache"
  shows "keeps_flying policy (read_online I K l h f offset len)"
proof (unfold triple_def, intro allI impI)
  fix s :: "('c, 'w) cached" assume s: "flying policy s"
  have small: "demand_block_size policy len \<le> cp_block_size policy" by (simp add: demand_block_size_def)
  have prefetched: "keeps_flying policy (mbind (maybe_prefetch l h f offset n e (demand_block_size policy len)) (\<lambda>_. mret x))"
    for n e and x :: range_read
    by (rule triple_mbind [OF keeps_prefetch [OF small]]) (rule triple_mret)
  have covered: "keeps_flying policy (mbind (cached_range K h offset len) (\<lambda>hit. case hit of
      Some data \<Rightarrow> mret \<lparr>rr_revision = ch_revision h, rr_data = data\<rparr>
    | None \<Rightarrow> mfail e))" for e
    by (rule keeps_leaves) (intro leaves_rules leaves_parts)
  note policy = flying_policy [OF s]
  show "case read_online I K l h f offset len s of (Inl e, t) \<Rightarrow> flying policy t | (Inr x, t) \<Rightarrow> flying policy t"
  proof (cases "\<exists>blocks. blocks_for policy h offset len = Inr blocks \<and> blocks \<noteq> []")
    case True
    then obtain blocks where blocks: "blocks_for policy h offset len = Inr blocks" "blocks \<noteq> []" by blast
    obtain results s1 where fetched: "fetch_all I K f (ch_revision h) blocks s = (results, s1)" by (metis prod.exhaust)
    have s1: "flying policy s1"
      using fetch_all_budget [of I K f "ch_revision h" blocks s] s by (auto simp: fetched intro: flying_budget)
    show ?thesis
      using s1 tripleD [OF prefetched s1] tripleD [OF covered s1]
      by (simp add: read_online_def policy blocks fetched split: sum.split option.split)
  qed (use s in \<open>auto simp: read_online_def policy split: sum.splits\<close>)
qed

lemma keeps_retry: "keeps_flying policy (read_retry left I K l h f offset len)"
proof (induction left arbitrary: h)
  case 0
  then show ?case by (simp add: keeps_online)
next
  case (Suc left)
  let ?again = "mbind (on_inner (in_get_metadata I (ch_node h))) (\<lambda>metadata.
         mbind (on_cache (ca_store_metadata K metadata)) (\<lambda>_.
         mbind (update_handle l (md_revision metadata) (md_size metadata)) (\<lambda>_.
           read_retry left I K l (h\<lparr>ch_revision := md_revision metadata, ch_size := md_size metadata\<rparr>) f offset len)))"
  have again: "keeps_flying policy ?again"
    by (intro triple_mbind [OF keeps_leaves [OF leaves_basic(1)]] triple_mbind [OF keeps_leaves [OF leaves_basic(2)]]
        triple_mbind [OF keeps_leaves [OF leaves_basic(6)]] Suc.IH)
  have "keeps_flying policy (\<lambda>s. case read_online I K l h f offset len s of
      (Inl e, t) \<Rightarrow> (if e = CeStaleRevision then ?again t else (Inl e, t)) | (Inr x, t) \<Rightarrow> (Inr x, t))"
  proof (rule triple_cases [OF keeps_online])
    show "keeps_flying policy (\<lambda>t. if e = CeStaleRevision then ?again t else (Inl e, t))" for e
      using again by (cases "e = CeStaleRevision") (simp_all add: triple_stop)
  qed (simp add: triple_done)
  moreover have "read_retry (Suc left) I K l h f offset len = (\<lambda>s. case read_online I K l h f offset len s of
      (Inl e, t) \<Rightarrow> (if e = CeStaleRevision then ?again t else (Inl e, t)) | (Inr x, t) \<Rightarrow> (Inr x, t))"
    by (auto simp: fun_eq_iff split: prod.splits sum.splits client_error.splits)
  ultimately show ?case by simp
qed

lemma keeps_read:
  fixes I :: "'w remote_fs" and K :: "'c fs_cache"
  shows "keeps_flying policy (cfs_read_range_versioned I K l offset len)"
  unfolding cfs_read_range_versioned_def
proof (intro triple_mbind [OF keeps_leaves [OF leaves_handle]] triple_if)
  fix h
  have "keeps_flying policy (mbind (cached_range K h offset len :: ('c, 'w, bytes option) cdop) (\<lambda>hit.
      mlift (ebind (ok_or CeOfflineCacheMiss hit) (\<lambda>data. Inr \<lparr>rr_revision = ch_revision h, rr_data = data\<rparr>))))"
    by (rule keeps_leaves) (intro leaves_rules leaves_parts)
  then show "keeps_flying policy (case ch_inner h of
      None \<Rightarrow> mbind (cached_range K h offset len) (\<lambda>hit.
        mlift (ebind (ok_or CeOfflineCacheMiss hit) (\<lambda>data. Inr \<lparr>rr_revision = ch_revision h, rr_data = data\<rparr>)))
    | Some f \<Rightarrow> read_retry STALE_REVISION_RETRIES I K l h f offset len)"
    by (simp add: keeps_retry split: option.split)
qed (rule triple_mfail)

lemma flying_op: "flying policy s \<Longrightarrow> flying policy (run_cached_op I K op s)"
proof (cases "\<exists>l off len. op = CfReadRange l off len")
  case True
  assume "flying policy s"
  with True show ?thesis by (auto intro: triple_snd [OF keeps_read])
next
  case False
  assume "flying policy s"
  with False op_leaves [of op I K s] show ?thesis by (auto intro: flying_budget)
qed

lemma in_flight_ends:
  assumes "in_flight_ok (policy, slots, permits, permit_total, tasks)" "task \<in> set tasks"
  shows "in_flight_ok (policy, slots + 1, permits + pt_units task, permit_total, remove1 task tasks)"
proof -
  have "length tasks = Suc (length (remove1 task tasks))"
    using assms(2) by (metis One_nat_def Suc_pred length_pos_if_in_set length_remove1)
  moreover have "sum_list (map pt_units tasks) = pt_units task + sum_list (map pt_units (remove1 task tasks))"
    by (rule sum_list_map_remove1 [OF assms(2)])
  ultimately show ?thesis
    using assms(1) set_remove1_subset [of task tasks] unfolding in_flight_ok_def by auto
qed

lemma flying_fetch:
  assumes "flying policy s" "task \<in> set (cd_tasks s)"
  shows "flying policy (run_prefetch_task I K task timed_out s)"
proof -
  obtain ok s1 where ran: "(if timed_out then (False, s)
      else let (r, t) = fetch_block I K (pt_inner task) (pt_revision task) (pt_block task) s in (isOk r, t)) = (ok, s1)"
    by (metis prod.exhaust)
  then have "budget_of s1 = budget_of s"
    using fetch_block_budget [of I K "pt_inner task" "pt_revision task" "pt_block task" s] by (auto simp: Let_def split_beta split: if_splits)
  moreover have "budget_of (run_prefetch_task I K task timed_out s) =
      (cd_policy s1, cd_slots s1 + 1, cd_permits s1 + pt_units task, cd_permit_total s1, remove1 task (cd_tasks s1))"
    by (simp add: run_prefetch_task_def ran budget_of_def modify_cached_handle_def split: option.split)
  ultimately show ?thesis
    using assms in_flight_ends [of "cd_policy s" "cd_slots s" "cd_permits s" "cd_permit_total s" "cd_tasks s" task]
    by (auto simp: flying_def budget_of_def)
qed

lemma flying_refresh: "flying policy s \<Longrightarrow> flying policy (run_refresh I K n s)"
proof -
  assume s: "flying policy s"
  have "leaves b (mbind (on_inner (in_list_directory_snapshot I n)) (\<lambda>(revision, entries).
        mbind (on_cache (ca_store_snapshot K \<lparr>rk_node = n, rk_revision = revision\<rparr> entries)) (\<lambda>_.
        mbind (on_inner (in_get_metadata I n)) (\<lambda>metadata.
          if md_revision metadata = revision then on_cache (ca_store_metadata K metadata) else mret ()))))" for b
    by (intro leaves_rules)
  from flying_budget [OF leaves_keep [OF this] s] show ?thesis
    by (simp add: run_refresh_def Let_def flying_def)
qed

lemma flying_reachable:
  assumes "cached_reach I K s0 s" "flying policy s0"
  shows "flying policy s"
  using assms by induction (auto intro: flying_op flying_fetch flying_refresh)

text \<open>C38. Whatever the file system below and the cache do, in every state of a caching file system
  that operations, ended speculative fetches and directory refreshes reach, each of the eight slots
  is free or held by one running fetch, each permit is free or held by one running fetch, and the bytes
  all running speculative fetches have asked for stay within the smaller of the policy's read-ahead
  limit and 32 MiB.\<close>
theorem read_ahead_in_flight_bounded:
  assumes "cached_new cache w policy = Inr s0" "cached_reach I K s0 s"
  shows "cd_slots s + length (cd_tasks s) = PREFETCH_MAX_CONCURRENT_FETCHES \<and>
    cd_permits s + sum_list (map pt_units (cd_tasks s)) = cd_permit_total s \<and> cd_permit_total s = cd_permit_total s0 \<and>
    sum_list (map (rg_length \<circ> pt_block) (cd_tasks s)) \<le> min (cp_read_ahead_max_bytes policy) PREFETCH_MAX_INFLIGHT_BYTES"
proof -
  have start: "flying policy s0" using in_flight_starts [OF assms(1)] by (simp add: flying_def budget_of_def)
  then have now: "flying policy s" by (rule flying_reachable [OF assms(2)])
  then have "in_flight_ok (policy, cd_slots s, cd_permits s, cd_permit_total s, cd_tasks s)"
    by (auto simp: flying_def budget_of_def)
  moreover from start have "in_flight_ok (policy, cd_slots s0, cd_permits s0, cd_permit_total s0, cd_tasks s0)"
    by (auto simp: flying_def budget_of_def)
  ultimately show ?thesis
    using in_flight_bytes [of policy "cd_slots s" "cd_permits s" "cd_permit_total s" "cd_tasks s"]
    by (auto simp: in_flight_ok_def in_flight_limit_def)
qed

theorem read_ahead_in_flight_bounded_witness:
  "\<exists>s. cached_reach demo_files memory_fs_cache (demo_cached\<lparr>cd_policy := demo_ahead\<rparr>) s \<and>
    cd_tasks s = [demo_task] \<and> rg_length (pt_block demo_task) = 8 \<and> cd_slots s = 7 \<and> cd_permits s = 0"
proof -
  let ?start = "demo_cached\<lparr>cd_policy := demo_ahead\<rparr>"
  let ?s = "run_cached_op demo_files memory_fs_cache (CfReadRange 1 0 5) demo_opened"
  have "cached_reach demo_files memory_fs_cache ?start demo_opened"
    using reach_op [OF reach_start, of "CfOpenFile 4 READ_ONLY" ?start demo_files memory_fs_cache] by (simp only: demo_ahead_open own_handle.simps)
  then have reach: "cached_reach demo_files memory_fs_cache ?start ?s" by (rule reach_op) simp
  have "cd_permit_total ?start = 1" "pt_units demo_task = 1" "rg_length (pt_block demo_task) = 8"
    by (simp_all add: demo_cached_def demo_task_def block_key_def)
  with read_ahead_in_flight_bounded [OF demo_ahead_new reach] demo_ahead_read reach show ?thesis
    by (intro exI [of _ ?s]) (simp add: PREFETCH_MAX_CONCURRENT_FETCHES_def del: run_cached_op.simps)
qed

end
