(* ===== verification/Adapter_State.thy ===== *)
theory Adapter_State
  imports Client_Cached
begin

text \<open>
  Crate \<^verbatim>\<open>clients/macos/filesystem-macfuse\<close>, file \<^verbatim>\<open>lib.rs\<close>: the state of \<^verbatim>\<open>Adapter\<close>, the bridge between
  FUSE callbacks and a remote file system, with the operations on its inode table, caches and handles.

  \<^item> The remote file system is the parameter \<open>remote_fs\<close>. \<open>execute\<close> runs a body under the callback
    deadline: a remote call that is over after the deadline ends the body with
    \<open>AeCallbackTimedOut\<close>.
  \<^item> A callback is one step, so the guards of a handle or directory are free between steps; the set of
    handles and directories that have one is kept. Spawned work is a task of the state that runs later.
  \<^item> Instants are numbers of the remote's clock. Poisoned mutexes, the only source of
    \<^verbatim>\<open>StateUnavailable\<close>, do not occur.
  \<^item> The Unicode normalisation of \<^verbatim>\<open>normalized_case_name\<close> is the parameter \<open>N\<close>.
\<close>

definition ROOT_INODE :: u64 where "ROOT_INODE = 1"
definition FILESYSTEM_STATS_TTL :: nat where "FILESYSTEM_STATS_TTL = 1000"
definition MAX_FUSE_IO_SIZE :: u64 where "MAX_FUSE_IO_SIZE = 16 * 1024 * 1024"
definition MAX_FUSE_XATTR_SIZE :: u64 where "MAX_FUSE_XATTR_SIZE = 64 * 1024 * 1024"
definition DISCOVERED_METADATA_TTL :: nat where "DISCOVERED_METADATA_TTL = 30000"
definition DISCOVERED_DIRECTORY_TTL :: nat where "DISCOVERED_DIRECTORY_TTL = 30000"
definition MOUNT_CLEANUP_TIMEOUT :: nat where "MOUNT_CLEANUP_TIMEOUT = 1000"
definition CLIENT_WRITE_LIMIT :: u64 where "CLIENT_WRITE_LIMIT = 8 * 1024 * 1024"

subsection \<open>Data\<close>

datatype adapter_error = AeRuntime | AeCallbackTimedOut | AeUnknownInode | AeUnknownHandle | AeUnknownDirectoryHandle
  | AeHandleInodeMismatch | AeNotFound | AeInvalidName | AeInvalidRemoteName | AeAmbiguousName | AeInodeSpaceExhausted
  | AeHandleSpaceExhausted | AeStateUnavailable | AeUnexpectedMetadata | AeUnexpectedReadLength | AeUnexpectedWriteLength
  | AeStaleRevision | AeRequestTooLarge u64 | AeInvalidCapabilities | AeReadOnly | AeUnsupported | AeInvalidAccess
  | AeInvalidRange | AeClient client_error

record fuse_entry =
  fe_inode :: u64
  fe_name :: name
  fe_kind :: node_kind
  fe_metadata :: metadata

record fuse_listing =
  dl_parent_inode :: u64
  dl_revision :: u64
  dl_entries :: "fuse_entry list"

record created_and_opened =
  co_inode :: u64
  co_metadata :: metadata
  co_handle :: u64

record inode_rec =
  ir_node :: node_id
  ir_parent_inode :: u64

record inode_table =
  it_by_inode :: "(u64 \<times> inode_rec) list"
  it_by_node :: "(node_id \<times> u64) list"
  it_by_entry :: "((u64 \<times> name) \<times> u64) list"
  it_lookups :: "(u64 \<times> u64) list"

record file_handle_record =
  fh_remote :: file_handle
  fh_inode :: u64
  fh_access :: file_access
  fh_revision :: u64
  fh_size :: u64
  fh_used_locks :: bool

record pending_write =
  pw_inode :: u64
  pw_start :: u64
  pw_buffer :: bytes

definition pending_end :: "pending_write \<Rightarrow> u64" where
  "pending_end p = saturating_add (pw_start p) (length (pw_buffer p))"

record directory_handle_record =
  dh_inode :: u64
  dh_listing :: fuse_listing
  dh_current :: metadata
  dh_parent :: metadata

record discovered_metadata =
  dm_value :: metadata
  dm_discovered_at :: nat

record discovered_directory =
  dd_listing :: fuse_listing
  dd_discovered_at :: nat

record discovered_xattrs =
  dx_revision :: u64
  dx_names :: "name list"
  dx_sizes :: "(name \<times> u64) list"
  dx_values :: "(name \<times> bytes) list"
  dx_discovered_at :: nat

text \<open>Work spawned on the runtime.\<close>

datatype adapter_task = ForgetNodesTask "node_id list" | CloseTask file_handle | RefreshStatsTask
  | ReleasedEntriesTask "u64 list" | CleanupTask file_handle

record 'w adapter =
  ad_callback_timeout :: nat
  ad_capabilities :: "filesystem_capabilities option"
  ad_stats :: "(nat \<times> filesystem_stats) option"
  ad_stats_refreshing :: bool
  ad_inodes :: inode_table
  ad_handles :: "(u64 \<times> file_handle_record) list"
  ad_pending :: "(u64 \<times> pending_write) list"
  ad_operations :: "(u64 \<times> unit) list"
  ad_directory_operations :: "(node_id \<times> unit) list"
  ad_directory_handles :: "(u64 \<times> directory_handle_record) list"
  ad_metadata :: "(node_id \<times> discovered_metadata) list"
  ad_directories :: "(u64 \<times> discovered_directory) list"
  ad_xattrs :: "(node_id \<times> discovered_xattrs) list"
  ad_next_inode :: u64
  ad_next_handle :: u64
  ad_tasks :: "adapter_task list"
  ad_world :: 'w

type_synonym ('w, 'a) adop = "('w adapter, adapter_error, 'a) op"

definition inode_table_new :: inode_table where
  "inode_table_new = \<lparr>it_by_inode = [(ROOT_INODE, \<lparr>ir_node = ROOT_NODE, ir_parent_inode = ROOT_INODE\<rparr>)],
     it_by_node = [(ROOT_NODE, ROOT_INODE)], it_by_entry = [], it_lookups = [(ROOT_INODE, U64_MAX)]\<rparr>"

definition with_runtime :: "'w \<Rightarrow> nat \<Rightarrow> 'w adapter" where
  "with_runtime w callback_timeout = \<lparr>ad_callback_timeout = callback_timeout, ad_capabilities = None, ad_stats = None,
     ad_stats_refreshing = False, ad_inodes = inode_table_new, ad_handles = [], ad_pending = [], ad_operations = [],
     ad_directory_operations = [], ad_directory_handles = [], ad_metadata = [], ad_directories = [], ad_xattrs = [],
     ad_next_inode = ROOT_INODE + 1, ad_next_handle = 1, ad_tasks = [], ad_world = w\<rparr>"

subsection \<open>Remote calls under the deadline\<close>

definition remote_call :: "'w remote_fs \<Rightarrow> nat \<Rightarrow> ('w, 'a) act \<Rightarrow> ('w, 'a) adop" where
  "remote_call I deadline m s =
     (let (r, w) = m (ad_world s); t = s\<lparr>ad_world := w\<rparr>
      in if in_now I w > deadline then (Inl AeCallbackTimedOut, t) else (map_err AeClient r, t))"

definition execute :: "'w remote_fs \<Rightarrow> (nat \<Rightarrow> ('w, 'a) adop) \<Rightarrow> ('w, 'a) adop" where
  "execute I body s = body (in_now I (ad_world s) + ad_callback_timeout s) s"

definition now :: "'w remote_fs \<Rightarrow> 'w adapter \<Rightarrow> nat" where
  "now I s = in_now I (ad_world s)"

definition spawn :: "adapter_task \<Rightarrow> ('w, unit) adop" where
  "spawn task = mput (\<lambda>s. s\<lparr>ad_tasks := ad_tasks s @ [task]\<rparr>)"

subsection \<open>Checks\<close>

definition fuse_range :: "u64 \<Rightarrow> u64 \<Rightarrow> adapter_error + unit" where
  "fuse_range offset len = (if checked_add offset len = None then Inl AeInvalidRange else Inr ())"

definition validate_io_range :: "u64 \<Rightarrow> u64 \<Rightarrow> adapter_error + unit" where
  "validate_io_range offset len =
     (if len > MAX_FUSE_IO_SIZE then Inl (AeRequestTooLarge MAX_FUSE_IO_SIZE) else fuse_range offset len)"

definition validate_allocation_range :: "u64 \<Rightarrow> u64 \<Rightarrow> adapter_error + unit" where
  "validate_allocation_range offset len = (if len = 0 then Inl AeInvalidRange else fuse_range offset len)"

definition no_attribute_error :: adapter_error where
  "no_attribute_error = AeClient (CeServer NoAttribute ''extended attribute does not exist'')"

definition fuse_name :: "adapter_error \<Rightarrow> name \<Rightarrow> adapter_error + unit" where
  "fuse_name e x = (if x = [] \<or> x = [46] \<or> x = [46, 46] \<or> 47 \<in> set x \<or> 0 \<in> set x then Inl e else Inr ())"

definition fuse_metadata :: "node_id \<Rightarrow> metadata \<Rightarrow> adapter_error + unit" where
  "fuse_metadata node m = (if md_node m = node then Inr () else Inl AeUnexpectedMetadata)"

text \<open>\<^verbatim>\<open>std::str::from_utf8\<close>: the well-formed byte sequences.\<close>

definition utf8_tail :: "byte \<Rightarrow> bool" where
  "utf8_tail b \<longleftrightarrow> 128 \<le> b \<and> b \<le> 191"

fun utf8_valid :: "bytes \<Rightarrow> bool" where
  "utf8_valid [] = True"
| "utf8_valid (a # rest) =
     (if a < 128 then utf8_valid rest
      else (case rest of [] \<Rightarrow> False | b # rest1 \<Rightarrow>
        if 194 \<le> a \<and> a \<le> 223 then utf8_tail b \<and> utf8_valid rest1
        else (case rest1 of [] \<Rightarrow> False | c # rest2 \<Rightarrow>
          if 224 \<le> a \<and> a \<le> 239
          then utf8_tail b \<and> (a = 224 \<longrightarrow> 160 \<le> b) \<and> (a = 237 \<longrightarrow> b \<le> 159) \<and> utf8_tail c \<and> utf8_valid rest2
          else (case rest2 of [] \<Rightarrow> False | d # rest3 \<Rightarrow>
            240 \<le> a \<and> a \<le> 244 \<and> utf8_tail b \<and> (a = 240 \<longrightarrow> 144 \<le> b) \<and> (a = 244 \<longrightarrow> b \<le> 143) \<and>
            utf8_tail c \<and> utf8_tail d \<and> utf8_valid rest3))))"

definition case_key :: "(bytes \<Rightarrow> bytes) \<Rightarrow> name \<Rightarrow> bytes option" where
  "case_key N x = (if utf8_valid x then Some (N x) else None)"

text \<open>An exact match first, then the only name that folds to the requested one.\<close>

definition select_entry_index :: "(bytes \<Rightarrow> bytes) \<Rightarrow> name list \<Rightarrow> name \<Rightarrow> adapter_error + nat" where
  "select_entry_index N names requested =
     (case filter (\<lambda>i. names ! i = requested) [0..<length names] of
        [i] \<Rightarrow> Inr i
      | _ # _ # _ \<Rightarrow> Inl AeAmbiguousName
      | [] \<Rightarrow> (case case_key N requested of
            None \<Rightarrow> Inl AeNotFound
          | Some key \<Rightarrow> (case filter (\<lambda>i. case_key N (names ! i) = Some key) [0..<length names] of
              [i] \<Rightarrow> Inr i
            | _ # _ # _ \<Rightarrow> Inl AeAmbiguousName
            | [] \<Rightarrow> Inl AeNotFound)))"

fun case_insensitive_names :: "(bytes \<Rightarrow> bytes) \<Rightarrow> name list \<Rightarrow> bytes list \<Rightarrow> adapter_error + unit" where
  "case_insensitive_names N [] seen = Inr ()"
| "case_insensitive_names N (x # xs) seen =
     ebind (fuse_name AeInvalidRemoteName x) (\<lambda>_. case case_key N x of
       None \<Rightarrow> case_insensitive_names N xs seen
     | Some key \<Rightarrow> if key \<in> set seen then Inl AeAmbiguousName else case_insensitive_names N xs (key # seen))"

definition validate_case_insensitive_directory :: "(bytes \<Rightarrow> bytes) \<Rightarrow> directory_entry list \<Rightarrow> adapter_error + unit" where
  "validate_case_insensitive_directory N entries = case_insensitive_names N (map de_name entries) []"

end
