(* ===== verification/Adapter_Tables.thy ===== *)
theory Adapter_Tables
  imports Adapter_State
begin

text \<open>
  The helpers of \<^verbatim>\<open>Adapter\<close> that do not call the remote file system: capabilities in use, caches with
  their lifetimes, the inode table and its reference counts, file handles and buffered writes.
\<close>

subsection \<open>Discovered metadata and directories\<close>

definition inode_record :: "u64 \<Rightarrow> ('w, inode_rec) adop" where
  "inode_record inode s = (ok_or AeUnknownInode (map_of (it_by_inode (ad_inodes s)) inode), s)"

definition fuse_cached_metadata :: "'w remote_fs \<Rightarrow> node_id \<Rightarrow> ('w, metadata option) adop" where
  "fuse_cached_metadata I node s =
     (case map_of (ad_metadata s) node of
        Some entry \<Rightarrow>
          if now I s - dm_discovered_at entry \<le> DISCOVERED_METADATA_TTL then (Inr (Some (dm_value entry)), s)
          else (Inr None, s\<lparr>ad_metadata := AList.delete node (ad_metadata s)\<rparr>)
      | None \<Rightarrow> (Inr None, s\<lparr>ad_metadata := AList.delete node (ad_metadata s)\<rparr>))"

definition remember_metadata :: "'w remote_fs \<Rightarrow> metadata \<Rightarrow> ('w, unit) adop" where
  "remember_metadata I m = mput (\<lambda>s. s\<lparr>ad_metadata :=
     AList.update (md_node m) \<lparr>dm_value = m, dm_discovered_at = now I s\<rparr> (ad_metadata s)\<rparr>)"

definition known_metadata_revision :: "node_id \<Rightarrow> 'w adapter \<Rightarrow> u64 option" where
  "known_metadata_revision node s = map_option (md_revision \<circ> dm_value) (map_of (ad_metadata s) node)"

definition cached_directory :: "'w remote_fs \<Rightarrow> u64 \<Rightarrow> ('w, fuse_listing option) adop" where
  "cached_directory I inode s =
     (case map_of (ad_directories s) inode of
        Some entry \<Rightarrow>
          if now I s - dd_discovered_at entry \<le> DISCOVERED_DIRECTORY_TTL then (Inr (Some (dd_listing entry)), s)
          else (Inr None, s\<lparr>ad_directories := AList.delete inode (ad_directories s)\<rparr>)
      | None \<Rightarrow> (Inr None, s\<lparr>ad_directories := AList.delete inode (ad_directories s)\<rparr>))"

definition directory_operation :: "node_id \<Rightarrow> ('w, unit) adop" where
  "directory_operation node = mput (\<lambda>s. s\<lparr>ad_directory_operations := AList.update node () (ad_directory_operations s)\<rparr>)"

text \<open>Every view that embeds the metadata of a node is dropped.\<close>

definition invalidate_node_views :: "node_id \<Rightarrow> ('w, unit) adop" where
  "invalidate_node_views node = mput (\<lambda>s.
     let inode = map_of (it_by_node (ad_inodes s)) node in
     s\<lparr>ad_metadata := AList.delete node (ad_metadata s), ad_xattrs := AList.delete node (ad_xattrs s),
       ad_directories := filter (\<lambda>(i, cached). Some i \<noteq> inode \<and>
         \<not> (\<exists>entry \<in> set (dl_entries (dd_listing cached)). md_node (fe_metadata entry) = node)) (ad_directories s)\<rparr>)"

definition invalidate_directory :: "u64 \<Rightarrow> ('w, unit) adop" where
  "invalidate_directory inode = mbind (inode_record inode) (\<lambda>r. invalidate_node_views (ir_node r))"

subsection \<open>Discovered extended attributes\<close>

definition cached_xattrs :: "'w remote_fs \<Rightarrow> node_id \<Rightarrow> ('w, discovered_xattrs option) adop" where
  "cached_xattrs I node s =
     (case map_of (ad_xattrs s) node of
        Some entry \<Rightarrow>
          if (case known_metadata_revision node s of None \<Rightarrow> True | Some revision \<Rightarrow> revision = dx_revision entry) \<and>
             now I s - dx_discovered_at entry \<le> DISCOVERED_DIRECTORY_TTL
          then (Inr (Some entry), s)
          else (Inr None, s\<lparr>ad_xattrs := AList.delete node (ad_xattrs s)\<rparr>)
      | None \<Rightarrow> (Inr None, s\<lparr>ad_xattrs := AList.delete node (ad_xattrs s)\<rparr>))"

fun inline_values :: "name list \<Rightarrow> inline_xattr list \<Rightarrow> (name \<times> bytes) list \<Rightarrow> adapter_error + (name \<times> bytes) list" where
  "inline_values names [] found = Inr found"
| "inline_values names (v # vs) found =
     (if ix_name v \<notin> set names \<or> contains_key found (ix_name v) then Inl AeUnexpectedMetadata
      else inline_values names vs (AList.update (ix_name v) (ix_value v) found))"

definition remember_xattr_snapshot :: "'w remote_fs \<Rightarrow> node_id \<Rightarrow> u64 \<Rightarrow> xattr_snapshot \<Rightarrow> ('w, unit) adop" where
  "remember_xattr_snapshot I node revision snapshot =
     (if \<not> distinct (xs_names snapshot) then mfail AeUnexpectedMetadata
      else mbind (mlift (inline_values (xs_names snapshot) (xs_inline_values snapshot) [])) (\<lambda>found.
        mput (\<lambda>s. s\<lparr>ad_xattrs := AList.update node \<lparr>dx_revision = revision, dx_names = xs_names snapshot,
          dx_sizes = map (\<lambda>(x, v). (x, length v)) found, dx_values = found, dx_discovered_at = now I s\<rparr> (ad_xattrs s)\<rparr>)))"

definition update_xattrs :: "'w remote_fs \<Rightarrow> node_id \<Rightarrow> u64 \<Rightarrow> name \<Rightarrow> (discovered_xattrs \<Rightarrow> discovered_xattrs) \<Rightarrow> ('w, unit) adop" where
  "update_xattrs I node revision x f = mput (\<lambda>s. case map_of (ad_xattrs s) node of
     None \<Rightarrow> s
   | Some cached \<Rightarrow>
       if dx_revision cached = revision \<and> x \<in> set (dx_names cached)
       then s\<lparr>ad_xattrs := AList.update node ((f cached)\<lparr>dx_discovered_at := now I s\<rparr>) (ad_xattrs s)\<rparr>
       else s)"

definition remember_xattr_size :: "'w remote_fs \<Rightarrow> node_id \<Rightarrow> u64 \<Rightarrow> name \<Rightarrow> u64 \<Rightarrow> ('w, unit) adop" where
  "remember_xattr_size I node revision x sz = update_xattrs I node revision x
     (\<lambda>c. c\<lparr>dx_sizes := AList.update x sz (dx_sizes c)\<rparr>)"

definition remember_xattr_value :: "'w remote_fs \<Rightarrow> node_id \<Rightarrow> u64 \<Rightarrow> name \<Rightarrow> bytes \<Rightarrow> ('w, unit) adop" where
  "remember_xattr_value I node revision x v = update_xattrs I node revision x
     (\<lambda>c. c\<lparr>dx_sizes := AList.update x (length v) (dx_sizes c), dx_values := AList.update x v (dx_values c)\<rparr>)"

subsection \<open>The inode table\<close>

abbreviation upd_inodes :: "(inode_table \<Rightarrow> inode_table) \<Rightarrow> 'w adapter \<Rightarrow> 'w adapter" where
  "upd_inodes f s \<equiv> s\<lparr>ad_inodes := f (ad_inodes s)\<rparr>"

definition entry_node :: "u64 \<Rightarrow> name \<Rightarrow> 'w adapter \<Rightarrow> node_id option" where
  "entry_node parent_inode x s =
     (case map_of (it_by_entry (ad_inodes s)) (parent_inode, x) of
        None \<Rightarrow> None
      | Some inode \<Rightarrow> map_option ir_node (map_of (it_by_inode (ad_inodes s)) inode))"

definition find_entry_inode :: "(bytes \<Rightarrow> bytes) \<Rightarrow> u64 \<Rightarrow> name \<Rightarrow> ('w, u64 option) adop" where
  "find_entry_inode N parent_inode requested s =
     (let entries = it_by_entry (ad_inodes s) in
      case map_of entries (parent_inode, requested) of
        Some inode \<Rightarrow> (Inr (Some inode), s)
      | None \<Rightarrow> (case case_key N requested of
            None \<Rightarrow> (Inr None, s)
          | Some key \<Rightarrow>
              (case map snd (filter (\<lambda>((parent, x), _). parent = parent_inode \<and> case_key N x = Some key) entries) of
                 [inode] \<Rightarrow> (Inr (Some inode), s)
               | [] \<Rightarrow> (Inr None, s)
               | _ \<Rightarrow> (Inl AeAmbiguousName, s))))"

definition reconcile_directory_entries :: "u64 \<Rightarrow> name list \<Rightarrow> ('w, unit) adop" where
  "reconcile_directory_entries parent_inode current_names = mput (upd_inodes (\<lambda>t. t\<lparr>it_by_entry :=
     filter (\<lambda>((parent, x), _). parent \<noteq> parent_inode \<or> x \<in> set current_names) (it_by_entry t)\<rparr>))"

definition remember_entry :: "node_id \<Rightarrow> u64 \<Rightarrow> name \<Rightarrow> ('w, u64) adop" where
  "remember_entry node parent_inode x s =
     (case map_of (it_by_node (ad_inodes s)) node of
        Some inode \<Rightarrow>
          (Inr inode, upd_inodes (\<lambda>t. t\<lparr>it_by_entry := AList.update (parent_inode, x) inode (it_by_entry t)\<rparr>) s)
      | None \<Rightarrow>
          (case checked_add (ad_next_inode s) 1 of
             None \<Rightarrow> (Inl AeInodeSpaceExhausted, s)
           | Some next_inode \<Rightarrow>
               let inode = ad_next_inode s in
               (Inr inode, (upd_inodes (\<lambda>t. t\<lparr>
                  it_by_inode := AList.update inode \<lparr>ir_node = node, ir_parent_inode = parent_inode\<rparr> (it_by_inode t),
                  it_by_node := AList.update node inode (it_by_node t),
                  it_by_entry := AList.update (parent_inode, x) inode (it_by_entry t)\<rparr>) s)\<lparr>ad_next_inode := next_inode\<rparr>)))"

definition lookup_count :: "inode_table \<Rightarrow> u64 \<Rightarrow> u64" where
  "lookup_count t inode = (case map_of (it_lookups t) inode of None \<Rightarrow> 0 | Some n \<Rightarrow> n)"

definition add_lookup :: "u64 \<Rightarrow> u64 \<Rightarrow> ('w, unit) adop" where
  "add_lookup inode amount = mput (upd_inodes (\<lambda>t. t\<lparr>it_lookups :=
     AList.update inode (saturating_add (lookup_count t inode) amount) (it_lookups t)\<rparr>))"

definition inode_in_use :: "u64 \<Rightarrow> 'w adapter \<Rightarrow> bool" where
  "inode_in_use inode s \<longleftrightarrow> (\<exists>(h, r) \<in> set (ad_handles s). fh_inode r = inode) \<or>
     (\<exists>(h, r) \<in> set (ad_directory_handles s). dh_inode r = inode)"

definition evict_inode :: "u64 \<Rightarrow> u64 \<Rightarrow> ('w, node_id option) adop" where
  "evict_inode inode amount s =
     (if inode = ROOT_INODE then (Inr None, s)
      else let t = ad_inodes s; count = lookup_count t inode - amount in
        if count \<noteq> 0 \<or> inode_in_use inode s
        then (Inr None, s\<lparr>ad_inodes := t\<lparr>it_lookups := AList.update inode count (it_lookups t)\<rparr>\<rparr>)
        else let entries = filter (\<lambda>(_, i). i \<noteq> inode) (it_by_entry t);
                 lookups = AList.delete inode (AList.update inode count (it_lookups t)) in
          (case map_of (it_by_inode t) inode of
             None \<Rightarrow> (Inr None, s\<lparr>ad_inodes := t\<lparr>it_lookups := lookups, it_by_entry := entries\<rparr>\<rparr>)
           | Some record \<Rightarrow> (Inr (Some (ir_node record)), s\<lparr>ad_inodes := t\<lparr>it_lookups := lookups, it_by_entry := entries,
               it_by_inode := AList.delete inode (it_by_inode t),
               it_by_node := AList.delete (ir_node record) (it_by_node t)\<rparr>\<rparr>)))"

fun evict_all :: "(u64 \<times> u64) list \<Rightarrow> ('w, node_id list) adop" where
  "evict_all [] = mret []"
| "evict_all ((inode, amount) # requests) = mbind (evict_inode inode amount) (\<lambda>r. case r of
     None \<Rightarrow> evict_all requests
   | Some node \<Rightarrow>
       mbind (mput (\<lambda>s. s\<lparr>ad_directories := AList.delete inode (ad_directories s),
         ad_directory_operations := AList.delete node (ad_directory_operations s)\<rparr>)) (\<lambda>_.
       mbind (evict_all requests) (\<lambda>forgotten. mret (node # forgotten))))"

definition forget_inodes :: "(u64 \<times> u64) list \<Rightarrow> ('w, unit) adop" where
  "forget_inodes requests = mbind (evict_all requests) (\<lambda>forgotten.
     if forgotten = [] then mret () else spawn (ForgetNodesTask forgotten))"

definition forget_inode :: "u64 \<Rightarrow> u64 \<Rightarrow> ('w, unit) adop" where
  "forget_inode inode amount = forget_inodes [(inode, amount)]"

definition forget_entry :: "u64 \<Rightarrow> name \<Rightarrow> ('w, unit) adop" where
  "forget_entry parent_inode x = mput (upd_inodes (\<lambda>t. t\<lparr>it_by_entry := AList.delete (parent_inode, x) (it_by_entry t)\<rparr>))"

definition place_entry :: "u64 \<Rightarrow> name \<Rightarrow> u64 option \<Rightarrow> inode_table \<Rightarrow> inode_table" where
  "place_entry parent_inode x inode t = (case inode of
     None \<Rightarrow> t
   | Some i \<Rightarrow> t\<lparr>it_by_entry := AList.update (parent_inode, x) i (it_by_entry t),
       it_by_inode := (case map_of (it_by_inode t) i of
           None \<Rightarrow> it_by_inode t
         | Some r \<Rightarrow> AList.update i (r\<lparr>ir_parent_inode := parent_inode\<rparr>) (it_by_inode t))\<rparr>)"

definition move_entry :: "u64 \<Rightarrow> name \<Rightarrow> u64 \<Rightarrow> name \<Rightarrow> rename_mode \<Rightarrow> ('w, unit) adop" where
  "move_entry parent_inode x new_parent_inode new_name mode = mput (upd_inodes (\<lambda>t.
     let source_key = (parent_inode, x); destination_key = (new_parent_inode, new_name);
         source = map_of (it_by_entry t) source_key; removed = AList.delete source_key (it_by_entry t);
         destination = map_of removed destination_key;
         t1 = t\<lparr>it_by_entry := AList.delete destination_key removed\<rparr>;
         t2 = (if mode = RenameExchange then place_entry parent_inode x destination t1 else t1)
     in place_entry new_parent_inode new_name source t2))"

subsection \<open>Handles\<close>

definition next_handle :: "('w, u64) adop" where
  "next_handle s = (case checked_add (ad_next_handle s) 1 of
     None \<Rightarrow> (Inl AeHandleSpaceExhausted, s)
   | Some n \<Rightarrow> (Inr (ad_next_handle s), s\<lparr>ad_next_handle := n\<rparr>))"

definition remember_file_handle :: "u64 \<Rightarrow> file_access \<Rightarrow> opened_file \<Rightarrow> ('w, u64) adop" where
  "remember_file_handle inode access opened = mbind next_handle (\<lambda>h.
     mbind (mput (\<lambda>s. s\<lparr>ad_handles := AList.update h \<lparr>fh_remote = op_handle opened, fh_inode = inode, fh_access = access,
         fh_revision = op_revision opened, fh_size = op_size opened, fh_used_locks = False\<rparr> (ad_handles s),
       ad_operations := AList.update h () (ad_operations s)\<rparr>)) (\<lambda>_. mret h))"

definition fuse_file_handle :: "u64 \<Rightarrow> ('w, file_handle_record) adop" where
  "fuse_file_handle h s = (ok_or AeUnknownHandle (map_of (ad_handles s) h), s)"

definition update_file_handle :: "u64 \<Rightarrow> u64 \<Rightarrow> u64 \<Rightarrow> ('w, unit) adop" where
  "update_file_handle h revision sz s = (case map_of (ad_handles s) h of
     None \<Rightarrow> (Inl AeUnknownHandle, s)
   | Some r \<Rightarrow> (Inr (), s\<lparr>ad_handles := AList.update h (r\<lparr>fh_revision := revision, fh_size := sz\<rparr>) (ad_handles s)\<rparr>))"

definition file_operation :: "u64 \<Rightarrow> ('w, unit) adop" where
  "file_operation h s = (ok_or AeUnknownHandle (map_of (ad_operations s) h), s)"

definition take_file_handle :: "u64 \<Rightarrow> ('w, file_handle_record) adop" where
  "take_file_handle h s = (case map_of (ad_handles s) h of
     None \<Rightarrow> (Inl AeUnknownHandle, s)
   | Some r \<Rightarrow> (Inr r, s\<lparr>ad_handles := AList.delete h (ad_handles s), ad_operations := AList.delete h (ad_operations s),
       ad_pending := AList.delete h (ad_pending s)\<rparr>))"

definition has_pending :: "u64 \<Rightarrow> 'w adapter \<Rightarrow> bool" where
  "has_pending h s \<longleftrightarrow> contains_key (ad_pending s) h"

definition pending_end_for_inode :: "u64 \<Rightarrow> 'w adapter \<Rightarrow> u64 option" where
  "pending_end_for_inode inode s =
     (case filter (\<lambda>p. pw_inode p = inode) (map snd (ad_pending s)) of
        [] \<Rightarrow> None
      | p # ps \<Rightarrow> Some (foldl max (pending_end p) (map pending_end ps)))"

end
