(* ===== verification/Adapter_Files.thy ===== *)
theory Adapter_Files
  imports Adapter_Tables
begin

text \<open>
  The callbacks of \<^verbatim>\<open>Adapter\<close> on open files: reading with one restart, writing through the per-handle
  buffer, flushing, synchronising, allocating, copying, seeking, locking and releasing.
\<close>

subsection \<open>Capabilities\<close>

definition capabilities_async :: "'w remote_fs \<Rightarrow> ('w, filesystem_capabilities) adop" where
  "capabilities_async I s = (case ad_capabilities s of
     Some c \<Rightarrow> (Inr c, s)
   | None \<Rightarrow>
       mbind (execute I (\<lambda>d. remote_call I d (in_capabilities I))) (\<lambda>c.
         if cap_max_read_size c = 0 \<or> cap_max_write_size c = 0 then mfail AeInvalidCapabilities
         else mbind (mput (\<lambda>t. t\<lparr>ad_capabilities := Some c\<rparr>)) (\<lambda>_. mret c)) s)"

definition fuse_writable :: "'w remote_fs \<Rightarrow> ('w, filesystem_capabilities) adop" where
  "fuse_writable I = mbind (capabilities_async I) (\<lambda>c. if cap_writable c then mret c else mfail AeReadOnly)"

definition require_capability :: "'w remote_fs \<Rightarrow> (filesystem_capabilities \<Rightarrow> bool) \<Rightarrow> ('w, filesystem_capabilities) adop" where
  "require_capability I p = mbind (capabilities_async I) (\<lambda>c. if p c then mret c else mfail AeUnsupported)"

definition require_writable_capability :: "'w remote_fs \<Rightarrow> (filesystem_capabilities \<Rightarrow> bool) \<Rightarrow> ('w, filesystem_capabilities) adop" where
  "require_writable_capability I p = mbind (fuse_writable I) (\<lambda>c. if p c then mret c else mfail AeUnsupported)"

definition require_that :: "adapter_error \<Rightarrow> bool \<Rightarrow> ('w, unit) adop" where
  "require_that e p = (if p then mret () else mfail e)"

subsection \<open>Writing\<close>

text \<open>The chunks of one transmission; the limit is not zero.\<close>

function write_loop :: "'w remote_fs \<Rightarrow> nat \<Rightarrow> file_handle \<Rightarrow> u64 \<Rightarrow> bytes \<Rightarrow> u64 \<Rightarrow> u64 \<Rightarrow> u64 \<Rightarrow> ('w, u64 \<times> u64) adop" where
  "write_loop I deadline remote limit data position revision sz s =
     (if data \<noteq> [] \<and> 0 < limit
      then let amount = min (length data) limit in
        (case remote_call I deadline (in_write_range I remote position (take amount data)) s of
           (Inl e, t) \<Rightarrow> (Inl e, t)
         | (Inr result, t) \<Rightarrow>
             if wr_written result \<noteq> amount then (Inl AeUnexpectedWriteLength, t)
             else (case checked_add position amount of
                 None \<Rightarrow> (Inl AeInvalidRange, t)
               | Some position' \<Rightarrow> write_loop I deadline remote limit (drop amount data) position' (wr_revision result) (wr_size result) t))
      else (Inr (revision, sz), s))"
  by pat_completeness auto
termination by (relation "measure (\<lambda>(_, _, _, _, data, _). length data)") auto

declare write_loop.simps [simp del]

definition write_through :: "'w remote_fs \<Rightarrow> u64 \<Rightarrow> u64 \<Rightarrow> bytes \<Rightarrow> ('w, unit) adop" where
  "write_through I h offset data =
     (if data = [] then mret ()
      else mbind (fuse_file_handle h) (\<lambda>opened. mbind (capabilities_async I) (\<lambda>c.
        let chunk_limit = min (cap_max_write_size c) CLIENT_WRITE_LIMIT in
        if chunk_limit = 0 then mfail AeInvalidCapabilities
        else mbind (execute I (\<lambda>d. write_loop I d (fh_remote opened) chunk_limit data offset (fh_revision opened) (fh_size opened)))
          (\<lambda>(revision, sz). mbind (update_file_handle h revision sz) (\<lambda>_.
             mbind (inode_record (fh_inode opened)) (\<lambda>r. invalidate_node_views (ir_node r)))))))"

definition take_pending :: "u64 \<Rightarrow> ('w, pending_write option) adop" where
  "take_pending h s = (Inr (map_of (ad_pending s) h), s\<lparr>ad_pending := AList.delete h (ad_pending s)\<rparr>)"

definition flush_pending :: "'w remote_fs \<Rightarrow> u64 \<Rightarrow> ('w, unit) adop" where
  "flush_pending I h = mbind (take_pending h) (\<lambda>p. case p of
     None \<Rightarrow> mret () | Some p \<Rightarrow> write_through I h (pw_start p) (pw_buffer p))"

definition flush_pending_for_inode :: "'w remote_fs \<Rightarrow> u64 \<Rightarrow> ('w, unit) adop" where
  "flush_pending_for_inode I inode s =
     mfor (map fst (filter (\<lambda>(_, p). pw_inode p = inode) (ad_pending s))) (flush_pending I) s"

definition can_append :: "u64 \<Rightarrow> u64 \<Rightarrow> u64 \<Rightarrow> pending_write option \<Rightarrow> bool" where
  "can_append threshold offset len p = (case p of
     None \<Rightarrow> False
   | Some p \<Rightarrow> pending_end p = offset \<and> saturating_add (length (pw_buffer p)) len \<le> threshold)"

definition write_async :: "'w remote_fs \<Rightarrow> u64 \<Rightarrow> u64 \<Rightarrow> bytes \<Rightarrow> ('w, u64) adop" where
  "write_async I h offset data = mbind (mlift (validate_io_range offset (length data))) (\<lambda>_.
     mbind (file_operation h) (\<lambda>_. mbind (fuse_writable I) (\<lambda>c. mbind (fuse_file_handle h) (\<lambda>opened.
     mbind (require_that AeInvalidAccess (can_write (fh_access opened))) (\<lambda>_.
     let threshold = min (cap_max_write_size c) CLIENT_WRITE_LIMIT in
     if threshold = 0 then mfail AeInvalidCapabilities
     else mbind (mget (\<lambda>s. map_of (ad_pending s) h)) (\<lambda>pending.
       if can_append threshold offset (length data) pending
       then mbind (mput (\<lambda>s. s\<lparr>ad_pending := AList.update h
              ((the pending)\<lparr>pw_buffer := pw_buffer (the pending) @ data\<rparr>) (ad_pending s)\<rparr>)) (\<lambda>_. mret (length data))
       else mbind (flush_pending I h) (\<lambda>_.
         mbind (if length data < threshold
                then mput (\<lambda>s. s\<lparr>ad_pending := AList.update h
                  \<lparr>pw_inode = fh_inode opened, pw_start = offset, pw_buffer = data\<rparr> (ad_pending s)\<rparr>)
                else write_through I h offset data) (\<lambda>_. mret (length data)))))))))"

subsection \<open>Reading\<close>

text \<open>
  The loop of \<^verbatim>\<open>read_async\<close>; the limit is not zero. The first chunk with a revision pins it; a
  different revision starts the assembly again, once.
\<close>

function read_loop :: "'w remote_fs \<Rightarrow> nat \<Rightarrow> file_handle \<Rightarrow> u64 \<Rightarrow> u64 \<Rightarrow> u64 \<Rightarrow> bytes \<Rightarrow> u64 \<Rightarrow> u64 \<Rightarrow> u64 \<Rightarrow> bool
    \<Rightarrow> ('w, bytes) adop" where
  "read_loop I deadline remote offset len limit data remaining position expected restarted s =
     (if 0 < remaining \<and> 0 < limit
      then let requested = min remaining limit in
        (case remote_call I deadline (in_read_range_versioned I remote position requested) s of
           (Inl e, t) \<Rightarrow> (Inl e, t)
         | (Inr result, t) \<Rightarrow>
             let received = length (rr_data result) in
             if received > requested then (Inl AeUnexpectedReadLength, t)
             else if rr_revision result \<noteq> 0 \<and> expected \<noteq> 0 \<and> rr_revision result \<noteq> expected
             then if restarted then (Inl AeStaleRevision, t)
                  else read_loop I deadline remote offset len limit [] len offset 0 True t
             else let expected' = (if rr_revision result \<noteq> 0 then rr_revision result else expected);
                      data' = data @ rr_data result in
               if received < requested then (Inr data', t)
               else (case checked_add position received of
                   None \<Rightarrow> (Inl AeInvalidRange, t)
                 | Some position' \<Rightarrow>
                     read_loop I deadline remote offset len limit data' (remaining - received) position' expected' restarted t))
      else (Inr data, s))"
  by pat_completeness auto
termination
  by (relation "measures [\<lambda>(_, _, _, _, _, _, _, _, _, _, restarted, _). if restarted then 0 else 1,
      \<lambda>(_, _, _, _, _, _, _, remaining, _). remaining]") auto

declare read_loop.simps [simp del]

definition read_async :: "'w remote_fs \<Rightarrow> u64 \<Rightarrow> u64 \<Rightarrow> u64 \<Rightarrow> ('w, bytes) adop" where
  "read_async I h offset len = mbind (mlift (validate_io_range offset len)) (\<lambda>_.
     mbind (file_operation h) (\<lambda>_.
     mbind (\<lambda>s. if has_pending h s then flush_pending I h s else (Inr (), s)) (\<lambda>_.
     mbind (fuse_file_handle h) (\<lambda>opened.
     mbind (require_that AeInvalidAccess (can_read (fh_access opened))) (\<lambda>_.
     mbind (capabilities_async I) (\<lambda>c.
     let chunk_limit = min (cap_max_read_size c) CLIENT_READ_LIMIT in
     if chunk_limit = 0 then mfail AeInvalidCapabilities
     else execute I (\<lambda>d. read_loop I d (fh_remote opened) offset len chunk_limit [] len offset 0 False)))))))"

subsection \<open>Other operations on a handle\<close>

definition flush_async :: "'w remote_fs \<Rightarrow> u64 \<Rightarrow> u64 option \<Rightarrow> ('w, unit) adop" where
  "flush_async I h lock_owner = mbind (file_operation h) (\<lambda>_. mbind (flush_pending I h) (\<lambda>_.
     mbind (fuse_file_handle h) (\<lambda>opened.
       if \<not> can_write (fh_access opened) \<and> \<not> fh_used_locks opened then mret ()
       else execute I (\<lambda>d. remote_call I d (in_flush_file I (fh_remote opened) lock_owner)))))"

definition fsync_async :: "'w remote_fs \<Rightarrow> u64 \<Rightarrow> bool \<Rightarrow> ('w, unit) adop" where
  "fsync_async I h data_only = mbind (file_operation h) (\<lambda>_. mbind (flush_pending I h) (\<lambda>_.
     mbind (fuse_file_handle h) (\<lambda>opened.
       execute I (\<lambda>d. remote_call I d (in_sync_file I (fh_remote opened) data_only)))))"

definition allocate_async :: "'w remote_fs \<Rightarrow> u64 \<Rightarrow> u64 \<Rightarrow> u64 \<Rightarrow> ('w, unit) adop" where
  "allocate_async I h offset len = mbind (mlift (validate_allocation_range offset len)) (\<lambda>_.
     mbind (file_operation h) (\<lambda>_. mbind (require_writable_capability I supports_preallocation) (\<lambda>_.
     mbind (fuse_file_handle h) (\<lambda>opened. mbind (require_that AeInvalidAccess (can_write (fh_access opened))) (\<lambda>_.
     mbind (flush_pending I h) (\<lambda>_. mbind (fuse_file_handle h) (\<lambda>opened.
     mbind (execute I (\<lambda>d. remote_call I d (in_allocate_file I (fh_remote opened) offset len))) (\<lambda>result.
     mbind (update_file_handle h (wr_revision result) (wr_size result)) (\<lambda>_.
     mbind (inode_record (fh_inode opened)) (\<lambda>r. invalidate_node_views (ir_node r)))))))))))"

definition copy_file_range_async :: "'w remote_fs \<Rightarrow> u64 \<Rightarrow> u64 \<Rightarrow> u64 \<Rightarrow> u64 \<Rightarrow> u64 \<Rightarrow> ('w, u64) adop" where
  "copy_file_range_async I input_handle input_offset output_handle output_offset len =
     mbind (mlift (fuse_range input_offset len)) (\<lambda>_. mbind (mlift (fuse_range output_offset len)) (\<lambda>_.
     mbind (require_writable_capability I supports_copy_file_range) (\<lambda>_.
     mbind (fuse_file_handle input_handle) (\<lambda>inp. mbind (fuse_file_handle output_handle) (\<lambda>outp.
     mbind (require_that AeInvalidAccess (can_read (fh_access inp) \<and> can_write (fh_access outp))) (\<lambda>_.
     mbind (file_operation input_handle) (\<lambda>_. mbind (file_operation output_handle) (\<lambda>_.
     mbind (flush_pending I input_handle) (\<lambda>_.
     mbind (if input_handle \<noteq> output_handle then flush_pending I output_handle else mret ()) (\<lambda>_.
     mbind (fuse_file_handle input_handle) (\<lambda>inp. mbind (fuse_file_handle output_handle) (\<lambda>outp.
     mbind (execute I (\<lambda>d. mbind (remote_call I d (in_copy_file_range I (fh_remote inp) input_offset (fh_remote outp) output_offset len))
       (\<lambda>result. if wr_written result > len then mfail AeUnexpectedWriteLength else mret result))) (\<lambda>result.
     mbind (update_file_handle output_handle (wr_revision result) (wr_size result)) (\<lambda>_.
     mbind (inode_record (fh_inode outp)) (\<lambda>r. mbind (invalidate_node_views (ir_node r)) (\<lambda>_.
     mret (wr_written result)))))))))))))))))"

definition lseek_async :: "'w remote_fs \<Rightarrow> u64 \<Rightarrow> u64 \<Rightarrow> seek_whence \<Rightarrow> ('w, u64) adop" where
  "lseek_async I h offset whence = mbind (require_capability I supports_seek_data_hole) (\<lambda>_.
     mbind (file_operation h) (\<lambda>_. mbind (flush_pending I h) (\<lambda>_. mbind (fuse_file_handle h) (\<lambda>opened.
     execute I (\<lambda>d. remote_call I d (in_seek_file I (fh_remote opened) offset whence))))))"

definition safe_ioctl_async :: "'w remote_fs \<Rightarrow> u64 \<Rightarrow> safe_ioctl \<Rightarrow> ('w, u64) adop" where
  "safe_ioctl_async I h operation = mbind (require_capability I supports_safe_ioctl) (\<lambda>_.
     mbind (fuse_file_handle h) (\<lambda>opened. execute I (\<lambda>d. remote_call I d (in_safe_ioctl I (fh_remote opened) operation))))"

definition get_lock_async :: "'w remote_fs \<Rightarrow> u64 \<Rightarrow> file_lock \<Rightarrow> ('w, file_lock option) adop" where
  "get_lock_async I h lock = mbind (require_capability I supports_locks) (\<lambda>_. mbind (file_operation h) (\<lambda>_.
     mbind (fuse_file_handle h) (\<lambda>opened. execute I (\<lambda>d. remote_call I d (in_get_lock I (fh_remote opened) lock)))))"

definition set_lock_async :: "'w remote_fs \<Rightarrow> u64 \<Rightarrow> file_lock \<Rightarrow> bool \<Rightarrow> ('w, unit) adop" where
  "set_lock_async I h lock wait = mbind (require_capability I supports_locks) (\<lambda>_. mbind (file_operation h) (\<lambda>_.
     mbind (fuse_file_handle h) (\<lambda>opened.
     mbind (execute I (\<lambda>d. remote_call I d (in_set_lock I (fh_remote opened) lock wait))) (\<lambda>_.
     mput (\<lambda>s. case map_of (ad_handles s) h of
         None \<Rightarrow> s
       | Some r \<Rightarrow> s\<lparr>ad_handles := AList.update h (r\<lparr>fh_used_locks := True\<rparr>) (ad_handles s)\<rparr>)))))"

text \<open>\<^verbatim>\<open>Result::and\<close>.\<close>

definition result_and :: "'e + 'a \<Rightarrow> 'e + 'b \<Rightarrow> 'e + 'b" where
  "result_and r q = (case r of Inl e \<Rightarrow> Inl e | Inr _ \<Rightarrow> q)"

definition release_async :: "'w remote_fs \<Rightarrow> u64 \<Rightarrow> bool \<Rightarrow> u64 option \<Rightarrow> ('w, unit) adop" where
  "release_async I h flush lock_owner = mbind (file_operation h) (\<lambda>_ s.
     if (case map_of (ad_handles s) h of None \<Rightarrow> False | Some opened \<Rightarrow> \<not> can_write (fh_access opened) \<and> \<not> fh_used_locks opened)
     then mbind (take_file_handle h) (\<lambda>opened. mbind (spawn (CloseTask (fh_remote opened))) (\<lambda>_.
       mignore (forget_inode (fh_inode opened) 0))) s
     else let (pending_result, s1) = flush_pending I h s in
       mbind (take_file_handle h) (\<lambda>opened s2.
         let (flush_result, s3) = (if flush then execute I (\<lambda>d. remote_call I d (in_flush_file I (fh_remote opened) lock_owner)) s2
               else (Inr (), s2));
             (close_result, s4) = execute I (\<lambda>d. remote_call I d (in_close_file I (fh_remote opened))) s3
         in (result_and (result_and pending_result flush_result) close_result, snd (forget_inode (fh_inode opened) 0 s4))) s1)"

end
