(* ===== verification/Adapter_Nodes.thy ===== *)
theory Adapter_Nodes
  imports Adapter_Files
begin

text \<open>
  The callbacks of \<^verbatim>\<open>Adapter\<close> on nodes and directories, extended attributes and the volume, the work
  it spawns, and unmounting.
\<close>

subsection \<open>Metadata and directories\<close>

definition getattr_async :: "'w remote_fs \<Rightarrow> u64 \<Rightarrow> ('w, metadata) adop" where
  "getattr_async I inode = mbind (inode_record inode) (\<lambda>record.
     mbind (fuse_cached_metadata I (ir_node record)) (\<lambda>cached.
     mbind (case cached of
         Some m \<Rightarrow> mret m
       | None \<Rightarrow> execute I (\<lambda>d. mbind (remote_call I d (in_get_metadata I (ir_node record))) (\<lambda>m.
           mbind (mlift (fuse_metadata (ir_node record) m)) (\<lambda>_. mbind (remember_metadata I m) (\<lambda>_. mret m)))))
     (\<lambda>m. mget (\<lambda>s. case pending_end_for_inode inode s of
         Some pe \<Rightarrow> if pe > md_size m then m\<lparr>md_size := pe\<rparr> else m
       | None \<Rightarrow> m))))"

fun remember_listed :: "'w remote_fs \<Rightarrow> u64 \<Rightarrow> directory_entry list \<Rightarrow> ('w, fuse_entry list) adop" where
  "remember_listed I inode [] = mret []"
| "remember_listed I inode (entry # entries) =
     mbind (mlift (fuse_name AeInvalidRemoteName (de_name entry))) (\<lambda>_.
     mbind (mlift (fuse_metadata (de_node entry) (de_metadata entry))) (\<lambda>_.
     mbind (require_that AeUnexpectedMetadata (de_kind entry = md_kind (de_metadata entry))) (\<lambda>_.
     mbind (remember_metadata I (de_metadata entry)) (\<lambda>_.
     mbind (remember_entry (de_node entry) inode (de_name entry)) (\<lambda>child.
     mbind (remember_listed I inode entries) (\<lambda>rest.
     mret (\<lparr>fe_inode = child, fe_name = de_name entry, fe_kind = de_kind entry, fe_metadata = de_metadata entry\<rparr> # rest)))))))"

definition remember_directory_snapshot :: "'w remote_fs \<Rightarrow> (bytes \<Rightarrow> bytes) \<Rightarrow> u64 \<Rightarrow> u64 \<Rightarrow> u64 \<Rightarrow> directory_entry list
    \<Rightarrow> ('w, fuse_listing) adop" where
  "remember_directory_snapshot I N inode parent_inode revision entries =
     mbind (mlift (validate_case_insensitive_directory N entries)) (\<lambda>_.
     mbind (reconcile_directory_entries inode (map de_name entries)) (\<lambda>_.
     mbind (remember_listed I inode entries) (\<lambda>listed.
     let listing = \<lparr>dl_parent_inode = parent_inode, dl_revision = revision, dl_entries = listed\<rparr> in
     mbind (mput (\<lambda>s. s\<lparr>ad_directories := AList.update inode \<lparr>dd_listing = listing, dd_discovered_at = now I s\<rparr> (ad_directories s)\<rparr>))
       (\<lambda>_. mret listing))))"

definition remember_directory_view :: "'w remote_fs \<Rightarrow> (bytes \<Rightarrow> bytes) \<Rightarrow> u64 \<Rightarrow> inode_rec \<Rightarrow> directory_view
    \<Rightarrow> ('w, fuse_listing) adop" where
  "remember_directory_view I N inode record view =
     mbind (mlift (fuse_metadata (ir_node record) (dv_directory view))) (\<lambda>_.
     mbind (require_that AeUnexpectedMetadata (md_kind (dv_directory view) = KDirectory)) (\<lambda>_.
     mbind (inode_record (ir_parent_inode record)) (\<lambda>parent.
     mbind (mlift (fuse_metadata (ir_node parent) (dv_parent view))) (\<lambda>_.
     mbind (require_that AeUnexpectedMetadata (md_kind (dv_parent view) = KDirectory)) (\<lambda>_.
     mbind (remember_metadata I (dv_directory view)) (\<lambda>_. mbind (remember_metadata I (dv_parent view)) (\<lambda>_.
     mbind (case dv_xattrs view of
         None \<Rightarrow> mret () | Some xattrs \<Rightarrow> remember_xattr_snapshot I (ir_node record) (md_revision (dv_directory view)) xattrs) (\<lambda>_.
     mbind (mfor (dv_entries view) (\<lambda>entry. case ve_xattrs entry of
         None \<Rightarrow> mret ()
       | Some xattrs \<Rightarrow> remember_xattr_snapshot I (de_node (ve_entry entry)) (md_revision (de_metadata (ve_entry entry))) xattrs)) (\<lambda>_.
     remember_directory_snapshot I N inode (ir_parent_inode record) (dv_revision view) (map ve_entry (dv_entries view)))))))))))"

definition readdir_async :: "'w remote_fs \<Rightarrow> (bytes \<Rightarrow> bytes) \<Rightarrow> u64 \<Rightarrow> ('w, fuse_listing) adop" where
  "readdir_async I N inode = mbind (cached_directory I inode) (\<lambda>hit. case hit of
     Some listing \<Rightarrow> mret listing
   | None \<Rightarrow> mbind (inode_record inode) (\<lambda>record. mbind (directory_operation (ir_node record)) (\<lambda>_.
       mbind (cached_directory I inode) (\<lambda>hit. case hit of
         Some listing \<Rightarrow> mret listing
       | None \<Rightarrow> mbind (execute I (\<lambda>d. remote_call I d (in_list_directory_view I (ir_node record) NATIVE)))
           (remember_directory_view I N inode record)))))"

definition lookup_from_listing :: "'w remote_fs \<Rightarrow> (bytes \<Rightarrow> bytes) \<Rightarrow> u64 \<Rightarrow> fuse_listing \<Rightarrow> name
    \<Rightarrow> ('w, u64 \<times> metadata) adop" where
  "lookup_from_listing I N parent_inode listing requested =
     mbind (mlift (select_entry_index N (map fe_name (dl_entries listing)) requested)) (\<lambda>i.
     let entry = dl_entries listing ! i in
     mbind (remember_entry (md_node (fe_metadata entry)) parent_inode (fe_name entry)) (\<lambda>inode.
     mbind (add_lookup inode 1) (\<lambda>_. mbind (remember_metadata I (fe_metadata entry)) (\<lambda>_. mret (inode, fe_metadata entry)))))"

definition lookup_async :: "'w remote_fs \<Rightarrow> (bytes \<Rightarrow> bytes) \<Rightarrow> u64 \<Rightarrow> name \<Rightarrow> ('w, u64 \<times> metadata) adop" where
  "lookup_async I N parent_inode x = mbind (mlift (fuse_name AeInvalidName x)) (\<lambda>_.
     mbind (cached_directory I parent_inode) (\<lambda>hit. case hit of
       Some listing \<Rightarrow> lookup_from_listing I N parent_inode listing x
     | None \<Rightarrow> mbind (find_entry_inode N parent_inode x) (\<lambda>found. case found of
         Some inode \<Rightarrow> mbind (getattr_async I inode) (\<lambda>m. mbind (add_lookup inode 1) (\<lambda>_. mret (inode, m)))
       | None \<Rightarrow> mbind (readdir_async I N parent_inode) (\<lambda>listing. lookup_from_listing I N parent_inode listing x))))"

definition opendir_async :: "'w remote_fs \<Rightarrow> (bytes \<Rightarrow> bytes) \<Rightarrow> u64 \<Rightarrow> ('w, u64) adop" where
  "opendir_async I N inode = mbind (cached_directory I inode) (\<lambda>hit.
     mbind (case hit of Some listing \<Rightarrow> mret listing | None \<Rightarrow> readdir_async I N inode) (\<lambda>listing.
     mbind (getattr_async I inode) (\<lambda>m.
     mbind (require_that (AeClient (CeServer NotDirectory ''node is not a directory'')) (md_kind m = KDirectory)) (\<lambda>_.
     mbind (if dl_parent_inode listing = inode then mret m else getattr_async I (dl_parent_inode listing)) (\<lambda>parent.
     mbind next_handle (\<lambda>h.
     mbind (mput (\<lambda>s. s\<lparr>ad_directory_handles := AList.update h
         \<lparr>dh_inode = inode, dh_listing = listing, dh_current = m, dh_parent = parent\<rparr> (ad_directory_handles s)\<rparr>)) (\<lambda>_.
     mret h)))))))"

definition directory_listing_with_metadata :: "u64 \<Rightarrow> u64 \<Rightarrow> ('w, fuse_listing \<times> metadata \<times> metadata) adop" where
  "directory_listing_with_metadata h inode s = (case map_of (ad_directory_handles s) h of
     None \<Rightarrow> (Inl AeUnknownDirectoryHandle, s)
   | Some r \<Rightarrow> if dh_inode r \<noteq> inode then (Inl AeHandleInodeMismatch, s)
       else (Inr (dh_listing r, dh_current r, dh_parent r), s))"

definition directory_listing :: "u64 \<Rightarrow> u64 \<Rightarrow> ('w, fuse_listing) adop" where
  "directory_listing h inode s = (case map_of (ad_directory_handles s) h of
     None \<Rightarrow> (Inl AeUnknownDirectoryHandle, s)
   | Some r \<Rightarrow> if dh_inode r \<noteq> inode then (Inl AeHandleInodeMismatch, s) else (Inr (dh_listing r), s))"

definition releasedir :: "u64 \<Rightarrow> ('w, unit) adop" where
  "releasedir h s = (case map_of (ad_directory_handles s) h of
     None \<Rightarrow> (Inl AeUnknownDirectoryHandle, s)
   | Some r \<Rightarrow> spawn (ReleasedEntriesTask (map fe_inode (dl_entries (dh_listing r))))
       (s\<lparr>ad_directory_handles := AList.delete h (ad_directory_handles s)\<rparr>))"

definition fsyncdir_async :: "'w remote_fs \<Rightarrow> u64 \<Rightarrow> u64 \<Rightarrow> ('w, unit) adop" where
  "fsyncdir_async I inode h = mbind (capabilities_async I) (\<lambda>c.
     if \<not> supports_directory_sync c then (if cap_writable c then mfail AeUnsupported else mret ())
     else mbind (directory_listing h inode) (\<lambda>_. mbind (inode_record inode) (\<lambda>r.
       execute I (\<lambda>d. remote_call I d (in_sync_directory I (ir_node r))))))"

subsection \<open>Opening and creating\<close>

text \<open>A handle that cannot be remembered is closed again.\<close>

definition open_remembered :: "'w remote_fs \<Rightarrow> nat \<Rightarrow> u64 \<Rightarrow> file_access \<Rightarrow> opened_file \<Rightarrow> ('w, u64) adop" where
  "open_remembered I deadline inode access opened s = (case remember_file_handle inode access opened s of
     (Inr h, t) \<Rightarrow> (Inr h, t)
   | (Inl e, t) \<Rightarrow> (case remote_call I deadline (in_close_file I (op_handle opened)) t of
       (Inl AeCallbackTimedOut, u) \<Rightarrow> (Inl AeCallbackTimedOut, u)
     | (_, u) \<Rightarrow> (Inl e, u)))"

definition open_async :: "'w remote_fs \<Rightarrow> u64 \<Rightarrow> file_open_options \<Rightarrow> ('w, u64) adop" where
  "open_async I inode options =
     mbind (if can_write (oo_access options) then mbind (fuse_writable I) (\<lambda>_. mret ()) else mret ()) (\<lambda>_.
     mbind (inode_record inode) (\<lambda>record.
     execute I (\<lambda>d. mbind (remote_call I d (in_open_file_with_options I (ir_node record) options))
       (open_remembered I d inode (oo_access options)))))"

text \<open>What every operation that makes a node does with the answer.\<close>

definition adopt_node :: "'w remote_fs \<Rightarrow> u64 \<Rightarrow> name \<Rightarrow> metadata \<Rightarrow> ('w, u64) adop" where
  "adopt_node I parent_inode x m = mbind (remember_metadata I m) (\<lambda>_. mbind (invalidate_directory parent_inode) (\<lambda>_.
     mbind (remember_entry (md_node m) parent_inode x) (\<lambda>inode. mbind (add_lookup inode 1) (\<lambda>_. mret inode))))"

definition create_file_async :: "'w remote_fs \<Rightarrow> u64 \<Rightarrow> name \<Rightarrow> u32 \<Rightarrow> file_open_options \<Rightarrow> ('w, created_and_opened) adop" where
  "create_file_async I parent_inode x mode options = mbind (fuse_writable I) (\<lambda>_.
     mbind (mlift (fuse_name AeInvalidName x)) (\<lambda>_. mbind (inode_record parent_inode) (\<lambda>parent.
     execute I (\<lambda>d. mbind (remote_call I d (in_create_file I (ir_node parent) x mode options)) (\<lambda>created.
       mbind (adopt_node I parent_inode x (cr_metadata created)) (\<lambda>inode.
       mbind (open_remembered I d inode (oo_access options) (cr_opened created)) (\<lambda>h.
       mret \<lparr>co_inode = inode, co_metadata = cr_metadata created, co_handle = h\<rparr>)))))))"

definition create_directory_async :: "'w remote_fs \<Rightarrow> u64 \<Rightarrow> name \<Rightarrow> u32 \<Rightarrow> ('w, u64 \<times> metadata) adop" where
  "create_directory_async I parent_inode x mode = mbind (fuse_writable I) (\<lambda>_.
     mbind (mlift (fuse_name AeInvalidName x)) (\<lambda>_. mbind (inode_record parent_inode) (\<lambda>parent.
     execute I (\<lambda>d. mbind (remote_call I d (in_create_directory I (ir_node parent) x mode)) (\<lambda>m.
       mbind (adopt_node I parent_inode x m) (\<lambda>inode. mret (inode, m)))))))"

definition create_symlink_async :: "'w remote_fs \<Rightarrow> u64 \<Rightarrow> name \<Rightarrow> bytes \<Rightarrow> ('w, u64 \<times> metadata) adop" where
  "create_symlink_async I parent_inode x target = mbind (require_writable_capability I supports_symlinks) (\<lambda>_.
     mbind (mlift (fuse_name AeInvalidName x)) (\<lambda>_. mbind (inode_record parent_inode) (\<lambda>parent.
     execute I (\<lambda>d. mbind (remote_call I d (in_create_symlink I (ir_node parent) x target)) (\<lambda>m.
       mbind (adopt_node I parent_inode x m) (\<lambda>inode. mret (inode, m)))))))"

definition create_special_node_async :: "'w remote_fs \<Rightarrow> u64 \<Rightarrow> name \<Rightarrow> special_node_kind \<Rightarrow> u32 \<Rightarrow> u32 \<Rightarrow> u32
    \<Rightarrow> ('w, u64 \<times> metadata) adop" where
  "create_special_node_async I parent_inode x kind mode major minor =
     mbind (require_writable_capability I supports_special_nodes) (\<lambda>_.
     mbind (mlift (fuse_name AeInvalidName x)) (\<lambda>_. mbind (inode_record parent_inode) (\<lambda>parent.
     execute I (\<lambda>d. mbind (remote_call I d (in_create_special_node I (ir_node parent) x kind mode major minor)) (\<lambda>m.
       mbind (adopt_node I parent_inode x m) (\<lambda>inode. mret (inode, m)))))))"

definition create_hard_link_async :: "'w remote_fs \<Rightarrow> u64 \<Rightarrow> u64 \<Rightarrow> name \<Rightarrow> ('w, u64 \<times> metadata) adop" where
  "create_hard_link_async I inode new_parent_inode new_name =
     mbind (require_writable_capability I supports_hard_links) (\<lambda>_.
     mbind (mlift (fuse_name AeInvalidName new_name)) (\<lambda>_. mbind (inode_record inode) (\<lambda>record.
     mbind (inode_record new_parent_inode) (\<lambda>new_parent.
     execute I (\<lambda>d. mbind (remote_call I d (in_create_hard_link I (ir_node record) (ir_node new_parent) new_name)) (\<lambda>m.
       mbind (mlift (fuse_metadata (ir_node record) m)) (\<lambda>_. mbind (invalidate_node_views (ir_node record)) (\<lambda>_.
       mbind (invalidate_directory new_parent_inode) (\<lambda>_. mbind (remember_metadata I m) (\<lambda>_.
       mbind (remember_entry (ir_node record) new_parent_inode new_name) (\<lambda>linked. mbind (add_lookup linked 1) (\<lambda>_.
       mret (linked, m)))))))))))))"

definition readlink_async :: "'w remote_fs \<Rightarrow> u64 \<Rightarrow> ('w, bytes) adop" where
  "readlink_async I inode = mbind (require_capability I supports_symlinks) (\<lambda>_. mbind (inode_record inode) (\<lambda>record.
     execute I (\<lambda>d. remote_call I d (in_read_link I (ir_node record)))))"

subsection \<open>Removing, renaming, changing\<close>

definition invalidate_known :: "node_id option \<Rightarrow> ('w, unit) adop" where
  "invalidate_known n = (case n of None \<Rightarrow> mret () | Some node \<Rightarrow> invalidate_node_views node)"

definition remove_async :: "'w remote_fs \<Rightarrow> u64 \<Rightarrow> name \<Rightarrow> bool \<Rightarrow> ('w, unit) adop" where
  "remove_async I parent_inode x directory = mbind (fuse_writable I) (\<lambda>_.
     mbind (mlift (fuse_name AeInvalidName x)) (\<lambda>_. mbind (inode_record parent_inode) (\<lambda>parent.
     mbind (mget (entry_node parent_inode x)) (\<lambda>removed_node.
     execute I (\<lambda>d. mbind (remote_call I d (in_remove_node I (ir_node parent) x directory)) (\<lambda>_.
       mbind (invalidate_directory parent_inode) (\<lambda>_. mbind (invalidate_known removed_node) (\<lambda>_. forget_entry parent_inode x))))))))"

definition rename_async :: "'w remote_fs \<Rightarrow> u64 \<Rightarrow> name \<Rightarrow> u64 \<Rightarrow> name \<Rightarrow> rename_mode \<Rightarrow> ('w, unit) adop" where
  "rename_async I parent_inode x new_parent_inode new_name mode =
     mbind (require_writable_capability I supports_atomic_rename) (\<lambda>_.
     mbind (mlift (fuse_name AeInvalidName x)) (\<lambda>_. mbind (mlift (fuse_name AeInvalidName new_name)) (\<lambda>_.
     mbind (inode_record parent_inode) (\<lambda>parent. mbind (inode_record new_parent_inode) (\<lambda>new_parent.
     mbind (mget (entry_node parent_inode x)) (\<lambda>source_node.
     mbind (mget (entry_node new_parent_inode new_name)) (\<lambda>destination_node.
     execute I (\<lambda>d. mbind (remote_call I d (in_rename_node I (ir_node parent) x (ir_node new_parent) new_name mode)) (\<lambda>_.
       mbind (invalidate_directory parent_inode) (\<lambda>_. mbind (invalidate_directory new_parent_inode) (\<lambda>_.
       mbind (invalidate_known source_node) (\<lambda>_. mbind (invalidate_known destination_node) (\<lambda>_.
       move_entry parent_inode x new_parent_inode new_name mode)))))))))))))"

definition setattr_async :: "'w remote_fs \<Rightarrow> u64 \<Rightarrow> u64 option \<Rightarrow> attribute_changes \<Rightarrow> ('w, metadata) adop" where
  "setattr_async I inode h changes = mbind (fuse_writable I) (\<lambda>_. mbind (inode_record inode) (\<lambda>record.
     mbind (case h of None \<Rightarrow> mret () | Some h \<Rightarrow> file_operation h) (\<lambda>_.
     mbind (case h of
         Some h \<Rightarrow> flush_pending I h
       | None \<Rightarrow> if ac_size changes \<noteq> None then flush_pending_for_inode I inode else mret ()) (\<lambda>_.
     mbind (case h of
         None \<Rightarrow> mret None
       | Some h \<Rightarrow> mbind (fuse_file_handle h) (\<lambda>opened.
           if fh_inode opened \<noteq> inode then mfail AeHandleInodeMismatch else mret (Some (fh_remote opened)))) (\<lambda>remote_handle.
     mbind (execute I (\<lambda>d. mbind (remote_call I d (in_set_attributes I (ir_node record) remote_handle changes)) (\<lambda>m.
         mbind (mlift (fuse_metadata (ir_node record) m)) (\<lambda>_. mret m)))) (\<lambda>m.
     mbind (invalidate_node_views (ir_node record)) (\<lambda>_. mbind (remember_metadata I m) (\<lambda>_.
     mbind (case h of None \<Rightarrow> mret () | Some h \<Rightarrow> update_file_handle h (md_revision m) (md_size m)) (\<lambda>_. mret m)))))))))"

definition exchange_data_async :: "'w remote_fs \<Rightarrow> u64 \<Rightarrow> name \<Rightarrow> u64 \<Rightarrow> name \<Rightarrow> u64 \<Rightarrow> ('w, unit) adop" where
  "exchange_data_async I parent_inode x new_parent_inode new_name options =
     mbind (require_writable_capability I supports_exchange_data) (\<lambda>_.
     mbind (mlift (fuse_name AeInvalidName x)) (\<lambda>_. mbind (mlift (fuse_name AeInvalidName new_name)) (\<lambda>_.
     mbind (mget (entry_node parent_inode x)) (\<lambda>source_node.
     mbind (mget (entry_node new_parent_inode new_name)) (\<lambda>destination_node.
     mbind (inode_record parent_inode) (\<lambda>parent. mbind (inode_record new_parent_inode) (\<lambda>new_parent.
     mbind (execute I (\<lambda>d. remote_call I d (in_exchange_data I (ir_node parent) x (ir_node new_parent) new_name options))) (\<lambda>_.
     mbind (invalidate_known source_node) (\<lambda>_. invalidate_known destination_node)))))))))"

definition map_block_async :: "'w remote_fs \<Rightarrow> u64 \<Rightarrow> u32 \<Rightarrow> u64 \<Rightarrow> ('w, u64) adop" where
  "map_block_async I inode block_size block = mbind (require_capability I supports_bmap) (\<lambda>_.
     mbind (inode_record inode) (\<lambda>r. execute I (\<lambda>d. remote_call I d (in_map_block I (ir_node r) block_size block))))"

subsection \<open>Extended attributes\<close>

definition xattr_size_async :: "'w remote_fs \<Rightarrow> u64 \<Rightarrow> name \<Rightarrow> ('w, u64) adop" where
  "xattr_size_async I inode x = mbind (require_capability I supports_xattrs) (\<lambda>_. mbind (inode_record inode) (\<lambda>r.
     mbind (mget (\<lambda>s. case known_metadata_revision (ir_node r) s of None \<Rightarrow> 0 | Some v \<Rightarrow> v)) (\<lambda>revision.
     mbind (cached_xattrs I (ir_node r)) (\<lambda>cached.
     if (case cached of None \<Rightarrow> False | Some c \<Rightarrow> x \<notin> set (dx_names c)) then mfail no_attribute_error
     else (case (case cached of None \<Rightarrow> None | Some c \<Rightarrow> map_of (dx_sizes c) x) of
         Some sz \<Rightarrow> mret sz
       | None \<Rightarrow> mbind (execute I (\<lambda>d. mbind (remote_call I d (in_get_xattr I (ir_node r) x 0 0)) (\<lambda>(total_size, _).
             if total_size > MAX_FUSE_XATTR_SIZE then mfail (AeRequestTooLarge MAX_FUSE_XATTR_SIZE) else mret total_size))) (\<lambda>sz.
           mbind (remember_xattr_size I (ir_node r) revision x sz) (\<lambda>_. mret sz)))))))"

text \<open>The chunks of a value after the first; the chunk size is not zero.\<close>

function xattr_read_loop :: "'w remote_fs \<Rightarrow> nat \<Rightarrow> node_id \<Rightarrow> name \<Rightarrow> u64 \<Rightarrow> u64 \<Rightarrow> bytes \<Rightarrow> ('w, bytes) adop" where
  "xattr_read_loop I deadline node x chunk total_size val s =
     (if length val < total_size \<and> 0 < chunk
      then let amount = min (total_size - length val) chunk in
        (case remote_call I deadline (in_get_xattr I node x (length val) amount) s of
           (Inl e, t) \<Rightarrow> (Inl e, t)
         | (Inr (announced, data), t) \<Rightarrow>
             if announced \<noteq> total_size \<or> length data \<noteq> amount then (Inl AeUnexpectedReadLength, t)
             else xattr_read_loop I deadline node x chunk total_size (val @ data) t)
      else (Inr val, s))"
  by pat_completeness auto
termination by (relation "measure (\<lambda>(_, _, _, _, _, total_size, val, _). total_size - length val)") auto

declare xattr_read_loop.simps [simp del]

definition get_xattr_async :: "'w remote_fs \<Rightarrow> u64 \<Rightarrow> name \<Rightarrow> ('w, bytes) adop" where
  "get_xattr_async I inode x = mbind (require_capability I supports_xattrs) (\<lambda>c. mbind (inode_record inode) (\<lambda>r.
     let chunk = min (cap_max_read_size c) CLIENT_READ_LIMIT; node = ir_node r in
     mbind (require_that AeInvalidCapabilities (chunk \<noteq> 0)) (\<lambda>_.
     mbind (mget (\<lambda>s. case known_metadata_revision node s of None \<Rightarrow> 0 | Some v \<Rightarrow> v)) (\<lambda>revision.
     mbind (cached_xattrs I node) (\<lambda>cached.
     if (case cached of None \<Rightarrow> False | Some c \<Rightarrow> x \<notin> set (dx_names c)) then mfail no_attribute_error
     else (case (case cached of None \<Rightarrow> None | Some c \<Rightarrow> map_of (dx_values c) x) of
         Some val \<Rightarrow> mret val
       | None \<Rightarrow>
           mbind (execute I (\<lambda>d.
             mbind (case (case cached of None \<Rightarrow> None | Some c \<Rightarrow> map_of (dx_sizes c) x) of
                 Some total_size \<Rightarrow> mret (total_size, [])
               | None \<Rightarrow> mbind (remote_call I d (in_get_xattr I node x 0 chunk)) (\<lambda>(total_size, data).
                   if length data \<noteq> min total_size chunk then mfail AeUnexpectedReadLength else mret (total_size, data)))
             (\<lambda>(total_size, val). if total_size > MAX_FUSE_XATTR_SIZE then mfail (AeRequestTooLarge MAX_FUSE_XATTR_SIZE)
                else xattr_read_loop I d node x chunk total_size val))) (\<lambda>val.
           mbind (remember_xattr_value I node revision x val) (\<lambda>_. mret val))))))))"

function xattr_write_loop :: "'w remote_fs \<Rightarrow> nat \<Rightarrow> node_id \<Rightarrow> name \<Rightarrow> xattr_set_mode \<Rightarrow> u32 \<Rightarrow> u64 \<Rightarrow> bytes \<Rightarrow> u64 \<Rightarrow> ('w, unit) adop" where
  "xattr_write_loop I deadline node x mode position chunk val consumed s =
     (if consumed < length val \<and> 0 < chunk
      then let amount = min (length val - consumed) chunk in
        if position + consumed > U32_MAX then (Inl AeInvalidRange, s)
        else (case remote_call I deadline (in_set_xattr I node x (take amount (drop consumed val))
                     (if consumed = 0 then mode else XReplace) (position + consumed)) s of
            (Inl e, t) \<Rightarrow> (Inl e, t)
          | (Inr _, t) \<Rightarrow> xattr_write_loop I deadline node x mode position chunk val (consumed + amount) t)
      else (Inr (), s))"
  by pat_completeness auto
termination by (relation "measure (\<lambda>(_, _, _, _, _, _, _, val, consumed, _). length val - consumed)") auto

declare xattr_write_loop.simps [simp del]

definition set_xattr_async :: "'w remote_fs \<Rightarrow> u64 \<Rightarrow> name \<Rightarrow> bytes \<Rightarrow> xattr_set_mode \<Rightarrow> u32 \<Rightarrow> ('w, unit) adop" where
  "set_xattr_async I inode x val mode position = mbind (require_writable_capability I supports_xattrs) (\<lambda>c.
     mbind (require_that (AeRequestTooLarge MAX_FUSE_XATTR_SIZE) (length val \<le> MAX_FUSE_XATTR_SIZE)) (\<lambda>_.
     let chunk = min (cap_max_write_size c) CLIENT_WRITE_LIMIT in
     mbind (require_that AeInvalidCapabilities (chunk \<noteq> 0)) (\<lambda>_. mbind (inode_record inode) (\<lambda>r.
     mbind (execute I (\<lambda>d. if val = [] then remote_call I d (in_set_xattr I (ir_node r) x [] mode position)
         else xattr_write_loop I d (ir_node r) x mode position chunk val 0)) (\<lambda>_.
     invalidate_node_views (ir_node r))))))"

definition list_xattrs_async :: "'w remote_fs \<Rightarrow> u64 \<Rightarrow> ('w, name list) adop" where
  "list_xattrs_async I inode = mbind (require_capability I supports_xattrs) (\<lambda>_. mbind (inode_record inode) (\<lambda>r.
     mbind (cached_xattrs I (ir_node r)) (\<lambda>cached. case cached of
       Some c \<Rightarrow> mret (dx_names c)
     | None \<Rightarrow>
         mbind (mget (\<lambda>s. case known_metadata_revision (ir_node r) s of None \<Rightarrow> 0 | Some v \<Rightarrow> v)) (\<lambda>revision.
         mbind (execute I (\<lambda>d. remote_call I d (in_list_xattrs I (ir_node r)))) (\<lambda>names.
         mbind (remember_xattr_snapshot I (ir_node r) revision \<lparr>xs_names = names, xs_inline_values = []\<rparr>) (\<lambda>_. mret names))))))"

definition remove_xattr_async :: "'w remote_fs \<Rightarrow> u64 \<Rightarrow> name \<Rightarrow> ('w, unit) adop" where
  "remove_xattr_async I inode x = mbind (require_writable_capability I supports_xattrs) (\<lambda>_. mbind (inode_record inode) (\<lambda>r.
     mbind (execute I (\<lambda>d. remote_call I d (in_remove_xattr I (ir_node r) x))) (\<lambda>_. invalidate_node_views (ir_node r))))"

subsection \<open>The volume\<close>

definition set_volume_name_async :: "'w remote_fs \<Rightarrow> name \<Rightarrow> ('w, unit) adop" where
  "set_volume_name_async I x = mbind (require_writable_capability I supports_volume_rename) (\<lambda>_.
     mbind (require_that AeInvalidName (utf8_valid x)) (\<lambda>_.
     mbind (execute I (\<lambda>d. remote_call I d (in_set_volume_name I x))) (\<lambda>_.
     mput (\<lambda>s. s\<lparr>ad_capabilities := map_option (\<lambda>c. c\<lparr>cap_volume_name := x\<rparr>) (ad_capabilities s)\<rparr>))))"

definition statfs_async :: "'w remote_fs \<Rightarrow> ('w, filesystem_stats) adop" where
  "statfs_async I s = (case ad_stats s of
     Some (fetched_at, statistics) \<Rightarrow>
       if now I s - fetched_at \<ge> FILESYSTEM_STATS_TTL \<and> \<not> ad_stats_refreshing s
       then mbind (spawn RefreshStatsTask) (\<lambda>_. mret statistics) (s\<lparr>ad_stats_refreshing := True\<rparr>)
       else (Inr statistics, s)
   | None \<Rightarrow> mbind (execute I (\<lambda>d. remote_call I d (in_stat_filesystem I))) (\<lambda>statistics.
       mbind (mput (\<lambda>t. t\<lparr>ad_stats := Some (now I t, statistics)\<rparr>)) (\<lambda>_. mret statistics)) s)"

definition prewarm_for_mount :: "'w remote_fs \<Rightarrow> (bytes \<Rightarrow> bytes) \<Rightarrow> ('w, unit) adop" where
  "prewarm_for_mount I N = mbind (readdir_async I N ROOT_INODE) (\<lambda>_. mbind (getattr_async I ROOT_INODE) (\<lambda>_.
     mbind (statfs_async I) (\<lambda>_. mret ())))"

definition destroy_mount :: "'w adapter \<Rightarrow> 'w adapter" where
  "destroy_mount s = s\<lparr>ad_handles := [], ad_operations := [], ad_directory_handles := [], ad_directories := [],
     ad_xattrs := [], ad_directory_operations := [],
     ad_tasks := ad_tasks s @ map (\<lambda>(_, r). CleanupTask (fh_remote r)) (ad_handles s)\<rparr>"

subsection \<open>Spawned work\<close>

fun run_adapter_task :: "'w remote_fs \<Rightarrow> adapter_task \<Rightarrow> 'w adapter \<Rightarrow> 'w adapter" where
  "run_adapter_task I (ForgetNodesTask nodes) s = snd (execute I (\<lambda>d. remote_call I d (in_forget_nodes I nodes)) s)"
| "run_adapter_task I (CloseTask f) s = snd (execute I (\<lambda>d. remote_call I d (in_close_file I f)) s)"
| "run_adapter_task I RefreshStatsTask s =
     (let (r, t) = execute I (\<lambda>d. remote_call I d (in_stat_filesystem I)) s
      in (case r of Inl _ \<Rightarrow> t | Inr statistics \<Rightarrow> t\<lparr>ad_stats := Some (now I t, statistics)\<rparr>)\<lparr>ad_stats_refreshing := False\<rparr>)"
| "run_adapter_task I (ReleasedEntriesTask inodes) s = snd (forget_inodes (map (\<lambda>i. (i, 0)) inodes) s)"
| "run_adapter_task I (CleanupTask f) s =
     snd (remote_call I (now I s + MOUNT_CLEANUP_TIMEOUT) (in_close_file I f) s)"

end
