(* ===== verification/Adapter_Laws.thy ===== *)
theory Adapter_Laws
  imports Adapter_Nodes Triples
begin

text \<open>
  The callbacks of the adapter as data, the states they reach, and the well-formedness of the adapter's
  tables.
\<close>

subsection \<open>Callbacks and reachable states\<close>

datatype (plugins only: code size) adapter_op = FuCapabilities | FuPrewarm | FuLookup u64 name | FuGetattr u64 | FuReaddir u64 | FuOpendir u64
  | FuReleasedir u64 | FuFsyncdir u64 u64 | FuOpen u64 file_open_options | FuCreate u64 name u32 file_open_options
  | FuMkdir u64 name u32 | FuSymlink u64 name bytes | FuLink u64 u64 name | FuMknod u64 name special_node_kind u32 u32 u32
  | FuReadlink u64 | FuRemove u64 name bool | FuRename u64 name u64 name rename_mode | FuSetattr u64 "u64 option" attribute_changes
  | FuRead u64 u64 u64 | FuWrite u64 u64 bytes | FuFlush u64 "u64 option" | FuFsync u64 bool | FuAllocate u64 u64 u64
  | FuCopy u64 u64 u64 u64 u64 | FuLseek u64 u64 seek_whence | FuIoctl u64 safe_ioctl | FuBmap u64 u32 u64
  | FuExchange u64 name u64 name u64 | FuSetVolumeName name | FuGetLock u64 file_lock | FuSetLock u64 file_lock bool
  | FuStatfs | FuXattrSize u64 name | FuGetXattr u64 name | FuSetXattr u64 name bytes xattr_set_mode u32 | FuListXattrs u64
  | FuRemoveXattr u64 name | FuRelease u64 bool "u64 option" | FuForget "(u64 \<times> u64) list" | FuDestroy

fun run_adapter_op :: "'w remote_fs \<Rightarrow> (bytes \<Rightarrow> bytes) \<Rightarrow> adapter_op \<Rightarrow> 'w adapter \<Rightarrow> 'w adapter" where
  "run_adapter_op I N FuCapabilities s = snd (capabilities_async I s)"
| "run_adapter_op I N FuPrewarm s = snd (prewarm_for_mount I N s)"
| "run_adapter_op I N (FuLookup p x) s = snd (lookup_async I N p x s)"
| "run_adapter_op I N (FuGetattr i) s = snd (getattr_async I i s)"
| "run_adapter_op I N (FuReaddir i) s = snd (readdir_async I N i s)"
| "run_adapter_op I N (FuOpendir i) s = snd (opendir_async I N i s)"
| "run_adapter_op I N (FuReleasedir h) s = snd (releasedir h s)"
| "run_adapter_op I N (FuFsyncdir i h) s = snd (fsyncdir_async I i h s)"
| "run_adapter_op I N (FuOpen i opts) s = snd (open_async I i opts s)"
| "run_adapter_op I N (FuCreate p x m opts) s = snd (create_file_async I p x m opts s)"
| "run_adapter_op I N (FuMkdir p x m) s = snd (create_directory_async I p x m s)"
| "run_adapter_op I N (FuSymlink p x t) s = snd (create_symlink_async I p x t s)"
| "run_adapter_op I N (FuLink i p x) s = snd (create_hard_link_async I i p x s)"
| "run_adapter_op I N (FuMknod p x k m ma mi) s = snd (create_special_node_async I p x k m ma mi s)"
| "run_adapter_op I N (FuReadlink i) s = snd (readlink_async I i s)"
| "run_adapter_op I N (FuRemove p x d) s = snd (remove_async I p x d s)"
| "run_adapter_op I N (FuRename p x q y m) s = snd (rename_async I p x q y m s)"
| "run_adapter_op I N (FuSetattr i h c) s = snd (setattr_async I i h c s)"
| "run_adapter_op I N (FuRead h off len) s = snd (read_async I h off len s)"
| "run_adapter_op I N (FuWrite h off d) s = snd (write_async I h off d s)"
| "run_adapter_op I N (FuFlush h own) s = snd (flush_async I h own s)"
| "run_adapter_op I N (FuFsync h d) s = snd (fsync_async I h d s)"
| "run_adapter_op I N (FuAllocate h off len) s = snd (allocate_async I h off len s)"
| "run_adapter_op I N (FuCopy i io ou oo len) s = snd (copy_file_range_async I i io ou oo len s)"
| "run_adapter_op I N (FuLseek h off wh) s = snd (lseek_async I h off wh s)"
| "run_adapter_op I N (FuIoctl h x) s = snd (safe_ioctl_async I h x s)"
| "run_adapter_op I N (FuBmap i bs b) s = snd (map_block_async I i bs b s)"
| "run_adapter_op I N (FuExchange p x q y opts) s = snd (exchange_data_async I p x q y opts s)"
| "run_adapter_op I N (FuSetVolumeName x) s = snd (set_volume_name_async I x s)"
| "run_adapter_op I N (FuGetLock h l) s = snd (get_lock_async I h l s)"
| "run_adapter_op I N (FuSetLock h l w) s = snd (set_lock_async I h l w s)"
| "run_adapter_op I N FuStatfs s = snd (statfs_async I s)"
| "run_adapter_op I N (FuXattrSize i x) s = snd (xattr_size_async I i x s)"
| "run_adapter_op I N (FuGetXattr i x) s = snd (get_xattr_async I i x s)"
| "run_adapter_op I N (FuSetXattr i x v m pos) s = snd (set_xattr_async I i x v m pos s)"
| "run_adapter_op I N (FuListXattrs i) s = snd (list_xattrs_async I i s)"
| "run_adapter_op I N (FuRemoveXattr i x) s = snd (remove_xattr_async I i x s)"
| "run_adapter_op I N (FuRelease h f own) s = snd (release_async I h f own s)"
| "run_adapter_op I N (FuForget requests) s = snd (forget_inodes requests s)"
| "run_adapter_op I N FuDestroy s = destroy_mount s"

text \<open>A step is a callback, or a spawned task that runs.\<close>

inductive adapter_reach :: "'w remote_fs \<Rightarrow> (bytes \<Rightarrow> bytes) \<Rightarrow> 'w adapter \<Rightarrow> 'w adapter \<Rightarrow> bool"
  for I :: "'w remote_fs" and N and s0 :: "'w adapter" where
  fuse_start: "adapter_reach I N s0 s0"
| fuse_op: "adapter_reach I N s0 s \<Longrightarrow> adapter_reach I N s0 (run_adapter_op I N op s)"
| fuse_task: "adapter_reach I N s0 s \<Longrightarrow> task \<in> set (ad_tasks s) \<Longrightarrow>
    adapter_reach I N s0 (run_adapter_task I task (s\<lparr>ad_tasks := remove1 task (ad_tasks s)\<rparr>))"

subsection \<open>The tables\<close>

record tables =
  tb_inodes :: inode_table
  tb_next_inode :: u64
  tb_handles :: "(u64 \<times> file_handle_record) list"
  tb_pending :: "(u64 \<times> pending_write) list"
  tb_operations :: "(u64 \<times> unit) list"
  tb_directory_handles :: "(u64 \<times> directory_handle_record) list"
  tb_next_handle :: u64

definition tables_of :: "'w adapter \<Rightarrow> tables" where
  "tables_of s = \<lparr>tb_inodes = ad_inodes s, tb_next_inode = ad_next_inode s, tb_handles = ad_handles s,
     tb_pending = ad_pending s, tb_operations = ad_operations s, tb_directory_handles = ad_directory_handles s,
     tb_next_handle = ad_next_handle s\<rparr>"

abbreviation known_inode :: "inode_table \<Rightarrow> u64 \<Rightarrow> bool" where
  "known_inode t i \<equiv> map_of (it_by_inode t) i \<noteq> None"

text \<open>
  Inodes and nodes determine each other, the root stays, names and reference counts are of known inodes, numbers
  handed out are below the next one.
\<close>

definition inodes_ok :: "inode_table \<Rightarrow> u64 \<Rightarrow> bool" where
  "inodes_ok t next_inode \<longleftrightarrow>
     distinct_keys (it_by_entry t) \<and>
     (\<forall>n i. map_of (it_by_node t) n = Some i \<longleftrightarrow> (\<exists>r. map_of (it_by_inode t) i = Some r \<and> ir_node r = n)) \<and>
     map_of (it_by_node t) ROOT_NODE = Some ROOT_INODE \<and>
     (\<forall>i. known_inode t i \<longrightarrow> i < next_inode) \<and>
     (\<forall>k i. map_of (it_by_entry t) k = Some i \<longrightarrow> known_inode t i) \<and>
     (\<forall>i. map_of (it_lookups t) i \<noteq> None \<longrightarrow> known_inode t i)"

text \<open>
  Open handles, of files and of directories, are of known inodes and have numbers of their own; the files have
  guards; buffered bytes of an open handle are of its inode, of a handle opened for writing, and end
  below the largest offset.
\<close>

definition handles_ok :: "tables \<Rightarrow> bool" where
  "handles_ok b \<longleftrightarrow>
     distinct_keys (tb_handles b) \<and> distinct_keys (tb_directory_handles b) \<and>
     (\<forall>h r. map_of (tb_handles b) h = Some r \<longrightarrow> h < tb_next_handle b \<and> known_inode (tb_inodes b) (fh_inode r) \<and>
        map_of (tb_directory_handles b) h = None) \<and>
     (\<forall>h r. map_of (tb_directory_handles b) h = Some r \<longrightarrow> h < tb_next_handle b \<and> known_inode (tb_inodes b) (dh_inode r)) \<and>
     (\<forall>h. map_of (tb_operations b) h \<noteq> None \<longleftrightarrow> map_of (tb_handles b) h \<noteq> None) \<and>
     (\<forall>h p. map_of (tb_pending b) h = Some p \<longrightarrow> h < tb_next_handle b \<and>
        pw_start p + length (pw_buffer p) \<le> U64_MAX \<and>
        (\<forall>r. map_of (tb_handles b) h = Some r \<longrightarrow> fh_inode r = pw_inode p \<and> can_write (fh_access r)))"

definition tables_ok :: "tables \<Rightarrow> bool" where
  "tables_ok b \<longleftrightarrow> inodes_ok (tb_inodes b) (tb_next_inode b) \<and> handles_ok b"

text \<open>An inode of \<open>b\<close> that is known in \<open>c\<close> is the same node there.\<close>

definition same_nodes :: "tables \<Rightarrow> tables \<Rightarrow> bool" where
  "same_nodes b c \<longleftrightarrow> tb_next_inode b \<le> tb_next_inode c \<and>
     (\<forall>i r. i < tb_next_inode b \<longrightarrow> map_of (it_by_inode (tb_inodes c)) i = Some r \<longrightarrow>
        (\<exists>r'. map_of (it_by_inode (tb_inodes b)) i = Some r' \<and> ir_node r' = ir_node r))"

definition sound_after :: "tables \<Rightarrow> tables \<Rightarrow> bool" where
  "sound_after b c \<longleftrightarrow> tables_ok c \<and> same_nodes b c"

end
