(* ===== verification/Adapter_Reads.thy ===== *)
theory Adapter_Reads
  imports Adapter_Laws
begin

text \<open>
  A rule for the read loop of the adapter: an invariant of its state, what a returned assembly satisfies and
  what holds when it fails.
\<close>

abbreviation outcome :: "('a \<Rightarrow> 'w adapter \<Rightarrow> bool) \<Rightarrow> ('w adapter \<Rightarrow> bool) \<Rightarrow> (adapter_error + 'a) \<times> 'w adapter \<Rightarrow> bool" where
  "outcome Q E r \<equiv> (case r of (Inr x, t) \<Rightarrow> Q x t | (Inl e, t) \<Rightarrow> E t)"

abbreviation drifted :: "u64 \<Rightarrow> range_read \<Rightarrow> bool" where
  "drifted expected r \<equiv> rr_revision r \<noteq> 0 \<and> expected \<noteq> 0 \<and> rr_revision r \<noteq> expected"

abbreviation pinned_revision :: "u64 \<Rightarrow> range_read \<Rightarrow> u64" where
  "pinned_revision expected r \<equiv> (if rr_revision r \<noteq> 0 then rr_revision r else expected)"

locale read_loop_invariant =
  fixes I :: "'w remote_fs" and d :: nat and f :: file_handle and offset len limit :: u64
    and J :: "bytes \<Rightarrow> u64 \<Rightarrow> u64 \<Rightarrow> u64 \<Rightarrow> bool \<Rightarrow> 'w adapter \<Rightarrow> bool"
    and Q :: "bytes \<Rightarrow> 'w adapter \<Rightarrow> bool" and E :: "'w adapter \<Rightarrow> bool"
  assumes limit: "0 < limit"
    and fails: "J data remaining position expected restarted s \<Longrightarrow> 0 < remaining \<Longrightarrow>
      remote_call I d (in_read_range_versioned I f position (min remaining limit)) s = (r, u) \<Longrightarrow> E u"
    and restarts: "J data remaining position expected False s \<Longrightarrow> 0 < remaining \<Longrightarrow>
      remote_call I d (in_read_range_versioned I f position (min remaining limit)) s = (Inr result, u) \<Longrightarrow>
      drifted expected result \<Longrightarrow> J [] len offset 0 True u"
    and short: "J data remaining position expected restarted s \<Longrightarrow> 0 < remaining \<Longrightarrow>
      remote_call I d (in_read_range_versioned I f position (min remaining limit)) s = (Inr result, u) \<Longrightarrow>
      \<not> drifted expected result \<Longrightarrow> length (rr_data result) < min remaining limit \<Longrightarrow> Q (data @ rr_data result) u"
    and chunk: "J data remaining position expected restarted s \<Longrightarrow> 0 < remaining \<Longrightarrow>
      remote_call I d (in_read_range_versioned I f position (min remaining limit)) s = (Inr result, u) \<Longrightarrow>
      \<not> drifted expected result \<Longrightarrow> length (rr_data result) = min remaining limit \<Longrightarrow>
      J (data @ rr_data result) (remaining - min remaining limit) (position + min remaining limit) (pinned_revision expected result) restarted u"
    and whole: "J data 0 position expected restarted s \<Longrightarrow> Q data s"
begin

abbreviation run :: "bytes \<Rightarrow> u64 \<Rightarrow> u64 \<Rightarrow> u64 \<Rightarrow> bool \<Rightarrow> ('w, bytes) adop" where
  "run \<equiv> read_loop I d f offset len limit"

lemma loop_step:
  assumes "J data remaining position expected restarted s"
    and again: "\<And>u. \<not> restarted \<Longrightarrow> J [] len offset 0 True u \<Longrightarrow> outcome Q E (run [] len offset 0 True u)"
    and next_chunk: "\<And>data' remaining' position' expected' u. 0 < remaining \<Longrightarrow> remaining' < remaining \<Longrightarrow>
      J data' remaining' position' expected' restarted u \<Longrightarrow> outcome Q E (run data' remaining' position' expected' restarted u)"
  shows "outcome Q E (run data remaining position expected restarted s)"
proof (cases "remaining = 0")
  case True
  then show ?thesis using whole assms(1) by (simp add: read_loop.simps [of _ _ _ _ _ _ _ 0])
next
  case False
  define q where "q = min remaining limit"
  have q: "0 < q" "q \<le> remaining" "0 < remaining" using False limit by (simp_all add: q_def)
  obtain r u where call: "remote_call I d (in_read_range_versioned I f position q) s = (r, u)" by (metis prod.exhaust)
  note facts = assms(1) q(3) call [unfolded q_def]
  note fail = fails [OF facts]
  have eq: "run data remaining position expected restarted s = (case r of
      Inl e \<Rightarrow> (Inl e, u)
    | Inr result \<Rightarrow>
        if length (rr_data result) > q then (Inl AeUnexpectedReadLength, u)
        else if drifted expected result then (if restarted then (Inl AeStaleRevision, u) else run [] len offset 0 True u)
        else if length (rr_data result) < q then (Inr (data @ rr_data result), u)
        else (case checked_add position (length (rr_data result)) of
            None \<Rightarrow> (Inl AeInvalidRange, u)
          | Some position' \<Rightarrow> run (data @ rr_data result) (remaining - length (rr_data result)) position'
              (pinned_revision expected result) restarted u))"
    using q(3) limit by (subst read_loop.simps, fold q_def) (simp only: call Let_def prod.case if_True simp_thms split: sum.split)
  show ?thesis
  proof (cases r)
    case (Inl e)
    then show ?thesis using fail by (simp add: eq)
  next
    case (Inr result)
    note got = facts [unfolded Inr]
    have "outcome Q E (if restarted then (Inl AeStaleRevision, u) else run [] len offset 0 True u)" if "drifted expected result"
      using fail again [of u] restarts [OF _ got(2,3) that, of data] assms(1) by (cases restarted) auto
    moreover have "Q (data @ rr_data result) u" if "\<not> drifted expected result" "length (rr_data result) < q"
      using short [OF got that(1) that(2) [unfolded q_def]] .
    moreover have "outcome Q E (run (data @ rr_data result) (remaining - q) (position + q) (pinned_revision expected result) restarted u)"
      if "\<not> drifted expected result" "length (rr_data result) = q"
      using next_chunk [OF q(3) _ chunk [OF got that(1) that(2) [unfolded q_def]], folded q_def] q by simp
    ultimately show ?thesis
      using fail by (auto simp: eq Inr not_less split: option.split)
  qed
qed

lemma loop_restarted: "J data remaining position expected True s \<Longrightarrow> outcome Q E (run data remaining position expected True s)"
proof (induction remaining arbitrary: data position expected s rule: less_induct)
  case (less remaining)
  show ?case by (rule loop_step [OF less.prems]) (use less.IH in auto)
qed

lemma loop_outcome: "J data remaining position expected restarted s \<Longrightarrow> outcome Q E (run data remaining position expected restarted s)"
proof (induction remaining arbitrary: data position expected s rule: less_induct)
  case (less remaining)
  show ?case by (rule loop_step [OF less.prems]) (use less.IH loop_restarted in auto)
qed

end

end
