(* ===== verification/Adapter_Invariant.thy ===== *)
theory Adapter_Invariant
  imports Adapter_Reads
begin

text \<open>
  Every callback and every spawned task of the adapter keeps its tables well formed, and an inode number is never
  given to a second node.
\<close>

subsection \<open>What leaves the tables alone\<close>

abbreviation sound :: "tables \<Rightarrow> 'w adapter \<Rightarrow> bool" where
  "sound b s \<equiv> sound_after b (tables_of s)"

abbreviation sound_at :: "tables \<Rightarrow> u64 \<Rightarrow> 'w adapter \<Rightarrow> bool" where
  "sound_at b i s \<equiv> sound_after b (tables_of s) \<and> known_inode (ad_inodes s) i"

abbreviation keeps :: "tables \<Rightarrow> ('w, 'a) adop \<Rightarrow> bool" where
  "keeps b m \<equiv> triple (sound b) m (\<lambda>_. sound b) (\<lambda>_. sound b)"

definition idle :: "('w, 'a) adop \<Rightarrow> bool" where
  "idle m \<longleftrightarrow> (\<forall>s. tables_of (snd (m s)) = tables_of s)"

lemma idleD: "idle m \<Longrightarrow> m s = (r, t) \<Longrightarrow> tables_of t = tables_of s"
  by (metis idle_def snd_conv)

lemma idle_simps [simp]:
  "tables_of (s\<lparr>ad_metadata := x1\<rparr>) = tables_of s" "tables_of (s\<lparr>ad_directories := x2\<rparr>) = tables_of s"
  "tables_of (s\<lparr>ad_xattrs := x3\<rparr>) = tables_of s" "tables_of (s\<lparr>ad_directory_operations := x4\<rparr>) = tables_of s"
  "tables_of (s\<lparr>ad_world := x5\<rparr>) = tables_of s" "tables_of (s\<lparr>ad_tasks := x6\<rparr>) = tables_of s"
  "tables_of (s\<lparr>ad_capabilities := x7\<rparr>) = tables_of s" "tables_of (s\<lparr>ad_stats := x8\<rparr>) = tables_of s"
  "tables_of (s\<lparr>ad_stats_refreshing := x9\<rparr>) = tables_of s"
  by (simp_all add: tables_of_def)

lemma idle_bind: "idle m \<Longrightarrow> (\<And>x. idle (f x)) \<Longrightarrow> idle (mbind m f)"
  by (auto simp: idle_def mbind_def split: prod.splits sum.splits) (metis snd_conv)+

lemma idle_basic:
  "idle (mret v)" "idle (mfail e)" "idle (mlift r)" "idle (mget f)" "idle (inode_record i)" "idle (fuse_file_handle h)"
  "idle (file_operation h)" "idle (fuse_cached_metadata I n)" "idle (remember_metadata I m)" "idle (cached_directory I i)"
  "idle (directory_operation n)" "idle (invalidate_node_views n)" "idle (cached_xattrs I n)" "idle (update_xattrs I n rv x g)"
  "idle (find_entry_inode N p y)" "idle (spawn task)" "idle (remote_call I d a)" "idle (directory_listing h i)"
  unfolding idle_def monad_simps inode_record_def fuse_file_handle_def file_operation_def fuse_cached_metadata_def
    remember_metadata_def cached_directory_def directory_operation_def invalidate_node_views_def cached_xattrs_def
    update_xattrs_def find_entry_inode_def spawn_def remote_call_def directory_listing_def
  by (auto simp: Let_def split: option.split prod.split list.split)

lemma idle_execute: "(\<And>d. idle (f d)) \<Longrightarrow> idle (execute I f)"
  by (simp add: idle_def execute_def)

lemma idle_if: "(p \<Longrightarrow> idle m) \<Longrightarrow> (\<not> p \<Longrightarrow> idle n) \<Longrightarrow> idle (if p then m else n)"
  by simp

lemma idle_option: "(x = None \<Longrightarrow> idle m) \<Longrightarrow> (\<And>y. x = Some y \<Longrightarrow> idle (f y)) \<Longrightarrow> idle (case x of None \<Rightarrow> m | Some y \<Rightarrow> f y)"
  by (cases x) auto

lemma idle_pair: "(\<And>x y. idle (f x y)) \<Longrightarrow> idle (case p of (x, y) \<Rightarrow> f x y)"
  by (cases p) simp

lemma idle_put: "(\<And>s. tables_of (g s) = tables_of s) \<Longrightarrow> idle (mput g)"
  by (simp add: idle_def mput_def)

lemmas idle_rules = idle_bind idle_basic idle_execute idle_if idle_option idle_pair

lemma idle_capabilities: "idle (capabilities_async I)"
proof -
  have "idle (mbind (execute I (\<lambda>d. remote_call I d (in_capabilities I))) (\<lambda>c.
      if cap_max_read_size c = 0 \<or> cap_max_write_size c = 0 then mfail AeInvalidCapabilities
      else mbind (mput (\<lambda>t. t\<lparr>ad_capabilities := Some c\<rparr>)) (\<lambda>_. mret c)))"
    by (intro idle_rules idle_put) simp
  then show ?thesis by (simp add: idle_def capabilities_async_def split: option.split)
qed

lemma idle_parts:
  "idle (fuse_writable I)" "idle (require_capability I p)" "idle (require_writable_capability I p)"
  "idle (require_that e q)" "idle (invalidate_directory i)" "idle (invalidate_known k)"
  "idle (remember_xattr_size I n rv x z)" "idle (remember_xattr_value I n rv x v)" "idle (remember_xattr_snapshot I n rv sn)"
  unfolding fuse_writable_def require_capability_def require_writable_capability_def require_that_def
    invalidate_directory_def invalidate_known_def remember_xattr_size_def remember_xattr_value_def remember_xattr_snapshot_def
  by (intro idle_rules idle_capabilities idle_put idle_simps)+

lemma idle_write_loop: "idle (write_loop I d f limit data position revision sz)"
proof -
  have "tables_of (snd (write_loop I d f limit data position revision sz s)) = tables_of s" for s
  proof (induction I d f limit data position revision sz s rule: write_loop.induct)
    case (1 I d f limit data position revision sz s)
    define q where "q = min (length data) limit"
    obtain r t where call: "remote_call I d (in_write_range I f position (take q data)) s = (r, t)"
      by (metis prod.exhaust)
    have "tables_of t = tables_of s" using idleD [OF idle_basic(17) call] .
    with 1 [folded q_def] call show ?case
      by (subst write_loop.simps, fold q_def) (auto simp: Let_def split: sum.splits option.splits)
  qed
  then show ?thesis by (simp add: idle_def)
qed

interpretation kept: read_loop_invariant I d f offset len "Suc n" "\<lambda>_ _ _ _ _ s. tables_of s = b" "\<lambda>_ s. tables_of s = b"
    "\<lambda>s. tables_of s = b" for I :: "'w remote_fs" and d f offset len n b
  by unfold_locales (auto dest: idleD [OF idle_basic(17)])

lemma idle_read_loop: "idle (read_loop I d f offset len limit data remaining position expected restarted)"
proof (cases limit)
  case 0
  then show ?thesis by (simp add: idle_def read_loop.simps [of _ _ _ _ _ 0])
next
  case (Suc n)
  have "tables_of (snd (read_loop I d f offset len limit data remaining position expected restarted s)) = tables_of s" for s
    using kept.loop_outcome [where b = "tables_of s" and s = s and I = I and d = d and f = f and offset = offset and len = len and n = n and
        data = data and remaining = remaining and position = position and expected = expected and restarted = restarted]
    by (auto simp: Suc split: prod.splits sum.splits)
  then show ?thesis by (simp add: idle_def)
qed

lemma idle_xattr_read: "idle (xattr_read_loop I d n x chunk total_size val)"
proof -
  have "tables_of (snd (xattr_read_loop I d n x chunk total_size val s)) = tables_of s" for s
  proof (induction I d n x chunk total_size val s rule: xattr_read_loop.induct)
    case (1 I d n x chunk total_size val s)
    define q where "q = min (total_size - length val) chunk"
    obtain r t where call: "remote_call I d (in_get_xattr I n x (length val) q) s = (r, t)"
      by (metis prod.exhaust)
    have "tables_of t = tables_of s" using idleD [OF idle_basic(17) call] .
    with 1 [folded q_def] call show ?case
      by (subst xattr_read_loop.simps, fold q_def) (auto simp: Let_def split: sum.splits)
  qed
  then show ?thesis by (simp add: idle_def)
qed

lemma idle_xattr_write: "idle (xattr_write_loop I d n x mode position chunk val consumed)"
proof -
  have "tables_of (snd (xattr_write_loop I d n x mode position chunk val consumed s)) = tables_of s" for s
  proof (induction I d n x mode position chunk val consumed s rule: xattr_write_loop.induct)
    case (1 I d n x mode position chunk val consumed s)
    define q where "q = min (length val - consumed) chunk"
    obtain r t where call: "remote_call I d (in_set_xattr I n x (take q (drop consumed val))
        (if consumed = 0 then mode else XReplace) (position + consumed)) s = (r, t)"
      by (metis prod.exhaust)
    have "tables_of t = tables_of s" using idleD [OF idle_basic(17) call] .
    with 1 [folded q_def] call show ?case
      by (subst xattr_write_loop.simps, fold q_def) (simp add: Let_def split: sum.split)
  qed
  then show ?thesis by (simp add: idle_def)
qed

lemma idle_getattr: "idle (getattr_async I i)"
  unfolding getattr_async_def by (intro idle_rules)

lemma idle_statfs: "idle (statfs_async (I :: 'w remote_fs))"
proof -
  have "idle (mbind (spawn RefreshStatsTask :: ('w, unit) adop) (\<lambda>_. mret st))" for st :: filesystem_stats by (intro idle_rules)
  moreover have "idle (mbind (execute I (\<lambda>d. remote_call I d (in_stat_filesystem I))) (\<lambda>statistics.
       mbind (mput (\<lambda>t. t\<lparr>ad_stats := Some (now I t, statistics)\<rparr>)) (\<lambda>_. mret statistics)))"
    by (intro idle_rules idle_put idle_simps)
  ultimately show ?thesis by (simp add: idle_def statfs_async_def split: option.split)
qed

lemmas idle_all = idle_rules idle_parts idle_capabilities idle_write_loop idle_read_loop idle_xattr_read idle_xattr_write
  idle_getattr idle_statfs

lemma idle_ops:
  "idle (fsyncdir_async I ia ha)" "idle (readlink_async I ib)" "idle (safe_ioctl_async I hc xc)" "idle (map_block_async I idd bs bl)"
  "idle (exchange_data_async I pe xe qe ye oe)" "idle (get_lock_async I hf lf)" "idle (xattr_size_async I ig xg)"
  "idle (get_xattr_async I ih xh)" "idle (set_xattr_async I ii xi vi mi posi)" "idle (list_xattrs_async I ij)"
  "idle (remove_xattr_async I ik xk)" "idle (set_volume_name_async I xl)"
  unfolding fsyncdir_async_def readlink_async_def safe_ioctl_async_def map_block_async_def exchange_data_async_def get_lock_async_def
    xattr_size_async_def get_xattr_async_def set_xattr_async_def list_xattrs_async_def remove_xattr_async_def set_volume_name_async_def
    Let_def
  by (intro idle_all idle_put idle_simps)+

subsection \<open>Changes of the inode table\<close>

lemma tables_simps [simp]:
  "tables_of (s\<lparr>ad_inodes := x1\<rparr>) = (tables_of s)\<lparr>tb_inodes := x1\<rparr>"
  "tables_of (s\<lparr>ad_next_inode := x2\<rparr>) = (tables_of s)\<lparr>tb_next_inode := x2\<rparr>"
  "tables_of (s\<lparr>ad_handles := x3\<rparr>) = (tables_of s)\<lparr>tb_handles := x3\<rparr>"
  "tables_of (s\<lparr>ad_pending := x4\<rparr>) = (tables_of s)\<lparr>tb_pending := x4\<rparr>"
  "tables_of (s\<lparr>ad_operations := x5\<rparr>) = (tables_of s)\<lparr>tb_operations := x5\<rparr>"
  "tables_of (s\<lparr>ad_directory_handles := x6\<rparr>) = (tables_of s)\<lparr>tb_directory_handles := x6\<rparr>"
  "tables_of (s\<lparr>ad_next_handle := x7\<rparr>) = (tables_of s)\<lparr>tb_next_handle := x7\<rparr>"
  "tb_inodes (tables_of s) = ad_inodes s" "tb_next_inode (tables_of s) = ad_next_inode s"
  "tb_handles (tables_of s) = ad_handles s" "tb_pending (tables_of s) = ad_pending s"
  "tb_operations (tables_of s) = ad_operations s" "tb_directory_handles (tables_of s) = ad_directory_handles s"
  "tb_next_handle (tables_of s) = ad_next_handle s"
  by (simp_all add: tables_of_def)

lemma tables_same_next: "(tables_of s)\<lparr>tb_inodes := t, tb_next_inode := ad_next_inode s\<rparr> = (tables_of s)\<lparr>tb_inodes := t\<rparr>"
  by (simp add: tables_of_def)

lemma sound_start: "tables_ok b \<Longrightarrow> sound_after b b"
  by (auto simp: sound_after_def same_nodes_def)

lemma inodes_ok_entries: "inodes_ok t x \<Longrightarrow> distinct_keys (it_by_entry t)"
  unfolding inodes_ok_def by blast

lemma inodes_ok_node: "inodes_ok t x \<Longrightarrow> map_of (it_by_node t) n = Some i \<Longrightarrow> \<exists>r. map_of (it_by_inode t) i = Some r \<and> ir_node r = n"
  unfolding inodes_ok_def by blast

lemma inodes_ok_inode: "inodes_ok t x \<Longrightarrow> map_of (it_by_inode t) i = Some r \<Longrightarrow> map_of (it_by_node t) (ir_node r) = Some i"
  unfolding inodes_ok_def by blast

lemma inodes_ok_root: "inodes_ok t x \<Longrightarrow> map_of (it_by_node t) ROOT_NODE = Some ROOT_INODE"
  unfolding inodes_ok_def by blast

lemma inodes_ok_below: "inodes_ok t x \<Longrightarrow> known_inode t i \<Longrightarrow> i < x"
  unfolding inodes_ok_def by blast

lemma inodes_ok_entry: "inodes_ok t x \<Longrightarrow> map_of (it_by_entry t) k = Some i \<Longrightarrow> known_inode t i"
  unfolding inodes_ok_def by blast

lemma inodes_ok_lookup: "inodes_ok t x \<Longrightarrow> map_of (it_lookups t) i \<noteq> None \<Longrightarrow> known_inode t i"
  unfolding inodes_ok_def by blast

lemma inodes_okI:
  assumes "distinct_keys (it_by_entry t)"
    and "\<And>n i. map_of (it_by_node t) n = Some i \<Longrightarrow> \<exists>r. map_of (it_by_inode t) i = Some r \<and> ir_node r = n"
    and "\<And>i r. map_of (it_by_inode t) i = Some r \<Longrightarrow> map_of (it_by_node t) (ir_node r) = Some i"
    and "map_of (it_by_node t) ROOT_NODE = Some ROOT_INODE" "\<And>i r. map_of (it_by_inode t) i = Some r \<Longrightarrow> i < x"
    and "\<And>k i. map_of (it_by_entry t) k = Some i \<Longrightarrow> known_inode t i" "\<And>i l. map_of (it_lookups t) i = Some l \<Longrightarrow> known_inode t i"
  shows "inodes_ok t x"
  unfolding inodes_ok_def using assms by blast

lemma sound_inodes: "sound_after b c \<Longrightarrow> inodes_ok (tb_inodes c) (tb_next_inode c)"
  by (simp add: sound_after_def tables_ok_def)

lemma sound_node: "sound_after b c \<Longrightarrow> map_of (it_by_node (tb_inodes c)) n = Some i \<Longrightarrow> known_inode (tb_inodes c) i"
  by (drule sound_inodes, drule inodes_ok_node, assumption) auto

lemma sound_entry: "sound_after b c \<Longrightarrow> map_of (it_by_entry (tb_inodes c)) k = Some i \<Longrightarrow> known_inode (tb_inodes c) i"
  by (drule sound_inodes) (rule inodes_ok_entry)

lemma handles_ok_known:
  assumes "handles_ok c" "tb_handles c' = tb_handles c" "tb_pending c' = tb_pending c" "tb_operations c' = tb_operations c"
    and "tb_directory_handles c' = tb_directory_handles c" "tb_next_handle c' = tb_next_handle c"
    and "\<And>h r. map_of (tb_handles c) h = Some r \<Longrightarrow> known_inode (tb_inodes c') (fh_inode r)"
    and "\<And>h r. map_of (tb_directory_handles c) h = Some r \<Longrightarrow> known_inode (tb_inodes c') (dh_inode r)"
  shows "handles_ok c'"
  using assms(1,7,8) unfolding handles_ok_def assms(2-6) by blast

lemma handles_ok_file: "handles_ok c \<Longrightarrow> map_of (tb_handles c) h = Some r \<Longrightarrow> known_inode (tb_inodes c) (fh_inode r)"
  unfolding handles_ok_def by blast

lemma handles_ok_directory: "handles_ok c \<Longrightarrow> map_of (tb_directory_handles c) h = Some r \<Longrightarrow> known_inode (tb_inodes c) (dh_inode r)"
  unfolding handles_ok_def by blast

text \<open>A new inode table that does not give a number below the next one to another node.\<close>

lemma sound_inode_change:
  assumes "sound_after b c" "inodes_ok t x" "tb_next_inode c \<le> x"
    and "\<And>i r. i < tb_next_inode c \<Longrightarrow> map_of (it_by_inode t) i = Some r \<Longrightarrow>
      \<exists>r'. map_of (it_by_inode (tb_inodes c)) i = Some r' \<and> ir_node r' = ir_node r"
    and "\<And>h r. map_of (tb_handles c) h = Some r \<Longrightarrow> known_inode t (fh_inode r)"
    and "\<And>h r. map_of (tb_directory_handles c) h = Some r \<Longrightarrow> known_inode t (dh_inode r)"
  shows "sound_after b (c\<lparr>tb_inodes := t, tb_next_inode := x\<rparr>)"
proof -
  have "handles_ok c" "same_nodes b c" using assms(1) by (simp_all add: sound_after_def tables_ok_def)
  moreover have "handles_ok (c\<lparr>tb_inodes := t, tb_next_inode := x\<rparr>)"
    by (rule handles_ok_known [OF calculation(1)]) (use assms(5,6) in simp_all)
  moreover have "same_nodes b (c\<lparr>tb_inodes := t, tb_next_inode := x\<rparr>)"
    unfolding same_nodes_def
  proof (intro conjI allI impI)
    have below: "tb_next_inode b \<le> tb_next_inode c" using calculation(2) by (simp add: same_nodes_def)
    then show "tb_next_inode b \<le> tb_next_inode (c\<lparr>tb_inodes := t, tb_next_inode := x\<rparr>)" using assms(3) by simp
    fix i r assume i: "i < tb_next_inode b" "map_of (it_by_inode (tb_inodes (c\<lparr>tb_inodes := t, tb_next_inode := x\<rparr>))) i = Some r"
    then obtain r' where "map_of (it_by_inode (tb_inodes c)) i = Some r'" "ir_node r' = ir_node r"
      using assms(4) [of i r] below by auto
    then show "\<exists>r'. map_of (it_by_inode (tb_inodes b)) i = Some r' \<and> ir_node r' = ir_node r"
      using calculation(2) i(1) unfolding same_nodes_def by metis
  qed
  ultimately show ?thesis using assms(2) by (simp add: sound_after_def tables_ok_def)
qed

text \<open>A table that keeps the inodes and their nodes.\<close>

lemma sound_same_inodes:
  assumes "sound_after b c" "inodes_ok t (tb_next_inode c)"
    and "\<And>i. map_option ir_node (map_of (it_by_inode t) i) = map_option ir_node (map_of (it_by_inode (tb_inodes c)) i)"
  shows "sound_after b (c\<lparr>tb_inodes := t\<rparr>)"
proof -
  have known: "known_inode t i" if "known_inode (tb_inodes c) i" for i using that assms(3) [of i] by (metis option.map_disc_iff)
  have nodes: "\<exists>r'. map_of (it_by_inode (tb_inodes c)) i = Some r' \<and> ir_node r' = ir_node r" if "map_of (it_by_inode t) i = Some r" for i r
    using that assms(3) [of i] by (cases "map_of (it_by_inode (tb_inodes c)) i") auto
  have handles: "handles_ok c" using assms(1) by (simp add: sound_after_def tables_ok_def)
  have "sound_after b (c\<lparr>tb_inodes := t, tb_next_inode := tb_next_inode c\<rparr>)"
    by (rule sound_inode_change [OF assms(1,2) order_refl nodes])
      (use known handles_ok_file [OF handles] handles_ok_directory [OF handles] in blast)+
  then show ?thesis by simp
qed

lemma sound_entries:
  assumes "sound_after b c" "distinct_keys es" "\<And>k i. map_of es k = Some i \<Longrightarrow> known_inode (tb_inodes c) i"
  shows "sound_after b (c\<lparr>tb_inodes := (tb_inodes c)\<lparr>it_by_entry := es\<rparr>\<rparr>)"
proof (rule sound_same_inodes [OF assms(1)])
  show "inodes_ok ((tb_inodes c)\<lparr>it_by_entry := es\<rparr>) (tb_next_inode c)"
    using assms(2,3) sound_inodes [OF assms(1)] unfolding inodes_ok_def by simp
qed simp

lemma sound_lookups:
  assumes "sound_after b c" "\<And>i l. map_of ls i = Some l \<Longrightarrow> known_inode (tb_inodes c) i"
  shows "sound_after b (c\<lparr>tb_inodes := (tb_inodes c)\<lparr>it_lookups := ls\<rparr>\<rparr>)"
proof (rule sound_same_inodes [OF assms(1)])
  show "inodes_ok ((tb_inodes c)\<lparr>it_lookups := ls\<rparr>) (tb_next_inode c)"
    using assms(2) sound_inodes [OF assms(1)] unfolding inodes_ok_def by auto
qed simp

lemma sound_filter_entries:
  assumes "sound_after b c"
  shows "sound_after b (c\<lparr>tb_inodes := (tb_inodes c)\<lparr>it_by_entry := filter P (it_by_entry (tb_inodes c))\<rparr>\<rparr>)"
proof (rule sound_entries [OF assms])
  have distinct: "distinct_keys (it_by_entry (tb_inodes c))" using sound_inodes [OF assms] by (simp add: inodes_ok_def)
  then show "distinct_keys (filter P (it_by_entry (tb_inodes c)))" by simp
  show "known_inode (tb_inodes c) i" if "map_of (filter P (it_by_entry (tb_inodes c))) k = Some i" for k i
    using that distinct sound_entry [OF assms, of k i] by (auto dest!: map_of_SomeD)
qed

lemma inodes_ok_fresh:
  assumes "inodes_ok t x" "map_of (it_by_node t) n = None"
  shows "inodes_ok (t\<lparr>it_by_inode := AList.update x \<lparr>ir_node = n, ir_parent_inode = p\<rparr> (it_by_inode t),
      it_by_node := AList.update n x (it_by_node t), it_by_entry := AList.update k x (it_by_entry t)\<rparr>) (Suc x)"
proof (rule inodes_okI)
  let ?t = "t\<lparr>it_by_inode := AList.update x \<lparr>ir_node = n, ir_parent_inode = p\<rparr> (it_by_inode t),
      it_by_node := AList.update n x (it_by_node t), it_by_entry := AList.update k x (it_by_entry t)\<rparr>"
  have old: "map_of (it_by_inode t) x = None" using inodes_ok_below [OF assms(1), of x] by blast
  have nodes: "ir_node r \<noteq> n" if "map_of (it_by_inode t) i = Some r" for i r
    using inodes_ok_inode [OF assms(1) that] assms(2) by auto
  show "distinct_keys (it_by_entry ?t)" using inodes_ok_entries [OF assms(1)] by simp
  show "\<exists>r. map_of (it_by_inode ?t) i = Some r \<and> ir_node r = m" if "map_of (it_by_node ?t) m = Some i" for m i
    using that inodes_ok_node [OF assms(1), of m i] old by (auto split: if_splits)
  show "map_of (it_by_node ?t) (ir_node r) = Some i" if "map_of (it_by_inode ?t) i = Some r" for i r
    using that inodes_ok_inode [OF assms(1), of i r] nodes [of i r] by (auto split: if_splits)
  show "map_of (it_by_node ?t) ROOT_NODE = Some ROOT_INODE" using inodes_ok_root [OF assms(1)] assms(2) by auto
  show "i < Suc x" if "map_of (it_by_inode ?t) i = Some r" for i r
    using that inodes_ok_below [OF assms(1), of i] by (auto split: if_splits)
  show "known_inode ?t i" if "map_of (it_by_entry ?t) k' = Some i" for k' i
    using that inodes_ok_entry [OF assms(1), of k' i] by (auto split: if_splits)
  show "known_inode ?t i" if "map_of (it_lookups ?t) i = Some l" for i l
    using that inodes_ok_lookup [OF assms(1), of i] by auto
qed

lemma remember_entry_sound: "triple (sound b) (remember_entry n p x) (\<lambda>i. sound_at b i) (\<lambda>_. sound b)"
proof (unfold triple_def, intro allI impI)
  fix s :: "'w adapter" assume s: "sound b s"
  note ok = sound_inodes [OF s, simplified]
  show "case remember_entry n p x s of (Inl e, t) \<Rightarrow> sound b t | (Inr i, t) \<Rightarrow> sound_at b i t"
  proof (cases "map_of (it_by_node (ad_inodes s)) n")
    case None
    have handles: "handles_ok (tables_of s)" using s by (simp add: sound_after_def tables_ok_def)
    let ?t = "(ad_inodes s)\<lparr>it_by_inode := AList.update (ad_next_inode s) \<lparr>ir_node = n, ir_parent_inode = p\<rparr> (it_by_inode (ad_inodes s)),
      it_by_node := AList.update n (ad_next_inode s) (it_by_node (ad_inodes s)),
      it_by_entry := AList.update (p, x) (ad_next_inode s) (it_by_entry (ad_inodes s))\<rparr>"
    have "sound_after b ((tables_of s)\<lparr>tb_inodes := ?t, tb_next_inode := Suc (ad_next_inode s)\<rparr>)"
      by (rule sound_inode_change [OF s inodes_ok_fresh [OF ok None]])
        (use handles_ok_file [OF handles] handles_ok_directory [OF handles] in auto)
    then show ?thesis using None s by (simp add: remember_entry_def Let_def split: option.split)
  next
    case (Some i)
    have known: "known_inode (ad_inodes s) i" using sound_node [OF s] Some by simp
    have "sound_after b ((tables_of s)\<lparr>tb_inodes := (tb_inodes (tables_of s))\<lparr>it_by_entry := AList.update (p, x) i (it_by_entry (ad_inodes s))\<rparr>\<rparr>)"
    proof (rule sound_entries [OF s])
      show "distinct_keys (AList.update (p, x) i (it_by_entry (ad_inodes s)))" using inodes_ok_entries [OF ok] by simp
      show "known_inode (tb_inodes (tables_of s)) j" if "map_of (AList.update (p, x) i (it_by_entry (ad_inodes s))) k = Some j" for k j
        using that known inodes_ok_entry [OF ok, of k j] by (auto split: if_splits)
    qed
    with Some known show ?thesis by (simp add: remember_entry_def)
  qed
qed

lemma add_lookup_sound: "triple (sound_at b i) (add_lookup i n) (\<lambda>_. sound_at b i) (\<lambda>_. sound b)"
  unfolding add_lookup_def
proof (rule triple_mput)
  fix s :: "'w adapter" assume s: "sound_at b i s"
  have "sound_after b ((tables_of s)\<lparr>tb_inodes := (tb_inodes (tables_of s))\<lparr>it_lookups := AList.update i
      (saturating_add (lookup_count (ad_inodes s) i) n) (it_lookups (ad_inodes s))\<rparr>\<rparr>)"
  proof (rule sound_lookups)
    show "known_inode (tb_inodes (tables_of s)) j"
      if "map_of (AList.update i (saturating_add (lookup_count (ad_inodes s) i) n) (it_lookups (ad_inodes s))) j = Some l" for j l
      using that s inodes_ok_lookup [OF sound_inodes [OF conjunct1 [OF s]], of j] by (auto split: if_splits)
  qed (use s in simp)
  with s show "sound_at b i (upd_inodes (\<lambda>t. t\<lparr>it_lookups := AList.update i (saturating_add (lookup_count t i) n) (it_lookups t)\<rparr>) s)"
    by simp
qed

lemma keeps_put: "(\<And>s. sound b s \<Longrightarrow> sound b (g s)) \<Longrightarrow> keeps b (mput g)"
  by (rule triple_mput)

lemma keeps_reconcile: "keeps b (reconcile_directory_entries i names)"
  unfolding reconcile_directory_entries_def
  by (rule keeps_put) (drule sound_filter_entries [where P = "\<lambda>((parent, x), _). parent \<noteq> i \<or> x \<in> set names"], simp)

lemma delete_filter: "AList.delete k xs = filter (\<lambda>(k', _). k' \<noteq> k) xs"
  by (induction xs) auto

lemma keeps_forget_entry: "keeps b (forget_entry p x)"
  unfolding forget_entry_def delete_filter
  by (rule keeps_put) (drule sound_filter_entries [where P = "\<lambda>(k', _). k' \<noteq> (p, x)"], simp)

lemma inodes_ok_place:
  assumes "inodes_ok t x" "\<And>j. i = Some j \<Longrightarrow> known_inode t j"
  shows "inodes_ok (place_entry p y i t) x"
    and "map_option ir_node (map_of (it_by_inode (place_entry p y i t)) j) = map_option ir_node (map_of (it_by_inode t) j)"
proof -
  have "inodes_ok (place_entry p y (Some j) t) x" if known: "known_inode t j" for j
  proof -
    obtain r where r: "map_of (it_by_inode t) j = Some r" using known by blast
    let ?t = "place_entry p y (Some j) t"
    have facts: "it_by_node ?t = it_by_node t" "it_lookups ?t = it_lookups t"
      "it_by_entry ?t = AList.update (p, y) j (it_by_entry t)"
      "\<And>l. map_of (it_by_inode ?t) l = (if l = j then Some (r\<lparr>ir_parent_inode := p\<rparr>) else map_of (it_by_inode t) l)"
      by (simp_all add: place_entry_def r)
    show ?thesis
      by (rule inodes_okI; unfold facts)
        (use inodes_ok_entries [OF assms(1)] inodes_ok_node [OF assms(1)] inodes_ok_inode [OF assms(1)] inodes_ok_root [OF assms(1)]
          inodes_ok_below [OF assms(1)] inodes_ok_entry [OF assms(1)] inodes_ok_lookup [OF assms(1)] r
         in \<open>(fastforce split: if_splits)+\<close>)
  qed
  with assms show "inodes_ok (place_entry p y i t) x" by (cases i) (simp_all add: place_entry_def)
  show "map_option ir_node (map_of (it_by_inode (place_entry p y i t)) j) = map_option ir_node (map_of (it_by_inode t) j)"
    by (auto simp: place_entry_def split: option.split)
qed

lemma known_place: "known_inode (place_entry p y i t) j = known_inode t j"
  by (auto simp: place_entry_def split: option.split)

lemma keeps_move: "keeps b (move_entry p x q y mode)"
  unfolding move_entry_def
proof (rule keeps_put)
  fix s :: "'w adapter" assume s: "sound b s"
  let ?t = "ad_inodes s"
  define source where "source = map_of (it_by_entry ?t) (p, x)"
  define destination where "destination = map_of (AList.delete (p, x) (it_by_entry ?t)) (q, y)"
  define t1 where "t1 = ?t\<lparr>it_by_entry := AList.delete (q, y) (AList.delete (p, x) (it_by_entry ?t))\<rparr>"
  define t2 where "t2 = (if mode = RenameExchange then place_entry p x destination t1 else t1)"
  note ok = sound_inodes [OF s, simplified]
  have t1: "inodes_ok t1 (ad_next_inode s)" "it_by_inode t1 = it_by_inode ?t"
    using ok unfolding inodes_ok_def t1_def by (auto simp: delete_conv' restrict_map_def)
  have known: "known_inode t1 j" if "source = Some j \<or> destination = Some j" for j
    using that inodes_ok_entry [OF ok] unfolding t1(2) source_def destination_def by (auto split: if_splits)
  have t2: "inodes_ok t2 (ad_next_inode s)" "known_inode t2 j = known_inode t1 j"
    "map_option ir_node (map_of (it_by_inode t2) j) = map_option ir_node (map_of (it_by_inode t1) j)" for j
    using t1(1) inodes_ok_place [OF t1(1), of destination] known known_place by (auto simp: t2_def)
  have "sound_after b ((tables_of s)\<lparr>tb_inodes := place_entry q y source t2\<rparr>)"
  proof (rule sound_same_inodes [OF s])
    show "inodes_ok (place_entry q y source t2) (tb_next_inode (tables_of s))"
      using inodes_ok_place(1) [OF t2(1), of source q y] known t2(2) by simp
    show "map_option ir_node (map_of (it_by_inode (place_entry q y source t2)) j) =
        map_option ir_node (map_of (it_by_inode (tb_inodes (tables_of s))) j)" for j
      using inodes_ok_place(2) [OF t2(1), of source q y j] known t2(2,3) t1(2) by simp
  qed
  then show "sound b (upd_inodes (\<lambda>t. let source_key = (p, x); destination_key = (q, y);
         source = map_of (it_by_entry t) source_key; removed = AList.delete source_key (it_by_entry t);
         destination = map_of removed destination_key;
         t1 = t\<lparr>it_by_entry := AList.delete destination_key removed\<rparr>;
         t2 = (if mode = RenameExchange then place_entry p x destination t1 else t1)
     in place_entry q y source t2) s)"
    by (simp only: Let_def source_def destination_def t1_def t2_def tables_simps)
qed

lemma inodes_ok_remove:
  assumes "inodes_ok t x" "map_of (it_by_inode t) i = Some r" "i \<noteq> ROOT_INODE"
    and "\<And>j l. map_of ls j = Some l \<Longrightarrow> j \<noteq> i \<and> known_inode t j"
  shows "inodes_ok (t\<lparr>it_lookups := ls, it_by_entry := filter (\<lambda>(_, j). j \<noteq> i) (it_by_entry t),
      it_by_inode := AList.delete i (it_by_inode t), it_by_node := AList.delete (ir_node r) (it_by_node t)\<rparr>) x"
proof (rule inodes_okI)
  let ?t = "t\<lparr>it_lookups := ls, it_by_entry := filter (\<lambda>(_, j). j \<noteq> i) (it_by_entry t),
      it_by_inode := AList.delete i (it_by_inode t), it_by_node := AList.delete (ir_node r) (it_by_node t)\<rparr>"
  note inv = inodes_ok_inode [OF assms(1)]
  show "distinct_keys (it_by_entry ?t)" using inodes_ok_entries [OF assms(1)] by simp
  show "\<exists>r'. map_of (it_by_inode ?t) j = Some r' \<and> ir_node r' = n" if "map_of (it_by_node ?t) n = Some j" for n j
    using that inodes_ok_node [OF assms(1), of n j] assms(2) by (auto split: if_splits)
  show "map_of (it_by_node ?t) (ir_node r') = Some j" if "map_of (it_by_inode ?t) j = Some r'" for j r'
    using that inv [of j r'] inv [OF assms(2)] by (auto split: if_splits)
  show "map_of (it_by_node ?t) ROOT_NODE = Some ROOT_INODE"
    using inodes_ok_root [OF assms(1)] inv [OF assms(2)] assms(3) by auto
  show "j < x" if "map_of (it_by_inode ?t) j = Some r'" for j r'
    using that inodes_ok_below [OF assms(1), of j] by (auto split: if_splits)
  show "known_inode ?t j" if "map_of (it_by_entry ?t) k = Some j" for k j
  proof -
    have "(k, j) \<in> set (it_by_entry t)" "j \<noteq> i" using that by (auto dest!: map_of_SomeD)
    then show ?thesis using inodes_ok_entry [OF assms(1), of k j] inodes_ok_entries [OF assms(1)] by simp
  qed
  show "known_inode ?t j" if "map_of (it_lookups ?t) j = Some l" for j l
    using assms(4) [of j l] that by simp
qed

lemma handles_in_use:
  assumes "handles_ok c"
  shows "(h, r) \<in> set (tb_handles c) \<Longrightarrow> known_inode (tb_inodes c) (fh_inode r)"
    and "(h, d) \<in> set (tb_directory_handles c) \<Longrightarrow> known_inode (tb_inodes c) (dh_inode d)"
proof -
  have "distinct_keys (tb_handles c)" "distinct_keys (tb_directory_handles c)" using assms unfolding handles_ok_def by blast+
  then show "(h, r) \<in> set (tb_handles c) \<Longrightarrow> known_inode (tb_inodes c) (fh_inode r)"
    and "(h, d) \<in> set (tb_directory_handles c) \<Longrightarrow> known_inode (tb_inodes c) (dh_inode d)"
    using handles_ok_file [OF assms, of h r] handles_ok_directory [OF assms, of h d] by simp_all
qed

lemma evict_sound: "sound b s \<Longrightarrow> sound b (snd (evict_inode i n s))"
proof -
  assume s: "sound b s"
  let ?t = "ad_inodes s" and ?count = "lookup_count (ad_inodes s) i - n"
  note ok = sound_inodes [OF s, simplified]
  have handles: "handles_ok (tables_of s)" using s by (simp add: sound_after_def tables_ok_def)
  show "sound b (snd (evict_inode i n s))"
  proof (cases "i = ROOT_INODE")
    case other: False
    show ?thesis
    proof (cases "?count \<noteq> 0 \<or> inode_in_use i s")
      case True
      then have "known_inode ?t i"
        using handles_in_use [OF handles] inodes_ok_lookup [OF ok, of i]
        by (auto simp: inode_in_use_def lookup_count_def split: option.splits)
      then have "sound_after b ((tables_of s)\<lparr>tb_inodes := (tb_inodes (tables_of s))\<lparr>it_lookups := AList.update i ?count (it_lookups ?t)\<rparr>\<rparr>)"
        using inodes_ok_lookup [OF ok] by (intro sound_lookups [OF s]) (auto split: if_splits)
      with True other show ?thesis unfolding evict_inode_def Let_def by (simp only: if_True if_False snd_conv simp_thms tables_simps)
    next
      case False
      let ?ls = "AList.delete i (AList.update i ?count (it_lookups ?t))" and ?es = "filter (\<lambda>(_, j). j \<noteq> i) (it_by_entry ?t)"
      have ls: "j \<noteq> i \<and> known_inode ?t j" if "map_of ?ls j = Some l" for j l
        using that inodes_ok_lookup [OF ok, of j] by (auto split: if_splits)
      show ?thesis
      proof (cases "map_of (it_by_inode ?t) i")
        case None
        have lookups: "sound_after b ((tables_of s)\<lparr>tb_inodes := (tb_inodes (tables_of s))\<lparr>it_lookups := ?ls\<rparr>\<rparr>)"
          by (rule sound_lookups [OF s]) (drule ls, simp)
        have "sound_after b ((tables_of s)\<lparr>tb_inodes := ?t\<lparr>it_lookups := ?ls, it_by_entry := ?es\<rparr>\<rparr>)"
          using sound_filter_entries [OF lookups, of "\<lambda>(_, j). j \<noteq> i"] by simp
        with False other None show ?thesis by (simp add: evict_inode_def Let_def)
      next
        case (Some r)
        have open_file: "known_inode ?t (fh_inode f) \<and> fh_inode f \<noteq> i" if "map_of (ad_handles s) h = Some f" for h f
          using that False handles_ok_file [OF handles, of h f] by (auto simp: inode_in_use_def dest: map_of_SomeD)
        have directory: "known_inode ?t (dh_inode f) \<and> dh_inode f \<noteq> i" if "map_of (ad_directory_handles s) h = Some f" for h f
          using that False handles_ok_directory [OF handles, of h f] by (auto simp: inode_in_use_def dest: map_of_SomeD)
        have "sound_after b ((tables_of s)\<lparr>tb_inodes := ?t\<lparr>it_lookups := ?ls, it_by_entry := ?es,
            it_by_inode := AList.delete i (it_by_inode ?t), it_by_node := AList.delete (ir_node r) (it_by_node ?t)\<rparr>,
            tb_next_inode := tb_next_inode (tables_of s)\<rparr>)"
        proof (rule sound_inode_change [OF s])
          show "inodes_ok (?t\<lparr>it_lookups := ?ls, it_by_entry := ?es, it_by_inode := AList.delete i (it_by_inode ?t),
              it_by_node := AList.delete (ir_node r) (it_by_node ?t)\<rparr>) (tb_next_inode (tables_of s))"
            unfolding tables_simps by (rule inodes_ok_remove [OF ok Some other ls])
        qed (use open_file directory in \<open>auto split: if_splits\<close>)
        with False other Some show ?thesis by (simp add: evict_inode_def Let_def tables_same_next)
      qed
    qed
  qed (simp add: evict_inode_def s)
qed

lemma keeps_idle: "idle m \<Longrightarrow> keeps b m"
  by (auto simp: triple_def split: prod.splits sum.splits dest: idleD)

lemma keeps_snd: "(\<And>s. sound b s \<Longrightarrow> sound b (snd (m s))) \<Longrightarrow> keeps b m"
  by (auto simp: triple_def split: prod.splits sum.splits) (metis snd_conv)+

lemma keeps_bind: "keeps b m \<Longrightarrow> (\<And>x. keeps b (f x)) \<Longrightarrow> keeps b (mbind m f)"
  by (rule triple_mbind)

lemma keeps_option: "(x = None \<Longrightarrow> keeps b m) \<Longrightarrow> (\<And>y. x = Some y \<Longrightarrow> keeps b (f y)) \<Longrightarrow> keeps b (case x of None \<Rightarrow> m | Some y \<Rightarrow> f y)"
  by (cases x) auto

lemma keeps_evict_all: "keeps b (evict_all requests)"
proof (induction requests rule: evict_all.induct)
  case (2 i n requests)
  show ?case
    unfolding evict_all.simps
    by (intro keeps_bind keeps_option keeps_snd [OF evict_sound] 2 keeps_idle [OF idle_put] keeps_idle [OF idle_basic(1)]) auto
qed (simp add: keeps_idle idle_basic)

lemma keeps_forget: "keeps b (forget_inodes requests)" "keeps b (forget_inode i n)"
  unfolding forget_inodes_def forget_inode_def
  by (intro keeps_bind keeps_evict_all triple_if keeps_idle idle_basic)+

end
