(* ===== verification/Adapter_Sound.thy ===== *)
theory Adapter_Sound
  imports Adapter_Invariant
begin

text \<open>
  Open handles and buffered writes in the adapter's invariant, and the invariant of every callback.
\<close>

subsection \<open>Handles\<close>

lemma sound_handle_change:
  assumes "sound_after b c" "handles_ok c'" "tb_inodes c' = tb_inodes c" "tb_next_inode c' = tb_next_inode c"
  shows "sound_after b c'"
  using assms unfolding sound_after_def tables_ok_def same_nodes_def by simp

lemma sound_handles: "sound_after b c \<Longrightarrow> handles_ok c"
  by (simp add: sound_after_def tables_ok_def)

lemma handles_okI:
  assumes "distinct_keys (tb_handles b)" "distinct_keys (tb_directory_handles b)"
    and "\<And>h r. map_of (tb_handles b) h = Some r \<Longrightarrow> h < tb_next_handle b \<and> known_inode (tb_inodes b) (fh_inode r) \<and>
        map_of (tb_directory_handles b) h = None"
    and "\<And>h r. map_of (tb_directory_handles b) h = Some r \<Longrightarrow> h < tb_next_handle b \<and> known_inode (tb_inodes b) (dh_inode r)"
    and "\<And>h. map_of (tb_operations b) h \<noteq> None \<longleftrightarrow> map_of (tb_handles b) h \<noteq> None"
    and "\<And>h p. map_of (tb_pending b) h = Some p \<Longrightarrow> h < tb_next_handle b \<and> pw_start p + length (pw_buffer p) \<le> U64_MAX \<and>
        (\<forall>r. map_of (tb_handles b) h = Some r \<longrightarrow> fh_inode r = pw_inode p \<and> can_write (fh_access r))"
  shows "handles_ok b"
  unfolding handles_ok_def using assms by blast

lemma handles_okD:
  assumes "handles_ok b"
  shows "distinct_keys (tb_handles b)" "distinct_keys (tb_directory_handles b)"
    and "map_of (tb_handles b) h = Some r \<Longrightarrow> h < tb_next_handle b \<and> known_inode (tb_inodes b) (fh_inode r) \<and>
        map_of (tb_directory_handles b) h = None"
    and "map_of (tb_directory_handles b) h = Some d \<Longrightarrow> h < tb_next_handle b \<and> known_inode (tb_inodes b) (dh_inode d)"
    and "map_of (tb_operations b) h \<noteq> None \<longleftrightarrow> map_of (tb_handles b) h \<noteq> None"
    and "map_of (tb_pending b) h = Some p \<Longrightarrow> h < tb_next_handle b \<and> pw_start p + length (pw_buffer p) \<le> U64_MAX \<and>
        (\<forall>r. map_of (tb_handles b) h = Some r \<longrightarrow> fh_inode r = pw_inode p \<and> can_write (fh_access r))"
  using assms unfolding handles_ok_def by blast+

lemma handles_ok_new_file:
  assumes "handles_ok c" "known_inode (tb_inodes c) (fh_inode r)"
  shows "handles_ok (c\<lparr>tb_next_handle := Suc (tb_next_handle c), tb_handles := AList.update (tb_next_handle c) r (tb_handles c),
    tb_operations := AList.update (tb_next_handle c) () (tb_operations c)\<rparr>)"
proof -
  note D = handles_okD [OF assms(1)]
  have "map_of (tb_directory_handles c) (tb_next_handle c) = None" "map_of (tb_pending c) (tb_next_handle c) = None"
    using D(4,6) by (metis less_irrefl not_None_eq)+
  with D assms(2) show ?thesis by (auto intro!: handles_okI simp: less_Suc_eq simp del: map_of_eq_Some_iff Some_eq_map_of_iff split: if_splits)
qed

lemma handles_ok_new_directory:
  assumes "handles_ok c" "known_inode (tb_inodes c) (dh_inode r)"
  shows "handles_ok (c\<lparr>tb_next_handle := Suc (tb_next_handle c),
    tb_directory_handles := AList.update (tb_next_handle c) r (tb_directory_handles c)\<rparr>)"
proof -
  note D = handles_okD [OF assms(1)]
  have "map_of (tb_handles c) (tb_next_handle c) = None" using D(3) by (metis less_irrefl not_None_eq)
  with D assms(2) show ?thesis
    by (auto intro!: handles_okI simp: less_Suc_eq simp del: map_of_eq_Some_iff Some_eq_map_of_iff split: if_splits)
qed

lemma handles_ok_modify:
  assumes "handles_ok c" "map_of (tb_handles c) h = Some r" "fh_inode q = fh_inode r" "fh_access q = fh_access r"
  shows "handles_ok (c\<lparr>tb_handles := AList.update h q (tb_handles c)\<rparr>)"
  using handles_okD [OF assms(1)] handles_okD(3) [OF assms(1,2)] assms(2-4) by (auto intro!: handles_okI simp del: map_of_eq_Some_iff Some_eq_map_of_iff split: if_splits)

lemma handles_ok_take:
  assumes "handles_ok c"
  shows "handles_ok (c\<lparr>tb_handles := AList.delete h (tb_handles c), tb_operations := AList.delete h (tb_operations c),
      tb_pending := AList.delete h (tb_pending c)\<rparr>)"
    and "handles_ok (c\<lparr>tb_pending := AList.delete h (tb_pending c)\<rparr>)"
    and "handles_ok (c\<lparr>tb_directory_handles := AList.delete h (tb_directory_handles c)\<rparr>)"
    and "handles_ok (c\<lparr>tb_handles := [], tb_operations := [], tb_directory_handles := []\<rparr>)"
  using handles_okD [OF assms]
  by (auto intro!: handles_okI simp del: map_of_eq_Some_iff Some_eq_map_of_iff split: if_splits)

lemma handles_ok_buffer:
  assumes "handles_ok c" "map_of (tb_handles c) h = Some r" "can_write (fh_access r)" "pw_inode p = fh_inode r"
    and "pw_start p + length (pw_buffer p) \<le> U64_MAX"
  shows "handles_ok (c\<lparr>tb_pending := AList.update h p (tb_pending c)\<rparr>)"
  using handles_okD [OF assms(1)] handles_okD(3) [OF assms(1,2)] assms(2-5) by (auto intro!: handles_okI simp del: map_of_eq_Some_iff Some_eq_map_of_iff split: if_splits)

lemma keeps_update_handle: "keeps b (update_file_handle h revision sz)"
proof (rule keeps_snd)
  fix s :: "'w adapter" assume s: "sound b s"
  show "sound b (snd (update_file_handle h revision sz s))"
  proof (cases "map_of (ad_handles s) h")
    case (Some r)
    have "handles_ok ((tables_of s)\<lparr>tb_handles := AList.update h (r\<lparr>fh_revision := revision, fh_size := sz\<rparr>) (tb_handles (tables_of s))\<rparr>)"
      by (rule handles_ok_modify [OF sound_handles [OF s]]) (simp_all add: Some)
    then show ?thesis using Some sound_handle_change [OF s] by (simp add: update_file_handle_def)
  qed (simp add: update_file_handle_def s)
qed

lemma keeps_take_handle: "keeps b (take_file_handle h)"
proof (rule keeps_snd)
  fix s :: "'w adapter" assume s: "sound b s"
  have "sound_after b ((tables_of s)\<lparr>tb_handles := AList.delete h (ad_handles s), tb_operations := AList.delete h (ad_operations s),
      tb_pending := AList.delete h (ad_pending s)\<rparr>)"
    using sound_handle_change [OF s handles_ok_take(1) [OF sound_handles [OF s], of h]] by simp
  then show "sound b (snd (take_file_handle h s))" by (simp add: take_file_handle_def s split: option.split)
qed

lemma keeps_take_pending: "keeps b (take_pending h)"
proof (rule keeps_snd)
  fix s :: "'w adapter" assume s: "sound b s"
  show "sound b (snd (take_pending h s))"
    using sound_handle_change [OF s handles_ok_take(2) [OF sound_handles [OF s], of h]] by (simp add: take_pending_def)
qed

lemma keeps_releasedir: "keeps b (releasedir h)"
proof (rule keeps_snd)
  fix s :: "'w adapter" assume s: "sound b s"
  show "sound b (snd (releasedir h s))"
    using sound_handle_change [OF s handles_ok_take(3) [OF sound_handles [OF s], of h]] s
    by (simp add: releasedir_def spawn_def mput_def split: option.split)
qed

lemma sound_destroy: "sound b s \<Longrightarrow> sound b (destroy_mount s)"
  using sound_handle_change [OF _ handles_ok_take(4) [OF sound_handles], of b "tables_of s" b] by (simp add: destroy_mount_def)

lemma keeps_set_lock_mark: "keeps b (mput (\<lambda>s. case map_of (ad_handles s) h of
      None \<Rightarrow> s | Some r \<Rightarrow> s\<lparr>ad_handles := AList.update h (r\<lparr>fh_used_locks := True\<rparr>) (ad_handles s)\<rparr>))"
proof (rule keeps_put)
  fix s :: "'w adapter" assume s: "sound b s"
  show "sound b (case map_of (ad_handles s) h of
      None \<Rightarrow> s | Some r \<Rightarrow> s\<lparr>ad_handles := AList.update h (r\<lparr>fh_used_locks := True\<rparr>) (ad_handles s)\<rparr>)"
  proof (cases "map_of (ad_handles s) h")
    case (Some r)
    have "handles_ok ((tables_of s)\<lparr>tb_handles := AList.update h (r\<lparr>fh_used_locks := True\<rparr>) (tb_handles (tables_of s))\<rparr>)"
      by (rule handles_ok_modify [OF sound_handles [OF s]]) (simp_all add: Some)
    then show ?thesis using Some sound_handle_change [OF s] by simp
  qed (simp add: s)
qed

lemma remember_handle_sound: "triple (sound_at b i) (remember_file_handle i access opened) (\<lambda>_. sound b) (\<lambda>_. sound b)"
proof (unfold triple_def, intro allI impI)
  fix s :: "'w adapter" assume s: "sound_at b i s"
  let ?r = "\<lparr>fh_remote = op_handle opened, fh_inode = i, fh_access = access, fh_revision = op_revision opened,
    fh_size = op_size opened, fh_used_locks = False\<rparr>"
  have "handles_ok (tables_of s)" using s sound_handles by blast
  from handles_ok_new_file [OF this, of ?r] s
  have "sound_after b ((tables_of s)\<lparr>tb_next_handle := Suc (ad_next_handle s), tb_handles := AList.update (ad_next_handle s) ?r (ad_handles s),
      tb_operations := AList.update (ad_next_handle s) () (ad_operations s)\<rparr>)"
    using sound_handle_change [of b "tables_of s"] by simp
  then show "case remember_file_handle i access opened s of (Inl e, t) \<Rightarrow> sound b t | (Inr h, t) \<Rightarrow> sound b t"
    using s by (simp add: remember_file_handle_def next_handle_def mbind_def mput_def mret_def split: option.split)
qed

subsection \<open>Callbacks on files\<close>

lemmas keeps_rules = keeps_bind triple_if keeps_option

lemmas keeps_primitives = keeps_update_handle keeps_take_handle keeps_take_pending keeps_releasedir keeps_forget keeps_move
  keeps_forget_entry keeps_reconcile keeps_set_lock_mark

lemma keeps_mfor: "(\<And>x. keeps b (f x)) \<Longrightarrow> keeps b (mfor xs f)"
  by (rule triple_mfor)

abbreviation holds :: "(tables \<Rightarrow> bool) \<Rightarrow> ('w, 'a) adop \<Rightarrow> bool" where
  "holds Q m \<equiv> triple (\<lambda>s. Q (tables_of s)) m (\<lambda>_ s. Q (tables_of s)) (\<lambda>_ s. Q (tables_of s))"

lemma holds_idle: "idle m \<Longrightarrow> holds Q m"
  by (auto simp: triple_def split: prod.splits sum.splits dest: idleD)

lemma holds_bind: "holds Q m \<Longrightarrow> (\<And>x. holds Q (f x)) \<Longrightarrow> holds Q (mbind m f)"
  by (rule triple_mbind)

lemma holds_option: "holds Q m \<Longrightarrow> (\<And>y. holds Q (f y)) \<Longrightarrow> holds Q (case x of None \<Rightarrow> m | Some y \<Rightarrow> f y)"
  by (cases x) auto

lemma holds_pair: "(\<And>x y. holds Q (f x y)) \<Longrightarrow> holds Q (case p of (x, y) \<Rightarrow> f x y)"
  by (cases p) simp

lemma holds_write_through:
  fixes I :: "'w remote_fs"
  assumes "\<And>c r revision sz. Q c \<Longrightarrow> map_of (tb_handles c) h = Some r \<Longrightarrow>
    Q (c\<lparr>tb_handles := AList.update h (r\<lparr>fh_revision := revision, fh_size := sz\<rparr>) (tb_handles c)\<rparr>)"
  shows "holds Q (write_through I h offset data)"
proof -
  have update: "holds Q (update_file_handle h revision sz :: ('w, unit) adop)" for revision sz
    using assms [of "tables_of s" for s :: "'w adapter"] by (auto simp: triple_def update_file_handle_def split: option.splits)
  show ?thesis
    unfolding write_through_def Let_def by (intro holds_bind triple_if holds_pair update holds_idle idle_all)
qed

lemma holds_flush_pending:
  fixes I :: "'w remote_fs"
  assumes "\<And>c r revision sz. Q c \<Longrightarrow> map_of (tb_handles c) h = Some r \<Longrightarrow>
    Q (c\<lparr>tb_handles := AList.update h (r\<lparr>fh_revision := revision, fh_size := sz\<rparr>) (tb_handles c)\<rparr>)"
    and "\<And>c. Q c \<Longrightarrow> Q (c\<lparr>tb_pending := AList.delete h (tb_pending c)\<rparr>)"
  shows "holds Q (flush_pending I h)"
proof -
  have taken: "holds Q (take_pending h :: ('w, pending_write option) adop)"
    using assms(2) [of "tables_of s" for s :: "'w adapter"] by (auto simp: triple_def take_pending_def)
  show ?thesis
    unfolding flush_pending_def
    by (intro holds_bind taken holds_option holds_write_through [where Q = Q, OF assms(1)] holds_idle idle_basic)
qed

lemma sound_update: "sound_after b c \<Longrightarrow> map_of (tb_handles c) h = Some r \<Longrightarrow>
    sound_after b (c\<lparr>tb_handles := AList.update h (r\<lparr>fh_revision := revision, fh_size := sz\<rparr>) (tb_handles c)\<rparr>)"
  by (rule sound_handle_change, assumption, rule handles_ok_modify, rule sound_handles) auto

lemma sound_take_pending: "sound_after b c \<Longrightarrow> sound_after b (c\<lparr>tb_pending := AList.delete h (tb_pending c)\<rparr>)"
  by (rule sound_handle_change, assumption, rule handles_ok_take, rule sound_handles) auto

lemma keeps_write_through: "keeps b (write_through I h offset data)"
  by (rule holds_write_through) (rule sound_update)

lemma keeps_flush_pending: "keeps b (flush_pending I h)"
  by (rule holds_flush_pending) (rule sound_update sound_take_pending; assumption)+

lemma keeps_flush_inode: "keeps b (flush_pending_for_inode I i)"
  by (rule keeps_snd) (simp add: flush_pending_for_inode_def triple_snd [OF keeps_mfor [OF keeps_flush_pending]])

text \<open>A handle that is open for writing.\<close>

definition writer :: "tables \<Rightarrow> u64 \<Rightarrow> u64 \<Rightarrow> tables \<Rightarrow> bool" where
  "writer b h i c \<longleftrightarrow> sound_after b c \<and> (\<exists>r. map_of (tb_handles c) h = Some r \<and> fh_inode r = i \<and> can_write (fh_access r))"

lemma writer_flush: "holds (writer b h i) (flush_pending I h)"
  by (rule holds_flush_pending) (auto simp: writer_def intro: sound_update sound_take_pending)

lemma writer_write: "holds (writer b h i) (write_through I h offset data)"
  by (rule holds_write_through) (auto simp: writer_def intro: sound_update)

lemma writer_buffer:
  assumes "writer b h i c" "pw_inode p = i" "pw_start p + length (pw_buffer p) \<le> U64_MAX"
  shows "sound_after b (c\<lparr>tb_pending := AList.update h p (tb_pending c)\<rparr>)"
  using assms sound_handles [of b c]
  by (auto simp: writer_def intro!: sound_handle_change [of b c] handles_ok_buffer)

lemma can_append_end:
  assumes "can_append threshold offset len (Some p)" "offset + len \<le> U64_MAX" "pw_start p + length (pw_buffer p) \<le> U64_MAX"
  shows "pw_start p + (length (pw_buffer p) + len) \<le> U64_MAX"
  using assms by (simp add: can_append_def pending_end_def saturating_add_exact)

lemma handle_triple: "triple (sound b) (fuse_file_handle h) (\<lambda>r s. sound b s \<and> map_of (ad_handles s) h = Some r) (\<lambda>_. sound b)"
  by (auto simp: triple_def fuse_file_handle_def ok_or_def split: option.splits)

lemma writer_triple: "triple (\<lambda>s. sound b s \<and> map_of (ad_handles s) h = Some r) (require_that e (can_write (fh_access r)))
    (\<lambda>_ s. writer b h (fh_inode r) (tables_of s)) (\<lambda>_. sound b)"
  by (auto simp: triple_def require_that_def mret_def mfail_def writer_def)

lemma writer_sound: "writer b h i (tables_of s) \<Longrightarrow> sound b s"
  by (simp add: writer_def)

lemma writer_keeps: "holds (writer b h i) m \<Longrightarrow> triple (\<lambda>s. writer b h i (tables_of s)) m (\<lambda>_ s. writer b h i (tables_of s)) (\<lambda>_. sound b)"
  by (erule triple_conseq) (auto dest: writer_sound)

lemma write_appends:
  assumes "offset + length data \<le> U64_MAX"
  shows "triple (\<lambda>s. writer b h i (tables_of s) \<and> pending = map_of (ad_pending s) h \<and> can_append threshold offset (length data) pending)
    (mput (\<lambda>s. s\<lparr>ad_pending := AList.update h ((the pending)\<lparr>pw_buffer := pw_buffer (the pending) @ data\<rparr>) (ad_pending s)\<rparr>))
    (\<lambda>_. sound b) (\<lambda>_. sound b)"
proof (rule triple_mput)
  fix s :: "'w adapter"
  assume s: "writer b h i (tables_of s) \<and> pending = map_of (ad_pending s) h \<and> can_append threshold offset (length data) pending"
  then obtain p where p: "pending = Some p" "map_of (ad_pending s) h = Some p" by (auto simp: can_append_def split: option.splits)
  from s obtain r where r: "map_of (ad_handles s) h = Some r" "fh_inode r = i" "sound b s" by (auto simp: writer_def)
  have "pw_inode p = i" "pw_start p + length (pw_buffer p) \<le> U64_MAX"
    using handles_okD(6) [OF sound_handles [OF r(3)], of h p] p(2) r(1,2) by auto
  with s p assms have "sound_after b ((tables_of s)\<lparr>tb_pending :=
      AList.update h (p\<lparr>pw_buffer := pw_buffer p @ data\<rparr>) (tb_pending (tables_of s))\<rparr>)"
    using can_append_end [of threshold offset "length data" p] by (intro writer_buffer) auto
  then show "sound b (s\<lparr>ad_pending := AList.update h ((the pending)\<lparr>pw_buffer := pw_buffer (the pending) @ data\<rparr>) (ad_pending s)\<rparr>)"
    by (simp add: p(1))
qed

lemma keeps_write: "keeps b (write_async (I :: 'w remote_fs) h offset data)"
proof (cases "validate_io_range offset (length data)")
  case (Inl e)
  then show ?thesis by (simp add: triple_def write_async_def mbind_def mlift_def)
next
  case (Inr u)
  then have range: "offset + length data \<le> U64_MAX" by (auto simp: validate_io_range_def fuse_range_def split: if_splits)
  have sends: "triple (\<lambda>s. writer b h i (tables_of s)) (mbind (flush_pending I h) (\<lambda>_.
         mbind (if length data < threshold
                then mput (\<lambda>s. s\<lparr>ad_pending := AList.update h
                  \<lparr>pw_inode = i, pw_start = offset, pw_buffer = data\<rparr> (ad_pending s)\<rparr>)
                else write_through I h offset data) (\<lambda>_. mret (length data)))) (\<lambda>_. sound b) (\<lambda>_. sound b)" for i threshold
  proof (rule triple_mbind [OF writer_keeps [OF writer_flush]], rule triple_mbind [where R = "\<lambda>_. sound b"], rule triple_if)
    show "triple (\<lambda>s. writer b h i (tables_of s))
        (mput (\<lambda>s :: 'w adapter. s\<lparr>ad_pending := AList.update h \<lparr>pw_inode = i, pw_start = offset, pw_buffer = data\<rparr> (ad_pending s)\<rparr>)) (\<lambda>_. sound b) (\<lambda>_. sound b)"
      by (rule triple_mput) (use range writer_buffer [of b h i "tables_of s" "\<lparr>pw_inode = i, pw_start = offset, pw_buffer = data\<rparr>" for s :: "'w adapter"] in auto)
    show "triple (\<lambda>s. writer b h i (tables_of s)) (write_through I h offset data) (\<lambda>_. sound b) (\<lambda>_. sound b)"
      by (rule triple_conseq [OF writer_write]) (auto dest: writer_sound)
  qed (rule triple_mret)
  have choice: "triple (\<lambda>s. writer b h i (tables_of s) \<and> pending = map_of (ad_pending s) h) (if can_append threshold offset (length data) pending
       then mbind (mput (\<lambda>s. s\<lparr>ad_pending := AList.update h
              ((the pending)\<lparr>pw_buffer := pw_buffer (the pending) @ data\<rparr>) (ad_pending s)\<rparr>)) (\<lambda>_. mret (length data))
       else mbind (flush_pending I h) (\<lambda>_.
         mbind (if length data < threshold
                then mput (\<lambda>s. s\<lparr>ad_pending := AList.update h
                  \<lparr>pw_inode = i, pw_start = offset, pw_buffer = data\<rparr> (ad_pending s)\<rparr>)
                else write_through I h offset data) (\<lambda>_. mret (length data)))) (\<lambda>_. sound b) (\<lambda>_. sound b)" for i pending threshold
  proof (rule triple_if)
    assume "can_append threshold offset (length data) pending"
    then show "triple (\<lambda>s. writer b h i (tables_of s) \<and> pending = map_of (ad_pending s) h) (mbind (mput (\<lambda>s :: 'w adapter. s\<lparr>ad_pending :=
        AList.update h ((the pending)\<lparr>pw_buffer := pw_buffer (the pending) @ data\<rparr>) (ad_pending s)\<rparr>)) (\<lambda>_. mret (length data)))
        (\<lambda>_. sound b) (\<lambda>_. sound b)"
      by (intro triple_mbind [OF triple_conseq [OF write_appends [OF range, of b h i pending threshold]]] triple_mret) auto
  qed (rule triple_conseq [OF sends], auto)
  have asks: "triple (\<lambda>s. writer b h i (tables_of s)) (mget (\<lambda>s :: 'w adapter. map_of (ad_pending s) h))
      (\<lambda>p s. writer b h i (tables_of s) \<and> p = map_of (ad_pending s) h) (\<lambda>_. sound b)" for i
    by (simp add: triple_def mget_def)
  show ?thesis
    unfolding write_async_def Inr Let_def
    by (rule keeps_bind [OF keeps_idle [OF idle_basic(3)]], rule keeps_bind [OF keeps_idle [OF idle_basic(7)]],
        rule keeps_bind [OF keeps_idle [OF idle_parts(1)]], rule triple_mbind [OF handle_triple], rule triple_mbind [OF writer_triple],
        rule triple_if, rule triple_mfail, erule writer_sound, rule triple_mbind [OF asks], rule choice)
qed

lemmas keeps_parts = keeps_rules keeps_primitives keeps_write_through keeps_flush_pending keeps_flush_inode holds_pair

lemma keeps_file_read: "keeps b (read_async I h offset len)"
proof -
  have "keeps b (\<lambda>s. if has_pending h s then flush_pending I h s else (Inr (), s))"
    by (rule keeps_snd) (simp add: triple_snd [OF keeps_flush_pending])
  then show ?thesis
    unfolding read_async_def Let_def by (intro keeps_rules) (auto intro: keeps_idle idle_all)
qed

lemma keeps_release: "keeps b (release_async (I :: 'w remote_fs) h flush owner)"
proof -
  note forget = triple_snd [OF keeps_forget(2)]
  have background: "keeps b (mbind (take_file_handle h) (\<lambda>opened. mbind (spawn (CloseTask (fh_remote opened))) (\<lambda>_.
       mignore (forget_inode (fh_inode opened) 0))) :: ('w, unit) adop)"
    by (intro keeps_bind keeps_take_handle keeps_idle idle_basic triple_mignore keeps_forget)
  have idle: "idle (execute I (\<lambda>d. remote_call I d a))" for a :: "('w, unit) act" by (intro idle_rules)
  have closing: "keeps b (mbind (take_file_handle h) (\<lambda>opened s2.
         let (flush_result, s3) = (if flush then execute I (\<lambda>d. remote_call I d (in_flush_file I (fh_remote opened) owner)) s2
               else (Inr (), s2));
             (close_result, s4) = execute I (\<lambda>d. remote_call I d (in_close_file I (fh_remote opened))) s3
         in (result_and (result_and pending flush_result) close_result, snd (forget_inode (fh_inode opened) 0 s4))))"
    for pending :: "adapter_error + unit"
  proof (rule keeps_bind [OF keeps_take_handle], rule keeps_snd)
    fix opened and s2 :: "'w adapter" assume "sound b s2"
    moreover have "tables_of (snd (if flush then execute I (\<lambda>d. remote_call I d (in_flush_file I (fh_remote opened) owner)) s2
               else (Inr (), s2))) = tables_of s2"
      using idle by (simp add: idle_def)
    ultimately show "sound b (snd (let (flush_result, s3) = (if flush then execute I (\<lambda>d. remote_call I d (in_flush_file I (fh_remote opened) owner)) s2
               else (Inr (), s2));
             (close_result, s4) = execute I (\<lambda>d. remote_call I d (in_close_file I (fh_remote opened))) s3
         in (result_and (result_and pending flush_result) close_result, snd (forget_inode (fh_inode opened) 0 s4))))"
      using idle by (simp add: Let_def split_beta idle_def forget)
  qed
  show ?thesis
    unfolding release_async_def
  proof (rule keeps_bind [OF keeps_idle [OF idle_basic(7)]], rule keeps_snd, goal_cases)
    case (1 u s)
    obtain pending s1 where flushed: "flush_pending I h s = (pending, s1)" by (metis prod.exhaust)
    have "sound b s1" using triple_snd [OF keeps_flush_pending 1, of I h] by (simp add: flushed)
    from triple_snd [OF closing this, of pending] triple_snd [OF background 1] show ?case
      unfolding flushed Let_def prod.case by (cases "case map_of (ad_handles s) h of
        None \<Rightarrow> False | Some opened \<Rightarrow> \<not> can_write (fh_access opened) \<and> \<not> fh_used_locks opened") (simp_all only: if_True if_False)
  qed
qed

lemma keeps_files:
  "keeps b (flush_async I ha own)" "keeps b (fsync_async I hb dt)" "keeps b (allocate_async I hc offc lenc)"
  "keeps b (copy_file_range_async I hdd offd he offe lene)" "keeps b (lseek_async I hf offf wh)" "keeps b (set_lock_async I hg lk wt)"
  unfolding flush_async_def fsync_async_def allocate_async_def copy_file_range_async_def lseek_async_def set_lock_async_def
  by (intro keeps_parts | rule keeps_idle, intro idle_all)+

subsection \<open>Callbacks on nodes\<close>

lemma known_frame: "idle m \<Longrightarrow> triple (sound_at b i) m (\<lambda>_. sound_at b i) (\<lambda>_. sound b)"
  by (rule triple_conseq [OF holds_idle [where Q = "\<lambda>c. sound_after b c \<and> known_inode (tb_inodes c) i"]]) simp_all

lemma inode_triple: "triple (sound b) (inode_record i) (\<lambda>_. sound_at b i) (\<lambda>_. sound b)"
  by (auto simp: triple_def inode_record_def ok_or_def split: option.splits)

lemma known_sound: "triple (sound_at b i) m Q E \<Longrightarrow> triple (\<lambda>s. sound_at b i s \<and> P s) m Q E"
  by (simp add: triple_def)

lemma known_done: "triple (sound_at b i) (mret x) (\<lambda>_. sound b) (\<lambda>_. sound b)"
  by (simp add: triple_def mret_def)

lemma execute_triple: "(\<And>d. triple P (f d) Q E) \<Longrightarrow> triple P (execute I f) Q E"
  by (simp add: triple_def execute_def)

lemma adopt_triple: "triple (sound b) (adopt_node I p x m) (\<lambda>i. sound_at b i) (\<lambda>_. sound b)"
  unfolding adopt_node_def
  by (rule triple_mbind [OF keeps_idle [OF idle_basic(9)]], rule triple_mbind [OF keeps_idle [OF idle_parts(5)]],
      rule triple_mbind [OF remember_entry_sound], rule triple_mbind [OF add_lookup_sound], simp add: triple_def mret_def)

lemma open_triple: "triple (sound_at b i) (open_remembered (I :: 'w remote_fs) d i access opened) (\<lambda>_. sound b) (\<lambda>_. sound b)"
proof (unfold triple_def, intro allI impI)
  fix s :: "'w adapter" assume s: "sound_at b i s"
  obtain r t where opened: "remember_file_handle i access opened s = (r, t)" by (metis prod.exhaust)
  have t: "sound b t" using tripleD [OF remember_handle_sound s, of access opened] by (simp add: opened split: sum.splits)
  obtain q u where closed: "remote_call I d (in_close_file I (op_handle opened)) t = (q, u)" by (metis prod.exhaust)
  have "sound b u" using t idleD [OF idle_basic(17) closed] by simp
  with t show "case open_remembered I d i access opened s of (Inl e, t) \<Rightarrow> sound b t | (Inr x, t) \<Rightarrow> sound b t"
    by (auto simp: open_remembered_def opened closed split: sum.splits adapter_error.splits)
qed

lemma keeps_open: "keeps b (open_async I i options)"
  unfolding open_async_def
  by (rule keeps_bind, (intro triple_if keeps_bind keeps_idle idle_parts idle_basic)[1], rule triple_mbind [OF inode_triple],
      rule execute_triple, rule triple_mbind [OF known_frame [OF idle_basic(17)]], rule open_triple)

lemma keeps_listed: "keeps b (remember_listed I i entries)"
proof (induction entries)
  case (Cons entry entries)
  have entry: "keeps b (remember_entry n p x)" for n p x
    by (rule triple_conseq [OF remember_entry_sound]) auto
  show ?case
    unfolding remember_listed.simps by (intro keeps_bind entry Cons keeps_idle idle_basic idle_parts)
qed (simp add: keeps_idle idle_basic)

lemma keeps_view: "keeps b (remember_directory_view I N i record view)"
  unfolding remember_directory_view_def remember_directory_snapshot_def Let_def
  by (intro keeps_bind keeps_option keeps_mfor keeps_listed keeps_reconcile keeps_idle idle_basic idle_parts idle_put idle_simps)

lemma keeps_readdir: "keeps b (readdir_async I N i)"
  unfolding readdir_async_def
  by (intro keeps_bind keeps_option keeps_view keeps_idle idle_basic idle_execute)

lemma keeps_from_listing: "keeps b (lookup_from_listing I N p listing x)"
  unfolding lookup_from_listing_def Let_def
  by (rule keeps_bind [OF keeps_idle [OF idle_basic(3)]], rule triple_mbind [OF remember_entry_sound],
      rule triple_mbind [OF add_lookup_sound], rule triple_mbind [OF known_frame [OF idle_basic(9)]], rule known_done)

lemma entry_triple: "triple (sound b) (find_entry_inode N p x)
    (\<lambda>found s. sound b s \<and> (\<forall>i. found = Some i \<longrightarrow> known_inode (ad_inodes s) i)) (\<lambda>_. sound b)"
proof (unfold triple_def, intro allI impI)
  fix s :: "'w adapter" assume s: "sound b s"
  note ok = sound_inodes [OF s, simplified]
  have known: "known_inode (ad_inodes s) i" if "(k, i) \<in> set (it_by_entry (ad_inodes s))" for k i
    using that inodes_ok_entry [OF ok, of k i] inodes_ok_entries [OF ok] by simp
  have listed: "known_inode (ad_inodes s) i"
    if "map snd (filter P (it_by_entry (ad_inodes s))) = [i]" for P i
  proof -
    have "i \<in> snd ` set (filter P (it_by_entry (ad_inodes s)))" using that by (metis list.set_intros(1) list.set_map)
    then show ?thesis using known by auto
  qed
  show "case find_entry_inode N p x s of (Inl e, t) \<Rightarrow> sound b t
      | (Inr found, t) \<Rightarrow> sound b t \<and> (\<forall>i. found = Some i \<longrightarrow> known_inode (ad_inodes t) i)"
    using s inodes_ok_entry [OF ok, of "(p, x)"] listed
    by (auto simp: find_entry_inode_def Let_def split: option.split list.split)
qed

lemma keeps_lookup: "keeps b (lookup_async I N p x)"
  unfolding lookup_async_def
proof (rule keeps_bind [OF keeps_idle [OF idle_basic(3)]], rule keeps_bind [OF keeps_idle [OF idle_basic(10)]], rule keeps_option)
  show "keeps b (mbind (find_entry_inode N p x) (\<lambda>found. case found of
      Some i \<Rightarrow> mbind (getattr_async I i) (\<lambda>m. mbind (add_lookup i 1) (\<lambda>_. mret (i, m)))
    | None \<Rightarrow> mbind (readdir_async I N p) (\<lambda>listing. lookup_from_listing I N p listing x)))"
  proof (rule triple_mbind [OF entry_triple])
    fix found
    have "triple (sound_at b i) (mbind (getattr_async I i) (\<lambda>m. mbind (add_lookup i 1) (\<lambda>_. mret (i, m)))) (\<lambda>_. sound b) (\<lambda>_. sound b)" for i
      by (rule triple_mbind [OF known_frame [OF idle_getattr]], rule triple_mbind [OF add_lookup_sound], rule known_done)
    moreover have "keeps b (mbind (readdir_async I N p) (\<lambda>listing. lookup_from_listing I N p listing x))"
      by (rule keeps_bind [OF keeps_readdir keeps_from_listing])
    ultimately show "triple (\<lambda>s. sound b s \<and> (\<forall>i. found = Some i \<longrightarrow> known_inode (ad_inodes s) i))
        (case found of Some i \<Rightarrow> mbind (getattr_async I i) (\<lambda>m. mbind (add_lookup i 1) (\<lambda>_. mret (i, m)))
          | None \<Rightarrow> mbind (readdir_async I N p) (\<lambda>listing. lookup_from_listing I N p listing x)) (\<lambda>_. sound b) (\<lambda>_. sound b)"
      by (cases found) simp_all
  qed
qed (rule keeps_from_listing)

lemma getattr_triple: "triple (sound b) (getattr_async I i) (\<lambda>_. sound_at b i) (\<lambda>_. sound b)"
  unfolding getattr_async_def
  by (rule triple_mbind [OF inode_triple], rule triple_mbind [OF known_frame [OF idle_basic(8)]],
      rule triple_mbind [OF known_frame], (intro idle_rules)[1], rule known_frame [OF idle_basic(4)])

lemma opendir_triple: "triple (sound_at b i) (mbind next_handle (\<lambda>h.
     mbind (mput (\<lambda>s. s\<lparr>ad_directory_handles := AList.update h
         \<lparr>dh_inode = i, dh_listing = listing, dh_current = m, dh_parent = parent\<rparr> (ad_directory_handles s)\<rparr>)) (\<lambda>_.
     mret h))) (\<lambda>_. sound b) (\<lambda>_. sound b)"
proof (unfold triple_def, intro allI impI)
  fix s :: "'w adapter" assume s: "sound_at b i s"
  let ?r = "\<lparr>dh_inode = i, dh_listing = listing, dh_current = m, dh_parent = parent\<rparr>"
  have "handles_ok (tables_of s)" using s sound_handles by blast
  from handles_ok_new_directory [OF this, of ?r] s
  have "sound_after b ((tables_of s)\<lparr>tb_next_handle := Suc (ad_next_handle s),
      tb_directory_handles := AList.update (ad_next_handle s) ?r (ad_directory_handles s)\<rparr>)"
    using sound_handle_change [of b "tables_of s"] by simp
  then show "case mbind next_handle (\<lambda>h. mbind (mput (\<lambda>s. s\<lparr>ad_directory_handles := AList.update h ?r (ad_directory_handles s)\<rparr>)) (\<lambda>_. mret h)) s of
      (Inl e, t) \<Rightarrow> sound b t | (Inr h, t) \<Rightarrow> sound b t"
    using s by (simp add: next_handle_def mbind_def mput_def mret_def split: option.split)
qed

lemma keeps_opendir: "keeps b (opendir_async I N i)"
  unfolding opendir_async_def
  by (rule keeps_bind [OF keeps_idle [OF idle_basic(10)]], rule keeps_bind,
      (intro keeps_option keeps_readdir keeps_idle idle_basic)[1], rule triple_mbind [OF getattr_triple],
      rule triple_mbind [OF known_frame [OF idle_parts(4)]], rule triple_mbind [OF known_frame],
      (intro idle_if idle_getattr idle_basic)[1], rule opendir_triple)

lemma keeps_create:
  "keeps b (create_directory_async I pa xa ma)" "keeps b (create_symlink_async I pb xb tb)"
  "keeps b (create_special_node_async I pc xc kc mc ia ib)"
proof -
  have adopt: "triple (sound b) (mbind (adopt_node I p x m) (\<lambda>i. mret (i, m))) (\<lambda>_. sound b) (\<lambda>_. sound b)" for p x m
    by (rule triple_mbind [OF adopt_triple], rule known_done)
  show "keeps b (create_directory_async I pa xa ma)" "keeps b (create_symlink_async I pb xb tb)"
    "keeps b (create_special_node_async I pc xc kc mc ia ib)"
    unfolding create_directory_async_def create_symlink_async_def create_special_node_async_def
    by (rule keeps_bind, rule keeps_idle, intro idle_parts, rule keeps_bind [OF keeps_idle [OF idle_basic(3)]],
        rule keeps_bind [OF keeps_idle [OF idle_basic(5)]], rule execute_triple, rule keeps_bind [OF keeps_idle [OF idle_basic(17)]],
        rule adopt)+
qed

lemma keeps_create_file: "keeps b (create_file_async I p x m options)"
  unfolding create_file_async_def
  by (rule keeps_bind [OF keeps_idle [OF idle_parts(1)]], rule keeps_bind [OF keeps_idle [OF idle_basic(3)]],
      rule keeps_bind [OF keeps_idle [OF idle_basic(5)]], rule execute_triple, rule keeps_bind [OF keeps_idle [OF idle_basic(17)]],
      rule triple_mbind [OF adopt_triple], rule triple_mbind [OF open_triple], rule triple_mret)

lemma keeps_link: "keeps b (create_hard_link_async I i p x)"
proof -
  have link: "triple (sound b) (mbind (remember_entry n p x) (\<lambda>linked. mbind (add_lookup linked 1) (\<lambda>_. mret (linked, m))))
      (\<lambda>_. sound b) (\<lambda>_. sound b)" for n and m :: metadata
    by (rule triple_mbind [OF remember_entry_sound], rule triple_mbind [OF add_lookup_sound], rule known_done)
  show ?thesis
    unfolding create_hard_link_async_def
    by (rule keeps_bind [OF keeps_idle [OF idle_parts(3)]], rule keeps_bind [OF keeps_idle [OF idle_basic(3)]],
        rule keeps_bind [OF keeps_idle [OF idle_basic(5)]], rule keeps_bind [OF keeps_idle [OF idle_basic(5)]],
        rule execute_triple, rule keeps_bind [OF keeps_idle [OF idle_basic(17)]], rule keeps_bind [OF keeps_idle [OF idle_basic(3)]],
        rule keeps_bind [OF keeps_idle [OF idle_basic(12)]], rule keeps_bind [OF keeps_idle [OF idle_parts(5)]],
        rule keeps_bind [OF keeps_idle [OF idle_basic(9)]], rule link)
qed

lemma keeps_nodes:
  "keeps b (remove_async I pa xa da)" "keeps b (rename_async I pb xb qb yb mb)" "keeps b (setattr_async I ic hc cc)"
  unfolding remove_async_def rename_async_def setattr_async_def
  by (intro keeps_parts execute_triple | rule keeps_idle, intro idle_all)+

lemma keeps_prewarm: "keeps b (prewarm_for_mount I N)"
  unfolding prewarm_for_mount_def by (intro keeps_bind keeps_readdir keeps_idle idle_all)

subsection \<open>All of them\<close>

lemmas keeps_all = keeps_idle [OF idle_capabilities] keeps_prewarm keeps_lookup keeps_idle [OF idle_getattr] keeps_readdir keeps_opendir
  keeps_releasedir idle_ops [THEN keeps_idle] keeps_open keeps_create_file keeps_create keeps_link keeps_nodes keeps_file_read keeps_write
  keeps_files keeps_idle [OF idle_statfs] keeps_release keeps_forget

lemma sound_op: "sound b s \<Longrightarrow> sound b (run_adapter_op I N op s)"
  by (cases op) (simp_all only: run_adapter_op.simps keeps_all [THEN triple_snd] sound_destroy)

lemma sound_task: "sound b s \<Longrightarrow> sound b (run_adapter_task I task s)"
proof (cases task)
  case RefreshStatsTask
  assume s: "sound b s"
  obtain r t where ran: "execute I (\<lambda>d. remote_call I d (in_stat_filesystem I)) s = (r, t)" by (metis prod.exhaust)
  have "tables_of t = tables_of s" using idleD [OF idle_execute [OF idle_basic(17)] ran] .
  with s show ?thesis by (simp add: RefreshStatsTask ran split: sum.split)
next
  case (CleanupTask f)
  assume s: "sound b s"
  from triple_snd [OF keeps_idle [OF idle_basic(17)] s] show ?thesis by (simp add: CleanupTask)
qed (simp_all add: triple_snd [OF keeps_idle [OF idle_execute [OF idle_basic(17)]]] triple_snd [OF keeps_forget(1)])

lemma sound_reachable:
  assumes "adapter_reach I N s t" "tables_ok (tables_of s)"
  shows "sound (tables_of s) t"
  using assms(1)
proof induction
  case fuse_start
  show ?case by (rule sound_start [OF assms(2)])
next
  case (fuse_op t op)
  then show ?case by (intro sound_op)
next
  case (fuse_task t task)
  then show ?case by (intro sound_task) simp
qed

lemma tables_ok_new: "tables_ok (tables_of (with_runtime w timeout))"
  by (auto simp: with_runtime_def tables_of_def tables_ok_def inodes_ok_def inode_table_new_def handles_ok_def ROOT_INODE_def)

end
