(* ===== verification/Byte_Ranges.thy ===== *)
theory Byte_Ranges
  imports Prelude
begin

text \<open>
  The contents of a file as a list of bytes: writing at an offset, which fills a gap with zeros, and reading a range.
\<close>

definition overwrite :: "bytes \<Rightarrow> u64 \<Rightarrow> bytes \<Rightarrow> bytes" where
  "overwrite c offset d = (if d = [] then c else take offset c @ replicate (offset - length c) 0 @ d @ drop (offset + length d) c)"

definition bytes_at :: "bytes \<Rightarrow> u64 \<Rightarrow> u64 \<Rightarrow> bytes" where
  "bytes_at c offset len = take len (drop offset c)"

lemma overwrite_Nil [simp]: "overwrite c offset [] = c"
  by (simp add: overwrite_def)

lemma length_overwrite: "d \<noteq> [] \<Longrightarrow> length (overwrite c offset d) = max (length c) (offset + length d)"
  by (auto simp: overwrite_def)

lemma nth_overwrite:
  assumes "i < max (length c) (offset + length d)" "d \<noteq> []"
  shows "overwrite c offset d ! i =
    (if offset \<le> i \<and> i < offset + length d then d ! (i - offset) else if i < length c then c ! i else 0)"
  using assms by (auto simp: overwrite_def nth_append min_def not_less)

lemma overwrite_append: "overwrite (overwrite c a x) (a + length x) y = overwrite c a (x @ y)"
proof (cases "x = [] \<or> y = []")
  case False
  then have "x \<noteq> []" "y \<noteq> []" by simp_all
  then show ?thesis
    by (intro nth_equalityI) (auto simp: length_overwrite nth_overwrite nth_append max_def split: if_splits)
qed auto

lemma bytes_at_append:
  assumes "length (bytes_at c offset n) = n" "n \<le> m"
  shows "bytes_at c offset n @ bytes_at c (offset + n) (m - n) = bytes_at c offset m"
proof -
  have "take m (drop offset c) = take n (drop offset c) @ take (m - n) (drop n (drop offset c))"
    using assms(2) by (metis le_add_diff_inverse take_add)
  then show ?thesis by (simp add: bytes_at_def add.commute)
qed

lemma bytes_at_short: "length (bytes_at c offset n) < n \<Longrightarrow> n \<le> m \<Longrightarrow> bytes_at c offset m = bytes_at c offset n"
  by (simp add: bytes_at_def)

lemma length_bytes_at: "length (bytes_at c offset n) = min n (length c - offset)"
  by (simp add: bytes_at_def)

lemma overwrite_prepend:
  assumes "length x = q"
  shows "overwrite (overwrite c (a + q) y) a x = overwrite c a (x @ y)"
proof (cases "x = [] \<or> y = []")
  case False
  then have "x \<noteq> []" "y \<noteq> []" by simp_all
  then show ?thesis
    using assms by (intro nth_equalityI) (auto simp: length_overwrite nth_overwrite nth_append max_def split: if_splits)
qed (use assms in auto)

text \<open>A range is not touched by what is written beside it.\<close>

lemma bytes_at_overwrite:
  assumes "i + n \<le> length c" "i + n \<le> o' \<or> o' + length d \<le> i"
  shows "bytes_at (overwrite c o' d) i n = bytes_at c i n"
proof (cases "d = []")
  case False
  then show ?thesis
    using assms by (intro nth_equalityI) (auto simp: bytes_at_def length_overwrite nth_overwrite)
qed simp

lemma bytes_at_whole: "bytes_at c 0 (length c) = c"
  by (simp add: bytes_at_def)

lemma overwrite_whole: "overwrite [] 0 d = d"
  by (simp add: overwrite_def)

end
