(* ===== verification/Adapter_Refines.thy ===== *)
theory Adapter_Refines
  imports Adapter_Sound Byte_Ranges
begin

text \<open>
  The per-handle write buffer refines writing at once: the file as its writer sees it is a list of bytes, a write
  overwrites part of it, a read returns part of it, whatever was buffered, merged or sent in chunks.
\<close>

subsection \<open>What the remote promises\<close>

text \<open>
  \<open>content w f\<close> are the bytes of the file that the remote handle \<open>f\<close> is of. Nobody else writes to it: an
  acknowledged write overwrites a part, a read returns a part, and the other calls leave it alone.
\<close>

definition file_store :: "('w \<Rightarrow> file_handle \<Rightarrow> bytes) \<Rightarrow> 'w remote_fs \<Rightarrow> bool" where
  "file_store content I \<longleftrightarrow>
     (\<forall>f offset d w r w'. in_write_range I f offset d w = (Inr r, w') \<longrightarrow> wr_written r = length d \<longrightarrow>
        content w' f = overwrite (content w f) offset d) \<and>
     (\<forall>f offset len w r w'. in_read_range_versioned I f offset len w = (Inr r, w') \<longrightarrow>
        rr_data r = bytes_at (content w f) offset len \<and> content w' f = content w f) \<and>
     (\<forall>f w r w'. in_capabilities I w = (r, w') \<longrightarrow> content w' f = content w f) \<and>
     (\<forall>f own w r w'. in_flush_file I f own w = (Inr r, w') \<longrightarrow> content w' f = content w f) \<and>
     (\<forall>f data_only w r w'. in_sync_file I f data_only w = (Inr r, w') \<longrightarrow> content w' f = content w f)"

lemma file_storeD:
  assumes "file_store content I"
  shows "in_write_range I f offset d w = (Inr wr, w') \<Longrightarrow> wr_written wr = length d \<Longrightarrow> content w' f = overwrite (content w f) offset d"
    and "in_read_range_versioned I f offset len w = (Inr rd, w') \<Longrightarrow> rr_data rd = bytes_at (content w f) offset len \<and> content w' f = content w f"
    and "in_capabilities I w = (c, w') \<Longrightarrow> content w' f = content w f"
    and "in_flush_file I f own w = (Inr u, w') \<Longrightarrow> content w' f = content w f"
    and "in_sync_file I f data_only w = (Inr u, w') \<Longrightarrow> content w' f = content w f"
  using assms unfolding file_store_def by auto

text \<open>The file as the holder of the handle sees it: what was acknowledged, sent or not.\<close>

definition view_of :: "('w \<Rightarrow> file_handle \<Rightarrow> bytes) \<Rightarrow> u64 \<Rightarrow> 'w adapter \<Rightarrow> bytes" where
  "view_of content h s = (case map_of (ad_handles s) h of
     None \<Rightarrow> []
   | Some r \<Rightarrow> (case map_of (ad_pending s) h of
       None \<Rightarrow> content (ad_world s) (fh_remote r)
     | Some p \<Rightarrow> overwrite (content (ad_world s) (fh_remote r)) (pw_start p) (pw_buffer p)))"

text \<open>The handle of the remote behind \<open>h\<close>, the bytes the remote has and the bytes that wait.\<close>

definition at_file :: "('w \<Rightarrow> file_handle \<Rightarrow> bytes) \<Rightarrow> u64 \<Rightarrow> file_handle \<Rightarrow> bytes \<Rightarrow> pending_write option \<Rightarrow> 'w adapter \<Rightarrow> bool" where
  "at_file content h f c p s \<longleftrightarrow> (\<exists>r. map_of (ad_handles s) h = Some r \<and> fh_remote r = f) \<and> content (ad_world s) f = c \<and>
     map_of (ad_pending s) h = p"

definition with_buffer :: "bytes \<Rightarrow> pending_write option \<Rightarrow> bytes" where
  "with_buffer c p = (case p of None \<Rightarrow> c | Some p \<Rightarrow> overwrite c (pw_start p) (pw_buffer p))"

lemma at_file_view: "at_file content h f c p s \<Longrightarrow> view_of content h s = with_buffer c p"
  by (auto simp: at_file_def view_of_def with_buffer_def split: option.splits)

lemma at_file_exists: "map_of (ad_handles s) h = Some r \<Longrightarrow>
    at_file content h (fh_remote r) (content (ad_world s) (fh_remote r)) (map_of (ad_pending s) h) s"
  by (simp add: at_file_def)

abbreviation yields :: "('w adapter \<Rightarrow> bool) \<Rightarrow> ('w, 'a) adop \<Rightarrow> ('a \<Rightarrow> 'w adapter \<Rightarrow> bool) \<Rightarrow> bool" where
  "yields P m Q \<equiv> triple P m Q (\<lambda>_ _. True)"

lemma yields_bind: "yields P m R \<Longrightarrow> (\<And>x. yields (R x) (f x) Q) \<Longrightarrow> yields P (mbind m f) Q"
  by (rule triple_mbind)

lemma yields_execute: "(\<And>d. yields P (f d) Q) \<Longrightarrow> yields P (execute I f) Q"
  by (simp add: triple_def execute_def)

lemma yields_state: "(\<And>s. P s \<Longrightarrow> Q (f s) s) \<Longrightarrow> yields P (\<lambda>s. (Inr (f s), s)) Q"
  by (simp add: triple_def)

subsection \<open>The parts of an operation\<close>

lemma at_file_world: "at_file content h f c p s \<Longrightarrow> content w f = c' \<Longrightarrow> at_file content h f c' p (s\<lparr>ad_world := w\<rparr>)"
  by (simp add: at_file_def)

lemma remote_yields:
  assumes "\<And>w r w'. content w f = c \<Longrightarrow> a w = (Inr r, w') \<Longrightarrow> Q r (content w' f)"
  shows "yields (at_file content h f c p) (remote_call I d a) (\<lambda>r s. \<exists>c'. Q r c' \<and> at_file content h f c' p s)"
proof (rule tripleI)
  fix s x t assume s: "at_file content h f c p s" and call: "remote_call I d a s = (Inr x, t)"
  obtain r w where a: "a (ad_world s) = (r, w)" by (metis prod.exhaust)
  with call have "r = Inr x" "t = s\<lparr>ad_world := w\<rparr>"
    by (auto simp: remote_call_def Let_def map_err_def split: if_splits sum.splits)
  with assms [of "ad_world s" x w] s a show "\<exists>c'. Q x c' \<and> at_file content h f c' p t"
    by (auto simp: at_file_def)
qed simp

lemma at_file_frames [simp]:
  "at_file content h f c p (s\<lparr>ad_capabilities := x1\<rparr>) = at_file content h f c p s"
  "at_file content h f c p (s\<lparr>ad_metadata := x2, ad_xattrs := x3, ad_directories := x4\<rparr>) = at_file content h f c p s"
  by (simp_all add: at_file_def)

lemma capabilities_yields:
  assumes "file_store content I"
  shows "yields (at_file content h f c p) (capabilities_async I) (\<lambda>_. at_file content h f c p)"
proof (rule tripleI)
  fix s x t assume s: "at_file content h f c p s" and got: "capabilities_async I s = (Inr x, t)"
  obtain r w where a: "in_capabilities I (ad_world s) = (r, w)" by (metis prod.exhaust)
  have "content w f = c" using file_storeD(3) [OF assms a] s by (simp add: at_file_def)
  with s got a show "at_file content h f c p t"
    by (auto simp: capabilities_async_def mbind_def execute_def remote_call_def Let_def map_err_def mput_def mret_def mfail_def at_file_world
        split: option.splits sum.splits if_splits)
qed simp

lemma inode_yields: "yields (at_file content h f c p) (mbind (inode_record i) (\<lambda>r. invalidate_node_views (ir_node r))) (\<lambda>_. at_file content h f c p)"
  by (auto simp: triple_def mbind_def inode_record_def ok_or_def invalidate_node_views_def mput_def Let_def split: option.splits)

lemma update_yields: "yields (at_file content h f c p) (update_file_handle h revision sz) (\<lambda>_. at_file content h f c p)"
  by (auto simp: triple_def update_file_handle_def at_file_def split: option.splits)

lemma handle_yields: "yields (at_file content h f c p) (fuse_file_handle h) (\<lambda>r s. fh_remote r = f \<and> at_file content h f c p s)"
  by (auto simp: triple_def fuse_file_handle_def at_file_def)

lemma fixed_yields: "(b \<Longrightarrow> yields P m Q) \<Longrightarrow> yields (\<lambda>s. b \<and> P s) m Q"
  by (auto simp: triple_def)

lemma write_loop_yields:
  assumes "file_store content I" "0 < limit"
  shows "yields (at_file content h f c p) (write_loop I d f limit data position revision sz)
    (\<lambda>_. at_file content h f (overwrite c position data) p)"
proof (rule tripleI)
  show "at_file content h f (overwrite c position data) p t"
    if "at_file content h f c p s" "write_loop I d f limit data position revision sz s = (Inr x, t)" for s x t
    using that
  proof (induction "length data" arbitrary: data position c revision sz s rule: less_induct)
    case less
    show ?case
    proof (cases "data = []")
      case True
      then show ?thesis using less.prems by (simp add: write_loop.simps [of _ _ _ _ "[]"])
    next
      case False
      define q where "q = min (length data) limit"
      have q: "0 < q" "q \<le> length data" using False assms(2) by (simp_all add: q_def)
      obtain r u where call: "remote_call I d (in_write_range I f position (take q data)) s = (r, u)" by (metis prod.exhaust)
      from less.prems(2) obtain result where result: "r = Inr result" "wr_written result = q"
        and rest: "write_loop I d f limit (drop q data) (position + q) (wr_revision result) (wr_size result) u = (Inr x, t)"
        using False assms(2) call
        by (subst (asm) write_loop.simps, fold q_def) (auto simp: Let_def split: sum.splits if_splits option.splits)
      have "at_file content h f (overwrite c position (take q data)) p u"
        using triple_Inr [OF remote_yields [where Q = "\<lambda>r c'. wr_written r = q \<longrightarrow> c' = overwrite c position (take q data)"] less.prems(1)
            call [unfolded result(1)]] file_storeD(1) [OF assms(1)] q result(2) by auto
      from less.hyps [OF _ this rest] q
      have "at_file content h f (overwrite (overwrite c position (take q data)) (position + q) (drop q data)) p t" by simp
      then show ?thesis using overwrite_append [of c position "take q data" "drop q data"] q by simp
    qed
  qed
qed simp

lemma write_through_yields:
  assumes "file_store content I"
  shows "yields (at_file content h f c p) (write_through I h offset data) (\<lambda>_. at_file content h f (overwrite c offset data) p)"
proof (cases "data = []")
  case False
  have loop: "yields (\<lambda>s. at_file content h f c p s) (execute I (\<lambda>d. write_loop I d f limit data offset rv sz))
      (\<lambda>_. at_file content h f (overwrite c offset data) p)" if "limit \<noteq> 0" for limit rv sz
    by (rule yields_execute, rule write_loop_yields [OF assms]) (use that in simp)
  have tail: "yields (at_file content h f c' p) (case x of (revision, sz) \<Rightarrow> mbind (update_file_handle h revision sz) (\<lambda>_.
      mbind (inode_record i) (\<lambda>r. invalidate_node_views (ir_node r)))) (\<lambda>_. at_file content h f c' p)" for c' x i
    by (cases x) (simp add: yields_bind [OF update_yields inode_yields])
  have "yields (\<lambda>s. fh_remote r = f \<and> at_file content h f c p s) (mbind (capabilities_async I) (\<lambda>c.
        let chunk_limit = min (cap_max_write_size c) CLIENT_WRITE_LIMIT in
        if chunk_limit = 0 then mfail AeInvalidCapabilities
        else mbind (execute I (\<lambda>d. write_loop I d (fh_remote r) chunk_limit data offset (fh_revision r) (fh_size r)))
          (\<lambda>(revision, sz). mbind (update_file_handle h revision sz) (\<lambda>_.
             mbind (inode_record (fh_inode r)) (\<lambda>r. invalidate_node_views (ir_node r))))))
      (\<lambda>_. at_file content h f (overwrite c offset data) p)" for r
  proof (rule fixed_yields, goal_cases)
    case 1
    show ?case
      unfolding Let_def 1
      by (rule yields_bind [OF capabilities_yields [OF assms]], rule triple_if, rule triple_mfail, simp,
          rule yields_bind [OF loop tail], assumption)
  qed
  from yields_bind [OF handle_yields this] show ?thesis using False by (simp add: write_through_def)
qed (simp add: write_through_def triple_mret)

lemma flush_yields:
  assumes "file_store content I"
  shows "yields (at_file content h f c p) (flush_pending I h) (\<lambda>_. at_file content h f (with_buffer c p) None)"
proof -
  have taken: "yields (at_file content h f c p) (take_pending h) (\<lambda>q s. q = p \<and> at_file content h f c None s)"
    by (auto simp: triple_def take_pending_def at_file_def)
  show ?thesis
    unfolding flush_pending_def
    by (rule yields_bind [OF taken], rule fixed_yields)
      (auto simp: with_buffer_def intro: triple_mret write_through_yields [OF assms] split: option.split)
qed

subsection \<open>Reads and writes\<close>

lemma read_loop_yields:
  assumes "file_store content I" "0 < limit"
  shows "yields (at_file content h f c p) (read_loop I d f offset len limit [] len offset 0 False)
    (\<lambda>data s. data = bytes_at c offset len \<and> at_file content h f c p s)"
proof -
  let ?J = "\<lambda>data remaining position (expected :: u64) (restarted :: bool) s. remaining \<le> len \<and> position = offset + (len - remaining) \<and>
      data = bytes_at c offset (len - remaining) \<and> length data = len - remaining \<and> at_file content h f c p s"
  have reads: "rr_data result = bytes_at c position n \<and> at_file content h f c p u"
    if "at_file content h f c p s" "remote_call I d (in_read_range_versioned I f position n) s = (Inr result, u)"
    for s position n result u
    using triple_Inr [OF remote_yields [where Q = "\<lambda>r c'. rr_data r = bytes_at c position n \<and> c' = c"] that] file_storeD(2) [OF assms(1)] by auto
  have "read_loop_invariant I d f offset len limit ?J (\<lambda>data s. data = bytes_at c offset len \<and> at_file content h f c p s) (\<lambda>_. True)"
  proof (unfold_locales, goal_cases)
    case (3 data remaining position expected s result u)
    then show ?case using reads by (auto simp: bytes_at_def)
  next
    case (4 data remaining position expected restarted s result u)
    have got: "rr_data result = bytes_at c position (min remaining limit)" "at_file content h f c p u" using 4 reads by blast+
    have "bytes_at c offset (len - remaining) @ bytes_at c position remaining = bytes_at c offset len"
      using bytes_at_append [of c offset "len - remaining" len] 4(1) by auto
    moreover have "bytes_at c position remaining = rr_data result"
      using bytes_at_short [of c position "min remaining limit" remaining] 4(5) got(1) by simp
    ultimately show ?case using 4(1) got(2) by simp
  next
    case (5 data remaining position expected restarted s result u)
    let ?q = "min remaining limit"
    have got: "rr_data result = bytes_at c position ?q" "at_file content h f c p u" using 5 reads by blast+
    have "len - (remaining - ?q) = (len - remaining) + ?q" using 5(1) by simp
    moreover have "data @ rr_data result = bytes_at c offset ((len - remaining) + ?q)"
      using bytes_at_append [of c offset "len - remaining" "len - remaining + ?q"] 5(1) got(1) by auto
    moreover have "length (data @ rr_data result) = (len - remaining) + ?q" using 5(1,5) by (metis length_append)
    ultimately show ?case using 5(1) got(2) by (simp only: simp_thms) linarith
  qed (use assms(2) in auto)
  note rule = read_loop_invariant.loop_outcome [OF this, where data = "[]" and remaining = len and position = offset and
      expected = 0 and restarted = False]
  have "?J [] len offset 0 False s" if "at_file content h f c p s" for s using that by (simp add: bytes_at_def)
  from rule [OF this] show ?thesis by (simp add: triple_def)
qed

lemma read_yields:
  assumes "file_store content I"
  shows "yields (at_file content h f c p) (read_async I h offset len)
    (\<lambda>data s. data = bytes_at (with_buffer c p) offset len \<and> at_file content h f (with_buffer c p) None s)"
proof -
  let ?P = "at_file content h f (with_buffer c p) None"
  have idle: "yields P (mlift r) (\<lambda>_. P)" "yields P (file_operation h) (\<lambda>_. P)" "yields P (require_that e b) (\<lambda>_. P)"
    for P :: "'a adapter \<Rightarrow> bool" and r :: "adapter_error + unit" and e b
    by (auto simp: triple_def mlift_def file_operation_def require_that_def mret_def mfail_def split: sum.splits)
  have flushed: "yields (at_file content h f c p) (\<lambda>s. if has_pending h s then flush_pending I h s else (Inr (), s)) (\<lambda>_. ?P)"
    using flush_yields [OF assms, of h f c p]
    by (auto simp: triple_def has_pending_def contains_key_def at_file_def with_buffer_def)
  have loop: "yields ?P (execute I (\<lambda>d. read_loop I d f offset len limit [] len offset 0 False))
      (\<lambda>data s. data = bytes_at (with_buffer c p) offset len \<and> ?P s)" if "limit \<noteq> 0" for limit
    by (rule yields_execute, rule read_loop_yields [OF assms]) (use that in simp)
  have "yields (\<lambda>s. fh_remote r = f \<and> ?P s) (mbind (require_that AeInvalidAccess (can_read (fh_access r))) (\<lambda>_.
     mbind (capabilities_async I) (\<lambda>c.
     let chunk_limit = min (cap_max_read_size c) CLIENT_READ_LIMIT in
     if chunk_limit = 0 then mfail AeInvalidCapabilities
     else execute I (\<lambda>d. read_loop I d (fh_remote r) offset len chunk_limit [] len offset 0 False))))
     (\<lambda>data s. data = bytes_at (with_buffer c p) offset len \<and> ?P s)" for r
  proof (rule fixed_yields, goal_cases)
    case 1
    show ?case unfolding Let_def 1
      by (rule yields_bind [OF idle(3)], rule yields_bind [OF capabilities_yields [OF assms]], rule triple_if, rule triple_mfail, simp,
          rule loop, assumption)
  qed
  then show ?thesis
    unfolding read_async_def
    by (intro yields_bind [OF idle(1)] yields_bind [OF idle(2)] yields_bind [OF flushed] yields_bind [OF handle_yields])
qed

lemma append_buffer:
  assumes "can_append threshold offset (length data) (Some p)" "offset + length data \<le> U64_MAX"
  shows "overwrite c (pw_start p) (pw_buffer p @ data) = overwrite (overwrite c (pw_start p) (pw_buffer p)) offset data"
proof (cases "data = []")
  case False
  then have "saturating_add (pw_start p) (length (pw_buffer p)) < U64_MAX"
    using assms by (cases data) (auto simp: can_append_def pending_end_def)
  then have "offset = pw_start p + length (pw_buffer p)"
    using assms(1) by (auto simp: can_append_def pending_end_def saturating_add_def)
  then show ?thesis by (simp add: overwrite_append)
qed simp

lemma write_yields:
  assumes "file_store content I"
  shows "yields (at_file content h f c p) (write_async I h offset data)
    (\<lambda>n s. n = length data \<and> (\<exists>c' p'. at_file content h f c' p' s \<and> with_buffer c' p' = overwrite (with_buffer c p) offset data))"
proof (cases "validate_io_range offset (length data)")
  case (Inl e)
  then show ?thesis by (simp add: triple_def write_async_def mbind_def mlift_def)
next
  case (Inr u)
  then have range: "offset + length data \<le> U64_MAX" by (auto simp: validate_io_range_def fuse_range_def split: if_splits)
  let ?P = "at_file content h f c p"
  let ?Q = "\<lambda>s. \<exists>c' p'. at_file content h f c' p' s \<and> with_buffer c' p' = overwrite (with_buffer c p) offset data"
  have idle: "yields ?P (mlift (Inr x)) (\<lambda>_. ?P)" "yields ?P (file_operation h) (\<lambda>_. ?P)" "yields ?P (require_that e b) (\<lambda>_. ?P)"
    "yields ?P (mget (\<lambda>s. map_of (ad_pending s) h)) (\<lambda>q s. q = p \<and> ?P s)" for x :: unit and e b
    by (auto simp: triple_def mlift_def file_operation_def require_that_def mret_def mfail_def mget_def at_file_def split: sum.splits)
  have writable: "yields ?P (fuse_writable I) (\<lambda>_. ?P)"
    unfolding fuse_writable_def
    by (rule yields_bind [OF capabilities_yields [OF assms]], rule triple_if, rule triple_mret, assumption, rule triple_mfail, simp)
  have appends: "yields ?P (mput (\<lambda>s. s\<lparr>ad_pending := AList.update h ((the p)\<lparr>pw_buffer := pw_buffer (the p) @ data\<rparr>) (ad_pending s)\<rparr>)) (\<lambda>_. ?Q)"
    if can: "can_append threshold offset (length data) p" for threshold
  proof -
    obtain q where q: "p = Some q" using can by (auto simp: can_append_def split: option.splits)
    show ?thesis
      using append_buffer [OF can [unfolded q] range]
      by (intro triple_mput exI [of _ c] exI [of _ "Some (q\<lparr>pw_buffer := pw_buffer q @ data\<rparr>)"]) (auto simp: at_file_def with_buffer_def q)
  qed
  have sends: "yields ?P (mbind (flush_pending I h) (\<lambda>_.
         mbind (if length data < threshold
                then mput (\<lambda>s. s\<lparr>ad_pending := AList.update h \<lparr>pw_inode = i, pw_start = offset, pw_buffer = data\<rparr> (ad_pending s)\<rparr>)
                else write_through I h offset data) (\<lambda>_. mret (length data)))) (\<lambda>n s. n = length data \<and> ?Q s)" for threshold i
  proof (rule yields_bind [OF flush_yields [OF assms]], rule yields_bind [where R = "\<lambda>_. ?Q"], rule triple_if)
    show "yields (at_file content h f (with_buffer c p) None)
        (mput (\<lambda>s. s\<lparr>ad_pending := AList.update h \<lparr>pw_inode = i, pw_start = offset, pw_buffer = data\<rparr> (ad_pending s)\<rparr>)) (\<lambda>_. ?Q)"
      by (intro triple_mput exI [of _ "with_buffer c p"] exI [of _ "Some \<lparr>pw_inode = i, pw_start = offset, pw_buffer = data\<rparr>"])
        (auto simp: at_file_def with_buffer_def)
    show "yields (at_file content h f (with_buffer c p) None) (write_through I h offset data) (\<lambda>_. ?Q)"
      by (rule triple_conseq [OF write_through_yields [OF assms]], assumption)
        (intro exI [of _ "overwrite (with_buffer c p) offset data"] exI [of _ None], simp_all add: with_buffer_def)
  qed (simp add: triple_mret)
  have "yields (\<lambda>s. fh_remote r = f \<and> ?P s) (mbind (require_that AeInvalidAccess (can_write (fh_access r))) (\<lambda>_.
     if threshold = 0 then mfail AeInvalidCapabilities
     else mbind (mget (\<lambda>s. map_of (ad_pending s) h)) (\<lambda>pending.
       if can_append threshold offset (length data) pending
       then mbind (mput (\<lambda>s. s\<lparr>ad_pending := AList.update h
              ((the pending)\<lparr>pw_buffer := pw_buffer (the pending) @ data\<rparr>) (ad_pending s)\<rparr>)) (\<lambda>_. mret (length data))
       else mbind (flush_pending I h) (\<lambda>_.
         mbind (if length data < threshold
                then mput (\<lambda>s. s\<lparr>ad_pending := AList.update h
                  \<lparr>pw_inode = fh_inode r, pw_start = offset, pw_buffer = data\<rparr> (ad_pending s)\<rparr>)
                else write_through I h offset data) (\<lambda>_. mret (length data)))))) (\<lambda>n s. n = length data \<and> ?Q s)" for r threshold
  proof (rule fixed_yields, rule yields_bind [OF idle(3)], rule triple_if, rule triple_mfail, simp, rule yields_bind [OF idle(4)],
      rule fixed_yields, goal_cases)
    case (1 _ pending)
    then show ?case
      by (cases "can_append threshold offset (length data) p")
        (simp_all add: yields_bind [OF appends] triple_mret sends)
  qed
  then show ?thesis
    unfolding write_async_def Inr Let_def
    by (intro yields_bind [OF idle(1)] yields_bind [OF idle(2)] yields_bind [OF writable] yields_bind [OF handle_yields])
qed

subsection \<open>Sequences of calls\<close>

datatype handle_call = CallWrite u64 bytes | CallRead u64 u64 | CallFlush "u64 option" | CallSync bool
datatype call_result = Count u64 | Data bytes | Done

fun run_call :: "'w remote_fs \<Rightarrow> u64 \<Rightarrow> handle_call \<Rightarrow> ('w, call_result) adop" where
  "run_call I h (CallWrite offset data) = mbind (write_async I h offset data) (\<lambda>n. mret (Count n))"
| "run_call I h (CallRead offset len) = mbind (read_async I h offset len) (\<lambda>data. mret (Data data))"
| "run_call I h (CallFlush own) = mbind (flush_async I h own) (\<lambda>_. mret Done)"
| "run_call I h (CallSync data_only) = mbind (fsync_async I h data_only) (\<lambda>_. mret Done)"

fun run_calls :: "'w remote_fs \<Rightarrow> u64 \<Rightarrow> handle_call list \<Rightarrow> ('w, call_result list) adop" where
  "run_calls I h [] = mret []"
| "run_calls I h (call # calls) = mbind (run_call I h call) (\<lambda>r. mbind (run_calls I h calls) (\<lambda>rs. mret (r # rs)))"

text \<open>The same calls on a list of bytes.\<close>

fun spec_call :: "handle_call \<Rightarrow> bytes \<Rightarrow> call_result \<times> bytes" where
  "spec_call (CallWrite offset data) c = (Count (length data), overwrite c offset data)"
| "spec_call (CallRead offset len) c = (Data (bytes_at c offset len), c)"
| "spec_call (CallFlush own) c = (Done, c)"
| "spec_call (CallSync data_only) c = (Done, c)"

fun spec_calls :: "handle_call list \<Rightarrow> bytes \<Rightarrow> call_result list \<times> bytes" where
  "spec_calls [] c = ([], c)"
| "spec_calls (call # calls) c =
     (let (r, c1) = spec_call call c; (rs, c2) = spec_calls calls c1 in (r # rs, c2))"

definition sees :: "('w \<Rightarrow> file_handle \<Rightarrow> bytes) \<Rightarrow> u64 \<Rightarrow> file_handle \<Rightarrow> bytes \<Rightarrow> 'w adapter \<Rightarrow> bool" where
  "sees content h f c s \<longleftrightarrow> (\<exists>c' p. at_file content h f c' p s \<and> with_buffer c' p = c)"

lemma sees_view: "sees content h f c s \<Longrightarrow> view_of content h s = c"
  by (auto simp: sees_def dest: at_file_view)

lemma from_sees: "(\<And>c' p. with_buffer c' p = c \<Longrightarrow> yields (at_file content h f c' p) m Q) \<Longrightarrow> yields (sees content h f c) m Q"
  unfolding triple_def sees_def by (intro allI impI, elim exE conjE) simp

lemma at_sees: "at_file content h f c None s \<Longrightarrow> sees content h f c s"
  unfolding sees_def by (rule exI [of _ c], rule exI [of _ None]) (simp add: with_buffer_def)

lemma sync_yields:
  assumes "file_store content I"
  shows "yields (sees content h f c) (fsync_async I h data_only) (\<lambda>_. at_file content h f c None)"
    and "yields (sees content h f c) (flush_async I h own) (\<lambda>_. sees content h f c)"
proof -
  have operation: "yields P (file_operation h) (\<lambda>_. P)" for P :: "'a adapter \<Rightarrow> bool"
    by (auto simp: triple_def file_operation_def split: sum.splits)
  have remote: "yields (at_file content h f c None) (execute I (\<lambda>d. remote_call I d a)) (\<lambda>_. at_file content h f c None)"
    if "\<And>w r w'. a w = (Inr r, w') \<Longrightarrow> content w' f = content w f" for a :: "('a, unit) act"
  proof (rule yields_execute, rule triple_conseq [OF remote_yields [where Q = "\<lambda>_ c'. c' = c"]])
    show "content w' f = c" if "content w f = c" "a w = (Inr r, w')" for w r w' using \<open>\<And>w r w'. a w = (Inr r, w') \<Longrightarrow> content w' f = content w f\<close> that by auto
  qed auto
  have sync: "yields (\<lambda>s. fh_remote r = f \<and> at_file content h f c None s)
      (execute I (\<lambda>d. remote_call I d (in_sync_file I (fh_remote r) data_only))) (\<lambda>_. at_file content h f c None)" for r
    by (rule fixed_yields, simp only:, rule remote, rule file_storeD(5) [OF assms])
  have flush: "yields (\<lambda>s. fh_remote r = f \<and> at_file content h f c None s)
      (if \<not> can_write (fh_access r) \<and> \<not> fh_used_locks r then mret ()
       else execute I (\<lambda>d. remote_call I d (in_flush_file I (fh_remote r) own))) (\<lambda>_. at_file content h f c None)" for r
    by (rule fixed_yields, simp only:, rule triple_if, rule triple_mret, assumption, rule remote, rule file_storeD(4) [OF assms])
  show "yields (sees content h f c) (fsync_async I h data_only) (\<lambda>_. at_file content h f c None)"
    unfolding fsync_async_def
    by (rule from_sees, rule yields_bind [OF operation], rule yields_bind [OF flush_yields [OF assms]])
      (simp add: yields_bind [OF handle_yields sync])
  have "yields (sees content h f c) (flush_async I h own) (\<lambda>_. at_file content h f c None)"
    unfolding flush_async_def
    by (rule from_sees, rule yields_bind [OF operation], rule yields_bind [OF flush_yields [OF assms]])
      (simp add: yields_bind [OF handle_yields flush])
  then show "yields (sees content h f c) (flush_async I h own) (\<lambda>_. sees content h f c)"
    by (rule triple_conseq) (auto intro: at_sees)
qed

lemma call_yields:
  assumes "file_store content I"
  shows "yields (sees content h f c) (run_call I h call) (\<lambda>r s. r = fst (spec_call call c) \<and> sees content h f (snd (spec_call call c)) s)"
proof (cases call)
  case (CallWrite offset data)
  show ?thesis
    unfolding CallWrite run_call.simps
    by (rule from_sees, rule yields_bind [OF write_yields [OF assms]], rule triple_mret) (auto simp: sees_def)
next
  case (CallRead offset len)
  show ?thesis
    unfolding CallRead run_call.simps
    by (rule from_sees, rule yields_bind [OF read_yields [OF assms]], rule triple_mret)
      (auto intro: at_sees)
next
  case (CallFlush own)
  show ?thesis
    unfolding CallFlush run_call.simps by (rule yields_bind [OF sync_yields(2) [OF assms]], rule triple_mret) simp
next
  case (CallSync data_only)
  show ?thesis
    unfolding CallSync run_call.simps
    by (rule yields_bind [OF sync_yields(1) [OF assms]], rule triple_mret) (auto intro: at_sees)
qed

lemma calls_yields:
  assumes "file_store content I"
  shows "yields (sees content h f c) (run_calls I h calls) (\<lambda>rs s. rs = fst (spec_calls calls c) \<and> sees content h f (snd (spec_calls calls c)) s)"
proof (induction calls arbitrary: c)
  case (Cons call calls)
  have "yields (\<lambda>s. r = fst (spec_call call c) \<and> sees content h f (snd (spec_call call c)) s)
      (mbind (run_calls I h calls) (\<lambda>rs. mret (r # rs)))
      (\<lambda>rs s. rs = fst (spec_calls (call # calls) c) \<and> sees content h f (snd (spec_calls (call # calls) c)) s)" for r
    by (rule fixed_yields, rule yields_bind [OF Cons.IH], rule triple_mret) (simp add: Let_def split_beta)
  from yields_bind [OF call_yields [OF assms] this] show ?case by (simp only: run_calls.simps)
qed (simp add: triple_mret)

end
