(* ===== verification/Adapter_Bounds.thy ===== *)
theory Adapter_Bounds
  imports Adapter_Refines
begin

text \<open>
  Reads of the adapter while others change the file: an assembly is of one revision, and a callback asks for every
  chunk at most twice.
\<close>

subsection \<open>One revision\<close>

text \<open>The remote names the revision of every chunk and serves its bytes: \<open>T\<close> are the bytes of a revision, \<open>Z\<close> its size.\<close>

definition serves_revisions :: "(u64 \<Rightarrow> u64 \<Rightarrow> byte) \<Rightarrow> (u64 \<Rightarrow> u64) \<Rightarrow> file_handle \<Rightarrow> 'w remote_fs \<Rightarrow> bool" where
  "serves_revisions T Z f I \<longleftrightarrow> (\<forall>offset len w r w'. in_read_range_versioned I f offset len w = (Inr r, w') \<longrightarrow>
     rr_revision r \<noteq> 0 \<and> rr_data r = range_of (T (rr_revision r)) offset (min len (Z (rr_revision r) - offset)))"

lemma remote_call_Inr: "remote_call I d a s = (Inr x, u) \<Longrightarrow> \<exists>w. a (ad_world s) = (Inr x, w) \<and> u = s\<lparr>ad_world := w\<rparr>"
  by (auto simp: remote_call_def Let_def map_err_def split: prod.splits if_splits sum.splits)

lemma range_of_split: "range_of g offset n @ range_of g (offset + n) m = range_of g offset (n + m)"
  unfolding range_of_def by (metis add.assoc le_add1 map_append upt_add_eq_append)

lemma length_range_of [simp]: "length (range_of g offset n) = n"
  by (simp add: range_of_def)

definition one_revision :: "(u64 \<Rightarrow> u64 \<Rightarrow> byte) \<Rightarrow> (u64 \<Rightarrow> u64) \<Rightarrow> u64 \<Rightarrow> u64 \<Rightarrow> bytes \<Rightarrow> bool" where
  "one_revision T Z offset len data \<longleftrightarrow> (\<exists>revision. data = range_of (T revision) offset (min len (Z revision - offset)))"

lemma read_loop_untorn:
  assumes "serves_revisions T Z f I" "0 < limit"
  shows "yields (\<lambda>_. True) (read_loop I d f offset len limit [] len offset 0 False) (\<lambda>data _. one_revision T Z offset len data)"
proof -
  let ?J = "\<lambda>data remaining position expected (restarted :: bool) (s :: 'a adapter). remaining \<le> len \<and> position = offset + (len - remaining) \<and>
      (expected = 0 \<longrightarrow> remaining = len \<and> data = []) \<and>
      (expected \<noteq> 0 \<longrightarrow> data = range_of (T expected) offset (len - remaining) \<and> len - remaining \<le> Z expected - offset)"
  have reads: "rr_revision result \<noteq> 0 \<and>
      rr_data result = range_of (T (rr_revision result)) position (min n (Z (rr_revision result) - position))"
    if "remote_call I d (in_read_range_versioned I f position n) s = (Inr result, u)" for s position n result u
    using remote_call_Inr [OF that] assms(1) unfolding serves_revisions_def by metis
  have "read_loop_invariant I d f offset len limit ?J (\<lambda>data _. one_revision T Z offset len data) (\<lambda>_. True)"
  proof (unfold_locales, goal_cases)
    case (4 data remaining position expected restarted s result u)
    let ?r = "rr_revision result"
    have got: "?r \<noteq> 0" "rr_data result = range_of (T ?r) position (min (min remaining limit) (Z ?r - position))" using reads [OF 4(3)] by auto
    have data: "data = range_of (T ?r) offset (len - remaining)" "len - remaining \<le> Z ?r - offset"
      using 4(1,4) got(1) by (cases "expected = 0"; auto simp: range_of_def)+
    have pos: "position = offset + (len - remaining)" "remaining \<le> len" using 4(1) by auto
    have "Z ?r - position < min remaining limit" using 4(5) unfolding got(2) length_range_of by linarith
    then have eq: "min len (Z ?r - offset) = (len - remaining) + min (min remaining limit) (Z ?r - position)"
      using pos data(2) by linarith
    have "data @ rr_data result = range_of (T ?r) offset (min len (Z ?r - offset))"
      unfolding eq data(1) got(2) pos(1) by (rule range_of_split)
    then show ?case by (auto simp: one_revision_def)
  next
    case (5 data remaining position expected restarted s result u)
    let ?r = "rr_revision result" and ?q = "min remaining limit"
    have got: "?r \<noteq> 0" "rr_data result = range_of (T ?r) position (min ?q (Z ?r - position))" using reads [OF 5(3)] by auto
    have data: "data = range_of (T ?r) offset (len - remaining)" using 5(1,4) got(1) by (cases "expected = 0") (auto simp: range_of_def)
    have full: "?q \<le> Z ?r - position" "rr_data result = range_of (T ?r) position ?q" using 5(5) got(2) by auto
    have "0 < ?q" using 5(2) assms(2) by simp
    then have "len - (remaining - ?q) = (len - remaining) + ?q" "(len - remaining) + ?q \<le> Z ?r - offset" using 5(1) full(1) by auto
    moreover have "position = offset + (len - remaining)" using 5(1) by simp
    then have "data @ rr_data result = range_of (T ?r) offset ((len - remaining) + ?q)"
      unfolding data full(2) by (simp only: range_of_split)
    ultimately show ?case using 5(1) got(1) by (auto simp: add.assoc)
  next
    case (6 data position expected restarted s)
    then show ?case
      by (cases "expected = 0") (auto simp: one_revision_def range_of_def intro: exI [of _ expected])
  qed (use assms(2) in auto)
  note rule = read_loop_invariant.loop_outcome [OF this, where data = "[]" and remaining = len and position = offset and
      expected = 0 and restarted = False]
  show ?thesis using rule by (simp add: triple_def)
qed

subsection \<open>The number of requests\<close>

text \<open>\<open>reads w\<close> counts the read requests the remote has served.\<close>

definition counts_reads :: "('w \<Rightarrow> nat) \<Rightarrow> 'w remote_fs \<Rightarrow> bool" where
  "counts_reads reads I \<longleftrightarrow>
     (\<forall>f offset len w r w'. in_read_range_versioned I f offset len w = (r, w') \<longrightarrow> reads w' = Suc (reads w)) \<and>
     (\<forall>f offset d w r w'. in_write_range I f offset d w = (r, w') \<longrightarrow> reads w' = reads w)"

lemma remote_call_world: "remote_call I d a s = (r, u) \<Longrightarrow> \<exists>r' w. a (ad_world s) = (r', w) \<and> u = s\<lparr>ad_world := w\<rparr>"
  by (auto simp: remote_call_def Let_def split: prod.splits if_splits)

lemma chunks_left:
  assumes "0 < remaining" "0 < limit"
  shows "div_ceil remaining limit = Suc (div_ceil (remaining - min remaining limit) limit)"
proof (cases "remaining \<le> limit")
  case True
  then have "(remaining + (limit - 1)) div limit = 1" using assms by (intro div_nat_eqI) auto
  then show ?thesis using True assms by (simp add: div_ceil_def)
next
  case False
  then have "(remaining + (limit - 1)) div limit = Suc ((remaining - limit + (limit - 1)) div limit)"
    using le_div_geq [of limit "remaining + (limit - 1)"] assms by simp
  then show ?thesis using False by (simp add: div_ceil_def min_def)
qed

lemma read_loop_requests:
  assumes "counts_reads reads I" "0 < limit"
  shows "reads (ad_world (snd (read_loop I d f offset len limit [] len offset 0 False s))) \<le> reads (ad_world s) + 2 * div_ceil len limit"
proof -
  let ?n = "div_ceil len limit"
  let ?J = "\<lambda>data remaining position (expected :: u64) restarted u. div_ceil remaining limit \<le> ?n \<and>
      reads (ad_world u) + div_ceil remaining limit \<le> reads (ad_world s) + (if restarted then 2 * ?n else ?n)"
  let ?E = "\<lambda>u. reads (ad_world u) \<le> reads (ad_world s) + 2 * ?n"
  have counted: "reads (ad_world u) = Suc (reads (ad_world t))"
    if "remote_call I d (in_read_range_versioned I f position q) t = (r, u)" for position q t r u
    using remote_call_world [OF that] assms(1) unfolding counts_reads_def by auto
  have "read_loop_invariant I d f offset len limit ?J (\<lambda>_. ?E) ?E"
  proof (unfold_locales, goal_cases)
    case (2 data remaining position expected restarted t r u)
    then show ?case using counted [OF 2(3)] chunks_left [OF 2(2) assms(2)] by (auto split: if_splits)
  next
    case (3 data remaining position expected t result u)
    then show ?case using counted [OF 3(3)] chunks_left [OF 3(2) assms(2)] by auto
  next
    case (4 data remaining position expected restarted t result u)
    then show ?case using counted [OF 4(3)] chunks_left [OF 4(2) assms(2)] by (auto split: if_splits)
  next
    case (5 data remaining position expected restarted t result u)
    then show ?case using counted [OF 5(3)] chunks_left [OF 5(2) assms(2)] by auto
  next
    case (6 data position expected restarted t)
    then show ?case by (auto split: if_splits)
  qed (rule assms(2))
  note rule = read_loop_invariant.loop_outcome [OF this, where data = "[]" and remaining = len and position = offset and
      expected = 0 and restarted = False and s = s]
  show ?thesis using rule by (auto split: prod.splits sum.splits)
qed

text \<open>A transmission changes nothing but the world and asks for no data.\<close>

lemma write_loop_reads:
  assumes "counts_reads reads I"
  shows "\<exists>w. snd (write_loop I d f limit data position revision sz s) = s\<lparr>ad_world := w\<rparr> \<and> reads w = reads (ad_world s)"
proof (induction "length data" arbitrary: data position revision sz s rule: less_induct)
  case less
  show ?case
  proof (cases "data \<noteq> [] \<and> 0 < limit")
    case True
    define q where "q = min (length data) limit"
    obtain r u where call: "remote_call I d (in_write_range I f position (take q data)) s = (r, u)" by (metis prod.exhaust)
    obtain w where u: "u = s\<lparr>ad_world := w\<rparr>" "reads w = reads (ad_world s)"
      using remote_call_world [OF call] assms unfolding counts_reads_def by auto
    have "length (drop q data) < length data" using True by (simp add: q_def)
    from less.hyps [OF this, where s = u] u True call show ?thesis
      by (subst write_loop.simps, fold q_def) (auto simp: Let_def split: sum.split option.split)
  next
    case False
    then show ?thesis by (intro exI [of _ "ad_world s"]) (auto simp: write_loop.simps)
  qed
qed

text \<open>Operations that ask for no data, once the capabilities are known.\<close>

definition quiet :: "('w \<Rightarrow> nat) \<Rightarrow> ('w, 'a) adop \<Rightarrow> bool" where
  "quiet reads m \<longleftrightarrow> (\<forall>s c. ad_capabilities s = Some c \<longrightarrow>
     ad_capabilities (snd (m s)) = Some c \<and> reads (ad_world (snd (m s))) = reads (ad_world s))"

lemma quiet_bind: "quiet reads m \<Longrightarrow> (\<And>x. quiet reads (f x)) \<Longrightarrow> quiet reads (mbind m f)"
  unfolding quiet_def mbind_def by (auto split: prod.split sum.split) (metis snd_conv)+

lemma quiet_basic:
  "quiet reads (mret v)" "quiet reads (mfail e)" "quiet reads (mlift r)" "quiet reads (inode_record i)" "quiet reads (fuse_file_handle h)"
  "quiet reads (file_operation h)" "quiet reads (invalidate_node_views n)" "quiet reads (require_that er p)"
  "quiet reads (update_file_handle h revision sz)" "quiet reads (take_pending h)" "quiet reads (capabilities_async I)"
  unfolding quiet_def monad_simps inode_record_def fuse_file_handle_def file_operation_def invalidate_node_views_def require_that_def
    update_file_handle_def take_pending_def capabilities_async_def
  by (auto simp: Let_def split: option.split)

lemma quiet_if: "(p \<Longrightarrow> quiet reads m) \<Longrightarrow> (\<not> p \<Longrightarrow> quiet reads n) \<Longrightarrow> quiet reads (if p then m else n)"
  by simp

lemma quiet_flush:
  assumes "counts_reads reads I"
  shows "quiet reads (flush_pending I h)"
proof -
  have loop: "quiet reads (execute I (\<lambda>d. write_loop I d f limit data position revision sz))" for f limit data position revision sz
    unfolding quiet_def execute_def using write_loop_reads [OF assms] by (metis (no_types, lifting) adapter.select_convs adapter.surjective adapter.update_convs(17))
  have tail: "quiet reads (case x of (revision, sz) \<Rightarrow> mbind (update_file_handle h revision sz) (\<lambda>_.
      mbind (inode_record i) (\<lambda>r. invalidate_node_views (ir_node r))))" for x i
    by (cases x) (simp add: quiet_bind quiet_basic)
  have "quiet reads (write_through I h offset data)" for offset data
    unfolding write_through_def Let_def by (intro quiet_bind quiet_basic quiet_if loop tail)
  then have "quiet reads (case p of None \<Rightarrow> mret () | Some p \<Rightarrow> write_through I h (pw_start p) (pw_buffer p))" for p
    by (simp add: quiet_basic split: option.split)
  then show ?thesis unfolding flush_pending_def by (intro quiet_bind quiet_basic)
qed

subsection \<open>A read callback\<close>

text \<open>What a read does with its handle: flush what waits, then assemble.\<close>

abbreviation opened_as :: "u64 \<Rightarrow> file_handle \<Rightarrow> tables \<Rightarrow> bool" where
  "opened_as h f c \<equiv> (\<exists>r. map_of (tb_handles c) h = Some r \<and> fh_remote r = f)"

lemma flush_opened: "holds (opened_as h f) (flush_pending I h)"
  by (rule holds_flush_pending) auto

lemma read_triple:
  assumes flush: "triple P (flush_pending I h) (\<lambda>_. P) E" and known: "\<And>s. P s \<Longrightarrow> opened_as h f (tables_of s)"
    and capabilities: "triple P (capabilities_async I) (\<lambda>c s. L c \<and> P s) E" and stop: "\<And>e s. P s \<Longrightarrow> E e s"
    and loop: "\<And>c d. L c \<Longrightarrow> 0 < min (cap_max_read_size c) CLIENT_READ_LIMIT \<Longrightarrow>
      triple P (read_loop I d f offset len (min (cap_max_read_size c) CLIENT_READ_LIMIT) [] len offset 0 False) Q E"
  shows "triple P (read_async I h offset len) Q E"
proof -
  have idle: "triple P (mlift r) (\<lambda>_. P) E" "triple P (file_operation h) (\<lambda>_. P) E" "triple P (require_that e b) (\<lambda>_. P) E"
    "triple P (\<lambda>s. if has_pending h s then flush_pending I h s else (Inr (), s)) (\<lambda>_. P) E" for r e b
    using stop flush by (auto simp: triple_def mlift_def file_operation_def require_that_def mret_def mfail_def split: sum.splits)
  have handle: "triple P (fuse_file_handle h) (\<lambda>r s. fh_remote r = f \<and> P s) E"
    using known by (force simp: triple_def fuse_file_handle_def tables_of_def)
  have assemble: "triple (\<lambda>s. L c \<and> P s) (let chunk_limit = min (cap_max_read_size c) CLIENT_READ_LIMIT in
     if chunk_limit = 0 then mfail AeInvalidCapabilities
     else execute I (\<lambda>d. read_loop I d f offset len chunk_limit [] len offset 0 False)) Q E" for c
  proof (cases "min (cap_max_read_size c) CLIENT_READ_LIMIT = 0")
    case True
    then show ?thesis unfolding Let_def if_P [OF True] by (intro triple_mfail stop) simp
  next
    case False
    then show ?thesis unfolding Let_def if_not_P [OF False] using loop [of c] by (simp add: triple_def execute_def)
  qed
  have rest: "triple (\<lambda>s. fh_remote r = f \<and> P s) (mbind (require_that AeInvalidAccess (can_read (fh_access r))) (\<lambda>_.
     mbind (capabilities_async I) (\<lambda>c. let chunk_limit = min (cap_max_read_size c) CLIENT_READ_LIMIT in
     if chunk_limit = 0 then mfail AeInvalidCapabilities
     else execute I (\<lambda>d. read_loop I d (fh_remote r) offset len chunk_limit [] len offset 0 False)))) Q E" for r
  proof (cases "fh_remote r = f")
    case True
    then show ?thesis by (simp only: simp_thms triple_mbind [OF idle(3) triple_mbind [OF capabilities assemble]])
  qed (simp add: triple_def)
  show ?thesis
    unfolding read_async_def
    by (intro triple_mbind [OF idle(1)] triple_mbind [OF idle(2)] triple_mbind [OF idle(4)] triple_mbind [OF handle rest])
qed

lemma read_untorn:
  assumes "serves_revisions T Z f I"
  shows "yields (\<lambda>s. opened_as h f (tables_of s)) (read_async I h offset len) (\<lambda>data _. one_revision T Z offset len data)"
proof (rule read_triple [where L = "\<lambda>_. True"])
  show "yields (\<lambda>s. opened_as h f (tables_of s)) (capabilities_async I) (\<lambda>c s. True \<and> opened_as h f (tables_of s))"
    by (rule triple_conseq [OF holds_idle [OF idle_capabilities, where Q = "opened_as h f"]]) auto
  show "yields (\<lambda>s. opened_as h f (tables_of s)) (flush_pending I h) (\<lambda>_ s. opened_as h f (tables_of s))"
    by (rule triple_conseq [OF flush_opened]) auto
  show "yields (\<lambda>s. opened_as h f (tables_of s)) (read_loop I d f offset len (min (cap_max_read_size c) CLIENT_READ_LIMIT) [] len offset 0 False)
      (\<lambda>data _. one_revision T Z offset len data)" if "0 < min (cap_max_read_size c) CLIENT_READ_LIMIT" for c d
    by (rule triple_conseq [OF read_loop_untorn [OF assms that]]) auto
qed auto

lemma quiet_triple: "quiet reads m \<Longrightarrow> triple (\<lambda>s. ad_capabilities s = Some c \<and> reads (ad_world s) = n) m
    (\<lambda>_ s. ad_capabilities s = Some c \<and> reads (ad_world s) = n) (\<lambda>_ s. ad_capabilities s = Some c \<and> reads (ad_world s) = n)"
  unfolding quiet_def by (rule tripleI) (metis snd_conv)+

lemma read_requests:
  assumes "counts_reads reads I" "map_of (ad_handles s) h = Some r" "ad_capabilities s = Some c"
  shows "reads (ad_world (snd (read_async I h offset len s)))
    \<le> reads (ad_world s) + 2 * div_ceil len (min (cap_max_read_size c) CLIENT_READ_LIMIT)"
proof -
  let ?n = "reads (ad_world s)" and ?m = "2 * div_ceil len (min (cap_max_read_size c) CLIENT_READ_LIMIT)"
  let ?P = "\<lambda>s. opened_as h (fh_remote r) (tables_of s) \<and> ad_capabilities s = Some c \<and> reads (ad_world s) = ?n"
  let ?E = "\<lambda>s. reads (ad_world s) \<le> ?n + ?m"
  have "triple ?P (read_async I h offset len) (\<lambda>_. ?E) (\<lambda>_. ?E)"
  proof (rule read_triple [where L = "\<lambda>c'. c' = c" and f = "fh_remote r"])
    show "triple ?P (flush_pending I h) (\<lambda>_. ?P) (\<lambda>_. ?E)"
      by (rule triple_conseq [OF triple_conj [OF flush_opened quiet_triple [OF quiet_flush [OF assms(1)]]]]) auto
    show "triple ?P (capabilities_async I) (\<lambda>c' s. c' = c \<and> ?P s) (\<lambda>_. ?E)"
      by (auto simp: triple_def capabilities_async_def)
    show "triple ?P (read_loop I d (fh_remote r) offset len (min (cap_max_read_size c') CLIENT_READ_LIMIT) [] len offset 0 False)
        (\<lambda>_. ?E) (\<lambda>_. ?E)" if "c' = c" "0 < min (cap_max_read_size c') CLIENT_READ_LIMIT" for c' d
      using read_loop_requests [OF assms(1) that(2), of d "fh_remote r" offset len] that(1) by (intro tripleI) (metis snd_conv)+
  qed auto
  from tripleD [OF this, of s] assms show ?thesis by (auto simp: tables_of_def split: prod.splits sum.splits)
qed

end
