(* ===== verification/Demo_Adapter.thy ===== *)
theory Demo_Adapter
  imports Adapter_Bounds Demo_Files
begin

text \<open>
  A concrete remote below the adapter: one file whose bytes are the first part of the world, with the number of read
  requests served and whether writes are refused as the rest.
\<close>

record store =
  so_bytes :: bytes
  so_reads :: nat
  so_full :: bool

definition demo_capabilities :: filesystem_capabilities where
  "demo_capabilities = \<lparr>server_epoch = 1, cap_writable = True, supports_locks = True, supports_atomic_rename = True,
     supports_directory_sync = True, supports_preallocation = True, supports_symlinks = True, supports_xattrs = True,
     supports_hard_links = True, supports_special_nodes = True, supports_copy_file_range = True, supports_seek_data_hole = True,
     supports_safe_ioctl = True, supports_poll = True, supports_bmap = True, supports_exchange_data = True,
     supports_volume_rename = True, supports_backup_time = True, supports_readdirplus = True, persistent_node_ids = True,
     restart_lock_replay = True, cap_volume_name = [118], cap_max_read_size = 2, cap_max_write_size = 4\<rparr>"

definition demo_store :: "store remote_fs" where
  "demo_store = offline_remote\<lparr>
     in_capabilities := (\<lambda>w. (Inr demo_capabilities, w)),
     in_open_file_with_options := (\<lambda>_ _ w. (Inr \<lparr>op_handle = 70, op_revision = 5, op_size = length (so_bytes w)\<rparr>, w)),
     in_create_file := (\<lambda>_ _ _ _ w. (Inr \<lparr>cr_metadata = demo_file_metadata 5 0, cr_opened =
        \<lparr>op_handle = 70, op_revision = 5, op_size = length (so_bytes w)\<rparr>\<rparr>, w)),
     in_read_range_versioned := (\<lambda>_ off len w. (Inr \<lparr>rr_revision = 5, rr_data = bytes_at (so_bytes w) off len\<rparr>, w\<lparr>so_reads := Suc (so_reads w)\<rparr>)),
     in_write_range := (\<lambda>_ off d w. if so_full w then (Inl (CeServer NoSpace []), w)
        else (Inr \<lparr>wr_written = length d, wr_revision = 6, wr_size = length (overwrite (so_bytes w) off d)\<rparr>,
          w\<lparr>so_bytes := overwrite (so_bytes w) off d\<rparr>)),
     in_flush_file := (\<lambda>_ _ w. (Inr (), w)), in_sync_file := (\<lambda>_ _ w. (Inr (), w)), in_close_file := (\<lambda>_ w. (Inr (), w))\<rparr>"

lemma demo_file_store: "file_store (\<lambda>w _. so_bytes w) demo_store"
  by (auto simp: file_store_def demo_store_def split: if_splits)

lemma demo_counts: "counts_reads so_reads demo_store"
  by (auto simp: counts_reads_def demo_store_def split: if_splits)

definition demo_empty :: store where
  "demo_empty = \<lparr>so_bytes = [], so_reads = 0, so_full = False\<rparr>"

definition demo_handle :: file_handle_record where
  "demo_handle = \<lparr>fh_remote = 70, fh_inode = 2, fh_access = ReadWrite, fh_revision = 5, fh_size = 0, fh_used_locks = False\<rparr>"

definition demo_inodes :: inode_table where
  "demo_inodes = inode_table_new\<lparr>it_by_inode := it_by_inode inode_table_new @ [(2, \<lparr>ir_node = 4, ir_parent_inode = 1\<rparr>)],
     it_by_node := it_by_node inode_table_new @ [(4, 2)], it_by_entry := [((1, [102]), 2)],
     it_lookups := it_lookups inode_table_new @ [(2, 1)]\<rparr>"

text \<open>The adapter after it has created the file \<^verbatim>\<open>f\<close> in the root.\<close>

definition demo_created :: "store \<Rightarrow> store adapter" where
  "demo_created w = (with_runtime w 100)\<lparr>ad_capabilities := Some demo_capabilities, ad_inodes := demo_inodes, ad_next_inode := 3,
     ad_handles := [(1, demo_handle)], ad_operations := [(1, ())], ad_next_handle := 2,
     ad_metadata := [(4, \<lparr>dm_value = demo_file_metadata 5 0, dm_discovered_at = 0\<rparr>)]\<rparr>"

lemmas store_world = demo_store_def offline_remote_def monad_simps execute_def remote_call_def now_def

lemma demo_create: "run_adapter_op demo_store N (FuCreate 1 [102] 420 \<lparr>oo_access = ReadWrite, oo_truncate = False, oo_append = False\<rparr>)
    (with_runtime demo_empty 100) = demo_created demo_empty"
  by (simp add: create_file_async_def fuse_writable_def capabilities_async_def store_world demo_capabilities_def fuse_name_def
      inode_record_def with_runtime_def inode_table_new_def ROOT_INODE_def adopt_node_def remember_metadata_def invalidate_directory_def
      invalidate_node_views_def remember_entry_def add_lookup_def open_remembered_def remember_file_handle_def next_handle_def
      demo_created_def demo_inodes_def demo_handle_def demo_empty_def demo_file_metadata_def ROOT_NODE_def lookup_count_def
      saturating_add_def checked_add_def U64_MAX_def)

lemmas adapter_run = store_world demo_capabilities_def validate_io_range_def fuse_range_def MAX_FUSE_IO_SIZE_def U64_MAX_def
  file_operation_def fuse_writable_def capabilities_async_def fuse_file_handle_def require_that_def CLIENT_WRITE_LIMIT_def
  can_append_def flush_pending_def take_pending_def pending_end_def saturating_add_def checked_add_def write_through_def
  write_loop.simps update_file_handle_def inode_record_def invalidate_node_views_def has_pending_def contains_key_def
  CLIENT_READ_LIMIT_def read_loop.simps overwrite_def bytes_at_def fsync_async_def flush_async_def write_async_def read_async_def
  demo_created_def with_runtime_def demo_handle_def demo_inodes_def demo_empty_def inode_table_new_def ROOT_INODE_def ROOT_NODE_def

text \<open>Three bytes have been acknowledged and wait in the buffer of the first handle; the file is open a second time.\<close>

definition demo_buffered :: "store \<Rightarrow> store adapter" where
  "demo_buffered w = (demo_created w)\<lparr>ad_pending := [(1, \<lparr>pw_inode = 2, pw_start = 0, pw_buffer = [7, 8, 9]\<rparr>)],
     ad_handles := [(1, demo_handle), (2, demo_handle\<lparr>fh_remote := 71\<rparr>)], ad_operations := [(1, ()), (2, ())]\<rparr>"

subsection \<open>A file that changes under its reader\<close>

text \<open>The first request finds revision 5, the later ones revision 6; the world counts the requests.\<close>

definition changing :: "nat remote_fs" where
  "changing = offline_remote\<lparr>in_capabilities := (\<lambda>w. (Inr demo_capabilities, w)),
     in_read_range_versioned := (\<lambda>_ off len w. let v = (if w = 0 then 5 else 6) in
       (Inr \<lparr>rr_revision = v, rr_data = range_of (\<lambda>i. 10 * v + i) off (min len (3 - off))\<rparr>, Suc w))\<rparr>"

lemma changing_serves: "serves_revisions (\<lambda>v i. 10 * v + i) (\<lambda>_. 3) f changing"
  by (auto simp: serves_revisions_def changing_def Let_def)

lemma changing_counts: "counts_reads (\<lambda>w. w) changing"
  by (auto simp: counts_reads_def changing_def offline_remote_def Let_def)

definition demo_reader :: "nat adapter" where
  "demo_reader = (with_runtime 0 100)\<lparr>ad_capabilities := Some demo_capabilities, ad_handles := [(1, demo_handle)], ad_operations := [(1, ())]\<rparr>"

lemma demo_restarted: "fst (read_async changing 1 0 3 demo_reader) = Inr [60, 61, 62]"
  "ad_world (snd (read_async changing 1 0 3 demo_reader)) = 4"
  by (simp_all add: demo_reader_def changing_def range_of_def adapter_run upt_conv_Cons)

end
