(* ===== verification/Adapter_Properties.thy ===== *)
theory Adapter_Properties
  imports Demo_Adapter
begin

text \<open>
  The properties of the macFUSE adapter: its tables, its write buffers and its reads.
\<close>

subsection \<open>Tables\<close>

lemmas demo_reach = fuse_op [OF fuse_start, of demo_store N "with_runtime demo_empty 100" for N, 
    where op = "FuCreate 1 [102] 420 \<lparr>oo_access = ReadWrite, oo_truncate = False, oo_append = False\<rparr>", unfolded demo_create]

text \<open>C12. In every state that callbacks and spawned tasks reach from a new adapter, whatever the remote answers, the
  tables agree: inodes and nodes determine each other and the root is there, names, references and open handles are of known
  inodes, handle numbers are shared by nothing, every open file has its guard, and buffered bytes are of a handle
  opened for writing, of its inode, and end below the largest offset.\<close>
theorem adapter_tables_sound:
  assumes "adapter_reach I N (with_runtime w timeout) s"
  shows "tables_ok (tables_of s)"
  using sound_reachable [OF assms tables_ok_new] by (simp add: sound_after_def)

theorem adapter_tables_sound_witness:
  "adapter_reach demo_store (\<lambda>x. x) (with_runtime demo_empty 100) (demo_created demo_empty) \<and>
   tables_ok (tables_of (demo_created demo_empty)) \<and> ad_handles (demo_created demo_empty) = [(1, demo_handle)]"
  using demo_reach [of "\<lambda>x. x"] adapter_tables_sound [OF demo_reach [of "\<lambda>x. x"]] by (simp add: demo_created_def)

text \<open>An inode number means one node for ever: when the kernel knows an inode in two states, one reached from the
  other, its node is the same, and it was never given to another node between them.\<close>
lemma inode_identity_stable:
  assumes "adapter_reach I N (with_runtime w timeout) s" "adapter_reach I N s t"
    and "map_of (it_by_inode (ad_inodes t)) i = Some r" "i < ad_next_inode s"
  shows "\<exists>r'. map_of (it_by_inode (ad_inodes s)) i = Some r' \<and> ir_node r' = ir_node r"
proof -
  have "tables_ok (tables_of s)"
    using sound_reachable [OF assms(1) tables_ok_new] by (simp add: sound_after_def)
  from sound_reachable [OF assms(2) this] have "same_nodes (tables_of s) (tables_of t)" by (simp add: sound_after_def)
  with assms(3,4) show ?thesis by (simp add: same_nodes_def tables_of_def)
qed

lemma demo_write: "run_adapter_op demo_store (\<lambda>x. x) (FuWrite 1 0 [7, 8, 9]) (demo_created demo_empty) =
    (demo_created demo_empty)\<lparr>ad_pending := [(1, \<lparr>pw_inode = 2, pw_start = 0, pw_buffer = [7, 8, 9]\<rparr>)]\<rparr>"
  by (simp add: adapter_run)

subsection \<open>Write buffers\<close>

text \<open>C11. Buffering is invisible to the writer. Take any sequence of writes, reads, flushes and synchronisations of an open
  handle that succeeds on a remote that stores what it acknowledges, followed by a successful synchronisation: every result is
  what the sequence gives on a plain list of bytes, starting from the file as the handle saw it, and the bytes at the remote
  are exactly the final list, however the writes were merged, split or deferred.\<close>
theorem buffered_calls_refine:
  assumes "file_store content I" "map_of (ad_handles s) h = Some r"
    and "run_calls I h calls s = (Inr results, t)" "fsync_async I h data_only t = (Inr (), u)"
  shows "results = fst (spec_calls calls (view_of content h s)) \<and>
    content (ad_world u) (fh_remote r) = snd (spec_calls calls (view_of content h s)) \<and> map_of (ad_pending u) h = None"
proof -
  let ?f = "fh_remote r" and ?c = "view_of content h s"
  have "sees content h ?f ?c s"
    using at_file_exists [OF assms(2), of content] at_file_view [OF at_file_exists [OF assms(2), of content]] by (auto simp: sees_def)
  from triple_Inr [OF calls_yields [OF assms(1)] this assms(3)]
  have results: "results = fst (spec_calls calls ?c)" and sees: "sees content h ?f (snd (spec_calls calls ?c)) t" by auto
  from triple_Inr [OF sync_yields(1) [OF assms(1)] sees assms(4)] results show ?thesis by (simp add: at_file_def)
qed

theorem buffered_calls_refine_witness:
  "fst (run_calls demo_store 1 [CallWrite 0 [7, 8, 9], CallWrite 3 [5, 6], CallRead 2 3] (demo_created demo_empty)) =
     Inr [Count 3, Count 2, Data [9, 5, 6]] \<and>
   so_bytes (ad_world (snd (fsync_async demo_store 1 False (snd (run_calls demo_store 1
     [CallWrite 0 [7, 8, 9], CallWrite 3 [5, 6], CallRead 2 3] (demo_created demo_empty)))))) = [7, 8, 9, 5, 6]"
proof -
  let ?calls = "[CallWrite 0 [7, 8, 9], CallWrite 3 [5, 6], CallRead 2 3]"
  let ?ran = "run_calls demo_store 1 ?calls (demo_created demo_empty)"
  have ok: "fst ?ran = Inr [Count 3, Count 2, Data [9, 5, 6]]" "fst (fsync_async demo_store 1 False (snd ?ran)) = Inr ()"
    by (simp_all add: adapter_run)
  have opened: "map_of (ad_handles (demo_created demo_empty)) 1 = Some demo_handle" by (simp add: demo_created_def)
  have runs: "?ran = (Inr [Count 3, Count 2, Data [9, 5, 6]], snd ?ran)"
    "fsync_async demo_store 1 False (snd ?ran) = (Inr (), snd (fsync_async demo_store 1 False (snd ?ran)))"
    using ok by (metis prod.collapse)+
  have "view_of (\<lambda>w _. so_bytes w) 1 (demo_created demo_empty) = []"
    by (simp add: view_of_def demo_created_def with_runtime_def demo_empty_def)
  then show ?thesis
    using buffered_calls_refine [OF demo_file_store opened runs] ok(1) by (simp add: overwrite_def)
qed

lemma delete_absent: "map_of xs k = None \<Longrightarrow> AList.delete k xs = xs"
  by (induction xs) (auto split: if_splits)

lemma flush_empties: "flush_pending I h s = (r, t) \<Longrightarrow> map_of (ad_pending t) h = None"
proof -
  assume flush: "flush_pending I h s = (r, t)"
  have taken: "map_of (ad_pending (snd (take_pending h s))) h = None" by (simp add: take_pending_def)
  have "holds (\<lambda>c. map_of (tb_pending c) h = None) (write_through I h offset data)" for offset data
    by (rule holds_write_through) simp
  from triple_snd [OF this, of "snd (take_pending h s)"] taken
  have "map_of (ad_pending u) h = None" if "write_through I h offset data (snd (take_pending h s)) = (q, u)" for offset data q u
    using that by (metis (no_types, lifting) snd_conv tables.select_convs(4) tables_of_def)
  then show ?thesis
    using flush taken by (cases "map_of (ad_pending s) h") (auto simp: flush_pending_def mbind_def take_pending_def mret_def)
qed

lemma read_unbuffered:
  assumes "\<not> has_pending h s" "read_async I h offset len s = (r, t)"
  shows "tables_of t = tables_of s"
proof -
  have rest: "idle (mbind (fuse_file_handle h) (\<lambda>opened. mbind (require_that AeInvalidAccess (can_read (fh_access opened))) (\<lambda>_.
     mbind (capabilities_async I) (\<lambda>c. let chunk_limit = min (cap_max_read_size c) CLIENT_READ_LIMIT in
     if chunk_limit = 0 then mfail AeInvalidCapabilities
     else execute I (\<lambda>d. read_loop I d (fh_remote opened) offset len chunk_limit [] len offset 0 False)))))"
    unfolding Let_def by (intro idle_all)
  show ?thesis
    using assms idleD [OF rest, of s r t]
    by (auto simp: read_async_def mbind_def [of "mlift _"] mbind_def [of "file_operation _"] mlift_def file_operation_def
        mbind_def [of "\<lambda>s. if has_pending h s then flush_pending I h s else (Inr (), s)"] split: sum.splits)
qed

lemma max_covers: "x \<in> set xs \<or> x \<le> a \<Longrightarrow> x \<le> foldl max a xs" for x :: nat
  by (induction xs arbitrary: a) (auto simp: le_max_iff_disj)

lemma getattr_covers:
  assumes "map_of (ad_pending s) g = Some p" "pw_inode p = i" "getattr_async I i s = (Inr m, t)"
  shows "pending_end p \<le> md_size m"
proof -
  have last: "pending_end p \<le> md_size m" if "tables_of u = tables_of s"
    "m = (case pending_end_for_inode i u of Some pe \<Rightarrow> if pe > md_size k then k\<lparr>md_size := pe\<rparr> else k | None \<Rightarrow> k)" for u k
  proof -
    have "p \<in> set (filter (\<lambda>p. pw_inode p = i) (map snd (ad_pending u)))"
      using that(1) map_of_SomeD [OF assms(1)] assms(2) by (force simp: tables_of_def)
    then have "\<exists>pe. pending_end_for_inode i u = Some pe \<and> pending_end p \<le> pe"
      unfolding pending_end_for_inode_def
      by (cases "filter (\<lambda>p. pw_inode p = i) (map snd (ad_pending u))") (auto intro!: max_covers)
    then obtain pe where "pending_end_for_inode i u = Some pe" "pending_end p \<le> pe" by blast
    then show ?thesis using that(2) by auto
  qed
  let ?m = "\<lambda>record cached. case cached of
         Some m \<Rightarrow> mret m
       | None \<Rightarrow> execute I (\<lambda>d. mbind (remote_call I d (in_get_metadata I (ir_node record))) (\<lambda>m.
           mbind (mlift (fuse_metadata (ir_node record) m)) (\<lambda>_. mbind (remember_metadata I m) (\<lambda>_. mret m))))"
  have front: "idle (mbind (inode_record i) (\<lambda>record. mbind (fuse_cached_metadata I (ir_node record)) (?m record)))"
    by (intro idle_all)
  have eq: "getattr_async I i = mbind (mbind (inode_record i) (\<lambda>record. mbind (fuse_cached_metadata I (ir_node record)) (?m record)))
     (\<lambda>m. mget (\<lambda>s. case pending_end_for_inode i s of Some pe \<Rightarrow> if pe > md_size m then m\<lparr>md_size := pe\<rparr> else m | None \<Rightarrow> m))"
    by (simp add: getattr_async_def mbind_mbind)
  show ?thesis
    using assms(3) idleD [OF front, of s] last
    unfolding eq by (auto simp: mbind_def [of "mbind _ _"] mget_def split: prod.splits sum.splits)
qed

text \<open>C32. Buffered bytes whose transmission fails are gone: when a read of the handle has to send them first and that
  fails, the error is the answer of the read, the buffer is empty afterwards, and a later synchronisation is that of
  the remote alone, so it reports success although acknowledged bytes never reached the remote.\<close>
theorem failed_flush_drops_bytes:
  assumes "map_of (ad_operations s) h = Some ()" "validate_io_range offset len = Inr ()" "has_pending h s"
    and "flush_pending I h s = (Inl e, t)"
  shows "read_async I h offset len s = (Inl e, t) \<and> map_of (ad_pending t) h = None \<and>
    (map_of (ad_operations t) h = Some () \<longrightarrow> fsync_async I h data_only t = (case map_of (ad_handles t) h of
       None \<Rightarrow> (Inl AeUnknownHandle, t)
     | Some r \<Rightarrow> execute I (\<lambda>d. remote_call I d (in_sync_file I (fh_remote r) data_only)) t))"
proof -
  have "map_of (ad_pending t) h = None" by (rule flush_empties [OF assms(4)])
  moreover from this have "fsync_async I h data_only t = (case map_of (ad_handles t) h of
       None \<Rightarrow> (Inl AeUnknownHandle, t)
     | Some r \<Rightarrow> execute I (\<lambda>d. remote_call I d (in_sync_file I (fh_remote r) data_only)) t)" if "map_of (ad_operations t) h = Some ()"
    using that
    by (simp add: fsync_async_def flush_pending_def take_pending_def monad_simps file_operation_def fuse_file_handle_def delete_absent
        split: option.split)
  moreover have "read_async I h offset len s = (Inl e, t)"
    using assms by (simp add: read_async_def monad_simps file_operation_def)
  ultimately show ?thesis by blast
qed

theorem failed_flush_drops_bytes_witness:
  "fst (read_async demo_store 1 0 3 (demo_buffered (demo_empty\<lparr>so_full := True\<rparr>))) = Inl (AeClient (CeServer NoSpace [])) \<and>
   fst (fsync_async demo_store 1 False (snd (read_async demo_store 1 0 3 (demo_buffered (demo_empty\<lparr>so_full := True\<rparr>))))) = Inr () \<and>
   so_bytes (ad_world (snd (fsync_async demo_store 1 False
     (snd (read_async demo_store 1 0 3 (demo_buffered (demo_empty\<lparr>so_full := True\<rparr>))))))) = []"
proof -
  let ?s = "demo_buffered (demo_empty\<lparr>so_full := True\<rparr>)"
  have flush: "flush_pending demo_store 1 ?s = (Inl (AeClient (CeServer NoSpace [])), ?s\<lparr>ad_pending := []\<rparr>)"
    by (simp add: adapter_run demo_buffered_def)
  show ?thesis
    using failed_flush_drops_bytes [of ?s 1 0 3 demo_store _ _ False, OF _ _ _ flush]
    by (simp add: demo_buffered_def has_pending_def contains_key_def demo_created_def adapter_run)
qed

text \<open>C33. Only a handle's own buffer is sent before it reads: while bytes for the same inode wait in the buffer of another
  handle, a read through this handle returns what the remote has, without them, although the attributes the adapter
  reports next already count them in the size.\<close>
theorem other_buffer_unread:
  assumes "file_store content I" "map_of (ad_handles s) h = Some r" "\<not> has_pending h s"
    and "map_of (ad_pending s) g = Some p" "pw_inode p = fh_inode r"
    and "read_async I h offset len s = (Inr data, t)" "getattr_async I (fh_inode r) t = (Inr m, u)"
  shows "data = bytes_at (content (ad_world s) (fh_remote r)) offset len \<and> pending_end p \<le> md_size m"
proof -
  have none: "map_of (ad_pending s) h = None" using assms(3) by (simp add: has_pending_def contains_key_def)
  have "data = bytes_at (content (ad_world s) (fh_remote r)) offset len"
    using triple_Inr [OF read_yields [OF assms(1)] at_file_exists [OF assms(2)] assms(6)] none by (simp add: with_buffer_def)
  moreover have "map_of (ad_pending t) g = Some p" using read_unbuffered [OF assms(3) assms(6)] assms(4) by (simp add: tables_of_def)
  then have "pending_end p \<le> md_size m" using getattr_covers [OF _ assms(5) assms(7)] by blast
  ultimately show ?thesis ..
qed

theorem other_buffer_unread_witness:
  "fst (read_async demo_store 2 0 3 (demo_buffered demo_empty)) = Inr [] \<and>
   map_sum id md_size (fst (getattr_async demo_store 2 (snd (read_async demo_store 2 0 3 (demo_buffered demo_empty))))) = Inr 3"
proof -
  have meta: "md_size (demo_file_metadata 5 0) = 0" by (simp add: demo_file_metadata_def)
  let ?s = "demo_buffered demo_empty" let ?t = "snd (read_async demo_store 2 0 3 ?s)"
  have empty: "fst (read_async demo_store 2 0 3 ?s) = Inr []" by (simp add: adapter_run demo_buffered_def)
  have size: "fst (getattr_async demo_store 2 ?t) = Inr ((demo_file_metadata 5 0)\<lparr>md_size := 3\<rparr>)"
    by (simp add: meta adapter_run demo_buffered_def getattr_async_def fuse_cached_metadata_def pending_end_for_inode_def DISCOVERED_METADATA_TTL_def)
  have runs: "read_async demo_store 2 0 3 ?s = (Inr [], ?t)"
    "getattr_async demo_store (fh_inode (demo_handle\<lparr>fh_remote := 71\<rparr>)) ?t =
      (Inr ((demo_file_metadata 5 0)\<lparr>md_size := 3\<rparr>), snd (getattr_async demo_store 2 ?t))"
    using empty size by (simp_all add: prod_eq_iff demo_handle_def)
  have "pending_end \<lparr>pw_inode = 2, pw_start = 0, pw_buffer = [7, 8, 9]\<rparr> \<le> md_size ((demo_file_metadata 5 0)\<lparr>md_size := 3\<rparr>)"
    using other_buffer_unread [OF demo_file_store _ _ _ _ runs, of 1 "\<lparr>pw_inode = 2, pw_start = 0, pw_buffer = [7, 8, 9]\<rparr>"]
    by (simp add: demo_buffered_def has_pending_def contains_key_def demo_handle_def)
  then show ?thesis using empty size by simp
qed

subsection \<open>Reads\<close>

text \<open>C13. A read of an open handle never mixes revisions: if every chunk the remote serves is of the revision it names,
  the bytes returned are the range of one revision, also when the file changes between chunks.\<close>
theorem adapter_read_untorn:
  assumes "serves_revisions T Z (fh_remote r) I" "map_of (ad_handles s) h = Some r" "read_async I h offset len s = (Inr data, t)"
  shows "\<exists>revision. data = range_of (T revision) offset (min len (Z revision - offset))"
  using triple_Inr [OF read_untorn [OF assms(1)] _ assms(3)] assms(2) by (simp add: one_revision_def tables_of_def)

theorem adapter_read_untorn_witness:
  "fst (read_async changing 1 0 3 demo_reader) = Inr [60, 61, 62] \<and>
   (\<exists>revision. [60, 61, 62] = range_of (\<lambda>i. 10 * revision + i) 0 (min 3 (3 - 0)))"
proof -
  have "read_async changing 1 0 3 demo_reader = (Inr [60, 61, 62], snd (read_async changing 1 0 3 demo_reader))"
    using demo_restarted(1) by (metis prod.collapse)
  from adapter_read_untorn [OF changing_serves _ this, of demo_handle] demo_restarted(1) show ?thesis
    by (simp add: demo_reader_def)
qed

text \<open>C23. A read callback always ends, and it asks the remote for at most twice the number of chunks that cover the
  requested range, whatever the remote answers: the assembly starts again at most once, however often the file changes.\<close>
theorem read_requests_bounded:
  assumes "counts_reads reads I" "map_of (ad_handles s) h = Some r" "ad_capabilities s = Some c"
  shows "reads (ad_world (snd (read_async I h offset len s)))
    \<le> reads (ad_world s) + 2 * div_ceil len (min (cap_max_read_size c) CLIENT_READ_LIMIT)"
  by (rule read_requests [OF assms])

theorem read_requests_bounded_witness:
  "ad_world (snd (read_async changing 1 0 3 demo_reader)) = 4 \<and> ad_world (snd (read_async changing 1 0 3 demo_reader)) \<le> 0 + 2 * 2"
  using read_requests_bounded [OF changing_counts, of demo_reader 1 demo_handle demo_capabilities 0 3] demo_restarted(2)
  by (simp add: demo_reader_def demo_capabilities_def CLIENT_READ_LIMIT_def with_runtime_def div_ceil_def)

end
