(* ===== verification/Trust_Store.thy ===== *)
theory Trust_Store
  imports Server_Types
begin

text \<open>
  The client's pinned server identities: the commands of \<^verbatim>\<open>clients/macos/client-cli/src/main.rs\<close> that change
  the trust database and \<^verbatim>\<open>crates/client-core/src/trust.rs\<close>, which reads it for a connection.

  \<^item> The state directory holds the database file and the lock file; entries have owner and permission bits.
    A new database is written to a temporary file and renamed over the old one, so a failed write changes nothing.
  \<^item> \<open>ts_faults\<close> says which of the next I/O calls fail, \<open>ts_stat_faults\<close> which of the next
    calls of \<^verbatim>\<open>Path::exists\<close> meet an error, which that function answers with \<^verbatim>\<open>false\<close>.
  \<^item> JSON and hex are external crates: the fields of \<open>trust_env\<close>. Certificates are read by a library; the
    fingerprint of a certificate is an argument.
\<close>

subsection \<open>Data\<close>

definition MAX_TRUST_DATABASE_SIZE :: u64 where "MAX_TRUST_DATABASE_SIZE = 4 * 1024 * 1024"
definition MAX_TRUSTED_SERVERS :: usize where "MAX_TRUSTED_SERVERS = 4096"

text \<open>\<^verbatim>\<open>std::net::SocketAddr\<close>.\<close>

type_synonym u16 = nat

datatype socket_addr = SocketV4 nat u16 | SocketV6 nat u16 u32 u32

record trusted_server =
  tv_address :: socket_addr
  tv_server_name :: bytes
  tv_certificate_sha256 :: bytes

type_synonym trust_database = "trusted_server list"

record trust_env =
  te_json :: "trust_database \<Rightarrow> string + bytes"
  te_parse :: "bytes \<Rightarrow> string + trust_database"
  te_hex_encode :: "bytes \<Rightarrow> bytes"
  te_hex_decode :: "bytes \<Rightarrow> bytes option"

datatype trust_error = TrIo io_kind | TrMalformed string | TrInvalid string | TrNoPinnedIdentity

datatype server_trust = Pinned bytes | EnterpriseCa "bytes list" | SystemRoots

text \<open>A symbolic link is \<open>TLink\<close> of whether its target exists.\<close>

datatype trust_node = TFile bytes | TDirectory | TLink bool | TOther

record trust_entry =
  tn_node :: trust_node
  tn_uid :: u32
  tn_mode :: u32

record trust_state =
  ts_root :: "trust_entry option"
  ts_database :: "trust_entry option"
  ts_lock :: bool
  ts_euid :: u32
  ts_faults :: "bool list"
  ts_stat_faults :: "bool list"

type_synonym 'a trop = "(trust_state, trust_error, 'a) op"

subsection \<open>The directory\<close>

definition trust_io :: "unit trop" where
  "trust_io s = (if take 1 (ts_faults s) = [True] then Inl (TrIo IoOther) else Inr (), s\<lparr>ts_faults := drop 1 (ts_faults s)\<rparr>)"

text \<open>\<^verbatim>\<open>Path::exists\<close> follows links and is false when the call fails.\<close>

definition database_exists :: "bool trop" where
  "database_exists s = (Inr (take 1 (ts_stat_faults s) \<noteq> [True] \<and> (case ts_database s of
       None \<Rightarrow> False | Some e \<Rightarrow> tn_node e \<noteq> TLink False)), s\<lparr>ts_stat_faults := drop 1 (ts_stat_faults s)\<rparr>)"

definition private_entry :: "trust_node \<Rightarrow> u32 \<Rightarrow> trust_state \<Rightarrow> trust_entry" where
  "private_entry n mode s = \<lparr>tn_node = n, tn_uid = ts_euid s, tn_mode = mode\<rparr>"

definition trust_create_dir :: "unit trop" where
  "trust_create_dir = mbind trust_io (\<lambda>_ s. case ts_root s of
     None \<Rightarrow> (Inr (), s\<lparr>ts_root := Some (private_entry TDirectory 493 s)\<rparr>)
   | Some e \<Rightarrow> if tn_node e = TDirectory \<or> tn_node e = TLink True then (Inr (), s) else (Inl (TrIo IoAlreadyExists), s))"

definition trust_owner :: "trust_entry \<Rightarrow> unit trop" where
  "trust_owner metadata s =
     (if tn_uid metadata \<noteq> ts_euid s then Inl (TrInvalid ''private client state must be owned by the effective client user'')
      else Inr (), s)"

definition trust_metadata :: "(trust_state \<Rightarrow> trust_entry option) \<Rightarrow> trust_entry trop" where
  "trust_metadata p = mbind trust_io (\<lambda>_ s. (ok_or (TrIo IoNotFound) (p s), s))"

definition trust_secure_directory :: "unit trop" where
  "trust_secure_directory = mbind (trust_metadata ts_root) (\<lambda>metadata.
     if tn_node metadata \<noteq> TDirectory then mfail (TrInvalid ''client state path is not a real directory'')
     else mbind (trust_owner metadata) (\<lambda>_. mbind trust_io (\<lambda>_.
       mput (\<lambda>s. s\<lparr>ts_root := Some (metadata\<lparr>tn_mode := 448\<rparr>)\<rparr>))))"

definition group_accessible :: "trust_entry \<Rightarrow> bool" where
  "group_accessible e \<longleftrightarrow> tn_mode e mod 64 \<noteq> 0"

definition regular :: "trust_entry \<Rightarrow> bool" where
  "regular e = (case tn_node e of TFile _ \<Rightarrow> True | _ \<Rightarrow> False)"

definition validate_trust_store :: "unit trop" where
  "validate_trust_store = mbind (trust_metadata ts_root) (\<lambda>root.
     if tn_node root \<noteq> TDirectory then mfail (TrInvalid ''client state path is not a real directory'')
     else mbind (trust_metadata ts_database) (\<lambda>entry.
     if \<not> regular entry then mfail (TrInvalid ''client trust database is not a regular file'')
     else mbind (trust_owner root) (\<lambda>_. mbind (trust_owner entry) (\<lambda>_.
     if group_accessible root
     then mfail (TrInvalid ''client state directory must not be accessible by group or other users'')
     else if group_accessible entry
     then mfail (TrInvalid ''client trust database must not be accessible by group or other users'')
     else mret ()))))"

text \<open>Opening, \<^verbatim>\<open>fstat\<close> with the size check, and reading; each call may fail.\<close>

definition read_trust_bytes :: "bytes trop" where
  "read_trust_bytes = mbind trust_io (\<lambda>_. mbind (\<lambda>s. (ok_or (TrIo IoNotFound) (ts_database s), s)) (\<lambda>e.
     mbind trust_io (\<lambda>_. case tn_node e of
       TFile b \<Rightarrow>
         if length b > MAX_TRUST_DATABASE_SIZE
         then mfail (TrInvalid ''client trust database is not regular or exceeds its safety limit'')
         else mbind trust_io (\<lambda>_. mret b)
     | _ \<Rightarrow> mfail (TrInvalid ''client trust database is not regular or exceeds its safety limit''))))"

subsection \<open>The database\<close>

definition hex_digit :: "byte \<Rightarrow> bool" where
  "hex_digit b \<longleftrightarrow> 48 \<le> b \<and> b \<le> 57 \<or> 65 \<le> b \<and> b \<le> 70 \<or> 97 \<le> b \<and> b \<le> 102"

fun check_servers :: "(socket_addr \<times> bytes) list \<Rightarrow> trust_database \<Rightarrow> trust_error + unit" where
  "check_servers identities [] = Inr ()"
| "check_servers identities (r # rs) =
     (if tv_server_name r = [] \<or> length (tv_server_name r) > 253
      then Inl (TrInvalid ''client trust database contains an invalid server name'')
      else if length (tv_certificate_sha256 r) \<noteq> 64 \<or> \<not> list_all hex_digit (tv_certificate_sha256 r)
      then Inl (TrInvalid ''client trust database contains an invalid certificate fingerprint'')
      else if List.member identities (tv_address r, tv_server_name r)
      then Inl (TrInvalid ''client trust database contains a duplicate server identity'')
      else check_servers ((tv_address r, tv_server_name r) # identities) rs)"

definition validate_trust_database :: "trust_database \<Rightarrow> trust_error + unit" where
  "validate_trust_database database =
     (if length database > MAX_TRUSTED_SERVERS then Inl (TrInvalid ''client trust database contains too many servers'')
      else check_servers [] database)"

definition read_trust_database :: "trust_env \<Rightarrow> trust_database trop" where
  "read_trust_database E = mbind validate_trust_store (\<lambda>_. mbind read_trust_bytes (\<lambda>b.
     if length b > MAX_TRUST_DATABASE_SIZE
     then mfail (TrInvalid ''client trust database exceeds its safety limit'')
     else mbind (mlift (map_err TrMalformed (te_parse E b))) (\<lambda>database.
       mbind (mlift (validate_trust_database database)) (\<lambda>_. mret database))))"

definition is_server :: "socket_addr \<Rightarrow> bytes \<Rightarrow> trusted_server \<Rightarrow> bool" where
  "is_server address server_name r \<longleftrightarrow> tv_address r = address \<and> tv_server_name r = server_name"

text \<open>\<^verbatim>\<open>[u8; 32]::try_from\<close> of decoded hex.\<close>

definition decode_pin :: "trust_env \<Rightarrow> bytes \<Rightarrow> trust_error + bytes" where
  "decode_pin E text = (case te_hex_decode E text of
     None \<Rightarrow> Inl (TrInvalid ''pinned certificate fingerprint is malformed'')
   | Some b \<Rightarrow> if length b = 32 then Inr b else Inl (TrInvalid ''pinned certificate fingerprint has the wrong length''))"

definition load_trusted_server_pin :: "trust_env \<Rightarrow> socket_addr \<Rightarrow> bytes \<Rightarrow> bytes trop" where
  "load_trusted_server_pin E address server_name = mbind (read_trust_database E) (\<lambda>database.
     case List.find (is_server address server_name) database of
       None \<Rightarrow> mfail TrNoPinnedIdentity
     | Some record \<Rightarrow> mlift (decode_pin E (tv_certificate_sha256 record)))"

subsection \<open>Commands\<close>

definition write_private_json :: "trust_env \<Rightarrow> trust_database \<Rightarrow> unit trop" where
  "write_private_json E database = mbind (mlift (validate_trust_database database)) (\<lambda>_.
     mbind (mlift (map_err TrMalformed (te_json E database))) (\<lambda>b.
     if length b > MAX_TRUST_DATABASE_SIZE then mfail (TrInvalid ''client trust database exceeds its safety limit'')
     else mbind trust_io (\<lambda>_. mbind trust_io (\<lambda>_ s.
       case ts_database s of
         Some e \<Rightarrow> if tn_node e = TDirectory then (Inl (TrIo IoOther), s)
           else (Inr (), s\<lparr>ts_database := Some (private_entry (TFile b) 384 s)\<rparr>)
       | None \<Rightarrow> (Inr (), s\<lparr>ts_database := Some (private_entry (TFile b) 384 s)\<rparr>)))))"

text \<open>The lock file is removed on every way out; a failure to remove it is ignored.\<close>

definition lock_trust_store :: "'a trop \<Rightarrow> 'a trop" where
  "lock_trust_store m = mbind trust_create_dir (\<lambda>_. mbind trust_secure_directory (\<lambda>_. mbind trust_io (\<lambda>_ s.
     if ts_lock s then (Inl (TrInvalid ''another client trust-store operation is in progress''), s)
     else let (r, t) = m (s\<lparr>ts_lock := True\<rparr>) in
       (r, snd (mbind trust_io (\<lambda>_. mput (\<lambda>u. u\<lparr>ts_lock := False\<rparr>)) t)))))"

definition ensure_unpaired :: "trust_env \<Rightarrow> socket_addr \<Rightarrow> bytes \<Rightarrow> unit trop" where
  "ensure_unpaired E address server_name = mbind database_exists (\<lambda>present.
     if \<not> present then mret ()
     else mbind (read_trust_database E) (\<lambda>database.
       if list_ex (is_server address server_name) database
       then mfail (TrInvalid ''this server already has a pinned identity; use `forget` before deliberate re-pairing'')
       else mret ()))"

definition save_trust_locked :: "trust_env \<Rightarrow> socket_addr \<Rightarrow> bytes \<Rightarrow> bytes \<Rightarrow> unit trop" where
  "save_trust_locked E address server_name fingerprint =
     (if server_name = [] \<or> length server_name > 253
      then mfail (TrInvalid ''server name must contain between 1 and 253 bytes'')
      else mbind trust_create_dir (\<lambda>_. mbind trust_secure_directory (\<lambda>_. mbind database_exists (\<lambda>present.
        mbind (if present then read_trust_database E else mret []) (\<lambda>database.
        case List.find (is_server address server_name) database of
          Some record \<Rightarrow> mbind (mlift (decode_pin E (tv_certificate_sha256 record))) (\<lambda>existing.
            if existing \<noteq> fingerprint
            then mfail (TrInvalid ''a different identity is already pinned for this server; remove it explicitly before re-pairing'')
            else mret ())
        | None \<Rightarrow>
            if length database \<ge> MAX_TRUSTED_SERVERS
            then mfail (TrInvalid ''client trust database has reached its server limit'')
            else write_private_json E (database @ [\<lparr>tv_address = address, tv_server_name = server_name,
              tv_certificate_sha256 = te_hex_encode E fingerprint\<rparr>]))))))"

definition import_trust :: "trust_env \<Rightarrow> socket_addr \<Rightarrow> bytes \<Rightarrow> bytes \<Rightarrow> unit trop" where
  "import_trust E address server_name fingerprint = lock_trust_store (
     mbind (ensure_unpaired E address server_name) (\<lambda>_. save_trust_locked E address server_name fingerprint))"

text \<open>\<^verbatim>\<open>pair\<close>: \<open>verified\<close> is what the pairing with the server gives.\<close>

definition pair_server :: "trust_env \<Rightarrow> socket_addr \<Rightarrow> bytes \<Rightarrow> trust_error + bytes \<Rightarrow> unit trop" where
  "pair_server E address server_name verified = mbind (ensure_unpaired E address server_name) (\<lambda>_.
     lock_trust_store (mbind (ensure_unpaired E address server_name) (\<lambda>_.
       mbind (mlift verified) (\<lambda>fingerprint. save_trust_locked E address server_name fingerprint))))"

definition forget_server :: "trust_env \<Rightarrow> socket_addr \<Rightarrow> bytes \<Rightarrow> unit trop" where
  "forget_server E address server_name = lock_trust_store (mbind (read_trust_database E) (\<lambda>database.
     let kept = filter (\<lambda>r. tv_address r \<noteq> address \<or> tv_server_name r \<noteq> server_name) database in
     if length kept = length database then mfail (TrInvalid ''no pinned identity exists for this server'')
     else write_private_json E kept))"

definition ascii_whitespace :: "byte \<Rightarrow> bool" where
  "ascii_whitespace b \<longleftrightarrow> b \<in> {9, 10, 12, 13, 32}"

definition parse_sha256_fingerprint :: "trust_env \<Rightarrow> bytes \<Rightarrow> trust_error + bytes" where
  "parse_sha256_fingerprint E v = (let normalized = filter (\<lambda>b. b \<noteq> 58 \<and> \<not> ascii_whitespace b) v in
     if length normalized \<noteq> 64 \<or> \<not> list_all hex_digit normalized
     then Inl (TrInvalid ''SHA-256 fingerprint must contain exactly 64 hexadecimal digits'')
     else case te_hex_decode E normalized of
       None \<Rightarrow> Inl (TrInvalid ''SHA-256 fingerprint is malformed'')
     | Some b \<Rightarrow> if length b = 32 then Inr b else Inl (TrInvalid ''SHA-256 fingerprint has the wrong length''))"

text \<open>\<open>trust import\<close> with \<^verbatim>\<open>--sha256\<close> or \<^verbatim>\<open>--certificate\<close>; the latter is the fingerprint of the first certificate.\<close>

definition manage_trust :: "trust_env \<Rightarrow> socket_addr \<Rightarrow> bytes \<Rightarrow> bytes option \<Rightarrow> (trust_error + bytes) option \<Rightarrow> unit trop" where
  "manage_trust E address server_name sha256 certificate = (case (sha256, certificate) of
     (Some v, None) \<Rightarrow> mbind (mlift (parse_sha256_fingerprint E v)) (import_trust E address server_name)
   | (None, Some c) \<Rightarrow> mbind (mlift c) (import_trust E address server_name)
   | _ \<Rightarrow> mfail (TrInvalid ''supply exactly one of --sha256 or --certificate''))"

text \<open>\<open>ca_cert\<close> is the bundle of \<^verbatim>\<open>--ca-cert\<close> as the library loads it.\<close>

definition server_trust_from_cli :: "trust_env \<Rightarrow> bool \<Rightarrow> (trust_error + bytes list) option \<Rightarrow> socket_addr \<Rightarrow> bytes \<Rightarrow> server_trust trop" where
  "server_trust_from_cli E trust_system_roots ca_cert address server_name =
     (if trust_system_roots then mret SystemRoots
      else case ca_cert of
        Some authorities \<Rightarrow> mbind (mlift authorities) (\<lambda>a. mret (EnterpriseCa a))
      | None \<Rightarrow> mbind (load_trusted_server_pin E address server_name) (\<lambda>fingerprint. mret (Pinned fingerprint)))"

end
