(* ===== verification/Trust_Properties.thy ===== *)
theory Trust_Properties
  imports Trust_Store Triples
begin

text \<open>
  The trust database refines a map from servers to pins.
\<close>

subsection \<open>The pins of a state\<close>

text \<open>What the code relies on of the external crates: both formats read back what they wrote.\<close>

definition trust_laws :: "trust_env \<Rightarrow> bool" where
  "trust_laws E \<longleftrightarrow> (\<forall>database b. te_json E database = Inr b \<longrightarrow> te_parse E b = Inr database) \<and>
     (\<forall>x. te_hex_decode E (te_hex_encode E x) = Some x)"

definition stored :: "trust_env \<Rightarrow> trust_entry option \<Rightarrow> trust_database" where
  "stored E entry = (case entry of
     Some e \<Rightarrow> (case tn_node e of
         TFile b \<Rightarrow> (case te_parse E b of Inr database \<Rightarrow> database | Inl _ \<Rightarrow> [])
       | _ \<Rightarrow> [])
   | None \<Rightarrow> [])"

definition pins_of :: "trust_env \<Rightarrow> trust_database \<Rightarrow> socket_addr \<times> bytes \<Rightarrow> bytes option" where
  "pins_of E database k = Option.bind (List.find (is_server (fst k) (snd k)) database) (\<lambda>r. te_hex_decode E (tv_certificate_sha256 r))"

definition pins :: "trust_env \<Rightarrow> trust_state \<Rightarrow> socket_addr \<times> bytes \<Rightarrow> bytes option" where
  "pins E s = pins_of E (stored E (ts_database s))"

lemma find_is_server: "List.find (is_server a n) database = None \<longleftrightarrow> \<not> list_ex (is_server a n) database"
  by (auto simp: find_None_iff list_ex_iff)

lemma find_append: "List.find P (xs @ ys) = (case List.find P xs of None \<Rightarrow> List.find P ys | Some x \<Rightarrow> Some x)"
  by (induction xs) auto

lemma find_filter: "List.find P (filter Q xs) = List.find (\<lambda>x. Q x \<and> P x) xs"
  by (induction xs) auto

lemma pins_add:
  assumes "trust_laws E" "\<not> list_ex (is_server a n) database"
  shows "pins_of E (database @ [\<lparr>tv_address = a, tv_server_name = n, tv_certificate_sha256 = te_hex_encode E f\<rparr>]) =
    (pins_of E database)((a, n) \<mapsto> f)"
proof
  fix k
  show "pins_of E (database @ [\<lparr>tv_address = a, tv_server_name = n, tv_certificate_sha256 = te_hex_encode E f\<rparr>]) k =
    ((pins_of E database)((a, n) \<mapsto> f)) k"
    using assms find_is_server [of a n database]
    by (cases k) (auto simp: pins_of_def find_append is_server_def trust_laws_def split: option.split)
qed

lemma pins_drop: "pins_of E (filter (\<lambda>r. tv_address r \<noteq> a \<or> tv_server_name r \<noteq> n) database) = (pins_of E database)((a, n) := None)"
proof
  fix k
  have "List.find (\<lambda>r. (tv_address r \<noteq> a \<or> tv_server_name r \<noteq> n) \<and> is_server (fst k) (snd k) r) database =
    (if k = (a, n) then None else List.find (is_server (fst k) (snd k)) database)"
    by (cases k) (induction database, auto simp: is_server_def)
  then show "pins_of E (filter (\<lambda>r. tv_address r \<noteq> a \<or> tv_server_name r \<noteq> n) database) k = ((pins_of E database)((a, n) := None)) k"
    by (simp add: pins_of_def find_filter)
qed

subsection \<open>What the parts do to the database file\<close>

text \<open>The database entry is \<open>e\<close>, and a call of \<^verbatim>\<open>Path::exists\<close> may fail only if \<open>bl\<close>.\<close>

abbreviation sighted :: "bool \<Rightarrow> trust_state \<Rightarrow> bool" where
  "sighted bl s \<equiv> True \<in> set (ts_stat_faults s) \<longrightarrow> bl"

abbreviation holds_entry :: "bool \<Rightarrow> trust_entry option \<Rightarrow> trust_state \<Rightarrow> bool" where
  "holds_entry bl e s \<equiv> ts_database s = e \<and> sighted bl s"

abbreviation keeps_entry :: "bool \<Rightarrow> trust_entry option \<Rightarrow> 'a trop \<Rightarrow> bool" where
  "keeps_entry bl e m \<equiv> triple (holds_entry bl e) m (\<lambda>_. holds_entry bl e) (\<lambda>_. holds_entry bl e)"

lemma keeps_entry_basic:
  "keeps_entry bl e trust_io" "keeps_entry bl e (trust_owner x)" "keeps_entry bl e (mret v)" "keeps_entry bl e (mfail er)" "keeps_entry bl e (mlift r)"
  unfolding trust_io_def trust_owner_def by (auto simp: triple_def mret_def mfail_def mlift_def split: sum.splits)

lemma keeps_entry_dir: "keeps_entry bl e trust_create_dir"
  unfolding trust_create_dir_def
  by (rule triple_mbind [OF keeps_entry_basic(1)]) (auto simp: triple_def split: option.splits)

lemma keeps_entry_metadata: "keeps_entry bl e (trust_metadata p)"
  unfolding trust_metadata_def
  by (rule triple_mbind [OF keeps_entry_basic(1)]) (auto simp: triple_def ok_or_def split: option.splits)

lemma keeps_entry_secure: "keeps_entry bl e trust_secure_directory"
  unfolding trust_secure_directory_def
  by (intro triple_mbind [OF keeps_entry_metadata] triple_mbind [OF keeps_entry_basic(2)] triple_mbind [OF keeps_entry_basic(1)]
      triple_if keeps_entry_basic triple_mput) auto

lemma keeps_entry_validate: "keeps_entry bl e validate_trust_store"
  unfolding validate_trust_store_def
  by (intro triple_mbind [OF keeps_entry_metadata] triple_mbind [OF keeps_entry_basic(2)] triple_if keeps_entry_basic)

lemma mlift_Inr: "mbind (mlift (Inr x)) f = f x"
  by (simp add: fun_eq_iff mbind_def mlift_def)

lemma reads_database:
  "triple (holds_entry bl e) (read_trust_database E) (\<lambda>database s. database = stored E e \<and> holds_entry bl e s) (\<lambda>_. holds_entry bl e)"
proof -
  have entry: "triple (holds_entry bl e) (\<lambda>s. (ok_or er (ts_database s), s)) (\<lambda>x s. e = Some x \<and> holds_entry bl e s) (\<lambda>_. holds_entry bl e)" for er
    by (auto simp: triple_def ok_or_def split: option.split)
  have io: "triple (\<lambda>s. e = Some x \<and> holds_entry bl e s) trust_io (\<lambda>_ s. e = Some x \<and> holds_entry bl e s) (\<lambda>_. holds_entry bl e)" for x
    by (auto simp: triple_def trust_io_def)
  have bytes: "triple (holds_entry bl e) read_trust_bytes (\<lambda>b s. (\<exists>x. e = Some x \<and> tn_node x = TFile b) \<and> holds_entry bl e s) (\<lambda>_. holds_entry bl e)"
    unfolding read_trust_bytes_def
    by (rule triple_mbind [OF keeps_entry_basic(1)], rule triple_mbind [OF entry], rule triple_mbind [OF io])
      (auto split: trust_node.split intro!: triple_if triple_mfail triple_mbind [OF io] triple_mret)
  have rest: "triple (\<lambda>s. (\<exists>x. e = Some x \<and> tn_node x = TFile b) \<and> holds_entry bl e s)
     (if length b > MAX_TRUST_DATABASE_SIZE
     then mfail (TrInvalid ''client trust database exceeds its safety limit'')
     else mbind (mlift (map_err TrMalformed (te_parse E b))) (\<lambda>database.
       mbind (mlift (validate_trust_database database)) (\<lambda>_. mret database)))
     (\<lambda>database s. database = stored E e \<and> holds_entry bl e s) (\<lambda>_. holds_entry bl e)" for b
    by (cases "te_parse E b")
      (auto simp: triple_def mbind_def mlift_def mret_def mfail_def stored_def split: sum.splits prod.splits)
  show ?thesis
    unfolding read_trust_database_def
    by (rule triple_mbind [OF keeps_entry_validate], rule triple_mbind [OF bytes rest])
qed

lemma sees_database:
  "triple (holds_entry bl e) database_exists (\<lambda>present s. (\<not> present \<longrightarrow> stored E e = [] \<or> bl) \<and> holds_entry bl e s) (\<lambda>_. holds_entry bl e)"
proof -
  have "bl" if "sighted bl s" "take 1 (ts_stat_faults s) = [True]" for s
    using that by (cases "ts_stat_faults s") auto
  then show ?thesis
    by (auto simp: triple_def database_exists_def stored_def dest: in_set_dropD split: option.splits trust_node.splits)
qed

lemma writes_database:
  assumes "trust_laws E"
  shows "triple (holds_entry bl e) (write_private_json E database)
    (\<lambda>_ s. stored E (ts_database s) = database \<and> sighted bl s) (\<lambda>_. holds_entry bl e)"
proof -
  have put: "triple (holds_entry bl e) (\<lambda>s. case ts_database s of
         Some x \<Rightarrow> if tn_node x = TDirectory then (Inl (TrIo IoOther), s)
           else (Inr (), s\<lparr>ts_database := Some (private_entry (TFile b) 384 s)\<rparr>)
       | None \<Rightarrow> (Inr (), s\<lparr>ts_database := Some (private_entry (TFile b) 384 s)\<rparr>))
      (\<lambda>_ s. stored E (ts_database s) = database \<and> sighted bl s) (\<lambda>_. holds_entry bl e)" if "te_json E database = Inr b" for b
    using that assms by (auto simp: triple_def trust_laws_def private_entry_def stored_def split: option.splits)
  show ?thesis
  proof (cases "te_json E database")
    case (Inl x)
    then show ?thesis
      by (auto simp: triple_def write_private_json_def mbind_def mlift_def split: sum.splits)
  next
    case (Inr b)
    have "triple (holds_entry bl e) (if length b > MAX_TRUST_DATABASE_SIZE then mfail (TrInvalid ''client trust database exceeds its safety limit'')
     else mbind trust_io (\<lambda>_. mbind trust_io (\<lambda>_ s.
       case ts_database s of
         Some x \<Rightarrow> if tn_node x = TDirectory then (Inl (TrIo IoOther), s)
           else (Inr (), s\<lparr>ts_database := Some (private_entry (TFile b) 384 s)\<rparr>)
       | None \<Rightarrow> (Inr (), s\<lparr>ts_database := Some (private_entry (TFile b) 384 s)\<rparr>))))
      (\<lambda>_ s. stored E (ts_database s) = database \<and> sighted bl s) (\<lambda>_. holds_entry bl e)"
      by (intro triple_if triple_mfail triple_mbind [OF keeps_entry_basic(1)] put [OF Inr])
    then show ?thesis
      unfolding write_private_json_def Inr map_err_simps mlift_Inr by (intro triple_mbind [OF keeps_entry_basic(5)])
  qed
qed

lemma locked_triple:
  assumes "triple (holds_entry bl e) m (\<lambda>x s. Q x (ts_database s) \<and> sighted bl s) (\<lambda>_. holds_entry bl e)"
  shows "triple (holds_entry bl e) (lock_trust_store m) (\<lambda>x s. Q x (ts_database s) \<and> sighted bl s) (\<lambda>_. holds_entry bl e)"
proof -
  have frame: "ts_database (snd (mbind trust_io (\<lambda>_. mput (\<lambda>u. u\<lparr>ts_lock := False\<rparr>)) t)) = ts_database t \<and>
      ts_stat_faults (snd (mbind trust_io (\<lambda>_. mput (\<lambda>u. u\<lparr>ts_lock := False\<rparr>)) t)) = ts_stat_faults t" for t
    by (simp add: mbind_def mput_def trust_io_def)
  have "triple (holds_entry bl e) (\<lambda>s. if ts_lock s then (Inl (TrInvalid ''another client trust-store operation is in progress''), s)
     else let (r, t) = m (s\<lparr>ts_lock := True\<rparr>) in (r, snd (mbind trust_io (\<lambda>_. mput (\<lambda>u. u\<lparr>ts_lock := False\<rparr>)) t)))
     (\<lambda>x s. Q x (ts_database s) \<and> sighted bl s) (\<lambda>_. holds_entry bl e)"
  proof (rule tripleI, goal_cases)
    case (1 s x t)
    obtain r u where run: "m (s\<lparr>ts_lock := True\<rparr>) = (r, u)" by (metis prod.exhaust)
    with 1 have "r = Inr x" "t = snd (mbind trust_io (\<lambda>_. mput (\<lambda>u. u\<lparr>ts_lock := False\<rparr>)) u)" by (simp_all split: if_splits)
    with triple_Inr [OF assms _ run [unfolded \<open>r = Inr x\<close>]] 1(1) frame [of u] show ?case by simp
  next
    case (2 s er t)
    obtain r u where run: "m (s\<lparr>ts_lock := True\<rparr>) = (r, u)" by (metis prod.exhaust)
    show ?case
    proof (cases "ts_lock s")
      case False
      with 2 run have "r = Inl er" "t = snd (mbind trust_io (\<lambda>_. mput (\<lambda>u. u\<lparr>ts_lock := False\<rparr>)) u)" by simp_all
      with triple_Inl [OF assms _ run [unfolded \<open>r = Inl er\<close>]] 2(1) frame [of u] show ?thesis by simp
    qed (use 2 in simp)
  qed
  then show ?thesis
    unfolding lock_trust_store_def
    by (intro triple_mbind [OF keeps_entry_dir] triple_mbind [OF keeps_entry_secure] triple_mbind [OF keeps_entry_basic(1)])
qed

lemma unpaired_triple:
  "triple (holds_entry bl e) (ensure_unpaired E a n) (\<lambda>_ s. (\<not> list_ex (is_server a n) (stored E e) \<or> bl) \<and> holds_entry bl e s)
     (\<lambda>_. holds_entry bl e)"
proof -
  let ?Q = "\<lambda>_ s. (\<not> list_ex (is_server a n) (stored E e) \<or> bl) \<and> holds_entry bl e s"
  have check: "triple (\<lambda>s. database = stored E e \<and> holds_entry bl e s) (if list_ex (is_server a n) database then mfail er else mret ())
      ?Q (\<lambda>_. holds_entry bl e)" for database er
    by (rule triple_if) (auto simp: triple_def mfail_def mret_def)
  have read: "triple (\<lambda>s. (\<not> present \<longrightarrow> stored E e = [] \<or> bl) \<and> holds_entry bl e s) (if \<not> present then mret ()
     else mbind (read_trust_database E) (\<lambda>database. if list_ex (is_server a n) database then mfail er else mret ())) ?Q (\<lambda>_. holds_entry bl e)"
    for present er
  proof (cases present)
    case True
    then show ?thesis using triple_mbind [OF reads_database check] by (simp only: simp_thms if_False)
  qed (auto simp: triple_def mret_def)
  show ?thesis unfolding ensure_unpaired_def by (rule triple_mbind [OF sees_database read])
qed

text \<open>What adding a pin may do to the map: it adds the pin where there is none. If an existence check may fail (\<open>bl\<close>), it may
  also find nothing and leave the new pin as the only one, or find the very pin it was to add.\<close>

definition pin_added :: "bool \<Rightarrow> socket_addr \<times> bytes \<Rightarrow> bytes \<Rightarrow> (socket_addr \<times> bytes \<Rightarrow> bytes option) \<Rightarrow> (socket_addr \<times> bytes \<Rightarrow> bytes option) \<Rightarrow> bool" where
  "pin_added bl k f m m' \<longleftrightarrow> m k = None \<and> m' = m(k \<mapsto> f) \<or> bl \<and> (m' = [k \<mapsto> f] \<or> m k = Some f \<and> m' = m)"

lemma unpaired_pin: "\<not> list_ex (is_server a n) database \<Longrightarrow> pins_of E database (a, n) = None"
  using find_is_server [of a n database] by (simp add: pins_of_def)

lemma found_pin:
  assumes "List.find (is_server a n) database = Some r" "decode_pin E (tv_certificate_sha256 r) = Inr f"
  shows "pins_of E database (a, n) = Some f"
  using assms by (auto simp: pins_of_def decode_pin_def split: option.splits if_splits)

lemma save_triple:
  assumes "trust_laws E"
  shows "triple (\<lambda>s. (\<not> list_ex (is_server a n) (stored E e) \<or> bl) \<and> holds_entry bl e s) (save_trust_locked E a n f)
    (\<lambda>_ s. pin_added bl (a, n) f (pins_of E (stored E e)) (pins_of E (stored E (ts_database s))) \<and> sighted bl s) (\<lambda>_. holds_entry bl e)"
proof (cases "\<not> list_ex (is_server a n) (stored E e) \<or> bl")
  case True
  let ?Q = "\<lambda>_ s. pin_added bl (a, n) f (pins_of E (stored E e)) (pins_of E (stored E (ts_database s))) \<and> sighted bl s"
  let ?add = "\<lambda>database. case List.find (is_server a n) database of
          Some record \<Rightarrow> mbind (mlift (decode_pin E (tv_certificate_sha256 record))) (\<lambda>existing.
            if existing \<noteq> f
            then mfail (TrInvalid ''a different identity is already pinned for this server; remove it explicitly before re-pairing'')
            else mret ())
        | None \<Rightarrow>
            if length database \<ge> MAX_TRUSTED_SERVERS
            then mfail (TrInvalid ''client trust database has reached its server limit'')
            else write_private_json E (database @ [\<lparr>tv_address = a, tv_server_name = n,
              tv_certificate_sha256 = te_hex_encode E f\<rparr>])"
  have empty: "pins_of E [] = Map.empty" by (simp add: pins_of_def fun_eq_iff)
  have add: "triple (\<lambda>s. (database = stored E e \<or> bl \<and> database = []) \<and> holds_entry bl e s) (?add database) ?Q (\<lambda>_. holds_entry bl e)" for database
  proof (cases "database = stored E e \<or> bl \<and> database = []")
    case db: True
    show ?thesis
    proof (cases "List.find (is_server a n) database")
      case None
      then have un: "\<not> list_ex (is_server a n) database" by (simp add: find_is_server)
      have "pin_added bl (a, n) f (pins_of E (stored E e)) ((pins_of E database)((a, n) \<mapsto> f))"
        using db unpaired_pin [OF un, of E] empty by (auto simp: pin_added_def)
      then have "triple (holds_entry bl e) (write_private_json E (database @ [\<lparr>tv_address = a, tv_server_name = n,
              tv_certificate_sha256 = te_hex_encode E f\<rparr>])) ?Q (\<lambda>_. holds_entry bl e)"
        by (intro triple_conseq [OF writes_database [OF assms]]) (use pins_add [OF assms un, of f] in simp_all)
      then show ?thesis using None db by (auto intro: triple_if triple_mfail)
    next
      case (Some r)
      then have "database = stored E e" "bl" using db True by (auto simp: find_None_iff list_ex_iff find_Some_iff)
      then show ?thesis
        using Some found_pin [OF Some, of E f]
        by (auto simp: triple_def mbind_def mlift_def mret_def mfail_def pin_added_def split: sum.splits)
    qed
  next
    case False
    then show ?thesis by (simp only: triple_def simp_thms)
  qed
  have read: "triple (\<lambda>s. (\<not> present \<longrightarrow> stored E e = [] \<or> bl) \<and> holds_entry bl e s) (if present then read_trust_database E else mret [])
      (\<lambda>database s. (database = stored E e \<or> bl \<and> database = []) \<and> holds_entry bl e s) (\<lambda>_. holds_entry bl e)" for present
    by (rule triple_if, rule triple_conseq [OF reads_database [where e = e and E = E and bl = bl]]) (auto simp: triple_def mret_def)
  have "triple (holds_entry bl e) (save_trust_locked E a n f) ?Q (\<lambda>_. holds_entry bl e)"
    unfolding save_trust_locked_def
    by (intro triple_if triple_mfail triple_mbind [OF keeps_entry_dir] triple_mbind [OF keeps_entry_secure]
        triple_mbind [OF sees_database triple_mbind [OF read add]])
  then show ?thesis by (rule triple_conseq) auto
qed (simp add: triple_def)

subsection \<open>Commands\<close>

datatype trust_edit = ImportPin socket_addr bytes bytes | PairServer socket_addr bytes "trust_error + bytes" | ForgetServer socket_addr bytes

fun run_trust_edit :: "trust_env \<Rightarrow> trust_edit \<Rightarrow> unit trop" where
  "run_trust_edit E (ImportPin a n f) = import_trust E a n f"
| "run_trust_edit E (PairServer a n verified) = pair_server E a n verified"
| "run_trust_edit E (ForgetServer a n) = forget_server E a n"

text \<open>The same commands on a map.\<close>

fun edit_pins :: "bool \<Rightarrow> trust_edit \<Rightarrow> (socket_addr \<times> bytes \<Rightarrow> bytes option) \<Rightarrow> (socket_addr \<times> bytes \<Rightarrow> bytes option) \<Rightarrow> bool" where
  "edit_pins bl (ImportPin a n f) m m' \<longleftrightarrow> pin_added bl (a, n) f m m'"
| "edit_pins bl (PairServer a n verified) m m' \<longleftrightarrow> (\<exists>f. verified = Inr f \<and> pin_added bl (a, n) f m m')"
| "edit_pins bl (ForgetServer a n) m m' \<longleftrightarrow> m' = m((a, n) := None)"

lemma import_triple:
  assumes "trust_laws E"
  shows "triple (holds_entry bl e) (mbind (ensure_unpaired E a n) (\<lambda>_. save_trust_locked E a n f))
    (\<lambda>_ s. pin_added bl (a, n) f (pins_of E (stored E e)) (pins_of E (stored E (ts_database s))) \<and> sighted bl s) (\<lambda>_. holds_entry bl e)"
  by (rule triple_mbind [OF unpaired_triple save_triple [OF assms]])

lemma edit_triple:
  assumes "trust_laws E"
  shows "triple (holds_entry bl e) (run_trust_edit E x)
    (\<lambda>_ s. edit_pins bl x (pins_of E (stored E e)) (pins_of E (stored E (ts_database s))) \<and> sighted bl s) (\<lambda>_. holds_entry bl e)"
proof (cases x)
  case (ImportPin a n f)
  show ?thesis
    unfolding ImportPin run_trust_edit.simps import_trust_def edit_pins.simps
    by (rule locked_triple [where Q = "\<lambda>_ d. pin_added bl (a, n) f (pins_of E (stored E e)) (pins_of E (stored E d))",
          OF import_triple [OF assms]])
next
  case (PairServer a n verified)
  let ?Q = "\<lambda>_ d. \<exists>f. verified = Inr f \<and> pin_added bl (a, n) f (pins_of E (stored E e)) (pins_of E (stored E d))"
  have body: "triple (holds_entry bl e) (mbind (ensure_unpaired E a n) (\<lambda>_. mbind (mlift verified) (save_trust_locked E a n)))
      (\<lambda>x s. ?Q x (ts_database s) \<and> sighted bl s) (\<lambda>_. holds_entry bl e)"
  proof (cases verified)
    case (Inl er)
    show ?thesis
      unfolding Inl by (rule triple_mbind [OF unpaired_triple]) (auto simp: triple_def mbind_def mlift_def)
  next
    case (Inr f)
    show ?thesis unfolding Inr mlift_Inr by (rule triple_conseq [OF import_triple [OF assms]]) auto
  qed
  have "triple (\<lambda>s. (\<not> list_ex (is_server a n) (stored E e) \<or> bl) \<and> holds_entry bl e s)
      (lock_trust_store (mbind (ensure_unpaired E a n) (\<lambda>_. mbind (mlift verified) (save_trust_locked E a n))))
      (\<lambda>x s. ?Q x (ts_database s) \<and> sighted bl s) (\<lambda>_. holds_entry bl e)"
    by (rule triple_conseq [OF locked_triple [where Q = ?Q, OF body]]) (simp, assumption, assumption)
  from triple_mbind [OF unpaired_triple this] show ?thesis
    unfolding PairServer run_trust_edit.simps pair_server_def edit_pins.simps by simp
next
  case (ForgetServer a n)
  have rest: "triple (\<lambda>s. database = stored E e \<and> holds_entry bl e s)
     (let kept = filter (\<lambda>r. tv_address r \<noteq> a \<or> tv_server_name r \<noteq> n) database in
     if length kept = length database then mfail er else write_private_json E kept)
     (\<lambda>_ s. pins_of E (stored E (ts_database s)) = (pins_of E (stored E e))((a, n) := None) \<and> sighted bl s) (\<lambda>_. holds_entry bl e)"
    for database er
  proof (cases "database = stored E e")
    case True
    have "triple (holds_entry bl e) (write_private_json E (filter (\<lambda>r. tv_address r \<noteq> a \<or> tv_server_name r \<noteq> n) database))
      (\<lambda>_ s. pins_of E (stored E (ts_database s)) = (pins_of E (stored E e))((a, n) := None) \<and> sighted bl s) (\<lambda>_. holds_entry bl e)"
      by (rule triple_conseq [OF writes_database [OF assms]]) (use pins_drop [of E a n database] True in auto)
    then show ?thesis using True unfolding Let_def by (auto intro: triple_if triple_mfail)
  qed (simp add: triple_def)
  show ?thesis
    unfolding ForgetServer run_trust_edit.simps forget_server_def edit_pins.simps
    by (rule locked_triple [where Q = "\<lambda>_ d. pins_of E (stored E d) = (pins_of E (stored E e))((a, n) := None)",
          OF triple_mbind [OF reads_database rest]])
qed

fun run_trust_edits :: "trust_env \<Rightarrow> trust_edit list \<Rightarrow> trust_state \<Rightarrow> (trust_error + unit) list \<times> trust_state" where
  "run_trust_edits E [] s = ([], s)"
| "run_trust_edits E (x # xs) s = (let (r, s1) = run_trust_edit E x s; (rs, s2) = run_trust_edits E xs s1 in (r # rs, s2))"

text \<open>A run of commands on a map in which exactly those with a success act.\<close>

inductive edits_pins :: "bool \<Rightarrow> (trust_edit \<times> (trust_error + unit)) list \<Rightarrow> (socket_addr \<times> bytes \<Rightarrow> bytes option)
    \<Rightarrow> (socket_addr \<times> bytes \<Rightarrow> bytes option) \<Rightarrow> bool" for bl where
  edits_none: "edits_pins bl [] m m"
| edits_acted: "edit_pins bl x m m1 \<Longrightarrow> edits_pins bl rest m1 m2 \<Longrightarrow> edits_pins bl ((x, Inr ()) # rest) m m2"
| edits_failed: "edits_pins bl rest m m2 \<Longrightarrow> edits_pins bl ((x, Inl e) # rest) m m2"

inductive_cases edits_acted_cases: "edits_pins bl ((x, Inr ()) # rest) m m2"

lemma edits_refine:
  assumes "trust_laws E" "sighted bl s" "run_trust_edits E xs s = (rs, t)"
  shows "length rs = length xs \<and> edits_pins bl (zip xs rs) (pins E s) (pins E t)"
  using assms(2,3)
proof (induction xs arbitrary: s rs)
  case (Cons x xs)
  obtain r s1 where run: "run_trust_edit E x s = (r, s1)" by fastforce
  obtain rest where rest: "run_trust_edits E xs s1 = (rest, t)" "rs = r # rest"
    using Cons.prems run by (auto split: prod.splits)
  note step = edit_triple [OF assms(1), where bl = bl and e = "ts_database s" and x = x]
  show ?case
  proof (cases r)
    case (Inl er)
    with triple_Inl [OF step _ run [unfolded Inl]] Cons.prems have "pins E s1 = pins E s" "sighted bl s1" by (simp_all add: pins_def)
    with Cons.IH [OF _ rest(1)] rest(2) Inl show ?thesis by (auto intro: edits_failed)
  next
    case (Inr u)
    with triple_Inr [OF step _ run [unfolded Inr]] Cons.prems have "edit_pins bl x (pins E s) (pins E s1)" "sighted bl s1"
      by (simp_all add: pins_def)
    with Cons.IH [OF _ rest(1)] rest(2) Inr show ?thesis by (auto intro: edits_acted)
  qed
qed (auto intro: edits_none)

subsection \<open>Loading a pin\<close>

text \<open>The directory and the database are private, and the database holds \<open>database\<close>.\<close>

definition private_root :: "trust_state \<Rightarrow> bool" where
  "private_root s \<longleftrightarrow> (\<exists>r. ts_root s = Some r \<and> tn_node r = TDirectory \<and> tn_uid r = ts_euid s \<and> tn_mode r mod 64 = 0)"

definition private_database :: "trust_env \<Rightarrow> trust_database \<Rightarrow> trust_state \<Rightarrow> bool" where
  "private_database E database s \<longleftrightarrow> (\<exists>b. ts_database s = Some (private_entry (TFile b) 384 s) \<and> te_parse E b = Inr database \<and>
     validate_trust_database database = Inr () \<and> length b \<le> MAX_TRUST_DATABASE_SIZE)"

lemma load_private:
  assumes "private_root s" "private_database E database s" "ts_faults s = []" "List.find (is_server a n) database = Some r"
  shows "load_trusted_server_pin E a n s = (decode_pin E (tv_certificate_sha256 r), s)"
proof -
  have io: "trust_io s = (Inr (), s)" using assms(3) by (simp add: trust_io_def)
  have "validate_trust_store s = (Inr (), s)"
    using assms(1,2) io
    by (auto simp: validate_trust_store_def trust_metadata_def trust_owner_def mbind_def mret_def private_root_def private_database_def
        private_entry_def regular_def group_accessible_def)
  then show ?thesis
    using assms(2,4) io
    by (auto simp: load_trusted_server_pin_def read_trust_database_def read_trust_bytes_def mbind_def mlift_def mret_def
        private_database_def private_entry_def)
qed

text \<open>A successful save has just found the root private and written the pin.\<close>

abbreviation saved :: "trust_env \<Rightarrow> socket_addr \<Rightarrow> bytes \<Rightarrow> bytes \<Rightarrow> trust_state \<Rightarrow> bool" where
  "saved E a n f s \<equiv> private_root s \<and> (\<exists>database r. private_database E database s \<and>
     List.find (is_server a n) database = Some r \<and> tv_certificate_sha256 r = te_hex_encode E f)"

abbreviation keeps_root :: "'a trop \<Rightarrow> bool" where
  "keeps_root m \<equiv> triple private_root m (\<lambda>_. private_root) (\<lambda>_ _. True)"

lemma keeps_root_basic: "keeps_root trust_io" "keeps_root (trust_owner x)" "keeps_root (mlift r)" "keeps_root (mret v)"
  "keeps_root (mfail er)" "keeps_root (trust_metadata q)" "keeps_root database_exists" "keeps_root read_trust_bytes"
  unfolding trust_io_def trust_owner_def trust_metadata_def database_exists_def read_trust_bytes_def
  by (auto simp: triple_def mret_def mfail_def mlift_def mbind_def private_root_def
      split: sum.splits option.splits trust_node.splits)

lemma secures_root: "triple (\<lambda>_. True) trust_secure_directory (\<lambda>_. private_root) (\<lambda>_ _. True)"
  unfolding trust_secure_directory_def trust_metadata_def trust_owner_def trust_io_def
  by (auto simp: triple_def mbind_def mfail_def mput_def private_root_def ok_or_def split: sum.splits option.splits if_splits)

lemma keeps_root_validate: "keeps_root validate_trust_store"
  unfolding validate_trust_store_def
  by (intro triple_mbind [OF keeps_root_basic(6)] triple_mbind [OF keeps_root_basic(2)] triple_if keeps_root_basic)

lemma keeps_root_read: "keeps_root (read_trust_database E)"
  unfolding read_trust_database_def
  by (intro triple_mbind [OF keeps_root_validate] triple_mbind [OF keeps_root_basic(8)] triple_mbind [OF keeps_root_basic(3)]
      triple_if keeps_root_basic)

lemma writes_private:
  assumes "trust_laws E"
  shows "triple private_root (write_private_json E database) (\<lambda>_ s. private_root s \<and> private_database E database s) (\<lambda>_ _. True)"
  using assms
  unfolding write_private_json_def
  by (auto simp: triple_def mbind_def mlift_def mfail_def trust_io_def private_root_def private_database_def private_entry_def trust_laws_def
      map_err_def split: sum.splits option.splits if_splits)

lemma save_private:
  assumes "trust_laws E"
  shows "triple (\<lambda>s. \<not> list_ex (is_server a n) (stored E e) \<and> holds_entry False e s) (save_trust_locked E a n f) (\<lambda>_. saved E a n f) (\<lambda>_ _. True)"
proof (cases "list_ex (is_server a n) (stored E e)")
  case False
  let ?r = "\<lparr>tv_address = a, tv_server_name = n, tv_certificate_sha256 = te_hex_encode E f\<rparr>"
  let ?add = "\<lambda>database. case List.find (is_server a n) database of
          Some record \<Rightarrow> mbind (mlift (decode_pin E (tv_certificate_sha256 record))) (\<lambda>existing.
            if existing \<noteq> f
            then mfail (TrInvalid ''a different identity is already pinned for this server; remove it explicitly before re-pairing'')
            else mret ())
        | None \<Rightarrow>
            if length database \<ge> MAX_TRUSTED_SERVERS
            then mfail (TrInvalid ''client trust database has reached its server limit'')
            else write_private_json E (database @ [?r])"
  have add: "triple (\<lambda>s. database = stored E e \<and> private_root s) (?add database) (\<lambda>_. saved E a n f) (\<lambda>_ _. True)" for database
  proof (cases "database = stored E e")
    case True
    then have none: "List.find (is_server a n) database = None" using False by (simp add: find_is_server)
    moreover have "List.find (is_server a n) (database @ [?r]) = Some ?r" using none by (simp add: find_append is_server_def)
    then have "triple private_root (write_private_json E (database @ [?r])) (\<lambda>_. saved E a n f) (\<lambda>_ _. True)"
      by (intro triple_conseq [OF writes_private [OF assms]]) auto
    ultimately show ?thesis using True by (auto intro: triple_if triple_mfail)
  qed (simp add: triple_def)
  have read: "triple (\<lambda>s. ((\<not> present \<longrightarrow> stored E e = []) \<and> holds_entry False e s) \<and> private_root s) (if present then read_trust_database E else mret [])
      (\<lambda>database s. database = stored E e \<and> private_root s) (\<lambda>_ _. True)" for present
    by (rule triple_if, rule triple_conseq [OF triple_conj [OF reads_database [where e = e and E = E] keeps_root_read]]) (auto simp: triple_def mret_def)
  have exists: "triple (\<lambda>s. holds_entry False e s \<and> private_root s) database_exists
     (\<lambda>present s. ((\<not> present \<longrightarrow> stored E e = []) \<and> holds_entry False e s) \<and> private_root s) (\<lambda>_ _. True)"
    by (rule triple_conseq [OF triple_conj [OF sees_database keeps_root_basic(7)]]) auto
  have secure: "triple (holds_entry False e) trust_secure_directory (\<lambda>_ s. holds_entry False e s \<and> private_root s) (\<lambda>_ _. True)"
    by (rule triple_conseq [OF triple_conj [OF keeps_entry_secure secures_root]]) auto
  have dir: "triple (holds_entry False e) trust_create_dir (\<lambda>_. holds_entry False e) (\<lambda>_ _. True)"
    by (rule triple_conseq [OF keeps_entry_dir]) auto
  have "triple (holds_entry False e) (save_trust_locked E a n f) (\<lambda>_. saved E a n f) (\<lambda>_ _. True)"
    unfolding save_trust_locked_def
    by (intro triple_if triple_mfail TrueI triple_mbind [OF dir] triple_mbind [OF secure] triple_mbind [OF exists triple_mbind [OF read add]])
  then show ?thesis by (rule triple_conseq) auto
qed (simp add: triple_def)

lemma import_saved:
  assumes "trust_laws E" "ts_stat_faults s = []" "import_trust E a n f s = (Inr (), t)"
  shows "saved E a n f t"
proof -
  let ?m = "mbind (ensure_unpaired E a n) (\<lambda>_. save_trust_locked E a n f)"
  have unpaired: "triple (holds_entry False e) (ensure_unpaired E a n) (\<lambda>_ s. \<not> list_ex (is_server a n) (stored E e) \<and> holds_entry False e s) (\<lambda>_ _. True)" for e
    by (rule triple_conseq [OF unpaired_triple]) auto
  note body = triple_mbind [OF unpaired save_private [OF assms(1)]]
  have frame: "private_root (snd (mbind trust_io (\<lambda>_. mput (\<lambda>u. u\<lparr>ts_lock := False\<rparr>)) u)) = private_root u"
    "private_database E database (snd (mbind trust_io (\<lambda>_. mput (\<lambda>u. u\<lparr>ts_lock := False\<rparr>)) u)) = private_database E database u" for u database
    by (simp_all add: mbind_def mput_def trust_io_def private_root_def private_database_def private_entry_def)
  have "triple (holds_entry False (ts_database s)) (lock_trust_store ?m) (\<lambda>_. saved E a n f) (\<lambda>_ _. True)"
    unfolding lock_trust_store_def
  proof (intro triple_mbind [OF triple_conseq [OF keeps_entry_dir]] triple_mbind [OF triple_conseq [OF keeps_entry_secure]]
      triple_mbind [OF triple_conseq [OF keeps_entry_basic(1)]], (assumption | rule TrueI)+, rule tripleI, goal_cases)
    case (1 _ _ _ s x t)
    obtain r u where run: "?m (s\<lparr>ts_lock := True\<rparr>) = (r, u)" by (metis prod.exhaust)
    with 1 have "r = Inr x" "t = snd (mbind trust_io (\<lambda>_. mput (\<lambda>u. u\<lparr>ts_lock := False\<rparr>)) u)" by (simp_all split: if_splits)
    with triple_Inr [OF body _ run [unfolded \<open>r = Inr x\<close>]] 1(1) show ?case by (simp add: frame)
  qed simp
  from triple_Inr [OF this _ assms(3) [unfolded import_trust_def]] assms(2) show ?thesis by simp
qed

subsection \<open>A failing existence check\<close>

abbreviation blind :: "bool list \<Rightarrow> trust_state \<Rightarrow> bool" where
  "blind faults s \<equiv> ts_stat_faults s = faults"

lemma keeps_blind: "triple (blind q) trust_io (\<lambda>_. blind q) (\<lambda>_ _. True)" "triple (blind q) trust_create_dir (\<lambda>_. blind q) (\<lambda>_ _. True)"
  "triple (blind q) trust_secure_directory (\<lambda>_. blind q) (\<lambda>_ _. True)"
  unfolding trust_io_def trust_create_dir_def trust_secure_directory_def trust_metadata_def trust_owner_def
  by (auto simp: triple_def mbind_def mput_def mfail_def ok_or_def split: option.splits sum.splits)

lemma blind_exists: "triple (blind (True # q)) database_exists (\<lambda>present s. present = False \<and> blind q s) (\<lambda>_ _. True)"
  by (auto simp: triple_def database_exists_def)

lemma blind_import:
  assumes "trust_laws E" "ts_stat_faults s = True # True # q" "import_trust E a n f s = (Inr (), t)"
  shows "stored E (ts_database t) = [\<lparr>tv_address = a, tv_server_name = n, tv_certificate_sha256 = te_hex_encode E f\<rparr>]"
proof -
  let ?m = "mbind (ensure_unpaired E a n) (\<lambda>_. save_trust_locked E a n f)"
  let ?Q = "\<lambda>s. stored E (ts_database s) = [\<lparr>tv_address = a, tv_server_name = n, tv_certificate_sha256 = te_hex_encode E f\<rparr>]"
  have writes: "triple (\<lambda>_. True) (write_private_json E database) (\<lambda>_ s. stored E (ts_database s) = database) (\<lambda>_ _. True)" for database
    using writes_database [OF assms(1)] assms(1)
    by (auto simp: triple_def write_private_json_def mbind_def mlift_def mfail_def trust_io_def private_entry_def stored_def trust_laws_def
        map_err_def split: sum.splits option.splits if_splits)
  have unpaired: "triple (blind (True # r)) (ensure_unpaired E a n) (\<lambda>_. blind r) (\<lambda>_ _. True)" for r
    unfolding ensure_unpaired_def by (rule triple_mbind [OF blind_exists]) (auto simp: triple_def mret_def)
  have tail: "triple (\<lambda>s. present = False \<and> blind q s) (mbind (if present then read_trust_database E else mret []) (\<lambda>database.
        case List.find (is_server a n) database of
          Some record \<Rightarrow> mbind (mlift (decode_pin E (tv_certificate_sha256 record))) (\<lambda>existing.
            if existing \<noteq> f
            then mfail (TrInvalid ''a different identity is already pinned for this server; remove it explicitly before re-pairing'')
            else mret ())
        | None \<Rightarrow>
            if length database \<ge> MAX_TRUSTED_SERVERS
            then mfail (TrInvalid ''client trust database has reached its server limit'')
            else write_private_json E (database @ [\<lparr>tv_address = a, tv_server_name = n, tv_certificate_sha256 = te_hex_encode E f\<rparr>])))
      (\<lambda>_. ?Q) (\<lambda>_ _. True)" for present
    by (cases present) (simp add: triple_def, auto intro: triple_conseq [OF writes] triple_mfail)
  have save: "triple (blind (True # q)) (save_trust_locked E a n f) (\<lambda>_. ?Q) (\<lambda>_ _. True)"
    unfolding save_trust_locked_def
    by (intro triple_if triple_mfail TrueI triple_mbind [OF keeps_blind(2)] triple_mbind [OF keeps_blind(3)] triple_mbind [OF blind_exists tail])
  note body = triple_mbind [OF unpaired save]
  have frame: "ts_database (snd (mbind trust_io (\<lambda>_. mput (\<lambda>u. u\<lparr>ts_lock := False\<rparr>)) u)) = ts_database u" for u
    by (simp add: mbind_def mput_def trust_io_def)
  have "triple (blind (True # True # q)) (lock_trust_store ?m) (\<lambda>_. ?Q) (\<lambda>_ _. True)"
    unfolding lock_trust_store_def
  proof (intro triple_mbind [OF keeps_blind(2)] triple_mbind [OF keeps_blind(3)] triple_mbind [OF keeps_blind(1)], rule tripleI, goal_cases)
    case (1 _ _ _ s x t)
    obtain r u where run: "?m (s\<lparr>ts_lock := True\<rparr>) = (r, u)" by (metis prod.exhaust)
    with 1 have "r = Inr x" "t = snd (mbind trust_io (\<lambda>_. mput (\<lambda>u. u\<lparr>ts_lock := False\<rparr>)) u)" by (simp_all split: if_splits)
    with triple_Inr [OF body _ run [unfolded \<open>r = Inr x\<close>]] 1(1) show ?case by (simp add: frame)
  qed simp
  from triple_Inr [OF this _ assms(3) [unfolded import_trust_def]] assms(2) show ?thesis by simp
qed

subsection \<open>A concrete store\<close>

definition demo_hex_digit :: "nat \<Rightarrow> byte" where
  "demo_hex_digit d = (if d < 10 then 48 + d else 87 + d)"

definition demo_hex :: "bytes \<Rightarrow> bytes" where
  "demo_hex x = concat (map (\<lambda>b. [demo_hex_digit (b div 16), demo_hex_digit (b mod 16)]) x)"

definition demo_nibble :: "byte \<Rightarrow> nat" where
  "demo_nibble c = (if c < 97 then c - 48 else c - 87)"

fun demo_unhex :: "bytes \<Rightarrow> bytes option" where
  "demo_unhex [] = Some []"
| "demo_unhex [c] = None"
| "demo_unhex (c # c' # cs) = map_option ((#) (16 * demo_nibble c + demo_nibble c')) (demo_unhex cs)"

lemma demo_nibble_digit [simp]: "demo_nibble (demo_hex_digit d) = d"
  by (simp add: demo_nibble_def demo_hex_digit_def)

lemma demo_unhex_hex: "demo_unhex (demo_hex x) = Some x"
  by (induction x) (simp_all add: demo_hex_def)

definition demo_address :: socket_addr where "demo_address = SocketV4 2130706433 4433"

definition demo_trusted :: "bytes \<Rightarrow> nat \<Rightarrow> trusted_server" where
  "demo_trusted n k = \<lparr>tv_address = demo_address, tv_server_name = n, tv_certificate_sha256 = demo_hex (replicate 32 k)\<rparr>"

text \<open>A table stands for JSON: it knows the databases of the examples.\<close>

definition demo_trust :: trust_env where
  "demo_trust = \<lparr>te_json = (\<lambda>database. if database = [demo_trusted [97] 7] then Inr [1] else Inl ''unknown''),
     te_parse = (\<lambda>b. if b = [1] then Inr [demo_trusted [97] 7] else if b = [2] then Inr [demo_trusted [98] 9] else Inl ''unknown''),
     te_hex_encode = demo_hex, te_hex_decode = demo_unhex\<rparr>"

lemma demo_trust_laws: "trust_laws demo_trust"
  by (simp add: trust_laws_def demo_trust_def demo_unhex_hex)

definition demo_client :: "trust_entry option \<Rightarrow> bool list \<Rightarrow> trust_state" where
  "demo_client database faults = \<lparr>ts_root = Some \<lparr>tn_node = TDirectory, tn_uid = 501, tn_mode = 448\<rparr>, ts_database = database,
     ts_lock = False, ts_euid = 501, ts_faults = [], ts_stat_faults = faults\<rparr>"

abbreviation demo_stored :: "byte \<Rightarrow> trust_entry option" where
  "demo_stored k \<equiv> Some \<lparr>tn_node = TFile [k], tn_uid = 501, tn_mode = 384\<rparr>"

lemma demo_pin_text: "length (demo_hex (replicate k 7)) = 2 * k \<and> list_all hex_digit (demo_hex (replicate k 7))"
  by (induction k) (simp_all add: demo_hex_def demo_hex_digit_def hex_digit_def)

lemma demo_valid: "check_servers [] [demo_trusted [97] 7] = Inr ()"
  using demo_pin_text [of 32] by (simp add: demo_trusted_def)

lemma demo_import: "import_trust demo_trust demo_address [97] (replicate 32 7) (demo_client None []) = (Inr (), demo_client (demo_stored 1) [])"
  "import_trust demo_trust demo_address [97] (replicate 32 7) (demo_client (demo_stored 2) [True, True]) = (Inr (), demo_client (demo_stored 1) [])"
proof -
  define pin where "pin = replicate 32 (7 :: byte)"
  have server: "\<lparr>tv_address = demo_address, tv_server_name = [97], tv_certificate_sha256 = te_hex_encode demo_trust pin\<rparr> = demo_trusted [97] 7"
    by (simp add: demo_trusted_def demo_trust_def pin_def)
  have written: "write_private_json demo_trust [demo_trusted [97] 7] (s\<lparr>ts_lock := True\<rparr>) = (Inr (), (demo_client (demo_stored 1) [])\<lparr>ts_lock := True\<rparr>)"
    if "s = demo_client None [] \<or> s = demo_client (demo_stored 2) []" for s
    using that demo_valid
    by (auto simp: write_private_json_def validate_trust_database_def MAX_TRUSTED_SERVERS_def MAX_TRUST_DATABASE_SIZE_def
        trust_io_def private_entry_def monad_simps demo_client_def demo_trust_def simp del: check_servers.simps)
  have parts: "trust_create_dir (demo_client d q\<lparr>ts_lock := l\<rparr>) = (Inr (), demo_client d q\<lparr>ts_lock := l\<rparr>)"
    "trust_secure_directory (demo_client d q\<lparr>ts_lock := l\<rparr>) = (Inr (), demo_client d q\<lparr>ts_lock := l\<rparr>)"
    "trust_io (demo_client d q\<lparr>ts_lock := l\<rparr>) = (Inr (), demo_client d q\<lparr>ts_lock := l\<rparr>)"
    "database_exists (demo_client None []\<lparr>ts_lock := l\<rparr>) = (Inr False, demo_client None []\<lparr>ts_lock := l\<rparr>)"
    "database_exists (demo_client d (True # q)\<lparr>ts_lock := l\<rparr>) = (Inr False, demo_client d q\<lparr>ts_lock := l\<rparr>)" for d q l
    by (simp_all add: trust_create_dir_def trust_secure_directory_def trust_metadata_def trust_owner_def trust_io_def database_exists_def
        monad_simps demo_client_def)
  have unlocked: "demo_client d q\<lparr>ts_lock := False\<rparr> = demo_client d q" "\<not> ts_lock (demo_client d q)" for d q
    by (simp_all add: demo_client_def)
  note run = import_trust_def lock_trust_store_def ensure_unpaired_def save_trust_locked_def mbind_def mret_def mput_def
    parts parts [where l = False, unfolded unlocked] server written MAX_TRUSTED_SERVERS_def
  have "import_trust demo_trust demo_address [97] pin (demo_client None [] \<lparr>ts_lock := False\<rparr>) = (Inr (), demo_client (demo_stored 1) [])"
    "import_trust demo_trust demo_address [97] pin (demo_client (demo_stored 2) [True, True] \<lparr>ts_lock := False\<rparr>) = (Inr (), demo_client (demo_stored 1) [])"
    by (simp_all add: run unlocked)
  then show "import_trust demo_trust demo_address [97] (replicate 32 7) (demo_client None []) = (Inr (), demo_client (demo_stored 1) [])"
    "import_trust demo_trust demo_address [97] (replicate 32 7) (demo_client (demo_stored 2) [True, True]) = (Inr (), demo_client (demo_stored 1) [])"
    by (simp_all add: unlocked pin_def)
qed

subsection \<open>Properties\<close>

text \<open>C27. The trust database refines a map from servers to pins: over any sequence of imports, pairings and forgets, with
  I/O failing at any point, the pins at the end are those of a map on which exactly the commands that returned success have
  acted; a command that failed has changed nothing. A forget removes the one pin. An import or a pairing adds its pin, and
  succeeds only where the map has none, unless a call of \<^verbatim>\<open>Path::exists\<close> fails on the way (which the code reads as an absent
  file): only then it may instead leave its pin as the only one of the database, or find that very pin there already.
  So while the existence checks do not fail, a pin is never replaced.\<close>
theorem trust_edits_refine:
  assumes "trust_laws E" "run_trust_edits E xs s = (rs, t)"
  shows "length rs = length xs \<and> edits_pins (True \<in> set (ts_stat_faults s)) (zip xs rs) (pins E s) (pins E t)"
  using edits_refine [OF assms(1) _ assms(2)] by blast

text \<open>Two runs: a first import on an empty store, and one on a store with another pin while both existence checks fail.\<close>
theorem trust_edits_refine_witness:
  "run_trust_edits demo_trust [ImportPin demo_address [97] (replicate 32 7)] (demo_client None []) =
     ([Inr ()], demo_client (demo_stored 1) []) \<and>
   edits_pins False [(ImportPin demo_address [97] (replicate 32 7), Inr ())] (pins demo_trust (demo_client None []))
     (pins demo_trust (demo_client (demo_stored 1) [])) \<and>
   run_trust_edits demo_trust [ImportPin demo_address [97] (replicate 32 7)] (demo_client (demo_stored 2) [True, True]) =
     ([Inr ()], demo_client (demo_stored 1) []) \<and>
   edits_pins True [(ImportPin demo_address [97] (replicate 32 7), Inr ())] (pins demo_trust (demo_client (demo_stored 2) [True, True]))
     (pins demo_trust (demo_client (demo_stored 1) []))"
proof -
  have run: "run_trust_edits demo_trust [ImportPin demo_address [97] (replicate 32 7)] (demo_client None []) =
     ([Inr ()], demo_client (demo_stored 1) [])"
    "run_trust_edits demo_trust [ImportPin demo_address [97] (replicate 32 7)] (demo_client (demo_stored 2) [True, True]) =
     ([Inr ()], demo_client (demo_stored 1) [])"
    using demo_import by simp_all
  show ?thesis
    using trust_edits_refine [OF demo_trust_laws run(1)] trust_edits_refine [OF demo_trust_laws run(2)] run
    by (simp add: demo_client_def)
qed

text \<open>C28. A connection uses exactly the pin that was imported: after a successful import, loading the pin of that address
  and server name gives the imported fingerprint.\<close>
theorem imported_pin_loads:
  assumes "trust_laws E" "length f = 32" "ts_stat_faults s = []" "import_trust E a n f s = (Inr (), t)" "ts_faults t = []"
  shows "load_trusted_server_pin E a n t = (Inr f, t)"
proof -
  obtain database r where saved: "private_root t" "private_database E database t"
    "List.find (is_server a n) database = Some r" "tv_certificate_sha256 r = te_hex_encode E f"
    using import_saved [OF assms(1,3,4)] by blast
  then show ?thesis
    using load_private [OF saved(1,2) assms(5) saved(3)] assms(1,2) by (simp add: decode_pin_def trust_laws_def)
qed

theorem imported_pin_loads_witness:
  "import_trust demo_trust demo_address [97] (replicate 32 7) (demo_client None []) = (Inr (), demo_client (demo_stored 1) []) \<and>
   load_trusted_server_pin demo_trust demo_address [97] (demo_client (demo_stored 1) []) = (Inr (replicate 32 7), demo_client (demo_stored 1) [])"
  using imported_pin_loads [OF demo_trust_laws _ _ demo_import(1)] demo_import(1) by (simp add: demo_client_def)

text \<open>A failing existence check loses pins: when \<^verbatim>\<open>Path::exists\<close> meets an error and answers false, an import that then succeeds
  leaves the new pin as the only one, also when the database held others or another pin of the same server.\<close>
lemma blind_import_drops_pins:
  assumes "trust_laws E" "ts_stat_faults s = True # True # rest" "import_trust E a n f s = (Inr (), t)"
  shows "pins E t = [(a, n) \<mapsto> f]"
  using assms(1) pins_add [OF assms(1), of a n "[]" f]
  unfolding pins_def blind_import [OF assms] by (simp add: pins_of_def fun_eq_iff)

end
