(* ===== verification/Server_Data.thy ===== *)
theory Server_Data
  imports Server_Registry Byte_Ranges
begin

text \<open>
  \<^verbatim>\<open>crates/server-core\<close>, the contents of open files: reading, writing, copying and exchanging data, sizes and
  times, revisions, extended attributes and resource forks. The Linux build is modelled.

  \<^item> The host is the parameter \<open>host\<close>: one field per system call, with short reads and writes and errors.
    Its state is a type variable.
  \<^item> A descriptor is named by a number; the open file of a session's handle is the descriptor with the number of the handle.
  \<^item> SHA-256 and Base64 are parameters. An instant before 1970 has no duration.
\<close>

subsection \<open>The host\<close>

type_synonym descriptor = nat
type_synonym ('h, 'a) call = "'h \<Rightarrow> (io_error + 'a) \<times> 'h"
type_synonym ('h, 'a) hop = "('h, server_error, 'a) op"

text \<open>What \<^verbatim>\<open>std::fs::Metadata\<close> says of a file; times are seconds and nanoseconds.\<close>

record host_meta =
  hm_kind :: node_kind
  hm_dev :: u64
  hm_ino :: u64
  hm_len :: u64
  hm_atime :: "int \<times> int"
  hm_mtime :: "int \<times> int"
  hm_ctime :: "int \<times> int"
  hm_btime :: "(int \<times> int) option"
  hm_mode :: u32
  hm_nlink :: u64
  hm_rdev :: u64
  hm_blocks :: u64

text \<open>A side file of a resource fork is named by its node.\<close>

record 'h host =
  ho_metadata :: "descriptor \<Rightarrow> ('h, host_meta) call"
  ho_read_at :: "descriptor \<Rightarrow> u64 \<Rightarrow> nat \<Rightarrow> ('h, bytes) call"
  ho_write_at :: "descriptor \<Rightarrow> u64 \<Rightarrow> bytes \<Rightarrow> ('h, nat) call"
  ho_write_all :: "descriptor \<Rightarrow> bytes \<Rightarrow> ('h, unit) call"
  ho_set_len :: "descriptor \<Rightarrow> u64 \<Rightarrow> ('h, unit) call"
  ho_set_mode :: "descriptor \<Rightarrow> u32 \<Rightarrow> ('h, unit) call"
  ho_set_times :: "descriptor \<Rightarrow> u64 option \<Rightarrow> u64 option \<Rightarrow> ('h, unit) call"
  ho_sync :: "descriptor \<Rightarrow> bool \<Rightarrow> ('h, unit) call"
  ho_fallocate :: "descriptor \<Rightarrow> u64 \<Rightarrow> u64 \<Rightarrow> ('h, unit) call"
  ho_seek :: "descriptor \<Rightarrow> seek_whence \<Rightarrow> u64 \<Rightarrow> ('h, u64) call"
  ho_clone :: "descriptor \<Rightarrow> descriptor \<Rightarrow> ('h, unit) call"
  ho_copy_file_range :: "descriptor \<Rightarrow> u64 \<Rightarrow> descriptor \<Rightarrow> u64 \<Rightarrow> nat \<Rightarrow> ('h, nat) call"
  ho_getxattr :: "descriptor \<Rightarrow> bytes \<Rightarrow> nat \<Rightarrow> ('h, bytes) call"
  ho_setxattr :: "descriptor \<Rightarrow> bytes \<Rightarrow> bytes \<Rightarrow> ('h, unit) call"
  ho_removexattr :: "descriptor \<Rightarrow> bytes \<Rightarrow> ('h, unit) call"
  ho_listxattr :: "descriptor \<Rightarrow> nat \<Rightarrow> ('h, bytes) call"
  ho_unlink_temporary :: "('h, unit) call"

definition host_io :: "('h, 'a) call \<Rightarrow> ('h, 'a) hop" where
  "host_io a w = (let (r, w') = a w in (map_err server_error_from_io r, w'))"

definition ERANGE :: errno where "ERANGE = EOTHER 34"

text \<open>\<^verbatim>\<open>std::io::ErrorKind::WriteZero\<close>.\<close>

definition write_zero :: io_error where
  "write_zero = \<lparr>io_errno = None, io_kind_of = IoOther, io_message = ''file write returned zero bytes''\<rparr>"

subsection \<open>Metadata\<close>

definition identity_of :: "host_meta \<Rightarrow> file_identity" where
  "identity_of m = \<lparr>fi_device = hm_dev m, fi_inode = hm_ino m\<rparr>"

definition i64_le_bytes :: "int \<Rightarrow> bytes" where
  "i64_le_bytes x = le_bytes8 (nat (x mod 2 ^ 64))"

definition le_bytes4 :: "u32 \<Rightarrow> bytes" where
  "le_bytes4 n = map (\<lambda>k. n div 256 ^ k mod 256) [0..<4]"

definition u64_from_le :: "bytes \<Rightarrow> u64" where
  "u64_from_le bs = foldr (\<lambda>b n. b + 256 * n) bs 0"

definition revision :: "(bytes \<Rightarrow> bytes) \<Rightarrow> host_meta \<Rightarrow> u64" where
  "revision sha m = u64_from_le (take 8 (sha (le_bytes8 (hm_dev m) @ le_bytes8 (hm_ino m) @ le_bytes8 (hm_len m)
     @ i64_le_bytes (fst (hm_mtime m)) @ i64_le_bytes (snd (hm_mtime m))
     @ i64_le_bytes (fst (hm_ctime m)) @ i64_le_bytes (snd (hm_ctime m))
     @ le_bytes4 (hm_mode m) @ le_bytes8 (hm_nlink m) @ le_bytes8 (hm_rdev m))))"

definition unix_timestamp_millis :: "int \<Rightarrow> int \<Rightarrow> u64 option" where
  "unix_timestamp_millis seconds nanoseconds =
     (if seconds < 0 \<or> nanoseconds < 0 \<or> nanoseconds \<ge> 1000000000 then None
      else if seconds > int U64_MAX then None
      else Some (saturating_add (min (nat seconds * 1000) U64_MAX) (nat (nanoseconds div 1000000))))"

definition system_time_millis :: "int \<times> int \<Rightarrow> u64 option" where
  "system_time_millis time = (case time of (seconds, nanoseconds) \<Rightarrow>
     if seconds < 0 then None else Some (min (nat (seconds * 1000 + nanoseconds div 1000000)) U64_MAX))"

definition dev_major :: "u64 \<Rightarrow> u32" where
  "dev_major d = d div 2 ^ 8 mod 2 ^ 12 + d div 2 ^ 44 mod 2 ^ 20 * 2 ^ 12"

definition dev_minor :: "u64 \<Rightarrow> u32" where
  "dev_minor d = d mod 2 ^ 8 + d div 2 ^ 20 mod 2 ^ 24 * 2 ^ 8"

definition to_metadata :: "(bytes \<Rightarrow> bytes) \<Rightarrow> node_id \<Rightarrow> host_meta \<Rightarrow> metadata" where
  "to_metadata sha node m = \<lparr>md_node = node, md_kind = hm_kind m, md_size = hm_len m, md_mode = hm_mode m mod 4096,
     md_allocated_blocks = hm_blocks m, md_revision = revision sha m,
     md_accessed_unix_ms = (case system_time_millis (hm_atime m) of Some t \<Rightarrow> t | None \<Rightarrow> 0),
     md_modified_unix_ms = (case system_time_millis (hm_mtime m) of Some t \<Rightarrow> t | None \<Rightarrow> 0),
     md_created_unix_ms = Option.bind (hm_btime m) system_time_millis, md_backup_unix_ms = None,
     md_link_count = min (hm_nlink m) U32_MAX, md_device_major = dev_major (hm_rdev m), md_device_minor = dev_minor (hm_rdev m)\<rparr>"

subsection \<open>Reading and writing\<close>

text \<open>The loop of \<^verbatim>\<open>read_consistent\<close>: up to \<open>n\<close> bytes, fewer when the file ends.\<close>

function read_fill :: "'h host \<Rightarrow> descriptor \<Rightarrow> u64 \<Rightarrow> nat \<Rightarrow> bytes \<Rightarrow> ('h, bytes) hop" where
  "read_fill H f offset n data w =
     (if n = 0 then (Inr data, w)
      else case host_io (ho_read_at H f offset n) w of
        (Inl e, w') \<Rightarrow> (Inl e, w')
      | (Inr d, w') \<Rightarrow> if d = [] then (Inr data, w')
          else read_fill H f (saturating_add offset (length d)) (n - length d) (data @ d) w')"
  by pat_completeness auto
termination by (relation "measure (\<lambda>(_, _, _, n, _). n)") auto

declare read_fill.simps [simp del]

definition read_consistent :: "(bytes \<Rightarrow> bytes) \<Rightarrow> 'h host \<Rightarrow> descriptor \<Rightarrow> u64 \<Rightarrow> u64 \<Rightarrow> ('h, u64 \<times> bytes) hop" where
  "read_consistent sha H f offset len = mbind (host_io (ho_metadata H f)) (\<lambda>before.
     mbind (read_fill H f offset (min len (hm_len before - offset)) []) (\<lambda>data.
     mbind (host_io (ho_metadata H f)) (\<lambda>after.
       if revision sha before \<noteq> revision sha after then mfail SConflict
       else mret (revision sha after, data))))"

function write_at_loop :: "'h host \<Rightarrow> descriptor \<Rightarrow> u64 \<Rightarrow> bytes \<Rightarrow> ('h, unit) hop" where
  "write_at_loop H f offset data w =
     (if data = [] then (Inr (), w)
      else case host_io (ho_write_at H f offset data) w of
        (Inl e, w') \<Rightarrow> (Inl e, w')
      | (Inr written, w') \<Rightarrow> if written = 0 then (Inl (server_error_from_io write_zero), w')
          else write_at_loop H f (saturating_add offset written) (drop written data) w')"
  by pat_completeness auto
termination by (relation "measure (\<lambda>(_, _, _, data, _). length data)") auto

declare write_at_loop.simps [simp del]

definition write_all_at :: "'h host \<Rightarrow> descriptor \<Rightarrow> u64 \<Rightarrow> bytes \<Rightarrow> bool \<Rightarrow> ('h, unit) hop" where
  "write_all_at H f offset data appending =
     (if appending then host_io (ho_write_all H f data) else write_at_loop H f offset data)"

function read_all_at :: "'h host \<Rightarrow> descriptor \<Rightarrow> u64 \<Rightarrow> nat \<Rightarrow> bytes \<Rightarrow> ('h, bytes) hop" where
  "read_all_at H f offset n data w =
     (if n = 0 then (Inr data, w)
      else case host_io (ho_read_at H f offset n) w of
        (Inl e, w') \<Rightarrow> (Inl e, w')
      | (Inr d, w') \<Rightarrow> if d = [] then (Inl SConflict, w')
          else read_all_at H f (offset + length d) (n - length d) (data @ d) w')"
  by pat_completeness auto
termination by (relation "measure (\<lambda>(_, _, _, n, _). n)") auto

declare read_all_at.simps [simp del]

subsection \<open>Copying\<close>

definition COPY_CHUNK :: nat where "COPY_CHUNK = 1024 * 1024"

function copy_range_buffered :: "'h host \<Rightarrow> descriptor \<Rightarrow> u64 \<Rightarrow> descriptor \<Rightarrow> u64 \<Rightarrow> u64 \<Rightarrow> ('h, unit) hop" where
  "copy_range_buffered H input input_offset output output_offset len w =
     (if len = 0 then (Inr (), w)
      else let amount = min len COPY_CHUNK in
        case mbind (read_all_at H input input_offset amount []) (\<lambda>buffer. write_all_at H output output_offset buffer False) w of
          (Inl e, w') \<Rightarrow> (Inl e, w')
        | (Inr _, w') \<Rightarrow> copy_range_buffered H input (input_offset + amount) output (output_offset + amount) (len - amount) w')"
  by pat_completeness auto
termination by (relation "measure (\<lambda>(_, _, _, _, _, len, _). len)") (auto simp: COPY_CHUNK_def)

declare copy_range_buffered.simps [simp del]

text \<open>The backward loop of \<^verbatim>\<open>copy_range_buffered_overlap\<close>.\<close>

function copy_backward :: "'h host \<Rightarrow> descriptor \<Rightarrow> u64 \<Rightarrow> descriptor \<Rightarrow> u64 \<Rightarrow> u64 \<Rightarrow> ('h, unit) hop" where
  "copy_backward H input input_offset output output_offset remaining w =
     (if remaining = 0 then (Inr (), w)
      else let amount = min remaining COPY_CHUNK in
        case mbind (read_all_at H input (input_offset + remaining - amount) amount [])
            (\<lambda>buffer. write_all_at H output (output_offset + remaining - amount) buffer False) w of
          (Inl e, w') \<Rightarrow> (Inl e, w')
        | (Inr _, w') \<Rightarrow> copy_backward H input input_offset output output_offset (remaining - amount) w')"
  by pat_completeness auto
termination by (relation "measure (\<lambda>(_, _, _, _, _, remaining, _). remaining)") (auto simp: COPY_CHUNK_def)

declare copy_backward.simps [simp del]

definition copy_range_buffered_overlap :: "'h host \<Rightarrow> descriptor \<Rightarrow> u64 \<Rightarrow> descriptor \<Rightarrow> u64 \<Rightarrow> u64 \<Rightarrow> ('h, unit) hop" where
  "copy_range_buffered_overlap H input input_offset output output_offset len =
     (if output_offset \<le> input_offset then copy_range_buffered H input input_offset output output_offset len
      else copy_backward H input input_offset output output_offset len)"

definition copy_unsupported :: "io_error \<Rightarrow> bool" where
  "copy_unsupported e \<longleftrightarrow> io_errno e \<in> {Some (EOTHER 18), Some (EOTHER 22), Some (EOTHER 38), Some ENOTSUP}"

text \<open>
  The loop over \<^verbatim>\<open>copy_file_range\<close>: the number of bytes copied and the advanced offsets. The kernel never copies
  more than it is asked for, so the sum does not reach the bound at which the code saturates it.
\<close>

function copy_kernel :: "'h host \<Rightarrow> descriptor \<Rightarrow> u64 \<Rightarrow> descriptor \<Rightarrow> u64 \<Rightarrow> u64 \<Rightarrow> u64 \<Rightarrow> ('h, u64 \<times> u64 \<times> u64) hop" where
  "copy_kernel H input source output destination copied amount w =
     (if copied < amount
      then case ho_copy_file_range H input source output destination (amount - copied) w of
        (Inr written, w') \<Rightarrow>
          if written = 0 then (Inr (copied, source, destination), w')
          else copy_kernel H input (source + written) output (destination + written) (copied + written) amount w'
      | (Inl e, w') \<Rightarrow> if copy_unsupported e then (Inr (copied, source, destination), w') else (Inl (server_error_from_io e), w')
      else (Inr (copied, source, destination), w))"
  by pat_completeness auto
termination
  by (relation "measure (\<lambda>(_, _, _, _, _, copied, amount, _). amount - copied)") auto

declare copy_kernel.simps [simp del]

text \<open>The attempt to share the blocks of a whole file with an empty one.\<close>

definition clone_whole :: "'h host \<Rightarrow> descriptor \<Rightarrow> u64 \<Rightarrow> descriptor \<Rightarrow> u64 \<Rightarrow> u64 \<Rightarrow> ('h, bool) hop" where
  "clone_whole H input input_offset output output_offset amount =
     (if input_offset = 0 \<and> output_offset = 0
      then mbind (host_io (ho_metadata H input)) (\<lambda>mi. if amount \<noteq> hm_len mi then mret False
        else mbind (host_io (ho_metadata H output)) (\<lambda>mo. if hm_len mo \<noteq> 0 then mret False
        else (\<lambda>w. case ho_clone H output input w of (Inr _, w') \<Rightarrow> (Inr True, w') | (Inl _, w') \<Rightarrow> (Inr False, w'))))
      else mret False)"

definition copy_range_server :: "'h host \<Rightarrow> descriptor \<Rightarrow> u64 \<Rightarrow> descriptor \<Rightarrow> u64 \<Rightarrow> u64 \<Rightarrow> ('h, u64) hop" where
  "copy_range_server H input input_offset output output_offset len =
     mbind (host_io (ho_metadata H input)) (\<lambda>m.
     let amount = min len (hm_len m - input_offset) in
     if amount = 0 then mret 0
     else mbind (clone_whole H input input_offset output output_offset amount) (\<lambda>cloned.
     if cloned then mret amount
     else mbind (host_io (ho_metadata H input)) (\<lambda>mi. mbind (host_io (ho_metadata H output)) (\<lambda>mo.
     if identity_of mi = identity_of mo \<and> input_offset < saturating_add output_offset amount \<and>
        output_offset < saturating_add input_offset amount
     then mbind (copy_range_buffered_overlap H input input_offset output output_offset amount) (\<lambda>_. mret amount)
     else mbind (copy_kernel H input input_offset output output_offset 0 amount) (\<lambda>(copied, source, destination).
       if copied = amount then mret copied
       else mbind (copy_range_buffered H input source output destination (amount - copied)) (\<lambda>_. mret amount))))))"

definition EXCHANGE_CHUNK :: u64 where "EXCHANGE_CHUNK = 8 * 1024 * 1024"

text \<open>\<^verbatim>\<open>copy_range_server\<close> never reports more than it was asked for; the length left is the measure.\<close>

function copy_range_in_chunks :: "'h host \<Rightarrow> descriptor \<Rightarrow> descriptor \<Rightarrow> u64 \<Rightarrow> u64 \<Rightarrow> ('h, unit) hop" where
  "copy_range_in_chunks H input output offset len w =
     (if len = 0 then (Inr (), w)
      else case copy_range_server H input offset output offset (min len EXCHANGE_CHUNK) w of
        (Inl e, w') \<Rightarrow> (Inl e, w')
      | (Inr copied, w') \<Rightarrow> if copied = 0 then (Inl SConflict, w')
          else copy_range_in_chunks H input output (offset + copied) (len - copied) w')"
  by pat_completeness auto
termination by (relation "measure (\<lambda>(_, _, _, _, len, _). len)") auto

declare copy_range_in_chunks.simps [simp del]

subsection \<open>Extended attributes of a descriptor\<close>

definition MAX_XATTR_SIZE :: usize where "MAX_XATTR_SIZE = 64 * 1024 * 1024"

definition BACKUP_TIME_XATTR :: bytes where
  "BACKUP_TIME_XATTR = map of_char ''user.quickfs.backup-time''"

definition MAC_XATTR_PREFIX :: bytes where
  "MAC_XATTR_PREFIX = map of_char ''user.quickfs.mac.''"

definition RESOURCE_FORK :: name where
  "RESOURCE_FORK = map of_char ''com.apple.ResourceFork''"

definition is_resource_fork :: "name \<Rightarrow> bool" where
  "is_resource_fork x \<longleftrightarrow> x = RESOURCE_FORK"

definition starts_with :: "bytes \<Rightarrow> bytes \<Rightarrow> bool" where
  "starts_with prefix bs \<longleftrightarrow> take (length prefix) bs = prefix"

text \<open>\<open>enc\<close> and \<open>dec\<close> are the URL-safe Base64 without padding.\<close>

definition logical_xattr_name :: "(bytes \<Rightarrow> bytes) \<Rightarrow> name \<Rightarrow> server_error + bytes" where
  "logical_xattr_name enc x = ebind (validate_xattr_name x) (\<lambda>_.
     if starts_with (map of_char ''user.'') x \<and> \<not> starts_with (map of_char ''user.quickfs.'') x then Inr x
     else let encoded = MAC_XATTR_PREFIX @ enc x in
       if length encoded > 255
       then Inl (SInvalidRequest ''extended-attribute name is too large for the server filesystem'')
       else Inr encoded)"

definition host_xattr_name :: "(bytes \<Rightarrow> bytes option) \<Rightarrow> bytes \<Rightarrow> name option" where
  "host_xattr_name dec x =
     (if x = BACKUP_TIME_XATTR then None
      else if starts_with MAC_XATTR_PREFIX x then dec (drop (length MAC_XATTR_PREFIX) x)
      else if starts_with (map of_char ''user.'') x then Some x else None)"

text \<open>The buffer grows while the value does not fit.\<close>

function fetch_xattr :: "(nat \<Rightarrow> ('h, bytes) call) \<Rightarrow> nat \<Rightarrow> nat \<Rightarrow> ('h, bytes) hop" where
  "fetch_xattr get maximum capacity w = (case get capacity w of
     (Inr v, w') \<Rightarrow> (Inr v, w')
   | (Inl e, w') \<Rightarrow>
       if io_errno e = Some ERANGE \<and> 0 < capacity \<and> capacity < maximum then fetch_xattr get maximum (min (2 * capacity) maximum) w'
       else (Inl (server_error_from_io e), w'))"
  by pat_completeness auto
termination by (relation "measure (\<lambda>(_, maximum, capacity, _). maximum - capacity)") auto

declare fetch_xattr.simps [simp del]

definition read_fd_xattr :: "'h host \<Rightarrow> descriptor \<Rightarrow> bytes \<Rightarrow> nat \<Rightarrow> ('h, bytes) hop" where
  "read_fd_xattr H f x maximum = fetch_xattr (ho_getxattr H f x) maximum (min 256 (max maximum 1))"

fun split_zero :: "bytes \<Rightarrow> bytes \<Rightarrow> bytes list" where
  "split_zero acc [] = [acc]"
| "split_zero acc (b # bs) = (if b = 0 then acc # split_zero [] bs else split_zero (acc @ [b]) bs)"

definition list_fd_xattrs :: "(bytes \<Rightarrow> bytes option) \<Rightarrow> 'h host \<Rightarrow> descriptor \<Rightarrow> ('h, name list) hop" where
  "list_fd_xattrs dec H f = mbind (fetch_xattr (ho_listxattr H f) MAX_FRAME_SIZE 1024) (\<lambda>bs.
     mret (remdups_adj (sort (List.map_filter (host_xattr_name dec) (filter (\<lambda>x. x \<noteq> []) (split_zero [] bs))))))"

definition replace_optional_xattr :: "'h host \<Rightarrow> descriptor \<Rightarrow> bytes \<Rightarrow> bytes option \<Rightarrow> ('h, unit) hop" where
  "replace_optional_xattr H f x v = (case v of
     Some v \<Rightarrow> host_io (ho_setxattr H f x v)
   | None \<Rightarrow> (\<lambda>w. case host_io (ho_removexattr H f x) w of
       (Inl e, w') \<Rightarrow> if e = SNoAttribute then (Inr (), w') else (Inl e, w')
     | (Inr _, w') \<Rightarrow> (Inr (), w')))"

definition optional_attribute :: "('h, bytes) hop \<Rightarrow> ('h, bytes option) hop" where
  "optional_attribute m w = (case m w of
     (Inr v, w') \<Rightarrow> (Inr (Some v), w')
   | (Inl e, w') \<Rightarrow> if e = SNoAttribute then (Inr None, w') else (Inl e, w'))"

definition write_backup_time :: "'h host \<Rightarrow> descriptor \<Rightarrow> u64 option \<Rightarrow> ('h, unit) hop" where
  "write_backup_time H f v = (case v of
     Some v \<Rightarrow> host_io (ho_setxattr H f BACKUP_TIME_XATTR (le_bytes8 v)) | None \<Rightarrow> mret ())"

definition read_fd_backup_time :: "'h host \<Rightarrow> descriptor \<Rightarrow> ('h, u64 option) hop" where
  "read_fd_backup_time H f = mbind (optional_attribute (read_fd_xattr H f BACKUP_TIME_XATTR 8)) (\<lambda>v. case v of
     None \<Rightarrow> mret None
   | Some bs \<Rightarrow> if length bs = 8 then mret (Some (u64_from_le bs)) else mfail SStateUnavailable)"

subsection \<open>Exchanging two files\<close>

definition exchange_file_contents :: "(bytes \<Rightarrow> bytes) \<Rightarrow> 'h host \<Rightarrow> descriptor \<Rightarrow> descriptor \<Rightarrow> descriptor \<Rightarrow> ('h, unit) hop" where
  "exchange_file_contents enc H left right temporary =
     mbind (host_io (ho_metadata H left)) (\<lambda>ml. mbind (host_io (ho_metadata H right)) (\<lambda>mr.
     mbind (host_io (ho_set_len H temporary 0)) (\<lambda>_. mbind (copy_range_in_chunks H left temporary 0 (hm_len ml)) (\<lambda>_.
     mbind (host_io (ho_set_len H left 0)) (\<lambda>_. mbind (copy_range_in_chunks H right left 0 (hm_len mr)) (\<lambda>_.
     mbind (host_io (ho_set_len H right 0)) (\<lambda>_. mbind (copy_range_in_chunks H temporary right 0 (hm_len ml)) (\<lambda>_.
     mbind (mlift (logical_xattr_name enc RESOURCE_FORK)) (\<lambda>resource.
     mbind (optional_attribute (read_fd_xattr H left resource MAX_XATTR_SIZE)) (\<lambda>lv.
     mbind (optional_attribute (read_fd_xattr H right resource MAX_XATTR_SIZE)) (\<lambda>rv.
     mbind (replace_optional_xattr H left resource rv) (\<lambda>_. mbind (replace_optional_xattr H right resource lv) (\<lambda>_.
     mbind (host_io (ho_sync H left False)) (\<lambda>_. host_io (ho_sync H right False)))))))))))))))"

text \<open>
  The task of \<^verbatim>\<open>exchange_data\<close>: \<open>forks\<close> exchanges the side files. The temporary file is removed whatever happened.
\<close>

definition exchange_task :: "(bytes \<Rightarrow> bytes) \<Rightarrow> 'h host \<Rightarrow> ('h, unit) hop \<Rightarrow> descriptor \<Rightarrow> descriptor \<Rightarrow> descriptor \<Rightarrow> ('h, unit) hop" where
  "exchange_task enc H forks left right temporary w =
     (let (r, w1) = mbind (exchange_file_contents enc H left right temporary) (\<lambda>_. forks) w;
          (q, w2) = host_io (ho_unlink_temporary H) w1
      in (case r of Inl e \<Rightarrow> Inl e | Inr _ \<Rightarrow> q, w2))"

subsection \<open>Resource forks in side files\<close>

text \<open>
  The side file of a node, as the host sees it: missing, a regular file, or something else. \<open>so_open\<close> opens it (for
  writing, creating it) and gives its descriptor.
\<close>

record 'h side_host =
  so_kind :: "node_id \<Rightarrow> ('h, node_kind) call"
  so_open :: "node_id \<Rightarrow> bool \<Rightarrow> bool \<Rightarrow> ('h, descriptor) call"
  so_remove :: "node_id \<Rightarrow> ('h, unit) call"

definition open_resource_fork :: "'h side_host \<Rightarrow> 'h host \<Rightarrow> node_id \<Rightarrow> bool \<Rightarrow> bool \<Rightarrow> ('h, descriptor) hop" where
  "open_resource_fork S H node for_write creates = mbind (host_io (so_open S node for_write creates)) (\<lambda>f.
     mbind (host_io (ho_metadata H f)) (\<lambda>m. if hm_kind m \<noteq> KFile then mfail SStateUnavailable else mret f))"

definition read_resource_fork_range :: "'h side_host \<Rightarrow> 'h host \<Rightarrow> node_id \<Rightarrow> u64 \<Rightarrow> u64 \<Rightarrow> ('h, u64 \<times> bytes) hop" where
  "read_resource_fork_range S H node offset len w = (case open_resource_fork S H node False False w of
     (Inl e, w') \<Rightarrow> (Inl (if e = SNotFound then SNoAttribute else e), w')
   | (Inr f, w') \<Rightarrow> mbind (host_io (ho_metadata H f)) (\<lambda>m.
       mbind (read_all_at H f offset (min len (hm_len m - offset)) []) (\<lambda>data. mret (hm_len m, data))) w')"

definition side_exists :: "'h side_host \<Rightarrow> node_id \<Rightarrow> ('h, bool) hop" where
  "side_exists S node w = (case so_kind S node w of
     (Inr k, w') \<Rightarrow> if k = KFile then (Inr True, w') else (Inl SStateUnavailable, w')
   | (Inl e, w') \<Rightarrow> if io_kind_of e = IoNotFound then (Inr False, w') else (Inl (server_error_from_io e), w'))"

definition write_resource_fork :: "'h side_host \<Rightarrow> 'h host \<Rightarrow> node_id \<Rightarrow> bytes \<Rightarrow> xattr_set_mode \<Rightarrow> u32 \<Rightarrow> ('h, unit) hop" where
  "write_resource_fork S H node v mode position = mbind (side_exists S node) (\<lambda>present.
     if mode = XCreate \<and> present then mfail SAlreadyExists
     else if mode = XReplace \<and> \<not> present then mfail SNoAttribute
     else if position + length v > MAX_XATTR_SIZE then mfail (SInvalidRequest ''resource fork is too large'')
     else mbind (open_resource_fork S H node True (\<not> present)) (\<lambda>f.
       mbind (if position = 0 then host_io (ho_set_len H f 0) else mret ()) (\<lambda>_.
       write_all_at H f position v False)))"

definition remove_resource_fork :: "'h side_host \<Rightarrow> node_id \<Rightarrow> ('h, unit) hop" where
  "remove_resource_fork S node w = (case so_kind S node w of
     (Inr k, w') \<Rightarrow> if k = KFile then host_io (so_remove S node) w' else (Inl SStateUnavailable, w')
   | (Inl e, w') \<Rightarrow> if io_kind_of e = IoNotFound then (Inl SNoAttribute, w') else (Inl (server_error_from_io e), w'))"

definition optional_resource_fork :: "'h side_host \<Rightarrow> 'h host \<Rightarrow> node_id \<Rightarrow> ('h, bytes option) hop" where
  "optional_resource_fork S H node = optional_attribute (mbind (read_resource_fork_range S H node 0 MAX_XATTR_SIZE) (\<lambda>(_, v). mret v))"

definition replace_resource_fork :: "'h side_host \<Rightarrow> 'h host \<Rightarrow> node_id \<Rightarrow> bytes option \<Rightarrow> ('h, unit) hop" where
  "replace_resource_fork S H node v = (case v of
     Some v \<Rightarrow> write_resource_fork S H node v XUpsert 0
   | None \<Rightarrow> (\<lambda>w. case remove_resource_fork S node w of
       (Inl e, w') \<Rightarrow> if e = SNoAttribute then (Inr (), w') else (Inl e, w')
     | (Inr _, w') \<Rightarrow> (Inr (), w')))"

definition exchange_resource_forks :: "'h side_host \<Rightarrow> 'h host \<Rightarrow> node_id \<Rightarrow> node_id \<Rightarrow> ('h, unit) hop" where
  "exchange_resource_forks S H left right = mbind (optional_resource_fork S H left) (\<lambda>lv.
     mbind (optional_resource_fork S H right) (\<lambda>rv. mbind (replace_resource_fork S H left rv) (\<lambda>_ w.
       case replace_resource_fork S H right lv w of
         (Inr _, w') \<Rightarrow> (Inr (), w')
       | (Inl e, w') \<Rightarrow> (Inl e, snd (replace_resource_fork S H left lv w')))))"

text \<open>A value of an attribute of the host with a part replaced: the closure of \<^verbatim>\<open>set_xattr\<close>.\<close>

definition merge_xattr :: "bytes option \<Rightarrow> bytes \<Rightarrow> u32 \<Rightarrow> server_error + bytes" where
  "merge_xattr existing v position =
     (if position = 0 then Inr v
      else if position + length v > MAX_XATTR_SIZE then Inl (SInvalidRequest ''extended attribute is too large'')
      else let merged = (case existing of Some e \<Rightarrow> e | None \<Rightarrow> []);
               resized = (if length merged < position + length v then merged @ replicate (position + length v - length merged) 0 else merged)
        in Inr (take position resized @ v @ drop (position + length v) resized))"

definition set_fd_xattr :: "'h host \<Rightarrow> descriptor \<Rightarrow> bytes \<Rightarrow> bytes \<Rightarrow> xattr_set_mode \<Rightarrow> u32 \<Rightarrow> ('h, unit) hop" where
  "set_fd_xattr H f host_name v mode position = mbind (optional_attribute (read_fd_xattr H f host_name MAX_XATTR_SIZE)) (\<lambda>existing.
     if mode = XCreate \<and> existing \<noteq> None then mfail SAlreadyExists
     else if mode = XReplace \<and> existing = None then mfail SNoAttribute
     else mbind (mlift (merge_xattr existing v position)) (\<lambda>merged. host_io (ho_setxattr H f host_name merged)))"

definition get_fd_xattr :: "'h host \<Rightarrow> descriptor \<Rightarrow> bytes \<Rightarrow> u64 \<Rightarrow> u64 \<Rightarrow> ('h, u64 \<times> bytes) hop" where
  "get_fd_xattr H f host_name offset len = mbind (read_fd_xattr H f host_name MAX_XATTR_SIZE) (\<lambda>v.
     let total_size = length v; start = min offset total_size; stop = min (saturating_add offset len) total_size in
     mret (total_size, take (stop - start) (drop start v)))"

subsection \<open>Operations of a session on its handles\<close>

type_synonym ('h, 'a) data_op = "(srv \<times> 'h, server_error, 'a) op"

definition on_session :: "'a sop \<Rightarrow> ('h, 'a) data_op" where
  "on_session m s = (let (r, t) = m (fst s) in (r, (t, snd s)))"

definition on_host :: "('h, 'a) hop \<Rightarrow> ('h, 'a) data_op" where
  "on_host m s = (let (r, w) = m (snd s) in (r, (fst s, w)))"

definition checked_range :: "u64 \<Rightarrow> u64 \<Rightarrow> (limits \<Rightarrow> u64) \<Rightarrow> ('h, unit) data_op" where
  "checked_range offset len maximum s =
     (map_err (\<lambda>_. SInvalidRequest ''invalid byte range'') (validate_range offset len (maximum (sh_limits (sh (fst s))))), s)"

definition session_read :: "(bytes \<Rightarrow> bytes) \<Rightarrow> 'h host \<Rightarrow> file_handle \<Rightarrow> u64 \<Rightarrow> u64 \<Rightarrow> ('h, u64 \<times> bytes) data_op" where
  "session_read sha H h offset len = mbind (checked_range offset len max_read_size) (\<lambda>_.
     mbind (on_session (open_handle h)) (\<lambda>opened.
     if \<not> can_read (of_access opened) then mfail SPermissionDenied
     else on_host (read_consistent sha H h offset len)))"

definition write_owned :: "(bytes \<Rightarrow> bytes) \<Rightarrow> 'h host \<Rightarrow> file_handle \<Rightarrow> u64 \<Rightarrow> bytes \<Rightarrow> ('h, u64 \<times> u64 \<times> u64) data_op" where
  "write_owned sha H h offset data = mbind (on_session require_writable) (\<lambda>_.
     mbind (checked_range offset (length data) max_write_size) (\<lambda>_. mbind (on_session (open_handle h)) (\<lambda>opened.
     if \<not> can_write (of_access opened) then mfail SPermissionDenied
     else on_host (mbind (write_all_at H h offset data (of_append opened)) (\<lambda>_.
       mbind (host_io (ho_metadata H h)) (\<lambda>m. mret (length data, revision sha m, hm_len m)))))))"

definition session_sync :: "'h host \<Rightarrow> file_handle \<Rightarrow> bool \<Rightarrow> ('h, unit) data_op" where
  "session_sync H h data_only = mbind (on_session (open_handle h)) (\<lambda>_. on_host (host_io (ho_sync H h data_only)))"

definition session_allocate :: "(bytes \<Rightarrow> bytes) \<Rightarrow> 'h host \<Rightarrow> file_handle \<Rightarrow> u64 \<Rightarrow> u64 \<Rightarrow> ('h, u64 \<times> u64) data_op" where
  "session_allocate sha H h offset len = mbind (on_session require_writable) (\<lambda>_.
     if len = 0 \<or> checked_add offset len = None then mfail (SInvalidRequest ''invalid allocation range'')
     else mbind (on_session (open_handle h)) (\<lambda>opened.
     if \<not> can_write (of_access opened) then mfail SPermissionDenied
     else on_host (mbind (host_io (ho_fallocate H h offset len)) (\<lambda>_.
       mbind (host_io (ho_metadata H h)) (\<lambda>m. mret (revision sha m, hm_len m))))))"

definition session_copy_file_range :: "(bytes \<Rightarrow> bytes) \<Rightarrow> 'h host \<Rightarrow> file_handle \<Rightarrow> u64 \<Rightarrow> file_handle \<Rightarrow> u64 \<Rightarrow> u64
    \<Rightarrow> ('h, u64 \<times> u64 \<times> u64) data_op" where
  "session_copy_file_range sha H input input_offset output output_offset len = mbind (on_session require_writable) (\<lambda>_.
     if checked_add input_offset len = None \<or> checked_add output_offset len = None
     then mfail (SInvalidRequest ''copy range overflows the file-offset space'')
     else mbind (on_session (open_handle input)) (\<lambda>i. mbind (on_session (open_handle output)) (\<lambda>out.
     if \<not> can_read (of_access i) \<or> \<not> can_write (of_access out) then mfail SPermissionDenied
     else on_host (mbind (copy_range_server H input input_offset output output_offset len) (\<lambda>copied.
       mbind (host_io (ho_metadata H output)) (\<lambda>m. mret (copied, revision sha m, hm_len m)))))))"

definition session_seek :: "'h host \<Rightarrow> file_handle \<Rightarrow> u64 \<Rightarrow> seek_whence \<Rightarrow> ('h, u64) data_op" where
  "session_seek H h offset whence = mbind (on_session (open_handle h)) (\<lambda>opened.
     if \<not> can_read (of_access opened) then mfail SPermissionDenied
     else on_host (host_io (ho_seek H h whence offset)))"

definition session_ioctl :: "'h host \<Rightarrow> file_handle \<Rightarrow> safe_ioctl \<Rightarrow> ('h, u64) data_op" where
  "session_ioctl H h operation = mbind (on_session (open_handle h)) (\<lambda>opened. case operation of
     BytesAvailable \<Rightarrow>
       if \<not> can_read (of_access opened) then mfail SPermissionDenied
       else on_host (mbind (host_io (ho_metadata H h)) (\<lambda>m. mret (hm_len m))))"

text \<open>\<^verbatim>\<open>SystemTime\<close> holds every \<^verbatim>\<open>u64\<close> of milliseconds on the modelled platform.\<close>

definition apply_file_changes :: "'h host \<Rightarrow> descriptor \<Rightarrow> attribute_changes \<Rightarrow> ('h, host_meta) hop" where
  "apply_file_changes H f changes =
     mbind (case ac_size changes of Some z \<Rightarrow> host_io (ho_set_len H f z) | None \<Rightarrow> mret ()) (\<lambda>_.
     mbind (case ac_mode changes of Some m \<Rightarrow> host_io (ho_set_mode H f (m mod 4096)) | None \<Rightarrow> mret ()) (\<lambda>_.
     mbind (if ac_accessed_unix_ms changes \<noteq> None \<or> ac_modified_unix_ms changes \<noteq> None
       then host_io (ho_set_times H f (ac_accessed_unix_ms changes) (ac_modified_unix_ms changes)) else mret ()) (\<lambda>_.
     host_io (ho_metadata H f))))"

text \<open>\<^verbatim>\<open>set_attributes\<close> with a handle and at least one change.\<close>

definition set_handle_attributes :: "(bytes \<Rightarrow> bytes) \<Rightarrow> 'h host \<Rightarrow> node_id \<Rightarrow> file_handle \<Rightarrow> attribute_changes \<Rightarrow> ('h, metadata) data_op" where
  "set_handle_attributes sha H node h changes = mbind (on_session require_writable) (\<lambda>_.
     mbind (on_session (open_handle h)) (\<lambda>opened.
     if of_node opened \<noteq> node then mfail (SInvalidRequest ''attribute handle does not belong to the node'')
     else if ac_size changes \<noteq> None \<and> \<not> can_write (of_access opened) then mfail SPermissionDenied
     else on_host (mbind (apply_file_changes H h changes) (\<lambda>m.
       mbind (write_backup_time H h (ac_backup_unix_ms changes)) (\<lambda>_.
       case ac_backup_unix_ms changes of
         Some t \<Rightarrow> mret ((to_metadata sha node m)\<lparr>md_backup_unix_ms := Some t\<rparr>)
       | None \<Rightarrow> (\<lambda>w. case read_fd_backup_time H h w of
           (Inr t, w') \<Rightarrow> (Inr ((to_metadata sha node m)\<lparr>md_backup_unix_ms := t\<rparr>), w')
         | (Inl _, w') \<Rightarrow> (Inr (to_metadata sha node m), w')))))))"

end
