(* ===== verification/Server_Data_Props.thy ===== *)
theory Server_Data_Props
  imports Server_Data Triples
begin

text \<open>
  The data path of the server on a host that keeps the contents of files: copying moves bytes as if the source were read
  before anything is written, and an exchange swaps two files.
\<close>

subsection \<open>What the host promises\<close>

text \<open>
  \<open>content w i\<close> are the bytes of the file with identity \<open>i\<close> and \<open>ident f\<close> is the file behind a descriptor. Reads and
  writes may be short; a read is empty only at the end of the file; a call that fails changes no contents; nobody else writes.
\<close>

definition posix_files :: "('h \<Rightarrow> file_identity \<Rightarrow> bytes) \<Rightarrow> (descriptor \<Rightarrow> file_identity) \<Rightarrow> 'h host \<Rightarrow> bool" where
  "posix_files content ident H \<longleftrightarrow>
     (\<forall>f w r w'. ho_metadata H f w = (r, w') \<longrightarrow> content w' = content w \<and>
        (\<forall>m. r = Inr m \<longrightarrow> hm_len m = length (content w (ident f)) \<and> identity_of m = ident f)) \<and>
     (\<forall>f off n w r w'. ho_read_at H f off n w = (r, w') \<longrightarrow> content w' = content w \<and>
        (\<forall>d. r = Inr d \<longrightarrow> length d \<le> n \<and> d = bytes_at (content w (ident f)) off (length d) \<and>
          (d = [] \<longrightarrow> n = 0 \<or> length (content w (ident f)) \<le> off))) \<and>
     (\<forall>f off d w r w'. ho_write_at H f off d w = (r, w') \<longrightarrow>
        (case r of Inl _ \<Rightarrow> content w' = content w
         | Inr k \<Rightarrow> k \<le> length d \<and> content w' = (content w)(ident f := overwrite (content w (ident f)) off (take k d)))) \<and>
     (\<forall>i soff out doff n w r w'. ho_copy_file_range H i soff out doff n w = (r, w') \<longrightarrow>
        (case r of Inl _ \<Rightarrow> content w' = content w
         | Inr k \<Rightarrow> k \<le> n \<and> soff + k \<le> max soff (length (content w (ident i))) \<and> content w' =
             (content w)(ident out := overwrite (content w (ident out)) doff (bytes_at (content w (ident i)) soff k)))) \<and>
     (\<forall>out i w r w'. ho_clone H out i w = (r, w') \<longrightarrow>
        (case r of Inl _ \<Rightarrow> content w' = content w | Inr _ \<Rightarrow> content w' = (content w)(ident out := content w (ident i)))) \<and>
     (\<forall>f n w r w'. ho_set_len H f n w = (r, w') \<longrightarrow>
        (case r of Inl _ \<Rightarrow> content w' = content w
         | Inr _ \<Rightarrow> content w' = (content w)(ident f := take n (content w (ident f)) @ replicate (n - length (content w (ident f))) 0)))"

lemma posix_filesD:
  assumes "posix_files content ident H"
  shows "ho_metadata H f w = (rm, w') \<Longrightarrow> content w' = content w \<and>
        (\<forall>m. rm = Inr m \<longrightarrow> hm_len m = length (content w (ident f)) \<and> identity_of m = ident f)"
    and "ho_read_at H f off n w = (rd, w') \<Longrightarrow> content w' = content w \<and>
        (\<forall>d. rd = Inr d \<longrightarrow> length d \<le> n \<and> d = bytes_at (content w (ident f)) off (length d) \<and>
          (d = [] \<longrightarrow> n = 0 \<or> length (content w (ident f)) \<le> off))"
    and "ho_write_at H f off d w = (rk, w') \<Longrightarrow>
        (case rk of Inl _ \<Rightarrow> content w' = content w
         | Inr k \<Rightarrow> k \<le> length d \<and> content w' = (content w)(ident f := overwrite (content w (ident f)) off (take k d)))"
    and "ho_copy_file_range H i soff out doff n w = (rk, w') \<Longrightarrow>
        (case rk of Inl _ \<Rightarrow> content w' = content w
         | Inr k \<Rightarrow> k \<le> n \<and> soff + k \<le> max soff (length (content w (ident i))) \<and> content w' =
             (content w)(ident out := overwrite (content w (ident out)) doff (bytes_at (content w (ident i)) soff k)))"
    and "ho_clone H out i w = (ru, w') \<Longrightarrow>
        (case ru of Inl _ \<Rightarrow> content w' = content w | Inr _ \<Rightarrow> content w' = (content w)(ident out := content w (ident i)))"
    and "ho_set_len H f n w = (ru, w') \<Longrightarrow>
        (case ru of Inl _ \<Rightarrow> content w' = content w
         | Inr _ \<Rightarrow> content w' = (content w)(ident f := take n (content w (ident f)) @ replicate (n - length (content w (ident f))) 0))"
proof -
  note laws = assms [unfolded posix_files_def]
  show "ho_metadata H f w = (rm, w') \<Longrightarrow> content w' = content w \<and>
        (\<forall>m. rm = Inr m \<longrightarrow> hm_len m = length (content w (ident f)) \<and> identity_of m = ident f)"
    by (rule laws [THEN conjunct1, rule_format])
  show "ho_read_at H f off n w = (rd, w') \<Longrightarrow> content w' = content w \<and>
        (\<forall>d. rd = Inr d \<longrightarrow> length d \<le> n \<and> d = bytes_at (content w (ident f)) off (length d) \<and>
          (d = [] \<longrightarrow> n = 0 \<or> length (content w (ident f)) \<le> off))"
    by (rule laws [THEN conjunct2, THEN conjunct1, rule_format])
qed (rule assms [unfolded posix_files_def, THEN conjunct2, THEN conjunct2, THEN conjunct1, rule_format], assumption,
    rule assms [unfolded posix_files_def, THEN conjunct2, THEN conjunct2, THEN conjunct2, THEN conjunct1, rule_format], assumption,
    rule assms [unfolded posix_files_def, THEN conjunct2, THEN conjunct2, THEN conjunct2, THEN conjunct2, THEN conjunct1, rule_format], assumption,
    rule assms [unfolded posix_files_def, THEN conjunct2, THEN conjunct2, THEN conjunct2, THEN conjunct2, THEN conjunct2, rule_format])

abbreviation files_are :: "('h \<Rightarrow> file_identity \<Rightarrow> bytes) \<Rightarrow> (file_identity \<Rightarrow> bytes) \<Rightarrow> 'h \<Rightarrow> bool" where
  "files_are content C w \<equiv> content w = C"

lemma metadata_triple:
  assumes "posix_files content ident H"
  shows "triple (files_are content C) (host_io (ho_metadata H f))
    (\<lambda>m w. hm_len m = length (C (ident f)) \<and> identity_of m = ident f \<and> files_are content C w) (\<lambda>_ _. True)"
proof (rule tripleI)
  fix w m w' assume "files_are content C w" "host_io (ho_metadata H f) w = (Inr m, w')"
  then show "hm_len m = length (C (ident f)) \<and> identity_of m = ident f \<and> files_are content C w'"
    using posix_filesD(1) [OF assms, of f w "fst (ho_metadata H f w)" "snd (ho_metadata H f w)"]
    by (auto simp: host_io_def map_err_def split: prod.splits sum.splits)
qed simp

lemma read_all_triple:
  assumes "posix_files content ident H"
  shows "triple (files_are content C) (read_all_at H f off n data)
    (\<lambda>d w. d = data @ bytes_at (C (ident f)) off n \<and> length (bytes_at (C (ident f)) off n) = n \<and> files_are content C w) (\<lambda>_ _. True)"
proof (rule tripleI)
  show "d = data @ bytes_at (C (ident f)) off n \<and> length (bytes_at (C (ident f)) off n) = n \<and> files_are content C w'"
    if "files_are content C w" "read_all_at H f off n data w = (Inr d, w')" for w d w'
    using that
  proof (induction n arbitrary: off data w rule: less_induct)
    case (less n)
    show ?case
    proof (cases "n = 0")
      case True
      then show ?thesis using less.prems by (simp add: read_all_at.simps [of _ _ _ 0] bytes_at_def)
    next
      case False
      obtain r u where call: "ho_read_at H f off n w = (r, u)" by (metis prod.exhaust)
      from less.prems(2) False call obtain x where x: "r = Inr x" "x \<noteq> []"
        and rest: "read_all_at H f (off + length x) (n - length x) (data @ x) u = (Inr d, w')"
        by (subst (asm) read_all_at.simps) (auto simp: host_io_def map_err_def split: sum.splits if_splits)
      have got: "content u = C" "length x \<le> n" "x = bytes_at (C (ident f)) off (length x)"
        using posix_filesD(2) [OF assms call] x(1) less.prems(1) by auto
      have "n - length x < n" using x(2) False by (cases x) auto
      from less.IH [OF this got(1) rest]
      have "d = data @ (x @ bytes_at (C (ident f)) (off + length x) (n - length x))"
        and len: "length (bytes_at (C (ident f)) (off + length x) (n - length x)) = n - length x" and "content w' = C" by simp_all
      moreover have joined: "x @ bytes_at (C (ident f)) (off + length x) (n - length x) = bytes_at (C (ident f)) off n"
        using bytes_at_append [of "C (ident f)" off "length x" n] got(2,3) by metis
      moreover have "length (bytes_at (C (ident f)) off n) = n"
        unfolding joined [symmetric] using len got(2) by simp
      ultimately show ?thesis by simp
    qed
  qed
qed simp

lemma write_all_triple:
  assumes "posix_files content ident H"
  shows "triple (\<lambda>w. files_are content C w \<and> off + length data \<le> U64_MAX) (write_all_at H f off data False)
    (\<lambda>_. files_are content (C(ident f := overwrite (C (ident f)) off data))) (\<lambda>_ _. True)"
proof (rule tripleI)
  show "files_are content (C(ident f := overwrite (C (ident f)) off data)) w'"
    if "files_are content C w \<and> off + length data \<le> U64_MAX" "write_all_at H f off data False w = (Inr x, w')" for w x w'
    using that unfolding write_all_at_def if_False
  proof (induction "length data" arbitrary: off data C w rule: less_induct)
    case less
    show ?case
    proof (cases "data = []")
      case True
      then show ?thesis using less.prems by (simp add: write_at_loop.simps [of _ _ _ "[]"])
    next
      case False
      obtain r u where call: "ho_write_at H f off data w = (r, u)" by (metis prod.exhaust)
      from less.prems(2) False call obtain k where k: "r = Inr k" "k \<noteq> 0"
        and rest: "write_at_loop H f (saturating_add off k) (drop k data) u = (Inr x, w')"
        by (subst (asm) write_at_loop.simps) (auto simp: host_io_def map_err_def split: sum.splits if_splits)
      have got: "k \<le> length data" "content u = C(ident f := overwrite (C (ident f)) off (take k data))"
        using posix_filesD(3) [OF assms call] k(1) less.prems(1) by auto
      have sat: "saturating_add off k = off + k" using got(1) less.prems(1) by (simp add: saturating_add_exact)
      have "length (drop k data) < length data" using False k(2) by simp
      from less.hyps [OF this _ rest [unfolded sat], of "C(ident f := overwrite (C (ident f)) off (take k data))"] got less.prems(1)
      have "content w' = C(ident f := overwrite (overwrite (C (ident f)) off (take k data)) (off + k) (drop k data))" by simp
      then show ?thesis using overwrite_append [of "C (ident f)" off "take k data" "drop k data"] got(1) by simp
    qed
  qed
qed simp

subsection \<open>Copying\<close>

text \<open>The contents after \<open>n\<close> bytes have been moved from one file to another, or within one.\<close>

definition moved :: "file_identity \<Rightarrow> u64 \<Rightarrow> file_identity \<Rightarrow> u64 \<Rightarrow> u64 \<Rightarrow> (file_identity \<Rightarrow> bytes) \<Rightarrow> file_identity \<Rightarrow> bytes" where
  "moved i soff out doff n C = C(out := overwrite (C out) doff (bytes_at (C i) soff n))"

lemma moved_0 [simp]: "moved i soff out doff 0 C = C"
  by (simp add: moved_def bytes_at_def)

lemma moved_length: "length (C j) \<le> length (moved i soff out doff n C j)"
  by (cases "bytes_at (C i) soff n = []") (simp_all add: moved_def length_overwrite)

text \<open>Two moves in sequence are one, when the second does not read what the first has written.\<close>

lemma moved_append:
  assumes "soff + n + m \<le> length (C i)" "i \<noteq> out \<or> doff \<le> soff \<or> soff + n + m \<le> doff"
  shows "moved i (soff + n) out (doff + n) m (moved i soff out doff n C) = moved i soff out doff (n + m) C"
proof -
  have len: "length (bytes_at (C i) soff n) = n" using assms(1) by (simp add: length_bytes_at)
  have "bytes_at (moved i soff out doff n C i) (soff + n) m = bytes_at (C i) (soff + n) m"
    using assms len by (cases "i = out") (auto simp: moved_def intro!: bytes_at_overwrite)
  moreover have "bytes_at (C i) soff n @ bytes_at (C i) (soff + n) m = bytes_at (C i) soff (n + m)"
    using bytes_at_append [of "C i" soff n "n + m"] len by simp
  ultimately show ?thesis
    using overwrite_append [of "C out" doff "bytes_at (C i) soff n" "bytes_at (C i) (soff + n) m"] len
    by (simp add: moved_def fun_eq_iff)
qed

lemma moved_prepend:
  assumes "soff + n + m \<le> length (C i)" "soff \<le> doff"
  shows "moved i soff i doff n (moved i (soff + n) i (doff + n) m C) = moved i soff i doff (n + m) C"
proof -
  have len: "length (bytes_at (C i) soff n) = n" using assms(1) by (simp add: length_bytes_at)
  have "bytes_at (moved i (soff + n) i (doff + n) m C i) soff n = bytes_at (C i) soff n"
    using assms by (auto simp: moved_def intro!: bytes_at_overwrite)
  moreover have "bytes_at (C i) soff n @ bytes_at (C i) (soff + n) m = bytes_at (C i) soff (n + m)"
    using bytes_at_append [of "C i" soff n "n + m"] len by simp
  ultimately show ?thesis
    using overwrite_prepend [OF len, of "C i" doff "bytes_at (C i) (soff + n) m"] by (simp add: moved_def fun_eq_iff)
qed

lemma chunk_triple:
  assumes "posix_files content ident H" "doff + n \<le> U64_MAX"
  shows "triple (files_are content C) (mbind (read_all_at H i soff n []) (\<lambda>b. write_all_at H out doff b False))
    (\<lambda>_. files_are content (moved (ident i) soff (ident out) doff n C)) (\<lambda>_ _. True)"
proof (rule triple_mbind [OF read_all_triple [OF assms(1)]])
  show "triple (\<lambda>w. b = [] @ bytes_at (C (ident i)) soff n \<and> length (bytes_at (C (ident i)) soff n) = n \<and> files_are content C w)
      (write_all_at H out doff b False) (\<lambda>_. files_are content (moved (ident i) soff (ident out) doff n C)) (\<lambda>_ _. True)" for b
  proof (cases "b = bytes_at (C (ident i)) soff n")
    case True
    show ?thesis
      by (rule triple_conseq [OF write_all_triple [OF assms(1), of C doff b]], use assms(2) True in simp)
        (unfold moved_def True, assumption, simp)
  qed (simp add: triple_def)
qed

lemma step_cases:
  assumes "(case m w of (Inl e, w') \<Rightarrow> (Inl e, w') | (Inr _, w') \<Rightarrow> k w') = (Inr x, t)"
  obtains y u where "m w = (Inr y, u)" "k u = (Inr x, t)"
  using assms by (auto split: prod.splits sum.splits)

lemma buffered_triple:
  assumes "posix_files content ident H" "doff + n \<le> U64_MAX" "soff + n \<le> length (C (ident i))"
    "ident i \<noteq> ident out \<or> doff \<le> soff \<or> soff + n \<le> doff"
    "files_are content C w" "copy_range_buffered H i soff out doff n w = (Inr x, t)"
  shows "files_are content (moved (ident i) soff (ident out) doff n C) t"
  using assms(2-)
proof (induction n arbitrary: soff doff C w rule: less_induct)
  case (less n)
  show ?case
  proof (cases "n = 0")
    case True
    then show ?thesis using less.prems by (simp add: copy_range_buffered.simps [of _ _ _ _ _ 0])
  next
    case False
    define q where "q = min n COPY_CHUNK"
    have q: "0 < q" "q \<le> n" using False by (simp_all add: q_def COPY_CHUNK_def)
    obtain y u where chunk: "mbind (read_all_at H i soff q []) (\<lambda>b. write_all_at H out doff b False) w = (Inr y, u)"
      and rest: "copy_range_buffered H i (soff + q) out (doff + q) (n - q) u = (Inr x, t)"
      using less.prems(5) False
      by (subst (asm) copy_range_buffered.simps, fold q_def) (auto simp: Let_def elim!: step_cases)
    let ?C = "moved (ident i) soff (ident out) doff q C"
    have "files_are content ?C u"
      using triple_Inr [OF chunk_triple [OF assms(1)] less.prems(4) chunk] less.prems(1) q by simp
    moreover have "soff + q + (n - q) \<le> length (?C (ident i))"
      using less.prems(2) q moved_length [of C "ident i"] by (simp add: le_trans)
    ultimately have "files_are content (moved (ident i) (soff + q) (ident out) (doff + q) (n - q) ?C) t"
      using less.IH [of "n - q" "doff + q" "soff + q" ?C u] rest q less.prems(1,3) by auto
    then show ?thesis
      using moved_append [of soff q "n - q" C "ident i" "ident out" doff] less.prems(2,3) q by auto
  qed
qed

lemma backward_triple:
  assumes "posix_files content ident H" "doff + n \<le> U64_MAX" "soff + n \<le> length (C (ident i))" "ident i = ident out" "soff \<le> doff"
    "r \<le> n" "files_are content (moved (ident i) (soff + r) (ident out) (doff + r) (n - r) C) w"
    "copy_backward H i soff out doff r w = (Inr x, t)"
  shows "files_are content (moved (ident i) soff (ident out) doff n C) t"
  using assms(6-)
proof (induction r arbitrary: w rule: less_induct)
  case (less r)
  show ?case
  proof (cases "r = 0")
    case True
    then show ?thesis using less.prems by (simp add: copy_backward.simps [of _ _ _ _ _ 0])
  next
    case False
    define q where "q = min r COPY_CHUNK"
    have q: "0 < q" "q \<le> r" using False by (simp_all add: q_def COPY_CHUNK_def)
    obtain y u where chunk: "mbind (read_all_at H i (soff + r - q) q []) (\<lambda>b. write_all_at H out (doff + r - q) b False) w = (Inr y, u)"
      and rest: "copy_backward H i soff out doff (r - q) u = (Inr x, t)"
      using less.prems(3) False
      by (subst (asm) copy_backward.simps, fold q_def) (auto simp: Let_def elim!: step_cases)
    let ?C = "moved (ident i) (soff + r) (ident out) (doff + r) (n - r) C"
    have "doff + r - q + q \<le> U64_MAX" using assms(2) less.prems(1) q by simp
    from triple_Inr [OF chunk_triple [OF assms(1) this] less.prems(2) chunk]
    have "files_are content (moved (ident i) (soff + r - q) (ident out) (doff + r - q) q ?C) u" .
    moreover have eqs: "soff + r - q = soff + (r - q)" "doff + r - q = doff + (r - q)" "soff + r = soff + (r - q) + q"
      "doff + r = doff + (r - q) + q" "q + (n - r) = n - (r - q)"
      using q less.prems(1) by simp_all
    have "moved (ident i) (soff + (r - q)) (ident i) (doff + (r - q)) q
        (moved (ident i) (soff + (r - q) + q) (ident i) (doff + (r - q) + q) (n - r) C) =
      moved (ident i) (soff + (r - q)) (ident i) (doff + (r - q)) (q + (n - r)) C"
      by (rule moved_prepend) (use assms(3,5) q less.prems(1) in simp_all)
    ultimately have "files_are content (moved (ident i) (soff + (r - q)) (ident out) (doff + (r - q)) (n - (r - q)) C) u"
      unfolding assms(4) [symmetric] eqs(1,2) eqs(5) [symmetric] by (simp only: eqs(3,4))
    from less.IH [OF _ _ this rest] q less.prems(1) show ?thesis by simp
  qed
qed

lemma kernel_triple:
  assumes "posix_files content ident H" "soff + n \<le> length (C (ident i))"
    "ident i \<noteq> ident out \<or> doff + n \<le> soff \<or> soff + n \<le> doff"
    "copied \<le> n" "files_are content (moved (ident i) soff (ident out) doff copied C) w"
    "copy_kernel H i (soff + copied) out (doff + copied) copied n w = (Inr (c, s, d), t)"
  shows "c \<le> n \<and> s = soff + c \<and> d = doff + c \<and> files_are content (moved (ident i) soff (ident out) doff c C) t"
  using assms(4-)
proof (induction "n - copied" arbitrary: copied w rule: less_induct)
  case less
  show ?case
  proof (cases "copied < n")
    case False
    then show ?thesis using less.prems by (subst (asm) copy_kernel.simps) simp
  next
    case True
    let ?C = "moved (ident i) soff (ident out) doff copied C"
    obtain r u where call: "ho_copy_file_range H i (soff + copied) out (doff + copied) (n - copied) w = (r, u)" by (metis prod.exhaust)
    note law = posix_filesD(4) [OF assms(1) call]
    show ?thesis
    proof (cases r)
      case (Inl e)
      then have "content u = ?C" using law less.prems(2) by simp
      then show ?thesis using less.prems(3) True call Inl by (subst (asm) copy_kernel.simps) (simp split: if_splits)
    next
      case (Inr k)
      have k: "k \<le> n - copied" and u: "content u = moved (ident i) (soff + copied) (ident out) (doff + copied) k ?C"
        using law Inr less.prems(2) by (simp_all add: moved_def)
      have joined: "content u = moved (ident i) soff (ident out) doff (copied + k) C"
        unfolding u by (rule moved_append) (use assms(2,3) k True in auto)
      show ?thesis
      proof (cases "k = 0")
        case True
        then show ?thesis using less.prems \<open>copied < n\<close> call Inr joined by (subst (asm) copy_kernel.simps) simp
      next
        case False
        have "copy_kernel H i (soff + (copied + k)) out (doff + (copied + k)) (copied + k) n u = (Inr (c, s, d), t)"
          using less.prems(3) True call Inr False by (subst (asm) copy_kernel.simps) (simp add: add.assoc)
        from less.hyps [OF _ _ joined this] k True False show ?thesis by simp
      qed
    qed
  qed
qed

lemma clone_triple:
  assumes "posix_files content ident H" "n = min len (length (C (ident i)) - soff)"
  shows "triple (files_are content C) (clone_whole H i soff out doff n)
    (\<lambda>b w. content w = (if b then moved (ident i) soff (ident out) doff n C else C)) (\<lambda>_ _. True)"
proof -
  note meta = metadata_triple [OF assms(1)]
  have final: "triple (\<lambda>w. hm_len mo = length (C (ident out)) \<and> identity_of mo = ident out \<and> files_are content C w)
      (if hm_len mo \<noteq> 0 then mret False
       else (\<lambda>w. case ho_clone H out i w of (Inr _, w') \<Rightarrow> (Inr True, w') | (Inl _, w') \<Rightarrow> (Inr False, w')))
      (\<lambda>b w. content w = (if b then moved (ident i) 0 (ident out) 0 n C else C)) (\<lambda>_ _. True)" if "n = length (C (ident i))" for mo
  proof (rule tripleI)
    fix w b t
    assume w: "hm_len mo = length (C (ident out)) \<and> identity_of mo = ident out \<and> files_are content C w"
      and run: "(if hm_len mo \<noteq> 0 then mret False
       else (\<lambda>w. case ho_clone H out i w of (Inr _, w') \<Rightarrow> (Inr True, w') | (Inl _, w') \<Rightarrow> (Inr False, w'))) w = (Inr b, t)"
    obtain r u where call: "ho_clone H out i w = (r, u)" by (metis prod.exhaust)
    have "moved (ident i) 0 (ident out) 0 n C = C(ident out := C (ident i))" if "C (ident out) = []"
      using that \<open>n = length (C (ident i))\<close> by (simp add: moved_def bytes_at_whole overwrite_whole)
    with run w posix_filesD(5) [OF assms(1) call] call
    show "content t = (if b then moved (ident i) 0 (ident out) 0 n C else C)"
      by (auto simp: mret_def split: if_splits sum.splits)
  qed simp
  have "triple (\<lambda>w. hm_len mi = length (C (ident i)) \<and> identity_of mi = ident i \<and> files_are content C w)
      (if n \<noteq> hm_len mi then mret False else mbind (host_io (ho_metadata H out)) (\<lambda>mo. if hm_len mo \<noteq> 0 then mret False
       else (\<lambda>w. case ho_clone H out i w of (Inr _, w') \<Rightarrow> (Inr True, w') | (Inl _, w') \<Rightarrow> (Inr False, w'))))
      (\<lambda>b w. content w = (if b then moved (ident i) 0 (ident out) 0 n C else C)) (\<lambda>_ _. True)" for mi
  proof (cases "n = length (C (ident i))")
    case True
    have "triple (files_are content C) (mbind (host_io (ho_metadata H out)) (\<lambda>mo. if hm_len mo \<noteq> 0 then mret False
       else (\<lambda>w. case ho_clone H out i w of (Inr _, w') \<Rightarrow> (Inr True, w') | (Inl _, w') \<Rightarrow> (Inr False, w'))))
      (\<lambda>b w. content w = (if b then moved (ident i) 0 (ident out) 0 n C else C)) (\<lambda>_ _. True)"
      by (rule triple_mbind [OF meta final [OF True]])
    then show ?thesis by (auto simp: triple_def mret_def)
  qed (auto simp: triple_def mret_def)
  from triple_mbind [OF meta this] show ?thesis
    unfolding clone_whole_def by (auto simp: triple_mret)
qed

text \<open>The whole of \<^verbatim>\<open>copy_range_server\<close>, whichever way it takes.\<close>

lemma copy_range_moves:
  assumes "posix_files content ident H" "soff + len \<le> U64_MAX" "doff + len \<le> U64_MAX"
  shows "triple (files_are content C) (copy_range_server H i soff out doff len)
    (\<lambda>n w. n = min len (length (C (ident i)) - soff) \<and> content w = moved (ident i) soff (ident out) doff n C) (\<lambda>_ _. True)"
proof -
  define n where "n = min len (length (C (ident i)) - soff)"
  let ?Q = "\<lambda>k w. k = n \<and> content w = moved (ident i) soff (ident out) doff n C"
  note meta = metadata_triple [OF assms(1)]
  have overlap: "triple (files_are content C) (mbind (copy_range_buffered_overlap H i soff out doff n) (\<lambda>_. mret n)) ?Q (\<lambda>_ _. True)"
    if "ident i = ident out" "0 < n"
  proof (rule triple_mbind [OF tripleI triple_mret])
    fix w x t assume w: "files_are content C w" and run: "copy_range_buffered_overlap H i soff out doff n w = (Inr x, t)"
    have range: "doff + n \<le> U64_MAX" "soff + n \<le> length (C (ident i))" using assms(3) that(2) by (auto simp: n_def)
    show "content t = moved (ident i) soff (ident out) doff n C"
    proof (cases "doff \<le> soff")
      case True
      then show ?thesis using buffered_triple [where i = i and out = out and C = C, OF assms(1) range _ w] run by (simp add: copy_range_buffered_overlap_def)
    next
      case False
      then show ?thesis
        using backward_triple [where i = i and out = out and C = C, OF assms(1) range that(1), where r = n and w = w] run w by (simp add: copy_range_buffered_overlap_def)
    qed
  qed auto
  have apart: "triple (files_are content C) (mbind (copy_kernel H i soff out doff 0 n) (\<lambda>(copied, source, destination).
       if copied = n then mret copied
       else mbind (copy_range_buffered H i source out destination (n - copied)) (\<lambda>_. mret n))) ?Q (\<lambda>_ _. True)"
    if apart: "ident i \<noteq> ident out \<or> doff + n \<le> soff \<or> soff + n \<le> doff" and "0 < n"
  proof (rule triple_mbind [where R = "\<lambda>(c, s, d) w. c \<le> n \<and> s = soff + c \<and> d = doff + c \<and>
      files_are content (moved (ident i) soff (ident out) doff c C) w"])
    have range: "doff + n \<le> U64_MAX" "soff + n \<le> length (C (ident i))" using assms(3) that(2) by (auto simp: n_def)
    show "triple (files_are content C) (copy_kernel H i soff out doff 0 n) (\<lambda>(c, s, d) w. c \<le> n \<and> s = soff + c \<and> d = doff + c \<and>
      files_are content (moved (ident i) soff (ident out) doff c C) w) (\<lambda>_ _. True)"
    proof (rule tripleI)
      fix w x t assume w: "files_are content C w" and run: "copy_kernel H i soff out doff 0 n w = (Inr x, t)"
      obtain c s d where x: "x = (c, s, d)" by (cases x)
      from w have "files_are content (moved (ident i) soff (ident out) doff 0 C) w" by simp
      from kernel_triple [where i = i and out = out and C = C, OF assms(1) range(2) apart _ this, of c s d t] run
      show "(case x of (c, s, d) \<Rightarrow> \<lambda>w. c \<le> n \<and> s = soff + c \<and> d = doff + c \<and>
          files_are content (moved (ident i) soff (ident out) doff c C) w) t" by (simp add: x)
    qed simp
    have "triple (\<lambda>w. c \<le> n \<and> files_are content (moved (ident i) soff (ident out) doff c C) w)
        (mbind (copy_range_buffered H i (soff + c) out (doff + c) (n - c)) (\<lambda>_. mret n)) ?Q (\<lambda>_ _. True)" for c
    proof (rule triple_mbind [OF tripleI triple_mret])
      fix w x t assume w: "c \<le> n \<and> files_are content (moved (ident i) soff (ident out) doff c C) w"
        and run: "copy_range_buffered H i (soff + c) out (doff + c) (n - c) w = (Inr x, t)"
      let ?C = "moved (ident i) soff (ident out) doff c C"
      have "soff + c + (n - c) \<le> length (?C (ident i))" using range(2) w moved_length [of C "ident i"] by (simp add: le_trans)
      then have "content t = moved (ident i) (soff + c) (ident out) (doff + c) (n - c) ?C"
        using buffered_triple [where i = i and out = out and C = ?C, OF assms(1) _ _ _ _ run] w range(1) apart by auto
      moreover have "moved (ident i) (soff + c) (ident out) (doff + c) (n - c) ?C = moved (ident i) soff (ident out) doff (c + (n - c)) C"
        by (rule moved_append) (use range(2) w apart in auto)
      ultimately show "content t = moved (ident i) soff (ident out) doff n C" using w by simp
    qed auto
    then show "triple ((\<lambda>(c, s, d) w. c \<le> n \<and> s = soff + c \<and> d = doff + c \<and> files_are content (moved (ident i) soff (ident out) doff c C) w) x)
       (case x of (copied, source, destination) \<Rightarrow> if copied = n then mret copied
         else mbind (copy_range_buffered H i source out destination (n - copied)) (\<lambda>_. mret n)) ?Q (\<lambda>_ _. True)" for x
      by (cases x) (auto simp: triple_def mret_def)
  qed
  let ?rest = "\<lambda>mi mo. if identity_of mi = identity_of mo \<and> soff < saturating_add doff n \<and> doff < saturating_add soff n
     then mbind (copy_range_buffered_overlap H i soff out doff n) (\<lambda>_. mret n)
     else mbind (copy_kernel H i soff out doff 0 n) (\<lambda>(copied, source, destination).
       if copied = n then mret copied
       else mbind (copy_range_buffered H i source out destination (n - copied)) (\<lambda>_. mret n))"
  have rest: "triple (\<lambda>w. hm_len mo = length (C (ident out)) \<and> identity_of mo = ident out \<and> files_are content C w) (?rest mi mo) ?Q (\<lambda>_ _. True)"
    if "identity_of mi = ident i" "0 < n" for mi mo
  proof (cases "identity_of mo = ident out")
    case True
    have sat: "saturating_add doff n = doff + n" "saturating_add soff n = soff + n"
      using assms(2,3) by (simp_all add: saturating_add_exact n_def)
    have "triple (files_are content C) (?rest mi mo) ?Q (\<lambda>_ _. True)"
      by (rule triple_if; (rule overlap apart)) (use that True sat in auto)
    then show ?thesis by (rule triple_conseq) auto
  qed (simp add: triple_def)
  have unshared: "triple (files_are content C) (mbind (host_io (ho_metadata H i)) (\<lambda>mi. mbind (host_io (ho_metadata H out)) (?rest mi))) ?Q (\<lambda>_ _. True)"
    if "0 < n"
  proof (rule triple_mbind [OF meta])
    show "triple (\<lambda>w. hm_len mi = length (C (ident i)) \<and> identity_of mi = ident i \<and> files_are content C w)
        (mbind (host_io (ho_metadata H out)) (?rest mi)) ?Q (\<lambda>_ _. True)" for mi
    proof (cases "identity_of mi = ident i")
      case True
      from triple_mbind [OF meta rest [OF True that]] show ?thesis by (rule triple_conseq) auto
    qed (simp add: triple_def)
  qed
  have "triple (files_are content C) (mbind (clone_whole H i soff out doff n) (\<lambda>cloned. if cloned then mret n
      else mbind (host_io (ho_metadata H i)) (\<lambda>mi. mbind (host_io (ho_metadata H out)) (?rest mi)))) ?Q (\<lambda>_ _. True)" if "0 < n"
  proof (rule triple_mbind [OF clone_triple [where i = i and C = C, OF assms(1) n_def]])
    show "triple (\<lambda>w. content w = (if b then moved (ident i) soff (ident out) doff n C else C)) (if b then mret n
      else mbind (host_io (ho_metadata H i)) (\<lambda>mi. mbind (host_io (ho_metadata H out)) (?rest mi))) ?Q (\<lambda>_ _. True)" for b
      using unshared [OF that] by (cases b) (simp_all add: triple_mret)
  qed
  then have whole: "triple (files_are content C) (if n = 0 then mret 0 else mbind (clone_whole H i soff out doff n) (\<lambda>cloned. if cloned then mret n
      else mbind (host_io (ho_metadata H i)) (\<lambda>mi. mbind (host_io (ho_metadata H out)) (?rest mi)))) ?Q (\<lambda>_ _. True)"
    by (cases "n = 0") (simp_all add: triple_mret)
  have "triple (\<lambda>w. hm_len m = length (C (ident i)) \<and> identity_of m = ident i \<and> files_are content C w)
     (let amount = min len (hm_len m - soff) in if amount = 0 then mret 0
      else mbind (clone_whole H i soff out doff amount) (\<lambda>cloned. if cloned then mret amount
      else mbind (host_io (ho_metadata H i)) (\<lambda>mi. mbind (host_io (ho_metadata H out)) (\<lambda>mo.
        if identity_of mi = identity_of mo \<and> soff < saturating_add doff amount \<and> doff < saturating_add soff amount
        then mbind (copy_range_buffered_overlap H i soff out doff amount) (\<lambda>_. mret amount)
        else mbind (copy_kernel H i soff out doff 0 amount) (\<lambda>(copied, source, destination).
          if copied = amount then mret copied
          else mbind (copy_range_buffered H i source out destination (amount - copied)) (\<lambda>_. mret amount)))))) ?Q (\<lambda>_ _. True)" for m
  proof (cases "hm_len m = length (C (ident i))")
    case True
    show ?thesis unfolding True Let_def n_def [symmetric] by (rule triple_conseq [OF whole]) auto
  qed (simp add: triple_def)
  from triple_mbind [OF meta this] show ?thesis
    unfolding copy_range_server_def n_def [symmetric] by (rule triple_conseq) auto
qed

subsection \<open>Exchanging two files\<close>

text \<open>Calls on attributes, and those that write files back to the disk, leave the contents alone.\<close>

definition keeps_contents :: "('h \<Rightarrow> file_identity \<Rightarrow> bytes) \<Rightarrow> 'h host \<Rightarrow> bool" where
  "keeps_contents content H \<longleftrightarrow>
     (\<forall>f x n w. content (snd (ho_getxattr H f x n w)) = content w) \<and> (\<forall>f x v w. content (snd (ho_setxattr H f x v w)) = content w) \<and>
     (\<forall>f x w. content (snd (ho_removexattr H f x w)) = content w) \<and> (\<forall>f d w. content (snd (ho_sync H f d w)) = content w)"

lemma chunks_triple:
  assumes "posix_files content ident H" "ident i \<noteq> ident out" "length (C (ident i)) \<le> U64_MAX"
    "offset + n = length (C (ident i))" "content w = moved (ident i) 0 (ident out) 0 offset C"
    "copy_range_in_chunks H i out offset n w = (Inr x, t)"
  shows "content t = moved (ident i) 0 (ident out) 0 (offset + n) C"
  using assms(4-)
proof (induction n arbitrary: offset w rule: less_induct)
  case (less n)
  show ?case
  proof (cases "n = 0")
    case True
    then show ?thesis using less.prems by (simp add: copy_range_in_chunks.simps [of _ _ _ _ 0])
  next
    case False
    define q where "q = min n EXCHANGE_CHUNK"
    have q: "0 < q" "q \<le> n" using False by (simp_all add: q_def EXCHANGE_CHUNK_def)
    obtain k u where copy: "copy_range_server H i offset out offset q w = (Inr k, u)" and "k \<noteq> 0"
      and rest: "copy_range_in_chunks H i out (offset + k) (n - k) u = (Inr x, t)"
      using less.prems(3) False
      by (subst (asm) copy_range_in_chunks.simps, fold q_def) (auto split: prod.splits sum.splits if_splits)
    let ?C = "moved (ident i) 0 (ident out) 0 offset C"
    have same: "?C (ident i) = C (ident i)" using assms(2) by (simp add: moved_def)
    have bound: "offset + q \<le> U64_MAX" using less.prems(1) q assms(3) by simp
    from triple_Inr [OF copy_range_moves [OF assms(1) bound bound] less.prems(2) copy]
    have k: "k = q" and u: "content u = moved (ident i) (0 + offset) (ident out) (0 + offset) q ?C"
      using less.prems(1) q by (simp_all add: same)
    have "content u = moved (ident i) 0 (ident out) 0 (offset + q) C"
      unfolding u by (rule moved_append) (use less.prems(1) q assms(2) in auto)
    with less.IH [of "n - q" "offset + q" u] rest k q less.prems(1) show ?thesis by simp
  qed
qed

lemma chunks_whole:
  assumes "posix_files content ident H" "ident i \<noteq> ident out" "length (C (ident i)) \<le> U64_MAX" "C (ident out) = []"
  shows "triple (files_are content C) (copy_range_in_chunks H i out 0 (length (C (ident i))))
    (\<lambda>_. files_are content (C(ident out := C (ident i)))) (\<lambda>_ _. True)"
proof (rule tripleI)
  fix w x t assume w: "files_are content C w" and run: "copy_range_in_chunks H i out 0 (length (C (ident i))) w = (Inr x, t)"
  from w have "content w = moved (ident i) 0 (ident out) 0 0 C" by simp
  from chunks_triple [where i = i and out = out and C = C, OF assms(1,2,3) _ this run]
  have "content t = moved (ident i) 0 (ident out) 0 (length (C (ident i))) C" by simp
  then show "files_are content (C(ident out := C (ident i))) t"
    using assms(4) by (simp add: moved_def bytes_at_whole overwrite_whole)
qed simp

lemma truncate_triple:
  assumes "posix_files content ident H"
  shows "triple (files_are content C) (host_io (ho_set_len H f 0)) (\<lambda>_. files_are content (C(ident f := []))) (\<lambda>_ _. True)"
proof (rule tripleI)
  fix w x t assume "files_are content C w" "host_io (ho_set_len H f 0) w = (Inr x, t)"
  then show "files_are content (C(ident f := [])) t"
    using posix_filesD(6) [OF assms, of f 0 w "fst (ho_set_len H f 0 w)" "snd (ho_set_len H f 0 w)"]
    by (auto simp: host_io_def map_err_def split: prod.splits sum.splits)
qed simp

lemma attribute_triples:
  assumes "keeps_contents content H"
  shows "triple (files_are content C) (read_fd_xattr H f x n) (\<lambda>_. files_are content C) (\<lambda>_. files_are content C)"
    and "triple (files_are content C) (replace_optional_xattr H f x v) (\<lambda>_. files_are content C) (\<lambda>_ _. True)"
    and "triple (files_are content C) (host_io (ho_sync H f d)) (\<lambda>_. files_are content C) (\<lambda>_ _. True)"
proof -
  have kept: "content (snd (fetch_xattr (ho_getxattr H f x) m c w)) = content w" for m c w
  proof (induction "m - c" arbitrary: c w rule: less_induct)
    case less
    obtain r u where get: "ho_getxattr H f x c w = (r, u)" by (metis prod.exhaust)
    have "content u = content w" using assms get unfolding keeps_contents_def by (metis snd_conv)
    then show ?case
      using get less.hyps [of "min (2 * c) m" u] by (subst fetch_xattr.simps) (auto split: sum.split)
  qed
  have read: "content (snd (read_fd_xattr H f x n w)) = content w" for w unfolding read_fd_xattr_def by (rule kept)
  show "triple (files_are content C) (read_fd_xattr H f x n) (\<lambda>_. files_are content C) (\<lambda>_. files_are content C)"
    by (rule tripleI) (use read in \<open>metis snd_conv\<close>)+
  show "triple (files_are content C) (replace_optional_xattr H f x v) (\<lambda>_. files_are content C) (\<lambda>_ _. True)"
  proof -
    have "content (snd (replace_optional_xattr H f x v w)) = content w" for w
      using assms by (auto simp: keeps_contents_def replace_optional_xattr_def host_io_def split_beta split: option.split sum.split)
    then show ?thesis by (intro tripleI) (metis snd_conv, simp)
  qed
  show "triple (files_are content C) (host_io (ho_sync H f d)) (\<lambda>_. files_are content C) (\<lambda>_ _. True)"
  proof -
    have "content (snd (host_io (ho_sync H f d) w)) = content w" for w
      using assms by (simp add: keeps_contents_def host_io_def split_beta)
    then show ?thesis by (intro tripleI) (metis snd_conv, simp)
  qed
qed

lemma optional_triple: "triple P m (\<lambda>_. P) (\<lambda>_. P) \<Longrightarrow> triple P (optional_attribute m) (\<lambda>_. P) (\<lambda>_ _. True)"
  by (fastforce simp: triple_def optional_attribute_def split: prod.splits sum.splits if_splits)

text \<open>The size a file has when its contents are known.\<close>

lemma known_size_triple:
  assumes "posix_files content ident H" "triple (files_are content C) (g (length (C (ident f)))) Q (\<lambda>_ _. True)"
  shows "triple (files_are content C) (mbind (host_io (ho_metadata H f)) (\<lambda>m. g (hm_len m))) Q (\<lambda>_ _. True)"
proof (rule triple_mbind [OF metadata_triple [OF assms(1)]])
  show "triple (\<lambda>w. hm_len m = length (C (ident f)) \<and> identity_of m = ident f \<and> files_are content C w) (g (hm_len m)) Q (\<lambda>_ _. True)" for m
    using assms(2) by (cases "hm_len m = length (C (ident f))") (simp_all add: triple_def)
qed

lemma exchange_triple:
  assumes "posix_files content ident H" "keeps_contents content H"
    "ident l \<noteq> ident r" "ident l \<noteq> ident t" "ident r \<noteq> ident t" "length (C (ident l)) \<le> U64_MAX" "length (C (ident r)) \<le> U64_MAX"
  shows "triple (files_are content C) (exchange_file_contents enc H l r t)
    (\<lambda>_. files_are content (C(ident t := C (ident l), ident l := C (ident r), ident r := C (ident l)))) (\<lambda>_ _. True)"
proof -
  let ?C1 = "C(ident t := [])" let ?C2 = "C(ident t := C (ident l))" let ?C3 = "?C2(ident l := [])"
  let ?C4 = "?C2(ident l := C (ident r))" let ?C5 = "?C4(ident r := [])" let ?C6 = "?C4(ident r := C (ident l))"
  note laws = assms(1)
  have other: "ident r \<noteq> ident l" "ident t \<noteq> ident l" "ident t \<noteq> ident r" using assms(3-5) by auto
  have begun: "triple (files_are content C) (host_io (ho_set_len H t 0)) (\<lambda>_. files_are content ?C1) (\<lambda>_ _. True)"
    by (rule truncate_triple [OF laws])
  have saved: "triple (files_are content ?C1) (copy_range_in_chunks H l t 0 (length (C (ident l)))) (\<lambda>_. files_are content ?C2) (\<lambda>_ _. True)"
    using chunks_whole [where i = l and out = t and C = ?C1, OF laws] assms(3-6) by simp
  have cut: "triple (files_are content ?C2) (host_io (ho_set_len H l 0)) (\<lambda>_. files_are content ?C3) (\<lambda>_ _. True)"
    by (rule truncate_triple [OF laws])
  have left: "triple (files_are content ?C3) (copy_range_in_chunks H r l 0 (length (C (ident r)))) (\<lambda>_. files_are content ?C4) (\<lambda>_ _. True)"
    using chunks_whole [where i = r and out = l and C = ?C3, OF laws other(1)] other assms(3-7) by simp
  have cut': "triple (files_are content ?C4) (host_io (ho_set_len H r 0)) (\<lambda>_. files_are content ?C5) (\<lambda>_ _. True)"
    by (rule truncate_triple [OF laws])
  have right: "triple (files_are content ?C5) (copy_range_in_chunks H t r 0 (length (C (ident l)))) (\<lambda>_. files_are content ?C6) (\<lambda>_ _. True)"
    using chunks_whole [where i = t and out = r and C = ?C5, OF laws other(3)] other assms(3-7) by simp
  have name: "triple (files_are content ?C6) (mlift z) (\<lambda>_. files_are content ?C6) (\<lambda>_ _. True)" for z :: "server_error + bytes"
    by (cases z) (simp_all add: triple_def mlift_def)
  note attributes = optional_triple [OF attribute_triples(1) [OF assms(2)]] attribute_triples(2,3) [OF assms(2)]
  show ?thesis
    unfolding exchange_file_contents_def
    by (rule known_size_triple [OF laws], rule known_size_triple [OF laws])
      (intro triple_mbind [OF begun] triple_mbind [OF saved] triple_mbind [OF cut] triple_mbind [OF left] triple_mbind [OF cut']
        triple_mbind [OF right] triple_mbind [OF name] triple_mbind [OF attributes(1)] triple_mbind [OF attributes(2)]
        triple_mbind [OF attributes(3)] attributes(3))
qed

subsection \<open>Reading\<close>

lemma read_fill_triple:
  assumes "posix_files content ident H" "offset + n \<le> U64_MAX"
    "files_are content C w" "read_fill H f offset n data w = (Inr d, w')"
  shows "d = data @ bytes_at (C (ident f)) offset n \<and> files_are content C w'"
  using assms(2-)
proof (induction n arbitrary: offset data w rule: less_induct)
  case (less n)
  show ?case
  proof (cases "n = 0")
    case True
    then show ?thesis using less.prems by (simp add: read_fill.simps [of _ _ _ 0] bytes_at_def)
  next
    case False
    obtain r u where call: "ho_read_at H f offset n w = (r, u)" by (metis prod.exhaust)
    from less.prems(3) False call obtain x where x: "r = Inr x"
      and rest: "if x = [] then d = data \<and> u = w'
        else read_fill H f (saturating_add offset (length x)) (n - length x) (data @ x) u = (Inr d, w')"
      by (subst (asm) read_fill.simps) (auto simp: host_io_def map_err_def split: sum.splits if_splits)
    have got: "content u = C" "length x \<le> n" "x = bytes_at (C (ident f)) offset (length x)"
      "x = [] \<Longrightarrow> length (C (ident f)) \<le> offset"
      using posix_filesD(2) [OF assms(1) call] x less.prems(2) False by auto
    show ?thesis
    proof (cases "x = []")
      case True
      then show ?thesis using rest got by (simp add: bytes_at_def)
    next
      case filled: False
      have sat: "saturating_add offset (length x) = offset + length x" using got(2) less.prems(1) by (simp add: saturating_add_exact)
      have "x @ bytes_at (C (ident f)) (offset + length x) (n - length x) = bytes_at (C (ident f)) offset n"
        using bytes_at_append [of "C (ident f)" offset "length x" n] got(2,3) by metis
      then show ?thesis
        using less.IH [of "n - length x" "offset + length x" u "data @ x"] rest filled got sat less.prems(1) False by simp
    qed
  qed
qed

lemma bytes_at_min: "bytes_at c offset (min n (length c - offset)) = bytes_at c offset n"
  by (simp add: bytes_at_def min_def)

lemma read_consistent_triple:
  assumes "posix_files content ident H" "offset + n \<le> U64_MAX"
  shows "triple (files_are content C) (read_consistent sha H f offset n)
    (\<lambda>(_, d) w. d = bytes_at (C (ident f)) offset n \<and> files_are content C w) (\<lambda>_ _. True)"
proof -
  let ?k = "min n (length (C (ident f)) - offset)"
  have filled: "triple (files_are content C) (read_fill H f offset ?k [])
      (\<lambda>d w. d = bytes_at (C (ident f)) offset n \<and> files_are content C w) (\<lambda>_ _. True)"
  proof (rule tripleI)
    fix w d t assume w: "files_are content C w" and run: "read_fill H f offset ?k [] w = (Inr d, t)"
    have "offset + ?k \<le> U64_MAX" using assms(2) by simp
    from read_fill_triple [where C = C and f = f, OF assms(1) this w run]
    show "d = bytes_at (C (ident f)) offset n \<and> files_are content C t" by (simp add: bytes_at_min)
  qed simp
  have stamped: "triple (\<lambda>w. d = D \<and> files_are content C w) (mbind (host_io (ho_metadata H f)) (\<lambda>after.
      if v \<noteq> revision sha after then mfail SConflict else mret (revision sha after, d)))
      (\<lambda>(_, d) w. d = D \<and> files_are content C w) (\<lambda>_ _. True)" for d D v
  proof (rule tripleI)
    fix w x t assume w: "d = D \<and> files_are content C w" and run: "mbind (host_io (ho_metadata H f)) (\<lambda>after.
      if v \<noteq> revision sha after then mfail SConflict else mret (revision sha after, d)) w = (Inr x, t)"
    from run obtain m where call: "host_io (ho_metadata H f) w = (Inr m, t)" and x: "snd x = d"
      by (auto simp: mbind_def mret_def mfail_def split: prod.splits sum.splits if_splits)
    from triple_Inr [OF metadata_triple [OF assms(1)] _ call] w x
    show "(case x of (_, d) \<Rightarrow> \<lambda>w. d = D \<and> files_are content C w) t" by (simp add: split_beta)
  qed simp
  have "triple (files_are content C) (mbind (read_fill H f offset ?k []) (\<lambda>d. mbind (host_io (ho_metadata H f)) (\<lambda>after.
      if v \<noteq> revision sha after then mfail SConflict else mret (revision sha after, d))))
      (\<lambda>(_, d) w. d = bytes_at (C (ident f)) offset n \<and> files_are content C w) (\<lambda>_ _. True)" for v
    by (rule triple_mbind [OF filled stamped])
  then have "triple (\<lambda>w. hm_len m = length (C (ident f)) \<and> identity_of m = ident f \<and> files_are content C w)
      (mbind (read_fill H f offset (min n (hm_len m - offset)) []) (\<lambda>d. mbind (host_io (ho_metadata H f)) (\<lambda>after.
      if revision sha m \<noteq> revision sha after then mfail SConflict else mret (revision sha after, d))))
      (\<lambda>(_, d) w. d = bytes_at (C (ident f)) offset n \<and> files_are content C w) (\<lambda>_ _. True)" for m
    by (cases "hm_len m = length (C (ident f))") (simp_all add: triple_def)
  from triple_mbind [OF metadata_triple [OF assms(1)] this] show ?thesis unfolding read_consistent_def .
qed

subsection \<open>Reading while others write\<close>

text \<open>
  A file with a history: \<open>T n\<close> are the bytes of its version \<open>n\<close> and \<open>M n\<close> its metadata. Every call may see any version
  between the one before it and the one after it.
\<close>

definition serves_versions :: "('h \<Rightarrow> nat) \<Rightarrow> (nat \<Rightarrow> host_meta) \<Rightarrow> (nat \<Rightarrow> bytes) \<Rightarrow> descriptor \<Rightarrow> 'h host \<Rightarrow> bool" where
  "serves_versions ver M T f H \<longleftrightarrow> (\<forall>n. hm_len (M n) = length (T n)) \<and>
     (\<forall>w r w'. ho_metadata H f w = (r, w') \<longrightarrow> ver w \<le> ver w' \<and>
        (\<forall>m. r = Inr m \<longrightarrow> (\<exists>n. ver w \<le> n \<and> n \<le> ver w' \<and> m = M n))) \<and>
     (\<forall>off k w r w'. ho_read_at H f off k w = (r, w') \<longrightarrow> ver w \<le> ver w' \<and>
        (\<forall>d. r = Inr d \<longrightarrow> length d \<le> k \<and> (\<exists>n. ver w \<le> n \<and> n \<le> ver w' \<and> d = bytes_at (T n) off (length d) \<and>
          (d = [] \<longrightarrow> k = 0 \<or> length (T n) \<le> off))))"

lemma serves_versionsD:
  assumes "serves_versions ver M T f H"
  shows "hm_len (M n) = length (T n)"
    and "ho_metadata H f w = (r, w') \<Longrightarrow> ver w \<le> ver w' \<and> (\<forall>m. r = Inr m \<longrightarrow> (\<exists>n. ver w \<le> n \<and> n \<le> ver w' \<and> m = M n))"
    and "ho_read_at H f off k w = (rd, w') \<Longrightarrow> ver w \<le> ver w' \<and>
        (\<forall>d. rd = Inr d \<longrightarrow> length d \<le> k \<and> (\<exists>n. ver w \<le> n \<and> n \<le> ver w' \<and> d = bytes_at (T n) off (length d) \<and>
          (d = [] \<longrightarrow> k = 0 \<or> length (T n) \<le> off)))"
  by (rule assms [unfolded serves_versions_def, THEN conjunct1, rule_format])
    (rule assms [unfolded serves_versions_def, THEN conjunct2, THEN conjunct1, rule_format], assumption,
     rule assms [unfolded serves_versions_def, THEN conjunct2, THEN conjunct2, rule_format])

lemma read_fill_versions:
  assumes "serves_versions ver M T f H" "offset + n \<le> U64_MAX" "read_fill H f offset n data w = (Inr d, w')"
  shows "ver w \<le> ver w' \<and> (ver w' = ver w \<longrightarrow> d = data @ bytes_at (T (ver w)) offset n)"
  using assms(2-)
proof (induction n arbitrary: offset data w rule: less_induct)
  case (less n)
  show ?case
  proof (cases "n = 0")
    case True
    then show ?thesis using less.prems by (simp add: read_fill.simps [of _ _ _ 0] bytes_at_def)
  next
    case False
    obtain r u where call: "ho_read_at H f offset n w = (r, u)" by (metis prod.exhaust)
    from less.prems(2) False call obtain x where x: "r = Inr x"
      and rest: "if x = [] then d = data \<and> u = w'
        else read_fill H f (saturating_add offset (length x)) (n - length x) (data @ x) u = (Inr d, w')"
      by (subst (asm) read_fill.simps) (auto simp: host_io_def map_err_def split: sum.splits if_splits)
    have seen: "ver w \<le> ver u" "length x \<le> n" using serves_versionsD(3) [OF assms(1) call] x by auto
    have got: "x = bytes_at (T (ver w)) offset (length x)" "x = [] \<Longrightarrow> length (T (ver w)) \<le> offset" if "ver u = ver w"
      using serves_versionsD(3) [OF assms(1) call] x that False by (metis antisym)+
    show ?thesis
    proof (cases "x = []")
      case True
      then show ?thesis using rest seen got by (auto simp: bytes_at_def)
    next
      case filled: False
      have sat: "saturating_add offset (length x) = offset + length x" using seen(2) less.prems(1) by (simp add: saturating_add_exact)
      have later: "ver u \<le> ver w'" "ver w' = ver u \<Longrightarrow> d = (data @ x) @ bytes_at (T (ver u)) (offset + length x) (n - length x)"
        using less.IH [of "n - length x" "offset + length x" "data @ x" u] rest filled seen(2) sat less.prems(1) False by auto
      have "d = data @ bytes_at (T (ver w)) offset n" if "ver w' = ver w"
      proof -
        have same: "ver u = ver w" "ver w' = ver u" using that seen(1) later(1) by simp_all
        have "x @ bytes_at (T (ver w)) (offset + length x) (n - length x) = bytes_at (T (ver w)) offset n"
          using bytes_at_append [of "T (ver w)" offset "length x" n] got(1) [OF same(1)] seen(2) by metis
        then show ?thesis using later(2) [OF same(2)] same(1) by simp
      qed
      then show ?thesis using seen(1) later(1) by linarith
    qed
  qed
qed

text \<open>Metadata that says the same before and after a read pins the version that was read.\<close>

lemma read_consistent_version:
  assumes "serves_versions ver M T f H" "offset + len \<le> U64_MAX" "read_consistent sha H f offset len w = (Inr (v, d), w')"
    "inj_on (\<lambda>n. revision sha (M n)) {ver w..ver w'}"
  shows "\<exists>n. ver w \<le> n \<and> n \<le> ver w' \<and> v = revision sha (M n) \<and> d = bytes_at (T n) offset len"
proof -
  from assms(3) obtain m u1 u2 m' where before: "ho_metadata H f w = (Inr m, u1)"
    and fill: "read_fill H f offset (min len (hm_len m - offset)) [] u1 = (Inr d, u2)"
    and after: "ho_metadata H f u2 = (Inr m', w')" and same: "revision sha m = revision sha m'" and v: "v = revision sha m'"
    by (auto simp: read_consistent_def mbind_def mret_def mfail_def host_io_def map_err_def split: prod.splits sum.splits if_splits)
  obtain n where n: "ver w \<le> n" "n \<le> ver u1" "m = M n" using serves_versionsD(2) [OF assms(1) before] by blast
  obtain n' where n': "ver u2 \<le> n'" "n' \<le> ver w'" "m' = M n'" using serves_versionsD(2) [OF assms(1) after] by blast
  have "offset + min len (hm_len m - offset) \<le> U64_MAX" using assms(2) by simp
  note filled = read_fill_versions [OF assms(1) this fill]
  have "n = n'" by (rule inj_onD [OF assms(4)]) (use n n' filled same in auto)
  then have "ver u1 = n" "ver u2 = n" using n n' filled by simp_all
  then have "d = bytes_at (T n) offset (min len (length (T n) - offset))"
    using filled n(3) serves_versionsD(1) [OF assms(1), of n] by simp
  then show ?thesis using n n' v \<open>n = n'\<close> by (metis bytes_at_min)
qed

end
