(* ===== verification/Server_Data_Properties.thy ===== *)
theory Server_Data_Properties
  imports Server_Data_Props
begin

text \<open>
  What the data path of the server guarantees: reads see one version of a file, written bytes are read back, a copy moves
  bytes as \<^verbatim>\<open>memmove\<close> does, an exchange swaps two files, and names of attributes survive their encoding. An exchange that
  fails half-way loses the contents of one file. The witnesses run on a host with short reads and writes.
\<close>

subsection \<open>The operations of a session inverted\<close>

lemma data_op_steps:
  "on_session require_writable s = (Inr y, t) \<longleftrightarrow> can_write_session (fst s) \<and> t = s"
  "on_session (open_handle h) s = (Inr opened, t) \<longleftrightarrow> map_of (se_handles (se (fst s))) h = Some opened \<and> t = s"
  "checked_range offset len limit s = (Inr y, t) \<longleftrightarrow> len \<le> limit (sh_limits (sh (fst s))) \<and> offset + len \<le> U64_MAX \<and> t = s"
  "on_host m s = (Inr x, t) \<longleftrightarrow> m (snd s) = (Inr x, snd t) \<and> fst t = fst s"
  "(if p then mfail e else k) u = (Inr x, v) \<longleftrightarrow> \<not> p \<and> k u = (Inr x, v)"
  "mret a u = (Inr b, v) \<longleftrightarrow> a = b \<and> u = v"
  by (auto simp: on_session_def require_writable_def open_handle_def ok_or_def checked_range_def map_err_def on_host_def mfail_def mret_def
      validate_range_def checked_add_def split: prod.splits sum.splits option.splits if_splits intro: prod_eqI)

lemma session_readD:
  assumes "session_read sha H h offset len (s, w) = (Inr r, (s', w'))"
  obtains opened where "s' = s" "offset + len \<le> U64_MAX" "len \<le> max_read_size (sh_limits (sh s))"
    "map_of (se_handles (se s)) h = Some opened" "can_read (of_access opened)" "read_consistent sha H h offset len w = (Inr r, w')"
  using assms unfolding session_read_def by (auto simp: data_op_steps elim!: mbind_InrE)

lemma write_ownedD:
  assumes "write_owned sha H h offset data (s, w) = (Inr (n, v, z), (s', w'))"
  obtains opened u m where "s' = s" "offset + length data \<le> U64_MAX" "length data \<le> max_write_size (sh_limits (sh s))" "can_write_session s"
    "map_of (se_handles (se s)) h = Some opened" "can_write (of_access opened)"
    "write_all_at H h offset data (of_append opened) w = (Inr (), u)" "host_io (ho_metadata H h) u = (Inr m, w')"
    "n = length data" "v = revision sha m" "z = hm_len m"
  using assms unfolding write_owned_def by (auto simp: data_op_steps elim!: mbind_InrE)

lemma session_copyD:
  assumes "session_copy_file_range sha H i soff out doff len (s, w) = (Inr (n, v, z), (s', w'))"
  obtains a b u m where "s' = s" "soff + len \<le> U64_MAX" "doff + len \<le> U64_MAX" "can_write_session s"
    "map_of (se_handles (se s)) i = Some a" "can_read (of_access a)" "map_of (se_handles (se s)) out = Some b" "can_write (of_access b)"
    "copy_range_server H i soff out doff len w = (Inr n, u)" "host_io (ho_metadata H out) u = (Inr m, w')" "v = revision sha m" "z = hm_len m"
  using assms unfolding session_copy_file_range_def
  by (auto simp: data_op_steps checked_add_def mfail_def elim!: mbind_InrE split: if_splits)

subsection \<open>A host\<close>

text \<open>
  Reads give at most two bytes and writes take at most three; the kernel copies two bytes from the start of a file and
  gives up after them; files for which \<open>full\<close> holds take no bytes. Descriptor 9 is the temporary file.
\<close>

type_synonym disk = "file_identity \<Rightarrow> bytes"

definition disk_ident :: "descriptor \<Rightarrow> file_identity" where
  "disk_ident f = \<lparr>fi_device = 5, fi_inode = f\<rparr>"

definition disk_meta :: "descriptor \<Rightarrow> bytes \<Rightarrow> int \<Rightarrow> host_meta" where
  "disk_meta f c t = \<lparr>hm_kind = KFile, hm_dev = 5, hm_ino = f, hm_len = length c, hm_atime = (0, 0), hm_mtime = (t, 0), hm_ctime = (t, 0),
     hm_btime = None, hm_mode = 420, hm_nlink = 2, hm_rdev = 0, hm_blocks = 8\<rparr>"

definition disk_error :: "errno \<Rightarrow> io_error" where
  "disk_error e = \<lparr>io_errno = Some e, io_kind_of = IoOther, io_message = ''''\<rparr>"

definition disk_host :: "(descriptor \<Rightarrow> bool) \<Rightarrow> disk host" where
  "disk_host full = \<lparr>
     ho_metadata = (\<lambda>f w. (Inr (disk_meta f (w (disk_ident f)) 0), w)),
     ho_read_at = (\<lambda>f off n w. (Inr (bytes_at (w (disk_ident f)) off (min n 2)), w)),
     ho_write_at = (\<lambda>f off d w. if full f then (Inl (disk_error ENOSPC), w)
       else (Inr (min 3 (length d)), w(disk_ident f := overwrite (w (disk_ident f)) off (take 3 d)))),
     ho_write_all = (\<lambda>f d w. if full f then (Inl (disk_error ENOSPC), w) else (Inr (), w(disk_ident f := w (disk_ident f) @ d))),
     ho_set_len = (\<lambda>f n w. (Inr (), w(disk_ident f := take n (w (disk_ident f)) @ replicate (n - length (w (disk_ident f))) 0))),
     ho_set_mode = (\<lambda>_ _ w. (Inr (), w)), ho_set_times = (\<lambda>_ _ _ w. (Inr (), w)), ho_sync = (\<lambda>_ _ w. (Inr (), w)),
     ho_fallocate = (\<lambda>_ _ _ w. (Inl (disk_error ENOTSUP), w)), ho_seek = (\<lambda>_ _ off w. (Inr off, w)),
     ho_clone = (\<lambda>out i w. if full out then (Inl (disk_error ENOSPC), w) else (Inr (), w(disk_ident out := w (disk_ident i)))),
     ho_copy_file_range = (\<lambda>i soff out doff n w. if full out then (Inl (disk_error ENOSPC), w)
       else if soff \<noteq> 0 then (Inl (disk_error (EOTHER 18)), w)
       else let k = min 2 (min n (length (w (disk_ident i)))) in
         (Inr k, w(disk_ident out := overwrite (w (disk_ident out)) doff (bytes_at (w (disk_ident i)) soff k)))),
     ho_getxattr = (\<lambda>_ _ _ w. (Inl (disk_error ENODATA), w)), ho_setxattr = (\<lambda>_ _ _ w. (Inr (), w)),
     ho_removexattr = (\<lambda>_ _ w. (Inl (disk_error ENODATA), w)), ho_listxattr = (\<lambda>_ _ w. (Inr [], w)),
     ho_unlink_temporary = (\<lambda>w. (Inr (), w(disk_ident 9 := [])))\<rparr>"

lemma disk_ident_eq [simp]: "disk_ident f = disk_ident g \<longleftrightarrow> f = g"
  by (simp add: disk_ident_def)

lemma disk_meta_simps [simp]: "hm_len (disk_meta f c t) = length c" "identity_of (disk_meta f c t) = disk_ident f"
  by (simp_all add: disk_meta_def identity_of_def disk_ident_def)

lemma disk_lawful: "posix_files (\<lambda>w. w) disk_ident (disk_host full)"
  unfolding posix_files_def
  by (intro conjI allI impI)
    (auto simp: disk_host_def Let_def bytes_at_def min_def fun_eq_iff split: if_splits)

lemma disk_calls:
  "host_io (ho_metadata (disk_host full) f) w = (Inr (disk_meta f (w (disk_ident f)) 0), w)"
  "host_io (ho_set_len (disk_host full) f 0) w = (Inr (), w(disk_ident f := []))"
  "host_io (ho_unlink_temporary (disk_host full)) w = (Inr (), w(disk_ident 9 := []))"
  "ho_clone (disk_host full) out i w = (if full out then (Inl (disk_error ENOSPC), w) else (Inr (), w(disk_ident out := w (disk_ident i))))"
  "ho_copy_file_range (disk_host full) i soff out doff n w = (if full out then (Inl (disk_error ENOSPC), w)
     else if soff \<noteq> 0 then (Inl (disk_error (EOTHER 18)), w)
     else let k = min 2 (min n (length (w (disk_ident i)))) in
       (Inr k, w(disk_ident out := overwrite (w (disk_ident out)) doff (bytes_at (w (disk_ident i)) soff k))))"
  "host_io (ho_read_at (disk_host full) f off n) w = (Inr (bytes_at (w (disk_ident f)) off (min n 2)), w)"
  "host_io (ho_write_at (disk_host full) f off d) w = (if full f then (Inl (server_error_from_io (disk_error ENOSPC)), w)
     else (Inr (min 3 (length d)), w(disk_ident f := overwrite (w (disk_ident f)) off (take 3 d))))"
  by (simp_all add: disk_host_def host_io_def map_err_def)

lemma disk_attributes:
  "optional_attribute (read_fd_xattr (disk_host full) f x n) w = (Inr None, w)"
  "replace_optional_xattr (disk_host full) f x None w = (Inr (), w)"
  "host_io (ho_sync (disk_host full) f d) w = (Inr (), w)"
  "snd (ho_unlink_temporary (disk_host full) w) = w(disk_ident 9 := [])"
  by (simp_all add: optional_attribute_def read_fd_xattr_def fetch_xattr.simps replace_optional_xattr_def disk_host_def host_io_def
      map_err_def disk_error_def ERANGE_def server_error_from_io_def)

lemma resource_name: "logical_xattr_name (\<lambda>bs. bs) RESOURCE_FORK = Inr (MAC_XATTR_PREFIX @ RESOURCE_FORK)"
  by (simp add: logical_xattr_name_def validate_xattr_name_def ebind_def starts_with_def RESOURCE_FORK_def MAC_XATTR_PREFIX_def Let_def)

lemma copy_nothing: "copy_range_in_chunks H i out offset 0 w = (Inr (), w)"
  by (simp add: copy_range_in_chunks.simps)

lemma disk_keeps: "keeps_contents (\<lambda>w. w) (disk_host full)"
  by (simp add: keeps_contents_def disk_host_def)

text \<open>A session with the files 3 and 4 open for reading and writing.\<close>

definition disk_start :: disk where
  "disk_start = (\<lambda>_. [])(disk_ident 3 := [5, 6, 7, 8, 9], disk_ident 4 := [12, 13, 14])"

definition disk_opened :: open_file where
  "disk_opened = \<lparr>of_node = 40, of_identity = disk_ident 3, of_access = ReadWrite, of_append = False\<rparr>"

definition disk_server :: srv where
  "disk_server = \<lparr>sh = \<lparr>sh_limits = default_limits, sh_writable = True, sh_node_key = [], sh_handle_permits = 6, sh_node_permits = 6,
       sh_nodes = \<lparr>by_node = [], by_identity = []\<rparr>, sh_locks = []\<rparr>,
     se = \<lparr>se_id = 7, se_write_authorized = True, se_known_nodes = [], se_node_permits = 6,
       se_handles = [(3, disk_opened), (4, disk_opened)]\<rparr>\<rparr>"

definition disk_sha :: "bytes \<Rightarrow> bytes" where
  "disk_sha bs = [sum_list bs]"

abbreviation roomy :: "disk host" where "roomy \<equiv> disk_host (\<lambda>_. False)"

lemma disk_server_simps [simp]:
  "can_write_session disk_server" "map_of (se_handles (se disk_server)) 3 = Some disk_opened"
  "map_of (se_handles (se disk_server)) 4 = Some disk_opened" "sh_limits (sh disk_server) = default_limits"
  "of_access disk_opened = ReadWrite" "\<not> of_append disk_opened"
  "on_session require_writable (disk_server, w) = (Inr (), (disk_server, w))"
  "on_session (open_handle 3) (disk_server, w) = (Inr disk_opened, (disk_server, w))"
  "on_session (open_handle 4) (disk_server, w) = (Inr disk_opened, (disk_server, w))"
  by (simp_all add: disk_server_def disk_opened_def can_write_session_def on_session_def require_writable_def open_handle_def ok_or_def)

lemmas disk_loops = read_fill.simps [of roomy] read_all_at.simps [of roomy] write_at_loop.simps [of roomy]
  copy_range_buffered.simps [of roomy] copy_backward.simps [of roomy] copy_kernel.simps [of roomy]

subsection \<open>Reads and writes\<close>

text \<open>C14. A read of the server never mixes two versions of a file: whatever others write meanwhile, the bytes a session receives
  are the requested range of one version the file had during the read, and the revision sent with them is that of this version. The
  versions the file has during the read have different revisions.\<close>

theorem session_read_untorn:
  assumes "serves_versions ver M T h H" "session_read sha H h offset len (s, w) = (Inr (v, d), (s', w'))"
    "inj_on (\<lambda>n. revision sha (M n)) {ver w..ver w'}"
  shows "\<exists>n. ver w \<le> n \<and> n \<le> ver w' \<and> v = revision sha (M n) \<and> d = bytes_at (T n) offset len"
proof -
  from session_readD [OF assms(2)] have "offset + len \<le> U64_MAX" "read_consistent sha H h offset len w = (Inr (v, d), w')" by auto
  from read_consistent_version [OF assms(1) this assms(3)] show ?thesis .
qed

text \<open>A file that another program rewrites after every fourth call; the state counts the calls.\<close>

definition busy_bytes :: "nat \<Rightarrow> bytes" where
  "busy_bytes n = [n + 2, n + 3, n + 4]"

definition busy_host :: "nat host" where
  "busy_host = \<lparr>
     ho_metadata = (\<lambda>f w. (Inr (disk_meta f (busy_bytes (w div 4)) (int (w div 4))), w + 1)),
     ho_read_at = (\<lambda>f off n w. (Inr (bytes_at (busy_bytes (w div 4)) off (min n 2)), w + 1)),
     ho_write_at = (\<lambda>_ _ _ w. (Inl (disk_error EROFS), w)), ho_write_all = (\<lambda>_ _ w. (Inl (disk_error EROFS), w)),
     ho_set_len = (\<lambda>_ _ w. (Inl (disk_error EROFS), w)), ho_set_mode = (\<lambda>_ _ w. (Inl (disk_error EROFS), w)),
     ho_set_times = (\<lambda>_ _ _ w. (Inl (disk_error EROFS), w)), ho_sync = (\<lambda>_ _ w. (Inl (disk_error EROFS), w)),
     ho_fallocate = (\<lambda>_ _ _ w. (Inl (disk_error EROFS), w)), ho_seek = (\<lambda>_ _ off w. (Inr off, w)),
     ho_clone = (\<lambda>_ _ w. (Inl (disk_error EROFS), w)), ho_copy_file_range = (\<lambda>_ _ _ _ _ w. (Inl (disk_error EROFS), w)),
     ho_getxattr = (\<lambda>_ _ _ w. (Inl (disk_error ENODATA), w)), ho_setxattr = (\<lambda>_ _ _ w. (Inl (disk_error EROFS), w)),
     ho_removexattr = (\<lambda>_ _ w. (Inl (disk_error ENODATA), w)), ho_listxattr = (\<lambda>_ _ w. (Inr [], w)),
     ho_unlink_temporary = (\<lambda>w. (Inl (disk_error EROFS), w))\<rparr>"

lemma busy_serves: "serves_versions (\<lambda>w. w div 4) (\<lambda>n. disk_meta 3 (busy_bytes n) (int n)) busy_bytes 3 busy_host"
  unfolding serves_versions_def
  by (auto simp: busy_host_def bytes_at_def busy_bytes_def min_def div_le_mono intro!: exI [of _ "_ div 4"])

lemma busy_calls:
  "host_io (ho_metadata busy_host f) w = (Inr (disk_meta f (busy_bytes (w div 4)) (int (w div 4))), w + 1)"
  "host_io (ho_read_at busy_host f off n) w = (Inr (bytes_at (busy_bytes (w div 4)) off (min n 2)), w + 1)"
  by (simp_all add: busy_host_def host_io_def map_err_def)

theorem session_read_untorn_witness:
  "\<exists>v w'. session_read disk_sha busy_host 3 0 6 (disk_server, 20) = (Inr (v, [7, 8, 9]), (disk_server, w')) \<and> w' div 4 = 6"
proof -
  let ?v = "\<lambda>n. revision disk_sha (disk_meta 3 (busy_bytes n) (int n))"
  have five: "busy_bytes 5 = [7, 8, 9]" by (simp add: busy_bytes_def)
  have "read_consistent disk_sha busy_host 3 0 6 20 = (Inr (?v 5, [7, 8, 9]), 24)"
    by (simp add: read_consistent_def mbind_def mret_def read_fill.simps [of busy_host] busy_calls five
        bytes_at_def saturating_add_def U64_MAX_def)
  then have run: "session_read disk_sha busy_host 3 0 6 (disk_server, 20) = (Inr (?v 5, [7, 8, 9]), (disk_server, 24))"
    by (simp add: session_read_def mbind_def on_host_def checked_range_def validate_range_def checked_add_def
        map_err_def U64_MAX_def default_limits_def DEFAULT_MAX_READ_SIZE_def)
  have "?v 5 \<noteq> ?v 6"
    by (simp add: revision_def disk_sha_def u64_from_le_def disk_meta_def le_bytes8_def le_bytes4_def i64_le_bytes_def busy_bytes_def upt_rec)
  moreover have "n = 5 \<or> n = 6" if "n \<in> {20 div 4..24 div 4 :: nat}" for n using that by auto
  ultimately have "inj_on ?v {20 div 4..24 div 4}" unfolding inj_on_def by metis
  from session_read_untorn [OF busy_serves run this]
  have "\<exists>n. n \<le> 24 div 4 \<and> ?v 5 = ?v n \<and> [7, 8, 9] = bytes_at (busy_bytes n) 0 6" by auto
  with run show ?thesis by (intro exI [of _ "?v 5"] exI [of _ 24]) simp
qed

text \<open>C29. What a session writes at an offset is what the next read sees, through the same or another handle of the file: the
  bytes read are those of the old contents with the new bytes in place, a gap before them filled with zeros. The reply to the
  write carries the number of bytes and the size of the file after it.\<close>

theorem written_bytes_read_back:
  assumes "posix_files content ident H" "write_owned sha H h offset data (s, w) = (Inr (n, v, z), (s1, w1))"
    "map_of (se_handles (se s)) h = Some opened" "\<not> of_append opened" "ident g = ident h"
    "session_read sha H g from_offset len (s1, w1) = (Inr (v', d), (s2, w2))"
  shows "d = bytes_at (overwrite (content w (ident h)) offset data) from_offset len \<and> n = length data \<and>
    z = length (overwrite (content w (ident h)) offset data) \<and> content w2 = (content w)(ident h := overwrite (content w (ident h)) offset data)"
proof -
  let ?C = "(content w)(ident h := overwrite (content w (ident h)) offset data)"
  obtain u m where bound: "offset + length data \<le> U64_MAX" and put: "write_all_at H h offset data False w = (Inr (), u)"
    and meta: "host_io (ho_metadata H h) u = (Inr m, w1)" and n: "n = length data" "z = hm_len m"
    by (rule write_ownedD [OF assms(2)]) (use assms(3,4) in simp)
  have "content u = ?C" using triple_Inr [OF write_all_triple [OF assms(1), where C = "content w"] _ put] bound by simp
  then have size: "z = length (?C (ident h))" and w1: "content w1 = ?C"
    using triple_Inr [OF metadata_triple [OF assms(1)] _ meta] n(2) by auto
  from session_readD [OF assms(6)] have range: "from_offset + len \<le> U64_MAX"
    and got: "read_consistent sha H g from_offset len w1 = (Inr (v', d), w2)" by auto
  from triple_Inr [OF read_consistent_triple [OF assms(1) range] w1 got] size n(1) assms(5) show ?thesis by (simp add: fun_upd_def)
qed

theorem written_bytes_read_back_witness:
  "\<exists>n v z s1 w1 s2 w2. write_owned disk_sha roomy 3 6 [40, 41, 42, 43] (disk_server, disk_start) = (Inr (n, v, z), (s1, w1)) \<and>
     session_read disk_sha roomy 3 4 10 (s1, w1) = (Inr (v, [9, 0, 40, 41, 42, 43]), (s2, w2)) \<and>
     n = 4 \<and> z = 10 \<and> w2 (disk_ident 3) = [5, 6, 7, 8, 9, 0, 40, 41, 42, 43]"
proof -
  let ?c = "[5, 6, 7, 8, 9, 0, 40, 41, 42, 43] :: bytes" let ?w = "disk_start(disk_ident 3 := ?c)"
  have "write_all_at roomy 3 6 [40, 41, 42, 43] False disk_start = (Inr (), ?w)"
    by (simp add: write_all_at_def disk_calls disk_start_def saturating_add_def U64_MAX_def disk_loops overwrite_def)
  then have put: "write_owned disk_sha roomy 3 6 [40, 41, 42, 43] (disk_server, disk_start) =
      (Inr (4, revision disk_sha (disk_meta 3 ?c 0), 10), (disk_server, ?w))"
    by (simp add: write_owned_def mbind_def on_host_def mret_def disk_calls checked_range_def validate_range_def checked_add_def
        map_err_def U64_MAX_def default_limits_def DEFAULT_MAX_WRITE_SIZE_def)
  have "read_consistent disk_sha roomy 3 4 10 ?w = (Inr (revision disk_sha (disk_meta 3 ?c 0), [9, 0, 40, 41, 42, 43]), ?w)"
    by (simp add: read_consistent_def mbind_def mret_def disk_calls disk_loops saturating_add_def U64_MAX_def bytes_at_def)
  then have get: "session_read disk_sha roomy 3 4 10 (disk_server, ?w) =
      (Inr (revision disk_sha (disk_meta 3 ?c 0), [9, 0, 40, 41, 42, 43]), (disk_server, ?w))"
    by (simp add: session_read_def mbind_def on_host_def checked_range_def validate_range_def checked_add_def
        map_err_def U64_MAX_def default_limits_def DEFAULT_MAX_READ_SIZE_def)
  from written_bytes_read_back [OF disk_lawful put _ _ _ get] have "?w (disk_ident 3) = ?c" by (simp add: disk_start_def overwrite_def)
  with put get show ?thesis by blast
qed

text \<open>C15. Copying a range within the server moves it as if it were read as a whole before anything is written, also when source and
  destination overlap in one file and whatever mix of block sharing, kernel copies and buffered copies carries it: the range is clipped at
  the end of the source, every other byte of every file is kept, and the reply has the number of bytes moved and the new size.\<close>

theorem copy_moves_range:
  assumes "posix_files content ident H" "session_copy_file_range sha H i soff out doff len (s, w) = (Inr (n, v, z), (s', w'))"
  shows "n = min len (length (content w (ident i)) - soff) \<and>
    content w' = (content w)(ident out := overwrite (content w (ident out)) doff (bytes_at (content w (ident i)) soff n)) \<and>
    z = length (content w' (ident out)) \<and> s' = s"
proof -
  obtain u m where "s' = s" and bounds: "soff + len \<le> U64_MAX" "doff + len \<le> U64_MAX"
    and copy: "copy_range_server H i soff out doff len w = (Inr n, u)"
    and meta: "host_io (ho_metadata H out) u = (Inr m, w')" and z: "z = hm_len m"
    by (rule session_copyD [OF assms(2)])
  have moved: "n = min len (length (content w (ident i)) - soff)" "content u = moved (ident i) soff (ident out) doff n (content w)"
    using triple_Inr [OF copy_range_moves [OF assms(1) bounds, where C = "content w"] _ copy] by auto
  with triple_Inr [OF metadata_triple [OF assms(1), where C = "content u"] _ meta] z \<open>s' = s\<close> show ?thesis by (simp add: moved_def)
qed

theorem copy_moves_range_witness:
  "session_copy_file_range disk_sha roomy 3 0 3 2 3 (disk_server, disk_start) =
     (Inr (3, revision disk_sha (disk_meta 3 [5, 6, 5, 6, 7] 0), 5), (disk_server, disk_start(disk_ident 3 := [5, 6, 5, 6, 7]))) \<and>
   disk_start(disk_ident 3 := [5, 6, 5, 6, 7]) = disk_start(disk_ident 3 := overwrite [5, 6, 7, 8, 9] 2 (bytes_at [5, 6, 7, 8, 9] 0 3))"
proof -
  have "copy_range_server roomy 3 0 3 2 3 disk_start = (Inr 3, disk_start(disk_ident 3 := [5, 6, 5, 6, 7]))"
    by (simp add: copy_range_server_def clone_whole_def disk_calls mbind_def mret_def Let_def disk_start_def saturating_add_def
        U64_MAX_def copy_range_buffered_overlap_def disk_loops COPY_CHUNK_def write_all_at_def bytes_at_def overwrite_def)
  then have run: "session_copy_file_range disk_sha roomy 3 0 3 2 3 (disk_server, disk_start) =
     (Inr (3, revision disk_sha (disk_meta 3 [5, 6, 5, 6, 7] 0), 5), (disk_server, disk_start(disk_ident 3 := [5, 6, 5, 6, 7])))"
    by (simp add: session_copy_file_range_def mbind_def on_host_def mret_def disk_calls checked_add_def U64_MAX_def)
  from copy_moves_range [OF disk_lawful run] run show ?thesis by (simp add: disk_start_def)
qed

subsection \<open>Exchanges\<close>

text \<open>C16. An exchange that reports success has swapped the contents of the two files. The temporary file is another file,
  removing it touches no other, and the exchange of the resource forks does not touch the two files.\<close>

theorem exchange_swaps:
  assumes "posix_files content ident H" "keeps_contents content H"
    "ident l \<noteq> ident r" "ident l \<noteq> ident t" "ident r \<noteq> ident t"
    "length (content w (ident l)) \<le> U64_MAX" "length (content w (ident r)) \<le> U64_MAX"
    "\<forall>w i. i \<noteq> ident t \<longrightarrow> content (snd (ho_unlink_temporary H w)) i = content w i"
    "\<forall>w i. i = ident l \<or> i = ident r \<longrightarrow> content (snd (forks w)) i = content w i"
    "exchange_task enc H forks l r t w = (Inr x, w')"
  shows "content w' (ident l) = content w (ident r) \<and> content w' (ident r) = content w (ident l)"
proof -
  from assms(10) obtain u a v where exchanged: "exchange_file_contents enc H l r t w = (Inr a, u)" and forks: "v = snd (forks u)"
    and w': "w' = snd (ho_unlink_temporary H v)"
    by (auto simp: exchange_task_def mbind_def host_io_def Let_def split: prod.splits sum.splits)
  have "content u (ident l) = content w (ident r) \<and> content u (ident r) = content w (ident l)"
    using triple_Inr [OF exchange_triple [OF assms(1-5), where C = "content w"] _ exchanged] assms(3,6,7) by simp
  then show ?thesis using assms(3-5,8,9) by (simp add: w' forks)
qed

theorem exchange_swaps_witness:
  "\<exists>w. exchange_task (\<lambda>bs. bs) roomy (mret ()) 3 4 9 disk_start = (Inr (), w) \<and>
     w (disk_ident 3) = [12, 13, 14] \<and> w (disk_ident 4) = [5, 6, 7, 8, 9]"
proof -
  have copied: "copy_range_in_chunks roomy i out 0 n w = (Inr (), w(disk_ident out := w (disk_ident i)))"
    if "w (disk_ident out) = []" "n = length (w (disk_ident i))" "0 < n" "n \<le> EXCHANGE_CHUNK" for i out n w
    using that by (simp add: copy_range_in_chunks.simps [of _ _ _ 0] copy_nothing copy_range_server_def
        clone_whole_def disk_calls mbind_def mret_def Let_def)
  have "exchange_file_contents (\<lambda>bs. bs) roomy 3 4 9 disk_start = (Inr (), disk_start
      (disk_ident 9 := [5, 6, 7, 8, 9], disk_ident 3 := [12, 13, 14], disk_ident 4 := [5, 6, 7, 8, 9]))"
    unfolding exchange_file_contents_def
    by (simp add: mbind_def mlift_def disk_calls disk_attributes copied resource_name EXCHANGE_CHUNK_def disk_start_def fun_upd_twist)
  then obtain w where run: "exchange_task (\<lambda>bs. bs) roomy (mret ()) 3 4 9 disk_start = (Inr (), w)"
    by (simp add: exchange_task_def mbind_def mret_def disk_calls Let_def)
  from exchange_swaps [OF disk_lawful disk_keeps _ _ _ _ _ _ _ run] run show ?thesis
    by (simp add: disk_start_def disk_attributes mret_def U64_MAX_def)
qed

text \<open>C30. An exchange that fails half-way can lose a whole file. On a host on which nothing can be written to the first file once it
  has been cut, while every other call succeeds, the exchange reports the lack of space and leaves the first file empty, the second as
  it was and the temporary file, which held the only copy of the first, removed.\<close>

theorem failed_exchange_loses_file:
  assumes "0 < length (w (disk_ident 3))" "length (w (disk_ident 3)) \<le> EXCHANGE_CHUNK"
    "0 < length (w (disk_ident 4))" "length (w (disk_ident 4)) \<le> EXCHANGE_CHUNK"
  shows "posix_files (\<lambda>w. w) disk_ident (disk_host (\<lambda>f. f = 3)) \<and>
    exchange_task enc (disk_host (\<lambda>f. f = 3)) forks 3 4 9 w = (Inl SNoSpace, w(disk_ident 3 := [], disk_ident 9 := []))"
proof
  let ?H = "disk_host (\<lambda>f. f = 3)" let ?c = "w (disk_ident 3)"
  have saved: "copy_range_in_chunks ?H 3 9 0 (length ?c) (w(disk_ident 9 := [])) = (Inr (), w(disk_ident 9 := ?c))"
    using assms(1,2) by (simp add: copy_range_in_chunks.simps [of _ _ _ 0] copy_nothing copy_range_server_def
        clone_whole_def disk_calls mbind_def mret_def Let_def)
  have failed: "copy_range_in_chunks ?H 4 3 0 (length (w (disk_ident 4))) v = (Inl SNoSpace, v)"
    if "v (disk_ident 4) = w (disk_ident 4)" "v (disk_ident 3) = []" for v
    using assms(3,4) that by (simp add: copy_range_in_chunks.simps [of _ _ _ 0] copy_range_server_def clone_whole_def
        copy_kernel.simps [of _ _ _ _ _ 0] disk_calls mbind_def mret_def Let_def copy_unsupported_def disk_error_def
        server_error_from_io_def)
  show "exchange_task enc ?H forks 3 4 9 w = (Inl SNoSpace, w(disk_ident 3 := [], disk_ident 9 := []))"
    unfolding exchange_task_def exchange_file_contents_def
    by (simp add: mbind_def disk_calls saved failed Let_def fun_upd_twist)
qed (rule disk_lawful)

theorem failed_exchange_loses_file_witness:
  "exchange_task (\<lambda>bs. bs) (disk_host (\<lambda>f. f = 3)) (mret ()) 3 4 9 disk_start = (Inl SNoSpace, disk_start(disk_ident 3 := [], disk_ident 9 := [])) \<and>
   disk_start (disk_ident 3) = [5, 6, 7, 8, 9]"
  using failed_exchange_loses_file [of disk_start] by (simp add: disk_start_def EXCHANGE_CHUNK_def)

subsection \<open>Names of attributes\<close>

lemma starts_with_append: "starts_with (p @ q) x \<Longrightarrow> starts_with p x"
  by (metis append_eq_conv_conj starts_with_def append_assoc append_take_drop_id)

lemma reserved_names:
  assumes "\<not> starts_with (map of_char ''user.quickfs.'') x"
  shows "\<not> starts_with MAC_XATTR_PREFIX x" "x \<noteq> BACKUP_TIME_XATTR"
proof -
  have "MAC_XATTR_PREFIX = map of_char ''user.quickfs.'' @ map of_char ''mac.''" by (simp add: MAC_XATTR_PREFIX_def)
  then show "\<not> starts_with MAC_XATTR_PREFIX x" using assms starts_with_append by metis
  show "x \<noteq> BACKUP_TIME_XATTR" using assms by (auto simp: starts_with_def BACKUP_TIME_XATTR_def)
qed

text \<open>The name under which the host stores an attribute gives back the name the client used, for every name the server accepts,
  when Base64 decodes what it has encoded.\<close>

lemma xattr_name_roundtrip:
  assumes "dec (enc x) = Some x" "logical_xattr_name enc x = Inr y"
  shows "host_xattr_name dec y = Some x"
proof -
  have plain: "host_xattr_name dec x = Some x" if "starts_with (map of_char ''user.'') x" "\<not> starts_with (map of_char ''user.quickfs.'') x"
    using that reserved_names [of x] by (auto simp: host_xattr_name_def)
  have encoded: "host_xattr_name dec (MAC_XATTR_PREFIX @ enc x) = Some x"
    using assms(1) by (simp add: host_xattr_name_def starts_with_def MAC_XATTR_PREFIX_def BACKUP_TIME_XATTR_def)
  from assms(2) plain encoded show ?thesis
    by (auto simp: logical_xattr_name_def validate_xattr_name_def ebind_def Let_def split: if_splits)
qed

end
