(* ===== verification/Server_Paths.thy ===== *)
theory Server_Paths
  imports Server_Data
begin

text \<open>
  \<^verbatim>\<open>crates/server-core\<close>, from nodes to files: walking a path below the root of the export one component at a
  time, opening one of the paths of a node, finding a node that is not in the registry, and metadata of nodes.
  The Linux build is modelled.

  \<^item> The calls that take a directory and a name are the parameter \<open>names\<close>. Every open has
    \<^verbatim>\<open>NOFOLLOW\<close> and \<^verbatim>\<open>CLOEXEC\<close>; \<^verbatim>\<open>statat\<close> does not follow links.
    \<^verbatim>\<open>mknodat\<close> takes the two numbers of a device, which \<^verbatim>\<open>makedev\<close> joins.
  \<^item> A path is the list of its components, all of them names. The host has the seven kinds of files of the protocol.
  \<^item> The gates that serialise tasks on one file are not modelled: an operation is one step.
\<close>

subsection \<open>The host\<close>

text \<open>Flags of an open; \<open>fl_create\<close> is \<^verbatim>\<open>CREATE | EXCL\<close>.\<close>

record oflags =
  fl_access :: file_access
  fl_append :: bool
  fl_directory :: bool
  fl_nonblock :: bool
  fl_create :: bool

record 'h names =
  nm_dup_root :: "('h, descriptor) call"
  nm_stat_root :: "('h, host_meta) call"
  nm_openat :: "descriptor \<Rightarrow> name \<Rightarrow> oflags \<Rightarrow> u32 \<Rightarrow> ('h, descriptor) call"
  nm_statat :: "descriptor \<Rightarrow> name \<Rightarrow> ('h, host_meta) call"
  nm_readdir :: "descriptor \<Rightarrow> ('h, name list) call"
  nm_mkdirat :: "descriptor \<Rightarrow> name \<Rightarrow> u32 \<Rightarrow> ('h, unit) call"
  nm_symlinkat :: "bytes \<Rightarrow> descriptor \<Rightarrow> name \<Rightarrow> ('h, unit) call"
  nm_linkat :: "descriptor \<Rightarrow> name \<Rightarrow> descriptor \<Rightarrow> name \<Rightarrow> ('h, unit) call"
  nm_mknodat :: "descriptor \<Rightarrow> name \<Rightarrow> special_node_kind \<Rightarrow> u32 \<Rightarrow> u32 \<Rightarrow> u32 \<Rightarrow> ('h, unit) call"
  nm_unlinkat :: "descriptor \<Rightarrow> name \<Rightarrow> bool \<Rightarrow> ('h, unit) call"
  nm_renameat :: "descriptor \<Rightarrow> name \<Rightarrow> descriptor \<Rightarrow> name \<Rightarrow> rename_mode \<Rightarrow> ('h, unit) call"
  nm_readlinkat :: "descriptor \<Rightarrow> name \<Rightarrow> ('h, bytes) call"
  nm_chmodat :: "descriptor \<Rightarrow> name \<Rightarrow> u32 \<Rightarrow> ('h, unit) call"
  nm_utimensat :: "descriptor \<Rightarrow> name \<Rightarrow> u64 option \<Rightarrow> u64 option \<Rightarrow> ('h, unit) call"
  nm_stat_fork :: "node_id \<Rightarrow> ('h, host_meta) call"
  nm_sync :: "descriptor \<Rightarrow> ('h, unit) call"
  nm_create_temporary :: "('h, descriptor) call"

text \<open>What a server is built with; \<open>sv_forks\<close> is there when the export keeps its state.\<close>

record 'h server_env =
  sv_sha :: "bytes \<Rightarrow> bytes"
  sv_enc :: "bytes \<Rightarrow> bytes"
  sv_dec :: "bytes \<Rightarrow> bytes option"
  sv_components :: "bytes \<Rightarrow> component list"
  sv_host :: "'h host"
  sv_names :: "'h names"
  sv_forks :: "'h side_host option"

definition directory_flags :: oflags where
  "directory_flags = \<lparr>fl_access = ReadOnly, fl_append = False, fl_directory = True, fl_nonblock = False, fl_create = False\<rparr>"

definition open_flags :: "file_access \<Rightarrow> bool \<Rightarrow> oflags" where
  "open_flags access appending = \<lparr>fl_access = access, fl_append = appending, fl_directory = False, fl_nonblock = False, fl_create = False\<rparr>"

definition dot_dot :: name where "dot_dot = [DOT, DOT]"

definition is_dot :: "name \<Rightarrow> bool" where
  "is_dot n \<longleftrightarrow> n = [DOT] \<or> n = dot_dot"

subsection \<open>Walking a path\<close>

fun open_walk :: "'h names \<Rightarrow> descriptor \<Rightarrow> path \<Rightarrow> ('h, descriptor) hop" where
  "open_walk N d [] = mret d"
| "open_walk N d (n # p) =
     (if n = dot_dot then mfail SPermissionDenied
      else mbind (host_io (nm_openat N d n directory_flags 0)) (\<lambda>e. open_walk N e p))"

definition open_directory :: "'h names \<Rightarrow> path \<Rightarrow> ('h, descriptor) hop" where
  "open_directory N p = mbind (host_io (nm_dup_root N)) (\<lambda>d. open_walk N d p)"

definition open_parent :: "'h names \<Rightarrow> path \<Rightarrow> ('h, descriptor \<times> name) hop" where
  "open_parent N p = (if p = [] \<or> last p = dot_dot then mfail (SInvalidRequest ''root has no parent entry'')
     else mbind (open_directory N (butlast p)) (\<lambda>d. mret (d, last p)))"

definition open_relative :: "'h names \<Rightarrow> 'h host \<Rightarrow> path \<Rightarrow> oflags \<Rightarrow> ('h, descriptor \<times> path \<times> host_meta) hop" where
  "open_relative N H p flags =
     (if p = [] then mbind (host_io (nm_dup_root N)) (\<lambda>f. mbind (host_io (ho_metadata H f)) (\<lambda>m. mret (f, [], m)))
      else mbind (open_parent N p) (\<lambda>(d, n). mbind (host_io (nm_openat N d n flags 0)) (\<lambda>f.
        mbind (host_io (ho_metadata H f)) (\<lambda>m. mret (f, p, m)))))"

definition secure_lstat :: "'h names \<Rightarrow> path \<Rightarrow> ('h, host_meta) hop" where
  "secure_lstat N p = (if p = [] then host_io (nm_stat_root N)
     else mbind (open_parent N p) (\<lambda>(d, n). host_io (nm_statat N d n)))"

subsection \<open>The paths of a node\<close>

definition wrong_kind :: "node_kind \<Rightarrow> server_error" where
  "wrong_kind expected = (case expected of
     KDirectory \<Rightarrow> SNotDirectory
   | KFile \<Rightarrow> SIsDirectory
   | KSymlink \<Rightarrow> SInvalidRequest ''node is not a symbolic link''
   | _ \<Rightarrow> SInvalidRequest ''node has a different special-file type'')"

definition later_error :: "server_error \<Rightarrow> server_error option \<Rightarrow> server_error option" where
  "later_error e first = (if e = SNotFound \<or> e = SNotDirectory then first else if first = None then Some e else first)"

fun open_paths :: "'h names \<Rightarrow> 'h host \<Rightarrow> file_identity \<Rightarrow> oflags \<Rightarrow> node_kind option \<Rightarrow> server_error option \<Rightarrow> path list
    \<Rightarrow> ('h, descriptor \<times> path \<times> host_meta) hop" where
  "open_paths N H i flags expected first [] w = (Inl (case first of Some e \<Rightarrow> e | None \<Rightarrow> SNotFound), w)"
| "open_paths N H i flags expected first (p # ps) w = (case open_relative N H p flags w of
     (Inl e, w') \<Rightarrow> open_paths N H i flags expected (later_error e first) ps w'
   | (Inr (f, q, m), w') \<Rightarrow>
       if identity_of m \<noteq> i then open_paths N H i flags expected first ps w'
       else case expected of
         Some k \<Rightarrow> if hm_kind m \<noteq> k then (Inl (wrong_kind k), w') else (Inr (f, q, m), w')
       | None \<Rightarrow> (Inr (f, q, m), w'))"

definition open_snapshot :: "'h server_env \<Rightarrow> node_snapshot_r \<Rightarrow> oflags \<Rightarrow> node_kind option \<Rightarrow> ('h, descriptor \<times> path \<times> host_meta) hop" where
  "open_snapshot E snap flags expected = open_paths (sv_names E) (sv_host E) (ns_identity snap) flags expected None (ns_paths snap)"

fun stat_paths :: "'h names \<Rightarrow> file_identity \<Rightarrow> server_error option \<Rightarrow> path list \<Rightarrow> ('h, host_meta option) hop" where
  "stat_paths N i first [] w = (case first of Some e \<Rightarrow> (Inl e, w) | None \<Rightarrow> (Inr None, w))"
| "stat_paths N i first (p # ps) w = (case secure_lstat N p w of
     (Inl e, w') \<Rightarrow> stat_paths N i (later_error e first) ps w'
   | (Inr m, w') \<Rightarrow> if identity_of m \<noteq> i then stat_paths N i first ps w' else (Inr (Some m), w'))"

definition path_stat :: "'h server_env \<Rightarrow> node_snapshot_r \<Rightarrow> ('h, host_meta option) hop" where
  "path_stat E snap =
     (if [] \<in> set (ns_paths snap)
      then mbind (host_io (nm_stat_root (sv_names E))) (\<lambda>m. mret (if identity_of m = ns_identity snap then Some m else None))
      else stat_paths (sv_names E) (ns_identity snap) None (ns_paths snap))"

definition open_xattr_file :: "'h server_env \<Rightarrow> node_snapshot_r \<Rightarrow> ('h, descriptor) hop" where
  "open_xattr_file E snap = mbind (path_stat E snap) (\<lambda>st. case st of
     None \<Rightarrow> mfail SNotFound
   | Some m \<Rightarrow>
       if hm_kind m = KSymlink then mfail SNotSupported
       else mbind (open_snapshot E snap (if hm_kind m = KDirectory then directory_flags
           else (open_flags ReadOnly False)\<lparr>fl_nonblock := True\<rparr>) None) (\<lambda>(f, _, _). mret f))"

subsection \<open>Metadata\<close>

text \<open>\<^verbatim>\<open>revision_from_stat\<close> hashes the same fields as \<^verbatim>\<open>revision\<close>; the time of creation is not in a \<^verbatim>\<open>stat\<close>.\<close>

definition to_metadata_from_stat :: "(bytes \<Rightarrow> bytes) \<Rightarrow> node_id \<Rightarrow> host_meta \<Rightarrow> metadata" where
  "to_metadata_from_stat sha node m = \<lparr>md_node = node, md_kind = hm_kind m, md_size = hm_len m, md_mode = hm_mode m mod 4096,
     md_allocated_blocks = hm_blocks m, md_revision = revision sha m,
     md_accessed_unix_ms = (case unix_timestamp_millis (fst (hm_atime m)) (snd (hm_atime m)) of Some t \<Rightarrow> t | None \<Rightarrow> 0),
     md_modified_unix_ms = (case unix_timestamp_millis (fst (hm_mtime m)) (snd (hm_mtime m)) of Some t \<Rightarrow> t | None \<Rightarrow> 0),
     md_created_unix_ms = None, md_backup_unix_ms = None,
     md_link_count = min (hm_nlink m) U32_MAX, md_device_major = dev_major (hm_rdev m), md_device_minor = dev_minor (hm_rdev m)\<rparr>"

definition le_bytes16 :: "nat \<Rightarrow> bytes" where
  "le_bytes16 n = map (\<lambda>k. n div 256 ^ k mod 256) [0..<16]"

definition fork_revision :: "(bytes \<Rightarrow> bytes) \<Rightarrow> u64 \<Rightarrow> host_meta \<Rightarrow> u64" where
  "fork_revision sha v m = u64_from_le (take 8 (sha (map of_char ''quickfs resource fork revision v1'' @ le_bytes8 v @ le_bytes8 (hm_len m) @
     (case hm_mtime m of (seconds, nanoseconds) \<Rightarrow>
        if seconds < 0 then [] else le_bytes16 (nat (seconds * 1000000000 + nanoseconds))))))"

definition enrich_resource_fork_revision :: "'h server_env \<Rightarrow> node_id \<Rightarrow> metadata \<Rightarrow> ('h, metadata) hop" where
  "enrich_resource_fork_revision E node md w = (case sv_forks E of
     None \<Rightarrow> (Inr md, w)
   | Some _ \<Rightarrow> (case nm_stat_fork (sv_names E) node w of
       (Inl _, w') \<Rightarrow> (Inr md, w')
     | (Inr m, w') \<Rightarrow> (Inr (md\<lparr>md_revision := fork_revision (sv_sha E) (md_revision md) m\<rparr>), w')))"

definition read_backup_time :: "'h server_env \<Rightarrow> node_snapshot_r \<Rightarrow> ('h, u64 option) hop" where
  "read_backup_time E snap w = (case open_xattr_file E snap w of
     (Inl e, w') \<Rightarrow> if e = SNotSupported then (Inr None, w') else (Inl e, w')
   | (Inr f, w') \<Rightarrow> read_fd_backup_time (sv_host E) f w')"

text \<open>\<^verbatim>\<open>.ok().flatten()\<close>.\<close>

definition ok_flatten :: "('h, 'a option) hop \<Rightarrow> ('h, 'a option) hop" where
  "ok_flatten m w = (case m w of (Inr v, w') \<Rightarrow> (Inr v, w') | (Inl _, w') \<Rightarrow> (Inr None, w'))"

subsection \<open>Snapshots of nodes\<close>

text \<open>\<^verbatim>\<open>discover_node\<close>: the entries of one directory with their metadata, the special names included.\<close>

fun stat_entries :: "'h names \<Rightarrow> descriptor \<Rightarrow> name list \<Rightarrow> ('h, (name \<times> host_meta) list) hop" where
  "stat_entries N d [] = mret []"
| "stat_entries N d (n # ns) = mbind (host_io (nm_statat N d n)) (\<lambda>m. mbind (stat_entries N d ns) (\<lambda>es. mret ((n, m) # es)))"

datatype scan_result = ScanFound file_identity path | ScanOn "path list" nat

fun scan_entries :: "(file_identity \<Rightarrow> bool) \<Rightarrow> nat \<Rightarrow> path \<Rightarrow> path list \<Rightarrow> nat \<Rightarrow> (name \<times> host_meta) list \<Rightarrow> server_error + scan_result" where
  "scan_entries sought limit relative pending visited [] = Inr (ScanOn pending visited)"
| "scan_entries sought limit relative pending visited ((n, m) # es) =
     (if is_dot n then scan_entries sought limit relative pending visited es
      else if visited + 1 > limit then Inl STooManyNodes
      else if sought (identity_of m) then Inr (ScanFound (identity_of m) (relative @ [n]))
      else scan_entries sought limit relative
        (if hm_kind m = KDirectory then (relative @ [n]) # pending else pending) (visited + 1) es)"

lemma scan_entries_measure:
  "scan_entries sought limit relative pending visited es = Inr (ScanOn pending' visited') \<Longrightarrow>
     visited \<le> visited' \<and> (visited < visited' \<longrightarrow> visited' \<le> limit) \<and> length pending' \<le> length pending + (visited' - visited)"
  by (induction sought limit relative pending visited es rule: scan_entries.induct) (auto split: if_splits)

text \<open>The stack of directories to visit; every directory on it was counted when it was seen.\<close>

function discover_loop :: "'h server_env \<Rightarrow> (file_identity \<Rightarrow> bool) \<Rightarrow> nat \<Rightarrow> path list \<Rightarrow> nat \<Rightarrow> ('h, file_identity \<times> path) hop" where
  "discover_loop E sought limit pending visited w = (case pending of
     [] \<Rightarrow> (Inl SInvalidNode, w)
   | relative # rest \<Rightarrow>
       (case mbind (open_directory (sv_names E) relative) (\<lambda>d. mbind (host_io (nm_readdir (sv_names E) d)) (\<lambda>ns.
           mbind (stat_entries (sv_names E) d ns) (\<lambda>es. mlift (scan_entries sought limit relative rest visited es)))) w of
         (Inl e, w') \<Rightarrow> (Inl e, w')
       | (Inr (ScanFound i p), w') \<Rightarrow> (Inr (i, p), w')
       | (Inr (ScanOn pending' visited'), w') \<Rightarrow> discover_loop E sought limit pending' visited' w'))"
  by pat_completeness auto
termination
proof (relation "measure (\<lambda>(_, _, limit, pending, visited, _). 2 * (limit - visited) + length pending)", goal_cases)
  case (2 E sought limit pending visited w relative rest r w' x pending' visited')
  from 2 obtain es where "scan_entries sought limit relative rest visited es = Inr (ScanOn pending' visited')"
    by (auto simp: mbind_def mlift_def split: prod.splits sum.splits)
  from scan_entries_measure [OF this] 2(1) show ?case by auto
qed simp

declare discover_loop.simps [simp del]

definition discover_node :: "'h server_env \<Rightarrow> node_id \<Rightarrow> ('h, unit) data_op" where
  "discover_node E requested =
     (if requested = ROOT_NODE then mret ()
      else (\<lambda>s. mbind (on_host (discover_loop E
            (\<lambda>i. stable_node_id (sv_sha E) (sh_node_key (sh (fst s))) i = requested)
            (max_total_known_nodes (sh_limits (sh (fst s)))) [[]] 0)) (\<lambda>(i, p).
        mbind (on_session (remember (sv_sha E) i p)) (\<lambda>n.
        if n = requested then mret () else mfail SStateUnavailable)) s))"

definition node_snapshot :: "'h server_env \<Rightarrow> node_id \<Rightarrow> ('h, node_snapshot_r) data_op" where
  "node_snapshot E node = mbind (\<lambda>s. if contains_key (nodes_of (fst s)) node then (Inr (), s) else discover_node E node s) (\<lambda>_ s.
     case map_of (nodes_of (fst s)) node of
       None \<Rightarrow> (Inl SInvalidNode, s)
     | Some k \<Rightarrow> mbind (on_session (track_node node)) (\<lambda>_. mret \<lparr>ns_identity = kn_identity k, ns_paths = kn_paths k\<rparr>) s)"

definition session_metadata :: "'h server_env \<Rightarrow> node_id \<Rightarrow> ('h, metadata) data_op" where
  "session_metadata E node = mbind (node_snapshot E node) (\<lambda>snap.
     on_host (mbind (path_stat E snap) (\<lambda>st. case st of
       None \<Rightarrow> mfail SNotFound
     | Some m \<Rightarrow> mbind (ok_flatten (read_backup_time E snap)) (\<lambda>t.
         enrich_resource_fork_revision E node ((to_metadata_from_stat (sv_sha E) node m)\<lparr>md_backup_unix_ms := t\<rparr>)))))"

end
