(* ===== verification/Server_Names.thy ===== *)
theory Server_Names
  imports Server_Paths
begin

text \<open>
  \<^verbatim>\<open>crates/server-core\<close>, the operations of a session on names: opening and creating, links, removing, renaming, listing,
  attributes of nodes and the exchange of two files.

  \<^item> A handle is named by the number of its descriptor, which is new.
  \<^item> A permit that an operation has taken is given back when it returns early, as its destructor does.
  \<^item> The tasks that scan the entries of a directory run one after another, in the order of the names.
\<close>

subsection \<open>Permits\<close>

definition releasing :: "(srv \<Rightarrow> srv) \<Rightarrow> ('h, 'a) data_op \<Rightarrow> ('h, 'a) data_op" where
  "releasing give_back m s = (case m s of
     (Inl e, (t, w)) \<Rightarrow> (Inl e, (give_back t, w)) | (Inr x, t) \<Rightarrow> (Inr x, t))"

definition drop_node_permits :: "srv \<Rightarrow> srv" where
  "drop_node_permits s = upd_session_permits Suc (upd_global_permits Suc s)"

definition with_handle_permit :: "('h, 'a) data_op \<Rightarrow> ('h, 'a) data_op" where
  "with_handle_permit m = mbind (on_session acquire_handle_permit) (\<lambda>_. releasing (upd_handle_permits Suc) m)"

text \<open>\<open>prepare\<close> runs while the two permits of a node are held; \<^verbatim>\<open>remember_reserved\<close> takes them over.\<close>

definition with_reserved_node :: "'h server_env \<Rightarrow> ('h, file_identity \<times> path \<times> 'a) data_op \<Rightarrow> ('h, node_id \<times> 'a) data_op" where
  "with_reserved_node E prepare = mbind (on_session reserve_node) (\<lambda>_.
     mbind (releasing drop_node_permits prepare) (\<lambda>(i, p, x).
     mbind (on_session (remember_reserved (sv_sha E) i p)) (\<lambda>n. mret (n, x))))"

definition insert_opened :: "descriptor \<Rightarrow> open_file \<Rightarrow> file_handle sop" where
  "insert_opened f opened s = (Inr f, snd (insert_handle [f] opened s))"

subsection \<open>Opening and creating\<close>

definition session_open :: "'h server_env \<Rightarrow> node_id \<Rightarrow> file_open_options \<Rightarrow> ('h, file_handle \<times> u64 \<times> u64) data_op" where
  "session_open E node options = mbind (\<lambda>s. (validate_open_options options (can_write_session (fst s)), s)) (\<lambda>_.
     with_handle_permit (mbind (node_snapshot E node) (\<lambda>snap.
       mbind (on_host (mbind (open_snapshot E snap (open_flags (oo_access options) (oo_append options)) (Some KFile)) (\<lambda>(f, _, _).
         mbind (if oo_truncate options then host_io (ho_set_len (sv_host E) f 0) else mret ()) (\<lambda>_.
         mbind (host_io (ho_metadata (sv_host E) f)) (\<lambda>m. mret (f, m)))))) (\<lambda>(f, m).
       mbind (on_session (insert_opened f \<lparr>of_node = node, of_identity = ns_identity snap, of_access = oo_access options,
           of_append = oo_append options\<rparr>)) (\<lambda>h. mret (h, revision (sv_sha E) m, hm_len m))))))"

text \<open>The directory of a node, open.\<close>

definition open_directory_node :: "'h server_env \<Rightarrow> node_id \<Rightarrow> ('h, descriptor \<times> path) data_op" where
  "open_directory_node E node = mbind (node_snapshot E node) (\<lambda>snap.
     on_host (mbind (open_snapshot E snap directory_flags (Some KDirectory)) (\<lambda>(d, p, _). mret (d, p))))"

definition session_create_file :: "'h server_env \<Rightarrow> node_id \<Rightarrow> name \<Rightarrow> u32 \<Rightarrow> file_open_options
    \<Rightarrow> ('h, metadata \<times> file_handle \<times> u64 \<times> u64) data_op" where
  "session_create_file E parent name mode options = mbind (on_session require_writable) (\<lambda>_.
     mbind (mlift (validate_name name)) (\<lambda>_. mbind (mlift (validate_open_options options True)) (\<lambda>_.
     with_handle_permit (mbind (with_reserved_node E (mbind (open_directory_node E parent) (\<lambda>(d, p).
         on_host (mbind (host_io (nm_openat (sv_names E) d name
             ((open_flags (oo_access options) (oo_append options))\<lparr>fl_create := True\<rparr>) (mode mod 4096))) (\<lambda>f.
           mbind (host_io (ho_metadata (sv_host E) f)) (\<lambda>m. mret (identity_of m, p @ [name], (f, m)))))))) (\<lambda>(n, f, m).
       mbind (on_session (insert_opened f \<lparr>of_node = n, of_identity = identity_of m, of_access = oo_access options,
           of_append = oo_append options\<rparr>)) (\<lambda>h. mret (to_metadata (sv_sha E) n m, h, revision (sv_sha E) m, hm_len m)))))))"

definition session_create_directory :: "'h server_env \<Rightarrow> node_id \<Rightarrow> name \<Rightarrow> u32 \<Rightarrow> ('h, metadata) data_op" where
  "session_create_directory E parent name mode = mbind (on_session require_writable) (\<lambda>_. mbind (mlift (validate_name name)) (\<lambda>_.
     mbind (with_reserved_node E (mbind (open_directory_node E parent) (\<lambda>(d, p).
       on_host (mbind (host_io (nm_mkdirat (sv_names E) d name (mode mod 4096))) (\<lambda>_.
         mbind (open_relative (sv_names E) (sv_host E) (p @ [name]) directory_flags) (\<lambda>(_, _, m).
         mret (identity_of m, p @ [name], m))))))) (\<lambda>(n, m). mret (to_metadata (sv_sha E) n m))))"

text \<open>Creating with a call, then asking for the identity of the new entry: symbolic links and special files.\<close>

definition create_and_stat :: "'h server_env \<Rightarrow> node_id \<Rightarrow> name \<Rightarrow> (descriptor \<Rightarrow> ('h, unit) call) \<Rightarrow> ('h, metadata) data_op" where
  "create_and_stat E parent name creates = mbind (with_reserved_node E (mbind (open_directory_node E parent) (\<lambda>(d, p).
       on_host (mbind (host_io (creates d)) (\<lambda>_. mbind (secure_lstat (sv_names E) (p @ [name])) (\<lambda>m.
         mret (identity_of m, p @ [name], ()))))))) (\<lambda>(n, _). session_metadata E n)"

definition session_create_symlink :: "'h server_env \<Rightarrow> node_id \<Rightarrow> name \<Rightarrow> bytes \<Rightarrow> ('h, metadata) data_op" where
  "session_create_symlink E parent name target = mbind (on_session require_writable) (\<lambda>_. mbind (mlift (validate_name name)) (\<lambda>_.
     mbind (mlift (validate_symlink_target (sv_components E) target)) (\<lambda>_.
     create_and_stat E parent name (\<lambda>d. nm_symlinkat (sv_names E) target d name))))"

definition session_create_special_node :: "'h server_env \<Rightarrow> node_id \<Rightarrow> name \<Rightarrow> special_node_kind \<Rightarrow> u32 \<Rightarrow> u32 \<Rightarrow> u32 \<Rightarrow> ('h, metadata) data_op" where
  "session_create_special_node E parent name kind mode major minor = mbind (on_session require_writable) (\<lambda>_.
     mbind (mlift (validate_name name)) (\<lambda>_.
     create_and_stat E parent name (\<lambda>d. nm_mknodat (sv_names E) d name kind (mode mod 4096) major minor)))"

text \<open>The loop of \<^verbatim>\<open>create_hard_link\<close> up to the call that makes the link.\<close>

fun link_paths :: "'h server_env \<Rightarrow> file_identity \<Rightarrow> descriptor \<Rightarrow> name \<Rightarrow> path list \<Rightarrow> ('h, unit) hop" where
  "link_paths E i d name [] w = (Inl SNotFound, w)"
| "link_paths E i d name (p # ps) w =
     (if p = [] then (Inl SPermissionDenied, w)
      else case secure_lstat (sv_names E) p w of
        (Inl _, w') \<Rightarrow> link_paths E i d name ps w'
      | (Inr m, w') \<Rightarrow>
          if identity_of m \<noteq> i then link_paths E i d name ps w'
          else if hm_kind m = KDirectory then (Inl SPermissionDenied, w')
          else mbind (open_parent (sv_names E) p) (\<lambda>(sd, sn). host_io (nm_linkat (sv_names E) sd sn d name)) w')"

definition session_create_hard_link :: "'h server_env \<Rightarrow> node_id \<Rightarrow> node_id \<Rightarrow> name \<Rightarrow> ('h, metadata) data_op" where
  "session_create_hard_link E node new_parent new_name = mbind (on_session require_writable) (\<lambda>_.
     mbind (mlift (validate_name new_name)) (\<lambda>_. mbind (node_snapshot E node) (\<lambda>source.
     mbind (open_directory_node E new_parent) (\<lambda>(d, p).
     mbind (on_host (link_paths E (ns_identity source) d new_name (ns_paths source))) (\<lambda>_.
     mbind (on_session (remember (sv_sha E) (ns_identity source) (p @ [new_name]))) (\<lambda>_.
     session_metadata E node))))))"

subsection \<open>Removing and renaming\<close>

definition session_remove_node :: "'h server_env \<Rightarrow> node_id \<Rightarrow> name \<Rightarrow> bool \<Rightarrow> ('h, unit) data_op" where
  "session_remove_node E parent name directory = mbind (on_session require_writable) (\<lambda>_. mbind (mlift (validate_name name)) (\<lambda>_.
     mbind (open_directory_node E parent) (\<lambda>(d, p).
     mbind (on_host (host_io (nm_statat (sv_names E) d name))) (\<lambda>m.
     if directory \<and> hm_kind m \<noteq> KDirectory then mfail SNotDirectory
     else if \<not> directory \<and> hm_kind m = KDirectory then mfail SIsDirectory
     else mbind (on_host (host_io (nm_unlinkat (sv_names E) d name directory))) (\<lambda>_.
       mbind (on_session (mput (remove_registry_path (p @ [name]) directory))) (\<lambda>_ s.
       (case sv_forks E of
          Some S \<Rightarrow> if hm_nlink m \<le> 1
            then mignore (on_host (remove_resource_fork S (stable_node_id (sv_sha E) (sh_node_key (sh (fst s))) (identity_of m)))) s
            else (Inr (), s)
        | None \<Rightarrow> (Inr (), s))))))))"

definition session_rename_node :: "'h server_env \<Rightarrow> node_id \<Rightarrow> name \<Rightarrow> node_id \<Rightarrow> name \<Rightarrow> rename_mode \<Rightarrow> ('h, unit) data_op" where
  "session_rename_node E parent name new_parent new_name mode = mbind (on_session require_writable) (\<lambda>_.
     mbind (mlift (validate_name name)) (\<lambda>_. mbind (mlift (validate_name new_name)) (\<lambda>_.
     mbind (node_snapshot E parent) (\<lambda>old_snap. mbind (node_snapshot E new_parent) (\<lambda>new_snap.
     mbind (on_host (mbind (open_snapshot E old_snap directory_flags (Some KDirectory)) (\<lambda>(od, op, _).
       mbind (open_snapshot E new_snap directory_flags (Some KDirectory)) (\<lambda>(nd, np, _).
       mbind (host_io (nm_statat (sv_names E) od name)) (\<lambda>source.
       mbind (\<lambda>w. case nm_statat (sv_names E) nd new_name w of
           (Inr m, w') \<Rightarrow> (Inr (Some (identity_of m)), w')
         | (Inl e, w') \<Rightarrow> if io_errno e = Some ENOENT then (Inr None, w') else (Inl (server_error_from_io e), w')) (\<lambda>destination.
       mbind (host_io (nm_renameat (sv_names E) od name nd new_name mode)) (\<lambda>_.
       mret (op @ [name], np @ [new_name], identity_of source, destination)))))))) (\<lambda>(old, new, source, destination).
     on_session (mput (update_registry_after_rename old new mode source destination))))))))"

fun link_target :: "'h server_env \<Rightarrow> file_identity \<Rightarrow> path list \<Rightarrow> ('h, bytes) hop" where
  "link_target E i [] w = (Inl SNotFound, w)"
| "link_target E i (p # ps) w = (case secure_lstat (sv_names E) p w of
     (Inl _, w') \<Rightarrow> link_target E i ps w'
   | (Inr m, w') \<Rightarrow>
       if identity_of m \<noteq> i \<or> hm_kind m \<noteq> KSymlink then link_target E i ps w'
       else mbind (open_parent (sv_names E) p) (\<lambda>(d, n). mbind (host_io (nm_readlinkat (sv_names E) d n)) (\<lambda>target.
         mbind (mlift (validate_symlink_target (sv_components E) target)) (\<lambda>_. mret target))) w')"

definition session_read_link :: "'h server_env \<Rightarrow> node_id \<Rightarrow> ('h, bytes) data_op" where
  "session_read_link E node = mbind (node_snapshot E node) (\<lambda>snap. on_host (link_target E (ns_identity snap) (ns_paths snap)))"

end
