(* ===== verification/Server_Views.thy ===== *)
theory Server_Views
  imports Server_Names
begin

text \<open>
  \<^verbatim>\<open>crates/server-core\<close>, directories and attributes of nodes: listings and directory views with their
  extended attributes, attributes set by node, and the exchange of two named files.
\<close>

subsection \<open>Listing in one task\<close>

fun list_entries :: "'h server_env \<Rightarrow> descriptor \<Rightarrow> path \<Rightarrow> directory_entry list \<Rightarrow> name list \<Rightarrow> ('h, directory_entry list) data_op" where
  "list_entries E d relative discovered [] = mret discovered"
| "list_entries E d relative discovered (n # ns) =
     (if is_dot n then list_entries E d relative discovered ns
      else mbind (on_host (host_io (nm_statat (sv_names E) d n))) (\<lambda>m.
        if length discovered \<ge> MAX_DIRECTORY_ENTRIES then mfail SDirectoryTooLarge
        else mbind (on_session (remember (sv_sha E) (identity_of m) (relative @ [n]))) (\<lambda>child.
          mbind (on_host (enrich_resource_fork_revision E child (to_metadata_from_stat (sv_sha E) child m))) (\<lambda>md.
          list_entries E d relative
            (discovered @ [\<lparr>de_node = child, de_name = n, de_kind = hm_kind m, de_metadata = md\<rparr>]) ns))))"

definition list_with_revision_blocking :: "'h server_env \<Rightarrow> node_id \<Rightarrow> ('h, u64 \<times> directory_entry list) data_op" where
  "list_with_revision_blocking E node = mbind (node_snapshot E node) (\<lambda>snap.
     mbind (on_host (open_snapshot E snap directory_flags (Some KDirectory))) (\<lambda>(d, relative, earlier).
     mbind (on_host (host_io (nm_readdir (sv_names E) d))) (\<lambda>ns.
     mbind (list_entries E d relative [] ns) (\<lambda>discovered.
     mbind (on_host (host_io (ho_metadata (sv_host E) d))) (\<lambda>after.
     if revision (sv_sha E) earlier \<noteq> revision (sv_sha E) after then mfail SConflict
     else mret (revision (sv_sha E) after, sort_key de_name discovered))))))"

subsection \<open>Extended attributes inline\<close>

text \<open>\<^verbatim>\<open>read_fd_xattr_bounded\<close>: a value that does not fit the maximum is left out.\<close>

function fetch_bounded :: "(nat \<Rightarrow> ('h, bytes) call) \<Rightarrow> nat \<Rightarrow> nat \<Rightarrow> ('h, bytes option) hop" where
  "fetch_bounded get maximum capacity w = (case get capacity w of
     (Inr v, w') \<Rightarrow> (Inr (Some v), w')
   | (Inl e, w') \<Rightarrow>
       if io_errno e = Some ERANGE \<and> 0 < capacity \<and> capacity < maximum then fetch_bounded get maximum (min (2 * capacity) maximum) w'
       else if io_errno e = Some ERANGE then (Inr None, w')
       else (Inl (server_error_from_io e), w'))"
  by pat_completeness auto
termination by (relation "measure (\<lambda>(_, maximum, capacity, _). maximum - capacity)") auto

declare fetch_bounded.simps [simp del]

definition read_fd_xattr_bounded :: "'h host \<Rightarrow> descriptor \<Rightarrow> bytes \<Rightarrow> nat \<Rightarrow> ('h, bytes option) hop" where
  "read_fd_xattr_bounded H f x maximum =
     (if maximum = 0 then mret None else fetch_bounded (ho_getxattr H f x) maximum (max (min 256 maximum) 1))"

definition claim_inline_budget :: "nat \<Rightarrow> nat \<Rightarrow> nat option" where
  "claim_inline_budget remaining amount = (if amount \<le> remaining then Some (remaining - amount) else None)"

definition fork_is_file :: "'h server_env \<Rightarrow> node_id \<Rightarrow> ('h, bool) hop" where
  "fork_is_file E node w = (case sv_forks E of
     None \<Rightarrow> (Inr False, w)
   | Some _ \<Rightarrow> (case nm_stat_fork (sv_names E) node w of
       (Inr m, w') \<Rightarrow> (Inr (hm_kind m = KFile), w') | (Inl _, w') \<Rightarrow> (Inr False, w')))"

definition with_fork_name :: "'h server_env \<Rightarrow> node_id \<Rightarrow> name list \<Rightarrow> ('h, name list) hop" where
  "with_fork_name E node xs = mbind (fork_is_file E node) (\<lambda>b.
     mret (if b \<and> \<not> list_ex is_resource_fork xs then sort (xs @ [RESOURCE_FORK]) else xs))"

definition inline_value :: "'h server_env \<Rightarrow> descriptor \<Rightarrow> node_id \<Rightarrow> nat \<Rightarrow> name \<Rightarrow> ('h, bytes option) hop" where
  "inline_value E f node maximum x =
     (if is_resource_fork x
      then (case sv_forks E of
          None \<Rightarrow> mret None
        | Some S \<Rightarrow> ok_flatten (mbind (read_resource_fork_range S (sv_host E) node 0 maximum) (\<lambda>(total_size, v).
            mret (if total_size \<le> maximum then Some v else None))))
      else (case logical_xattr_name (sv_enc E) x of
          Inl _ \<Rightarrow> mret None
        | Inr y \<Rightarrow> ok_flatten (read_fd_xattr_bounded (sv_host E) f y maximum)))"

fun snapshot_values :: "'h server_env \<Rightarrow> descriptor \<Rightarrow> node_id \<Rightarrow> nat \<Rightarrow> nat \<Rightarrow> name list \<Rightarrow> ('h, inline_xattr list \<times> nat) hop" where
  "snapshot_values E f node maximum remaining [] = mret ([], remaining)"
| "snapshot_values E f node maximum remaining (x # xs) = mbind (inline_value E f node maximum x) (\<lambda>v.
     case Option.bind v (\<lambda>v. map_option (Pair v) (claim_inline_budget remaining (length v))) of
       None \<Rightarrow> snapshot_values E f node maximum remaining xs
     | Some (v, remaining') \<Rightarrow> mbind (snapshot_values E f node maximum remaining' xs) (\<lambda>(vs, left).
         mret (\<lparr>ix_name = x, ix_value = v\<rparr> # vs, left)))"

definition xattr_snapshot_for_open_file :: "'h server_env \<Rightarrow> descriptor \<Rightarrow> node_id \<Rightarrow> nat \<Rightarrow> nat \<Rightarrow> ('h, xattr_snapshot \<times> nat) hop" where
  "xattr_snapshot_for_open_file E f node maximum remaining = mbind (list_fd_xattrs (sv_dec E) (sv_host E) f) (\<lambda>listed.
     mbind (with_fork_name E node listed) (\<lambda>xs.
     mbind (if maximum > 0 then snapshot_values E f node maximum remaining xs else mret ([], remaining)) (\<lambda>(vs, left).
     mret (\<lparr>xs_names = xs, xs_inline_values = vs\<rparr>, left))))"

subsection \<open>Directory views\<close>

record scanned_entry =
  sc_identity :: file_identity
  sc_relative :: path
  sc_entry :: directory_entry
  sc_xattrs :: "xattr_snapshot option"

definition read_names :: "'h server_env \<Rightarrow> descriptor \<Rightarrow> ('h, name list) hop" where
  "read_names E d = mbind (host_io (nm_readdir (sv_names E) d)) (\<lambda>ns.
     let ns = filter (\<lambda>n. \<not> is_dot n) ns in
     if length ns > MAX_DIRECTORY_ENTRIES then mfail SDirectoryTooLarge else mret ns)"

definition prepare_directory_scan :: "'h server_env \<Rightarrow> node_snapshot_r \<Rightarrow> ('h, descriptor \<times> path \<times> host_meta \<times> name list) hop" where
  "prepare_directory_scan E snap = mbind (open_snapshot E snap directory_flags (Some KDirectory)) (\<lambda>(d, relative, earlier).
     mbind (read_names E d) (\<lambda>ns. mret (d, relative, earlier, ns)))"

definition open_directory_entry_for_xattrs :: "'h server_env \<Rightarrow> descriptor \<Rightarrow> name \<Rightarrow> node_kind \<Rightarrow> ('h, descriptor) hop" where
  "open_directory_entry_for_xattrs E d n kind = host_io (nm_openat (sv_names E) d n
     (if kind = KDirectory then directory_flags else (open_flags ReadOnly False)\<lparr>fl_nonblock := True\<rparr>) 0)"

text \<open>The attributes of one entry: those of a file that cannot be opened or listed are left out.\<close>

definition entry_xattrs :: "'h server_env \<Rightarrow> descriptor \<Rightarrow> name \<Rightarrow> node_id \<Rightarrow> host_meta \<Rightarrow> directory_view_options \<Rightarrow> nat
    \<Rightarrow> ('h, u64 option \<times> xattr_snapshot option \<times> nat) hop" where
  "entry_xattrs E d n node m options remaining w =
     (if include_xattrs options \<and> hm_kind m \<noteq> KSymlink
      then (case open_directory_entry_for_xattrs E d n (hm_kind m) w of
          (Inl _, w1) \<Rightarrow> (Inr (None, None, remaining), w1)
        | (Inr f, w1) \<Rightarrow> mbind (ok_flatten (read_fd_backup_time (sv_host E) f)) (\<lambda>t w2.
            let (r, w3) = xattr_snapshot_for_open_file E f node (inline_xattr_size options) remaining w2;
                (snap, left) = (case r of Inr (x, left) \<Rightarrow> (Some x, left) | Inl _ \<Rightarrow> (None, remaining))
            in mbind (host_io (ho_metadata (sv_host E) f)) (\<lambda>m'.
              if revision (sv_sha E) m' \<noteq> revision (sv_sha E) m then mfail SConflict else mret (t, snap, left)) w3) w1)
      else (Inr (None, None, remaining), w))"

definition scan_directory_entry :: "'h server_env \<Rightarrow> bytes \<Rightarrow> descriptor \<Rightarrow> path \<Rightarrow> name \<Rightarrow> directory_view_options \<Rightarrow> nat
    \<Rightarrow> ('h, scanned_entry \<times> nat) hop" where
  "scan_directory_entry E key d parent n options remaining = mbind (host_io (nm_statat (sv_names E) d n)) (\<lambda>m.
     let node = stable_node_id (sv_sha E) key (identity_of m) in
     mbind (entry_xattrs E d n node m options remaining) (\<lambda>(t, snap, left).
     mbind (enrich_resource_fork_revision E node ((to_metadata_from_stat (sv_sha E) node m)\<lparr>md_backup_unix_ms := t\<rparr>)) (\<lambda>md.
     mret (\<lparr>sc_identity = identity_of m, sc_relative = parent @ [n],
        sc_entry = \<lparr>de_node = node, de_name = n, de_kind = hm_kind m, de_metadata = md\<rparr>, sc_xattrs = snap\<rparr>, left))))"

fun scan_names :: "'h server_env \<Rightarrow> bytes \<Rightarrow> descriptor \<Rightarrow> path \<Rightarrow> directory_view_options \<Rightarrow> nat \<Rightarrow> name list
    \<Rightarrow> ('h, scanned_entry list \<times> nat) hop" where
  "scan_names E key d relative options remaining [] = mret ([], remaining)"
| "scan_names E key d relative options remaining (n # ns) = mbind (scan_directory_entry E key d relative n options remaining) (\<lambda>(e, left).
     mbind (scan_names E key d relative options left ns) (\<lambda>(es, last_left). mret (e # es, last_left)))"

definition set_entry_node :: "node_id \<Rightarrow> scanned_entry \<Rightarrow> scanned_entry" where
  "set_entry_node n e = e\<lparr>sc_entry := (sc_entry e)\<lparr>de_node := n, de_metadata := (de_metadata (sc_entry e))\<lparr>md_node := n\<rparr>\<rparr>\<rparr>"

fun remember_scanned :: "'h server_env \<Rightarrow> scanned_entry list \<Rightarrow> ('h, scanned_entry list) data_op" where
  "remember_scanned E [] = mret []"
| "remember_scanned E (e # es) = mbind (on_session (remember (sv_sha E) (sc_identity e) (sc_relative e))) (\<lambda>n.
     mbind (remember_scanned E es) (\<lambda>rest. mret (set_entry_node n e # rest)))"

definition scan_directory :: "'h server_env \<Rightarrow> node_id \<Rightarrow> directory_view_options \<Rightarrow> nat
    \<Rightarrow> ('h, u64 \<times> (descriptor \<times> path \<times> host_meta) \<times> scanned_entry list \<times> nat) data_op" where
  "scan_directory E node options remaining = mbind (node_snapshot E node) (\<lambda>snap.
     mbind (on_host (mbind (host_io (nm_dup_root (sv_names E))) (\<lambda>_. prepare_directory_scan E snap))) (\<lambda>(d, relative, earlier, ns) s.
     mbind (on_host (mbind (scan_names E (sh_node_key (sh (fst s))) d relative options remaining ns) (\<lambda>(es, left).
       mbind (host_io (ho_metadata (sv_host E) d)) (\<lambda>after.
       if revision (sv_sha E) earlier \<noteq> revision (sv_sha E) after then mfail SConflict
       else mret (revision (sv_sha E) after, es, left))))) (\<lambda>(v, es, left).
     mbind (remember_scanned E es) (\<lambda>es. mret (v, (d, relative, earlier), sort_key (de_name \<circ> sc_entry) es, left))) s))"

definition list_with_revision :: "'h server_env \<Rightarrow> node_id \<Rightarrow> ('h, u64 \<times> directory_entry list) data_op" where
  "list_with_revision E node = mbind (scan_directory E node METADATA_ONLY 0) (\<lambda>(v, _, es, _). mret (v, map sc_entry es))"

text \<open>The parent of the viewed directory; the root is its own parent.\<close>

definition view_parent :: "'h server_env \<Rightarrow> path \<Rightarrow> metadata \<Rightarrow> ('h, metadata) data_op" where
  "view_parent E relative directory s =
     (if relative = [] then (Inr directory, s)
      else mbind (on_host (mbind (host_io (nm_dup_root (sv_names E))) (\<lambda>_. mbind (secure_lstat (sv_names E) (butlast relative)) (\<lambda>m.
          let node = stable_node_id (sv_sha E) (sh_node_key (sh (fst s))) (identity_of m) in
          mbind (enrich_resource_fork_revision E node (to_metadata_from_stat (sv_sha E) node m)) (\<lambda>md. mret (identity_of m, md))))))
        (\<lambda>(i, md). mbind (on_session (remember (sv_sha E) i (butlast relative))) (\<lambda>n. mret (md\<lparr>md_node := n\<rparr>))) s)"

definition session_directory_view :: "'h server_env \<Rightarrow> node_id \<Rightarrow> directory_view_options \<Rightarrow> ('h, directory_view) data_op" where
  "session_directory_view E node options = mbind (mlift (validate_directory_view_options options)) (\<lambda>_.
     mbind (scan_directory E node options (inline_xattr_total_size options)) (\<lambda>(v, (d, relative, earlier), es, left).
     mbind (on_host (mbind (ok_flatten (read_fd_backup_time (sv_host E) d)) (\<lambda>t.
       mbind (enrich_resource_fork_revision E node ((to_metadata (sv_sha E) node earlier)\<lparr>md_backup_unix_ms := t\<rparr>)) (\<lambda>directory.
       mbind (if include_xattrs options
         then mbind (xattr_snapshot_for_open_file E d node (inline_xattr_size options) left) (\<lambda>(x, _). mret (Some x))
         else mret None) (\<lambda>xattrs. mret (directory, xattrs)))))) (\<lambda>(directory, xattrs).
     mbind (view_parent E relative directory) (\<lambda>parent.
     mbind (on_host (host_io (ho_metadata (sv_host E) d))) (\<lambda>m.
     if revision (sv_sha E) m \<noteq> v then mfail SConflict
     else mret \<lparr>dv_revision = v, dv_directory = directory, dv_parent = parent, dv_xattrs = xattrs,
       dv_entries = map (\<lambda>e. \<lparr>ve_entry = sc_entry e, ve_xattrs = sc_xattrs e\<rparr>) es\<rparr>)))))"

end
