(* ===== verification/Server_Attributes.thy ===== *)
theory Server_Attributes
  imports Server_Views
begin

text \<open>
  \<^verbatim>\<open>crates/server-core\<close>, attributes of nodes: extended attributes with the resource forks that live in side files, times,
  modes and sizes, block maps, and the exchange of the data of two named files.
\<close>

subsection \<open>Extended attributes\<close>

definition session_get_xattr :: "'h server_env \<Rightarrow> node_id \<Rightarrow> name \<Rightarrow> u64 \<Rightarrow> u64 \<Rightarrow> ('h, u64 \<times> bytes) data_op" where
  "session_get_xattr E node x offset len = mbind (mlift (validate_xattr_name x)) (\<lambda>_.
     mbind (checked_range offset len max_read_size) (\<lambda>_. mbind (node_snapshot E node) (\<lambda>snap.
     on_host (case (is_resource_fork x, sv_forks E) of
       (True, Some S) \<Rightarrow> read_resource_fork_range S (sv_host E) node offset len
     | _ \<Rightarrow> mbind (open_xattr_file E snap) (\<lambda>f. mbind (mlift (logical_xattr_name (sv_enc E) x)) (\<lambda>y.
         get_fd_xattr (sv_host E) f y offset len))))))"

definition session_list_xattrs :: "'h server_env \<Rightarrow> node_id \<Rightarrow> ('h, name list) data_op" where
  "session_list_xattrs E node = mbind (node_snapshot E node) (\<lambda>snap.
     on_host (mbind (open_xattr_file E snap) (\<lambda>f. mbind (list_fd_xattrs (sv_dec E) (sv_host E) f) (with_fork_name E node))))"

definition session_set_xattr :: "'h server_env \<Rightarrow> node_id \<Rightarrow> name \<Rightarrow> bytes \<Rightarrow> xattr_set_mode \<Rightarrow> u32 \<Rightarrow> ('h, unit) data_op" where
  "session_set_xattr E node x v mode position = mbind (on_session require_writable) (\<lambda>_.
     mbind (mlift (validate_xattr_name x)) (\<lambda>_.
     if length v > MAX_XATTR_SIZE then mfail (SInvalidRequest ''extended attribute is too large'')
     else mbind (node_snapshot E node) (\<lambda>snap.
     on_host (case (is_resource_fork x, sv_forks E) of
       (True, Some S) \<Rightarrow> write_resource_fork S (sv_host E) node v mode position
     | _ \<Rightarrow> mbind (open_xattr_file E snap) (\<lambda>f. mbind (mlift (logical_xattr_name (sv_enc E) x)) (\<lambda>y.
         set_fd_xattr (sv_host E) f y v mode position))))))"

definition session_remove_xattr :: "'h server_env \<Rightarrow> node_id \<Rightarrow> name \<Rightarrow> ('h, unit) data_op" where
  "session_remove_xattr E node x = mbind (on_session require_writable) (\<lambda>_. mbind (mlift (validate_xattr_name x)) (\<lambda>_.
     mbind (node_snapshot E node) (\<lambda>snap.
     on_host (case (is_resource_fork x, sv_forks E) of
       (True, Some S) \<Rightarrow> remove_resource_fork S node
     | _ \<Rightarrow> mbind (open_xattr_file E snap) (\<lambda>f. mbind (mlift (logical_xattr_name (sv_enc E) x)) (\<lambda>y.
         host_io (ho_removexattr (sv_host E) f y)))))))"

subsection \<open>Attributes\<close>

fun set_paths :: "'h server_env \<Rightarrow> file_identity \<Rightarrow> u32 option \<Rightarrow> u64 option \<Rightarrow> u64 option \<Rightarrow> path list \<Rightarrow> ('h, unit) hop" where
  "set_paths E i mode accessed modified [] w = (Inl SNotFound, w)"
| "set_paths E i mode accessed modified (p # ps) w = (case secure_lstat (sv_names E) p w of
     (Inl _, w') \<Rightarrow> set_paths E i mode accessed modified ps w'
   | (Inr m, w') \<Rightarrow>
       if identity_of m \<noteq> i then set_paths E i mode accessed modified ps w'
       else if mode \<noteq> None \<and> hm_kind m = KSymlink then (Inl SNotSupported, w')
       else mbind (open_parent (sv_names E) p) (\<lambda>(d, n).
         mbind (case mode of Some b \<Rightarrow> host_io (nm_chmodat (sv_names E) d n (b mod 4096)) | None \<Rightarrow> mret ()) (\<lambda>_.
         if accessed \<noteq> None \<or> modified \<noteq> None then host_io (nm_utimensat (sv_names E) d n accessed modified) else mret ())) w')"

text \<open>\<^verbatim>\<open>set_path_attributes\<close>; a \<^verbatim>\<open>u64\<close> of milliseconds fits the seconds of a \<^verbatim>\<open>Timespec\<close>.\<close>

definition set_path_attributes :: "'h server_env \<Rightarrow> node_snapshot_r \<Rightarrow> u32 option \<Rightarrow> u64 option \<Rightarrow> u64 option \<Rightarrow> ('h, unit) hop" where
  "set_path_attributes E snap mode accessed modified = set_paths E (ns_identity snap) mode accessed modified (ns_paths snap)"

definition set_node_attributes :: "'h server_env \<Rightarrow> node_id \<Rightarrow> attribute_changes \<Rightarrow> ('h, metadata) data_op" where
  "set_node_attributes E node changes = mbind (node_snapshot E node) (\<lambda>snap.
     mbind (on_host (\<lambda>w. case open_snapshot E snap
         (open_flags (if ac_size changes \<noteq> None then WriteOnly else ReadOnly) False) None w of
       (Inl e, w') \<Rightarrow>
         if ac_size changes \<noteq> None then (Inl e, w')
         else mbind (set_path_attributes E snap (ac_mode changes) (ac_accessed_unix_ms changes) (ac_modified_unix_ms changes))
           (\<lambda>_. mret None) w'
     | (Inr (f, _, m), w') \<Rightarrow>
         if ac_size changes \<noteq> None \<and> hm_kind m = KDirectory then (Inl SIsDirectory, w')
         else mbind (apply_file_changes (sv_host E) f changes) (\<lambda>m'.
           mbind (write_backup_time (sv_host E) f (ac_backup_unix_ms changes)) (\<lambda>_. mret (Some m'))) w')) (\<lambda>done_with.
     case done_with of
       Some m \<Rightarrow> mret ((to_metadata (sv_sha E) node m)\<lparr>md_backup_unix_ms := ac_backup_unix_ms changes\<rparr>)
     | None \<Rightarrow> session_metadata E node))"

definition session_set_attributes :: "'h server_env \<Rightarrow> node_id \<Rightarrow> file_handle option \<Rightarrow> attribute_changes \<Rightarrow> ('h, metadata) data_op" where
  "session_set_attributes E node h changes =
     (if ac_size changes = None \<and> ac_mode changes = None \<and> ac_accessed_unix_ms changes = None \<and>
        ac_modified_unix_ms changes = None \<and> ac_backup_unix_ms changes = None
      then session_metadata E node
      else case h of
        Some h \<Rightarrow> set_handle_attributes (sv_sha E) (sv_host E) node h changes
      | None \<Rightarrow> mbind (on_session require_writable) (\<lambda>_. set_node_attributes E node changes))"

definition session_sync_directory :: "'h server_env \<Rightarrow> node_id \<Rightarrow> ('h, unit) data_op" where
  "session_sync_directory E node = mbind (open_directory_node E node) (\<lambda>(d, _). on_host (host_io (nm_sync (sv_names E) d)))"

definition session_map_block :: "'h server_env \<Rightarrow> node_id \<Rightarrow> u32 \<Rightarrow> u64 \<Rightarrow> ('h, u64) data_op" where
  "session_map_block E node block_size block =
     (if block_size = 0 then mfail (SInvalidRequest ''block size must be nonzero'')
      else case checked_mul block block_size of
        None \<Rightarrow> mfail (SInvalidRequest ''block offset overflow'')
      | Some offset \<Rightarrow> mbind (node_snapshot E node) (\<lambda>snap.
          on_host (mbind (open_snapshot E snap (open_flags ReadOnly False) (Some KFile)) (\<lambda>(f, _, _).
            mbind (host_io (ho_seek (sv_host E) f SeekData offset)) (\<lambda>data.
            if data < saturating_add offset block_size then mret block else mfail SNoData)))))"

subsection \<open>Exchanging named files\<close>

definition find_entry :: "name \<Rightarrow> directory_entry list \<Rightarrow> server_error + directory_entry" where
  "find_entry n es = ok_or SNotFound (find (\<lambda>e. de_name e = n) es)"

definition session_exchange_data :: "'h server_env \<Rightarrow> node_id \<Rightarrow> name \<Rightarrow> node_id \<Rightarrow> name \<Rightarrow> u64 \<Rightarrow> ('h, unit) data_op" where
  "session_exchange_data E parent name new_parent new_name options = mbind (on_session require_writable) (\<lambda>_.
     mbind (mlift (validate_name name)) (\<lambda>_. mbind (mlift (validate_name new_name)) (\<lambda>_.
     if options \<noteq> 0 then mfail SNotSupported
     else mbind (list_with_revision E parent) (\<lambda>(_, ls). mbind (mlift (find_entry name ls)) (\<lambda>left.
     mbind (list_with_revision E (if parent = new_parent then parent else new_parent)) (\<lambda>(_, rs).
     mbind (mlift (find_entry new_name rs)) (\<lambda>right.
     if de_kind left \<noteq> KFile \<or> de_kind right \<noteq> KFile
     then mfail (SInvalidRequest ''exchangedata requires two regular files'')
     else if de_node left = de_node right then mret ()
     else mbind (node_snapshot E (de_node left)) (\<lambda>lsnap. mbind (node_snapshot E (de_node right)) (\<lambda>rsnap.
       on_host (mbind (open_snapshot E lsnap (open_flags ReadWrite False) (Some KFile)) (\<lambda>(lf, _, _).
         mbind (open_snapshot E rsnap (open_flags ReadWrite False) (Some KFile)) (\<lambda>(rf, _, _).
         mbind (host_io (nm_create_temporary (sv_names E))) (\<lambda>temporary.
         mbind (host_io (nm_dup_root (sv_names E))) (\<lambda>_.
         exchange_task (sv_enc E) (sv_host E)
           (case sv_forks E of Some S \<Rightarrow> exchange_resource_forks S (sv_host E) (de_node left) (de_node right) | None \<Rightarrow> mret ())
           lf rf temporary))))))))))))))"

end
