(* ===== verification/Registry_Paths.thy ===== *)
theory Registry_Paths
  imports Server_Registry_Props Triples
begin

text \<open>
  What the registry says of paths: \<open>paths_ok P\<close> holds when every path of every node satisfies \<open>P\<close> together with the
  identity of the node, and the root keeps the empty path. Only \<^verbatim>\<open>remember\<close> adds paths; removals and renames change \<open>P\<close> as they change the tree.
\<close>

definition paths_ok :: "(path \<Rightarrow> file_identity \<Rightarrow> bool) \<Rightarrow> srv \<Rightarrow> bool" where
  "paths_ok P s \<longleftrightarrow> (\<forall>n k. map_of (nodes_of s) n = Some k \<longrightarrow>
     (n = ROOT_NODE \<longrightarrow> [] \<in> set (kn_paths k)) \<and> (\<forall>p \<in> set (kn_paths k). P p (kn_identity k)))"

lemma paths_okD: "paths_ok P s \<Longrightarrow> map_of (nodes_of s) n = Some k \<Longrightarrow> p \<in> set (kn_paths k) \<Longrightarrow> P p (kn_identity k)"
  by (simp add: paths_ok_def)

lemma paths_ok_root: "paths_ok P s \<Longrightarrow> map_of (nodes_of s) ROOT_NODE = Some k \<Longrightarrow> [] \<in> set (kn_paths k)"
  by (simp add: paths_ok_def)

lemma paths_ok_mono: "paths_ok P s \<Longrightarrow> (\<And>p i. P p i \<Longrightarrow> Q p i) \<Longrightarrow> paths_ok Q s"
  by (fastforce simp: paths_ok_def)

text \<open>Entries that are kept keep their paths.\<close>

lemma paths_ok_shrink:
  assumes "paths_ok P s"
    "\<And>n k'. map_of (nodes_of t) n = Some k' \<Longrightarrow> \<exists>k. map_of (nodes_of s) n = Some k \<and> kn_paths k' = kn_paths k \<and> kn_identity k' = kn_identity k"
  shows "paths_ok P t"
  unfolding paths_ok_def
proof (intro allI impI)
  fix n k' assume "map_of (nodes_of t) n = Some k'"
  with assms(2) obtain k where "map_of (nodes_of s) n = Some k" "kn_paths k' = kn_paths k" "kn_identity k' = kn_identity k" by blast
  with assms(1) show "(n = ROOT_NODE \<longrightarrow> [] \<in> set (kn_paths k')) \<and> (\<forall>p \<in> set (kn_paths k'). P p (kn_identity k'))"
    by (simp add: paths_ok_def)
qed

lemma paths_ok_same: "paths_ok P s \<Longrightarrow> nodes_of t = nodes_of s \<Longrightarrow> paths_ok P t"
  by (simp add: paths_ok_def)

lemma paths_ok_upds [simp]:
  "paths_ok P (upd_known f s) = paths_ok P s" "paths_ok P (upd_session_permits g s) = paths_ok P s"
  "paths_ok P (upd_global_permits g s) = paths_ok P s" "paths_ok P (upd_locks h s) = paths_ok P s"
  by (simp_all add: paths_ok_def srv_upds)

lemma paths_ok_modify:
  assumes "paths_ok P s" "\<And>k p. map_of (nodes_of s) n = Some k \<Longrightarrow> p \<in> set (kn_paths (f k)) \<Longrightarrow> P p (kn_identity (f k))"
    "\<And>k. map_of (nodes_of s) n = Some k \<Longrightarrow> set (kn_paths k) \<subseteq> set (kn_paths (f k))"
  shows "paths_ok P (upd_nodes (modify_node n f) s)"
  unfolding paths_ok_def
proof (intro allI impI)
  fix m k' assume m: "map_of (nodes_of (upd_nodes (modify_node n f) s)) m = Some k'"
  show "(m = ROOT_NODE \<longrightarrow> [] \<in> set (kn_paths k')) \<and> (\<forall>p \<in> set (kn_paths k'). P p (kn_identity k'))"
  proof (cases "m = n")
    case True
    then obtain k where k: "map_of (nodes_of s) n = Some k" "k' = f k" using m by (auto simp: upd_nodes_def)
    have "m = ROOT_NODE \<longrightarrow> [] \<in> set (kn_paths k)" using assms(1) k(1) True by (simp add: paths_ok_def)
    with assms(2,3) [OF k(1)] k(2) show ?thesis by blast
  next
    case False
    then show ?thesis using m assms(1) by (simp add: upd_nodes_def paths_ok_def)
  qed
qed

lemma paths_ok_references: "paths_ok P s \<Longrightarrow> paths_ok P (upd_nodes (modify_node n (\<lambda>k. k\<lparr>kn_session_references := g k\<rparr>)) s)"
  by (rule paths_ok_modify) (auto dest: paths_okD)

lemma paths_ok_known_remove: "paths_ok P s \<Longrightarrow> paths_ok P (known_remove n s)"
  by (simp add: known_remove_def split: option.split)

lemma paths_ok_registry_remove: "paths_ok P s \<Longrightarrow> paths_ok P (registry_remove n i s)"
  by (rule paths_ok_shrink, assumption)
    (auto simp: registry_remove_def upd_nodes_def upd_global_permits_def delete_conv' split: option.splits if_splits)

lemma paths_ok_evictions:
  "paths_ok P s \<Longrightarrow> paths_ok P (snd (evict_unreferenced_session_node s))"
  "paths_ok P s \<Longrightarrow> paths_ok P (snd (evict_unreferenced_global_node s))"
  by (auto simp: evict_unreferenced_session_node_def evict_unreferenced_global_node_def
      intro: paths_ok_references paths_ok_known_remove paths_ok_registry_remove split: option.split)

lemma paths_ok_acquire: "paths_ok P s \<Longrightarrow> paths_ok P (snd (acquire_session_permit s))"
proof (induction s rule: acquire_session_permit.induct)
  case (1 s)
  then show ?case by (subst acquire_session_permit.simps) (simp add: paths_ok_evictions)
qed

lemma paths_ok_reserve: "paths_ok P s \<Longrightarrow> paths_ok P (snd (reserve_node s))"
  using paths_ok_acquire [of P s] paths_ok_evictions(2) [of P "snd (acquire_session_permit s)"]
  by (auto simp: reserve_node_def mbind_def split: prod.splits sum.splits bool.splits)

lemma paths_ok_track_with_permit: "paths_ok P s \<Longrightarrow> paths_ok P (snd (track_node_with_permit n s))"
  by (auto simp: track_node_with_permit_def intro: paths_ok_references split: option.split)

lemma paths_ok_track: "paths_ok P s \<Longrightarrow> paths_ok P (snd (track_node n s))"
  using paths_ok_acquire [of P s] paths_ok_track_with_permit [of P "snd (acquire_session_permit s)" n]
  by (auto simp: track_node_def mbind_def split: prod.splits sum.splits)

lemma paths_ok_add:
  assumes "paths_ok P s" "index_inv s" "map_of (idents_of s) i = Some n" "P p i"
  shows "paths_ok P (upd_nodes (modify_node n (add_path p)) s)"
proof (rule paths_ok_modify [OF assms(1)])
  fix k q assume k: "map_of (nodes_of s) n = Some k" and q: "q \<in> set (kn_paths (add_path p k))"
  have "kn_identity k = i" using assms(2,3) k by (auto simp: index_inv_def)
  with q assms(4) paths_okD [OF assms(1) k, of q] show "P q (kn_identity (add_path p k))"
    by (auto simp: add_path_def btree_insert_def set_insort_key split: if_splits)
qed (auto simp: add_path_def btree_insert_def set_insort_key)

lemma paths_ok_remember_reserved:
  assumes "paths_ok P s" "reg_inv fs fg s" "P p i"
  shows "paths_ok P (snd (remember_reserved sha i p s))"
proof (cases "map_of (idents_of s) i")
  case (Some n)
  let ?t = "upd_global_permits Suc (upd_nodes (modify_node n (add_path p)) s)"
  have "paths_ok P ?t" using paths_ok_add [OF assms(1) _ Some assms(3)] assms(2) by (simp add: reg_inv_def)
  from paths_ok_track_with_permit [OF this, of n] Some show ?thesis
    by (auto simp: remember_reserved_def mbind_def mput_def mret_def split: sum.split prod.split)
next
  case None
  let ?n = "stable_node_id sha (sh_node_key (sh s)) i"
  let ?t = "upd_global_permits (case map_of (nodes_of s) ?n of None \<Rightarrow> id | Some old \<Rightarrow> drop_permit (kn_global_permit old))
    (upd_nodes (\<lambda>r. r\<lparr>by_identity := AList.update i ?n (by_identity r), by_node := AList.update ?n
      \<lparr>kn_identity = i, kn_paths = [p], kn_session_references = 0, kn_global_permit = True\<rparr> (by_node r)\<rparr>) s)"
  have "paths_ok P ?t" if "?n \<noteq> ROOT_NODE"
    using that assms(1,3) by (auto simp: paths_ok_def upd_nodes_def upd_global_permits_def update_conv' split: if_splits)
  from paths_ok_track_with_permit [OF this, of ?n] None assms(1) show ?thesis
    by (auto simp: remember_reserved_def Let_def mbind_def mput_def mret_def split: sum.split prod.split)
qed

lemma paths_ok_remember:
  assumes "paths_ok P s" "reg_inv fs fg s" "P p i"
  shows "paths_ok P (snd (remember sha i p s))"
proof (cases "map_of (idents_of s) i")
  case (Some n)
  have "paths_ok P (upd_nodes (modify_node n (add_path p)) s)"
    using paths_ok_add [OF assms(1) _ Some assms(3)] assms(2) by (simp add: reg_inv_def)
  from paths_ok_track [OF this, of n] Some show ?thesis
    by (auto simp: remember_def mbind_def mput_def mret_def split: sum.split prod.split)
next
  case None
  obtain r t where rt: "reserve_node s = (r, t)" by fastforce
  have "paths_ok P t" using paths_ok_reserve [OF assms(1)] rt by simp
  with None rt reg_inv_reserve [OF assms(2) rt] paths_ok_remember_reserved [of P t "Suc fs" "Suc fg" p i sha] assms(3)
  show ?thesis by (auto simp: remember_def mbind_def split: sum.split)
qed

lemma paths_ok_drop_empty: "paths_ok P s \<Longrightarrow> paths_ok P (drop_empty s)"
proof -
  have "paths_ok P (foldl (\<lambda>s (n, k). registry_remove n (kn_identity k) s) s xs)" if "paths_ok P s" for xs
    using that by (induction xs arbitrary: s) (auto intro: paths_ok_registry_remove)
  then show "paths_ok P s \<Longrightarrow> paths_ok P (drop_empty s)" unfolding drop_empty_def by blast
qed

lemma paths_ok_map:
  assumes "\<And>n k. kn_identity (f n k) = kn_identity k"
    "\<And>n k p. map_of (nodes_of s) n = Some k \<Longrightarrow> p \<in> set (kn_paths (f n k)) \<Longrightarrow> Q p (kn_identity k)"
    "\<And>k. map_of (nodes_of s) ROOT_NODE = Some k \<Longrightarrow> [] \<in> set (kn_paths (f ROOT_NODE k))"
  shows "paths_ok Q (upd_nodes (\<lambda>r. r\<lparr>by_node := map (\<lambda>(n, k). (n, f n k)) (by_node r)\<rparr>) s)"
  using assms by (auto simp: paths_ok_def upd_nodes_def map_of_map_snd)

lemma paths_ok_remove_path:
  assumes "paths_ok P s"
    "\<And>q i. P q i \<Longrightarrow> (if descendants then \<not> is_path_or_descendant q p else q \<noteq> p) \<Longrightarrow> Q q i"
    "\<And>k q. map_of (nodes_of s) ROOT_NODE = Some k \<Longrightarrow> q \<in> set (kn_paths k) \<Longrightarrow> Q q (kn_identity k)"
  shows "paths_ok Q (remove_registry_path p descendants s)"
  unfolding remove_registry_path_def
proof (rule paths_ok_drop_empty, rule paths_ok_map)
  fix n k q assume k: "map_of (nodes_of s) n = Some k" and q: "q \<in> set (kn_paths (if n = ROOT_NODE then k
      else k\<lparr>kn_paths := filter (\<lambda>c. if descendants then \<not> is_path_or_descendant c p else c \<noteq> p) (kn_paths k)\<rparr>))"
  show "Q q (kn_identity k)"
    using assms(2) [of q "kn_identity k"] assms(3) [of k q] paths_okD [OF assms(1) k, of q] k q by (cases "n = ROOT_NODE") auto
qed (use paths_ok_root [OF assms(1)] in simp_all)

subsection \<open>Renaming\<close>

text \<open>What the names mean after a rename: everything below the old name has moved below the new one.\<close>

definition renamed_tree :: "rename_mode \<Rightarrow> path \<Rightarrow> path \<Rightarrow> (path \<Rightarrow> 'i option) \<Rightarrow> path \<Rightarrow> 'i option" where
  "renamed_tree mode old new T q = (case strip_prefix new q of
     Some r \<Rightarrow> T (old @ r)
   | None \<Rightarrow> (case strip_prefix old q of
       Some r \<Rightarrow> if mode = RenameExchange then T (new @ r) else None
     | None \<Rightarrow> T q))"

lemma below_iff: "is_path_or_descendant c p \<longleftrightarrow> (\<exists>r. c = p @ r)"
  by (auto simp: is_path_or_descendant_def strip_prefix_None)

lemma set_renamed_paths: "set (foldl (\<lambda>acc p. btree_insert (f p) acc) acc ps) = f ` set ps \<union> set acc"
  by (induction ps arbitrary: acc) (auto simp: btree_insert_def set_insort_key)

lemma renamed_path_means:
  assumes apart: "\<not> is_path_or_descendant old new" "\<not> is_path_or_descendant new old"
    and kept: "mode = RenameExchange \<or> \<not> is_path_or_descendant p new"
  shows "renamed_tree mode old new T (rename_path old new mode p) = T p"
proof -
  have never: "old @ r \<noteq> new @ r'" for r r' using apart by (metis append_eq_append_conv2 below_iff)
  show ?thesis
  proof (cases "is_path_or_descendant p old")
    case True
    then obtain r where "p = old @ r" by (auto simp: below_iff)
    then show ?thesis using True
      by (auto simp: rename_path_def replace_prefix_def renamed_tree_def split: option.split)
        (metis strip_prefix_Some option.distinct(1))+
  next
    case old: False
    show ?thesis
    proof (cases "is_path_or_descendant p new")
      case True
      then obtain r where r: "p = new @ r" by (auto simp: below_iff)
      have strips: "strip_prefix new (new @ r) = Some r" "strip_prefix old (old @ r) = Some r" "strip_prefix new (old @ r) = None"
        using never by (simp_all add: strip_prefix_None)
      show ?thesis using True kept old by (simp add: rename_path_def replace_prefix_def renamed_tree_def r strips)
    next
      case False
      then show ?thesis using old
        by (auto simp: rename_path_def renamed_tree_def below_iff strip_prefix_None split: option.split)
    qed
  qed
qed

lemma paths_ok_rename:
  assumes ok: "paths_ok (\<lambda>p i. T p = Some i \<and> plain p) s"
    and apart: "\<not> is_path_or_descendant old new" "\<not> is_path_or_descendant new old"
    and differ: "T old = Some source" "destination = T new" "destination \<noteq> Some source"
    and free: "mode = RenameReplace \<Longrightarrow> \<forall>r. r \<noteq> [] \<longrightarrow> T (new @ r) = None" "mode = RenameNoReplace \<Longrightarrow> \<forall>r. T (new @ r) = None"
    and plain: "\<And>p. plain p \<Longrightarrow> plain (rename_path old new mode p)" and named: "old \<noteq> []" "new \<noteq> []"
  shows "paths_ok (\<lambda>p i. renamed_tree mode old new T p = Some i \<and> plain p) (update_registry_after_rename old new mode source destination s)"
proof -
  let ?keep = "\<lambda>k. if mode = RenameReplace \<and> kn_identity k \<noteq> source
    then k\<lparr>kn_paths := filter (\<lambda>c. \<not> is_path_or_descendant c new) (kn_paths k)\<rparr> else k"
  let ?s1 = "if mode = RenameReplace then upd_nodes (\<lambda>r. r\<lparr>by_node := map (\<lambda>(n, k). (n, if kn_identity k \<noteq> source
      then k\<lparr>kn_paths := filter (\<lambda>c. \<not> is_path_or_descendant c new) (kn_paths k)\<rparr> else k)) (by_node r)\<rparr>) s else s"
  have root: "rename_path old new mode [] = []" "\<not> is_path_or_descendant [] new"
    using named by (auto simp: rename_path_def below_iff)
  have cleared: "T p = Some (kn_identity k) \<and> plain p \<and> (mode = RenameExchange \<or> \<not> is_path_or_descendant p new)"
    if k: "map_of (nodes_of s) n = Some k" and p: "p \<in> set (kn_paths (?keep k))" for n k p
  proof -
    have known: "T p = Some (kn_identity k) \<and> plain p" using paths_okD [OF ok k, of p] p by (auto split: if_splits)
    show ?thesis
    proof (cases mode)
      case RenameReplace
      have False if "is_path_or_descendant p new"
      proof -
        obtain r where r: "p = new @ r" using \<open>is_path_or_descendant p new\<close> by (auto simp: below_iff)
        have "kn_identity k = source" using p that RenameReplace by (auto split: if_splits)
        with known r differ have "r \<noteq> []" by auto
        with free(1) RenameReplace known r show False by simp
      qed
      with known show ?thesis by auto
    next
      case RenameNoReplace
      with known free(2) show ?thesis by (auto simp: below_iff)
    qed (use known in simp)
  qed
  have "paths_ok (\<lambda>p i. T p = Some i \<and> plain p \<and> (mode = RenameExchange \<or> \<not> is_path_or_descendant p new)) ?s1"
  proof (cases "mode = RenameReplace")
    case True
    have "paths_ok (\<lambda>p i. T p = Some i \<and> plain p \<and> (mode = RenameExchange \<or> \<not> is_path_or_descendant p new))
      (upd_nodes (\<lambda>r. r\<lparr>by_node := map (\<lambda>(n, k). (n, if kn_identity k \<noteq> source
        then k\<lparr>kn_paths := filter (\<lambda>c. \<not> is_path_or_descendant c new) (kn_paths k)\<rparr> else k)) (by_node r)\<rparr>) s)"
    proof (rule paths_ok_map)
      show "T p = Some (kn_identity k) \<and> plain p \<and> (mode = RenameExchange \<or> \<not> is_path_or_descendant p new)"
        if "map_of (nodes_of s) n = Some k" "p \<in> set (kn_paths (if kn_identity k \<noteq> source
          then k\<lparr>kn_paths := filter (\<lambda>c. \<not> is_path_or_descendant c new) (kn_paths k)\<rparr> else k))" for n k p
        using cleared [OF that(1), of p] that(2) True by simp
      show "[] \<in> set (kn_paths (if kn_identity k \<noteq> source
          then k\<lparr>kn_paths := filter (\<lambda>c. \<not> is_path_or_descendant c new) (kn_paths k)\<rparr> else k))"
        if "map_of (nodes_of s) ROOT_NODE = Some k" for k using paths_ok_root [OF ok that] root(2) by simp
    qed simp
    with True show ?thesis by simp
  next
    case False
    show ?thesis unfolding paths_ok_def
    proof (intro allI impI)
      fix n k assume k: "map_of (nodes_of ?s1) n = Some k"
      show "(n = ROOT_NODE \<longrightarrow> [] \<in> set (kn_paths k)) \<and> (\<forall>p \<in> set (kn_paths k). T p = Some (kn_identity k) \<and> plain p \<and>
          (mode = RenameExchange \<or> \<not> is_path_or_descendant p new))"
        using False cleared [of n k] paths_ok_root [OF ok] k by auto
    qed
  qed
  note ok1 = this
  have "paths_ok (\<lambda>p i. renamed_tree mode old new T p = Some i \<and> plain p) (upd_nodes (\<lambda>r. r\<lparr>by_node := map (\<lambda>(n, k). (n,
      k\<lparr>kn_paths := foldl (\<lambda>acc p. btree_insert (rename_path old new mode p) acc) [] (kn_paths k)\<rparr>)) (by_node r)\<rparr>) ?s1)"
  proof (rule paths_ok_map)
    show "[] \<in> set (kn_paths (k\<lparr>kn_paths := foldl (\<lambda>acc p. btree_insert (rename_path old new mode p) acc) [] (kn_paths k)\<rparr>))"
      if "map_of (nodes_of ?s1) ROOT_NODE = Some k" for k
      using paths_ok_root [OF ok1 that] root(1) by (force simp: set_renamed_paths)
    show "renamed_tree mode old new T p = Some (kn_identity k) \<and> plain p"
      if "map_of (nodes_of ?s1) n = Some k" "p \<in> set (kn_paths (k\<lparr>kn_paths := foldl (\<lambda>acc p. btree_insert (rename_path old new mode p) acc) [] (kn_paths k)\<rparr>))" for n k p
      using paths_okD [OF ok1 that(1)] that(2) by (auto simp: set_renamed_paths renamed_path_means [OF apart] plain)
  qed simp
  from paths_ok_drop_empty [OF this] differ(3) show ?thesis
    by (simp add: update_registry_after_rename_def Let_def)
qed

end
