(* ===== verification/Server_Tree.thy ===== *)
theory Server_Tree
  imports Server_Attributes Registry_Paths
begin

text \<open>
  What the server relies on when it walks the tree of the export, and what its walks do then.

  \<open>tree w p\<close> is the identity of the file with the path \<open>p\<close>, relative to the root and without following links, and \<open>at w d\<close>
  the path of an open directory. The host keeps its promises only for plain names in directories that were reached
  from the root: a call with \<^verbatim>\<open>..\<close>, a slash or a foreign directory may do anything.
\<close>

subsection \<open>The laws\<close>

type_synonym file_tree = "path \<Rightarrow> file_identity option"

definition plain_name :: "name \<Rightarrow> bool" where
  "plain_name n \<longleftrightarrow> validate_filename n = Inr ()"

definition plain :: "path \<Rightarrow> bool" where
  "plain p \<longleftrightarrow> list_all plain_name p"

definition quiet :: "('h \<Rightarrow> file_tree) \<Rightarrow> ('h \<Rightarrow> descriptor \<Rightarrow> path option) \<Rightarrow> 'h \<Rightarrow> 'h \<Rightarrow> bool" where
  "quiet tree at w w' \<longleftrightarrow> tree w' = tree w \<and> (\<forall>d p. at w d = Some p \<longrightarrow> at w' d = Some p)"

definition quiet_call :: "('h \<Rightarrow> file_tree) \<Rightarrow> ('h \<Rightarrow> descriptor \<Rightarrow> path option) \<Rightarrow> ('h, 'a) call \<Rightarrow> bool" where
  "quiet_call tree at m \<longleftrightarrow> (\<forall>w. quiet tree at w (snd (m w)))"

text \<open>A call that makes the file \<open>n\<close> in a directory, or fails.\<close>

definition makes :: "('h \<Rightarrow> file_tree) \<Rightarrow> ('h \<Rightarrow> descriptor \<Rightarrow> path option) \<Rightarrow> (descriptor \<Rightarrow> name \<Rightarrow> ('h, 'a) call) \<Rightarrow> bool" where
  "makes tree at m \<longleftrightarrow> (\<forall>d n p w r w'. at w d = Some p \<longrightarrow> plain_name n \<longrightarrow> m d n w = (r, w') \<longrightarrow>
     (case r of Inl _ \<Rightarrow> quiet tree at w w'
      | Inr _ \<Rightarrow> tree w (p @ [n]) = None \<and> (\<exists>i. tree w' = (tree w)(p @ [n] \<mapsto> i))))"

definition opens_names :: "('h \<Rightarrow> file_tree) \<Rightarrow> ('h \<Rightarrow> descriptor \<Rightarrow> path option) \<Rightarrow> 'h names \<Rightarrow> bool" where
  "opens_names tree at N \<longleftrightarrow>
     quiet_call tree at (nm_dup_root N) \<and> (\<forall>w f w'. nm_dup_root N w = (Inr f, w') \<longrightarrow> at w' f = Some []) \<and>
     quiet_call tree at (nm_stat_root N) \<and> (\<forall>w m w'. nm_stat_root N w = (Inr m, w') \<longrightarrow> tree w [] = Some (identity_of m)) \<and>
     (\<forall>d n fl mode p w r w'. at w d = Some p \<longrightarrow> plain_name n \<longrightarrow> \<not> fl_create fl \<longrightarrow> nm_openat N d n fl mode w = (r, w') \<longrightarrow>
        quiet tree at w w' \<and> (\<forall>f. r = Inr f \<longrightarrow> at w' f = Some (p @ [n]))) \<and>
     (\<forall>d n. quiet_call tree at (nm_statat N d n)) \<and>
     (\<forall>d n p w r w'. at w d = Some p \<longrightarrow> plain_name n \<longrightarrow> nm_statat N d n w = (r, w') \<longrightarrow>
        (case r of Inr m \<Rightarrow> tree w (p @ [n]) = Some (identity_of m) | Inl e \<Rightarrow> io_errno e = Some ENOENT \<longrightarrow> tree w (p @ [n]) = None)) \<and>
     (\<forall>d. quiet_call tree at (nm_readdir N d)) \<and>
     (\<forall>d w ns w' n. nm_readdir N d w = (Inr ns, w') \<longrightarrow> n \<in> set ns \<longrightarrow> is_dot n \<or> plain_name n)"

definition changes_names :: "('h \<Rightarrow> file_tree) \<Rightarrow> ('h \<Rightarrow> descriptor \<Rightarrow> path option) \<Rightarrow> 'h names \<Rightarrow> bool" where
  "changes_names tree at N \<longleftrightarrow>
     (\<forall>fl mode. fl_create fl \<longrightarrow> makes tree at (\<lambda>d n. nm_openat N d n fl mode)) \<and>
     (\<forall>d n fl mode p w f w'. at w d = Some p \<longrightarrow> plain_name n \<longrightarrow> fl_create fl \<longrightarrow> nm_openat N d n fl mode w = (Inr f, w') \<longrightarrow>
        at w' f = Some (p @ [n])) \<and>
     (\<forall>mode. makes tree at (\<lambda>d n. nm_mkdirat N d n mode)) \<and> (\<forall>target. makes tree at (nm_symlinkat N target)) \<and>
     (\<forall>kind mode major minor. makes tree at (\<lambda>d n. nm_mknodat N d n kind mode major minor)) \<and>
     (\<forall>sd sn d n sp p w r w'. at w sd = Some sp \<longrightarrow> plain_name sn \<longrightarrow> at w d = Some p \<longrightarrow> plain_name n \<longrightarrow>
        nm_linkat N sd sn d n w = (r, w') \<longrightarrow>
        (case r of Inl _ \<Rightarrow> quiet tree at w w'
         | Inr _ \<Rightarrow> tree w (p @ [n]) = None \<and> tree w' = (tree w)(p @ [n] := tree w (sp @ [sn])))) \<and>
     (\<forall>d n dir p w r w'. at w d = Some p \<longrightarrow> plain_name n \<longrightarrow> nm_unlinkat N d n dir w = (r, w') \<longrightarrow>
        (case r of Inl _ \<Rightarrow> quiet tree at w w'
         | Inr _ \<Rightarrow> tree w' = (\<lambda>q. if q = p @ [n] \<or> dir \<and> is_path_or_descendant q (p @ [n]) then None else tree w q))) \<and>
     (\<forall>od on nd nn mode op np w r w'. at w od = Some op \<longrightarrow> plain_name on \<longrightarrow> at w nd = Some np \<longrightarrow> plain_name nn \<longrightarrow>
        nm_renameat N od on nd nn mode w = (r, w') \<longrightarrow>
        (case r of Inl _ \<Rightarrow> quiet tree at w w'
         | Inr _ \<Rightarrow>
             if tree w (op @ [on]) = tree w (np @ [nn]) then tree w' = tree w
             else \<not> is_path_or_descendant (op @ [on]) (np @ [nn]) \<and> \<not> is_path_or_descendant (np @ [nn]) (op @ [on]) \<and>
               (mode = RenameReplace \<longrightarrow> (\<forall>r. r \<noteq> [] \<longrightarrow> tree w (np @ [nn] @ r) = None)) \<and>
               (mode = RenameNoReplace \<longrightarrow> (\<forall>r. tree w (np @ [nn] @ r) = None)) \<and>
               tree w' = renamed_tree mode (op @ [on]) (np @ [nn]) (tree w)))"

text \<open>Everything else leaves the names alone; the side files are outside the export.\<close>

definition keeps_names :: "('h \<Rightarrow> file_tree) \<Rightarrow> ('h \<Rightarrow> descriptor \<Rightarrow> path option) \<Rightarrow> 'h server_env \<Rightarrow> bool" where
  "keeps_names tree at E \<longleftrightarrow> (let N = sv_names E; H = sv_host E in
     (\<forall>d n. quiet_call tree at (nm_readlinkat N d n)) \<and> (\<forall>n. quiet_call tree at (nm_stat_fork N n)) \<and>
     (\<forall>f. quiet_call tree at (ho_metadata H f)) \<and>
     (\<forall>f p w m w'. at w f = Some p \<longrightarrow> ho_metadata H f w = (Inr m, w') \<longrightarrow> tree w p = Some (identity_of m)) \<and>
     (\<forall>f off n. quiet_call tree at (ho_read_at H f off n)) \<and> (\<forall>f n. quiet_call tree at (ho_set_len H f n)) \<and>
     (\<forall>f x n. quiet_call tree at (ho_getxattr H f x n)) \<and> (\<forall>f n. quiet_call tree at (ho_listxattr H f n)) \<and>
     (\<forall>S. sv_forks E = Some S \<longrightarrow> (\<forall>n. quiet_call tree at (so_kind S n)) \<and> (\<forall>n a b. quiet_call tree at (so_open S n a b)) \<and>
        (\<forall>n. quiet_call tree at (so_remove S n))))"

definition tree_laws :: "('h \<Rightarrow> file_tree) \<Rightarrow> ('h \<Rightarrow> descriptor \<Rightarrow> path option) \<Rightarrow> 'h server_env \<Rightarrow> bool" where
  "tree_laws tree at E \<longleftrightarrow> opens_names tree at (sv_names E) \<and> changes_names tree at (sv_names E) \<and> keeps_names tree at E \<and>
     (\<forall>w p. tree w p = tree w [] \<longrightarrow> p = [])"

text \<open>The names mean \<open>T\<close>, and the directories of \<open>D\<close> are open.\<close>

definition view :: "('h \<Rightarrow> file_tree) \<Rightarrow> ('h \<Rightarrow> descriptor \<Rightarrow> path option) \<Rightarrow> file_tree \<Rightarrow> (descriptor \<times> path) set \<Rightarrow> 'h \<Rightarrow> bool" where
  "view tree at T D w \<longleftrightarrow> tree w = T \<and> (\<forall>(d, p) \<in> D. at w d = Some p)"

lemma view_quiet: "view tree at T D w \<Longrightarrow> quiet tree at w w' \<Longrightarrow> view tree at T D w'"
  by (auto simp: view_def quiet_def)

lemma view_at: "view tree at T D w \<Longrightarrow> (d, p) \<in> D \<Longrightarrow> at w d = Some p"
  by (auto simp: view_def)

lemma view_insert: "view tree at T (insert (d, p) D) w \<longleftrightarrow> at w d = Some p \<and> view tree at T D w"
  by (auto simp: view_def)

lemma quiet_call_keeps: "quiet_call tree at m \<Longrightarrow> preserves (view tree at T D) (host_io m)"
  by (auto simp: preserves_def quiet_call_def host_io_def split_beta intro: view_quiet)

lemma preserves_triple: "preserves I m \<Longrightarrow> triple I m (\<lambda>_. I) (\<lambda>_. I)"
  by (auto simp: triple_def preserves_def split: prod.splits sum.splits)

lemma host_io_triple:
  assumes "\<And>w r w'. P w \<Longrightarrow> m w = (r, w') \<Longrightarrow> (case r of Inl _ \<Rightarrow> R w' | Inr x \<Rightarrow> Q x w')"
  shows "triple P (host_io m) Q (\<lambda>_. R)"
proof (rule tripleI)
  fix w x t assume "P w" "host_io m w = (Inr x, t)"
  then show "Q x t" using assms [of w "fst (m w)" "snd (m w)"] by (auto simp: host_io_def map_err_def split: prod.splits sum.splits)
next
  fix w e t assume "P w" "host_io m w = (Inl e, t)"
  then show "R t" using assms [of w "fst (m w)" "snd (m w)"] by (auto simp: host_io_def map_err_def split: prod.splits sum.splits)
qed

subsection \<open>Single calls\<close>

lemma laws_split:
  assumes "tree_laws tree at E"
  shows "opens_names tree at (sv_names E)" "changes_names tree at (sv_names E)" "keeps_names tree at E" "tree w p = tree w [] \<Longrightarrow> p = []"
  using assms by (auto simp: tree_laws_def)

lemmas opens_names_laws = opens_names_def [THEN iffD1]
lemmas opens_tail = opens_names_laws [THEN conjunct2] opens_names_laws [THEN conjunct2, THEN conjunct2, THEN conjunct2]
lemmas dup_root_law = opens_tail(1) [THEN conjunct1, rule_format]
lemmas stat_root_law = opens_tail(2) [THEN conjunct1, rule_format]
lemmas openat_law = opens_tail(2) [THEN conjunct2, THEN conjunct1, rule_format]
lemmas statat_law = opens_tail(2) [THEN conjunct2, THEN conjunct2, THEN conjunct2, THEN conjunct1, rule_format]
lemmas readdir_law = opens_tail(2) [THEN conjunct2, THEN conjunct2, THEN conjunct2, THEN conjunct2, THEN conjunct2, rule_format]

lemma metadata_law: "keeps_names tree at E \<Longrightarrow> at w f = Some p \<Longrightarrow> ho_metadata (sv_host E) f w = (Inr m, w') \<Longrightarrow> tree w p = Some (identity_of m)"
  unfolding keeps_names_def Let_def by (elim conjE) metis

lemma quiet_names:
  assumes "tree_laws tree at E"
  shows "quiet_call tree at (nm_dup_root (sv_names E))" "quiet_call tree at (nm_stat_root (sv_names E))"
    "quiet_call tree at (nm_statat (sv_names E) d n)" "quiet_call tree at (nm_readdir (sv_names E) d)"
    "quiet_call tree at (nm_readlinkat (sv_names E) d n)" "quiet_call tree at (nm_stat_fork (sv_names E) node)"
    "quiet_call tree at (ho_metadata (sv_host E) f)" "quiet_call tree at (ho_read_at (sv_host E) f off k)"
    "quiet_call tree at (ho_set_len (sv_host E) f k)" "quiet_call tree at (ho_getxattr (sv_host E) f x k)"
    "quiet_call tree at (ho_listxattr (sv_host E) f k)"
  using laws_split(1,3) [OF assms] by (simp_all add: opens_names_def keeps_names_def Let_def)

lemma quiet_forks:
  assumes "tree_laws tree at E" "sv_forks E = Some S"
  shows "quiet_call tree at (so_kind S n)" "quiet_call tree at (so_open S n a b)" "quiet_call tree at (so_remove S n)"
  using laws_split(3) [OF assms(1)] assms(2) by (simp_all add: keeps_names_def Let_def)

lemma quietD: "quiet_call tree at m \<Longrightarrow> m w = (r, w') \<Longrightarrow> quiet tree at w w'"
  unfolding quiet_call_def by (metis snd_conv)

lemma dup_root_triple:
  assumes "tree_laws tree at E"
  shows "triple (view tree at T D) (host_io (nm_dup_root (sv_names E))) (\<lambda>f. view tree at T (insert (f, []) D)) (\<lambda>_. view tree at T D)"
proof (rule host_io_triple)
  fix w r w' assume w: "view tree at T D w" and call: "nm_dup_root (sv_names E) w = (r, w')"
  have "view tree at T D w'" using view_quiet [OF w quietD [OF quiet_names(1) [OF assms] call]] .
  moreover have "at w' f = Some []" if "r = Inr f" for f
    using dup_root_law [OF laws_split(1) [OF assms]] call that by blast
  ultimately show "case r of Inl _ \<Rightarrow> view tree at T D w' | Inr f \<Rightarrow> view tree at T (insert (f, []) D) w'"
    by (auto simp: view_insert split: sum.split)
qed

lemma stat_root_triple:
  assumes "tree_laws tree at E"
  shows "triple (view tree at T D) (host_io (nm_stat_root (sv_names E)))
    (\<lambda>m w. T [] = Some (identity_of m) \<and> view tree at T D w) (\<lambda>_. view tree at T D)"
proof (rule host_io_triple)
  fix w r w' assume w: "view tree at T D w" and call: "nm_stat_root (sv_names E) w = (r, w')"
  have "view tree at T D w'" using view_quiet [OF w quietD [OF quiet_names(2) [OF assms] call]] .
  moreover have "T [] = Some (identity_of m)" if "r = Inr m" for m
    using stat_root_law [OF laws_split(1) [OF assms]] call that w by (auto simp: view_def)
  ultimately show "case r of Inl _ \<Rightarrow> view tree at T D w' | Inr m \<Rightarrow> T [] = Some (identity_of m) \<and> view tree at T D w'"
    by (auto split: sum.split)
qed

lemma openat_triple:
  assumes "tree_laws tree at E" "(d, p) \<in> D" "plain_name n" "\<not> fl_create fl"
  shows "triple (view tree at T D) (host_io (nm_openat (sv_names E) d n fl mode))
    (\<lambda>f. view tree at T (insert (f, p @ [n]) D)) (\<lambda>_. view tree at T D)"
proof (rule host_io_triple)
  fix w r w' assume w: "view tree at T D w" and call: "nm_openat (sv_names E) d n fl mode w = (r, w')"
  have "quiet tree at w w' \<and> (\<forall>f. r = Inr f \<longrightarrow> at w' f = Some (p @ [n]))"
    using openat_law [OF laws_split(1) [OF assms(1)] view_at [OF w assms(2)] assms(3,4) call] by blast
  with view_quiet [OF w] show "case r of Inl _ \<Rightarrow> view tree at T D w' | Inr f \<Rightarrow> view tree at T (insert (f, p @ [n]) D) w'"
    by (auto simp: view_insert split: sum.split)
qed

lemma statat_triple:
  assumes "tree_laws tree at E" "(d, p) \<in> D" "plain_name n"
  shows "triple (view tree at T D) (host_io (nm_statat (sv_names E) d n))
    (\<lambda>m w. T (p @ [n]) = Some (identity_of m) \<and> view tree at T D w) (\<lambda>_. view tree at T D)"
proof (rule host_io_triple)
  fix w r w' assume w: "view tree at T D w" and call: "nm_statat (sv_names E) d n w = (r, w')"
  have "view tree at T D w'" using view_quiet [OF w quietD [OF quiet_names(3) [OF assms(1)] call]] .
  moreover have "T (p @ [n]) = Some (identity_of m)" if "r = Inr m" for m
    using statat_law [OF laws_split(1) [OF assms(1)] view_at [OF w assms(2)] assms(3) call] that w by (simp add: view_def)
  ultimately show "case r of Inl _ \<Rightarrow> view tree at T D w' | Inr m \<Rightarrow> T (p @ [n]) = Some (identity_of m) \<and> view tree at T D w'"
    by (auto split: sum.split)
qed

lemma metadata_at_triple:
  assumes "tree_laws tree at E" "(f, p) \<in> D"
  shows "triple (view tree at T D) (host_io (ho_metadata (sv_host E) f))
    (\<lambda>m w. T p = Some (identity_of m) \<and> view tree at T D w) (\<lambda>_. view tree at T D)"
proof (rule host_io_triple)
  fix w r w' assume w: "view tree at T D w" and call: "ho_metadata (sv_host E) f w = (r, w')"
  have "view tree at T D w'" using view_quiet [OF w quietD [OF quiet_names(7) [OF assms(1)] call]] .
  moreover have "T p = Some (identity_of m)" if "r = Inr m" for m
    using metadata_law [OF laws_split(3) [OF assms(1)] view_at [OF w assms(2)]] call that w by (auto simp: view_def)
  ultimately show "case r of Inl _ \<Rightarrow> view tree at T D w' | Inr m \<Rightarrow> T p = Some (identity_of m) \<and> view tree at T D w'"
    by (auto split: sum.split)
qed

end
