(* ===== verification/Server_Walks.thy ===== *)
theory Server_Walks
  imports Server_Tree
begin

text \<open>Walks through the tree of the export on a host that keeps the laws of \<open>tree_laws\<close>.\<close>

lemma view_mono: "view tree at T D' w \<Longrightarrow> D \<subseteq> D' \<Longrightarrow> view tree at T D w"
  by (auto simp: view_def)

lemma triple_preserves: "triple I m (\<lambda>_. I) (\<lambda>_. I) \<Longrightarrow> preserves I m"
  by (rule preservesI) (rule triple_snd)

lemma plain_simps [simp]:
  "plain []" "plain (n # p) \<longleftrightarrow> plain_name n \<and> plain p" "plain (p @ q) \<longleftrightarrow> plain p \<and> plain q"
  by (simp_all add: plain_def)

lemma plain_parts: "plain p \<Longrightarrow> plain (butlast p)" "plain p \<Longrightarrow> p \<noteq> [] \<Longrightarrow> plain_name (last p)"
  by (auto simp: plain_def list_all_iff dest: in_set_butlastD)

lemma plain_name_not_dot: "plain_name n \<Longrightarrow> \<not> is_dot n" "plain_name n \<Longrightarrow> n \<noteq> dot_dot"
  by (auto simp: plain_name_def validate_filename_def is_dot_def dot_dot_def split: if_splits)

subsection \<open>Opening by path\<close>

lemma open_walk_triple:
  assumes "tree_laws tree at E" "(d, q) \<in> D" "plain p"
  shows "triple (view tree at T D) (open_walk (sv_names E) d p) (\<lambda>e. view tree at T (insert (e, q @ p) D)) (\<lambda>_. view tree at T D)"
  using assms(2,3)
proof (induction p arbitrary: d q D)
  case Nil
  then show ?case by (auto intro!: triple_mret simp: view_insert view_at)
next
  case (Cons n p)
  have n: "plain_name n" "n \<noteq> dot_dot" "plain p" using Cons.prems(2) plain_name_not_dot(2) by auto
  have "triple (view tree at T D) (mbind (host_io (nm_openat (sv_names E) d n directory_flags 0)) (\<lambda>e. open_walk (sv_names E) e p))
      (\<lambda>e. view tree at T (insert (e, q @ n # p) D)) (\<lambda>_. view tree at T D)"
  proof (rule triple_mbind [OF openat_triple [OF assms(1) Cons.prems(1) n(1)]])
    show "triple (view tree at T (insert (e, q @ [n]) D)) (open_walk (sv_names E) e p)
        (\<lambda>e. view tree at T (insert (e, q @ n # p) D)) (\<lambda>_. view tree at T D)" for e
      by (rule triple_conseq [OF Cons.IH [of e "q @ [n]" "insert (e, q @ [n]) D"]]) (use n in \<open>auto simp: view_insert\<close>)
  qed (simp add: directory_flags_def)
  then show ?case using n by simp
qed

lemma open_directory_triple:
  assumes "tree_laws tree at E" "plain p"
  shows "triple (view tree at T D) (open_directory (sv_names E) p) (\<lambda>d. view tree at T (insert (d, p) D)) (\<lambda>_. view tree at T D)"
  unfolding open_directory_def
proof (rule triple_mbind [OF dup_root_triple [OF assms(1)]])
  show "triple (view tree at T (insert (d, []) D)) (open_walk (sv_names E) d p) (\<lambda>d. view tree at T (insert (d, p) D)) (\<lambda>_. view tree at T D)" for d
    by (rule triple_conseq [OF open_walk_triple [OF assms(1), of d "[]" "insert (d, []) D" p]]) (use assms(2) in \<open>auto simp: view_insert\<close>)
qed

lemma open_parent_triple:
  assumes "tree_laws tree at E" "plain p"
  shows "triple (view tree at T D) (open_parent (sv_names E) p)
    (\<lambda>(d, n) w. p \<noteq> [] \<and> n = last p \<and> view tree at T (insert (d, butlast p) D) w) (\<lambda>_. view tree at T D)"
  unfolding open_parent_def
  by (rule triple_if [OF triple_mfail triple_mbind [OF open_directory_triple [OF assms(1) plain_parts(1) [OF assms(2)]] triple_mret]]) auto

lemma open_relative_triple:
  assumes "tree_laws tree at E" "plain p" "\<not> fl_create fl"
  shows "triple (view tree at T D) (open_relative (sv_names E) (sv_host E) p fl)
    (\<lambda>(f, q, m) w. q = p \<and> T p = Some (identity_of m) \<and> view tree at T (insert (f, p) D) w) (\<lambda>_. view tree at T D)"
proof -
  let ?Q = "\<lambda>(f, q, m) w. q = p \<and> T p = Some (identity_of m) \<and> view tree at T (insert (f, p) D) w"
  have stamped: "triple (view tree at T (insert (f, p) D)) (mbind (host_io (ho_metadata (sv_host E) f)) (\<lambda>m. mret (f, p, m))) ?Q (\<lambda>_. view tree at T D)" for f
    by (rule triple_conseq [OF triple_mbind [OF metadata_at_triple [OF assms(1), of f p "insert (f, p) D"] triple_mret [where E = "\<lambda>_. view tree at T (insert (f, p) D)" and Q = ?Q]]])
      (auto simp: view_insert)
  show ?thesis
  proof (cases "p = []")
    case True
    have "triple (view tree at T D) (mbind (host_io (nm_dup_root (sv_names E))) (\<lambda>f. mbind (host_io (ho_metadata (sv_host E) f)) (\<lambda>m. mret (f, p, m))))
      ?Q (\<lambda>_. view tree at T D)"
      using triple_mbind [OF dup_root_triple [OF assms(1)] stamped [unfolded True]] unfolding True .
    then show ?thesis by (simp add: open_relative_def True)
  next
    case False
    have "triple (view tree at T (insert (d, butlast p) D)) (mbind (host_io (nm_openat (sv_names E) d (last p) fl 0)) (\<lambda>f.
        mbind (host_io (ho_metadata (sv_host E) f)) (\<lambda>m. mret (f, p, m)))) ?Q (\<lambda>_. view tree at T D)" for d
    proof (rule triple_mbind)
      show "triple (view tree at T (insert (d, butlast p) D)) (host_io (nm_openat (sv_names E) d (last p) fl 0))
          (\<lambda>f. view tree at T (insert (f, p) D)) (\<lambda>_. view tree at T D)"
        by (rule triple_conseq [OF openat_triple [OF assms(1), of d "butlast p" "insert (d, butlast p) D" "last p" fl]])
          (use False assms(3) plain_parts(2) [OF assms(2)] in \<open>auto simp: view_insert\<close>)
    qed (rule stamped)
    then have "triple ((\<lambda>(d, n) w. p \<noteq> [] \<and> n = last p \<and> view tree at T (insert (d, butlast p) D) w) x) (case x of (d, n) \<Rightarrow>
        mbind (host_io (nm_openat (sv_names E) d n fl 0)) (\<lambda>f. mbind (host_io (ho_metadata (sv_host E) f)) (\<lambda>m. mret (f, p, m)))) ?Q (\<lambda>_. view tree at T D)" for x
      by (cases x) (simp add: triple_def)
    from triple_mbind [OF open_parent_triple [OF assms(1,2)] this] show ?thesis by (simp add: open_relative_def False)
  qed
qed

lemma secure_lstat_triple:
  assumes "tree_laws tree at E" "plain p"
  shows "triple (view tree at T D) (secure_lstat (sv_names E) p)
    (\<lambda>m w. T p = Some (identity_of m) \<and> view tree at T D w) (\<lambda>_. view tree at T D)"
proof (cases "p = []")
  case True
  then show ?thesis using stat_root_triple [OF assms(1)] by (simp add: secure_lstat_def)
next
  case False
  have "triple (view tree at T (insert (d, butlast p) D)) (host_io (nm_statat (sv_names E) d (last p)))
      (\<lambda>m w. T p = Some (identity_of m) \<and> view tree at T D w) (\<lambda>_. view tree at T D)" for d
    by (rule triple_conseq [OF statat_triple [OF assms(1), of d "butlast p" "insert (d, butlast p) D" "last p"]])
      (use False plain_parts(2) [OF assms(2)] in \<open>auto simp: view_insert\<close>)
  then have "triple ((\<lambda>(d, n) w. p \<noteq> [] \<and> n = last p \<and> view tree at T (insert (d, butlast p) D) w) x)
      (case x of (d, n) \<Rightarrow> host_io (nm_statat (sv_names E) d n))
      (\<lambda>m w. T p = Some (identity_of m) \<and> view tree at T D w) (\<lambda>_. view tree at T D)" for x
    by (cases x) (simp add: triple_def)
  from triple_mbind [OF open_parent_triple [OF assms] this] show ?thesis by (simp add: secure_lstat_def False)
qed

subsection \<open>The paths of a node\<close>

lemma open_paths_triple:
  assumes "tree_laws tree at E" "\<not> fl_create fl" "list_all plain ps"
  shows "triple (view tree at T D) (open_paths (sv_names E) (sv_host E) i fl expected first ps)
    (\<lambda>(f, q, m) w. q \<in> set ps \<and> identity_of m = i \<and> T q = Some i \<and> (\<forall>k. expected = Some k \<longrightarrow> hm_kind m = k) \<and> view tree at T (insert (f, q) D) w)
    (\<lambda>_. view tree at T D)"
  using assms(3)
proof (induction ps arbitrary: first)
  case (Cons p ps)
  have head: "case open_relative (sv_names E) (sv_host E) p fl w of
      (Inr (f, q, m), w') \<Rightarrow> q = p \<and> T p = Some (identity_of m) \<and> view tree at T (insert (f, p) D) w' | (Inl _, w') \<Rightarrow> view tree at T D w'"
    if "view tree at T D w" for w
    using tripleD [OF open_relative_triple [OF assms(1) _ assms(2), of p] that] Cons.prems by (auto split: prod.splits sum.splits)
  let ?Q = "\<lambda>ps (f, q, m) w. q \<in> set ps \<and> identity_of m = i \<and> T q = Some i \<and> (\<forall>k. expected = Some k \<longrightarrow> hm_kind m = k) \<and>
    view tree at T (insert (f, q) D) w"
  have rest: "triple (view tree at T D) (open_paths (sv_names E) (sv_host E) i fl expected first ps) (?Q (p # ps)) (\<lambda>_. view tree at T D)" for first
    by (rule triple_conseq [OF Cons.IH]) (use Cons.prems in \<open>auto split: prod.splits\<close>)
  show ?case
    unfolding triple_def
  proof (intro allI impI)
    fix w assume w: "view tree at T D w"
    obtain r u where run: "open_relative (sv_names E) (sv_host E) p fl w = (r, u)" by (metis prod.exhaust)
    show "case open_paths (sv_names E) (sv_host E) i fl expected first (p # ps) w of
        (Inr x, w') \<Rightarrow> ?Q (p # ps) x w' | (Inl e, w') \<Rightarrow> view tree at T D w'"
    proof (cases r)
      case (Inl e)
      then show ?thesis using head [OF w] run tripleD [OF rest, of u "later_error e first"] by simp
    next
      case (Inr x)
      obtain f q m where x: "x = (f, q, m)" by (cases x)
      have at_p: "q = p" "T p = Some (identity_of m)" "view tree at T (insert (f, p) D) u" using head [OF w] run Inr x by auto
      then have u: "view tree at T D u" by (simp add: view_insert)
      show ?thesis
      proof (cases "identity_of m = i")
        case True
        then show ?thesis using run Inr x at_p by (cases expected) (auto simp: view_insert)
      next
        case False
        then show ?thesis using run Inr x tripleD [OF rest u, of first] by simp
      qed
    qed
  qed
qed (simp add: triple_def split: option.split)

lemma open_snapshot_triple:
  assumes "tree_laws tree at E" "\<not> fl_create fl" "list_all plain (ns_paths snap)"
  shows "triple (view tree at T D) (open_snapshot E snap fl expected)
    (\<lambda>(f, q, m) w. q \<in> set (ns_paths snap) \<and> identity_of m = ns_identity snap \<and> T q = Some (ns_identity snap) \<and>
      (\<forall>k. expected = Some k \<longrightarrow> hm_kind m = k) \<and> view tree at T (insert (f, q) D) w) (\<lambda>_. view tree at T D)"
  unfolding open_snapshot_def by (rule open_paths_triple [OF assms])

lemma open_snapshot_keeps:
  assumes "tree_laws tree at E" "\<not> fl_create fl" "list_all plain (ns_paths snap)"
  shows "preserves (view tree at T D) (open_snapshot E snap fl expected)"
  by (rule triple_preserves, rule triple_conseq [OF open_snapshot_triple [OF assms]]) (auto simp: view_insert)

lemma secure_lstat_keeps: "tree_laws tree at E \<Longrightarrow> plain p \<Longrightarrow> preserves (view tree at T D) (secure_lstat (sv_names E) p)"
  by (rule triple_preserves, rule triple_conseq [OF secure_lstat_triple]) auto

lemma open_parent_keeps: "tree_laws tree at E \<Longrightarrow> plain p \<Longrightarrow> preserves (view tree at T D) (open_parent (sv_names E) p)"
  by (rule triple_preserves, rule triple_conseq [OF open_parent_triple]) (auto simp: view_insert)

text \<open>Going through the cases of an outcome keeps an invariant that both branches keep.\<close>

lemma preserves_outcome [pres_intros]:
  assumes "preserves I m" "\<And>e. preserves I (h e)" "\<And>x. preserves I (g x)"
  shows "preserves I (\<lambda>w. case m w of (Inl e, t) \<Rightarrow> h e t | (Inr x, t) \<Rightarrow> g x t)"
  using assms by (fastforce simp: preserves_def split: prod.splits sum.splits)

lemma preserves_returns [pres_intros]: "preserves I (\<lambda>w. (r, w))"
  by (simp add: preserves_def)

lemma preserves_both [pres_intros]: "preserves I m \<Longrightarrow> preserves I n \<Longrightarrow> preserves I (\<lambda>w. if b then m w else n w)"
  by (simp add: preserves_def)

lemma stat_paths_keeps:
  assumes "tree_laws tree at E" "list_all plain ps"
  shows "preserves (view tree at T D) (stat_paths (sv_names E) i first ps)"
  using assms(2)
proof (induction ps arbitrary: first)
  case Nil
  then show ?case by (auto simp: preserves_def split: option.split)
next
  case (Cons p ps)
  have "preserves (view tree at T D) (\<lambda>w. case secure_lstat (sv_names E) p w of
      (Inl e, w') \<Rightarrow> stat_paths (sv_names E) i (later_error e first) ps w'
    | (Inr m, w') \<Rightarrow> (\<lambda>w'. if identity_of m \<noteq> i then stat_paths (sv_names E) i first ps w' else (Inr (Some m), w')) w')"
    using Cons by (intro pres_intros secure_lstat_keeps [OF assms(1)] Cons.IH) auto
  then show ?case by (simp add: preserves_def)
qed

lemma path_stat_keeps:
  assumes "tree_laws tree at E" "list_all plain (ns_paths snap)"
  shows "preserves (view tree at T D) (path_stat E snap)"
  unfolding path_stat_def
  by (intro pres_intros quiet_call_keeps quiet_names [OF assms(1)] stat_paths_keeps [OF assms])

subsection \<open>Attributes\<close>

lemma fetch_xattr_keeps: "(\<And>k. quiet_call tree at (get k)) \<Longrightarrow> preserves (view tree at T D) (fetch_xattr get maximum capacity)"
proof (rule preservesI)
  assume get: "\<And>k. quiet_call tree at (get k)"
  show "view tree at T D (snd (fetch_xattr get maximum capacity w))" if "view tree at T D w" for w
    using that
  proof (induction "maximum - capacity" arbitrary: capacity w rule: less_induct)
    case less
    obtain r u where call: "get capacity w = (r, u)" by (metis prod.exhaust)
    have "view tree at T D u" using view_quiet [OF less.prems quietD [OF get call]] .
    then show ?case using call less.hyps [of "min (2 * capacity) maximum" u] by (subst fetch_xattr.simps) (auto split: sum.split)
  qed
qed

lemma fetch_bounded_keeps: "(\<And>k. quiet_call tree at (get k)) \<Longrightarrow> preserves (view tree at T D) (fetch_bounded get maximum capacity)"
proof (rule preservesI)
  assume get: "\<And>k. quiet_call tree at (get k)"
  show "view tree at T D (snd (fetch_bounded get maximum capacity w))" if "view tree at T D w" for w
    using that
  proof (induction "maximum - capacity" arbitrary: capacity w rule: less_induct)
    case less
    obtain r u where call: "get capacity w = (r, u)" by (metis prod.exhaust)
    have "view tree at T D u" using view_quiet [OF less.prems quietD [OF get call]] .
    then show ?case using call less.hyps [of "min (2 * capacity) maximum" u] by (subst fetch_bounded.simps) (auto split: sum.split)
  qed
qed

lemma optional_keeps: "preserves I m \<Longrightarrow> preserves I (optional_attribute m)"
  by (auto simp: preserves_def optional_attribute_def split: prod.splits sum.splits)

lemma ok_flatten_keeps: "preserves I m \<Longrightarrow> preserves I (ok_flatten m)"
  by (auto simp: preserves_def ok_flatten_def split: prod.splits sum.splits)

lemma read_fd_xattr_keeps:
  assumes "tree_laws tree at E"
  shows "preserves (view tree at T D) (read_fd_xattr (sv_host E) f x k)"
    "preserves (view tree at T D) (read_fd_xattr_bounded (sv_host E) f x k)"
    "preserves (view tree at T D) (list_fd_xattrs dec (sv_host E) f)"
    "preserves (view tree at T D) (read_fd_backup_time (sv_host E) f)"
proof -
  show got: "preserves (view tree at T D) (read_fd_xattr (sv_host E) f x k)" for x k
    unfolding read_fd_xattr_def by (rule fetch_xattr_keeps) (rule quiet_names [OF assms])
  show "preserves (view tree at T D) (read_fd_xattr_bounded (sv_host E) f x k)"
    unfolding read_fd_xattr_bounded_def by (intro pres_intros fetch_bounded_keeps quiet_names [OF assms])
  show "preserves (view tree at T D) (list_fd_xattrs dec (sv_host E) f)"
    unfolding list_fd_xattrs_def by (intro pres_intros fetch_xattr_keeps quiet_names [OF assms])
  show "preserves (view tree at T D) (read_fd_backup_time (sv_host E) f)"
    unfolding read_fd_backup_time_def
    by (rule preserves_mbind [OF optional_keeps [OF got]]) (auto simp: preserves_mret preserves_mfail split: option.split)
qed

lemma open_xattr_file_keeps:
  assumes "tree_laws tree at E" "list_all plain (ns_paths snap)"
  shows "preserves (view tree at T D) (open_xattr_file E snap)"
  unfolding open_xattr_file_def
proof (rule preserves_mbind [OF path_stat_keeps [OF assms]])
  show "preserves (view tree at T D) (case st of None \<Rightarrow> mfail SNotFound | Some m \<Rightarrow>
       if hm_kind m = KSymlink then mfail SNotSupported
       else mbind (open_snapshot E snap (if hm_kind m = KDirectory then directory_flags
           else (open_flags ReadOnly False)\<lparr>fl_nonblock := True\<rparr>) None) (\<lambda>(f, _, _). mret f))" for st
  proof (cases st)
    case (Some m)
    then show ?thesis
      by (simp, intro conjI impI pres_intros open_snapshot_keeps [OF assms(1) _ assms(2)])
        (auto simp: directory_flags_def open_flags_def intro: pres_intros)
  qed (simp add: preserves_mfail)
qed

lemma read_backup_time_keeps:
  assumes "tree_laws tree at E" "list_all plain (ns_paths snap)"
  shows "preserves (view tree at T D) (read_backup_time E snap)"
proof -
  have "preserves (view tree at T D) (\<lambda>w. case open_xattr_file E snap w of
      (Inl e, w') \<Rightarrow> (\<lambda>w'. if e = SNotSupported then (Inr None, w') else (Inl e, w')) w'
    | (Inr f, w') \<Rightarrow> read_fd_backup_time (sv_host E) f w')"
    by (intro pres_intros open_xattr_file_keeps [OF assms] read_fd_xattr_keeps(4) [OF assms(1)])
  then show ?thesis by (simp add: preserves_def read_backup_time_def)
qed

lemma enrich_keeps:
  assumes "tree_laws tree at E"
  shows "preserves (view tree at T D) (enrich_resource_fork_revision E node md)"
proof (cases "sv_forks E")
  case (Some S)
  have "view tree at T D w'" if "view tree at T D w" "nm_stat_fork (sv_names E) node w = (r, w')" for w r w'
    using view_quiet [OF that(1) quietD [OF quiet_names(6) [OF assms] that(2)]] .
  then show ?thesis using Some
    by (auto simp: preserves_def enrich_resource_fork_revision_def split: prod.splits sum.splits)
qed (simp add: preserves_def enrich_resource_fork_revision_def)

lemma read_all_keeps:
  assumes "tree_laws tree at E"
  shows "preserves (view tree at T D) (read_all_at (sv_host E) f off n data)"
proof (rule preservesI)
  show "view tree at T D (snd (read_all_at (sv_host E) f off n data w))" if "view tree at T D w" for w
    using that
  proof (induction n arbitrary: off data w rule: less_induct)
    case (less n)
    obtain r u where call: "ho_read_at (sv_host E) f off n w = (r, u)" by (metis prod.exhaust)
    have "view tree at T D u" using view_quiet [OF less.prems quietD [OF quiet_names(8) [OF assms] call]] .
    then show ?case using call less.prems less.IH
      by (subst read_all_at.simps) (auto simp: host_io_def map_err_def split: sum.split)
  qed
qed

lemma forks_keep:
  assumes "tree_laws tree at E" "sv_forks E = Some S"
  shows "preserves (view tree at T D) (read_resource_fork_range S (sv_host E) node off len)"
    "preserves (view tree at T D) (remove_resource_fork S node)"
proof -
  have "preserves (view tree at T D) (open_resource_fork S (sv_host E) node False False)"
    unfolding open_resource_fork_def by (intro pres_intros quiet_call_keeps quiet_names [OF assms(1)] quiet_forks [OF assms])
  then have "preserves (view tree at T D) (\<lambda>w. case open_resource_fork S (sv_host E) node False False w of
      (Inl e, w') \<Rightarrow> (\<lambda>w'. (Inl (if e = SNotFound then SNoAttribute else e), w')) w'
    | (Inr f, w') \<Rightarrow> mbind (host_io (ho_metadata (sv_host E) f)) (\<lambda>m.
        mbind (read_all_at (sv_host E) f off (min len (hm_len m - off)) []) (\<lambda>data. mret (hm_len m, data))) w')"
    by (intro pres_intros quiet_call_keeps quiet_names [OF assms(1)] read_all_keeps [OF assms(1)])
  then show "preserves (view tree at T D) (read_resource_fork_range S (sv_host E) node off len)"
    by (simp add: preserves_def read_resource_fork_range_def)
  have "view tree at T D w'" if "view tree at T D w" "so_kind S node w = (r, w')" for w r w'
    using view_quiet [OF that(1) quietD [OF quiet_forks(1) [OF assms] that(2)]] .
  moreover have "view tree at T D (snd (host_io (so_remove S node) w))" if "view tree at T D w" for w
    using preservesD [OF quiet_call_keeps [OF quiet_forks(3) [OF assms]] that] .
  ultimately show "preserves (view tree at T D) (remove_resource_fork S node)"
    by (auto simp: preserves_def remove_resource_fork_def split: prod.splits sum.splits)
qed

lemma fork_name_keeps:
  assumes "tree_laws tree at E"
  shows "preserves (view tree at T D) (with_fork_name E node xs)"
proof -
  have "view tree at T D w'" if "view tree at T D w" "nm_stat_fork (sv_names E) node w = (r, w')" for w r w'
    using view_quiet [OF that(1) quietD [OF quiet_names(6) [OF assms] that(2)]] .
  then have "preserves (view tree at T D) (fork_is_file E node)"
    by (auto simp: preserves_def fork_is_file_def split: prod.splits sum.splits option.splits)
  then show ?thesis unfolding with_fork_name_def by (intro pres_intros)
qed

lemma inline_value_keeps:
  assumes "tree_laws tree at E"
  shows "preserves (view tree at T D) (inline_value E f node maximum x)"
proof (cases "is_resource_fork x")
  case True
  show ?thesis
  proof (cases "sv_forks E")
    case (Some S)
    show ?thesis using True Some forks_keep(1) [OF assms Some]
      by (auto simp: inline_value_def intro!: ok_flatten_keeps preserves_mbind preserves_mret split: prod.split)
  qed (use True in \<open>simp add: inline_value_def preserves_mret\<close>)
next
  case False
  then show ?thesis using read_fd_xattr_keeps(2) [OF assms]
    by (auto simp: inline_value_def intro: ok_flatten_keeps preserves_mret split: sum.split)
qed

lemma snapshot_values_keep:
  assumes "tree_laws tree at E"
  shows "preserves (view tree at T D) (snapshot_values E f node maximum remaining xs)"
proof (induction xs arbitrary: remaining)
  case (Cons x xs)
  then show ?case
    by (auto intro!: preserves_mbind inline_value_keeps [OF assms] preserves_mret split: option.split prod.split)
qed (simp add: preserves_mret)

lemma xattr_snapshot_keeps:
  assumes "tree_laws tree at E"
  shows "preserves (view tree at T D) (xattr_snapshot_for_open_file E f node maximum remaining)"
  unfolding xattr_snapshot_for_open_file_def
  by (rule preserves_mbind [OF read_fd_xattr_keeps(3) [OF assms]], rule preserves_mbind [OF fork_name_keeps [OF assms]])
    (auto intro!: preserves_mbind snapshot_values_keep [OF assms] preserves_mret split: prod.split)

end
