(* ===== verification/Server_Tracking.thy ===== *)
theory Server_Tracking
  imports Server_Walks Server_Sessions
begin

text \<open>
  The operations of a session keep the registry in step with the tree of the export: every registered path names the file
  of its node, and no permit is lost, whatever way an operation ends.
\<close>

subsection \<open>Sessions and the host together\<close>

definition tracked :: "limits \<Rightarrow> file_tree \<Rightarrow> nat \<Rightarrow> nat \<Rightarrow> srv \<Rightarrow> bool" where
  "tracked L T fs fg s \<longleftrightarrow> reg_inv fs fg s \<and> paths_ok (\<lambda>p i. T p = Some i \<and> plain p) s \<and> sh_limits (sh s) = L"

definition joint :: "limits \<Rightarrow> ('h \<Rightarrow> file_tree) \<Rightarrow> ('h \<Rightarrow> descriptor \<Rightarrow> path option) \<Rightarrow> file_tree \<Rightarrow> (descriptor \<times> path) set \<Rightarrow> nat \<Rightarrow> nat \<Rightarrow> srv \<times> 'h \<Rightarrow> bool" where
  "joint L tree at T D fs fg x \<longleftrightarrow> tracked L T fs fg (fst x) \<and> view tree at T D (snd x)"

definition in_step :: "limits \<Rightarrow> ('h \<Rightarrow> file_tree) \<Rightarrow> nat \<Rightarrow> nat \<Rightarrow> srv \<times> 'h \<Rightarrow> bool" where
  "in_step L tree fs fg x \<longleftrightarrow> tracked L (tree (snd x)) fs fg (fst x)"

lemma joint_in_step: "joint L tree at T D fs fg x \<Longrightarrow> in_step L tree fs fg x"
  by (simp add: joint_def in_step_def view_def)

lemma in_step_joint: "in_step L tree fs fg x \<Longrightarrow> joint L tree at (tree (snd x)) {} fs fg x"
  by (simp add: joint_def in_step_def view_def)

lemma joint_fewer: "joint L tree at T D' fs fg x \<Longrightarrow> D \<subseteq> D' \<Longrightarrow> joint L tree at T D fs fg x"
  by (auto simp: joint_def intro: view_mono)

lemma joint_insert: "joint L tree at T (insert (d, p) D) fs fg x \<longleftrightarrow> at (snd x) d = Some p \<and> joint L tree at T D fs fg x"
  by (auto simp: joint_def view_insert)

lemma on_host_triple:
  assumes "triple P m Q R"
  shows "triple (\<lambda>x. A (fst x) \<and> P (snd x)) (on_host m) (\<lambda>r x. A (fst x) \<and> Q r (snd x)) (\<lambda>e x. A (fst x) \<and> R e (snd x))"
  using assms by (fastforce simp: triple_def on_host_def Let_def split: prod.splits sum.splits)

lemma on_session_triple:
  assumes "triple A m Q R"
  shows "triple (\<lambda>x. A (fst x) \<and> P (snd x)) (on_session m) (\<lambda>r x. Q r (fst x) \<and> P (snd x)) (\<lambda>e x. R e (fst x) \<and> P (snd x))"
  using assms by (fastforce simp: triple_def on_session_def Let_def split: prod.splits sum.splits)

lemma on_host_joint:
  assumes "triple (view tree at T D) m (\<lambda>x w. F x \<and> view tree at T (D' x) w) (\<lambda>_. view tree at T D)"
  shows "triple (joint L tree at T D fs fg) (on_host m) (\<lambda>r x. F r \<and> joint L tree at T (D' r) fs fg x) (\<lambda>_. joint L tree at T D fs fg)"
  using on_host_triple [OF assms, of "tracked L T fs fg"] by (rule triple_conseq) (auto simp: joint_def)

lemma on_host_keeps: "preserves (view tree at T D) m \<Longrightarrow> preserves (joint L tree at T D fs fg) (on_host m)"
  by (auto simp: preserves_def joint_def on_host_def Let_def split: prod.splits)

lemma on_session_joint:
  assumes "triple (tracked L T fs fg) m (\<lambda>x s. F x \<and> tracked L T fs' fg' s) (\<lambda>_. tracked L T fs fg)"
  shows "triple (joint L tree at T D fs fg) (on_session m) (\<lambda>r x. F r \<and> joint L tree at T D fs' fg' x) (\<lambda>_. joint L tree at T D fs fg)"
  using on_session_triple [OF assms, of "view tree at T D"] by (rule triple_conseq) (auto simp: joint_def)

lemma on_session_keeps: "preserves (tracked L T fs fg) m \<Longrightarrow> preserves (joint L tree at T D fs fg) (on_session m)"
  by (auto simp: preserves_def joint_def on_session_def Let_def split: prod.splits)

subsection \<open>The registry\<close>

lemma limits_kept:
  assumes "preserves (registry_frame s) m"
  shows "sh_limits (sh (snd (m s))) = sh_limits (sh s)"
  using registry_frame_preserves [OF assms] by (simp add: registry_frame_def)

lemmas registry_limits = limits_kept [OF registry_frame_remember] limits_kept [OF registry_frame_track]
  limits_kept [OF registry_frame_reserve] limits_kept [OF registry_frame_remember_reserved]

lemma remember_keeps: "T p = Some i \<Longrightarrow> plain p \<Longrightarrow> preserves (tracked L T fs fg) (remember sha i p)"
  by (auto simp: preserves_def tracked_def registry_limits intro: reg_inv_remember paths_ok_remember)

lemma track_keeps: "preserves (tracked L T fs fg) (track_node n)"
  by (auto simp: preserves_def tracked_def registry_limits intro: reg_inv_track paths_ok_track)

lemma reserve_triple: "triple (tracked L T fs fg) reserve_node (\<lambda>_. tracked L T (Suc fs) (Suc fg)) (\<lambda>_. tracked L T fs fg)"
proof -
  have "tracked L T (Suc fs) (Suc fg) t" if "tracked L T fs fg s" "reserve_node s = (Inr u, t)" for s u t
    using reg_inv_reserve [OF _ that(2), of fs fg] paths_ok_reserve [of _ s] registry_limits(3) [of s] that by (simp add: tracked_def)
  moreover have "tracked L T fs fg t" if "tracked L T fs fg s" "reserve_node s = (Inl e, t)" for s e t
    using reg_inv_reserve [OF _ that(2), of fs fg] paths_ok_reserve [of _ s] registry_limits(3) [of s] that by (simp add: tracked_def)
  ultimately show ?thesis by (intro tripleI)
qed

lemma remember_reserved_keeps:
  assumes "tracked L T (Suc fs) (Suc fg) s" "T p = Some i" "plain p"
  shows "tracked L T fs fg (snd (remember_reserved sha i p s))"
  using assms by (auto simp: tracked_def registry_limits intro: reg_inv_remember_reserved paths_ok_remember_reserved)

lemma drop_node_permits_keeps: "tracked L T (Suc fs) (Suc fg) s \<Longrightarrow> tracked L T fs fg (drop_node_permits s)"
  by (auto simp: tracked_def drop_node_permits_def srv_upds [THEN arg_cong [where f = "\<lambda>s. sh_limits (sh s)"]]
      intro: reg_inv_session_permit reg_inv_global_permit)

lemma require_writable_keeps: "preserves I require_writable"
  by (simp add: preserves_def require_writable_def)

subsection \<open>Finding a node\<close>

lemma stat_entries_triple:
  assumes "tree_laws tree at E" "(d, p) \<in> D"
  shows "triple (view tree at T D) (stat_entries (sv_names E) d ns)
    (\<lambda>es w. (\<forall>(n, m) \<in> set es. n \<in> set ns \<and> (plain_name n \<longrightarrow> T (p @ [n]) = Some (identity_of m))) \<and> view tree at T D w) (\<lambda>_. view tree at T D)"
proof (induction ns)
  case (Cons n ns)
  have one: "triple (view tree at T D) (host_io (nm_statat (sv_names E) d n))
      (\<lambda>m w. (plain_name n \<longrightarrow> T (p @ [n]) = Some (identity_of m)) \<and> view tree at T D w) (\<lambda>_. view tree at T D)"
  proof (cases "plain_name n")
    case True
    then show ?thesis using statat_triple [OF assms True] by simp
  next
    case False
    then show ?thesis using preserves_triple [OF quiet_call_keeps [OF quiet_names(3) [OF assms(1)]]] by simp
  qed
  have more: "triple (\<lambda>w. (plain_name n \<longrightarrow> T (p @ [n]) = Some (identity_of m)) \<and> view tree at T D w)
      (mbind (stat_entries (sv_names E) d ns) (\<lambda>es. mret ((n, m) # es)))
      (\<lambda>es w. (\<forall>(a, m) \<in> set es. a \<in> set (n # ns) \<and> (plain_name a \<longrightarrow> T (p @ [a]) = Some (identity_of m))) \<and> view tree at T D w)
      (\<lambda>_. view tree at T D)" for m
  proof (cases "plain_name n \<longrightarrow> T (p @ [n]) = Some (identity_of m)")
    case True
    have "triple (view tree at T D) (mbind (stat_entries (sv_names E) d ns) (\<lambda>es. mret ((n, m) # es)))
      (\<lambda>es w. (\<forall>(a, m) \<in> set es. a \<in> set (n # ns) \<and> (plain_name a \<longrightarrow> T (p @ [a]) = Some (identity_of m))) \<and> view tree at T D w)
      (\<lambda>_. view tree at T D)"
      by (rule triple_mbind [OF Cons.IH triple_mret]) (use True in fastforce)
    then show ?thesis by (rule triple_conseq) auto
  qed (simp add: triple_def)
  show ?case using triple_mbind [OF one more] by simp
qed (simp add: triple_mret)

lemma scan_entries_found:
  assumes "\<forall>(n, m) \<in> set es. (is_dot n \<or> plain_name n) \<and> (plain_name n \<longrightarrow> T (p @ [n]) = Some (identity_of m))"
    "plain p" "list_all plain pending" "scan_entries sought limit p pending visited es = Inr r"
  shows "case r of ScanFound i q \<Rightarrow> T q = Some i \<and> plain q | ScanOn pending' _ \<Rightarrow> list_all plain pending'"
  using assms
  by (induction sought limit p pending visited es rule: scan_entries.induct) (auto split: if_splits)

lemma readdir_triple:
  assumes "tree_laws tree at E"
  shows "triple (view tree at T D) (host_io (nm_readdir (sv_names E) d))
    (\<lambda>ns w. (\<forall>n \<in> set ns. is_dot n \<or> plain_name n) \<and> view tree at T D w) (\<lambda>_. view tree at T D)"
proof (rule host_io_triple)
  fix w r w' assume w: "view tree at T D w" and call: "nm_readdir (sv_names E) d w = (r, w')"
  have "view tree at T D w'" using view_quiet [OF w quietD [OF quiet_names(4) [OF assms] call]] .
  moreover have "is_dot n \<or> plain_name n" if "r = Inr ns" "n \<in> set ns" for n ns
    using readdir_law [OF laws_split(1) [OF assms]] call that by blast
  ultimately show "case r of Inl _ \<Rightarrow> view tree at T D w' | Inr ns \<Rightarrow> (\<forall>n \<in> set ns. is_dot n \<or> plain_name n) \<and> view tree at T D w'"
    by (auto split: sum.split)
qed

lemma scan_one_triple:
  assumes "tree_laws tree at E" "plain p" "list_all plain rest"
  shows "triple (view tree at T D) (mbind (open_directory (sv_names E) p) (\<lambda>d. mbind (host_io (nm_readdir (sv_names E) d)) (\<lambda>ns.
      mbind (stat_entries (sv_names E) d ns) (\<lambda>es. mlift (scan_entries sought limit p rest visited es)))))
    (\<lambda>r w. (case r of ScanFound i q \<Rightarrow> T q = Some i \<and> plain q | ScanOn pending _ \<Rightarrow> list_all plain pending) \<and> view tree at T D w)
    (\<lambda>_. view tree at T D)" (is "triple _ _ ?Q _")
proof (rule triple_mbind [OF open_directory_triple [OF assms(1,2)]])
  fix d
  let ?D = "insert (d, p) D"
  have scanned: "triple (\<lambda>w. (\<forall>(n, m) \<in> set es. n \<in> set ns \<and> (plain_name n \<longrightarrow> T (p @ [n]) = Some (identity_of m))) \<and> view tree at T ?D w)
      (mlift (scan_entries sought limit p rest visited es)) ?Q (\<lambda>_. view tree at T ?D)"
    if "\<forall>n \<in> set ns. is_dot n \<or> plain_name n" for ns es
  proof (rule tripleI)
    fix w r t
    assume w: "(\<forall>(n, m) \<in> set es. n \<in> set ns \<and> (plain_name n \<longrightarrow> T (p @ [n]) = Some (identity_of m))) \<and> view tree at T ?D w"
      and run: "mlift (scan_entries sought limit p rest visited es) w = (Inr r, t)"
    then show "?Q r t" using scan_entries_found [OF _ assms(2,3), of es T sought limit visited r] that
      by (auto simp: mlift_def view_insert)
  qed (auto simp: mlift_def)
  have listed: "triple (\<lambda>w. (\<forall>n \<in> set ns. is_dot n \<or> plain_name n) \<and> view tree at T ?D w)
      (mbind (stat_entries (sv_names E) d ns) (\<lambda>es. mlift (scan_entries sought limit p rest visited es))) ?Q (\<lambda>_. view tree at T ?D)" for ns
  proof (cases "\<forall>n \<in> set ns. is_dot n \<or> plain_name n")
    case True
    from triple_mbind [OF stat_entries_triple [OF assms(1), of d p ?D T ns] scanned [OF True]] show ?thesis by (rule triple_conseq) auto
  qed (auto simp: triple_def)
  show "triple (view tree at T ?D) (mbind (host_io (nm_readdir (sv_names E) d)) (\<lambda>ns.
      mbind (stat_entries (sv_names E) d ns) (\<lambda>es. mlift (scan_entries sought limit p rest visited es)))) ?Q (\<lambda>_. view tree at T D)"
    by (rule triple_conseq [OF triple_mbind [OF readdir_triple [OF assms(1)] listed]]) (auto simp: view_insert)
qed

lemma discover_loop_triple:
  assumes "tree_laws tree at E" "list_all plain pending" "view tree at T D w"
  shows "case discover_loop E sought limit pending visited w of
      (Inr (i, q), t) \<Rightarrow> T q = Some i \<and> plain q \<and> view tree at T D t | (Inl _, t) \<Rightarrow> view tree at T D t"
  using assms
proof (induction E sought limit pending visited w rule: discover_loop.induct)
  case (1 E sought limit pending visited w)
  show ?case
  proof (cases pending)
    case Nil
    then show ?thesis using "1.prems" by (subst discover_loop.simps) simp
  next
    case (Cons p rest)
    let ?m = "mbind (open_directory (sv_names E) p) (\<lambda>d. mbind (host_io (nm_readdir (sv_names E) d)) (\<lambda>ns.
      mbind (stat_entries (sv_names E) d ns) (\<lambda>es. mlift (scan_entries sought limit p rest visited es))))"
    have plain: "plain p" "list_all plain rest" using "1.prems"(2) Cons by simp_all
    obtain r u where run: "?m w = (r, u)" by (cases "?m w")
    show ?thesis
    proof (cases r)
      case (Inl e)
      have "view tree at T D u" by (rule triple_Inl [OF scan_one_triple [OF "1.prems"(1) plain] "1.prems"(3) run [unfolded Inl]])
      then show ?thesis using run Inl Cons by (subst discover_loop.simps) simp
    next
      case (Inr x)
      have x: "case x of ScanFound i q \<Rightarrow> T q = Some i \<and> plain q | ScanOn pending _ \<Rightarrow> list_all plain pending" "view tree at T D u"
        using triple_Inr [OF scan_one_triple [OF "1.prems"(1) plain] "1.prems"(3) run [unfolded Inr]] by auto
      show ?thesis
      proof (cases x)
        case (ScanFound i q)
        then show ?thesis using x run Inr Cons by (subst discover_loop.simps) simp
      next
        case (ScanOn pending' visited')
        have "case discover_loop E sought limit pending' visited' u of
          (Inr (i, q), t) \<Rightarrow> T q = Some i \<and> plain q \<and> view tree at T D t | (Inl _, t) \<Rightarrow> view tree at T D t"
          using "1.IH" [OF Cons run [symmetric] Inr ScanOn "1.prems"(1) _ x(2)] x(1) ScanOn by simp
        then show ?thesis using run Inr Cons ScanOn by (subst discover_loop.simps) simp
      qed
    qed
  qed
qed

lemma discover_keeps:
  assumes "tree_laws tree at E"
  shows "preserves (joint L tree at T D fs fg) (discover_node E n)"
proof (cases "n = ROOT_NODE")
  case False
  have "joint L tree at T D fs fg (snd (discover_node E n x))" if x: "joint L tree at T D fs fg x" for x
  proof -
    let ?loop = "discover_loop E (\<lambda>i. stable_node_id (sv_sha E) (sh_node_key (sh (fst x))) i = n)
      (max_total_known_nodes (sh_limits (sh (fst x)))) [[]] 0"
    obtain r u where run: "?loop (snd x) = (r, u)" by (cases "?loop (snd x)")
    have found: "case r of Inr (i, q) \<Rightarrow> T q = Some i \<and> plain q \<and> view tree at T D u | Inl _ \<Rightarrow> view tree at T D u"
      using discover_loop_triple [OF assms, of "[[]]" T D "snd x" "\<lambda>i. stable_node_id (sv_sha E) (sh_node_key (sh (fst x))) i = n"
          "max_total_known_nodes (sh_limits (sh (fst x)))" 0] x run by (auto simp: joint_def split: sum.splits)
    show ?thesis
    proof (cases r)
      case (Inl e)
      then show ?thesis using False found x run by (simp add: discover_node_def mbind_def on_host_def joint_def)
    next
      case (Inr y)
      obtain i q where y: "y = (i, q)" by (cases y)
      have "preserves (joint L tree at T D fs fg) (mbind (on_session (remember (sv_sha E) i q)) (\<lambda>m. if m = n then mret () else mfail SStateUnavailable))"
        using found Inr y by (intro pres_intros on_session_keeps remember_keeps) auto
      moreover have "joint L tree at T D fs fg (fst x, u)" using found Inr y x by (simp add: joint_def)
      ultimately have "joint L tree at T D fs fg (snd (mbind (on_session (remember (sv_sha E) i q))
          (\<lambda>m. if m = n then mret () else mfail SStateUnavailable) (fst x, u)))" by (rule preservesD)
      then show ?thesis using False run Inr y by (simp add: discover_node_def mbind_def [of "on_host _"] on_host_def)
    qed
  qed
  then show ?thesis by (rule preservesI)
qed (simp add: discover_node_def preserves_mret)

lemma node_snapshot_triple:
  assumes "tree_laws tree at E"
  shows "triple (joint L tree at T D fs fg) (node_snapshot E n)
    (\<lambda>snap x. list_all plain (ns_paths snap) \<and> joint L tree at T D fs fg x) (\<lambda>_. joint L tree at T D fs fg)"
  unfolding node_snapshot_def
proof (rule triple_mbind)
  have "preserves (joint L tree at T D fs fg) (\<lambda>s. if contains_key (nodes_of (fst s)) n then (Inr (), s) else discover_node E n s)"
    using discover_keeps [OF assms] by (simp add: preserves_def)
  then show "triple (joint L tree at T D fs fg) (\<lambda>s. if contains_key (nodes_of (fst s)) n then (Inr (), s) else discover_node E n s)
      (\<lambda>_. joint L tree at T D fs fg) (\<lambda>_. joint L tree at T D fs fg)" by (rule preserves_triple)
  fix u
  have track: "triple (joint L tree at T D fs fg) (on_session (track_node n)) (\<lambda>_. joint L tree at T D fs fg) (\<lambda>_. joint L tree at T D fs fg)"
    by (rule preserves_triple [OF on_session_keeps [OF track_keeps]])
  show "triple (joint L tree at T D fs fg) (\<lambda>s. case map_of (nodes_of (fst s)) n of None \<Rightarrow> (Inl SInvalidNode, s)
      | Some k \<Rightarrow> mbind (on_session (track_node n)) (\<lambda>_. mret \<lparr>ns_identity = kn_identity k, ns_paths = kn_paths k\<rparr>) s)
    (\<lambda>snap x. list_all plain (ns_paths snap) \<and> joint L tree at T D fs fg x) (\<lambda>_. joint L tree at T D fs fg)"
    unfolding triple_def
  proof (intro allI impI)
    fix s assume s: "joint L tree at T D fs fg s"
    show "case (case map_of (nodes_of (fst s)) n of None \<Rightarrow> (Inl SInvalidNode, s)
      | Some k \<Rightarrow> mbind (on_session (track_node n)) (\<lambda>_. mret \<lparr>ns_identity = kn_identity k, ns_paths = kn_paths k\<rparr>) s) of
      (Inr snap, x) \<Rightarrow> list_all plain (ns_paths snap) \<and> joint L tree at T D fs fg x | (Inl _, x) \<Rightarrow> joint L tree at T D fs fg x"
    proof (cases "map_of (nodes_of (fst s)) n")
      case (Some k)
      have "list_all plain (kn_paths k)"
        using s paths_okD [OF _ Some] by (fastforce simp: joint_def tracked_def list_all_iff)
      then have "triple (joint L tree at T D fs fg) (mbind (on_session (track_node n)) (\<lambda>_. mret \<lparr>ns_identity = kn_identity k, ns_paths = kn_paths k\<rparr>))
          (\<lambda>snap x. list_all plain (ns_paths snap) \<and> joint L tree at T D fs fg x) (\<lambda>_. joint L tree at T D fs fg)"
        by (intro triple_mbind [OF track] triple_mret) simp
      from tripleD [OF this s] Some show ?thesis by simp
    qed (use s in simp)
  qed
qed

end
