(* ===== verification/Server_Handlers.thy ===== *)
theory Server_Handlers
  imports Server_Tracking
begin

text \<open>Every operation on names keeps the registry in step with the tree.\<close>

subsection \<open>Rules\<close>

lemma in_step_preserves:
  assumes "\<And>T. triple (joint L tree at T {} fs fg) m (\<lambda>_. in_step L tree fs fg) (\<lambda>_. in_step L tree fs fg)"
  shows "preserves (in_step L tree fs fg) m"
proof (rule preservesI)
  fix x assume "in_step L tree fs fg x"
  from tripleD [OF assms in_step_joint [OF this]] show "in_step L tree fs fg (snd (m x))"
    by (auto split: prod.splits sum.splits)
qed

lemma joint_preserves_in_step:
  assumes "\<And>T. preserves (joint L tree at T {} fs fg) m"
  shows "preserves (in_step L tree fs fg) m"
proof (rule in_step_preserves)
  show "triple (joint L tree at T {} fs fg) m (\<lambda>_. in_step L tree fs fg) (\<lambda>_. in_step L tree fs fg)" for T
    by (rule triple_conseq [OF preserves_triple [OF assms]]) (auto intro: joint_in_step)
qed

lemma triple_of_snd: "(\<And>x. P x \<Longrightarrow> I (snd (m x))) \<Longrightarrow> triple P m (\<lambda>_. I) (\<lambda>_. I)"
  by (fastforce simp: triple_def split: prod.splits sum.splits)

lemma snd_mbind_mret: "snd (mbind m (\<lambda>n. mret (f n)) x) = snd (m x)"
  by (simp add: mbind_def mret_def split: prod.split sum.split)

lemma with_snapshot:
  assumes "tree_laws tree at E"
    "\<And>snap. list_all plain (ns_paths snap) \<Longrightarrow> triple (joint L tree at T D fs fg) (g snap) Q (\<lambda>_. R)"
    "\<And>x. joint L tree at T D fs fg x \<Longrightarrow> R x"
  shows "triple (joint L tree at T D fs fg) (mbind (node_snapshot E n) g) Q (\<lambda>_. R)"
proof (rule triple_mbind)
  show "triple (joint L tree at T D fs fg) (node_snapshot E n)
      (\<lambda>snap x. list_all plain (ns_paths snap) \<and> joint L tree at T D fs fg x) (\<lambda>_. R)"
    by (rule triple_conseq [OF node_snapshot_triple [OF assms(1)]]) (use assms(3) in auto)
  show "triple (\<lambda>x. list_all plain (ns_paths snap) \<and> joint L tree at T D fs fg x) (g snap) Q (\<lambda>_. R)" for snap
    using assms(2) [of snap] by (cases "list_all plain (ns_paths snap)") (simp_all add: triple_def)
qed

lemma with_snapshot_keeps:
  assumes "tree_laws tree at E" "\<And>snap. list_all plain (ns_paths snap) \<Longrightarrow> preserves (joint L tree at T D fs fg) (g snap)"
  shows "preserves (joint L tree at T D fs fg) (mbind (node_snapshot E n) g)"
  by (rule triple_preserves, rule with_snapshot [OF assms(1)]) (auto intro: preserves_triple assms(2))

lemma tracked_frame:
  assumes "tracked L T fs fg s" "sh_nodes (sh t) = sh_nodes (sh s)" "known_of t = known_of s"
    "se_node_permits (se t) = se_node_permits (se s)" "sh_node_permits (sh t) = sh_node_permits (sh s)" "sh_limits (sh t) = sh_limits (sh s)"
  shows "tracked L T fs fg t"
  using assms reg_inv_frame [of fs fg s t] paths_ok_same [of _ s t] by (simp add: tracked_def)

lemma handle_permits_keep:
  "tracked L T fs fg (upd_handle_permits f s) = tracked L T fs fg s"
  "preserves (tracked L T fs fg) acquire_handle_permit" "preserves (tracked L T fs fg) (insert_opened d opened)"
proof -
  show same: "tracked L T fs fg (upd_handle_permits f s) = tracked L T fs fg s" for f s
    by (rule iffI) (erule tracked_frame; simp add: upd_handle_permits_def)+
  show "preserves (tracked L T fs fg) acquire_handle_permit"
    by (auto simp: preserves_def acquire_handle_permit_def same)
  show "preserves (tracked L T fs fg) (insert_opened d opened)"
    by (rule preservesI, erule tracked_frame) (auto simp: insert_opened_def insert_handle_def)
qed

lemma with_handle_permit_keeps:
  assumes "preserves (in_step L tree fs fg) m"
  shows "preserves (in_step L tree fs fg) (with_handle_permit m)"
proof -
  have "preserves (in_step L tree fs fg) (on_session acquire_handle_permit)"
    using preservesD [OF handle_permits_keep(2)] by (auto simp: preserves_def in_step_def on_session_def Let_def split: prod.splits) (metis snd_conv)
  moreover have "preserves (in_step L tree fs fg) (releasing (upd_handle_permits Suc) m)"
    using assms by (auto simp: preserves_def releasing_def in_step_def handle_permits_keep(1) split: prod.splits sum.splits) (metis fst_conv snd_conv)+
  ultimately show ?thesis unfolding with_handle_permit_def by (rule preserves_mbind)
qed

text \<open>The two permits of a new node: held while the file is made, then stored or dropped.\<close>

lemma with_reserved_node_keeps:
  assumes "\<And>T. triple (joint L tree at T {} (Suc fs) (Suc fg)) prepare
    (\<lambda>(i, p, y) x. tree (snd x) p = Some i \<and> plain p \<and> in_step L tree (Suc fs) (Suc fg) x) (\<lambda>_. in_step L tree (Suc fs) (Suc fg))"
  shows "preserves (in_step L tree fs fg) (with_reserved_node E prepare)"
proof (rule in_step_preserves)
  fix T
  have reserved: "triple (joint L tree at T {} fs fg) (on_session reserve_node) (\<lambda>_. joint L tree at T {} (Suc fs) (Suc fg)) (\<lambda>_. in_step L tree fs fg)"
    using on_session_joint [where F = "\<lambda>_. True" and fs = fs and fg = fg and fs' = "Suc fs" and fg' = "Suc fg", of L T reserve_node tree at "{}"] reserve_triple [of L T fs fg]
    by (auto elim!: triple_conseq intro: joint_in_step)
  have prepared: "triple (joint L tree at T {} (Suc fs) (Suc fg)) (releasing drop_node_permits prepare)
      (\<lambda>(i, p, y) x. tree (snd x) p = Some i \<and> plain p \<and> in_step L tree (Suc fs) (Suc fg) x) (\<lambda>_. in_step L tree fs fg)"
    using assms [of T] drop_node_permits_keeps
    by (fastforce simp: triple_def releasing_def in_step_def split: prod.splits sum.splits)
  have stored: "triple (\<lambda>x. tree (snd x) p = Some i \<and> plain p \<and> in_step L tree (Suc fs) (Suc fg) x)
      (mbind (on_session (remember_reserved (sv_sha E) i p)) (\<lambda>n. mret (n, y))) (\<lambda>_. in_step L tree fs fg) (\<lambda>_. in_step L tree fs fg)" for i p y
    by (rule triple_of_snd) (simp add: snd_mbind_mret in_step_def on_session_def split_beta remember_reserved_keeps)
  have "triple ((\<lambda>(i, p, y) x. tree (snd x) p = Some i \<and> plain p \<and> in_step L tree (Suc fs) (Suc fg) x) r)
      (case r of (i, p, y) \<Rightarrow> mbind (on_session (remember_reserved (sv_sha E) i p)) (\<lambda>n. mret (n, y))) (\<lambda>_. in_step L tree fs fg) (\<lambda>_. in_step L tree fs fg)" for r
    using stored by (cases r) simp
  from triple_mbind [OF reserved triple_mbind [OF prepared this]]
  show "triple (joint L tree at T {} fs fg) (with_reserved_node E prepare) (\<lambda>_. in_step L tree fs fg) (\<lambda>_. in_step L tree fs fg)"
    unfolding with_reserved_node_def .
qed

subsection \<open>Metadata and directories\<close>

lemma session_metadata_keeps:
  assumes "tree_laws tree at E"
  shows "preserves (joint L tree at T D fs fg) (session_metadata E n)"
  unfolding session_metadata_def
proof (rule with_snapshot_keeps [OF assms])
  fix snap :: node_snapshot_r assume snap: "list_all plain (ns_paths snap)"
  have "preserves (view tree at T D) (case st of None \<Rightarrow> mfail SNotFound | Some m \<Rightarrow> mbind (ok_flatten (read_backup_time E snap)) (\<lambda>t.
      enrich_resource_fork_revision E n ((to_metadata_from_stat (sv_sha E) n m)\<lparr>md_backup_unix_ms := t\<rparr>)))" for st
    by (cases st) (auto intro!: pres_intros ok_flatten_keeps read_backup_time_keeps [OF assms snap] enrich_keeps [OF assms])
  then show "preserves (joint L tree at T D fs fg) (on_host (mbind (path_stat E snap) (\<lambda>st. case st of None \<Rightarrow> mfail SNotFound
      | Some m \<Rightarrow> mbind (ok_flatten (read_backup_time E snap)) (\<lambda>t.
         enrich_resource_fork_revision E n ((to_metadata_from_stat (sv_sha E) n m)\<lparr>md_backup_unix_ms := t\<rparr>)))))"
    by (intro on_host_keeps preserves_mbind [OF path_stat_keeps [OF assms snap]])
qed

lemma open_directory_node_triple:
  assumes "tree_laws tree at E"
  shows "triple (joint L tree at T D fs fg) (open_directory_node E n)
    (\<lambda>(d, p) x. plain p \<and> joint L tree at T (insert (d, p) D) fs fg x) (\<lambda>_. joint L tree at T D fs fg)"
  unfolding open_directory_node_def
proof (rule with_snapshot [OF assms])
  fix snap :: node_snapshot_r assume snap: "list_all plain (ns_paths snap)"
  have "triple (view tree at T D) (mbind (open_snapshot E snap directory_flags (Some KDirectory)) (\<lambda>(d, p, _). mret (d, p)))
      (\<lambda>r w. plain (snd r) \<and> view tree at T (insert r D) w) (\<lambda>_. view tree at T D)"
  proof (rule triple_mbind [OF open_snapshot_triple [OF assms _ snap]])
    show "triple ((\<lambda>(f, q, m) w. q \<in> set (ns_paths snap) \<and> identity_of m = ns_identity snap \<and> T q = Some (ns_identity snap) \<and>
        (\<forall>k. Some KDirectory = Some k \<longrightarrow> hm_kind m = k) \<and> view tree at T (insert (f, q) D) w) x)
        (case x of (d, p, _) \<Rightarrow> mret (d, p)) (\<lambda>r w. plain (snd r) \<and> view tree at T (insert r D) w) (\<lambda>_. view tree at T D)" for x
      using snap by (cases x) (auto simp: triple_def mret_def list_all_iff)
  qed (simp add: directory_flags_def)
  from on_host_joint [where F = "\<lambda>r. plain (snd r)" and D' = "\<lambda>r. insert r D", OF this]
  show "triple (joint L tree at T D fs fg) (on_host (mbind (open_snapshot E snap directory_flags (Some KDirectory)) (\<lambda>(d, p, _). mret (d, p))))
      (\<lambda>(d, p) x. plain p \<and> joint L tree at T (insert (d, p) D) fs fg x) (\<lambda>_. joint L tree at T D fs fg)"
    by (rule triple_conseq) auto
qed simp

subsection \<open>Opening\<close>

lemma on_session_in_step:
  assumes "\<And>T. preserves (tracked L T fs fg) m"
  shows "preserves (in_step L tree fs fg) (on_session m)"
  using preservesD [OF assms] by (simp add: preserves_def in_step_def on_session_def split_beta)

lemma preserves_returns_of: "preserves I (\<lambda>s. (f s, s))"
  by (simp add: preserves_def)

lemma session_open_keeps:
  assumes "tree_laws tree at E"
  shows "preserves (in_step L tree fs fg) (session_open E n options)"
  unfolding session_open_def
proof (rule preserves_mbind [OF preserves_returns_of], rule with_handle_permit_keeps, rule joint_preserves_in_step, rule with_snapshot_keeps [OF assms], rule preserves_mbind)
  fix T and snap :: node_snapshot_r assume snap: "list_all plain (ns_paths snap)"
  have "preserves (view tree at T {}) (mbind (open_snapshot E snap (open_flags (oo_access options) (oo_append options)) (Some KFile)) (\<lambda>(f, _, _).
         mbind (if oo_truncate options then host_io (ho_set_len (sv_host E) f 0) else mret ()) (\<lambda>_.
         mbind (host_io (ho_metadata (sv_host E) f)) (\<lambda>m. mret (f, m)))))"
    by (rule preserves_mbind [OF open_snapshot_keeps [OF assms _ snap]])
      (auto simp: open_flags_def intro!: pres_intros quiet_call_keeps quiet_names [OF assms] split: prod.split)
  then show "preserves (joint L tree at T {} fs fg) (on_host (mbind (open_snapshot E snap (open_flags (oo_access options) (oo_append options)) (Some KFile)) (\<lambda>(f, _, _).
         mbind (if oo_truncate options then host_io (ho_set_len (sv_host E) f 0) else mret ()) (\<lambda>_.
         mbind (host_io (ho_metadata (sv_host E) f)) (\<lambda>m. mret (f, m))))))" by (rule on_host_keeps)
  show "preserves (joint L tree at T {} fs fg) (case x of (f, m) \<Rightarrow> mbind (on_session (insert_opened f \<lparr>of_node = n, of_identity = ns_identity snap,
      of_access = oo_access options, of_append = oo_append options\<rparr>)) (\<lambda>h. mret (h, revision (sv_sha E) m, hm_len m)))" for x
    by (cases x) (auto intro!: pres_intros on_session_keeps handle_permits_keep(3))
qed

subsection \<open>Creating\<close>

text \<open>The tree with at most the new name added.\<close>

definition grows :: "('h \<Rightarrow> file_tree) \<Rightarrow> file_tree \<Rightarrow> path \<Rightarrow> 'h \<Rightarrow> bool" where
  "grows tree T q w \<longleftrightarrow> tree w = T \<or> T q = None \<and> (\<exists>i. tree w = T(q \<mapsto> i))"

lemma tracked_grows:
  assumes "tracked L T fs fg s" "grows tree T q w"
  shows "in_step L tree fs fg (s, w)"
proof (cases "tree w = T")
  case True
  then show ?thesis using assms(1) by (simp add: in_step_def)
next
  case False
  then obtain i where "T q = None" "tree w = T(q \<mapsto> i)" using assms(2) by (auto simp: grows_def)
  moreover have "paths_ok (\<lambda>p i. T p = Some i \<and> plain p) s" using assms(1) by (simp add: tracked_def)
  ultimately have "paths_ok (\<lambda>p i. tree w p = Some i \<and> plain p) s" by (elim paths_ok_mono) auto
  then show ?thesis using assms(1) by (simp add: in_step_def tracked_def)
qed

lemma with_directory:
  assumes "tree_laws tree at E" "\<And>d p. plain p \<Longrightarrow> triple (joint L tree at T {(d, p)} fs fg) (g d p) Q (\<lambda>_. in_step L tree fs fg)"
  shows "triple (joint L tree at T {} fs fg) (mbind (open_directory_node E n) (\<lambda>(d, p). g d p)) Q (\<lambda>_. in_step L tree fs fg)"
proof (rule triple_mbind)
  show "triple (joint L tree at T {} fs fg) (open_directory_node E n)
      (\<lambda>(d, p) x. plain p \<and> joint L tree at T {(d, p)} fs fg x) (\<lambda>_. in_step L tree fs fg)"
    by (rule triple_conseq [OF open_directory_node_triple [OF assms(1)]]) (auto intro: joint_in_step)
  fix r :: "descriptor \<times> path"
  obtain d p where r: "r = (d, p)" by (cases r)
  show "triple ((\<lambda>(d, p) x. plain p \<and> joint L tree at T {(d, p)} fs fg x) r) (case r of (d, p) \<Rightarrow> g d p) Q (\<lambda>_. in_step L tree fs fg)"
    using assms(2) [of p d] by (cases "plain p") (simp_all add: r triple_def)
qed

lemma prepare_triple:
  assumes "tree_laws tree at E" "plain_name n"
    "\<And>T d p. plain p \<Longrightarrow> triple (view tree at T {(d, p)}) (c d p)
      (\<lambda>(i, q, y) w. q = p @ [n] \<and> tree w q = Some i \<and> grows tree T (p @ [n]) w) (\<lambda>_. grows tree T (p @ [n]))"
  shows "triple (joint L tree at T {} fs fg) (mbind (open_directory_node E parent) (\<lambda>(d, p). on_host (c d p)))
    (\<lambda>(i, p, y) x. tree (snd x) p = Some i \<and> plain p \<and> in_step L tree fs fg x) (\<lambda>_. in_step L tree fs fg)"
proof (rule with_directory [OF assms(1)])
  show "triple (joint L tree at T {(d, p)} fs fg) (on_host (c d p))
      (\<lambda>(i, p, y) x. tree (snd x) p = Some i \<and> plain p \<and> in_step L tree fs fg x) (\<lambda>_. in_step L tree fs fg)" if p: "plain p" for d p
    by (rule triple_conseq [OF on_host_triple [OF assms(3) [OF p, of T d], of "tracked L T fs fg"]])
      (use p assms(2) in \<open>auto simp: joint_def dest: tracked_grows [where q = "p @ [n]"]\<close>)
qed

lemma makes_triple:
  assumes "makes tree at m" "plain_name n"
  shows "triple (view tree at T {(d, p)}) (host_io (m d n)) (\<lambda>_ w. \<exists>i. T (p @ [n]) = None \<and> view tree at (T(p @ [n] \<mapsto> i)) {} w) (\<lambda>_. view tree at T {})"
proof (rule host_io_triple)
  fix w r w' assume w: "view tree at T {(d, p)} w" and call: "m d n w = (r, w')"
  have "at w d = Some p" "tree w = T" using w by (simp_all add: view_def)
  with assms call have "case r of Inl _ \<Rightarrow> quiet tree at w w' | Inr _ \<Rightarrow> T (p @ [n]) = None \<and> (\<exists>i. tree w' = T(p @ [n] \<mapsto> i))"
    unfolding makes_def by blast
  then show "case r of Inl _ \<Rightarrow> view tree at T {} w' | Inr _ \<Rightarrow> \<exists>i. T (p @ [n]) = None \<and> view tree at (T(p @ [n] \<mapsto> i)) {} w'"
    using w by (auto simp: view_def quiet_def split: sum.splits)
qed

lemma triple_Ex: "(\<And>i. triple (P i) m Q E) \<Longrightarrow> triple (\<lambda>s. \<exists>i. P i s) m Q E"
  by (rule tripleI) (auto dest: triple_Inr triple_Inl)

lemma grown_triple:
  assumes "\<And>T. triple (view tree at T D) m (\<lambda>y w. T q = Some (f y) \<and> view tree at T D w) (\<lambda>_. view tree at T D)"
  shows "triple (\<lambda>w. \<exists>i. T q = None \<and> view tree at (T(q \<mapsto> i)) D w) (mbind m (\<lambda>y. mret (f y, q, g y)))
    (\<lambda>(i, q', y) w. q' = q \<and> tree w q' = Some i \<and> grows tree T q w) (\<lambda>_. grows tree T q)"
proof (rule triple_Ex)
  fix i
  show "triple (\<lambda>w. T q = None \<and> view tree at (T(q \<mapsto> i)) D w) (mbind m (\<lambda>y. mret (f y, q, g y)))
    (\<lambda>(i, q', y) w. q' = q \<and> tree w q' = Some i \<and> grows tree T q w) (\<lambda>_. grows tree T q)"
  proof (cases "T q = None")
    case True
    have "triple (view tree at (T(q \<mapsto> i)) D) (mbind m (\<lambda>y. mret (f y, q, g y)))
      (\<lambda>(i, q', y) w. q' = q \<and> tree w q' = Some i \<and> grows tree T q w) (\<lambda>_. view tree at (T(q \<mapsto> i)) D)"
      by (rule triple_mbind [OF assms triple_mret]) (use True in \<open>auto simp: view_def grows_def\<close>)
    then show ?thesis by (rule triple_conseq) (use True in \<open>auto simp: view_def grows_def\<close>)
  qed (auto simp: triple_def)
qed

text \<open>Making a file and then asking for its identity.\<close>

lemma made_triple:
  assumes "triple (view tree at T {(d, p)}) c (\<lambda>x w. \<exists>i. T q = None \<and> view tree at (T(q \<mapsto> i)) (D x) w) (\<lambda>_. view tree at T {})"
    "\<And>T x. triple (view tree at T (D x)) (m x) (\<lambda>y w. T q = Some (f y) \<and> view tree at T (D x) w) (\<lambda>_. view tree at T (D x))"
  shows "triple (view tree at T {(d, p)}) (mbind c (\<lambda>x. mbind (m x) (\<lambda>y. mret (f y, q, g x y))))
    (\<lambda>(i, q', y) w. q' = q \<and> tree w q' = Some i \<and> grows tree T q w) (\<lambda>_. grows tree T q)"
proof (rule triple_mbind)
  show "triple (view tree at T {(d, p)}) c (\<lambda>x w. \<exists>i. T q = None \<and> view tree at (T(q \<mapsto> i)) (D x) w) (\<lambda>_. grows tree T q)"
    by (rule triple_conseq [OF assms(1)]) (auto simp: grows_def view_def)
  show "triple (\<lambda>w. \<exists>i. T q = None \<and> view tree at (T(q \<mapsto> i)) (D x) w) (mbind (m x) (\<lambda>y. mret (f y, q, g x y)))
    (\<lambda>(i, q', y) w. q' = q \<and> tree w q' = Some i \<and> grows tree T q w) (\<lambda>_. grows tree T q)" for x
    by (rule grown_triple [OF assms(2)])
qed

end
