(* ===== verification/Server_Changes.thy ===== *)
theory Server_Changes
  imports Server_Handlers
begin

text \<open>
  The operations that make, remove and rename files keep the registry in step with the tree.
\<close>

lemma guard_keeps: "(\<And>x. r = Inr x \<Longrightarrow> preserves I (g x)) \<Longrightarrow> preserves I (mbind (mlift r) g)"
  by (cases r) (auto simp: preserves_def mbind_def mlift_def)

lemma validated_name: "validate_name n = Inr x \<Longrightarrow> plain_name n"
  by (cases "validate_filename n") (simp_all add: validate_name_def plain_name_def map_err_def)

lemma writable_keeps: "preserves I (on_session require_writable)"
  by (simp add: preserves_def on_session_def require_writable_def)

lemma on_host_in_step:
  assumes "\<And>T. preserves (view tree at T {}) m"
  shows "preserves (in_step L tree fs fg) (on_host m)"
  by (rule joint_preserves_in_step [where at = at], rule on_host_keeps [OF assms])

subsection \<open>Creating\<close>

lemma create_open_triple:
  assumes "tree_laws tree at E" "plain_name n" "fl_create fl"
  shows "triple (view tree at T {(d, p)}) (host_io (nm_openat (sv_names E) d n fl mode))
    (\<lambda>f w. \<exists>i. T (p @ [n]) = None \<and> view tree at (T(p @ [n] \<mapsto> i)) {(f, p @ [n])} w) (\<lambda>_. view tree at T {})"
proof (rule host_io_triple)
  fix w r w' assume w: "view tree at T {(d, p)} w" and call: "nm_openat (sv_names E) d n fl mode w = (r, w')"
  have laws: "changes_names tree at (sv_names E)" by (rule laws_split(2) [OF assms(1)])
  have here: "at w d = Some p" "tree w = T" using w by (simp_all add: view_def)
  have "makes tree at (\<lambda>d n. nm_openat (sv_names E) d n fl mode)" using laws assms(3) by (simp add: changes_names_def)
  with here call assms(2) have "case r of Inl _ \<Rightarrow> quiet tree at w w' | Inr _ \<Rightarrow> T (p @ [n]) = None \<and> (\<exists>i. tree w' = T(p @ [n] \<mapsto> i))"
    unfolding makes_def by blast
  moreover have "at w' f = Some (p @ [n])" if "r = Inr f" for f
    using laws [unfolded changes_names_def, THEN conjunct2, THEN conjunct1] here(1) assms(2,3) call that by blast
  ultimately show "case r of Inl _ \<Rightarrow> view tree at T {} w'
      | Inr f \<Rightarrow> \<exists>i. T (p @ [n]) = None \<and> view tree at (T(p @ [n] \<mapsto> i)) {(f, p @ [n])} w'"
    using w by (auto simp: view_def quiet_def split: sum.splits)
qed

lemma stat_made:
  assumes "tree_laws tree at E" "plain q"
  shows "triple (view tree at T {}) (secure_lstat (sv_names E) q) (\<lambda>m w. T q = Some (identity_of m) \<and> view tree at T {} w) (\<lambda>_. view tree at T {})"
  by (rule secure_lstat_triple [OF assms])

lemma session_create_file_keeps:
  assumes "tree_laws tree at E"
  shows "preserves (in_step L tree fs fg) (session_create_file E parent name mode options)"
  unfolding session_create_file_def
proof (rule preserves_mbind [OF writable_keeps], rule guard_keeps, rule guard_keeps, rule with_handle_permit_keeps, rule preserves_mbind,
    rule with_reserved_node_keeps, rule prepare_triple [OF assms validated_name])
  let ?fl = "(open_flags (oo_access options) (oo_append options))\<lparr>fl_create := True\<rparr>"
  fix x T d p assume name: "validate_name name = Inr x" "plain p"
  show "triple (view tree at T {(d, p)}) (mbind (host_io (nm_openat (sv_names E) d name ?fl (mode mod 4096))) (\<lambda>f.
      mbind (host_io (ho_metadata (sv_host E) f)) (\<lambda>m. mret (identity_of m, p @ [name], (f, m)))))
    (\<lambda>(i, q, y) w. q = p @ [name] \<and> tree w q = Some i \<and> grows tree T (p @ [name]) w) (\<lambda>_. grows tree T (p @ [name]))"
    by (rule made_triple [OF create_open_triple [OF assms validated_name [OF name(1)]] metadata_at_triple [OF assms]]) simp_all
next
  show "preserves (in_step L tree fs fg) (case y of (n, f, m) \<Rightarrow>
       mbind (on_session (insert_opened f \<lparr>of_node = n, of_identity = identity_of m, of_access = oo_access options,
           of_append = oo_append options\<rparr>)) (\<lambda>h. mret (to_metadata (sv_sha E) n m, h, revision (sv_sha E) m, hm_len m)))" for y
    by (cases y) (auto intro!: pres_intros on_session_in_step handle_permits_keep(3))
qed

lemma session_create_directory_keeps:
  assumes "tree_laws tree at E"
  shows "preserves (in_step L tree fs fg) (session_create_directory E parent name mode)"
  unfolding session_create_directory_def
proof (rule preserves_mbind [OF writable_keeps], rule guard_keeps, rule preserves_mbind,
    rule with_reserved_node_keeps, rule prepare_triple [OF assms validated_name])
  fix x T d p assume name: "validate_name name = Inr x" "plain p"
  have "makes tree at (\<lambda>d n. nm_mkdirat (sv_names E) d n (mode mod 4096))"
    using laws_split(2) [OF assms] by (simp add: changes_names_def)
  note made = makes_triple [OF this validated_name [OF name(1)]]
  have opened: "triple (view tree at T {}) (open_relative (sv_names E) (sv_host E) (p @ [name]) directory_flags)
      (\<lambda>y w. T (p @ [name]) = Some (identity_of (snd (snd y))) \<and> view tree at T {} w) (\<lambda>_. view tree at T {})" for T
    by (rule triple_conseq [OF open_relative_triple [OF assms]]) (use name validated_name in \<open>auto simp: view_insert directory_flags_def\<close>)
  from made_triple [OF made opened, where g = "\<lambda>_ y. snd (snd y)"]
  show "triple (view tree at T {(d, p)}) (mbind (host_io (nm_mkdirat (sv_names E) d name (mode mod 4096))) (\<lambda>_.
         mbind (open_relative (sv_names E) (sv_host E) (p @ [name]) directory_flags) (\<lambda>(_, _, m).
         mret (identity_of m, p @ [name], m))))
    (\<lambda>(i, q, y) w. q = p @ [name] \<and> tree w q = Some i \<and> grows tree T (p @ [name]) w) (\<lambda>_. grows tree T (p @ [name]))"
    by (simp add: case_prod_beta')
qed (auto intro: pres_intros)

lemma create_and_stat_keeps:
  assumes "tree_laws tree at E" "plain_name name" "makes tree at creates"
  shows "preserves (in_step L tree fs fg) (create_and_stat E parent name (\<lambda>d. creates d name))"
  unfolding create_and_stat_def
proof (rule preserves_mbind, rule with_reserved_node_keeps, rule prepare_triple [OF assms(1,2)])
  fix T d p assume p: "plain p"
  show "triple (view tree at T {(d, p)}) (mbind (host_io (creates d name)) (\<lambda>_. mbind (secure_lstat (sv_names E) (p @ [name])) (\<lambda>m.
         mret (identity_of m, p @ [name], ()))))
    (\<lambda>(i, q, y) w. q = p @ [name] \<and> tree w q = Some i \<and> grows tree T (p @ [name]) w) (\<lambda>_. grows tree T (p @ [name]))"
    by (rule made_triple [OF makes_triple [OF assms(3,2)] stat_made [OF assms(1)]]) (use p assms(2) in simp)
qed (auto intro: joint_preserves_in_step session_metadata_keeps [OF assms(1)])

subsection \<open>Links\<close>

text \<open>The tree with at most one new name for a file that was there.\<close>

definition link_made :: "('h \<Rightarrow> file_tree) \<Rightarrow> file_tree \<Rightarrow> path \<Rightarrow> file_identity \<Rightarrow> 'h \<Rightarrow> bool" where
  "link_made tree T q i w \<longleftrightarrow> T q = None \<and> tree w = T(q \<mapsto> i)"

lemma link_one_triple:
  assumes "tree_laws tree at E" "plain p" "plain q" "plain_name n" "p \<noteq> []" "T p = Some i"
  shows "triple (view tree at T {(d, q)}) (mbind (open_parent (sv_names E) p) (\<lambda>(sd, sn). host_io (nm_linkat (sv_names E) sd sn d n)))
    (\<lambda>_. link_made tree T (q @ [n]) i) (\<lambda>_. view tree at T {})"
proof (rule triple_mbind)
  show "triple (view tree at T {(d, q)}) (open_parent (sv_names E) p)
      (\<lambda>(sd, sn) w. sn = last p \<and> view tree at T {(sd, butlast p), (d, q)} w) (\<lambda>_. view tree at T {})"
    by (rule triple_conseq [OF open_parent_triple [OF assms(1,2), where D = "{(d, q)}"]]) (auto simp: view_insert)
  have "triple (view tree at T {(sd, butlast p), (d, q)}) (host_io (nm_linkat (sv_names E) sd (last p) d n)) (\<lambda>_. link_made tree T (q @ [n]) i) (\<lambda>_. view tree at T {})" for sd
  proof (rule host_io_triple)
    fix w r w' assume w: "view tree at T {(sd, butlast p), (d, q)} w" and call: "nm_linkat (sv_names E) sd (last p) d n w = (r, w')"
    have here: "at w sd = Some (butlast p)" "at w d = Some q" "tree w = T" using w by (simp_all add: view_def)
    have "case r of Inl _ \<Rightarrow> quiet tree at w w' | Inr _ \<Rightarrow> tree w (q @ [n]) = None \<and> tree w' = (tree w)(q @ [n] := tree w (butlast p @ [last p]))"
      using laws_split(2) [OF assms(1), unfolded changes_names_def, THEN conjunct2, THEN conjunct2, THEN conjunct2, THEN conjunct2, THEN conjunct2, THEN conjunct1]
        here(1,2) plain_parts(2) [OF assms(2,5)] assms(4) call by blast
    then show "case r of Inl _ \<Rightarrow> view tree at T {} w' | Inr _ \<Rightarrow> link_made tree T (q @ [n]) i w'"
      using here assms(5,6) by (auto simp: view_def quiet_def link_made_def split: sum.splits)
  qed
  then show "triple ((\<lambda>(sd, sn) w. sn = last p \<and> view tree at T {(sd, butlast p), (d, q)} w) x)
      (case x of (sd, sn) \<Rightarrow> host_io (nm_linkat (sv_names E) sd sn d n)) (\<lambda>_. link_made tree T (q @ [n]) i) (\<lambda>_. view tree at T {})" for x
    by (cases x) (simp add: triple_def)
qed

lemma link_paths_triple:
  assumes "tree_laws tree at E" "list_all plain ps" "plain q" "plain_name n"
  shows "triple (view tree at T {(d, q)}) (link_paths E i d n ps) (\<lambda>_. link_made tree T (q @ [n]) i) (\<lambda>_. view tree at T {})"
  using assms(2)
proof (induction ps)
  case Nil
  then show ?case by (auto simp: triple_def view_def)
next
  case (Cons p ps)
  have p: "plain p" "list_all plain ps" using Cons.prems by simp_all
  show ?case unfolding triple_def
  proof (intro allI impI)
    fix w assume w: "view tree at T {(d, q)} w"
    let ?ok = "\<lambda>r. case r of (Inr _, t) \<Rightarrow> link_made tree T (q @ [n]) i t | (Inl _, t) \<Rightarrow> view tree at T {} t"
    obtain r u where call: "secure_lstat (sv_names E) p w = (r, u)" by (cases "secure_lstat (sv_names E) p w")
    have u: "view tree at T {(d, q)} u" "\<forall>m. r = Inr m \<longrightarrow> T p = Some (identity_of m)"
      using tripleD [OF secure_lstat_triple [OF assms(1) p(1)] w] call by (auto split: sum.splits)
    have later: "?ok (link_paths E i d n ps u)" by (rule tripleD [OF Cons.IH [OF p(2)] u(1)])
    show "?ok (link_paths E i d n (p # ps) w)"
    proof (cases "p = []")
      case True
      then show ?thesis using w by (simp add: view_def)
    next
      case False
      have "?ok (mbind (open_parent (sv_names E) p) (\<lambda>(sd, sn). host_io (nm_linkat (sv_names E) sd sn d n)) u)" if "T p = Some i"
        by (rule tripleD [OF link_one_triple [where T = T and i = i, OF assms(1) p(1) assms(3,4) False that] u(1)])
      moreover have "view tree at T {} u" using u(1) by (simp add: view_def)
      ultimately show ?thesis using False call u(2) later by (cases r) simp_all
    qed
  qed
qed

lemma session_create_hard_link_keeps:
  assumes "tree_laws tree at E"
  shows "preserves (in_step L tree fs fg) (session_create_hard_link E node parent name)"
  unfolding session_create_hard_link_def
proof (rule preserves_mbind [OF writable_keeps], rule guard_keeps, rule in_step_preserves, rule with_snapshot [OF assms])
  fix x T and source :: node_snapshot_r assume name: "validate_name name = Inr x" and source: "list_all plain (ns_paths source)"
  let ?i = "ns_identity source"
  show "triple (joint L tree at T {} fs fg) (mbind (open_directory_node E parent) (\<lambda>(d, p).
     mbind (on_host (link_paths E ?i d name (ns_paths source))) (\<lambda>_.
     mbind (on_session (remember (sv_sha E) ?i (p @ [name]))) (\<lambda>_. session_metadata E node)))) (\<lambda>_. in_step L tree fs fg) (\<lambda>_. in_step L tree fs fg)"
  proof (rule with_directory [OF assms])
    fix d p assume p: "plain p"
    have link_made: "triple (joint L tree at T {(d, p)} fs fg) (on_host (link_paths E ?i d name (ns_paths source)))
        (\<lambda>_ x. in_step L tree fs fg x \<and> tree (snd x) (p @ [name]) = Some ?i) (\<lambda>_. in_step L tree fs fg)"
      by (rule triple_conseq [OF on_host_triple [OF link_paths_triple [OF assms source p validated_name [OF name], of T d ?i], of "tracked L T fs fg"]])
        (auto simp: joint_def in_step_def view_def link_made_def grows_def dest!: tracked_grows [where q = "p @ [name]" and tree = tree])
    have remembered: "triple (\<lambda>x. in_step L tree fs fg x \<and> tree (snd x) (p @ [name]) = Some ?i) (on_session (remember (sv_sha E) ?i (p @ [name])))
        (\<lambda>_. in_step L tree fs fg) (\<lambda>_. in_step L tree fs fg)"
      using p validated_name [OF name] preservesD [OF remember_keeps]
      by (intro triple_of_snd) (simp add: in_step_def on_session_def split_beta)
    have "triple (in_step L tree fs fg) (session_metadata E node) (\<lambda>_. in_step L tree fs fg) (\<lambda>_. in_step L tree fs fg)"
      by (rule preserves_triple, rule joint_preserves_in_step [where at = at], rule session_metadata_keeps [OF assms])
    from triple_mbind [OF link_made triple_mbind [OF remembered this]]
    show "triple (joint L tree at T {(d, p)} fs fg) (mbind (on_host (link_paths E ?i d name (ns_paths source))) (\<lambda>_.
       mbind (on_session (remember (sv_sha E) ?i (p @ [name]))) (\<lambda>_. session_metadata E node)))
       (\<lambda>_. in_step L tree fs fg) (\<lambda>_. in_step L tree fs fg)" .
  qed
qed (rule joint_in_step)

subsection \<open>Removing\<close>

definition cut :: "path \<Rightarrow> bool \<Rightarrow> file_tree \<Rightarrow> file_tree" where
  "cut p directory T q = (if q = p \<or> directory \<and> is_path_or_descendant q p then None else T q)"

lemma tracked_cut:
  assumes "tracked L T fs fg s" "\<And>q. T q = T [] \<Longrightarrow> q = []" "p \<noteq> []"
  shows "tracked L (cut p directory T) fs fg (remove_registry_path p directory s)"
proof -
  have ok: "paths_ok (\<lambda>p i. T p = Some i \<and> plain p) s" using assms(1) by (simp add: tracked_def)
  have "paths_ok (\<lambda>q i. cut p directory T q = Some i \<and> plain q) (remove_registry_path p directory s)"
  proof (rule paths_ok_remove_path [OF ok])
    fix k q assume root: "map_of (nodes_of s) ROOT_NODE = Some k" and q: "q \<in> set (kn_paths k)"
    have "T [] = Some (kn_identity k)" using paths_okD [OF ok root paths_ok_root [OF ok root]] by simp
    moreover have "T q = Some (kn_identity k) \<and> plain q" using paths_okD [OF ok root q] .
    ultimately show "cut p directory T q = Some (kn_identity k) \<and> plain q"
      using assms(2) [of q] assms(3) by (auto simp: cut_def below_iff)
  qed (auto simp: cut_def below_iff split: if_splits)
  moreover have "sh_limits (sh (remove_registry_path p directory s)) = sh_limits (sh s)"
    using run_op_frame [of _ "RemovePath p directory" s] by simp
  ultimately show ?thesis using assms(1) reg_inv_remove_path by (simp add: tracked_def)
qed

lemma unlink_triple:
  assumes "tree_laws tree at E" "plain_name n"
  shows "triple (view tree at T {(d, p)}) (host_io (nm_unlinkat (sv_names E) d n directory))
    (\<lambda>_ w. view tree at (cut (p @ [n]) directory T) {} w) (\<lambda>_. view tree at T {})"
proof (rule host_io_triple)
  fix w r w' assume w: "view tree at T {(d, p)} w" and call: "nm_unlinkat (sv_names E) d n directory w = (r, w')"
  have here: "at w d = Some p" "tree w = T" using w by (simp_all add: view_def)
  have "case r of Inl _ \<Rightarrow> quiet tree at w w' | Inr _ \<Rightarrow> tree w' = (\<lambda>q. if q = p @ [n] \<or> directory \<and> is_path_or_descendant q (p @ [n]) then None else tree w q)"
    using laws_split(2) [OF assms(1), unfolded changes_names_def, THEN conjunct2, THEN conjunct2, THEN conjunct2, THEN conjunct2, THEN conjunct2, THEN conjunct2, THEN conjunct1]
      here(1) assms(2) call by blast
  then show "case r of Inl _ \<Rightarrow> view tree at T {} w' | Inr _ \<Rightarrow> view tree at (cut (p @ [n]) directory T) {} w'"
    using here by (auto simp: view_def quiet_def cut_def fun_eq_iff split: sum.splits)
qed

lemma session_remove_node_keeps:
  assumes "tree_laws tree at E"
  shows "preserves (in_step L tree fs fg) (session_remove_node E parent name directory)"
  unfolding session_remove_node_def
proof (rule preserves_mbind [OF writable_keeps], rule guard_keeps, rule in_step_preserves, rule with_directory [OF assms])
  fix x T d p assume name: "validate_name name = Inr x" and p: "plain p"
  let ?stale = "\<lambda>x. tracked L T fs fg (fst x) \<and> tree (snd x) = cut (p @ [name]) directory T \<and> (\<forall>q. T q = T [] \<longrightarrow> q = [])"
  let ?forks = "\<lambda>m s. case sv_forks E of
      Some S \<Rightarrow> if hm_nlink m \<le> 1
        then mignore (on_host (remove_resource_fork S (stable_node_id (sv_sha E) (sh_node_key (sh (fst s))) (identity_of m)))) s
        else (Inr (), s)
    | None \<Rightarrow> (Inr (), s)"
  have stat: "triple (joint L tree at T {(d, p)} fs fg) (on_host (host_io (nm_statat (sv_names E) d name)))
      (\<lambda>_. joint L tree at T {(d, p)} fs fg) (\<lambda>_. in_step L tree fs fg)"
    by (rule triple_conseq [OF preserves_triple [OF on_host_keeps [OF quiet_call_keeps [OF quiet_names(3) [OF assms]]]]]) (auto intro: joint_in_step)
  have unlink: "triple (joint L tree at T {(d, p)} fs fg) (on_host (host_io (nm_unlinkat (sv_names E) d name directory)))
      (\<lambda>_. ?stale) (\<lambda>_. in_step L tree fs fg)"
  proof -
    have root: "\<forall>q. T q = T [] \<longrightarrow> q = []" if "view tree at T D w" for w D using laws_split(4) [OF assms, of w] that by (auto simp: view_def)
    show ?thesis
    proof (cases "\<forall>q. T q = T [] \<longrightarrow> q = []")
      case True
      show ?thesis
        by (rule triple_conseq [OF on_host_triple [OF unlink_triple [OF assms validated_name [OF name], of T d p directory], of "tracked L T fs fg"]])
          (use True in \<open>auto simp: joint_def in_step_def view_def\<close>)
    qed (use root in \<open>auto simp: triple_def joint_def\<close>)
  qed
  have cleared: "triple ?stale (on_session (mput (remove_registry_path (p @ [name]) directory))) (\<lambda>_. in_step L tree fs fg) (\<lambda>_. in_step L tree fs fg)"
    by (rule triple_of_snd) (simp add: in_step_def on_session_def mput_def tracked_cut)
  have forks: "triple (in_step L tree fs fg) (?forks m) (\<lambda>_. in_step L tree fs fg) (\<lambda>_. in_step L tree fs fg)" for m
  proof (cases "sv_forks E")
    case (Some S)
    have "preserves (in_step L tree fs fg) (mignore (on_host (remove_resource_fork S n)))" for n
      by (rule preserves_mignore, rule on_host_in_step, rule forks_keep(2) [OF assms Some])
    from preservesD [OF this] Some show ?thesis by (intro triple_of_snd) simp
  qed (simp add: triple_def)
  show "triple (joint L tree at T {(d, p)} fs fg) (mbind (on_host (host_io (nm_statat (sv_names E) d name))) (\<lambda>m.
     if directory \<and> hm_kind m \<noteq> KDirectory then mfail SNotDirectory
     else if \<not> directory \<and> hm_kind m = KDirectory then mfail SIsDirectory
     else mbind (on_host (host_io (nm_unlinkat (sv_names E) d name directory))) (\<lambda>_.
       mbind (on_session (mput (remove_registry_path (p @ [name]) directory))) (\<lambda>_. ?forks m))))
     (\<lambda>_. in_step L tree fs fg) (\<lambda>_. in_step L tree fs fg)"
    by (rule triple_mbind [OF stat], intro triple_if triple_mfail joint_in_step, assumption, assumption,
      rule triple_mbind [OF unlink triple_mbind [OF cleared forks]])
qed

subsection \<open>Renaming\<close>

definition renames :: "rename_mode \<Rightarrow> path \<Rightarrow> path \<Rightarrow> file_identity \<Rightarrow> file_identity option \<Rightarrow> file_tree \<Rightarrow> file_tree \<Rightarrow> bool" where
  "renames mode old new source destination T T' \<longleftrightarrow> old \<noteq> [] \<and> new \<noteq> [] \<and> plain old \<and> plain new \<and> T old = Some source \<and> T new = destination \<and>
     (if destination = Some source then T' = T
      else \<not> is_path_or_descendant old new \<and> \<not> is_path_or_descendant new old \<and>
        (mode = RenameReplace \<longrightarrow> (\<forall>r. r \<noteq> [] \<longrightarrow> T (new @ r) = None)) \<and> (mode = RenameNoReplace \<longrightarrow> (\<forall>r. T (new @ r) = None)) \<and>
        T' = renamed_tree mode old new T)"

lemma replace_prefix_plain: "plain new \<Longrightarrow> plain p \<Longrightarrow> plain (replace_prefix p old new)"
proof (cases "strip_prefix old p")
  case (Some r)
  assume "plain new" "plain p"
  moreover have "p = old @ r" using Some by simp
  ultimately show ?thesis unfolding replace_prefix_def Some by simp
qed (simp add: replace_prefix_def)

lemma rename_path_plain: "plain old \<Longrightarrow> plain new \<Longrightarrow> plain p \<Longrightarrow> plain (rename_path old new mode p)"
  by (simp add: rename_path_def replace_prefix_plain)

lemma tracked_renames:
  assumes "tracked L T fs fg s" "renames mode old new source destination T T'"
  shows "tracked L T' fs fg (update_registry_after_rename old new mode source destination s)"
proof (cases "destination = Some source")
  case True
  then show ?thesis using assms by (simp add: renames_def update_registry_after_rename_def)
next
  case False
  have "paths_ok (\<lambda>p i. T' p = Some i \<and> plain p) (update_registry_after_rename old new mode source destination s)"
    using paths_ok_rename [of T plain s old new source destination mode] assms False by (simp add: renames_def tracked_def rename_path_plain)
  moreover have "sh_limits (sh (update_registry_after_rename old new mode source destination s)) = sh_limits (sh s)"
    using run_op_frame [of _ "RenamePath old new mode source destination" s] by simp
  ultimately show ?thesis using assms(1) reg_inv_rename by (simp add: tracked_def)
qed

lemma with_open_directory:
  assumes "tree_laws tree at E" "list_all plain (ns_paths snap)"
    "\<And>d p. plain p \<Longrightarrow> triple (view tree at T (insert (d, p) D)) (g d p) Q (\<lambda>_. view tree at T {})"
  shows "triple (view tree at T D) (mbind (open_snapshot E snap directory_flags (Some KDirectory)) (\<lambda>(d, p, _). g d p)) Q (\<lambda>_. view tree at T {})"
proof (rule triple_mbind)
  show "triple (view tree at T D) (open_snapshot E snap directory_flags (Some KDirectory))
      (\<lambda>(d, p, _) w. plain p \<and> view tree at T (insert (d, p) D) w) (\<lambda>_. view tree at T {})"
    by (rule triple_conseq [OF open_snapshot_triple [OF assms(1) _ assms(2), where T = T and D = D]])
      (use assms(2) in \<open>auto simp: directory_flags_def list_all_iff view_def\<close>)
  fix r :: "descriptor \<times> path \<times> host_meta"
  obtain d p m where r: "r = (d, p, m)" by (cases r)
  show "triple ((\<lambda>(d, p, _) w. plain p \<and> view tree at T (insert (d, p) D) w) r) (case r of (d, p, _) \<Rightarrow> g d p) Q (\<lambda>_. view tree at T {})"
    using assms(3) [of p d] by (cases "plain p") (simp_all add: r triple_def)
qed

lemma rename_triple:
  assumes "tree_laws tree at E" "plain_name on" "plain_name nn" "plain op" "plain np"
  shows "triple (view tree at T {(od, op), (nd, np)}) (mbind (host_io (nm_statat (sv_names E) od on)) (\<lambda>source.
       mbind (\<lambda>w. case nm_statat (sv_names E) nd nn w of
           (Inr m, w') \<Rightarrow> (Inr (Some (identity_of m)), w')
         | (Inl e, w') \<Rightarrow> if io_errno e = Some ENOENT then (Inr None, w') else (Inl (server_error_from_io e), w')) (\<lambda>destination.
       mbind (host_io (nm_renameat (sv_names E) od on nd nn mode)) (\<lambda>_.
       mret (op @ [on], np @ [nn], identity_of source, destination)))))
     (\<lambda>(old, new, source, destination) w. renames mode old new source destination T (tree w)) (\<lambda>_. view tree at T {})"
proof (rule triple_mbind)
  let ?D = "{(od, op), (nd, np)}"
  show "triple (view tree at T ?D) (host_io (nm_statat (sv_names E) od on)) (\<lambda>m w. T (op @ [on]) = Some (identity_of m) \<and> view tree at T ?D w) (\<lambda>_. view tree at T {})"
    by (rule triple_conseq [OF statat_triple [OF assms(1) _ assms(2), where p = op and D = ?D]]) (auto simp: view_def)
  fix source :: host_meta
  have there: "triple (view tree at T ?D) (\<lambda>w. case nm_statat (sv_names E) nd nn w of
      (Inr m, w') \<Rightarrow> (Inr (Some (identity_of m)), w')
    | (Inl e, w') \<Rightarrow> if io_errno e = Some ENOENT then (Inr None, w') else (Inl (server_error_from_io e), w'))
    (\<lambda>destination w. T (np @ [nn]) = destination \<and> view tree at T ?D w) (\<lambda>_. view tree at T {})"
    unfolding triple_def
  proof (intro allI impI)
    fix w assume w: "view tree at T ?D w"
    obtain r u where call: "nm_statat (sv_names E) nd nn w = (r, u)" by (cases "nm_statat (sv_names E) nd nn w")
    have u: "view tree at T ?D u" using view_quiet [OF w quietD [OF quiet_names(3) [OF assms(1)] call]] .
    have "case r of Inr m \<Rightarrow> T (np @ [nn]) = Some (identity_of m) | Inl e \<Rightarrow> io_errno e = Some ENOENT \<longrightarrow> T (np @ [nn]) = None"
      using statat_law [OF laws_split(1) [OF assms(1)] _ assms(3) call, of np] w by (auto simp: view_def split: sum.splits)
    with u call show "case (case nm_statat (sv_names E) nd nn w of (Inr m, w') \<Rightarrow> (Inr (Some (identity_of m)), w')
        | (Inl e, w') \<Rightarrow> if io_errno e = Some ENOENT then (Inr None, w') else (Inl (server_error_from_io e), w')) of
        (Inr destination, t) \<Rightarrow> T (np @ [nn]) = destination \<and> view tree at T ?D t | (Inl _, t) \<Rightarrow> view tree at T {} t"
      by (auto simp: view_def split: sum.splits)
  qed
  have moved: "triple (view tree at T ?D) (host_io (nm_renameat (sv_names E) od on nd nn mode))
      (\<lambda>_ w. renames mode (op @ [on]) (np @ [nn]) (identity_of source) (T (np @ [nn])) T (tree w)) (\<lambda>_. view tree at T {})"
    if T: "T (op @ [on]) = Some (identity_of source)"
  proof (rule host_io_triple)
    fix w r w' assume w: "view tree at T ?D w" and call: "nm_renameat (sv_names E) od on nd nn mode w = (r, w')"
    have here: "at w od = Some op" "at w nd = Some np" "tree w = T" using w by (simp_all add: view_def)
    note law = laws_split(2) [OF assms(1), unfolded changes_names_def, THEN conjunct2, THEN conjunct2, THEN conjunct2, THEN conjunct2, THEN conjunct2,
        THEN conjunct2, THEN conjunct2, rule_format, OF here(1) assms(2) here(2) assms(3) call]
    show "case r of Inl _ \<Rightarrow> view tree at T {} w' | Inr _ \<Rightarrow> renames mode (op @ [on]) (np @ [nn]) (identity_of source) (T (np @ [nn])) T (tree w')"
      using law here(3) assms(2-5) T by (cases r) (auto simp: view_def quiet_def renames_def split: if_splits)
  qed
  have last: "triple (\<lambda>w. T (np @ [nn]) = destination \<and> view tree at T ?D w) (mbind (host_io (nm_renameat (sv_names E) od on nd nn mode)) (\<lambda>_.
      mret (op @ [on], np @ [nn], identity_of source, destination)))
      (\<lambda>(old, new, source, destination) w. renames mode old new source destination T (tree w)) (\<lambda>_. view tree at T {})"
    if "T (op @ [on]) = Some (identity_of source)" for destination
  proof (cases "T (np @ [nn]) = destination")
    case True
    have "triple (view tree at T ?D) (mbind (host_io (nm_renameat (sv_names E) od on nd nn mode)) (\<lambda>_.
        mret (op @ [on], np @ [nn], identity_of source, destination)))
        (\<lambda>(old, new, source, destination) w. renames mode old new source destination T (tree w)) (\<lambda>_. view tree at T {})"
      by (rule triple_mbind [OF moved [OF that] triple_mret]) (simp add: True)
    then show ?thesis by (rule triple_conseq) auto
  qed (simp add: triple_def)
  from triple_mbind [OF there last]
  show "triple (\<lambda>w. T (op @ [on]) = Some (identity_of source) \<and> view tree at T ?D w) (mbind (\<lambda>w. case nm_statat (sv_names E) nd nn w of
           (Inr m, w') \<Rightarrow> (Inr (Some (identity_of m)), w')
         | (Inl e, w') \<Rightarrow> if io_errno e = Some ENOENT then (Inr None, w') else (Inl (server_error_from_io e), w')) (\<lambda>destination.
       mbind (host_io (nm_renameat (sv_names E) od on nd nn mode)) (\<lambda>_.
       mret (op @ [on], np @ [nn], identity_of source, destination))))
     (\<lambda>(old, new, source, destination) w. renames mode old new source destination T (tree w)) (\<lambda>_. view tree at T {})"
    by (cases "T (op @ [on]) = Some (identity_of source)") (simp_all add: triple_def)
qed

lemma session_rename_node_keeps:
  assumes "tree_laws tree at E"
  shows "preserves (in_step L tree fs fg) (session_rename_node E parent name new_parent new_name mode)"
  unfolding session_rename_node_def
proof (rule preserves_mbind [OF writable_keeps], rule guard_keeps, rule guard_keeps, rule in_step_preserves,
    rule with_snapshot [OF assms], rule with_snapshot [OF assms], rule triple_mbind)
  fix x y T and old_snap new_snap :: node_snapshot_r
  assume names: "validate_name name = Inr x" "validate_name new_name = Inr y"
    and snaps: "list_all plain (ns_paths old_snap)" "list_all plain (ns_paths new_snap)"
  note laws = assms
  let ?moved = "\<lambda>(old, new, source, destination) w. renames mode old new source destination T (tree w)"
  let ?host = "mbind (open_snapshot E old_snap directory_flags (Some KDirectory)) (\<lambda>(od, op, _).
       mbind (open_snapshot E new_snap directory_flags (Some KDirectory)) (\<lambda>(nd, np, _).
       mbind (host_io (nm_statat (sv_names E) od name)) (\<lambda>source.
       mbind (\<lambda>w. case nm_statat (sv_names E) nd new_name w of
           (Inr m, w') \<Rightarrow> (Inr (Some (identity_of m)), w')
         | (Inl e, w') \<Rightarrow> if io_errno e = Some ENOENT then (Inr None, w') else (Inl (server_error_from_io e), w')) (\<lambda>destination.
       mbind (host_io (nm_renameat (sv_names E) od name nd new_name mode)) (\<lambda>_.
       mret (op @ [name], np @ [new_name], identity_of source, destination))))))"
  have "triple (view tree at T {}) ?host ?moved (\<lambda>_. view tree at T {})"
    by (intro with_open_directory [OF assms snaps(1)] with_open_directory [OF assms snaps(2)])
      (use rename_triple [OF assms validated_name [OF names(1)] validated_name [OF names(2)]] in \<open>simp add: insert_commute\<close>)
  from on_host_triple [OF this, of "tracked L T fs fg"]
  show "triple (joint L tree at T {} fs fg) (on_host ?host) (\<lambda>r x. tracked L T fs fg (fst x) \<and> ?moved r (snd x)) (\<lambda>_. in_step L tree fs fg)"
    by (rule triple_conseq) (auto simp: joint_def in_step_def view_def)
  show "triple (\<lambda>x. tracked L T fs fg (fst x) \<and> ?moved r (snd x)) (case r of (old, new, source, destination) \<Rightarrow>
      on_session (mput (update_registry_after_rename old new mode source destination))) (\<lambda>_. in_step L tree fs fg) (\<lambda>_. in_step L tree fs fg)" for r
    by (cases r, simp, rule triple_of_snd) (auto simp: in_step_def on_session_def mput_def intro: tracked_renames)
qed (auto intro: joint_in_step)

end
