(* ===== verification/Server_Listings.thy ===== *)
theory Server_Listings
  imports Server_Changes
begin

text \<open>
  The operations that read names: links, listings and directory views. They register what they find, and the registry
  stays in step with the tree.
\<close>

subsection \<open>Rules\<close>

lemma preserves_keyed: "(\<And>k. preserves I (m k)) \<Longrightarrow> preserves I (\<lambda>s. m (key s) s)"
  by (simp add: preserves_def)

lemma triple_keyed: "(\<And>k. triple P (m k) Q R) \<Longrightarrow> triple P (\<lambda>s. m (key s) s) Q R"
  by (simp add: triple_def)

lemma triple_keeps: "triple P m (\<lambda>x s. F x \<and> I s) (\<lambda>_. I) \<Longrightarrow> (\<And>x. F x \<Longrightarrow> preserves I (g x)) \<Longrightarrow> triple P (mbind m g) (\<lambda>_. I) (\<lambda>_. I)"
  by (rule triple_mbind, assumption) (fastforce simp: triple_def preserves_def split: prod.splits sum.splits)

lemma joint_opened: "preserves (joint L tree at T (insert dp D) fs fg) m \<Longrightarrow>
    triple (joint L tree at T (insert dp D) fs fg) m (\<lambda>_. joint L tree at T D fs fg) (\<lambda>_. joint L tree at T D fs fg)"
  by (erule triple_conseq [OF preserves_triple]) (auto intro: joint_fewer)

lemma on_host_names_keeps:
  assumes "triple (view tree at T D) m (\<lambda>x w. F x \<and> view tree at T D w) (\<lambda>_. view tree at T D)"
    "\<And>x. F x \<Longrightarrow> preserves (joint L tree at T D fs fg) (g x)"
  shows "preserves (joint L tree at T D fs fg) (mbind (on_host m) g)"
  by (rule triple_preserves, rule triple_keeps [OF on_host_joint [where D' = "\<lambda>_. D", OF assms(1)] assms(2)])

lemma with_opened_snapshot:
  assumes "tree_laws tree at E" "list_all plain (ns_paths snap)"
    "\<And>d p m. plain p \<Longrightarrow> preserves (joint L tree at T (insert (d, p) D) fs fg) (g d p m)"
  shows "preserves (joint L tree at T D fs fg) (mbind (on_host (open_snapshot E snap directory_flags (Some KDirectory))) (\<lambda>(d, p, m). g d p m))"
proof (rule triple_preserves, rule triple_mbind)
  have "triple (view tree at T D) (open_snapshot E snap directory_flags (Some KDirectory))
      (\<lambda>r w. plain (fst (snd r)) \<and> view tree at T (insert (fst r, fst (snd r)) D) w) (\<lambda>_. view tree at T D)"
    by (rule triple_conseq [OF open_snapshot_triple [OF assms(1) _ assms(2), where T = T and D = D]])
      (use assms(2) in \<open>auto simp: directory_flags_def list_all_iff\<close>)
  from on_host_joint [where D' = "\<lambda>r. insert (fst r, fst (snd r)) D", OF this]
  show "triple (joint L tree at T D fs fg) (on_host (open_snapshot E snap directory_flags (Some KDirectory)))
      (\<lambda>r x. plain (fst (snd r)) \<and> joint L tree at T (insert (fst r, fst (snd r)) D) fs fg x) (\<lambda>_. joint L tree at T D fs fg)" .
  show "triple (\<lambda>x. plain (fst (snd r)) \<and> joint L tree at T (insert (fst r, fst (snd r)) D) fs fg x) (case r of (d, p, m) \<Rightarrow> g d p m)
      (\<lambda>_. joint L tree at T D fs fg) (\<lambda>_. joint L tree at T D fs fg)" for r
    using joint_opened [OF assms(3) [of "fst (snd r)" "fst r" "snd (snd r)"]]
    by (cases "plain (fst (snd r))") (simp_all add: triple_def split_beta)
qed

subsection \<open>Links\<close>

lemma link_target_keeps:
  assumes "tree_laws tree at E" "list_all plain ps"
  shows "preserves (view tree at T D) (link_target E i ps)"
  using assms(2)
proof (induction ps)
  case (Cons p ps)
  have p: "plain p" "list_all plain ps" using Cons.prems by simp_all
  have "preserves (view tree at T D) (mbind (open_parent (sv_names E) p) (\<lambda>(d, n). mbind (host_io (nm_readlinkat (sv_names E) d n)) (\<lambda>target.
      mbind (mlift (validate_symlink_target (sv_components E) target)) (\<lambda>_. mret target))))"
    by (rule preserves_mbind [OF open_parent_keeps [OF assms(1) p(1)]])
      (auto intro!: pres_intros quiet_call_keeps quiet_names [OF assms(1)] split: prod.split)
  then have "preserves (view tree at T D) (\<lambda>w. case secure_lstat (sv_names E) p w of (Inl _, w') \<Rightarrow> link_target E i ps w'
     | (Inr m, w') \<Rightarrow> (\<lambda>w'. if identity_of m \<noteq> i \<or> hm_kind m \<noteq> KSymlink then link_target E i ps w'
       else mbind (open_parent (sv_names E) p) (\<lambda>(d, n). mbind (host_io (nm_readlinkat (sv_names E) d n)) (\<lambda>target.
         mbind (mlift (validate_symlink_target (sv_components E) target)) (\<lambda>_. mret target))) w') w')"
    by (intro preserves_outcome secure_lstat_keeps [OF assms(1) p(1)] preserves_both Cons.IH [OF p(2)])
  then show ?case by (simp add: preserves_def)
qed (simp add: preserves_def)

lemma session_read_link_keeps:
  assumes "tree_laws tree at E"
  shows "preserves (in_step L tree fs fg) (session_read_link E node)"
  unfolding session_read_link_def
  by (rule joint_preserves_in_step [where at = at], rule with_snapshot_keeps [OF assms], rule on_host_keeps, rule link_target_keeps [OF assms])

subsection \<open>Listing in one task\<close>

lemma with_entry:
  assumes "tree_laws tree at E" "(d, p) \<in> D" "plain_name n"
    "\<And>m. T (p @ [n]) = Some (identity_of m) \<Longrightarrow> preserves (joint L tree at T D fs fg) (g m)"
  shows "preserves (joint L tree at T D fs fg) (mbind (on_host (host_io (nm_statat (sv_names E) d n))) g)"
  by (rule on_host_names_keeps [OF statat_triple [OF assms(1-3)] assms(4)])

lemma list_entries_keeps:
  assumes "tree_laws tree at E" "(d, p) \<in> D" "plain p" "\<forall>n \<in> set ns. is_dot n \<or> plain_name n"
  shows "preserves (joint L tree at T D fs fg) (list_entries E d p discovered ns)"
  using assms(4)
proof (induction ns arbitrary: discovered)
  case (Cons n ns)
  show ?case
  proof (cases "is_dot n")
    case False
    then have n: "plain_name n" using Cons.prems by simp
    have "preserves (joint L tree at T D fs fg) (mbind (on_host (host_io (nm_statat (sv_names E) d n))) (\<lambda>m.
        if length discovered \<ge> MAX_DIRECTORY_ENTRIES then mfail SDirectoryTooLarge
        else mbind (on_session (remember (sv_sha E) (identity_of m) (p @ [n]))) (\<lambda>child.
          mbind (on_host (enrich_resource_fork_revision E child (to_metadata_from_stat (sv_sha E) child m))) (\<lambda>md.
          list_entries E d p (discovered @ [\<lparr>de_node = child, de_name = n, de_kind = hm_kind m, de_metadata = md\<rparr>]) ns))))"
      using n assms(3) Cons.prems
      by (intro with_entry [OF assms(1,2) n] preserves_if preserves_mfail preserves_mbind on_session_keeps remember_keeps
          on_host_keeps enrich_keeps [OF assms(1)] Cons.IH) auto
    then show ?thesis using False by simp
  qed (use Cons in simp)
qed (simp add: preserves_mret)

lemma list_blocking_keeps:
  assumes "tree_laws tree at E"
  shows "preserves (in_step L tree fs fg) (list_with_revision_blocking E node)"
  unfolding list_with_revision_blocking_def
proof (rule joint_preserves_in_step [where at = at], rule with_snapshot_keeps [OF assms], rule with_opened_snapshot [OF assms], assumption)
  fix T d p m assume p: "plain p"
  show "preserves (joint L tree at T {(d, p)} fs fg) (mbind (on_host (host_io (nm_readdir (sv_names E) d))) (\<lambda>ns.
     mbind (list_entries E d p [] ns) (\<lambda>discovered.
     mbind (on_host (host_io (ho_metadata (sv_host E) d))) (\<lambda>after.
     if revision (sv_sha E) m \<noteq> revision (sv_sha E) after then mfail SConflict
     else mret (revision (sv_sha E) after, sort_key de_name discovered)))))"
    by (rule on_host_names_keeps [OF readdir_triple [OF assms]])
      (intro preserves_mbind list_entries_keeps [OF assms _ p] on_host_keeps quiet_call_keeps quiet_names [OF assms] preserves_if preserves_mfail preserves_mret, auto)
qed

subsection \<open>Directory views\<close>

lemma open_entry_keeps:
  assumes "tree_laws tree at E" "(d, p) \<in> D" "plain_name n"
  shows "preserves (view tree at T D) (open_directory_entry_for_xattrs E d n kind)"
  unfolding open_directory_entry_for_xattrs_def
  by (rule triple_preserves, rule triple_conseq [OF openat_triple [OF assms]]) (auto simp: directory_flags_def open_flags_def view_insert)

lemma entry_xattrs_keeps:
  assumes "tree_laws tree at E" "(d, p) \<in> D" "plain_name n"
  shows "preserves (view tree at T D) (entry_xattrs E d n node m options remaining)"
proof -
  let ?V = "view tree at T D"
  have read: "preserves ?V (\<lambda>w. let (r, w') = xattr_snapshot_for_open_file E f node (inline_xattr_size options) remaining w;
      (snap, left) = (case r of Inr (x, left) \<Rightarrow> (Some x, left) | Inl _ \<Rightarrow> (None, remaining))
    in mbind (host_io (ho_metadata (sv_host E) f)) (\<lambda>m'. if revision (sv_sha E) m' \<noteq> revision (sv_sha E) m then mfail SConflict else mret (t, snap, left)) w')" for f t
  proof (rule preservesI)
    fix w assume w: "?V w"
    obtain r u where call: "xattr_snapshot_for_open_file E f node (inline_xattr_size options) remaining w = (r, u)"
      by (cases "xattr_snapshot_for_open_file E f node (inline_xattr_size options) remaining w")
    have u: "?V u" using preserves_result [OF xattr_snapshot_keeps [OF assms(1)] w call] .
    have "preserves ?V (mbind (host_io (ho_metadata (sv_host E) f)) (\<lambda>m'. if revision (sv_sha E) m' \<noteq> revision (sv_sha E) m then mfail SConflict else mret (t, snap, left)))" for snap and left :: nat
      by (intro pres_intros quiet_call_keeps quiet_names [OF assms(1)])
    from preservesD [OF this u] call
    show "?V (snd (let (r, w') = xattr_snapshot_for_open_file E f node (inline_xattr_size options) remaining w;
        (snap, left) = (case r of Inr (x, left) \<Rightarrow> (Some x, left) | Inl _ \<Rightarrow> (None, remaining))
      in mbind (host_io (ho_metadata (sv_host E) f)) (\<lambda>m'. if revision (sv_sha E) m' \<noteq> revision (sv_sha E) m then mfail SConflict else mret (t, snap, left)) w'))"
      by (simp add: split_beta)
  qed
  have "preserves ?V (\<lambda>w. case open_directory_entry_for_xattrs E d n (hm_kind m) w of
      (Inl e, w1) \<Rightarrow> (Inr (None, None, remaining), w1)
    | (Inr f, w1) \<Rightarrow> mbind (ok_flatten (read_fd_backup_time (sv_host E) f)) (\<lambda>t w2.
        let (r, w3) = xattr_snapshot_for_open_file E f node (inline_xattr_size options) remaining w2;
            (snap, left) = (case r of Inr (x, left) \<Rightarrow> (Some x, left) | Inl _ \<Rightarrow> (None, remaining))
        in mbind (host_io (ho_metadata (sv_host E) f)) (\<lambda>m'.
          if revision (sv_sha E) m' \<noteq> revision (sv_sha E) m then mfail SConflict else mret (t, snap, left)) w3) w1)"
    by (intro preserves_outcome open_entry_keeps [OF assms] preserves_returns preserves_mbind ok_flatten_keeps read_fd_xattr_keeps(4) [OF assms(1)] read)
  then show ?thesis by (auto simp: preserves_def entry_xattrs_def)
qed

definition scanned_right :: "file_tree \<Rightarrow> scanned_entry \<Rightarrow> bool" where
  "scanned_right T e \<longleftrightarrow> T (sc_relative e) = Some (sc_identity e) \<and> plain (sc_relative e)"

lemma scan_entry_triple:
  assumes "tree_laws tree at E" "(d, p) \<in> D" "plain p" "plain_name n"
  shows "triple (view tree at T D) (scan_directory_entry E key d p n options remaining)
    (\<lambda>r w. scanned_right T (fst r) \<and> view tree at T D w) (\<lambda>_. view tree at T D)"
  unfolding scan_directory_entry_def Let_def
proof (rule triple_mbind [OF statat_triple [OF assms(1,2,4)]])
  fix m
  let ?node = "stable_node_id (sv_sha E) key (identity_of m)"
  have "triple (view tree at T D) (case y of (t, snap, left) \<Rightarrow>
      mbind (enrich_resource_fork_revision E ?node ((to_metadata_from_stat (sv_sha E) ?node m)\<lparr>md_backup_unix_ms := t\<rparr>)) (\<lambda>md.
      mret (\<lparr>sc_identity = identity_of m, sc_relative = p @ [n],
        sc_entry = \<lparr>de_node = ?node, de_name = n, de_kind = hm_kind m, de_metadata = md\<rparr>, sc_xattrs = snap\<rparr>, left)))
      (\<lambda>r w. scanned_right T (fst r) \<and> view tree at T D w) (\<lambda>_. view tree at T D)" if "T (p @ [n]) = Some (identity_of m)" for y
    by (cases y, simp, rule triple_mbind [OF preserves_triple [OF enrich_keeps [OF assms(1)]] triple_mret])
      (use that assms(3,4) in \<open>simp add: scanned_right_def\<close>)
  from triple_mbind [OF preserves_triple [OF entry_xattrs_keeps [OF assms(1,2,4)]] this]
  show "triple (\<lambda>w. T (p @ [n]) = Some (identity_of m) \<and> view tree at T D w)
      (mbind (entry_xattrs E d n ?node m options remaining) (\<lambda>(t, snap, left).
      mbind (enrich_resource_fork_revision E ?node ((to_metadata_from_stat (sv_sha E) ?node m)\<lparr>md_backup_unix_ms := t\<rparr>)) (\<lambda>md.
      mret (\<lparr>sc_identity = identity_of m, sc_relative = p @ [n],
        sc_entry = \<lparr>de_node = ?node, de_name = n, de_kind = hm_kind m, de_metadata = md\<rparr>, sc_xattrs = snap\<rparr>, left))))
      (\<lambda>r w. scanned_right T (fst r) \<and> view tree at T D w) (\<lambda>_. view tree at T D)"
    by (cases "T (p @ [n]) = Some (identity_of m)") (simp_all add: triple_def)
qed

lemma triple_fact: "(F \<Longrightarrow> triple P m Q R) \<Longrightarrow> triple (\<lambda>s. F \<and> P s) m Q R"
  by (cases F) (simp_all add: triple_def)

lemma scan_names_triple:
  assumes "tree_laws tree at E" "(d, p) \<in> D" "plain p" "list_all plain_name ns"
  shows "triple (view tree at T D) (scan_names E key d p options remaining ns)
    (\<lambda>r w. list_all (scanned_right T) (fst r) \<and> view tree at T D w) (\<lambda>_. view tree at T D)"
  using assms(4)
proof (induction ns arbitrary: remaining)
  case (Cons n ns)
  have n: "plain_name n" "list_all plain_name ns" using Cons.prems by simp_all
  have "triple (view tree at T D) (mbind (scan_names E key d p options (snd y) ns) (\<lambda>(es, left). mret (fst y # es, left)))
      (\<lambda>r w. list_all (scanned_right T) (fst r) \<and> view tree at T D w) (\<lambda>_. view tree at T D)" if "scanned_right T (fst y)" for y
  proof (rule triple_mbind [OF Cons.IH [OF n(2)]])
    show "triple (\<lambda>w. list_all (scanned_right T) (fst z) \<and> view tree at T D w) (case z of (es, left) \<Rightarrow> mret (fst y # es, left))
      (\<lambda>r w. list_all (scanned_right T) (fst r) \<and> view tree at T D w) (\<lambda>_. view tree at T D)" for z
      by (cases z) (use that in \<open>auto simp: triple_def mret_def\<close>)
  qed
  from triple_mbind [OF scan_entry_triple [OF assms(1-3) n(1)] triple_fact [OF this]]
  show ?case by (simp add: case_prod_beta')
qed (simp add: triple_mret)

lemma remember_scanned_keeps:
  "list_all (scanned_right T) es \<Longrightarrow> preserves (joint L tree at T D fs fg) (remember_scanned E es)"
proof (induction es)
  case (Cons e es)
  then have e: "T (sc_relative e) = Some (sc_identity e)" "plain (sc_relative e)" by (simp_all add: scanned_right_def)
  show ?case using Cons by (auto intro!: pres_intros on_session_keeps remember_keeps [where T = T, OF e])
qed (simp add: preserves_mret)

lemma prepare_scan_triple:
  assumes "tree_laws tree at E" "list_all plain (ns_paths snap)"
  shows "triple (view tree at T {}) (prepare_directory_scan E snap)
    (\<lambda>(d, p, m, ns) w. plain p \<and> list_all plain_name ns \<and> view tree at T {(d, p)} w) (\<lambda>_. view tree at T {})"
  unfolding prepare_directory_scan_def
proof (rule triple_mbind [OF open_snapshot_triple [OF assms(1) _ assms(2)]])
  fix r :: "descriptor \<times> path \<times> host_meta"
  obtain d p m where r: "r = (d, p, m)" by (cases r)
  have "triple (\<lambda>w. (\<forall>n \<in> set ns. is_dot n \<or> plain_name n) \<and> view tree at T {(d, p)} w)
      (let ns = filter (\<lambda>n. \<not> is_dot n) ns in if length ns > MAX_DIRECTORY_ENTRIES then mfail SDirectoryTooLarge else mret ns)
      (\<lambda>ns w. list_all plain_name ns \<and> view tree at T {(d, p)} w) (\<lambda>_. view tree at T {(d, p)})" for ns
    by (auto simp: triple_def mfail_def mret_def Let_def list_all_iff)
  from triple_mbind [OF readdir_triple [OF assms(1)] this]
  have named: "triple (view tree at T {(d, p)}) (read_names E d) (\<lambda>ns w. list_all plain_name ns \<and> view tree at T {(d, p)} w) (\<lambda>_. view tree at T {(d, p)})"
    unfolding read_names_def .
  have ready: "triple (view tree at T {(d, p)}) (mbind (read_names E d) (\<lambda>ns. mret (d, p, m, ns)))
      (\<lambda>(d, p, m, ns) w. plain p \<and> list_all plain_name ns \<and> view tree at T {(d, p)} w) (\<lambda>_. view tree at T {(d, p)})" if "plain p"
    by (rule triple_mbind [OF named triple_mret]) (simp add: that)
  have "triple (view tree at T {(d, p)}) (mbind (read_names E d) (\<lambda>ns. mret (d, p, m, ns)))
      (\<lambda>(d, p, m, ns) w. plain p \<and> list_all plain_name ns \<and> view tree at T {(d, p)} w) (\<lambda>_. view tree at T {})" if "plain p"
    by (rule triple_conseq [OF ready [OF that]]) (auto simp: view_def)
  then show "triple ((\<lambda>(f, q, m) w. q \<in> set (ns_paths snap) \<and> identity_of m = ns_identity snap \<and> T q = Some (ns_identity snap) \<and>
      (\<forall>k. Some KDirectory = Some k \<longrightarrow> hm_kind m = k) \<and> view tree at T {(f, q)} w) r)
      (case r of (d, p, earlier) \<Rightarrow> mbind (read_names E d) (\<lambda>ns. mret (d, p, earlier, ns)))
      (\<lambda>(d, p, m, ns) w. plain p \<and> list_all plain_name ns \<and> view tree at T {(d, p)} w) (\<lambda>_. view tree at T {})"
    using assms(2) by (cases "plain p") (auto simp: r triple_def list_all_iff)
qed (simp add: directory_flags_def)

lemma scan_directory_triple:
  assumes "tree_laws tree at E"
  shows "triple (joint L tree at T {} fs fg) (scan_directory E node options remaining)
    (\<lambda>(v, (d, p, m), es, left) x. plain p \<and> joint L tree at T {} fs fg x) (\<lambda>_. joint L tree at T {} fs fg)"
  unfolding scan_directory_def
proof (rule with_snapshot [OF assms])
  let ?J = "joint L tree at T {} fs fg"
  let ?Q = "\<lambda>(v, (d, p, m), es, left) x. plain p \<and> ?J x"
  fix snap :: node_snapshot_r assume snap: "list_all plain (ns_paths snap)"
  let ?F = "\<lambda>r. plain (fst (snd r)) \<and> list_all plain_name (snd (snd (snd r)))"
  have "triple (view tree at T {}) (mbind (host_io (nm_dup_root (sv_names E))) (\<lambda>_. prepare_directory_scan E snap))
      (\<lambda>r w. ?F r \<and> view tree at T {(fst r, fst (snd r))} w) (\<lambda>_. view tree at T {})"
    by (rule triple_mbind [OF preserves_triple [OF quiet_call_keeps [OF quiet_names(1) [OF assms]]]],
        rule triple_conseq [OF prepare_scan_triple [OF assms snap, of T]]) auto
  from on_host_joint [where F = ?F and D' = "\<lambda>r. {(fst r, fst (snd r))}", OF this]
  have prepared: "triple ?J (on_host (mbind (host_io (nm_dup_root (sv_names E))) (\<lambda>_. prepare_directory_scan E snap)))
      (\<lambda>r x. ?F r \<and> joint L tree at T {(fst r, fst (snd r))} fs fg x) (\<lambda>_. ?J)" .
  let ?scan = "\<lambda>key d relative earlier ns. mbind (on_host (mbind (scan_names E key d relative options remaining ns) (\<lambda>(es, left).
       mbind (host_io (ho_metadata (sv_host E) d)) (\<lambda>after.
       if revision (sv_sha E) earlier \<noteq> revision (sv_sha E) after then mfail SConflict
       else mret (revision (sv_sha E) after, es, left))))) (\<lambda>(v, es, left).
     mbind (remember_scanned E es) (\<lambda>es. mret (v, (d, relative, earlier), sort_key (de_name \<circ> sc_entry) es, left)))"
  have scanned: "triple (joint L tree at T {(d, p)} fs fg) (?scan key d p m ns) ?Q (\<lambda>_. ?J)" if p: "plain p" "list_all plain_name ns" for key d p m ns
  proof (rule triple_mbind)
    let ?D = "{(d, p)}"
    have "triple (view tree at T ?D) (mbind (scan_names E key d p options remaining ns) (\<lambda>(es, left).
       mbind (host_io (ho_metadata (sv_host E) d)) (\<lambda>after.
       if revision (sv_sha E) m \<noteq> revision (sv_sha E) after then mfail SConflict else mret (revision (sv_sha E) after, es, left))))
       (\<lambda>r w. list_all (scanned_right T) (fst (snd r)) \<and> view tree at T ?D w) (\<lambda>_. view tree at T ?D)"
    proof (rule triple_mbind [OF scan_names_triple [OF assms _ p]])
      show "triple (\<lambda>w. list_all (scanned_right T) (fst y) \<and> view tree at T ?D w) (case y of (es, left) \<Rightarrow>
         mbind (host_io (ho_metadata (sv_host E) d)) (\<lambda>after.
         if revision (sv_sha E) m \<noteq> revision (sv_sha E) after then mfail SConflict else mret (revision (sv_sha E) after, es, left)))
         (\<lambda>r w. list_all (scanned_right T) (fst (snd r)) \<and> view tree at T ?D w) (\<lambda>_. view tree at T ?D)" for y
        by (rule triple_fact, cases y, simp, rule triple_mbind [OF preserves_triple [OF quiet_call_keeps [OF quiet_names(7) [OF assms]]]])
          (auto simp: triple_def mfail_def mret_def)
    qed simp
    from on_host_joint [where D' = "\<lambda>_. ?D", OF this]
    show "triple (joint L tree at T ?D fs fg) (on_host (mbind (scan_names E key d p options remaining ns) (\<lambda>(es, left).
       mbind (host_io (ho_metadata (sv_host E) d)) (\<lambda>after.
       if revision (sv_sha E) m \<noteq> revision (sv_sha E) after then mfail SConflict else mret (revision (sv_sha E) after, es, left)))))
       (\<lambda>r x. list_all (scanned_right T) (fst (snd r)) \<and> ?J x) (\<lambda>_. ?J)"
      by (rule triple_conseq) (auto intro: joint_fewer)
    show "triple (\<lambda>x. list_all (scanned_right T) (fst (snd y)) \<and> ?J x) (case y of (v, es, left) \<Rightarrow>
        mbind (remember_scanned E es) (\<lambda>es. mret (v, (d, p, m), sort_key (de_name \<circ> sc_entry) es, left))) ?Q (\<lambda>_. ?J)" for y
      by (rule triple_fact, cases y, simp, rule triple_mbind [OF preserves_triple [OF remember_scanned_keeps] triple_mret]) (use p in auto)
  qed
  have "triple (joint L tree at T {(fst r, fst (snd r))} fs fg)
      (case r of (d, relative, earlier, ns) \<Rightarrow> \<lambda>s. ?scan (sh_node_key (sh (fst s))) d relative earlier ns s) ?Q (\<lambda>_. ?J)" if "?F r" for r
    by (simp only: split_beta, rule triple_keyed, rule scanned) (use that in simp_all)
  from triple_mbind [OF prepared triple_fact [OF this]]
  show "triple ?J (mbind (on_host (mbind (host_io (nm_dup_root (sv_names E))) (\<lambda>_. prepare_directory_scan E snap)))
      (\<lambda>(d, relative, earlier, ns) s. ?scan (sh_node_key (sh (fst s))) d relative earlier ns s)) ?Q (\<lambda>_. ?J)" .
qed simp

lemma with_scan:
  assumes "tree_laws tree at E" "\<And>v d p m es left. plain p \<Longrightarrow> preserves (joint L tree at T {} fs fg) (g v d p m es left)"
  shows "preserves (joint L tree at T {} fs fg) (mbind (scan_directory E node options remaining) (\<lambda>(v, (d, p, m), es, left). g v d p m es left))"
proof (rule triple_preserves, rule triple_mbind [OF scan_directory_triple [OF assms(1)]])
  fix r :: "u64 \<times> (descriptor \<times> path \<times> host_meta) \<times> scanned_entry list \<times> nat"
  obtain v d p m es left where r: "r = (v, (d, p, m), es, left)" by (metis prod.exhaust)
  show "triple ((\<lambda>(v, (d, p, m), es, left) x. plain p \<and> joint L tree at T {} fs fg x) r) ((\<lambda>(v, (d, p, m), es, left). g v d p m es left) r)
      (\<lambda>_. joint L tree at T {} fs fg) (\<lambda>_. joint L tree at T {} fs fg)"
    using assms(2) [of p v d m es left] by (simp add: r) (blast intro: triple_fact preserves_triple)
qed

lemma list_with_revision_keeps:
  assumes "tree_laws tree at E"
  shows "preserves (in_step L tree fs fg) (list_with_revision E node)"
proof -
  have "preserves (joint L tree at T {} fs fg) (scan_directory E node METADATA_ONLY 0)" for T
    by (rule triple_preserves, rule triple_conseq [OF scan_directory_triple [OF assms]]) auto
  then have "preserves (joint L tree at T {} fs fg) (list_with_revision E node)" for T
    unfolding list_with_revision_def by (rule preserves_mbind) (auto intro: preserves_mret)
  then show ?thesis by (rule joint_preserves_in_step)
qed

lemma view_parent_keeps:
  assumes "tree_laws tree at E" "plain p"
  shows "preserves (joint L tree at T {} fs fg) (view_parent E p directory)"
proof -
  let ?J = "joint L tree at T {} fs fg"
  let ?q = "butlast p"
  let ?stat = "\<lambda>key. mbind (host_io (nm_dup_root (sv_names E))) (\<lambda>_. mbind (secure_lstat (sv_names E) ?q) (\<lambda>m.
      let node = stable_node_id (sv_sha E) key (identity_of m) in
      mbind (enrich_resource_fork_revision E node (to_metadata_from_stat (sv_sha E) node m)) (\<lambda>md. mret (identity_of m, md))))"
  have "triple (view tree at T {}) (?stat key) (\<lambda>r w. T ?q = Some (fst r) \<and> view tree at T {} w) (\<lambda>_. view tree at T {})" for key
    unfolding Let_def
    by (rule triple_mbind [OF preserves_triple [OF quiet_call_keeps [OF quiet_names(1) [OF assms(1)]]]],
        rule triple_mbind [OF secure_lstat_triple [OF assms(1) plain_parts(1) [OF assms(2)]]], rule triple_fact,
        rule triple_mbind [OF preserves_triple [OF enrich_keeps [OF assms(1)]] triple_mret]) simp
  from on_host_joint [where D' = "\<lambda>_. {}", OF this]
  have found: "triple ?J (on_host (?stat key)) (\<lambda>r x. T ?q = Some (fst r) \<and> ?J x) (\<lambda>_. ?J)" for key .
  have "preserves ?J (case r of (i, md) \<Rightarrow> mbind (on_session (remember (sv_sha E) i ?q)) (\<lambda>n. mret (md\<lparr>md_node := n\<rparr>)))"
    if "T ?q = Some (fst r)" for r
    using that plain_parts(1) [OF assms(2)] by (cases r) (auto intro!: pres_intros on_session_keeps remember_keeps)
  from triple_keeps [OF found this]
  have "preserves ?J (mbind (on_host (?stat key)) (\<lambda>(i, md). mbind (on_session (remember (sv_sha E) i ?q)) (\<lambda>n. mret (md\<lparr>md_node := n\<rparr>))))" for key
    by (rule triple_preserves)
  from preservesD [OF this] show ?thesis by (auto simp: preserves_def view_parent_def)
qed

lemma session_directory_view_keeps:
  assumes "tree_laws tree at E"
  shows "preserves (in_step L tree fs fg) (session_directory_view E node options)"
  unfolding session_directory_view_def
proof (rule guard_keeps, rule joint_preserves_in_step [where at = at], rule with_scan [OF assms])
  fix T v d p m es and left :: nat assume p: "plain p"
  show "preserves (joint L tree at T {} fs fg)
    (mbind (on_host (mbind (ok_flatten (read_fd_backup_time (sv_host E) d)) (\<lambda>t.
       mbind (enrich_resource_fork_revision E node ((to_metadata (sv_sha E) node m)\<lparr>md_backup_unix_ms := t\<rparr>)) (\<lambda>directory.
       mbind (if include_xattrs options
         then mbind (xattr_snapshot_for_open_file E d node (inline_xattr_size options) left) (\<lambda>(x, _). mret (Some x))
         else mret None) (\<lambda>xattrs. mret (directory, xattrs)))))) (\<lambda>(directory, xattrs).
     mbind (view_parent E p directory) (\<lambda>parent.
     mbind (on_host (host_io (ho_metadata (sv_host E) d))) (\<lambda>m.
     if revision (sv_sha E) m \<noteq> v then mfail SConflict
     else mret \<lparr>dv_revision = v, dv_directory = directory, dv_parent = parent, dv_xattrs = xattrs,
       dv_entries = map (\<lambda>e. \<lparr>ve_entry = sc_entry e, ve_xattrs = sc_xattrs e\<rparr>) es\<rparr>))))"
  proof (rule preserves_mbind)
    show "preserves (joint L tree at T {} fs fg) (on_host (mbind (ok_flatten (read_fd_backup_time (sv_host E) d)) (\<lambda>t.
       mbind (enrich_resource_fork_revision E node ((to_metadata (sv_sha E) node m)\<lparr>md_backup_unix_ms := t\<rparr>)) (\<lambda>directory.
       mbind (if include_xattrs options
         then mbind (xattr_snapshot_for_open_file E d node (inline_xattr_size options) left) (\<lambda>(x, _). mret (Some x))
         else mret None) (\<lambda>xattrs. mret (directory, xattrs))))))"
      by (intro on_host_keeps preserves_mbind ok_flatten_keeps read_fd_xattr_keeps(4) [OF assms] enrich_keeps [OF assms] preserves_if
          xattr_snapshot_keeps [OF assms] preserves_mret) (auto intro: preserves_mret)
    show "preserves (joint L tree at T {} fs fg) (case y of (directory, xattrs) \<Rightarrow> mbind (view_parent E p directory) (\<lambda>parent.
       mbind (on_host (host_io (ho_metadata (sv_host E) d))) (\<lambda>m.
       if revision (sv_sha E) m \<noteq> v then mfail SConflict
       else mret \<lparr>dv_revision = v, dv_directory = directory, dv_parent = parent, dv_xattrs = xattrs,
         dv_entries = map (\<lambda>e. \<lparr>ve_entry = sc_entry e, ve_xattrs = sc_xattrs e\<rparr>) es\<rparr>)))" for y
      by (cases y) (auto intro!: preserves_mbind view_parent_keeps [OF assms p] on_host_keeps quiet_call_keeps quiet_names [OF assms] preserves_mret preserves_mfail)
  qed
qed

end
