(* ===== verification/Server_Namespace.thy ===== *)
theory Server_Namespace
  imports Server_Listings
begin

text \<open>
  Many sessions on one export and its tree. A step runs one operation on names, or opens or drops a session. In every
  reachable state each registered path is made of plain names and names the file of its node.
\<close>

subsection \<open>Operations and steps\<close>

datatype name_call =
    CallMetadata node_id
  | CallOpen node_id file_open_options
  | CallCreateFile node_id name u32 file_open_options
  | CallCreateDirectory node_id name u32
  | CallCreateSymlink node_id name bytes
  | CallCreateSpecial node_id name special_node_kind u32 u32 u32
  | CallHardLink node_id node_id name
  | CallRemove node_id name bool
  | CallRename node_id name node_id name rename_mode
  | CallReadLink node_id
  | CallList node_id
  | CallListBlocking node_id
  | CallView node_id directory_view_options
  | CallForget "node_id list"
  | CallClose file_handle

primrec run_call :: "'h server_env \<Rightarrow> name_call \<Rightarrow> srv \<times> 'h \<Rightarrow> srv \<times> 'h" where
  "run_call E (CallMetadata n) x = snd (session_metadata E n x)"
| "run_call E (CallOpen n options) x = snd (session_open E n options x)"
| "run_call E (CallCreateFile d n mode options) x = snd (session_create_file E d n mode options x)"
| "run_call E (CallCreateDirectory d n mode) x = snd (session_create_directory E d n mode x)"
| "run_call E (CallCreateSymlink d n target) x = snd (session_create_symlink E d n target x)"
| "run_call E (CallCreateSpecial d n kind mode major minor) x = snd (session_create_special_node E d n kind mode major minor x)"
| "run_call E (CallHardLink node d n) x = snd (session_create_hard_link E node d n x)"
| "run_call E (CallRemove d n directory) x = snd (session_remove_node E d n directory x)"
| "run_call E (CallRename d n d' n' mode) x = snd (session_rename_node E d n d' n' mode x)"
| "run_call E (CallReadLink node) x = snd (session_read_link E node x)"
| "run_call E (CallList node) x = snd (list_with_revision E node x)"
| "run_call E (CallListBlocking node) x = snd (list_with_revision_blocking E node x)"
| "run_call E (CallView node options) x = snd (session_directory_view E node options x)"
| "run_call E (CallForget ns) x = snd (on_session (forget_nodes ns) x)"
| "run_call E (CallClose h) x = snd (on_session (close_handle h) x)"

inductive name_step :: "'h server_env \<Rightarrow> world \<times> 'h \<Rightarrow> world \<times> 'h \<Rightarrow> bool" for E :: "'h server_env" where
  name_connect: "map_of (wd_sessions w) u = None \<Longrightarrow>
     name_step E (w, h) (w\<lparr>wd_sessions := (u, session_with_writes (wd_shared w) u a) # wd_sessions w\<rparr>, h)"
| name_run: "map_of (wd_sessions w) u = Some e \<Longrightarrow> run_call E c (at_session w e, h) = (s, h') \<Longrightarrow>
     name_step E (w, h) (store_session w u s, h')"
| name_disconnect: "map_of (wd_sessions w) u = Some e \<Longrightarrow>
     name_step E (w, h) (\<lparr>wd_shared = sh (drop_session (at_session w e)), wd_sessions = AList.delete u (wd_sessions w)\<rparr>, h)"

inductive_cases name_stepE: "name_step E x y"

inductive name_reachable :: "'h server_env \<Rightarrow> world \<times> 'h \<Rightarrow> world \<times> 'h \<Rightarrow> bool" for E :: "'h server_env" and x0 where
  name_start: "name_reachable E x0 x0"
| name_more: "name_reachable E x0 x \<Longrightarrow> name_step E x y \<Longrightarrow> name_reachable E x0 y"

subsection \<open>One operation\<close>

lemma forget_keeps: "preserves (tracked L T fs fg) (forget_nodes ns)"
proof (rule preservesI)
  fix s assume s: "tracked L T fs fg s"
  let ?P = "\<lambda>p i. T p = Some i \<and> plain p"
  have "preserves (paths_ok ?P) (mfor xs release_node_reference)" for xs
    by (intro preserves_mfor preservesI) (auto simp: release_node_reference_def intro: paths_ok_references split: option.split)
  moreover have "paths_ok ?P (foldl (\<lambda>s n. known_remove n s) t xs)" if "paths_ok ?P t" for t xs
    using that by (induction xs arbitrary: t) (auto intro: paths_ok_known_remove)
  ultimately have "paths_ok ?P (snd (forget_nodes ns s))"
    using s by (auto simp: forget_nodes_def Let_def tracked_def intro: preservesD)
  moreover have "sh_limits (sh (snd (forget_nodes ns s))) = sh_limits (sh s)" by (rule limits_kept [OF registry_frame_forget])
  ultimately show "tracked L T fs fg (snd (forget_nodes ns s))" using s reg_inv_forget by (simp add: tracked_def)
qed

lemma close_keeps: "preserves (tracked L T fs fg) (close_handle h)"
  using lock_frame_ops(3) by (auto intro!: preservesI elim!: tracked_frame simp: lock_frame_def)

lemma creations_keep:
  assumes "tree_laws tree at E"
  shows "preserves (in_step L tree fs fg) (session_create_symlink E d n target)"
    "preserves (in_step L tree fs fg) (session_create_special_node E d n kind mode major minor)"
proof -
  have "makes tree at (nm_symlinkat (sv_names E) target)" "makes tree at (\<lambda>d n. nm_mknodat (sv_names E) d n kind (mode mod 4096) major minor)"
    using laws_split(2) [OF assms] by (simp_all add: changes_names_def)
  note made = create_and_stat_keeps [OF assms _ this(1)] create_and_stat_keeps [OF assms _ this(2)]
  show "preserves (in_step L tree fs fg) (session_create_symlink E d n target)"
    unfolding session_create_symlink_def
    by (rule preserves_mbind [OF writable_keeps], rule guard_keeps, rule guard_keeps, rule made(1), rule validated_name)
  show "preserves (in_step L tree fs fg) (session_create_special_node E d n kind mode major minor)"
    unfolding session_create_special_node_def
    by (rule preserves_mbind [OF writable_keeps], rule guard_keeps, rule made(2), rule validated_name)
qed

lemma run_call_keeps:
  assumes "tree_laws tree at E" "in_step L tree fs fg x"
  shows "in_step L tree fs fg (run_call E c x)"
proof (cases c)
  case (CallMetadata n)
  then show ?thesis using preservesD [OF joint_preserves_in_step [OF session_metadata_keeps [OF assms(1)]] assms(2)] by simp
qed (use assms(2) in \<open>simp_all add: preservesD [OF session_open_keeps [OF assms(1)]] preservesD [OF session_create_file_keeps [OF assms(1)]]
    preservesD [OF session_create_directory_keeps [OF assms(1)]] preservesD [OF creations_keep(1) [OF assms(1)]]
    preservesD [OF creations_keep(2) [OF assms(1)]] preservesD [OF session_create_hard_link_keeps [OF assms(1)]]
    preservesD [OF session_remove_node_keeps [OF assms(1)]] preservesD [OF session_rename_node_keeps [OF assms(1)]]
    preservesD [OF session_read_link_keeps [OF assms(1)]] preservesD [OF list_with_revision_keeps [OF assms(1)]]
    preservesD [OF list_blocking_keeps [OF assms(1)]] preservesD [OF session_directory_view_keeps [OF assms(1)]]
    preservesD [OF on_session_in_step [OF forget_keeps]] preservesD [OF on_session_in_step [OF close_keeps]]\<close>)

subsection \<open>All sessions\<close>

definition shared_tracked :: "limits \<Rightarrow> file_tree \<Rightarrow> srv \<Rightarrow> bool" where
  "shared_tracked L T s \<longleftrightarrow> index_inv s \<and> global_permit_inv 0 s \<and> paths_ok (\<lambda>p i. T p = Some i \<and> plain p) s \<and> sh_limits (sh s) = L"

definition export_tracked :: "limits \<Rightarrow> ('h \<Rightarrow> file_tree) \<Rightarrow> world \<times> 'h \<Rightarrow> bool" where
  "export_tracked L tree x \<longleftrightarrow> (\<forall>e. shared_tracked L (tree (snd x)) (at_session (fst x) e)) \<and>
     (\<forall>u e. map_of (wd_sessions (fst x)) u = Some e \<longrightarrow> session_permit_inv 0 (at_session (fst x) e))"

lemma shared_tracked_same: "sh t = sh s \<Longrightarrow> shared_tracked L T t = shared_tracked L T s"
  by (simp add: shared_tracked_def index_inv_def global_permit_inv_def paths_ok_def)

lemma tracked_parts: "tracked L T 0 0 s \<longleftrightarrow> shared_tracked L T s \<and> session_permit_inv 0 s"
  by (auto simp: tracked_def shared_tracked_def reg_inv_def)

lemma drop_session_tracked:
  assumes "shared_tracked L T s"
  shows "shared_tracked L T (drop_session s)"
proof -
  have one: "shared_tracked L T (upd_nodes (modify_node n (\<lambda>k. k\<lparr>kn_session_references := g k\<rparr>)) t)" if "shared_tracked L T t" for n g t
    using that index_inv_modify global_permit_inv_modify paths_ok_references [of _ t n g]
    by (auto simp: shared_tracked_def upd_nodes_def)
  have "preserves (shared_tracked L T) (mfor xs (\<lambda>n. mignore (release_node_reference n)))" for xs
    by (intro preserves_mfor preserves_mignore preservesI) (use one in \<open>simp add: release_node_reference_def split: option.split\<close>)
  moreover have "index_inv (upd_known f (upd_locks g s)) = index_inv s" "global_permit_inv 0 (upd_known f (upd_locks g s)) = global_permit_inv 0 s"
    "sh_limits (sh (upd_known f (upd_locks g s))) = sh_limits (sh s)" for f g
    by (simp_all add: index_inv_def global_permit_inv_def srv_upds)
  then have "shared_tracked L T (upd_known f (upd_locks g s))" for f g using assms by (simp add: shared_tracked_def)
  moreover have "shared_tracked L T (upd_handle_permits f t) = shared_tracked L T t" for f t
    by (simp add: shared_tracked_def index_inv_def global_permit_inv_def paths_ok_def upd_handle_permits_def)
  ultimately show ?thesis by (simp add: drop_session_def Let_def preservesD)
qed

lemma name_step_tracked:
  assumes "tree_laws tree at E" "0 < max_known_nodes L" "name_step E x y" "export_tracked L tree x"
  shows "export_tracked L tree y"
  using assms(3)
proof (cases rule: name_step.cases)
  case (name_connect w u h a)
  let ?w = "w\<lparr>wd_sessions := (u, session_with_writes (wd_shared w) u a) # wd_sessions w\<rparr>"
  have shared: "shared_tracked L (tree h) (at_session w e)" for e using assms(4) name_connect by (simp add: export_tracked_def)
  then have "shared_tracked L (tree h) (at_session ?w e)" for e using shared_tracked_same [of "at_session ?w e" "at_session w e"] by simp
  moreover have "session_permit_inv 0 (at_session ?w (session_with_writes (wd_shared w) u a))"
    using shared assms(2) by (simp add: session_permit_inv_def session_with_writes_def shared_tracked_def)
  moreover have "session_permit_inv 0 (at_session ?w e) = session_permit_inv 0 (at_session w e)" for e
    by (rule session_permit_inv_limits) simp_all
  ultimately show ?thesis using assms(4) name_connect by (simp add: export_tracked_def)
next
  case (name_run w u e c h s h')
  have "tracked L (tree h) 0 0 (at_session w e)" using assms(4) name_run by (simp add: export_tracked_def tracked_parts)
  then have s: "tracked L (tree h') 0 0 s"
    using run_call_keeps [OF assms(1), of L 0 0 "(at_session w e, h)" c] name_run by (simp add: in_step_def)
  have "shared_tracked L (tree h') (at_session (store_session w u s) e')" for e'
    using s shared_tracked_same [of "at_session (store_session w u s) e'" s] by (simp add: tracked_parts store_session_def)
  moreover have "session_permit_inv 0 (at_session (store_session w u s) e') = session_permit_inv 0 (at_session w e')" for e'
    by (rule session_permit_inv_limits) (use s assms(4) name_run in \<open>auto simp: store_session_def tracked_def export_tracked_def shared_tracked_def\<close>)
  moreover have "session_permit_inv 0 (at_session (store_session w u s) (se s)) = session_permit_inv 0 s"
    by (rule session_permit_inv_limits) (simp_all add: store_session_def)
  ultimately show ?thesis
    using s assms(4) name_run by (auto simp: export_tracked_def tracked_parts store_session_def update_conv' split: if_splits)
next
  case (name_disconnect w u e h)
  let ?w = "\<lparr>wd_shared = sh (drop_session (at_session w e)), wd_sessions = AList.delete u (wd_sessions w)\<rparr>"
  have "shared_tracked L (tree h) (drop_session (at_session w e))"
    using assms(4) name_disconnect by (simp add: export_tracked_def drop_session_tracked)
  then have "shared_tracked L (tree h) (at_session ?w e')" for e' using shared_tracked_same [of "at_session ?w e'"] by simp
  moreover have "session_permit_inv 0 (at_session ?w e') = session_permit_inv 0 (at_session w e')" for e'
    by (rule session_permit_inv_limits) (use calculation assms(4) name_disconnect in \<open>auto simp: export_tracked_def shared_tracked_def\<close>)
  ultimately show ?thesis using assms(4) name_disconnect by (auto simp: export_tracked_def delete_conv' split: if_splits)
qed

lemma fresh_tracked:
  assumes "0 < max_known_nodes l" "0 < max_total_known_nodes l" "tree h [] = Some root"
  shows "export_tracked l tree (fresh_world l wr key root, h)"
  using assms by (auto simp: export_tracked_def shared_tracked_def fresh_world_def export_init_def index_inv_def global_permit_inv_def paths_ok_def plain_def)

lemma reachable_tracked:
  assumes "tree_laws tree at E" "0 < max_known_nodes l" "0 < max_total_known_nodes l" "tree h0 [] = Some root"
    "name_reachable E (fresh_world l wr key root, h0) x"
  shows "export_tracked l tree x"
  using assms(5)
proof (induction rule: name_reachable.induct)
  case name_start
  then show ?case using fresh_tracked [where tree = tree and h = h0, OF assms(2-4)] .
next
  case (name_more x y)
  show ?case by (rule name_step_tracked [OF assms(1,2) name_more(2,3)])
qed

end
