(* ===== verification/Server_Openings.thy ===== *)
theory Server_Openings
  imports Server_Namespace
begin

text \<open>
  What a client gets: an opened file is the file of the node, listings are in order and within their bound, and the
  values in a directory view stay within the budget of the request.
\<close>

subsection \<open>Opening\<close>

definition opened_right :: "('h \<Rightarrow> file_tree) \<Rightarrow> ('h \<Rightarrow> descriptor \<Rightarrow> path option) \<Rightarrow> node_id \<Rightarrow> file_open_options \<Rightarrow> file_handle \<Rightarrow> srv \<times> 'h \<Rightarrow> bool" where
  "opened_right tree at n options f x \<longleftrightarrow> (\<exists>p opened. at (snd x) f = Some p \<and> plain p \<and> tree (snd x) p = Some (of_identity opened) \<and>
     map_of (se_handles (se (fst x))) f = Some opened \<and> of_node opened = n \<and> of_access opened = oo_access options)"

lemma open_host_triple:
  assumes "tree_laws tree at E" "list_all plain (ns_paths snap)"
  shows "triple (view tree at T {}) (mbind (open_snapshot E snap (open_flags (oo_access options) (oo_append options)) (Some KFile)) (\<lambda>(f, _, _).
         mbind (if oo_truncate options then host_io (ho_set_len (sv_host E) f 0) else mret ()) (\<lambda>_.
         mbind (host_io (ho_metadata (sv_host E) f)) (\<lambda>m. mret (f, m)))))
    (\<lambda>r w. \<exists>p. plain p \<and> T p = Some (ns_identity snap) \<and> view tree at T {(fst r, p)} w) (\<lambda>_ _. True)"
proof (rule triple_mbind)
  show "triple (view tree at T {}) (open_snapshot E snap (open_flags (oo_access options) (oo_append options)) (Some KFile))
      (\<lambda>(f, p, _) w. plain p \<and> T p = Some (ns_identity snap) \<and> view tree at T {(f, p)} w) (\<lambda>_ _. True)"
    by (rule triple_conseq [OF open_snapshot_triple [OF assms(1) _ assms(2), where T = T and D = "{}"]])
      (use assms(2) in \<open>auto simp: open_flags_def list_all_iff\<close>)
  fix r :: "descriptor \<times> path \<times> host_meta"
  obtain f p m where r: "r = (f, p, m)" by (cases r)
  let ?V = "view tree at T {(f, p)}"
  have "triple ?V (mbind (if oo_truncate options then host_io (ho_set_len (sv_host E) f 0) else mret ()) (\<lambda>_.
      mbind (host_io (ho_metadata (sv_host E) f)) (\<lambda>m. mret (f, m))))
      (\<lambda>r w. fst r = f \<and> ?V w) (\<lambda>_. ?V)"
    by (rule triple_mbind [OF preserves_triple triple_mbind [OF preserves_triple triple_mret]])
      (auto intro!: pres_intros quiet_call_keeps quiet_names [OF assms(1)])
  then have "triple ?V (mbind (if oo_truncate options then host_io (ho_set_len (sv_host E) f 0) else mret ()) (\<lambda>_.
      mbind (host_io (ho_metadata (sv_host E) f)) (\<lambda>m. mret (f, m))))
      (\<lambda>r w. \<exists>p. plain p \<and> T p = Some (ns_identity snap) \<and> view tree at T {(fst r, p)} w) (\<lambda>_ _. True)"
    if "plain p" "T p = Some (ns_identity snap)" by (rule triple_conseq) (use that in auto)
  then show "triple ((\<lambda>(f, p, _) w. plain p \<and> T p = Some (ns_identity snap) \<and> view tree at T {(f, p)} w) r)
      (case r of (f, _, _) \<Rightarrow> mbind (if oo_truncate options then host_io (ho_set_len (sv_host E) f 0) else mret ()) (\<lambda>_.
         mbind (host_io (ho_metadata (sv_host E) f)) (\<lambda>m. mret (f, m))))
      (\<lambda>r w. \<exists>p. plain p \<and> T p = Some (ns_identity snap) \<and> view tree at T {(fst r, p)} w) (\<lambda>_ _. True)"
    by (cases "plain p \<and> T p = Some (ns_identity snap)") (auto simp: r triple_def)
qed

lemma insert_opened_found:
  assumes "map_of (se_handles (se s)) f = None"
  shows "map_of (se_handles (se (snd (insert_opened f opened s)))) f = Some opened" "fst (insert_opened f opened s) = Inr f"
  using assms by (simp_all add: insert_opened_def insert_handle_def contains_key_def update_conv')

text \<open>The steps before the handle is stored leave the handles alone.\<close>

definition same_handles :: "srv \<Rightarrow> srv \<times> 'h \<Rightarrow> bool" where
  "same_handles s x \<longleftrightarrow> se_handles (se (fst x)) = se_handles (se s)"

lemma on_host_same: "preserves (same_handles s) (on_host m)"
  by (simp add: preserves_def same_handles_def on_host_def split_beta)

lemma on_session_same:
  assumes "\<And>t. preserves (registry_frame t) m"
  shows "preserves (same_handles s) (on_session m)"
  using registry_frame_preserves [OF assms] by (simp add: preserves_def same_handles_def on_session_def split_beta registry_frame_def)

lemma node_snapshot_same:
  fixes E :: "'h server_env"
  shows "preserves (same_handles s) (node_snapshot E n)"
proof -
  have "preserves (same_handles s) (mbind (on_host m) (\<lambda>(i, p). mbind (on_session (remember (sv_sha E) i p)) (\<lambda>m. if m = n then mret () else mfail SStateUnavailable)))" for m :: "('h, file_identity \<times> path) hop"
    by (intro preserves_mbind on_host_same) (auto intro!: pres_intros on_session_same registry_frame_remember)
  then have "preserves (same_handles s) (discover_node E n)"
    by (auto simp: discover_node_def preserves_def mret_def)
  then have found: "preserves (same_handles s) (\<lambda>s. if contains_key (nodes_of (fst s)) n then (Inr (), s) else discover_node E n s)"
    by (simp add: preserves_def)
  have "preserves (same_handles s :: srv \<times> 'h \<Rightarrow> bool) (mbind (on_session (track_node n)) (\<lambda>_. mret x))" for x :: node_snapshot_r
    by (intro pres_intros on_session_same registry_frame_track)
  then have "preserves (same_handles s :: srv \<times> 'h \<Rightarrow> bool) (\<lambda>s. case map_of (nodes_of (fst s)) n of None \<Rightarrow> (Inl SInvalidNode, s)
      | Some k \<Rightarrow> mbind (on_session (track_node n)) (\<lambda>_. mret \<lparr>ns_identity = kn_identity k, ns_paths = kn_paths k\<rparr>) s)"
    by (auto simp: preserves_def split: option.split)
  then show ?thesis unfolding node_snapshot_def by (rule preserves_mbind [OF found])
qed

lemma session_open_right:
  assumes laws: "tree_laws tree at E" and x: "in_step L tree fs fg (s, h)" and run: "session_open E n options (s, h) = (Inr (f, v, len), x)"
    and fresh: "map_of (se_handles (se s)) f = None"
  shows "opened_right tree at n options f x"
proof -
  let ?open = "\<lambda>snap. mbind (open_snapshot E snap (open_flags (oo_access options) (oo_append options)) (Some KFile)) (\<lambda>(f, _, _).
         mbind (if oo_truncate options then host_io (ho_set_len (sv_host E) f 0) else mret ()) (\<lambda>_.
         mbind (host_io (ho_metadata (sv_host E) f)) (\<lambda>m. mret (f, m))))"
  let ?opened = "\<lambda>snap. \<lparr>of_node = n, of_identity = ns_identity snap, of_access = oo_access options, of_append = oo_append options\<rparr>"
  let ?inner = "mbind (node_snapshot E n) (\<lambda>snap. mbind (on_host (?open snap)) (\<lambda>(f, m).
       mbind (on_session (insert_opened f (?opened snap))) (\<lambda>h. mret (h, revision (sv_sha E) m, hm_len m))))"
  obtain x1 u where taken: "on_session acquire_handle_permit (s, h) = (Inr u, x1)" and inner: "?inner x1 = (Inr (f, v, len), x)"
    using run unfolding session_open_def with_handle_permit_def
    by (elim mbind_InrE) (auto simp: releasing_def split: prod.splits sum.splits)
  have x1: "joint L tree at (tree h) {} fs fg x1" "same_handles s x1"
    using preserves_result [OF on_session_keeps [OF handle_permits_keep(2)] in_step_joint [OF x] taken] taken
    by (auto simp: same_handles_def on_session_def acquire_handle_permit_def upd_handle_permits_def split: if_splits)
  obtain snap x2 where snap: "node_snapshot E n x1 = (Inr snap, x2)" and rest: "mbind (on_host (?open snap)) (\<lambda>(f, m).
       mbind (on_session (insert_opened f (?opened snap))) (\<lambda>h. mret (h, revision (sv_sha E) m, hm_len m))) x2 = (Inr (f, v, len), x)"
    by (rule mbind_InrE [OF inner]) (rule that)
  have x2: "list_all plain (ns_paths snap)" "joint L tree at (tree h) {} fs fg x2" "same_handles s x2"
    using triple_Inr [OF node_snapshot_triple [OF laws] x1(1) snap] preserves_result [OF node_snapshot_same x1(2) snap] by auto
  obtain r x3 where opened: "on_host (?open snap) x2 = (Inr r, x3)" and stored: "(case r of (f, m) \<Rightarrow>
       mbind (on_session (insert_opened f (?opened snap))) (\<lambda>h. mret (h, revision (sv_sha E) m, hm_len m))) x3 = (Inr (f, v, len), x)"
    by (rule mbind_InrE [OF rest]) (rule that)
  obtain w where w: "?open snap (snd x2) = (Inr r, w)" "x3 = (fst x2, w)" using opened by (auto simp: on_host_def split: prod.splits)
  have "view tree at (tree h) {} (snd x2)" using x2(2) by (simp add: joint_def)
  from triple_Inr [OF open_host_triple [OF laws x2(1)] this w(1)]
  obtain p where p: "plain p" "tree h p = Some (ns_identity snap)" "view tree at (tree h) {(fst r, p)} w" by blast
  have same: "fst r = f" using stored by (cases r) (auto simp: mbind_def on_session_def insert_opened_def mret_def)
  have "x = (snd (insert_opened f (?opened snap) (fst x2)), w)"
    using stored w(2) same by (cases r) (auto simp: mbind_def on_session_def insert_opened_def mret_def)
  with p same insert_opened_found(1) [of "fst x2" f "?opened snap"] x2(3) fresh show ?thesis
    by (auto simp: opened_right_def same_handles_def view_def)
qed

subsection \<open>Views within their bounds\<close>

definition yields :: "('a \<Rightarrow> bool) \<Rightarrow> ('s, 'e, 'a) op \<Rightarrow> bool" where
  "yields F m \<longleftrightarrow> (\<forall>s x t. m s = (Inr x, t) \<longrightarrow> F x)"

lemma yieldsD: "yields F m \<Longrightarrow> m s = (Inr x, t) \<Longrightarrow> F x"
  unfolding yields_def by blast

lemma yields_any: "yields (\<lambda>_. True) m"
  by (simp add: yields_def)

lemma yields_mbind: "yields G m \<Longrightarrow> (\<And>x. G x \<Longrightarrow> yields F (f x)) \<Longrightarrow> yields F (mbind m f)"
  unfolding yields_def by (blast elim: mbind_InrE)

lemma yields_then: "(\<And>x. yields F (f x)) \<Longrightarrow> yields F (mbind m f)"
  by (rule yields_mbind [OF yields_any])

lemma yields_simps [simp]: "yields F (mret x) \<longleftrightarrow> F x" "yields F (mfail e)"
  by (auto simp: yields_def mret_def mfail_def)

lemma yields_on_host: "yields F m \<Longrightarrow> yields F (on_host m)"
  by (auto simp: yields_def on_host_def split: prod.splits)

definition inline_bytes :: "xattr_snapshot option \<Rightarrow> nat" where
  "inline_bytes x = (case x of None \<Rightarrow> 0 | Some x \<Rightarrow> sum_list (map (\<lambda>v. length (ix_value v)) (xs_inline_values x)))"

lemma snapshot_values_yield:
  "yields (\<lambda>(vs, left). sum_list (map (\<lambda>v. length (ix_value v)) vs) + left = remaining) (snapshot_values E f node maximum remaining xs)"
proof (induction xs arbitrary: remaining)
  case (Cons x xs)
  have "yields (\<lambda>(vs, left). sum_list (map (\<lambda>v. length (ix_value v)) vs) + left = remaining)
      (case Option.bind v (\<lambda>v. map_option (Pair v) (claim_inline_budget remaining (length v))) of
        None \<Rightarrow> snapshot_values E f node maximum remaining xs
      | Some (v, remaining') \<Rightarrow> mbind (snapshot_values E f node maximum remaining' xs) (\<lambda>(vs, left).
          mret (\<lparr>ix_name = x, ix_value = v\<rparr> # vs, left)))" for v
  proof (cases "Option.bind v (\<lambda>v. map_option (Pair v) (claim_inline_budget remaining (length v)))")
    case (Some a)
    then obtain u where u: "a = (u, remaining - length u)" "length u \<le> remaining"
      by (cases v) (auto simp: claim_inline_budget_def split: if_splits)
    have "yields (\<lambda>(vs, left). sum_list (map (\<lambda>v. length (ix_value v)) vs) + left = remaining)
        (mbind (snapshot_values E f node maximum (remaining - length u) xs) (\<lambda>(vs, left). mret (\<lparr>ix_name = x, ix_value = u\<rparr> # vs, left)))"
      by (rule yields_mbind [OF Cons.IH]) (use u(2) in auto)
    with Some u(1) show ?thesis by simp
  qed (use Cons.IH in simp)
  then show ?case by (simp add: yields_then)
qed simp

lemma xattr_snapshot_yields:
  "yields (\<lambda>(x, left). inline_bytes (Some x) + left = remaining) (xattr_snapshot_for_open_file E f node maximum remaining)"
proof -
  have vals: "yields (\<lambda>(vs, left). sum_list (map (\<lambda>v. length (ix_value v)) vs) + left = remaining)
      (if maximum > 0 then snapshot_values E f node maximum remaining xs else mret ([], remaining))" for xs
    using snapshot_values_yield [of remaining E f node maximum xs] by simp
  show ?thesis unfolding xattr_snapshot_for_open_file_def
    by (rule yields_then, rule yields_then, rule yields_mbind [OF vals]) (auto simp: inline_bytes_def)
qed

lemma entry_xattrs_yields: "yields (\<lambda>(t, x, left). inline_bytes x + left = remaining) (entry_xattrs E d n node m options remaining)"
  unfolding yields_def
proof (intro allI impI)
  fix w r w' assume run: "entry_xattrs E d n node m options remaining w = (Inr r, w')"
  have none: "inline_bytes None = 0" by (simp add: inline_bytes_def)
  show "case r of (t, x, left) \<Rightarrow> inline_bytes x + left = remaining"
  proof (cases "include_xattrs options \<and> hm_kind m \<noteq> KSymlink")
    case True
    obtain o1 w1 where opened: "open_directory_entry_for_xattrs E d n (hm_kind m) w = (o1, w1)" by fastforce
    show ?thesis
    proof (cases o1)
      case (Inr f)
      have "yields (\<lambda>(t, x, left). inline_bytes x + left = remaining) (mbind (ok_flatten (read_fd_backup_time (sv_host E) f)) (\<lambda>t w2.
          let (r, w3) = xattr_snapshot_for_open_file E f node (inline_xattr_size options) remaining w2;
              (snap, left) = (case r of Inr (x, left) \<Rightarrow> (Some x, left) | Inl _ \<Rightarrow> (None, remaining))
          in mbind (host_io (ho_metadata (sv_host E) f)) (\<lambda>m'.
            if revision (sv_sha E) m' \<noteq> revision (sv_sha E) m then mfail SConflict else mret (t, snap, left)) w3))"
      proof (rule yields_then)
        fix t
        have last: "yields (\<lambda>(t, x, left). inline_bytes x + left = remaining) (mbind (host_io (ho_metadata (sv_host E) f)) (\<lambda>m'.
            if revision (sv_sha E) m' \<noteq> revision (sv_sha E) m then mfail SConflict else mret (t, x, left)))"
          if "inline_bytes x + left = remaining" for x left using that by (auto intro!: yields_then)
        show "yields (\<lambda>(t, x, left). inline_bytes x + left = remaining) (\<lambda>w2.
          let (r, w3) = xattr_snapshot_for_open_file E f node (inline_xattr_size options) remaining w2;
              (snap, left) = (case r of Inr (x, left) \<Rightarrow> (Some x, left) | Inl _ \<Rightarrow> (None, remaining))
          in mbind (host_io (ho_metadata (sv_host E) f)) (\<lambda>m'.
            if revision (sv_sha E) m' \<noteq> revision (sv_sha E) m then mfail SConflict else mret (t, snap, left)) w3)"
          unfolding yields_def
        proof (intro allI impI)
          fix w2 x w4 assume read: "(let (r, w3) = xattr_snapshot_for_open_file E f node (inline_xattr_size options) remaining w2;
              (snap, left) = (case r of Inr (x, left) \<Rightarrow> (Some x, left) | Inl _ \<Rightarrow> (None, remaining))
            in mbind (host_io (ho_metadata (sv_host E) f)) (\<lambda>m'.
              if revision (sv_sha E) m' \<noteq> revision (sv_sha E) m then mfail SConflict else mret (t, snap, left)) w3) = (Inr x, w4)"
          obtain q w3 where q: "xattr_snapshot_for_open_file E f node (inline_xattr_size options) remaining w2 = (q, w3)" by fastforce
          obtain snap left where snap: "(case q of Inr (x, left) \<Rightarrow> (Some x, left) | Inl _ \<Rightarrow> (None, remaining)) = (snap, left)" by fastforce
          have "inline_bytes snap + left = remaining"
            using yieldsD [OF xattr_snapshot_yields [of remaining E f node "inline_xattr_size options"], of w2 _ w3] q snap none by (cases q) auto
          from last [OF this] show "case x of (t, x, left) \<Rightarrow> inline_bytes x + left = remaining"
            by (rule yieldsD) (use read in \<open>simp only: Let_def q prod.case snap\<close>)
        qed
      qed
      from yieldsD [OF this, of w1 r w'] run True opened Inr show ?thesis by (simp add: entry_xattrs_def)
    qed (use run True opened none in \<open>auto simp: entry_xattrs_def\<close>)
  qed (use run none in \<open>auto simp: entry_xattrs_def\<close>)
qed

lemma scan_entry_yields:
  "yields (\<lambda>(e, left). inline_bytes (sc_xattrs e) + left = remaining) (scan_directory_entry E key d p n options remaining)"
  unfolding scan_directory_entry_def Let_def
  by (rule yields_then, rule yields_mbind [OF entry_xattrs_yields]) (auto intro!: yields_then split: prod.splits)

lemma scan_names_yield:
  "yields (\<lambda>(es, left). sum_list (map (\<lambda>e. inline_bytes (sc_xattrs e)) es) + left = remaining \<and> length es = length ns)
    (scan_names E key d p options remaining ns)"
proof (induction ns arbitrary: remaining)
  case (Cons n ns)
  have "yields (\<lambda>(es, left). sum_list (map (\<lambda>e. inline_bytes (sc_xattrs e)) es) + left = remaining \<and> length es = length (n # ns))
      (mbind (scan_names E key d p options left ns) (\<lambda>(es, last_left). mret (e # es, last_left)))"
    if "inline_bytes (sc_xattrs e) + left = remaining" for e left
    by (rule yields_mbind [OF Cons.IH]) (use that in auto)
  then show ?case by (auto intro!: yields_mbind [OF scan_entry_yields])
qed simp

lemma remember_scanned_yields: "yields (\<lambda>fs. map sc_xattrs fs = map sc_xattrs es) (remember_scanned E es)"
proof (induction es)
  case (Cons e es)
  have "yields (\<lambda>fs. map sc_xattrs fs = map sc_xattrs (e # es)) (mbind (remember_scanned E es) (\<lambda>rest. mret (set_entry_node n e # rest)))" for n
    by (rule yields_mbind [OF Cons.IH]) (simp add: set_entry_node_def)
  then show ?case by (simp add: yields_then)
qed simp

lemma yields_keyed: "(\<And>k. yields F (m k)) \<Longrightarrow> yields F (\<lambda>s. m (key s) s)"
  unfolding yields_def by blast

lemma prepare_scan_yields: "yields (\<lambda>(d, p, m, ns). length ns \<le> MAX_DIRECTORY_ENTRIES) (prepare_directory_scan E snap)"
proof -
  have named: "yields (\<lambda>ns. length ns \<le> MAX_DIRECTORY_ENTRIES) (read_names E d)" for d
    unfolding read_names_def Let_def by (rule yields_then) auto
  have "yields (\<lambda>(d, p, m, ns). length ns \<le> MAX_DIRECTORY_ENTRIES) (mbind (read_names E d) (\<lambda>ns. mret (d, p, m, ns)))" for d and p :: path and m :: host_meta
    by (rule yields_mbind [OF named]) simp
  then show ?thesis unfolding prepare_directory_scan_def by (intro yields_then) (simp split: prod.split)
qed

definition scan_bounded :: "nat \<Rightarrow> scanned_entry list \<Rightarrow> nat \<Rightarrow> bool" where
  "scan_bounded remaining es left \<longleftrightarrow> sum_list (map (\<lambda>e. inline_bytes (sc_xattrs e)) es) + left = remaining \<and>
     length es \<le> MAX_DIRECTORY_ENTRIES \<and> sorted (map (\<lambda>e. de_name (sc_entry e)) es)"

lemma sum_list_insort_key: "sum_list (map f (insort_key k x xs)) = f x + (sum_list (map f xs) :: nat)"
  by (induction xs) auto

lemma sum_list_sort_key: "sum_list (map f (sort_key k xs)) = (sum_list (map f xs) :: nat)"
  by (induction xs) (simp_all add: sum_list_insort_key)

lemma remembered_bounded:
  assumes "sum_list (map (\<lambda>e. inline_bytes (sc_xattrs e)) es) + left = remaining" "length es \<le> MAX_DIRECTORY_ENTRIES"
    "map sc_xattrs fs = map sc_xattrs es"
  shows "scan_bounded remaining (sort_key (de_name \<circ> sc_entry) fs) left"
proof -
  have "sum_list (map (\<lambda>e. inline_bytes (sc_xattrs e)) (sort_key (de_name \<circ> sc_entry) fs)) = sum_list (map (\<lambda>e. inline_bytes (sc_xattrs e)) fs)"
    by (rule sum_list_sort_key)
  also have "\<dots> = sum_list (map inline_bytes (map sc_xattrs fs))" by (simp add: comp_def)
  also have "\<dots> = sum_list (map (\<lambda>e. inline_bytes (sc_xattrs e)) es)" by (simp add: assms(3) comp_def)
  finally show ?thesis using assms(1,2) map_eq_imp_length_eq [OF assms(3)] sorted_sort_key [of "de_name \<circ> sc_entry" fs]
    by (simp add: scan_bounded_def comp_def)
qed

lemma scan_directory_yields: "yields (\<lambda>(v, dpm, es, left). scan_bounded remaining es left) (scan_directory E node options remaining)"
  unfolding scan_directory_def
proof (rule yields_then, rule yields_mbind)
  fix snap
  show "yields (\<lambda>(d, p, m, ns). length ns \<le> MAX_DIRECTORY_ENTRIES)
      (on_host (mbind (host_io (nm_dup_root (sv_names E))) (\<lambda>_. prepare_directory_scan E snap)))"
    by (intro yields_on_host yields_then prepare_scan_yields)
  fix r :: "descriptor \<times> path \<times> host_meta \<times> name list"
  assume "case r of (d, p, m, ns) \<Rightarrow> length ns \<le> MAX_DIRECTORY_ENTRIES"
  then obtain d p m ns where r: "r = (d, p, m, ns)" "length ns \<le> MAX_DIRECTORY_ENTRIES" by (cases r) auto
  let ?scan = "\<lambda>key. on_host (mbind (scan_names E key d p options remaining ns) (\<lambda>(es, left).
       mbind (host_io (ho_metadata (sv_host E) d)) (\<lambda>after.
       if revision (sv_sha E) m \<noteq> revision (sv_sha E) after then mfail SConflict else mret (revision (sv_sha E) after, es, left))))"
  have scanned: "yields (\<lambda>(v, es, left). sum_list (map (\<lambda>e. inline_bytes (sc_xattrs e)) es) + left = remaining \<and> length es = length ns) (?scan key)" for key
    by (rule yields_on_host, rule yields_mbind [OF scan_names_yield]) (auto intro!: yields_then)
  have "yields (\<lambda>(v, dpm, es, left). scan_bounded remaining es left) (mbind (?scan key) (\<lambda>(v, es, left).
      mbind (remember_scanned E es) (\<lambda>es. mret (v, (d, p, m), sort_key (de_name \<circ> sc_entry) es, left))))" for key
  proof (rule yields_mbind [OF scanned])
    fix y :: "u64 \<times> scanned_entry list \<times> nat"
    assume "case y of (v, es, left) \<Rightarrow> sum_list (map (\<lambda>e. inline_bytes (sc_xattrs e)) es) + left = remaining \<and> length es = length ns"
    then obtain v es left where y: "y = (v, es, left)" "sum_list (map (\<lambda>e. inline_bytes (sc_xattrs e)) es) + left = remaining" "length es = length ns"
      by (cases y) auto
    show "yields (\<lambda>(v, dpm, es, left). scan_bounded remaining es left) (case y of (v, es, left) \<Rightarrow>
        mbind (remember_scanned E es) (\<lambda>es. mret (v, (d, p, m), sort_key (de_name \<circ> sc_entry) es, left)))"
      unfolding y(1) prod.case
      by (rule yields_mbind [OF remember_scanned_yields], simp only: yields_simps prod.case, rule remembered_bounded) (use y r(2) in simp_all)
  qed
  from yields_keyed [where m = "\<lambda>key. mbind (?scan key) _", OF this]
  show "yields (\<lambda>(v, dpm, es, left). scan_bounded remaining es left) (case r of (d, relative, earlier, ns) \<Rightarrow> \<lambda>s.
     mbind (on_host (mbind (scan_names E (sh_node_key (sh (fst s))) d relative options remaining ns) (\<lambda>(es, left).
       mbind (host_io (ho_metadata (sv_host E) d)) (\<lambda>after.
       if revision (sv_sha E) earlier \<noteq> revision (sv_sha E) after then mfail SConflict
       else mret (revision (sv_sha E) after, es, left))))) (\<lambda>(v, es, left).
     mbind (remember_scanned E es) (\<lambda>es. mret (v, (d, relative, earlier), sort_key (de_name \<circ> sc_entry) es, left))) s)"
    unfolding r(1) prod.case .
qed

definition view_bounded :: "directory_view_options \<Rightarrow> directory_view \<Rightarrow> bool" where
  "view_bounded options v \<longleftrightarrow> sorted (map (\<lambda>e. de_name (ve_entry e)) (dv_entries v)) \<and> length (dv_entries v) \<le> MAX_DIRECTORY_ENTRIES \<and>
     inline_bytes (dv_xattrs v) + sum_list (map (\<lambda>e. inline_bytes (ve_xattrs e)) (dv_entries v)) \<le> inline_xattr_total_size options"

lemma session_directory_view_yields: "yields (view_bounded options) (session_directory_view E node options)"
  unfolding session_directory_view_def
proof (rule yields_then, rule yields_mbind [OF scan_directory_yields])
  fix r :: "u64 \<times> (descriptor \<times> path \<times> host_meta) \<times> scanned_entry list \<times> nat"
  assume "case r of (v, dpm, es, left) \<Rightarrow> scan_bounded (inline_xattr_total_size options) es left"
  then obtain v d p m es left where r: "r = (v, (d, p, m), es, left)" "scan_bounded (inline_xattr_total_size options) es left" by (cases r) auto
  have attributes: "yields (\<lambda>(directory, x). inline_bytes x \<le> left) (on_host (mbind (ok_flatten (read_fd_backup_time (sv_host E) d)) (\<lambda>t.
       mbind (enrich_resource_fork_revision E node ((to_metadata (sv_sha E) node m)\<lparr>md_backup_unix_ms := t\<rparr>)) (\<lambda>directory.
       mbind (if include_xattrs options
         then mbind (xattr_snapshot_for_open_file E d node (inline_xattr_size options) left) (\<lambda>(x, _). mret (Some x))
         else mret None) (\<lambda>xattrs. mret (directory, xattrs))))))"
  proof -
    have own: "yields (\<lambda>x. inline_bytes x \<le> left) (if include_xattrs options
        then mbind (xattr_snapshot_for_open_file E d node (inline_xattr_size options) left) (\<lambda>(x, _). mret (Some x)) else mret None)"
    proof (cases "include_xattrs options")
      case True
      have "yields (\<lambda>x. inline_bytes x \<le> left) (mbind (xattr_snapshot_for_open_file E d node (inline_xattr_size options) left) (\<lambda>(x, _). mret (Some x)))"
        by (rule yields_mbind [OF xattr_snapshot_yields]) auto
      with True show ?thesis by simp
    qed (simp add: inline_bytes_def)
    show ?thesis by (rule yields_on_host, rule yields_then, rule yields_then, rule yields_mbind [OF own]) simp
  qed
  show "yields (view_bounded options) ((\<lambda>(v, (d, relative, earlier), es, left).
     mbind (on_host (mbind (ok_flatten (read_fd_backup_time (sv_host E) d)) (\<lambda>t.
       mbind (enrich_resource_fork_revision E node ((to_metadata (sv_sha E) node earlier)\<lparr>md_backup_unix_ms := t\<rparr>)) (\<lambda>directory.
       mbind (if include_xattrs options
         then mbind (xattr_snapshot_for_open_file E d node (inline_xattr_size options) left) (\<lambda>(x, _). mret (Some x))
         else mret None) (\<lambda>xattrs. mret (directory, xattrs)))))) (\<lambda>(directory, xattrs).
     mbind (view_parent E relative directory) (\<lambda>parent.
     mbind (on_host (host_io (ho_metadata (sv_host E) d))) (\<lambda>m.
     if revision (sv_sha E) m \<noteq> v then mfail SConflict
     else mret \<lparr>dv_revision = v, dv_directory = directory, dv_parent = parent, dv_xattrs = xattrs,
       dv_entries = map (\<lambda>e. \<lparr>ve_entry = sc_entry e, ve_xattrs = sc_xattrs e\<rparr>) es\<rparr>)))) r)"
    unfolding r(1) prod.case
    by (rule yields_mbind [OF attributes]) (use r(2) in \<open>auto simp: view_bounded_def scan_bounded_def comp_def intro!: yields_then\<close>)
qed

end
