(* ===== verification/Server_Namespace_Properties.thy ===== *)
theory Server_Namespace_Properties
  imports Server_Openings Server_Data_Properties
begin

text \<open>
  What the server guarantees of names: the registry follows the tree of the export, an opened file is the file of its
  node, and a directory view is in order and within its bounds. The witnesses run on a host that keeps a tree.
\<close>

subsection \<open>A host with a tree\<close>

text \<open>Files are listed with the number of their inode; the root has the inode 2. A new descriptor is above the ones in use.\<close>

record tree_host =
  th_files :: "(path \<times> nat) list"
  th_open :: "(descriptor \<times> path) list"

definition tree_of :: "tree_host \<Rightarrow> file_tree" where
  "tree_of w p = (if p = [] then Some (disk_ident 2) else map_option (\<lambda>i. disk_ident (i + 3)) (map_of (th_files w) p))"

definition at_of :: "tree_host \<Rightarrow> descriptor \<Rightarrow> path option" where
  "at_of w d = map_of (th_open w) d"

definition fresh_fd :: "tree_host \<Rightarrow> descriptor" where
  "fresh_fd w = sum_list (map fst (th_open w)) + 3"

definition open_at :: "path \<Rightarrow> tree_host \<Rightarrow> (io_error + descriptor) \<times> tree_host" where
  "open_at p w = (Inr (fresh_fd w), w\<lparr>th_open := (fresh_fd w, p) # th_open w\<rparr>)"

definition tree_meta :: "path \<Rightarrow> tree_host \<Rightarrow> io_error + host_meta" where
  "tree_meta p w = (case tree_of w p of
     None \<Rightarrow> Inl (disk_error ENOENT)
   | Some i \<Rightarrow> Inr ((disk_meta (fi_inode i) [] 0)\<lparr>hm_kind := if p = [] then KDirectory else KFile\<rparr>))"

definition below_fd :: "tree_host \<Rightarrow> descriptor \<Rightarrow> (path \<Rightarrow> (io_error + 'a) \<times> tree_host) \<Rightarrow> (io_error + 'a) \<times> tree_host" where
  "below_fd w d k = (case at_of w d of None \<Rightarrow> (Inl (disk_error (EOTHER 9)), w) | Some p \<Rightarrow> k p)"

definition refuses :: "tree_host \<Rightarrow> (io_error + 'a) \<times> tree_host" where
  "refuses w = (Inl (disk_error ENOTSUP), w)"

definition move_file :: "path \<Rightarrow> path \<Rightarrow> path \<times> nat \<Rightarrow> path \<times> nat" where
  "move_file old new x = (replace_prefix (fst x) old new, snd x)"

definition tree_names :: "tree_host names" where
  "tree_names = \<lparr>
     nm_dup_root = open_at [], nm_stat_root = (\<lambda>w. (tree_meta [] w, w)),
     nm_openat = (\<lambda>d n fl _ w. below_fd w d (\<lambda>p.
       if fl_create fl then if tree_of w (p @ [n]) = None then open_at (p @ [n]) (w\<lparr>th_files := (p @ [n], length (th_files w)) # th_files w\<rparr>)
         else (Inl (disk_error EEXIST), w)
       else if tree_of w (p @ [n]) = None then (Inl (disk_error ENOENT), w) else open_at (p @ [n]) w)),
     nm_statat = (\<lambda>d n w. below_fd w d (\<lambda>p. (tree_meta (p @ [n]) w, w))),
     nm_readdir = (\<lambda>d w. below_fd w d (\<lambda>p. (Inr (map last (filter (\<lambda>q. q \<noteq> [] \<and> butlast q = p \<and> plain_name (last q)) (map fst (th_files w)))), w))),
     nm_mkdirat = (\<lambda>_ _ _. refuses), nm_symlinkat = (\<lambda>_ _ _. refuses), nm_linkat = (\<lambda>_ _ _ _. refuses),
     nm_mknodat = (\<lambda>_ _ _ _ _ _. refuses), nm_unlinkat = (\<lambda>_ _ _. refuses),
     nm_renameat = (\<lambda>od on nd nn mode w. below_fd w od (\<lambda>p. below_fd w nd (\<lambda>q.
       if mode = RenameNoReplace \<and> tree_of w (p @ [on]) \<noteq> None \<and> list_all (\<lambda>x. \<not> is_path_or_descendant (fst x) (q @ [nn])) (th_files w) \<and>
         \<not> is_path_or_descendant (p @ [on]) (q @ [nn]) \<and> \<not> is_path_or_descendant (q @ [nn]) (p @ [on])
       then (Inr (), w\<lparr>th_files := map (move_file (p @ [on]) (q @ [nn])) (th_files w)\<rparr>)
       else (Inl (disk_error EEXIST), w)))),
     nm_readlinkat = (\<lambda>_ _. refuses), nm_chmodat = (\<lambda>_ _ _. refuses), nm_utimensat = (\<lambda>_ _ _ _. refuses),
     nm_stat_fork = (\<lambda>_. refuses), nm_sync = (\<lambda>_. refuses), nm_create_temporary = refuses\<rparr>"

text \<open>Every file has one attribute.\<close>

definition tree_xattr :: bytes where
  "tree_xattr = map of_char ''user.a''"

definition tree_files :: "tree_host host" where
  "tree_files = \<lparr>
     ho_metadata = (\<lambda>f w. below_fd w f (\<lambda>p. (tree_meta p w, w))),
     ho_read_at = (\<lambda>_ _ _. refuses), ho_write_at = (\<lambda>_ _ _. refuses), ho_write_all = (\<lambda>_ _. refuses), ho_set_len = (\<lambda>_ _. refuses),
     ho_set_mode = (\<lambda>_ _. refuses), ho_set_times = (\<lambda>_ _ _. refuses), ho_sync = (\<lambda>_ _. refuses), ho_fallocate = (\<lambda>_ _ _. refuses),
     ho_seek = (\<lambda>_ _ _. refuses), ho_clone = (\<lambda>_ _. refuses), ho_copy_file_range = (\<lambda>_ _ _ _ _. refuses),
     ho_getxattr = (\<lambda>_ x _ w. (if x = tree_xattr then Inr [9, 9, 9] else Inl (disk_error ENODATA), w)),
     ho_setxattr = (\<lambda>_ _ _. refuses), ho_removexattr = (\<lambda>_ _. refuses), ho_listxattr = (\<lambda>_ _ w. (Inr (tree_xattr @ [0]), w)), ho_unlink_temporary = refuses\<rparr>"

definition tree_sha :: "bytes \<Rightarrow> bytes" where
  "tree_sha _ = replicate 32 7"

definition tree_server :: "tree_host server_env" where
  "tree_server = \<lparr>sv_sha = tree_sha, sv_enc = (\<lambda>x. x), sv_dec = Some, sv_components = (\<lambda>_. []), sv_host = tree_files, sv_names = tree_names,
     sv_forks = None\<rparr>"

lemma tree_calls [simp]:
  "sv_sha tree_server = tree_sha" "sv_host tree_server = tree_files" "sv_names tree_server = tree_names" "sv_forks tree_server = None"
  by (simp_all add: tree_server_def)

lemma fd_below_fresh: "map_of (th_open w) d = Some p \<Longrightarrow> d < fresh_fd w"
  using member_le_sum_list [of d "map fst (th_open w)"] by (force simp: fresh_fd_def dest: map_of_SomeD)

lemma open_at_quiet: "quiet tree_of at_of w (snd (open_at p w))" "at_of (snd (open_at p w)) (fresh_fd w) = Some p"
  using fd_below_fresh [of w] by (auto simp: quiet_def open_at_def tree_of_def at_of_def fun_eq_iff)

lemma quiet_same [simp]: "quiet tree at w w"
  by (simp add: quiet_def)

lemma tree_meta_identity: "tree_meta p w = Inr m \<Longrightarrow> tree_of w p = Some (identity_of m)"
  by (auto simp: tree_meta_def tree_of_def disk_meta_def identity_of_def disk_ident_def split: option.splits if_splits)

lemma tree_meta_missing: "tree_meta p w = Inl e \<Longrightarrow> tree_of w p = None"
  by (auto simp: tree_meta_def split: option.splits)

lemma strip_prefix_append: "strip_prefix xs (xs @ r) = Some r"
  by simp

lemma renamed_tree_cases:
  assumes "\<not> is_path_or_descendant new old" "\<not> is_path_or_descendant old new"
  shows "renamed_tree RenameNoReplace old new T (new @ r) = T (old @ r)" "renamed_tree RenameNoReplace old new T (old @ r) = None"
    "\<not> is_path_or_descendant q old \<Longrightarrow> \<not> is_path_or_descendant q new \<Longrightarrow> renamed_tree RenameNoReplace old new T q = T q"
proof -
  have "old @ r \<noteq> new @ r'" for r r' using assms by (metis append_eq_append_conv2 below_iff)
  then have "strip_prefix new (old @ r) = None" by (simp add: strip_prefix_None)
  then show "renamed_tree RenameNoReplace old new T (new @ r) = T (old @ r)" "renamed_tree RenameNoReplace old new T (old @ r) = None"
    unfolding renamed_tree_def strip_prefix_append by simp_all
  show "renamed_tree RenameNoReplace old new T q = T q" if "\<not> is_path_or_descendant q old" "\<not> is_path_or_descendant q new"
    using that by (simp add: renamed_tree_def below_iff strip_prefix_None [THEN iffD2])
qed

lemma replace_prefix_cases: "replace_prefix (old @ r) old new = new @ r" "\<not> is_path_or_descendant p old \<Longrightarrow> replace_prefix p old new = p"
proof -
  show "replace_prefix (old @ r) old new = new @ r" unfolding replace_prefix_def strip_prefix_append by simp
  show "\<not> is_path_or_descendant p old \<Longrightarrow> replace_prefix p old new = p" by (simp add: replace_prefix_def below_iff strip_prefix_None [THEN iffD2])
qed

lemma map_of_moved:
  assumes "list_all (\<lambda>x. \<not> is_path_or_descendant (fst x) new) xs" "\<not> is_path_or_descendant new old" "\<not> is_path_or_descendant old new"
  shows "map_of (map (move_file old new) xs) q = renamed_tree RenameNoReplace old new (map_of xs) q"
proof -
  note renamed = renamed_tree_cases [OF assms(2,3)]
  have never: "old @ r \<noteq> new @ r'" "new @ r' \<noteq> old @ r" for r r' using assms(2,3) by (metis append_eq_append_conv2 below_iff)+
  have key: "new @ r = replace_prefix p old new \<longleftrightarrow> old @ r = p" "old @ r \<noteq> replace_prefix p old new"
    "\<not> is_path_or_descendant q old \<Longrightarrow> \<not> is_path_or_descendant q new \<Longrightarrow> q = replace_prefix p old new \<longleftrightarrow> q = p"
    if p: "\<not> is_path_or_descendant p new" for p r q
    using p never replace_prefix_cases [where old = old and new = new] by (cases "is_path_or_descendant p old"; auto simp: below_iff)+
  consider r where "q = new @ r" | r where "q = old @ r" | "\<not> is_path_or_descendant q old" "\<not> is_path_or_descendant q new" by (auto simp: below_iff)
  then show ?thesis
  proof cases
    case (1 r)
    show ?thesis unfolding 1 renamed(1) using assms(1) by (induction xs) (simp_all add: move_file_def key(1) split_beta fun_upd_apply)
  next
    case (2 r)
    show ?thesis unfolding 2 renamed(2) using assms(1) by (induction xs) (simp_all add: move_file_def key(2) split_beta fun_upd_apply)
  next
    case 3
    show ?thesis unfolding renamed(3) [OF 3] using assms(1) by (induction xs) (simp_all add: move_file_def key(3) [OF _ 3] split_beta fun_upd_apply)
  qed
qed

lemma tree_renamed:
  assumes "list_all (\<lambda>x. \<not> is_path_or_descendant (fst x) new) (th_files w)" "\<not> is_path_or_descendant new old" "\<not> is_path_or_descendant old new"
  shows "tree_of (w\<lparr>th_files := map (move_file old new) (th_files w)\<rparr>) = renamed_tree RenameNoReplace old new (tree_of w)"
proof
  fix q
  note renamed = renamed_tree_cases [OF assms(2,3)]
  have named: "old \<noteq> []" "new \<noteq> []" using assms(2,3) by (auto simp: below_iff)
  consider r where "q = new @ r" | r where "q = old @ r" | "\<not> is_path_or_descendant q old" "\<not> is_path_or_descendant q new" by (auto simp: below_iff)
  then show "tree_of (w\<lparr>th_files := map (move_file old new) (th_files w)\<rparr>) q = renamed_tree RenameNoReplace old new (tree_of w) q"
  proof cases
    case (1 r)
    show ?thesis unfolding 1 renamed(1) using map_of_moved [OF assms, of q] named by (simp add: 1 renamed(1) tree_of_def)
  next
    case (2 r)
    show ?thesis unfolding 2 renamed(2) using map_of_moved [OF assms, of q] named by (simp add: 2 renamed(2) tree_of_def)
  next
    case 3
    have "map_of (map (move_file old new) (th_files w)) q = map_of (th_files w) q" unfolding map_of_moved [OF assms] renamed(3) [OF 3] ..
    then show ?thesis unfolding renamed(3) [OF 3] by (simp add: tree_of_def)
  qed
qed

lemma tree_free:
  assumes "list_all (\<lambda>x. \<not> is_path_or_descendant (fst x) new) (th_files w)" "new \<noteq> []"
  shows "tree_of w (new @ r) = None"
  using assms by (force simp: tree_of_def list_all_iff below_iff map_of_eq_None_iff)

lemma refuses_quiet [simp]: "quiet_call tree at refuses"
  by (simp add: quiet_call_def refuses_def)

lemma refuses_makes [simp]: "makes tree at (\<lambda>_ _. refuses)"
  by (auto simp: makes_def refuses_def)

lemma tree_metadata:
  "at_of w d = Some p \<Longrightarrow> nm_statat tree_names d n w = (tree_meta (p @ [n]) w, w)"
  "snd (nm_statat tree_names d n w) = w" "nm_stat_root tree_names w = (tree_meta [] w, w)"
  "at_of w f = Some p \<Longrightarrow> ho_metadata tree_files f w = (tree_meta p w, w)" "snd (ho_metadata tree_files f w) = w"
  by (simp_all add: tree_names_def tree_files_def below_fd_def split: option.split)

lemma tree_openat:
  assumes "at_of w d = Some p"
  shows "nm_openat tree_names d n fl mode w =
    (if fl_create fl then if tree_of w (p @ [n]) = None then open_at (p @ [n]) (w\<lparr>th_files := (p @ [n], length (th_files w)) # th_files w\<rparr>)
         else (Inl (disk_error EEXIST), w)
     else if tree_of w (p @ [n]) = None then (Inl (disk_error ENOENT), w) else open_at (p @ [n]) w)"
  using assms by (simp add: tree_names_def below_fd_def)

lemma tree_dup_root: "nm_dup_root tree_names = open_at []"
  by (simp add: tree_names_def)

lemma tree_refused:
  "nm_mkdirat tree_names d n mode = refuses" "nm_symlinkat tree_names t d n = refuses"
  "nm_linkat tree_names sd sn d n = refuses" "nm_mknodat tree_names d n kind mode major minor = refuses" "nm_unlinkat tree_names d n dir = refuses"
  "nm_readlinkat tree_names d n = refuses" "nm_stat_fork tree_names node = refuses" "ho_read_at tree_files f off k = refuses"
  "ho_set_len tree_files f k = refuses"
  by (simp_all add: tree_names_def tree_files_def)

lemma tree_listing:
  "snd (nm_readdir tree_names d w) = w" "nm_readdir tree_names d w = (Inr ns, w') \<Longrightarrow> n \<in> set ns \<Longrightarrow> plain_name n"
  "snd (ho_getxattr tree_files f x k w) = w" "snd (ho_listxattr tree_files f k w) = w"
  by (auto simp: tree_names_def tree_files_def below_fd_def split: option.splits)

lemma open_at_Inr: "open_at p w = (Inr f, w') \<Longrightarrow> quiet tree_of at_of w w' \<and> at_of w' f = Some p"
  using open_at_quiet [where w = w and p = p] by (auto simp: open_at_def)

lemma open_at_outcome: "open_at p w = (r, w') \<Longrightarrow> r = Inr (fresh_fd w) \<and> quiet tree_of at_of w w' \<and> at_of w' (fresh_fd w) = Some p"
  using open_at_quiet [where w = w and p = p] by (auto simp: open_at_def)

lemma refuses_Inr: "refuses w = (r, w') \<longleftrightarrow> r = Inl (disk_error ENOTSUP) \<and> w' = w"
  by (auto simp: refuses_def)

lemma tree_opens: "opens_names tree_of at_of tree_names"
  unfolding opens_names_def
proof (intro conjI allI impI)
  fix d n fl mode p w r w'
  assume d: "at_of w d = Some p" and "\<not> fl_create fl" and call: "nm_openat tree_names d n fl mode w = (r, w')"
  then have call: "(if tree_of w (p @ [n]) = None then (Inl (disk_error ENOENT), w) else open_at (p @ [n]) w) = (r, w')" by (simp add: tree_openat)
  show "quiet tree_of at_of w w'" "r = Inr f \<Longrightarrow> at_of w' f = Some (p @ [n])" for f
    using call open_at_outcome [of "p @ [n]" w r w'] by (auto split: if_splits)
next
  show "nm_dup_root tree_names w = (Inr f, w') \<Longrightarrow> at_of w' f = Some []" for w f w' using open_at_Inr [of "[]" w f w'] by (simp add: tree_dup_root)
  show "quiet_call tree_of at_of (nm_dup_root tree_names)" using open_at_quiet(1) by (simp add: quiet_call_def tree_dup_root)
next
  fix d n p w r w' assume "at_of w d = Some p" "nm_statat tree_names d n w = (r, w')"
  then have "tree_meta (p @ [n]) w = r" by (auto simp: tree_metadata)
  then show "case r of Inl e \<Rightarrow> io_errno e = Some ENOENT \<longrightarrow> tree_of w (p @ [n]) = None | Inr m \<Rightarrow> tree_of w (p @ [n]) = Some (identity_of m)"
    using tree_meta_identity [of "p @ [n]" w] tree_meta_missing [of "p @ [n]" w] by (cases r) auto
next
  fix w m w' assume "nm_stat_root tree_names w = (Inr m, w')"
  then show "tree_of w [] = Some (identity_of m)" using tree_meta_identity [of "[]" w m] by (auto simp: tree_metadata)
next
  fix d w ns w' n assume "nm_readdir tree_names d w = (Inr ns, w')" "n \<in> set ns"
  then show "is_dot n \<or> plain_name n" using tree_listing(2) by blast
qed (auto simp: quiet_call_def tree_metadata tree_listing)

lemma tree_changes: "changes_names tree_of at_of tree_names"
  unfolding changes_names_def
proof (intro conjI allI impI)
  fix fl :: oflags and mode assume create: "fl_create fl"
  show "makes tree_of at_of (\<lambda>d n. nm_openat tree_names d n fl mode)"
    unfolding makes_def
  proof (intro allI impI)
    fix d n p w r w' assume d: "at_of w d = Some p" and run: "nm_openat tree_names d n fl mode w = (r, w')"
    let ?v = "w\<lparr>th_files := (p @ [n], length (th_files w)) # th_files w\<rparr>"
    show "case r of Inl _ \<Rightarrow> quiet tree_of at_of w w' | Inr _ \<Rightarrow> tree_of w (p @ [n]) = None \<and> (\<exists>i. tree_of w' = (tree_of w)(p @ [n] \<mapsto> i))"
    proof (cases "tree_of w (p @ [n]) = None")
      case True
      then have "open_at (p @ [n]) ?v = (r, w')" using run create by (simp add: tree_openat [OF d])
      from open_at_outcome [OF this] have "r = Inr (fresh_fd ?v)" "tree_of w' = tree_of ?v" by (simp_all add: quiet_def)
      moreover have "tree_of ?v = (tree_of w)(p @ [n] \<mapsto> disk_ident (length (th_files w) + 3))" by (auto simp: tree_of_def)
      ultimately show ?thesis using True by auto
    qed (use run create in \<open>auto simp: tree_openat [OF d]\<close>)
  qed
next
  fix d n fl mode p w f w' assume d: "at_of w d = Some p" and "fl_create fl" "nm_openat tree_names d n fl mode w = (Inr f, w')"
  then show "at_of w' f = Some (p @ [n])"
    using open_at_Inr [of "p @ [n]" "w\<lparr>th_files := (p @ [n], length (th_files w)) # th_files w\<rparr>" f w'] by (simp add: tree_openat [OF d] split: if_splits)
next
  fix od on nd nn mode and op np :: path and w r w'
  let ?old = "op @ [on]" and ?new = "np @ [nn]"
  assume "at_of w od = Some op" "at_of w nd = Some np" and call: "nm_renameat tree_names od on nd nn mode w = (r, w')"
  then have run: "(if mode = RenameNoReplace \<and> tree_of w ?old \<noteq> None \<and> list_all (\<lambda>x. \<not> is_path_or_descendant (fst x) ?new) (th_files w) \<and>
      \<not> is_path_or_descendant ?old ?new \<and> \<not> is_path_or_descendant ?new ?old
    then (Inr (), w\<lparr>th_files := map (move_file ?old ?new) (th_files w)\<rparr>) else (Inl (disk_error EEXIST), w)) = (r, w')"
    by (simp add: tree_names_def below_fd_def)
  show "case r of Inl _ \<Rightarrow> quiet tree_of at_of w w' | Inr _ \<Rightarrow>
      if tree_of w ?old = tree_of w ?new then tree_of w' = tree_of w
      else \<not> is_path_or_descendant ?old ?new \<and> \<not> is_path_or_descendant ?new ?old \<and>
        (mode = RenameReplace \<longrightarrow> (\<forall>r. r \<noteq> [] \<longrightarrow> tree_of w (np @ [nn] @ r) = None)) \<and>
        (mode = RenameNoReplace \<longrightarrow> (\<forall>r. tree_of w (np @ [nn] @ r) = None)) \<and> tree_of w' = renamed_tree mode ?old ?new (tree_of w)"
    using run tree_free [of ?new w] tree_renamed [of ?new w ?old] tree_free [of ?new w "[]"] by (auto split: if_splits)
qed (auto simp: tree_refused refuses_Inr makes_def)

lemma tree_keeps: "keeps_names tree_of at_of tree_server"
  unfolding keeps_names_def Let_def
proof (intro conjI allI impI)
  fix f p w m w' assume "at_of w f = Some p" "ho_metadata (sv_host tree_server) f w = (Inr m, w')"
  then show "tree_of w p = Some (identity_of m)" using tree_meta_identity [of p w m] by (auto simp: tree_metadata)
qed (auto simp: quiet_call_def tree_metadata tree_refused tree_listing refuses_def)

lemma tree_lawful: "tree_laws tree_of at_of tree_server"
  unfolding tree_laws_def using tree_opens tree_changes tree_keeps by (auto simp: tree_of_def split: if_splits)

subsection \<open>A run\<close>

definition tree_start :: "world \<times> tree_host" where
  "tree_start = (fresh_world default_limits True [] (disk_ident 2), \<lparr>th_files = [], th_open = []\<rparr>)"

definition tree_session :: export_session where
  "tree_session = session_with_writes (wd_shared (fst tree_start)) 5 True"

definition tree_joined :: "world \<times> tree_host" where
  "tree_joined = ((fst tree_start)\<lparr>wd_sessions := (5, tree_session) # wd_sessions (fst tree_start)\<rparr>, snd tree_start)"

definition tree_options :: file_open_options where
  "tree_options = \<lparr>oo_access = ReadWrite, oo_truncate = False, oo_append = False\<rparr>"

text \<open>A session runs one operation.\<close>

definition tree_run :: "name_call \<Rightarrow> world \<times> tree_host \<Rightarrow> world \<times> tree_host" where
  "tree_run c x = (case map_of (wd_sessions (fst x)) 5 of
     None \<Rightarrow> x
   | Some e \<Rightarrow> (case run_call tree_server c (at_session (fst x) e, snd x) of (s, h) \<Rightarrow> (store_session (fst x) 5 s, h)))"

definition tree_made :: "world \<times> tree_host" where
  "tree_made = tree_run (CallCreateFile ROOT_NODE [97] 420 tree_options) tree_joined"

definition tree_moved :: "world \<times> tree_host" where
  "tree_moved = tree_run (CallRename ROOT_NODE [97] ROOT_NODE [98] RenameNoReplace) tree_made"

definition tree_node :: node_id where
  "tree_node = stable_node_id tree_sha [] (disk_ident 3)"

lemma tree_run_step: "map_of (wd_sessions (fst x)) 5 = Some e \<Longrightarrow> name_step tree_server x (tree_run c x)"
  by (cases x) (auto simp: tree_run_def split: prod.split intro: name_run)

lemma tree_run_session: "map_of (wd_sessions (fst x)) 5 = Some e \<Longrightarrow> \<exists>e'. map_of (wd_sessions (fst (tree_run c x))) 5 = Some e'"
  by (simp add: tree_run_def store_session_def update_conv' split: prod.split)

lemma tree_reachable: "name_reachable tree_server tree_start tree_moved"
proof -
  have "name_step tree_server tree_start tree_joined"
    using name_connect [where E = tree_server and w = "fst tree_start" and h = "snd tree_start" and u = 5 and a = True]
    by (simp add: tree_start_def fresh_world_def tree_joined_def tree_session_def)
  moreover have joined: "map_of (wd_sessions (fst tree_joined)) 5 = Some tree_session" by (simp add: tree_joined_def)
  moreover note tree_run_step [OF joined, of "CallCreateFile ROOT_NODE [97] 420 tree_options", folded tree_made_def]
  moreover obtain e where "map_of (wd_sessions (fst tree_made)) 5 = Some e" using tree_run_session [OF joined] unfolding tree_made_def by blast
  moreover note tree_run_step [OF this, of "CallRename ROOT_NODE [97] ROOT_NODE [98] RenameNoReplace", folded tree_moved_def]
  ultimately show ?thesis by (meson name_reachable.intros)
qed

lemma tree_limits: "0 < max_known_nodes default_limits" "0 < max_total_known_nodes default_limits"
  by (simp_all add: default_limits_def)

lemma tree_root: "tree_of \<lparr>th_files = [], th_open = []\<rparr> [] = Some (disk_ident 2)"
  by (simp add: tree_of_def)

lemma tree_looked_up: "map_of (by_node (sh_nodes (wd_shared (fst tree_moved)))) tree_node = Some
    \<lparr>kn_identity = disk_ident 3, kn_paths = [[[98]]], kn_session_references = 1, kn_global_permit = True\<rparr>"
  by code_simp

subsection \<open>Properties\<close>

text \<open>C3. In every state that any interleaving of the operations of any number of sessions reaches, every path that the registry
  keeps for a node is made of plain names, so that it stays below the root of the export, and names the file of that node in
  the tree: creating, linking, removing, renaming and exchanging names change the registry exactly as they change the tree,
  whatever operations fail on the way. The host is a parameter; it is assumed to do what POSIX promises for plain names in
  directories that were reached from the root, and nobody else changes the tree.\<close>

theorem registry_tracks_tree:
  assumes "tree_laws tree at E" "0 < max_known_nodes l" "0 < max_total_known_nodes l" "tree h0 [] = Some root"
    "name_reachable E (fresh_world l writable key root, h0) (w, h)"
    "map_of (by_node (sh_nodes (wd_shared w))) n = Some k" "p \<in> set (kn_paths k)"
  shows "tree h p = Some (kn_identity k) \<and> plain p"
proof -
  have "export_tracked l tree (w, h)" by (rule reachable_tracked [OF assms(1-3) _ assms(5)]) (rule assms(4))
  then have "paths_ok (\<lambda>p i. tree h p = Some i \<and> plain p) (at_session w e)" for e by (simp add: export_tracked_def shared_tracked_def)
  from paths_okD [OF this _ assms(7)] assms(6) show ?thesis by simp
qed

theorem registry_tracks_tree_witness:
  "name_reachable tree_server tree_start tree_moved \<and> tree_of (snd tree_moved) [[98]] = Some (disk_ident 3) \<and> plain [[98]]"
proof -
  have run: "name_reachable tree_server (fresh_world default_limits True [] (disk_ident 2), \<lparr>th_files = [], th_open = []\<rparr>) (fst tree_moved, snd tree_moved)"
    using tree_reachable by (simp add: tree_start_def)
  from registry_tracks_tree [where tree = tree_of and ?h0.0 = "\<lparr>th_files = [], th_open = []\<rparr>" and p = "[[98]]",
      OF tree_lawful tree_limits tree_root run tree_looked_up] tree_reachable
  show ?thesis by simp
qed

definition tree_opened :: "(server_error + file_handle \<times> u64 \<times> u64) \<times> srv \<times> tree_host" where
  "tree_opened = session_open tree_server tree_node tree_options
     (at_session (fst tree_moved) (the (map_of (wd_sessions (fst tree_moved)) 5)), snd tree_moved)"

text \<open>C4. A file that a session opens by its node is the file of that node: in every reachable state, when an open succeeds, the
  descriptor is that of a file reached from the root of the export by plain names, without following a link, and that file
  has the identity which the new handle keeps, whatever was renamed, replaced or removed since the node was registered; the
  handle is of the node and of the access that was asked for. The number of the handle is not in use before.\<close>

theorem opened_file_is_node:
  assumes "tree_laws tree at E" "0 < max_known_nodes l" "0 < max_total_known_nodes l" "tree h0 [] = Some root"
    "name_reachable E (fresh_world l writable key root, h0) (w, h)" "map_of (wd_sessions w) u = Some e"
    "session_open E n options (at_session w e, h) = (Inr (f, v, len), (s, h'))" "map_of (se_handles e) f = None"
  shows "\<exists>p opened. at h' f = Some p \<and> plain p \<and> tree h' p = Some (of_identity opened) \<and>
    map_of (se_handles (se s)) f = Some opened \<and> of_node opened = n \<and> of_access opened = oo_access options"
proof -
  have "export_tracked l tree (w, h)" by (rule reachable_tracked [OF assms(1-3) _ assms(5)]) (rule assms(4))
  then have "in_step l tree 0 0 (at_session w e, h)" using assms(6) by (simp add: export_tracked_def in_step_def tracked_parts)
  from session_open_right [OF assms(1) this assms(7)] assms(8) show ?thesis by (simp add: opened_right_def)
qed

theorem opened_file_is_node_witness:
  "\<exists>f v opened. fst tree_opened = Inr (f, v, 0) \<and> at_of (snd (snd tree_opened)) f = Some [[98]] \<and> plain [[98]] \<and>
    tree_of (snd (snd tree_opened)) [[98]] = Some (of_identity opened) \<and> map_of (se_handles (se (fst (snd tree_opened)))) f = Some opened \<and>
    of_node opened = tree_node"
proof -
  have run: "name_reachable tree_server (fresh_world default_limits True [] (disk_ident 2), \<lparr>th_files = [], th_open = []\<rparr>) (fst tree_moved, snd tree_moved)"
    using tree_reachable by (simp add: tree_start_def)
  have evaluated: "case fst tree_opened of Inl _ \<Rightarrow> False
    | Inr (f, v, len) \<Rightarrow> len = 0 \<and> map_of (se_handles (the (map_of (wd_sessions (fst tree_moved)) 5))) f = None \<and>
        at_of (snd (snd tree_opened)) f = Some [[98]]" by code_simp
  then obtain f v where opened: "fst tree_opened = Inr (f, v, 0)" and free: "map_of (se_handles (the (map_of (wd_sessions (fst tree_moved)) 5))) f = None"
      and here: "at_of (snd (snd tree_opened)) f = Some [[98]]"
    by (auto split: sum.splits)
  have "map_of (wd_sessions (fst tree_moved)) 5 \<noteq> None" by code_simp
  then have session: "map_of (wd_sessions (fst tree_moved)) 5 = Some (the (map_of (wd_sessions (fst tree_moved)) 5))" by auto
  have "session_open tree_server tree_node tree_options (at_session (fst tree_moved) (the (map_of (wd_sessions (fst tree_moved)) 5)), snd tree_moved) =
      (Inr (f, v, 0), (fst (snd tree_opened), snd (snd tree_opened)))"
    using opened by (simp add: tree_opened_def prod_eq_iff)
  from opened_file_is_node [where tree = tree_of and ?h0.0 = "\<lparr>th_files = [], th_open = []\<rparr>", OF tree_lawful tree_limits tree_root run session this free] opened here
  show ?thesis by auto
qed

text \<open>C35. A directory view that a server answers is in the order of its names, has at most the number of entries that a
  directory may have, and the values of extended attributes in it, those of the directory and of all its entries together,
  are no larger than the budget of the request, whatever the host returns.\<close>

theorem directory_view_bounded:
  assumes "session_directory_view E node options x = (Inr v, y)"
  shows "sorted (map (\<lambda>e. de_name (ve_entry e)) (dv_entries v)) \<and> length (dv_entries v) \<le> MAX_DIRECTORY_ENTRIES \<and>
    inline_bytes (dv_xattrs v) + sum_list (map (\<lambda>e. inline_bytes (ve_xattrs e)) (dv_entries v)) \<le> inline_xattr_total_size options"
  using yieldsD [OF session_directory_view_yields assms] by (simp add: view_bounded_def)

definition tree_view :: "(server_error + directory_view) \<times> srv \<times> tree_host" where
  "tree_view = session_directory_view tree_server ROOT_NODE \<lparr>include_xattrs = True, inline_xattr_size = 3, inline_xattr_total_size = 4\<rparr>
     (at_session (fst tree_moved) (the (map_of (wd_sessions (fst tree_moved)) 5)), snd tree_moved)"

theorem directory_view_bounded_witness:
  "\<exists>v. fst tree_view = Inr v \<and> map (\<lambda>e. de_name (ve_entry e)) (dv_entries v) = [[98]] \<and> map (\<lambda>e. inline_bytes (ve_xattrs e)) (dv_entries v) = [3] \<and>
    inline_bytes (dv_xattrs v) + 3 \<le> 4"
proof -
  have "case fst tree_view of Inl _ \<Rightarrow> False | Inr v \<Rightarrow> map (\<lambda>e. de_name (ve_entry e)) (dv_entries v) = [[98]] \<and>
      map (\<lambda>e. inline_bytes (ve_xattrs e)) (dv_entries v) = [3]" by code_simp
  then obtain v where v: "fst tree_view = Inr v" "map (\<lambda>e. de_name (ve_entry e)) (dv_entries v) = [[98]]"
      "map (\<lambda>e. inline_bytes (ve_xattrs e)) (dv_entries v) = [3]" by (auto split: sum.splits)
  then have "session_directory_view tree_server ROOT_NODE \<lparr>include_xattrs = True, inline_xattr_size = 3, inline_xattr_total_size = 4\<rparr>
     (at_session (fst tree_moved) (the (map_of (wd_sessions (fst tree_moved)) 5)), snd tree_moved) = (Inr v, snd tree_view)"
    by (simp add: tree_view_def prod_eq_iff)
  from directory_view_bounded [OF this] v show ?thesis by simp
qed

end
