(* ===== verification/Daemon_Tasks.thy ===== *)
theory Daemon_Tasks
  imports Daemon_Properties
begin

text \<open>
  Crate \<^verbatim>\<open>servers/linux/server-daemon\<close>: many connections and many requests at once. The accept loop,
  the request tasks of a connection and the stages of a request that carries file bytes are events
  in any order; the guards, reservations and calls are those of \<open>Daemon_Service\<close>.

  \<^item> A read waits for its permits in the order of arrival, as the semaphore of the runtime documents,
    holds them while the export reads, and until its reply is written if it has data. A
    write takes its permits from both budgets or is refused, and holds them while its body
    arrives and while the export writes.
  \<^item> A request task ends at its deadline (\<open>Expire\<close>) or with its connection (\<open>Close\<close>); what it holds is
    dropped with it, except that a write handed to its own task runs on and keeps its permits.
  \<^item> The other requests take one step, the one-step model of the whole handler.
  \<^item> All connections work on one export state; \<open>Ds c\<close> is the environment of connection \<open>c\<close>, with the
    session's operations. A panic of a spawned task is not modelled.
\<close>

subsection \<open>State\<close>

datatype stage =
    Waiting u64
  | Reading u64
  | Sending u64 outcome
  | Receiving u64
  | Writing u64 bytes bool

record request_task =
  rt_connection :: nat
  rt_id :: request_id
  rt_request :: request
  rt_stage :: stage

record server_connection =
  cn_open :: bool
  cn_auth :: connection_auth
  cn_write_permits :: nat

record 'x server_run =
  sv_daemon :: "'x daemon"
  sv_connection_budget :: nat
  sv_request_permits :: nat
  sv_connection_permits :: nat
  sv_connections :: "(nat \<times> server_connection) list"
  sv_tasks :: "(nat \<times> request_task) list"
  sv_replies :: "(nat \<times> reply_stream option) list"

definition server_start :: "serve_config \<Rightarrow> 'x \<Rightarrow> auth_fs \<Rightarrow> 'x server_run" where
  "server_start c export files = \<lparr>sv_daemon = connection_start c export files,
     sv_connection_budget = sc_max_in_flight_write_bytes_per_connection c,
     sv_request_permits = sc_max_concurrent_requests c,
     sv_connection_permits = sc_max_concurrent_connections c,
     sv_connections = [], sv_tasks = [], sv_replies = []\<rparr>"

text \<open>The daemon as a request of one connection sees it: \<^verbatim>\<open>RequestContext\<close>.\<close>

definition at_connection :: "server_connection \<Rightarrow> 'x server_run \<Rightarrow> 'x daemon" where
  "at_connection cn w = (sv_daemon w)\<lparr>dm_auth := cn_auth cn, dm_connection_write_permits := cn_write_permits cn\<rparr>"

definition store_connection :: "nat \<Rightarrow> server_connection \<Rightarrow> 'x daemon \<Rightarrow> 'x server_run \<Rightarrow> 'x server_run" where
  "store_connection c cn d w = w\<lparr>sv_daemon := d, sv_connections := AList.update c
     (cn\<lparr>cn_auth := dm_auth d, cn_write_permits := dm_connection_write_permits d\<rparr>) (sv_connections w)\<rparr>"

definition reply :: "nat \<Rightarrow> reply_stream option \<Rightarrow> 'x server_run \<Rightarrow> 'x server_run" where
  "reply t r w = w\<lparr>sv_replies := sv_replies w @ [(t, r)]\<rparr>"

subsection \<open>The requests that carry file bytes\<close>

fun read_length :: "request \<Rightarrow> u64 option" where
  "read_length (ReqReadRange _ _ n) = Some n"
| "read_length (ReqGetXattr _ _ _ n) = Some n"
| "read_length _ = None"

fun body_length :: "request \<Rightarrow> u64 option" where
  "body_length (ReqWriteRange _ _ n) = Some n"
| "body_length (ReqSetXattr _ _ _ _ n) = Some n"
| "body_length _ = None"

fun data_guard :: "'x daemon_env \<Rightarrow> request \<Rightarrow> 'x daemon \<Rightarrow> response option" where
  "data_guard D (ReqReadRange _ offset n) d = read_range_guard D offset n d"
| "data_guard D (ReqGetXattr _ _ offset n) d = get_xattr_guard D offset n d"
| "data_guard D (ReqWriteRange _ offset n) d = write_range_guard D offset n d"
| "data_guard D (ReqSetXattr _ _ _ _ n) d = set_xattr_guard D n d"
| "data_guard D _ d = None"

fun read_call :: "'x daemon_env \<Rightarrow> request \<Rightarrow> 'x daemon \<Rightarrow> outcome \<times> 'x daemon" where
  "read_call D (ReqReadRange h offset n) d = read_range_call D h offset n d"
| "read_call D (ReqGetXattr node nm offset n) d = get_xattr_call D node nm offset n d"
| "read_call D _ d = (NoReply, d)"

fun write_call :: "'x daemon_env \<Rightarrow> request \<Rightarrow> bytes \<Rightarrow> 'x daemon \<Rightarrow> outcome \<times> 'x daemon" where
  "write_call D (ReqWriteRange h offset _) data d = write_range_call D h offset data d"
| "write_call D (ReqSetXattr node nm mode position _) data d = set_xattr_call D node nm mode position data d"
| "write_call D _ data d = (NoReply, d)"

text \<open>A request that runs in stages: it passes the checks of \<open>handle\<close> and carries file bytes.\<close>

definition staged :: "request envelope \<Rightarrow> 'x daemon \<Rightarrow> bool" where
  "staged req d \<longleftrightarrow> version_major (env_version req) = PROTOCOL_MAJOR \<and> ca_authenticated (dm_auth d) \<and>
     (read_length (env_message req) \<noteq> None \<or> body_length (env_message req) \<noteq> None)"

subsection \<open>Permits of a task\<close>

fun held_read :: "stage \<Rightarrow> nat" where
  "held_read (Reading n) = n"
| "held_read (Sending n _) = n"
| "held_read _ = 0"

fun held_write :: "stage \<Rightarrow> nat" where
  "held_write (Receiving n) = n"
| "held_write (Writing n _ _) = n"
| "held_write _ = 0"

text \<open>A task is attached while the request's own task runs; a write may outlive it.\<close>

fun attached :: "stage \<Rightarrow> bool" where
  "attached (Writing _ _ a) = a"
| "attached _ = True"

definition release :: "stage \<Rightarrow> 'x daemon \<Rightarrow> 'x daemon" where
  "release st d = (case st of
     Waiting _ \<Rightarrow> d
   | Reading n \<Rightarrow> drop_read n d
   | Sending n _ \<Rightarrow> drop_read n d
   | Receiving n \<Rightarrow> drop_write n d
   | Writing n _ _ \<Rightarrow> drop_write n d)"

definition start_task :: "nat \<Rightarrow> nat \<Rightarrow> request envelope \<Rightarrow> stage \<Rightarrow> 'x server_run \<Rightarrow> 'x server_run" where
  "start_task t c req st w = w\<lparr>sv_request_permits := sv_request_permits w - 1,
     sv_tasks := sv_tasks w @ [(t, \<lparr>rt_connection = c, rt_id = env_request_id req, rt_request = env_message req,
       rt_stage = st\<rparr>)]\<rparr>"

definition set_stage :: "nat \<Rightarrow> request_task \<Rightarrow> stage \<Rightarrow> 'x server_run \<Rightarrow> 'x server_run" where
  "set_stage t k st w = w\<lparr>sv_tasks := AList.update t (k\<lparr>rt_stage := st\<rparr>) (sv_tasks w)\<rparr>"

definition end_task :: "nat \<Rightarrow> request_task \<Rightarrow> server_connection \<Rightarrow> 'x daemon \<Rightarrow> 'x server_run \<Rightarrow> 'x server_run" where
  "end_task t k cn d w = (store_connection (rt_connection k) cn (release (rt_stage k) d) w)
     \<lparr>sv_tasks := AList.delete t (sv_tasks w),
      sv_request_permits := sv_request_permits w + (if attached (rt_stage k) then 1 else 0)\<rparr>"

subsection \<open>Events\<close>

definition connect :: "nat \<Rightarrow> 'x server_run \<Rightarrow> 'x server_run" where
  "connect c w = (if contains_key (sv_connections w) c then w
     else (case take_permits 1 (sv_connection_permits w) of
         None \<Rightarrow> w
       | Some free \<Rightarrow> w\<lparr>sv_connection_permits := free, sv_connections := sv_connections w @
           [(c, \<lparr>cn_open = True, cn_auth = connection_auth_default, cn_write_permits = sv_connection_budget w\<rparr>)]\<rparr>))"

text \<open>A stream for which no request permit comes free in time is dropped.\<close>

definition arrive :: "(nat \<Rightarrow> 'x daemon_env) \<Rightarrow> nat \<Rightarrow> nat \<Rightarrow> clocks \<Rightarrow> request envelope \<Rightarrow> 'x server_run \<Rightarrow> 'x server_run" where
  "arrive Ds c t ck req w = (case map_of (sv_connections w) c of
     None \<Rightarrow> w
   | Some cn \<Rightarrow>
       if \<not> cn_open cn \<or> contains_key (sv_tasks w) t \<or> sv_request_permits w = 0 then w
       else let d = at_connection cn w; D = Ds c; message = env_message req; answer = (\<lambda>r. finish D (env_request_id req) (Respond r)) in
         if \<not> staged req d
         then let (r, d1) = handle D ck req [] d in reply t r (store_connection c cn d1 w)
         else (case data_guard D message d of
             Some refusal \<Rightarrow> reply t (answer refusal) w
           | None \<Rightarrow> (case read_length message of
               Some n \<Rightarrow> start_task t c req (Waiting n) w
             | None \<Rightarrow> (case reserve_write (the (body_length message)) d of
                 (Inl busy, d1) \<Rightarrow> reply t (answer busy) (store_connection c cn d1 w)
               | (Inr _, d1) \<Rightarrow> start_task t c req (Receiving (the (body_length message))) (store_connection c cn d1 w)))))"

fun is_waiting :: "stage \<Rightarrow> bool" where
  "is_waiting (Waiting _) = True"
| "is_waiting _ = False"

definition first_waiting :: "'x server_run \<Rightarrow> (nat \<times> request_task) option" where
  "first_waiting w = List.find (\<lambda>(t, k). is_waiting (rt_stage k)) (sv_tasks w)"

definition grant :: "'x server_run \<Rightarrow> 'x server_run" where
  "grant w = (case first_waiting w of
     Some (t, k) \<Rightarrow> (case rt_stage k of
         Waiting n \<Rightarrow> (case acquire_read n (sv_daemon w) of
             None \<Rightarrow> w
           | Some d \<Rightarrow> set_stage t k (Reading n) (w\<lparr>sv_daemon := d\<rparr>))
       | _ \<Rightarrow> w)
   | None \<Rightarrow> w)"

text \<open>The task \<open>t\<close> with its connection.\<close>

definition on_task :: "nat \<Rightarrow> (request_task \<Rightarrow> server_connection \<Rightarrow> 'x daemon \<Rightarrow> 'x server_run) \<Rightarrow> 'x server_run \<Rightarrow> 'x server_run" where
  "on_task t f w = (case map_of (sv_tasks w) t of
     None \<Rightarrow> w
   | Some k \<Rightarrow> (case map_of (sv_connections w) (rt_connection k) of
       None \<Rightarrow> w
     | Some cn \<Rightarrow> f k cn (at_connection cn w)))"

text \<open>The export has answered a read. An error drops the permits before it is sent; data keeps them.\<close>

definition read_done :: "(nat \<Rightarrow> 'x daemon_env) \<Rightarrow> nat \<Rightarrow> 'x server_run \<Rightarrow> 'x server_run" where
  "read_done Ds t w = on_task t (\<lambda>k cn d. let D = Ds (rt_connection k) in case rt_stage k of
     Reading n \<Rightarrow> (case read_call D (rt_request k) d of
         (RespondData r data, d1) \<Rightarrow>
           set_stage t k (Sending n (RespondData r data)) (store_connection (rt_connection k) cn d1 w)
       | (outc, d1) \<Rightarrow> reply t (finish D (rt_id k) outc) (end_task t k cn d1 w))
   | _ \<Rightarrow> w) w"

definition send_done :: "(nat \<Rightarrow> 'x daemon_env) \<Rightarrow> nat \<Rightarrow> 'x server_run \<Rightarrow> 'x server_run" where
  "send_done Ds t w = on_task t (\<lambda>k cn d. case rt_stage k of
     Sending n outc \<Rightarrow> reply t (finish (Ds (rt_connection k)) (rt_id k) outc) (end_task t k cn d w)
   | _ \<Rightarrow> w) w"

text \<open>The body has arrived, or the stream has ended before it was complete.\<close>

definition body_done :: "nat \<Rightarrow> bytes \<Rightarrow> 'x server_run \<Rightarrow> 'x server_run" where
  "body_done t recv w = on_task t (\<lambda>k cn d. case rt_stage k of
     Receiving n \<Rightarrow>
       if length recv < n then end_task t k cn d w else set_stage t k (Writing n (take n recv) True) w
   | _ \<Rightarrow> w) w"

definition write_done :: "(nat \<Rightarrow> 'x daemon_env) \<Rightarrow> nat \<Rightarrow> 'x server_run \<Rightarrow> 'x server_run" where
  "write_done Ds t w = on_task t (\<lambda>k cn d. let D = Ds (rt_connection k) in case rt_stage k of
     Writing n data a \<Rightarrow>
       let (outc, d1) = write_call D (rt_request k) data d; w1 = end_task t k cn d1 w
       in if a then reply t (finish D (rt_id k) outc) w1 else w1
   | _ \<Rightarrow> w) w"

text \<open>The request task is dropped; a write that has its own task is only detached from it.\<close>

definition expire_task :: "nat \<Rightarrow> 'x server_run \<Rightarrow> 'x server_run" where
  "expire_task t w = on_task t (\<lambda>k cn d. case rt_stage k of
     Writing n data a \<Rightarrow> if a
       then (set_stage t k (Writing n data False) w)\<lparr>sv_request_permits := sv_request_permits w + 1\<rparr> else w
   | _ \<Rightarrow> end_task t k cn d w) w"

text \<open>\<^verbatim>\<open>abort_all\<close> and \<^verbatim>\<open>join_next\<close>, then the end of the connection's task.\<close>

definition close_connection :: "nat \<Rightarrow> 'x server_run \<Rightarrow> 'x server_run" where
  "close_connection c w = (case map_of (sv_connections w) c of
     None \<Rightarrow> w
   | Some cn \<Rightarrow> if \<not> cn_open cn then w
       else let w1 = foldl (\<lambda>w t. expire_task t w) w (map fst (filter (\<lambda>(t, k). rt_connection k = c) (sv_tasks w)))
         in w1\<lparr>sv_connection_permits := sv_connection_permits w1 + 1,
             sv_connections := map (\<lambda>(b, cn). (b, if b = c then cn\<lparr>cn_open := False\<rparr> else cn)) (sv_connections w1)\<rparr>)"

datatype event =
    Connect nat
  | Arrive nat nat clocks "request envelope"
  | Grant
  | ReadDone nat
  | SendDone nat
  | Body nat bytes
  | WriteDone nat
  | Expire nat
  | Close nat

fun run_event :: "(nat \<Rightarrow> 'x daemon_env) \<Rightarrow> 'x server_run \<Rightarrow> event \<Rightarrow> 'x server_run" where
  "run_event Ds w (Connect c) = connect c w"
| "run_event Ds w (Arrive c t ck req) = arrive Ds c t ck req w"
| "run_event Ds w Grant = grant w"
| "run_event Ds w (ReadDone t) = read_done Ds t w"
| "run_event Ds w (SendDone t) = send_done Ds t w"
| "run_event Ds w (Body t recv) = body_done t recv w"
| "run_event Ds w (WriteDone t) = write_done Ds t w"
| "run_event Ds w (Expire t) = expire_task t w"
| "run_event Ds w (Close c) = close_connection c w"

end
