(* ===== verification/Daemon_Budgets.thy ===== *)
theory Daemon_Budgets
  imports Daemon_Tasks
begin

text \<open>
  The budgets of the daemon under concurrency: in every state that any order of events reaches, the
  free permits of every semaphore and those the running tasks hold add up to the configured limit;
  what this gives for the memory in use, for waiting reads and for refused writes.
\<close>

subsection \<open>What the tasks hold\<close>

definition load :: "(request_task \<Rightarrow> nat) \<Rightarrow> 'x server_run \<Rightarrow> nat" where
  "load g w = sum_list (map (g \<circ> snd) (sv_tasks w))"

definition read_bytes :: "request_task \<Rightarrow> nat" where
  "read_bytes k = held_read (rt_stage k)"

definition write_bytes :: "request_task \<Rightarrow> nat" where
  "write_bytes k = held_write (rt_stage k)"

definition write_bytes_of :: "nat \<Rightarrow> request_task \<Rightarrow> nat" where
  "write_bytes_of c k = (if rt_connection k = c then held_write (rt_stage k) else 0)"

definition active :: "request_task \<Rightarrow> nat" where
  "active k = (if attached (rt_stage k) then 1 else 0)"

definition open_connections :: "'x server_run \<Rightarrow> nat" where
  "open_connections w = sum_list (map ((\<lambda>cn. if cn_open cn then 1 else 0) \<circ> snd) (sv_connections w))"

text \<open>The memory of a request body: its buffer is allocated before the body arrives.\<close>

fun body_bytes :: "stage \<Rightarrow> nat" where
  "body_bytes (Receiving n) = n"
| "body_bytes (Writing _ data _) = length data"
| "body_bytes _ = 0"

subsection \<open>Sums over association lists\<close>

text \<open>An entry replaced, or removed when there is no new value.\<close>

definition put :: "'k \<Rightarrow> 'v option \<Rightarrow> ('k \<times> 'v) list \<Rightarrow> ('k \<times> 'v) list" where
  "put t v m = (case v of None \<Rightarrow> AList.delete t m | Some x \<Rightarrow> AList.update t x m)"

lemma map_of_put [simp]: "map_of (put t v m) = (map_of m)(t := v)"
  by (auto simp: put_def fun_eq_iff split: option.split)

lemma distinct_keys_put [simp]: "distinct_keys m \<Longrightarrow> distinct_keys (put t v m)"
  by (auto simp: put_def split: option.split)

lemma delete_fresh: "t \<notin> fst ` set m \<Longrightarrow> AList.delete t m = m"
  by (induction m) auto

lemma sum_put:
  fixes g :: "'v \<Rightarrow> nat"
  assumes "distinct_keys m" "map_of m t = Some k"
  shows "sum_list (map (g \<circ> snd) (put t v m)) + g k = sum_list (map (g \<circ> snd) m) + (case v of None \<Rightarrow> 0 | Some x \<Rightarrow> g x)"
  using assms
proof (induction m)
  case (Cons a m)
  then show ?case
    by (cases "fst a = t") (auto simp: put_def delete_fresh split: option.splits)
qed simp

lemma update_same: "map_of m c = Some v \<Longrightarrow> AList.update c v m = m"
  by (induction m) auto

lemma sum_update_same:
  fixes g :: "'v \<Rightarrow> nat"
  assumes "distinct_keys m" "map_of m c = Some v" "g v' = g v"
  shows "sum_list (map (g \<circ> snd) (AList.update c v' m)) = sum_list (map (g \<circ> snd) m)"
  using sum_put [OF assms(1,2), of g "Some v'"] assms(3) by (simp add: put_def)

lemma sum_member:
  fixes g :: "'v \<Rightarrow> nat"
  shows "map_of m t = Some k \<Longrightarrow> g k \<le> sum_list (map (g \<circ> snd) m)"
  by (induction m) (auto split: if_splits)

subsection \<open>The invariant\<close>

fun stage_ok :: "serve_config \<Rightarrow> stage \<Rightarrow> bool" where
  "stage_ok C (Waiting n) = (n \<le> sc_max_read_size C)"
| "stage_ok C (Writing n data _) = (length data = n)"
| "stage_ok C _ = True"

text \<open>Every task belongs to a connection; the tasks that outlive their connection are detached.\<close>

definition tasks_ok :: "serve_config \<Rightarrow> 'x server_run \<Rightarrow> bool" where
  "tasks_ok C w \<longleftrightarrow> distinct_keys (sv_tasks w) \<and> distinct_keys (sv_connections w) \<and>
     sv_connection_budget w = sc_max_in_flight_write_bytes_per_connection C \<and>
     (\<forall>t k. map_of (sv_tasks w) t = Some k \<longrightarrow> stage_ok C (rt_stage k) \<and>
        (\<exists>cn. map_of (sv_connections w) (rt_connection k) = Some cn \<and> (cn_open cn \<or> \<not> attached (rt_stage k))))"

definition balanced :: "serve_config \<Rightarrow> 'x server_run \<Rightarrow> bool" where
  "balanced C w \<longleftrightarrow>
     dm_read_permits (sv_daemon w) + load read_bytes w = sc_max_in_flight_read_bytes C \<and>
     dm_write_permits (sv_daemon w) + load write_bytes w = sc_max_in_flight_write_bytes C \<and>
     (\<forall>c cn. map_of (sv_connections w) c = Some cn \<longrightarrow>
        cn_write_permits cn + load (write_bytes_of c) w = sc_max_in_flight_write_bytes_per_connection C) \<and>
     sv_request_permits w + load active w = sc_max_concurrent_requests C \<and>
     sv_connection_permits w + open_connections w = sc_max_concurrent_connections C"

definition run_inv :: "serve_config \<Rightarrow> 'x server_run \<Rightarrow> bool" where
  "run_inv C w \<longleftrightarrow> tasks_ok C w \<and> balanced C w"

lemma run_inv_start: "run_inv C (server_start C export files)"
  by (simp add: run_inv_def tasks_ok_def balanced_def server_start_def connection_start_def load_def open_connections_def)

text \<open>What a task holds after a change of its stage; nothing when it has ended.\<close>

abbreviation holds :: "(stage \<Rightarrow> nat) \<Rightarrow> stage option \<Rightarrow> nat" where
  "holds f new \<equiv> (case new of None \<Rightarrow> 0 | Some st \<Rightarrow> f st)"

text \<open>The balance of one step: what the task and its connection hold more, the semaphores have less.\<close>

definition exchanged :: "stage option \<Rightarrow> stage option \<Rightarrow> server_connection \<Rightarrow> server_connection \<Rightarrow> 'x server_run \<Rightarrow> 'x server_run \<Rightarrow> bool" where
  "exchanged old new cn cn' w w' \<longleftrightarrow>
     dm_read_permits (sv_daemon w') + holds held_read new = dm_read_permits (sv_daemon w) + holds held_read old \<and>
     dm_write_permits (sv_daemon w') + holds held_write new = dm_write_permits (sv_daemon w) + holds held_write old \<and>
     cn_write_permits cn' + holds held_write new = cn_write_permits cn + holds held_write old \<and>
     sv_request_permits w' + holds (\<lambda>st. if attached st then 1 else 0) new =
       sv_request_permits w + holds (\<lambda>st. if attached st then 1 else 0) old \<and>
     cn_open cn' = cn_open cn \<and> sv_connection_permits w' = sv_connection_permits w \<and>
     sv_connection_budget w' = sv_connection_budget w"

text \<open>The permits of all semaphores but the connections', from the sums over the tasks.\<close>

lemma balanced_exchange:
  assumes inv: "run_inv C w" and cn: "map_of (sv_connections w) c = Some cn"
    and ex: "exchanged old new cn cn' w w'"
    and conns: "sv_connections w' = AList.update c cn' (sv_connections w)"
    and sums: "\<And>f h. load (\<lambda>k. if h (rt_connection k) then f (rt_stage k) else 0) w' + (if h c then holds f old else 0) =
      load (\<lambda>k. if h (rt_connection k) then f (rt_stage k) else 0) w + (if h c then holds f new else 0)"
  shows "balanced C w'"
proof -
  have all: "load read_bytes w' + holds held_read old = load read_bytes w + holds held_read new"
    "load write_bytes w' + holds held_write old = load write_bytes w + holds held_write new"
    "load active w' + holds (\<lambda>st. if attached st then 1 else 0) old = load active w + holds (\<lambda>st. if attached st then 1 else 0) new"
    using sums [of "\<lambda>_. True" held_read] sums [of "\<lambda>_. True" held_write] sums [of "\<lambda>_. True" "\<lambda>st. if attached st then 1 else 0"]
    by (simp_all add: read_bytes_def [abs_def] write_bytes_def [abs_def] active_def [abs_def])
  have own: "load (write_bytes_of b) w' + (if b = c then holds held_write old else 0) =
      load (write_bytes_of b) w + (if b = c then holds held_write new else 0)" for b
    using sums [of "\<lambda>x. x = b" held_write] by (auto simp: write_bytes_of_def [abs_def])
  have bal: "balanced C w" and dk: "distinct_keys (sv_connections w)" using inv by (simp_all add: run_inv_def tasks_ok_def)
  have per: "cn_write_permits x + load (write_bytes_of b) w = sc_max_in_flight_write_bytes_per_connection C"
    if "map_of (sv_connections w) b = Some x" for b x
    using bal that by (simp add: balanced_def)
  have "cn_write_permits x + load (write_bytes_of b) w' = sc_max_in_flight_write_bytes_per_connection C"
    if x: "map_of (sv_connections w') b = Some x" for b x
  proof (cases "b = c")
    case True
    then show ?thesis using x per [OF cn] own [of c] ex by (simp add: conns exchanged_def)
  next
    case False
    then show ?thesis using x per [of b x] own [of b] by (simp add: conns)
  qed
  moreover have "open_connections w' = open_connections w"
    using sum_update_same [OF dk cn, of "\<lambda>cn. if cn_open cn then 1 else 0" cn'] ex
    by (simp add: open_connections_def conns exchanged_def)
  ultimately show ?thesis using bal ex all by (simp add: balanced_def exchanged_def)
qed

lemma load_put:
  assumes "distinct_keys (sv_tasks w)" "map_of (sv_tasks w) t = Some k" "sv_tasks w' = put t v (sv_tasks w)"
  shows "load g w' + g k = load g w + (case v of None \<Rightarrow> 0 | Some x \<Rightarrow> g x)"
  using sum_put [OF assms(1,2), of g v] by (simp add: load_def assms(3))

text \<open>A task that changes its stage or ends.\<close>

lemma run_inv_task:
  assumes inv: "run_inv C w" and k: "map_of (sv_tasks w) t = Some k" and cn: "map_of (sv_connections w) (rt_connection k) = Some cn"
    and ex: "exchanged (Some (rt_stage k)) new cn cn' w w'"
    and conns: "sv_connections w' = AList.update (rt_connection k) cn' (sv_connections w)"
    and tasks: "sv_tasks w' = put t (map_option (\<lambda>st. k\<lparr>rt_stage := st\<rparr>) new) (sv_tasks w)"
    and ok: "\<And>st. new = Some st \<Longrightarrow> stage_ok C st \<and> (attached st \<longrightarrow> attached (rt_stage k))"
  shows "run_inv C w'"
  unfolding run_inv_def
proof
  have tok: "tasks_ok C w" using inv by (simp add: run_inv_def)
  then have dk: "distinct_keys (sv_tasks w)" by (simp add: tasks_ok_def)
  have "load (\<lambda>k. if h (rt_connection k) then f (rt_stage k) else 0) w' +
        (if h (rt_connection k) then holds f (Some (rt_stage k)) else 0) =
      load (\<lambda>k. if h (rt_connection k) then f (rt_stage k) else 0) w + (if h (rt_connection k) then holds f new else 0)" for f h
    using load_put [OF dk k tasks, of "\<lambda>k. if h (rt_connection k) then f (rt_stage k) else 0"] by (cases new) auto
  then show "balanced C w'" by (rule balanced_exchange [OF inv cn ex conns])
  have same: "cn_open cn' = cn_open cn" "sv_connection_budget w' = sv_connection_budget w" using ex by (simp_all add: exchanged_def)
  have task: "stage_ok C (rt_stage x) \<and> (\<exists>y. map_of (sv_connections w') (rt_connection x) = Some y \<and> (cn_open y \<or> \<not> attached (rt_stage x)))"
    if x: "map_of (sv_tasks w') b = Some x" for b x
  proof (cases "b = t")
    case True
    with x tasks obtain st where st: "new = Some st" "x = k\<lparr>rt_stage := st\<rparr>" by (auto split: if_splits)
    have "cn_open cn \<or> \<not> attached (rt_stage k)" using tok k cn unfolding tasks_ok_def by fastforce
    then show ?thesis using ok [OF st(1)] st(2) same by (auto simp: conns)
  next
    case False
    then have "map_of (sv_tasks w) b = Some x" using x tasks by simp
    then show ?thesis using tok cn same by (fastforce simp: tasks_ok_def conns)
  qed
  show "tasks_ok C w'" using tok task same by (simp add: tasks_ok_def conns tasks)
qed

text \<open>A new task.\<close>

lemma run_inv_new:
  assumes inv: "run_inv C w" and cn: "map_of (sv_connections w) c = Some cn" and fresh: "\<not> contains_key (sv_tasks w) t"
    and ex: "exchanged None (Some st) cn cn' w w'"
    and conns: "sv_connections w' = AList.update c cn' (sv_connections w)"
    and tasks: "sv_tasks w' = sv_tasks w @ [(t, k)]" and k: "rt_connection k = c" "rt_stage k = st"
    and ok: "cn_open cn" "stage_ok C st"
  shows "run_inv C w'"
  unfolding run_inv_def
proof
  have tok: "tasks_ok C w" using inv by (simp add: run_inv_def)
  show "balanced C w'"
    by (rule balanced_exchange [OF inv cn ex conns]) (simp add: load_def tasks k)
  have same: "cn_open cn' = cn_open cn" "sv_connection_budget w' = sv_connection_budget w" using ex by (simp_all add: exchanged_def)
  have task: "stage_ok C (rt_stage x) \<and> (\<exists>y. map_of (sv_connections w') (rt_connection x) = Some y \<and> (cn_open y \<or> \<not> attached (rt_stage x)))"
    if x: "map_of (sv_tasks w') b = Some x" for b x
  proof (cases "map_of (sv_tasks w) b")
    case None
    then show ?thesis using x k ok same by (auto simp: tasks map_add_def conns split: if_splits)
  next
    case (Some y)
    then show ?thesis using x tok cn same by (fastforce simp: tasks_ok_def conns tasks map_add_def split: option.splits)
  qed
  show "tasks_ok C w'"
    using tok task same fresh by (simp add: tasks_ok_def conns tasks contains_key_iff)
qed

text \<open>A step that leaves the tasks alone.\<close>

lemma run_inv_idle:
  assumes inv: "run_inv C w" and cn: "map_of (sv_connections w) c = Some cn"
    and ex: "exchanged None None cn cn' w w'"
    and conns: "sv_connections w' = AList.update c cn' (sv_connections w)" and tasks: "sv_tasks w' = sv_tasks w"
  shows "run_inv C w'"
  unfolding run_inv_def
proof
  show "balanced C w'"
    by (rule balanced_exchange [OF inv cn ex conns]) (simp add: load_def tasks)
  show "tasks_ok C w'"
    using inv ex cn by (fastforce simp: run_inv_def tasks_ok_def conns tasks exchanged_def)
qed

subsection \<open>Every event keeps the invariant\<close>

lemma run_inv_reply [simp]: "run_inv C (reply t r w) = run_inv C w"
  by (simp add: run_inv_def tasks_ok_def balanced_def reply_def load_def open_connections_def)

text \<open>An operation that leaves every semaphore as it found it.\<close>

definition same_permits :: "'x daemon \<Rightarrow> 'x daemon \<Rightarrow> bool" where
  "same_permits d d1 \<longleftrightarrow> dm_read_permits d1 = dm_read_permits d \<and> dm_write_permits d1 = dm_write_permits d \<and>
     dm_connection_write_permits d1 = dm_connection_write_permits d"

lemma same_permits_refl [simp]: "same_permits d d"
  by (simp add: same_permits_def)

lemma calls_same_permits:
  "same_permits d (snd (read_call D m d))" "same_permits d (snd (write_call D m data d))"
  by (cases m; auto simp: same_permits_def read_range_call_def get_xattr_call_def write_range_call_def set_xattr_call_def
      split: prod.splits sum.splits)+

lemma handle_same_permits: "same_permits d (snd (handle D ck req recv d))"
  using free_permits_handle [of D ck req recv d] by (simp add: free_permits_def same_permits_def)

lemma run_inv_end:
  assumes "run_inv C w" "map_of (sv_tasks w) t = Some k" "map_of (sv_connections w) (rt_connection k) = Some cn"
    and "same_permits (at_connection cn w) d"
  shows "run_inv C (end_task t k cn d w)"
  by (rule run_inv_task [OF assms(1-3), where new = None])
    (use assms(4) in \<open>auto simp: exchanged_def end_task_def store_connection_def at_connection_def same_permits_def release_def
       drop_read_def drop_write_def put_def split: stage.splits\<close>)

lemma run_inv_stage:
  assumes "run_inv C w" "map_of (sv_tasks w) t = Some k" "map_of (sv_connections w) (rt_connection k) = Some cn"
    and "same_permits (at_connection cn w) d" "held_read st = held_read (rt_stage k)" "held_write st = held_write (rt_stage k)"
    and "attached st = attached (rt_stage k)" "stage_ok C st"
  shows "run_inv C (set_stage t k st (store_connection (rt_connection k) cn d w))"
  by (rule run_inv_task [OF assms(1-3), where new = "Some st"])
    (use assms(4-8) in \<open>auto simp: exchanged_def set_stage_def store_connection_def at_connection_def same_permits_def put_def\<close>)

text \<open>The common form of the events of a task.\<close>

lemma run_inv_on_task:
  assumes "run_inv C w"
    and "\<And>k cn. map_of (sv_tasks w) t = Some k \<Longrightarrow> map_of (sv_connections w) (rt_connection k) = Some cn \<Longrightarrow> run_inv C (f k cn (at_connection cn w))"
  shows "run_inv C (on_task t f w)"
  using assms by (simp add: on_task_def split: option.split)

lemma run_inv_read_done:
  assumes inv: "run_inv C w"
  shows "run_inv C (read_done Ds t w)"
  unfolding read_done_def
proof (rule run_inv_on_task [OF inv])
  fix k cn assume k: "map_of (sv_tasks w) t = Some k" and cn: "map_of (sv_connections w) (rt_connection k) = Some cn"
  let ?D = "Ds (rt_connection k)" and ?d = "at_connection cn w"
  obtain outc d1 where call: "read_call ?D (rt_request k) ?d = (outc, d1)" by fastforce
  have same: "same_permits ?d d1" using calls_same_permits(1) [where d = ?d and D = ?D and m = "rt_request k"] call by simp
  have sent: "run_inv C (set_stage t k (Sending n o') (store_connection (rt_connection k) cn d1 w))" if "rt_stage k = Reading n" for n o'
    by (rule run_inv_stage [OF inv k cn same]) (simp_all add: that)
  show "run_inv C (let D = ?D in case rt_stage k of
     Reading n \<Rightarrow> (case read_call D (rt_request k) ?d of
         (RespondData r data, d1) \<Rightarrow>
           set_stage t k (Sending n (RespondData r data)) (store_connection (rt_connection k) cn d1 w)
       | (outc, d1) \<Rightarrow> reply t (finish D (rt_id k) outc) (end_task t k cn d1 w))
   | _ \<Rightarrow> w)"
    using sent run_inv_end [OF inv k cn same] inv by (auto simp: Let_def call split: stage.split outcome.split)
qed

lemma run_inv_send_done: "run_inv C w \<Longrightarrow> run_inv C (send_done Ds t w)"
  unfolding send_done_def
  by (rule run_inv_on_task, assumption) (auto intro: run_inv_end split: stage.split)

lemma store_same:
  assumes "map_of (sv_connections w) c = Some cn"
  shows "sv_connections w = AList.update c cn (sv_connections w)"
  using update_same [OF assms] by simp

lemma run_inv_body_done:
  assumes inv: "run_inv C w"
  shows "run_inv C (body_done t recv w)"
  unfolding body_done_def
proof (rule run_inv_on_task [OF inv])
  fix k cn assume k: "map_of (sv_tasks w) t = Some k" and cn: "map_of (sv_connections w) (rt_connection k) = Some cn"
  have "run_inv C (set_stage t k (Writing n (take n recv) True) w)" if "rt_stage k = Receiving n" "\<not> length recv < n" for n
    by (rule run_inv_task [OF inv k cn, where new = "Some (Writing n (take n recv) True)" and cn' = cn])
      (use that store_same [OF cn] in \<open>auto simp: exchanged_def set_stage_def put_def\<close>)
  then show "run_inv C (case rt_stage k of
     Receiving n \<Rightarrow> if length recv < n then end_task t k cn (at_connection cn w) w else set_stage t k (Writing n (take n recv) True) w
   | _ \<Rightarrow> w)"
    using inv run_inv_end [OF inv k cn] by (simp split: stage.split)
qed

lemma run_inv_write_done:
  assumes inv: "run_inv C w"
  shows "run_inv C (write_done Ds t w)"
  unfolding write_done_def
proof (rule run_inv_on_task [OF inv])
  fix k cn assume k: "map_of (sv_tasks w) t = Some k" and cn: "map_of (sv_connections w) (rt_connection k) = Some cn"
  have "run_inv C (end_task t k cn (snd (write_call (Ds (rt_connection k)) (rt_request k) data (at_connection cn w))) w)" for data
    by (rule run_inv_end [OF inv k cn calls_same_permits(2)])
  then show "run_inv C (let D = Ds (rt_connection k) in case rt_stage k of
     Writing n data a \<Rightarrow>
       let (outc, d1) = write_call D (rt_request k) data (at_connection cn w); w1 = end_task t k cn d1 w
       in if a then reply t (finish D (rt_id k) outc) w1 else w1
   | _ \<Rightarrow> w)"
    using inv by (simp add: split_beta Let_def split: stage.split)
qed

lemma run_inv_expire:
  assumes inv: "run_inv C w"
  shows "run_inv C (expire_task t w)"
  unfolding expire_task_def
proof (rule run_inv_on_task [OF inv])
  fix k cn assume k: "map_of (sv_tasks w) t = Some k" and cn: "map_of (sv_connections w) (rt_connection k) = Some cn"
  have "stage_ok C (rt_stage k)" using inv k by (simp add: run_inv_def tasks_ok_def)
  then have "run_inv C ((set_stage t k (Writing n data False) w)\<lparr>sv_request_permits := sv_request_permits w + 1\<rparr>)"
    if "rt_stage k = Writing n data True" for n data
    by (intro run_inv_task [OF inv k cn, where new = "Some (Writing n data False)" and cn' = cn])
      (use that store_same [OF cn] in \<open>auto simp: exchanged_def set_stage_def put_def\<close>)
  then show "run_inv C (case rt_stage k of
     Writing n data a \<Rightarrow> if a
       then (set_stage t k (Writing n data False) w)\<lparr>sv_request_permits := sv_request_permits w + 1\<rparr> else w
   | _ \<Rightarrow> end_task t k cn (at_connection cn w) w)"
    using inv run_inv_end [OF inv k cn] by (simp split: stage.split)
qed

lemma first_waiting_Some:
  assumes "run_inv C w" "first_waiting w = Some (t, k)"
  obtains n cn where "map_of (sv_tasks w) t = Some k" "rt_stage k = Waiting n" "n \<le> sc_max_read_size C"
    "map_of (sv_connections w) (rt_connection k) = Some cn" "cn_open cn"
proof -
  have "(t, k) \<in> set (sv_tasks w)" and wait: "is_waiting (rt_stage k)"
    using assms(2) nth_mem by (fastforce simp: first_waiting_def find_Some_iff)+
  then have k: "map_of (sv_tasks w) t = Some k" using assms(1) by (simp add: run_inv_def tasks_ok_def)
  obtain n where n: "rt_stage k = Waiting n" using wait by (cases "rt_stage k") auto
  have "stage_ok C (rt_stage k) \<and> (\<exists>cn. map_of (sv_connections w) (rt_connection k) = Some cn \<and> (cn_open cn \<or> \<not> attached (rt_stage k)))"
    using assms(1) k unfolding run_inv_def tasks_ok_def by blast
  with that [OF k n] n show thesis by auto
qed

lemma grant_first:
  assumes "first_waiting w = Some (t, k)" "rt_stage k = Waiting n" "n \<le> dm_read_permits (sv_daemon w)"
  shows "grant w = set_stage t k (Reading n) (w\<lparr>sv_daemon := (sv_daemon w)\<lparr>dm_read_permits := dm_read_permits (sv_daemon w) - n\<rparr>\<rparr>)"
  using assms by (simp add: grant_def acquire_read_def take_permits_def)

lemma run_inv_grant:
  assumes inv: "run_inv C w"
  shows "run_inv C (grant w)"
proof (cases "first_waiting w")
  case (Some a)
  then obtain t k where tk: "first_waiting w = Some (t, k)" by (cases a) auto
  obtain n cn where n: "map_of (sv_tasks w) t = Some k" "rt_stage k = Waiting n"
      and cn: "map_of (sv_connections w) (rt_connection k) = Some cn"
    using first_waiting_Some [OF inv tk] by metis
  show ?thesis
  proof (cases "n \<le> dm_read_permits (sv_daemon w)")
    case True
    show ?thesis
      unfolding grant_first [OF tk n(2) True]
      by (rule run_inv_task [OF inv n(1) cn, where new = "Some (Reading n)" and cn' = cn])
        (use True n(2) store_same [OF cn] in \<open>auto simp: exchanged_def set_stage_def put_def\<close>)
  next
    case False
    then show ?thesis using inv tk n(2) by (simp add: grant_def acquire_read_def take_permits_def)
  qed
qed (use inv in \<open>simp add: grant_def\<close>)

lemma run_inv_connect:
  assumes inv: "run_inv C w"
  shows "run_inv C (connect c w)"
proof (cases "contains_key (sv_connections w) c \<or> sv_connection_permits w = 0")
  case True
  then show ?thesis using inv by (auto simp: connect_def take_permits_def)
next
  case False
  let ?cn = "\<lparr>cn_open = True, cn_auth = connection_auth_default, cn_write_permits = sv_connection_budget w\<rparr>"
  let ?w = "w\<lparr>sv_connection_permits := sv_connection_permits w - 1, sv_connections := sv_connections w @ [(c, ?cn)]\<rparr>"
  have w: "connect c w = ?w" using False by (simp add: connect_def take_permits_def)
  have tok: "tasks_ok C w" and bal: "balanced C w" using inv by (simp_all add: run_inv_def)
  have none: "map_of (sv_connections w) c = None" using False by (simp add: contains_key_def)
  have conns: "map_of (sv_connections ?w) b = (if b = c then Some ?cn else map_of (sv_connections w) b)" for b
    using none by (auto simp: map_add_def split: option.split)
  have idle: "rt_connection k \<noteq> c" if "(t, k) \<in> set (sv_tasks w)" for t k
    using tok none that by (fastforce simp: tasks_ok_def)
  then have "load (write_bytes_of c) w = 0"
    by (fastforce simp: load_def write_bytes_of_def sum_list_eq_0_iff)
  then have "cn_write_permits x + load (write_bytes_of b) w = sc_max_in_flight_write_bytes_per_connection C"
    if "map_of (sv_connections ?w) b = Some x" for b x
    using that bal tok unfolding conns balanced_def tasks_ok_def by (auto split: if_splits)
  moreover have "open_connections ?w = open_connections w + 1" by (simp add: open_connections_def)
  moreover have "load g ?w = load g w" for g by (simp add: load_def)
  ultimately have "balanced C ?w" using bal False unfolding balanced_def by simp
  moreover have "\<exists>x. map_of (sv_connections ?w) (rt_connection k) = Some x \<and> (cn_open x \<or> \<not> attached (rt_stage k))"
    if "map_of (sv_tasks w) t = Some k" for t k
    using tok idle [OF map_of_SomeD [OF that]] that unfolding conns tasks_ok_def by (simp only: if_False)
  then have "tasks_ok C ?w"
    using tok False unfolding tasks_ok_def by (simp add: contains_key_iff)
  ultimately show ?thesis by (simp add: w run_inv_def)
qed

text \<open>The export announces the configured sizes.\<close>

definition announces :: "serve_config \<Rightarrow> (nat \<Rightarrow> 'x daemon_env) \<Rightarrow> bool" where
  "announces C Ds \<longleftrightarrow> (\<forall>c x. cap_max_read_size (ex_capabilities (de_export (Ds c)) x) = sc_max_read_size C \<and>
     cap_max_write_size (ex_capabilities (de_export (Ds c)) x) = sc_max_write_size C)"

lemma data_guard_bound:
  assumes "announces C Ds" "data_guard (Ds c) m d = None"
  shows "read_length m = Some n \<Longrightarrow> n \<le> sc_max_read_size C" "body_length m = Some n \<Longrightarrow> n \<le> sc_max_write_size C"
  using assms by (cases m; auto simp: announces_def read_range_guard_def get_xattr_guard_def write_range_guard_def set_xattr_guard_def Let_def
      split: if_splits)+

text \<open>A reservation is complete or takes nothing.\<close>

lemma reserve_write_result:
  assumes "reserve_write n d = (r, d1)"
  shows "dm_auth d1 = dm_auth d" "dm_read_permits d1 = dm_read_permits d"
    and "r = Inr () \<Longrightarrow> dm_write_permits d1 + n = dm_write_permits d \<and> dm_connection_write_permits d1 + n = dm_connection_write_permits d"
    and "r = Inl b \<Longrightarrow> same_permits d d1"
  using assms by (auto simp: reserve_write_def take_permits_def same_permits_def error_reply_def Let_def split: if_splits)

lemma run_inv_arrive:
  assumes inv: "run_inv C w" and ann: "announces C Ds"
  shows "run_inv C (arrive Ds c t ck req w)"
proof (cases "map_of (sv_connections w) c")
  case (Some cn)
  let ?d = "at_connection cn w" and ?m = "env_message req"
  have idle: "run_inv C (store_connection c cn d w)" if "same_permits ?d d" for d
    by (rule run_inv_idle [OF inv Some])
      (use that in \<open>auto simp: exchanged_def store_connection_def at_connection_def same_permits_def\<close>)
  have one: "run_inv C (store_connection c cn (snd (handle (Ds c) ck req [] ?d)) w)" by (rule idle [OF handle_same_permits])
  show ?thesis
  proof (cases "\<not> cn_open cn \<or> contains_key (sv_tasks w) t \<or> sv_request_permits w = 0")
    case True
    then show ?thesis using inv Some by (simp add: arrive_def)
  next
    case ready: False
    then have ready: "cn_open cn" "\<not> contains_key (sv_tasks w) t" "sv_request_permits w > 0" by auto
    have waits: "run_inv C (start_task t c req (Waiting n) w)" if "data_guard (Ds c) ?m ?d = None" "read_length ?m = Some n" for n
      by (rule run_inv_new [OF inv Some ready(2), where st = "Waiting n" and cn' = cn])
        (use ready store_same [OF Some] data_guard_bound(1) [OF ann that] in \<open>auto simp: exchanged_def start_task_def\<close>)
    obtain r d1 where rs: "reserve_write (the (body_length ?m)) ?d = (r, d1)" by fastforce
    note res = reserve_write_result [OF rs]
    have takes: "run_inv C (start_task t c req (Receiving (the (body_length ?m))) (store_connection c cn d1 w))" if "r = Inr ()"
      by (rule run_inv_new [OF inv Some ready(2), where st = "Receiving (the (body_length ?m))"])
        (use ready res(1,2) res(3) [OF that] in \<open>auto simp: exchanged_def start_task_def store_connection_def at_connection_def\<close>)
    have busy: "run_inv C (store_connection c cn d1 w)" if "r = Inl b" for b
      using idle res(4) [OF that] by blast
    show ?thesis
      using ready Some one waits takes busy inv rs
      by (auto simp: arrive_def Let_def split_beta split: option.split sum.split)
  qed
qed (use inv in \<open>simp add: arrive_def\<close>)

text \<open>What closing a connection leaves of its tasks.\<close>

lemma expire_result:
  assumes inv: "run_inv C w"
  shows "map_of (sv_tasks (expire_task t w)) b = Some k \<Longrightarrow>
      \<exists>k0. map_of (sv_tasks w) b = Some k0 \<and> rt_connection k0 = rt_connection k \<and>
        (if b = t then \<not> attached (rt_stage k) else k = k0)"
    and "map_of (sv_connections (expire_task t w)) c = Some cn \<Longrightarrow>
      \<exists>cn0. map_of (sv_connections w) c = Some cn0 \<and> cn_open cn0 = cn_open cn"
    and "contains_key (sv_connections (expire_task t w)) c = contains_key (sv_connections w) c"
proof -
  have conn: "map_of (sv_connections w) (rt_connection k) \<noteq> None" if "map_of (sv_tasks w) t = Some k" for k
    using inv that unfolding run_inv_def tasks_ok_def by blast
  show "map_of (sv_tasks (expire_task t w)) b = Some k \<Longrightarrow>
      \<exists>k0. map_of (sv_tasks w) b = Some k0 \<and> rt_connection k0 = rt_connection k \<and>
        (if b = t then \<not> attached (rt_stage k) else k = k0)"
    using conn
    by (cases "b = t") (auto simp: expire_task_def on_task_def end_task_def set_stage_def store_connection_def
        split: option.splits stage.splits if_splits)
  show "map_of (sv_connections (expire_task t w)) c = Some cn \<Longrightarrow>
      \<exists>cn0. map_of (sv_connections w) c = Some cn0 \<and> cn_open cn0 = cn_open cn"
    by (auto simp: expire_task_def on_task_def end_task_def set_stage_def store_connection_def split: option.splits stage.splits if_splits)
  show "contains_key (sv_connections (expire_task t w)) c = contains_key (sv_connections w) c"
    by (auto simp: contains_key_def expire_task_def on_task_def end_task_def set_stage_def store_connection_def
        split: option.splits stage.splits if_splits)
qed

lemma expire_all:
  fixes w :: "'x server_run"
  assumes "run_inv C w"
  defines "w1 \<equiv> \<lambda>ts. foldl (\<lambda>w t. expire_task t w) w ts"
  shows "run_inv C (w1 ts)"
    and "map_of (sv_tasks (w1 ts)) b = Some k \<Longrightarrow>
      \<exists>k0. map_of (sv_tasks w) b = Some k0 \<and> rt_connection k0 = rt_connection k \<and> (b \<in> set ts \<longrightarrow> \<not> attached (rt_stage k))"
    and "map_of (sv_connections (w1 ts)) c = Some cn \<Longrightarrow> \<exists>cn0. map_of (sv_connections w) c = Some cn0 \<and> cn_open cn0 = cn_open cn"
    and "contains_key (sv_connections (w1 ts)) c = contains_key (sv_connections w) c"
proof -
  have all: "run_inv C (w1 ts) \<and>
    (\<forall>b k. map_of (sv_tasks (w1 ts)) b = Some k \<longrightarrow>
      (\<exists>k0. map_of (sv_tasks w) b = Some k0 \<and> rt_connection k0 = rt_connection k \<and> (b \<in> set ts \<longrightarrow> \<not> attached (rt_stage k)))) \<and>
    (\<forall>c cn. map_of (sv_connections (w1 ts)) c = Some cn \<longrightarrow> (\<exists>cn0. map_of (sv_connections w) c = Some cn0 \<and> cn_open cn0 = cn_open cn)) \<and>
    (\<forall>c. contains_key (sv_connections (w1 ts)) c = contains_key (sv_connections w) c)" for ts
  proof (induction ts rule: rev_induct)
    case (snoc t ts)
    have w1: "w1 (ts @ [t]) = expire_task t (w1 ts)" by (simp add: w1_def)
    have inv: "run_inv C (w1 ts)" using snoc by blast
    note ex = expire_result [OF inv, of t, folded w1]
    have "run_inv C (w1 (ts @ [t]))" unfolding w1 by (rule run_inv_expire [OF inv])
    moreover have "\<exists>k0. map_of (sv_tasks w) b = Some k0 \<and> rt_connection k0 = rt_connection k \<and>
        (b \<in> set (ts @ [t]) \<longrightarrow> \<not> attached (rt_stage k))" if k: "map_of (sv_tasks (w1 (ts @ [t]))) b = Some k" for b k
    proof -
      obtain k1 where k1: "map_of (sv_tasks (w1 ts)) b = Some k1" "rt_connection k1 = rt_connection k"
          "if b = t then \<not> attached (rt_stage k) else k = k1"
        using ex(1) [OF k] by blast
      with snoc show ?thesis by (cases "b = t") fastforce+
    qed
    moreover have "\<exists>cn0. map_of (sv_connections w) c = Some cn0 \<and> cn_open cn0 = cn_open cn"
      if "map_of (sv_connections (w1 (ts @ [t]))) c = Some cn" for c cn
      using ex(2) [OF that] snoc by metis
    moreover have "contains_key (sv_connections (w1 (ts @ [t]))) c = contains_key (sv_connections w) c" for c
      using ex(3) snoc by metis
    ultimately show ?case by blast
  qed (use assms(1) in \<open>auto simp: w1_def\<close>)
  show "run_inv C (w1 ts)" using all by blast
  show "map_of (sv_tasks (w1 ts)) b = Some k \<Longrightarrow>
      \<exists>k0. map_of (sv_tasks w) b = Some k0 \<and> rt_connection k0 = rt_connection k \<and> (b \<in> set ts \<longrightarrow> \<not> attached (rt_stage k))"
    using all by blast
  show "map_of (sv_connections (w1 ts)) c = Some cn \<Longrightarrow> \<exists>cn0. map_of (sv_connections w) c = Some cn0 \<and> cn_open cn0 = cn_open cn"
    using all by blast
  show "contains_key (sv_connections (w1 ts)) c = contains_key (sv_connections w) c" using all by blast
qed

lemma map_is_update:
  "distinct_keys m \<Longrightarrow> map_of m c = Some v \<Longrightarrow> map (\<lambda>(b, x). (b, if b = c then f x else x)) m = AList.update c (f v) m"
proof (induction m)
  case (Cons a m)
  have "map (\<lambda>(b, x). (b, if b = c then f x else x)) m = m" if "c \<notin> fst ` set m"
    using that by (induction m) auto
  with Cons show ?case by (cases a) auto
qed simp

lemma run_inv_close:
  assumes inv: "run_inv C w"
  shows "run_inv C (close_connection c w)"
proof (cases "map_of (sv_connections w) c")
  case (Some cn)
  show ?thesis
  proof (cases "cn_open cn")
    case True
    let ?ts = "map fst (filter (\<lambda>(t, k). rt_connection k = c) (sv_tasks w))"
    let ?w1 = "foldl (\<lambda>w t. expire_task t w) w ?ts"
    note ex = expire_all [OF inv, of ?ts]
    obtain cn1 where cn1: "map_of (sv_connections ?w1) c = Some cn1"
      using ex(4) [of c] Some unfolding contains_key_def by auto
    have op: "cn_open cn1" using ex(3) [OF cn1] Some True by auto
    have gone: "\<not> attached (rt_stage k)" if k: "map_of (sv_tasks ?w1) b = Some k" "rt_connection k = c" for b k
    proof -
      obtain k0 where k0: "map_of (sv_tasks w) b = Some k0" "rt_connection k0 = rt_connection k" "b \<in> set ?ts \<longrightarrow> \<not> attached (rt_stage k)"
        using ex(2) [OF k(1)] by blast
      have "b \<in> set ?ts" using map_of_SomeD [OF k0(1)] k0(2) k(2) by force
      with k0(3) show ?thesis by blast
    qed
    have tok: "tasks_ok C ?w1" and bal: "balanced C ?w1" using ex(1) by (simp_all add: run_inv_def)
    then have dk: "distinct_keys (sv_connections ?w1)" by (simp add: tasks_ok_def)
    let ?w2 = "?w1\<lparr>sv_connection_permits := sv_connection_permits ?w1 + 1,
        sv_connections := AList.update c (cn1\<lparr>cn_open := False\<rparr>) (sv_connections ?w1)\<rparr>"
    have w2: "close_connection c w = ?w2"
      using Some True map_is_update [OF dk cn1, of "\<lambda>cn. cn\<lparr>cn_open := False\<rparr>"] by (simp add: close_connection_def Let_def)
    have "open_connections ?w2 + 1 = open_connections ?w1"
      using sum_put [OF dk cn1, of "\<lambda>cn. if cn_open cn then 1 else 0" "Some (cn1\<lparr>cn_open := False\<rparr>)"] op
      by (simp add: open_connections_def put_def)
    then have "balanced C ?w2" using bal cn1 by (auto simp: balanced_def load_def)
    moreover have "tasks_ok C ?w2"
      using tok gone unfolding tasks_ok_def by fastforce
    ultimately show ?thesis unfolding w2 by (simp add: run_inv_def)
  qed (use inv Some in \<open>simp add: close_connection_def\<close>)
qed (use inv in \<open>simp add: close_connection_def\<close>)

lemma run_inv_event: "run_inv C w \<Longrightarrow> announces C Ds \<Longrightarrow> run_inv C (run_event Ds w e)"
  by (cases e) (simp_all add: run_inv_connect run_inv_arrive run_inv_grant run_inv_read_done run_inv_send_done run_inv_body_done
      run_inv_write_done run_inv_expire run_inv_close)

lemma run_inv_events: "run_inv C w \<Longrightarrow> announces C Ds \<Longrightarrow> run_inv C (foldl (run_event Ds) w es)"
  by (induction es arbitrary: w) (simp_all add: run_inv_event)

subsection \<open>Waiting and refusal\<close>

text \<open>The first waiting read is granted exactly when what the others hold leaves room for it.\<close>

lemma grant_iff:
  assumes inv: "run_inv C w" and first: "first_waiting w = Some (t, k)" "rt_stage k = Waiting n"
  shows "map_of (sv_tasks (grant w)) t = Some (k\<lparr>rt_stage := Reading n\<rparr>) \<longleftrightarrow> load read_bytes w + n \<le> sc_max_in_flight_read_bytes C"
proof -
  have k: "map_of (sv_tasks w) t = Some k" using first_waiting_Some [OF inv first(1)] by metis
  have free: "dm_read_permits (sv_daemon w) + load read_bytes w = sc_max_in_flight_read_bytes C"
    using inv by (simp add: run_inv_def balanced_def)
  show ?thesis
  proof (cases "n \<le> dm_read_permits (sv_daemon w)")
    case True
    then show ?thesis using free by (simp add: grant_first [OF first True] set_stage_def)
  next
    case False
    then have "grant w = w" using first by (simp add: grant_def acquire_read_def take_permits_def)
    moreover have "k \<noteq> k\<lparr>rt_stage := Reading n\<rparr>" using first(2) by (metis request_task.select_convs(4) request_task.surjective request_task.update_convs(4) stage.distinct(1))
    ultimately show ?thesis using False free k by simp
  qed
qed

text \<open>A write within the announced size is taken exactly when both budgets have room for it beside
  what the others hold, and is answered \<^verbatim>\<open>Busy\<close> otherwise.\<close>

definition admitted :: "serve_config \<Rightarrow> nat \<Rightarrow> u64 \<Rightarrow> 'x server_run \<Rightarrow> bool" where
  "admitted C c n w \<longleftrightarrow> load write_bytes w + n \<le> sc_max_in_flight_write_bytes C \<and>
     load (write_bytes_of c) w + n \<le> sc_max_in_flight_write_bytes_per_connection C"

lemma arrive_write:
  fixes ck :: clocks
  assumes inv: "run_inv C w" and cn: "map_of (sv_connections w) c = Some cn" "cn_open cn"
    and ready: "\<not> contains_key (sv_tasks w) t" "0 < sv_request_permits w"
    and req: "staged req (at_connection cn w)" "data_guard (Ds c) (env_message req) (at_connection cn w) = None"
      "body_length (env_message req) = Some n"
  defines "w' \<equiv> arrive Ds c t ck req w"
  shows "admitted C c n w \<Longrightarrow> sv_replies w' = sv_replies w \<and> map_of (sv_tasks w') t =
      Some \<lparr>rt_connection = c, rt_id = env_request_id req, rt_request = env_message req, rt_stage = Receiving n\<rparr>"
    and "\<not> admitted C c n w \<Longrightarrow> sv_tasks w' = sv_tasks w \<and>
      (\<exists>message. sv_replies w' = sv_replies w @ [(t, finish (Ds c) (env_request_id req) (Respond (error_reply Busy message)))])"
proof -
  have rl: "read_length (env_message req) = None" using req(3) by (cases "env_message req") auto
  have free: "dm_write_permits (sv_daemon w) + load write_bytes w = sc_max_in_flight_write_bytes C"
    "cn_write_permits cn + load (write_bytes_of c) w = sc_max_in_flight_write_bytes_per_connection C"
    using inv cn(1) by (auto simp: run_inv_def balanced_def)
  have none: "map_of (sv_tasks w) t = None" using ready(1) by (simp add: contains_key_def)
  have w': "w' = (case reserve_write n (at_connection cn w) of
      (Inl busy, d1) \<Rightarrow> reply t (finish (Ds c) (env_request_id req) (Respond busy)) (store_connection c cn d1 w)
    | (Inr _, d1) \<Rightarrow> start_task t c req (Receiving n) (store_connection c cn d1 w))"
    using cn ready req rl by (simp add: w'_def arrive_def Let_def split: prod.split sum.split)
  show "admitted C c n w \<Longrightarrow> sv_replies w' = sv_replies w \<and> map_of (sv_tasks w') t =
      Some \<lparr>rt_connection = c, rt_id = env_request_id req, rt_request = env_message req, rt_stage = Receiving n\<rparr>"
    using free none
    by (simp add: admitted_def w' reserve_write_def take_permits_def at_connection_def Let_def start_task_def store_connection_def map_add_def)
  show "\<not> admitted C c n w \<Longrightarrow> sv_tasks w' = sv_tasks w \<and>
      (\<exists>message. sv_replies w' = sv_replies w @ [(t, finish (Ds c) (env_request_id req) (Respond (error_reply Busy message)))])"
    using free
    by (auto simp: admitted_def w' reserve_write_def take_permits_def at_connection_def Let_def reply_def store_connection_def)
qed

lemma bodies_bounded:
  assumes "run_inv C w"
  shows "load (body_bytes \<circ> rt_stage) w \<le> sc_max_in_flight_write_bytes C"
proof -
  have "(body_bytes \<circ> rt_stage) k \<le> write_bytes k" if "(t, k) \<in> set (sv_tasks w)" for t k
  proof -
    have "map_of (sv_tasks w) t = Some k" using assms that by (simp add: run_inv_def tasks_ok_def)
    then have "stage_ok C (rt_stage k)" using assms unfolding run_inv_def tasks_ok_def by blast
    then show ?thesis by (cases "rt_stage k") (auto simp: write_bytes_def)
  qed
  then have "load (body_bytes \<circ> rt_stage) w \<le> load write_bytes w"
    unfolding load_def by (intro sum_list_mono) auto
  also have "\<dots> \<le> sc_max_in_flight_write_bytes C" using assms by (simp add: run_inv_def balanced_def)
  finally show ?thesis .
qed

subsection \<open>A request alone\<close>

text \<open>Run without others in between, the stages of a request are the one-step handler.\<close>

lemma at_store [simp]:
  "at_connection (cn\<lparr>cn_auth := dm_auth d, cn_write_permits := dm_connection_write_permits d\<rparr>) (store_connection c cn d w) = d"
  by (simp add: at_connection_def store_connection_def)

lemma map_of_store [simp]:
  "map_of (sv_connections (store_connection c cn d w)) c = Some (cn\<lparr>cn_auth := dm_auth d, cn_write_permits := dm_connection_write_permits d\<rparr>)"
  by (simp add: store_connection_def)

lemma update_update: "AList.update c v (AList.update c u m) = AList.update c v m"
  by (induction m) auto

lemma find_append_None: "List.find P xs = None \<Longrightarrow> List.find P (xs @ ys) = List.find P ys"
  by (induction xs) (auto split: if_splits)

lemma update_append_fresh: "t \<notin> fst ` set m \<Longrightarrow> AList.update t v (m @ [(t, u)]) = m @ [(t, v)]"
  by (induction m) auto

lemma delete_append_fresh: "t \<notin> fst ` set m \<Longrightarrow> AList.delete t (m @ [(t, u)]) = m"
  by (induction m) auto

lemma map_of_append_fresh: "t \<notin> fst ` set m \<Longrightarrow> map_of (m @ [(t, u)]) t = Some u"
  by (induction m) auto

lemmas fresh_task = find_append_None update_append_fresh delete_append_fresh map_of_append_fresh

lemma handle_staged_read:
  assumes "staged req d" "data_guard D (env_message req) d = None" "read_length (env_message req) = Some n" "n \<le> dm_read_permits d"
  shows "handle D ck req recv d = (let (outc, d1) = read_call D (env_message req) (d\<lparr>dm_read_permits := dm_read_permits d - n\<rparr>)
    in (finish D (env_request_id req) outc, drop_read n d1))"
  using assms
  by (cases "env_message req") (auto simp: handle_def staged_def Let_def handle_read_range_def handle_get_xattr_def reserve_read_def
      acquire_read_def take_permits_def split_beta)

lemma handle_staged_write:
  assumes "staged req d" "data_guard D (env_message req) d = None" "body_length (env_message req) = Some n" "n \<le> length recv"
    and "reserve_write n d = (Inr (), d0)"
  shows "handle D ck req recv d = (let (outc, d1) = write_call D (env_message req) (take n recv) d0
    in (finish D (env_request_id req) outc, drop_write n d1))"
  using assms
  by (cases "env_message req") (auto simp: handle_def staged_def Let_def handle_write_range_def handle_set_xattr_def receive_body_def
      split_beta)

lemma read_alone:
  assumes cn: "map_of (sv_connections w) c = Some cn" "cn_open cn" and ready: "\<not> contains_key (sv_tasks w) t" "0 < sv_request_permits w"
    and req: "staged req (at_connection cn w)" "data_guard (Ds c) (env_message req) (at_connection cn w) = None"
      "read_length (env_message req) = Some n"
    and free: "first_waiting w = None" "n \<le> dm_read_permits (sv_daemon w)"
  shows "foldl (run_event Ds) w [Arrive c t ck req, Grant, ReadDone t, SendDone t] =
    (let (r, d) = handle (Ds c) ck req recv (at_connection cn w) in reply t r (store_connection c cn d w))"
proof -
  let ?d = "at_connection cn w"
  obtain outc d1 where call: "read_call (Ds c) (env_message req) (?d\<lparr>dm_read_permits := dm_read_permits ?d - n\<rparr>) = (outc, d1)"
    by fastforce
  have fresh: "t \<notin> fst ` set (sv_tasks w)" using ready(1) by (simp add: contains_key_iff)
  let ?k = "\<lambda>st. \<lparr>rt_connection = c, rt_id = env_request_id req, rt_request = env_message req, rt_stage = st\<rparr>"
  have w1: "run_event Ds w (Arrive c t ck req) = start_task t c req (Waiting n) w"
    using cn ready req by (simp add: arrive_def Let_def)
  have first: "first_waiting (start_task t c req (Waiting n) w) = Some (t, ?k (Waiting n))"
    using free(1) by (simp add: first_waiting_def start_task_def fresh_task)
  let ?w2 = "w\<lparr>sv_daemon := (sv_daemon w)\<lparr>dm_read_permits := dm_read_permits (sv_daemon w) - n\<rparr>,
      sv_request_permits := sv_request_permits w - 1, sv_tasks := sv_tasks w @ [(t, ?k (Reading n))]\<rparr>"
  have w2: "run_event Ds (start_task t c req (Waiting n) w) Grant = ?w2"
    using grant_first [OF first, of n] free(2) fresh by (simp add: set_stage_def start_task_def fresh_task)
  have d2: "at_connection cn ?w2 = ?d\<lparr>dm_read_permits := dm_read_permits ?d - n\<rparr>" by (simp add: at_connection_def)
  have rd: "run_event Ds ?w2 (ReadDone t) = (case outc of
      RespondData r data \<Rightarrow> set_stage t (?k (Reading n)) (Sending n outc) (store_connection c cn d1 ?w2)
    | _ \<Rightarrow> reply t (finish (Ds c) (env_request_id req) outc) (end_task t (?k (Reading n)) cn d1 ?w2))"
    using fresh cn d2 call by (simp add: read_done_def on_task_def fresh_task Let_def del: map_of_append split: outcome.split)
  let ?done = "reply t (finish (Ds c) (env_request_id req) outc) (store_connection c cn (drop_read n d1) w)"
  have gone: "reply t r (end_task t (?k (Reading n)) cn d1 ?w2) = reply t r (store_connection c cn (drop_read n d1) w)" for r
    using fresh ready(2) by (simp add: reply_def end_task_def store_connection_def release_def fresh_task)
  have idle: "run_event Ds (reply t r (store_connection c cn d w)) (SendDone t) = reply t r (store_connection c cn d w)" for r d
    using ready(1) by (simp add: send_done_def on_task_def reply_def store_connection_def contains_key_def)
  have sent: "run_event Ds (set_stage t (?k (Reading n)) (Sending n outc) (store_connection c cn d1 ?w2)) (SendDone t) = ?done"
    using fresh ready(2)
    by (simp add: send_done_def on_task_def set_stage_def store_connection_def fresh_task reply_def end_task_def release_def
        at_connection_def drop_read_def update_update del: map_of_append)
  have "run_event Ds (run_event Ds ?w2 (ReadDone t)) (SendDone t) = ?done"
    unfolding rd gone using sent idle by (cases outc) (simp_all del: run_event.simps)
  then show ?thesis
    unfolding foldl.simps w1 w2 using handle_staged_read [OF req, of ck recv] free(2) call by (simp add: at_connection_def)
qed

lemma write_alone:
  assumes cn: "map_of (sv_connections w) c = Some cn" "cn_open cn" and ready: "\<not> contains_key (sv_tasks w) t" "0 < sv_request_permits w"
    and req: "staged req (at_connection cn w)" "data_guard (Ds c) (env_message req) (at_connection cn w) = None"
      "body_length (env_message req) = Some n"
    and free: "reserve_write n (at_connection cn w) = (Inr (), d0)" "n \<le> length recv"
  shows "foldl (run_event Ds) w [Arrive c t ck req, Body t recv, WriteDone t] =
    (let (r, d) = handle (Ds c) ck req recv (at_connection cn w) in reply t r (store_connection c cn d w))"
proof -
  obtain outc d1 where call: "write_call (Ds c) (env_message req) (take n recv) d0 = (outc, d1)" by fastforce
  have fresh: "t \<notin> fst ` set (sv_tasks w)" using ready(1) by (simp add: contains_key_iff)
  have rl: "read_length (env_message req) = None" using req(3) by (cases "env_message req") auto
  let ?k = "\<lambda>st. \<lparr>rt_connection = c, rt_id = env_request_id req, rt_request = env_message req, rt_stage = st\<rparr>"
  let ?w1 = "\<lambda>st. (store_connection c cn d0 w)\<lparr>sv_request_permits := sv_request_permits w - 1, sv_tasks := sv_tasks w @ [(t, ?k st)]\<rparr>"
  have w1: "run_event Ds w (Arrive c t ck req) = ?w1 (Receiving n)"
    using cn ready req rl free(1) by (simp add: arrive_def Let_def start_task_def store_connection_def)
  have w2: "run_event Ds (?w1 (Receiving n)) (Body t recv) = ?w1 (Writing n (take n recv) True)"
    using fresh free(2) by (simp add: body_done_def on_task_def set_stage_def store_connection_def fresh_task del: map_of_append)
  have at: "at_connection (cn\<lparr>cn_auth := dm_auth d0, cn_write_permits := dm_connection_write_permits d0\<rparr>) (?w1 st) = d0" for st
    by (simp add: at_connection_def store_connection_def)
  have "run_event Ds (?w1 (Writing n (take n recv) True)) (WriteDone t) =
      reply t (finish (Ds c) (env_request_id req) outc) (store_connection c cn (drop_write n d1) w)"
    using fresh ready(2) call at
    by (simp add: write_done_def on_task_def fresh_task end_task_def release_def Let_def del: map_of_append, simp add: store_connection_def reply_def
        fresh_task drop_write_def update_update)
  then show ?thesis
    unfolding foldl.simps w1 w2 using handle_staged_write [OF req free(2,1), of ck] call by simp
qed

subsection \<open>The property\<close>

text \<open>C37. Budgets are conserved under concurrency: whatever connections come and go, requests arrive, wait, are served,
  are cut short or run out of time, in any order, the free permits of each semaphore of the daemon
  (read bytes, write bytes, write bytes of each connection, requests, connections) and the permits the
  running tasks hold add up to the configured limit, so none is ever lost or made up; the buffers of
  request bodies, those of writes that outlive their request included, never exceed the
  configured bytes. With a validated configuration no request of an announced size is out of reach: the
  first waiting read fits the read budget, and is granted exactly when it fits beside what the others
  hold; a write is taken exactly when it fits beside what the others hold, and answered
  \<^verbatim>\<open>Busy\<close> otherwise; with nothing held both always fit.\<close>
theorem budgets_conserved:
  assumes "validate_configuration C = Inr ()" and "announces C Ds"
    and "w = foldl (run_event Ds) (server_start C export files) es"
  shows "balanced C w \<and> load (body_bytes \<circ> rt_stage) w \<le> sc_max_in_flight_write_bytes C \<and>
    (\<forall>t k n. first_waiting w = Some (t, k) \<and> rt_stage k = Waiting n \<longrightarrow> n \<le> sc_max_in_flight_read_bytes C \<and>
       (map_of (sv_tasks (run_event Ds w Grant)) t = Some (k\<lparr>rt_stage := Reading n\<rparr>) \<longleftrightarrow>
          load read_bytes w + n \<le> sc_max_in_flight_read_bytes C)) \<and>
    (\<forall>c cn t ck req n. map_of (sv_connections w) c = Some cn \<and> cn_open cn \<and> \<not> contains_key (sv_tasks w) t \<and>
       0 < sv_request_permits w \<and> staged req (at_connection cn w) \<and>
       data_guard (Ds c) (env_message req) (at_connection cn w) = None \<and> body_length (env_message req) = Some n \<longrightarrow>
       (let w' = run_event Ds w (Arrive c t ck req) in
        (load write_bytes w = 0 \<longrightarrow> admitted C c n w) \<and>
        (if admitted C c n w
         then sv_replies w' = sv_replies w \<and> map_of (sv_tasks w') t =
           Some \<lparr>rt_connection = c, rt_id = env_request_id req, rt_request = env_message req, rt_stage = Receiving n\<rparr>
         else sv_tasks w' = sv_tasks w \<and> (\<exists>message. sv_replies w' = sv_replies w @
           [(t, finish (Ds c) (env_request_id req) (Respond (error_reply Busy message)))]))))"
proof -
  have inv: "run_inv C w" unfolding assms(3) by (rule run_inv_events [OF run_inv_start assms(2)])
  have reads: "n \<le> sc_max_in_flight_read_bytes C" if "first_waiting w = Some (t, k)" "rt_stage k = Waiting n" for t k n
    using first_waiting_Some [OF inv that(1)] that(2) validated_limits(2) [OF assms(1)] by (metis le_trans stage.inject(1))
  have fits: "admitted C c n w" if "load write_bytes w = 0" "data_guard (Ds c) (env_message req) d = None"
    "body_length (env_message req) = Some n" for c n req d
  proof -
    have "write_bytes_of c k \<le> write_bytes k" for k by (simp add: write_bytes_of_def write_bytes_def)
    then have "load (write_bytes_of c) w \<le> load write_bytes w" unfolding load_def by (intro sum_list_mono) simp
    then show ?thesis
      using that(1) data_guard_bound(2) [OF assms(2) that(2,3)] validated_limits(4,5) [OF assms(1)] by (simp add: admitted_def)
  qed
  have writes: "(load write_bytes w = 0 \<longrightarrow> admitted C c n w) \<and>
      (if admitted C c n w
       then sv_replies (arrive Ds c t ck req w) = sv_replies w \<and> map_of (sv_tasks (arrive Ds c t ck req w)) t =
         Some \<lparr>rt_connection = c, rt_id = env_request_id req, rt_request = env_message req, rt_stage = Receiving n\<rparr>
       else sv_tasks (arrive Ds c t ck req w) = sv_tasks w \<and> (\<exists>message. sv_replies (arrive Ds c t ck req w) = sv_replies w @
         [(t, finish (Ds c) (env_request_id req) (Respond (error_reply Busy message)))]))"
    if "map_of (sv_connections w) c = Some cn" "cn_open cn" "\<not> contains_key (sv_tasks w) t" "0 < sv_request_permits w"
      "staged req (at_connection cn w)" "data_guard (Ds c) (env_message req) (at_connection cn w) = None"
      "body_length (env_message req) = Some n" for c cn t ck req n
    using arrive_write [where Ds = Ds, OF inv that] fits [OF _ that(6,7)] by simp
  show ?thesis
    unfolding Let_def run_event.simps
  proof (intro conjI allI impI)
    show "balanced C w" using inv by (simp add: run_inv_def)
    show "load (body_bytes \<circ> rt_stage) w \<le> sc_max_in_flight_write_bytes C" by (rule bodies_bounded [OF inv])
  qed (use reads grant_iff [OF inv] writes in \<open>elim conjE; blast\<close>)+
qed

text \<open>One connection logs in and starts two writes of the largest size, which fill its budget.\<close>

definition demo_write_request :: "request envelope" where
  "demo_write_request = demo_request 9 (ReqWriteRange 50 0 1024)"

definition demo_events :: "event list" where
  "demo_events = [Connect 3, Arrive 3 10 demo_clock demo_login_request, Arrive 3 11 demo_clock demo_write_request,
     Arrive 3 12 demo_clock demo_write_request]"

definition demo_busy_run :: "demo_export_state server_run" where
  "demo_busy_run = foldl (run_event (\<lambda>_. demo_daemon_env)) (server_start demo_config (False, 0) (demo_state [demo_record])) demo_events"

lemma demo_login_run:
  "run_event (\<lambda>_. demo_daemon_env) (run_event (\<lambda>_. demo_daemon_env)
     (server_start demo_config (False, 0) (demo_state [demo_record])) (Connect 3)) (Arrive 3 10 demo_clock demo_login_request) =
   \<lparr>sv_daemon = demo_logged_in, sv_connection_budget = 2048, sv_request_permits = 4, sv_connection_permits = 3,
    sv_connections = [(3, \<lparr>cn_open = True, cn_auth = dm_auth demo_logged_in, cn_write_permits = 2048\<rparr>)], sv_tasks = [],
    sv_replies = [(10, finish demo_daemon_env 9 (Respond RAuthenticateAck))]\<rparr>"
proof -
  let ?cn = "\<lparr>cn_open = True, cn_auth = connection_auth_default, cn_write_permits = 2048\<rparr>"
  let ?w = "\<lparr>sv_daemon = demo_daemon, sv_connection_budget = 2048, sv_request_permits = 4, sv_connection_permits = 3,
    sv_connections = [(3, ?cn)], sv_tasks = [], sv_replies = []\<rparr>"
  have w: "run_event (\<lambda>_. demo_daemon_env) (server_start demo_config (False, 0) (demo_state [demo_record])) (Connect 3) = ?w"
    by (simp add: connect_def server_start_def take_permits_def demo_daemon_def demo_config_def contains_key_def)
  have d: "at_connection ?cn ?w = demo_daemon"
    by (simp add: at_connection_def demo_daemon_def connection_start_def demo_config_def)
  have "\<not> staged demo_login_request demo_daemon"
    by (simp add: staged_def demo_login_request_def demo_request_def envelope_new_def)
  moreover have "dm_connection_write_permits demo_logged_in = 2048"
    by (simp add: demo_logged_in_def demo_daemon_def connection_start_def demo_config_def)
  ultimately show ?thesis
    unfolding w by (simp add: arrive_def d demo_authenticate reply_def store_connection_def contains_key_def)
qed

lemma demo_write_guard:
  assumes "dm_export d = (True, 0)"
  shows "data_guard demo_daemon_env (env_message demo_write_request) d = None"
  using assms
  by (simp add: demo_write_request_def demo_request_def envelope_new_def write_range_guard_def demo_daemon_env_def demo_export_def
      demo_caps_def checked_add_def U64_MAX_def U32_MAX_def)

lemma demo_busy: "\<not> contains_key (sv_tasks demo_busy_run) 13" "sv_request_permits demo_busy_run = 2"
  "load write_bytes demo_busy_run = 2048" "load (write_bytes_of 3) demo_busy_run = 2048"
  "map_of (sv_connections demo_busy_run) 3 = Some \<lparr>cn_open = True, cn_auth = dm_auth demo_logged_in, cn_write_permits = 0\<rparr>"
  "dm_export (sv_daemon demo_busy_run) = (True, 0)"
proof -
  let ?D = "\<lambda>_::nat. demo_daemon_env" and ?cn = "\<lambda>n. \<lparr>cn_open = True, cn_auth = dm_auth demo_logged_in, cn_write_permits = n\<rparr>"
  have auth: "dm_auth demo_logged_in = \<lparr>ca_authenticated = True, ca_failed_attempts = 0\<rparr>" "dm_export demo_logged_in = (True, 0)"
    "dm_write_permits demo_logged_in = 4096"
    by (simp_all add: demo_logged_in_def demo_daemon_def connection_start_def demo_config_def)
  have st: "staged demo_write_request d" if "ca_authenticated (dm_auth d)" for d :: "demo_export_state daemon"
    using that by (simp add: staged_def demo_write_request_def demo_request_def envelope_new_def)
  have req: "read_length (env_message demo_write_request) = None" "body_length (env_message demo_write_request) = Some 1024"
    by (simp_all add: demo_write_request_def demo_request_def envelope_new_def)
  have took: "run_event ?D w (Arrive 3 t demo_clock demo_write_request) =
      start_task t 3 demo_write_request (Receiving 1024) (w\<lparr>sv_daemon := (sv_daemon w)\<lparr>dm_auth := cn_auth (?cn n),
         dm_write_permits := dm_write_permits (sv_daemon w) - 1024, dm_connection_write_permits := n - 1024\<rparr>,
        sv_connections := [(3, ?cn (n - 1024))]\<rparr>)"
    if "sv_connections w = [(3, ?cn n)]" "1024 \<le> n" "1024 \<le> dm_write_permits (sv_daemon w)" "0 < sv_request_permits w"
      "\<not> contains_key (sv_tasks w) t" "dm_export (sv_daemon w) = (True, 0)" for w t n
  proof -
    have "data_guard demo_daemon_env (env_message demo_write_request) (at_connection (?cn n) w) = None"
      by (rule demo_write_guard) (simp add: at_connection_def that)
    moreover have "staged demo_write_request (at_connection (?cn n) w)"
      by (rule st) (simp add: at_connection_def auth)
    ultimately show ?thesis
      using that by (simp add: arrive_def req reserve_write_def take_permits_def at_connection_def store_connection_def Let_def)
  qed
  have run: "demo_busy_run = run_event ?D (run_event ?D \<lparr>sv_daemon = demo_logged_in, sv_connection_budget = 2048,
      sv_request_permits = 4, sv_connection_permits = 3, sv_connections = [(3, ?cn 2048)], sv_tasks = [],
      sv_replies = [(10, finish demo_daemon_env 9 (Respond RAuthenticateAck))]\<rparr>
      (Arrive 3 11 demo_clock demo_write_request)) (Arrive 3 12 demo_clock demo_write_request)"
    unfolding demo_busy_run_def demo_events_def foldl.simps demo_login_run ..
  note steps = took [where n = 2048] took [where n = 1024] run auth(2,3) start_task_def load_def write_bytes_def write_bytes_of_def contains_key_def
  show "\<not> contains_key (sv_tasks demo_busy_run) 13" "sv_request_permits demo_busy_run = 2"
    "load write_bytes demo_busy_run = 2048" "load (write_bytes_of 3) demo_busy_run = 2048"
    "map_of (sv_connections demo_busy_run) 3 = Some (?cn 0)" "dm_export (sv_daemon demo_busy_run) = (True, 0)"
    by (simp_all add: steps del: run_event.simps)
qed

theorem budgets_conserved_witness:
  "dm_write_permits (sv_daemon demo_busy_run) + 2048 = 4096 \<and>
   (\<exists>message. sv_replies (run_event (\<lambda>_. demo_daemon_env) demo_busy_run (Arrive 3 13 demo_clock demo_write_request)) =
      sv_replies demo_busy_run @ [(13, finish demo_daemon_env 9 (Respond (error_reply Busy message)))])"
proof -
  have ok: "validate_configuration demo_config = Inr ()"
    by (simp add: validate_configuration_def demo_config_def ensure_def MAX_PERMITS_def U32_MAX_def)
  have ann: "announces demo_config (\<lambda>_. demo_daemon_env)"
    by (simp add: announces_def demo_config_def demo_daemon_env_def demo_export_def demo_caps_def)
  let ?cn = "\<lparr>cn_open = True, cn_auth = dm_auth demo_logged_in, cn_write_permits = 0\<rparr>"
  have at: "dm_export (at_connection ?cn demo_busy_run) = (True, 0)" by (simp add: at_connection_def demo_busy)
  have st: "staged demo_write_request (at_connection ?cn demo_busy_run)"
    by (simp add: staged_def at_connection_def demo_write_request_def demo_request_def envelope_new_def demo_logged_in_def)
  have rid: "env_request_id demo_write_request = 9" "body_length (env_message demo_write_request) = Some 1024"
    by (simp_all add: demo_write_request_def demo_request_def envelope_new_def)
  have full: "\<not> admitted demo_config 3 1024 demo_busy_run" by (simp add: admitted_def demo_busy demo_config_def)
  note bc = budgets_conserved [OF ok ann demo_busy_run_def]
  from bc have "dm_write_permits (sv_daemon demo_busy_run) + 2048 = 4096"
    unfolding balanced_def demo_busy(3) by (simp add: demo_config_def)
  moreover from bc [THEN conjunct2, THEN conjunct2, THEN conjunct2, rule_format, of 3 ?cn 13 demo_write_request 1024 demo_clock]
  have "\<exists>message. sv_replies (run_event (\<lambda>_. demo_daemon_env) demo_busy_run (Arrive 3 13 demo_clock demo_write_request)) =
      sv_replies demo_busy_run @ [(13, finish demo_daemon_env 9 (Respond (error_reply Busy message)))]"
    using demo_busy st demo_write_guard [OF at] full rid by (simp add: Let_def)
  ultimately show ?thesis ..
qed

end
