(* ===== verification/Spec2Isabelle.thy ===== *)
theory Spec2Isabelle
  imports Server_Properties Cache_Properties Client_Properties Pairing_Properties Prefetch_Properties Cached_Properties
    Cached_Budget Adapter_Properties Trust_Properties Server_Data_Properties Server_Namespace_Properties
    Daemon_Budgets
begin

text \<open>
  quicKFS is a network file system: a Linux daemon exports a directory over QUIC, a macOS client
  mounts it. This development models the Rust code of both sides and proves what makes it
  correct. Every definition that models code keeps the name of its function where it can; a
  prefix tells apart functions of the same name (\<open>res_\<close> of \<^verbatim>\<open>ResilientFilesystem\<close>, \<open>net_\<close> of
  \<^verbatim>\<open>NetworkFilesystem\<close>, \<open>cfs_\<close> of \<^verbatim>\<open>CachedFilesystem\<close>, \<open>fuse_\<close> of the macFUSE adapter, \<open>mem_\<close> and \<open>hot_\<close> of the
  two volatile caches).

  \<^bold>\<open>The program.\<close> A callback of the kernel reaches the macFUSE \<^verbatim>\<open>Adapter\<close> (inode and
  handle tables, write buffers), passes through \<^verbatim>\<open>CachedFilesystem\<close> (caches, read-ahead),
  \<^verbatim>\<open>ResilientFilesystem\<close> (reconnects, handles that survive a reconnect) and \<^verbatim>\<open>NetworkFilesystem\<close> (one
  QUIC stream per request), is framed by the protocol crate, and reaches the daemon, which
  checks login and limits and calls the \<^verbatim>\<open>ExportSession\<close> of the connection. The sessions of one
  export share a registry of nodes, a table of advisory locks and the semaphores that bound
  them. The authentication crate keeps the server's identity, users and pairings in a private
  directory.

  \<^bold>\<open>Theories, by part.\<close>
  \<^item> \<open>Prelude\<close>, \<open>Triples\<close>: machine integers as naturals with their bounds written out, results as
    sums, operations on a state that may fail (\<open>op\<close>, \<open>mbind\<close>), invariants (\<open>preserves\<close>) and triples of
    such operations.
  \<^item> \<open>Common_Model\<close>: \<^verbatim>\<open>crates/common\<close>. \<open>Protocol_Types\<close>, \<open>Protocol_Frames\<close>: \<^verbatim>\<open>crates/protocol\<close> and the
    framing of \<^verbatim>\<open>crates/transport-quic\<close>: messages, version words, frame headers, compression.
  \<^item> \<open>Server_Types\<close>, \<open>Server_Locks\<close>, \<open>Server_Registry\<close>, \<open>Server_Sessions\<close>: \<^verbatim>\<open>crates/server-core\<close>: errors,
    validators, the lock table, the registry with its permits, and steps of many sessions on
    one export. \<open>Server_Registry_Props\<close> and \<open>Server_References\<close> hold the invariants,
    \<open>Server_Properties\<close> the properties.
  \<^item> \<open>Byte_Ranges\<close>, \<open>Server_Data\<close>: the data path of \<^verbatim>\<open>crates/server-core\<close> over the system calls of the host:
    metadata and revisions, reading, writing, copying, exchanging, extended attributes and resource
    forks. \<open>Server_Data_Props\<close> has its triples, \<open>Server_Data_Properties\<close> the properties.
  \<^item> \<open>Server_Paths\<close>, \<open>Server_Names\<close>, \<open>Server_Views\<close>, \<open>Server_Attributes\<close>: the operations of \<^verbatim>\<open>ExportSession\<close> on
    names: walking paths and finding nodes; opening, creating, linking, removing and renaming; listings and
    directory views; attributes by node. \<open>Server_Tree\<close> states what is assumed of the host and \<open>Server_Walks\<close> follows
    paths through it; \<open>Registry_Paths\<close>, \<open>Server_Tracking\<close>, \<open>Server_Handlers\<close>, \<open>Server_Changes\<close> and \<open>Server_Listings\<close> show
    that each operation keeps the registry in step with the tree, \<open>Server_Namespace\<close> takes this to many sessions,
    \<open>Server_Openings\<close> is about results, \<open>Server_Namespace_Properties\<close> has the properties and a host with a tree.
  \<^item> \<open>Cache_Ranges\<close>, \<open>Cache_Memory\<close>, \<open>Cache_Persistent\<close>: \<^verbatim>\<open>crates/cache\<close>: assembly of ranges,
    \<^verbatim>\<open>MemoryCache\<close>, \<^verbatim>\<open>HotRangeCache\<close>, \<^verbatim>\<open>PersistentCache\<close> with its files and manifest;
    \<open>Cache_Persistent_Props\<close> and \<open>Cache_Properties\<close>.
  \<^item> \<open>Client_Resilient\<close>: \<^verbatim>\<open>crates/client-core/src/resilient.rs\<close>; \<open>Client_Recovery\<close> follows what each
    operation sends, \<open>Client_Properties\<close> states the properties.
  \<^item> \<open>Client_Network\<close>: \<^verbatim>\<open>NetworkFilesystem\<close> and pairing of \<^verbatim>\<open>crates/client-core/src/lib.rs\<close>.
  \<^item> \<open>Client_Prefetch\<close>, \<open>Client_Cached\<close>: \<^verbatim>\<open>crates/client-core/src/cached.rs\<close>: the read-ahead controller, and
    \<^verbatim>\<open>CachedFilesystem\<close> with its handles, permits and tasks over any file system and cache.
    \<open>Client_Prefetch_Props\<close> and \<open>Prefetch_Properties\<close> are about the controller, \<open>Cached_Laws\<close>, \<open>Cached_Reads\<close>,
    \<open>Cached_Properties\<close> and \<open>Cached_Budget\<close> about the reads; \<open>Demo_Files\<close> is a concrete remote.
  \<^item> \<open>Adapter_State\<close>, \<open>Adapter_Tables\<close>, \<open>Adapter_Files\<close>, \<open>Adapter_Nodes\<close>:
    \<^verbatim>\<open>clients/macos/filesystem-macfuse/src/lib.rs\<close>: the tables, the callbacks on open files and those on
    names and attributes. \<open>Adapter_Laws\<close>, \<open>Adapter_Invariant\<close>, \<open>Adapter_Sound\<close>: well-formed tables;
    \<open>Adapter_Reads\<close>, \<open>Adapter_Refines\<close>, \<open>Adapter_Bounds\<close>: the read loop and the write buffer;
    \<open>Adapter_Properties\<close>; \<open>Demo_Adapter\<close> is a concrete remote.
  \<^item> \<open>Trust_Store\<close>, \<open>Trust_Properties\<close>: \<^verbatim>\<open>crates/client-core/src/trust.rs\<close> and the trust commands of
    \<^verbatim>\<open>clients/macos/client-cli/src/main.rs\<close>.
  \<^item> \<open>Auth_Model\<close>, \<open>Auth_Props\<close>, \<open>Auth_Properties\<close>: \<^verbatim>\<open>crates/auth\<close>.
  \<^item> \<open>Daemon_Service\<close>: one request of a connection in \<^verbatim>\<open>servers/linux/server-daemon/src/main.rs\<close>;
    \<open>Daemon_Limits\<close> and \<open>Daemon_Properties\<close>; \<open>Demo_Daemon\<close> is a concrete daemon. \<open>Daemon_Tasks\<close> runs the accept loop and
    the stages of many requests interleaved, with the permits they hold; \<open>Daemon_Budgets\<close> shows that the permits
    are conserved and that a request run alone is the one-step handler (\<open>read_alone\<close>, \<open>write_alone\<close>).
  \<^item> \<open>System_Wire\<close>, \<open>System_Properties\<close>, \<open>Pairing_Properties\<close>: the client's network layer connected to
    the daemon.

  \<^bold>\<open>Interfaces.\<close> Locales state what a client relies on, and are interpreted on the model:
  \<open>lock_table\<close> (a lock table as an assignment of kinds to bytes and owners; by the lock list),
  \<open>range_cache\<close> (a hit is what a store of true bytes justifies; by both volatile caches),
  \<open>step_invariant\<close> (an invariant of one session's operations holds in all reachable worlds; by
  the registry and the reference counts), \<open>answering_peer\<close> (a request gets at most one reply,
  under its identifier; by the daemon), \<open>file_cache\<close> (what a cache below \<^verbatim>\<open>CachedFilesystem\<close> promises; by the
  caches of \<^verbatim>\<open>crates/cache\<close>), \<open>read_loop_invariant\<close> (the proof rule of the adapter's read loop; by the
  unchanged tables).

  \<^bold>\<open>What is shown\<close>, with the names of the theorems.
  \<^item> Server core: permits neither leak nor multiply and the indexes agree in every interleaving
    (\<open>registry_sound_reachable\<close>); forgetting nodes succeeds as long as no path is dropped
    (\<open>forget_succeeds_reachable\<close>) and fails after the last path of a known node was (\<open>forget_fails_after_path_removal\<close>); conflicting
    locks never coexist (\<open>locks_exclude_reachable\<close>); lock updates refine an assignment of kinds to
    bytes (\<open>set_lock_attempt_refines\<close>).
  \<^item> Server data: a read is of one version of the file (\<open>session_read_untorn\<close>), written bytes are read back
    (\<open>written_bytes_read_back\<close>), a copy has the effect of \<^verbatim>\<open>memmove\<close> (\<open>copy_moves_range\<close>), an exchange swaps two files
    (\<open>exchange_swaps\<close>) or, failing, can lose one (\<open>failed_exchange_loses_file\<close>); names of attributes survive
    their encoding (\<open>xattr_name_roundtrip\<close>).
  \<^item> Server names: in every interleaving the registered paths are plain and name the files of their nodes
    (\<open>registry_tracks_tree\<close>), an opened file is the file of its node (\<open>opened_file_is_node\<close>), a directory view is in order
    and within its bounds (\<open>directory_view_bounded\<close>).
  \<^item> Protocol: frames round trip over a byte stream (\<open>frame_stream_roundtrip\<close>).
  \<^item> Reconnecting client: a mutation is sent at most once (\<open>mutation_sent_at_most_once\<close>); handles stay with
    the connection that issued them (\<open>handles_stay_with_connection\<close>); reads recover from a lost
    connection (\<open>read_recovers\<close>) after a bounded number of attempts (\<open>reconnect_bounded\<close>); clearing the lock
    history (\<open>unlock_drops_history\<close>).
  \<^item> Caches: ranges are exact (\<open>assemble_range_exact\<close>); no tier returns a wrong byte (\<open>hot_range_cache_true\<close>,
    \<open>persistent_ranges_true\<close>, which has the coverage of a covering hit; \<open>insert_then_read\<close>); budgets, manifest and recovery (\<open>persistent_cache_sound\<close>,
    \<open>hot_cache_budget\<close>, \<open>manifest_roundtrip\<close>, \<open>batch_writes_manifest_once\<close>, \<open>batch_removes_payload_early\<close>).
  \<^item> Caching client: a read through cache and read-ahead is of one revision (\<open>cached_read_untorn\<close>); read-ahead
    stays within its budget (\<open>read_ahead_in_flight_bounded\<close>) and asks for the blocks a demand read looks up
    (\<open>prefetch_coalesces\<close>), except after an unaligned end (\<open>prefetch_misaligned\<close>).
  \<^item> Adapter: its tables agree in every reachable state (\<open>adapter_tables_sound\<close>) and an inode number means one
    node for ever (\<open>inode_identity_stable\<close>); buffered writes refine writes to a list of bytes
    (\<open>buffered_calls_refine\<close>); a read is of one revision (\<open>adapter_read_untorn\<close>) and ends after a bounded number of
    requests (\<open>read_requests_bounded\<close>); what a failed flush loses (\<open>failed_flush_drops_bytes\<close>) and what another
    handle does not see (\<open>other_buffer_unread\<close>).
  \<^item> Trust store: its commands refine edits of a map of pins, with what a failed existence check may do spelt out
    (\<open>trust_edits_refine\<close>); an imported pin is the one loaded (\<open>imported_pin_loads\<close>); with both existence checks failing the
    other pins are lost (\<open>blind_import_drops_pins\<close>).
  \<^item> Authentication: administration refines a map of accounts (\<open>user_edit_refines\<close>); pairing codes
    (\<open>pairing_code_roundtrip\<close>).
  \<^item> Daemon: nothing of the export is reached before a login (\<open>login_required\<close>); the login rate
    (\<open>auth_rate_limited\<close>); in every interleaving of requests the permits of every budget are conserved, a waiting read is
    granted and a write taken exactly when it fits beside what the others hold (\<open>budgets_conserved\<close>).
  \<^item> Both sides: directory views arrive whole (\<open>directory_view_roundtrip\<close>), batches agree with single requests
    (\<open>metadata_batch_equivalent\<close>), pairing succeeds once (\<open>pairing_completes_once\<close>), the length of an extended
    attribute is not checked (\<open>xattr_length_unchecked\<close>).

  \<^bold>\<open>Parameters.\<close> Code outside the repository is an argument with named laws: serialisation
  (postcard, JSON) and zstd; SHA-256, HMAC, Argon2, Base64; the connections of the resilient
  client (\<open>remote_api\<close>), the file system below the caching client and the adapter (\<open>remote_fs\<close>), the cache
  of the caching client (\<open>fs_cache\<close>) and the QUIC stream of the network layer (\<open>quic\<close>); Unicode
  normalisation; the operations of the export as the daemon calls them (\<open>export_api\<close>), the system calls below the
  server (\<open>host\<close>, \<open>names\<close>, \<open>side_host\<close>, with the hashes and codecs in \<open>server_env\<close>), and JSON and hex of the trust store (\<open>trust_env\<close>). Random bytes, UUIDs, clocks and I/O
  failures are arguments or part of the state.

  \<^bold>\<open>Abstractions.\<close> An operation of a session, of the client or of the daemon is one step: await
  points inside it are not interleaved with other tasks; the sessions of an export interleave
  by whole operations. The requests of the daemon that carry file bytes also run in stages (\<open>Daemon_Tasks\<close>):
  there a read waits for its permits; in the one-step handler a request that has to wait gets no reply. Times are numbers. Loops of the
  code are recursive functions with a termination proof; the reconnect loop counts the
  attempts left, \<open>collect_chunks\<close> consumes the frames of the stream; no other fuel is used.

  \<^bold>\<open>Not modelled.\<close> The writer thread of the persistent cache, the state file of an export, the gates and the parallel
  scan tasks of \<^verbatim>\<open>ExportSession\<close> (an operation is one step), the endpoint and its shutdown, TLS and certificate files, the kernel
  interface of the adapter (\<^verbatim>\<open>native.rs\<close>), command lines and the window, which are input and output or
  calls of libraries.
\<close>

end
